(* ===== verification/Prelude.thy ===== *)
theory Prelude
  imports Main "HOL-Library.Word" "HOL-Library.AList"
begin

text \<open>
  Shared vocabulary of the development: the widths of Rust's integers, byte strings and their
  big-endian encodings, strings as byte sequences, the map operations of \<open>std::collections\<close>
  that the sources use, and the generic lemmas the component theories rely on.

  A Rust \<open>String\<close> is a sequence of bytes here (\<^typ>\<open>string\<close> is a list of 8-bit characters), so
  \<^term>\<open>length s\<close> is Rust's \<open>s.len()\<close>. A \<open>HashMap\<close> or \<open>BTreeMap\<close> is a partial function whose
  domain is finite in every reachable state; \<^term>\<open>m(k := None)\<close> is \<open>remove\<close>. An \<open>Instant\<close> is a
  natural number of nanoseconds and \<open>now.duration_since(t)\<close>, which saturates at zero, is the
  truncating subtraction of naturals.
\<close>

section \<open>Types\<close>

type_synonym u8 = "8 word"
type_synonym u16 = "16 word"
type_synonym u32 = "32 word"
type_synonym u64 = "64 word"
type_synonym bytes = "u8 list"
type_synonym peer_id = string
type_synonym room_id = string
type_synonym feature_id = string
type_synonym instant = nat

named_theorems wire_simps \<open>evaluation of the wire encoders and decoders\<close>
named_theorems map_simps \<open>lookups and domains of the map operations\<close>

section \<open>Maps\<close>

definition msize :: "('k \<rightharpoonup> 'v) \<Rightarrow> nat" where
  "msize m = card (dom m)"

definition retain :: "('k \<Rightarrow> 'v \<Rightarrow> bool) \<Rightarrow> ('k \<rightharpoonup> 'v) \<Rightarrow> ('k \<rightharpoonup> 'v)" where
  "retain P m = (\<lambda>k. case m k of None \<Rightarrow> None | Some v \<Rightarrow> if P k v then Some v else None)"

lemma retain_apply [map_simps]:
  "retain P m k = (case m k of None \<Rightarrow> None | Some v \<Rightarrow> if P k v then Some v else None)"
  by (simp add: retain_def)

lemma retain_Some_iff [simp]: "retain P m k = Some v \<longleftrightarrow> m k = Some v \<and> P k v"
  by (auto simp: retain_def split: option.splits)

lemma retain_empty [simp]: "retain P Map.empty = Map.empty"
  by (simp add: retain_def fun_eq_iff)

lemma dom_retain: "dom (retain P m) = {k \<in> dom m. P k (the (m k))}"
  by (auto simp: retain_def dom_def split: option.splits)

lemma dom_retain_subset: "dom (retain P m) \<subseteq> dom m"
  by (auto simp: dom_retain)

lemma finite_dom_retain [simp, intro]: "finite (dom m) \<Longrightarrow> finite (dom (retain P m))"
  by (rule finite_subset [OF dom_retain_subset])

lemma msize_retain_le: "finite (dom m) \<Longrightarrow> msize (retain P m) \<le> msize m"
  by (simp add: msize_def card_mono dom_retain_subset)

lemma msize_empty [simp]: "msize Map.empty = 0"
  by (simp add: msize_def)

lemma msize_upd: "finite (dom m) \<Longrightarrow> msize (m(k \<mapsto> v)) = (if k \<in> dom m then msize m else Suc (msize m))"
  by (simp add: msize_def insert_absorb)

lemma msize_del: "finite (dom m) \<Longrightarrow> msize (m(k := None)) = (if k \<in> dom m then msize m - 1 else msize m)"
  by (simp add: msize_def)

lemma msize_del_le: "finite (dom m) \<Longrightarrow> msize (m(k := None)) \<le> msize m"
  by (simp add: msize_del)

lemma msize_eq_0: "finite (dom m) \<Longrightarrow> msize m = 0 \<longleftrightarrow> m = Map.empty"
  by (simp add: msize_def)

lemma length_filter_bound: "length xs \<le> n \<Longrightarrow> length (filter P xs) \<le> n"
  by (rule le_trans [OF length_filter_le])

section \<open>Strings and bytes\<close>

definition as_bytes :: "string \<Rightarrow> bytes" where
  "as_bytes s = map (\<lambda>c. word_of_nat (of_char c)) s"

definition string_of_bytes :: "bytes \<Rightarrow> string" where
  "string_of_bytes bs = map (\<lambda>b. char_of (unat b)) bs"

lemma length_as_bytes [simp]: "length (as_bytes s) = length s"
  by (simp add: as_bytes_def)

lemma string_of_bytes_as_bytes [simp]: "string_of_bytes (as_bytes s) = s"
proof -
  have "char_of (unat (word_of_nat (of_char c) :: u8)) = c" for c :: char
  proof -
    have "(of_char c :: nat) < 256" by simp
    then have "unat (word_of_nat (of_char c) :: u8) = of_char c"
      by (simp add: unat_of_nat)
    then show ?thesis by simp
  qed
  then show ?thesis by (simp add: as_bytes_def string_of_bytes_def map_idI)
qed

lemma as_bytes_append: "as_bytes (a @ b) = as_bytes a @ as_bytes b"
  by (simp add: as_bytes_def)

lemma inj_as_bytes: "as_bytes s = as_bytes t \<longleftrightarrow> s = t"
  by (metis string_of_bytes_as_bytes)

text \<open>\<open>str::trim_end_matches(c)\<close>: drop every trailing occurrence of one character.\<close>

definition trim_end :: "char \<Rightarrow> string \<Rightarrow> string" where
  "trim_end c s = rev (dropWhile (\<lambda>x. x = c) (rev s))"

lemma trim_end_append_self [simp]: "trim_end c (s @ [c]) = trim_end c s"
  by (simp add: trim_end_def)

lemma trim_end_id: "s = [] \<or> last s \<noteq> c \<Longrightarrow> trim_end c s = s"
  by (cases s rule: rev_cases) (auto simp: trim_end_def)

lemma trim_end_last: "trim_end c s = [] \<or> last (trim_end c s) \<noteq> c"
proof (cases "dropWhile (\<lambda>x. x = c) (rev s)")
  case Nil
  then show ?thesis by (simp add: trim_end_def)
next
  case (Cons x xs)
  then have "x \<noteq> c" using hd_dropWhile [of "\<lambda>x. x = c" "rev s"] by simp
  with Cons show ?thesis by (simp add: trim_end_def)
qed

lemma trim_end_idem [simp]: "trim_end c (trim_end c s) = trim_end c s"
  by (rule trim_end_id) (rule trim_end_last)

lemma trim_end_snoc: "x \<noteq> c \<Longrightarrow> trim_end c (s @ [x]) = s @ [x]"
  by (simp add: trim_end_def)

section \<open>Big-endian integers\<close>

text \<open>\<open>to_be_bytes\<close> and \<open>from_be_bytes\<close> for an integer of \<open>n\<close> bytes, on naturals.\<close>

fun be_bytes :: "nat \<Rightarrow> nat \<Rightarrow> bytes" where
  "be_bytes 0 v = []"
| "be_bytes (Suc n) v = be_bytes n (v div 256) @ [word_of_nat (v mod 256)]"

definition of_be :: "bytes \<Rightarrow> nat" where
  "of_be bs = foldl (\<lambda>acc b. acc * 256 + unat b) 0 bs"

lemma length_be_bytes [simp]: "length (be_bytes n v) = n"
  by (induction n arbitrary: v) auto

lemma of_be_snoc: "of_be (bs @ [b]) = of_be bs * 256 + unat b"
  by (simp add: of_be_def)

lemma of_be_be_bytes: "of_be (be_bytes n v) = v mod 256 ^ n"
proof (induction n arbitrary: v)
  case 0
  then show ?case by (simp add: of_be_def)
next
  case (Suc n)
  have "unat (word_of_nat (v mod 256) :: u8) = v mod 256"
    by (simp add: unat_of_nat)
  then have "of_be (be_bytes (Suc n) v) = (v div 256 mod 256 ^ n) * 256 + v mod 256"
    by (simp add: of_be_snoc Suc.IH)
  also have "\<dots> = v mod 256 ^ Suc n"
    by (simp add: mod_mult2_eq)
  finally show ?case .
qed

lemma of_be_less: "of_be bs < 256 ^ length bs"
proof (induction bs rule: rev_induct)
  case Nil
  then show ?case by (simp add: of_be_def)
next
  case (snoc b bs)
  have "unat b < 256" using unsigned_less [of b, where ?'a = nat] by simp
  moreover have "Suc (of_be bs) * 256 \<le> 256 ^ length bs * 256"
    using snoc.IH by (intro mult_le_mono1) simp
  ultimately have "of_be bs * 256 + unat b < 256 ^ length bs * 256" by simp
  then show ?case by (simp add: of_be_snoc mult.commute)
qed

definition u16_to_be :: "u16 \<Rightarrow> bytes" where "u16_to_be w = be_bytes 2 (unat w)"
definition u32_to_be :: "u32 \<Rightarrow> bytes" where "u32_to_be w = be_bytes 4 (unat w)"
definition u64_to_be :: "u64 \<Rightarrow> bytes" where "u64_to_be w = be_bytes 8 (unat w)"
definition u16_from_be :: "bytes \<Rightarrow> u16" where "u16_from_be bs = word_of_nat (of_be bs)"
definition u32_from_be :: "bytes \<Rightarrow> u32" where "u32_from_be bs = word_of_nat (of_be bs)"
definition u64_from_be :: "bytes \<Rightarrow> u64" where "u64_from_be bs = word_of_nat (of_be bs)"

lemma length_to_be [simp]:
  "length (u16_to_be a) = 2" "length (u32_to_be b) = 4" "length (u64_to_be c) = 8"
  by (simp_all add: u16_to_be_def u32_to_be_def u64_to_be_def)

lemma from_be_to_be [simp, wire_simps]:
  "u16_from_be (u16_to_be a) = a" "u32_from_be (u32_to_be b) = b" "u64_from_be (u64_to_be c) = c"
proof -
  have "unat a < 256 ^ 2" "unat b < 256 ^ 4" "unat c < 256 ^ 8"
    using unsigned_less [of a, where ?'a = nat] unsigned_less [of b, where ?'a = nat]
      unsigned_less [of c, where ?'a = nat] by simp_all
  then show "u16_from_be (u16_to_be a) = a" "u32_from_be (u32_to_be b) = b"
    "u64_from_be (u64_to_be c) = c"
    by (simp_all only: u16_from_be_def u16_to_be_def u32_from_be_def u32_to_be_def
        u64_from_be_def u64_to_be_def of_be_be_bytes mod_less) simp_all
qed

text \<open>A range of byte values, in order: \<open>lo..hi\<close> of Rust.\<close>

lemma unat_byte: "n < 256 \<Longrightarrow> unat (word_of_nat n :: u8) = n"
  by (simp add: unat_of_nat)

lemma byte_range:
  assumes "b \<le> 256"
  shows "set (map (word_of_nat :: nat \<Rightarrow> u8) [a..<b]) = {w. a \<le> unat w \<and> unat w < b}"
    and "distinct (map (word_of_nat :: nat \<Rightarrow> u8) [a..<b])"
    and "sorted (map (word_of_nat :: nat \<Rightarrow> u8) [a..<b])"
proof -
  show "set (map (word_of_nat :: nat \<Rightarrow> u8) [a..<b]) = {w. a \<le> unat w \<and> unat w < b}"
  proof (intro set_eqI iffI)
    fix w :: u8 assume "w \<in> set (map word_of_nat [a..<b])"
    then show "w \<in> {w. a \<le> unat w \<and> unat w < b}"
      using assms by (auto simp: unat_byte)
  next
    fix w :: u8 assume "w \<in> {w. a \<le> unat w \<and> unat w < b}"
    then have "unat w \<in> {a..<b}" by simp
    then have "word_of_nat (unat w) \<in> set (map (word_of_nat :: nat \<Rightarrow> u8) [a..<b])"
      by (metis image_eqI set_map set_upt)
    then show "w \<in> set (map word_of_nat [a..<b])" by simp
  qed
  have "inj_on (word_of_nat :: nat \<Rightarrow> u8) {a..<b}"
    using assms by (intro inj_on_inverseI [of _ unat]) (simp add: unat_byte)
  then show "distinct (map (word_of_nat :: nat \<Rightarrow> u8) [a..<b])"
    by (simp add: distinct_map)
  show "sorted (map (word_of_nat :: nat \<Rightarrow> u8) [a..<b])"
    using assms
    by (auto simp: sorted_iff_nth_mono word_le_nat_alt unat_byte simp flip: of_nat_add)
qed

end
