(* ===== verification/Rust_Str.thy ===== *)
theory Rust_Str
  imports Prelude
begin

text \<open>
  The parts of Rust's \<open>str\<close> the sources use beyond byte equality: UTF-8 validation
  (\<open>std::str::from_utf8\<close>), \<open>trim\<close> and \<open>is_whitespace\<close> over the Unicode \<open>White_Space\<close>
  characters, \<open>split\<close> at a character, and the decimal form of an unsigned integer.
\<close>

section \<open>UTF-8\<close>

definition utf8_cont :: "u8 \<Rightarrow> bool" where
  "utf8_cont b \<longleftrightarrow> 0x80 \<le> b \<and> b \<le> 0xBF"

fun utf8_valid :: "bytes \<Rightarrow> bool" where
  "utf8_valid [] = True"
| "utf8_valid (b # bs) =
     (if b < 0x80 then utf8_valid bs
      else if 0xC2 \<le> b \<and> b \<le> 0xDF then
        (case bs of c1 # r \<Rightarrow> utf8_cont c1 \<and> utf8_valid r | _ \<Rightarrow> False)
      else if 0xE0 \<le> b \<and> b \<le> 0xEF then
        (case bs of c1 # c2 # r \<Rightarrow>
            (if b = 0xE0 then 0xA0 \<le> c1 \<and> c1 \<le> 0xBF
             else if b = 0xED then 0x80 \<le> c1 \<and> c1 \<le> 0x9F
             else utf8_cont c1) \<and> utf8_cont c2 \<and> utf8_valid r
          | _ \<Rightarrow> False)
      else if 0xF0 \<le> b \<and> b \<le> 0xF4 then
        (case bs of c1 # c2 # c3 # r \<Rightarrow>
            (if b = 0xF0 then 0x90 \<le> c1 \<and> c1 \<le> 0xBF
             else if b = 0xF4 then 0x80 \<le> c1 \<and> c1 \<le> 0x8F
             else utf8_cont c1) \<and> utf8_cont c2 \<and> utf8_cont c3 \<and> utf8_valid r
          | _ \<Rightarrow> False)
      else False)"

text \<open>
  \<open>&s[..n]\<close> panics unless \<open>n\<close> is on a character boundary; \<open>None\<close> is the panic.
\<close>

definition str_prefix :: "nat \<Rightarrow> string \<Rightarrow> string option" where
  "str_prefix n s = (if n = length s \<or> n = 0 \<or> n < length s \<and> \<not> utf8_cont (as_bytes s ! n)
     then Some (take n s) else None)"

text \<open>Every ASCII string, in particular every base64url peer id, is valid UTF-8.\<close>

lemma utf8_valid_ascii: "\<forall>b \<in> set bs. b < 0x80 \<Longrightarrow> utf8_valid bs"
  by (induction bs) auto

definition from_utf8 :: "bytes \<Rightarrow> string option" where
  "from_utf8 bs = (if utf8_valid bs then Some (string_of_bytes bs) else None)"

lemma from_utf8_as_bytes [simp]: "utf8_valid (as_bytes s) \<Longrightarrow> from_utf8 (as_bytes s) = Some s"
  by (simp add: from_utf8_def)

section \<open>Whitespace\<close>

text \<open>The UTF-8 encodings of the characters with the \<open>White_Space\<close> property.\<close>

definition ws_seqs :: "string list" where
  "ws_seqs = map (map char_of) ([[9], [10], [11], [12], [13], [32], [0xC2, 0x85], [0xC2, 0xA0],
     [0xE1, 0x9A, 0x80]] @ map (\<lambda>k. [0xE2, 0x80, k]) [0x80..<0x8B] @
     [[0xE2, 0x80, 0xA8], [0xE2, 0x80, 0xA9], [0xE2, 0x80, 0xAF], [0xE2, 0x81, 0x9F],
      [0xE3, 0x80, 0x80 :: nat]])"

definition ws_prefix :: "string \<Rightarrow> nat" where
  "ws_prefix s = (case find (\<lambda>w. take (length w) s = w) ws_seqs of
     None \<Rightarrow> 0 | Some w \<Rightarrow> length w)"

definition ws_suffix :: "string \<Rightarrow> nat" where
  "ws_suffix s = (case find (\<lambda>w. length w \<le> length s \<and> drop (length s - length w) s = w) ws_seqs of
     None \<Rightarrow> 0 | Some w \<Rightarrow> length w)"

function trim_start_ws :: "string \<Rightarrow> string" where
  "trim_start_ws s = (if ws_prefix s = 0 \<or> s = [] then s else trim_start_ws (drop (ws_prefix s) s))"
  by pat_completeness auto
termination
  by (relation "measure length") auto

function trim_end_ws :: "string \<Rightarrow> string" where
  "trim_end_ws s = (if ws_suffix s = 0 \<or> s = [] then s
     else trim_end_ws (take (length s - ws_suffix s) s))"
  by pat_completeness auto
termination
  by (relation "measure length") auto

declare trim_start_ws.simps [simp del] trim_end_ws.simps [simp del]

definition trim_ws :: "string \<Rightarrow> string" where
  "trim_ws s = trim_end_ws (trim_start_ws s)"

fun contains_ws :: "string \<Rightarrow> bool" where
  "contains_ws [] = False"
| "contains_ws (c # s) = (ws_prefix (c # s) \<noteq> 0 \<or> contains_ws s)"

text \<open>Printable ASCII has no whitespace in it.\<close>

definition printable :: "string \<Rightarrow> bool" where
  "printable s \<longleftrightarrow> list_all (\<lambda>c. 32 < (of_char c :: nat) \<and> (of_char c :: nat) < 127) s"

lemma ws_seqs_heads:
  "w \<in> set ws_seqs \<Longrightarrow> w \<noteq> [] \<and> ((of_char (hd w) :: nat) \<le> 32 \<or> 127 \<le> (of_char (hd w) :: nat))"
  by (auto simp: ws_seqs_def)

lemma printable_no_seq:
  assumes "printable s" "set w \<subseteq> set s"
  shows "w \<notin> set ws_seqs"
proof
  assume "w \<in> set ws_seqs"
  from ws_seqs_heads [OF this] have "hd w \<in> set w" "\<not> (32 < (of_char (hd w) :: nat) \<and> (of_char (hd w) :: nat) < 127)"
    by auto
  with assms show False by (auto simp: printable_def list_all_iff)
qed

lemma printable_prefix: "printable s \<Longrightarrow> ws_prefix s = 0"
proof -
  assume p: "printable s"
  have "find (\<lambda>w. take (length w) s = w) ws_seqs = None"
    unfolding find_None_iff using printable_no_seq [OF p] by (metis set_take_subset)
  then show ?thesis by (simp add: ws_prefix_def)
qed

lemma printable_suffix: "printable s \<Longrightarrow> ws_suffix s = 0"
proof -
  assume p: "printable s"
  have "find (\<lambda>w. length w \<le> length s \<and> drop (length s - length w) s = w) ws_seqs = None"
    unfolding find_None_iff using printable_no_seq [OF p] by (metis set_drop_subset)
  then show ?thesis by (simp add: ws_suffix_def)
qed

lemma printable_no_ws: "printable s \<Longrightarrow> \<not> contains_ws s"
proof (induction s)
  case (Cons c s)
  from printable_prefix [OF Cons.prems] Cons show ?case by (simp add: printable_def)
qed simp

lemma printable_trim: "printable s \<Longrightarrow> trim_ws s = s"
  by (simp add: trim_ws_def trim_start_ws.simps [of s] trim_end_ws.simps [of s] printable_prefix printable_suffix)

section \<open>Splitting and decimal numbers\<close>

text \<open>\<open>str::contains\<close> with a string pattern.\<close>

fun str_contains :: "string \<Rightarrow> string \<Rightarrow> bool" where
  "str_contains pat [] \<longleftrightarrow> pat = []"
| "str_contains pat (c # s) \<longleftrightarrow> take (length pat) (c # s) = pat \<or> str_contains pat s"

text \<open>\<open>s.split(c).next()\<close>: the part before the first separator; it is never absent.\<close>

definition split_first :: "char \<Rightarrow> string \<Rightarrow> string" where
  "split_first c s = takeWhile (\<lambda>x. x \<noteq> c) s"

definition digit_of :: "char \<Rightarrow> nat option" where
  "digit_of c = (if 48 \<le> (of_char c :: nat) \<and> (of_char c :: nat) \<le> 57 then Some (of_char c - 48) else None)"

text \<open>\<open>str::parse::<u32>\<close>: an optional plus sign, then digits, with overflow an error.\<close>

fun parse_digits :: "nat \<Rightarrow> string \<Rightarrow> nat option" where
  "parse_digits acc [] = Some acc"
| "parse_digits acc (c # s) = (case digit_of c of None \<Rightarrow> None
     | Some d \<Rightarrow> let v = acc * 10 + d in if v < 2 ^ 32 then parse_digits v s else None)"

definition parse_u32 :: "string \<Rightarrow> nat option" where
  "parse_u32 s = (case s of [] \<Rightarrow> None
     | c # r \<Rightarrow> if c = CHR ''+'' then (if r = [] then None else parse_digits 0 r)
              else parse_digits 0 s)"

fun show_nat :: "nat \<Rightarrow> string" where
  "show_nat n = (if n < 10 then [char_of (48 + n)]
     else show_nat (n div 10) @ [char_of (48 + n mod 10)])"

declare show_nat.simps [simp del]

lemma digit_of_char_of: "d < 10 \<Longrightarrow> digit_of (char_of (48 + d)) = Some d"
  by (simp add: digit_of_def)

lemma parse_digits_append:
  "parse_digits acc (s @ t) = (case parse_digits acc s of None \<Rightarrow> None | Some v \<Rightarrow> parse_digits v t)"
  by (induction s arbitrary: acc) (auto simp: Let_def split: option.splits)

lemma parse_digits_show_nat: "n < 2 ^ 32 \<Longrightarrow> parse_digits 0 (show_nat n) = Some n"
proof (induction n rule: show_nat.induct)
  case (1 n)
  show ?case
  proof (cases "n < 10")
    case True
    then show ?thesis by (subst show_nat.simps) (simp add: digit_of_char_of)
  next
    case False
    with 1 have "parse_digits 0 (show_nat (n div 10)) = Some (n div 10)" by simp
    with False "1.prems" show ?thesis
      by (subst show_nat.simps) (simp add: parse_digits_append digit_of_char_of)
  qed
qed

lemma show_nat_inj: "m < 2 ^ 32 \<Longrightarrow> n < 2 ^ 32 \<Longrightarrow> show_nat m = show_nat n \<Longrightarrow> m = n"
  by (metis option.inject parse_digits_show_nat)

end
