(* ===== verification/Quota.thy ===== *)
theory Quota
  imports Prelude Complex_Main
begin

text \<open>
  The token buckets of \<open>conquerd-features/src/quota.rs\<close>. Token counts and rates are \<open>f64\<close> in the
  code and exact rationals here, so the theorems speak of the algorithm without rounding. The
  JSON parameters of a descriptor are read through one accessor, \<open>get_f64 key\<close>, standing for
  \<open>params.get(key).and_then(|v| v.as_f64())\<close>. \<open>Instant::now()\<close> is the argument \<open>now\<close>.
\<close>

section \<open>Rates\<close>

definition DEFAULT_BYTES_PER_SEC :: rat where "DEFAULT_BYTES_PER_SEC = 64 * 1024"
definition DEFAULT_DATAGRAMS_PER_SEC :: rat where "DEFAULT_DATAGRAMS_PER_SEC = 256"

record quota_params =
  qp_bytes_per_sec :: rat
  qp_datagrams_per_sec :: rat

type_synonym json_f64 = "string \<Rightarrow> rat option"

definition quota_default :: quota_params where
  "quota_default = \<lparr>qp_bytes_per_sec = DEFAULT_BYTES_PER_SEC,
     qp_datagrams_per_sec = DEFAULT_DATAGRAMS_PER_SEC\<rparr>"

definition read_params :: "json_f64 \<Rightarrow> string \<Rightarrow> string \<Rightarrow> rat \<Rightarrow> rat \<Rightarrow> quota_params" where
  "read_params get_f64 bytes_key datagrams_key default_bytes default_datagrams =
     (let raw_bytes = (case get_f64 bytes_key of Some v \<Rightarrow> v | None \<Rightarrow> default_bytes);
          raw_dg = (case get_f64 datagrams_key of Some v \<Rightarrow> v | None \<Rightarrow> default_datagrams)
      in \<lparr>qp_bytes_per_sec = (if raw_bytes = 0 then 0 else max raw_bytes 1),
          qp_datagrams_per_sec = (if raw_dg = 0 then 0 else max raw_dg 1)\<rparr>)"

definition from_params :: "json_f64 \<Rightarrow> quota_params" where
  "from_params get_f64 = read_params get_f64 ''quota_bytes_per_sec'' ''quota_datagrams_per_sec''
     DEFAULT_BYTES_PER_SEC DEFAULT_DATAGRAMS_PER_SEC"

definition from_params_outbound :: "json_f64 \<Rightarrow> quota_params" where
  "from_params_outbound get_f64 =
     (let inbound = from_params get_f64 in
      read_params get_f64 ''quota_bytes_per_sec_outbound'' ''quota_datagrams_per_sec_outbound''
        (qp_bytes_per_sec inbound) (qp_datagrams_per_sec inbound))"

definition is_unbounded :: "quota_params \<Rightarrow> bool" where
  "is_unbounded p \<longleftrightarrow> qp_bytes_per_sec p = 0 \<and> qp_datagrams_per_sec p = 0"

section \<open>One bucket\<close>

record quota_state =
  qs_bytes_tokens :: rat
  qs_datagram_tokens :: rat
  qs_last_refill :: instant
  qs_params :: quota_params

definition new_bucket :: "quota_params \<Rightarrow> instant \<Rightarrow> quota_state" where
  "new_bucket p now = \<lparr>qs_bytes_tokens = qp_bytes_per_sec p,
     qs_datagram_tokens = qp_datagrams_per_sec p, qs_last_refill = now, qs_params = p\<rparr>"

definition secs :: "nat \<Rightarrow> rat" where
  "secs ns = of_nat ns / 1000000000"

definition refill :: "instant \<Rightarrow> quota_state \<Rightarrow> quota_state" where
  "refill now s =
     (let elapsed = secs (now - qs_last_refill s);
          bps = qp_bytes_per_sec (qs_params s);
          dps = qp_datagrams_per_sec (qs_params s)
      in s\<lparr>qs_last_refill := now,
           qs_bytes_tokens := (if bps > 0 then min (qs_bytes_tokens s + bps * elapsed) bps
                               else qs_bytes_tokens s),
           qs_datagram_tokens := (if dps > 0 then min (qs_datagram_tokens s + dps * elapsed) dps
                                  else qs_datagram_tokens s)\<rparr>)"

definition bucket_consume :: "instant \<Rightarrow> nat \<Rightarrow> quota_state \<Rightarrow> bool \<times> quota_state" where
  "bucket_consume now byte_count s =
     (if is_unbounded (qs_params s) then (True, s)
      else let s1 = refill now s;
               bps = qp_bytes_per_sec (qs_params s1);
               dps = qp_datagrams_per_sec (qs_params s1);
               bytes_ok = (bps = 0 \<or> qs_bytes_tokens s1 \<ge> of_nat byte_count);
               dg_ok = (dps = 0 \<or> qs_datagram_tokens s1 \<ge> 1)
           in if bytes_ok \<and> dg_ok
              then (True, s1\<lparr>qs_bytes_tokens :=
                                (if bps > 0 then qs_bytes_tokens s1 - of_nat byte_count
                                 else qs_bytes_tokens s1),
                             qs_datagram_tokens :=
                                (if dps > 0 then qs_datagram_tokens s1 - 1
                                 else qs_datagram_tokens s1)\<rparr>)
              else (False, s1))"

definition bucket_consume_datagram :: "instant \<Rightarrow> quota_state \<Rightarrow> bool \<times> quota_state" where
  "bucket_consume_datagram now s =
     (if qp_datagrams_per_sec (qs_params s) = 0 then (True, s)
      else let s1 = refill now s in
        if qs_datagram_tokens s1 \<ge> 1
        then (True, s1\<lparr>qs_datagram_tokens := qs_datagram_tokens s1 - 1\<rparr>)
        else (False, s1))"

section \<open>The registry of buckets\<close>

type_synonym quota_registry = "(feature_id \<times> peer_id) \<rightharpoonup> quota_state"

definition new_quotas :: quota_registry where "new_quotas = Map.empty"

definition bucket_for :: "feature_id \<Rightarrow> peer_id \<Rightarrow> quota_params \<Rightarrow> instant \<Rightarrow> quota_registry \<Rightarrow> quota_state" where
  "bucket_for f p params now q = (case q (f, p) of Some s \<Rightarrow> s | None \<Rightarrow> new_bucket params now)"

definition try_consume ::
  "feature_id \<Rightarrow> peer_id \<Rightarrow> nat \<Rightarrow> quota_params \<Rightarrow> instant \<Rightarrow> quota_registry \<Rightarrow> bool \<times> quota_registry" where
  "try_consume f p byte_count params now q =
     (let (ok, s) = bucket_consume now byte_count (bucket_for f p params now q)
      in (ok, q((f, p) \<mapsto> s)))"

definition try_consume_datagram ::
  "feature_id \<Rightarrow> peer_id \<Rightarrow> quota_params \<Rightarrow> instant \<Rightarrow> quota_registry \<Rightarrow> bool \<times> quota_registry" where
  "try_consume_datagram f p params now q =
     (let (ok, s) = bucket_consume_datagram now (bucket_for f p params now q)
      in (ok, q((f, p) \<mapsto> s)))"

definition clear_peer :: "peer_id \<Rightarrow> quota_registry \<Rightarrow> quota_registry" where
  "clear_peer peer q = retain (\<lambda>(_, p) _. p \<noteq> peer) q"

section \<open>Rates are unbounded or at least one\<close>

definition rate_ok :: "quota_params \<Rightarrow> bool" where
  "rate_ok p \<longleftrightarrow> (qp_bytes_per_sec p = 0 \<or> qp_bytes_per_sec p \<ge> 1) \<and>
     (qp_datagrams_per_sec p = 0 \<or> qp_datagrams_per_sec p \<ge> 1)"

lemma read_params_ok: "rate_ok (read_params g bk dk db dd)"
  by (auto simp: rate_ok_def read_params_def Let_def)

lemma from_params_ok [simp]: "rate_ok (from_params g)" "rate_ok (from_params_outbound g)"
  by (simp_all add: from_params_def from_params_outbound_def read_params_ok Let_def)

lemma rate_okD: "rate_ok p \<Longrightarrow> 0 \<le> qp_bytes_per_sec p \<and> 0 \<le> qp_datagrams_per_sec p"
  by (auto simp: rate_ok_def)

section \<open>The bucket invariant\<close>

definition bucket_ok :: "quota_state \<Rightarrow> bool" where
  "bucket_ok s \<longleftrightarrow> rate_ok (qs_params s) \<and>
     0 \<le> qs_bytes_tokens s \<and> qs_bytes_tokens s \<le> qp_bytes_per_sec (qs_params s) \<and>
     0 \<le> qs_datagram_tokens s \<and> qs_datagram_tokens s \<le> qp_datagrams_per_sec (qs_params s)"

lemma secs_nonneg [simp]: "0 \<le> secs n"
  by (simp add: secs_def)

lemma secs_add: "secs (a + b) = secs a + secs b"
  by (simp add: secs_def add_divide_distrib)

lemma new_bucket_ok: "rate_ok p \<Longrightarrow> bucket_ok (new_bucket p now)"
  using rate_okD [of p] by (simp add: bucket_ok_def new_bucket_def)

lemma refill_params [simp]: "qs_params (refill now s) = qs_params s"
  by (simp add: refill_def Let_def)

lemma refill_last [simp]: "qs_last_refill (refill now s) = now"
  by (simp add: refill_def Let_def)

lemma refill_ok: "bucket_ok s \<Longrightarrow> bucket_ok (refill now s)"
  by (auto simp: bucket_ok_def refill_def Let_def)

lemma bucket_consume_ok: "bucket_ok s \<Longrightarrow> bucket_ok (snd (bucket_consume now n s))"
proof -
  assume "bucket_ok s"
  then have "bucket_ok (refill now s)" by (rule refill_ok)
  then show ?thesis using \<open>bucket_ok s\<close>
    by (auto simp: bucket_consume_def Let_def bucket_ok_def rate_ok_def)
qed

lemma bucket_consume_datagram_ok:
  "bucket_ok s \<Longrightarrow> bucket_ok (snd (bucket_consume_datagram now s))"
proof -
  assume "bucket_ok s"
  then have "bucket_ok (refill now s)" by (rule refill_ok)
  then show ?thesis using \<open>bucket_ok s\<close>
    by (auto simp: bucket_consume_datagram_def Let_def bucket_ok_def rate_ok_def)
qed

lemma bucket_consume_params [simp]: "qs_params (snd (bucket_consume now n s)) = qs_params s"
  by (simp add: bucket_consume_def Let_def)

lemma bucket_for_ok:
  "(\<And>s. q (f, p) = Some s \<Longrightarrow> bucket_ok s) \<Longrightarrow> rate_ok params \<Longrightarrow> bucket_ok (bucket_for f p params now q)"
  by (auto simp: bucket_for_def new_bucket_ok split: option.split)

text \<open>A refused message costs nothing: tokens are those of the refill alone.\<close>

lemma bucket_refused: "fst (bucket_consume now n s) = False \<Longrightarrow> snd (bucket_consume now n s) = refill now s"
  by (auto simp: bucket_consume_def Let_def split: if_splits)

lemma unbounded_accepts: "is_unbounded (qs_params s) \<Longrightarrow> bucket_consume now n s = (True, s)"
  by (simp add: bucket_consume_def)

section \<open>The rate bound\<close>

record quota_event =
  ev_feature :: feature_id
  ev_peer :: peer_id
  ev_bytes :: nat
  ev_time :: instant

text \<open>A run of the registry on a sequence of messages, with the decision for each.\<close>

fun consume_run :: "(feature_id \<Rightarrow> quota_params) \<Rightarrow> quota_event list \<Rightarrow> quota_registry \<Rightarrow> bool list" where
  "consume_run rates [] q = []"
| "consume_run rates (e # es) q =
     (let (ok, q') = try_consume (ev_feature e) (ev_peer e) (ev_bytes e) (rates (ev_feature e)) (ev_time e) q
      in ok # consume_run rates es q')"

definition charged :: "(nat \<Rightarrow> nat) \<Rightarrow> feature_id \<Rightarrow> peer_id \<Rightarrow> quota_event list \<Rightarrow> bool list \<Rightarrow> nat" where
  "charged cost f p es oks = sum_list (map (\<lambda>(e, ok). if ok \<and> ev_feature e = f \<and> ev_peer e = p
     then cost (ev_bytes e) else 0) (zip es oks))"

definition quotas_ok :: "quota_registry \<Rightarrow> bool" where
  "quotas_ok q \<longleftrightarrow> (\<forall>k s. q k = Some s \<longrightarrow> bucket_ok s)"

lemma quotas_ok_try_consume:
  "quotas_ok q \<Longrightarrow> rate_ok params \<Longrightarrow> quotas_ok (snd (try_consume f p n params now q))"
  by (auto simp: quotas_ok_def try_consume_def case_prod_beta Let_def
      intro!: bucket_consume_ok bucket_for_ok)

lemma try_consume_other:
  "(f', p') \<noteq> (f, p) \<Longrightarrow> snd (try_consume f p n params now q) (f', p') = q (f', p')"
  by (auto simp: try_consume_def case_prod_beta Let_def)

lemma try_consume_same:
  "fst (try_consume f p n params now q) = fst (bucket_consume now n (bucket_for f p params now q))"
  "snd (try_consume f p n params now q) (f, p) = Some (snd (bucket_consume now n (bucket_for f p params now q)))"
  by (simp_all add: try_consume_def case_prod_beta Let_def)

text \<open>
  The contract a metered axis of the bucket keeps with its clients: a decision takes what it
  accepts out of the tokens, the tokens grow by at most the rate times the time that passed,
  and a new bucket holds one second's worth. The rate bound follows for any axis.
\<close>

locale metered_axis =
  fixes rate :: "quota_params \<Rightarrow> rat" and tokens :: "quota_state \<Rightarrow> rat" and cost :: "nat \<Rightarrow> nat"
  assumes step: "bucket_ok s \<Longrightarrow> 0 < rate (qs_params s) \<Longrightarrow>
      of_nat (if fst (bucket_consume now n s) then cost n else 0) + tokens (snd (bucket_consume now n s))
        \<le> tokens s + rate (qs_params s) * secs (now - qs_last_refill s)"
    and refilled: "bucket_ok s \<Longrightarrow> 0 < rate (qs_params s) \<Longrightarrow>
      qs_last_refill (snd (bucket_consume now n s)) = now"
    and full: "tokens (new_bucket p now) = rate p"
    and nonneg: "bucket_ok s \<Longrightarrow> 0 \<le> tokens s"
begin

lemma bound_from_bucket:
  assumes "sorted (map ev_time es)" "\<forall>e \<in> set es. qs_last_refill s \<le> ev_time e \<and> ev_time e \<le> tend"
    and "qs_last_refill s \<le> tend" "quotas_ok q" "\<And>f. rate_ok (rates f)" "q (f, p) = Some s"
    and "0 < rate (qs_params s)"
  shows "of_nat (charged cost f p es (consume_run rates es q))
     \<le> tokens s + rate (qs_params s) * secs (tend - qs_last_refill s)"
  using assms
proof (induction es arbitrary: q s)
  case Nil
  then have "bucket_ok s" by (simp add: quotas_ok_def)
  with Nil show ?case by (simp add: charged_def nonneg)
next
  case (Cons e es)
  let ?r = "rate (qs_params s)"
  let ?c = "try_consume (ev_feature e) (ev_peer e) (ev_bytes e) (rates (ev_feature e)) (ev_time e) q"
  have ok: "bucket_ok s" using Cons.prems(4,6) by (simp add: quotas_ok_def)
  have q': "quotas_ok (snd ?c)" by (rule quotas_ok_try_consume [OF Cons.prems(4,5)])
  have run: "consume_run rates (e # es) q = fst ?c # consume_run rates es (snd ?c)"
    by (simp add: case_prod_beta Let_def)
  show ?case
  proof (cases "(ev_feature e, ev_peer e) = (f, p)")
    case False
    then have k: "snd ?c (f, p) = Some s" using Cons.prems(6) try_consume_other by metis
    have "charged cost f p (e # es) (consume_run rates (e # es) q)
        = charged cost f p es (consume_run rates es (snd ?c))"
      using False unfolding run by (auto simp: charged_def)
    then show ?thesis using Cons.IH [OF _ _ Cons.prems(3) q' Cons.prems(5) k Cons.prems(7)] Cons.prems(1,2)
      by simp
  next
    case True
    let ?b = "bucket_consume (ev_time e) (ev_bytes e) s"
    have e: "ev_feature e = f" "ev_peer e = p" using True by simp_all
    have bf: "bucket_for f p (rates f) (ev_time e) q = s" using Cons.prems(6) by (simp add: bucket_for_def)
    have same: "fst ?c = fst ?b" "snd ?c (f, p) = Some (snd ?b)"
      using try_consume_same [of f p] e bf by simp_all
    have l: "qs_last_refill (snd ?b) = ev_time e" by (rule refilled [OF ok Cons.prems(7)])
    have "of_nat (charged cost f p es (consume_run rates es (snd ?c)))
        \<le> tokens (snd ?b) + ?r * secs (tend - ev_time e)"
      using Cons.IH [OF _ _ _ q' Cons.prems(5) same(2)] Cons.prems(1,2,7) l by simp
    moreover have "charged cost f p (e # es) (consume_run rates (e # es) q)
        = (if fst ?b then cost (ev_bytes e) else 0) + charged cost f p es (consume_run rates es (snd ?c))"
      using e same(1) unfolding run by (simp add: charged_def)
    moreover have "secs (tend - qs_last_refill s)
        = secs (ev_time e - qs_last_refill s) + secs (tend - ev_time e)"
      using Cons.prems(2) by (simp flip: secs_add)
    ultimately show ?thesis
      using step [OF ok Cons.prems(7), of "ev_time e" "ev_bytes e"] by (simp add: distrib_left)
  qed
qed

lemma rate_bound:
  assumes "sorted (map ev_time es)" "\<forall>e \<in> set es. tstart \<le> ev_time e \<and> ev_time e \<le> tend"
    and "tstart \<le> tend" "quotas_ok q" "\<And>f. rate_ok (rates f)" "q (f, p) = None" "0 < rate (rates f)"
  shows "of_nat (charged cost f p es (consume_run rates es q))
     \<le> rate (rates f) * (1 + secs (tend - tstart))"
  using assms
proof (induction es arbitrary: q)
  case Nil
  then show ?case by (simp add: charged_def)
next
  case (Cons e es)
  let ?r = "rate (rates f)"
  let ?c = "try_consume (ev_feature e) (ev_peer e) (ev_bytes e) (rates (ev_feature e)) (ev_time e) q"
  have q': "quotas_ok (snd ?c)" by (rule quotas_ok_try_consume [OF Cons.prems(4,5)])
  have run: "consume_run rates (e # es) q = fst ?c # consume_run rates es (snd ?c)"
    by (simp add: case_prod_beta Let_def)
  show ?case
  proof (cases "(ev_feature e, ev_peer e) = (f, p)")
    case False
    then have k: "snd ?c (f, p) = None" using Cons.prems(6) try_consume_other by metis
    have "charged cost f p (e # es) (consume_run rates (e # es) q)
        = charged cost f p es (consume_run rates es (snd ?c))"
      using False unfolding run by (auto simp: charged_def)
    then show ?thesis using Cons.IH [OF _ _ Cons.prems(3) q' Cons.prems(5) k Cons.prems(7)] Cons.prems(1,2)
      by simp
  next
    case True
    let ?s = "new_bucket (rates f) (ev_time e)"
    have e: "ev_feature e = f" "ev_peer e = p" using True by simp_all
    have ns: "quotas_ok (q((f, p) \<mapsto> ?s))"
      using Cons.prems(4,5) by (simp add: quotas_ok_def new_bucket_ok)
    have cr: "consume_run rates (e # es) q = consume_run rates (e # es) (q((f, p) \<mapsto> ?s))"
      using e Cons.prems(6) by (simp add: try_consume_def bucket_for_def)
    have "of_nat (charged cost f p (e # es) (consume_run rates (e # es) (q((f, p) \<mapsto> ?s))))
        \<le> tokens ?s + rate (qs_params ?s) * secs (tend - qs_last_refill ?s)"
      using Cons.prems by (intro bound_from_bucket [OF Cons.prems(1) _ _ ns]) (auto simp: new_bucket_def)
    also have "\<dots> = ?r * (1 + secs (tend - ev_time e))"
      by (simp add: full distrib_left) (simp add: new_bucket_def)
    also have "\<dots> \<le> ?r * (1 + secs (tend - tstart))"
      using Cons.prems(2,7) by (intro mult_left_mono) (simp_all add: secs_def divide_right_mono)
    finally show ?thesis unfolding cr .
  qed
qed

end

text \<open>One decision against the byte bucket: what is accepted comes out of the refilled tokens.\<close>

lemma bucket_consume_bytes:
  assumes "bucket_ok s" "qp_bytes_per_sec (qs_params s) > 0"
  shows "of_nat (if fst (bucket_consume now n s) then n else 0) + qs_bytes_tokens (snd (bucket_consume now n s))
     \<le> qs_bytes_tokens s + qp_bytes_per_sec (qs_params s) * secs (now - qs_last_refill s)"
    and "qs_last_refill (snd (bucket_consume now n s)) = now"
  using assms by (auto simp: bucket_consume_def refill_def Let_def is_unbounded_def)

lemma bucket_consume_count:
  assumes "bucket_ok s" "qp_datagrams_per_sec (qs_params s) > 0"
  shows "of_nat (if fst (bucket_consume now n s) then 1 else 0) + qs_datagram_tokens (snd (bucket_consume now n s))
     \<le> qs_datagram_tokens s + qp_datagrams_per_sec (qs_params s) * secs (now - qs_last_refill s)"
    and "qs_last_refill (snd (bucket_consume now n s)) = now"
  using assms by (auto simp: bucket_consume_def refill_def Let_def is_unbounded_def)

interpretation byte_axis: metered_axis qp_bytes_per_sec qs_bytes_tokens "\<lambda>n. n"
proof
  fix s now n assume "bucket_ok s" "0 < qp_bytes_per_sec (qs_params s)"
  from bucket_consume_bytes [OF this]
  show "of_nat (if fst (bucket_consume now n s) then n else 0) + qs_bytes_tokens (snd (bucket_consume now n s))
      \<le> qs_bytes_tokens s + qp_bytes_per_sec (qs_params s) * secs (now - qs_last_refill s)"
    "qs_last_refill (snd (bucket_consume now n s)) = now" by auto
qed (simp_all add: new_bucket_def bucket_ok_def)

interpretation datagram_axis: metered_axis qp_datagrams_per_sec qs_datagram_tokens "\<lambda>_. 1"
proof
  fix s now n assume "bucket_ok s" "0 < qp_datagrams_per_sec (qs_params s)"
  from bucket_consume_count [OF this]
  show "of_nat (if fst (bucket_consume now n s) then 1 else 0) + qs_datagram_tokens (snd (bucket_consume now n s))
      \<le> qs_datagram_tokens s + qp_datagrams_per_sec (qs_params s) * secs (now - qs_last_refill s)"
    "qs_last_refill (snd (bucket_consume now n s)) = now" by auto
qed (simp_all add: new_bucket_def bucket_ok_def)



end
