(* ===== verification/Descriptor.thy ===== *)
theory Descriptor
  imports Rust_Str Quota
begin

text \<open>
  Capability descriptors, \<open>conquerd-features/src/descriptor.rs\<close>. The free-form JSON \<open>params\<close> of a
  descriptor is represented by its numeric accessor, the only use the registry makes of it.
\<close>

datatype auth_tier = Public | RoomMember | TrustedPeer
datatype channel_kind = Datagram | Stream | Request

record capability_descriptor =
  cd_id :: string
  cd_version :: string
  cd_kind :: channel_kind
  cd_params :: json_f64
  cd_auth :: auth_tier
  cd_experimental :: bool

datatype feature_error = InvalidId string | InvalidVersion string | Duplicate string

definition new_descriptor :: "string \<Rightarrow> string \<Rightarrow> channel_kind \<Rightarrow> capability_descriptor" where
  "new_descriptor i v k = \<lparr>cd_id = i, cd_version = v, cd_kind = k, cd_params = (\<lambda>_. None),
     cd_auth = TrustedPeer, cd_experimental = False\<rparr>"

definition with_params :: "json_f64 \<Rightarrow> capability_descriptor \<Rightarrow> capability_descriptor" where
  "with_params p d = d\<lparr>cd_params := p\<rparr>"

definition with_auth :: "auth_tier \<Rightarrow> capability_descriptor \<Rightarrow> capability_descriptor" where
  "with_auth a d = d\<lparr>cd_auth := a\<rparr>"

definition experimental :: "capability_descriptor \<Rightarrow> capability_descriptor" where
  "experimental d = d\<lparr>cd_experimental := True\<rparr>"

definition namespace :: "capability_descriptor \<Rightarrow> string" where
  "namespace d = split_first (CHR ''.'') (cd_id d)"

definition major_version :: "capability_descriptor \<Rightarrow> nat option" where
  "major_version d = parse_u32 (split_first (CHR ''.'') (cd_version d))"

definition is_compatible_with :: "capability_descriptor \<Rightarrow> capability_descriptor \<Rightarrow> bool" where
  "is_compatible_with d other =
     (if cd_id d \<noteq> cd_id other then False
      else case (major_version d, major_version other) of
             (Some a, Some b) \<Rightarrow> a = b
           | _ \<Rightarrow> cd_version d = cd_version other)"

definition validate_descriptor :: "capability_descriptor \<Rightarrow> feature_error + unit" where
  "validate_descriptor d =
     (if cd_id d = [] then Inl (InvalidId ''empty id'')
      else if contains_ws (cd_id d) then Inl (InvalidId ''id must not contain whitespace'')
      else if CHR ''.'' \<notin> set (cd_id d)
      then Inl (InvalidId ''id must use reverse-DNS form (namespace.subname)'')
      else if cd_version d = [] then Inl (InvalidVersion ''empty version'')
      else Inr ())"

lemma major_of_version: "cd_version d = cd_version e \<Longrightarrow> major_version d = major_version e"
  by (simp add: major_version_def)

text \<open>
  The negotiation rule between two peers' descriptors is an equivalence relation, so peers
  that each match a third also match each other; a well-formed id has its namespace before the
  first dot and nothing of whitespace in it.
\<close>

lemma compatibility_equivalence:
  "is_compatible_with d d \<and>
   (is_compatible_with d e \<longleftrightarrow> is_compatible_with e d) \<and>
   (is_compatible_with d e \<and> is_compatible_with e f \<longrightarrow> is_compatible_with d f) \<and>
   (validate_descriptor d = Inr () \<longrightarrow> (\<exists>rest. cd_id d = namespace d @ CHR ''.'' # rest))"
proof (intro conjI impI)
  show "is_compatible_with d d" by (simp add: is_compatible_with_def split: option.split)
  show "is_compatible_with d e \<longleftrightarrow> is_compatible_with e d"
    by (auto simp: is_compatible_with_def split: option.splits)
  show "is_compatible_with d f" if "is_compatible_with d e \<and> is_compatible_with e f"
    using that major_of_version [of d e] major_of_version [of e f]
    by (auto simp: is_compatible_with_def split: if_splits option.splits)
  assume "validate_descriptor d = Inr ()"
  then have "CHR ''.'' \<in> set (cd_id d)" by (auto simp: validate_descriptor_def split: if_splits)
  then obtain a b where s: "cd_id d = a @ CHR ''.'' # b" "CHR ''.'' \<notin> set a"
    by (meson split_list_first)
  have "takeWhile (\<lambda>x. x \<noteq> CHR ''.'') (a @ CHR ''.'' # b) = a"
    using s(2) by (induction a) auto
  then show "\<exists>rest. cd_id d = namespace d @ CHR ''.'' # rest"
    using s(1) by (auto simp: namespace_def split_first_def)
qed

lemma compatibility_equivalence_witness:
  "is_compatible_with (new_descriptor ''core.chat'' ''1.2'' Stream) (new_descriptor ''core.chat'' ''1.9'' Stream) \<and>
   is_compatible_with (new_descriptor ''core.chat'' ''1.2'' Stream) (new_descriptor ''core.chat'' ''1'' Stream)"
proof -
  let ?d = "\<lambda>v. new_descriptor ''core.chat'' v Stream"
  have a: "is_compatible_with (?d ''1.2'') (?d ''1.9'')" "is_compatible_with (?d ''1.9'') (?d ''1'')"
    by (simp_all add: is_compatible_with_def new_descriptor_def major_version_def split_first_def
        parse_u32_def digit_of_def)
  then show ?thesis using compatibility_equivalence [of "?d ''1.2''" "?d ''1.9''" "?d ''1''"] by blast
qed

end
