(* ===== verification/Channel_Frame.thy ===== *)
theory Channel_Frame
  imports Prelude
begin

text \<open>
  The fixed first-party channel tags and the tagged-frame codec of
  \<open>conquerd-features/src/channel_frame.rs\<close>, and the datagram and command framing of
  \<open>conquerd-supernode/src/wire.rs\<close>. The locale \<open>framing\<close> is the contract of a
  self-delimiting codec; it is interpreted on the length-prefixed relay commands.
\<close>

section \<open>Fixed tags\<close>

definition CONTROL_TAG :: u8 where "CONTROL_TAG = 0x00"
definition AUDIO_TAG :: u8 where "AUDIO_TAG = 0x01"
definition CHAT_TAG :: u8 where "CHAT_TAG = 0x02"
definition FILE_TAG :: u8 where "FILE_TAG = 0x03"
definition ROOM_AUDIO_TAG :: u8 where "ROOM_AUDIO_TAG = 0x04"
definition GAME_RELAY_TAG :: u8 where "GAME_RELAY_TAG = 0x05"
definition VIDEO_TAG :: u8 where "VIDEO_TAG = 0x06"
definition ROOM_VIDEO_TAG :: u8 where "ROOM_VIDEO_TAG = 0x07"
definition CONTENT_AUDIO_TAG :: u8 where "CONTENT_AUDIO_TAG = 0x08"
definition ROOM_CONTENT_AUDIO_TAG :: u8 where "ROOM_CONTENT_AUDIO_TAG = 0x09"
definition MAX_FIRST_PARTY_TAG :: u8 where "MAX_FIRST_PARTY_TAG = 0x0F"
definition RELAY_SIGNAL_STREAM_MAGIC :: u32 where "RELAY_SIGNAL_STREAM_MAGIC = 0x51474E4C"

lemmas tag_defs = CONTROL_TAG_def AUDIO_TAG_def CHAT_TAG_def FILE_TAG_def ROOM_AUDIO_TAG_def
  GAME_RELAY_TAG_def VIDEO_TAG_def ROOM_VIDEO_TAG_def CONTENT_AUDIO_TAG_def
  ROOM_CONTENT_AUDIO_TAG_def

definition fixed_tag_for :: "feature_id \<Rightarrow> u8 option" where
  "fixed_tag_for fid =
     (if fid = ''core.audio.opus'' then Some AUDIO_TAG
      else if fid = ''core.chat.v1'' then Some CHAT_TAG
      else if fid = ''core.file.v1'' then Some FILE_TAG
      else if fid = ''room.audio.sfu'' then Some ROOM_AUDIO_TAG
      else if fid = ''game.relay.v1'' then Some GAME_RELAY_TAG
      else if fid = ''core.video.v1'' then Some VIDEO_TAG
      else if fid = ''room.video.sfu'' then Some ROOM_VIDEO_TAG
      else if fid = ''core.audio.content.v1'' then Some CONTENT_AUDIO_TAG
      else if fid = ''room.audio.content.sfu'' then Some ROOM_CONTENT_AUDIO_TAG
      else None)"

definition feature_for_fixed_tag :: "u8 \<Rightarrow> feature_id option" where
  "feature_for_fixed_tag t =
     (if t = AUDIO_TAG then Some ''core.audio.opus''
      else if t = CHAT_TAG then Some ''core.chat.v1''
      else if t = FILE_TAG then Some ''core.file.v1''
      else if t = ROOM_AUDIO_TAG then Some ''room.audio.sfu''
      else if t = GAME_RELAY_TAG then Some ''game.relay.v1''
      else if t = VIDEO_TAG then Some ''core.video.v1''
      else if t = ROOM_VIDEO_TAG then Some ''room.video.sfu''
      else if t = CONTENT_AUDIO_TAG then Some ''core.audio.content.v1''
      else if t = ROOM_CONTENT_AUDIO_TAG then Some ''room.audio.content.sfu''
      else None)"

section \<open>Tagged frames\<close>

definition encode_frame :: "u8 \<Rightarrow> bytes \<Rightarrow> bytes" where
  "encode_frame tag payload = tag # payload"

definition decode_frame :: "bytes \<Rightarrow> (u8 \<times> bytes) option" where
  "decode_frame frame = (case frame of [] \<Rightarrow> None | tag # rest \<Rightarrow> Some (tag, rest))"

datatype frame_class =
    Control bytes
  | Audio bytes
  | Chat bytes
  | File bytes
  | Video bytes
  | ContentAudio bytes
  | Other u8 bytes

definition classify :: "bytes \<Rightarrow> frame_class option" where
  "classify frame = (case frame of [] \<Rightarrow> None
     | first # rest \<Rightarrow> Some
        (if first = CONTROL_TAG then Control rest
         else if first = AUDIO_TAG then Audio rest
         else if first = CHAT_TAG then Chat rest
         else if first = FILE_TAG then File rest
         else if first = VIDEO_TAG then Video rest
         else if first = CONTENT_AUDIO_TAG then ContentAudio rest
         else Other first rest))"

text \<open>The bytes a classified frame came from: the left inverse of \<open>classify\<close>.\<close>

fun unclassify :: "frame_class \<Rightarrow> bytes" where
  "unclassify (Control p) = encode_frame CONTROL_TAG p"
| "unclassify (Audio p) = encode_frame AUDIO_TAG p"
| "unclassify (Chat p) = encode_frame CHAT_TAG p"
| "unclassify (File p) = encode_frame FILE_TAG p"
| "unclassify (Video p) = encode_frame VIDEO_TAG p"
| "unclassify (ContentAudio p) = encode_frame CONTENT_AUDIO_TAG p"
| "unclassify (Other t p) = encode_frame t p"

lemma decode_encode_frame [simp, wire_simps]: "decode_frame (encode_frame t p) = Some (t, p)"
  by (simp add: decode_frame_def encode_frame_def)

lemma decode_frame_Some: "decode_frame f = Some (t, p) \<longleftrightarrow> f = encode_frame t p"
  by (auto simp: decode_frame_def encode_frame_def split: list.splits)

lemma classify_None: "classify f = None \<longleftrightarrow> f = []"
  by (auto simp: classify_def split: list.splits)

lemma unclassify_classify: "classify f = Some c \<Longrightarrow> unclassify c = f"
  by (cases f) (auto simp: classify_def encode_frame_def tag_defs split: if_splits)

lemma relay_only_tags_are_Other:
  "classify (encode_frame t p) = Some (Other t p) \<longleftrightarrow>
     t \<notin> {CONTROL_TAG, AUDIO_TAG, CHAT_TAG, FILE_TAG, VIDEO_TAG, CONTENT_AUDIO_TAG}"
  by (simp add: classify_def encode_frame_def tag_defs)

text \<open>
  The two static tables agree: a first-party feature id is bound to a tag exactly when that
  tag is bound to the feature id, so both ends of a connection attribute a frame to the same
  feature without negotiation; no feature is bound to the control tag, and every bound tag lies
  in the reserved first-party range below the dynamic one.
\<close>

lemma fixed_tags_bijective:
  "(fixed_tag_for fid = Some t \<longleftrightarrow> feature_for_fixed_tag t = Some fid) \<and>
   fixed_tag_for fid \<noteq> Some CONTROL_TAG \<and>
   {t. feature_for_fixed_tag t \<noteq> None} \<subseteq> {0<..MAX_FIRST_PARTY_TAG}"
proof (intro conjI)
  show "fixed_tag_for fid = Some t \<longleftrightarrow> feature_for_fixed_tag t = Some fid"
    by (auto simp: fixed_tag_for_def feature_for_fixed_tag_def tag_defs split: if_splits)
  show "fixed_tag_for fid \<noteq> Some CONTROL_TAG"
    by (auto simp: fixed_tag_for_def tag_defs)
  show "{t. feature_for_fixed_tag t \<noteq> None} \<subseteq> {0<..MAX_FIRST_PARTY_TAG}"
    by (auto simp: feature_for_fixed_tag_def tag_defs MAX_FIRST_PARTY_TAG_def split: if_splits)
qed

section \<open>Relay wire formats\<close>

definition BROADCAST_INDEX :: u8 where "BROADCAST_INDEX = 0xFF"

text \<open>
  \<open>serde_json\<close> is not part of the repository: \<open>ser\<close> and \<open>de\<close> stand for \<open>to_vec\<close> and
  \<open>from_slice\<close>. The length is cut to 32 bits by the cast \<open>json.len() as u32\<close>.
\<close>

definition encode_relay_cmd :: "('j \<Rightarrow> bytes) \<Rightarrow> 'j \<Rightarrow> bytes" where
  "encode_relay_cmd ser cmd = (let json = ser cmd in u32_to_be (word_of_nat (length json)) @ json)"

definition decode_relay_cmd :: "(bytes \<Rightarrow> 'j option) \<Rightarrow> bytes \<Rightarrow> ('j \<times> nat) option" where
  "decode_relay_cmd de buf =
     (if length buf < 4 then None
      else let len = unat (u32_from_be (take 4 buf)) in
        if length buf < 4 + len then None
        else (case de (take len (drop 4 buf)) of
                None \<Rightarrow> None
              | Some val \<Rightarrow> Some (val, 4 + len)))"

definition parse_datagram :: "bytes \<Rightarrow> (u8 \<times> bytes) option" where
  "parse_datagram data = (if data = [] then None else Some (hd data, tl data))"

definition build_forwarded_datagram :: "u8 \<Rightarrow> bytes \<Rightarrow> bytes" where
  "build_forwarded_datagram sender_index payload = sender_index # payload"

lemma parse_build_datagram [simp, wire_simps]:
  "parse_datagram (build_forwarded_datagram i p) = Some (i, p)"
  by (simp add: parse_datagram_def build_forwarded_datagram_def)

lemma length_build_forwarded [simp]: "length (build_forwarded_datagram i p) = Suc (length p)"
  by (simp add: build_forwarded_datagram_def)

text \<open>
  A framing law: decoding the encoding of a message followed by anything returns the message and
  the number of bytes it occupied. It is what lets a reader take a stream apart.
\<close>

locale framing =
  fixes enc :: "'m \<Rightarrow> bytes"
    and dec :: "bytes \<Rightarrow> ('m \<times> nat) option"
    and ok :: "'m \<Rightarrow> bool"
  assumes dec_enc: "ok m \<Longrightarrow> dec (enc m @ rest) = Some (m, length (enc m))"
    and enc_nonempty: "ok m \<Longrightarrow> enc m \<noteq> []"
begin

fun read_all :: "nat \<Rightarrow> bytes \<Rightarrow> 'm list" where
  "read_all 0 buf = []"
| "read_all (Suc n) buf =
     (case dec buf of None \<Rightarrow> [] | Some (m, k) \<Rightarrow> m # read_all n (drop k buf))"

lemma read_all_stream:
  "\<forall>m \<in> set ms. ok m \<Longrightarrow> read_all (length ms) (concat (map enc ms) @ rest) = ms"
proof (induction ms)
  case Nil
  then show ?case by simp
next
  case (Cons m ms)
  then have "dec (enc m @ concat (map enc ms) @ rest) = Some (m, length (enc m))"
    by (intro dec_enc) simp
  with Cons show ?case by simp
qed

lemma enc_prefix_free:
  assumes "ok m" "ok m'" "enc m @ r = enc m' @ r'"
  shows "m = m' \<and> r = r'"
proof -
  have "Some (m, length (enc m)) = Some (m', length (enc m'))"
    using dec_enc [OF assms(1), of r] dec_enc [OF assms(2), of r'] assms(3) by simp
  with assms(3) show ?thesis by simp
qed

end

text \<open>What the framing relies on of the JSON library, and of the size of a message.\<close>

definition json_ok :: "('j \<Rightarrow> bytes) \<Rightarrow> (bytes \<Rightarrow> 'j option) \<Rightarrow> 'j \<Rightarrow> bool" where
  "json_ok ser de j \<longleftrightarrow> de (ser j) = Some j \<and> length (ser j) < 2 ^ 32"

interpretation relay_cmd: framing "encode_relay_cmd ser" "decode_relay_cmd de" "json_ok ser de"
  for ser de
proof
  fix m :: 'a and rest
  assume ok: "json_ok ser de m"
  let ?l = "length (ser m)"
  have "unat (word_of_nat ?l :: u32) = ?l"
    using ok by (simp add: json_ok_def unat_of_nat)
  with ok show "decode_relay_cmd de (encode_relay_cmd ser m @ rest)
      = Some (m, length (encode_relay_cmd ser m))"
    by (simp add: decode_relay_cmd_def encode_relay_cmd_def json_ok_def Let_def)
next
  fix m :: 'a
  show "encode_relay_cmd ser m \<noteq> []"
    by (metis append_is_Nil_conv encode_relay_cmd_def length_to_be(2) list.size(3) zero_neq_numeral)
qed

text \<open>
  A relay command round-trips through the length-prefixed stream framing with any bytes
  following it, consuming exactly its own encoding, as long as the JSON library reads back what
  it writes and the body fits the 32-bit length; two different commands never share an encoding
  as a prefix of the same stream.
\<close>

lemma relay_cmd_roundtrip:
  assumes "json_ok ser de m"
  shows "decode_relay_cmd de (encode_relay_cmd ser m @ rest)
           = Some (m, length (encode_relay_cmd ser m)) \<and>
         (\<forall>m' r r'. json_ok ser de m' \<and> encode_relay_cmd ser m @ r = encode_relay_cmd ser m' @ r'
           \<longrightarrow> m = m' \<and> r = r')"
  using relay_cmd.dec_enc [OF assms] relay_cmd.enc_prefix_free [OF assms] by blast

lemma relay_cmd_roundtrip_witness:
  "json_ok (\<lambda>j. j) Some [1, 2] \<and>
   decode_relay_cmd Some (encode_relay_cmd (\<lambda>j. j) [1, 2] @ [7]) = Some ([1, 2], 6)"
proof -
  have ok: "json_ok (\<lambda>j. j) Some ([1, 2] :: bytes)"
    by (simp add: json_ok_def)
  have "length (encode_relay_cmd (\<lambda>j. j) ([1, 2] :: bytes)) = 6"
    by (simp add: encode_relay_cmd_def Let_def)
  with ok relay_cmd_roundtrip [OF ok, of "[7]"] show ?thesis
    by simp
qed

text \<open>
  The magic word that marks a signaling stream cannot be a web-app request length: those are
  refused above 16 KiB.
\<close>

lemma signal_magic_above_web_app_frames: "unat RELAY_SIGNAL_STREAM_MAGIC > 16 * 1024"
  by (simp add: RELAY_SIGNAL_STREAM_MAGIC_def)

end
