(* ===== verification/Channel_Tag.thy ===== *)
theory Channel_Tag
  imports Channel_Frame
begin

text \<open>
  The per-session allocator of dynamic channel tags,
  \<open>conquerd-features/src/channel_tag.rs\<close>. The state is the \<open>Inner\<close> struct behind the mutex;
  every public method is one transition of it. The invariant \<open>tags_ok\<close> says that the two maps
  are inverse to each other and that the set of tags in use is exactly their range.
\<close>

section \<open>State and operations\<close>

definition DYNAMIC_TAG_START :: u8 where "DYNAMIC_TAG_START = 0x10"
definition DYNAMIC_TAG_END :: u8 where "DYNAMIC_TAG_END = 0xEF"
definition BROADCAST_TAG :: u8 where "BROADCAST_TAG = 0xFF"

datatype channel_tag_error =
    Exhausted
  | AlreadyBound feature_id
  | NotBound feature_id
  | OutOfRange u8
  | TagInUse u8

record tag_registry =
  by_feature :: "feature_id \<rightharpoonup> u8"
  by_tag :: "u8 \<rightharpoonup> feature_id"
  in_use :: "u8 set"

definition new_tags :: tag_registry where
  "new_tags = \<lparr>by_feature = Map.empty, by_tag = Map.empty, in_use = {}\<rparr>"

text \<open>The range \<open>DYNAMIC_TAG_START..=DYNAMIC_TAG_END\<close>, in iteration order.\<close>

definition dynamic_tags :: "u8 list" where
  "dynamic_tags = map word_of_nat [unat DYNAMIC_TAG_START..<Suc (unat DYNAMIC_TAG_END)]"

definition insert_binding :: "feature_id \<Rightarrow> u8 \<Rightarrow> tag_registry \<Rightarrow> tag_registry" where
  "insert_binding fid tag g = g\<lparr>in_use := insert tag (in_use g),
     by_feature := (by_feature g)(fid \<mapsto> tag), by_tag := (by_tag g)(tag \<mapsto> fid)\<rparr>"

definition bind_tag :: "feature_id \<Rightarrow> tag_registry \<Rightarrow> (channel_tag_error + u8) \<times> tag_registry" where
  "bind_tag fid g =
     (if by_feature g fid \<noteq> None then (Inl (AlreadyBound fid), g)
      else case find (\<lambda>t. t \<notin> in_use g) dynamic_tags of
          None \<Rightarrow> (Inl Exhausted, g)
        | Some tag \<Rightarrow> (Inr tag, insert_binding fid tag g))"

definition bind_to :: "feature_id \<Rightarrow> u8 \<Rightarrow> tag_registry \<Rightarrow> (channel_tag_error + unit) \<times> tag_registry" where
  "bind_to fid tag g =
     (if \<not> (DYNAMIC_TAG_START \<le> tag \<and> tag \<le> DYNAMIC_TAG_END) then (Inl (OutOfRange tag), g)
      else if by_feature g fid \<noteq> None then (Inl (AlreadyBound fid), g)
      else if tag \<in> in_use g then (Inl (TagInUse tag), g)
      else (Inr (), insert_binding fid tag g))"

definition release_tag :: "feature_id \<Rightarrow> tag_registry \<Rightarrow> (channel_tag_error + u8) \<times> tag_registry" where
  "release_tag fid g = (case by_feature g fid of
       None \<Rightarrow> (Inl (NotBound fid), g)
     | Some tag \<Rightarrow> (Inr tag, g\<lparr>by_feature := (by_feature g)(fid := None),
         by_tag := (by_tag g)(tag := None), in_use := in_use g - {tag}\<rparr>))"

definition tag_for :: "feature_id \<Rightarrow> tag_registry \<Rightarrow> u8 option" where
  "tag_for fid g = by_feature g fid"

definition feature_for :: "u8 \<Rightarrow> tag_registry \<Rightarrow> feature_id option" where
  "feature_for tag g = by_tag g tag"

definition bound_count :: "tag_registry \<Rightarrow> nat" where
  "bound_count g = msize (by_feature g)"

section \<open>The dynamic range\<close>

lemma dynamic_tags_range: "dynamic_tags = map word_of_nat [16..<240]"
  by (simp add: dynamic_tags_def DYNAMIC_TAG_START_def DYNAMIC_TAG_END_def del: upt_rec_numeral)

lemma set_dynamic_tags: "set dynamic_tags = {DYNAMIC_TAG_START..DYNAMIC_TAG_END}"
proof -
  have "(240 :: nat) \<le> 256" by simp
  from byte_range(1) [OF this, of 16]
  have "set dynamic_tags = {w. 16 \<le> unat w \<and> unat w < 240}"
    by (simp only: dynamic_tags_range)
  also have "\<dots> = {DYNAMIC_TAG_START..DYNAMIC_TAG_END}"
    by (auto simp: DYNAMIC_TAG_START_def DYNAMIC_TAG_END_def word_le_nat_alt)
  finally show ?thesis .
qed

lemma distinct_dynamic_tags: "distinct dynamic_tags"
  unfolding dynamic_tags_range by (rule byte_range(2)) simp

lemma sorted_dynamic_tags: "sorted dynamic_tags"
  unfolding dynamic_tags_range by (rule byte_range(3)) simp

lemma length_dynamic_tags: "length dynamic_tags = 224"
  unfolding dynamic_tags_range length_map length_upt by simp

lemma card_dynamic_tags: "card (set dynamic_tags) = 224"
  by (simp add: distinct_card distinct_dynamic_tags length_dynamic_tags)

section \<open>Invariant\<close>

definition tags_ok :: "tag_registry \<Rightarrow> bool" where
  "tags_ok g \<longleftrightarrow>
     (\<forall>fid t. by_feature g fid = Some t \<longleftrightarrow> by_tag g t = Some fid) \<and>
     in_use g = dom (by_tag g) \<and> in_use g \<subseteq> set dynamic_tags"

lemma tags_okD:
  assumes "tags_ok g"
  shows "by_feature g fid = Some t \<longleftrightarrow> by_tag g t = Some fid"
    and "t \<in> in_use g \<longleftrightarrow> (\<exists>fid. by_tag g t = Some fid)"
    and "in_use g \<subseteq> set dynamic_tags"
  using assms by (auto simp: tags_ok_def)

lemma tags_ok_new: "tags_ok new_tags"
  by (simp add: tags_ok_def new_tags_def)

lemma ran_by_feature: "tags_ok g \<Longrightarrow> ran (by_feature g) = in_use g"
  by (auto simp: tags_ok_def ran_def)

lemma tags_ok_insert_binding:
  assumes "tags_ok g" "by_feature g fid = None" "tag \<notin> in_use g" "tag \<in> set dynamic_tags"
  shows "tags_ok (insert_binding fid tag g)"
proof -
  have fresh: "by_tag g tag = None" "\<And>f. by_feature g f \<noteq> Some tag" "\<And>t. by_tag g t \<noteq> Some fid"
    using tags_okD [OF assms(1)] assms(2,3) by (metis not_None_eq)+
  show ?thesis
    using assms fresh by (auto simp: tags_ok_def insert_binding_def)
qed

lemma find_fresh_tag:
  "find (\<lambda>t. t \<notin> in_use g) dynamic_tags = Some tag \<Longrightarrow> tag \<notin> in_use g \<and> tag \<in> set dynamic_tags"
  by (auto simp: find_Some_iff)

lemma tags_ok_bind:
  assumes "tags_ok g" "bind_tag fid g = (r, g')" shows "tags_ok g'"
  using assms by (auto simp: bind_tag_def split: if_splits option.splits
      intro!: tags_ok_insert_binding dest: find_fresh_tag)

lemma tags_ok_bind_to:
  assumes "tags_ok g" "bind_to fid tag g = (r, g')" shows "tags_ok g'"
  using assms by (auto simp: bind_to_def set_dynamic_tags split: if_splits
      intro!: tags_ok_insert_binding)

lemma tags_ok_release:
  assumes "tags_ok g" "release_tag fid g = (r, g')" shows "tags_ok g'"
proof (cases "by_feature g fid")
  case None
  with assms show ?thesis by (simp add: release_tag_def)
next
  case (Some tag)
  then have g': "g' = g\<lparr>by_feature := (by_feature g)(fid := None),
      by_tag := (by_tag g)(tag := None), in_use := in_use g - {tag}\<rparr>"
    using assms(2) by (simp add: release_tag_def)
  have "by_feature g' f = Some t \<longleftrightarrow> by_tag g' t = Some f" for f t
    using tags_okD(1) [OF assms(1)] Some by (simp add: g') (metis option.inject)
  then show ?thesis
    using assms(1) by (auto simp: tags_ok_def g')
qed

lemma bind_error_unchanged: "bind_tag fid g = (Inl e, g') \<Longrightarrow> g' = g"
  by (auto simp: bind_tag_def split: if_splits option.splits)

lemma bind_Inr:
  assumes "bind_tag fid g = (Inr tag, g')"
  shows "by_feature g fid = None" "tag \<notin> in_use g" "tag \<in> set dynamic_tags"
    "g' = insert_binding fid tag g"
  using assms by (auto simp: bind_tag_def split: if_splits option.splits dest: find_fresh_tag)

lemma bind_lookup:
  "bind_tag fid g = (Inr tag, g') \<Longrightarrow> tag_for fid g' = Some tag \<and> feature_for tag g' = Some fid"
  by (drule bind_Inr(4)) (simp add: insert_binding_def tag_for_def feature_for_def)

lemma release_bind:
  assumes "tags_ok g" "bind_tag fid g = (Inr tag, g')"
  shows "release_tag fid g' = (Inr tag, g)"
proof -
  note b = bind_Inr [OF assms(2)]
  have "by_tag g tag = None" using b(2) tags_okD(2) [OF assms(1)] by (metis not_None_eq)
  with b show ?thesis
    by (cases g) (auto simp: release_tag_def insert_binding_def fun_upd_idem)
qed

text \<open>
  The contract a client of an allocator relies on: a successful allocation is visible, a failed
  one changes nothing, and giving the allocation back restores the state.
\<close>

locale allocator =
  fixes inv :: "'s \<Rightarrow> bool"
    and alloc :: "'k \<Rightarrow> 's \<Rightarrow> ('e + 'v) \<times> 's"
    and free :: "'k \<Rightarrow> 's \<Rightarrow> ('e + 'v) \<times> 's"
    and lookup :: "'k \<Rightarrow> 's \<Rightarrow> 'v option"
  assumes alloc_error: "alloc k s = (Inl e, s') \<Longrightarrow> s' = s"
    and alloc_inv: "inv s \<Longrightarrow> alloc k s = (r, s') \<Longrightarrow> inv s'"
    and free_inv: "inv s \<Longrightarrow> free k s = (r, s') \<Longrightarrow> inv s'"
    and alloc_lookup: "alloc k s = (Inr v, s') \<Longrightarrow> lookup k s' = Some v"
    and free_alloc: "inv s \<Longrightarrow> alloc k s = (Inr v, s') \<Longrightarrow> free k s' = (Inr v, s)"
begin

text \<open>Allocate, run a fallible action, and give the allocation back if the action fails.\<close>

definition with_alloc :: "'k \<Rightarrow> ('v \<Rightarrow> 'x + 'y) \<Rightarrow> ('e \<Rightarrow> 'x) \<Rightarrow> 's \<Rightarrow> ('x + 'v) \<times> 's" where
  "with_alloc k act err s = (case alloc k s of
       (Inl e, s') \<Rightarrow> (Inl (err e), s')
     | (Inr v, s') \<Rightarrow> (case act v of
           Inr _ \<Rightarrow> (Inr v, s')
         | Inl x \<Rightarrow> (Inl x, snd (free k s'))))"

lemma with_alloc_failure_restores:
  "inv s \<Longrightarrow> with_alloc k act err s = (Inl x, s') \<Longrightarrow> s' = s"
  by (auto simp: with_alloc_def split: prod.splits sum.splits dest: alloc_error free_alloc)

lemma with_alloc_success:
  "with_alloc k act err s = (Inr v, s') \<Longrightarrow> alloc k s = (Inr v, s') \<and> lookup k s' = Some v"
  by (auto simp: with_alloc_def split: prod.splits sum.splits dest: alloc_lookup)

lemma with_alloc_inv: "inv s \<Longrightarrow> with_alloc k act err s = (r, s') \<Longrightarrow> inv s'"
  by (auto simp: with_alloc_def split: prod.splits sum.splits intro: alloc_inv)
     (metis alloc_inv free_inv prod.collapse)

end

interpretation tags: allocator tags_ok bind_tag release_tag tag_for
  by unfold_locales
     (auto dest: bind_error_unchanged tags_ok_bind tags_ok_release bind_lookup release_bind)

section \<open>Reachable registries\<close>

inductive tag_step :: "tag_registry \<Rightarrow> tag_registry \<Rightarrow> bool" where
  bind: "tag_step g (snd (bind_tag fid g))"
| bind_to: "tag_step g (snd (bind_to fid tag g))"
| release: "tag_step g (snd (release_tag fid g))"

inductive tags_reachable :: "tag_registry \<Rightarrow> bool" where
  init: "tags_reachable new_tags"
| step: "tags_reachable g \<Longrightarrow> tag_step g g' \<Longrightarrow> tags_reachable g'"

lemma tag_step_ok: "tag_step g g' \<Longrightarrow> tags_ok g \<Longrightarrow> tags_ok g'"
  by (induction rule: tag_step.induct)
     (metis tags_ok_bind tags_ok_bind_to tags_ok_release prod.collapse)+

lemma tags_reachable_ok: "tags_reachable g \<Longrightarrow> tags_ok g"
  by (induction rule: tags_reachable.induct) (auto intro: tags_ok_new tag_step_ok)

lemma bound_count_eq: "tags_ok g \<Longrightarrow> bound_count g = card (in_use g)"
proof -
  assume ok: "tags_ok g"
  have "inj_on (\<lambda>f. the (by_feature g f)) (dom (by_feature g))"
    using tags_okD(1) [OF ok] by (intro inj_onI) (metis domD option.inject option.sel)
  moreover have "(\<lambda>f. the (by_feature g f)) ` dom (by_feature g) = in_use g"
    using ran_by_feature [OF ok] by (force simp: ran_def dom_def image_iff)
  ultimately show ?thesis
    by (metis bound_count_def msize_def card_image)
qed

text \<open>
  In every registry reachable by binds, remote binds and releases, whether they succeed or
  fail, no two features share a tag, the reverse lookup used to dispatch datagrams agrees with
  the forward one, every tag lies in the dynamic range (so it never collides with a fixed tag or
  the broadcast tag) and at most 224 features are bound.
\<close>

lemma tags_reachable_safe:
  assumes "tags_reachable g"
  shows "(tag_for fid g = Some t \<longleftrightarrow> feature_for t g = Some fid) \<and>
         (tag_for fid g = Some t \<and> tag_for fid' g = Some t \<longrightarrow> fid = fid') \<and>
         (feature_for t g \<noteq> None \<longrightarrow> DYNAMIC_TAG_START \<le> t \<and> t \<le> DYNAMIC_TAG_END \<and>
            feature_for_fixed_tag t = None \<and> t \<noteq> BROADCAST_TAG) \<and>
         bound_count g \<le> 224"
proof -
  have ok: "tags_ok g" using assms by (rule tags_reachable_ok)
  have inv: "tag_for f g = Some t \<longleftrightarrow> feature_for t g = Some f" for f t
    using tags_okD(1) [OF ok] by (simp add: tag_for_def feature_for_def)
  have range: "DYNAMIC_TAG_START \<le> t \<and> t \<le> DYNAMIC_TAG_END" if "feature_for t g \<noteq> None"
    using that tags_okD(2,3) [OF ok] by (fastforce simp: feature_for_def set_dynamic_tags)
  have fixed: "feature_for_fixed_tag t = None \<and> t \<noteq> BROADCAST_TAG"
    if "DYNAMIC_TAG_START \<le> t \<and> t \<le> DYNAMIC_TAG_END"
    using that by (auto simp: feature_for_fixed_tag_def tag_defs DYNAMIC_TAG_START_def
        DYNAMIC_TAG_END_def BROADCAST_TAG_def word_le_nat_alt)
  have "bound_count g \<le> 224"
    using card_mono [OF _ tags_okD(3) [OF ok]] by (simp add: bound_count_eq [OF ok] card_dynamic_tags)
  then show ?thesis using inv range fixed by (metis option.inject)
qed

lemma tags_reachable_safe_witness:
  "tags_reachable (snd (bind_tag ''a.x'' new_tags)) \<and>
   bound_count (snd (bind_tag ''a.x'' new_tags)) \<le> 224"
proof -
  have r: "tags_reachable (snd (bind_tag ''a.x'' new_tags))"
    by (rule tags_reachable.step [OF tags_reachable.init tag_step.bind])
  show ?thesis using r tags_reachable_safe [OF r] by blast
qed

text \<open>
  The outcome of an allocation on every branch: an already bound feature is refused; the
  allocation fails with \<open>Exhausted\<close> exactly when all 224 tags of the dynamic range are taken;
  otherwise it returns the lowest free tag. Releasing a fresh allocation gives back exactly the
  state before it.
\<close>

lemma bind_tag_outcome:
  assumes "tags_ok g"
  shows "fst (bind_tag fid g) =
           (if tag_for fid g \<noteq> None then Inl (AlreadyBound fid)
            else if bound_count g = 224 then Inl Exhausted
            else Inr (Min (set dynamic_tags - in_use g))) \<and>
         (\<forall>t g'. bind_tag fid g = (Inr t, g') \<longrightarrow> release_tag fid g' = (Inr t, g))"
proof (intro conjI)
  show "\<forall>t g'. bind_tag fid g = (Inr t, g') \<longrightarrow> release_tag fid g' = (Inr t, g)"
    using release_bind [OF assms] by blast
  have sub: "in_use g \<subseteq> set dynamic_tags" using assms by (rule tags_okD(3))
  have all: "bound_count g = 224 \<longleftrightarrow> set dynamic_tags - in_use g = {}"
    using sub card_subset_eq [OF finite_set sub] card_dynamic_tags
    by (metis Diff_eq_empty_iff bound_count_eq [OF assms] subset_antisym)
  show "fst (bind_tag fid g) = (if tag_for fid g \<noteq> None then Inl (AlreadyBound fid)
      else if bound_count g = 224 then Inl Exhausted
      else Inr (Min (set dynamic_tags - in_use g)))"
  proof (cases "find (\<lambda>t. t \<notin> in_use g) dynamic_tags")
    case None
    then have "set dynamic_tags - in_use g = {}" by (auto simp: find_None_iff)
    with None all show ?thesis by (simp add: bind_tag_def tag_for_def)
  next
    case (Some t)
    then obtain i where i: "i < length dynamic_tags" "t = dynamic_tags ! i" "t \<notin> in_use g"
        "\<forall>j<i. dynamic_tags ! j \<in> in_use g"
      by (auto simp: find_Some_iff)
    have "Min (set dynamic_tags - in_use g) = t"
    proof (rule Min_eqI)
      fix u assume "u \<in> set dynamic_tags - in_use g"
      then obtain j where j: "j < length dynamic_tags" "u = dynamic_tags ! j" "\<not> j < i"
        using i(4) by (auto simp: in_set_conv_nth)
      then show "t \<le> u"
        using i(2) sorted_nth_mono [OF sorted_dynamic_tags, of i j] by simp
    qed (use i in auto)
    moreover have "bound_count g \<noteq> 224" using all i nth_mem [OF i(1)] by blast
    ultimately show ?thesis using Some by (simp add: bind_tag_def tag_for_def)
  qed
qed

lemma bind_tag_outcome_witness:
  "tags_ok new_tags \<and> bound_count new_tags \<noteq> 224 \<and>
   fst (bind_tag ''a.x'' new_tags) = Inr (Min (set dynamic_tags - {}))"
  using bind_tag_outcome [OF tags_ok_new, of "''a.x''"] tags_ok_new
  by (simp add: new_tags_def tag_for_def bound_count_def)

end
