(* ===== verification/Registry.thy ===== *)
theory Registry
  imports Descriptor Channel_Tag "HOL-Library.List_Lexorder" "HOL-Library.Char_ord"
begin

text \<open>
  The feature registry, \<open>conquerd-features/src/registry.rs\<close>: advertised capabilities, the modules
  bound to them, and the quota gates in front of every dispatch. A module is code behind a trait
  object; it is a handle \<open>'m\<close> here and its \<open>on_invoke\<close> is an argument of the operations that call
  it. \<open>dispatch_message\<close> returns the call it makes to \<open>on_message\<close>, if any. Error texts built with
  \<open>format!\<close> are represented by their ingredients.
\<close>

section \<open>State\<close>

datatype error_reason =
    NoModule feature_id
  | NoFeature feature_id
  | NotDatagram feature_id channel_kind
  | QuotaExceeded feature_id peer_id
  | TagAllocation channel_tag_error
  | Reason string

datatype module_error =
    PermissionDenied error_reason
  | InvalidParams error_reason
  | Internal error_reason

record 'v invocation_context =
  ic_peer :: peer_id
  ic_params :: 'v
  ic_channel_tag :: "u8 option"

record 'm entry =
  en_descriptor :: capability_descriptor
  en_module :: "'m option"

record 'm feature_registry =
  fr_inner :: "feature_id \<rightharpoonup> 'm entry"
  fr_quotas :: quota_registry
  fr_outbound_quotas :: quota_registry

definition new_registry :: "'m feature_registry" where
  "new_registry = \<lparr>fr_inner = Map.empty, fr_quotas = new_quotas, fr_outbound_quotas = new_quotas\<rparr>"

section \<open>Registration\<close>

definition quota_params_for :: "capability_descriptor \<Rightarrow> quota_params" where
  "quota_params_for d = from_params (cd_params d)"

definition quota_params_outbound_for :: "capability_descriptor \<Rightarrow> quota_params" where
  "quota_params_outbound_for d = from_params_outbound (cd_params d)"

definition register :: "capability_descriptor \<Rightarrow> 'm feature_registry \<Rightarrow>
    (feature_error + unit) \<times> 'm feature_registry" where
  "register cap r =
     (case validate_descriptor cap of
        Inl e \<Rightarrow> (Inl e, r)
      | Inr _ \<Rightarrow>
          if fr_inner r (cd_id cap) \<noteq> None then (Inl (Duplicate (cd_id cap)), r)
          else (Inr (), r\<lparr>fr_inner := (fr_inner r)(cd_id cap \<mapsto>
                 \<lparr>en_descriptor = cap, en_module = None\<rparr>)\<rparr>))"

text \<open>\<open>descriptor_of m\<close> is \<open>module.descriptor()\<close>.\<close>

definition register_module :: "('m \<Rightarrow> capability_descriptor) \<Rightarrow> 'm \<Rightarrow> 'm feature_registry \<Rightarrow>
    (feature_error + unit) \<times> 'm feature_registry" where
  "register_module descriptor_of m r =
     (let cap = descriptor_of m in
      case validate_descriptor cap of
        Inl e \<Rightarrow> (Inl e, r)
      | Inr _ \<Rightarrow>
          if fr_inner r (cd_id cap) \<noteq> None then (Inl (Duplicate (cd_id cap)), r)
          else (Inr (), r\<lparr>fr_inner := (fr_inner r)(cd_id cap \<mapsto>
                 \<lparr>en_descriptor = cap, en_module = Some m\<rparr>)\<rparr>))"

definition bind_module :: "feature_id \<Rightarrow> 'm \<Rightarrow> 'm feature_registry \<Rightarrow> bool \<times> 'm feature_registry" where
  "bind_module i m r =
     (case fr_inner r i of
        Some e \<Rightarrow> (True, r\<lparr>fr_inner := (fr_inner r)(i \<mapsto> e\<lparr>en_module := Some m\<rparr>)\<rparr>)
      | None \<Rightarrow> (False, r))"

definition upsert :: "capability_descriptor \<Rightarrow> 'm feature_registry \<Rightarrow>
    (feature_error + unit) \<times> 'm feature_registry" where
  "upsert cap r =
     (case validate_descriptor cap of
        Inl e \<Rightarrow> (Inl e, r)
      | Inr _ \<Rightarrow>
          let prior = Option.bind (fr_inner r (cd_id cap)) en_module
          in (Inr (), r\<lparr>fr_inner := (fr_inner r)(cd_id cap \<mapsto>
                 \<lparr>en_descriptor = cap, en_module = prior\<rparr>)\<rparr>))"

definition remove_feature :: "feature_id \<Rightarrow> 'm feature_registry \<Rightarrow>
    capability_descriptor option \<times> 'm feature_registry" where
  "remove_feature i r =
     (map_option en_descriptor (fr_inner r i), r\<lparr>fr_inner := (fr_inner r)(i := None)\<rparr>)"

definition get_feature :: "feature_id \<Rightarrow> 'm feature_registry \<Rightarrow> capability_descriptor option" where
  "get_feature i r = map_option en_descriptor (fr_inner r i)"

definition module_for :: "feature_id \<Rightarrow> 'm feature_registry \<Rightarrow> 'm option" where
  "module_for i r = Option.bind (fr_inner r i) en_module"

section \<open>Dispatch\<close>

definition dispatch_invoke :: "('m \<Rightarrow> 'v invocation_context \<Rightarrow> module_error + unit) \<Rightarrow> feature_id \<Rightarrow>
    'v invocation_context \<Rightarrow> 'm feature_registry \<Rightarrow> module_error + unit" where
  "dispatch_invoke on_invoke i ctx r =
     (case module_for i r of
        None \<Rightarrow> Inl (Internal (NoModule i))
      | Some m \<Rightarrow> on_invoke m ctx)"

definition dispatch_message :: "feature_id \<Rightarrow> peer_id \<Rightarrow> bytes \<Rightarrow> instant \<Rightarrow> 'm feature_registry \<Rightarrow>
    bool \<times> ('m \<times> peer_id \<times> bytes) option \<times> 'm feature_registry" where
  "dispatch_message i source payload now r =
     (case fr_inner r i of
        None \<Rightarrow> (False, None, r)
      | Some e \<Rightarrow>
        (case en_module e of
           None \<Rightarrow> (False, None, r)
         | Some m \<Rightarrow>
             let (ok, q) = try_consume i source (length payload) (quota_params_for (en_descriptor e))
                             now (fr_quotas r);
                 r' = r\<lparr>fr_quotas := q\<rparr>
             in if \<not> ok then (False, None, r') else (True, Some (m, source, payload), r')))"

definition registry_len :: "'m feature_registry \<Rightarrow> nat" where
  "registry_len r = msize (fr_inner r)"

definition registry_is_empty :: "'m feature_registry \<Rightarrow> bool" where
  "registry_is_empty r \<longleftrightarrow> registry_len r = 0"

text \<open>\<open>BTreeMap::values\<close>: in the order of the keys.\<close>

definition snapshot :: "'m feature_registry \<Rightarrow> capability_descriptor list" where
  "snapshot r = map (\<lambda>i. en_descriptor (the (fr_inner r i))) (sorted_list_of_set (dom (fr_inner r)))"

definition dispatch_invoke_datagram :: "('m \<Rightarrow> 'v invocation_context \<Rightarrow> module_error + unit) \<Rightarrow>
    feature_id \<Rightarrow> peer_id \<Rightarrow> 'v \<Rightarrow> instant \<Rightarrow> 'm feature_registry \<Rightarrow> tag_registry \<Rightarrow>
    (module_error + u8) \<times> 'm feature_registry \<times> tag_registry" where
  "dispatch_invoke_datagram on_invoke i peer params now r tags =
     (case fr_inner r i of
        None \<Rightarrow> (Inl (Internal (NoFeature i)), r, tags)
      | Some e \<Rightarrow>
        let descriptor = en_descriptor e in
        if cd_kind descriptor \<noteq> Datagram
        then (Inl (InvalidParams (NotDatagram i (cd_kind descriptor))), r, tags)
        else let (ok, q) = try_consume_datagram i peer (quota_params_for descriptor) now (fr_quotas r);
                 r' = r\<lparr>fr_quotas := q\<rparr>
             in if \<not> ok then (Inl (Internal (QuotaExceeded i peer)), r', tags)
                else (case bind_tag i tags of
                        (Inl e, tags') \<Rightarrow> (Inl (Internal (TagAllocation e)), r', tags')
                      | (Inr tag, tags') \<Rightarrow>
                          (case dispatch_invoke on_invoke i
                                  \<lparr>ic_peer = peer, ic_params = params, ic_channel_tag = Some tag\<rparr> r' of
                             Inr _ \<Rightarrow> (Inr tag, r', tags')
                           | Inl e \<Rightarrow> (Inl e, r', snd (release_tag i tags')))))"

definition clear_peer_quotas :: "peer_id \<Rightarrow> 'm feature_registry \<Rightarrow> 'm feature_registry" where
  "clear_peer_quotas p r = r\<lparr>fr_quotas := clear_peer p (fr_quotas r)\<rparr>"

definition gate_inbound_through_feature :: "feature_id \<Rightarrow> peer_id \<Rightarrow> nat \<Rightarrow> instant \<Rightarrow>
    'm feature_registry \<Rightarrow> bool \<times> 'm feature_registry" where
  "gate_inbound_through_feature i p n now r =
     (case fr_inner r i of
        None \<Rightarrow> (True, r)
      | Some e \<Rightarrow> let (ok, q) = try_consume i p n (quota_params_for (en_descriptor e)) now (fr_quotas r)
                  in (ok, r\<lparr>fr_quotas := q\<rparr>))"

definition gate_inbound_fanout_through_feature :: "feature_id \<Rightarrow> peer_id \<Rightarrow> nat \<Rightarrow> instant \<Rightarrow>
    'm feature_registry \<Rightarrow> bool \<times> 'm feature_registry" where
  "gate_inbound_fanout_through_feature i p n now r =
     (case fr_inner r i of
        None \<Rightarrow> (True, r)
      | Some e \<Rightarrow> let (ok, q) = try_consume i p n (quota_params_outbound_for (en_descriptor e)) now (fr_quotas r)
                  in (ok, r\<lparr>fr_quotas := q\<rparr>))"

definition gate_through_feature :: "feature_id \<Rightarrow> peer_id \<Rightarrow> nat \<Rightarrow> instant \<Rightarrow>
    'm feature_registry \<Rightarrow> bool \<times> 'm feature_registry" where
  "gate_through_feature i p n now r =
     (case fr_inner r i of
        None \<Rightarrow> (True, r)
      | Some e \<Rightarrow> let (ok, q) = try_consume i p n (quota_params_outbound_for (en_descriptor e)) now
                                  (fr_outbound_quotas r)
                  in (ok, r\<lparr>fr_outbound_quotas := q\<rparr>))"

definition clear_peer_outbound_quotas :: "peer_id \<Rightarrow> 'm feature_registry \<Rightarrow> 'm feature_registry" where
  "clear_peer_outbound_quotas p r = r\<lparr>fr_outbound_quotas := clear_peer p (fr_outbound_quotas r)\<rparr>"

section \<open>Invocation does not leak tags\<close>

text \<open>Past the guards, invoking a datagram feature is an allocation with rollback.\<close>

lemma dispatch_invoke_datagram_eq:
  assumes "fr_inner r i = Some e" "cd_kind (en_descriptor e) = Datagram"
    and "try_consume_datagram i peer (quota_params_for (en_descriptor e)) now (fr_quotas r) = (True, q)"
  shows "dispatch_invoke_datagram on_invoke i peer params now r g =
    (let (res, g') = tags.with_alloc i
        (\<lambda>tag. dispatch_invoke on_invoke i \<lparr>ic_peer = peer, ic_params = params, ic_channel_tag = Some tag\<rparr> r)
        (\<lambda>e. Internal (TagAllocation e)) g
     in (res, r\<lparr>fr_quotas := q\<rparr>, g'))"
  using assms
  by (auto simp: dispatch_invoke_datagram_def tags.with_alloc_def Let_def dispatch_invoke_def module_for_def
      split: prod.splits sum.splits)

text \<open>
  Invoking a datagram feature is transactional in the tag space: if it fails for any reason
  (unknown or wrong-kind feature, quota, exhausted tags, no module, the module's refusal) the tag
  registry is exactly as before; if it succeeds the returned tag was free, is now bound to the
  feature in both directions, and the bound module accepted the invocation with that tag.
\<close>

lemma invoke_datagram_transactional:
  assumes "tags_ok g" "dispatch_invoke_datagram on_invoke i peer params now r g = (res, r', g')"
  shows "tags_ok g' \<and> fr_inner r' = fr_inner r \<and>
    (\<forall>e. res = Inl e \<longrightarrow> g' = g) \<and>
    (\<forall>tag. res = Inr tag \<longrightarrow> feature_for tag g = None \<and> tag_for i g' = Some tag \<and>
       feature_for tag g' = Some i \<and>
       (\<exists>m x. module_for i r = Some m \<and>
          on_invoke m \<lparr>ic_peer = peer, ic_params = params, ic_channel_tag = Some tag\<rparr> = Inr x))"
proof (cases "\<exists>e q. fr_inner r i = Some e \<and> cd_kind (en_descriptor e) = Datagram \<and>
    try_consume_datagram i peer (quota_params_for (en_descriptor e)) now (fr_quotas r) = (True, q)")
  case False
  then have "g' = g \<and> fr_inner r' = fr_inner r \<and> (\<exists>e. res = Inl e)"
    using assms(2) by (auto simp: dispatch_invoke_datagram_def Let_def split: option.splits if_splits prod.splits)
  with assms(1) show ?thesis by auto
next
  case True
  then obtain e q where g: "fr_inner r i = Some e" "cd_kind (en_descriptor e) = Datagram"
    "try_consume_datagram i peer (quota_params_for (en_descriptor e)) now (fr_quotas r) = (True, q)" by blast
  let ?act = "\<lambda>tag. dispatch_invoke on_invoke i
    \<lparr>ic_peer = peer, ic_params = params, ic_channel_tag = Some tag\<rparr> r"
  let ?err = "\<lambda>e. Internal (TagAllocation e)"
  have w: "tags.with_alloc i ?act ?err g = (res, g')" and r': "r' = r\<lparr>fr_quotas := q\<rparr>"
    using assms(2) unfolding dispatch_invoke_datagram_eq [OF g] by (auto split: prod.splits)
  have ok: "tags_ok g'" by (rule tags.with_alloc_inv [OF assms(1) w])
  have fail: "g' = g" if "res = Inl x" for x
    by (rule tags.with_alloc_failure_restores [OF assms(1), of i ?act ?err x]) (use w that in simp)
  have succ: "feature_for tag g = None \<and> tag_for i g' = Some tag \<and> feature_for tag g' = Some i \<and>
      (\<exists>m x. module_for i r = Some m \<and>
          on_invoke m \<lparr>ic_peer = peer, ic_params = params, ic_channel_tag = Some tag\<rparr> = Inr x)"
    if "res = Inr tag" for tag
  proof -
    have b: "bind_tag i g = (Inr tag, g')" 
      using tags.with_alloc_success [of i ?act ?err g tag g'] w that by simp
    have "feature_for tag g = None"
      using bind_Inr(2) [OF b] tags_okD(2) [OF assms(1)] by (metis feature_for_def not_None_eq)
    moreover have "\<exists>x. ?act tag = Inr x"
      using w b that by (auto simp: tags.with_alloc_def split: sum.splits)
    ultimately show ?thesis
      using bind_lookup [OF b] by (auto simp: dispatch_invoke_def split: option.splits)
  qed
  from ok r' fail succ show ?thesis by simp
qed


lemma invoke_datagram_transactional_witness:
  "fst (dispatch_invoke_datagram (\<lambda>(m :: nat) (c :: unit invocation_context). Inl (Internal (Reason ''no'')))
     ''core.x'' ''peer'' () 5 (snd (register_module (\<lambda>_. new_descriptor ''core.x'' ''1'' Datagram) 0 new_registry))
     new_tags) = Inl (Internal (Reason ''no'')) \<and>
   snd (snd (dispatch_invoke_datagram (\<lambda>(m :: nat) (c :: unit invocation_context). Inl (Internal (Reason ''no'')))
     ''core.x'' ''peer'' () 5 (snd (register_module (\<lambda>_. new_descriptor ''core.x'' ''1'' Datagram) 0 new_registry))
     new_tags)) = new_tags"
proof -
  let ?r = "snd (register_module (\<lambda>_. new_descriptor ''core.x'' ''1'' Datagram) (0 :: nat) new_registry)"
  let ?d = "dispatch_invoke_datagram (\<lambda>(m :: nat) (c :: unit invocation_context). Inl (Internal (Reason ''no'')))
     ''core.x'' ''peer'' () 5 ?r new_tags"
  have v: "validate_descriptor (new_descriptor ''core.x'' ''1'' Datagram) = Inr ()"
    using printable_no_ws [of "''core.x''"] by (simp add: validate_descriptor_def new_descriptor_def printable_def)
  have r: "fr_inner ?r ''core.x'' =
      Some \<lparr>en_descriptor = new_descriptor ''core.x'' ''1'' Datagram, en_module = Some 0\<rparr>"
    "fr_quotas ?r = new_quotas"
    using v by (simp_all add: register_module_def new_registry_def new_descriptor_def Let_def)
  have b: "bind_tag ''core.x'' new_tags = (Inr 16, insert_binding ''core.x'' 16 new_tags)"
  proof -
    have d: "dynamic_tags = 16 # map word_of_nat [Suc 16..<240]"
      unfolding dynamic_tags_range by (subst upt_conv_Cons) (simp_all del: upt_rec_numeral)
    show ?thesis unfolding bind_tag_def d by (simp add: new_tags_def del: upt_rec_numeral)
  qed
  have n: "cd_kind (new_descriptor ''core.x'' ''1'' Datagram) = Datagram"
    "quota_params_for (new_descriptor ''core.x'' ''1'' Datagram) =
       \<lparr>qp_bytes_per_sec = 65536, qp_datagrams_per_sec = 256\<rparr>"
    by (simp_all add: new_descriptor_def quota_params_for_def from_params_def read_params_def
        DEFAULT_BYTES_PER_SEC_def DEFAULT_DATAGRAMS_PER_SEC_def)
  have "fst ?d = Inl (Internal (Reason ''no''))"
    by (simp add: dispatch_invoke_datagram_def r n b dispatch_invoke_def module_for_def
        try_consume_datagram_def bucket_consume_datagram_def bucket_for_def new_quotas_def new_bucket_def
        refill_def secs_def)
  moreover obtain res r' g' where d: "?d = (res, r', g')" by (cases ?d) auto
  ultimately show ?thesis using invoke_datagram_transactional [OF tags_ok_new d] by auto
qed

section \<open>The registry invariant\<close>

definition registry_ok :: "'m feature_registry \<Rightarrow> bool" where
  "registry_ok r \<longleftrightarrow> finite (dom (fr_inner r)) \<and>
     (\<forall>i e. fr_inner r i = Some e \<longrightarrow> cd_id (en_descriptor e) = i \<and>
        validate_descriptor (en_descriptor e) = Inr ()) \<and>
     quotas_ok (fr_quotas r) \<and> quotas_ok (fr_outbound_quotas r)"

inductive registry_step :: "'m feature_registry \<Rightarrow> 'm feature_registry \<Rightarrow> bool" where
  register: "registry_step r (snd (register cap r))"
| register_module: "registry_step r (snd (register_module descriptor_of m r))"
| bind_module: "registry_step r (snd (bind_module i m r))"
| upsert: "registry_step r (snd (upsert cap r))"
| remove: "registry_step r (snd (remove_feature i r))"
| dispatch: "registry_step r (snd (snd (dispatch_message i p payload now r)))"
| invoke: "registry_step r (fst (snd (dispatch_invoke_datagram on_invoke i p (params :: string) now r g)))"
| gate_in: "registry_step r (snd (gate_inbound_through_feature i p n now r))"
| gate_fanout: "registry_step r (snd (gate_inbound_fanout_through_feature i p n now r))"
| gate_out: "registry_step r (snd (gate_through_feature i p n now r))"
| clear: "registry_step r (clear_peer_quotas p r)"
| clear_out: "registry_step r (clear_peer_outbound_quotas p r)"

lemma quota_params_rate_ok [simp]: "rate_ok (quota_params_for d)" "rate_ok (quota_params_outbound_for d)"
  by (simp_all add: quota_params_for_def quota_params_outbound_for_def)

lemma quotas_ok_clear: "quotas_ok q \<Longrightarrow> quotas_ok (clear_peer p q)"
  by (auto simp: quotas_ok_def clear_peer_def)

lemma quotas_ok_try_consume_datagram:
  "quotas_ok q \<Longrightarrow> rate_ok params \<Longrightarrow> quotas_ok (snd (try_consume_datagram f p params now q))"
  by (auto simp: quotas_ok_def try_consume_datagram_def case_prod_beta Let_def
      intro!: bucket_consume_datagram_ok bucket_for_ok)

lemmas quotas_ok_intros = quotas_ok_try_consume quotas_ok_try_consume_datagram quotas_ok_clear

lemma registry_step_ok:
  assumes "registry_step r r'" "registry_ok r" shows "registry_ok r'"
  using assms
proof cases
  case (invoke on_invoke i p params now g)
  then show ?thesis using assms(2)
    by (auto simp: registry_ok_def dispatch_invoke_datagram_def Let_def case_prod_beta quotas_ok_intros
        split: option.splits sum.splits)
next
  case (dispatch i p payload now)
  then show ?thesis using assms(2)
    by (auto simp: registry_ok_def dispatch_message_def Let_def case_prod_beta quotas_ok_intros
        split: option.splits)
qed (auto simp: registry_ok_def register_def register_module_def bind_module_def upsert_def
    remove_feature_def gate_inbound_through_feature_def gate_inbound_fanout_through_feature_def
    gate_through_feature_def clear_peer_quotas_def clear_peer_outbound_quotas_def quotas_ok_intros Let_def
    case_prod_beta split: option.splits sum.splits if_splits)

inductive registry_reachable :: "'m feature_registry \<Rightarrow> bool" where
  init: "registry_reachable new_registry"
| step: "registry_reachable r \<Longrightarrow> registry_step r r' \<Longrightarrow> registry_reachable r'"

lemma registry_reachable_ok: "registry_reachable r \<Longrightarrow> registry_ok r"
proof (induction rule: registry_reachable.induct)
  case init
  show ?case by (simp add: registry_ok_def new_registry_def new_quotas_def quotas_ok_def)
qed (rule registry_step_ok)

text \<open>
  In every reachable registry, each capability is stored under its own id and passed
  validation, the advertised snapshot lists every capability exactly once in strictly increasing
  order of id, and every token bucket in either direction holds between zero and one second's
  worth of tokens.
\<close>

lemma registry_reachable_safe:
  assumes "registry_reachable r"
  shows "(\<forall>i d. get_feature i r = Some d \<longrightarrow> cd_id d = i \<and> validate_descriptor d = Inr ()) \<and>
    sorted_wrt (<) (map cd_id (snapshot r)) \<and> length (snapshot r) = registry_len r \<and>
    set (snapshot r) = {d. \<exists>i. get_feature i r = Some d} \<and>
    (\<forall>k s. fr_quotas r k = Some s \<or> fr_outbound_quotas r k = Some s \<longrightarrow> bucket_ok s)"
proof (intro conjI)
  have ok: "registry_ok r" using assms by (rule registry_reachable_ok)
  then have fin: "finite (dom (fr_inner r))" by (simp add: registry_ok_def)
  show g: "\<forall>i d. get_feature i r = Some d \<longrightarrow> cd_id d = i \<and> validate_descriptor d = Inr ()"
    using ok by (auto simp: registry_ok_def get_feature_def)
  have "map cd_id (snapshot r) = map (\<lambda>i. i) (sorted_list_of_set (dom (fr_inner r)))"
    unfolding snapshot_def map_map using ok fin by (intro map_cong) (auto simp: registry_ok_def)
  then show "sorted_wrt (<) (map cd_id (snapshot r))"
    using sorted_list_of_set.strict_sorted_key_list_of_set [of "dom (fr_inner r)"] by simp
  show "length (snapshot r) = registry_len r"
    using fin by (simp add: snapshot_def registry_len_def msize_def)
  show "set (snapshot r) = {d. \<exists>i. get_feature i r = Some d}"
    using fin by (force simp: snapshot_def get_feature_def image_iff)
  show "\<forall>k s. fr_quotas r k = Some s \<or> fr_outbound_quotas r k = Some s \<longrightarrow> bucket_ok s"
    using ok by (auto simp: registry_ok_def quotas_ok_def)
qed

lemma registry_reachable_safe_witness:
  "length (snapshot (snd (register (new_descriptor ''core.x'' ''1'' Datagram) (new_registry :: nat feature_registry))))
     = registry_len (snd (register (new_descriptor ''core.x'' ''1'' Datagram) (new_registry :: nat feature_registry)))"
  using registry_reachable_safe [OF registry_reachable.step [OF registry_reachable.init registry_step.register]]
  by blast

section \<open>Isolation of the quota buckets\<close>

text \<open>
  Accounting is separate per peer, per feature and per direction: outbound gating never
  touches inbound buckets, a dispatch or inbound gate never touches outbound ones, neither
  touches a bucket of any other peer or feature, and after a peer's quotas are cleared its next
  message is judged against a full bucket while other peers keep theirs.
\<close>

lemma quota_isolation:
  "fr_quotas (snd (gate_through_feature i p n now r)) = fr_quotas r \<and>
   fr_outbound_quotas (snd (snd (dispatch_message i p payload now r))) = fr_outbound_quotas r \<and>
   fr_outbound_quotas (snd (gate_inbound_through_feature i p n now r)) = fr_outbound_quotas r \<and>
   ((i', p') \<noteq> (i, p) \<longrightarrow>
      fr_outbound_quotas (snd (gate_through_feature i p n now r)) (i', p') = fr_outbound_quotas r (i', p') \<and>
      fr_quotas (snd (snd (dispatch_message i p payload now r))) (i', p') = fr_quotas r (i', p') \<and>
      fr_quotas (snd (gate_inbound_through_feature i p n now r)) (i', p') = fr_quotas r (i', p')) \<and>
   fr_quotas (clear_peer_quotas p r) (i, p) = None \<and>
   (p' \<noteq> p \<longrightarrow> fr_quotas (clear_peer_quotas p r) (i', p') = fr_quotas r (i', p'))"
  by (auto simp: gate_through_feature_def dispatch_message_def gate_inbound_through_feature_def
      clear_peer_quotas_def clear_peer_def try_consume_def retain_def Let_def case_prod_beta
      split: option.splits)

lemma quota_isolation_witness:
  "fr_outbound_quotas (snd (gate_through_feature ''a.b'' ''p'' 3 7 (new_registry :: nat feature_registry)))
     (''a.b'', ''q'') = None"
  using quota_isolation [of "''a.b''" "''p''" 3 7 "new_registry :: nat feature_registry" "[]" "''a.b''" "''q''"]
  by (simp add: new_registry_def new_quotas_def)

text \<open>
  The rate a bucket is metered at is fixed when it is created: an existing bucket ignores the
  parameters of later calls, so a hot reload of a descriptor and the fan-out gate, which is
  meant to be metered at the outbound rate, take effect only for peers without a bucket.
\<close>

lemma bucket_rate_is_sticky:
  assumes "fr_inner r i = Some e" "fr_quotas r (i, p) = Some s"
  shows "gate_inbound_fanout_through_feature i p n now r = gate_inbound_through_feature i p n now r"
    and "validate_descriptor cap = Inr () \<Longrightarrow> cd_id cap = i \<Longrightarrow>
      fst (gate_inbound_through_feature i p n now (snd (upsert cap r))) = fst (bucket_consume now n s)"
  using assms
  by (simp_all add: gate_inbound_fanout_through_feature_def gate_inbound_through_feature_def
      try_consume_def bucket_for_def upsert_def case_prod_beta Let_def)

end
