(* ===== verification/Once_Filter.thy ===== *)
theory Once_Filter
  imports Prelude
begin

text \<open>
  The contract shared by the duplicate filters of the system: the replay guard of the signaling
  layer and the bounded cache of replicated message ids. A filter accepts or refuses an event
  and updates its memory. What is accepted is remembered, what is remembered is refused when it
  comes again, and memory survives every offer that is harmless to it.
\<close>

locale once_filter =
  fixes offer :: "'e \<Rightarrow> 's \<Rightarrow> bool \<times> 's"
    and mem :: "'e \<Rightarrow> 's \<Rightarrow> bool"
    and replays :: "'e \<Rightarrow> 'e \<Rightarrow> 's \<Rightarrow> bool"
    and harmless :: "'e \<Rightarrow> 'e \<Rightarrow> 's \<Rightarrow> bool"
  assumes records: "fst (offer e s) \<Longrightarrow> mem e (snd (offer e s))"
    and refuses: "mem e s \<Longrightarrow> replays e e' s \<Longrightarrow> \<not> fst (offer e' s)"
    and keeps: "mem e s \<Longrightarrow> harmless e e' s \<Longrightarrow> mem e (snd (offer e' s))"
begin

fun run :: "'e list \<Rightarrow> 's \<Rightarrow> 's" where
  "run [] s = s"
| "run (e # es) s = run es (snd (offer e s))"

fun all_harmless :: "'e \<Rightarrow> 'e list \<Rightarrow> 's \<Rightarrow> bool" where
  "all_harmless e [] s \<longleftrightarrow> True"
| "all_harmless e (e' # es) s \<longleftrightarrow> harmless e e' s \<and> all_harmless e es (snd (offer e' s))"

lemma mem_run: "mem e s \<Longrightarrow> all_harmless e es s \<Longrightarrow> mem e (run es s)"
  by (induction es arbitrary: s) (auto intro: keeps)

lemma accepted_once:
  assumes "fst (offer e s)" "all_harmless e es (snd (offer e s))" "replays e e' (run es (snd (offer e s)))"
  shows "\<not> fst (offer e' (run es (snd (offer e s))))"
  using assms records mem_run refuses by blast

lemma run_append: "run (es @ es') s = run es' (run es s)"
  by (induction es arbitrary: s) auto

end

end
