(* ===== verification/Replay.thy ===== *)
theory Replay
  imports Once_Filter Complex_Main
begin

text \<open>
  The replay guard of \<open>conquerd-features/src/replay.rs\<close>. The mutex-protected map is the state; the
  window is a \<open>Duration\<close> in nanoseconds. \<open>None\<close> for the window argument of the constructor stands
  for a float that is not finite.
\<close>

section \<open>Model\<close>

definition DEFAULT_REPLAY_WINDOW_SECS :: rat where "DEFAULT_REPLAY_WINDOW_SECS = 300"
definition MAX_ENTRIES_PER_SENDER :: nat where "MAX_ENTRIES_PER_SENDER = 16384"

definition sig_key :: "bytes \<Rightarrow> bytes" where
  "sig_key signature =
     (let n = min (length signature) 16 in take n signature @ replicate (16 - n) 0)"

record sender_window =
  sw_seen :: "bytes \<rightharpoonup> instant"

definition new_window :: sender_window where "new_window = \<lparr>sw_seen = Map.empty\<rparr>"

definition prune :: "instant \<Rightarrow> nat \<Rightarrow> sender_window \<Rightarrow> sender_window" where
  "prune now window w = w\<lparr>sw_seen := retain (\<lambda>_ first_seen. now - first_seen \<le> window) (sw_seen w)\<rparr>"

record replay_guard =
  rg_windows :: "peer_id \<rightharpoonup> sender_window"
  rg_window :: nat

definition from_secs :: "rat \<Rightarrow> nat" where
  "from_secs s = nat \<lfloor>s * 1000000000\<rfloor>"

definition new_replay_guard :: "rat option \<Rightarrow> replay_guard" where
  "new_replay_guard window_secs =
     (let s = (case window_secs of
                 Some w \<Rightarrow> if w > 0 then w else DEFAULT_REPLAY_WINDOW_SECS
               | None \<Rightarrow> DEFAULT_REPLAY_WINDOW_SECS)
      in \<lparr>rg_windows = Map.empty, rg_window = from_secs s\<rparr>)"

definition check_and_record_at :: "peer_id \<Rightarrow> bytes \<Rightarrow> instant \<Rightarrow> replay_guard \<Rightarrow> bool \<times> replay_guard" where
  "check_and_record_at sender signature now g =
     (if signature = [] then (False, g)
      else let key = sig_key signature;
               win0 = (case rg_windows g sender of Some w \<Rightarrow> w | None \<Rightarrow> new_window);
               win = prune now (rg_window g) win0
           in if sw_seen win key \<noteq> None
              then (False, g\<lparr>rg_windows := (rg_windows g)(sender \<mapsto> win)\<rparr>)
              else if msize (sw_seen win) \<ge> MAX_ENTRIES_PER_SENDER
              then (False, g\<lparr>rg_windows := (rg_windows g)(sender \<mapsto> win)\<rparr>)
              else (True, g\<lparr>rg_windows := (rg_windows g)(sender \<mapsto>
                            win\<lparr>sw_seen := (sw_seen win)(key \<mapsto> now)\<rparr>)\<rparr>))"

definition forget_peer :: "peer_id \<Rightarrow> replay_guard \<Rightarrow> replay_guard" where
  "forget_peer sender g = g\<lparr>rg_windows := (rg_windows g)(sender := None)\<rparr>"

definition guard_tracked_senders :: "replay_guard \<Rightarrow> nat" where
  "guard_tracked_senders g = msize (rg_windows g)"

section \<open>As a duplicate filter\<close>

type_synonym signed_msg = "peer_id \<times> bytes \<times> instant"

fun offer_replay :: "signed_msg \<Rightarrow> replay_guard \<Rightarrow> bool \<times> replay_guard" where
  "offer_replay (sender, signature, now) g = check_and_record_at sender signature now g"

text \<open>The guard remembers that a signature was accepted at a given time.\<close>

fun remembers :: "signed_msg \<Rightarrow> replay_guard \<Rightarrow> bool" where
  "remembers (sender, signature, t) g \<longleftrightarrow>
     (\<exists>w. rg_windows g sender = Some w \<and> sw_seen w (sig_key signature) = Some t)"

fun in_window :: "signed_msg \<Rightarrow> signed_msg \<Rightarrow> replay_guard \<Rightarrow> bool" where
  "in_window (_, _, t) (_, _, t') g \<longleftrightarrow> t' - t \<le> rg_window g"

fun same_signature :: "signed_msg \<Rightarrow> signed_msg \<Rightarrow> replay_guard \<Rightarrow> bool" where
  "same_signature (sender, signature, t) (sender', signature', t') g \<longleftrightarrow>
     sender' = sender \<and> sig_key signature' = sig_key signature \<and> t' - t \<le> rg_window g"

lemma check_window [simp]: "rg_window (snd (check_and_record_at sender sig now g)) = rg_window g"
  by (simp add: check_and_record_at_def Let_def)

lemma prune_seen: "sw_seen (prune now W w) k = Some t \<longleftrightarrow> sw_seen w k = Some t \<and> now - t \<le> W"
  by (simp add: prune_def)

lemma check_keeps:
  assumes "remembers (sender, sig, t) g" "now - t \<le> rg_window g"
  shows "remembers (sender, sig, t) (snd (check_and_record_at sender' sig' now g))"
proof -
  obtain w where w: "rg_windows g sender = Some w" "sw_seen w (sig_key sig) = Some t"
    using assms(1) by auto
  show ?thesis
  proof (cases "sender' = sender")
    case True
    have p: "sw_seen (prune now (rg_window g) w) (sig_key sig) = Some t"
      using w assms(2) by (simp add: prune_seen)
    with w True show ?thesis by (auto simp: check_and_record_at_def Let_def)
  next
    case False
    with w show ?thesis by (simp add: check_and_record_at_def Let_def)
  qed
qed

lemma check_records:
  "fst (check_and_record_at sender sig now g) \<Longrightarrow>
     remembers (sender, sig, now) (snd (check_and_record_at sender sig now g))"
  by (auto simp: check_and_record_at_def Let_def split: if_splits)

lemma check_refuses:
  assumes "remembers (sender, sig, t) g" "sig_key sig' = sig_key sig" "now - t \<le> rg_window g"
  shows "\<not> fst (check_and_record_at sender sig' now g)"
proof -
  obtain w where w: "rg_windows g sender = Some w" "sw_seen w (sig_key sig) = Some t"
    using assms(1) by auto
  then have "sw_seen (prune now (rg_window g) w) (sig_key sig') = Some t"
    using assms by (simp add: prune_seen)
  with w show ?thesis by (simp add: check_and_record_at_def Let_def)
qed

interpretation replay: once_filter offer_replay remembers same_signature in_window
proof
  fix e e' :: signed_msg and g :: replay_guard
  show "remembers e (snd (offer_replay e g))" if "fst (offer_replay e g)"
    using that check_records by (cases e) auto
  show "\<not> fst (offer_replay e' g)" if "remembers e g" "same_signature e e' g"
    using that check_refuses by (cases e; cases e') auto
  show "remembers e (snd (offer_replay e' g))" if "remembers e g" "in_window e e' g"
    using that check_keeps by (cases e; cases e') (simp del: remembers.simps)
qed

section \<open>The guard as a whole\<close>

definition run_guard :: "signed_msg list \<Rightarrow> replay_guard \<Rightarrow> replay_guard" where
  "run_guard es g = foldl (\<lambda>g e. snd (offer_replay e g)) g es"

lemma run_guard_eq: "run_guard es g = replay.run es g"
  by (induction es arbitrary: g) (simp_all add: run_guard_def)

lemma run_guard_window [simp]: "rg_window (run_guard es g) = rg_window g"
  unfolding run_guard_def by (induction es arbitrary: g) auto

lemma harmless_run:
  "(\<forall>(_, _, t') \<in> set es. t' - t \<le> rg_window g) \<Longrightarrow> replay.all_harmless (sender, sig, t) es g"
  by (induction es arbitrary: g) auto

definition guard_ok :: "replay_guard \<Rightarrow> bool" where
  "guard_ok g \<longleftrightarrow> (\<forall>sender w. rg_windows g sender = Some w \<longrightarrow>
     finite (dom (sw_seen w)) \<and> msize (sw_seen w) \<le> MAX_ENTRIES_PER_SENDER)"

lemma guard_ok_check:
  assumes "guard_ok g" shows "guard_ok (snd (check_and_record_at sender sig now g))"
proof -
  let ?w = "case rg_windows g sender of Some w \<Rightarrow> w | None \<Rightarrow> new_window"
  have w: "finite (dom (sw_seen ?w))" "msize (sw_seen ?w) \<le> MAX_ENTRIES_PER_SENDER"
    using assms by (auto simp: guard_ok_def new_window_def split: option.split)
  have p: "finite (dom (sw_seen (prune now (rg_window g) ?w)))"
    "msize (sw_seen (prune now (rg_window g) ?w)) \<le> MAX_ENTRIES_PER_SENDER"
    using w le_trans [OF msize_retain_le [OF w(1)] w(2)] by (simp_all add: prune_def)
  show ?thesis
    using assms p by (auto simp: check_and_record_at_def Let_def guard_ok_def msize_upd)
qed

lemma guard_ok_run: "guard_ok g \<Longrightarrow> guard_ok (run_guard es g)"
proof (induction es arbitrary: g)
  case (Cons e es)
  obtain s sig t where "e = (s, sig, t)" by (cases e) auto
  with Cons show ?case by (simp add: run_guard_def guard_ok_check)
qed (simp add: run_guard_def)



text \<open>An accepted message: what is needed, exactly.\<close>

lemma check_accepts_iff:
  "fst (check_and_record_at sender sig now g) \<longleftrightarrow>
     (let w = prune now (rg_window g) (case rg_windows g sender of Some w \<Rightarrow> w | None \<Rightarrow> new_window)
      in sig \<noteq> [] \<and> sw_seen w (sig_key sig) = None \<and> msize (sw_seen w) < 16384)"
  by (auto simp: check_and_record_at_def Let_def MAX_ENTRIES_PER_SENDER_def)

end
