(* ===== verification/Video_Codec.thy ===== *)
theory Video_Codec
  imports Rust_Str
begin

text \<open>
  Codec identity and negotiation, \<open>conquerd-features/src/video_codec.rs\<close>. The JSON value a
  descriptor carries in \<open>params\<close> belongs to \<open>serde_json\<close>; \<open>codecs_from_params\<close> takes what the
  code reads of it, the \<open>codecs\<close> array with each entry's string if it is one.
\<close>

datatype video_codec = H264 | Vp8 | Stub

fun as_wire :: "video_codec \<Rightarrow> u8" where
  "as_wire H264 = 0x01"
| "as_wire Vp8 = 0x02"
| "as_wire Stub = 0xFF"

definition from_wire :: "u8 \<Rightarrow> video_codec option" where
  "from_wire b = (if b = 0x01 then Some H264 else if b = 0x02 then Some Vp8
     else if b = 0xFF then Some Stub else None)"

fun as_str :: "video_codec \<Rightarrow> string" where
  "as_str H264 = ''h264''"
| "as_str Vp8 = ''vp8''"
| "as_str Stub = ''stub''"

definition parse_codec :: "string \<Rightarrow> video_codec option" where
  "parse_codec s = (if s = ''h264'' then Some H264 else if s = ''vp8'' then Some Vp8
     else if s = ''stub'' then Some Stub else None)"

definition PREFERENCE :: "video_codec list" where
  "PREFERENCE = [H264, Vp8, Stub]"

definition negotiate :: "video_codec list \<Rightarrow> video_codec list \<Rightarrow> video_codec option" where
  "negotiate local remote = find (\<lambda>c. c \<in> set local \<and> c \<in> set remote) PREFERENCE"

definition preference_from_setting :: "string \<Rightarrow> video_codec option" where
  "preference_from_setting setting =
     (let s = trim_ws setting in
      if s = '''' \<or> s = ''auto'' then None
      else if s = ''stub'' then None
      else parse_codec s)"

definition negotiate_preferring ::
  "video_codec list \<Rightarrow> video_codec list \<Rightarrow> video_codec option \<Rightarrow> video_codec option" where
  "negotiate_preferring local remote preferred = (case preferred of
       Some want \<Rightarrow> if want \<in> set local \<and> want \<in> set remote then Some want
                    else negotiate local remote
     | None \<Rightarrow> negotiate local remote)"

definition best_available :: "video_codec list \<Rightarrow> video_codec option \<Rightarrow> video_codec option" where
  "best_available available preferred = (case preferred of
       Some want \<Rightarrow> if want \<in> set available then Some want
                    else find (\<lambda>c. c \<in> set available) PREFERENCE
     | None \<Rightarrow> find (\<lambda>c. c \<in> set available) PREFERENCE)"

definition advertised_codecs :: "video_codec list \<Rightarrow> video_codec list" where
  "advertised_codecs available = filter (\<lambda>c. c \<noteq> Stub) available"

definition codec_names :: "video_codec list \<Rightarrow> string list" where
  "codec_names codecs = map as_str codecs"

definition codecs_from_params :: "string option list option \<Rightarrow> video_codec list" where
  "codecs_from_params codecs_field = (case codecs_field of
       None \<Rightarrow> []
     | Some arr \<Rightarrow> List.map_filter parse_codec (List.map_filter id arr))"

lemma from_wire_as_wire [simp, wire_simps]: "from_wire (as_wire c) = Some c"
  by (cases c) (simp_all add: from_wire_def)

lemma from_wire_Some: "from_wire b = Some c \<longleftrightarrow> b = as_wire c"
  by (cases c) (auto simp: from_wire_def split: if_splits)

lemma parse_as_str [simp]: "parse_codec (as_str c) = Some c"
  by (cases c) (simp_all add: parse_codec_def)

lemma codecs_from_params_names:
  "codecs_from_params (Some (map Some (codec_names cs))) = cs"
  by (simp add: codecs_from_params_def codec_names_def List.map_filter_def comp_def)

lemma in_PREFERENCE [simp]: "c \<in> set PREFERENCE"
  by (cases c) (simp_all add: PREFERENCE_def)

lemma find_PREFERENCE_None: "find P PREFERENCE = None \<longleftrightarrow> (\<forall>c. \<not> P c)"
  by (simp add: find_None_iff)

lemma find_PREFERENCE_Some: "find P PREFERENCE = Some c \<Longrightarrow> P c"
  by (auto simp: find_Some_iff)

text \<open>
  Negotiation is symmetric, so two peers running it on the same pair of lists agree without
  another message; it returns a codec exactly when the two lists intersect, and then one that is
  in both; a preference never makes a peer send a codec the other side cannot decode nor turns a
  possible stream into none; and what a peer advertises never contains the test-only stub, so
  the stub is never negotiated between advertised lists.
\<close>

lemma negotiate_sound:
  "negotiate l r = negotiate r l \<and>
   (negotiate l r = None \<longleftrightarrow> set l \<inter> set r = {}) \<and>
   (negotiate_preferring l r p = None \<longleftrightarrow> set l \<inter> set r = {}) \<and>
   set_option (negotiate_preferring l r p) \<subseteq> set l \<inter> set r \<and>
   set_option (negotiate_preferring (advertised_codecs l) r p) \<subseteq> {H264, Vp8}"
proof -
  have sub: "set_option (negotiate_preferring l r p) \<subseteq> set l \<inter> set r" for l r p
    by (auto simp: negotiate_preferring_def negotiate_def split: option.splits if_splits
        dest!: find_PREFERENCE_Some)
  moreover have "set_option (negotiate_preferring (advertised_codecs l) r p) \<subseteq> {H264, Vp8}"
    using sub [of "advertised_codecs l" r p] by (auto simp: advertised_codecs_def) (metis video_codec.exhaust)
  moreover have "negotiate_preferring l r p = None \<longleftrightarrow> set l \<inter> set r = {}"
    by (auto simp: negotiate_preferring_def negotiate_def find_PREFERENCE_None
        split: option.splits)
  ultimately show ?thesis
    by (auto simp: negotiate_def find_PREFERENCE_None conj_commute)
qed

text \<open>The wire byte and the advertised name both identify the codec.\<close>

lemma best_available_sound: "best_available av p = Some c \<Longrightarrow> c \<in> set av"
  by (auto simp: best_available_def split: option.splits if_splits dest!: find_PREFERENCE_Some)

lemma stub_not_selectable: "preference_from_setting s \<noteq> Some Stub"
  by (auto simp: preference_from_setting_def parse_codec_def Let_def)

end
