(* ===== verification/Fragment.thy ===== *)
theory Fragment
  imports Video_Codec "HOL-Library.Monad_Syntax"
begin

unbundle bit_operations_syntax

text \<open>
  Splitting an encoded video frame into datagram-sized fragments and parsing one fragment:
  the sender and parser half of \<open>conquerd-client/src/video/fragment.rs\<close>. A signature is a
  64-byte array; it is a byte list here whose length the type of the source fixes, so the
  theorems carry \<open>length sig = 64\<close>.
\<close>

section \<open>Constants and header\<close>

definition FRAGMENT_VERSION :: u8 where "FRAGMENT_VERSION = 0x03"
definition FIXED_PREFIX_LEN :: nat where "FIXED_PREFIX_LEN = 12"
definition FIXED_SUFFIX_LEN :: nat where "FIXED_SUFFIX_LEN = 8"
definition SIGNATURE_LEN :: nat where "SIGNATURE_LEN = 64"
definition MAX_SENDER_LEN :: nat where "MAX_SENDER_LEN = 64"
definition FLAG_KEYFRAME :: u8 where "FLAG_KEYFRAME = 1"
definition FLAG_HAS_SIGNATURE :: u8 where "FLAG_HAS_SIGNATURE = 2"
definition MAX_FRAGS_PER_FRAME :: u16 where "MAX_FRAGS_PER_FRAME = 128"

lemmas frag_consts = FRAGMENT_VERSION_def FIXED_PREFIX_LEN_def FIXED_SUFFIX_LEN_def
  SIGNATURE_LEN_def MAX_SENDER_LEN_def FLAG_KEYFRAME_def FLAG_HAS_SIGNATURE_def
  MAX_FRAGS_PER_FRAME_def

record fragment_header =
  fh_keyframe :: bool
  fh_codec :: video_codec
  fh_pts_us :: u64
  fh_sender :: string
  fh_frame_seq :: u32
  fh_frag_idx :: u16
  fh_frag_count :: u16
  fh_signature :: "bytes option"

section \<open>Fragmenting\<close>

definition div_ceil :: "nat \<Rightarrow> nat \<Rightarrow> nat" where
  "div_ceil a b = (a + b - 1) div b"

text \<open>The slice \<open>sealed[start..(start + chunk_cap).min(sealed.len())]\<close> of one loop iteration.\<close>

definition frag_chunk :: "nat \<Rightarrow> bytes \<Rightarrow> nat \<Rightarrow> bytes" where
  "frag_chunk chunk_cap sealed idx = take chunk_cap (drop (idx * chunk_cap) sealed)"

text \<open>One iteration of the fragment loop: the bytes pushed into \<open>buf\<close>.\<close>

definition fragment_one ::
  "string \<Rightarrow> u32 \<Rightarrow> bool \<Rightarrow> video_codec \<Rightarrow> u64 \<Rightarrow> bytes \<Rightarrow> nat \<Rightarrow> nat \<Rightarrow> bytes \<Rightarrow> bytes" where
  "fragment_one sender frame_seq keyframe codec pts_us signature count idx chunk =
     (let is_first = (idx = 0);
          flags = (if keyframe then FLAG_KEYFRAME else 0) OR
                  (if is_first then FLAG_HAS_SIGNATURE else 0)
      in [FRAGMENT_VERSION, flags, as_wire codec] @ u64_to_be pts_us @
         [word_of_nat (length sender)] @ as_bytes sender @ u32_to_be frame_seq @
         u16_to_be (word_of_nat idx) @ u16_to_be (word_of_nat count) @
         (if is_first then signature else []) @ chunk)"

definition fragment_frame ::
  "string \<Rightarrow> u32 \<Rightarrow> bool \<Rightarrow> video_codec \<Rightarrow> u64 \<Rightarrow> bytes \<Rightarrow> bytes \<Rightarrow> nat \<Rightarrow> bytes list option" where
  "fragment_frame sender frame_seq keyframe codec pts_us signature sealed max_payload =
     (if sender = [] \<or> length sender > MAX_SENDER_LEN then None
      else let base = FIXED_PREFIX_LEN + length sender + FIXED_SUFFIX_LEN in
        if max_payload < base + SIGNATURE_LEN then None
        else let chunk_cap = max_payload - (base + SIGNATURE_LEN) in
          if chunk_cap = 0 then None
          else let count = max (div_ceil (length sealed) chunk_cap) 1 in
            if count > unat MAX_FRAGS_PER_FRAME then None
            else Some (map (\<lambda>idx. fragment_one sender frame_seq keyframe codec pts_us signature
                         count idx (frag_chunk chunk_cap sealed idx)) [0..<count]))"

section \<open>Parsing\<close>

text \<open>\<open>buf[a..b]\<close>, used below only where the length has been checked.\<close>

definition slice :: "nat \<Rightarrow> nat \<Rightarrow> 'a list \<Rightarrow> 'a list" where
  "slice a b xs = take (b - a) (drop a xs)"

definition parse_fragment :: "bytes \<Rightarrow> (fragment_header \<times> bytes) option" where
  "parse_fragment buf =
     (if length buf < FIXED_PREFIX_LEN then None
      else if buf ! 0 \<noteq> FRAGMENT_VERSION then None
      else let flags = buf ! 1 in do {
        codec \<leftarrow> from_wire (buf ! 2);
        let pts_us = u64_from_be (slice 3 11 buf);
        let sender_len = unat (buf ! 11);
        if sender_len = 0 \<or> sender_len > MAX_SENDER_LEN then None
        else let sender_end = FIXED_PREFIX_LEN + sender_len;
                 suffix_end = sender_end + FIXED_SUFFIX_LEN in
          if length buf < suffix_end then None
          else do {
            sender \<leftarrow> from_utf8 (slice FIXED_PREFIX_LEN sender_end buf);
            let frame_seq = u32_from_be (slice sender_end (sender_end + 4) buf);
            let frag_idx = u16_from_be (slice (sender_end + 4) (sender_end + 6) buf);
            let frag_count = u16_from_be (slice (sender_end + 6) suffix_end buf);
            if frag_count = 0 \<or> frag_count > MAX_FRAGS_PER_FRAME then None
            else if frag_idx \<ge> frag_count then None
            else let has_sig = (flags AND FLAG_HAS_SIGNATURE \<noteq> 0) in
              if has_sig \<noteq> (frag_idx = 0) then None
              else do {
                (signature, chunk_start) \<leftarrow>
                  (if has_sig then
                     let sig_end = suffix_end + SIGNATURE_LEN in
                     if length buf < sig_end then None
                     else Some (Some (slice suffix_end sig_end buf), sig_end)
                   else Some (None, suffix_end));
                Some (\<lparr>fh_keyframe = (flags AND FLAG_KEYFRAME \<noteq> 0), fh_codec = codec,
                       fh_pts_us = pts_us, fh_sender = sender, fh_frame_seq = frame_seq,
                       fh_frag_idx = frag_idx, fh_frag_count = frag_count,
                       fh_signature = signature\<rparr>,
                      drop chunk_start buf)
              }
          }
      })"

section \<open>The header round trip\<close>

lemma slice_append1: "length xs = a \<Longrightarrow> b = a + length ys \<Longrightarrow> slice a b (xs @ ys @ zs) = ys"
  by (simp add: slice_def)

lemma drop_exact: "length xs = n \<Longrightarrow> drop n (xs @ ys) = ys"
  by simp

lemma flag_bits:
  "((if k then FLAG_KEYFRAME else 0) OR (if f then FLAG_HAS_SIGNATURE else 0)) AND FLAG_KEYFRAME \<noteq> 0
     \<longleftrightarrow> k"
  "((if k then FLAG_KEYFRAME else 0) OR (if f then FLAG_HAS_SIGNATURE else 0)) AND FLAG_HAS_SIGNATURE \<noteq> 0
     \<longleftrightarrow> f"
  by (simp_all add: FLAG_KEYFRAME_def FLAG_HAS_SIGNATURE_def)

text \<open>
  The layout of a fragment as nested concatenations, one split point per field, so that each
  slice of the parser is one instance of \<open>slice_append1\<close>.
\<close>

lemma parse_fields:
  assumes "buf ! 0 = FRAGMENT_VERSION" "buf ! 1 = fl" "from_wire (buf ! 2) = Some codec"
    and "slice 3 11 buf = pts" "unat (buf ! 11) = slen" "0 < slen" "slen \<le> 64"
    and "slice 12 (12 + slen) buf = snd_b" "from_utf8 snd_b = Some sender"
    and "slice (12 + slen) (16 + slen) buf = seq" "slice (16 + slen) (18 + slen) buf = ib"
    and "slice (18 + slen) (20 + slen) buf = cb"
    and "u16_from_be cb \<noteq> 0" "u16_from_be cb \<le> 128" "u16_from_be ib < u16_from_be cb"
    and "(fl AND FLAG_HAS_SIGNATURE \<noteq> 0) = (u16_from_be ib = 0)"
    and "length sg = (if u16_from_be ib = 0 then 64 else 0)"
    and "u16_from_be ib = 0 \<Longrightarrow> slice (20 + slen) (84 + slen) buf = sg"
    and "drop (20 + slen + length sg) buf = chunk"
    and "length buf = 20 + slen + length sg + length chunk"
  shows "parse_fragment buf =
         Some (\<lparr>fh_keyframe = (fl AND FLAG_KEYFRAME \<noteq> 0), fh_codec = codec,
           fh_pts_us = u64_from_be pts, fh_sender = sender,
           fh_frame_seq = u32_from_be seq, fh_frag_idx = u16_from_be ib,
           fh_frag_count = u16_from_be cb,
           fh_signature = (if u16_from_be ib = 0 then Some sg else None)\<rparr>, chunk)"
proof (cases "u16_from_be ib = 0")
  case True
  then show ?thesis using assms
    unfolding parse_fragment_def frag_consts Let_def by (simp add: add.commute not_less not_le)
next
  case False
  then show ?thesis using assms
    unfolding parse_fragment_def frag_consts Let_def by (simp add: add.commute not_less not_le)
qed

lemma parse_layout:
  assumes "length pts = 8" "length snd_b = slen" "0 < slen" "slen \<le> 64"
    and "length seq = 4" "length ib = 2" "length cb = 2" "utf8_valid snd_b"
    and "from_wire cw = Some codec"
    and "u16_from_be cb \<noteq> 0" "u16_from_be cb \<le> 128" "u16_from_be ib < u16_from_be cb"
    and "(fl AND FLAG_HAS_SIGNATURE \<noteq> 0) = (u16_from_be ib = 0)"
    and "length sg = (if u16_from_be ib = 0 then 64 else 0)"
  shows "parse_fragment ([FRAGMENT_VERSION, fl, cw] @ pts @ [word_of_nat slen] @ snd_b @ seq @ ib @
           cb @ sg @ chunk) =
         Some (\<lparr>fh_keyframe = (fl AND FLAG_KEYFRAME \<noteq> 0), fh_codec = codec,
           fh_pts_us = u64_from_be pts, fh_sender = string_of_bytes snd_b,
           fh_frame_seq = u32_from_be seq, fh_frag_idx = u16_from_be ib,
           fh_frag_count = u16_from_be cb,
           fh_signature = (if u16_from_be ib = 0 then Some sg else None)\<rparr>, chunk)"
    (is "parse_fragment ?buf = _")
proof -
  let ?p = "[FRAGMENT_VERSION, fl, cw] @ pts @ [word_of_nat slen]"
  have lp: "length ?p = 12" using assms(1) by simp
  have b11: "?buf ! 11 = word_of_nat slen"
    using assms(1) by (simp add: nth_append)
  have sl: "unat (word_of_nat slen :: u8) = slen"
    using assms(4) by (simp add: unat_of_nat)
  have s1: "slice 3 11 ?buf = pts"
    using slice_append1 [of "[FRAGMENT_VERSION, fl, cw]" 3 11 pts] assms(1) by simp
  have s2: "slice 12 (12 + slen) ?buf = snd_b"
    using slice_append1 [of ?p 12 "12 + slen" snd_b] lp assms(2) by simp
  have s3: "slice (12 + slen) (16 + slen) ?buf = seq"
    using slice_append1 [of "?p @ snd_b" "12 + slen" "16 + slen" seq] assms(1,2,5) by simp
  have s4: "slice (16 + slen) (18 + slen) ?buf = ib"
    using slice_append1 [of "?p @ snd_b @ seq" "16 + slen" "18 + slen" ib] assms(1,2,5,6) by simp
  have s5: "slice (18 + slen) (20 + slen) ?buf = cb"
    using slice_append1 [of "?p @ snd_b @ seq @ ib" "18 + slen" "20 + slen" cb] assms(1,2,5-7)
    by simp
  have s6: "slice (20 + slen) (84 + slen) ?buf = sg" if "length sg = 64"
    using slice_append1 [of "?p @ snd_b @ seq @ ib @ cb" "20 + slen" "84 + slen" sg] assms(1,2,5-7)
      that by simp
  have d: "drop (20 + slen + length sg) ?buf = chunk"
    using drop_exact [of "?p @ snd_b @ seq @ ib @ cb @ sg" "20 + slen + length sg" chunk]
      assms(1,2,5-7) by simp
  have len: "length ?buf = 20 + slen + length sg + length chunk" using assms(1,2,5-7) by simp
  have idx: "?buf ! 0 = FRAGMENT_VERSION" "?buf ! Suc 0 = fl" "?buf ! 2 = cw" by simp_all
  have utf: "from_utf8 snd_b = Some (string_of_bytes snd_b)"
    using assms(8) by (simp add: from_utf8_def)
  show ?thesis
    by (rule parse_fields) (use assms b11 sl s1 s2 s3 s4 s5 s6 d len idx utf in simp_all)
qed

lemma unat_u16: "n < 65536 \<Longrightarrow> unat (word_of_nat n :: u16) = n"
  by (simp add: unat_of_nat)

lemma parse_fragment_one:
  assumes "utf8_valid (as_bytes sender)" "sender \<noteq> []" "length sender \<le> 64"
    and "idx < count" "count \<le> 128" "length sig = 64"
  shows "parse_fragment (fragment_one sender seq kf codec pts sig count idx chunk) =
     Some (\<lparr>fh_keyframe = kf, fh_codec = codec, fh_pts_us = pts, fh_sender = sender,
       fh_frame_seq = seq, fh_frag_idx = word_of_nat idx, fh_frag_count = word_of_nat count,
       fh_signature = (if idx = 0 then Some sig else None)\<rparr>, chunk)"
proof -
  have u: "unat (word_of_nat idx :: u16) = idx" "unat (word_of_nat count :: u16) = count"
    using assms(4,5) by (simp_all add: unat_u16)
  have z: "(word_of_nat idx :: u16) = 0 \<longleftrightarrow> idx = 0"
    unfolding unat_eq_zero [symmetric] u(1) ..
  have c1: "(word_of_nat count :: u16) \<noteq> 0" 
    unfolding unat_eq_zero [symmetric] u(2) using assms(4) by simp
  have "unat (word_of_nat count :: u16) \<le> unat (128 :: u16)" unfolding u(2) using assms(5) by simp
  then have c2: "(word_of_nat count :: u16) \<le> 128" by (rule word_le_nat_alt [THEN iffD2])
  have "unat (word_of_nat idx :: u16) < unat (word_of_nat count :: u16)"
    unfolding u by (rule assms(4))
  then have c3: "(word_of_nat idx :: u16) < word_of_nat count" by (rule word_less_nat_alt [THEN iffD2])
  show ?thesis
    unfolding fragment_one_def Let_def
    by (subst parse_layout [where codec = codec])
       (use assms z c1 c2 c3 flag_bits in auto)
qed

lemma concat_frag_chunks:
  "concat (map (frag_chunk cap s) [0..<n]) = take (n * cap) s"
proof (induction n)
  case (Suc n)
  have "take (Suc n * cap) s = take (n * cap) s @ take cap (drop (n * cap) s)"
    by (metis add.commute mult_Suc take_add)
  with Suc show ?case by (simp add: frag_chunk_def)
qed simp

lemma le_div_ceil_mult: "0 < b \<Longrightarrow> a \<le> div_ceil a b * b"
proof -
  assume "0 < b"
  then have "a + b - 1 < Suc (div_ceil a b) * b"
    using dividend_less_times_div [of b "a + b - 1"] by (simp add: div_ceil_def mult.commute)
  with \<open>0 < b\<close> show ?thesis by simp
qed

lemma div_ceil_le_iff: "0 < b \<Longrightarrow> div_ceil a b \<le> n \<longleftrightarrow> a \<le> n * b"
proof
  assume "0 < b" "div_ceil a b \<le> n"
  then show "a \<le> n * b" using le_div_ceil_mult [of b a] by (meson le_trans mult_le_mono1)
next
  assume "0 < b" "a \<le> n * b"
  then have "a + b - 1 < Suc n * b" by simp
  with \<open>0 < b\<close> show "div_ceil a b \<le> n"
    unfolding div_ceil_def using less_mult_imp_div_less less_Suc_eq_le by blast
qed

text \<open>The chunk capacity a payload budget leaves, and when there is one.\<close>

definition chunk_room :: "string \<Rightarrow> nat \<Rightarrow> nat" where
  "chunk_room sender max_payload = max_payload - (84 + length sender)"

definition frag_count_for :: "string \<Rightarrow> bytes \<Rightarrow> nat \<Rightarrow> nat" where
  "frag_count_for sender sealed max_payload =
     max (div_ceil (length sealed) (chunk_room sender max_payload)) 1"

lemma fragment_frame_eq:
  "fragment_frame sender seq kf codec pts sig sealed mp =
     (if sender = [] \<or> length sender > 64 \<or> chunk_room sender mp = 0 \<or>
         length sealed > 128 * chunk_room sender mp then None
      else Some (map (\<lambda>idx. fragment_one sender seq kf codec pts sig (frag_count_for sender sealed mp)
             idx (frag_chunk (chunk_room sender mp) sealed idx))
           [0..<frag_count_for sender sealed mp]))"
proof -
  have cap: "mp - (12 + length sender + 8 + 64) = chunk_room sender mp"
    by (simp add: chunk_room_def)
  have c: "max (div_ceil (length sealed) (chunk_room sender mp)) 1 > 128 \<longleftrightarrow>
      length sealed > 128 * chunk_room sender mp" if "0 < chunk_room sender mp"
    using div_ceil_le_iff [OF that, of "length sealed" 128] by (auto simp: max_def)
  show ?thesis
    unfolding fragment_frame_def frag_consts Let_def cap frag_count_for_def
    using c by (auto simp: chunk_room_def)
qed

lemma length_fragment_one:
  "length sig = 64 \<Longrightarrow> length (fragment_one sender seq kf codec pts sig count idx chunk)
     = 20 + length sender + (if idx = 0 then 64 else 0) + length chunk"
  by (simp add: fragment_one_def Let_def)

lemma length_frag_chunk_le: "length (frag_chunk cap s i) \<le> cap"
  by (simp add: frag_chunk_def)

lemma frag_count_for_pos [simp]: "0 < frag_count_for sender sealed mp"
  by (simp add: frag_count_for_def)

lemma frag_count_for_le:
  "0 < chunk_room sender mp \<Longrightarrow> length sealed \<le> 128 * chunk_room sender mp \<Longrightarrow>
     frag_count_for sender sealed mp \<le> 128"
  using div_ceil_le_iff [of "chunk_room sender mp" "length sealed" 128]
  by (simp add: frag_count_for_def)

lemma concat_all_chunks:
  assumes "0 < chunk_room sender mp"
  shows "concat (map (frag_chunk (chunk_room sender mp) sealed) [0..<frag_count_for sender sealed mp])
           = sealed"
proof -
  let ?c = "chunk_room sender mp"
  have "length sealed \<le> div_ceil (length sealed) ?c * ?c" by (rule le_div_ceil_mult [OF assms])
  also have "\<dots> \<le> frag_count_for sender sealed mp * ?c"
    unfolding frag_count_for_def by (intro mult_le_mono1) simp
  finally show ?thesis by (simp add: concat_frag_chunks)
qed

text \<open>
  Fragmenting a frame: it fails exactly for an unusable sender id, a budget with no room for
  payload beside header and signature, or a frame above 128 chunks; otherwise every fragment
  fits the budget, there are between 1 and 128 of them, each parses back to the header it was
  built from with its own index, the signature on the first and only the first, and the parsed
  chunks concatenate to the sealed frame.
\<close>

lemma fragment_frame_correct:
  assumes "utf8_valid (as_bytes sender)" "length sig = 64"
  shows "(fragment_frame sender seq kf codec pts sig sealed mp = None \<longleftrightarrow>
            sender = [] \<or> length sender > 64 \<or> mp \<le> 84 + length sender \<or>
            length sealed > 128 * (mp - (84 + length sender))) \<and>
         (\<forall>frags. fragment_frame sender seq kf codec pts sig sealed mp = Some frags \<longrightarrow>
            1 \<le> length frags \<and> length frags \<le> 128 \<and> (\<forall>f \<in> set frags. length f \<le> mp) \<and>
            (\<exists>chunks. concat chunks = sealed \<and> map parse_fragment frags =
               map (\<lambda>(i, chunk). Some (\<lparr>fh_keyframe = kf, fh_codec = codec, fh_pts_us = pts,
                  fh_sender = sender, fh_frame_seq = seq, fh_frag_idx = word_of_nat i,
                  fh_frag_count = word_of_nat (length frags),
                  fh_signature = (if i = 0 then Some sig else None)\<rparr>, chunk))
               (zip [0..<length frags] chunks)))"
proof (intro conjI allI impI)
  show "fragment_frame sender seq kf codec pts sig sealed mp = None \<longleftrightarrow>
      sender = [] \<or> length sender > 64 \<or> mp \<le> 84 + length sender \<or>
      length sealed > 128 * (mp - (84 + length sender))"
    by (simp add: fragment_frame_eq chunk_room_def)
next
  fix frags assume F: "fragment_frame sender seq kf codec pts sig sealed mp = Some frags"
  let ?c = "chunk_room sender mp" and ?n = "frag_count_for sender sealed mp"
  have g: "sender \<noteq> []" "length sender \<le> 64" "0 < ?c" "length sealed \<le> 128 * ?c"
    and frags: "frags = map (\<lambda>i. fragment_one sender seq kf codec pts sig ?n i
      (frag_chunk ?c sealed i)) [0..<?n]"
    using F by (auto simp: fragment_frame_eq split: if_splits)
  have n: "?n \<le> 128" using g by (intro frag_count_for_le)
  have mp: "mp = 84 + length sender + ?c" using g(3) by (simp add: chunk_room_def)
  show "1 \<le> length frags" "length frags \<le> 128" using n by (simp_all add: frags Suc_leI)
  show "\<forall>f \<in> set frags. length f \<le> mp"
  proof
    fix f assume "f \<in> set frags"
    then obtain i where "f = fragment_one sender seq kf codec pts sig ?n i (frag_chunk ?c sealed i)"
      by (auto simp: frags)
    then have "length f \<le> 20 + length sender + 64 + ?c"
      using length_frag_chunk_le [of ?c sealed i]
      by (cases "i = 0") (simp_all add: length_fragment_one [OF assms(2)])
    with mp show "length f \<le> mp" by linarith
  qed
  have "map parse_fragment frags =
      map (\<lambda>(i, chunk). Some (\<lparr>fh_keyframe = kf, fh_codec = codec, fh_pts_us = pts,
        fh_sender = sender, fh_frame_seq = seq, fh_frag_idx = word_of_nat i,
        fh_frag_count = word_of_nat (length frags),
        fh_signature = (if i = 0 then Some sig else None)\<rparr>, chunk))
      (zip [0..<length frags] (map (frag_chunk ?c sealed) [0..<?n]))"
    using parse_fragment_one [OF assms(1) g(1,2) _ n assms(2)]
    by (auto simp: frags zip_map2 zip_same_conv_map)
  then show "\<exists>chunks. concat chunks = sealed \<and> map parse_fragment frags =
      map (\<lambda>(i, chunk). Some (\<lparr>fh_keyframe = kf, fh_codec = codec, fh_pts_us = pts,
        fh_sender = sender, fh_frame_seq = seq, fh_frag_idx = word_of_nat i,
        fh_frag_count = word_of_nat (length frags),
        fh_signature = (if i = 0 then Some sig else None)\<rparr>, chunk)) (zip [0..<length frags] chunks)"
    using concat_all_chunks [OF g(3), of sealed] by blast
qed

lemma fragment_frame_correct_witness:
  "\<exists>frags. fragment_frame ''peer'' 7 True Vp8 9 (replicate 64 1) [1, 2, 3] 90 = Some frags \<and>
     1 \<le> length frags \<and> length frags \<le> 128 \<and> (\<forall>f \<in> set frags. length f \<le> 90)"
proof -
  have u: "utf8_valid (as_bytes ''peer'')" by code_simp
  have s: "length (replicate 64 (1 :: u8)) = 64" by simp
  note T = fragment_frame_correct [OF u s, of 7 True Vp8 9 "[1, 2, 3]" 90]
  then obtain frags where
      "fragment_frame ''peer'' 7 True Vp8 9 (replicate 64 1) [1, 2, 3] 90 = Some frags"
    by auto
  with T show ?thesis by auto
qed

text \<open>What a receiver may rely on for any datagram the parser accepts.\<close>

lemma parse_fragment_bounds:
  assumes "parse_fragment buf = Some (hdr, chunk)"
  shows "fh_frag_count hdr \<noteq> 0" "fh_frag_count hdr \<le> 128" "fh_frag_idx hdr < fh_frag_count hdr"
    "fh_sender hdr \<noteq> []" "length (fh_sender hdr) \<le> 64"
    "(fh_signature hdr \<noteq> None) = (fh_frag_idx hdr = 0)"
    "\<And>sig. fh_signature hdr = Some sig \<Longrightarrow> length sig = 64"
    "length chunk \<le> length buf"
  using assms
  by (auto simp: parse_fragment_def frag_consts Let_def from_utf8_def slice_def string_of_bytes_def
      word_neq_0_conv [symmetric] split: if_splits option.splits bind_splits)

end
