(* ===== verification/Reassembler.thy ===== *)
theory Reassembler
  imports Fragment
begin

text \<open>
  The receiving half of \<open>conquerd-client/src/video/fragment.rs\<close>: bounded reassembly of fragments
  into frames. The partial frames of one sender are kept in a \<open>HashMap\<close>; here they are an
  association list in iteration order with new keys at the end, because the eviction of the
  oldest partial picks the first minimum of that iteration. Theorems hold for every order.
\<close>

section \<open>State\<close>

definition MAX_PARTIAL_BYTES_PER_SENDER :: nat where "MAX_PARTIAL_BYTES_PER_SENDER = 512 * 1024"
definition MAX_SENDERS :: nat where "MAX_SENDERS = 32"
definition MAX_IN_FLIGHT_PER_SENDER :: nat where "MAX_IN_FLIGHT_PER_SENDER = 8"
definition PARTIAL_TIMEOUT :: nat where "PARTIAL_TIMEOUT = 200 * 1000000"
definition MONOTONIC_LAG :: u32 where "MONOTONIC_LAG = 2"
definition RESTART_BACKWARD_JUMP :: u32 where "RESTART_BACKWARD_JUMP = 256"

record partial_frame =
  pf_keyframe :: bool
  pf_codec :: video_codec
  pf_pts_us :: u64
  pf_signature :: "bytes option"
  pf_chunks :: "bytes option list"
  pf_received :: u16
  pf_bytes :: nat
  pf_first_seen :: instant

record sender_state =
  st_partials :: "(u32 \<times> partial_frame) list"
  st_bytes :: nat
  st_last_completed :: "u32 option"

record reassembled_frame =
  rf_sender :: string
  rf_frame_seq :: u32
  rf_keyframe :: bool
  rf_codec :: video_codec
  rf_pts_us :: u64
  rf_signature :: bytes
  rf_sealed :: bytes

record reassembler =
  ra_senders :: "string \<rightharpoonup> sender_state"

definition sender_default :: sender_state where
  "sender_default = \<lparr>st_partials = [], st_bytes = 0, st_last_completed = None\<rparr>"

definition new_reassembler :: reassembler where
  "new_reassembler = \<lparr>ra_senders = Map.empty\<rparr>"

definition tracked_senders :: "reassembler \<Rightarrow> nat" where
  "tracked_senders r = msize (ra_senders r)"

definition buffered_bytes :: "reassembler \<Rightarrow> string \<Rightarrow> nat" where
  "buffered_bytes r sender = (case ra_senders r sender of None \<Rightarrow> 0 | Some s \<Rightarrow> st_bytes s)"

definition clear_reassembler :: "reassembler \<Rightarrow> reassembler" where
  "clear_reassembler r = r\<lparr>ra_senders := Map.empty\<rparr>"

section \<open>Operations\<close>

definition is_stream_restart :: "u32 \<Rightarrow> fragment_header \<Rightarrow> bool" where
  "is_stream_restart last_completed hdr \<longleftrightarrow>
     fh_keyframe hdr \<and> last_completed - fh_frame_seq hdr > RESTART_BACKWARD_JUMP"

definition seq_newer :: "u32 \<Rightarrow> u32 \<Rightarrow> bool" where
  "seq_newer a b \<longleftrightarrow> a \<noteq> b \<and> a - b < 0x80000000"

definition drop_partial :: "u32 \<Rightarrow> sender_state \<Rightarrow> sender_state" where
  "drop_partial seq s =
     (case map_of (st_partials s) seq of
        None \<Rightarrow> s
      | Some p \<Rightarrow> s\<lparr>st_partials := filter (\<lambda>e. fst e \<noteq> seq) (st_partials s),
                   st_bytes := st_bytes s - pf_bytes p\<rparr>)"

text \<open>\<open>min_by_key\<close> over the partials: the first entry with the least \<open>first_seen\<close>.\<close>

fun oldest :: "(u32 \<times> partial_frame) list \<Rightarrow> u32 option" where
  "oldest [] = None"
| "oldest ((seq, p) # ps) =
     (case oldest ps of
        None \<Rightarrow> Some seq
      | Some seq' \<Rightarrow>
          (case map_of ps seq' of
             None \<Rightarrow> Some seq
           | Some q \<Rightarrow> if pf_first_seen p \<le> pf_first_seen q then Some seq else Some seq'))"

definition evict_oldest :: "sender_state \<Rightarrow> sender_state" where
  "evict_oldest s = (case oldest (st_partials s) of None \<Rightarrow> s | Some seq \<Rightarrow> drop_partial seq s)"

definition drop_all :: "u32 list \<Rightarrow> sender_state \<Rightarrow> sender_state" where
  "drop_all seqs s = foldl (\<lambda>s seq. drop_partial seq s) s seqs"

definition expire_sender :: "instant \<Rightarrow> sender_state \<Rightarrow> sender_state" where
  "expire_sender now s =
     drop_all (map fst (filter (\<lambda>(_, p). now - pf_first_seen p \<ge> PARTIAL_TIMEOUT) (st_partials s))) s"

definition evict_expired :: "reassembler \<Rightarrow> instant \<Rightarrow> reassembler" where
  "evict_expired r now = r\<lparr>ra_senders := (\<lambda>k.
     case ra_senders r k of
       None \<Rightarrow> None
     | Some s \<Rightarrow> let s' = expire_sender now s in
         if st_partials s' \<noteq> [] \<or> st_last_completed s' \<noteq> None then Some s' else None)\<rparr>"

text \<open>
  The stages of \<open>push\<close> on the state of one sender: the check against superseded frames (which
  may reset a restarted stream), making room, finding or creating the partial frame, shedding
  old work under the byte cap, and storing the chunk.
\<close>

definition check_superseded :: "fragment_header \<Rightarrow> sender_state \<Rightarrow> sender_state option" where
  "check_superseded hdr s =
     (case st_last_completed s of
        None \<Rightarrow> Some s
      | Some prev \<Rightarrow>
          let cutoff = prev - MONOTONIC_LAG in
          if seq_newer cutoff (fh_frame_seq hdr) \<or> fh_frame_seq hdr = prev then
            if is_stream_restart prev hdr
            then Some (s\<lparr>st_partials := [], st_bytes := 0, st_last_completed := None\<rparr>)
            else None
          else Some s)"

definition new_partial :: "fragment_header \<Rightarrow> instant \<Rightarrow> partial_frame" where
  "new_partial hdr now =
     \<lparr>pf_keyframe = fh_keyframe hdr, pf_codec = fh_codec hdr, pf_pts_us = fh_pts_us hdr,
      pf_signature = None, pf_chunks = replicate (unat (fh_frag_count hdr)) None,
      pf_received = 0, pf_bytes = 0, pf_first_seen = now\<rparr>"

definition ensure_partial :: "fragment_header \<Rightarrow> instant \<Rightarrow> sender_state \<Rightarrow> sender_state \<times> partial_frame" where
  "ensure_partial hdr now s =
     (let s1 = (if map_of (st_partials s) (fh_frame_seq hdr) = None \<and>
                   length (st_partials s) \<ge> MAX_IN_FLIGHT_PER_SENDER
                then evict_oldest s else s)
      in case map_of (st_partials s1) (fh_frame_seq hdr) of
           Some p \<Rightarrow> (s1, p)
         | None \<Rightarrow> let p = new_partial hdr now in
             (s1\<lparr>st_partials := st_partials s1 @ [(fh_frame_seq hdr, p)]\<rparr>, p))"

lemma length_drop_partial: "length (st_partials (drop_partial seq s)) \<le> length (st_partials s)"
  by (simp add: drop_partial_def split: option.splits)

lemma oldest_in: "oldest ps = Some seq \<Longrightarrow> seq \<in> fst ` set ps"
  by (induction ps rule: oldest.induct) (auto split: option.splits if_splits)

lemma oldest_None: "oldest ps = None \<longleftrightarrow> ps = []"
  by (cases ps rule: oldest.cases) (auto split: option.splits)

lemma filter_key_length_less:
  "seq \<in> fst ` set ps \<Longrightarrow> length (filter (\<lambda>e. fst e \<noteq> seq) ps) < length ps"
  by (force intro: length_filter_less)

lemma length_evict_oldest_less:
  assumes "st_partials s \<noteq> []"
  shows "length (st_partials (evict_oldest s)) < length (st_partials s)"
proof -
  obtain seq where o: "oldest (st_partials s) = Some seq"
    using assms by (metis oldest_None option.exhaust)
  have i: "seq \<in> fst ` set (st_partials s)" using o by (rule oldest_in)
  then obtain p where "map_of (st_partials s) seq = Some p"
    by (metis domD dom_map_of_conv_image_fst)
  with o i show ?thesis by (simp add: evict_oldest_def drop_partial_def filter_key_length_less)
qed

function shed :: "nat \<Rightarrow> sender_state \<Rightarrow> sender_state" where
  "shed n s = (if st_bytes s + n > MAX_PARTIAL_BYTES_PER_SENDER \<and> length (st_partials s) > 1
               then shed n (evict_oldest s) else s)"
  by pat_completeness auto

termination
  by (relation "measure (\<lambda>(n, s). length (st_partials s))")
     (auto intro!: length_evict_oldest_less)

declare shed.simps [simp del]

definition store_chunk :: "fragment_header \<Rightarrow> bytes \<Rightarrow> partial_frame \<Rightarrow> partial_frame" where
  "store_chunk hdr chunk p =
     p\<lparr>pf_signature := (case fh_signature hdr of Some sig \<Rightarrow> Some sig | None \<Rightarrow> pf_signature p),
       pf_bytes := pf_bytes p + length chunk,
       pf_chunks := (pf_chunks p)[unat (fh_frag_idx hdr) := Some chunk],
       pf_received := pf_received p + 1\<rparr>"

text \<open>The loop over the slots; a missing slot would return early.\<close>

fun join_chunks :: "bytes option list \<Rightarrow> bytes option" where
  "join_chunks [] = Some []"
| "join_chunks (None # cs) = None"
| "join_chunks (Some c # cs) = map_option (\<lambda>r. c @ r) (join_chunks cs)"

definition complete_frame :: "fragment_header \<Rightarrow> partial_frame \<Rightarrow> sender_state \<Rightarrow>
    sender_state \<times> reassembled_frame option" where
  "complete_frame hdr p s =
     (case pf_signature p of
        None \<Rightarrow> (s, None)
      | Some sig \<Rightarrow>
        (case join_chunks (pf_chunks p) of
           None \<Rightarrow> (s, None)
         | Some sealed \<Rightarrow>
           let seq = fh_frame_seq hdr;
               s1 = drop_partial seq s;
               newer = (case st_last_completed s1 of None \<Rightarrow> True | Some l \<Rightarrow> seq_newer seq l);
               s2 = (if newer then
                       let s' = s1\<lparr>st_last_completed := Some seq\<rparr>;
                           cutoff = seq - MONOTONIC_LAG
                       in drop_all (filter (\<lambda>q. seq_newer cutoff q) (map fst (st_partials s'))) s'
                     else s1)
           in (s2, Some \<lparr>rf_sender = fh_sender hdr, rf_frame_seq = seq, rf_keyframe = pf_keyframe p,
                 rf_codec = pf_codec p, rf_pts_us = pf_pts_us p, rf_signature = sig,
                 rf_sealed = sealed\<rparr>)))"

definition set_partial :: "u32 \<Rightarrow> partial_frame \<Rightarrow> (u32 \<times> partial_frame) list \<Rightarrow> (u32 \<times> partial_frame) list" where
  "set_partial seq p ps = map (\<lambda>(k, v). if k = seq then (k, p) else (k, v)) ps"

definition insert_chunk :: "fragment_header \<Rightarrow> bytes \<Rightarrow> sender_state \<Rightarrow>
    sender_state \<times> reassembled_frame option" where
  "insert_chunk hdr chunk s =
     (case map_of (st_partials s) (fh_frame_seq hdr) of
        None \<Rightarrow> (s, None)
      | Some p \<Rightarrow>
          let p' = store_chunk hdr chunk p;
              s' = s\<lparr>st_partials := set_partial (fh_frame_seq hdr) p' (st_partials s),
                     st_bytes := st_bytes s + length chunk\<rparr>
          in if pf_received p' < fh_frag_count hdr then (s', None)
             else complete_frame hdr p' s')"

definition push_sender :: "fragment_header \<Rightarrow> bytes \<Rightarrow> instant \<Rightarrow> sender_state \<Rightarrow>
    sender_state \<times> reassembled_frame option" where
  "push_sender hdr chunk now s =
     (case check_superseded hdr s of
        None \<Rightarrow> (s, None)
      | Some s0 \<Rightarrow>
        let (s1, entry) = ensure_partial hdr now s0 in
        if length (pf_chunks entry) \<noteq> unat (fh_frag_count hdr) then (s1, None)
        else if pf_codec entry \<noteq> fh_codec hdr then (s1, None)
        else if pf_pts_us entry \<noteq> fh_pts_us hdr then (s1, None)
        else if pf_chunks entry ! unat (fh_frag_idx hdr) \<noteq> None then (s1, None)
        else if st_bytes s1 + length chunk > MAX_PARTIAL_BYTES_PER_SENDER then
          let s2 = shed (length chunk) s1 in
          if st_bytes s2 + length chunk > MAX_PARTIAL_BYTES_PER_SENDER
          then (drop_partial (fh_frame_seq hdr) s2, None)
          else insert_chunk hdr chunk s2
        else insert_chunk hdr chunk s1)"

definition push :: "reassembler \<Rightarrow> bytes \<Rightarrow> instant \<Rightarrow> reassembler \<times> reassembled_frame option" where
  "push r buf now =
     (case parse_fragment buf of
        None \<Rightarrow> (r, None)
      | Some (hdr, chunk) \<Rightarrow>
          let r1 = evict_expired r now in
          if ra_senders r1 (fh_sender hdr) = None \<and> msize (ra_senders r1) \<ge> MAX_SENDERS
          then (r1, None)
          else let s = (case ra_senders r1 (fh_sender hdr) of Some s \<Rightarrow> s | None \<Rightarrow> sender_default);
                   (s', out) = push_sender hdr chunk now s
               in (r1\<lparr>ra_senders := (ra_senders r1)(fh_sender hdr \<mapsto> s')\<rparr>, out))"

lemmas reasm_consts = MAX_PARTIAL_BYTES_PER_SENDER_def MAX_SENDERS_def
  MAX_IN_FLIGHT_PER_SENDER_def PARTIAL_TIMEOUT_def MONOTONIC_LAG_def RESTART_BACKWARD_JUMP_def


section \<open>The bookkeeping invariant\<close>

definition filled :: "bytes option list \<Rightarrow> nat" where
  "filled cs = length (filter (\<lambda>c. c \<noteq> None) cs)"

definition chunk_bytes :: "bytes option list \<Rightarrow> nat" where
  "chunk_bytes cs = sum_list (map (case_option 0 length) cs)"

definition bytes_of :: "(u32 \<times> partial_frame) list \<Rightarrow> nat" where
  "bytes_of ps = sum_list (map (pf_bytes \<circ> snd) ps)"

text \<open>A partial frame whose counters are honest, before and after it is complete.\<close>

definition partial_counts :: "partial_frame \<Rightarrow> bool" where
  "partial_counts p \<longleftrightarrow> 1 \<le> length (pf_chunks p) \<and> length (pf_chunks p) \<le> 128 \<and>
     pf_received p = word_of_nat (filled (pf_chunks p)) \<and> pf_bytes p = chunk_bytes (pf_chunks p) \<and>
     (pf_chunks p ! 0 \<noteq> None \<longrightarrow> (\<exists>sig. pf_signature p = Some sig \<and> length sig = 64))"

definition partial_ok :: "partial_frame \<Rightarrow> bool" where
  "partial_ok p \<longleftrightarrow> partial_counts p \<and> filled (pf_chunks p) < length (pf_chunks p)"

definition sender_str :: "sender_state \<Rightarrow> bool" where
  "sender_str s \<longleftrightarrow> distinct (map fst (st_partials s)) \<and> st_bytes s = bytes_of (st_partials s)"

definition sender_ok :: "sender_state \<Rightarrow> bool" where
  "sender_ok s \<longleftrightarrow> sender_str s \<and> length (st_partials s) \<le> MAX_IN_FLIGHT_PER_SENDER \<and>
     st_bytes s \<le> MAX_PARTIAL_BYTES_PER_SENDER \<and> (\<forall>p \<in> snd ` set (st_partials s). partial_ok p)"

definition reasm_ok :: "reassembler \<Rightarrow> bool" where
  "reasm_ok r \<longleftrightarrow> finite (dom (ra_senders r)) \<and> msize (ra_senders r) \<le> MAX_SENDERS \<and>
     (\<forall>s \<in> ran (ra_senders r). sender_ok s)"

lemma sender_okI:
  assumes "sender_str s" "length (st_partials s) \<le> 8" "st_bytes s \<le> 512 * 1024"
    and "\<And>p. p \<in> snd ` set (st_partials s) \<Longrightarrow> partial_ok p"
  shows "sender_ok s"
  using assms by (simp add: sender_ok_def reasm_consts)

lemma sender_okD:
  assumes "sender_ok s"
  shows "sender_str s" "length (st_partials s) \<le> 8" "st_bytes s \<le> 512 * 1024"
    "p \<in> snd ` set (st_partials s) \<Longrightarrow> partial_ok p"
  using assms by (auto simp: sender_ok_def reasm_consts)

text \<open>Every way of dropping partials keeps the entries of a set of sequence numbers.\<close>

definition keep :: "(u32 \<Rightarrow> bool) \<Rightarrow> sender_state \<Rightarrow> sender_state" where
  "keep P s = s\<lparr>st_partials := filter (\<lambda>e. P (fst e)) (st_partials s),
                st_bytes := bytes_of (filter (\<lambda>e. P (fst e)) (st_partials s))\<rparr>"

lemma bytes_of_simps [simp]:
  "bytes_of [] = 0" "bytes_of (x # xs) = pf_bytes (snd x) + bytes_of xs"
  "bytes_of (xs @ ys) = bytes_of xs + bytes_of ys"
  by (simp_all add: bytes_of_def)

lemma bytes_of_filter_le: "bytes_of (filter P ps) \<le> bytes_of ps"
  by (induction ps) auto

lemma bytes_of_remove:
  assumes "distinct (map fst ps)" "map_of ps seq = Some p"
  shows "bytes_of ps = pf_bytes p + bytes_of (filter (\<lambda>e. fst e \<noteq> seq) ps)"
  using assms
proof (induction ps)
  case (Cons x ps)
  show ?case
  proof (cases "fst x = seq")
    case True
    then have "filter (\<lambda>e. fst e \<noteq> seq) ps = ps"
      using Cons.prems(1) by (intro filter_True) (simp add: image_iff, metis)
    with True Cons.prems show ?thesis by (simp add: case_prod_beta)
  next
    case False
    with Cons show ?thesis by (simp add: case_prod_beta split: if_splits)
  qed
qed simp

lemma sender_str_keep: "sender_str s \<Longrightarrow> sender_str (keep P s)"
  by (simp add: sender_str_def keep_def distinct_map_filter)

lemma keep_True: "sender_str s \<Longrightarrow> (\<And>k. k \<in> fst ` set (st_partials s) \<Longrightarrow> P k) \<Longrightarrow> keep P s = s"
  by (simp add: keep_def sender_str_def)

lemma keep_keep: "keep P (keep Q s) = keep (\<lambda>k. Q k \<and> P k) s"
  by (simp add: keep_def)

lemma drop_partial_keep:
  assumes "sender_str s"
  shows "drop_partial seq s = keep (\<lambda>k. k \<noteq> seq) s"
proof (cases "map_of (st_partials s) seq")
  case None
  then have "seq \<notin> fst ` set (st_partials s)" by (simp add: map_of_eq_None_iff)
  then have "keep (\<lambda>k. k \<noteq> seq) s = s" by (intro keep_True [OF assms]) auto
  with None show ?thesis by (simp add: drop_partial_def)
next
  case (Some p)
  then show ?thesis
    using bytes_of_remove [of "st_partials s" seq p] assms
    by (simp add: drop_partial_def keep_def sender_str_def)
qed

lemma drop_all_keep:
  "sender_str s \<Longrightarrow> drop_all seqs s = keep (\<lambda>k. k \<notin> set seqs) s"
proof (induction seqs arbitrary: s)
  case Nil
  then show ?case by (simp add: drop_all_def keep_True)
next
  case (Cons q qs)
  have "drop_all (q # qs) s = drop_all qs (keep (\<lambda>k. k \<noteq> q) s)"
    using Cons.prems by (simp add: drop_all_def drop_partial_keep)
  also have "\<dots> = keep (\<lambda>k. k \<notin> set (q # qs)) s"
    using Cons by (simp add: sender_str_keep keep_keep)
  finally show ?case .
qed

lemma keep_sel [simp]:
  "st_partials (keep P s) = filter (\<lambda>e. P (fst e)) (st_partials s)"
  "st_bytes (keep P s) = bytes_of (filter (\<lambda>e. P (fst e)) (st_partials s))"
  "st_last_completed (keep P s) = st_last_completed s"
  by (simp_all add: keep_def)

lemma sender_ok_keep:
  assumes "sender_ok s" shows "sender_ok (keep P s)"
proof (rule sender_okI)
  note ok = sender_okD [OF assms]
  show "sender_str (keep P s)" by (rule sender_str_keep [OF ok(1)])
  show "length (st_partials (keep P s)) \<le> 8"
    using ok(2) le_trans [OF length_filter_le] by simp
  show "st_bytes (keep P s) \<le> 512 * 1024"
    using ok(1,3) le_trans [OF bytes_of_filter_le] by (simp add: sender_str_def)
  show "\<And>p. p \<in> snd ` set (st_partials (keep P s)) \<Longrightarrow> partial_ok p"
    using ok(4) by auto
qed

lemma evict_oldest_keep: "sender_str s \<Longrightarrow> \<exists>P. evict_oldest s = keep P s"
  by (auto simp: evict_oldest_def drop_partial_keep split: option.split intro: keep_True [symmetric])

lemma shed_keep: "sender_str s \<Longrightarrow> \<exists>P. shed n s = keep P s"
proof (induction n s rule: shed.induct)
  case (1 n s)
  show ?case
  proof (cases "st_bytes s + n > MAX_PARTIAL_BYTES_PER_SENDER \<and> length (st_partials s) > 1")
    case True
    obtain P where P: "evict_oldest s = keep P s" using evict_oldest_keep [OF "1.prems"] by blast
    then have "sender_str (evict_oldest s)" by (simp add: sender_str_keep "1.prems")
    then obtain Q where "shed n (evict_oldest s) = keep Q (evict_oldest s)"
      using "1.IH" True by blast
    then have "shed n s = keep (\<lambda>k. P k \<and> Q k) s"
      using True P by (simp add: shed.simps [of n s] keep_keep)
    then show ?thesis by blast
  next
    case False
    then have "shed n s = keep (\<lambda>_. True) s"
      using "1.prems" by (auto simp: shed.simps [of n s] keep_True)
    then show ?thesis by blast
  qed
qed

section \<open>Storing a chunk\<close>

lemma filled_le: "filled cs \<le> length cs"
  by (simp add: filled_def)

lemma filled_replicate [simp]: "filled (replicate n None) = 0"
  by (simp add: filled_def)

lemma chunk_bytes_replicate [simp]: "chunk_bytes (replicate n None) = 0"
  by (simp add: chunk_bytes_def sum_list_replicate)

lemma filled_update:
  "i < length cs \<Longrightarrow> cs ! i = None \<Longrightarrow> filled (cs[i := Some c]) = Suc (filled cs)"
proof (induction cs arbitrary: i)
  case (Cons x cs)
  then show ?case by (cases i) (auto simp: filled_def)
qed simp

lemma chunk_bytes_update:
  "i < length cs \<Longrightarrow> cs ! i = None \<Longrightarrow> chunk_bytes (cs[i := Some c]) = chunk_bytes cs + length c"
proof (induction cs arbitrary: i)
  case (Cons x cs)
  then show ?case by (cases i) (auto simp: chunk_bytes_def)
qed simp

lemma join_chunks_full: "filled cs = length cs \<Longrightarrow> join_chunks cs = Some (concat (map the cs))"
proof (induction cs rule: join_chunks.induct)
  case (2 cs)
  then show ?case using filled_le [of cs] by (simp add: filled_def)
qed (auto simp: filled_def)

lemma filled_full_nth: "filled cs = length cs \<Longrightarrow> i < length cs \<Longrightarrow> cs ! i \<noteq> None"
proof (induction cs arbitrary: i)
  case (Cons x cs)
  have "x \<noteq> None" using Cons.prems(1) filled_le [of cs] by (cases x) (simp_all add: filled_def)
  with Cons show ?case by (cases i) (auto simp: filled_def)
qed simp

lemma partial_ok_new:
  assumes "fh_frag_count hdr \<noteq> 0" "fh_frag_count hdr \<le> 128"
  shows "partial_ok (new_partial hdr now)"
proof -
  have "0 < unat (fh_frag_count hdr)" using assms(1) by (simp add: unat_gt_0)
  moreover have "unat (fh_frag_count hdr) \<le> 128" using assms(2) by (simp add: word_le_nat_alt)
  ultimately show ?thesis by (simp add: partial_ok_def partial_counts_def new_partial_def Suc_le_eq)
qed

text \<open>The well-formedness of a header the parser returns.\<close>

definition header_ok :: "fragment_header \<Rightarrow> bool" where
  "header_ok hdr \<longleftrightarrow> fh_frag_count hdr \<noteq> 0 \<and> fh_frag_count hdr \<le> 128 \<and>
     fh_frag_idx hdr < fh_frag_count hdr \<and> (fh_signature hdr \<noteq> None) = (fh_frag_idx hdr = 0) \<and>
     (\<forall>sig. fh_signature hdr = Some sig \<longrightarrow> length sig = 64)"

lemma parse_header_ok: "parse_fragment buf = Some (hdr, chunk) \<Longrightarrow> header_ok hdr"
  using parse_fragment_bounds [of buf hdr chunk] by (simp add: header_ok_def)

lemma header_idx: "header_ok hdr \<Longrightarrow> unat (fh_frag_idx hdr) < unat (fh_frag_count hdr)"
  by (simp add: header_ok_def word_less_nat_alt)

lemma store_chunk_counts:
  assumes "partial_ok p" "header_ok hdr" "length (pf_chunks p) = unat (fh_frag_count hdr)"
    and "pf_chunks p ! unat (fh_frag_idx hdr) = None"
  shows "partial_counts (store_chunk hdr chunk p)"
    and "filled (pf_chunks (store_chunk hdr chunk p)) = Suc (filled (pf_chunks p))"
    and "pf_bytes (store_chunk hdr chunk p) = pf_bytes p + length chunk"
    and "length (pf_chunks (store_chunk hdr chunk p)) = length (pf_chunks p)"
proof -
  let ?i = "unat (fh_frag_idx hdr)"
  have i: "?i < length (pf_chunks p)" using header_idx [OF assms(2)] assms(3) by simp
  show f: "filled (pf_chunks (store_chunk hdr chunk p)) = Suc (filled (pf_chunks p))"
    by (simp add: store_chunk_def filled_update [OF i assms(4)])
  show l: "length (pf_chunks (store_chunk hdr chunk p)) = length (pf_chunks p)"
    and "pf_bytes (store_chunk hdr chunk p) = pf_bytes p + length chunk"
    by (simp_all add: store_chunk_def)
  have s: "\<exists>sig. pf_signature (store_chunk hdr chunk p) = Some sig \<and> length sig = 64"
    if c: "pf_chunks (store_chunk hdr chunk p) ! 0 \<noteq> None"
  proof (cases "?i = 0")
    case True
    then have "fh_frag_idx hdr = 0" by (simp add: unat_eq_zero)
    then obtain sig where "fh_signature hdr = Some sig" "length sig = 64"
      using assms(2) by (auto simp: header_ok_def)
    then show ?thesis by (simp add: store_chunk_def)
  next
    case False
    then have "fh_frag_idx hdr \<noteq> 0" by (simp add: unat_eq_zero)
    then have "fh_signature hdr = None" using assms(2) by (auto simp: header_ok_def)
    moreover have "pf_chunks p ! 0 \<noteq> None" using c False by (simp add: store_chunk_def)
    ultimately show ?thesis
      using assms(1) by (simp add: store_chunk_def partial_ok_def partial_counts_def)
  qed
  have "pf_received (store_chunk hdr chunk p) = word_of_nat (Suc (filled (pf_chunks p)))"
    using assms(1) by (simp add: store_chunk_def partial_ok_def partial_counts_def add.commute)
  moreover have "pf_bytes (store_chunk hdr chunk p) = chunk_bytes (pf_chunks (store_chunk hdr chunk p))"
    using assms(1) by (simp add: store_chunk_def partial_ok_def partial_counts_def
        chunk_bytes_update [OF i assms(4)])
  ultimately show "partial_counts (store_chunk hdr chunk p)"
    using assms(1) l s f by (simp add: partial_counts_def partial_ok_def)
qed

lemma received_less_iff:
  assumes "partial_counts p" "length (pf_chunks p) = unat (c :: u16)"
  shows "pf_received p < c \<longleftrightarrow> filled (pf_chunks p) < length (pf_chunks p)"
proof -
  have "filled (pf_chunks p) < 65536"
    using assms(1) filled_le [of "pf_chunks p"] by (simp add: partial_counts_def)
  then have "unat (pf_received p) = filled (pf_chunks p)"
    using assms(1) by (simp add: partial_counts_def unat_u16)
  then show ?thesis by (simp add: word_less_nat_alt assms(2))
qed

lemma set_partial_facts:
  assumes "distinct (map fst ps)" "map_of ps seq = Some p"
  shows "map fst (set_partial seq p' ps) = map fst ps"
    and "length (set_partial seq p' ps) = length ps"
    and "bytes_of (set_partial seq p' ps) + pf_bytes p = bytes_of ps + pf_bytes p'"
    and "filter (\<lambda>e. fst e \<noteq> seq) (set_partial seq p' ps) = filter (\<lambda>e. fst e \<noteq> seq) ps"
    and "snd ` set (set_partial seq p' ps) \<subseteq> insert p' (snd ` set ps)"
    and "map_of (set_partial seq p' ps) seq = Some p'"
proof -
  show k: "map fst (set_partial seq p' ps) = map fst ps" "length (set_partial seq p' ps) = length ps"
    by (auto simp: set_partial_def)
  show f: "filter (\<lambda>e. fst e \<noteq> seq) (set_partial seq p' ps) = filter (\<lambda>e. fst e \<noteq> seq) ps"
    by (induction ps) (auto simp: set_partial_def split: if_splits)
  show "snd ` set (set_partial seq p' ps) \<subseteq> insert p' (snd ` set ps)"
    by (auto simp: set_partial_def split: if_splits intro: rev_image_eqI)
  show m: "map_of (set_partial seq p' ps) seq = Some p'"
    using assms(2) by (induction ps) (auto simp: set_partial_def split: if_splits)
  show "bytes_of (set_partial seq p' ps) + pf_bytes p = bytes_of ps + pf_bytes p'"
    using bytes_of_remove [OF assms] bytes_of_remove [OF _ m] k(1) assms(1) f by simp
qed

section \<open>Every operation keeps the invariant\<close>

lemma sender_ok_default [simp]: "sender_ok sender_default"
  by (simp add: sender_ok_def sender_str_def sender_default_def)

lemma sender_ok_drop_partial: "sender_ok s \<Longrightarrow> sender_ok (drop_partial seq s)"
  by (simp add: drop_partial_keep sender_okD(1) sender_ok_keep)

lemma sender_ok_drop_all: "sender_ok s \<Longrightarrow> sender_ok (drop_all seqs s)"
  by (simp add: drop_all_keep sender_okD(1) sender_ok_keep)

lemma sender_ok_evict_oldest: "sender_ok s \<Longrightarrow> sender_ok (evict_oldest s)"
  using evict_oldest_keep sender_okD(1) sender_ok_keep by metis

lemma sender_ok_shed: "sender_ok s \<Longrightarrow> sender_ok (shed n s)"
  using shed_keep sender_okD(1) sender_ok_keep by metis

lemma sender_ok_expire: "sender_ok s \<Longrightarrow> sender_ok (expire_sender now s)"
  by (simp add: expire_sender_def sender_ok_drop_all)

lemma check_superseded_ok: "sender_ok s \<Longrightarrow> check_superseded hdr s = Some s' \<Longrightarrow> sender_ok s'"
  by (auto simp: check_superseded_def Let_def sender_ok_def sender_str_def
      split: option.splits if_splits)

lemma map_of_keep:
  assumes "sender_str s" "map_of (st_partials (keep P s)) seq = Some p"
  shows "map_of (st_partials s) seq = Some p"
proof -
  have "distinct (map fst (st_partials (keep P s)))"
    using sender_str_keep [OF assms(1), of P] by (simp add: sender_str_def)
  then have "(seq, p) \<in> set (st_partials s)" using assms(2) map_of_SomeD by fastforce
  then show ?thesis using assms(1) by (simp add: sender_str_def)
qed

lemma ensure_partial_ok:
  assumes "sender_ok s" "header_ok hdr" "ensure_partial hdr now s = (s1, p)"
  shows "sender_ok s1 \<and> map_of (st_partials s1) (fh_frame_seq hdr) = Some p"
proof -
  let ?q = "fh_frame_seq hdr"
  define s0 where "s0 = (if map_of (st_partials s) ?q = None \<and> length (st_partials s) \<ge> 8
     then evict_oldest s else s)"
  have ok: "sender_ok s0" using assms(1) by (simp add: s0_def sender_ok_evict_oldest)
  have e: "ensure_partial hdr now s = (case map_of (st_partials s0) ?q of Some p \<Rightarrow> (s0, p)
     | None \<Rightarrow> (s0\<lparr>st_partials := st_partials s0 @ [(?q, new_partial hdr now)]\<rparr>, new_partial hdr now))"
    unfolding ensure_partial_def MAX_IN_FLIGHT_PER_SENDER_def Let_def s0_def [symmetric] ..
  show ?thesis
  proof (cases "map_of (st_partials s0) ?q")
    case None
    have len: "length (st_partials s0) < 8"
    proof (cases "length (st_partials s) \<ge> 8")
      case True
      then have ne: "st_partials s \<noteq> []" by auto
      have "map_of (st_partials s) ?q = None \<or> s0 = s" by (auto simp: s0_def)
      with None have "map_of (st_partials s) ?q = None" by auto
      with True show ?thesis
        using length_evict_oldest_less [OF ne] sender_okD(2) [OF assms(1)] by (simp add: s0_def)
    qed (simp add: s0_def)
    have n: "partial_ok (new_partial hdr now)"
      using assms(2) by (intro partial_ok_new) (simp_all add: header_ok_def)
    have q: "?q \<notin> fst ` set (st_partials s0)" using None by (simp add: map_of_eq_None_iff)
    have b: "pf_bytes (new_partial hdr now) = 0" by (simp add: new_partial_def)
    have "sender_ok (s0\<lparr>st_partials := st_partials s0 @ [(?q, new_partial hdr now)]\<rparr>)"
      using ok len n q b by (intro sender_okI) (auto simp: sender_ok_def sender_str_def reasm_consts)
    with assms(3) e None show ?thesis by (auto simp: map_add_def)
  qed (use assms(3) e ok in auto)
qed

text \<open>The fields of a completed frame.\<close>

definition frame_of :: "fragment_header \<Rightarrow> partial_frame \<Rightarrow> reassembled_frame" where
  "frame_of hdr p = \<lparr>rf_sender = fh_sender hdr, rf_frame_seq = fh_frame_seq hdr,
     rf_keyframe = pf_keyframe p, rf_codec = pf_codec p, rf_pts_us = pf_pts_us p,
     rf_signature = the (pf_signature p), rf_sealed = concat (map the (pf_chunks p))\<rparr>"

text \<open>
  A complete partial always has a signature and all its slots, so neither early return of the
  completion code is ever taken.
\<close>

lemma complete_frame_emits:
  assumes "partial_counts p" "filled (pf_chunks p) = length (pf_chunks p)"
  shows "snd (complete_frame hdr p s) = Some (frame_of hdr p)"
    and "\<exists>sig. pf_signature p = Some sig \<and> length sig = 64"
proof -
  have "pf_chunks p ! 0 \<noteq> None"
    using assms by (intro filled_full_nth) (auto simp: partial_counts_def)
  then show sig: "\<exists>sig. pf_signature p = Some sig \<and> length sig = 64"
    using assms(1) by (simp add: partial_counts_def)
  show "snd (complete_frame hdr p s) = Some (frame_of hdr p)"
    using sig join_chunks_full [OF assms(2)] by (auto simp: complete_frame_def frame_of_def Let_def)
qed

lemma complete_frame_ok:
  assumes "sender_ok (drop_partial (fh_frame_seq hdr) s)"
    and "partial_counts p" "filled (pf_chunks p) = length (pf_chunks p)"
  shows "sender_ok (fst (complete_frame hdr p s))"
proof -
  let ?s1 = "drop_partial (fh_frame_seq hdr) s"
  obtain sig where sig: "pf_signature p = Some sig" using complete_frame_emits(2) assms(2,3) by blast
  have u: "sender_ok (?s1\<lparr>st_last_completed := v\<rparr>)" for v
    using assms(1) by (simp add: sender_ok_def sender_str_def)
  show ?thesis
    using assms(1) sender_ok_drop_all [OF u] sig join_chunks_full [OF assms(3)]
    by (auto simp: complete_frame_def Let_def)
qed

lemma insert_chunk_ok:
  assumes "sender_ok s" "header_ok hdr" "st_bytes s + length chunk \<le> 512 * 1024"
    and "\<And>p. map_of (st_partials s) (fh_frame_seq hdr) = Some p \<Longrightarrow>
       length (pf_chunks p) = unat (fh_frag_count hdr) \<and> pf_chunks p ! unat (fh_frag_idx hdr) = None"
  shows "sender_ok (fst (insert_chunk hdr chunk s))"
proof (cases "map_of (st_partials s) (fh_frame_seq hdr)")
  case None
  with assms(1) show ?thesis by (simp add: insert_chunk_def)
next
  case (Some p)
  let ?p = "store_chunk hdr chunk p" and ?q = "fh_frame_seq hdr"
  define s' where "s' = s\<lparr>st_partials := set_partial ?q ?p (st_partials s),
      st_bytes := st_bytes s + length chunk\<rparr>"
  note ok = sender_okD [OF assms(1)]
  have p: "partial_ok p" using ok(4) [of p] map_of_SomeD [OF Some] by force
  have l: "length (pf_chunks p) = unat (fh_frag_count hdr)" and n: "pf_chunks p ! unat (fh_frag_idx hdr) = None"
    using assms(4) [OF Some] by simp_all
  note c = store_chunk_counts [OF p assms(2) l n, of chunk]
  have d: "distinct (map fst (st_partials s))" using ok(1) by (simp add: sender_str_def)
  note sp = set_partial_facts [OF d Some, of ?p]
  have str: "sender_str s'"
    using ok(1) sp(1,3) c(3) by (simp add: s'_def sender_str_def)
  have e: "insert_chunk hdr chunk s =
      (if pf_received ?p < fh_frag_count hdr then (s', None) else complete_frame hdr ?p s')"
    using Some by (simp add: insert_chunk_def s'_def Let_def)
  have r: "pf_received ?p < fh_frag_count hdr \<longleftrightarrow> filled (pf_chunks ?p) < length (pf_chunks ?p)"
    using c(1,4) l by (intro received_less_iff) simp_all
  show ?thesis
  proof (cases "filled (pf_chunks ?p) < length (pf_chunks ?p)")
    case True
    have po: "partial_ok ?p" using True c(1) by (simp add: partial_ok_def)
    have ps: "st_partials s' = set_partial ?q ?p (st_partials s)" by (simp add: s'_def)
    have "partial_ok p'" if "p' \<in> snd ` set (st_partials s')" for p'
    proof -
      have "p' \<in> insert ?p (snd ` set (st_partials s))" using that sp(5) unfolding ps by (rule rev_subsetD)
      then show ?thesis using po ok(4) [of p'] by (elim insertE) simp_all
    qed
    then have "sender_ok s'"
      using str sp(2) ok(2) assms(3) by (intro sender_okI) (simp_all add: s'_def)
    with e r True show ?thesis by simp
  next
    case False
    then have full: "filled (pf_chunks ?p) = length (pf_chunks ?p)"
      using filled_le [of "pf_chunks ?p"] by linarith
    have k: "keep (\<lambda>k. k \<noteq> ?q) s' = keep (\<lambda>k. k \<noteq> ?q) s"
      by (simp add: keep_def s'_def sp(4))
    have "sender_ok (drop_partial ?q s')"
      by (simp add: drop_partial_keep [OF str] k sender_ok_keep [OF assms(1)])
    with e r False full show ?thesis by (simp add: complete_frame_ok c(1))
  qed
qed

lemma push_sender_ok:
  assumes "sender_ok s" "header_ok hdr"
  shows "sender_ok (fst (push_sender hdr chunk now s))"
proof (cases "check_superseded hdr s")
  case None
  then show ?thesis using assms(1) by (simp add: push_sender_def)
next
  case (Some s0)
  obtain s1 p where e: "ensure_partial hdr now s0 = (s1, p)" by force
  have ok1: "sender_ok s1" and m: "map_of (st_partials s1) (fh_frame_seq hdr) = Some p"
    using ensure_partial_ok [OF check_superseded_ok [OF assms(1) Some] assms(2) e] by simp_all
  have i1: "sender_ok (fst (insert_chunk hdr chunk s1))"
    if "length (pf_chunks p) = unat (fh_frag_count hdr)" "pf_chunks p ! unat (fh_frag_idx hdr) = None"
      "st_bytes s1 + length chunk \<le> 512 * 1024"
    using that m by (intro insert_chunk_ok [OF ok1 assms(2)]) auto
  have i2: "sender_ok (fst (insert_chunk hdr chunk (shed (length chunk) s1)))"
    if "length (pf_chunks p) = unat (fh_frag_count hdr)" "pf_chunks p ! unat (fh_frag_idx hdr) = None"
      "st_bytes (shed (length chunk) s1) + length chunk \<le> 512 * 1024"
  proof (rule insert_chunk_ok [OF sender_ok_shed [OF ok1] assms(2) that(3)])
    fix p' assume a: "map_of (st_partials (shed (length chunk) s1)) (fh_frame_seq hdr) = Some p'"
    obtain P where "shed (length chunk) s1 = keep P s1"
      using shed_keep sender_okD(1) [OF ok1] by blast
    with a have "p' = p" using map_of_keep [OF sender_okD(1) [OF ok1]] m by fastforce
    with that show "length (pf_chunks p') = unat (fh_frag_count hdr) \<and>
        pf_chunks p' ! unat (fh_frag_idx hdr) = None" by simp
  qed
  show ?thesis
    using Some e ok1 i1 i2 sender_ok_drop_partial [OF sender_ok_shed [OF ok1]]
    by (auto simp: push_sender_def Let_def MAX_PARTIAL_BYTES_PER_SENDER_def not_less)
qed

lemma evict_expired_ok:
  assumes "reasm_ok r" shows "reasm_ok (evict_expired r now)"
proof -
  have d: "dom (ra_senders (evict_expired r now)) \<subseteq> dom (ra_senders r)"
    by (auto simp: evict_expired_def Let_def split: option.splits if_splits)
  have "card (dom (ra_senders (evict_expired r now))) \<le> card (dom (ra_senders r))"
    using assms d by (intro card_mono) (simp_all add: reasm_ok_def)
  moreover have "sender_ok s" if "s \<in> ran (ra_senders (evict_expired r now))" for s
  proof -
    from that obtain k where "ra_senders (evict_expired r now) k = Some s" by (auto simp: ran_def)
    then obtain s0 where "ra_senders r k = Some s0" "s = expire_sender now s0"
      by (auto simp: evict_expired_def Let_def split: option.splits if_splits)
    with assms show ?thesis by (auto simp: reasm_ok_def ran_def intro: sender_ok_expire)
  qed
  ultimately show ?thesis
    using assms d finite_subset by (auto simp: reasm_ok_def msize_def)
qed

lemma push_ok:
  assumes "reasm_ok r" shows "reasm_ok (fst (push r buf now))"
proof (cases "parse_fragment buf")
  case None
  with assms show ?thesis by (simp add: push_def)
next
  case (Some hc)
  obtain hdr chunk where hc: "hc = (hdr, chunk)" by force
  let ?r = "evict_expired r now"
  let ?s = "case ra_senders ?r (fh_sender hdr) of Some s \<Rightarrow> s | None \<Rightarrow> sender_default"
  have h: "header_ok hdr" using parse_header_ok Some hc by simp
  have ok: "reasm_ok ?r" by (rule evict_expired_ok [OF assms])
  have "sender_ok ?s" using ok by (auto simp: reasm_ok_def ran_def split: option.splits)
  then have s': "sender_ok (fst (push_sender hdr chunk now ?s))" by (rule push_sender_ok [OF _ h])
  have "reasm_ok (?r\<lparr>ra_senders := (ra_senders ?r)(fh_sender hdr \<mapsto> s')\<rparr>)"
    if "sender_ok s'" "\<not> (ra_senders ?r (fh_sender hdr) = None \<and> msize (ra_senders ?r) \<ge> MAX_SENDERS)" for s'
    using ok that by (auto simp: reasm_ok_def msize_upd ran_def split: if_splits)
  with s' ok Some hc show ?thesis
    by (auto simp: push_def Let_def case_prod_beta)
qed

section \<open>Reachable reassemblers\<close>

inductive reasm_reachable :: "reassembler \<Rightarrow> bool" where
  init: "reasm_reachable new_reassembler"
| push: "reasm_reachable r \<Longrightarrow> reasm_reachable (fst (push r buf now))"
| expire: "reasm_reachable r \<Longrightarrow> reasm_reachable (evict_expired r now)"
| clear: "reasm_reachable r \<Longrightarrow> reasm_reachable (clear_reassembler r)"

lemma reasm_reachable_ok: "reasm_reachable r \<Longrightarrow> reasm_ok r"
proof (induction rule: reasm_reachable.induct)
  case init
  then show ?case by (simp add: reasm_ok_def new_reassembler_def)
next
  case (clear r)
  then show ?case by (simp add: reasm_ok_def clear_reassembler_def)
qed (simp_all add: push_ok evict_expired_ok)

text \<open>
  C14. In every reachable reassembler, whatever datagrams a hostile sender feeds it and whenever,
  at most 32 senders are tracked, each holds at most 8 partial frames and at most 512 KiB, and
  the byte count a sender is charged is exactly the bytes of the chunks it holds.
\<close>

theorem reasm_bounded:
  assumes "reasm_reachable r"
  shows "tracked_senders r \<le> 32 \<and> buffered_bytes r sender \<le> 512 * 1024 \<and>
    (\<forall>s. ra_senders r sender = Some s \<longrightarrow> length (st_partials s) \<le> 8 \<and>
       buffered_bytes r sender = sum_list (map (\<lambda>(_, p). chunk_bytes (pf_chunks p)) (st_partials s)))"
proof -
  have ok: "reasm_ok r" using assms by (rule reasm_reachable_ok)
  have "length (st_partials s) \<le> 8 \<and> st_bytes s \<le> 512 * 1024 \<and>
      st_bytes s = sum_list (map (\<lambda>(_, p). chunk_bytes (pf_chunks p)) (st_partials s))"
    if "ra_senders r sender = Some s" for s
  proof -
    have s: "sender_ok s" using ok that by (auto simp: reasm_ok_def ran_def)
    have "pf_bytes (snd e) = chunk_bytes (pf_chunks (snd e))" if "e \<in> set (st_partials s)" for e
      using sender_okD(4) [OF s, of "snd e"] that by (simp add: partial_ok_def partial_counts_def)
    then have "map (pf_bytes \<circ> snd) (st_partials s) =
        map (\<lambda>(_, p). chunk_bytes (pf_chunks p)) (st_partials s)"
      by (intro map_cong refl) (simp add: case_prod_beta)
    with sender_okD(1-3) [OF s] show ?thesis by (simp add: sender_str_def bytes_of_def)
  qed
  with ok show ?thesis
    by (auto simp: tracked_senders_def buffered_bytes_def reasm_ok_def MAX_SENDERS_def split: option.split)
qed

theorem reasm_bounded_witness:
  "buffered_bytes (evict_expired (fst (push new_reassembler [3, 0, 0] 5)) 9) ''peer'' \<le> 512 * 1024"
  using reasm_bounded [OF reasm_reachable.expire [OF reasm_reachable.push [OF reasm_reachable.init]],
      of "[3, 0, 0]" 5 9 "''peer''"] by simp

section \<open>Reassembly in any order\<close>

definition frag_hdr :: "fragment_header \<Rightarrow> nat \<Rightarrow> bytes list \<Rightarrow> bytes \<Rightarrow> fragment_header" where
  "frag_hdr h i cs sig = h\<lparr>fh_frag_idx := word_of_nat i, fh_frag_count := word_of_nat (length cs),
     fh_signature := (if i = 0 then Some sig else None)\<rparr>"

definition got :: "bytes list \<Rightarrow> nat set \<Rightarrow> bytes option list" where
  "got cs I = map (\<lambda>i. if i \<in> I then Some (cs ! i) else None) [0..<length cs]"

text \<open>The partial frame once exactly the fragments \<open>I\<close> of a frame have arrived.\<close>

definition partial_of :: "fragment_header \<Rightarrow> bytes list \<Rightarrow> bytes \<Rightarrow> instant \<Rightarrow> nat set \<Rightarrow> partial_frame" where
  "partial_of h cs sig t0 I = \<lparr>pf_keyframe = fh_keyframe h, pf_codec = fh_codec h,
     pf_pts_us = fh_pts_us h, pf_signature = (if 0 \<in> I then Some sig else None),
     pf_chunks = got cs I, pf_received = word_of_nat (card I), pf_bytes = (\<Sum>i\<in>I. length (cs ! i)),
     pf_first_seen = t0\<rparr>"

definition state_of :: "fragment_header \<Rightarrow> bytes list \<Rightarrow> bytes \<Rightarrow> instant \<Rightarrow> nat set \<Rightarrow> sender_state" where
  "state_of h cs sig t0 I = (if I = {} then sender_default else
     \<lparr>st_partials = [(fh_frame_seq h, partial_of h cs sig t0 I)],
      st_bytes = (\<Sum>i\<in>I. length (cs ! i)), st_last_completed = None\<rparr>)"

definition done_state :: "u32 \<Rightarrow> sender_state" where
  "done_state seq = \<lparr>st_partials = [], st_bytes = 0, st_last_completed = Some seq\<rparr>"

definition frame_from :: "fragment_header \<Rightarrow> bytes list \<Rightarrow> bytes \<Rightarrow> reassembled_frame" where
  "frame_from h cs sig = \<lparr>rf_sender = fh_sender h, rf_frame_seq = fh_frame_seq h,
     rf_keyframe = fh_keyframe h, rf_codec = fh_codec h, rf_pts_us = fh_pts_us h,
     rf_signature = sig, rf_sealed = concat cs\<rparr>"

lemma got_simps:
  "length (got cs I) = length cs" "i < length cs \<Longrightarrow> got cs I ! i = (if i \<in> I then Some (cs ! i) else None)"
  "got cs {} = replicate (length cs) None"
  "i < length cs \<Longrightarrow> (got cs I)[i := Some (cs ! i)] = got cs (insert i I)"
  by (auto simp: got_def intro!: nth_equalityI simp: nth_list_update)

lemma join_got:
  assumes "{..<length cs} \<subseteq> I" shows "join_chunks (got cs I) = Some (concat cs)"
proof -
  have "got cs I = map Some cs" using assms by (auto simp: got_simps intro!: nth_equalityI)
  moreover have "join_chunks (map Some cs) = Some (concat cs)" by (induction cs) auto
  ultimately show ?thesis by simp
qed

lemma store_got:
  assumes "i < length cs" "i \<notin> I" "finite I" "length cs \<le> 128"
  shows "store_chunk (frag_hdr h i cs sig) (cs ! i) (partial_of h cs sig t0 I) =
    partial_of h cs sig t0 (insert i I)"
  using assms
  by (auto simp: store_chunk_def frag_hdr_def partial_of_def unat_u16 got_simps add.commute)

lemma new_partial_got:
  "length cs \<le> 128 \<Longrightarrow> new_partial (frag_hdr h i cs sig) now = partial_of h cs sig now {}"
  by (simp add: new_partial_def partial_of_def frag_hdr_def unat_u16 got_simps)

lemma ensure_state_of:
  assumes "length cs \<le> 128" "I \<noteq> {} \<or> t0 = now"
  shows "ensure_partial (frag_hdr h i cs sig) now (state_of h cs sig t0 I) =
    (\<lparr>st_partials = [(fh_frame_seq h, partial_of h cs sig t0 I)],
      st_bytes = (\<Sum>i\<in>I. length (cs ! i)), st_last_completed = None\<rparr>, partial_of h cs sig t0 I)"
proof -
  have "fh_frame_seq (frag_hdr h i cs sig) = fh_frame_seq h" by (simp add: frag_hdr_def)
  with assms show ?thesis
    by (auto simp: ensure_partial_def state_of_def sender_default_def new_partial_got
        MAX_IN_FLIGHT_PER_SENDER_def Let_def)
qed

lemma insert_state_of:
  assumes "i < length cs" "i \<notin> I" "I \<subseteq> {..<length cs}" "length cs \<le> 128"
  shows "insert_chunk (frag_hdr h i cs sig) (cs ! i)
      \<lparr>st_partials = [(fh_frame_seq h, partial_of h cs sig t0 I)],
       st_bytes = (\<Sum>i\<in>I. length (cs ! i)), st_last_completed = None\<rparr> =
    (if insert i I \<noteq> {..<length cs} then (state_of h cs sig t0 (insert i I), None)
     else (done_state (fh_frame_seq h), Some (frame_from h cs sig)))"
proof -
  have fin: "finite I" using assms(3) finite_subset by blast
  have sub: "insert i I \<subseteq> {..<length cs}" using assms by auto
  have c: "card (insert i I) \<le> length cs"
    using card_mono [OF _ sub] by simp
  have eq: "insert i I = {..<length cs} \<longleftrightarrow> card (insert i I) = length cs"
  proof
    assume "card (insert i I) = length cs"
    then show "insert i I = {..<length cs}" by (intro card_subset_eq [OF _ sub]) simp_all
  qed (metis card_lessThan)
  have q: "fh_frame_seq (frag_hdr h i cs sig) = fh_frame_seq h"
    "fh_frag_count (frag_hdr h i cs sig) = word_of_nat (length cs)" by (simp_all add: frag_hdr_def)
  have u: "unat (word_of_nat (card (insert i I)) :: u16) = card (insert i I)"
    "unat (word_of_nat (length cs) :: u16) = length cs"
    using c assms(4) by (intro unat_u16; linarith)+
  have r: "(word_of_nat (card (insert i I)) :: u16) < word_of_nat (length cs) \<longleftrightarrow>
      insert i I \<noteq> {..<length cs}"
    unfolding word_less_nat_alt u using c eq by linarith
  have s: "(\<Sum>i\<in>I. length (cs ! i)) + length (cs ! i) = (\<Sum>i\<in>insert i I. length (cs ! i))"
    using fin assms(2) by simp
  have rc: "pf_received (partial_of h cs sig t0 (insert i I)) = word_of_nat (card (insert i I))"
    by (simp add: partial_of_def)
  have step: "insert_chunk (frag_hdr h i cs sig) (cs ! i)
      \<lparr>st_partials = [(fh_frame_seq h, partial_of h cs sig t0 I)],
       st_bytes = (\<Sum>i\<in>I. length (cs ! i)), st_last_completed = None\<rparr> =
    (if insert i I \<noteq> {..<length cs} then (state_of h cs sig t0 (insert i I), None)
     else complete_frame (frag_hdr h i cs sig) (partial_of h cs sig t0 (insert i I))
            (state_of h cs sig t0 (insert i I)))"
    unfolding insert_chunk_def Let_def
    using store_got [OF assms(1,2) fin assms(4), of h sig t0]
    by (simp add: q set_partial_def s rc r state_of_def del: card_insert_disjoint sum.insert)
  have "complete_frame (frag_hdr h i cs sig) (partial_of h cs sig t0 (insert i I))
      (state_of h cs sig t0 (insert i I)) = (done_state (fh_frame_seq h), Some (frame_from h cs sig))"
    if "insert i I = {..<length cs}"
  proof -
    have z: "0 \<in> insert i I" unfolding that using assms(1) by auto
    have j: "join_chunks (got cs (insert i I)) = Some (concat cs)" using that by (intro join_got) simp
    show ?thesis
      unfolding complete_frame_def state_of_def partial_of_def
      using z j by (auto simp: drop_partial_def drop_all_def done_state_def frame_from_def frag_hdr_def
          partial_of_def Let_def)
  qed
  with step show ?thesis by simp
qed

lemma push_sender_step:
  assumes "i < length cs" "i \<notin> I" "I \<subseteq> {..<length cs}" "length cs \<le> 128"
    and "length (concat cs) \<le> MAX_PARTIAL_BYTES_PER_SENDER" "I \<noteq> {} \<or> t0 = now"
  shows "push_sender (frag_hdr h i cs sig) (cs ! i) now (state_of h cs sig t0 I) =
    (if insert i I \<noteq> {..<length cs} then (state_of h cs sig t0 (insert i I), None)
     else (done_state (fh_frame_seq h), Some (frame_from h cs sig)))"
proof -
  have fin: "finite I" using assms(3) finite_subset by blast
  have "(\<Sum>i\<in>I. length (cs ! i)) + length (cs ! i) = (\<Sum>i\<in>insert i I. length (cs ! i))"
    using fin assms(2) by simp
  also have "\<dots> \<le> (\<Sum>i<length cs. length (cs ! i))"
    using assms(1,3) by (intro sum_mono2) auto
  also have "\<dots> = length (concat cs)"
    by (simp add: length_concat sum_list_sum_nth atLeast0LessThan)
  finally have b: "(\<Sum>i\<in>I. length (cs ! i)) + length (cs ! i) \<le> MAX_PARTIAL_BYTES_PER_SENDER"
    using assms(5) by simp
  have c: "check_superseded (frag_hdr h i cs sig) (state_of h cs sig t0 I) = Some (state_of h cs sig t0 I)"
    by (simp add: check_superseded_def state_of_def sender_default_def)
  have f: "unat (fh_frag_count (frag_hdr h i cs sig)) = length cs"
    "unat (fh_frag_idx (frag_hdr h i cs sig)) = i"
    "fh_codec (frag_hdr h i cs sig) = fh_codec h" "fh_pts_us (frag_hdr h i cs sig) = fh_pts_us h"
    using assms(1,4) by (simp_all add: frag_hdr_def unat_u16)
  have pa: "pf_chunks (partial_of h cs sig t0 I) = got cs I"
    "pf_codec (partial_of h cs sig t0 I) = fh_codec h"
    "pf_pts_us (partial_of h cs sig t0 I) = fh_pts_us h" by (simp_all add: partial_of_def)
  show ?thesis
    using b assms(1,2)
    by (simp add: push_sender_def c ensure_state_of [OF assms(4,6)] f pa not_less
        insert_state_of [OF assms(1-4)] got_simps)
qed

text \<open>Feeding a sequence of datagrams, each at its own time; the frames returned, in order.\<close>

fun push_all :: "reassembler \<Rightarrow> (bytes \<times> instant) list \<Rightarrow> reassembled_frame option list" where
  "push_all r [] = []"
| "push_all r ((buf, now) # evs) = (let (r', out) = push r buf now in out # push_all r' evs)"

lemma evict_keeps_state_of:
  assumes "ra_senders r k = Some (state_of h cs sig t0 I)" "I \<noteq> {}" "now - t0 < PARTIAL_TIMEOUT"
  shows "ra_senders (evict_expired r now) k = Some (state_of h cs sig t0 I)"
proof -
  have "expire_sender now (state_of h cs sig t0 I) = state_of h cs sig t0 I"
    using assms(2,3) by (simp add: expire_sender_def state_of_def partial_of_def drop_all_def)
  with assms show ?thesis by (simp add: evict_expired_def state_of_def)
qed

lemma push_step:
  assumes "parse_fragment buf = Some (frag_hdr h i cs sig, cs ! i)"
    and "i < length cs" "i \<notin> I" "I \<subseteq> {..<length cs}" "length cs \<le> 128"
    and "length (concat cs) \<le> MAX_PARTIAL_BYTES_PER_SENDER"
    and "if I = {} then ra_senders r (fh_sender h) = None \<and> t0 = now \<and>
           finite (dom (ra_senders r)) \<and> msize (ra_senders r) < MAX_SENDERS
         else ra_senders r (fh_sender h) = Some (state_of h cs sig t0 I) \<and> now - t0 < PARTIAL_TIMEOUT"
  shows "\<exists>r'. push r buf now = (r', if insert i I \<noteq> {..<length cs} then None else Some (frame_from h cs sig)) \<and>
     (insert i I \<noteq> {..<length cs} \<longrightarrow>
        ra_senders r' (fh_sender h) = Some (state_of h cs sig t0 (insert i I)))"
proof -
  let ?r = "evict_expired r now" and ?k = "fh_sender h"
  have k: "fh_sender (frag_hdr h i cs sig) = ?k" by (simp add: frag_hdr_def)
  have lk: "\<not> (ra_senders ?r ?k = None \<and> msize (ra_senders ?r) \<ge> MAX_SENDERS) \<and>
      (case ra_senders ?r ?k of Some s \<Rightarrow> s | None \<Rightarrow> sender_default) = state_of h cs sig t0 I"
  proof (cases "I = {}")
    case True
    have "dom (ra_senders ?r) \<subseteq> dom (ra_senders r)"
      by (auto simp: evict_expired_def Let_def split: option.splits if_splits)
    then have "msize (ra_senders ?r) \<le> msize (ra_senders r)"
      using assms(7) True by (simp add: msize_def card_mono)
    moreover have "ra_senders ?r ?k = None" using assms(7) True by (simp add: evict_expired_def)
    ultimately show ?thesis using assms(7) True by (simp add: state_of_def)
  next
    case False
    then show ?thesis using assms(7) evict_keeps_state_of [of r ?k h cs sig t0 I now] by simp
  qed
  have st: "push_sender (frag_hdr h i cs sig) (cs ! i) now (state_of h cs sig t0 I) =
    (if insert i I \<noteq> {..<length cs} then (state_of h cs sig t0 (insert i I), None)
     else (done_state (fh_frame_seq h), Some (frame_from h cs sig)))"
    using assms(7) by (intro push_sender_step [OF assms(2-6)]) (auto split: if_splits)
  show ?thesis
    unfolding push_def assms(1) using lk st by (simp add: k Let_def)
qed

lemma push_all_rest:
  assumes "\<And>i. i < length cs \<Longrightarrow> parse_fragment (f i) = Some (frag_hdr h i cs sig, cs ! i)"
    and "length cs \<le> 128" "length (concat cs) \<le> MAX_PARTIAL_BYTES_PER_SENDER"
    and "distinct ix" "set ix = {..<length cs} - I" "I \<subseteq> {..<length cs}" "ix \<noteq> []"
    and "length ts = length ix" "\<forall>t \<in> set ts. t - t0 < PARTIAL_TIMEOUT"
    and "if I = {} then ra_senders r (fh_sender h) = None \<and> t0 = hd ts \<and>
           finite (dom (ra_senders r)) \<and> msize (ra_senders r) < MAX_SENDERS
         else ra_senders r (fh_sender h) = Some (state_of h cs sig t0 I)"
  shows "push_all r (zip (map f ix) ts) =
    replicate (length ix - 1) None @ [Some (frame_from h cs sig)]"
  using assms(4-)
proof (induction ix arbitrary: ts I r)
  case (Cons i ix)
  obtain t ts' where ts: "ts = t # ts'" "length ts' = length ix" using Cons.prems(5) by (cases ts) auto
  have i: "i < length cs" "i \<notin> I" using Cons.prems(2) by auto
  have "set ix = set (i # ix) - {i}" using Cons.prems(1) by simp
  then have rest: "set ix = {..<length cs} - insert i I" unfolding Cons.prems(2) by blast
  have sub: "insert i I \<subseteq> {..<length cs}" using Cons.prems(3) i(1) by blast
  have last: "insert i I = {..<length cs} \<longleftrightarrow> ix = []"
    using rest sub by (metis Diff_eq_empty_iff set_empty subset_antisym subset_refl)
  have "if I = {} then ra_senders r (fh_sender h) = None \<and> t0 = t \<and>
      finite (dom (ra_senders r)) \<and> msize (ra_senders r) < MAX_SENDERS
    else ra_senders r (fh_sender h) = Some (state_of h cs sig t0 I) \<and> t - t0 < PARTIAL_TIMEOUT"
    using Cons.prems(6,7) ts(1) by (simp split: if_splits)
  from push_step [OF assms(1) [OF i(1)] i Cons.prems(3) assms(2,3) this]
  obtain r' where r': "push r (f i) t = (r', if ix \<noteq> [] then None else Some (frame_from h cs sig))"
    and st: "ix \<noteq> [] \<Longrightarrow> ra_senders r' (fh_sender h) = Some (state_of h cs sig t0 (insert i I))"
    unfolding last by blast
  show ?case
  proof (cases "ix = []")
    case True
    with r' ts show ?thesis by simp
  next
    case False
    have "push_all r' (zip (map f ix) ts') =
        replicate (length ix - 1) None @ [Some (frame_from h cs sig)]"
      using Cons.prems(1,6) False ts st by (intro Cons.IH [OF _ rest sub]) simp_all
    with r' ts False show ?thesis by (cases "length ix") simp_all
  qed
qed simp

text \<open>
  C26. Reassembly is complete and order-independent: the fragments of a frame of at most 512 KiB
  sealed bytes, delivered once each in any order within 200 ms of the first, to a reassembler
  that does not know the sender and has a free slot, give nothing until the last one and then
  exactly the frame that was fragmented, with its signature.
\<close>

theorem reassembly_roundtrip:
  assumes "fragment_frame sender seq kf codec pts sig sealed mp = Some frags"
    and "utf8_valid (as_bytes sender)" "length sig = 64" "length sealed \<le> 512 * 1024"
    and "reasm_reachable r" "ra_senders r sender = None" "tracked_senders r < 32"
    and "distinct order" "set order = {..<length frags}" "length ts = length frags"
    and "\<forall>t \<in> set ts. t - hd ts < PARTIAL_TIMEOUT"
  shows "push_all r (zip (map (\<lambda>i. frags ! i) order) ts) =
    replicate (length frags - 1) None @
    [Some \<lparr>rf_sender = sender, rf_frame_seq = seq, rf_keyframe = kf, rf_codec = codec,
           rf_pts_us = pts, rf_signature = sig, rf_sealed = sealed\<rparr>]"
proof -
  let ?c = "chunk_room sender mp" and ?n = "frag_count_for sender sealed mp"
  let ?h = "\<lparr>fh_keyframe = kf, fh_codec = codec, fh_pts_us = pts, fh_sender = sender,
     fh_frame_seq = seq, fh_frag_idx = 0, fh_frag_count = 0, fh_signature = None\<rparr>"
  define cs where "cs = map (frag_chunk ?c sealed) [0..<?n]"
  have g: "sender \<noteq> []" "length sender \<le> 64" "0 < ?c" "length sealed \<le> 128 * ?c"
    and frags: "frags = map (\<lambda>i. fragment_one sender seq kf codec pts sig ?n i
      (frag_chunk ?c sealed i)) [0..<?n]"
    using assms(1) by (auto simp: fragment_frame_eq split: if_splits)
  have n: "?n \<le> 128" using g by (intro frag_count_for_le)
  have l: "length cs = ?n" "length frags = ?n" by (simp_all add: cs_def frags)
  have cc: "concat cs = sealed" unfolding cs_def by (rule concat_all_chunks [OF g(3)])
  have parse: "parse_fragment (frags ! i) = Some (frag_hdr ?h i cs sig, cs ! i)" if "i < length cs" for i
    using that parse_fragment_one [OF assms(2) g(1,2) _ n assms(3)]
    by (simp add: frags cs_def frag_hdr_def)
  have fin: "finite (dom (ra_senders r))" using reasm_reachable_ok [OF assms(5)] by (simp add: reasm_ok_def)
  have lo: "length order = ?n" using distinct_card [OF assms(8)] assms(9) l by simp
  have ne: "order \<noteq> []" using lo frag_count_for_pos [of sender sealed mp]
    by (metis less_numeral_extra(3) list.size(3))
  have fr: "frame_from ?h cs sig = \<lparr>rf_sender = sender, rf_frame_seq = seq, rf_keyframe = kf,
      rf_codec = codec, rf_pts_us = pts, rf_signature = sig, rf_sealed = sealed\<rparr>"
    by (simp add: frame_from_def cc)
  have "push_all r (zip (map (\<lambda>i. frags ! i) order) ts) =
      replicate (length order - 1) None @ [Some (frame_from ?h cs sig)]"
    by (rule push_all_rest [where I = "{}" and ?t0.0 = "hd ts", OF parse])
       (use assms(4,6-11) l lo ne n cc fin in
          \<open>simp_all add: tracked_senders_def MAX_SENDERS_def MAX_PARTIAL_BYTES_PER_SENDER_def\<close>)
  then show ?thesis using lo l fr by simp
qed

theorem reassembly_roundtrip_witness:
  "\<exists>frags. fragment_frame ''peer'' 7 True Vp8 9 (replicate 64 1) [1, 2, 3] 90 = Some frags \<and>
     length frags = 2 \<and> push_all new_reassembler [(frags ! 1, 5), (frags ! 0, 6)] =
     [None, Some \<lparr>rf_sender = ''peer'', rf_frame_seq = 7, rf_keyframe = True, rf_codec = Vp8,
        rf_pts_us = 9, rf_signature = replicate 64 1, rf_sealed = [1, 2, 3]\<rparr>]"
proof -
  have u: "utf8_valid (as_bytes ''peer'')" by code_simp
  have s: "length (replicate 64 (1 :: u8)) = 64" by simp
  obtain frags where f: "fragment_frame ''peer'' 7 True Vp8 9 (replicate 64 1) [1, 2, 3] 90 = Some frags"
      "length frags = 2"
    by (auto simp: fragment_frame_eq chunk_room_def frag_count_for_def div_ceil_def)
  have "push_all new_reassembler (zip (map (\<lambda>i. frags ! i) [1, 0]) [5, 6]) =
    replicate (length frags - 1) None @
    [Some \<lparr>rf_sender = ''peer'', rf_frame_seq = 7, rf_keyframe = True, rf_codec = Vp8,
        rf_pts_us = 9, rf_signature = replicate 64 1, rf_sealed = [1, 2, 3]\<rparr>]"
    by (rule reassembly_roundtrip [OF f(1) u s _ reasm_reachable.init])
       (use f(2) in \<open>auto simp: new_reassembler_def tracked_senders_def PARTIAL_TIMEOUT_def\<close>)
  with f show ?thesis by auto
qed

end
