(* ===== verification/Media_Sync.thy ===== *)
theory Media_Sync
  imports Prelude "HOL-Library.Multiset"
begin

text \<open>
  Audio-led synchronisation, \<open>conquerd-client/src/media_sync.rs\<close>, and the sender's clock,
  \<open>media_clock.rs\<close>. Timestamps are \<open>u64\<close> microseconds; \<open>+\<close> wraps as in a release build, and the
  theorems say where no wrap can happen. A queued frame's payload is a type parameter, as in the
  source.
\<close>

section \<open>Clocks\<close>

definition as_micros :: "nat \<Rightarrow> u64" where
  "as_micros ns = word_of_nat (ns div 1000)"

definition saturating_add :: "u64 \<Rightarrow> u64 \<Rightarrow> u64" where
  "saturating_add a b = (if unat a + unat b < 2 ^ 64 then a + b else - 1)"

record session_clock = sc_t0 :: instant

definition starting_at :: "instant \<Rightarrow> session_clock" where
  "starting_at t0 = \<lparr>sc_t0 = t0\<rparr>"

definition pts_at :: "session_clock \<Rightarrow> instant \<Rightarrow> u64" where
  "pts_at c at = as_micros (at - sc_t0 c)"

definition clock_origin :: "session_clock \<Rightarrow> instant" where
  "clock_origin c = sc_t0 c"

section \<open>Anchors and decisions\<close>

definition LATE_TOLERANCE_US :: u64 where "LATE_TOLERANCE_US = 50000"
definition EARLY_TOLERANCE_US :: u64 where "EARLY_TOLERANCE_US = 10000"
definition MAX_QUEUED_FRAMES :: nat where "MAX_QUEUED_FRAMES = 6"
definition ANCHOR_STALE_AFTER :: nat where "ANCHOR_STALE_AFTER = 400 * 1000000"

record playout_anchor =
  pa_pts_us :: u64
  pa_at :: instant

definition extrapolate :: "playout_anchor \<Rightarrow> instant \<Rightarrow> u64" where
  "extrapolate a now = saturating_add (pa_pts_us a) (as_micros (now - pa_at a))"

definition is_stale :: "playout_anchor \<Rightarrow> instant \<Rightarrow> bool" where
  "is_stale a now \<longleftrightarrow> now - pa_at a \<ge> ANCHOR_STALE_AFTER"

datatype sync_decision = Show | Hold | Drop

definition decide_against :: "u64 option \<Rightarrow> u64 \<Rightarrow> sync_decision" where
  "decide_against audio_now_us pts_us =
     (case audio_now_us of
        None \<Rightarrow> Show
      | Some audio_now \<Rightarrow>
          if pts_us + LATE_TOLERANCE_US < audio_now then Drop
          else if pts_us \<le> audio_now + EARLY_TOLERANCE_US then Show
          else Hold)"

section \<open>Queues\<close>

record 'a queued_frame =
  qf_pts_us :: u64
  qf_payload :: 'a

record 'a video_playout =
  vp_anchors :: "peer_id \<rightharpoonup> playout_anchor"
  vp_queues :: "peer_id \<rightharpoonup> 'a queued_frame list"

definition new_playout :: "'a video_playout" where
  "new_playout = \<lparr>vp_anchors = Map.empty, vp_queues = Map.empty\<rparr>"

definition note_audio_played :: "peer_id \<Rightarrow> u64 \<Rightarrow> instant \<Rightarrow> 'a video_playout \<Rightarrow> 'a video_playout" where
  "note_audio_played peer pts at v =
     v\<lparr>vp_anchors := (vp_anchors v)(peer \<mapsto> \<lparr>pa_pts_us = pts, pa_at = at\<rparr>)\<rparr>"

definition audio_now_us :: "'a video_playout \<Rightarrow> peer_id \<Rightarrow> instant \<Rightarrow> u64 option" where
  "audio_now_us v peer now =
     (case vp_anchors v peer of
        None \<Rightarrow> None
      | Some a \<Rightarrow> if is_stale a now then None else Some (extrapolate a now))"

definition decide :: "'a video_playout \<Rightarrow> peer_id \<Rightarrow> u64 \<Rightarrow> instant \<Rightarrow> sync_decision" where
  "decide v peer pts now = decide_against (audio_now_us v peer now) pts"

definition push_frame :: "peer_id \<Rightarrow> 'a queued_frame \<Rightarrow> instant \<Rightarrow> 'a video_playout \<Rightarrow>
    'a queued_frame list \<times> 'a video_playout" where
  "push_frame peer frame now v =
     (let queue0 = (case vp_queues v peer of Some q \<Rightarrow> q | None \<Rightarrow> []);
          queue1 = sort_key qf_pts_us (queue0 @ [frame]);
          queue2 = drop (length queue1 - MAX_QUEUED_FRAMES) queue1;
          audio_now = audio_now_us v peer now;
          out = filter (\<lambda>f. decide_against audio_now (qf_pts_us f) = Show) queue2;
          queue3 = filter (\<lambda>f. decide_against audio_now (qf_pts_us f) = Hold) queue2
      in (out, v\<lparr>vp_queues := (vp_queues v)(peer \<mapsto> queue3)\<rparr>))"

definition queued_len :: "'a video_playout \<Rightarrow> peer_id \<Rightarrow> nat" where
  "queued_len v peer = (case vp_queues v peer of None \<Rightarrow> 0 | Some q \<Rightarrow> length q)"

definition forget_playout :: "peer_id \<Rightarrow> 'a video_playout \<Rightarrow> 'a video_playout" where
  "forget_playout peer v = v\<lparr>vp_anchors := (vp_anchors v)(peer := None), vp_queues := (vp_queues v)(peer := None)\<rparr>"

definition clear_playout :: "'a video_playout \<Rightarrow> 'a video_playout" where
  "clear_playout v = v\<lparr>vp_anchors := Map.empty, vp_queues := Map.empty\<rparr>"

section \<open>Arithmetic without wrap\<close>

lemma unat_add_u64: "unat a + unat b < 2 ^ 64 \<Longrightarrow> unat (a + b :: u64) = unat a + unat b"
  by (simp add: unat_word_ariths)

lemma unat_saturating_add: "unat (saturating_add a b) = min (unat a + unat b) (2 ^ 64 - 1)"
proof (cases "unat a + unat b < 2 ^ 64")
  case True
  then show ?thesis by (simp add: saturating_add_def unat_add_u64)
next
  case False
  have "unat (- 1 :: u64) = 2 ^ 64 - 1" by (simp add: unsigned_minus_1_eq_mask mask_eq_exp_minus_1)
  with False show ?thesis by (simp add: saturating_add_def)
qed

lemma decide_against_nat:
  assumes "unat pts + 60000 < 2 ^ 64" "unat audio + 60000 < 2 ^ 64"
  shows "decide_against (Some audio) pts =
    (if unat pts + 50000 < unat audio then Drop else if unat pts \<le> unat audio + 10000 then Show else Hold)"
proof -
  have "unat (pts + LATE_TOLERANCE_US) = unat pts + 50000"
    "unat (audio + EARLY_TOLERANCE_US) = unat audio + 10000"
    using assms by (simp_all add: unat_add_u64 LATE_TOLERANCE_US_def EARLY_TOLERANCE_US_def)
  then show ?thesis by (simp add: decide_against_def word_less_nat_alt word_le_nat_alt)
qed

section \<open>What is shown, held and dropped\<close>

definition playout_ok :: "'a video_playout \<Rightarrow> bool" where
  "playout_ok v \<longleftrightarrow> (\<forall>peer q. vp_queues v peer = Some q \<longrightarrow>
     length q \<le> MAX_QUEUED_FRAMES \<and> sorted (map qf_pts_us q))"

lemma sorted_filter_drop: "sorted (map f xs) \<Longrightarrow> sorted (map f (filter P (drop n xs)))"
  by (simp add: sorted_filter drop_map [symmetric] sorted_wrt_drop)

lemma push_frame_ok: "playout_ok v \<Longrightarrow> playout_ok (snd (push_frame peer frame now v))"
  by (auto simp: playout_ok_def push_frame_def Let_def sorted_filter_drop
      intro: le_trans [OF length_filter_le] split: if_splits)

inductive playout_reachable :: "'a video_playout \<Rightarrow> bool" where
  init: "playout_reachable new_playout"
| audio: "playout_reachable v \<Longrightarrow> playout_reachable (note_audio_played peer pts at v)"
| push: "playout_reachable v \<Longrightarrow> playout_reachable (snd (push_frame peer frame now v))"
| forget: "playout_reachable v \<Longrightarrow> playout_reachable (forget_playout peer v)"
| clear: "playout_reachable v \<Longrightarrow> playout_reachable (clear_playout v)"

lemma playout_reachable_ok: "playout_reachable v \<Longrightarrow> playout_ok v"
proof (induction rule: playout_reachable.induct)
  case init
  show ?case by (simp add: playout_ok_def new_playout_def)
next
  case (push v peer frame now)
  then show ?case by (simp add: push_frame_ok)
qed (auto simp: playout_ok_def note_audio_played_def forget_playout_def clear_playout_def)

text \<open>
  The synchronisation rule: away from the top of the 64-bit range, a frame of a peer whose
  audio timeline is live is dropped exactly when it is more than 50 ms behind, held exactly when
  more than 10 ms ahead and shown otherwise, and with no live timeline it is always shown. What a
  push returns is in timestamp order and every frame in it is to be shown; what stays queued is
  at most 6 frames, all to be held, in order; nothing is invented, and while at most 6 frames
  wait, exactly the frames to be dropped disappear.
\<close>

lemma push_frame_correct:
  assumes "playout_reachable v" "push_frame peer frame now v = (out, v')"
  shows "(\<forall>pts audio. unat pts + 60000 < 2 ^ 64 \<and> audio_now_us v peer now = Some audio \<and>
            unat audio + 60000 < 2 ^ 64 \<longrightarrow>
          decide v peer pts now = (if unat pts + 50000 < unat audio then Drop
            else if unat audio + 10000 < unat pts then Hold else Show)) \<and>
    (audio_now_us v peer now = None \<longrightarrow> (\<forall>pts. decide v peer pts now = Show)) \<and>
    sorted (map qf_pts_us out) \<and> (\<forall>f \<in> set out. decide v peer (qf_pts_us f) now = Show) \<and>
    queued_len v' peer \<le> 6 \<and>
    (\<forall>q. vp_queues v' peer = Some q \<longrightarrow> sorted (map qf_pts_us q) \<and>
       (\<forall>f \<in> set q. decide v peer (qf_pts_us f) now = Hold) \<and>
       (let old = (case vp_queues v peer of Some q \<Rightarrow> mset q | None \<Rightarrow> {#}) in
        mset out + mset q \<subseteq># old + {#frame#} \<and>
        (queued_len v peer < 6 \<longrightarrow> mset out + mset q =
           filter_mset (\<lambda>f. decide v peer (qf_pts_us f) now \<noteq> Drop) (old + {#frame#})))) \<and>
    (\<forall>p. p \<noteq> peer \<longrightarrow> vp_queues v' p = vp_queues v p)"
proof -
  let ?d = "\<lambda>f. decide v peer (qf_pts_us f) now"
  define q0 where "q0 = (case vp_queues v peer of Some q \<Rightarrow> q | None \<Rightarrow> [])"
  define q1 where "q1 = sort_key qf_pts_us (q0 @ [frame])"
  define q2 where "q2 = drop (length q1 - 6) q1"
  have out: "out = filter (\<lambda>f. ?d f = Show) q2"
    and v': "v' = v\<lparr>vp_queues := (vp_queues v)(peer \<mapsto> filter (\<lambda>f. ?d f = Hold) q2)\<rparr>"
    using assms(2) by (auto simp: push_frame_def Let_def q0_def q1_def q2_def decide_def MAX_QUEUED_FRAMES_def)
  have s2: "sorted (map qf_pts_us (filter P q2))" for P
    unfolding q2_def by (rule sorted_filter_drop) (simp add: q1_def)
  have m1: "mset q1 = mset q0 + {#frame#}" by (simp add: q1_def)
  have two: "mset (filter (\<lambda>f. ?d f = Show) xs) + mset (filter (\<lambda>f. ?d f = Hold) xs)
      = filter_mset (\<lambda>f. ?d f \<noteq> Drop) (mset xs)" for xs
    by (induction xs) (auto, (metis sync_decision.exhaust)+)
  have sub: "filter_mset (\<lambda>f. ?d f \<noteq> Drop) (mset q2) \<subseteq># mset q0 + {#frame#}"
    using mset_subset_eq_add_right [of "mset (drop (length q1 - 6) q1)" "mset (take (length q1 - 6) q1)"]
    unfolding q2_def m1 [symmetric]
    by (metis append_take_drop_id mset_append multiset_filter_subset subset_mset.order_trans)
  have eq: "q2 = q1" if "queued_len v peer < 6"
    using that by (simp add: q2_def q1_def q0_def queued_len_def split: option.splits)
  have old: "(case vp_queues v peer of Some q \<Rightarrow> mset q | None \<Rightarrow> {#}) = mset q0"
    by (simp add: q0_def split: option.split)
  have "length q2 \<le> 6" by (simp add: q2_def)
  then have len: "length (filter (\<lambda>f. ?d f = Hold) q2) \<le> 6" by (rule le_trans [OF length_filter_le])
  have rule: "decide v peer pts now = (if unat pts + 50000 < unat audio then Drop
      else if unat audio + 10000 < unat pts then Hold else Show)"
    if "unat pts + 60000 < 2 ^ 64" "audio_now_us v peer now = Some audio" "unat audio + 60000 < 2 ^ 64"
    for pts audio
    using decide_against_nat [OF that(1,3)] that(2) by (simp add: decide_def not_less)
  have free: "decide v peer pts now = Show" if "audio_now_us v peer now = None" for pts
    using that by (simp add: decide_def decide_against_def)
  have q: "vp_queues v' peer = Some (filter (\<lambda>f. ?d f = Hold) q2)" by (simp add: v')
  have ql: "queued_len v' peer \<le> 6" using len by (simp add: queued_len_def q)
  have cons: "mset out + mset (filter (\<lambda>f. ?d f = Hold) q2) \<subseteq># mset q0 + {#frame#}"
    "queued_len v peer < 6 \<Longrightarrow> mset out + mset (filter (\<lambda>f. ?d f = Hold) q2) =
       filter_mset (\<lambda>f. ?d f \<noteq> Drop) (mset q0 + {#frame#})"
    unfolding out two using sub by (simp_all only: eq m1)
  show ?thesis
  proof (intro conjI)
    show "\<forall>p. p \<noteq> peer \<longrightarrow> vp_queues v' p = vp_queues v p" by (simp add: v')
  qed (use rule free s2 ql cons in \<open>simp_all add: out q old Let_def\<close>)
qed

lemma push_frame_correct_witness:
  "sorted (map qf_pts_us (fst (push_frame ''a'' \<lparr>qf_pts_us = 5, qf_payload = ()\<rparr> 9 new_playout)))"
proof -
  obtain out v' where "push_frame ''a'' \<lparr>qf_pts_us = 5, qf_payload = ()\<rparr> 9 new_playout = (out, v')" by force
  from push_frame_correct [OF playout_reachable.init this] this show ?thesis by simp
qed

text \<open>The sender's clock is monotone and starts at zero.\<close>

lemma pts_at_mono:
  assumes "a \<le> b" "b - sc_t0 c < 2 ^ 64 * 1000"
  shows "pts_at c a \<le> pts_at c b \<and> pts_at c (clock_origin c) = 0"
proof -
  have lt: "(b - sc_t0 c) div 1000 < 2 ^ 64" using assms(2) by (simp add: less_mult_imp_div_less)
  have le: "(a - sc_t0 c) div 1000 \<le> (b - sc_t0 c) div 1000" using assms(1) by (intro div_le_mono) simp
  have "unat (as_micros (a - sc_t0 c)) = (a - sc_t0 c) div 1000"
    "unat (as_micros (b - sc_t0 c)) = (b - sc_t0 c) div 1000"
    using lt le by (simp_all add: as_micros_def unat_of_nat)
  with le show ?thesis by (simp add: pts_at_def word_le_nat_alt clock_origin_def as_micros_def)
qed

end
