(* ===== verification/Content_Playout.thy ===== *)
theory Content_Playout
  imports Media_Sync
begin

text \<open>
  The content-audio jitter buffer, \<open>conquerd-client/src/content_playout.rs\<close>. Sequence numbers are
  \<open>u32\<close> and wrap where the source says \<open>wrapping_*\<close>. The tick of the whole playout retains and
  reports per peer; its result is a map from peers to actions, since the order of the vector is
  the iteration order of a \<open>HashMap\<close>.
\<close>

section \<open>State\<close>

definition SAMPLE_RATE :: nat where "SAMPLE_RATE = 48000"
definition SAMPLES_PER_FRAME :: nat where "SAMPLES_PER_FRAME = SAMPLE_RATE * 20 div 1000"
definition FRAME_DURATION_US :: u64 where
  "FRAME_DURATION_US = word_of_nat (SAMPLES_PER_FRAME * 1000000 div SAMPLE_RATE)"
definition JITTER_DEPTH :: nat where "JITTER_DEPTH = 3"
definition MAX_BUFFERED_FRAMES :: nat where "MAX_BUFFERED_FRAMES = JITTER_DEPTH * 4"
definition RESYNC_GAP :: u32 where "RESYNC_GAP = 50"
definition MAX_CONCEALED_FRAMES :: nat where "MAX_CONCEALED_FRAMES = 20"

record pending_frame =
  fr_seq :: u32
  fr_pts_us :: u64
  fr_opus :: bytes

datatype tick_action = Play pending_frame | Conceal u64 | Idle

record jitter_buffer =
  jb_pending :: "pending_frame list"
  jb_next_seq :: "u32 option"
  jb_next_pts_us :: u64
  jb_concealed_streak :: nat
  jb_buffering :: bool
  jb_fill_ticks :: nat

definition new_jitter :: jitter_buffer where
  "new_jitter = \<lparr>jb_pending = [], jb_next_seq = None, jb_next_pts_us = 0, jb_concealed_streak = 0,
     jb_buffering = True, jb_fill_ticks = 0\<rparr>"

section \<open>Operations\<close>

definition jitter_push :: "pending_frame \<Rightarrow> jitter_buffer \<Rightarrow> jitter_buffer" where
  "jitter_push frame b =
     (if \<exists>f \<in> set (jb_pending b). fr_seq f = fr_seq frame then b
      else if (case jb_next_seq b of
                 Some nxt \<Rightarrow> fr_seq frame < nxt \<and> nxt - fr_seq frame < RESYNC_GAP
               | None \<Rightarrow> False) then b
      else let p = sort_key fr_seq (jb_pending b @ [frame])
           in b\<lparr>jb_pending := drop (length p - MAX_BUFFERED_FRAMES) p\<rparr>)"

definition conceal :: "bool \<Rightarrow> jitter_buffer \<Rightarrow> tick_action \<times> jitter_buffer" where
  "conceal advance_seq b =
     (if jb_concealed_streak b \<ge> MAX_CONCEALED_FRAMES then (Idle, new_jitter)
      else let b1 = (if advance_seq then b\<lparr>jb_next_seq := map_option (\<lambda>s. s + 1) (jb_next_seq b)\<rparr> else b)
           in (Conceal (jb_next_pts_us b1),
               b1\<lparr>jb_next_pts_us := saturating_add (jb_next_pts_us b1) FRAME_DURATION_US,
                  jb_concealed_streak := jb_concealed_streak b1 + 1\<rparr>))"

definition start_from :: "pending_frame \<Rightarrow> jitter_buffer \<Rightarrow> jitter_buffer" where
  "start_from frame b =
     b\<lparr>jb_pending := filter (\<lambda>f. fr_seq f \<noteq> fr_seq frame) (jb_pending b),
       jb_next_seq := Some (fr_seq frame + 1),
       jb_next_pts_us := saturating_add (fr_pts_us frame) FRAME_DURATION_US,
       jb_concealed_streak := 0\<rparr>"

definition jitter_tick :: "jitter_buffer \<Rightarrow> tick_action \<times> jitter_buffer" where
  "jitter_tick b =
     (if jb_buffering b then
        let stalled = (jb_fill_ticks b \<ge> JITTER_DEPTH \<and> jb_pending b \<noteq> []) in
        if length (jb_pending b) < JITTER_DEPTH \<and> \<not> stalled then
          let b1 = b\<lparr>jb_fill_ticks := jb_fill_ticks b + 1\<rparr> in
          (case jb_next_seq b1 of Some _ \<Rightarrow> conceal False b1 | None \<Rightarrow> (Idle, b1))
        else
          let b1 = b\<lparr>jb_buffering := False, jb_fill_ticks := 0\<rparr> in
          (case jb_pending b1 of
             first # _ \<Rightarrow> (Play first, start_from first b1)
           | [] \<Rightarrow> (Idle, b1))
      else
        (case jb_next_seq b of
           None \<Rightarrow> (Idle, b)
         | Some expected \<Rightarrow>
             (case jb_pending b of
                first # _ \<Rightarrow>
                  if fr_seq first - expected \<ge> RESYNC_GAP \<or> length (jb_pending b) > JITTER_DEPTH \<or>
                     fr_seq first = expected
                  then (Play first, start_from first b)
                  else conceal True b
              | [] \<Rightarrow> conceal False (b\<lparr>jb_buffering := True\<rparr>))))"

definition jitter_is_idle :: "jitter_buffer \<Rightarrow> bool" where
  "jitter_is_idle b \<longleftrightarrow> jb_next_seq b = None \<and> jb_pending b = []"

type_synonym content_playout = "peer_id \<rightharpoonup> jitter_buffer"

definition accept_content :: "peer_id \<Rightarrow> pending_frame \<Rightarrow> content_playout \<Rightarrow> content_playout" where
  "accept_content peer frame c =
     c(peer \<mapsto> jitter_push frame (case c peer of Some b \<Rightarrow> b | None \<Rightarrow> new_jitter))"

definition tick_retains :: "tick_action \<times> jitter_buffer \<Rightarrow> bool" where
  "tick_retains r = (case fst r of Idle \<Rightarrow> \<not> jitter_is_idle (snd r) | _ \<Rightarrow> True)"

definition content_tick :: "content_playout \<Rightarrow> (peer_id \<rightharpoonup> tick_action) \<times> content_playout" where
  "content_tick c =
     (\<lambda>p. case c p of None \<Rightarrow> None
        | Some b \<Rightarrow> if fst (jitter_tick b) = Idle then None else Some (fst (jitter_tick b)),
      \<lambda>p. case c p of None \<Rightarrow> None
        | Some b \<Rightarrow> if tick_retains (jitter_tick b) then Some (snd (jitter_tick b)) else None)"

definition forget_content :: "peer_id \<Rightarrow> content_playout \<Rightarrow> content_playout" where
  "forget_content peer c = c(peer := None)"

definition tracked_peers :: "content_playout \<Rightarrow> nat" where
  "tracked_peers c = msize c"

section \<open>Invariant\<close>

lemmas jitter_consts = JITTER_DEPTH_def MAX_BUFFERED_FRAMES_def RESYNC_GAP_def MAX_CONCEALED_FRAMES_def

definition jitter_ok :: "jitter_buffer \<Rightarrow> bool" where
  "jitter_ok b \<longleftrightarrow> sorted (map fr_seq (jb_pending b)) \<and> distinct (map fr_seq (jb_pending b)) \<and>
     length (jb_pending b) \<le> 12 \<and> jb_concealed_streak b \<le> 20 \<and>
     (jb_buffering b \<or> jb_next_seq b \<noteq> None \<and> jb_fill_ticks b = 0)"

lemma jitter_ok_new [simp]: "jitter_ok new_jitter"
  by (simp add: jitter_ok_def new_jitter_def)

lemma jitter_ok_push: "jitter_ok b \<Longrightarrow> jitter_ok (jitter_push f b)"
proof -
  assume ok: "jitter_ok b"
  define p where "p = sort_key fr_seq (jb_pending b @ [f])"
  have "distinct (map fr_seq p)" if "\<forall>g \<in> set (jb_pending b). fr_seq g \<noteq> fr_seq f"
  proof -
    have "mset (map fr_seq p) = mset (map fr_seq (jb_pending b @ [f]))" by (simp add: p_def)
    moreover have "distinct (map fr_seq (jb_pending b @ [f]))"
      using ok that by (auto simp: jitter_ok_def)
    ultimately show ?thesis using mset_eq_imp_distinct_iff by blast
  qed
  moreover have "sorted (map fr_seq p)" by (simp add: p_def)
  ultimately show ?thesis
    using ok
    by (auto simp: jitter_push_def Let_def p_def [symmetric] jitter_ok_def jitter_consts drop_map [symmetric]
        sorted_wrt_drop simp del: map_append)
qed

lemma jitter_ok_conceal:
  assumes "jitter_ok b" "jb_buffering b \<or> jb_next_seq b \<noteq> None" shows "jitter_ok (snd (conceal a b))"
  using assms by (auto simp: conceal_def Let_def jitter_ok_def MAX_CONCEALED_FRAMES_def new_jitter_def)

lemma jitter_ok_start:
  assumes "jitter_ok b" shows "jitter_ok (start_from f (b\<lparr>jb_buffering := False, jb_fill_ticks := 0\<rparr>))"
  using assms by (auto simp: start_from_def jitter_ok_def sorted_filter distinct_map_filter
      intro: le_trans [OF length_filter_le])

lemma start_from_running:
  "jitter_ok b \<Longrightarrow> \<not> jb_buffering b \<Longrightarrow> b\<lparr>jb_buffering := False, jb_fill_ticks := 0\<rparr> = b"
  by (cases b) (simp add: jitter_ok_def)

lemma jitter_ok_tick:
  assumes "jitter_ok b" shows "jitter_ok (snd (jitter_tick b))"
proof (cases "jb_buffering b")
  case True
  have "jitter_ok (b\<lparr>jb_fill_ticks := n\<rparr>)" for n using assms True by (simp add: jitter_ok_def)
  then show ?thesis
    using True jitter_ok_conceal [of "b\<lparr>jb_fill_ticks := jb_fill_ticks b + 1\<rparr>" False] jitter_ok_start [OF assms]
    by (auto simp: jitter_tick_def Let_def JITTER_DEPTH_def split: option.split list.split)
next
  case False
  then obtain e where "jb_next_seq b = Some e" using assms by (auto simp: jitter_ok_def)
  moreover have "jitter_ok (b\<lparr>jb_buffering := True\<rparr>)" using assms by (simp add: jitter_ok_def)
  ultimately show ?thesis
    using False jitter_ok_conceal [of "b\<lparr>jb_buffering := True\<rparr>" False] jitter_ok_conceal [OF assms, of True]
      jitter_ok_start [OF assms] start_from_running [OF assms False]
    by (auto simp: jitter_tick_def split: list.split)
qed

section \<open>A stopped stream ends\<close>

text \<open>
  How many ticks a buffer can still take before it is idle if nothing more arrives: 26 for each
  waiting frame, the concealments left, and the ticks left to fill the cushion.
\<close>

definition ticks_left :: "jitter_buffer \<Rightarrow> nat" where
  "ticks_left b = 26 * length (jb_pending b) + (if jb_next_seq b = None then 0 else 21 - jb_concealed_streak b) +
     (4 - jb_fill_ticks b)"

lemma length_remove_first:
  assumes "distinct (map fr_seq (f # fs))"
  shows "filter (\<lambda>g. fr_seq g \<noteq> fr_seq f) (f # fs) = fs"
  using assms by (auto intro!: filter_True) (metis image_eqI)

lemma conceal_progress:
  assumes "jb_concealed_streak b \<le> 20" "jb_next_seq b \<noteq> None"
  shows "ticks_left (snd (conceal a b)) < ticks_left b \<or> jitter_is_idle (snd (conceal a b))"
  using assms
  by (auto simp: conceal_def Let_def ticks_left_def jitter_is_idle_def new_jitter_def MAX_CONCEALED_FRAMES_def)

lemma play_progress:
  assumes "jitter_ok b" "jb_pending b = f # fs"
  shows "ticks_left (start_from f (b\<lparr>jb_buffering := False, jb_fill_ticks := 0\<rparr>)) < ticks_left b"
proof -
  have "filter (\<lambda>g. fr_seq g \<noteq> fr_seq f) (jb_pending b) = fs"
    using assms length_remove_first [of f fs] by (simp add: jitter_ok_def)
  then show ?thesis using assms by (simp add: ticks_left_def start_from_def)
qed

lemma tick_progress:
  assumes "jitter_ok b" "\<not> jitter_is_idle b"
  shows "ticks_left (snd (jitter_tick b)) < ticks_left b \<or> jitter_is_idle (snd (jitter_tick b))"
proof (cases "jb_buffering b")
  case True
  let ?b = "b\<lparr>jb_fill_ticks := jb_fill_ticks b + 1\<rparr>"
  show ?thesis
  proof (cases "length (jb_pending b) < 3 \<and> \<not> (3 \<le> jb_fill_ticks b \<and> jb_pending b \<noteq> [])")
    case wait: True
    show ?thesis
    proof (cases "jb_next_seq b")
      case None
      then have "jitter_tick b = (Idle, ?b)" using True wait by (simp add: jitter_tick_def JITTER_DEPTH_def)
      moreover have "jb_pending b \<noteq> []" using None assms(2) by (simp add: jitter_is_idle_def)
      then have "ticks_left ?b < ticks_left b" using wait None by (simp add: ticks_left_def) linarith
      ultimately show ?thesis by simp
    next
      case (Some e)
      then have t: "jitter_tick b = conceal False ?b"
        using True wait by (simp add: jitter_tick_def JITTER_DEPTH_def)
      have "ticks_left ?b \<le> ticks_left b" by (simp add: ticks_left_def diff_le_mono)
      then show ?thesis using conceal_progress [of ?b False] assms(1) Some t by (auto simp: jitter_ok_def)
    qed
  next
    case False
    then obtain f fs where p: "jb_pending b = f # fs" by (cases "jb_pending b") auto
    then have "jitter_tick b = (Play f, start_from f (b\<lparr>jb_buffering := False, jb_fill_ticks := 0\<rparr>))"
      using True False by (auto simp: jitter_tick_def JITTER_DEPTH_def)
    then show ?thesis using play_progress [OF assms(1) p] by simp
  qed
next
  case False
  then obtain e where e: "jb_next_seq b = Some e" using assms(1) by (auto simp: jitter_ok_def)
  let ?u = "b\<lparr>jb_buffering := True\<rparr>"
  have u: "ticks_left ?u = ticks_left b" "jb_concealed_streak b \<le> 20"
    using assms(1) by (simp_all add: ticks_left_def jitter_ok_def)
  show ?thesis
  proof (cases "jb_pending b")
    case Nil
    then show ?thesis using conceal_progress [of ?u False] u e False by (simp add: jitter_tick_def)
  next
    case (Cons f fs)
    then show ?thesis
      using play_progress [OF assms(1) Cons] start_from_running [OF assms(1) False]
        conceal_progress [of b True] u e False by (simp add: jitter_tick_def)
  qed
qed

definition jitter_ticks :: "nat \<Rightarrow> jitter_buffer \<Rightarrow> jitter_buffer" where
  "jitter_ticks n b = ((\<lambda>b. snd (jitter_tick b)) ^^ n) b"

lemma ticks_to_idle: "jitter_ok b \<Longrightarrow> \<exists>n \<le> ticks_left b. jitter_is_idle (jitter_ticks n b)"
proof (induction "ticks_left b" arbitrary: b rule: less_induct)
  case less
  show ?case
  proof (cases "jitter_is_idle b")
    case True
    then show ?thesis by (intro exI [of _ 0]) (simp add: jitter_ticks_def)
  next
    case False
    let ?b = "snd (jitter_tick b)"
    have step: "jitter_ticks (Suc n) b = jitter_ticks n ?b" for n
      unfolding jitter_ticks_def funpow_Suc_right by simp
    have pos: "0 < ticks_left b" using False less.prems
      by (auto simp: ticks_left_def jitter_is_idle_def jitter_ok_def)
    from tick_progress [OF less.prems False] show ?thesis
    proof
      assume lt: "ticks_left ?b < ticks_left b"
      obtain n where "n \<le> ticks_left ?b" "jitter_is_idle (jitter_ticks n ?b)"
        using less.hyps [OF lt jitter_ok_tick [OF less.prems]] by blast
      with lt step show ?thesis by (intro exI [of _ "Suc n"]) simp
    next
      assume "jitter_is_idle ?b"
      with pos step [of 0] show ?thesis by (intro exI [of _ 1]) (simp add: jitter_ticks_def)
    qed
  qed
qed

inductive jitter_reachable :: "jitter_buffer \<Rightarrow> bool" where
  init: "jitter_reachable new_jitter"
| push: "jitter_reachable b \<Longrightarrow> jitter_reachable (jitter_push f b)"
| tick: "jitter_reachable b \<Longrightarrow> jitter_reachable (snd (jitter_tick b))"

lemma jitter_reachable_ok: "jitter_reachable b \<Longrightarrow> jitter_ok b"
  by (induction rule: jitter_reachable.induct) (simp_all add: jitter_ok_push jitter_ok_tick)

text \<open>
  C35. A jitter buffer never holds more than 12 frames and never two of one sequence number, and
  a stream that stops comes to an end: from any reachable state, if nothing more arrives, the
  buffer is idle (nothing held, no timeline) after at most 337 ticks, so the audio timeline that
  video is synchronised to cannot run away.
\<close>

theorem jitter_stops:
  assumes "jitter_reachable b"
  shows "length (jb_pending b) \<le> 12 \<and> distinct (map fr_seq (jb_pending b)) \<and>
    (\<exists>n \<le> 337. jitter_is_idle (jitter_ticks n b))"
proof -
  have ok: "jitter_ok b" using assms by (rule jitter_reachable_ok)
  then have "ticks_left b \<le> 337" by (auto simp: jitter_ok_def ticks_left_def)
  moreover obtain n where "n \<le> ticks_left b" "jitter_is_idle (jitter_ticks n b)"
    using ticks_to_idle [OF ok] by blast
  ultimately show ?thesis using ok by (auto simp: jitter_ok_def intro!: exI [of _ n])
qed

theorem jitter_stops_witness:
  "\<exists>n \<le> 337. jitter_is_idle (jitter_ticks n
     (jitter_push \<lparr>fr_seq = 4, fr_pts_us = 0, fr_opus = []\<rparr> new_jitter))"
  using jitter_stops [OF jitter_reachable.push [OF jitter_reachable.init]] by blast

section \<open>Reordering\<close>

fun play_all :: "nat \<Rightarrow> jitter_buffer \<Rightarrow> tick_action list" where
  "play_all 0 b = []"
| "play_all (Suc n) b = (let (a, b') = jitter_tick b in a # play_all n b')"

lemma push_all_fresh:
  assumes "distinct (map fr_seq fs)" "length fs \<le> 12"
  shows "foldl (\<lambda>b f. jitter_push f b) new_jitter fs = new_jitter\<lparr>jb_pending := sort_key fr_seq fs\<rparr>"
  using assms
proof (induction fs rule: rev_induct)
  case Nil
  then show ?case by (simp add: new_jitter_def)
next
  case (snoc f fs)
  let ?b = "new_jitter\<lparr>jb_pending := sort_key fr_seq fs\<rparr>"
  have "\<not> (\<exists>g \<in> set (jb_pending ?b). fr_seq g = fr_seq f)" using snoc.prems(1) by (auto simp: image_iff)
  moreover have "sort_key fr_seq (sort_key fr_seq fs @ [f]) = sort_key fr_seq (fs @ [f])"
  proof (rule sort_key_inj_key_eq)
    have "inj_on fr_seq (set (fs @ [f]))" using snoc.prems(1) unfolding distinct_map by blast
    then show "inj_on fr_seq (set (sort_key fr_seq fs @ [f]))" by simp
  qed simp_all
  ultimately have "jitter_push f ?b = new_jitter\<lparr>jb_pending := sort_key fr_seq (fs @ [f])\<rparr>"
    using snoc.prems(2) by (simp add: jitter_push_def new_jitter_def jitter_consts)
  then show ?case using snoc by simp
qed

text \<open>A running buffer whose frames follow on from the expected number plays them all, in order.\<close>

lemma play_consecutive:
  assumes "\<not> jb_buffering b" "jb_next_seq b = Some s" "jb_pending b = fs"
    and "\<forall>i < length fs. fr_seq (fs ! i) = s + word_of_nat i" "distinct (map fr_seq fs)"
  shows "play_all (length fs) b = map Play fs"
  using assms
proof (induction fs arbitrary: b s)
  case (Cons f fs)
  have f: "fr_seq f = s" using Cons.prems(4) by force
  let ?b = "start_from f b"
  have t: "jitter_tick b = (Play f, ?b)" using Cons.prems(1-3) f by (simp add: jitter_tick_def)
  have p: "jb_pending ?b = fs"
    using length_remove_first [OF Cons.prems(5)] Cons.prems(3) by (simp add: start_from_def)
  have "\<forall>i < length fs. fr_seq (fs ! i) = (s + 1) + word_of_nat i"
    using Cons.prems(4) by (auto simp: add.assoc)
  then have "play_all (length fs) ?b = map Play fs"
    using Cons.prems(1,5) f p by (intro Cons.IH [where s = "s + 1"]) (simp_all add: start_from_def)
  with t show ?case by simp
qed simp

text \<open>
  The jitter buffer undoes reordering: 3 to 12 frames with consecutive sequence numbers,
  pushed in any order into a fresh buffer before the first tick, are all played, one per tick, in
  sequence order.
\<close>

lemma jitter_reorders:
  assumes "mset arrived = mset fs" "3 \<le> length fs" "length fs \<le> 12"
    and "unat s + length fs \<le> 2 ^ 32" "\<forall>i < length fs. fr_seq (fs ! i) = s + word_of_nat i"
  shows "play_all (length fs) (foldl (\<lambda>b f. jitter_push f b) new_jitter arrived) = map Play fs"
proof -
  have u: "unat (fr_seq (fs ! i)) = unat s + i" if "i < length fs" for i
  proof -
    have i: "unat (word_of_nat i :: u32) = i" using that assms(3) by (simp add: unat_of_nat)
    have "unat (s + word_of_nat i) = unat s + unat (word_of_nat i :: u32)"
      using that assms(4) i by (simp add: unat_word_ariths)
    with i assms(5) that show ?thesis by simp
  qed
  have d: "distinct (map fr_seq fs)"
    unfolding distinct_conv_nth
  proof (intro allI impI notI)
    fix i j assume ij: "i < length (map fr_seq fs)" "j < length (map fr_seq fs)" "i \<noteq> j"
      and eq: "map fr_seq fs ! i = map fr_seq fs ! j"
    then have "unat (fr_seq (fs ! i)) = unat (fr_seq (fs ! j))" by simp
    with u [of i] u [of j] ij show False by simp
  qed
  have "sorted (map fr_seq fs)"
    unfolding sorted_iff_nth_mono by (auto simp: word_le_nat_alt u)
  then have sk: "sort_key fr_seq fs = fs" by (rule sort_key_id_if_sorted)
  have "mset (map fr_seq arrived) = mset (map fr_seq fs)" using assms(1) by simp
  then have dist: "distinct (map fr_seq arrived)" using d mset_eq_imp_distinct_iff by blast
  then have inj: "inj_on fr_seq (set arrived)" by (simp add: distinct_map)
  have "sort_key fr_seq arrived = sort_key fr_seq fs"
    unfolding sk by (rule sort_key_inj_key_eq [OF assms(1) inj]) fact
  with sk have b: "foldl (\<lambda>b f. jitter_push f b) new_jitter arrived = new_jitter\<lparr>jb_pending := fs\<rparr>"
    using push_all_fresh [OF dist] assms(3) mset_eq_length [OF assms(1)] by simp
  obtain f gs where fs: "fs = f # gs" using assms(2) by (cases fs) auto
  let ?b = "start_from f (new_jitter\<lparr>jb_pending := fs, jb_buffering := False, jb_fill_ticks := 0\<rparr>)"
  have t: "jitter_tick (new_jitter\<lparr>jb_pending := fs\<rparr>) = (Play f, ?b)"
    using assms(2) fs by (simp add: jitter_tick_def new_jitter_def JITTER_DEPTH_def)
  have p: "jb_pending ?b = gs" using length_remove_first d fs by (simp add: start_from_def)
  have "fr_seq f = s" using assms(5) fs by force
  moreover have "\<forall>i < length gs. fr_seq (gs ! i) = (s + 1) + word_of_nat i"
    using assms(5) fs by (auto simp: add.assoc)
  ultimately have "play_all (length gs) ?b = map Play gs"
    using d fs p by (intro play_consecutive [where s = "s + 1"]) (simp_all add: start_from_def)
  with t show ?thesis unfolding b by (simp add: fs)
qed

lemma jitter_reorders_witness:
  "play_all 3 (foldl (\<lambda>b f. jitter_push f b) new_jitter
     [\<lparr>fr_seq = 9, fr_pts_us = 0, fr_opus = []\<rparr>, \<lparr>fr_seq = 7, fr_pts_us = 0, fr_opus = []\<rparr>,
      \<lparr>fr_seq = 8, fr_pts_us = 0, fr_opus = []\<rparr>]) =
   map Play [\<lparr>fr_seq = 7, fr_pts_us = 0, fr_opus = []\<rparr>, \<lparr>fr_seq = 8, fr_pts_us = 0, fr_opus = []\<rparr>,
      \<lparr>fr_seq = 9, fr_pts_us = 0, fr_opus = []\<rparr>]"
proof -
  let ?f = "\<lambda>n. \<lparr>fr_seq = n, fr_pts_us = 0, fr_opus = []\<rparr>"
  have "\<forall>i < length [?f 7, ?f 8, ?f 9]. fr_seq ([?f 7, ?f 8, ?f 9] ! i) = 7 + word_of_nat i"
    by (simp add: All_less_Suc2 numeral_3_eq_3)
  then show ?thesis
    using jitter_reorders [of "[?f 9, ?f 7, ?f 8]" "[?f 7, ?f 8, ?f 9]" 7]
    by (simp add: add_mset_commute numeral_3_eq_3)
qed

end
