(* ===== verification/Fallback.thy ===== *)
theory Fallback
  imports Rust_Str Complex_Main
begin

text \<open>
  The pure decision logic of a client's connections: path and health of a peer session
  (\<open>conquerd-client/src/session_state.rs\<close>) and the candidate order and room fallback of
  \<open>connection_fallback.rs\<close>. Link statistics are \<open>f64\<close> and rationals here; a statistic is never
  NaN. The borrowed iterators are lists.
\<close>

section \<open>Session state\<close>

datatype chat_path = NoPath | Direct | Relay
datatype chat_health = Disconnected | Connecting | Connected | Degraded
datatype voice_mode = NoVoice | DirectPeer | Room
datatype voice_quality = Unknown | Good | Fair | Poor

fun as_mode_str :: "chat_path \<Rightarrow> string" where
  "as_mode_str Direct = ''direct''"
| "as_mode_str Relay = ''relay''"
| "as_mode_str NoPath = ''offline''"

definition classify_link_health :: "rat option \<Rightarrow> rat \<Rightarrow> chat_health" where
  "classify_link_health rtt_ms packet_loss_pct =
     (let rtt = (case rtt_ms of Some r \<Rightarrow> r | None \<Rightarrow> 0) in
      if packet_loss_pct \<ge> 15 \<or> rtt \<ge> 400 then Degraded else Connected)"

definition derive_session_path_health ::
  "bool \<Rightarrow> bool \<Rightarrow> bool \<Rightarrow> rat option \<Rightarrow> rat \<Rightarrow> chat_path \<times> chat_health" where
  "derive_session_path_health direct_connected direct_connecting relay_available rtt_ms packet_loss_pct =
     (if direct_connected then (Direct, classify_link_health rtt_ms packet_loss_pct)
      else if direct_connecting then (Direct, Connecting)
      else if relay_available then
        (Relay, case rtt_ms of Some rtt \<Rightarrow> classify_link_health (Some rtt) packet_loss_pct
                | None \<Rightarrow> Connected)
      else (NoPath, Disconnected))"

record peer_session_state =
  ps_peer_id :: peer_id
  ps_chat_path :: chat_path
  ps_chat_health :: chat_health
  ps_voice_mode :: voice_mode
  ps_voice_quality :: voice_quality
  ps_in_call :: bool
  ps_muted :: bool
  ps_speaking :: bool
  ps_rtt_ms :: "rat option"
  ps_packet_loss :: rat
  ps_jitter_ms :: rat
  ps_relay_url :: "string option"
  ps_relay_index :: "u8 option"

definition new_peer_session :: "peer_id \<Rightarrow> peer_session_state" where
  "new_peer_session peer = \<lparr>ps_peer_id = peer, ps_chat_path = NoPath, ps_chat_health = Disconnected,
     ps_voice_mode = NoVoice, ps_voice_quality = Unknown, ps_in_call = False, ps_muted = False,
     ps_speaking = False, ps_rtt_ms = None, ps_packet_loss = 0, ps_jitter_ms = 0,
     ps_relay_url = None, ps_relay_index = None\<rparr>"

definition from_transport :: "peer_id \<Rightarrow> bool \<Rightarrow> bool \<Rightarrow> bool \<Rightarrow> rat option \<Rightarrow> rat \<Rightarrow> rat \<Rightarrow> voice_mode \<Rightarrow>
    peer_session_state" where
  "from_transport peer direct_connected direct_connecting relay_available rtt_ms packet_loss jitter_ms mode =
     (let (path, health) = derive_session_path_health direct_connected direct_connecting relay_available
                             rtt_ms packet_loss;
          quality = (case health of Connected \<Rightarrow> Good | Degraded \<Rightarrow> Poor | Connecting \<Rightarrow> Fair
                                  | Disconnected \<Rightarrow> Unknown)
      in \<lparr>ps_peer_id = peer, ps_chat_path = path, ps_chat_health = health, ps_voice_mode = mode,
          ps_voice_quality = quality, ps_in_call = (mode \<noteq> NoVoice), ps_muted = False,
          ps_speaking = False, ps_rtt_ms = rtt_ms, ps_packet_loss = packet_loss,
          ps_jitter_ms = jitter_ms, ps_relay_url = None, ps_relay_index = None\<rparr>)"

section \<open>Candidates\<close>

definition TEMP_ROOM_PREFIX :: string where "TEMP_ROOM_PREFIX = ''direct-''"

text \<open>The closure \<open>push\<close> on the pair of \<open>seen\<close> and \<open>candidates\<close>.\<close>

definition push_candidate :: "string set \<times> string list \<Rightarrow> string \<Rightarrow> string set \<times> string list" where
  "push_candidate st url = (case st of (seen, candidates) \<Rightarrow>
     if url \<noteq> [] \<and> url \<notin> seen then (insert url seen, candidates @ [url]) else (seen, candidates))"

definition build_ws_candidates ::
  "string option \<Rightarrow> string option \<Rightarrow> string list \<Rightarrow> string list \<Rightarrow> string list \<Rightarrow> string list" where
  "build_ws_candidates endpoint_url lan_hint supernode_relay_hints connected_supernode_endpoints
     peer_relay_hints =
     (let st0 = ({}, []);
          st1 = foldl push_candidate st0 connected_supernode_endpoints;
          st2 = foldl push_candidate st1 supernode_relay_hints;
          st3 = (case endpoint_url of Some ep \<Rightarrow> push_candidate st2 ep | None \<Rightarrow> st2);
          st4 = (case lan_hint of Some lh \<Rightarrow> push_candidate st3 lh | None \<Rightarrow> st3);
          st5 = foldl push_candidate st4 peer_relay_hints
      in snd st5)"

definition build_ws_candidates_from_hints :: "string option \<Rightarrow> string list \<Rightarrow> string list" where
  "build_ws_candidates_from_hints endpoint_url relay_hints =
     build_ws_candidates endpoint_url None [] [] relay_hints"

section \<open>Fallback to a room\<close>

record pending_fallback =
  pe_peer_id :: peer_id
  pe_room_id :: room_id
  pe_supernode_id :: peer_id

record fallback_coordinator =
  fc_pending :: "pending_fallback option"
  fc_counter :: u32

definition new_coordinator :: fallback_coordinator where
  "new_coordinator = \<lparr>fc_pending = None, fc_counter = 0\<rparr>"

definition next_counter :: "fallback_coordinator \<Rightarrow> u32 \<times> fallback_coordinator" where
  "next_counter c = (let n = fc_counter c + 1 in (n, c\<lparr>fc_counter := n\<rparr>))"

definition set_pending :: "pending_fallback \<Rightarrow> fallback_coordinator \<Rightarrow> fallback_coordinator" where
  "set_pending p c = c\<lparr>fc_pending := Some p\<rparr>"

definition cancel_pending :: "fallback_coordinator \<Rightarrow> fallback_coordinator" where
  "cancel_pending c = c\<lparr>fc_pending := None\<rparr>"

definition is_pending_for :: "peer_id \<Rightarrow> fallback_coordinator \<Rightarrow> bool" where
  "is_pending_for peer c = (case fc_pending c of Some p \<Rightarrow> pe_peer_id p = peer | None \<Rightarrow> False)"

definition is_pending_room :: "peer_id \<Rightarrow> room_id \<Rightarrow> fallback_coordinator \<Rightarrow> bool" where
  "is_pending_room sn room c = (case fc_pending c of
     Some p \<Rightarrow> pe_supernode_id p = sn \<and> pe_room_id p = room | None \<Rightarrow> False)"

definition is_temp_direct_room :: "room_id \<Rightarrow> bool" where
  "is_temp_direct_room room \<longleftrightarrow> take (length TEMP_ROOM_PREFIX) room = TEMP_ROOM_PREFIX"

definition build_room_id :: "string \<Rightarrow> peer_id \<Rightarrow> u32 \<Rightarrow> room_id option" where
  "build_room_id self_pub peer counter =
     (case str_prefix (min 12 (length self_pub)) self_pub of
        None \<Rightarrow> None
      | Some sp \<Rightarrow>
        (case str_prefix (min 12 (length peer)) peer of
           None \<Rightarrow> None
         | Some pp \<Rightarrow> Some (TEMP_ROOM_PREFIX @ sp @ ''-'' @ pp @ ''-'' @ show_nat (unat counter))))"

fun pick_loop :: "string list \<Rightarrow> string set \<Rightarrow> string option \<Rightarrow> string" where
  "pick_loop [] conn fallback = (case fallback of Some f \<Rightarrow> f | None \<Rightarrow> [])"
| "pick_loop (i # ids) conn fallback =
     (if i \<in> conn then i
      else pick_loop ids conn (if fallback = None then Some i else fallback))"

definition pick_supernode :: "string list \<Rightarrow> string set \<Rightarrow> string" where
  "pick_supernode ids conn = pick_loop ids conn None"

section \<open>Candidate order\<close>

text \<open>The reference: first occurrences, in order.\<close>

fun first_occurrences :: "'a set \<Rightarrow> 'a list \<Rightarrow> 'a list" where
  "first_occurrences seen [] = []"
| "first_occurrences seen (x # xs) =
     (if x \<in> seen then first_occurrences seen xs else x # first_occurrences (insert x seen) xs)"

lemma set_first_occurrences: "set (first_occurrences seen xs) = set xs - seen"
  by (induction xs arbitrary: seen) auto

lemma distinct_first_occurrences: "distinct (first_occurrences seen xs)"
  by (induction xs arbitrary: seen) (auto simp: set_first_occurrences)

lemma first_occurrences_append:
  "first_occurrences seen (xs @ ys) = first_occurrences seen xs @ first_occurrences (seen \<union> set xs) ys"
  by (induction xs arbitrary: seen) (auto simp: insert_absorb)

lemma push_candidates_eq:
  "foldl push_candidate (seen, cs) urls =
     (seen \<union> set (filter (\<lambda>u. u \<noteq> []) urls), cs @ first_occurrences seen (filter (\<lambda>u. u \<noteq> []) urls))"
  by (induction urls arbitrary: seen cs) (auto simp: push_candidate_def)

lemma build_ws_candidates_eq:
  "build_ws_candidates ep lan hints conn peer =
     first_occurrences {} (filter (\<lambda>u. u \<noteq> []) (conn @ hints @ (case ep of Some e \<Rightarrow> [e] | None \<Rightarrow> []) @
       (case lan of Some l \<Rightarrow> [l] | None \<Rightarrow> []) @ peer))"
proof -
  have o: "(case x of Some e \<Rightarrow> push_candidate st e | None \<Rightarrow> st) =
      foldl push_candidate st (case x of Some e \<Rightarrow> [e] | None \<Rightarrow> [])" for x st
    by (simp split: option.split)
  show ?thesis
    unfolding build_ws_candidates_def Let_def o foldl_append [symmetric]
    by (simp only: push_candidates_eq) simp
qed

text \<open>
  The connect candidates are exactly the non-empty endpoints the caller supplied, each once,
  in the documented order of preference: connected supernodes, relay hints, the direct endpoint,
  the LAN hint, then the peer's own hints, an endpoint known from two sources keeping its best
  position.
\<close>

lemma ws_candidates_correct:
  "let all = conn @ hints @ (case ep of Some e \<Rightarrow> [e] | None \<Rightarrow> []) @
       (case lan of Some l \<Rightarrow> [l] | None \<Rightarrow> []) @ peer;
       cs = build_ws_candidates ep lan hints conn peer
   in distinct cs \<and> set cs = set all - {[]} \<and>
      (\<forall>i j. i < j \<and> j < length cs \<longrightarrow>
         (\<exists>pre post. all = pre @ cs ! i # post \<and> cs ! j \<notin> set pre))"
proof -
  let ?all = "conn @ hints @ (case ep of Some e \<Rightarrow> [e] | None \<Rightarrow> []) @
       (case lan of Some l \<Rightarrow> [l] | None \<Rightarrow> []) @ peer"
  have order: "\<exists>pre post. xs = pre @ first_occurrences S (filter (\<lambda>u. u \<noteq> []) xs) ! i # post \<and>
      first_occurrences S (filter (\<lambda>u. u \<noteq> []) xs) ! j \<notin> set pre"
    if "i < j" "j < length (first_occurrences S (filter (\<lambda>u. u \<noteq> []) xs))" for i j S and xs :: "string list"
    using that
  proof (induction xs arbitrary: S i j)
    case (Cons x xs)
    let ?fo = "\<lambda>S xs. first_occurrences S (filter (\<lambda>u. u \<noteq> []) xs)"
    show ?case
    proof (cases "x = [] \<or> x \<in> S")
      case True
      then have e: "?fo S (x # xs) = ?fo S xs" by auto
      then obtain pre post where p: "xs = pre @ ?fo S xs ! i # post" "?fo S xs ! j \<notin> set pre"
        using Cons.IH [of i j S] Cons.prems by auto
      have "?fo S xs ! j \<in> set (?fo S xs)" using Cons.prems e by simp
      then have "?fo S xs ! j \<noteq> x" using True by (auto simp: set_first_occurrences)
      with p e show ?thesis by (intro exI [of _ "x # pre"] exI [of _ post]) auto
    next
      case False
      then have e: "?fo S (x # xs) = x # ?fo (insert x S) xs" by simp
      show ?thesis
      proof (cases i)
        case 0
        with e show ?thesis by (intro exI [of _ "[]"] exI [of _ xs]) simp
      next
        case (Suc i')
        then obtain j' where j: "j = Suc j'" "i' < j'" using Cons.prems(1) by (cases j) auto
        then obtain pre post where p: "xs = pre @ ?fo (insert x S) xs ! i' # post"
            "?fo (insert x S) xs ! j' \<notin> set pre"
          using Cons.IH [of i' j' "insert x S"] Cons.prems(2) e by auto
        have "?fo (insert x S) xs ! j' \<in> set (?fo (insert x S) xs)" using Cons.prems(2) e j by simp
        then have "?fo (insert x S) xs ! j' \<noteq> x" by (auto simp: set_first_occurrences)
        with p e Suc j show ?thesis by (intro exI [of _ "x # pre"] exI [of _ post]) simp
      qed
    qed
  qed simp
  show ?thesis
    unfolding Let_def build_ws_candidates_eq
    using order [of _ _ "{}" ?all]
    by (auto simp: distinct_first_occurrences set_first_occurrences simp del: filter_append)
qed

lemma ws_candidates_correct_witness:
  "set (build_ws_candidates (Some ''b'') None [''a'', ''b''] [''c''] []) = {''a'', ''b'', ''c''}"
  using ws_candidates_correct [of "[''c'']" "[''a'', ''b'']" "Some ''b''" None "[]"]
  by (auto simp: Let_def)

section \<open>Picking a supernode, naming a room\<close>

lemma pick_loop_connected:
  "pick_loop ids con fb \<in> con \<or> (\<forall>i \<in> set ids. i \<notin> con) \<and>
     pick_loop ids con fb = (case fb of Some f \<Rightarrow> f | None \<Rightarrow> (case ids of [] \<Rightarrow> [] | i # _ \<Rightarrow> i))"
  by (induction ids con fb rule: pick_loop.induct) (auto split: option.splits list.splits)

lemma pick_loop_member: "pick_loop ids con fb \<in> set ids \<union> set_option fb \<or> ids = [] \<and> fb = None"
  by (induction ids con fb rule: pick_loop.induct) (auto split: option.splits if_splits)

text \<open>
  The fallback of a failed direct call: the supernode picked is one of the candidates, a
  connected one whenever any is, and otherwise the first; none is picked exactly when there is no
  candidate. The room id it mints never panics on ASCII identities, is recognised as temporary,
  and differs for different counters.
\<close>

lemma fallback_choice:
  "(ids = [] \<longrightarrow> pick_supernode ids con = []) \<and>
   (ids \<noteq> [] \<longrightarrow> pick_supernode ids con \<in> set ids) \<and>
   ((\<exists>i \<in> set ids. i \<in> con) \<longrightarrow> pick_supernode ids con \<in> con) \<and>
   ((\<forall>i \<in> set ids. i \<notin> con) \<and> ids \<noteq> [] \<longrightarrow> pick_supernode ids con = hd ids) \<and>
   (printable self \<and> printable peer \<longrightarrow> (\<exists>r. build_room_id self peer n = Some r)) \<and>
   (build_room_id self peer n = Some r \<longrightarrow> is_temp_direct_room r) \<and>
   (build_room_id self peer n = Some r \<and> build_room_id self peer m = Some r \<longrightarrow> n = m)"
proof (intro conjI impI)
  show "pick_supernode ids con = []" if "ids = []" using that by (simp add: pick_supernode_def)
  show "pick_supernode ids con \<in> set ids" if "ids \<noteq> []"
    using that pick_loop_member [of ids con None] by (simp add: pick_supernode_def)
  show "pick_supernode ids con \<in> con" if "\<exists>i \<in> set ids. i \<in> con"
    using that pick_loop_connected [of ids con None] by (auto simp: pick_supernode_def)
  show "pick_supernode ids con = hd ids" if "(\<forall>i \<in> set ids. i \<notin> con) \<and> ids \<noteq> []"
    using that pick_loop_connected [of ids con None] pick_loop_member [of ids con None]
    by (auto simp: pick_supernode_def split: list.splits)
  show "is_temp_direct_room r" if "build_room_id self peer n = Some r"
    using that by (auto simp: build_room_id_def is_temp_direct_room_def TEMP_ROOM_PREFIX_def split: option.splits)
  show "n = m" if "build_room_id self peer n = Some r \<and> build_room_id self peer m = Some r"
  proof -
    have "show_nat (unat n) = show_nat (unat m)"
      using that by (auto simp: build_room_id_def split: option.splits)
    moreover have "unat n < 2 ^ 32" "unat m < 2 ^ 32"
      using unsigned_less [of n, where ?'a = nat] unsigned_less [of m, where ?'a = nat] by simp_all
    ultimately have "unat n = unat m" by (intro show_nat_inj)
    then show ?thesis by (simp add: word_unat_eq_iff)
  qed
  have pre: "\<exists>p. str_prefix (min 12 (length s)) s = Some p" if "printable s" for s
  proof (cases "12 < length s")
    case True
    then have "32 < (of_char (s ! 12) :: nat)" "(of_char (s ! 12) :: nat) < 127"
      using that by (simp_all add: printable_def list_all_length)
    then have "\<not> utf8_cont (as_bytes s ! 12)"
      using True by (simp add: utf8_cont_def as_bytes_def word_le_nat_alt unat_byte)
    with True show ?thesis by (simp add: str_prefix_def)
  qed (simp add: str_prefix_def min_def)
  show "\<exists>r. build_room_id self peer n = Some r" if "printable self \<and> printable peer"
    using pre [of self] pre [of peer] that by (auto simp: build_room_id_def)
qed

lemma fallback_choice_witness:
  "pick_supernode [''a'', ''b''] {''b''} \<in> {''b''} \<and> (\<exists>r. build_room_id ''self'' ''peer'' 3 = Some r)"
  using fallback_choice [of "[''a'', ''b'']" "{''b''}" "''self''" "''peer''" 3 "''x''" 4]
  by (simp add: printable_def)

end
