(* ===== verification/Space_Tree.thy ===== *)
theory Space_Tree
  imports Prelude
begin

text \<open>
  The RFC 6962 Merkle tree of \<open>conquerd-supernode/src/space.rs\<close>: tree hash, audit paths and the
  fold of an audit path back to a root. SHA-256 is the parameter \<open>sha\<close>; a 32-byte array is a
  byte list, and \<open>hash32\<close> states the width where it matters. Soundness is stated with an explicit
  collision: from a proof that verifies for the wrong leaf, \<open>tree_collision\<close> computes two different
  inputs with the same digest.
\<close>

section \<open>Tree hashing\<close>

definition interior_hash :: "(bytes \<Rightarrow> bytes) \<Rightarrow> bytes \<Rightarrow> bytes \<Rightarrow> bytes" where
  "interior_hash sha left right = sha (0x01 # left @ right)"

text \<open>
  The loop of \<open>largest_pow2_below\<close>; it starts at 1, so the test for zero is never taken.
\<close>

function pow2_loop :: "nat \<Rightarrow> nat \<Rightarrow> nat" where
  "pow2_loop k n = (if 0 < k \<and> k * 2 < n then pow2_loop (k * 2) n else k)"
  by pat_completeness auto
termination by (relation "measure (\<lambda>(k, n). n - k)") auto

declare pow2_loop.simps [simp del]

definition largest_pow2_below :: "nat \<Rightarrow> nat" where
  "largest_pow2_below n = pow2_loop 1 n"

lemma pow2_loop_bounds: "0 < k \<Longrightarrow> k < n \<Longrightarrow> k \<le> pow2_loop k n \<and> pow2_loop k n < n \<and> n \<le> 2 * pow2_loop k n"
proof (induction k n rule: pow2_loop.induct)
  case (1 k n)
  show ?case
  proof (cases "k * 2 < n")
    case True
    then have "pow2_loop k n = pow2_loop (k * 2) n" using 1(2) by (simp add: pow2_loop.simps [of k n])
    with 1 True show ?thesis by simp
  next
    case False
    then have "pow2_loop k n = k" by (simp add: pow2_loop.simps [of k n])
    with 1 False show ?thesis by simp
  qed
qed

lemma pow2_loop_power: "k = 2 ^ i \<Longrightarrow> \<exists>j. pow2_loop k n = 2 ^ j"
proof (induction k n arbitrary: i rule: pow2_loop.induct)
  case (1 k n)
  show ?case
  proof (cases "0 < k \<and> k * 2 < n")
    case True
    then have "pow2_loop k n = pow2_loop (k * 2) n" by (simp add: pow2_loop.simps [of k n])
    with 1(1) [OF True, of "Suc i"] 1(2) show ?thesis by simp
  next
    case False
    then have "pow2_loop k n = k" by (subst pow2_loop.simps) (simp only: if_False)
    with 1(2) show ?thesis by blast
  qed
qed

lemma largest_pow2_below:
  assumes "2 \<le> n"
  shows "0 < largest_pow2_below n" "largest_pow2_below n < n" "n \<le> 2 * largest_pow2_below n"
    "\<exists>j. largest_pow2_below n = 2 ^ j"
  using pow2_loop_bounds [of 1 n] pow2_loop_power [of 1 0 n] assms by (auto simp: largest_pow2_below_def)

function merkle_root :: "(bytes \<Rightarrow> bytes) \<Rightarrow> bytes list \<Rightarrow> bytes" where
  "merkle_root sha leaves =
     (if leaves = [] then sha []
      else if length leaves = 1 then leaves ! 0
      else let k = largest_pow2_below (length leaves)
           in interior_hash sha (merkle_root sha (take k leaves)) (merkle_root sha (drop k leaves)))"
  by pat_completeness auto
termination
proof (relation "measure (\<lambda>(sha, leaves). length leaves)")
  fix sha :: "bytes \<Rightarrow> bytes" and leaves :: "bytes list" and k
  assume a: "leaves \<noteq> []" "length leaves \<noteq> 1" and k: "k = largest_pow2_below (length leaves)"
  have "0 < length leaves" using a(1) by simp
  with a(2) have n: "2 \<le> length leaves" by linarith
  show "((sha, take k leaves), sha, leaves) \<in> measure (\<lambda>(sha, leaves). length leaves)"
    "((sha, drop k leaves), sha, leaves) \<in> measure (\<lambda>(sha, leaves). length leaves)"
    using largest_pow2_below [OF n] n by (simp_all add: k)
qed simp

function audit_path :: "(bytes \<Rightarrow> bytes) \<Rightarrow> nat \<Rightarrow> bytes list \<Rightarrow> bytes list" where
  "audit_path sha m leaves =
     (let n = length leaves in
      if n \<le> 1 then []
      else let k = largest_pow2_below n in
        if m < k then audit_path sha m (take k leaves) @ [merkle_root sha (drop k leaves)]
        else audit_path sha (m - k) (drop k leaves) @ [merkle_root sha (take k leaves)])"
  by pat_completeness auto
termination
proof (relation "measure (\<lambda>(sha, m, leaves). length leaves)")
  fix sha :: "bytes \<Rightarrow> bytes" and m n k :: nat and leaves :: "bytes list"
  assume n: "n = length leaves" "\<not> n \<le> 1" and k: "k = largest_pow2_below n"
  then have "2 \<le> length leaves" by simp
  from largest_pow2_below [OF this] this
  show "((sha, m, take k leaves), sha, m, leaves) \<in> measure (\<lambda>(sha, m, leaves). length leaves)"
    "((sha, m - k, drop k leaves), sha, m, leaves) \<in> measure (\<lambda>(sha, m, leaves). length leaves)"
    by (simp_all add: k n(1))
qed simp

function root_from_audit :: "(bytes \<Rightarrow> bytes) \<Rightarrow> bytes \<Rightarrow> nat \<Rightarrow> nat \<Rightarrow> bytes list \<Rightarrow> bytes option" where
  "root_from_audit sha leaf m n path =
     (if n = 0 \<or> m \<ge> n then None
      else if n = 1 then (if path = [] then Some leaf else None)
      else if path = [] then None
      else let tp = last path; rest = butlast path; k = largest_pow2_below n in
        if m < k
        then map_option (\<lambda>left. interior_hash sha left tp) (root_from_audit sha leaf m k rest)
        else map_option (\<lambda>right. interior_hash sha tp right) (root_from_audit sha leaf (m - k) (n - k) rest))"
  by pat_completeness auto
termination
  by (relation "measure (\<lambda>(sha, leaf, m, n, path). length path)") auto

declare merkle_root.simps [simp del] audit_path.simps [simp del] root_from_audit.simps [simp del]

section \<open>Equations for the two shapes of a tree\<close>

lemma merkle_root_single [simp]: "merkle_root sha [x] = x"
  by (simp add: merkle_root.simps [of sha "[x]"])

lemma merkle_root_split:
  "2 \<le> length leaves \<Longrightarrow> merkle_root sha leaves =
     interior_hash sha (merkle_root sha (take (largest_pow2_below (length leaves)) leaves))
       (merkle_root sha (drop (largest_pow2_below (length leaves)) leaves))"
  by (subst merkle_root.simps) (auto simp: Let_def)

lemma audit_path_split:
  "2 \<le> length leaves \<Longrightarrow> audit_path sha m leaves =
     (let k = largest_pow2_below (length leaves) in
      if m < k then audit_path sha m (take k leaves) @ [merkle_root sha (drop k leaves)]
      else audit_path sha (m - k) (drop k leaves) @ [merkle_root sha (take k leaves)])"
  by (subst audit_path.simps) (simp add: Let_def)

lemma audit_path_small: "length leaves \<le> 1 \<Longrightarrow> audit_path sha m leaves = []"
  by (subst audit_path.simps) (simp add: Let_def)

lemma root_from_audit_one: "root_from_audit sha leaf 0 1 path = (if path = [] then Some leaf else None)"
  by (subst root_from_audit.simps) simp

lemma root_from_audit_snoc:
  "2 \<le> n \<Longrightarrow> m < n \<Longrightarrow> root_from_audit sha leaf m n (rest @ [tp]) =
     (let k = largest_pow2_below n in
      if m < k then map_option (\<lambda>left. interior_hash sha left tp) (root_from_audit sha leaf m k rest)
      else map_option (\<lambda>right. interior_hash sha tp right) (root_from_audit sha leaf (m - k) (n - k) rest))"
  by (subst root_from_audit.simps) (simp add: Let_def)

section \<open>Completeness and depth\<close>

lemma root_from_audit_path:
  "m < length leaves \<Longrightarrow> root_from_audit sha (leaves ! m) m (length leaves) (audit_path sha m leaves)
     = Some (merkle_root sha leaves)"
proof (induction sha m leaves rule: audit_path.induct)
  case (1 sha m leaves)
  let ?n = "length leaves" and ?k = "largest_pow2_below (length leaves)"
  show ?case
  proof (cases "?n \<le> 1")
    case True
    then obtain x where "leaves = [x]" using 1(3) by (cases leaves) auto
    then show ?thesis using 1(3) root_from_audit_one [of sha x "[]"] by (simp add: audit_path_small)
  next
    case False
    then have n: "2 \<le> ?n" by simp
    note k = largest_pow2_below [OF n]
    show ?thesis
    proof (cases "m < ?k")
      case True
      have "root_from_audit sha (take ?k leaves ! m) m (length (take ?k leaves))
          (audit_path sha m (take ?k leaves)) = Some (merkle_root sha (take ?k leaves))"
        using 1(1) [OF refl False refl True] True k by simp
      then show ?thesis
        using True k n 1(3) by (simp add: audit_path_split Let_def root_from_audit_snoc merkle_root_split)
    next
      case right: False
      have "root_from_audit sha (drop ?k leaves ! (m - ?k)) (m - ?k) (length (drop ?k leaves))
          (audit_path sha (m - ?k) (drop ?k leaves)) = Some (merkle_root sha (drop ?k leaves))"
        using 1(2) [OF refl False refl right] right 1(3) k by simp
      then show ?thesis
        using right k n 1(3) by (simp add: audit_path_split Let_def root_from_audit_snoc merkle_root_split)
    qed
  qed
qed

lemma half_power: "n \<le> 2 ^ Suc d \<Longrightarrow> 2 \<le> n \<Longrightarrow> largest_pow2_below n \<le> 2 ^ d"
proof -
  assume n: "n \<le> 2 ^ Suc d" "2 \<le> n"
  obtain j where j: "largest_pow2_below n = 2 ^ j" using largest_pow2_below(4) [OF n(2)] by blast
  have "(2 :: nat) ^ j < 2 ^ Suc d" using largest_pow2_below(2) [OF n(2)] n(1) j by simp
  then have "j \<le> d" by (simp only: power_strict_increasing_iff less_Suc_eq_le one_less_numeral_iff semiring_norm)
  then show ?thesis by (simp add: j)
qed

lemma length_audit_path: "length leaves \<le> 2 ^ d \<Longrightarrow> length (audit_path sha m leaves) \<le> d"
proof (induction d arbitrary: m leaves)
  case 0
  then show ?case by (simp add: audit_path_small)
next
  case (Suc d)
  let ?k = "largest_pow2_below (length leaves)"
  show ?case
  proof (cases "2 \<le> length leaves")
    case True
    have "?k \<le> 2 ^ d" by (rule half_power [OF Suc.prems True])
    moreover have "length leaves - ?k \<le> 2 ^ d"
      using largest_pow2_below(3) [OF True] \<open>?k \<le> 2 ^ d\<close> by linarith
    ultimately show ?thesis
      using Suc.IH [of "take ?k leaves"] Suc.IH [of "drop ?k leaves"] by (simp add: audit_path_split [OF True] Let_def)
  qed (simp add: audit_path_small)
qed

section \<open>Soundness up to a collision\<close>

definition hash32 :: "(bytes \<Rightarrow> bytes) \<Rightarrow> bool" where
  "hash32 sha \<longleftrightarrow> (\<forall>x. length (sha x) = 32)"

text \<open>
  The first place, from the root down, where the folded path and the tree hash two different
  inputs.
\<close>

function tree_collision :: "(bytes \<Rightarrow> bytes) \<Rightarrow> bytes \<Rightarrow> nat \<Rightarrow> bytes list \<Rightarrow> bytes list \<Rightarrow> bytes \<times> bytes" where
  "tree_collision sha leaf m leaves path =
     (if length leaves \<le> 1 \<or> path = [] then ([], [])
      else let k = largest_pow2_below (length leaves);
               l = merkle_root sha (take k leaves); r = merkle_root sha (drop k leaves);
               tp = last path; rest = butlast path
           in if m < k then
                let l' = the (root_from_audit sha leaf m k rest) in
                if l' = l \<and> tp = r then tree_collision sha leaf m (take k leaves) rest
                else (0x01 # l' @ tp, 0x01 # l @ r)
              else
                let r' = the (root_from_audit sha leaf (m - k) (length leaves - k) rest) in
                if r' = r \<and> tp = l then tree_collision sha leaf (m - k) (drop k leaves) rest
                else (0x01 # tp @ r', 0x01 # l @ r))"
  by pat_completeness auto
termination
  by (relation "measure (\<lambda>(sha, leaf, m, leaves, path). length path)") auto

declare tree_collision.simps [simp del]

definition collides :: "(bytes \<Rightarrow> bytes) \<Rightarrow> bytes \<times> bytes \<Rightarrow> bool" where
  "collides sha p \<longleftrightarrow> fst p \<noteq> snd p \<and> sha (fst p) = sha (snd p)"

lemma length_merkle_root:
  "hash32 sha \<Longrightarrow> \<forall>x \<in> set leaves. length x = 32 \<Longrightarrow> length (merkle_root sha leaves) = 32"
  by (subst merkle_root.simps) (auto simp: hash32_def interior_hash_def Let_def)

lemma length_root_from_audit:
  "hash32 sha \<Longrightarrow> length leaf = 32 \<Longrightarrow> root_from_audit sha leaf m n path = Some h \<Longrightarrow> length h = 32"
  by (subst (asm) root_from_audit.simps)
     (auto simp: hash32_def interior_hash_def Let_def split: if_splits)

lemma root_from_audit_sound:
  assumes "hash32 sha" "\<forall>x \<in> set leaves. length x = 32" "\<forall>x \<in> set path. length x = 32" "length leaf = 32"
    and "root_from_audit sha leaf m (length leaves) path = Some (merkle_root sha leaves)"
  shows "m < length leaves \<and> (leaf = leaves ! m \<or> collides sha (tree_collision sha leaf m leaves path))"
  using assms
proof (induction path arbitrary: m leaves rule: rev_induct)
  case Nil
  from Nil.prems(5) have "length leaves = 1 \<and> m = 0 \<and> leaf = merkle_root sha leaves"
    by (subst (asm) root_from_audit.simps) (auto split: if_splits)
  moreover from this obtain x where "leaves = [x]" by (auto simp: length_Suc_conv)
  ultimately show ?case by simp
next
  case (snoc tp rest)
  let ?k = "largest_pow2_below (length leaves)"
  let ?l = "merkle_root sha (take ?k leaves)" and ?r = "merkle_root sha (drop ?k leaves)"
  have m: "m < length leaves" and n: "2 \<le> length leaves"
    using snoc.prems(5) by (subst (asm) root_from_audit.simps, auto split: if_splits)+
  note k = largest_pow2_below [OF n]
  have tk: "\<forall>x \<in> set (take ?k leaves). length x = 32" "\<forall>x \<in> set (drop ?k leaves). length x = 32"
    using snoc.prems(2) by (auto dest: in_set_takeD in_set_dropD)
  have ll: "length ?l = 32" "length ?r = 32" "length tp = 32"
    using length_merkle_root [OF snoc.prems(1)] tk snoc.prems(3) by simp_all
  have step: "tree_collision sha leaf m leaves (rest @ [tp]) =
     (if m < ?k then
        let l' = the (root_from_audit sha leaf m ?k rest) in
        if l' = ?l \<and> tp = ?r then tree_collision sha leaf m (take ?k leaves) rest
        else (0x01 # l' @ tp, 0x01 # ?l @ ?r)
      else
        let r' = the (root_from_audit sha leaf (m - ?k) (length leaves - ?k) rest) in
        if r' = ?r \<and> tp = ?l then tree_collision sha leaf (m - ?k) (drop ?k leaves) rest
        else (0x01 # tp @ r', 0x01 # ?l @ ?r))"
    using n by (subst tree_collision.simps) (simp add: Let_def)
  show ?case
  proof (cases "m < ?k")
    case True
    obtain l' where l': "root_from_audit sha leaf m ?k rest = Some l'"
        "interior_hash sha l' tp = interior_hash sha ?l ?r"
      using snoc.prems(5) root_from_audit_snoc [OF n m, of sha leaf rest tp] True
      by (auto simp: merkle_root_split [OF n] Let_def)
    have len: "length l' = 32" by (rule length_root_from_audit [OF snoc.prems(1,4) l'(1)])
    show ?thesis
    proof (cases "l' = ?l \<and> tp = ?r")
      case same: True
      have "root_from_audit sha leaf m (length (take ?k leaves)) rest = Some ?l"
        using l'(1) same k by simp
      from snoc.IH [OF snoc.prems(1) tk(1) _ snoc.prems(4) this] snoc.prems(3) same l'(1) True m step
      show ?thesis by auto
    next
      case False
      then have "0x01 # l' @ tp \<noteq> 0x01 # ?l @ ?r" using len ll by simp
      with l' False True m step show ?thesis by (auto simp: collides_def interior_hash_def)
    qed
  next
    case False
    obtain r' where r': "root_from_audit sha leaf (m - ?k) (length leaves - ?k) rest = Some r'"
        "interior_hash sha tp r' = interior_hash sha ?l ?r"
      using snoc.prems(5) root_from_audit_snoc [OF n m, of sha leaf rest tp] False
      by (auto simp: merkle_root_split [OF n] Let_def)
    show ?thesis
    proof (cases "r' = ?r \<and> tp = ?l")
      case same: True
      have "root_from_audit sha leaf (m - ?k) (length (drop ?k leaves)) rest = Some ?r"
        using r'(1) same by simp
      from snoc.IH [OF snoc.prems(1) tk(2) _ snoc.prems(4) this] snoc.prems(3) same r'(1) False m step
      show ?thesis by auto
    next
      case diff: False
      then have "0x01 # tp @ r' \<noteq> 0x01 # ?l @ ?r" using ll by auto
      with r' diff False m step show ?thesis by (auto simp: collides_def interior_hash_def)
    qed
  qed
qed

end
