(* ===== verification/Public_Id.thy ===== *)
theory Public_Id
  imports Rust_Str
begin

text \<open>
  Identities as strings, \<open>conquerd-supernode/src/crypto.rs\<close>. The base64 engine and SHA-256 are
  external crates: \<open>b64_raw\<close> stands for the unpadded URL-safe decoder, \<open>sha256_hex\<close> for the
  lowercase hexadecimal digest.
\<close>

definition normalize_public_id :: "string \<Rightarrow> string" where
  "normalize_public_id i =
     (let bare = trim_end (CHR ''='') i in
      if length bare \<noteq> 43 then i else bare @ ''='')"

definition b64url_decode :: "(string \<Rightarrow> 'e + bytes) \<Rightarrow> string \<Rightarrow> 'e + bytes" where
  "b64url_decode b64_raw s =
     (let padded = (if length s mod 4 = 2 then s @ ''=='' else if length s mod 4 = 3 then s @ ''='' else s)
      in b64_raw (trim_end (CHR ''='') padded))"

definition derive_room_id :: "(bytes \<Rightarrow> string) \<Rightarrow> string \<Rightarrow> string \<Rightarrow> room_id" where
  "derive_room_id sha256_hex creator_pub_id room_name =
     take 16 (sha256_hex (as_bytes (creator_pub_id @ '':'' @ room_name)))"

text \<open>The bare form of an id: without padding.\<close>

abbreviation bare :: "string \<Rightarrow> string" where
  "bare \<equiv> trim_end (CHR ''='')"

lemma bare_normalize [simp]: "bare (normalize_public_id i) = bare i"
  by (simp add: normalize_public_id_def Let_def)

lemma normalize_idem [simp]: "normalize_public_id (normalize_public_id i) = normalize_public_id i"
  by (auto simp: normalize_public_id_def Let_def)

lemma normalize_bare_eq:
  "length (bare i) = 43 \<Longrightarrow> normalize_public_id i = normalize_public_id j \<longleftrightarrow> bare i = bare j"
proof
  assume "length (bare i) = 43" "bare i = bare j"
  then show "normalize_public_id i = normalize_public_id j" by (simp add: normalize_public_id_def)
qed (use bare_normalize [of i] bare_normalize [of j] in simp)

lemma normalize_eq_bare: "normalize_public_id i = normalize_public_id j \<Longrightarrow> bare i = bare j"
  by (metis bare_normalize)

lemma normalize_short [simp]: "length i < 43 \<Longrightarrow> normalize_public_id i = i"
proof -
  assume a: "length i < 43"
  have "length (bare i) \<le> length i"
    using length_dropWhile_le [of "\<lambda>x. x = CHR ''=''" "rev i"] by (simp add: trim_end_def)
  with a show ?thesis by (simp add: normalize_public_id_def Let_def)
qed

lemma normalize_Nil [simp]: "normalize_public_id [] = []"
  by simp

lemma b64url_decode_bare: "b64url_decode raw s = raw (bare s)"
proof -
  have "bare (s @ ''=='') = bare s"
    using trim_end_append_self [of "CHR ''=''" "s @ ''=''"] by simp
  then show ?thesis by (simp add: b64url_decode_def Let_def)
qed

text \<open>
  Normalising a public id never changes the key it denotes: the decoder gives the same
  result on an id and its normal form, normalising twice is normalising once, and two ids of
  32-byte keys (43 characters without padding) have the same normal form exactly when they differ
  only in padding, whatever decoder the base64 library provides.
\<close>

lemma normalize_public_id_sound:
  "b64url_decode raw (normalize_public_id i) = b64url_decode raw i \<and>
   normalize_public_id (normalize_public_id i) = normalize_public_id i \<and>
   (length (trim_end (CHR ''='') i) = 43 \<longrightarrow>
      length (normalize_public_id i) = 44 \<and>
      (normalize_public_id i = normalize_public_id j \<longleftrightarrow>
         trim_end (CHR ''='') i = trim_end (CHR ''='') j))"
proof -
  have "length (normalize_public_id i) = 44" if "length (bare i) = 43"
    using that by (simp add: normalize_public_id_def)
  then show ?thesis using normalize_bare_eq [of i j] by (simp add: b64url_decode_bare)
qed

lemma normalize_public_id_sound_witness:
  "normalize_public_id (replicate 43 (CHR ''A'')) = normalize_public_id (replicate 43 (CHR ''A'') @ ''='') \<and>
   length (normalize_public_id (replicate 43 (CHR ''A''))) = 44"
proof -
  have t: "trim_end (CHR ''='') (replicate 43 (CHR ''A'')) = replicate 43 (CHR ''A'')"
    by (rule trim_end_id) (simp add: last_replicate)
  show ?thesis
    using normalize_public_id_sound [of "\<lambda>_. Inl ()" "replicate 43 (CHR ''A'')" "replicate 43 (CHR ''A'') @ ''=''"]
    by (simp add: t) metis
qed

end
