(* ===== verification/Crates.thy ===== *)
theory Crates
  imports Public_Id "HOL-Library.List_Lexorder" "HOL-Library.Char_ord"
begin

text \<open>
  The third-party crates behind the authenticated data of the system, gathered in one record that
  the definitions take as an argument: SHA-256 (\<open>sha2\<close>), hexadecimal (\<open>hex\<close>), base64url (\<open>base64\<close>),
  the JSON writer (\<open>serde_json::to_vec\<close>) and Ed25519 (\<open>ed25519_dalek\<close>). \<open>crates_ok\<close> states what
  their documentation promises and the code relies on. \<open>plain_crates\<close> is a concrete, insecure
  implementation of the same promises, on which the witnesses of later theories run.
\<close>

section \<open>The crates\<close>

text \<open>The JSON values the sources build: strings, unsigned integers and booleans.\<close>

datatype json = JStr string | JNum nat | JBool bool

record crates =
  cr_sha256 :: "bytes \<Rightarrow> bytes"
  cr_hex_encode :: "bytes \<Rightarrow> string"
  cr_hex_decode :: "string \<Rightarrow> bytes option"
  cr_b64_encode :: "bytes \<Rightarrow> string"
  cr_b64_decode :: "string \<Rightarrow> unit + bytes"
  cr_to_vec :: "(string \<times> json) list \<Rightarrow> bytes"
  cr_key_ok :: "bytes \<Rightarrow> bool"
  cr_verify :: "bytes \<Rightarrow> bytes \<Rightarrow> bytes \<Rightarrow> bool"

definition sha256_hex :: "crates \<Rightarrow> bytes \<Rightarrow> string" where
  "sha256_hex C data = cr_hex_encode C (cr_sha256 C data)"

text \<open>
  The two programs have their own base64url functions: the supernode writes without padding and reads
  with any padding (\<open>b64url_decode\<close>), the client writes with padding and tries a padded reading before an
  unpadded one. A \<open>crates\<close> carries the pair of one program; \<open>reads_b64 C S\<close> says that the program of
  \<open>C\<close> reads what the program of \<open>S\<close> writes.
\<close>

definition client_b64url_decode :: "(string \<Rightarrow> 'e + bytes) \<Rightarrow> (string \<Rightarrow> 'e + bytes) \<Rightarrow> string \<Rightarrow> 'e + bytes" where
  "client_b64url_decode url_safe url_safe_no_pad s =
     (case url_safe s of Inr b \<Rightarrow> Inr b | Inl _ \<Rightarrow> url_safe_no_pad s)"

abbreviation b64_decode :: "crates \<Rightarrow> string \<Rightarrow> unit + bytes" where
  "b64_decode C \<equiv> cr_b64_decode C"

definition reads_b64 :: "crates \<Rightarrow> crates \<Rightarrow> bool" where
  "reads_b64 C S \<longleftrightarrow> (\<forall>b. b64_decode C (cr_b64_encode S b) = Inr b)"

definition ed25519_verify :: "crates \<Rightarrow> bytes \<Rightarrow> bytes \<Rightarrow> bytes \<Rightarrow> bool" where
  "ed25519_verify C public_key_bytes signature_bytes data \<longleftrightarrow>
     length public_key_bytes = 32 \<and> cr_key_ok C public_key_bytes \<and>
     length signature_bytes = 64 \<and> cr_verify C public_key_bytes signature_bytes data"

text \<open>
  The check every signed record of the system makes: decode the signer and the signature, then
  verify the signature over the record's signing bytes.
\<close>

definition signed_by :: "crates \<Rightarrow> string \<Rightarrow> string \<Rightarrow> bytes \<Rightarrow> bool" where
  "signed_by C signer signature data =
     (case (b64_decode C signer, b64_decode C signature) of
        (Inr pk, Inr sig) \<Rightarrow> ed25519_verify C pk sig data
      | _ \<Rightarrow> False)"

text \<open>
  A \<open>BTreeMap<&str, Value>\<close> as the list of its entries in key order; \<open>insert\<close> replaces an equal key.
\<close>

fun bt_insert :: "string \<Rightarrow> 'v \<Rightarrow> (string \<times> 'v) list \<Rightarrow> (string \<times> 'v) list" where
  "bt_insert k v [] = [(k, v)]"
| "bt_insert k v ((k', v') # m) =
     (if k < k' then (k, v) # (k', v') # m
      else if k = k' then (k, v) # m
      else (k', v') # bt_insert k v m)"

fun bt_of :: "(string \<times> 'v) list \<Rightarrow> (string \<times> 'v) list \<Rightarrow> (string \<times> 'v) list" where
  "bt_of [] m = m"
| "bt_of ((k, v) # kvs) m = bt_of kvs (bt_insert k v m)"

text \<open>
  A labelled signing input: the domain label, a bar, and the sorted JSON of the fields.
\<close>

definition labelled_json :: "crates \<Rightarrow> string \<Rightarrow> (string \<times> json) list \<Rightarrow> bytes" where
  "labelled_json C label kvs = as_bytes label @ as_bytes ''|'' @ cr_to_vec C (bt_of kvs [])"

section \<open>What the crates promise\<close>

definition crates_ok :: "crates \<Rightarrow> bool" where
  "crates_ok C \<longleftrightarrow>
     (\<forall>x. length (cr_sha256 C x) = 32) \<and>
     (\<forall>b. cr_hex_decode C (cr_hex_encode C b) = Some b) \<and>
     reads_b64 C C \<and>
     inj (cr_to_vec C)"

text \<open>\<open>sign\<close> is the signing operation of the key whose base64url form is \<open>signer\<close>.\<close>

definition signs_for :: "crates \<Rightarrow> string \<Rightarrow> (bytes \<Rightarrow> bytes) \<Rightarrow> bool" where
  "signs_for C signer sign \<longleftrightarrow>
     (\<exists>pk. b64_decode C signer = Inr pk \<and> (\<forall>m. ed25519_verify C pk (sign m) m))"

lemma crates_okD:
  assumes "crates_ok C"
  shows "length (cr_sha256 C x) = 32" "cr_hex_decode C (cr_hex_encode C b) = Some b"
    "b64_decode C (cr_b64_encode C b) = Inr b" "inj (cr_to_vec C)"
  using assms by (auto simp: crates_ok_def reads_b64_def)

lemma hex_encode_eq: "crates_ok C \<Longrightarrow> cr_hex_encode C a = cr_hex_encode C b \<longleftrightarrow> a = b"
  by (metis crates_okD(2) option.inject)

lemma crates_reads: "crates_ok C \<Longrightarrow> reads_b64 C C"
  by (simp add: crates_ok_def)

lemma signed_by_written:
  "reads_b64 C S \<Longrightarrow> signs_for C signer sign \<Longrightarrow> signed_by C signer (cr_b64_encode S (sign m)) m"
  by (auto simp: signed_by_def signs_for_def reads_b64_def)

lemmas signed_by_sign = signed_by_written [OF crates_reads]

text \<open>
  Each program reads what the other writes when the engine does: the padded form is the unpadded one
  followed by padding, the padded engine reads exactly padded text and the unpadded engine unpadded text.
\<close>

lemma program_decoders:
  assumes "\<And>b. bare (pad b) = no_pad b" "\<And>b. url_safe (pad b) = Inr b" "\<And>b. url_safe_no_pad (no_pad b) = Inr b"
    and "\<And>b. url_safe (no_pad b) = Inr b \<or> (\<exists>e. url_safe (no_pad b) = Inl e)"
  shows "b64url_decode url_safe_no_pad (pad b) = Inr b" "b64url_decode url_safe_no_pad (no_pad b) = Inr b"
    "client_b64url_decode url_safe url_safe_no_pad (pad b) = Inr b"
    "client_b64url_decode url_safe url_safe_no_pad (no_pad b) = Inr b"
proof -
  have "bare (no_pad b) = no_pad b" using assms(1) [of b] by (metis trim_end_idem)
  then show "b64url_decode url_safe_no_pad (pad b) = Inr b" "b64url_decode url_safe_no_pad (no_pad b) = Inr b"
    by (simp_all add: b64url_decode_bare assms(1,3))
  show "client_b64url_decode url_safe url_safe_no_pad (pad b) = Inr b"
    by (simp add: client_b64url_decode_def assms(2))
  show "client_b64url_decode url_safe url_safe_no_pad (no_pad b) = Inr b"
    using assms(4) [of b] by (auto simp: client_b64url_decode_def assms(3))
qed

lemma labelled_json_eq:
  "crates_ok C \<Longrightarrow> labelled_json C l a = labelled_json C l b \<longleftrightarrow> bt_of a [] = bt_of b []"
  by (auto simp: labelled_json_def dest: crates_okD(4) [THEN injD])

section \<open>A concrete instance\<close>

text \<open>
  Self-delimiting encodings: a byte 1 before every element and a byte 0 at the end.
\<close>

fun enc_bytes :: "bytes \<Rightarrow> bytes" where
  "enc_bytes [] = [0]"
| "enc_bytes (b # bs) = 1 # b # enc_bytes bs"

fun enc_json :: "json \<Rightarrow> bytes" where
  "enc_json (JStr s) = 0 # enc_bytes (as_bytes s)"
| "enc_json (JNum n) = 1 # enc_bytes (replicate n 0)"
| "enc_json (JBool b) = [2, if b then 1 else 0]"

fun enc_fields :: "(string \<times> json) list \<Rightarrow> bytes" where
  "enc_fields [] = [0]"
| "enc_fields ((k, v) # m) = 1 # enc_bytes (as_bytes k) @ enc_json v @ enc_fields m"

lemma enc_bytes_prefix [simp]: "enc_bytes a @ r = enc_bytes b @ r' \<longleftrightarrow> a = b \<and> r = r'"
proof (induction a arbitrary: b)
  case Nil
  then show ?case by (cases b) auto
next
  case (Cons x a)
  then show ?case by (cases b) auto
qed

lemma enc_json_prefix [simp]: "enc_json v @ r = enc_json w @ r' \<longleftrightarrow> v = w \<and> r = r'"
  by (cases v; cases w) (auto simp: inj_as_bytes)

lemma enc_fields_inj: "enc_fields m = enc_fields m' \<Longrightarrow> m = m'"
proof (induction m arbitrary: m' rule: enc_fields.induct)
  case 1
  then show ?case by (cases m' rule: enc_fields.cases) auto
next
  case (2 k v m)
  then show ?case by (cases m' rule: enc_fields.cases) (auto simp: inj_as_bytes)
qed

text \<open>
  Hexadecimal is one character per byte; base64 is four characters per byte, ending in \<open>A\<close> so that
  the padding rules of the decoder leave it alone; the digest is the input cut or filled to 32
  bytes; a signature is valid when it is 64 zero bytes.
\<close>

fun spread :: "string \<Rightarrow> string" where
  "spread [] = []"
| "spread (c # s) = c # CHR ''A'' # CHR ''A'' # CHR ''A'' # spread s"

fun unspread :: "string \<Rightarrow> string" where
  "unspread (a # b # c # d # s) = a # unspread s"
| "unspread _ = []"

definition plain_crates :: crates where
  "plain_crates = \<lparr>
     cr_sha256 = (\<lambda>x. take 32 (x @ replicate 32 0)),
     cr_hex_encode = string_of_bytes,
     cr_hex_decode = (\<lambda>s. Some (as_bytes s)),
     cr_b64_encode = (\<lambda>b. spread (string_of_bytes b)),
     cr_b64_decode = b64url_decode (\<lambda>s. Inr (as_bytes (unspread s))),
     cr_to_vec = enc_fields,
     cr_key_ok = (\<lambda>pk. True),
     cr_verify = (\<lambda>pk sig m. sig = replicate 64 0)\<rparr>"

lemma as_bytes_string_of_bytes [simp]: "as_bytes (string_of_bytes b) = b"
proof -
  have "word_of_nat (of_char (char_of (unat x))) = x" for x :: u8
    using unsigned_less [of x, where ?'a = nat] by simp
  then show ?thesis by (simp add: as_bytes_def string_of_bytes_def map_idI)
qed

lemma plain_sel [simp]:
  "cr_sha256 plain_crates x = take 32 (x @ replicate 32 0)"
  "cr_hex_encode plain_crates = string_of_bytes"
  "cr_hex_decode plain_crates t = Some (as_bytes t)"
  "cr_b64_encode plain_crates b = spread (string_of_bytes b)"
  "cr_to_vec plain_crates = enc_fields"
  "cr_key_ok plain_crates pk"
  "cr_verify plain_crates pk sig m \<longleftrightarrow> sig = replicate 64 0"
  by (simp_all add: plain_crates_def)

lemma unspread_spread [simp]: "unspread (spread s) = s"
  by (induction s) auto

lemma length_spread [simp]: "length (spread s) = 4 * length s"
  by (induction s) auto

lemma last_spread: "s \<noteq> [] \<Longrightarrow> last (spread s) = CHR ''A''"
proof (induction s)
  case (Cons c s)
  then show ?case by (cases s) auto
qed simp

lemma trim_end_spread [simp]: "trim_end (CHR ''='') (spread s) = spread s"
  by (rule trim_end_id) (cases "s = []"; simp add: last_spread)

lemma plain_b64 [simp]: "b64_decode plain_crates (spread (string_of_bytes b)) = Inr b"
  by (simp add: b64url_decode_def plain_crates_def)

lemma plain_crates_ok: "crates_ok plain_crates"
proof -
  have "inj enc_fields" by (rule injI) (rule enc_fields_inj)
  moreover have "min n 32 + (32 - n) = 32" for n :: nat by arith
  ultimately show ?thesis by (simp add: crates_ok_def reads_b64_def)
qed

text \<open>A signer of the concrete instance: the key of 32 zero bytes.\<close>

definition plain_signer :: string where
  "plain_signer = spread (string_of_bytes (replicate 32 0))"

lemma length_plain_signer: "length plain_signer = 128"
  by (simp add: plain_signer_def string_of_bytes_def)

lemma plain_signer_neq: "length s \<noteq> 128 \<Longrightarrow> plain_signer \<noteq> s"
  using length_plain_signer by auto

lemma plain_signs_for: "signs_for plain_crates plain_signer (\<lambda>m. replicate 64 0)"
  by (auto simp: signs_for_def ed25519_verify_def plain_signer_def)

end
