(* ===== verification/Space.thy ===== *)
theory Space
  imports Space_Tree Crates
begin

text \<open>
  The authenticated room tree, \<open>conquerd-client/src/space.rs\<close> (the supernode has a copy of the same
  file): node records and their leaf hashes, owner-signed roots, inclusion proofs, grants, and the
  owner's builder. A proof built by the owner verifies against the root it signed, and a proof that
  verifies is for a node of the space unless it exhibits a SHA-256 collision.
\<close>

section \<open>Constants and nodes\<close>

definition SPACE_LEAF_LABEL :: string where "SPACE_LEAF_LABEL = ''conquerd-space-leaf-v1''"
definition SPACE_ROOT_LABEL :: string where "SPACE_ROOT_LABEL = ''conquerd-space-root-v1''"
definition SPACE_GRANT_LABEL :: string where "SPACE_GRANT_LABEL = ''conquerd-space-grant-v1''"
definition MAX_PROOF_DEPTH :: nat where "MAX_PROOF_DEPTH = 32"
definition SPACE_SCHEMA :: u32 where "SPACE_SCHEMA = 1"

record space_node =
  sn_node_id :: string
  sn_parent_id :: string
  sn_kind :: string
  sn_name :: string
  sn_node_type :: string
  sn_owner_pub :: string
  sn_invite_policy :: string
  sn_inherit :: bool
  sn_key_commit :: string

definition node_fields :: "space_node \<Rightarrow> (string \<times> json) list" where
  "node_fields n =
    [(''node_id'', JStr (sn_node_id n)), (''parent_id'', JStr (sn_parent_id n)),
     (''kind'', JStr (sn_kind n)), (''name'', JStr (sn_name n)),
     (''node_type'', JStr (sn_node_type n)), (''owner_pub'', JStr (sn_owner_pub n)),
     (''invite_policy'', JStr (sn_invite_policy n)), (''inherit'', JBool (sn_inherit n)),
     (''key_commit'', JStr (sn_key_commit n))]"

definition canonical_json :: "crates \<Rightarrow> space_node \<Rightarrow> bytes" where
  "canonical_json C n = cr_to_vec C (bt_of (node_fields n) [])"

definition leaf_input :: "crates \<Rightarrow> space_node \<Rightarrow> bytes" where
  "leaf_input C n = 0x00 # as_bytes SPACE_LEAF_LABEL @ as_bytes ''|'' @ canonical_json C n"

definition leaf_hash :: "crates \<Rightarrow> space_node \<Rightarrow> bytes" where
  "leaf_hash C n = cr_sha256 C (leaf_input C n)"

definition derive_node_id :: "crates \<Rightarrow> string \<Rightarrow> string \<Rightarrow> string \<Rightarrow> string" where
  "derive_node_id C parent_id owner_pub name =
     take 16 (sha256_hex C (as_bytes (parent_id @ '':'' @ owner_pub @ '':'' @ name)))"

section \<open>Signed roots, proofs, grants\<close>

record signed_space_root =
  rt_schema :: u32
  rt_space_id :: string
  rt_epoch :: u64
  rt_root_hash :: string
  rt_node_count :: u32
  rt_issued_at :: u64
  rt_signer :: string
  rt_signature :: string

definition root_signing_bytes :: "crates \<Rightarrow> signed_space_root \<Rightarrow> bytes" where
  "root_signing_bytes C r = labelled_json C SPACE_ROOT_LABEL
    [(''schema'', JNum (unat (rt_schema r))), (''space_id'', JStr (rt_space_id r)),
     (''epoch'', JNum (unat (rt_epoch r))), (''root_hash'', JStr (rt_root_hash r)),
     (''node_count'', JNum (unat (rt_node_count r))), (''issued_at'', JNum (unat (rt_issued_at r))),
     (''signer'', JStr (rt_signer r))]"

definition root_verify :: "crates \<Rightarrow> signed_space_root \<Rightarrow> bool" where
  "root_verify C r = signed_by C (rt_signer r) (rt_signature r) (root_signing_bytes C r)"

record space_inclusion_proof =
  ip_schema :: u32
  ip_node :: space_node
  ip_leaf_index :: u32
  ip_path :: "string list"
  ip_epoch :: u64

definition decode_hash :: "crates \<Rightarrow> string \<Rightarrow> bytes option" where
  "decode_hash C s = (case cr_hex_decode C s of
     None \<Rightarrow> None | Some b \<Rightarrow> if length b = 32 then Some b else None)"

text \<open>\<open>collect\<close> of an iterator of options: the list of values, or nothing if one is missing.\<close>

fun collect_opts :: "'a option list \<Rightarrow> 'a list option" where
  "collect_opts [] = Some []"
| "collect_opts (None # xs) = None"
| "collect_opts (Some x # xs) = map_option ((#) x) (collect_opts xs)"

definition verify_against :: "crates \<Rightarrow> space_inclusion_proof \<Rightarrow> signed_space_root \<Rightarrow> bool" where
  "verify_against C p root =
     (if ip_epoch p \<noteq> rt_epoch root then False
      else if length (ip_path p) > MAX_PROOF_DEPTH then False
      else let n = unat (rt_node_count root); m = unat (ip_leaf_index p) in
        if m \<ge> n then False
        else case collect_opts (map (decode_hash C) (ip_path p)) of
          None \<Rightarrow> False
        | Some path \<Rightarrow>
            (case root_from_audit (cr_sha256 C) (leaf_hash C (ip_node p)) m n path of
               Some computed \<Rightarrow> cr_hex_encode C computed = rt_root_hash root
             | None \<Rightarrow> False))"

record space_grant =
  gr_schema :: u32
  gr_node_id :: string
  gr_epoch :: u64
  gr_grantee_pub :: string
  gr_expires_at :: u64
  gr_signature :: string

definition grant_signing_bytes :: "crates \<Rightarrow> space_grant \<Rightarrow> bytes" where
  "grant_signing_bytes C g = labelled_json C SPACE_GRANT_LABEL
    [(''schema'', JNum (unat (gr_schema g))), (''node_id'', JStr (gr_node_id g)),
     (''epoch'', JNum (unat (gr_epoch g))), (''grantee_pub'', JStr (gr_grantee_pub g)),
     (''expires_at'', JNum (unat (gr_expires_at g)))]"

definition grant_verify :: "crates \<Rightarrow> space_grant \<Rightarrow> string \<Rightarrow> bool" where
  "grant_verify C g owner_pub = signed_by C owner_pub (gr_signature g) (grant_signing_bytes C g)"

section \<open>The owner's builder\<close>

record space =
  sp_space_id :: string
  sp_owner_pub :: string
  sp_epoch :: u64
  sp_nodes :: "space_node list"

definition new_server :: "crates \<Rightarrow> string \<Rightarrow> string \<Rightarrow> space" where
  "new_server C owner_pub server_name =
     (let space_id = derive_node_id C [] owner_pub server_name;
          server = \<lparr>sn_node_id = space_id, sn_parent_id = [], sn_kind = ''server'', sn_name = server_name,
            sn_node_type = ''public'', sn_owner_pub = owner_pub, sn_invite_policy = ''owner'',
            sn_inherit = False, sn_key_commit = []\<rparr>
      in \<lparr>sp_space_id = space_id, sp_owner_pub = owner_pub, sp_epoch = 0, sp_nodes = [server]\<rparr>)"

text \<open>Replace the first node with the same id, or append.\<close>

fun replace_node :: "space_node \<Rightarrow> space_node list \<Rightarrow> space_node list" where
  "replace_node x [] = [x]"
| "replace_node x (n # ns) = (if sn_node_id n = sn_node_id x then x # ns else n # replace_node x ns)"

definition upsert_node :: "space_node \<Rightarrow> space \<Rightarrow> string \<times> space" where
  "upsert_node n sp =
     (sn_node_id n, sp\<lparr>sp_nodes := replace_node n (sp_nodes sp), sp_epoch := sp_epoch sp + 1\<rparr>)"

definition remove_node :: "string \<Rightarrow> space \<Rightarrow> bool \<times> space" where
  "remove_node i sp =
     (let nodes = filter (\<lambda>n. sn_node_id n \<noteq> i) (sp_nodes sp);
          removed = (length nodes \<noteq> length (sp_nodes sp))
      in (removed, sp\<lparr>sp_nodes := nodes, sp_epoch := (if removed then sp_epoch sp + 1 else sp_epoch sp)\<rparr>))"

definition sorted_nodes :: "space \<Rightarrow> space_node list" where
  "sorted_nodes sp = sort_key sn_node_id (sp_nodes sp)"

definition sorted_leaves :: "crates \<Rightarrow> space \<Rightarrow> bytes list" where
  "sorted_leaves C sp = map (leaf_hash C) (sorted_nodes sp)"

definition root_hash :: "crates \<Rightarrow> space \<Rightarrow> string" where
  "root_hash C sp = cr_hex_encode C (merkle_root (cr_sha256 C) (sorted_leaves C sp))"

definition signed_root :: "crates \<Rightarrow> space \<Rightarrow> u64 \<Rightarrow> (bytes \<Rightarrow> bytes) \<Rightarrow> signed_space_root" where
  "signed_root C sp issued_at sign =
     (let root = \<lparr>rt_schema = SPACE_SCHEMA, rt_space_id = sp_space_id sp, rt_epoch = sp_epoch sp,
            rt_root_hash = root_hash C sp, rt_node_count = word_of_nat (length (sp_nodes sp)),
            rt_issued_at = issued_at, rt_signer = sp_owner_pub sp, rt_signature = []\<rparr>;
          sig = sign (root_signing_bytes C root)
      in root\<lparr>rt_signature := cr_b64_encode C sig\<rparr>)"

fun position :: "('a \<Rightarrow> bool) \<Rightarrow> 'a list \<Rightarrow> nat option" where
  "position P [] = None"
| "position P (x # xs) = (if P x then Some 0 else map_option Suc (position P xs))"

definition prove :: "crates \<Rightarrow> space \<Rightarrow> string \<Rightarrow> space_inclusion_proof option" where
  "prove C sp i =
     (case position (\<lambda>n. sn_node_id n = i) (sorted_nodes sp) of
        None \<Rightarrow> None
      | Some idx \<Rightarrow>
          Some \<lparr>ip_schema = SPACE_SCHEMA, ip_node = sorted_nodes sp ! idx, ip_leaf_index = word_of_nat idx,
            ip_path = map (cr_hex_encode C) (audit_path (cr_sha256 C) idx (sorted_leaves C sp)),
            ip_epoch = sp_epoch sp\<rparr>)"

definition grant :: "crates \<Rightarrow> space \<Rightarrow> string \<Rightarrow> string \<Rightarrow> u64 \<Rightarrow> (bytes \<Rightarrow> bytes) \<Rightarrow> space_grant" where
  "grant C sp node_id grantee_pub expires_at sign =
     (let g = \<lparr>gr_schema = SPACE_SCHEMA, gr_node_id = node_id, gr_epoch = sp_epoch sp,
            gr_grantee_pub = grantee_pub, gr_expires_at = expires_at, gr_signature = []\<rparr>
      in g\<lparr>gr_signature := cr_b64_encode C (sign (grant_signing_bytes C g))\<rparr>)"

inductive space_reachable :: "space \<Rightarrow> bool" where
  server: "space_reachable (new_server C owner name)"
| upsert: "space_reachable sp \<Longrightarrow> space_reachable (snd (upsert_node n sp))"
| remove: "space_reachable sp \<Longrightarrow> space_reachable (snd (remove_node i sp))"

section \<open>The node list\<close>

lemma set_replace_node:
  "distinct (map sn_node_id ns) \<Longrightarrow>
     set (replace_node x ns) = insert x {n \<in> set ns. sn_node_id n \<noteq> sn_node_id x}"
  by (induction ns) (auto simp: image_iff)

lemma ids_replace_node:
  "distinct (map sn_node_id ns) \<Longrightarrow> distinct (map sn_node_id (replace_node x ns)) \<and>
     sn_node_id ` set (replace_node x ns) = insert (sn_node_id x) (sn_node_id ` set ns)"
  by (induction ns) auto

lemma reachable_distinct: "space_reachable sp \<Longrightarrow> distinct (map sn_node_id (sp_nodes sp))"
proof (induction rule: space_reachable.induct)
  case (remove sp i)
  then show ?case by (simp add: remove_node_def Let_def distinct_map_filter)
qed (simp_all add: new_server_def Let_def upsert_node_def ids_replace_node)

lemma position_Some: "position P xs = Some i \<Longrightarrow> i < length xs \<and> P (xs ! i)"
  by (induction xs arbitrary: i) (auto split: if_splits)

lemma position_None: "position P xs = None \<longleftrightarrow> (\<forall>x \<in> set xs. \<not> P x)"
  by (induction xs) auto

lemma collect_opts_hex:
  "crates_ok C \<Longrightarrow> \<forall>h \<in> set hs. length h = 32 \<Longrightarrow>
     collect_opts (map (decode_hash C) (map (cr_hex_encode C) hs)) = Some hs"
  by (induction hs) (auto simp: decode_hash_def crates_okD(2))

lemma collect_opts_widths:
  "collect_opts (map (decode_hash C) hs) = Some path \<Longrightarrow> \<forall>x \<in> set path. length x = 32"
proof (induction hs arbitrary: path)
  case (Cons h hs)
  then show ?case
    by (cases "decode_hash C h") (auto simp: decode_hash_def split: option.splits if_splits)
qed simp

lemma length_leaf_hash: "crates_ok C \<Longrightarrow> length (leaf_hash C n) = 32"
  by (simp add: leaf_hash_def crates_okD(1))

lemma hash32_crates: "crates_ok C \<Longrightarrow> hash32 (cr_sha256 C)"
  by (simp add: hash32_def crates_okD(1))

lemma length_sorted_leaves [simp]: "length (sorted_leaves C sp) = length (sp_nodes sp)"
  by (simp add: sorted_leaves_def sorted_nodes_def)

lemma sorted_leaves_widths: "crates_ok C \<Longrightarrow> \<forall>x \<in> set (sorted_leaves C sp). length x = 32"
  by (auto simp: sorted_leaves_def length_leaf_hash)

lemma set_sorted_nodes [simp]: "set (sorted_nodes sp) = set (sp_nodes sp)"
  by (simp add: sorted_nodes_def)

lemma audit_path_widths:
  "hash32 sha \<Longrightarrow> \<forall>x \<in> set leaves. length x = 32 \<Longrightarrow> \<forall>x \<in> set (audit_path sha m leaves). length x = 32"
proof (induction sha m leaves rule: audit_path.induct)
  case (1 sha m leaves)
  let ?k = "largest_pow2_below (length leaves)"
  have tk: "\<forall>x \<in> set (take ?k leaves). length x = 32" "\<forall>x \<in> set (drop ?k leaves). length x = 32"
    using 1(4) by (auto dest: in_set_takeD in_set_dropD)
  show ?case
  proof (cases "length leaves \<le> 1")
    case False
    then have n: "2 \<le> length leaves" by simp
    note m = length_merkle_root [OF 1(3) tk(1)] length_merkle_root [OF 1(3) tk(2)]
    show ?thesis
      using 1(1) [OF refl False refl _ 1(3) tk(1)] 1(2) [OF refl False refl _ 1(3) tk(2)] m
      by (auto simp: audit_path_split [OF n] Let_def)
  qed (simp add: audit_path_small)
qed

section \<open>Injective leaf inputs\<close>

lemma sorted_fields:
  "bt_of (node_fields n) [] =
    [(''inherit'', JBool (sn_inherit n)), (''invite_policy'', JStr (sn_invite_policy n)),
     (''key_commit'', JStr (sn_key_commit n)), (''kind'', JStr (sn_kind n)),
     (''name'', JStr (sn_name n)), (''node_id'', JStr (sn_node_id n)),
     (''node_type'', JStr (sn_node_type n)), (''owner_pub'', JStr (sn_owner_pub n)),
     (''parent_id'', JStr (sn_parent_id n))]"
  by (simp add: node_fields_def less_char_def)

lemma leaf_input_eq: "crates_ok C \<Longrightarrow> leaf_input C a = leaf_input C b \<longleftrightarrow> a = b"
  by (auto simp: leaf_input_def canonical_json_def sorted_fields dest!: crates_okD(4) [THEN injD])

section \<open>Completeness and soundness of proofs\<close>

lemma signed_root_sel [simp]:
  "rt_epoch (signed_root C sp t sign) = sp_epoch sp" "rt_root_hash (signed_root C sp t sign) = root_hash C sp"
  "rt_node_count (signed_root C sp t sign) = word_of_nat (length (sp_nodes sp))"
  "rt_space_id (signed_root C sp t sign) = sp_space_id sp" "rt_signer (signed_root C sp t sign) = sp_owner_pub sp"
  by (simp_all add: signed_root_def Let_def)

lemma signed_root_verifies:
  "crates_ok C \<Longrightarrow> signs_for C (sp_owner_pub sp) sign \<Longrightarrow> root_verify C (signed_root C sp t sign)"
  by (simp add: root_verify_def signed_root_def Let_def root_signing_bytes_def signed_by_sign)

lemma grant_verifies:
  "crates_ok C \<Longrightarrow> signs_for C owner sign \<Longrightarrow> grant_verify C (grant C sp i g e sign) owner"
  by (simp add: grant_verify_def grant_def Let_def grant_signing_bytes_def signed_by_sign)

lemma unat_u32: "n < 2 ^ 32 \<Longrightarrow> unat (word_of_nat n :: u32) = n"
  by (simp add: unat_of_nat)

lemma prove_verifies:
  assumes ok: "crates_ok C" and len: "length (sp_nodes sp) < 2 ^ 32" and p: "prove C sp i = Some p"
    and root: "rt_epoch root = sp_epoch sp" "rt_root_hash root = root_hash C sp"
      "rt_node_count root = word_of_nat (length (sp_nodes sp))"
  shows "verify_against C p root"
proof -
  let ?leaves = "sorted_leaves C sp" and ?sha = "cr_sha256 C"
  obtain idx where idx: "position (\<lambda>n. sn_node_id n = i) (sorted_nodes sp) = Some idx"
      "p = \<lparr>ip_schema = SPACE_SCHEMA, ip_node = sorted_nodes sp ! idx, ip_leaf_index = word_of_nat idx,
            ip_path = map (cr_hex_encode C) (audit_path ?sha idx ?leaves), ip_epoch = sp_epoch sp\<rparr>"
    using p by (auto simp: prove_def split: option.splits)
  have lt: "idx < length (sp_nodes sp)"
    using position_Some [OF idx(1)] by (simp add: sorted_nodes_def)
  have leaf: "leaf_hash C (sorted_nodes sp ! idx) = ?leaves ! idx"
    using lt by (simp add: sorted_leaves_def sorted_nodes_def)
  have path: "collect_opts (map (decode_hash C) (ip_path p)) = Some (audit_path ?sha idx ?leaves)"
    using collect_opts_hex [OF ok audit_path_widths [OF hash32_crates [OF ok] sorted_leaves_widths [OF ok]]]
    by (simp add: idx(2))
  have depth: "length (ip_path p) \<le> 32"
    using length_audit_path [of ?leaves 32] len by (simp add: idx(2))
  have fold: "root_from_audit ?sha (?leaves ! idx) idx (length (sp_nodes sp)) (audit_path ?sha idx ?leaves)
      = Some (merkle_root ?sha ?leaves)"
    using root_from_audit_path [of idx ?leaves ?sha] lt by simp
  have "unat (ip_leaf_index p) = idx" "unat (rt_node_count root) = length (sp_nodes sp)"
    "ip_node p = sorted_nodes sp ! idx" "ip_epoch p = sp_epoch sp"
    using lt len by (simp_all add: idx(2) root unat_u32)
  with path depth fold lt root show ?thesis
    by (simp add: verify_against_def MAX_PROOF_DEPTH_def Let_def leaf root_hash_def)
qed

text \<open>The two inputs a proof of a foreign node makes SHA-256 confuse.\<close>

definition space_collision :: "crates \<Rightarrow> space \<Rightarrow> space_inclusion_proof \<Rightarrow> bytes \<times> bytes" where
  "space_collision C sp p =
     (let m = unat (ip_leaf_index p); leaf = leaf_hash C (ip_node p) in
      if leaf = sorted_leaves C sp ! m then (leaf_input C (ip_node p), leaf_input C (sorted_nodes sp ! m))
      else tree_collision (cr_sha256 C) leaf m (sorted_leaves C sp)
             (the (collect_opts (map (decode_hash C) (ip_path p)))))"

lemma verify_against_folds:
  assumes "crates_ok C" "verify_against C p root" "rt_root_hash root = root_hash C sp"
    and "rt_node_count root = word_of_nat (length (sp_nodes sp))" "length (sp_nodes sp) < 2 ^ 32"
  obtains path where "collect_opts (map (decode_hash C) (ip_path p)) = Some path"
    "root_from_audit (cr_sha256 C) (leaf_hash C (ip_node p)) (unat (ip_leaf_index p)) (length (sorted_leaves C sp)) path
       = Some (merkle_root (cr_sha256 C) (sorted_leaves C sp))"
  using assms(2-5)
  by (auto simp: verify_against_def Let_def root_hash_def hex_encode_eq [OF assms(1)] unat_u32
      split: if_splits option.splits)

lemma verified_node_known:
  assumes ok: "crates_ok C" and v: "verify_against C p root" and r: "rt_root_hash root = root_hash C sp"
      "rt_node_count root = word_of_nat (length (sp_nodes sp))" "length (sp_nodes sp) < 2 ^ 32"
  shows "ip_node p \<in> set (sp_nodes sp) \<or> collides (cr_sha256 C) (space_collision C sp p)"
proof -
  let ?leaf = "leaf_hash C (ip_node p)" and ?m = "unat (ip_leaf_index p)"
  obtain path where path: "collect_opts (map (decode_hash C) (ip_path p)) = Some path"
      "root_from_audit (cr_sha256 C) ?leaf ?m (length (sorted_leaves C sp)) path
         = Some (merkle_root (cr_sha256 C) (sorted_leaves C sp))"
    by (rule verify_against_folds [OF ok v r])
  have m: "?m < length (sp_nodes sp)" and
    *: "?leaf = sorted_leaves C sp ! ?m \<or> collides (cr_sha256 C) (tree_collision (cr_sha256 C) ?leaf ?m (sorted_leaves C sp) path)"
    using root_from_audit_sound [OF hash32_crates [OF ok] sorted_leaves_widths [OF ok]
        collect_opts_widths [OF path(1)] length_leaf_hash [OF ok] path(2)] by simp_all
  show ?thesis
  proof (cases "?leaf = sorted_leaves C sp ! ?m")
    case True
    have node: "sorted_nodes sp ! ?m \<in> set (sp_nodes sp)" and
      eq: "sorted_leaves C sp ! ?m = leaf_hash C (sorted_nodes sp ! ?m)"
      using m nth_mem [of ?m "sorted_nodes sp"] by (simp_all add: sorted_leaves_def sorted_nodes_def)
    show ?thesis
    proof (cases "leaf_input C (ip_node p) = leaf_input C (sorted_nodes sp ! ?m)")
      case True
      with node show ?thesis by (simp add: leaf_input_eq [OF ok])
    next
      case False
      with True eq show ?thesis by (simp add: space_collision_def collides_def leaf_hash_def)
    qed
  next
    case False
    with * path(1) show ?thesis by (simp add: space_collision_def Let_def)
  qed
qed

lemma prove_None: "prove C sp i = None \<longleftrightarrow> i \<notin> sn_node_id ` set (sp_nodes sp)"
  using position_None [of "\<lambda>x. sn_node_id x = i" "sorted_nodes sp"]
  by (auto simp: prove_def split: option.splits)

lemma removed_iff: "fst (remove_node i sp) \<longleftrightarrow> i \<in> sn_node_id ` set (sp_nodes sp)"
proof -
  have "length (filter (\<lambda>n. sn_node_id n \<noteq> i) (sp_nodes sp)) + length (filter (\<lambda>n. sn_node_id n = i) (sp_nodes sp))
      = length (sp_nodes sp)"
    using sum_length_filter_compl [of "\<lambda>n. sn_node_id n \<noteq> i" "sp_nodes sp"] by simp
  then have "fst (remove_node i sp) \<longleftrightarrow> filter (\<lambda>n. sn_node_id n = i) (sp_nodes sp) \<noteq> []"
    by (auto simp: remove_node_def Let_def)
  then show ?thesis by (auto simp: filter_empty_conv)
qed

lemma prove_same_node:
  assumes "space_reachable sp" "n \<in> set (sp_nodes sp)"
  obtains p where "prove C sp (sn_node_id n) = Some p" "ip_node p = n"
proof -
  obtain p where p: "prove C sp (sn_node_id n) = Some p"
    using assms(2) prove_None [of C sp "sn_node_id n"] by auto
  then obtain idx where idx: "position (\<lambda>x. sn_node_id x = sn_node_id n) (sorted_nodes sp) = Some idx"
      "ip_node p = sorted_nodes sp ! idx"
    by (auto simp: prove_def split: option.splits)
  have "sorted_nodes sp ! idx \<in> set (sp_nodes sp)" "sn_node_id (sorted_nodes sp ! idx) = sn_node_id n"
    using position_Some [OF idx(1)] nth_mem [of idx "sorted_nodes sp"] by simp_all
  then have "ip_node p = n"
    using reachable_distinct [OF assms(1)] assms(2) idx(2) by (auto simp: distinct_map dest: inj_onD)
  with p that show thesis by blast
qed

section \<open>Properties\<close>

text \<open>
  C32. Every node of a space that was built by the owner's operations is provable: the proof is for
  exactly that node, respects the verifier's depth bound, and verifies against the signed root of
  the current epoch, whose signature verifies as well. Only nodes of the space have proofs.
\<close>

theorem space_proof_complete:
  assumes "crates_ok C" "space_reachable sp" "length (sp_nodes sp) < 2 ^ 32"
    and "signs_for C (sp_owner_pub sp) sign" "n \<in> set (sp_nodes sp)"
  shows "root_verify C (signed_root C sp t sign) \<and>
    (\<exists>p. prove C sp (sn_node_id n) = Some p \<and> ip_node p = n \<and> length (ip_path p) \<le> MAX_PROOF_DEPTH \<and>
         verify_against C p (signed_root C sp t sign)) \<and>
    (prove C sp i = None \<longleftrightarrow> i \<notin> sn_node_id ` set (sp_nodes sp))"
proof (intro conjI)
  show "root_verify C (signed_root C sp t sign)" by (rule signed_root_verifies [OF assms(1,4)])
  obtain p where p: "prove C sp (sn_node_id n) = Some p" "ip_node p = n"
    by (rule prove_same_node [OF assms(2,5)])
  have v: "verify_against C p (signed_root C sp t sign)"
    by (rule prove_verifies [OF assms(1,3) p(1)]) simp_all
  have "length (ip_path p) \<le> MAX_PROOF_DEPTH"
    using v by (auto simp: verify_against_def split: if_splits)
  then show "\<exists>p. prove C sp (sn_node_id n) = Some p \<and> ip_node p = n \<and> length (ip_path p) \<le> MAX_PROOF_DEPTH \<and>
      verify_against C p (signed_root C sp t sign)" using p v by blast
  show "prove C sp i = None \<longleftrightarrow> i \<notin> sn_node_id ` set (sp_nodes sp)" by (rule prove_None)
qed

theorem space_proof_complete_witness:
  "let C = plain_crates; sp = new_server C plain_signer ''srv''; sign = (\<lambda>m. replicate 64 0) in
   root_verify C (signed_root C sp 7 sign) \<and>
   (\<exists>p. prove C sp (sp_space_id sp) = Some p \<and> verify_against C p (signed_root C sp 7 sign)) \<and>
   prove C sp ''nowhere'' = None"
proof -
  let ?sp = "new_server plain_crates plain_signer ''srv''" and ?sign = "\<lambda>m. replicate 64 0 :: bytes"
  obtain n where n: "sp_nodes ?sp = [n]" "sn_node_id n = sp_space_id ?sp" "sp_owner_pub ?sp = plain_signer"
    by (simp add: new_server_def Let_def)
  have "take 16 (sha256_hex plain_crates (as_bytes ([] @ '':'' @ plain_signer @ '':'' @ ''srv''))) \<noteq> ''nowhere''"
  proof
    assume "take 16 (sha256_hex plain_crates (as_bytes ([] @ '':'' @ plain_signer @ '':'' @ ''srv''))) = ''nowhere''"
    then have "length (take 16 (sha256_hex plain_crates (as_bytes ([] @ '':'' @ plain_signer @ '':'' @ ''srv'')))) = 7"
      by simp
    then show False by (simp add: sha256_hex_def plain_signer_def string_of_bytes_def)
  qed
  then have "''nowhere'' \<noteq> sp_space_id ?sp" by (simp add: new_server_def Let_def derive_node_id_def)
  then show ?thesis
    using space_proof_complete [of plain_crates ?sp ?sign n 7 "''nowhere''"] plain_crates_ok
      space_reachable.server plain_signs_for n by (auto simp: Let_def)
qed

text \<open>
  C15. A proof that verifies against a root with the hash and the node count of a space is a proof
  of a node of that space, unless it exhibits two different inputs with the same SHA-256 digest;
  the two inputs are computed from the proof. Roots of two spaces with the same hash and count
  therefore commit to the same nodes, up to such a collision.
\<close>

theorem space_proof_sound:
  assumes "crates_ok C" "verify_against C p root" "length (sp_nodes sp) < 2 ^ 32"
    and "rt_root_hash root = root_hash C sp" "rt_node_count root = word_of_nat (length (sp_nodes sp))"
  shows "(ip_node p \<in> set (sp_nodes sp) \<or> collides (cr_sha256 C) (space_collision C sp p)) \<and>
    (space_reachable sp' \<and> root_hash C sp' = root_hash C sp \<and> length (sp_nodes sp') = length (sp_nodes sp) \<longrightarrow>
       set (sp_nodes sp') \<subseteq> set (sp_nodes sp) \<or>
       (\<exists>n \<in> set (sp_nodes sp'). collides (cr_sha256 C) (space_collision C sp (the (prove C sp' (sn_node_id n))))))"
proof (intro conjI impI)
  show "ip_node p \<in> set (sp_nodes sp) \<or> collides (cr_sha256 C) (space_collision C sp p)"
    by (rule verified_node_known [OF assms(1,2,4,5,3)])
  assume a: "space_reachable sp' \<and> root_hash C sp' = root_hash C sp \<and> length (sp_nodes sp') = length (sp_nodes sp)"
  have "n \<in> set (sp_nodes sp) \<or> collides (cr_sha256 C) (space_collision C sp (the (prove C sp' (sn_node_id n))))"
    if n: "n \<in> set (sp_nodes sp')" for n
  proof -
    obtain q where q: "prove C sp' (sn_node_id n) = Some q" "ip_node q = n"
      using a n by (auto intro: prove_same_node)
    have "verify_against C q (signed_root C sp' 0 (\<lambda>m. []))"
      by (rule prove_verifies [OF assms(1) _ q(1)]) (use a assms(3) in simp_all)
    from verified_node_known [OF assms(1) this _ _ assms(3)] a q show ?thesis by simp
  qed
  then show "set (sp_nodes sp') \<subseteq> set (sp_nodes sp) \<or>
       (\<exists>n \<in> set (sp_nodes sp'). collides (cr_sha256 C) (space_collision C sp (the (prove C sp' (sn_node_id n)))))"
    by blast
qed

theorem space_proof_sound_witness:
  "let C = plain_crates; sp = new_server C plain_signer ''srv'';
       p = the (prove C sp (sp_space_id sp)) in
   ip_node p \<in> set (sp_nodes sp) \<or> collides (cr_sha256 C) (space_collision C sp p)"
proof -
  let ?sp = "new_server plain_crates plain_signer ''srv''"
  obtain p where p: "prove plain_crates ?sp (sp_space_id ?sp) = Some p"
    using prove_None [of plain_crates ?sp "sp_space_id ?sp"] by (auto simp: new_server_def Let_def)
  have len: "length (sp_nodes ?sp) < 2 ^ 32" by (simp add: new_server_def Let_def)
  have "verify_against plain_crates p (signed_root plain_crates ?sp 0 (\<lambda>m. []))"
    by (rule prove_verifies [OF plain_crates_ok len p]) simp_all
  from space_proof_sound [OF plain_crates_ok this len] p show ?thesis by simp
qed

text \<open>
  Revocation by exclusion: adding, changing or removing a node starts a new epoch, no proof of
  the old epoch verifies against a root of the new one, and after a removal the node cannot be
  proven any more while every other node still can.
\<close>

lemma space_epoch_revokes:
  assumes "space_reachable sp" "prove C sp i = Some p"
  shows "\<not> verify_against C p (signed_root C (snd (upsert_node n sp)) t sign) \<and>
    (fst (remove_node j sp) \<longleftrightarrow> prove C sp j \<noteq> None) \<and>
    (prove C sp j \<noteq> None \<longrightarrow> \<not> verify_against C p (signed_root C (snd (remove_node j sp)) t sign)) \<and>
    prove C (snd (remove_node j sp)) j = None \<and>
    (i \<noteq> j \<longrightarrow> prove C (snd (remove_node j sp)) i \<noteq> None)"
proof (intro conjI impI)
  have e: "ip_epoch p = sp_epoch sp" using assms(2) by (auto simp: prove_def split: option.splits)
  have rm: "fst (remove_node k sp) \<longleftrightarrow> prove C sp k \<noteq> None" for k
    by (simp add: removed_iff prove_None)
  show "\<not> verify_against C p (signed_root C (snd (upsert_node n sp)) t sign)"
    by (simp add: verify_against_def upsert_node_def e)
  show "fst (remove_node j sp) \<longleftrightarrow> prove C sp j \<noteq> None" by (rule rm)
  show "\<not> verify_against C p (signed_root C (snd (remove_node j sp)) t sign)" if "prove C sp j \<noteq> None"
  proof -
    have "sp_epoch (snd (remove_node j sp)) = sp_epoch sp + 1"
      using that rm [of j] by (simp add: remove_node_def Let_def)
    then show ?thesis by (simp add: verify_against_def e)
  qed
  show "prove C (snd (remove_node j sp)) j = None" by (auto simp: prove_None remove_node_def Let_def)
  show "prove C (snd (remove_node j sp)) i \<noteq> None" if "i \<noteq> j"
    using that assms(2) prove_None [of C sp i] prove_None [of C "snd (remove_node j sp)" i]
    by (auto simp: remove_node_def Let_def)
qed

lemma space_epoch_revokes_witness:
  "let C = plain_crates; sp = new_server C plain_signer ''srv'' in
   prove C sp (sp_space_id sp) \<noteq> None \<and> prove C (snd (remove_node (sp_space_id sp) sp)) (sp_space_id sp) = None"
proof -
  let ?sp = "new_server plain_crates plain_signer ''srv''"
  obtain p where p: "prove plain_crates ?sp (sp_space_id ?sp) = Some p"
    using prove_None [of plain_crates ?sp "sp_space_id ?sp"] by (auto simp: new_server_def Let_def)
  from space_epoch_revokes [OF space_reachable.server p] p show ?thesis by (simp add: Let_def)
qed

end
