(* ===== verification/Sfu_Room.thy ===== *)
theory Sfu_Room
  imports Public_Id Complex_Main
begin

text \<open>
  One SFU room, the \<open>SFURoom\<close> of \<open>conquerd-supernode/src/sfu.rs\<close>: membership, invite tokens and the
  active-speaker gate. Wall-clock seconds and activity scores are \<open>f64\<close> and real numbers here;
  \<open>0.5f64.powf(x)\<close> is \<open>(1/2) powr x\<close>. \<open>SystemTime::now()\<close> is the argument \<open>now\<close>, a fresh nonce is
  an argument, and member lists, whose order is a hash map's, are sets.
\<close>

section \<open>State\<close>

definition MAX_ROOM_SIZE :: nat where "MAX_ROOM_SIZE = 32"
definition DEFAULT_ROOM_ID :: room_id where "DEFAULT_ROOM_ID = ''default''"
definition DEFAULT_ROOM_NAME :: string where "DEFAULT_ROOM_NAME = ''Public Voice/Chat Room''"
definition IDLE_ROOM_GC_SECS :: real where "IDLE_ROOM_GC_SECS = 900"
definition MAX_ACTIVE_SPEAKERS :: nat where "MAX_ACTIVE_SPEAKERS = 5"
definition SPEAKER_SCORE_HALF_LIFE_SECS :: real where "SPEAKER_SCORE_HALF_LIFE_SECS = 2"
definition SPEAKER_SILENCE_SECS :: real where "SPEAKER_SILENCE_SECS = 6 / 10"

datatype room_type = Public | Private

definition normalize_invite_policy :: "string \<Rightarrow> string" where
  "normalize_invite_policy policy = (if policy = ''members'' then ''members'' else ''owner'')"

record speaker_score =
  ss_score :: real
  ss_last_active :: real

definition effective :: "speaker_score \<Rightarrow> real \<Rightarrow> real" where
  "effective s now =
     (let dt = max (now - ss_last_active s) 0
      in ss_score s * (1 / 2) powr (dt / SPEAKER_SCORE_HALF_LIFE_SECS))"

record invite_token =
  it_created_by :: string
  it_uses :: nat
  it_max_uses :: nat

record sfu_room =
  sr_room_id :: room_id
  sr_room_name :: string
  sr_room_type :: room_type
  sr_creator_id :: peer_id
  sr_invite_policy :: string
  sr_participants :: "peer_id \<rightharpoonup> u8"
  sr_speaker_scores :: "peer_id \<rightharpoonup> speaker_score"
  sr_active_speakers :: "peer_id list"
  sr_subscribers :: "peer_id set"
  sr_allowed :: "peer_id set"
  sr_invite_tokens :: "string \<rightharpoonup> invite_token"
  sr_empty_since :: "real option"
  sr_next_index :: u8

definition normalize_peer_id :: "peer_id \<Rightarrow> peer_id" where
  "normalize_peer_id p = normalize_public_id p"

definition new_room :: "room_id \<Rightarrow> string \<Rightarrow> room_type \<Rightarrow> peer_id \<Rightarrow> sfu_room" where
  "new_room i nm ty creator =
     \<lparr>sr_room_id = i, sr_room_name = nm, sr_room_type = ty,
      sr_creator_id = normalize_peer_id creator, sr_invite_policy = ''owner'',
      sr_participants = Map.empty, sr_speaker_scores = Map.empty, sr_active_speakers = [],
      sr_subscribers = {}, sr_allowed = {}, sr_invite_tokens = Map.empty,
      sr_empty_since = None, sr_next_index = 1\<rparr>"

section \<open>Membership\<close>

definition is_unused :: "sfu_room \<Rightarrow> bool" where
  "is_unused r \<longleftrightarrow> sr_participants r = Map.empty \<and> sr_subscribers r = {}"

definition mark_in_use :: "sfu_room \<Rightarrow> sfu_room" where
  "mark_in_use r = r\<lparr>sr_empty_since := None\<rparr>"

definition mark_unused_if_empty :: "real \<Rightarrow> sfu_room \<Rightarrow> sfu_room" where
  "mark_unused_if_empty now r =
     (if is_unused r then
        (case sr_empty_since r of None \<Rightarrow> r\<lparr>sr_empty_since := Some now\<rparr> | Some _ \<Rightarrow> r)
      else r)"

definition is_public :: "sfu_room \<Rightarrow> bool" where
  "is_public r \<longleftrightarrow> sr_room_type r = Public"

definition is_peer_allowed :: "sfu_room \<Rightarrow> peer_id \<Rightarrow> bool" where
  "is_peer_allowed r p =
     (let p = normalize_peer_id p in
      is_public r \<or> p \<in> sr_allowed r \<or> sr_creator_id r = p \<or> sr_participants r p \<noteq> None)"

definition is_invite_eligible_member :: "sfu_room \<Rightarrow> peer_id \<Rightarrow> bool" where
  "is_invite_eligible_member r p =
     (let p = normalize_peer_id p in
      sr_creator_id r = p \<or> p \<in> sr_allowed r \<or> sr_participants r p \<noteq> None \<or> p \<in> sr_subscribers r)"

definition allow_room_peer :: "peer_id \<Rightarrow> sfu_room \<Rightarrow> sfu_room" where
  "allow_room_peer p r = r\<lparr>sr_allowed := insert (normalize_peer_id p) (sr_allowed r)\<rparr>"

definition participant_count :: "sfu_room \<Rightarrow> nat" where
  "participant_count r = msize (sr_participants r)"

definition is_full :: "sfu_room \<Rightarrow> bool" where
  "is_full r \<longleftrightarrow> msize (sr_participants r) \<ge> MAX_ROOM_SIZE"

definition participant_ids :: "sfu_room \<Rightarrow> peer_id set" where
  "participant_ids r = dom (sr_participants r)"

definition add_participant :: "peer_id \<Rightarrow> sfu_room \<Rightarrow> bool \<times> sfu_room" where
  "add_participant p0 r =
     (let p = normalize_peer_id p0 in
      if sr_participants r p \<noteq> None then (True, r)
      else if is_full r then (False, r)
      else let idx = sr_next_index r;
               r1 = r\<lparr>sr_next_index := max (sr_next_index r + 1) 1,
                      sr_participants := (sr_participants r)(p \<mapsto> idx),
                      sr_subscribers := sr_subscribers r - {p}\<rparr>
           in (True, mark_in_use r1))"

definition remove_participant :: "real \<Rightarrow> peer_id \<Rightarrow> sfu_room \<Rightarrow> bool \<times> sfu_room" where
  "remove_participant now p0 r =
     (let p = normalize_peer_id p0 in
      if sr_participants r p = None then (False, r)
      else let r1 = mark_unused_if_empty now (r\<lparr>sr_participants := (sr_participants r)(p := None)\<rparr>)
           in (True, r1\<lparr>sr_speaker_scores := (sr_speaker_scores r1)(p := None),
                       sr_active_speakers := filter (\<lambda>q. q \<noteq> p) (sr_active_speakers r1)\<rparr>))"

definition room_subscribe :: "peer_id \<Rightarrow> sfu_room \<Rightarrow> sfu_room" where
  "room_subscribe p0 r =
     (let p = normalize_peer_id p0 in
      if sr_participants r p = None
      then mark_in_use (r\<lparr>sr_subscribers := insert p (sr_subscribers r)\<rparr>)
      else r)"

definition room_unsubscribe :: "real \<Rightarrow> peer_id \<Rightarrow> sfu_room \<Rightarrow> sfu_room" where
  "room_unsubscribe now p0 r =
     (let p = normalize_peer_id p0 in
      if p \<in> sr_subscribers r
      then mark_unused_if_empty now (r\<lparr>sr_subscribers := sr_subscribers r - {p}\<rparr>)
      else r)"

definition remove_peer_entirely :: "real \<Rightarrow> peer_id \<Rightarrow> sfu_room \<Rightarrow> bool \<times> sfu_room" where
  "remove_peer_entirely now p0 r =
     (let p = normalize_peer_id p0;
          was_participant = (sr_participants r p \<noteq> None);
          was_subscriber = (p \<in> sr_subscribers r);
          r1 = r\<lparr>sr_participants := (sr_participants r)(p := None),
                 sr_subscribers := sr_subscribers r - {p}\<rparr>;
          r2 = (if was_participant
                then r1\<lparr>sr_speaker_scores := (sr_speaker_scores r1)(p := None),
                        sr_active_speakers := filter (\<lambda>q. q \<noteq> p) (sr_active_speakers r1)\<rparr>
                else r1);
          r3 = (if was_participant \<or> was_subscriber then mark_unused_if_empty now r2 else r2)
      in (was_participant \<or> was_subscriber, r3))"

definition chat_recipient_ids :: "sfu_room \<Rightarrow> peer_id set" where
  "chat_recipient_ids r = dom (sr_participants r) \<union> sr_subscribers r"

section \<open>Active speakers\<close>

definition bump_speaker :: "peer_id \<Rightarrow> real \<Rightarrow> sfu_room \<Rightarrow> sfu_room" where
  "bump_speaker sender now r =
     (let e = (case sr_speaker_scores r sender of
                 Some e \<Rightarrow> e | None \<Rightarrow> \<lparr>ss_score = 0, ss_last_active = now\<rparr>);
          dt = max (now - ss_last_active e) 0;
          e' = \<lparr>ss_score = ss_score e * (1 / 2) powr (dt / SPEAKER_SCORE_HALF_LIFE_SECS) + 1,
                ss_last_active = now\<rparr>
      in r\<lparr>sr_speaker_scores := (sr_speaker_scores r)(sender \<mapsto> e')\<rparr>)"

definition drop_silent :: "real \<Rightarrow> sfu_room \<Rightarrow> sfu_room" where
  "drop_silent now r =
     (let scores = retain (\<lambda>_ s. now - ss_last_active s \<le> SPEAKER_SILENCE_SECS) (sr_speaker_scores r)
      in r\<lparr>sr_speaker_scores := scores,
           sr_active_speakers := filter (\<lambda>i. scores i \<noteq> None) (sr_active_speakers r)\<rparr>)"

definition eff_of :: "sfu_room \<Rightarrow> real \<Rightarrow> peer_id \<Rightarrow> real" where
  "eff_of r now i = (case sr_speaker_scores r i of Some s \<Rightarrow> effective s now | None \<Rightarrow> 0)"

text \<open>
  The search for the weakest active speaker; \<open>None\<close> is the initial \<open>f64::MAX\<close>, above every score.
\<close>

fun weakest_from :: "(peer_id \<Rightarrow> real) \<Rightarrow> nat \<Rightarrow> peer_id list \<Rightarrow> nat \<times> real option \<Rightarrow> nat \<times> real option" where
  "weakest_from eff i [] w = w"
| "weakest_from eff i (x # xs) (wi, we) =
     weakest_from eff (Suc i) xs
       (if (case we of None \<Rightarrow> True | Some e \<Rightarrow> eff x < e) then (i, Some (eff x)) else (wi, we))"

definition note_audio_should_forward :: "peer_id \<Rightarrow> real \<Rightarrow> sfu_room \<Rightarrow> bool \<times> sfu_room" where
  "note_audio_should_forward sender now r0 =
     (let r = drop_silent now (bump_speaker sender now r0) in
      if sender \<in> set (sr_active_speakers r) then (True, r)
      else if length (sr_active_speakers r) < MAX_ACTIVE_SPEAKERS
      then (True, r\<lparr>sr_active_speakers := sr_active_speakers r @ [sender]\<rparr>)
      else let sender_eff = eff_of r now sender;
               (wi, we) = weakest_from (eff_of r now) 0 (sr_active_speakers r) (0, None)
           in if (case we of None \<Rightarrow> False | Some e \<Rightarrow> sender_eff > e)
              then (True, r\<lparr>sr_active_speakers := (sr_active_speakers r)[wi := sender]\<rparr>)
              else (False, r))"

section \<open>Invite tokens\<close>

definition generate_invite_token :: "string \<Rightarrow> string \<Rightarrow> nat \<Rightarrow> sfu_room \<Rightarrow> sfu_room" where
  "generate_invite_token token created_by max_uses r =
     r\<lparr>sr_invite_tokens := (sr_invite_tokens r)(token \<mapsto>
        \<lparr>it_created_by = created_by, it_uses = 0, it_max_uses = max_uses\<rparr>)\<rparr>"

definition reregister_invite_token :: "string \<Rightarrow> string \<Rightarrow> sfu_room \<Rightarrow> bool \<times> sfu_room" where
  "reregister_invite_token token created_by r =
     (if token = [] then (False, r)
      else (True, r\<lparr>sr_invite_tokens := (sr_invite_tokens r)(token \<mapsto>
              \<lparr>it_created_by = created_by, it_uses = 0, it_max_uses = 0\<rparr>)\<rparr>))"

definition validate_and_consume_token :: "string \<Rightarrow> peer_id \<Rightarrow> sfu_room \<Rightarrow> bool \<times> sfu_room" where
  "validate_and_consume_token token p r =
     (case sr_invite_tokens r token of
        None \<Rightarrow> (False, r)
      | Some it \<Rightarrow>
          if it_max_uses it > 0 \<and> it_uses it \<ge> it_max_uses it then (False, r)
          else let it' = (if it_max_uses it > 0 then it\<lparr>it_uses := it_uses it + 1\<rparr> else it);
                   r1 = r\<lparr>sr_invite_tokens := (sr_invite_tokens r)(token \<mapsto> it'),
                          sr_allowed := insert (normalize_peer_id p) (sr_allowed r)\<rparr>
               in (True, if it_max_uses it' > 0 \<and> it_uses it' \<ge> it_max_uses it'
                         then r1\<lparr>sr_invite_tokens := (sr_invite_tokens r1)(token := None)\<rparr>
                         else r1))"

section \<open>Room invariant\<close>

definition room_ok :: "sfu_room \<Rightarrow> bool" where
  "room_ok r \<longleftrightarrow>
     finite (dom (sr_participants r)) \<and> msize (sr_participants r) \<le> 32 \<and>
     dom (sr_participants r) \<inter> sr_subscribers r = {} \<and>
     (\<forall>p \<in> dom (sr_participants r) \<union> sr_subscribers r \<union> sr_allowed r. normalize_peer_id p = p) \<and>
     distinct (sr_active_speakers r) \<and> length (sr_active_speakers r) \<le> 5 \<and>
     finite (dom (sr_speaker_scores r)) \<and>
     (sr_empty_since r \<noteq> None \<longrightarrow> is_unused r)"

lemma normalize_peer_id_idem [simp]: "normalize_peer_id (normalize_peer_id p) = normalize_peer_id p"
  by (simp add: normalize_peer_id_def)

lemma room_ok_new [simp]: "room_ok (new_room i nm ty c)"
  by (simp add: room_ok_def new_room_def)

lemma mark_unused_fields [simp]:
  "sr_participants (mark_unused_if_empty now r) = sr_participants r"
  "sr_subscribers (mark_unused_if_empty now r) = sr_subscribers r"
  "sr_allowed (mark_unused_if_empty now r) = sr_allowed r"
  "sr_active_speakers (mark_unused_if_empty now r) = sr_active_speakers r"
  "sr_speaker_scores (mark_unused_if_empty now r) = sr_speaker_scores r"
  "sr_creator_id (mark_unused_if_empty now r) = sr_creator_id r"
  "sr_room_type (mark_unused_if_empty now r) = sr_room_type r"
  "sr_room_id (mark_unused_if_empty now r) = sr_room_id r"
  "sr_invite_tokens (mark_unused_if_empty now r) = sr_invite_tokens r"
  "is_unused (mark_unused_if_empty now r) = is_unused r"
  "sr_empty_since (mark_unused_if_empty now r) =
     (if is_unused r \<and> sr_empty_since r = None then Some now else sr_empty_since r)"
  by (auto simp: mark_unused_if_empty_def is_unused_def split: option.splits)

lemma room_ok_mark_unused: "room_ok r \<Longrightarrow> room_ok (mark_unused_if_empty now r)"
  by (auto simp: room_ok_def)

lemma room_ok_allow: "room_ok r \<Longrightarrow> room_ok (allow_room_peer p r)"
  by (auto simp: room_ok_def allow_room_peer_def is_unused_def)

lemma room_ok_add: "room_ok r \<Longrightarrow> room_ok (snd (add_participant p r))"
  by (auto simp: room_ok_def add_participant_def Let_def mark_in_use_def is_full_def MAX_ROOM_SIZE_def msize_upd)

lemma room_ok_in_use:
  "room_ok r \<Longrightarrow> sr_participants r p \<noteq> None \<or> p \<in> sr_subscribers r \<Longrightarrow> sr_empty_since r = None"
  by (auto simp: room_ok_def is_unused_def)

text \<open>Every removal only shrinks the membership, the speakers and the scores of a room.\<close>

lemma room_ok_shrink:
  assumes "room_ok r" "dom (sr_participants r') \<subseteq> dom (sr_participants r)"
    and "sr_subscribers r' \<subseteq> sr_subscribers r" "sr_allowed r' = sr_allowed r"
    and "\<exists>P. sr_active_speakers r' = filter P (sr_active_speakers r)"
    and "finite (dom (sr_speaker_scores r'))"
    and "sr_empty_since r' \<noteq> None \<longrightarrow> is_unused r'"
  shows "room_ok r'"
proof -
  have f: "finite (dom (sr_participants r'))" using assms(1,2) finite_subset by (auto simp: room_ok_def)
  have "card (dom (sr_participants r')) \<le> card (dom (sr_participants r))"
    using assms(1,2) by (intro card_mono) (simp_all add: room_ok_def)
  moreover obtain P where "sr_active_speakers r' = filter P (sr_active_speakers r)" using assms(5) by blast
  moreover have "dom (sr_participants r) \<inter> sr_subscribers r = {}"
    and n: "\<forall>p \<in> dom (sr_participants r) \<union> sr_subscribers r \<union> sr_allowed r. normalize_peer_id p = p"
    using assms(1) by (simp_all add: room_ok_def)
  then have "dom (sr_participants r') \<inter> sr_subscribers r' = {}" using assms(2,3) by blast
  moreover have "\<forall>p \<in> dom (sr_participants r') \<union> sr_subscribers r' \<union> sr_allowed r'. normalize_peer_id p = p"
    using n assms(2-4) by blast
  ultimately show ?thesis
    using assms(1,6,7) f unfolding room_ok_def msize_def by (simp add: length_filter_bound)
qed

lemma room_ok_remove_participant:
  assumes "room_ok r" shows "room_ok (snd (remove_participant now p r))"
proof (cases "sr_participants r (normalize_peer_id p) = None")
  case False
  then have "sr_empty_since r = None" using room_ok_in_use [OF assms] by blast
  moreover have "finite (dom (sr_speaker_scores r))" using assms by (simp add: room_ok_def)
  ultimately show ?thesis
    by (intro room_ok_shrink [OF assms]) (use False in \<open>auto simp: remove_participant_def Let_def is_unused_def\<close>)
qed (use assms in \<open>simp add: remove_participant_def\<close>)

lemma room_ok_subscribe: "room_ok r \<Longrightarrow> room_ok (room_subscribe p r)"
  by (auto simp: room_ok_def room_subscribe_def Let_def mark_in_use_def)

lemma room_ok_unsubscribe:
  assumes "room_ok r" shows "room_ok (room_unsubscribe now p r)"
proof (cases "normalize_peer_id p \<in> sr_subscribers r")
  case True
  then have "sr_empty_since r = None" using room_ok_in_use [OF assms] by blast
  moreover have "finite (dom (sr_speaker_scores r))" using assms by (simp add: room_ok_def)
  ultimately show ?thesis
    by (intro room_ok_shrink [OF assms]) 
      (use True in \<open>auto simp: room_unsubscribe_def Let_def intro: exI [of _ "\<lambda>_. True"]\<close>)
qed (use assms in \<open>simp add: room_unsubscribe_def\<close>)

lemma room_ok_remove_entirely:
  assumes "room_ok r" shows "room_ok (snd (remove_peer_entirely now p r))"
proof -
  let ?p = "normalize_peer_id p"
  have e: "sr_empty_since r = None" if "sr_participants r ?p \<noteq> None \<or> ?p \<in> sr_subscribers r"
    using room_ok_in_use [OF assms that] .
  have a: "\<exists>P. sr_active_speakers (snd (remove_peer_entirely now p r)) = filter P (sr_active_speakers r)"
    by (cases "sr_participants r ?p = None")
       (auto simp: remove_peer_entirely_def Let_def intro: exI [of _ "\<lambda>_. True"])
  have u: "sr_participants r ?p = None \<and> ?p \<notin> sr_subscribers r \<Longrightarrow>
      snd (remove_peer_entirely now p r) = r"
    by (cases r) (auto simp: remove_peer_entirely_def Let_def fun_upd_idem)
  have f: "finite (dom (sr_speaker_scores r))" using assms by (simp add: room_ok_def)
  show ?thesis
  proof (cases "sr_participants r ?p = None \<and> ?p \<notin> sr_subscribers r")
    case False
    then show ?thesis
      using e f by (intro room_ok_shrink [OF assms _ _ _ a])
        (auto simp: remove_peer_entirely_def Let_def is_unused_def)
  qed (use u assms in simp)
qed

lemma room_ok_token: "room_ok r \<Longrightarrow> room_ok (snd (validate_and_consume_token t p r))"
  by (auto simp: room_ok_def validate_and_consume_token_def Let_def is_unused_def split: option.splits)

section \<open>The active-speaker gate\<close>

lemma weakest_from_Some:
  assumes "weakest_from eff i xs (w0, Some e0) = (w, we)"
  shows "\<exists>e. we = Some e \<and> e \<le> e0 \<and> (\<forall>x \<in> set xs. e \<le> eff x) \<and>
    ((w, e) = (w0, e0) \<or> i \<le> w \<and> w < i + length xs \<and> e = eff (xs ! (w - i)))"
  using assms
proof (induction xs arbitrary: i w0 e0)
  case (Cons x xs)
  define w1 where "w1 = (if eff x < e0 then i else w0)"
  define e1 where "e1 = (if eff x < e0 then eff x else e0)"
  have "weakest_from eff (Suc i) xs (w1, Some e1) = (w, we)"
    using Cons.prems by (simp add: w1_def e1_def split: if_splits)
  from Cons.IH [OF this] obtain e where e: "we = Some e" "e \<le> e1" "\<forall>x \<in> set xs. e \<le> eff x"
      "(w, e) = (w1, e1) \<or> Suc i \<le> w \<and> w < Suc i + length xs \<and> e = eff (xs ! (w - Suc i))" by blast
  have e1: "e1 \<le> e0" "e1 \<le> eff x" by (simp_all add: e1_def)
  have "(w, e) = (w0, e0) \<or> i \<le> w \<and> w < i + length (x # xs) \<and> e = eff ((x # xs) ! (w - i))"
    using e(4)
  proof
    assume "(w, e) = (w1, e1)"
    then show ?thesis by (auto simp: w1_def e1_def)
  next
    assume a: "Suc i \<le> w \<and> w < Suc i + length xs \<and> e = eff (xs ! (w - Suc i))"
    then have "w - i = Suc (w - Suc i)" by linarith
    with a show ?thesis by simp
  qed
  moreover have "\<forall>y \<in> set (x # xs). e \<le> eff y" using e(2,3) e1(2) by auto
  moreover have "e \<le> e0" using e(2) e1(1) by linarith
  ultimately show ?case using e(1) by blast
qed auto

lemma weakest_from_correct:
  assumes "xs \<noteq> []" "weakest_from eff 0 xs (0, None) = (w, we)"
  shows "w < length xs \<and> we = Some (eff (xs ! w)) \<and> (\<forall>x \<in> set xs. eff (xs ! w) \<le> eff x)"
proof -
  obtain y ys where xs: "xs = y # ys" using assms(1) by (cases xs) auto
  then have "weakest_from eff (Suc 0) ys (0, Some (eff y)) = (w, we)" using assms(2) by simp
  from weakest_from_Some [OF this] obtain e where "we = Some e" "e \<le> eff y" "\<forall>x \<in> set ys. e \<le> eff x"
      "(w, e) = (0, eff y) \<or> Suc 0 \<le> w \<and> w < Suc 0 + length ys \<and> e = eff (ys ! (w - Suc 0))" by blast
  then show ?thesis by (auto simp: xs nth_Cons')
qed

text \<open>The speakers heard within the silence window, the sender of this frame included.\<close>

definition talkers :: "sfu_room \<Rightarrow> real \<Rightarrow> peer_id \<Rightarrow> peer_id set" where
  "talkers r now sender = insert sender
     {p. \<exists>s. sr_speaker_scores r p = Some s \<and> now - ss_last_active s \<le> SPEAKER_SILENCE_SECS}"

lemma drop_silent_scores:
  "dom (sr_speaker_scores (drop_silent now (bump_speaker sender now r))) = talkers r now sender"
  by (auto simp: drop_silent_def bump_speaker_def Let_def talkers_def dom_retain SPEAKER_SILENCE_SECS_def
      split: if_splits)

lemma drop_silent_active:
  "sr_active_speakers (drop_silent now (bump_speaker sender now r)) =
     filter (\<lambda>i. i \<in> talkers r now sender) (sr_active_speakers r)"
proof -
  have "sr_speaker_scores (drop_silent now (bump_speaker sender now r)) i \<noteq> None \<longleftrightarrow> i \<in> talkers r now sender" for i
    using drop_silent_scores [of now sender r] by blast
  then show ?thesis by (simp add: drop_silent_def bump_speaker_def Let_def)
qed

lemma drop_silent_fields:
  "sr_participants (drop_silent now (bump_speaker sender now r)) = sr_participants r"
  "sr_subscribers (drop_silent now (bump_speaker sender now r)) = sr_subscribers r"
  "sr_allowed (drop_silent now (bump_speaker sender now r)) = sr_allowed r"
  "sr_empty_since (drop_silent now (bump_speaker sender now r)) = sr_empty_since r"
  by (simp_all add: drop_silent_def bump_speaker_def Let_def)

lemma finite_talkers: "finite (dom (sr_speaker_scores r)) \<Longrightarrow> finite (talkers r now sender)"
  by (auto simp: talkers_def dom_def elim: finite_subset [rotated])

text \<open>The three outcomes of a frame, over the speakers that remain after the silent are dropped.\<close>

lemma note_audio_cases:
  fixes r now sender
  defines "r1 \<equiv> drop_silent now (bump_speaker sender now r)"
  defines "as \<equiv> sr_active_speakers r1"
  shows "note_audio_should_forward sender now r =
    (if sender \<in> set as then (True, r1)
     else if length as < 5 then (True, r1\<lparr>sr_active_speakers := as @ [sender]\<rparr>)
     else let w = fst (weakest_from (eff_of r1 now) 0 as (0, None)) in
       if eff_of r1 now sender > eff_of r1 now (as ! w)
       then (True, r1\<lparr>sr_active_speakers := as[w := sender]\<rparr>) else (False, r1))"
proof -
  obtain w we where w: "weakest_from (eff_of r1 now) 0 as (0, None) = (w, we)" by force
  have "we = Some (eff_of r1 now (as ! w))" if "\<not> length as < 5"
    using weakest_from_correct [OF _ w] that by force
  then show ?thesis
    unfolding note_audio_should_forward_def Let_def r1_def [symmetric] as_def [symmetric] MAX_ACTIVE_SPEAKERS_def
    by (simp add: w)
qed

lemma note_audio_fields [simp]:
  "sr_participants (snd (note_audio_should_forward p now r)) = sr_participants r"
  "sr_subscribers (snd (note_audio_should_forward p now r)) = sr_subscribers r"
  "sr_allowed (snd (note_audio_should_forward p now r)) = sr_allowed r"
  "sr_creator_id (snd (note_audio_should_forward p now r)) = sr_creator_id r"
  "sr_room_type (snd (note_audio_should_forward p now r)) = sr_room_type r"
  "sr_room_id (snd (note_audio_should_forward p now r)) = sr_room_id r"
  "sr_empty_since (snd (note_audio_should_forward p now r)) = sr_empty_since r"
  unfolding note_audio_cases by (simp_all add: Let_def drop_silent_def bump_speaker_def)

lemma note_audio_active:
  assumes "room_ok r"
  shows "distinct (sr_active_speakers (snd (note_audio_should_forward p now r))) \<and>
    length (sr_active_speakers (snd (note_audio_should_forward p now r))) \<le> 5"
proof -
  let ?as = "sr_active_speakers (drop_silent now (bump_speaker p now r))"
  have d: "distinct ?as" "length ?as \<le> 5"
    using assms by (simp_all add: drop_silent_active room_ok_def length_filter_bound)
  then show ?thesis unfolding note_audio_cases by (auto simp: Let_def distinct_list_update)
qed

lemma room_ok_note_audio:
  assumes "room_ok r" shows "room_ok (snd (note_audio_should_forward p now r))"
proof -
  have "dom (sr_speaker_scores (snd (note_audio_should_forward p now r))) = talkers r now p"
    unfolding note_audio_cases by (simp add: Let_def drop_silent_scores)
  then show ?thesis
    using assms note_audio_active [OF assms, of p now] finite_talkers [of r now p]
    by (simp add: room_ok_def is_unused_def)
qed

text \<open>
  The active-speaker gate: a frame is forwarded exactly when its sender is in the active set
  afterwards; the set never has more than five members and never a duplicate, and membership of
  the room is untouched; as long as at most five speakers were heard within the silence window,
  the sender included, its frame is forwarded; a frame is shed only when five other speakers are
  active whose decayed scores are all at least the sender's.
\<close>

lemma speaker_gate:
  assumes "room_ok r" "note_audio_should_forward sender now r = (fwd, r')"
  shows "room_ok r' \<and> sr_participants r' = sr_participants r \<and>
    (fwd \<longleftrightarrow> sender \<in> set (sr_active_speakers r')) \<and>
    length (sr_active_speakers r') \<le> 5 \<and> distinct (sr_active_speakers r') \<and>
    (card (talkers r now sender) \<le> 5 \<longrightarrow> fwd) \<and>
    (\<not> fwd \<longrightarrow> length (sr_active_speakers r') = 5 \<and>
       (\<forall>p \<in> set (sr_active_speakers r'). eff_of r' now sender \<le> eff_of r' now p))"
proof -
  define r1 where "r1 = drop_silent now (bump_speaker sender now r)"
  define as where "as = sr_active_speakers r1"
  define w where "w = fst (weakest_from (eff_of r1 now) 0 as (0, None))"
  have act: "as = filter (\<lambda>i. i \<in> talkers r now sender) (sr_active_speakers r)"
    by (simp add: as_def r1_def drop_silent_active)
  have d: "distinct as" "length as \<le> 5" using assms(1) by (simp_all add: act room_ok_def length_filter_bound)
  have ft: "finite (talkers r now sender)" using assms(1) by (simp add: finite_talkers room_ok_def)
  note res = note_audio_cases [of sender now r, folded r1_def, folded as_def, folded w_def, unfolded assms(2) Let_def]
  have ok: "room_ok (r1\<lparr>sr_active_speakers := xs\<rparr>)" if "distinct xs" "length xs \<le> 5" for xs
    using assms(1) that drop_silent_scores [of now sender r] ft
    by (simp add: room_ok_def r1_def drop_silent_fields is_unused_def)
  have ok1: "room_ok r1" using ok [OF d] by (simp add: as_def)
  have p: "sr_participants r1 = sr_participants r" by (simp add: r1_def drop_silent_fields)
  show ?thesis
  proof (cases "sender \<in> set as")
    case True
    with res have "fwd" "r' = r1" by simp_all
    with True d ok1 p show ?thesis by (simp add: as_def)
  next
    case out: False
    show ?thesis
    proof (cases "length as < 5")
      case True
      with res out have "fwd" "r' = r1\<lparr>sr_active_speakers := as @ [sender]\<rparr>" by simp_all
      with True out d ok [of "as @ [sender]"] p show ?thesis by simp
    next
      case False
      then have l: "length as = 5" using d(2) by simp
      then have "as \<noteq> []" by auto
      from weakest_from_correct [OF this, of "eff_of r1 now" w] have wk: "w < length as"
          "\<forall>x \<in> set as. eff_of r1 now (as ! w) \<le> eff_of r1 now x"
        by (metis prod.collapse w_def)+
      have "insert sender (set as) \<subseteq> talkers r now sender" by (auto simp: act talkers_def)
      then have "card (insert sender (set as)) \<le> card (talkers r now sender)" using ft by (rule card_mono [rotated])
      then have six: "\<not> card (talkers r now sender) \<le> 5" using out l d(1) by (simp add: distinct_card)
      show ?thesis
      proof (cases "eff_of r1 now sender > eff_of r1 now (as ! w)")
        case True
        with res out False have r': "fwd" "r' = r1\<lparr>sr_active_speakers := as[w := sender]\<rparr>" by simp_all
        have "distinct (as[w := sender])" using d(1) out by (simp add: distinct_list_update)
        with r' ok [of "as[w := sender]"] l p wk(1) six show ?thesis by (simp add: set_update_memI)
      next
        case False
        with res out l have r': "\<not> fwd" "r' = r1" by simp_all
        with False wk(2) have "\<forall>p \<in> set as. eff_of r1 now sender \<le> eff_of r1 now p" by force
        with r' out l d ok1 p six show ?thesis by (simp add: as_def)
      qed
    qed
  qed
qed

lemma speaker_gate_witness:
  "fst (note_audio_should_forward ''a'' 7 (new_room ''r'' ''R'' Public ''c''))"
proof -
  let ?r = "new_room ''r'' ''R'' Public ''c''"
  obtain fwd r' where n: "note_audio_should_forward ''a'' 7 ?r = (fwd, r')" by force
  have "card (talkers ?r 7 ''a'') \<le> 5" by (simp add: talkers_def new_room_def)
  then show ?thesis using speaker_gate [OF room_ok_new n] n by auto
qed

section \<open>Invite tokens admit a bounded number of times\<close>

fun redeem :: "string \<Rightarrow> peer_id list \<Rightarrow> sfu_room \<Rightarrow> bool list" where
  "redeem token [] r = []"
| "redeem token (p # ps) r =
     (let (ok, r') = validate_and_consume_token token p r in ok # redeem token ps r')"

lemma redeem_absent: "sr_invite_tokens r token = None \<Longrightarrow> redeem token ps r = replicate (length ps) False"
  by (induction ps) (auto simp: validate_and_consume_token_def)

lemma redeem_left:
  assumes "sr_invite_tokens r token = Some it" "it_max_uses it = it_uses it + Suc n"
  shows "redeem token ps r = replicate (min (Suc n) (length ps)) True @ replicate (length ps - Suc n) False"
  using assms
proof (induction ps arbitrary: r it n)
  case (Cons p ps)
  let ?v = "validate_and_consume_token token p r"
  have ok: "fst ?v" using Cons.prems by (simp add: validate_and_consume_token_def Let_def)
  show ?case
  proof (cases n)
    case 0
    then have "sr_invite_tokens (snd ?v) token = None"
      using Cons.prems by (simp add: validate_and_consume_token_def Let_def)
    with ok 0 redeem_absent show ?thesis by (simp add: case_prod_beta)
  next
    case (Suc m)
    then have "sr_invite_tokens (snd ?v) token = Some (it\<lparr>it_uses := it_uses it + 1\<rparr>)"
      using Cons.prems by (simp add: validate_and_consume_token_def Let_def)
    from Cons.IH [OF this, of m] Cons.prems(2) Suc ok show ?thesis by (simp add: case_prod_beta)
  qed
qed simp

text \<open>
  An invite token with a use limit of \<open>n\<close> admits exactly the first \<open>n\<close> peers that present it
  and nobody after them (a shared invite, minted with limit one, exactly one), and admission puts
  the peer's normalised id on the room's list, so that it may join a private room later under
  either spelling of its id.
\<close>

lemma invite_token_limit:
  assumes "0 < n"
  shows "redeem token ps (generate_invite_token token owner n r) =
      replicate (min n (length ps)) True @ replicate (length ps - n) False \<and>
    (\<forall>p. fst (validate_and_consume_token token p (generate_invite_token token owner n r)) \<and>
       is_peer_allowed (snd (validate_and_consume_token token p (generate_invite_token token owner n r)))
         (normalize_peer_id p))"
proof
  let ?it = "\<lparr>it_created_by = owner, it_uses = 0, it_max_uses = n\<rparr>"
  have t: "sr_invite_tokens (generate_invite_token token owner n r) token = Some ?it"
    by (simp add: generate_invite_token_def)
  show "redeem token ps (generate_invite_token token owner n r) =
      replicate (min n (length ps)) True @ replicate (length ps - n) False"
    using redeem_left [OF t, of "n - 1" ps] assms by simp
  show "\<forall>p. fst (validate_and_consume_token token p (generate_invite_token token owner n r)) \<and>
     is_peer_allowed (snd (validate_and_consume_token token p (generate_invite_token token owner n r)))
       (normalize_peer_id p)"
    using t assms by (auto simp: validate_and_consume_token_def is_peer_allowed_def Let_def)
qed

lemma invite_token_limit_witness:
  "redeem ''t'' [''a'', ''b''] (generate_invite_token ''t'' ''o'' 1 (new_room ''r'' ''R'' Private ''o'')) = [True, False]"
  using invite_token_limit [of 1 "''t''" "[''a'', ''b'']"] by simp

end
