(* ===== verification/Sfu_Manager.thy ===== *)
theory Sfu_Manager
  imports Sfu_Room
begin

text \<open>
  All SFU rooms of a supernode, the \<open>SFURoomManager\<close> of \<open>conquerd-supernode/src/sfu.rs\<close>. Vectors
  whose order is a hash map's iteration order are sets, or maps from room ids. JSON listings and
  statistics, which only format the state, are left out.
\<close>

section \<open>State and operations\<close>

record sfu_manager =
  sm_rooms :: "room_id \<rightharpoonup> sfu_room"

definition new_manager :: sfu_manager where
  "new_manager = \<lparr>sm_rooms = [DEFAULT_ROOM_ID \<mapsto>
     (new_room DEFAULT_ROOM_ID DEFAULT_ROOM_NAME Public [])\<lparr>sr_empty_since := None\<rparr>]\<rparr>"

definition create_room_with_policy :: "(bytes \<Rightarrow> string) \<Rightarrow> real \<Rightarrow> room_id option \<Rightarrow> string \<Rightarrow> room_type \<Rightarrow>
    peer_id \<Rightarrow> string \<Rightarrow> sfu_manager \<Rightarrow> (sfu_room \<times> bool) option \<times> sfu_manager" where
  "create_room_with_policy sha256_hex now room_id room_name ty creator policy m =
     (let i = (case room_id of Some i \<Rightarrow> i | None \<Rightarrow> derive_room_id sha256_hex creator room_name) in
      case sm_rooms m i of
        Some r \<Rightarrow> (Some (r, False), m)
      | None \<Rightarrow>
          let room = mark_unused_if_empty now
                ((new_room i room_name ty creator)\<lparr>sr_invite_policy := normalize_invite_policy policy\<rparr>)
          in (Some (room, True), m\<lparr>sm_rooms := (sm_rooms m)(i \<mapsto> room)\<rparr>))"

definition create_room :: "(bytes \<Rightarrow> string) \<Rightarrow> real \<Rightarrow> room_id option \<Rightarrow> string \<Rightarrow> room_type \<Rightarrow>
    peer_id \<Rightarrow> sfu_manager \<Rightarrow> (sfu_room \<times> bool) option \<times> sfu_manager" where
  "create_room sha256_hex now room_id room_name ty creator m =
     create_room_with_policy sha256_hex now room_id room_name ty creator ''owner'' m"

definition gc_keeps :: "real \<Rightarrow> real \<Rightarrow> room_id \<Rightarrow> sfu_room \<Rightarrow> bool" where
  "gc_keeps now idle_secs i r =
     (if i = DEFAULT_ROOM_ID \<or> sr_creator_id r = [] then True
      else case sr_empty_since r of
             None \<Rightarrow> True
           | Some empty_since \<Rightarrow> now - empty_since < idle_secs)"

definition gc_idle_rooms :: "real \<Rightarrow> real \<Rightarrow> sfu_manager \<Rightarrow> room_id set \<times> sfu_manager" where
  "gc_idle_rooms now idle_secs m =
     ({i. \<exists>r. sm_rooms m i = Some r \<and> \<not> gc_keeps now idle_secs i r},
      m\<lparr>sm_rooms := retain (gc_keeps now idle_secs) (sm_rooms m)\<rparr>)"

definition join_room :: "peer_id \<Rightarrow> room_id \<Rightarrow> sfu_manager \<Rightarrow> (bool \<times> peer_id set) \<times> sfu_manager" where
  "join_room p0 i m =
     (let p = normalize_peer_id p0 in
      case sm_rooms m i of
        None \<Rightarrow> ((False, {}), m)
      | Some room \<Rightarrow>
          if \<not> is_peer_allowed room p then ((False, {}), m)
          else let (ok, room') = add_participant p room
               in ((ok, participant_ids room'), m\<lparr>sm_rooms := (sm_rooms m)(i \<mapsto> room')\<rparr>))"

definition get_room :: "room_id \<Rightarrow> sfu_manager \<Rightarrow> sfu_room option" where
  "get_room i m = sm_rooms m i"

definition classify_join_denial :: "peer_id \<Rightarrow> room_id \<Rightarrow> sfu_manager \<Rightarrow> string" where
  "classify_join_denial p0 i m =
     (let p = normalize_peer_id p0 in
      case get_room i m of
        None \<Rightarrow> ''room_absent''
      | Some r \<Rightarrow> if \<not> is_peer_allowed r p then ''not_allowed''
                  else if is_full r then ''room_full'' else ''join_failed'')"

text \<open>The collection of an empty room without a creator, shared by leaving and disconnecting.\<close>

definition gc_anonymous :: "room_id \<Rightarrow> sfu_room \<Rightarrow> bool" where
  "gc_anonymous i room \<longleftrightarrow> is_unused room \<and> sr_creator_id room = [] \<and> i \<noteq> DEFAULT_ROOM_ID"

definition leave_room :: "real \<Rightarrow> peer_id \<Rightarrow> room_id \<Rightarrow> sfu_manager \<Rightarrow> peer_id set \<times> sfu_manager" where
  "leave_room now p i m =
     (case sm_rooms m i of
        None \<Rightarrow> ({}, m)
      | Some room \<Rightarrow>
          let room' = mark_unused_if_empty now (snd (remove_participant now p room))
          in (participant_ids room',
              m\<lparr>sm_rooms := (sm_rooms m)(i := if gc_anonymous i room' then None else Some room')\<rparr>))"

definition in_room :: "peer_id \<Rightarrow> sfu_room \<Rightarrow> bool" where
  "in_room p r \<longleftrightarrow> sr_participants r p \<noteq> None \<or> p \<in> sr_subscribers r"

definition remove_peer_from_all :: "real \<Rightarrow> peer_id \<Rightarrow> sfu_manager \<Rightarrow> (room_id \<rightharpoonup> peer_id set) \<times> sfu_manager" where
  "remove_peer_from_all now p0 m =
     (let p = normalize_peer_id p0 in
      (\<lambda>i. case sm_rooms m i of
             Some room \<Rightarrow> if in_room p room
                then Some (participant_ids (snd (remove_peer_entirely now p room))) else None
           | None \<Rightarrow> None,
       m\<lparr>sm_rooms := (\<lambda>i. case sm_rooms m i of
             Some room \<Rightarrow> if in_room p room
                then let room' = snd (remove_peer_entirely now p room)
                     in if gc_anonymous i room' then None else Some room'
                else Some room
           | None \<Rightarrow> None)\<rparr>))"

definition audio_forward_targets :: "room_id \<Rightarrow> peer_id \<Rightarrow> real \<Rightarrow> sfu_manager \<Rightarrow> peer_id set option \<times> sfu_manager" where
  "audio_forward_targets i sender now m =
     (case sm_rooms m i of
        None \<Rightarrow> (None, m)
      | Some room \<Rightarrow>
          let (fwd, room') = note_audio_should_forward sender now room
          in (if fwd then Some (participant_ids room') else None,
              m\<lparr>sm_rooms := (sm_rooms m)(i \<mapsto> room')\<rparr>))"

definition subscribed_room_ids :: "sfu_manager \<Rightarrow> room_id set" where
  "subscribed_room_ids m = {i. \<exists>r. sm_rooms m i = Some r \<and> \<not> is_unused r}"

definition durable_room_descriptors :: "sfu_manager \<Rightarrow> (room_id \<times> string \<times> room_type \<times> peer_id \<times> string) set" where
  "durable_room_descriptors m =
     {(sr_room_id r, sr_room_name r, sr_room_type r, sr_creator_id r, sr_invite_policy r) | r.
        r \<in> ran (sm_rooms m) \<and> sr_room_id r \<noteq> DEFAULT_ROOM_ID \<and> sr_creator_id r \<noteq> []}"

definition get_chat_recipients :: "room_id \<Rightarrow> sfu_manager \<Rightarrow> peer_id set" where
  "get_chat_recipients i m = (case sm_rooms m i of Some r \<Rightarrow> chat_recipient_ids r | None \<Rightarrow> {})"

definition is_chat_sender :: "room_id \<Rightarrow> peer_id \<Rightarrow> sfu_manager \<Rightarrow> bool" where
  "is_chat_sender i p0 m =
     (let p = normalize_peer_id p0 in
      case sm_rooms m i of Some r \<Rightarrow> sr_participants r p \<noteq> None \<or> p \<in> sr_subscribers r | None \<Rightarrow> False)"

definition is_room_authorized_peer :: "peer_id \<Rightarrow> sfu_manager \<Rightarrow> bool" where
  "is_room_authorized_peer p m \<longleftrightarrow> (\<exists>r \<in> ran (sm_rooms m). is_invite_eligible_member r p)"

definition subscribe :: "peer_id \<Rightarrow> room_id \<Rightarrow> sfu_manager \<Rightarrow> bool \<times> sfu_manager" where
  "subscribe p i m =
     (case sm_rooms m i of
        Some room \<Rightarrow> if is_peer_allowed room p
                     then (True, m\<lparr>sm_rooms := (sm_rooms m)(i \<mapsto> room_subscribe p room)\<rparr>)
                     else (False, m)
      | None \<Rightarrow> (False, m))"

definition unsubscribe :: "real \<Rightarrow> peer_id \<Rightarrow> room_id \<Rightarrow> sfu_manager \<Rightarrow> sfu_manager" where
  "unsubscribe now p i m =
     (case sm_rooms m i of
        Some room \<Rightarrow> m\<lparr>sm_rooms := (sm_rooms m)(i \<mapsto> room_unsubscribe now p room)\<rparr>
      | None \<Rightarrow> m)"

definition rooms_for_peer :: "peer_id \<Rightarrow> sfu_manager \<Rightarrow> sfu_room set" where
  "rooms_for_peer p m = {r \<in> ran (sm_rooms m). is_public r \<or> is_peer_allowed r p}"

definition validate_room_invite :: "room_id \<Rightarrow> string \<Rightarrow> peer_id \<Rightarrow> sfu_manager \<Rightarrow> bool \<times> sfu_manager" where
  "validate_room_invite i token p m =
     (case sm_rooms m i of
        None \<Rightarrow> (False, m)
      | Some room \<Rightarrow> let (ok, room') = validate_and_consume_token token p room
                     in (ok, m\<lparr>sm_rooms := (sm_rooms m)(i \<mapsto> room')\<rparr>))"

definition allow_peer :: "room_id \<Rightarrow> peer_id \<Rightarrow> sfu_manager \<Rightarrow> bool \<times> sfu_manager" where
  "allow_peer i p m =
     (case sm_rooms m i of
        None \<Rightarrow> (False, m)
      | Some room \<Rightarrow> (True, m\<lparr>sm_rooms := (sm_rooms m)(i \<mapsto> allow_room_peer p room)\<rparr>))"

definition adopt_creator_if_empty :: "room_id \<Rightarrow> peer_id \<Rightarrow> sfu_manager \<Rightarrow> bool \<times> sfu_manager" where
  "adopt_creator_if_empty i owner m =
     (if owner = [] then (False, m)
      else case sm_rooms m i of
             Some room \<Rightarrow> if sr_creator_id room = []
                          then (True, m\<lparr>sm_rooms := (sm_rooms m)(i \<mapsto> room\<lparr>sr_creator_id := owner\<rparr>)\<rparr>)
                          else (False, m)
           | None \<Rightarrow> (False, m))"

definition mint_invite_token :: "string \<Rightarrow> room_id \<Rightarrow> string \<Rightarrow> sfu_manager \<Rightarrow> string option \<times> sfu_manager" where
  "mint_invite_token nonce i created_by m =
     (case sm_rooms m i of
        None \<Rightarrow> (None, m)
      | Some room \<Rightarrow> (Some nonce, m\<lparr>sm_rooms := (sm_rooms m)(i \<mapsto> generate_invite_token nonce created_by 1 room)\<rparr>))"

definition reregister_room_token :: "room_id \<Rightarrow> string \<Rightarrow> string \<Rightarrow> sfu_manager \<Rightarrow> bool \<times> sfu_manager" where
  "reregister_room_token i token created_by m =
     (case sm_rooms m i of
        None \<Rightarrow> (False, m)
      | Some room \<Rightarrow> let (ok, room') = reregister_invite_token token created_by room
                     in (ok, m\<lparr>sm_rooms := (sm_rooms m)(i \<mapsto> room')\<rparr>))"

datatype invite_mint = MintOk string | RoomNotFound | NotAuthorized

definition generate_invite_token_checked :: "string \<Rightarrow> room_id \<Rightarrow> peer_id \<Rightarrow> sfu_manager \<Rightarrow> invite_mint \<times> sfu_manager" where
  "generate_invite_token_checked nonce i requester m =
     (case sm_rooms m i of
        None \<Rightarrow> (RoomNotFound, m)
      | Some room \<Rightarrow>
          if sr_creator_id room = [] then (NotAuthorized, m)
          else let authorized = (sr_creator_id room = requester \<or>
                     sr_invite_policy room = ''members'' \<and> is_invite_eligible_member room requester)
               in if \<not> authorized then (NotAuthorized, m)
                  else (MintOk nonce, m\<lparr>sm_rooms := (sm_rooms m)(i \<mapsto> generate_invite_token nonce requester 1 room)\<rparr>))"

section \<open>Steps\<close>

inductive sfu_step :: "sfu_manager \<Rightarrow> sfu_manager \<Rightarrow> bool" where
  create: "sfu_step m (snd (create_room_with_policy sha now ri nm ty c pol m))"
| gc: "sfu_step m (snd (gc_idle_rooms now idle m))"
| join: "sfu_step m (snd (join_room p i m))"
| leave: "sfu_step m (snd (leave_room now p i m))"
| disconnect: "sfu_step m (snd (remove_peer_from_all now p m))"
| audio: "sfu_step m (snd (audio_forward_targets i p now m))"
| subscribe: "sfu_step m (snd (subscribe p i m))"
| unsubscribe: "sfu_step m (unsubscribe now p i m)"
| redeem: "sfu_step m (snd (validate_room_invite i tok p m))"
| allow: "sfu_step m (snd (allow_peer i p m))"
| adopt: "sfu_step m (snd (adopt_creator_if_empty i p m))"
| mint: "sfu_step m (snd (mint_invite_token nonce i p m))"
| mint_checked: "sfu_step m (snd (generate_invite_token_checked nonce i p m))"
| reregister: "sfu_step m (snd (reregister_room_token i tok p m))"

inductive sfu_reachable :: "sfu_manager \<Rightarrow> bool" where
  init: "sfu_reachable new_manager"
| step: "sfu_reachable m \<Longrightarrow> sfu_step m m' \<Longrightarrow> sfu_reachable m'"

text \<open>
  What one operation may do to one room, as a relation on rooms: the room-level transitions
  behind every step.
\<close>

inductive room_step :: "room_id \<Rightarrow> sfu_room \<Rightarrow> sfu_room \<Rightarrow> bool" where
  same: "room_step i r r"
| add: "is_peer_allowed r p \<Longrightarrow> room_step i r (snd (add_participant p r))"
| remove: "room_step i r (mark_unused_if_empty now (snd (remove_participant now p r)))"
| entirely: "room_step i r (snd (remove_peer_entirely now p r))"
| audio: "room_step i r (snd (note_audio_should_forward p now r))"
| subscribe: "is_peer_allowed r p \<Longrightarrow> room_step i r (room_subscribe p r)"
| unsubscribe: "room_step i r (room_unsubscribe now p r)"
| redeem: "room_step i r (snd (validate_and_consume_token tok p r))"
| allow: "room_step i r (allow_room_peer p r)"
| adopt: "sr_creator_id r = [] \<Longrightarrow> room_step i r (r\<lparr>sr_creator_id := c\<rparr>)"
| token: "room_step i r (generate_invite_token tok p n r)"
| reregister: "room_step i r (snd (reregister_invite_token tok p r))"

lemma is_peer_allowed_normalize [simp]: "is_peer_allowed r (normalize_peer_id p) = is_peer_allowed r p"
  by (simp add: is_peer_allowed_def)

definition fresh_room :: "room_id \<Rightarrow> sfu_room \<Rightarrow> bool" where
  "fresh_room i r \<longleftrightarrow> (\<exists>nm ty c pol now. r = mark_unused_if_empty now
     ((new_room i nm ty c)\<lparr>sr_invite_policy := pol\<rparr>))"

lemma fresh_roomI: "fresh_room i (mark_unused_if_empty now ((new_room i nm ty c)\<lparr>sr_invite_policy := pol\<rparr>))"
  unfolding fresh_room_def by blast

lemma sfu_step_rooms:
  assumes "sfu_step m m'" "sm_rooms m' i = Some r'"
  shows "(\<exists>r. sm_rooms m i = Some r \<and> room_step i r r') \<or> sm_rooms m i = None \<and> fresh_room i r'"
  using assms
proof cases
  case (create sha now ri nm ty c pol)
  then show ?thesis using assms(2)
    by (auto simp: create_room_with_policy_def Let_def intro: room_step.same fresh_roomI
        split: option.splits if_splits)
next
  case (gc now idle)
  then show ?thesis using assms(2) by (auto simp: gc_idle_rooms_def intro: room_step.same)
next
  case (join p j)
  then show ?thesis using assms(2) room_step.add [of _ "normalize_peer_id p" i]
    by (auto simp: join_room_def Let_def case_prod_beta intro: room_step.same split: option.splits if_splits)
next
  case (leave now p j)
  then show ?thesis using assms(2)
    by (auto simp: leave_room_def Let_def intro: room_step.same room_step.remove split: option.splits if_splits)
next
  case (disconnect now p)
  then show ?thesis using assms(2)
    by (auto simp: remove_peer_from_all_def Let_def intro: room_step.same room_step.entirely
        split: option.splits if_splits)
next
  case (audio j p now)
  then show ?thesis using assms(2)
    by (auto simp: audio_forward_targets_def case_prod_beta Let_def intro: room_step.same room_step.audio
        split: option.splits if_splits)
next
  case (subscribe p j)
  then show ?thesis using assms(2)
    by (auto simp: subscribe_def intro: room_step.same room_step.subscribe split: option.splits if_splits)
next
  case (unsubscribe now p j)
  then show ?thesis using assms(2)
    by (auto simp: unsubscribe_def intro: room_step.same room_step.unsubscribe split: option.splits if_splits)
next
  case (redeem j tok p)
  then show ?thesis using assms(2)
    by (auto simp: validate_room_invite_def case_prod_beta Let_def intro: room_step.same room_step.redeem
        split: option.splits if_splits)
next
  case (allow j p)
  then show ?thesis using assms(2)
    by (auto simp: allow_peer_def intro: room_step.same room_step.allow split: option.splits if_splits)
next
  case (adopt j p)
  then show ?thesis using assms(2)
    by (auto simp: adopt_creator_if_empty_def intro: room_step.same room_step.adopt split: option.splits if_splits)
next
  case (mint nonce j p)
  then show ?thesis using assms(2)
    by (auto simp: mint_invite_token_def intro: room_step.same room_step.token split: option.splits if_splits)
next
  case (mint_checked nonce j p)
  then show ?thesis using assms(2)
    by (auto simp: generate_invite_token_checked_def Let_def intro: room_step.same room_step.token
        split: option.splits if_splits)
next
  case (reregister j tok p)
  then show ?thesis using assms(2)
    by (auto simp: reregister_room_token_def case_prod_beta Let_def intro: room_step.same room_step.reregister
        split: option.splits if_splits)
qed

section \<open>The manager invariant\<close>

text \<open>
  A room of the manager: stored under its own id, well-formed, and, if private, with only
  authorised members; a room other than the lobby that nobody uses has its idle clock running.
\<close>

definition managed_ok :: "room_id \<Rightarrow> sfu_room \<Rightarrow> bool" where
  "managed_ok i r \<longleftrightarrow> room_ok r \<and> sr_room_id r = i \<and>
     (\<not> is_public r \<longrightarrow> (\<forall>p \<in> dom (sr_participants r) \<union> sr_subscribers r.
        p = [] \<or> p \<in> sr_allowed r \<or> p = sr_creator_id r)) \<and>
     (i \<noteq> DEFAULT_ROOM_ID \<and> is_unused r \<longrightarrow> sr_empty_since r \<noteq> None)"

lemma managed_ok_fresh: "fresh_room i r \<Longrightarrow> managed_ok i r"
proof -
  assume "fresh_room i r"
  then obtain nm ty c pol now where
    r: "r = mark_unused_if_empty now ((new_room i nm ty c)\<lparr>sr_invite_policy := pol\<rparr>)"
    by (auto simp: fresh_room_def)
  have "room_ok ((new_room i nm ty c)\<lparr>sr_invite_policy := pol\<rparr>)"
    by (simp add: room_ok_def new_room_def is_unused_def)
  then show ?thesis
    unfolding r managed_ok_def by (simp add: room_ok_mark_unused) (simp add: new_room_def)
qed

lemma add_participant_managed:
  assumes "managed_ok i r" "is_peer_allowed r p"
  shows "managed_ok i (snd (add_participant p r))"
proof -
  have "room_ok (snd (add_participant p r))" using assms(1) by (simp add: managed_ok_def room_ok_add)
  with assms show ?thesis
    by (auto simp: managed_ok_def add_participant_def is_peer_allowed_def Let_def mark_in_use_def is_public_def
        is_unused_def)
qed

lemma room_subscribe_managed:
  assumes "managed_ok i r" "is_peer_allowed r p"
  shows "managed_ok i (room_subscribe p r)"
proof -
  have "room_ok (room_subscribe p r)" using assms(1) by (simp add: managed_ok_def room_ok_subscribe)
  with assms show ?thesis
    by (auto simp: managed_ok_def room_subscribe_def is_peer_allowed_def Let_def mark_in_use_def is_public_def
        is_unused_def)
qed

lemma managed_private:
  "managed_ok i r \<Longrightarrow> \<not> is_public r \<Longrightarrow> p \<in> dom (sr_participants r) \<union> sr_subscribers r \<Longrightarrow>
     p = [] \<or> p \<in> sr_allowed r \<or> p = sr_creator_id r"
  by (simp add: managed_ok_def)

text \<open>A transition that only shrinks the membership and keeps the access list.\<close>

lemma managed_shrink:
  assumes "managed_ok i r" "room_ok r'" "sr_room_id r' = sr_room_id r" "sr_room_type r' = sr_room_type r"
    and "dom (sr_participants r') \<union> sr_subscribers r' \<subseteq> dom (sr_participants r) \<union> sr_subscribers r"
    and "sr_allowed r \<subseteq> sr_allowed r'" "sr_creator_id r' = sr_creator_id r"
    and "is_unused r' \<longrightarrow> i \<noteq> DEFAULT_ROOM_ID \<longrightarrow> sr_empty_since r' \<noteq> None"
  shows "managed_ok i r'"
proof -
  have "p = [] \<or> p \<in> sr_allowed r' \<or> p = sr_creator_id r'"
    if "\<not> is_public r'" "p \<in> dom (sr_participants r') \<union> sr_subscribers r'" for p
  proof -
    have "p \<in> dom (sr_participants r) \<union> sr_subscribers r" using that(2) assms(5) by (rule rev_subsetD)
    moreover have "\<not> is_public r" using assms(4) that(1) by (simp add: is_public_def)
    ultimately have "p = [] \<or> p \<in> sr_allowed r \<or> p = sr_creator_id r"
      by (intro managed_private [OF assms(1)])
    with assms(6,7) show ?thesis by auto
  qed
  with assms show ?thesis by (simp add: managed_ok_def)
qed

lemma remove_participant_fields:
  "sr_room_id (snd (remove_participant now p r)) = sr_room_id r"
  "sr_room_type (snd (remove_participant now p r)) = sr_room_type r"
  "sr_allowed (snd (remove_participant now p r)) = sr_allowed r"
  "sr_creator_id (snd (remove_participant now p r)) = sr_creator_id r"
  "sr_subscribers (snd (remove_participant now p r)) = sr_subscribers r"
  "dom (sr_participants (snd (remove_participant now p r))) = dom (sr_participants r) - {normalize_peer_id p}"
  by (auto simp: remove_participant_def Let_def)

lemma remove_entirely_fields:
  "sr_room_id (snd (remove_peer_entirely now p r)) = sr_room_id r"
  "sr_room_type (snd (remove_peer_entirely now p r)) = sr_room_type r"
  "sr_allowed (snd (remove_peer_entirely now p r)) = sr_allowed r"
  "sr_creator_id (snd (remove_peer_entirely now p r)) = sr_creator_id r"
  "sr_subscribers (snd (remove_peer_entirely now p r)) = sr_subscribers r - {normalize_peer_id p}"
  "dom (sr_participants (snd (remove_peer_entirely now p r))) = dom (sr_participants r) - {normalize_peer_id p}"
  by (auto simp: remove_peer_entirely_def Let_def)

lemma unsubscribe_fields:
  "sr_room_id (room_unsubscribe now p r) = sr_room_id r"
  "sr_room_type (room_unsubscribe now p r) = sr_room_type r"
  "sr_allowed (room_unsubscribe now p r) = sr_allowed r"
  "sr_creator_id (room_unsubscribe now p r) = sr_creator_id r"
  "sr_subscribers (room_unsubscribe now p r) = sr_subscribers r - {normalize_peer_id p}"
  "sr_participants (room_unsubscribe now p r) = sr_participants r"
  by (auto simp: room_unsubscribe_def Let_def)

lemma managed_idle:
  "managed_ok i r \<Longrightarrow> i \<noteq> DEFAULT_ROOM_ID \<Longrightarrow> is_unused r \<Longrightarrow> sr_empty_since r \<noteq> None"
  by (simp add: managed_ok_def)

lemma managed_token:
  assumes "managed_ok i r" shows "managed_ok i (snd (validate_and_consume_token t p r))"
proof (rule managed_shrink [OF assms])
  show "room_ok (snd (validate_and_consume_token t p r))" using assms by (simp add: managed_ok_def room_ok_token)
  have u: "is_unused (snd (validate_and_consume_token t p r)) = is_unused r"
    "sr_empty_since (snd (validate_and_consume_token t p r)) = sr_empty_since r"
    by (auto simp: validate_and_consume_token_def Let_def is_unused_def split: option.splits)
  show "is_unused (snd (validate_and_consume_token t p r)) \<longrightarrow> i \<noteq> DEFAULT_ROOM_ID \<longrightarrow>
      sr_empty_since (snd (validate_and_consume_token t p r)) \<noteq> None"
    using managed_idle [OF assms] u by simp
qed (auto simp: validate_and_consume_token_def Let_def split: option.splits)

lemma room_step_managed: "room_step i r r' \<Longrightarrow> managed_ok i r \<Longrightarrow> managed_ok i r'"
proof (induction rule: room_step.induct)
  case (remove i r now p)
  have "room_ok (snd (remove_participant now p r))"
    using remove by (simp add: managed_ok_def room_ok_remove_participant)
  then show ?case
    by (intro managed_shrink [OF remove]) (auto simp: remove_participant_fields room_ok_mark_unused)
next
  case (entirely i r now p)
  have ok: "room_ok (snd (remove_peer_entirely now p r))"
    using entirely by (simp add: managed_ok_def room_ok_remove_entirely)
  have "sr_empty_since (snd (remove_peer_entirely now p r)) \<noteq> None"
    if "is_unused (snd (remove_peer_entirely now p r))" "i \<noteq> DEFAULT_ROOM_ID"
    using that managed_idle [OF entirely]
    by (auto simp: remove_peer_entirely_def Let_def is_unused_def fun_upd_idem split: if_splits)
  then show ?case
    by (intro managed_shrink [OF entirely ok]) (auto simp: remove_entirely_fields)
next
  case (unsubscribe i r now p)
  have ok: "room_ok (room_unsubscribe now p r)" using unsubscribe by (simp add: managed_ok_def room_ok_unsubscribe)
  have "sr_empty_since (room_unsubscribe now p r) \<noteq> None"
    if "is_unused (room_unsubscribe now p r)" "i \<noteq> DEFAULT_ROOM_ID"
    using that managed_idle [OF unsubscribe] by (auto simp: room_unsubscribe_def Let_def split: if_splits)
  then show ?case
    by (intro managed_shrink [OF unsubscribe ok]) (auto simp: unsubscribe_fields)
next
  case (audio i r p now)
  then have "room_ok (snd (note_audio_should_forward p now r))" by (simp add: managed_ok_def room_ok_note_audio)
  with audio show ?case by (simp add: managed_ok_def is_public_def is_unused_def)
next
  case (adopt r i c)
  have u: "is_unused (r\<lparr>sr_creator_id := c\<rparr>) = is_unused r" "is_public (r\<lparr>sr_creator_id := c\<rparr>) = is_public r"
    by (simp_all add: is_unused_def is_public_def)
  have "room_ok (r\<lparr>sr_creator_id := c\<rparr>)" using adopt(2) by (simp add: managed_ok_def room_ok_def u)
  with adopt show ?case by (auto simp: managed_ok_def u)
next
  case (allow i r p)
  have "is_unused (allow_room_peer p r) = is_unused r" by (simp add: allow_room_peer_def is_unused_def)
  moreover have "room_ok (allow_room_peer p r)" using allow by (simp add: managed_ok_def room_ok_allow)
  ultimately show ?case
    using managed_idle [OF allow] by (intro managed_shrink [OF allow]) (auto simp: allow_room_peer_def)
next
  case (token i r tok p n)
  have "is_unused (generate_invite_token tok p n r) = is_unused r"
    by (simp add: generate_invite_token_def is_unused_def)
  moreover from this have "room_ok (generate_invite_token tok p n r)"
    using token by (simp add: managed_ok_def room_ok_def generate_invite_token_def)
  ultimately show ?case
    using managed_idle [OF token] by (intro managed_shrink [OF token]) (auto simp: generate_invite_token_def)
next
  case (reregister i r tok p)
  have "is_unused (snd (reregister_invite_token tok p r)) = is_unused r"
    by (simp add: reregister_invite_token_def is_unused_def)
  moreover from this have "room_ok (snd (reregister_invite_token tok p r))"
    using reregister by (simp add: managed_ok_def room_ok_def reregister_invite_token_def)
  ultimately show ?case
    using managed_idle [OF reregister] by (intro managed_shrink [OF reregister]) (auto simp: reregister_invite_token_def)
qed (simp_all add: add_participant_managed room_subscribe_managed managed_token)

lemma sfu_reachable_managed: "sfu_reachable m \<Longrightarrow> sm_rooms m i = Some r \<Longrightarrow> managed_ok i r"
proof (induction arbitrary: i r rule: sfu_reachable.induct)
  case init
  then show ?case
    by (auto simp: new_manager_def managed_ok_def room_ok_def new_room_def is_public_def is_unused_def
        split: if_splits)
next
  case (step m m')
  then show ?case using sfu_step_rooms room_step_managed managed_ok_fresh by blast
qed

section \<open>The lobby\<close>

definition lobby_ok :: "sfu_manager \<Rightarrow> bool" where
  "lobby_ok m \<longleftrightarrow> (\<exists>r. sm_rooms m DEFAULT_ROOM_ID = Some r \<and> is_public r)"

lemma room_step_type: "room_step i r r' \<Longrightarrow> is_public r' = is_public r"
  by (induction rule: room_step.induct)
     (auto simp: is_public_def add_participant_def remove_participant_fields remove_entirely_fields
       unsubscribe_fields room_subscribe_def mark_in_use_def validate_and_consume_token_def allow_room_peer_def
       generate_invite_token_def reregister_invite_token_def Let_def split: option.splits)

lemma lobby_kept:
  assumes "sfu_step m m'" "lobby_ok m" shows "sm_rooms m' DEFAULT_ROOM_ID \<noteq> None"
  using assms
proof cases
  case (gc now idle)
  then show ?thesis using assms(2) by (auto simp: lobby_ok_def gc_idle_rooms_def retain_def gc_keeps_def)
qed (use assms(2) in \<open>auto simp: lobby_ok_def create_room_with_policy_def join_room_def leave_room_def
    gc_anonymous_def remove_peer_from_all_def audio_forward_targets_def subscribe_def unsubscribe_def
    validate_room_invite_def allow_peer_def adopt_creator_if_empty_def mint_invite_token_def
    generate_invite_token_checked_def reregister_room_token_def Let_def case_prod_beta
    split: option.splits\<close>)

lemma sfu_reachable_lobby: "sfu_reachable m \<Longrightarrow> lobby_ok m"
proof (induction rule: sfu_reachable.induct)
  case init
  show ?case by (simp add: lobby_ok_def new_manager_def new_room_def is_public_def)
next
  case (step m m')
  from lobby_kept [OF step.hyps(2) step.IH] obtain r' where r': "sm_rooms m' DEFAULT_ROOM_ID = Some r'" by blast
  obtain r where "sm_rooms m DEFAULT_ROOM_ID = Some r" "is_public r" using step.IH by (auto simp: lobby_ok_def)
  with sfu_step_rooms [OF step.hyps(2) r'] r' show ?case by (auto simp: lobby_ok_def room_step_type)
qed

text \<open>
  In every reachable manager: the public lobby exists; each room is filed under its own id,
  has at most 32 voice participants, none of them also a chat-only subscriber, at most five
  active speakers, and only normalised ids on its lists; and every member of a private room
  (other than one with an empty id) is its creator or was put on its access list.
\<close>

lemma sfu_reachable_safe:
  assumes "sfu_reachable m"
  shows "(\<exists>r. get_room DEFAULT_ROOM_ID m = Some r \<and> is_public r) \<and>
    (\<forall>i r. get_room i m = Some r \<longrightarrow>
       sr_room_id r = i \<and> participant_count r \<le> 32 \<and> dom (sr_participants r) \<inter> sr_subscribers r = {} \<and>
       length (sr_active_speakers r) \<le> 5 \<and>
       (\<forall>p. p \<in> chat_recipient_ids r \<or> p \<in> sr_allowed r \<longrightarrow> normalize_peer_id p = p) \<and>
       (\<forall>p. \<not> is_public r \<and> p \<in> chat_recipient_ids r \<and> p \<noteq> [] \<longrightarrow>
          p \<in> sr_allowed r \<or> p = sr_creator_id r))"
proof (intro conjI allI impI)
  show "\<exists>r. get_room DEFAULT_ROOM_ID m = Some r \<and> is_public r"
    using sfu_reachable_lobby [OF assms] by (simp add: lobby_ok_def get_room_def)
  fix i r assume "get_room i m = Some r"
  then have ok: "managed_ok i r" using sfu_reachable_managed [OF assms] by (simp add: get_room_def)
  then show "sr_room_id r = i" "participant_count r \<le> 32" "dom (sr_participants r) \<inter> sr_subscribers r = {}"
    "length (sr_active_speakers r) \<le> 5"
    by (simp_all add: managed_ok_def room_ok_def participant_count_def)
  show "normalize_peer_id p = p" if "p \<in> chat_recipient_ids r \<or> p \<in> sr_allowed r" for p
    using ok that unfolding managed_ok_def room_ok_def chat_recipient_ids_def by blast
  show "p \<in> sr_allowed r \<or> p = sr_creator_id r" if "\<not> is_public r \<and> p \<in> chat_recipient_ids r \<and> p \<noteq> []" for p
    using managed_private [OF ok] that by (auto simp: chat_recipient_ids_def)
qed

lemma sfu_reachable_safe_witness:
  "\<exists>r. get_room DEFAULT_ROOM_ID (snd (join_room ''a'' ''default'' new_manager)) = Some r \<and> is_public r"
  using sfu_reachable_safe [OF sfu_reachable.step [OF sfu_reachable.init sfu_step.join]] by blast

section \<open>Joining, leaving, expiring\<close>

text \<open>
  Joining: it succeeds exactly when the room exists, the peer may enter it and the room has
  space or the peer is already in; then the peer, under its normalised id, is among the members
  returned. A refused join changes nothing, and the reason reported for it is the true one, so
  the generic \<open>join_failed\<close> is never given.
\<close>

lemma join_room_correct:
  assumes "join_room p i m = ((ok, members), m')"
  shows "(ok \<longleftrightarrow> (\<exists>r. get_room i m = Some r \<and> is_peer_allowed r p \<and>
            (normalize_peer_id p \<in> participant_ids r \<or> \<not> is_full r))) \<and>
    (ok \<longrightarrow> normalize_peer_id p \<in> members \<and>
       (\<exists>r'. get_room i m' = Some r' \<and> participant_ids r' = members)) \<and>
    (\<not> ok \<longrightarrow> sm_rooms m' = sm_rooms m \<and>
       classify_join_denial p i m' =
         (case get_room i m of None \<Rightarrow> ''room_absent''
          | Some r \<Rightarrow> if is_peer_allowed r p then ''room_full'' else ''not_allowed''))"
  using assms
  by (auto simp: join_room_def get_room_def classify_join_denial_def add_participant_def participant_ids_def
      mark_in_use_def Let_def split: option.splits if_splits)

lemma join_room_correct_witness:
  "fst (fst (join_room ''a'' ''default'' new_manager)) \<and>
   fst (fst (join_room ''a'' ''nowhere'' new_manager)) = False \<and>
   classify_join_denial ''a'' ''nowhere'' (snd (join_room ''a'' ''nowhere'' new_manager)) = ''room_absent''"
proof -
  obtain ok ms m' where j: "join_room ''a'' ''default'' new_manager = ((ok, ms), m')" by (metis prod.collapse)
  obtain ok2 ms2 m2 where j2: "join_room ''a'' ''nowhere'' new_manager = ((ok2, ms2), m2)" by (metis prod.collapse)
  show ?thesis
    using join_room_correct [OF j] join_room_correct [OF j2] j j2
    by (auto simp: get_room_def new_manager_def DEFAULT_ROOM_ID_def is_peer_allowed_def is_public_def new_room_def
        is_full_def MAX_ROOM_SIZE_def)
qed

text \<open>
  Disconnecting a peer under either spelling of its id leaves no ghost: afterwards it is
  neither a participant nor a subscriber of any room and may not send chat; the rooms reported
  are exactly those it was in; and every other room, and every other member of those rooms, is
  as before, except that an abandoned room nobody owns is dropped.
\<close>

lemma disconnect_leaves_no_ghost:
  assumes "remove_peer_from_all now p m = (gone, m')"
  shows "(\<forall>i r. get_room i m' = Some r \<longrightarrow> normalize_peer_id p \<notin> chat_recipient_ids r) \<and>
    (\<forall>i q. normalize_peer_id q = normalize_peer_id p \<longrightarrow> \<not> is_chat_sender i q m') \<and>
    dom gone = {i. \<exists>r. get_room i m = Some r \<and> normalize_peer_id p \<in> chat_recipient_ids r} \<and>
    (\<forall>i r. get_room i m = Some r \<and> normalize_peer_id p \<notin> chat_recipient_ids r \<longrightarrow> get_room i m' = Some r) \<and>
    (\<forall>i r. get_room i m = Some r \<longrightarrow>
       (case get_room i m' of
          Some r' \<Rightarrow> chat_recipient_ids r' = chat_recipient_ids r - {normalize_peer_id p}
        | None \<Rightarrow> chat_recipient_ids r = {normalize_peer_id p} \<and> sr_creator_id r = [] \<and> i \<noteq> DEFAULT_ROOM_ID))"
proof -
  let ?p = "normalize_peer_id p"
  have ids: "chat_recipient_ids (snd (remove_peer_entirely now ?p r)) = chat_recipient_ids r - {?p}" for r
    by (auto simp: chat_recipient_ids_def remove_entirely_fields)
  have inr: "in_room ?p r \<longleftrightarrow> ?p \<in> chat_recipient_ids r" for r
    by (auto simp: in_room_def chat_recipient_ids_def)
  have un: "is_unused r \<longleftrightarrow> chat_recipient_ids r = {}" for r
    by (auto simp: is_unused_def chat_recipient_ids_def)
  have m': "get_room i m' = (case get_room i m of None \<Rightarrow> None | Some r \<Rightarrow>
      if ?p \<in> chat_recipient_ids r
      then if gc_anonymous i (snd (remove_peer_entirely now ?p r)) then None
           else Some (snd (remove_peer_entirely now ?p r))
      else Some r)" for i
    using assms by (auto simp: remove_peer_from_all_def Let_def get_room_def inr split: option.splits)
  have g: "dom gone = {i. \<exists>r. get_room i m = Some r \<and> ?p \<in> chat_recipient_ids r}"
    using assms by (auto simp: remove_peer_from_all_def Let_def get_room_def inr split: option.splits if_splits)
  have a: "?p \<notin> chat_recipient_ids r" if "get_room i m' = Some r" for i r
    using that by (auto simp: m' ids split: option.splits if_splits)
  have c: "\<not> is_chat_sender i q m'" if "normalize_peer_id q = ?p" for i q
    using a [of i] that by (auto simp: is_chat_sender_def get_room_def chat_recipient_ids_def Let_def split: option.splits)
  have s: "get_room i m' = Some r" if "get_room i m = Some r \<and> ?p \<notin> chat_recipient_ids r" for i r
    using that by (simp add: m')
  have d: "case get_room i m' of
        Some r' \<Rightarrow> chat_recipient_ids r' = chat_recipient_ids r - {?p}
      | None \<Rightarrow> chat_recipient_ids r = {?p} \<and> sr_creator_id r = [] \<and> i \<noteq> DEFAULT_ROOM_ID"
    if "get_room i m = Some r" for i r
    using that by (auto simp: m' ids gc_anonymous_def un remove_entirely_fields)
  show ?thesis using a c g s d by blast
qed

lemma disconnect_leaves_no_ghost_witness:
  "\<not> is_chat_sender ''default'' ''a'' (snd (remove_peer_from_all 5 ''a'' (snd (join_room ''a'' ''default'' new_manager))))"
proof -
  obtain g m' where r: "remove_peer_from_all 5 ''a'' (snd (join_room ''a'' ''default'' new_manager)) = (g, m')" by force
  show ?thesis using disconnect_leaves_no_ghost [OF r] r by simp
qed

text \<open>
  Idle collection: it removes exactly the owned rooms other than the lobby whose idle clock
  has run for the limit, it never removes a room with a participant or a subscriber, and every
  unused owned room is removed by a sweep late enough.
\<close>

lemma gc_only_idle_rooms:
  assumes "sfu_reachable m" "gc_idle_rooms now idle m = (removed, m')" "0 \<le> idle"
  shows "removed = dom (sm_rooms m) - dom (sm_rooms m') \<and>
    (\<forall>i r. get_room i m = Some r \<and> i \<in> removed \<longrightarrow>
       is_unused r \<and> i \<noteq> DEFAULT_ROOM_ID \<and> sr_creator_id r \<noteq> []) \<and>
    (\<forall>i r. get_room i m = Some r \<and> i \<notin> removed \<longrightarrow> get_room i m' = Some r) \<and>
    (\<forall>i r. get_room i m = Some r \<and> is_unused r \<and> i \<noteq> DEFAULT_ROOM_ID \<and> sr_creator_id r \<noteq> [] \<longrightarrow>
       (\<exists>t. sr_empty_since r = Some t \<and> (i \<in> removed \<longleftrightarrow> idle \<le> now - t)))"
proof -
  have rem: "removed = {i. \<exists>r. sm_rooms m i = Some r \<and> \<not> gc_keeps now idle i r}"
    and m': "sm_rooms m' = retain (gc_keeps now idle) (sm_rooms m)"
    using assms(2) by (auto simp: gc_idle_rooms_def)
  have A: "removed = dom (sm_rooms m) - dom (sm_rooms m')" by (auto simp: rem m' dom_retain)
  have B: "is_unused r \<and> i \<noteq> DEFAULT_ROOM_ID \<and> sr_creator_id r \<noteq> []" if "get_room i m = Some r \<and> i \<in> removed" for i r
    using that sfu_reachable_managed [OF assms(1), of i r]
    by (auto simp: rem get_room_def gc_keeps_def managed_ok_def room_ok_def split: if_splits option.splits)
  have C: "get_room i m' = Some r" if "get_room i m = Some r \<and> i \<notin> removed" for i r
    using that by (auto simp: rem get_room_def m')
  have D: "\<exists>t. sr_empty_since r = Some t \<and> (i \<in> removed \<longleftrightarrow> idle \<le> now - t)"
    if "get_room i m = Some r \<and> is_unused r \<and> i \<noteq> DEFAULT_ROOM_ID \<and> sr_creator_id r \<noteq> []" for i r
  proof -
    have "sr_empty_since r \<noteq> None"
      using that sfu_reachable_managed [OF assms(1), of i r] managed_idle by (auto simp: get_room_def)
    then obtain t where "sr_empty_since r = Some t" by blast
    with that show ?thesis by (auto simp: rem get_room_def gc_keeps_def)
  qed
  show ?thesis using A B C D by blast
qed

lemma gc_only_idle_rooms_witness:
  "get_room DEFAULT_ROOM_ID (snd (gc_idle_rooms 5000 900 new_manager)) = get_room DEFAULT_ROOM_ID new_manager"
proof -
  obtain rm m' where g: "gc_idle_rooms 5000 900 new_manager = (rm, m')" by force
  obtain r where r: "get_room DEFAULT_ROOM_ID new_manager = Some r"
    using sfu_reachable_lobby [OF sfu_reachable.init] by (auto simp: lobby_ok_def get_room_def)
  have i: "0 \<le> (900 :: real)" by simp
  have "DEFAULT_ROOM_ID \<notin> rm" using gc_only_idle_rooms [OF sfu_reachable.init g i] r by blast
  then have "get_room DEFAULT_ROOM_ID m' = Some r"
    using gc_only_idle_rooms [OF sfu_reachable.init g i] r by blast
  then show ?thesis using g r by simp
qed

section \<open>Invites\<close>

text \<open>
  Minting compares the requester with the creator without normalising it: a creator whose
  id of a 32-byte key arrives without padding is refused an invite for its own room under the
  owner policy, although the same peer is recognised as the creator everywhere else, and the
  padded spelling succeeds.
\<close>

lemma unpadded_creator_cannot_mint:
  assumes "length (trim_end (CHR ''='') c) = 43" "get_room i m = Some r"
    and "sr_creator_id r = normalize_peer_id c" "sr_invite_policy r = ''owner''"
  shows "fst (generate_invite_token_checked nonce i (trim_end (CHR ''='') c) m) = NotAuthorized \<and>
    is_peer_allowed r (trim_end (CHR ''='') c) \<and> is_invite_eligible_member r (trim_end (CHR ''='') c) \<and>
    fst (generate_invite_token_checked nonce i (normalize_peer_id c) m) = MintOk nonce"
proof -
  let ?b = "trim_end (CHR ''='') c"
  have n: "normalize_peer_id c = ?b @ ''=''" "normalize_peer_id ?b = ?b @ ''=''"
    using assms(1) by (simp_all add: normalize_peer_id_def normalize_public_id_def)
  then have "?b \<noteq> normalize_peer_id c" by simp
  then show ?thesis
    using assms(2-4) n
    by (auto simp: generate_invite_token_checked_def get_room_def is_peer_allowed_def
        is_invite_eligible_member_def Let_def)
qed

lemma unpadded_creator_cannot_mint_witness:
  "fst (generate_invite_token_checked ''n'' ''x'' (replicate 43 (CHR ''A''))
     (snd (create_room (\<lambda>_. []) 5 (Some ''x'') ''X'' Private (replicate 43 (CHR ''A'')) new_manager))) = NotAuthorized"
proof -
  let ?c = "replicate 43 (CHR ''A'')"
  let ?m = "snd (create_room (\<lambda>_. []) 5 (Some ''x'') ''X'' Private ?c new_manager)"
  let ?r = "mark_unused_if_empty 5 ((new_room ''x'' ''X'' Private ?c)\<lparr>sr_invite_policy := ''owner''\<rparr>)"
  have t: "trim_end (CHR ''='') ?c = ?c" by (rule trim_end_id) (simp add: last_replicate)
  have g: "get_room ''x'' ?m = Some ?r"
    by (simp add: create_room_def create_room_with_policy_def get_room_def new_manager_def DEFAULT_ROOM_ID_def
        normalize_invite_policy_def Let_def)
  have f: "sr_creator_id ?r = normalize_peer_id ?c" "sr_invite_policy ?r = ''owner''"
    by (simp_all add: new_room_def) (simp add: mark_unused_if_empty_def is_unused_def)
  show ?thesis using unpadded_creator_cannot_mint [OF _ g f, of "''n''"] t by simp
qed

end
