(* ===== verification/Space_Admission.thy ===== *)
theory Space_Admission
  imports Space Sfu_Manager
begin

text \<open>
  Proof-carrying admission on a supernode, \<open>conquerd-supernode/src/main.rs\<close>: the store of the highest
  signed root per space, the admission decision, and the parts of the join and invite handlers that
  decide whether a peer enters a room. JSON parsing is done by \<open>serde_json\<close>; \<open>admission_payload\<close>
  holds the fields of a payload that parsed. Roots handed to the cluster link are returned in order.
\<close>

section \<open>The store of signed roots\<close>

record space_root_store =
  rs_roots :: "string \<rightharpoonup> signed_space_root"
  rs_equivocations :: "string \<rightharpoonup> u32"

definition new_root_store :: space_root_store where
  "new_root_store = \<lparr>rs_roots = Map.empty, rs_equivocations = Map.empty\<rparr>"

definition store_root :: "signed_space_root \<Rightarrow> space_root_store \<Rightarrow> space_root_store" where
  "store_root sroot s = s\<lparr>rs_roots := (rs_roots s)(rt_space_id sroot \<mapsto> sroot)\<rparr>"

definition accept_root :: "crates \<Rightarrow> signed_space_root \<Rightarrow> space_root_store \<Rightarrow> bool \<times> space_root_store" where
  "accept_root C sroot s =
     (if \<not> root_verify C sroot then (False, s)
      else case rs_roots s (rt_space_id sroot) of
        Some existing \<Rightarrow>
          if rt_signer existing \<noteq> rt_signer sroot then (False, s)
          else if rt_epoch sroot = rt_epoch existing \<and> rt_root_hash sroot \<noteq> rt_root_hash existing then
            (let count = (case rs_equivocations s (rt_space_id sroot) of None \<Rightarrow> 0 | Some c \<Rightarrow> c)
             in (False, s\<lparr>rs_equivocations := (rs_equivocations s)(rt_space_id sroot \<mapsto> count + 1)\<rparr>))
          else if rt_epoch sroot \<le> rt_epoch existing then (False, s)
          else (True, store_root sroot s)
      | None \<Rightarrow> (True, store_root sroot s))"

definition get_root :: "string \<Rightarrow> space_root_store \<Rightarrow> signed_space_root option" where
  "get_root i s = rs_roots s i"

definition all_roots :: "space_root_store \<Rightarrow> signed_space_root set" where
  "all_roots s = ran (rs_roots s)"

definition equivocation_count :: "space_root_store \<Rightarrow> u32" where
  "equivocation_count s = (\<Sum>i \<in> dom (rs_equivocations s). the (rs_equivocations s i))"

section \<open>The admission decision\<close>

definition space_admission_ok :: "crates \<Rightarrow> signed_space_root \<Rightarrow> space_inclusion_proof \<Rightarrow> space_grant option \<Rightarrow>
    peer_id \<Rightarrow> room_id \<Rightarrow> u64 \<Rightarrow> bool" where
  "space_admission_ok C sroot p carried_grant sender room_id now =
     (if sn_node_id (ip_node p) \<noteq> room_id \<or> \<not> verify_against C p sroot then False
      else if sn_node_type (ip_node p) \<noteq> ''private'' then True
      else case carried_grant of
        None \<Rightarrow> False
      | Some g \<Rightarrow>
          if \<not> grant_verify C g (rt_signer sroot) \<or> gr_node_id g \<noteq> room_id
             \<or> trim_end (CHR ''='') (gr_grantee_pub g) \<noteq> trim_end (CHR ''='') sender
             \<or> gr_epoch g > rt_epoch sroot
          then False
          else gr_expires_at g = 0 \<or> now \<le> gr_expires_at g)"

section \<open>Handlers\<close>

record admission_payload =
  ap_space_proof :: "space_inclusion_proof option"
  ap_space_root :: "signed_space_root option"
  ap_space_grant :: "space_grant option"
  ap_invite_token :: string

record supernode_rooms =
  sn_roots :: space_root_store
  sn_sfu :: "sfu_manager option"

definition accept_and_gossip_space_root :: "crates \<Rightarrow> signed_space_root \<Rightarrow> supernode_rooms \<Rightarrow>
    bool \<times> signed_space_root list \<times> supernode_rooms" where
  "accept_and_gossip_space_root C sroot st =
     (let (accepted, roots) = accept_root C sroot (sn_roots st)
      in (accepted, if accepted then [sroot] else [], st\<lparr>sn_roots := roots\<rparr>))"

definition local_allow_room_peer :: "crates \<Rightarrow> real \<Rightarrow> room_id \<Rightarrow> string \<Rightarrow> string \<Rightarrow> peer_id \<Rightarrow>
    supernode_rooms \<Rightarrow> supernode_rooms" where
  "local_allow_room_peer C clock room_id room_name room_type p st =
     (case sn_sfu st of
        None \<Rightarrow> st
      | Some m \<Rightarrow>
          let rtype = (if room_type = ''public'' then Public else Private);
              m1 = snd (create_room (sha256_hex C) clock (Some room_id) room_name rtype [] m)
          in st\<lparr>sn_sfu := Some (snd (allow_peer room_id p m1))\<rparr>)"

definition materialize_node :: "crates \<Rightarrow> real \<Rightarrow> room_id \<Rightarrow> space_node \<Rightarrow> supernode_rooms \<Rightarrow> supernode_rooms" where
  "materialize_node C clock room_id node st =
     (case sn_sfu st of
        None \<Rightarrow> st
      | Some m \<Rightarrow>
          let rt = (if sn_node_type node = ''private'' then Private else Public);
              m1 = snd (create_room_with_policy (sha256_hex C) clock (Some room_id) (sn_name node) rt []
                          (sn_invite_policy node) m);
              m2 = snd (adopt_creator_if_empty room_id (sn_owner_pub node) m1)
          in st\<lparr>sn_sfu := Some m2\<rparr>)"

definition try_space_admission :: "crates \<Rightarrow> real \<Rightarrow> u64 \<Rightarrow> peer_id \<Rightarrow> room_id \<Rightarrow> admission_payload \<Rightarrow>
    supernode_rooms \<Rightarrow> bool \<times> signed_space_root list \<times> supernode_rooms" where
  "try_space_admission C clock now sender room_id payload st =
     (case ap_space_proof payload of
        None \<Rightarrow> (False, [], st)
      | Some p \<Rightarrow>
      if sn_node_id (ip_node p) \<noteq> room_id then (False, [], st)
      else case ap_space_root payload of
        None \<Rightarrow> (False, [], st)
      | Some carried \<Rightarrow>
          let (_, out, st1) = accept_and_gossip_space_root C carried st in
          case get_root (rt_space_id carried) (sn_roots st1) of
            None \<Rightarrow> (False, out, st1)
          | Some sroot \<Rightarrow>
              if \<not> verify_against C p sroot then (False, out, st1)
              else
                let rtype = (if sn_node_type (ip_node p) = ''private'' then ''private'' else ''public'');
                    st2 = materialize_node C clock room_id (ip_node p) st1
                in if \<not> space_admission_ok C sroot p (ap_space_grant payload) sender room_id now
                   then (False, out, st2)
                   else (True, out, local_allow_room_peer C clock room_id (sn_name (ip_node p)) rtype sender st2))"

definition reseed_creator :: "room_id \<Rightarrow> peer_id \<Rightarrow> sfu_manager \<Rightarrow> peer_id" where
  "reseed_creator room_id sender m =
     (let creator = (case get_room room_id m of Some r \<Rightarrow> sr_creator_id r | None \<Rightarrow> [])
      in if creator = [] then sender else creator)"

text \<open>The part of \<open>handle_sfu_join\<close> that decides membership.\<close>

definition sfu_join_membership :: "crates \<Rightarrow> real \<Rightarrow> u64 \<Rightarrow> peer_id \<Rightarrow> room_id \<Rightarrow> admission_payload \<Rightarrow>
    supernode_rooms \<Rightarrow> bool \<times> supernode_rooms" where
  "sfu_join_membership C clock now sender room_id payload st =
     (if sn_sfu st = None then (False, st)
      else let (_, _, st1) = try_space_admission C clock now sender room_id payload st;
               m = the (sn_sfu st1);
               token = ap_invite_token payload;
               m1 = (if token = [] then m
                     else let (ok, m') = reregister_room_token room_id token (reseed_creator room_id sender m) m
                          in if ok then snd (allow_peer room_id sender m') else m');
               ((joined, _), m2) = join_room sender room_id m1
           in (joined, st1\<lparr>sn_sfu := Some m2\<rparr>))"

text \<open>The part of \<open>handle_sfu_room_invite\<close> that decides the \<open>accepted\<close> flag of the reply.\<close>

definition sfu_room_invite_valid :: "crates \<Rightarrow> real \<Rightarrow> u64 \<Rightarrow> peer_id \<Rightarrow> room_id \<Rightarrow> admission_payload \<Rightarrow>
    supernode_rooms \<Rightarrow> bool \<times> supernode_rooms" where
  "sfu_room_invite_valid C clock now sender room_id payload st =
     (case sn_sfu st of
        None \<Rightarrow> (False, st)
      | Some m0 \<Rightarrow>
          let already_member = (case get_room room_id m0 of Some r \<Rightarrow> is_peer_allowed r sender | None \<Rightarrow> False);
              (by_proof, _, st1) = try_space_admission C clock now sender room_id payload st;
              m = the (sn_sfu st1);
              token = ap_invite_token payload;
              (by_token, m2) =
                (if \<not> by_proof \<and> token \<noteq> [] then
                   let m1 = snd (reregister_room_token room_id token (reseed_creator room_id sender m) m)
                   in validate_room_invite room_id token sender m1
                 else (False, m))
          in (by_proof \<or> by_token \<or> already_member, st1\<lparr>sn_sfu := Some m2\<rparr>))"

definition handle_space_root_announce :: "crates \<Rightarrow> peer_id \<Rightarrow> signed_space_root option \<Rightarrow> supernode_rooms \<Rightarrow>
    signed_space_root list \<times> supernode_rooms" where
  "handle_space_root_announce C sender sroot st =
     (case sroot of
        None \<Rightarrow> ([], st)
      | Some r \<Rightarrow>
          if trim_end (CHR ''='') (rt_signer r) \<noteq> trim_end (CHR ''='') sender then ([], st)
          else snd (accept_and_gossip_space_root C r st))"

section \<open>Histories of the sroot store\<close>

fun accept_all :: "crates \<Rightarrow> signed_space_root list \<Rightarrow> space_root_store \<Rightarrow> space_root_store" where
  "accept_all C [] s = s"
| "accept_all C (r # rs) s = accept_all C rs (snd (accept_root C r s))"

definition root_history :: "crates \<Rightarrow> signed_space_root list \<Rightarrow> space_root_store" where
  "root_history C rs = accept_all C rs new_root_store"

text \<open>Held roots verify, are filed under their own space, and come from the given offers.\<close>

definition roots_ok :: "crates \<Rightarrow> signed_space_root set \<Rightarrow> space_root_store \<Rightarrow> bool" where
  "roots_ok C R s \<longleftrightarrow> (\<forall>i r. rs_roots s i = Some r \<longrightarrow> rt_space_id r = i \<and> root_verify C r \<and> r \<in> R)"

lemma accept_root_roots:
  "rs_roots (snd (accept_root C r s)) =
     (if fst (accept_root C r s) then (rs_roots s)(rt_space_id r \<mapsto> r) else rs_roots s)"
  by (auto simp: accept_root_def store_root_def Let_def split: option.splits)

lemma accept_root_newer:
  assumes "fst (accept_root C r s)"
  shows "root_verify C r \<and>
    (\<forall>e. rs_roots s (rt_space_id r) = Some e \<longrightarrow> rt_signer e = rt_signer r \<and> rt_epoch e < rt_epoch r)"
  using assms by (auto simp: accept_root_def split: if_splits option.splits)

lemma accept_root_iff:
  "fst (accept_root C r s) \<longleftrightarrow> root_verify C r \<and>
    (\<forall>e. rs_roots s (rt_space_id r) = Some e \<longrightarrow> rt_signer e = rt_signer r \<and> rt_epoch e < rt_epoch r)"
  by (cases "rs_roots s (rt_space_id r)") (auto simp: accept_root_def Let_def)

lemma accept_all_append: "accept_all C (xs @ ys) s = accept_all C ys (accept_all C xs s)"
  by (induction xs arbitrary: s) auto

lemma roots_ok_accept_all: "roots_ok C R s \<Longrightarrow> roots_ok C (R \<union> set rs) (accept_all C rs s)"
proof (induction rs arbitrary: R s)
  case (Cons r rs)
  have "roots_ok C (insert r R) (snd (accept_root C r s))"
    using Cons.prems accept_root_newer [of C r s] by (auto simp: roots_ok_def accept_root_roots)
  from Cons.IH [OF this] show ?case by simp
qed simp

lemma held_root_advances:
  assumes "roots_ok C R s" "rs_roots s i = Some a"
  shows "\<exists>b. rs_roots (accept_all C rs s) i = Some b \<and> rt_signer b = rt_signer a \<and>
    (b = a \<or> rt_epoch a < rt_epoch b)"
  using assms
proof (induction rs arbitrary: R s a)
  case (Cons r rs)
  let ?s = "snd (accept_root C r s)"
  have ok: "roots_ok C (insert r R) ?s"
    using roots_ok_accept_all [OF Cons.prems(1), of "[r]"] by simp
  obtain b where b: "rs_roots ?s i = Some b" "rt_signer b = rt_signer a" "b = a \<or> rt_epoch a < rt_epoch b"
  proof (cases "fst (accept_root C r s) \<and> rt_space_id r = i")
    case True
    then show ?thesis
      using that [of r] Cons.prems(2) accept_root_newer [of C r s] by (auto simp: accept_root_roots)
  next
    case False
    then show ?thesis using that [of a] Cons.prems(2) by (auto simp: accept_root_roots)
  qed
  obtain c where "rs_roots (accept_all C rs ?s) i = Some c" "rt_signer c = rt_signer b" "c = b \<or> rt_epoch b < rt_epoch c"
    using Cons.IH [OF ok b(1)] by blast
  with b show ?case by auto
qed simp

section \<open>The decision on the owner's own artefacts\<close>

lemma admission_of_proof:
  assumes "crates_ok C" "signs_for C (sp_owner_pub sp) sign" "length (sp_nodes sp) < 2 ^ 32"
    and "prove C sp i = Some p" "sn_node_id (ip_node p) = i"
  shows "space_admission_ok C (signed_root C sp t sign) p (Some (grant C sp i g e sign)) sender i now \<longleftrightarrow>
    sn_node_type (ip_node p) \<noteq> ''private'' \<or>
    trim_end (CHR ''='') g = trim_end (CHR ''='') sender \<and> (e = 0 \<or> now \<le> e)"
proof -
  have v: "verify_against C p (signed_root C sp t sign)"
    by (rule prove_verifies [OF assms(1,3,4)]) simp_all
  have g: "grant_verify C (grant C sp i g e sign) (sp_owner_pub sp)"
    by (rule grant_verifies [OF assms(1,2)])
  have "gr_node_id (grant C sp i g e sign) = i" "gr_epoch (grant C sp i g e sign) = sp_epoch sp"
    "gr_grantee_pub (grant C sp i g e sign) = g" "gr_expires_at (grant C sp i g e sign) = e"
    by (simp_all add: grant_def Let_def)
  with v g assms(5) show ?thesis by (simp add: space_admission_ok_def)
qed

text \<open>What a grant has to be for the decision to rest on it.\<close>

definition grant_admits :: "crates \<Rightarrow> signed_space_root \<Rightarrow> space_grant \<Rightarrow> peer_id \<Rightarrow> room_id \<Rightarrow> u64 \<Rightarrow> bool" where
  "grant_admits C rt g sender i now \<longleftrightarrow>
     signed_by C (rt_signer rt) (gr_signature g) (grant_signing_bytes C g) \<and> gr_node_id g = i \<and>
     trim_end (CHR ''='') (gr_grantee_pub g) = trim_end (CHR ''='') sender \<and>
     gr_epoch g \<le> rt_epoch rt \<and> (gr_expires_at g = 0 \<or> now \<le> gr_expires_at g)"

lemma space_admission_okD:
  assumes "space_admission_ok C rt p g sender i now"
  shows "verify_against C p rt \<and> sn_node_id (ip_node p) = i \<and>
    (sn_node_type (ip_node p) = ''private'' \<longrightarrow> (\<exists>gr. g = Some gr \<and> grant_admits C rt gr sender i now))"
  using assms by (auto simp: space_admission_ok_def grant_admits_def grant_verify_def not_less split: if_splits option.splits)

section \<open>Joining after an allow\<close>

lemma join_after_allow:
  assumes "sm_rooms m i = Some r" "\<not> is_full r"
  shows "fst (fst (join_room p i (snd (allow_peer i p m))))"
proof -
  have "is_peer_allowed (allow_room_peer p r) p"
    by (simp add: is_peer_allowed_def allow_room_peer_def Let_def)
  moreover have "fst (add_participant q (allow_room_peer p r))" for q
    using assms(2) by (simp add: add_participant_def Let_def is_full_def allow_room_peer_def)
  ultimately show ?thesis
    using assms(1) by (simp add: join_room_def allow_peer_def Let_def case_prod_beta)
qed

lemma not_full_cong: "sr_participants r' = sr_participants r \<Longrightarrow> is_full r' = is_full r"
  by (simp add: is_full_def)

text \<open>
  A space of one public node that claims the id of a room: what a peer can build and sign with its
  own key for a room that is not its own.
\<close>

definition own_space :: "peer_id \<Rightarrow> string \<Rightarrow> room_id \<Rightarrow> space" where
  "own_space p sid i = \<lparr>sp_space_id = sid, sp_owner_pub = p, sp_epoch = 0, sp_nodes =
     [\<lparr>sn_node_id = i, sn_parent_id = sid, sn_kind = ''room'', sn_name = ''room'', sn_node_type = ''public'',
       sn_owner_pub = p, sn_invite_policy = [], sn_inherit = False, sn_key_commit = []\<rparr>]\<rparr>"

definition own_payload :: "crates \<Rightarrow> (bytes \<Rightarrow> bytes) \<Rightarrow> peer_id \<Rightarrow> string \<Rightarrow> room_id \<Rightarrow> admission_payload" where
  "own_payload C sign p sid i = \<lparr>ap_space_proof = prove C (own_space p sid i) i,
     ap_space_root = Some (signed_root C (own_space p sid i) 0 sign), ap_space_grant = None, ap_invite_token = []\<rparr>"

lemma prove_own_space:
  obtains p where "prove C (own_space q sid i) i = Some p" "ip_node p = hd (sp_nodes (own_space q sid i))"
  by (auto simp: prove_def sorted_nodes_def own_space_def)

lemma materialize_existing:
  assumes "sn_sfu st = Some m" "sm_rooms m i = Some r"
  obtains m2 r2 where "sn_sfu (materialize_node C clock i n st) = Some m2" "sm_rooms m2 i = Some r2"
    "sr_participants r2 = sr_participants r"
proof -
  obtain r2 where r2: "sm_rooms (snd (adopt_creator_if_empty i (sn_owner_pub n) m)) i = Some r2"
      "sr_participants r2 = sr_participants r"
    using assms(2) by (cases "sn_owner_pub n = [] \<or> sr_creator_id r \<noteq> []") (auto simp: adopt_creator_if_empty_def)
  have "sn_sfu (materialize_node C clock i n st) = Some (snd (adopt_creator_if_empty i (sn_owner_pub n) m))"
    using assms by (simp add: materialize_node_def create_room_with_policy_def Let_def)
  with r2 that show thesis by blast
qed

lemma local_allow_existing:
  assumes "sn_sfu st = Some m" "sm_rooms m i = Some r"
  shows "sn_sfu (local_allow_room_peer C clock i nm ty p st) = Some (snd (allow_peer i p m))"
  using assms by (simp add: local_allow_room_peer_def create_room_def create_room_with_policy_def Let_def)

lemma own_payload_admits:
  assumes "crates_ok C" "signs_for C p sign" "rs_roots (sn_roots st) sid = None"
    and "sn_sfu st = Some m" "sm_rooms m i = Some r"
  obtains m2 r2 where "sn_sfu (snd (snd (try_space_admission C clock now p i (own_payload C sign p sid i) st)))
      = Some (snd (allow_peer i p m2))" "sm_rooms m2 i = Some r2" "sr_participants r2 = sr_participants r"
proof -
  let ?sp = "own_space p sid i"
  let ?rt = "signed_root C ?sp 0 sign"
  let ?st = "st\<lparr>sn_roots := store_root ?rt (sn_roots st)\<rparr>"
  obtain q where q: "prove C ?sp i = Some q" "ip_node q = hd (sp_nodes ?sp)" by (rule prove_own_space)
  have node: "sn_node_id (ip_node q) = i" "sn_node_type (ip_node q) = ''public''"
    by (simp_all add: q(2) own_space_def)
  have v: "verify_against C q ?rt"
    by (rule prove_verifies [OF assms(1) _ q(1)]) (simp_all add: own_space_def)
  have rv: "root_verify C ?rt"
    by (rule signed_root_verifies [OF assms(1)]) (simp add: own_space_def assms(2))
  have id: "rt_space_id ?rt = sid" by (simp add: own_space_def)
  have acc: "accept_and_gossip_space_root C ?rt st = (True, [?rt], ?st)"
    using rv assms(3) id by (simp add: accept_and_gossip_space_root_def accept_root_def)
  have got: "get_root sid (sn_roots ?st) = Some ?rt" using id by (simp add: get_root_def store_root_def)
  have ok: "space_admission_ok C ?rt q None p i now" using v node by (simp add: space_admission_ok_def)
  have sfu: "sn_sfu ?st = Some m" using assms(4) by simp
  obtain m2 r2 where m2: "sn_sfu (materialize_node C clock i (ip_node q) ?st) = Some m2" "sm_rooms m2 i = Some r2"
      "sr_participants r2 = sr_participants r"
    by (rule materialize_existing [OF sfu assms(5)])
  have "try_space_admission C clock now p i (own_payload C sign p sid i) st = (True, [?rt],
      local_allow_room_peer C clock i (sn_name (ip_node q)) ''public'' p (materialize_node C clock i (ip_node q) ?st))"
    using node v ok acc got id by (simp add: try_space_admission_def own_payload_def q(1) Let_def)
  then show thesis using that [of m2 r2] local_allow_existing [OF m2(1,2)] m2 by simp
qed

lemma token_reseed_admits:
  assumes "sm_rooms m i = Some r" "tok \<noteq> []"
  obtains m' r' where "reregister_room_token i tok c m = (True, m')" "sm_rooms m' i = Some r'"
    "sr_participants r' = sr_participants r"
  using assms by (simp add: reregister_room_token_def reregister_invite_token_def)

section \<open>Properties\<close>

text \<open>
  C33. Whatever roots are offered, in any order, the store holds for a space only a root that was
  offered, verifies and names that space. Once a root is held, later states hold one of the same
  signer that is the same root or has a larger epoch: a second root for one epoch never replaces
  the first. A root is accepted exactly when it verifies and nothing is held for its space, or what
  is held has the same signer and a smaller epoch.
\<close>

theorem root_store_monotone:
  "(\<forall>i r. rs_roots (root_history C rs) i = Some r \<longrightarrow> rt_space_id r = i \<and> root_verify C r \<and> r \<in> set rs) \<and>
    (\<forall>i a. rs_roots (root_history C rs) i = Some a \<longrightarrow>
       (\<exists>b. rs_roots (root_history C (rs @ later)) i = Some b \<and> rt_signer b = rt_signer a \<and> (b = a \<or> rt_epoch a < rt_epoch b))) \<and>
    (fst (accept_root C r (root_history C rs)) \<longleftrightarrow> root_verify C r \<and>
       (\<forall>e. rs_roots (root_history C rs) (rt_space_id r) = Some e \<longrightarrow> rt_signer e = rt_signer r \<and> rt_epoch e < rt_epoch r))"
proof -
  have app: "root_history C (rs @ later) = accept_all C later (root_history C rs)"
    by (simp add: root_history_def accept_all_append)
  have ok: "roots_ok C (set rs) (root_history C rs)"
    using roots_ok_accept_all [of C "{}" new_root_store rs] by (simp add: root_history_def roots_ok_def new_root_store_def)
  show ?thesis
  proof (intro conjI)
    show "\<forall>i r. rs_roots (root_history C rs) i = Some r \<longrightarrow> rt_space_id r = i \<and> root_verify C r \<and> r \<in> set rs"
      using ok by (simp add: roots_ok_def)
    show "\<forall>i a. rs_roots (root_history C rs) i = Some a \<longrightarrow>
       (\<exists>b. rs_roots (root_history C (rs @ later)) i = Some b \<and> rt_signer b = rt_signer a \<and> (b = a \<or> rt_epoch a < rt_epoch b))"
      using held_root_advances [OF ok] app by simp
  qed (rule accept_root_iff)
qed

theorem root_store_monotone_witness:
  "let C = plain_crates; sp = new_server C plain_signer ''srv''; sign = (\<lambda>m. replicate 64 0);
       r0 = signed_root C sp 0 sign; r1 = signed_root C (snd (upsert_node (hd (sp_nodes sp)) sp)) 0 sign in
   rs_roots (root_history C [r0]) (sp_space_id sp) = Some r0 \<and>
   fst (accept_root C r1 (root_history C [r0])) \<and> \<not> fst (accept_root C r0 (root_history C [r0]))"
proof -
  let ?C = plain_crates and ?sign = "\<lambda>m. replicate 64 0 :: bytes"
  let ?sp = "new_server ?C plain_signer ''srv''"
  let ?r0 = "signed_root ?C ?sp 0 ?sign" and ?r1 = "signed_root ?C (snd (upsert_node (hd (sp_nodes ?sp)) ?sp)) 0 ?sign"
  have own: "sp_owner_pub ?sp = plain_signer" "sp_owner_pub (snd (upsert_node (hd (sp_nodes ?sp)) ?sp)) = plain_signer"
    "sp_space_id (snd (upsert_node (hd (sp_nodes ?sp)) ?sp)) = sp_space_id ?sp" "sp_epoch ?sp = 0"
    "sp_epoch (snd (upsert_node (hd (sp_nodes ?sp)) ?sp)) = 1"
    by (simp_all add: new_server_def Let_def upsert_node_def)
  have v: "root_verify ?C ?r0" "root_verify ?C ?r1"
    using signed_root_verifies [OF plain_crates_ok] plain_signs_for own by simp_all
  have h: "rs_roots (root_history ?C [?r0]) (sp_space_id ?sp) = Some ?r0"
    using v(1) by (simp add: root_history_def new_root_store_def accept_root_def store_root_def)
  show ?thesis
    using root_store_monotone [of ?C "[?r0]" "[]" ?r1] root_store_monotone [of ?C "[?r0]" "[]" ?r0] h v own
    by (simp add: Let_def)
qed

text \<open>
  C17. The admission decision. If it says yes against a root that commits to a space, then, unless the
  proof exhibits a SHA-256 collision, the room is a node of that space, and when the node is private
  the peer holds a grant for this room and this peer that the signer of the root signed, that is not
  expired and not from a later epoch. On the proofs and grants an owner makes, the answer is yes
  exactly when the node is not private, or the grant names the peer and has not expired.
\<close>

theorem space_admission_correct:
  assumes "crates_ok C" "length (sp_nodes sp) < 2 ^ 32"
  shows "(rt_root_hash rt = root_hash C sp \<and> rt_node_count rt = word_of_nat (length (sp_nodes sp)) \<and>
      space_admission_ok C rt p g sender i now \<longrightarrow>
      collides (cr_sha256 C) (space_collision C sp p) \<or>
      (\<exists>n \<in> set (sp_nodes sp). sn_node_id n = i \<and>
         (sn_node_type n = ''private'' \<longrightarrow> (\<exists>gr. g = Some gr \<and> grant_admits C rt gr sender i now)))) \<and>
    (signs_for C (sp_owner_pub sp) sign \<and> prove C sp i = Some q \<longrightarrow>
      (space_admission_ok C (signed_root C sp t sign) q (Some (grant C sp i who e sign)) sender i now \<longleftrightarrow>
       sn_node_type (ip_node q) \<noteq> ''private'' \<or>
       trim_end (CHR ''='') who = trim_end (CHR ''='') sender \<and> (e = 0 \<or> now \<le> e)))"
proof (intro conjI impI)
  assume a: "rt_root_hash rt = root_hash C sp \<and> rt_node_count rt = word_of_nat (length (sp_nodes sp)) \<and>
      space_admission_ok C rt p g sender i now"
  note d = space_admission_okD [of C rt p g sender i now]
  from a d have v: "verify_against C p rt" by blast
  from a verified_node_known [OF assms(1) v _ _ assms(2)]
  have "ip_node p \<in> set (sp_nodes sp) \<or> collides (cr_sha256 C) (space_collision C sp p)" by blast
  with a d show "collides (cr_sha256 C) (space_collision C sp p) \<or>
      (\<exists>n \<in> set (sp_nodes sp). sn_node_id n = i \<and>
         (sn_node_type n = ''private'' \<longrightarrow> (\<exists>gr. g = Some gr \<and> grant_admits C rt gr sender i now)))" by blast
next
  assume a: "signs_for C (sp_owner_pub sp) sign \<and> prove C sp i = Some q"
  then have "sn_node_id (ip_node q) = i"
    using position_Some [of "\<lambda>n. sn_node_id n = i" "sorted_nodes sp"] by (auto simp: prove_def split: option.splits)
  with a show "space_admission_ok C (signed_root C sp t sign) q (Some (grant C sp i who e sign)) sender i now \<longleftrightarrow>
       sn_node_type (ip_node q) \<noteq> ''private'' \<or>
       trim_end (CHR ''='') who = trim_end (CHR ''='') sender \<and> (e = 0 \<or> now \<le> e)"
    using admission_of_proof [OF assms(1) _ assms(2)] by simp
qed

text \<open>A private room of the concrete instance, used by the witnesses.\<close>

definition demo_space :: space where
  "demo_space = \<lparr>sp_space_id = ''s'', sp_owner_pub = plain_signer, sp_epoch = 3, sp_nodes =
     [\<lparr>sn_node_id = ''r'', sn_parent_id = ''s'', sn_kind = ''room'', sn_name = ''n'', sn_node_type = ''private'',
       sn_owner_pub = plain_signer, sn_invite_policy = [], sn_inherit = False, sn_key_commit = []\<rparr>]\<rparr>"

theorem space_admission_correct_witness:
  "let C = plain_crates; sign = (\<lambda>m. replicate 64 0); q = the (prove C demo_space ''r'');
       g = grant C demo_space ''r'' ''bob='' 100 sign; rt = signed_root C demo_space 0 sign in
   space_admission_ok C rt q (Some g) ''bob'' ''r'' 100 \<and> \<not> space_admission_ok C rt q (Some g) ''bob'' ''r'' 101 \<and>
   \<not> space_admission_ok C rt q (Some g) ''eve'' ''r'' 1"
proof -
  let ?C = plain_crates and ?sign = "\<lambda>m. replicate 64 0 :: bytes"
  obtain q where q: "prove ?C demo_space ''r'' = Some q" "sn_node_type (ip_node q) = ''private''"
    by (auto simp: prove_def demo_space_def sorted_nodes_def)
  have len: "length (sp_nodes demo_space) < 2 ^ 32" and s: "signs_for ?C (sp_owner_pub demo_space) ?sign"
    using plain_signs_for by (simp_all add: demo_space_def)
  have *: "space_admission_ok ?C (signed_root ?C demo_space 0 ?sign) q
      (Some (grant ?C demo_space ''r'' ''bob='' 100 ?sign)) who ''r'' now \<longleftrightarrow>
      trim_end (CHR ''='') ''bob='' = trim_end (CHR ''='') who \<and> ((100 :: u64) = 0 \<or> now \<le> 100)" for who now
    using space_admission_correct [OF plain_crates_ok len] s q by blast
  show ?thesis by (simp add: Let_def q * trim_end_def)
qed

text \<open>
  Private rooms do not keep strangers out. For every room of the supernode that is not full, private
  or not, a peer that no one invited joins with a space it made itself: one public node that carries
  the room's id, in a root signed with the peer's own key under a space id the store does not know.
  It also joins with any non-empty string as the invite token of the join, because the handler
  first registers the presented token and then admits its bearer.
\<close>

lemma private_room_admits_strangers:
  assumes "crates_ok C" "signs_for C p sign" "rs_roots (sn_roots st) sid = None"
    and "sn_sfu st = Some m" "sm_rooms m i = Some r" "\<not> is_full r" "tok \<noteq> []"
  shows "fst (sfu_join_membership C clock now p i (own_payload C sign p sid i) st) \<and>
    fst (sfu_join_membership C clock now p i
      \<lparr>ap_space_proof = None, ap_space_root = None, ap_space_grant = None, ap_invite_token = tok\<rparr> st)"
proof
  obtain m2 r2 where m2: "sn_sfu (snd (snd (try_space_admission C clock now p i (own_payload C sign p sid i) st)))
      = Some (snd (allow_peer i p m2))" "sm_rooms m2 i = Some r2" "sr_participants r2 = sr_participants r"
    by (rule own_payload_admits [OF assms(1-5)])
  have "ap_invite_token (own_payload C sign p sid i) = []" by (simp add: own_payload_def)
  then show "fst (sfu_join_membership C clock now p i (own_payload C sign p sid i) st)"
    using assms(4,6) m2 join_after_allow [OF m2(2), of p] not_full_cong [OF m2(3)]
    by (simp add: sfu_join_membership_def case_prod_beta Let_def)
  obtain m' r' where m': "reregister_room_token i tok (reseed_creator i p m) m = (True, m')" "sm_rooms m' i = Some r'"
      "sr_participants r' = sr_participants r"
    by (rule token_reseed_admits [OF assms(5,7)])
  then show "fst (sfu_join_membership C clock now p i
      \<lparr>ap_space_proof = None, ap_space_root = None, ap_space_grant = None, ap_invite_token = tok\<rparr> st)"
    using assms(4,6,7) join_after_allow [OF m'(2), of p] not_full_cong [OF m'(3)]
    by (simp add: sfu_join_membership_def try_space_admission_def case_prod_beta Let_def)
qed

lemma private_room_admits_strangers_witness:
  "let m = \<lparr>sm_rooms = [''r'' \<mapsto> new_room ''r'' ''n'' Private ''alice'']\<rparr>;
       st = \<lparr>sn_roots = new_root_store, sn_sfu = Some m\<rparr> in
   \<not> fst (fst (join_room plain_signer ''r'' m)) \<and>
   fst (sfu_join_membership plain_crates 0 0 plain_signer ''r''
      (own_payload plain_crates (\<lambda>m. replicate 64 0) plain_signer ''s'' ''r'') st) \<and>
   fst (sfu_join_membership plain_crates 0 0 plain_signer ''r''
      \<lparr>ap_space_proof = None, ap_space_root = None, ap_space_grant = None, ap_invite_token = ''x''\<rparr> st)"
proof -
  let ?m = "\<lparr>sm_rooms = [''r'' \<mapsto> new_room ''r'' ''n'' Private ''alice'']\<rparr>"
  let ?st = "\<lparr>sn_roots = new_root_store, sn_sfu = Some ?m\<rparr>"
  have "''alice'' \<noteq> plain_signer" using plain_signer_neq [of "''alice''"] by simp
  moreover have "normalize_peer_id plain_signer = plain_signer"
    by (simp add: normalize_peer_id_def normalize_public_id_def plain_signer_def string_of_bytes_def)
  ultimately have "\<not> is_peer_allowed (new_room ''r'' ''n'' Private ''alice'') plain_signer"
    by (auto simp: is_peer_allowed_def Let_def is_public_def new_room_def normalize_peer_id_def
        normalize_public_id_def trim_end_def)
  moreover have "\<not> is_full (new_room ''r'' ''n'' Private ''alice'')"
    by (simp add: is_full_def new_room_def MAX_ROOM_SIZE_def)
  ultimately show ?thesis
    using private_room_admits_strangers [OF plain_crates_ok plain_signs_for, of ?st "''s''" ?m "''r''"
        "new_room ''r'' ''n'' Private ''alice''" "''x''" 0 0]
    by (simp add: Let_def new_root_store_def join_room_def)
qed

end
