(* ===== verification/Cluster.thy ===== *)
theory Cluster
  imports Crates "HOL-Library.Multiset"
begin

text \<open>
  Cluster membership: the operator's roster and the runtime queries on it
  (\<open>conquerd-supernode/src/cluster.rs\<close>), the signed roster advertised to clients, and the client's
  check of it (\<open>conquerd-client/src/cluster.rs\<close>).
\<close>

section \<open>Supernode side\<close>

record cluster_member =
  cm_identity_pub :: string
  cm_relay_addr :: string
  cm_cluster_addr :: "string option"
  cm_ws_addr :: "string option"

definition norm_id :: "string \<Rightarrow> string" where
  "norm_id i = trim_end (CHR ''='') i"

definition normalized_id :: "cluster_member \<Rightarrow> string" where
  "normalized_id m = trim_end (CHR ''='') (cm_identity_pub m)"

record cluster_config =
  cc_cluster_id :: string
  cc_members :: "cluster_member list"

datatype cluster_error = EmptyClusterId | EmptyRelayAddr string | DuplicateMember string | SelfNotListed

definition config_contains :: "cluster_config \<Rightarrow> string \<Rightarrow> bool" where
  "config_contains c identity_pub =
     (let want = norm_id identity_pub in list_ex (\<lambda>m. normalized_id m = want) (cc_members c))"

fun check_members :: "string set \<Rightarrow> cluster_member list \<Rightarrow> cluster_error + unit" where
  "check_members seen [] = Inr ()"
| "check_members seen (m # ms) =
     (if trim_ws (cm_relay_addr m) = [] then Inl (EmptyRelayAddr (cm_identity_pub m))
      else if normalized_id m \<in> seen then Inl (DuplicateMember (cm_identity_pub m))
      else check_members (insert (normalized_id m) seen) ms)"

definition validate_cluster :: "cluster_config \<Rightarrow> string \<Rightarrow> cluster_error + unit" where
  "validate_cluster c self_identity_pub =
     (if trim_ws (cc_cluster_id c) = [] then Inl EmptyClusterId
      else case check_members {} (cc_members c) of
        Inl e \<Rightarrow> Inl e
      | Inr _ \<Rightarrow>
          if cc_members c \<noteq> [] \<and> \<not> config_contains c self_identity_pub then Inl SelfNotListed
          else Inr ())"

record cluster_membership =
  cms_config :: cluster_config
  cms_self_id :: string

definition new_membership :: "cluster_config \<Rightarrow> string \<Rightarrow> cluster_membership" where
  "new_membership c self_identity_pub = \<lparr>cms_config = c, cms_self_id = norm_id self_identity_pub\<rparr>"

definition member_count :: "cluster_membership \<Rightarrow> nat" where
  "member_count ms = length (cc_members (cms_config ms))"

definition is_member :: "cluster_membership \<Rightarrow> string \<Rightarrow> bool" where
  "is_member ms i = config_contains (cms_config ms) i"

definition is_peer_member :: "cluster_membership \<Rightarrow> string \<Rightarrow> bool" where
  "is_peer_member ms identity_pub =
     (let i = norm_id identity_pub in i \<noteq> cms_self_id ms \<and> config_contains (cms_config ms) i)"

definition cluster_peers :: "cluster_membership \<Rightarrow> cluster_member list" where
  "cluster_peers ms = filter (\<lambda>m. normalized_id m \<noteq> cms_self_id ms) (cc_members (cms_config ms))"

definition self_member :: "cluster_membership \<Rightarrow> cluster_member option" where
  "self_member ms = find (\<lambda>m. normalized_id m = cms_self_id ms) (cc_members (cms_config ms))"

fun roster_tail :: "string list \<Rightarrow> string" where
  "roster_tail [] = []"
| "roster_tail (i # is) = CHR ''|'' # i @ roster_tail is"

definition canonical_bytes :: "cluster_membership \<Rightarrow> bytes" where
  "canonical_bytes ms =
     (let ids = sort (map normalized_id (cc_members (cms_config ms)))
      in as_bytes ''conquerd-cluster-v1|'' @ as_bytes (cc_cluster_id (cms_config ms)) @ as_bytes (roster_tail ids))"

record signed_cluster_descriptor =
  cd_cluster_id :: string
  cd_members :: "cluster_member list"
  cd_signer :: string
  cd_signature :: string

text \<open>The identity is its public id and its signing operation.\<close>

definition sign_cluster :: "crates \<Rightarrow> string \<Rightarrow> (bytes \<Rightarrow> bytes) \<Rightarrow> cluster_membership \<Rightarrow> signed_cluster_descriptor" where
  "sign_cluster C public_id sign ms =
     \<lparr>cd_cluster_id = cc_cluster_id (cms_config ms), cd_members = cc_members (cms_config ms),
      cd_signer = public_id, cd_signature = cr_b64_encode C (sign (canonical_bytes ms))\<rparr>"

definition descriptor_verify :: "crates \<Rightarrow> signed_cluster_descriptor \<Rightarrow> bool" where
  "descriptor_verify C d =
     signed_by C (cd_signer d) (cd_signature d)
       (canonical_bytes (new_membership \<lparr>cc_cluster_id = cd_cluster_id d, cc_members = cd_members d\<rparr> (cd_signer d)))"

section \<open>Client side\<close>

definition ws_url :: "string \<Rightarrow> cluster_member \<Rightarrow> string option" where
  "ws_url scheme m =
     (case cm_ws_addr m of
        None \<Rightarrow> None
      | Some a \<Rightarrow>
          let addr = trim_ws a in
          if addr = [] then None
          else if str_contains ''://'' addr then Some addr
          else Some (scheme @ ''://'' @ addr))"

definition client_canonical_bytes :: "signed_cluster_descriptor \<Rightarrow> bytes" where
  "client_canonical_bytes d =
     (let ids = sort (map (\<lambda>m. norm_id (cm_identity_pub m)) (cd_members d))
      in as_bytes ''conquerd-cluster-v1|'' @ as_bytes (cd_cluster_id d) @ as_bytes (roster_tail ids))"

definition client_verify :: "crates \<Rightarrow> signed_cluster_descriptor \<Rightarrow> bool" where
  "client_verify C d = signed_by C (cd_signer d) (cd_signature d) (client_canonical_bytes d)"

definition verified_members :: "crates \<Rightarrow> string \<Rightarrow> signed_cluster_descriptor \<Rightarrow> cluster_member list option" where
  "verified_members C expected_signer d =
     (if norm_id (cd_signer d) \<noteq> norm_id expected_signer \<or> \<not> client_verify C d then None
      else Some (filter (\<lambda>m. norm_id (cm_identity_pub m) \<noteq> norm_id expected_signer) (cd_members d)))"

section \<open>Lemmas\<close>

lemma norm_id_idem [simp]: "norm_id (norm_id i) = norm_id i"
  by (simp add: norm_id_def)

lemma norm_id_normalized [simp]: "norm_id (normalized_id m) = normalized_id m"
  by (simp add: norm_id_def normalized_id_def)

lemma config_contains_iff:
  "config_contains c i \<longleftrightarrow> norm_id i \<in> normalized_id ` set (cc_members c)"
  by (force simp: config_contains_def Let_def list_ex_iff image_iff)

lemma check_members_Inr:
  "check_members seen ms = Inr () \<longleftrightarrow>
     distinct (map normalized_id ms) \<and> normalized_id ` set ms \<inter> seen = {} \<and>
     (\<forall>m \<in> set ms. trim_ws (cm_relay_addr m) \<noteq> [])"
  by (induction ms arbitrary: seen) auto

lemma validate_cluster_Inr:
  "validate_cluster c self = Inr () \<longleftrightarrow>
     trim_ws (cc_cluster_id c) \<noteq> [] \<and> distinct (map normalized_id (cc_members c)) \<and>
     (\<forall>m \<in> set (cc_members c). trim_ws (cm_relay_addr m) \<noteq> []) \<and>
     (cc_members c = [] \<or> config_contains c self)"
  using check_members_Inr [of "{}" "cc_members c"]
  by (auto simp: validate_cluster_def split: sum.splits)

declare as_bytes_append [simp]

lemma client_bytes_agree:
  "client_canonical_bytes d =
     canonical_bytes (new_membership \<lparr>cc_cluster_id = cd_cluster_id d, cc_members = cd_members d\<rparr> s)"
  by (simp add: client_canonical_bytes_def canonical_bytes_def new_membership_def Let_def
      norm_id_def normalized_id_def [abs_def])

lemma client_verify_eq: "client_verify C d = descriptor_verify C d"
  by (simp add: client_verify_def descriptor_verify_def client_bytes_agree [of d "cd_signer d"])

lemma split_at_char:
  "c \<notin> set x \<Longrightarrow> c \<notin> set y \<Longrightarrow> x @ c # r = y @ c # r' \<longleftrightarrow> x = y \<and> r = r'"
proof (induction x arbitrary: y)
  case Nil
  then show ?case by (cases y) auto
next
  case (Cons a x)
  then show ?case by (cases y) auto
qed

lemma no_char_split: "c \<notin> set x \<Longrightarrow> x \<noteq> y @ c # r"
  by auto

lemma roster_tail_inj:
  assumes "CHR ''|'' \<notin> set x" "CHR ''|'' \<notin> set y"
    and "\<forall>i \<in> set is. CHR ''|'' \<notin> set i" "\<forall>j \<in> set js. CHR ''|'' \<notin> set j"
    and "x @ roster_tail is = y @ roster_tail js"
  shows "x = y \<and> is = js"
  using assms
proof (induction "is" arbitrary: x y js)
  case Nil
  then show ?case by (cases js) (auto dest: no_char_split)
next
  case (Cons i "is")
  show ?case
  proof (cases js)
    case Nil
    with Cons.prems show ?thesis by auto
  next
    case js: (Cons j js')
    have "x = y" "i @ roster_tail is = j @ roster_tail js'"
      using Cons.prems(1,2,5) js split_at_char [of "CHR ''|''" x y] by auto
    with Cons.IH [of i j js'] Cons.prems(3,4) js show ?thesis by simp
  qed
qed

lemma length_filter_key:
  assumes "distinct (map f xs)" "k \<in> f ` set xs"
  shows "length (filter (\<lambda>x. f x = k) xs) = 1"
  using assms
proof (induction xs)
  case (Cons x xs)
  then show ?case by (cases "f x = k") (auto simp: filter_empty_conv image_iff)
qed simp

lemma client_bytes_ids:
  "client_canonical_bytes d = as_bytes ''conquerd-cluster-v1|'' @
     as_bytes (cd_cluster_id d) @ as_bytes (roster_tail (sort (map normalized_id (cd_members d))))"
  by (simp add: client_canonical_bytes_def Let_def norm_id_def normalized_id_def [abs_def])

text \<open>No separator in the cluster id or in a member key.\<close>

definition roster_unambiguous :: "signed_cluster_descriptor \<Rightarrow> bool" where
  "roster_unambiguous d \<longleftrightarrow> CHR ''|'' \<notin> set (cd_cluster_id d) \<and>
     (\<forall>m \<in> set (cd_members d). CHR ''|'' \<notin> set (normalized_id m))"

lemma roster_bytes_inj:
  assumes "roster_unambiguous d" "roster_unambiguous d'" "client_canonical_bytes d = client_canonical_bytes d'"
  shows "cd_cluster_id d = cd_cluster_id d' \<and>
    sort (map normalized_id (cd_members d)) = sort (map normalized_id (cd_members d'))"
proof (rule roster_tail_inj)
  show "cd_cluster_id d @ roster_tail (sort (map normalized_id (cd_members d))) =
      cd_cluster_id d' @ roster_tail (sort (map normalized_id (cd_members d')))"
    using assms(3) by (simp add: client_bytes_ids inj_as_bytes flip: as_bytes_append)
qed (use assms(1,2) in \<open>auto simp: roster_unambiguous_def\<close>)

section \<open>Properties\<close>

text \<open>
  A configuration that passes validation for a node splits into that node and its peers: the
  node finds its own entry, the peers are listed once each under distinct keys, their number is one
  less than the member count, and a key in either spelling is recognised as a peer exactly when it is
  the key of a listed peer, never when it is the node's own.
\<close>

lemma cluster_membership_correct:
  assumes "validate_cluster c self = Inr ()" "cc_members c \<noteq> []"
  shows "(\<exists>m. self_member (new_membership c self) = Some m \<and> m \<in> set (cc_members c) \<and> normalized_id m = norm_id self) \<and>
    distinct (map normalized_id (cluster_peers (new_membership c self))) \<and>
    member_count (new_membership c self) = Suc (length (cluster_peers (new_membership c self))) \<and>
    (is_peer_member (new_membership c self) i \<longleftrightarrow>
       norm_id i \<in> normalized_id ` set (cluster_peers (new_membership c self))) \<and>
    \<not> is_peer_member (new_membership c self) self \<and>
    (is_member (new_membership c self) i \<longleftrightarrow> norm_id i = norm_id self \<or> is_peer_member (new_membership c self) i)"
proof -
  let ?ms = "cc_members c"
  have d: "distinct (map normalized_id ?ms)" and self: "norm_id self \<in> normalized_id ` set ?ms"
    using assms by (auto simp: validate_cluster_Inr config_contains_iff)
  obtain m where m: "m \<in> set ?ms" "normalized_id m = norm_id self" using self by auto
  obtain m' where m': "find (\<lambda>m. normalized_id m = norm_id self) ?ms = Some m'"
    using m by (cases "find (\<lambda>m. normalized_id m = norm_id self) ?ms") (auto simp: find_None_iff)
  have "m' \<in> set ?ms \<and> normalized_id m' = norm_id self"
    using m' by (auto simp: find_Some_iff)
  moreover have "length (filter (\<lambda>m. normalized_id m = norm_id self) ?ms) = 1"
    using length_filter_key [OF d self] .
  moreover have "length (filter (\<lambda>m. normalized_id m \<noteq> norm_id self) ?ms) +
      length (filter (\<lambda>m. normalized_id m = norm_id self) ?ms) = length ?ms"
    using sum_length_filter_compl [of "\<lambda>m. normalized_id m \<noteq> norm_id self" ?ms] by simp
  moreover have "distinct (map normalized_id (filter (\<lambda>m. normalized_id m \<noteq> norm_id self) ?ms))"
    by (rule distinct_map_filter [OF d])
  ultimately show ?thesis
    using m' self by (auto simp: self_member_def new_membership_def cluster_peers_def member_count_def
        is_peer_member_def Let_def config_contains_iff is_member_def)
qed

lemma cluster_membership_correct_witness:
  "let a = \<lparr>cm_identity_pub = ''A='', cm_relay_addr = ''h:1'', cm_cluster_addr = None, cm_ws_addr = None\<rparr>;
       b = \<lparr>cm_identity_pub = ''B'', cm_relay_addr = ''h:2'', cm_cluster_addr = None, cm_ws_addr = None\<rparr>;
       c = \<lparr>cc_cluster_id = ''x'', cc_members = [a, b]\<rparr> in
   is_peer_member (new_membership c ''A'') ''B='' \<and> \<not> is_peer_member (new_membership c ''A'') ''A''"
proof -
  let ?a = "\<lparr>cm_identity_pub = ''A='', cm_relay_addr = ''h:1'', cm_cluster_addr = None, cm_ws_addr = None\<rparr>"
  let ?b = "\<lparr>cm_identity_pub = ''B'', cm_relay_addr = ''h:2'', cm_cluster_addr = None, cm_ws_addr = None\<rparr>"
  let ?c = "\<lparr>cc_cluster_id = ''x'', cc_members = [?a, ?b]\<rparr>"
  have "trim_ws ''x'' = ''x''" "trim_ws ''h:1'' = ''h:1''" "trim_ws ''h:2'' = ''h:2''"
    by (simp_all add: printable_trim printable_def)
  then have "validate_cluster ?c ''A'' = Inr ()"
    by (simp add: validate_cluster_def normalized_id_def norm_id_def trim_end_def config_contains_def)
  moreover have "norm_id ''B='' \<in> normalized_id ` set (cluster_peers (new_membership ?c ''A''))"
    by (simp add: normalized_id_def norm_id_def trim_end_def cluster_peers_def new_membership_def)
  ultimately show ?thesis using cluster_membership_correct [of ?c "''A''" "''B=''"] by (simp add: Let_def)
qed

text \<open>
  What the signature on an advertised roster covers. A roster signed by a node verifies on the
  client, which gets every other member. The order of the members does not matter. Two rosters with
  the same signed bytes have the same cluster id and the same member keys, provided neither contains
  the separator. The addresses are not covered: a roster whose addresses were all replaced still
  verifies, so the client accepts attach points the signer never advertised.
\<close>

lemma roster_signature_scope:
  assumes "reads_b64 C S" "signs_for C self sign"
  shows "verified_members C self (sign_cluster S self sign (new_membership c self)) =
      Some (cluster_peers (new_membership c self)) \<and>
    (mset (cd_members d) = mset (cd_members d') \<and> cd_cluster_id d = cd_cluster_id d' \<longrightarrow>
       client_canonical_bytes d = client_canonical_bytes d') \<and>
    (roster_unambiguous d \<and> roster_unambiguous d' \<and> client_canonical_bytes d = client_canonical_bytes d' \<longrightarrow>
       cd_cluster_id d = cd_cluster_id d' \<and>
       mset (map normalized_id (cd_members d)) = mset (map normalized_id (cd_members d'))) \<and>
    ((\<forall>m. cm_identity_pub (f m) = cm_identity_pub m) \<longrightarrow>
       client_verify C (d\<lparr>cd_members := map f (cd_members d)\<rparr>) = client_verify C d)"
proof (intro conjI impI)
  let ?d = "sign_cluster S self sign (new_membership c self)"
  have "client_verify C ?d"
    using signed_by_written [OF assms] client_bytes_agree [of ?d self]
    by (cases c) (simp add: client_verify_def sign_cluster_def new_membership_def)
  then show "verified_members C self ?d = Some (cluster_peers (new_membership c self))"
    by (simp add: verified_members_def sign_cluster_def new_membership_def cluster_peers_def
        normalized_id_def norm_id_def)
next
  assume a: "mset (cd_members d) = mset (cd_members d') \<and> cd_cluster_id d = cd_cluster_id d'"
  then have "sort (map normalized_id (cd_members d)) = sort (map normalized_id (cd_members d'))"
    by (intro properties_for_sort) auto
  with a show "client_canonical_bytes d = client_canonical_bytes d'" by (simp add: client_bytes_ids)
next
  assume a: "roster_unambiguous d \<and> roster_unambiguous d' \<and> client_canonical_bytes d = client_canonical_bytes d'"
  then show "cd_cluster_id d = cd_cluster_id d'" using roster_bytes_inj by blast
  have "mset (sort (map normalized_id (cd_members d))) = mset (sort (map normalized_id (cd_members d')))"
    using a roster_bytes_inj [of d d'] by simp
  then show "mset (map normalized_id (cd_members d)) = mset (map normalized_id (cd_members d'))" by simp
next
  assume "\<forall>m. cm_identity_pub (f m) = cm_identity_pub m"
  then have "client_canonical_bytes (d\<lparr>cd_members := map f (cd_members d)\<rparr>) = client_canonical_bytes d"
    by (simp add: client_bytes_ids normalized_id_def [abs_def] comp_def)
  then show "client_verify C (d\<lparr>cd_members := map f (cd_members d)\<rparr>) = client_verify C d"
    by (simp add: client_verify_def)
qed

lemma roster_signature_scope_witness:
  "let a = \<lparr>cm_identity_pub = plain_signer, cm_relay_addr = ''h:1'', cm_cluster_addr = None, cm_ws_addr = Some ''h:2''\<rparr>;
       d = sign_cluster plain_crates plain_signer (\<lambda>m. replicate 64 0)
             (new_membership \<lparr>cc_cluster_id = ''x'', cc_members = [a]\<rparr> plain_signer) in
   client_verify plain_crates (d\<lparr>cd_members := map (cm_ws_addr_update (\<lambda>_. Some ''evil:2'')) (cd_members d)\<rparr>)"
proof -
  let ?a = "\<lparr>cm_identity_pub = plain_signer, cm_relay_addr = ''h:1'', cm_cluster_addr = None, cm_ws_addr = Some ''h:2''\<rparr>"
  let ?c = "\<lparr>cc_cluster_id = ''x'', cc_members = [?a]\<rparr>"
  let ?d = "sign_cluster plain_crates plain_signer (\<lambda>m. replicate 64 0) (new_membership ?c plain_signer)"
  have s: "verified_members plain_crates plain_signer ?d = Some (cluster_peers (new_membership ?c plain_signer))"
    and r: "client_verify plain_crates (?d\<lparr>cd_members := map (cm_ws_addr_update (\<lambda>_. Some ''evil:2'')) (cd_members ?d)\<rparr>)
       = client_verify plain_crates ?d"
    using roster_signature_scope [OF crates_reads [OF plain_crates_ok] plain_signs_for, of ?c ?d ?d "cm_ws_addr_update (\<lambda>_. Some ''evil:2'')"]
    by simp_all
  from s have "client_verify plain_crates ?d" by (simp add: verified_members_def split: if_splits)
  with r show ?thesis by (simp add: Let_def)
qed

end
