(* ===== verification/Cluster_Link.thy ===== *)
theory Cluster_Link
  imports Cluster Space Once_Filter
begin

text \<open>
  The supernode-to-supernode transport, \<open>conquerd-supernode/src/cluster_link.rs\<close>: signed messages and
  their framing, the cache that removes replicated duplicates, the link table, the reader of a link
  and the routing of replicated frames. A link is known by the number of its outbound channel, and
  what the code sends is the set of pairs of a channel and a frame. \<open>serde_json\<close> on the message
  types is the record \<open>msg_codec\<close>. Sockets, TLS and task scheduling are not modelled: the bytes a
  link delivers and the order of link events are arguments.
\<close>

section \<open>Messages\<close>

definition MAX_FRAME_BYTES :: nat where "MAX_FRAME_BYTES = 8 * 1024 * 1024"
definition DIAL_BACKOFF_START :: nat where "DIAL_BACKOFF_START = 1"
definition DIAL_BACKOFF_MAX :: nat where "DIAL_BACKOFF_MAX = 30"

record peer_auth_descriptor =
  pa_identity_pub :: string
  pa_handle :: string
  pa_direct_invite :: bool

record room_descriptor =
  rd_room_id :: room_id
  rd_room_name :: string
  rd_room_type :: string
  rd_creator_id :: string
  rd_invite_policy :: string

datatype cluster_msg_kind =
    Hello string
  | Subscriptions "room_id list"
  | Replicate room_id string string
  | RoomRoster "room_descriptor list"
  | PeerAuth string string bool
  | PeerAuthRoster "peer_auth_descriptor list"
  | VersionInfo string string string
  | SpaceRoot signed_space_root

record cluster_msg =
  ms_kind :: cluster_msg_kind
  ms_sender :: string
  ms_signature :: string

record msg_codec =
  mc_kind :: "cluster_msg_kind \<Rightarrow> bytes"
  mc_msg :: "cluster_msg \<Rightarrow> bytes"
  mc_parse :: "bytes \<Rightarrow> cluster_msg option"

definition msg_signing_bytes :: "msg_codec \<Rightarrow> cluster_msg_kind \<Rightarrow> string \<Rightarrow> bytes" where
  "msg_signing_bytes J kind sender =
     as_bytes ''conquerd-cluster-msg-v1|'' @ as_bytes sender @ as_bytes ''|'' @ mc_kind J kind"

text \<open>The identity of this node: its public id and its signing operation.\<close>

record node_identity =
  ni_public_id :: string
  ni_sign :: "bytes \<Rightarrow> bytes"

definition signed_msg :: "crates \<Rightarrow> msg_codec \<Rightarrow> node_identity \<Rightarrow> cluster_msg_kind \<Rightarrow> cluster_msg" where
  "signed_msg C J me kind =
     \<lparr>ms_kind = kind, ms_sender = ni_public_id me,
      ms_signature = cr_b64_encode C (ni_sign me (msg_signing_bytes J kind (ni_public_id me)))\<rparr>"

definition msg_verify :: "crates \<Rightarrow> msg_codec \<Rightarrow> cluster_msg \<Rightarrow> bool" where
  "msg_verify C J m = signed_by C (ms_sender m) (ms_signature m) (msg_signing_bytes J (ms_kind m) (ms_sender m))"

definition encode_msg_frame :: "msg_codec \<Rightarrow> cluster_msg \<Rightarrow> bytes" where
  "encode_msg_frame J m = u32_to_be (word_of_nat (length (mc_msg J m))) @ mc_msg J m"

section \<open>Duplicate cache\<close>

record seen_cache =
  sc_set :: "string set"
  sc_order :: "string list"
  sc_cap :: nat

definition new_seen :: "nat \<Rightarrow> seen_cache" where
  "new_seen cap = \<lparr>sc_set = {}, sc_order = [], sc_cap = cap\<rparr>"

definition insert_new :: "string \<Rightarrow> seen_cache \<Rightarrow> bool \<times> seen_cache" where
  "insert_new i s =
     (if i = [] then (True, s)
      else if i \<in> sc_set s then (False, s)
      else let s1 = s\<lparr>sc_set := insert i (sc_set s), sc_order := sc_order s @ [i]\<rparr>
           in (True,
               if length (sc_order s1) > sc_cap s1
               then (case sc_order s1 of
                       [] \<Rightarrow> s1
                     | old # rest \<Rightarrow> s1\<lparr>sc_order := rest, sc_set := sc_set s1 - {old}\<rparr>)
               else s1))"

section \<open>Link table\<close>

record peer_link =
  pl_tx :: nat
  pl_version :: "string option"
  pl_source_hash :: "string option"

record link_state =
  ls_peers :: "string \<rightharpoonup> peer_link"
  ls_remote_subs :: "string \<rightharpoonup> room_id set"

definition new_link_state :: link_state where
  "new_link_state = \<lparr>ls_peers = Map.empty, ls_remote_subs = Map.empty\<rparr>"

definition members_for_room :: "link_state \<Rightarrow> room_id \<Rightarrow> string set" where
  "members_for_room st room_id = {m. \<exists>rooms. ls_remote_subs st m = Some rooms \<and> room_id \<in> rooms}"

definition replicate_room :: "crates \<Rightarrow> msg_codec \<Rightarrow> node_identity \<Rightarrow> room_id \<Rightarrow> string \<Rightarrow> string \<Rightarrow> link_state \<Rightarrow>
    (nat \<times> bytes) set" where
  "replicate_room C J me room_id message_id raw st =
     (let targets = members_for_room st room_id in
      if targets = {} then {}
      else let frame = encode_msg_frame J (signed_msg C J me (Replicate room_id message_id raw))
           in {(pl_tx l, frame) | l m. m \<in> targets \<and> ls_peers st m = Some l})"

definition send_to_all_peers :: "bytes \<Rightarrow> link_state \<Rightarrow> (nat \<times> bytes) set" where
  "send_to_all_peers frame st = {(pl_tx l, frame) | l m. ls_peers st m = Some l}"

definition replicate_peer_auth :: "crates \<Rightarrow> msg_codec \<Rightarrow> node_identity \<Rightarrow> string \<Rightarrow> string \<Rightarrow> bool \<Rightarrow> link_state \<Rightarrow>
    (nat \<times> bytes) set" where
  "replicate_peer_auth C J me i handle direct st =
     send_to_all_peers (encode_msg_frame J (signed_msg C J me (PeerAuth i handle direct))) st"

definition replicate_space_root :: "crates \<Rightarrow> msg_codec \<Rightarrow> node_identity \<Rightarrow> signed_space_root \<Rightarrow> link_state \<Rightarrow>
    (nat \<times> bytes) set" where
  "replicate_space_root C J me r st = send_to_all_peers (encode_msg_frame J (signed_msg C J me (SpaceRoot r))) st"

definition broadcast_subscriptions :: "crates \<Rightarrow> msg_codec \<Rightarrow> node_identity \<Rightarrow> room_id list \<Rightarrow> link_state \<Rightarrow>
    (nat \<times> bytes) set" where
  "broadcast_subscriptions C J me rooms st =
     send_to_all_peers (encode_msg_frame J (signed_msg C J me (Subscriptions rooms))) st"

definition broadcast_room_roster :: "crates \<Rightarrow> msg_codec \<Rightarrow> node_identity \<Rightarrow> room_descriptor list \<Rightarrow> link_state \<Rightarrow>
    (nat \<times> bytes) set" where
  "broadcast_room_roster C J me rooms st =
     (if rooms = [] then {}
      else send_to_all_peers (encode_msg_frame J (signed_msg C J me (RoomRoster rooms))) st)"

definition broadcast_peer_auth_roster :: "crates \<Rightarrow> msg_codec \<Rightarrow> node_identity \<Rightarrow> peer_auth_descriptor list \<Rightarrow> link_state \<Rightarrow>
    (nat \<times> bytes) set" where
  "broadcast_peer_auth_roster C J me ps st =
     (if ps = [] then {}
      else send_to_all_peers (encode_msg_frame J (signed_msg C J me (PeerAuthRoster ps))) st)"

definition connected_peer_ids :: "link_state \<Rightarrow> string set" where
  "connected_peer_ids st = dom (ls_peers st)"

section \<open>Receiving\<close>

text \<open>The callbacks the link makes into the supernode, in order.\<close>

datatype link_callback =
    OnReplicate room_id string string
  | OnRoomRoster room_descriptor
  | OnPeerAuth string string bool
  | OnSpaceRoot signed_space_root

definition handle_msg :: "string \<Rightarrow> cluster_msg_kind \<Rightarrow> link_state \<Rightarrow> link_callback list \<times> link_state" where
  "handle_msg member_id kind st =
     (case kind of
        Hello cluster_id \<Rightarrow> ([], st)
      | Subscriptions rooms \<Rightarrow> ([], st\<lparr>ls_remote_subs := (ls_remote_subs st)(member_id \<mapsto> set rooms)\<rparr>)
      | Replicate room_id message_id raw \<Rightarrow> ([OnReplicate room_id message_id raw], st)
      | RoomRoster rooms \<Rightarrow> (map OnRoomRoster rooms, st)
      | PeerAuth i handle direct \<Rightarrow> ([OnPeerAuth i handle direct], st)
      | PeerAuthRoster ps \<Rightarrow> (map (\<lambda>p. OnPeerAuth (pa_identity_pub p) (pa_handle p) (pa_direct_invite p)) ps, st)
      | VersionInfo version build_id source_hash \<Rightarrow>
          ([], case ls_peers st member_id of
                 None \<Rightarrow> st
               | Some l \<Rightarrow> st\<lparr>ls_peers := (ls_peers st)(member_id \<mapsto>
                   l\<lparr>pl_version := Some version, pl_source_hash := Some source_hash\<rparr>)\<rparr>)
      | SpaceRoot r \<Rightarrow> ([OnSpaceRoot r], st))"

definition frame_authentic :: "crates \<Rightarrow> msg_codec \<Rightarrow> cluster_membership \<Rightarrow> string \<Rightarrow> cluster_msg \<Rightarrow> bool" where
  "frame_authentic C J ms member_id m \<longleftrightarrow>
     \<not> (\<not> msg_verify C J m \<or> trim_end (CHR ''='') (ms_sender m) \<noteq> member_id \<or> \<not> is_peer_member ms member_id)"

text \<open>How a read loop ends: the peer closed between frames, a frame length was out of bounds, or the
  stream broke inside a frame.\<close>

datatype read_end = PeerClosed | LengthOutOfBounds nat | StreamBroken

function read_loop :: "crates \<Rightarrow> msg_codec \<Rightarrow> cluster_membership \<Rightarrow> string \<Rightarrow> bytes \<Rightarrow> link_state \<Rightarrow>
    read_end \<times> link_callback list \<times> link_state" where
  "read_loop C J ms member_id input st =
     (if length input < 4 then (PeerClosed, [], st)
      else let len = unat (u32_from_be (take 4 input)); body = drop 4 input in
        if len = 0 \<or> len > MAX_FRAME_BYTES then (LengthOutOfBounds len, [], st)
        else if length body < len then (StreamBroken, [], st)
        else
          (case mc_parse J (take len body) of
             None \<Rightarrow> read_loop C J ms member_id (drop len body) st
           | Some m \<Rightarrow>
               if \<not> frame_authentic C J ms member_id m then read_loop C J ms member_id (drop len body) st
               else let (cbs, st1) = handle_msg member_id (ms_kind m) st;
                        (e, cbs', st2) = read_loop C J ms member_id (drop len body) st1
                    in (e, cbs @ cbs', st2)))"
  by pat_completeness auto
termination
  by (relation "measure (\<lambda>(C, J, ms, i, input, st). length input)") auto

declare read_loop.simps [simp del]

section \<open>Link lifetime\<close>

text \<open>The gate of \<open>handle_incoming\<close> on the name in the dialer's certificate, which TLS does not check.\<close>

definition incoming_accepted :: "cluster_membership \<Rightarrow> string \<Rightarrow> string option" where
  "incoming_accepted ms cert_cn =
     (let peer_id = trim_end (CHR ''='') cert_cn in if is_peer_member ms peer_id then Some peer_id else None)"

definition link_up :: "string \<Rightarrow> nat \<Rightarrow> link_state \<Rightarrow> link_state" where
  "link_up member_id tx st =
     st\<lparr>ls_peers := (ls_peers st)(member_id \<mapsto> \<lparr>pl_tx = tx, pl_version = None, pl_source_hash = None\<rparr>)\<rparr>"

definition link_down :: "string \<Rightarrow> link_state \<Rightarrow> link_state" where
  "link_down member_id st =
     st\<lparr>ls_peers := (ls_peers st)(member_id := None), ls_remote_subs := (ls_remote_subs st)(member_id := None)\<rparr>"

text \<open>What a new link writes before it reads: greeting, version, subscriptions, rosters and roots.\<close>

definition link_greeting :: "crates \<Rightarrow> msg_codec \<Rightarrow> node_identity \<Rightarrow> cluster_membership \<Rightarrow> string \<times> string \<times> string \<Rightarrow>
    room_id list option \<Rightarrow> room_descriptor list option \<Rightarrow> signed_space_root list option \<Rightarrow>
    peer_auth_descriptor list option \<Rightarrow> cluster_msg list" where
  "link_greeting C J me ms version rooms roster roots auth =
     map (signed_msg C J me)
       (Hello (cc_cluster_id (cms_config ms))
        # (case version of (v, b, h) \<Rightarrow> VersionInfo v b h)
        # (case rooms of None \<Rightarrow> [] | Some rs \<Rightarrow> [Subscriptions rs])
        @ (case roster of None \<Rightarrow> [] | Some [] \<Rightarrow> [] | Some rs \<Rightarrow> [RoomRoster rs])
        @ (case roots of None \<Rightarrow> [] | Some rs \<Rightarrow> map SpaceRoot rs)
        @ (case auth of None \<Rightarrow> [] | Some [] \<Rightarrow> [] | Some ps \<Rightarrow> [PeerAuthRoster ps]))"

definition dials :: "string \<Rightarrow> cluster_membership \<Rightarrow> (string \<times> string) list" where
  "dials public_id ms =
     (let self_id = trim_end (CHR ''='') public_id in
      concat (map (\<lambda>m. case cm_cluster_addr m of
          None \<Rightarrow> []
        | Some addr \<Rightarrow>
            let member_id = trim_end (CHR ''='') (cm_identity_pub m) in
            if self_id \<ge> member_id then [] else [(member_id, addr)]) (cluster_peers ms)))"

text \<open>The waits of \<open>dial_loop\<close> in seconds; \<open>True\<close> is an attempt whose link came up and closed cleanly.\<close>

fun dial_waits :: "nat \<Rightarrow> bool list \<Rightarrow> nat list" where
  "dial_waits backoff [] = []"
| "dial_waits backoff (ok # oks) =
     (let b = (if ok then DIAL_BACKOFF_START else backoff) in b # dial_waits (min (b * 2) DIAL_BACKOFF_MAX) oks)"

section \<open>Authentication of a link\<close>

fun handle_all :: "string \<Rightarrow> cluster_msg_kind list \<Rightarrow> link_state \<Rightarrow> link_callback list \<times> link_state" where
  "handle_all i [] st = ([], st)"
| "handle_all i (k # ks) st =
     (let (cbs, st1) = handle_msg i k st; (cbs', st2) = handle_all i ks st1 in (cbs @ cbs', st2))"

lemma read_loop_short: "length input < 4 \<Longrightarrow> read_loop C J ms i input st = (PeerClosed, [], st)"
  by (subst read_loop.simps) simp

lemma read_loop_authentic:
  "\<exists>msgs. (\<forall>m \<in> set msgs. frame_authentic C J ms i m) \<and>
     snd (read_loop C J ms i input st) = handle_all i (map ms_kind msgs) st"
proof (induction C J ms i input st rule: read_loop.induct)
  case (1 C J ms i input st)
  let ?len = "unat (u32_from_be (take 4 input))" and ?body = "drop 4 input"
  let ?cont = "\<not> length input < 4 \<and> \<not> (?len = 0 \<or> ?len > MAX_FRAME_BYTES) \<and> \<not> length ?body < ?len"
  show ?case
  proof (cases "?cont \<and> mc_parse J (take ?len ?body) \<noteq> None \<and> frame_authentic C J ms i (the (mc_parse J (take ?len ?body)))")
    case True
    then obtain m where m: "mc_parse J (take ?len ?body) = Some m" "frame_authentic C J ms i m" by auto
    obtain cbs st1 where h: "handle_msg i (ms_kind m) st = (cbs, st1)" by (cases "handle_msg i (ms_kind m) st")
    obtain msgs where ms: "\<forall>m \<in> set msgs. frame_authentic C J ms i m"
        "snd (read_loop C J ms i (drop ?len ?body) st1) = handle_all i (map ms_kind msgs) st1"
      using 1(3) [OF _ refl refl _ _ m(1) _ h [symmetric] refl] True m(2) by blast
    obtain e cbs' st2 where r: "read_loop C J ms i (drop ?len ?body) st1 = (e, cbs', st2)"
      by (cases "read_loop C J ms i (drop ?len ?body) st1")
    have "read_loop C J ms i input st = (e, cbs @ cbs', st2)"
      using True m h r by (subst read_loop.simps) (simp add: Let_def)
    moreover have "handle_all i (map ms_kind (m # msgs)) st = (cbs @ cbs', st2)"
      using ms(2) r h by (simp add: Let_def) (metis prod.case)
    moreover have "\<forall>m \<in> set (m # msgs). frame_authentic C J ms i m" using m(2) ms(1) by simp
    ultimately show ?thesis by (intro exI [of _ "m # msgs"]) simp
  next
    case stop: False
    show ?thesis
    proof (cases ?cont)
      case True
      have "\<exists>msgs. (\<forall>m \<in> set msgs. frame_authentic C J ms i m) \<and>
          snd (read_loop C J ms i (drop ?len ?body) st) = handle_all i (map ms_kind msgs) st"
        using 1(1) [OF _ refl refl] 1(2) [OF _ refl refl] True stop by (cases "mc_parse J (take ?len ?body)") auto
      moreover have "read_loop C J ms i input st = read_loop C J ms i (drop ?len ?body) st"
        using True stop by (subst read_loop.simps) (auto simp: Let_def split: option.splits)
      ultimately show ?thesis by simp
    next
      case False
      then have "snd (read_loop C J ms i input st) = ([], st)"
        by (subst read_loop.simps) (auto simp: Let_def)
      then show ?thesis by (intro exI [of _ "[]"]) simp
    qed
  qed
qed

lemma read_loop_frame:
  assumes "mc_parse J (mc_msg J m) = Some m" "mc_msg J m \<noteq> []" "length (mc_msg J m) \<le> MAX_FRAME_BYTES"
    and "frame_authentic C J ms i m" "handle_msg i (ms_kind m) st = (cbs, st1)"
    and "read_loop C J ms i rest st1 = (e, cbs', st2)"
  shows "read_loop C J ms i (encode_msg_frame J m @ rest) st = (e, cbs @ cbs', st2)"
proof -
  have "length (mc_msg J m) < 2 ^ 32" using assms(3) by (simp add: MAX_FRAME_BYTES_def)
  then have "unat (word_of_nat (length (mc_msg J m)) :: u32) = length (mc_msg J m)" by (rule unat_u32)
  with assms show ?thesis
    by (subst read_loop.simps) (simp add: encode_msg_frame_def Let_def)
qed

lemma read_loop_frames:
  assumes "\<forall>m \<in> set msgs. mc_parse J (mc_msg J m) = Some m \<and> mc_msg J m \<noteq> [] \<and>
      length (mc_msg J m) \<le> MAX_FRAME_BYTES \<and> frame_authentic C J ms i m"
  shows "read_loop C J ms i (concat (map (encode_msg_frame J) msgs)) st =
    (PeerClosed, handle_all i (map ms_kind msgs) st)"
  using assms
proof (induction msgs arbitrary: st)
  case Nil
  then show ?case by (simp add: read_loop_short)
next
  case (Cons m msgs)
  obtain cbs st1 where h: "handle_msg i (ms_kind m) st = (cbs, st1)" by (cases "handle_msg i (ms_kind m) st")
  obtain cbs' st2 where a: "handle_all i (map ms_kind msgs) st1 = (cbs', st2)" by (cases "handle_all i (map ms_kind msgs) st1")
  have "read_loop C J ms i (concat (map (encode_msg_frame J) msgs)) st1 = (PeerClosed, cbs', st2)"
    using Cons.IH [of st1] Cons.prems a by simp
  with read_loop_frame [OF _ _ _ _ h] Cons.prems h a show ?case by simp
qed

lemma handle_msg_others:
  "j \<noteq> i \<Longrightarrow> ls_peers (snd (handle_msg i k st)) j = ls_peers st j \<and>
     ls_remote_subs (snd (handle_msg i k st)) j = ls_remote_subs st j"
  by (auto simp: handle_msg_def split: cluster_msg_kind.splits option.splits)

lemma handle_all_others:
  "j \<noteq> i \<Longrightarrow> ls_peers (snd (handle_all i ks st)) j = ls_peers st j \<and>
     ls_remote_subs (snd (handle_all i ks st)) j = ls_remote_subs st j"
proof (induction ks arbitrary: st)
  case (Cons k ks)
  then show ?case
    using handle_msg_others [of j i k st] by (simp add: Let_def case_prod_beta)
qed simp

lemma signed_msg_authentic:
  assumes "crates_ok C" "signs_for C (ni_public_id me) (ni_sign me)"
    and "i = trim_end (CHR ''='') (ni_public_id me)" "is_peer_member ms i"
  shows "frame_authentic C J ms i (signed_msg C J me k)"
  using assms signed_by_sign [OF assms(1,2)] by (simp add: frame_authentic_def msg_verify_def signed_msg_def)

section \<open>The duplicate cache as a filter\<close>

definition seen_ok :: "seen_cache \<Rightarrow> bool" where
  "seen_ok s \<longleftrightarrow> distinct (sc_order s) \<and> sc_set s = set (sc_order s) \<and> length (sc_order s) \<le> sc_cap s \<and> [] \<notin> sc_set s"

text \<open>The effect of an insertion on the order of ids, for a cache that can hold one.\<close>

lemma insert_new_order:
  assumes "seen_ok s" "0 < sc_cap s"
  shows "fst (insert_new i s) \<longleftrightarrow> i = [] \<or> i \<notin> set (sc_order s)"
    and "sc_order (snd (insert_new i s)) =
      (if i = [] \<or> i \<in> set (sc_order s) then sc_order s
       else if length (sc_order s) = sc_cap s then tl (sc_order s) @ [i] else sc_order s @ [i])"
    and "sc_cap (snd (insert_new i s)) = sc_cap s" "seen_ok (snd (insert_new i s))"
proof -
  have o: "sc_order s = [] \<longrightarrow> length (sc_order s) < sc_cap s" using assms(2) by simp
  show "fst (insert_new i s) \<longleftrightarrow> i = [] \<or> i \<notin> set (sc_order s)"
    using assms by (auto simp: insert_new_def seen_ok_def Let_def)
  show "sc_order (snd (insert_new i s)) =
      (if i = [] \<or> i \<in> set (sc_order s) then sc_order s
       else if length (sc_order s) = sc_cap s then tl (sc_order s) @ [i] else sc_order s @ [i])"
    using assms o by (cases "sc_order s") (auto simp: insert_new_def seen_ok_def Let_def)
  show "sc_cap (snd (insert_new i s)) = sc_cap s"
    by (auto simp: insert_new_def Let_def split: list.splits)
  show "seen_ok (snd (insert_new i s))"
    using assms o by (cases "sc_order s") (auto simp: insert_new_def seen_ok_def Let_def)
qed

definition seen_mem :: "string \<Rightarrow> seen_cache \<Rightarrow> bool" where
  "seen_mem e s \<longleftrightarrow> e = [] \<or> \<not> seen_ok s \<or> sc_cap s = 0 \<or> e \<in> set (sc_order s)"

definition seen_replays :: "string \<Rightarrow> string \<Rightarrow> seen_cache \<Rightarrow> bool" where
  "seen_replays e e' s \<longleftrightarrow> e' = e \<and> e \<noteq> [] \<and> seen_ok s \<and> 0 < sc_cap s"

definition seen_harmless :: "string \<Rightarrow> string \<Rightarrow> seen_cache \<Rightarrow> bool" where
  "seen_harmless e e' s \<longleftrightarrow> seen_ok s \<and> 0 < sc_cap s \<and>
     (e' = [] \<or> e' \<in> set (sc_order s) \<or> length (sc_order s) < sc_cap s \<or> hd (sc_order s) \<noteq> e)"

lemma in_tl_iff: "distinct xs \<Longrightarrow> x \<in> set xs \<Longrightarrow> hd xs \<noteq> x \<Longrightarrow> x \<in> set (tl xs)"
  by (cases xs) auto

lemma seen_records: "fst (insert_new e s) \<Longrightarrow> seen_mem e (snd (insert_new e s))"
proof -
  assume "fst (insert_new e s)"
  then have "e = [] \<or> sc_cap (snd (insert_new e s)) = 0 \<or> e \<in> set (sc_order (snd (insert_new e s)))"
    by (cases "sc_order s") (auto simp: insert_new_def Let_def split: if_splits)
  then show ?thesis by (auto simp: seen_mem_def)
qed

lemma seen_keeps:
  assumes "seen_mem e s" "seen_harmless e e' s"
  shows "seen_mem e (snd (insert_new e' s))"
proof (cases "e = []")
  case False
  have ok: "seen_ok s" "0 < sc_cap s" and e: "e \<in> set (sc_order s)"
    using assms False by (auto simp: seen_mem_def seen_harmless_def)
  have d: "distinct (sc_order s)" using ok(1) by (simp add: seen_ok_def)
  have "e \<in> set (sc_order (snd (insert_new e' s)))"
  proof (cases "e' = [] \<or> e' \<in> set (sc_order s) \<or> length (sc_order s) < sc_cap s")
    case True
    with e show ?thesis by (auto simp: insert_new_order(2) [OF ok])
  next
    case tl: False
    then have "hd (sc_order s) \<noteq> e" using assms(2) by (simp add: seen_harmless_def)
    from in_tl_iff [OF d e this] tl e show ?thesis by (auto simp: insert_new_order(2) [OF ok])
  qed
  then show ?thesis by (simp add: seen_mem_def)
qed (simp add: seen_mem_def)

interpretation seen: once_filter insert_new seen_mem seen_replays seen_harmless
proof
  show "fst (insert_new e s) \<Longrightarrow> seen_mem e (snd (insert_new e s))" for e s by (rule seen_records)
  show "seen_mem e s \<Longrightarrow> seen_replays e e' s \<Longrightarrow> \<not> fst (insert_new e' s)" for e s e'
    using insert_new_order(1) [of s e'] by (auto simp: seen_mem_def seen_replays_def)
  show "seen_mem e s \<Longrightarrow> seen_harmless e e' s \<Longrightarrow> seen_mem e (snd (insert_new e' s))" for e s e'
    by (rule seen_keeps)
qed

text \<open>The number of ids that were new when they came.\<close>

fun new_ids :: "string list \<Rightarrow> seen_cache \<Rightarrow> nat" where
  "new_ids [] s = 0"
| "new_ids (e # es) s = (if e \<noteq> [] \<and> e \<notin> sc_set s then 1 else 0) + new_ids es (snd (insert_new e s))"

fun offer_all :: "string list \<Rightarrow> seen_cache \<Rightarrow> seen_cache" where
  "offer_all [] s = s"
| "offer_all (e # es) s = offer_all es (snd (insert_new e s))"

lemma offer_all_run: "offer_all es s = seen.run es s"
  by (induction es arbitrary: s) auto

lemma offer_all_ok:
  "seen_ok s \<Longrightarrow> 0 < sc_cap s \<Longrightarrow> seen_ok (offer_all es s) \<and> sc_cap (offer_all es s) = sc_cap s"
  by (induction es arbitrary: s) (simp_all add: insert_new_order)

lemma new_seen_ok: "seen_ok (new_seen cap)" "sc_cap (new_seen cap) = cap"
  by (simp_all add: seen_ok_def new_seen_def)

lemma few_new_ids_harmless:
  assumes "seen_ok s" "0 < sc_cap s" "sc_order s = pre @ e # post" "length post + new_ids es s < sc_cap s"
  shows "seen.all_harmless e es s"
  using assms
proof (induction es arbitrary: s pre post)
  case (Cons x es)
  let ?s = "snd (insert_new x s)"
  note step = insert_new_order [OF Cons.prems(1,2), of x]
  have set: "sc_set s = set (sc_order s)" using Cons.prems(1) by (simp add: seen_ok_def)
  show ?case
  proof (cases "x = [] \<or> x \<in> set (sc_order s)")
    case True
    then have o: "sc_order ?s = pre @ e # post" and n: "length post + new_ids es ?s < sc_cap ?s"
      using Cons.prems(3,4) step(2,3) set by (simp_all only: if_True new_ids.simps)
    have "seen.all_harmless e es ?s"
      by (rule Cons.IH [OF step(4) _ o n]) (simp add: step(3) Cons.prems(2))
    moreover have "seen_harmless e x s" using True Cons.prems(1,2) by (auto simp: seen_harmless_def)
    ultimately show ?thesis by simp
  next
    case False
    then have n: "Suc (length post) + new_ids es ?s < sc_cap s" using Cons.prems(4) set by simp
    then have h: "length (sc_order s) < sc_cap s \<or> pre \<noteq> []" using Cons.prems(3) by auto
    then have "hd (sc_order s) \<noteq> e \<or> length (sc_order s) < sc_cap s"
      using Cons.prems(1,3) by (cases pre) (auto simp: seen_ok_def)
    then have "seen_harmless e x s" using Cons.prems(1,2) by (auto simp: seen_harmless_def)
    moreover obtain pre' where o: "sc_order ?s = pre' @ e # (post @ [x])"
    proof (cases "length (sc_order s) = sc_cap s")
      case True
      with h obtain a pre' where "pre = a # pre'" by (cases pre) auto
      then show ?thesis using that [of pre'] step(2) False True Cons.prems(3) by simp
    next
      case less: False
      then show ?thesis using that [of pre] step(2) False Cons.prems(3) by simp
    qed
    have "seen.all_harmless e es ?s"
      by (rule Cons.IH [OF step(4) _ o]) (use n step(3) Cons.prems(2) in simp_all)
    ultimately show ?thesis by simp
  qed
qed simp

section \<open>Properties\<close>

text \<open>
  C28. Whatever bytes arrive on a link, everything that happens because of them is what the handling of
  some authenticated messages does: each is signed by the member the link belongs to, and that
  member is a declared peer. Nothing recorded about another member changes. When the peer's frames arrive
  complete and within the size bound, all of them are handled, in the order they were sent.
\<close>

theorem cluster_frames_authentic:
  "(\<exists>msgs. (\<forall>m \<in> set msgs. msg_verify C J m \<and> trim_end (CHR ''='') (ms_sender m) = i \<and> is_peer_member ms i) \<and>
      snd (read_loop C J ms i input st) = handle_all i (map ms_kind msgs) st) \<and>
   (j \<noteq> i \<longrightarrow> ls_peers (snd (snd (read_loop C J ms i input st))) j = ls_peers st j \<and>
      ls_remote_subs (snd (snd (read_loop C J ms i input st))) j = ls_remote_subs st j) \<and>
   (crates_ok C \<and> signs_for C (ni_public_id me) (ni_sign me) \<and> i = trim_end (CHR ''='') (ni_public_id me) \<and>
    is_peer_member ms i \<and>
    (\<forall>k \<in> set kinds. let m = signed_msg C J me k in mc_parse J (mc_msg J m) = Some m \<and> mc_msg J m \<noteq> [] \<and>
       length (mc_msg J m) \<le> MAX_FRAME_BYTES) \<longrightarrow>
    read_loop C J ms i (concat (map (\<lambda>k. encode_msg_frame J (signed_msg C J me k)) kinds)) st =
      (PeerClosed, handle_all i kinds st))"
proof (intro conjI impI)
  obtain msgs where msgs: "\<forall>m \<in> set msgs. frame_authentic C J ms i m"
      "snd (read_loop C J ms i input st) = handle_all i (map ms_kind msgs) st"
    using read_loop_authentic by blast
  then show "\<exists>msgs. (\<forall>m \<in> set msgs. msg_verify C J m \<and> trim_end (CHR ''='') (ms_sender m) = i \<and> is_peer_member ms i) \<and>
      snd (read_loop C J ms i input st) = handle_all i (map ms_kind msgs) st"
    by (auto simp: frame_authentic_def)
  assume "j \<noteq> i"
  then show "ls_peers (snd (snd (read_loop C J ms i input st))) j = ls_peers st j"
    "ls_remote_subs (snd (snd (read_loop C J ms i input st))) j = ls_remote_subs st j"
    using msgs(2) handle_all_others by simp_all
next
  assume a: "crates_ok C \<and> signs_for C (ni_public_id me) (ni_sign me) \<and> i = trim_end (CHR ''='') (ni_public_id me) \<and>
    is_peer_member ms i \<and>
    (\<forall>k \<in> set kinds. let m = signed_msg C J me k in mc_parse J (mc_msg J m) = Some m \<and> mc_msg J m \<noteq> [] \<and>
       length (mc_msg J m) \<le> MAX_FRAME_BYTES)"
  have k: "map (ms_kind \<circ> signed_msg C J me) kinds = kinds" by (simp add: signed_msg_def comp_def)
  from a read_loop_frames [of "map (signed_msg C J me) kinds" J C ms i st] signed_msg_authentic [of C me i ms J]
  show "read_loop C J ms i (concat (map (\<lambda>k. encode_msg_frame J (signed_msg C J me k)) kinds)) st =
      (PeerClosed, handle_all i kinds st)"
    by (auto simp: Let_def comp_def k [unfolded comp_def])
qed

text \<open>A node, a roster that lists it as a peer, and a codec for one message, for the witnesses.\<close>

definition demo_node :: node_identity where
  "demo_node = \<lparr>ni_public_id = plain_signer, ni_sign = (\<lambda>m. List.replicate 64 0)\<rparr>"

definition demo_msg :: cluster_msg where
  "demo_msg = \<lparr>ms_kind = Subscriptions [''r''], ms_sender = plain_signer,
     ms_signature = spread (string_of_bytes (List.replicate 64 0))\<rparr>"

definition demo_codec :: msg_codec where
  "demo_codec = \<lparr>mc_kind = (\<lambda>_. []), mc_msg = (\<lambda>_. [7]), mc_parse = (\<lambda>_. Some demo_msg)\<rparr>"

definition demo_membership :: cluster_membership where
  "demo_membership = new_membership \<lparr>cc_cluster_id = ''x'', cc_members =
     [\<lparr>cm_identity_pub = plain_signer, cm_relay_addr = ''h:1'', cm_cluster_addr = None, cm_ws_addr = None\<rparr>]\<rparr> ''me''"

lemma demo_facts:
  "signed_msg plain_crates demo_codec demo_node (Subscriptions [''r'']) = demo_msg"
  "trim_end (CHR ''='') plain_signer = plain_signer" "is_peer_member demo_membership plain_signer"
proof -
  show "signed_msg plain_crates demo_codec demo_node (Subscriptions [''r'']) = demo_msg"
    by (simp add: signed_msg_def demo_node_def demo_msg_def)
  show t: "trim_end (CHR ''='') plain_signer = plain_signer" by (simp add: plain_signer_def)
  have "plain_signer \<noteq> ''me''" by (rule plain_signer_neq) simp
  then show "is_peer_member demo_membership plain_signer"
    by (auto simp: is_peer_member_def demo_membership_def new_membership_def config_contains_iff norm_id_def
        normalized_id_def t Let_def trim_end_def [of _ "''me''"])
qed

theorem cluster_frames_authentic_witness:
  "let frame = encode_msg_frame demo_codec demo_msg; st = link_up plain_signer 5 new_link_state in
   fst (read_loop plain_crates demo_codec demo_membership plain_signer frame st) = PeerClosed \<and>
   ls_remote_subs (snd (snd (read_loop plain_crates demo_codec demo_membership plain_signer frame st))) plain_signer = Some {''r''}"
proof -
  let ?st = "link_up plain_signer 5 new_link_state"
  have "read_loop plain_crates demo_codec demo_membership plain_signer
      (concat (map (\<lambda>k. encode_msg_frame demo_codec (signed_msg plain_crates demo_codec demo_node k)) [Subscriptions [''r'']])) ?st
      = (PeerClosed, handle_all plain_signer [Subscriptions [''r'']] ?st)"
    using cluster_frames_authentic [of plain_crates demo_codec plain_signer demo_membership "[]" ?st "''j''" demo_node
        "[Subscriptions [''r'']]"] plain_crates_ok plain_signs_for demo_facts
    by (simp add: Let_def demo_node_def demo_codec_def MAX_FRAME_BYTES_def)
  then show ?thesis by (simp add: Let_def demo_facts(1) handle_msg_def)
qed

text \<open>
  A replicated message is delivered once. Starting from an empty cache of positive capacity, after
  any offers, an id that is accepted is refused when it comes again, as long as fewer new ids than
  the capacity came in between. The cache never holds more ids than its capacity, and its set and its
  queue agree. A message without an id is always delivered.
\<close>

lemma replication_dedup:
  assumes "0 < cap" "s = offer_all before (new_seen cap)" "e \<noteq> []" "fst (insert_new e s)"
    and "new_ids es (snd (insert_new e s)) < cap"
  shows "\<not> fst (insert_new e (offer_all es (snd (insert_new e s)))) \<and> fst (insert_new [] s) \<and>
    card (sc_set s) = length (sc_order s) \<and> length (sc_order s) \<le> cap \<and> sc_set s = set (sc_order s)"
proof -
  let ?s = "snd (insert_new e s)"
  have s: "seen_ok s" "sc_cap s = cap"
    using offer_all_ok [of "new_seen cap" before] assms(1,2) new_seen_ok [of cap] by simp_all
  note step = insert_new_order [OF s(1), of e]
  have ok: "seen_ok ?s" "sc_cap ?s = cap" using step s(2) assms(1) by simp_all
  have "sc_order ?s = (if length (sc_order s) = cap then tl (sc_order s) else sc_order s) @ [e]"
    using step assms s(2) by auto
  from few_new_ids_harmless [OF ok(1) _ this] have h: "seen.all_harmless e es ?s"
    using assms ok(2) by simp
  have r: "seen_replays e e (seen.run es ?s)"
    using offer_all_ok [OF ok(1), of es] ok(2) assms(1,3) by (simp add: seen_replays_def offer_all_run)
  have "\<not> fst (insert_new e (offer_all es ?s))"
    unfolding offer_all_run by (rule seen.accepted_once [OF assms(4) h r])
  moreover have "fst (insert_new [] s)" by (simp add: insert_new_def)
  ultimately show ?thesis using s by (auto simp: seen_ok_def distinct_card)
qed

lemma replication_dedup_witness:
  "\<not> fst (insert_new ''a'' (offer_all [''b'', ''c''] (snd (insert_new ''a'' (new_seen 3))))) \<and>
   fst (insert_new ''a'' (offer_all [''b'', ''c'', ''d''] (snd (insert_new ''a'' (new_seen 3)))))"
  using replication_dedup [of 3 "new_seen 3" "[]" "''a''" "[''b'', ''c'']"]
  by (simp add: insert_new_def new_seen_def)

text \<open>
  A second link under a member's name displaces the first. The name comes from a certificate that
  TLS does not check, and the gate asks only whether it is the name of a peer. As soon as such a link is
  up, replicated room messages for that member go to the new channel and no longer to the genuine one,
  although no frame has been authenticated; when the new link closes, the member counts as
  disconnected and gets no replicated messages, although the genuine link is still open.
\<close>

lemma second_link_displaces_first:
  assumes "is_peer_member ms i" "trim_end (CHR ''='') i = i" "ls_peers st i = Some l" "tx \<noteq> pl_tx l"
    and "i \<in> members_for_room st room" "\<forall>m l'. m \<noteq> i \<and> ls_peers st m = Some l' \<longrightarrow> pl_tx l' \<noteq> pl_tx l"
  shows "incoming_accepted ms i = Some i \<and>
    pl_tx l \<in> fst ` replicate_room C J me room mid raw st \<and>
    tx \<in> fst ` replicate_room C J me room mid raw (link_up i tx st) \<and>
    pl_tx l \<notin> fst ` replicate_room C J me room mid raw (link_up i tx st) \<and>
    pl_tx l \<notin> fst ` replicate_room C J me room mid raw (link_down i (link_up i tx st)) \<and>
    i \<notin> connected_peer_ids (link_down i (link_up i tx st))"
proof (intro conjI)
  have sent: "fst ` replicate_room C J me room mid raw s =
      {pl_tx l' | l' m. m \<in> members_for_room s room \<and> ls_peers s m = Some l'}" for s
    by (force simp: replicate_room_def Let_def image_iff)
  have up: "members_for_room (link_up i tx st) room = members_for_room st room"
    "ls_peers (link_up i tx st) m = (if m = i then Some \<lparr>pl_tx = tx, pl_version = None, pl_source_hash = None\<rparr>
       else ls_peers st m)" for m
    by (simp_all add: members_for_room_def link_up_def)
  have down: "ls_peers (link_down i (link_up i tx st)) m = (if m = i then None else ls_peers st m)" for m
    by (simp add: link_down_def link_up_def)
  show "incoming_accepted ms i = Some i" using assms(1,2) by (simp add: incoming_accepted_def)
  show "pl_tx l \<in> fst ` replicate_room C J me room mid raw st" unfolding sent using assms(3,5) by blast
  show "tx \<in> fst ` replicate_room C J me room mid raw (link_up i tx st)"
  proof -
    have "i \<in> members_for_room (link_up i tx st) room" using assms(5) up(1) by simp
    moreover have "ls_peers (link_up i tx st) i = Some \<lparr>pl_tx = tx, pl_version = None, pl_source_hash = None\<rparr>"
      by (simp add: up(2))
    ultimately have "pl_tx \<lparr>pl_tx = tx, pl_version = None, pl_source_hash = None\<rparr> \<in>
        fst ` replicate_room C J me room mid raw (link_up i tx st)" unfolding sent by blast
    then show ?thesis by simp
  qed
  show "pl_tx l \<notin> fst ` replicate_room C J me room mid raw (link_up i tx st)"
    unfolding sent using assms(4,6) up by (auto split: if_splits) (metis)
  show "pl_tx l \<notin> fst ` replicate_room C J me room mid raw (link_down i (link_up i tx st))"
    unfolding sent using assms(6) down by (auto split: if_splits) (metis)
  show "i \<notin> connected_peer_ids (link_down i (link_up i tx st))" by (simp add: connected_peer_ids_def down dom_def)
qed

lemma second_link_displaces_first_witness:
  "let st = snd (handle_msg plain_signer (Subscriptions [''r'']) (link_up plain_signer 1 new_link_state)) in
   1 \<in> fst ` replicate_room plain_crates demo_codec demo_node ''r'' ''m'' ''x'' st \<and>
   1 \<notin> fst ` replicate_room plain_crates demo_codec demo_node ''r'' ''m'' ''x'' (link_up plain_signer 2 st) \<and>
   2 \<in> fst ` replicate_room plain_crates demo_codec demo_node ''r'' ''m'' ''x'' (link_up plain_signer 2 st)"
proof -
  let ?st = "snd (handle_msg plain_signer (Subscriptions [''r'']) (link_up plain_signer 1 new_link_state))"
  have "ls_peers ?st plain_signer = Some \<lparr>pl_tx = 1, pl_version = None, pl_source_hash = None\<rparr>"
    "plain_signer \<in> members_for_room ?st ''r''"
    "\<forall>m l'. m \<noteq> plain_signer \<and> ls_peers ?st m = Some l' \<longrightarrow> pl_tx l' \<noteq> 1"
    by (simp_all add: handle_msg_def link_up_def new_link_state_def members_for_room_def)
  from second_link_displaces_first [OF demo_facts(3,2) this(1) _ this(2), of 2] this(3)
  show ?thesis by (simp add: Let_def)
qed

section \<open>Dialing\<close>

lemma dials_iff:
  "(j, addr) \<in> set (dials i (new_membership c i)) \<longleftrightarrow>
     (\<exists>m \<in> set (cc_members c). normalized_id m = j \<and> cm_cluster_addr m = Some addr \<and> norm_id i < j)"
  by (force simp: dials_def Let_def cluster_peers_def new_membership_def normalized_id_def norm_id_def
      split: option.splits if_splits)

text \<open>Of two members that can be dialed, exactly one dials the other.\<close>

lemma one_side_dials:
  assumes "a \<in> set (cc_members c)" "b \<in> set (cc_members c)" "normalized_id a \<noteq> normalized_id b"
    and "cm_cluster_addr a \<noteq> None" "cm_cluster_addr b \<noteq> None"
  shows "normalized_id b \<in> fst ` set (dials (cm_identity_pub a) (new_membership c (cm_identity_pub a))) \<longleftrightarrow>
    normalized_id a \<notin> fst ` set (dials (cm_identity_pub b) (new_membership c (cm_identity_pub b)))"
proof -
  have d: "normalized_id y \<in> fst ` set (dials (cm_identity_pub x) (new_membership c (cm_identity_pub x))) \<longleftrightarrow>
      normalized_id x < normalized_id y" if y: "y \<in> set (cc_members c)" "cm_cluster_addr y \<noteq> None" for x y
  proof
    assume "normalized_id y \<in> fst ` set (dials (cm_identity_pub x) (new_membership c (cm_identity_pub x)))"
    then obtain addr where "(normalized_id y, addr) \<in> set (dials (cm_identity_pub x) (new_membership c (cm_identity_pub x)))"
      by auto
    then have "norm_id (cm_identity_pub x) < normalized_id y" unfolding dials_iff by blast
    then show "normalized_id x < normalized_id y" by (simp add: norm_id_def normalized_id_def)
  next
    assume "normalized_id x < normalized_id y"
    moreover obtain addr where "cm_cluster_addr y = Some addr" using y(2) by blast
    ultimately have "(normalized_id y, addr) \<in> set (dials (cm_identity_pub x) (new_membership c (cm_identity_pub x)))"
      unfolding dials_iff using y(1) by (auto simp: norm_id_def normalized_id_def)
    then show "normalized_id y \<in> fst ` set (dials (cm_identity_pub x) (new_membership c (cm_identity_pub x)))"
      by (rule image_eqI [rotated]) simp
  qed
  show ?thesis
    unfolding d [OF assms(2,5)] d [OF assms(1,4)] using assms(3) by (auto simp: not_less)
qed

lemma dial_waits_bounded:
  "1 \<le> b \<Longrightarrow> b \<le> DIAL_BACKOFF_MAX \<Longrightarrow> \<forall>w \<in> set (dial_waits b oks). 1 \<le> w \<and> w \<le> DIAL_BACKOFF_MAX"
proof (induction oks arbitrary: b)
  case (Cons ok oks)
  define b' where "b' = (if ok then DIAL_BACKOFF_START else b)"
  have b': "1 \<le> b'" "b' \<le> DIAL_BACKOFF_MAX"
    using Cons.prems by (simp_all add: b'_def DIAL_BACKOFF_START_def DIAL_BACKOFF_MAX_def)
  have "1 \<le> min (b' * 2) DIAL_BACKOFF_MAX" using b'(1) by (simp add: DIAL_BACKOFF_MAX_def)
  from Cons.IH [OF this] b' show ?case by (simp add: Let_def b'_def [symmetric])
qed simp

end
