(* ===== verification/Relay.thy ===== *)
theory Relay
  imports Registry Public_Id Channel_Frame
begin

text \<open>
  The QUIC relay of a supernode, \<open>conquerd-supernode/src/relay.rs\<close>: admission, peer indices, relay
  rooms, portal game sessions, video subscriptions and the forwarding of datagrams under the feature
  quotas. A connection is known by its \<open>stable_id\<close>. What the relay cannot decide itself is in
  \<open>relay_env\<close>: whether a send succeeds, whether a connection is closed, the iteration order of a hash
  set, the room a JSON audio frame names, and which hooks are installed. Sent datagrams and hook
  calls are returned in order. The notifications on the command stream are not modelled.
\<close>

section \<open>State\<close>

definition MAX_PEERS :: nat where "MAX_PEERS = 255"

record relay_peer =
  rp_index :: u8
  rp_conn :: nat
  rp_room :: "room_id option"
  rp_bytes :: u64

record relay_state =
  ra_allowed :: "peer_id set"
  ra_portal_allowed :: "peer_id set"
  ra_peers :: "peer_id \<rightharpoonup> relay_peer"
  ra_index_to_peer :: "u8 \<rightharpoonup> peer_id"
  ra_rooms :: "room_id \<rightharpoonup> peer_id set"
  ra_game_sessions :: "string \<rightharpoonup> peer_id set"
  ra_peer_game_session :: "peer_id \<rightharpoonup> string"
  ra_video_subs :: "peer_id \<rightharpoonup> peer_id set"
  ra_next_index :: u8
  ra_total_bytes :: u64

definition new_relay :: relay_state where
  "new_relay = \<lparr>ra_allowed = {}, ra_portal_allowed = {}, ra_peers = Map.empty, ra_index_to_peer = Map.empty,
     ra_rooms = Map.empty, ra_game_sessions = Map.empty, ra_peer_game_session = Map.empty,
     ra_video_subs = Map.empty, ra_next_index = 1, ra_total_bytes = 0\<rparr>"

record relay_env =
  re_send_ok :: "nat \<Rightarrow> bool"
  re_closed :: "nat \<Rightarrow> bool"
  re_iter :: "peer_id set \<Rightarrow> peer_id list"
  re_pick_room :: "room_id set \<Rightarrow> room_id"
  re_json_room :: "string \<Rightarrow> string option"
  re_audio_bridge :: bool
  re_game_bridge :: bool

abbreviation strip :: "peer_id \<Rightarrow> peer_id" where
  "strip \<equiv> trim_end (CHR ''='')"

section \<open>Operations\<close>

definition set_video_subscriptions :: "peer_id \<Rightarrow> peer_id list \<Rightarrow> relay_state \<Rightarrow> relay_state" where
  "set_video_subscriptions subscriber senders st =
     st\<lparr>ra_video_subs := (ra_video_subs st)(normalize_public_id subscriber \<mapsto> normalize_public_id ` set senders)\<rparr>"

definition wants_video :: "relay_state \<Rightarrow> peer_id \<Rightarrow> peer_id \<Rightarrow> bool" where
  "wants_video st recipient sender =
     (case ra_video_subs st (normalize_public_id recipient) of
        Some s \<Rightarrow> normalize_public_id sender \<in> s
      | None \<Rightarrow> True)"

definition next_idx :: "u8 \<Rightarrow> u8" where
  "next_idx i = (if i = 254 then 1 else i + 1)"

text \<open>
  The search loop. The fuel bounds the number of probes; \<open>allocate_index\<close> starts with 254, which is
  enough from every index between 1 and 254 (\<open>alloc_loop_result\<close> below).
\<close>

fun alloc_loop :: "nat \<Rightarrow> (u8 \<rightharpoonup> peer_id) \<Rightarrow> u8 \<Rightarrow> u8 \<Rightarrow> (u8 option \<times> u8) option" where
  "alloc_loop 0 m start i = None"
| "alloc_loop (Suc fuel) m start i =
     (if m i = None then Some (Some i, next_idx i)
      else if next_idx i = start then Some (None, next_idx i)
      else alloc_loop fuel m start (next_idx i))"

definition allocate_index :: "relay_state \<Rightarrow> (u8 option \<times> relay_state) option" where
  "allocate_index st =
     (case alloc_loop 254 (ra_index_to_peer st) (ra_next_index st) (ra_next_index st) of
        None \<Rightarrow> None
      | Some (r, n) \<Rightarrow> Some (r, st\<lparr>ra_next_index := n\<rparr>))"

text \<open>Remove a member from one set of a map of sets; an empty set is dropped.\<close>

definition drop_member :: "'k \<Rightarrow> 'v \<Rightarrow> ('k \<rightharpoonup> 'v set) \<Rightarrow> ('k \<rightharpoonup> 'v set)" where
  "drop_member k v m =
     (case m k of
        None \<Rightarrow> m
      | Some s \<Rightarrow> if s - {v} = {} then m(k := None) else m(k \<mapsto> s - {v}))"

definition drop_everywhere :: "'v \<Rightarrow> ('k \<rightharpoonup> 'v set) \<Rightarrow> ('k \<rightharpoonup> 'v set)" where
  "drop_everywhere v m = (\<lambda>k. case m k of None \<Rightarrow> None | Some s \<Rightarrow> if s - {v} = {} then None else Some (s - {v}))"

definition add_member :: "'k \<Rightarrow> 'v \<Rightarrow> ('k \<rightharpoonup> 'v set) \<Rightarrow> ('k \<rightharpoonup> 'v set)" where
  "add_member k v m = m(k \<mapsto> insert v (case m k of None \<Rightarrow> {} | Some s \<Rightarrow> s))"

definition remove_peer :: "peer_id \<Rightarrow> relay_state \<Rightarrow> relay_state" where
  "remove_peer p st =
     (let st1 = st\<lparr>ra_video_subs := (ra_video_subs st)(normalize_public_id p := None)\<rparr>;
          st2 = (case ra_peers st1 p of
                   None \<Rightarrow> st1
                 | Some rp \<Rightarrow> st1\<lparr>ra_peers := (ra_peers st1)(p := None),
                       ra_index_to_peer := (ra_index_to_peer st1)(rp_index rp := None),
                       ra_rooms := (case rp_room rp of None \<Rightarrow> ra_rooms st1 | Some r \<Rightarrow> drop_member r p (ra_rooms st1))\<rparr>);
          st3 = st2\<lparr>ra_rooms := drop_everywhere p (ra_rooms st2)\<rparr>
      in case ra_peer_game_session st3 p of
           Some s \<Rightarrow> st3\<lparr>ra_peer_game_session := (ra_peer_game_session st3)(p := None),
                         ra_game_sessions := drop_member s p (ra_game_sessions st3)\<rparr>
         | None \<Rightarrow> st3\<lparr>ra_game_sessions := drop_everywhere p (ra_game_sessions st3)\<rparr>)"

definition relay_allow_peer :: "peer_id \<Rightarrow> relay_state \<Rightarrow> relay_state" where
  "relay_allow_peer p st = st\<lparr>ra_allowed := insert (strip p) (ra_allowed st)\<rparr>"

definition allow_peer_update :: "peer_id \<Rightarrow> relay_state \<Rightarrow> relay_state" where
  "allow_peer_update p st =
     st\<lparr>ra_portal_allowed := ra_portal_allowed st - {strip p}, ra_allowed := insert (strip p) (ra_allowed st)\<rparr>"

definition allow_portal_peer :: "peer_id \<Rightarrow> relay_state \<Rightarrow> relay_state" where
  "allow_portal_peer p st = st\<lparr>ra_portal_allowed := insert (strip p) (ra_portal_allowed st)\<rparr>"

definition clear_quotas :: "peer_id \<Rightarrow> 'm feature_registry \<Rightarrow> 'm feature_registry" where
  "clear_quotas p reg = clear_peer_outbound_quotas p (clear_peer_quotas p reg)"

definition relay_revoke_peer :: "peer_id \<Rightarrow> 'm feature_registry \<Rightarrow> relay_state \<Rightarrow> 'm feature_registry \<times> relay_state" where
  "relay_revoke_peer p reg st =
     (clear_quotas (strip p) reg, remove_peer (strip p) (st\<lparr>ra_allowed := ra_allowed st - {strip p}\<rparr>))"

definition relay_join_room :: "peer_id \<Rightarrow> room_id \<Rightarrow> relay_state \<Rightarrow> relay_state" where
  "relay_join_room p0 room_id st =
     (let p = strip p0;
          old_room = (case ra_peers st p of None \<Rightarrow> None | Some rp \<Rightarrow> rp_room rp);
          rooms1 = (case old_room of None \<Rightarrow> ra_rooms st | Some old \<Rightarrow> drop_member old p (ra_rooms st));
          peers1 = (case ra_peers st p of
                      None \<Rightarrow> ra_peers st
                    | Some rp \<Rightarrow> (ra_peers st)(p \<mapsto> rp\<lparr>rp_room := Some room_id\<rparr>))
      in st\<lparr>ra_peers := peers1, ra_rooms := add_member room_id p rooms1\<rparr>)"

definition relay_leave_room :: "peer_id \<Rightarrow> relay_state \<Rightarrow> relay_state" where
  "relay_leave_room p0 st =
     (let p = strip p0 in
      case ra_peers st p of
        None \<Rightarrow> st
      | Some rp \<Rightarrow>
          (case rp_room rp of
             None \<Rightarrow> st
           | Some r \<Rightarrow> st\<lparr>ra_peers := (ra_peers st)(p \<mapsto> rp\<lparr>rp_room := None\<rparr>),
                           ra_rooms := drop_member r p (ra_rooms st)\<rparr>))"

definition join_game_session :: "peer_id \<Rightarrow> string \<Rightarrow> relay_state \<Rightarrow> relay_state" where
  "join_game_session p0 session_id st =
     (let p = strip p0 in
      if session_id = [] \<or> length session_id > 128 then st
      else
        let sessions1 = (case ra_peer_game_session st p of
                           Some old \<Rightarrow> if old \<noteq> session_id then drop_member old p (ra_game_sessions st)
                                       else ra_game_sessions st
                         | None \<Rightarrow> ra_game_sessions st)
        in st\<lparr>ra_game_sessions := add_member session_id p sessions1,
              ra_peer_game_session := (ra_peer_game_session st)(p \<mapsto> session_id)\<rparr>)"

definition leave_game_session :: "peer_id \<Rightarrow> relay_state \<Rightarrow> relay_state" where
  "leave_game_session p0 st =
     (let p = strip p0 in
      case ra_peer_game_session st p of
        None \<Rightarrow> st
      | Some s \<Rightarrow> st\<lparr>ra_peer_game_session := (ra_peer_game_session st)(p := None),
                      ra_game_sessions := drop_member s p (ra_game_sessions st)\<rparr>)"

definition active_game_sessions :: "relay_state \<Rightarrow> string set" where
  "active_game_sessions st = {s. \<exists>ms. ra_game_sessions st s = Some ms \<and> ms \<noteq> {}}"

definition game_session_members :: "relay_state \<Rightarrow> string \<Rightarrow> peer_id set" where
  "game_session_members st s = (case ra_game_sessions st s of None \<Rightarrow> {} | Some ms \<Rightarrow> ms)"

definition get_room_peers :: "relay_state \<Rightarrow> room_id \<Rightarrow> peer_id set" where
  "get_room_peers st r = (case ra_rooms st r of None \<Rightarrow> {} | Some ms \<Rightarrow> ms)"

section \<open>Connections\<close>

datatype connect_result = NotAllowed | Full | NoIndices | Admitted u8 bool

text \<open>
  Admission of a connection for the name in its certificate. The flag of \<open>Admitted\<close> says that the peer
  is a portal-only guest.
\<close>

definition relay_connect :: "relay_env \<Rightarrow> peer_id \<Rightarrow> nat \<Rightarrow> 'm feature_registry \<Rightarrow> relay_state \<Rightarrow>
    (connect_result \<times> 'm feature_registry \<times> relay_state) option" where
  "relay_connect env p conn reg st =
     (let allowed = (p \<in> ra_allowed st); portal_only = (p \<notin> ra_allowed st \<and> p \<in> ra_portal_allowed st) in
      if \<not> allowed \<and> \<not> portal_only then Some (NotAllowed, reg, st)
      else if msize (ra_peers st) \<ge> MAX_PEERS then Some (Full, reg, st)
      else
        let prior_room = (case ra_peers st p of None \<Rightarrow> None | Some rp \<Rightarrow> rp_room rp);
            (reg1, st1) = (case ra_peers st p of
                None \<Rightarrow> (reg, st)
              | Some old \<Rightarrow>
                  (clear_quotas p reg,
                   st\<lparr>ra_peers := (ra_peers st)(p := None),
                      ra_index_to_peer := (ra_index_to_peer st)(rp_index old := None),
                      ra_rooms := (case prior_room of None \<Rightarrow> ra_rooms st | Some r \<Rightarrow> add_member r p (ra_rooms st))\<rparr>))
        in case allocate_index st1 of
             None \<Rightarrow> None
           | Some (None, st2) \<Rightarrow> Some (NoIndices, reg1, st2)
           | Some (Some idx, st2) \<Rightarrow>
               let in_rooms = {r. \<exists>ms. ra_rooms st2 r = Some ms \<and> p \<in> ms};
                   existing_room = (case prior_room of
                       Some r \<Rightarrow> Some r
                     | None \<Rightarrow> if in_rooms = {} then None else Some (re_pick_room env in_rooms))
               in Some (Admitted idx portal_only, reg1,
                    st2\<lparr>ra_index_to_peer := (ra_index_to_peer st2)(idx \<mapsto> p),
                        ra_peers := (ra_peers st2)(p \<mapsto>
                          \<lparr>rp_index = idx, rp_conn = conn, rp_room = existing_room, rp_bytes = 0\<rparr>)\<rparr>))"

text \<open>The exit path of a connection: only the connection that is registered removes the peer.\<close>

definition relay_disconnect :: "peer_id \<Rightarrow> nat \<Rightarrow> 'm feature_registry \<Rightarrow> relay_state \<Rightarrow> 'm feature_registry \<times> relay_state" where
  "relay_disconnect p conn reg st =
     (case ra_peers st p of
        Some rp \<Rightarrow> if rp_conn rp = conn then (clear_quotas p reg, remove_peer p st) else (reg, st)
      | None \<Rightarrow> (reg, st))"

fun remove_all :: "peer_id list \<Rightarrow> 'm feature_registry \<Rightarrow> relay_state \<Rightarrow> 'm feature_registry \<times> relay_state" where
  "remove_all [] reg st = (reg, st)"
| "remove_all (p # ps) reg st = remove_all ps (clear_quotas p reg) (remove_peer p st)"

definition cleanup_stale_peers :: "relay_env \<Rightarrow> 'm feature_registry \<Rightarrow> relay_state \<Rightarrow> 'm feature_registry \<times> relay_state" where
  "cleanup_stale_peers env reg st =
     (let stale = {p. \<exists>rp. ra_peers st p = Some rp \<and> re_closed env (rp_conn rp)}
      in remove_all (re_iter env stale) reg st)"

text \<open>Where an accepted stream goes by its first word: reliable signaling needs full access.\<close>

datatype stream_route = ToSignaling | ToPortal u32 | DropStream

definition route_stream :: "relay_state \<Rightarrow> peer_id \<Rightarrow> u32 \<Rightarrow> stream_route" where
  "route_stream st p word =
     (if word = RELAY_SIGNAL_STREAM_MAGIC then (if p \<in> ra_allowed st then ToSignaling else DropStream)
      else ToPortal word)"

section \<open>Datagrams\<close>

datatype relay_out =
    Sent peer_id bytes
  | AudioBridge peer_id u8 room_id bytes
  | GameBridge string peer_id bytes

definition relay_datagram_feature :: "bytes \<Rightarrow> feature_id \<times> nat" where
  "relay_datagram_feature payload =
     (if payload = [] then (''game.relay.v1'', 0)
      else case feature_for_fixed_tag (hd payload) of
             Some fid \<Rightarrow> (fid, length payload)
           | None \<Rightarrow> (''game.relay.v1'', length payload))"

definition room_id_from_room_audio_payload :: "relay_env \<Rightarrow> bytes \<Rightarrow> room_id option" where
  "room_id_from_room_audio_payload env payload =
     (if length payload < 2 then None
      else case from_utf8 (drop 1 payload) of
             None \<Rightarrow> None
           | Some json \<Rightarrow>
               (case re_json_room env json of
                  None \<Rightarrow> None
                | Some r \<Rightarrow> if r = [] then None else Some r))"

definition try_forward_datagram :: "relay_env \<Rightarrow> feature_id \<Rightarrow> peer_id \<Rightarrow> bytes \<Rightarrow> relay_peer \<Rightarrow> instant \<Rightarrow>
    'm feature_registry \<Rightarrow> bool \<times> 'm feature_registry" where
  "try_forward_datagram env fid recipient fwd member now reg =
     (let (ok, reg1) = gate_through_feature fid recipient (length fwd) now reg
      in if \<not> ok then (False, reg1) else (re_send_ok env (rp_conn member), reg1))"

text \<open>The fan-out loop over members that pass the filter and are connected.\<close>

fun fan_out :: "relay_env \<Rightarrow> feature_id \<Rightarrow> bytes \<Rightarrow> (peer_id \<Rightarrow> bool) \<Rightarrow> (peer_id \<rightharpoonup> relay_peer) \<Rightarrow> instant \<Rightarrow>
    peer_id list \<Rightarrow> 'm feature_registry \<Rightarrow> relay_out list \<times> u64 \<times> 'm feature_registry" where
  "fan_out env fid fwd want peers now [] reg = ([], 0, reg)"
| "fan_out env fid fwd want peers now (q # qs) reg =
     (if \<not> want q then fan_out env fid fwd want peers now qs reg
      else case peers q of
        None \<Rightarrow> fan_out env fid fwd want peers now qs reg
      | Some member \<Rightarrow>
          let (sent, reg1) = try_forward_datagram env fid q fwd member now reg;
              (outs, n, reg2) = fan_out env fid fwd want peers now qs reg1
          in (if sent then (Sent q fwd # outs, word_of_nat (length fwd) + n, reg2) else (outs, n, reg2)))"

definition add_relayed :: "peer_id \<Rightarrow> u64 \<Rightarrow> relay_state \<Rightarrow> relay_state" where
  "add_relayed p n st =
     (if n = 0 then st
      else st\<lparr>ra_total_bytes := ra_total_bytes st + n,
              ra_peers := (case ra_peers st p of
                 None \<Rightarrow> ra_peers st
               | Some rp \<Rightarrow> (ra_peers st)(p \<mapsto> rp\<lparr>rp_bytes := rp_bytes rp + n\<rparr>))\<rparr>)"

definition heal_room :: "peer_id \<Rightarrow> room_id \<Rightarrow> relay_state \<Rightarrow> relay_state" where
  "heal_room p r st =
     st\<lparr>ra_peers := (case ra_peers st p of
           None \<Rightarrow> ra_peers st
         | Some rp \<Rightarrow> (ra_peers st)(p \<mapsto> rp\<lparr>rp_room := Some r\<rparr>)),
        ra_rooms := add_member r p (ra_rooms st)\<rparr>"

definition audio_bridge_step :: "relay_env \<Rightarrow> peer_id \<Rightarrow> relay_peer \<Rightarrow> bytes \<Rightarrow> relay_state \<Rightarrow> relay_out list \<times> relay_state" where
  "audio_bridge_step env p from payload st =
     (let payload_room = room_id_from_room_audio_payload env payload;
          room_id = (case payload_room of Some r \<Rightarrow> Some r | None \<Rightarrow> rp_room from);
          st1 = (case (rp_room from, payload_room) of (None, Some r) \<Rightarrow> heal_room p r st | _ \<Rightarrow> st)
      in (case room_id of Some r \<Rightarrow> [AudioBridge p (rp_index from) r payload] | None \<Rightarrow> [], st1))"

definition room_broadcast :: "relay_env \<Rightarrow> feature_id \<Rightarrow> bytes \<Rightarrow> peer_id \<Rightarrow> relay_peer \<Rightarrow> instant \<Rightarrow>
    'm feature_registry \<Rightarrow> relay_state \<Rightarrow> relay_out list \<times> u64 \<times> 'm feature_registry" where
  "room_broadcast env fid fwd from_peer from now reg st =
     (case rp_room from of
        None \<Rightarrow> ([], 0, reg)
      | Some r \<Rightarrow>
          (case ra_rooms st r of
             None \<Rightarrow> ([], 0, reg)
           | Some members \<Rightarrow>
               fan_out env fid fwd
                 (\<lambda>q. q \<noteq> from_peer \<and> \<not> (fid = ''room.video.sfu'' \<and> \<not> wants_video st q from_peer))
                 (ra_peers st) now (re_iter env members) reg))"

definition point_to_point :: "relay_env \<Rightarrow> feature_id \<Rightarrow> bytes \<Rightarrow> relay_peer \<Rightarrow> u8 \<Rightarrow> instant \<Rightarrow>
    'm feature_registry \<Rightarrow> relay_state \<Rightarrow> relay_out list \<times> u64 \<times> 'm feature_registry" where
  "point_to_point env fid fwd from target_idx now reg st =
     (case ra_index_to_peer st target_idx of
        None \<Rightarrow> ([], 0, reg)
      | Some q \<Rightarrow>
          (case ra_peers st q of
             None \<Rightarrow> ([], 0, reg)
           | Some target \<Rightarrow>
               let same_room = (case (rp_room from, rp_room target) of (Some a, Some b) \<Rightarrow> a = b | _ \<Rightarrow> False)
               in if \<not> same_room then ([], 0, reg)
                  else let (sent, reg1) = try_forward_datagram env fid q fwd target now reg
                       in if sent then ([Sent q fwd], word_of_nat (length fwd), reg1) else ([], 0, reg1)))"

text \<open>The active portal game session of a peer with its members, if the session exists.\<close>

definition active_session :: "relay_state \<Rightarrow> peer_id \<Rightarrow> (string \<times> peer_id set) option" where
  "active_session st p =
     (case ra_peer_game_session st p of
        None \<Rightarrow> None
      | Some s \<Rightarrow> (case ra_game_sessions st s of None \<Rightarrow> None | Some members \<Rightarrow> Some (s, members)))"

definition forward_datagram :: "relay_env \<Rightarrow> feature_id \<Rightarrow> u8 \<Rightarrow> bytes \<Rightarrow> peer_id \<Rightarrow> relay_peer \<Rightarrow> instant \<Rightarrow>
    'm feature_registry \<Rightarrow> relay_state \<Rightarrow> relay_out list \<times> 'm feature_registry \<times> relay_state" where
  "forward_datagram env fid target_idx payload from_peer from now reg st =
     (let fwd = build_forwarded_datagram (rp_index from) payload in
      if target_idx = BROADCAST_INDEX \<and> fid = ''room.audio.sfu'' \<and> re_audio_bridge env then
        (let (outs, st1) = audio_bridge_step env from_peer from payload st in (outs, reg, st1))
      else
        case (if target_idx = BROADCAST_INDEX \<and> fid = ''game.relay.v1'' then active_session st from_peer else None) of
          Some (session_id, members) \<Rightarrow>
            (let (outs, n, reg1) = fan_out env fid fwd (\<lambda>q. q \<noteq> from_peer) (ra_peers st) now (re_iter env members) reg
             in (outs @ (if re_game_bridge env then [GameBridge session_id from_peer payload] else []),
                 reg1, add_relayed from_peer n st))
        | None \<Rightarrow>
            (let (outs, n, reg1) =
               (if target_idx = BROADCAST_INDEX then room_broadcast env fid fwd from_peer from now reg st
                else point_to_point env fid fwd from target_idx now reg st)
             in (outs, reg1, add_relayed from_peer n st)))"

definition handle_datagram :: "relay_env \<Rightarrow> peer_id \<Rightarrow> bytes \<Rightarrow> instant \<Rightarrow> 'm feature_registry \<Rightarrow> relay_state \<Rightarrow>
    relay_out list \<times> 'm feature_registry \<times> relay_state" where
  "handle_datagram env from_peer data now reg0 st =
     (case parse_datagram data of
        None \<Rightarrow> ([], reg0, st)
      | Some (target_idx, payload) \<Rightarrow>
          let (feature_id, quota_bytes) = relay_datagram_feature payload;
              (ok, reg) = (if quota_bytes > 0 then gate_inbound_through_feature feature_id from_peer quota_bytes now reg0
                           else (True, reg0))
          in if \<not> ok then ([], reg, st)
             else case ra_peers st from_peer of
               None \<Rightarrow> ([], reg, st)
             | Some from \<Rightarrow> forward_datagram env feature_id target_idx payload from_peer from now reg st)"

text \<open>The gate of the datagram loop: only peers with full access are forwarded.\<close>

definition on_datagram :: "relay_env \<Rightarrow> peer_id \<Rightarrow> bytes \<Rightarrow> instant \<Rightarrow> 'm feature_registry \<Rightarrow> relay_state \<Rightarrow>
    relay_out list \<times> 'm feature_registry \<times> relay_state" where
  "on_datagram env p data now reg st =
     (if p \<in> ra_allowed st then handle_datagram env p data now reg st else ([], reg, st))"

definition send_feature_datagram :: "relay_env \<Rightarrow> peer_id \<Rightarrow> feature_id \<Rightarrow> bytes \<Rightarrow> instant \<Rightarrow> 'm feature_registry \<Rightarrow>
    relay_state \<Rightarrow> bool option \<times> 'm feature_registry" where
  "send_feature_datagram env recipient fid fwd now reg st =
     (let q = strip recipient in
      case ra_peers st q of
        None \<Rightarrow> (None, reg)
      | Some rp \<Rightarrow>
          if re_closed env (rp_conn rp) then (None, reg)
          else let (sent, reg1) = try_forward_datagram env fid q fwd rp now reg in (Some sent, reg1))"

section \<open>Index allocation\<close>

definition nth_idx :: "u8 \<Rightarrow> nat \<Rightarrow> u8" where
  "nth_idx start k = word_of_nat ((unat start - 1 + k) mod 254 + 1)"

lemma unat_nth_idx: "unat (nth_idx s k) = (unat s - 1 + k) mod 254 + 1"
proof -
  have "(unat s - 1 + k) mod 254 + 1 < 256"
    using mod_less_divisor [of 254 "unat s - 1 + k"] by simp
  then show ?thesis unfolding nth_idx_def by (rule unat_byte)
qed

lemma next_nth_idx: "next_idx (nth_idx s k) = nth_idx s (Suc k)"
proof (rule word_unat_eq_iff [THEN iffD2])
  have lt: "(unat s - 1 + k) mod 254 < 254" by simp
  have "nth_idx s k = 254 \<longleftrightarrow> (unat s - 1 + k) mod 254 = 253"
    by (simp add: word_unat_eq_iff unat_nth_idx)
  moreover have "unat (nth_idx s k + 1) = unat (nth_idx s k) + 1" if "(unat s - 1 + k) mod 254 \<noteq> 253"
    using that lt by (simp add: unat_word_ariths unat_nth_idx)
  ultimately show "unat (next_idx (nth_idx s k)) = unat (nth_idx s (Suc k))"
    using mod_Suc [of "unat s - 1 + k" 254] by (auto simp: next_idx_def unat_nth_idx)
qed

definition idx_range :: "u8 set" where
  "idx_range = {i. 1 \<le> unat i \<and> unat i \<le> 254}"

lemma nth_idx_range: "nth_idx s k \<in> idx_range"
proof -
  have "(unat s - 1 + k) mod 254 < 254" by simp
  then show ?thesis unfolding idx_range_def by (simp add: unat_nth_idx)
qed

lemma nth_idx_start:
  assumes "s \<in> idx_range" "j \<le> 254"
  shows "nth_idx s j = s \<longleftrightarrow> j = 0 \<or> j = 254"
proof -
  have s: "1 \<le> unat s" "unat s \<le> 254" using assms(1) by (simp_all add: idx_range_def)
  have "nth_idx s j = s \<longleftrightarrow> (unat s - 1 + j) mod 254 = unat s - 1"
    using s by (auto simp: word_unat_eq_iff unat_nth_idx)
  moreover have "(unat s - 1 + j) mod 254 = unat s - 1 \<longleftrightarrow> j = 0 \<or> j = 254"
    using s assms(2) by (cases "unat s - 1 + j < 254") (auto simp: mod_if)
  ultimately show ?thesis by simp
qed

lemma nth_idx_onto:
  assumes "s \<in> idx_range" "i \<in> idx_range"
  obtains j where "j < 254" "nth_idx s j = i"
proof -
  have si: "1 \<le> unat s" "unat s \<le> 254" "1 \<le> unat i" "unat i \<le> 254" using assms by (simp_all add: idx_range_def)
  define j where "j = (if unat s \<le> unat i then unat i - unat s else 254 - unat s + unat i)"
  have "j < 254" using si by (auto simp: j_def)
  moreover have "(unat s - 1 + j) mod 254 = unat i - 1"
    using si by (cases "unat s \<le> unat i") (auto simp: j_def mod_if)
  then have "nth_idx s j = i" using si by (simp add: word_unat_eq_iff unat_nth_idx)
  ultimately show thesis using that by blast
qed

lemma alloc_loop_result:
  assumes "s \<in> idx_range" "k < 254"
  shows "alloc_loop (254 - k) m s (nth_idx s k) =
    (case find (\<lambda>j. m (nth_idx s j) = None) [k..<254] of
       Some j \<Rightarrow> Some (Some (nth_idx s j), nth_idx s (Suc j))
     | None \<Rightarrow> Some (None, s))"
  using assms(2)
proof (induction "254 - k" arbitrary: k)
  case (Suc d)
  have d: "254 - k = Suc d" "d = 254 - Suc k" using Suc.hyps(2) by simp_all
  have up: "[k..<254] = k # [Suc k..<254]" using Suc.prems by (simp add: upt_conv_Cons)
  show ?case
  proof (cases "m (nth_idx s k) = None")
    case True
    then show ?thesis by (simp add: d(1) up next_nth_idx)
  next
    case used: False
    show ?thesis
    proof (cases "Suc k = 254")
      case True
      then have "next_idx (nth_idx s k) = s"
        using nth_idx_start [OF assms(1), of 254] by (simp add: next_nth_idx)
      with used True show ?thesis by (auto simp: d(1) up)
    next
      case False
      then have "Suc k < 254" using Suc.prems by simp
      moreover have "next_idx (nth_idx s k) \<noteq> s"
        using nth_idx_start [OF assms(1), of "Suc k"] calculation by (simp add: next_nth_idx)
      ultimately show ?thesis
        using used Suc.hyps(1) [OF d(2)] d(2) by (auto simp: d(1) up next_nth_idx)
    qed
  qed
qed simp

lemma allocate_index_result:
  assumes "ra_next_index st \<in> idx_range"
  obtains r n where "allocate_index st = Some (r, st\<lparr>ra_next_index := n\<rparr>)" "n \<in> idx_range"
    "\<forall>i. r = Some i \<longrightarrow> i \<in> idx_range \<and> ra_index_to_peer st i = None"
    "r = None \<longrightarrow> (\<forall>i \<in> idx_range. ra_index_to_peer st i \<noteq> None)"
proof -
  let ?s = "ra_next_index st" and ?m = "ra_index_to_peer st"
  have start: "nth_idx ?s 0 = ?s" using nth_idx_start [OF assms, of 0] by simp
  note loop = alloc_loop_result [OF assms, of 0 ?m, unfolded start]
  show thesis
  proof (cases "find (\<lambda>j. ?m (nth_idx ?s j) = None) [0..<254]")
    case None
    then have all: "\<forall>j < 254. ?m (nth_idx ?s j) \<noteq> None" by (auto simp: find_None_iff)
    have "\<forall>i \<in> idx_range. ?m i \<noteq> None"
    proof
      fix i assume "i \<in> idx_range"
      then obtain j where "j < 254" "nth_idx ?s j = i" by (rule nth_idx_onto [OF assms])
      with all show "?m i \<noteq> None" by blast
    qed
    with None loop that [of None ?s] assms show ?thesis by (simp add: allocate_index_def)
  next
    case (Some j)
    then have "?m (nth_idx ?s j) = None" by (auto simp: find_Some_iff)
    with Some loop that [of "Some (nth_idx ?s j)" "nth_idx ?s (Suc j)"] nth_idx_range
    show ?thesis by (simp add: allocate_index_def)
  qed
qed

section \<open>Invariant\<close>

definition sets_ok :: "('k \<rightharpoonup> 'v set) \<Rightarrow> bool" where
  "sets_ok m \<longleftrightarrow> (\<forall>k s. m k = Some s \<longrightarrow> s \<noteq> {})"

definition member_of :: "('k \<rightharpoonup> 'v set) \<Rightarrow> 'k \<Rightarrow> 'v \<Rightarrow> bool" where
  "member_of m k v \<longleftrightarrow> (\<exists>s. m k = Some s \<and> v \<in> s)"

lemma member_of_drop [simp]: "member_of (drop_member k v m) k' v' \<longleftrightarrow> member_of m k' v' \<and> (k' = k \<longrightarrow> v' \<noteq> v)"
  by (auto simp: member_of_def drop_member_def split: option.splits)

lemma member_of_everywhere [simp]: "member_of (drop_everywhere v m) k v' \<longleftrightarrow> member_of m k v' \<and> v' \<noteq> v"
  by (auto simp: member_of_def drop_everywhere_def split: option.splits)

lemma member_of_add [simp]: "member_of (add_member k v m) k' v' \<longleftrightarrow> member_of m k' v' \<or> (k' = k \<and> v' = v)"
  by (auto simp: member_of_def add_member_def split: option.splits)

lemma sets_ok_drop [intro]: "sets_ok m \<Longrightarrow> sets_ok (drop_member k v m)"
  by (auto simp: sets_ok_def drop_member_def split: option.splits)

lemma sets_ok_everywhere [intro]: "sets_ok m \<Longrightarrow> sets_ok (drop_everywhere v m)"
  by (auto simp: sets_ok_def drop_everywhere_def split: option.splits if_splits)

lemma sets_ok_add [intro]: "sets_ok m \<Longrightarrow> sets_ok (add_member k v m)"
  by (auto simp: sets_ok_def add_member_def)

definition relay_ok :: "relay_state \<Rightarrow> bool" where
  "relay_ok st \<longleftrightarrow>
     (\<forall>i p. ra_index_to_peer st i = Some p \<longleftrightarrow> (\<exists>rp. ra_peers st p = Some rp \<and> rp_index rp = i)) \<and>
     (\<forall>p rp. ra_peers st p = Some rp \<longrightarrow> rp_index rp \<in> idx_range) \<and>
     (\<forall>p rp r. ra_peers st p = Some rp \<and> rp_room rp = Some r \<longrightarrow> member_of (ra_rooms st) r p) \<and>
     (\<forall>p s. ra_peer_game_session st p = Some s \<longleftrightarrow> member_of (ra_game_sessions st) s p) \<and>
     sets_ok (ra_rooms st) \<and> sets_ok (ra_game_sessions st) \<and> ra_next_index st \<in> idx_range"

lemma relay_okI [intro?]:
  assumes "\<And>i p. ra_index_to_peer st i = Some p \<longleftrightarrow> (\<exists>rp. ra_peers st p = Some rp \<and> rp_index rp = i)"
    and "\<And>p rp. ra_peers st p = Some rp \<Longrightarrow> rp_index rp \<in> idx_range"
    and "\<And>p rp r. ra_peers st p = Some rp \<Longrightarrow> rp_room rp = Some r \<Longrightarrow> member_of (ra_rooms st) r p"
    and "\<And>p s. ra_peer_game_session st p = Some s \<longleftrightarrow> member_of (ra_game_sessions st) s p"
    and "sets_ok (ra_rooms st)" "sets_ok (ra_game_sessions st)" "ra_next_index st \<in> idx_range"
  shows "relay_ok st"
  using assms unfolding relay_ok_def by blast

lemma relay_okD:
  assumes "relay_ok st"
  shows "ra_index_to_peer st i = Some p \<longleftrightarrow> (\<exists>rp. ra_peers st p = Some rp \<and> rp_index rp = i)"
    and "ra_peers st p = Some rp \<Longrightarrow> rp_index rp \<in> idx_range"
    and "ra_peers st p = Some rp \<Longrightarrow> rp_room rp = Some r \<Longrightarrow> member_of (ra_rooms st) r p"
    and "ra_peer_game_session st p = Some s \<longleftrightarrow> member_of (ra_game_sessions st) s p"
    and "sets_ok (ra_rooms st)" "sets_ok (ra_game_sessions st)" "ra_next_index st \<in> idx_range"
  using assms unfolding relay_ok_def by blast+

lemma index_unique:
  "relay_ok st \<Longrightarrow> ra_peers st p = Some rp \<Longrightarrow> ra_peers st q = Some rq \<Longrightarrow> rp_index rp = rp_index rq \<Longrightarrow> p = q"
  using relay_okD(1) [of st "rp_index rp" p] relay_okD(1) [of st "rp_index rp" q] by (metis option.inject)

text \<open>A state in which only the rooms and rooms-of-peers changed.\<close>

lemma relay_ok_rooms:
  assumes "relay_ok st"
    and "\<And>q. map_option rp_index (peers' q) = map_option rp_index (ra_peers st q)"
    and "\<And>q rq r. peers' q = Some rq \<Longrightarrow> rp_room rq = Some r \<Longrightarrow> member_of rooms' r q"
    and "sets_ok rooms'"
  shows "relay_ok (st\<lparr>ra_peers := peers', ra_rooms := rooms'\<rparr>)"
proof
  have ex: "(\<exists>rq. peers' q = Some rq \<and> rp_index rq = i) \<longleftrightarrow> (\<exists>rq. ra_peers st q = Some rq \<and> rp_index rq = i)" for q i
    using assms(2) [of q] by (cases "peers' q"; cases "ra_peers st q") auto
  show "ra_index_to_peer (st\<lparr>ra_peers := peers', ra_rooms := rooms'\<rparr>) i = Some p \<longleftrightarrow>
      (\<exists>rp. ra_peers (st\<lparr>ra_peers := peers', ra_rooms := rooms'\<rparr>) p = Some rp \<and> rp_index rp = i)" for i p
    using relay_okD(1) [OF assms(1), of i p] ex by simp
  show "rp_index rp \<in> idx_range" if "ra_peers (st\<lparr>ra_peers := peers', ra_rooms := rooms'\<rparr>) p = Some rp" for p rp
    using that ex [of p "rp_index rp"] relay_okD(2) [OF assms(1), of p] by auto
qed (use assms relay_okD [OF assms(1)] in auto)

lemma relay_ok_new: "relay_ok new_relay"
  by (rule relay_okI) (simp_all add: new_relay_def member_of_def sets_ok_def idx_range_def)

lemma relay_ok_cong:
  assumes "relay_ok st" "ra_index_to_peer st' = ra_index_to_peer st" "ra_peers st' = ra_peers st"
    "ra_rooms st' = ra_rooms st" "ra_game_sessions st' = ra_game_sessions st"
    "ra_peer_game_session st' = ra_peer_game_session st" "ra_next_index st' \<in> idx_range"
  shows "relay_ok st'"
  using assms(1) unfolding relay_ok_def assms(2-6) using assms(7) by blast

lemma relay_ok_access:
  assumes "relay_ok st"
  shows "relay_ok (st\<lparr>ra_allowed := A\<rparr>)" "relay_ok (st\<lparr>ra_portal_allowed := B\<rparr>)"
    "relay_ok (st\<lparr>ra_portal_allowed := B, ra_allowed := A\<rparr>)" "relay_ok (st\<lparr>ra_video_subs := V\<rparr>)"
    "n \<in> idx_range \<Longrightarrow> relay_ok (st\<lparr>ra_next_index := n\<rparr>)"
  by (rule relay_ok_cong [OF assms]; use relay_okD(7) [OF assms] in simp)+

lemma relay_ok_join:
  assumes "relay_ok st"
  shows "relay_ok (relay_join_room p r st)"
  unfolding relay_join_room_def Let_def
  by (rule relay_ok_rooms [OF assms])
     (use relay_okD [OF assms] in \<open>auto split: option.splits if_splits\<close>)

lemma relay_ok_leave:
  assumes "relay_ok st"
  shows "relay_ok (relay_leave_room p st)"
proof (cases "\<exists>rp r. ra_peers st (strip p) = Some rp \<and> rp_room rp = Some r")
  case True
  then obtain rp r where rp: "ra_peers st (strip p) = Some rp" "rp_room rp = Some r" by blast
  have "relay_ok (st\<lparr>ra_peers := (ra_peers st)(strip p \<mapsto> rp\<lparr>rp_room := None\<rparr>),
      ra_rooms := drop_member r (strip p) (ra_rooms st)\<rparr>)"
    by (rule relay_ok_rooms [OF assms]) (use rp relay_okD [OF assms] in \<open>auto split: if_splits\<close>)
  with rp show ?thesis by (simp add: relay_leave_room_def Let_def)
next
  case False
  then have "relay_leave_room p st = st" by (auto simp: relay_leave_room_def Let_def split: option.splits)
  with assms show ?thesis by simp
qed

lemma relay_ok_heal:
  assumes "relay_ok st" "ra_peers st p = Some rp"
  shows "relay_ok (heal_room p r st)"
  unfolding heal_room_def
  by (rule relay_ok_rooms [OF assms(1)]) (use assms(2) relay_okD [OF assms(1)] in \<open>auto split: if_splits\<close>)

lemma relay_ok_relayed:
  assumes "relay_ok st"
  shows "relay_ok (add_relayed p n st)"
proof -
  let ?peers = "case ra_peers st p of None \<Rightarrow> ra_peers st | Some rp \<Rightarrow> (ra_peers st)(p \<mapsto> rp\<lparr>rp_bytes := rp_bytes rp + n\<rparr>)"
  have "relay_ok (st\<lparr>ra_peers := ?peers, ra_rooms := ra_rooms st\<rparr>)"
    by (rule relay_ok_rooms [OF assms]) (use relay_okD [OF assms] in \<open>auto split: option.splits if_splits\<close>)
  then have "relay_ok (st\<lparr>ra_total_bytes := ra_total_bytes st + n, ra_peers := ?peers\<rparr>)"
    by (rule relay_ok_cong) (use relay_okD(7) [OF assms] in simp_all)
  with assms show ?thesis by (simp add: add_relayed_def)
qed

lemma relay_ok_games:
  assumes "relay_ok st" "sets_ok g"
    and "\<And>p s. gp p = Some s \<longleftrightarrow> member_of g s p"
  shows "relay_ok (st\<lparr>ra_game_sessions := g, ra_peer_game_session := gp\<rparr>)"
  by (rule relay_okI) (use assms(2,3) relay_okD [OF assms(1)] in simp_all)

lemma in_session_iff: "relay_ok st \<Longrightarrow> member_of (ra_game_sessions st) s p \<longleftrightarrow> ra_peer_game_session st p = Some s"
  using relay_okD(4) by blast

lemma relay_ok_join_game:
  assumes "relay_ok st"
  shows "relay_ok (join_game_session p s st)"
proof (cases "s = [] \<or> length s > 128")
  case False
  let ?g = "case ra_peer_game_session st (strip p) of
      Some old \<Rightarrow> if old \<noteq> s then drop_member old (strip p) (ra_game_sessions st) else ra_game_sessions st
    | None \<Rightarrow> ra_game_sessions st"
  have "relay_ok (st\<lparr>ra_game_sessions := add_member s (strip p) ?g,
      ra_peer_game_session := (ra_peer_game_session st)(strip p \<mapsto> s)\<rparr>)"
  proof (rule relay_ok_games [OF assms])
    show "sets_ok (add_member s (strip p) ?g)"
      using relay_okD(6) [OF assms] by (auto split: option.splits)
    show "((ra_peer_game_session st)(strip p \<mapsto> s)) q = Some s' \<longleftrightarrow> member_of (add_member s (strip p) ?g) s' q" for q s'
      by (auto simp: in_session_iff [OF assms] split: option.splits)
  qed
  with False show ?thesis by (simp add: join_game_session_def Let_def)
qed (simp add: join_game_session_def assms)

lemma relay_ok_drop_game:
  assumes "relay_ok st" "ra_peer_game_session st p = Some s"
  shows "relay_ok (st\<lparr>ra_game_sessions := drop_member s p (ra_game_sessions st),
    ra_peer_game_session := (ra_peer_game_session st)(p := None)\<rparr>)"
proof (rule relay_ok_games [OF assms(1)])
  show "sets_ok (drop_member s p (ra_game_sessions st))" using relay_okD(6) [OF assms(1)] by blast
  show "((ra_peer_game_session st)(p := None)) q = Some s' \<longleftrightarrow>
      member_of (drop_member s p (ra_game_sessions st)) s' q" for q s'
    using assms(2) by (auto simp: in_session_iff [OF assms(1)])
qed

lemma relay_ok_leave_game:
  assumes "relay_ok st"
  shows "relay_ok (leave_game_session p st)"
proof (cases "ra_peer_game_session st (strip p)")
  case (Some s)
  from relay_ok_drop_game [OF assms Some] show ?thesis
    by (rule relay_ok_cong) (use Some relay_okD(7) [OF assms] in \<open>simp_all add: leave_game_session_def Let_def\<close>)
qed (simp add: leave_game_session_def assms)

lemma relay_ok_forget:
  assumes "relay_ok st" "ra_peers st p = Some rp" "\<And>q r. q \<noteq> p \<Longrightarrow> member_of rooms' r q = member_of (ra_rooms st) r q"
    and "sets_ok rooms'"
  shows "relay_ok (st\<lparr>ra_peers := (ra_peers st)(p := None),
    ra_index_to_peer := (ra_index_to_peer st)(rp_index rp := None), ra_rooms := rooms'\<rparr>)"
proof
  show "ra_index_to_peer (st\<lparr>ra_peers := (ra_peers st)(p := None),
      ra_index_to_peer := (ra_index_to_peer st)(rp_index rp := None), ra_rooms := rooms'\<rparr>) i = Some q \<longleftrightarrow>
    (\<exists>rq. ra_peers (st\<lparr>ra_peers := (ra_peers st)(p := None),
      ra_index_to_peer := (ra_index_to_peer st)(rp_index rp := None), ra_rooms := rooms'\<rparr>) q = Some rq \<and> rp_index rq = i)"
    for i q
  proof (cases "i = rp_index rp")
    case True
    have "q = p" if "ra_peers st q = Some rq" "rp_index rq = rp_index rp" for rq
      using index_unique [OF assms(1) that(1) assms(2) that(2)] .
    with True show ?thesis by auto
  next
    case False
    then show ?thesis using relay_okD(1) [OF assms(1), of i q] assms(2) by (cases "q = p") auto
  qed
  show "rp_index rq \<in> idx_range" if "ra_peers (st\<lparr>ra_peers := (ra_peers st)(p := None),
      ra_index_to_peer := (ra_index_to_peer st)(rp_index rp := None), ra_rooms := rooms'\<rparr>) q = Some rq" for q rq
    using that relay_okD(2) [OF assms(1), of q rq] by (simp split: if_splits)
  show "member_of (ra_rooms (st\<lparr>ra_peers := (ra_peers st)(p := None),
      ra_index_to_peer := (ra_index_to_peer st)(rp_index rp := None), ra_rooms := rooms'\<rparr>)) r q"
    if "ra_peers (st\<lparr>ra_peers := (ra_peers st)(p := None),
      ra_index_to_peer := (ra_index_to_peer st)(rp_index rp := None), ra_rooms := rooms'\<rparr>) q = Some rq"
      "rp_room rq = Some r" for q rq r
    using that relay_okD(3) [OF assms(1), of q rq r] assms(3) [of q r] by (simp split: if_splits)
qed (use assms(4) relay_okD(4,6,7) [OF assms(1)] in simp_all)

lemma relay_ok_remove:
  assumes "relay_ok st"
  shows "relay_ok (remove_peer p st)"
proof -
  define st1 where "st1 = st\<lparr>ra_video_subs := (ra_video_subs st)(normalize_public_id p := None)\<rparr>"
  define rooms2 where "rooms2 = (case ra_peers st1 p of None \<Rightarrow> ra_rooms st1
     | Some rp \<Rightarrow> (case rp_room rp of None \<Rightarrow> ra_rooms st1 | Some r \<Rightarrow> drop_member r p (ra_rooms st1)))"
  define st2 where "st2 = (case ra_peers st1 p of None \<Rightarrow> st1
     | Some rp \<Rightarrow> st1\<lparr>ra_peers := (ra_peers st1)(p := None),
           ra_index_to_peer := (ra_index_to_peer st1)(rp_index rp := None), ra_rooms := rooms2\<rparr>)"
  define st3 where "st3 = st2\<lparr>ra_rooms := drop_everywhere p (ra_rooms st2)\<rparr>"
  have ok1: "relay_ok st1" unfolding st1_def by (rule relay_ok_access(4) [OF assms])
  have ok2: "relay_ok st2"
  proof (cases "ra_peers st1 p")
    case (Some rp)
    have "relay_ok (st1\<lparr>ra_peers := (ra_peers st1)(p := None),
        ra_index_to_peer := (ra_index_to_peer st1)(rp_index rp := None), ra_rooms := rooms2\<rparr>)"
      by (rule relay_ok_forget [OF ok1 Some])
         (use relay_okD(5) [OF ok1] Some in \<open>auto simp: rooms2_def split: option.splits\<close>)
    with Some show ?thesis by (simp add: st2_def)
  qed (simp add: st2_def ok1)
  have gone: "ra_peers st2 p = None" by (simp add: st2_def split: option.splits)
  have "relay_ok (st2\<lparr>ra_peers := ra_peers st2, ra_rooms := drop_everywhere p (ra_rooms st2)\<rparr>)"
  proof (rule relay_ok_rooms [OF ok2])
    show "member_of (drop_everywhere p (ra_rooms st2)) r q" if "ra_peers st2 q = Some rq" "rp_room rq = Some r" for q rq r
      using that gone relay_okD(3) [OF ok2 that] by auto
  qed (use relay_okD(5) [OF ok2] in auto)
  then have ok3: "relay_ok st3" by (simp add: st3_def)
  have eq: "remove_peer p st = (case ra_peer_game_session st3 p of
      Some s \<Rightarrow> st3\<lparr>ra_peer_game_session := (ra_peer_game_session st3)(p := None),
                    ra_game_sessions := drop_member s p (ra_game_sessions st3)\<rparr>
    | None \<Rightarrow> st3\<lparr>ra_game_sessions := drop_everywhere p (ra_game_sessions st3)\<rparr>)"
    by (cases "ra_peers st p"; cases "ra_peer_game_session st p")
       (simp_all add: remove_peer_def Let_def st3_def st2_def rooms2_def st1_def cong: option.case_cong)
  show ?thesis
  proof (cases "ra_peer_game_session st3 p")
    case (Some s)
    from relay_ok_drop_game [OF ok3 Some] show ?thesis
      by (rule relay_ok_cong) (use Some relay_okD(7) [OF ok3] in \<open>simp_all add: eq\<close>)
  next
    case None
    have "relay_ok (st3\<lparr>ra_game_sessions := drop_everywhere p (ra_game_sessions st3),
        ra_peer_game_session := ra_peer_game_session st3\<rparr>)"
      by (rule relay_ok_games [OF ok3])
         (use None relay_okD(6) [OF ok3] in \<open>auto simp: in_session_iff [OF ok3]\<close>)
    then show ?thesis
      by (rule relay_ok_cong) (use None relay_okD(7) [OF ok3] in \<open>simp_all add: eq\<close>)
  qed
qed

section \<open>Admission and forwarding keep the invariant\<close>

definition env_ok :: "relay_env \<Rightarrow> bool" where
  "env_ok env \<longleftrightarrow> (\<forall>S. S \<noteq> {} \<longrightarrow> re_pick_room env S \<in> S) \<and> (\<forall>S. set (re_iter env S) \<subseteq> S \<and> distinct (re_iter env S) \<and> (finite S \<longrightarrow> set (re_iter env S) = S))"

lemma relay_ok_register:
  assumes "relay_ok st" "ra_peers st p = None" "idx \<in> idx_range" "ra_index_to_peer st idx = None"
    and "\<And>r. room = Some r \<Longrightarrow> member_of (ra_rooms st) r p"
  shows "relay_ok (st\<lparr>ra_index_to_peer := (ra_index_to_peer st)(idx \<mapsto> p),
    ra_peers := (ra_peers st)(p \<mapsto> \<lparr>rp_index = idx, rp_conn = c, rp_room = room, rp_bytes = b\<rparr>)\<rparr>)"
proof
  show "ra_index_to_peer (st\<lparr>ra_index_to_peer := (ra_index_to_peer st)(idx \<mapsto> p),
      ra_peers := (ra_peers st)(p \<mapsto> \<lparr>rp_index = idx, rp_conn = c, rp_room = room, rp_bytes = b\<rparr>)\<rparr>) i = Some q \<longleftrightarrow>
    (\<exists>rq. ra_peers (st\<lparr>ra_index_to_peer := (ra_index_to_peer st)(idx \<mapsto> p),
      ra_peers := (ra_peers st)(p \<mapsto> \<lparr>rp_index = idx, rp_conn = c, rp_room = room, rp_bytes = b\<rparr>)\<rparr>) q = Some rq \<and>
      rp_index rq = i)" for i q
    using relay_okD(1) [OF assms(1), of i q] assms(2,4) by (cases "q = p"; cases "i = idx") auto
  show "rp_index rq \<in> idx_range" if "ra_peers (st\<lparr>ra_index_to_peer := (ra_index_to_peer st)(idx \<mapsto> p),
      ra_peers := (ra_peers st)(p \<mapsto> \<lparr>rp_index = idx, rp_conn = c, rp_room = room, rp_bytes = b\<rparr>)\<rparr>) q = Some rq" for q rq
    using that relay_okD(2) [OF assms(1), of q rq] assms(3) by (auto split: if_splits)
  show "member_of (ra_rooms (st\<lparr>ra_index_to_peer := (ra_index_to_peer st)(idx \<mapsto> p),
      ra_peers := (ra_peers st)(p \<mapsto> \<lparr>rp_index = idx, rp_conn = c, rp_room = room, rp_bytes = b\<rparr>)\<rparr>)) r q"
    if "ra_peers (st\<lparr>ra_index_to_peer := (ra_index_to_peer st)(idx \<mapsto> p),
      ra_peers := (ra_peers st)(p \<mapsto> \<lparr>rp_index = idx, rp_conn = c, rp_room = room, rp_bytes = b\<rparr>)\<rparr>) q = Some rq"
      "rp_room rq = Some r" for q rq r
    using that relay_okD(3) [OF assms(1), of q rq r] assms(5) [of r] by (auto split: if_splits)
qed (use relay_okD(4-7) [OF assms(1)] in simp_all)

text \<open>The state of a reconnecting peer after its old connection was replaced.\<close>

definition evict_old :: "peer_id \<Rightarrow> relay_state \<Rightarrow> relay_state" where
  "evict_old p st =
     (case ra_peers st p of
        None \<Rightarrow> st
      | Some old \<Rightarrow> st\<lparr>ra_peers := (ra_peers st)(p := None),
          ra_index_to_peer := (ra_index_to_peer st)(rp_index old := None),
          ra_rooms := (case rp_room old of None \<Rightarrow> ra_rooms st | Some r \<Rightarrow> add_member r p (ra_rooms st))\<rparr>)"

definition prior_room :: "peer_id \<Rightarrow> relay_state \<Rightarrow> room_id option" where
  "prior_room p st = (case ra_peers st p of None \<Rightarrow> None | Some rp \<Rightarrow> rp_room rp)"

lemma evict_old_ok:
  assumes "relay_ok st"
  shows "relay_ok (evict_old p st)" "ra_peers (evict_old p st) p = None"
    "prior_room p st = Some r \<Longrightarrow> member_of (ra_rooms (evict_old p st)) r p"
proof -
  show "relay_ok (evict_old p st)"
  proof (cases "ra_peers st p")
    case (Some old)
    have "relay_ok (st\<lparr>ra_peers := (ra_peers st)(p := None),
          ra_index_to_peer := (ra_index_to_peer st)(rp_index old := None),
          ra_rooms := (case rp_room old of None \<Rightarrow> ra_rooms st | Some r \<Rightarrow> add_member r p (ra_rooms st))\<rparr>)"
      by (rule relay_ok_forget [OF assms Some]) (use relay_okD(5) [OF assms] in \<open>auto split: option.splits\<close>)
    with Some show ?thesis by (simp add: evict_old_def)
  qed (simp add: evict_old_def assms)
  show "ra_peers (evict_old p st) p = None" by (simp add: evict_old_def split: option.splits)
  show "prior_room p st = Some r \<Longrightarrow> member_of (ra_rooms (evict_old p st)) r p"
    by (auto simp: prior_room_def evict_old_def split: option.splits)
qed

lemma relay_connect_eq:
  "relay_connect env p conn reg st =
     (if p \<notin> ra_allowed st \<and> p \<notin> ra_portal_allowed st then Some (NotAllowed, reg, st)
      else if msize (ra_peers st) \<ge> MAX_PEERS then Some (Full, reg, st)
      else
        let reg1 = (case ra_peers st p of None \<Rightarrow> reg | Some _ \<Rightarrow> clear_quotas p reg) in
        case allocate_index (evict_old p st) of
          None \<Rightarrow> None
        | Some (None, st2) \<Rightarrow> Some (NoIndices, reg1, st2)
        | Some (Some idx, st2) \<Rightarrow>
            let in_rooms = {r. member_of (ra_rooms st2) r p};
                room = (case prior_room p st of
                    Some r \<Rightarrow> Some r
                  | None \<Rightarrow> if in_rooms = {} then None else Some (re_pick_room env in_rooms))
            in Some (Admitted idx (p \<notin> ra_allowed st), reg1,
                 st2\<lparr>ra_index_to_peer := (ra_index_to_peer st2)(idx \<mapsto> p),
                     ra_peers := (ra_peers st2)(p \<mapsto> \<lparr>rp_index = idx, rp_conn = conn, rp_room = room, rp_bytes = 0\<rparr>)\<rparr>))"
  by (cases "ra_peers st p")
     (simp_all add: relay_connect_def Let_def evict_old_def prior_room_def member_of_def split: option.splits prod.splits)

lemma relay_connect_total:
  assumes "relay_ok st" "env_ok env"
  obtains res reg' st' where "relay_connect env p conn reg st = Some (res, reg', st')" "relay_ok st'"
    "res = NotAllowed \<longleftrightarrow> p \<notin> ra_allowed st \<and> p \<notin> ra_portal_allowed st"
    "\<forall>i g. res = Admitted i g \<longrightarrow> (\<exists>rp. ra_peers st' p = Some rp \<and> rp_index rp = i \<and> rp_conn rp = conn \<and>
        (prior_room p st \<noteq> None \<longrightarrow> rp_room rp = prior_room p st)) \<and> g = (p \<notin> ra_allowed st)"
proof -
  have ev: "relay_ok (evict_old p st)" "ra_peers (evict_old p st) p = None" by (rule evict_old_ok [OF assms(1)])+
  obtain r n where al: "allocate_index (evict_old p st) = Some (r, (evict_old p st)\<lparr>ra_next_index := n\<rparr>)" "n \<in> idx_range"
      "\<forall>i. r = Some i \<longrightarrow> i \<in> idx_range \<and> ra_index_to_peer (evict_old p st) i = None"
    by (rule allocate_index_result [OF relay_okD(7) [OF ev(1)]])
  let ?st2 = "(evict_old p st)\<lparr>ra_next_index := n\<rparr>"
  have ok2: "relay_ok ?st2" by (rule relay_ok_access(5) [OF ev(1) al(2)])
  consider "p \<notin> ra_allowed st \<and> p \<notin> ra_portal_allowed st"
    | "\<not> (p \<notin> ra_allowed st \<and> p \<notin> ra_portal_allowed st)" "msize (ra_peers st) \<ge> MAX_PEERS"
    | "\<not> (p \<notin> ra_allowed st \<and> p \<notin> ra_portal_allowed st)" "\<not> msize (ra_peers st) \<ge> MAX_PEERS" "r = None"
    | i where "\<not> (p \<notin> ra_allowed st \<and> p \<notin> ra_portal_allowed st)" "\<not> msize (ra_peers st) \<ge> MAX_PEERS" "r = Some i"
    by (cases r) blast+
  then show thesis
  proof cases
    case 1
    then show thesis using that [of NotAllowed reg st] assms(1) by (simp add: relay_connect_eq)
  next
    case 2
    then show thesis using that [of Full reg st] assms(1) by (simp add: relay_connect_eq)
  next
    case 3
    then show thesis
      using that [of NoIndices "case ra_peers st p of None \<Rightarrow> reg | Some _ \<Rightarrow> clear_quotas p reg" ?st2] al(1) ok2
      by (simp add: relay_connect_eq)
  next
    case (4 i)
    let ?rooms = "{q. member_of (ra_rooms ?st2) q p}"
    define room where "room = (case prior_room p st of Some q \<Rightarrow> Some q
       | None \<Rightarrow> if ?rooms = {} then None else Some (re_pick_room env ?rooms))"
    have m: "member_of (ra_rooms ?st2) q p" if "room = Some q" for q
    proof (cases "prior_room p st")
      case None
      then have "?rooms \<noteq> {}" "q = re_pick_room env ?rooms"
        using that unfolding room_def by (auto split: if_splits)
      moreover have "re_pick_room env S \<in> S" if "S \<noteq> {}" for S using assms(2) that by (simp add: env_ok_def)
      ultimately have "q \<in> ?rooms" by metis
      then show ?thesis by (rule CollectD)
    next
      case (Some q')
      then show ?thesis using that evict_old_ok(3) [OF assms(1)] by (simp add: room_def)
    qed
    have "relay_ok (?st2\<lparr>ra_index_to_peer := (ra_index_to_peer ?st2)(i \<mapsto> p),
        ra_peers := (ra_peers ?st2)(p \<mapsto> \<lparr>rp_index = i, rp_conn = conn, rp_room = room, rp_bytes = 0\<rparr>)\<rparr>)"
      by (rule relay_ok_register [OF ok2]) (use ev(2) al(3) 4(3) m in simp_all)
    moreover have "relay_connect env p conn reg st = Some (Admitted i (p \<notin> ra_allowed st),
        (case ra_peers st p of None \<Rightarrow> reg | Some _ \<Rightarrow> clear_quotas p reg),
        ?st2\<lparr>ra_index_to_peer := (ra_index_to_peer ?st2)(i \<mapsto> p),
          ra_peers := (ra_peers ?st2)(p \<mapsto> \<lparr>rp_index = i, rp_conn = conn, rp_room = room, rp_bytes = 0\<rparr>)\<rparr>)"
      using 4 al(1) by (simp add: relay_connect_eq Let_def room_def)
    moreover have "prior_room p st \<noteq> None \<longrightarrow> room = prior_room p st"
      unfolding room_def by (auto split: option.splits)
    ultimately show thesis using that 4(1) by simp
  qed
qed

lemma relay_ok_remove_all: "relay_ok st \<Longrightarrow> relay_ok (snd (remove_all ps reg st))"
  by (induction ps arbitrary: reg st) (simp_all add: relay_ok_remove)

lemma relay_ok_audio:
  assumes "relay_ok st" "ra_peers st p = Some rp"
  shows "relay_ok (snd (audio_bridge_step env p rp payload st))"
  using assms relay_ok_heal [OF assms] by (simp add: audio_bridge_step_def Let_def split: option.splits)

text \<open>A datagram that passes the gates is forwarded for a connected sender.\<close>

lemma handle_datagram_cases:
  obtains reg' where "handle_datagram env p data now reg st = ([], reg', st)"
  | t payload rp reg' where "data = t # payload" "ra_peers st p = Some rp"
      "handle_datagram env p data now reg st =
         forward_datagram env (fst (relay_datagram_feature payload)) t payload p rp now reg' st"
      "reg' = (if payload = [] then reg
        else snd (gate_inbound_through_feature (fst (relay_datagram_feature payload)) p (length payload) now reg))"
proof (cases data)
  case Nil
  then show thesis using that(1) [of reg] by (simp add: handle_datagram_def parse_datagram_def)
next
  case (Cons t payload)
  have len: "snd (relay_datagram_feature payload) = length payload"
    by (simp add: relay_datagram_feature_def split: option.splits)
  define g where "g = (if payload = [] then (True, reg)
    else gate_inbound_through_feature (fst (relay_datagram_feature payload)) p (length payload) now reg)"
  have eq: "handle_datagram env p data now reg st = (if \<not> fst g then ([], snd g, st)
      else case ra_peers st p of None \<Rightarrow> ([], snd g, st)
        | Some rp \<Rightarrow> forward_datagram env (fst (relay_datagram_feature payload)) t payload p rp now (snd g) st)"
    using len by (cases "ra_peers st p"; cases "payload = []")
      (simp_all add: handle_datagram_def Cons parse_datagram_def Let_def case_prod_beta g_def)
  show thesis
  proof (cases "fst g \<and> ra_peers st p \<noteq> None")
    case True
    then obtain rp where "ra_peers st p = Some rp" by blast
    with True eq that(2) [OF Cons, of rp "snd g"] show thesis by (simp add: g_def)
  next
    case False
    then show thesis using that(1) [of "snd g"] eq by (auto split: option.splits)
  qed
qed

lemma forward_datagram_state:
  "(\<exists>n. snd (snd (forward_datagram env fid t payload p rp now reg st)) = add_relayed p n st) \<or>
   snd (snd (forward_datagram env fid t payload p rp now reg st)) = snd (audio_bridge_step env p rp payload st)"
  by (cases "t = BROADCAST_INDEX \<and> fid = ''room.audio.sfu'' \<and> re_audio_bridge env";
      cases "if t = BROADCAST_INDEX \<and> fid = ''game.relay.v1'' then active_session st p else None")
     (auto simp: forward_datagram_def Let_def case_prod_beta)

lemma relay_ok_datagram:
  assumes "relay_ok st"
  shows "relay_ok (snd (snd (on_datagram env p data now reg st)))"
proof -
  have "relay_ok (snd (snd (handle_datagram env p data now reg st)))"
  proof (cases rule: handle_datagram_cases [of env p data now reg st])
    case (1 reg')
    with assms show ?thesis by simp
  next
    case (2 t payload rp reg')
    show ?thesis
      using forward_datagram_state [of env "fst (relay_datagram_feature payload)" t payload p rp now reg' st]
        relay_ok_relayed [OF assms, of p] relay_ok_audio [OF assms 2(2), of env payload] unfolding 2(3) by metis
  qed
  with assms show ?thesis by (simp add: on_datagram_def)
qed

inductive relay_step :: "relay_state \<Rightarrow> relay_state \<Rightarrow> bool" where
  video: "relay_step st (set_video_subscriptions p senders st)"
| allow: "relay_step st (relay_allow_peer p st)"
| allow_update: "relay_step st (allow_peer_update p st)"
| portal: "relay_step st (allow_portal_peer p st)"
| revoke: "relay_step st (snd (relay_revoke_peer p (reg :: unit feature_registry) st))"
| join: "relay_step st (relay_join_room p r st)"
| leave: "relay_step st (relay_leave_room p st)"
| join_game: "relay_step st (join_game_session p s st)"
| leave_game: "relay_step st (leave_game_session p st)"
| connect: "env_ok env \<Longrightarrow> relay_connect env p c (reg :: unit feature_registry) st = Some (res, reg', st') \<Longrightarrow> relay_step st st'"
| disconnect: "relay_step st (snd (relay_disconnect p c (reg :: unit feature_registry) st))"
| cleanup: "relay_step st (snd (cleanup_stale_peers env (reg :: unit feature_registry) st))"
| datagram: "relay_step st (snd (snd (on_datagram env p data now (reg :: unit feature_registry) st)))"

inductive relay_reachable :: "relay_state \<Rightarrow> bool" where
  init: "relay_reachable new_relay"
| step: "relay_reachable st \<Longrightarrow> relay_step st st' \<Longrightarrow> relay_reachable st'"

lemma relay_connect_ok:
  assumes "relay_ok st" "env_ok env" "relay_connect env p c reg st = Some (res, reg', st')"
  shows "relay_ok st'"
  using relay_connect_total [OF assms(1,2), of p c reg] assms(3) by auto

lemma relay_step_ok: "relay_step st st' \<Longrightarrow> relay_ok st \<Longrightarrow> relay_ok st'"
proof (induction rule: relay_step.induct)
  case (connect env p c reg st res reg' st')
  then show ?case using relay_connect_ok by blast
next
  case (disconnect st p c reg)
  then show ?case by (auto simp: relay_disconnect_def relay_ok_remove split: option.splits)
next
  case (cleanup st env reg)
  then show ?case by (simp add: cleanup_stale_peers_def Let_def relay_ok_remove_all)
qed (simp_all add: set_video_subscriptions_def relay_allow_peer_def allow_peer_update_def allow_portal_peer_def
      relay_revoke_peer_def relay_ok_access relay_ok_remove relay_ok_join relay_ok_leave relay_ok_join_game
      relay_ok_leave_game relay_ok_datagram)

lemma relay_reachable_ok: "relay_reachable st \<Longrightarrow> relay_ok st"
  by (induction rule: relay_reachable.induct) (auto intro: relay_ok_new relay_step_ok)

text \<open>
  C16. The search for a free index ends: in every reachable relay the loop of \<open>allocate_index\<close> stops within
  254 probes, wherever it starts. It finds an index between 1 and 254 that is free whenever there is
  one, gives up only when all 254 are taken, and changes nothing but the place to start next.
\<close>

theorem index_search_terminates:
  assumes "relay_reachable st"
  shows "\<exists>r n. allocate_index st = Some (r, st\<lparr>ra_next_index := n\<rparr>) \<and> 1 \<le> unat n \<and> unat n \<le> 254 \<and>
    (\<forall>i. r = Some i \<longrightarrow> 1 \<le> unat i \<and> unat i \<le> 254 \<and> ra_index_to_peer st i = None) \<and>
    (r = None \<longleftrightarrow> (\<forall>i. 1 \<le> unat i \<and> unat i \<le> 254 \<longrightarrow> ra_index_to_peer st i \<noteq> None))"
proof -
  have "ra_next_index st \<in> idx_range" by (rule relay_okD(7) [OF relay_reachable_ok [OF assms]])
  from allocate_index_result [OF this] obtain r n where
    "allocate_index st = Some (r, st\<lparr>ra_next_index := n\<rparr>)" "n \<in> idx_range"
    "\<forall>i. r = Some i \<longrightarrow> i \<in> idx_range \<and> ra_index_to_peer st i = None"
    "r = None \<longrightarrow> (\<forall>i \<in> idx_range. ra_index_to_peer st i \<noteq> None)" by blast
  then show ?thesis unfolding idx_range_def by (intro exI [of _ r] exI [of _ n]) (cases r; auto)
qed

theorem index_search_terminates_witness: "\<exists>r n. allocate_index new_relay = Some (r, new_relay\<lparr>ra_next_index := n\<rparr>) \<and> r \<noteq> None"
  using index_search_terminates [OF relay_reachable.init] by (force simp: new_relay_def intro: exI [of _ 1])

lemma card_idx_range: "finite idx_range" "card idx_range \<le> 254"
proof -
  have "idx_range \<subseteq> word_of_nat ` {1..254}"
  proof
    fix i :: u8 assume "i \<in> idx_range"
    then have "unat i \<in> {1..254}" by (simp add: idx_range_def)
    then show "i \<in> word_of_nat ` {1..254}" by (rule image_eqI [rotated]) simp
  qed
  then show "finite idx_range" "card idx_range \<le> 254"
    using finite_subset card_mono [of "word_of_nat ` {1..254} :: u8 set" idx_range]
      card_image_le [of "{1..254}" "word_of_nat :: nat \<Rightarrow> u8"] by auto
qed

lemma relay_size:
  assumes "relay_ok st"
  shows "finite (dom (ra_peers st))" "msize (ra_peers st) \<le> 254"
proof -
  let ?f = "\<lambda>p. rp_index (the (ra_peers st p))"
  have inj: "inj_on ?f (dom (ra_peers st))"
  proof (rule inj_onI)
    fix p q assume "p \<in> dom (ra_peers st)" "q \<in> dom (ra_peers st)" "?f p = ?f q"
    then show "p = q" using index_unique [OF assms, of p _ q] by auto
  qed
  have sub: "?f ` dom (ra_peers st) \<subseteq> idx_range" using relay_okD(2) [OF assms] by auto
  show "finite (dom (ra_peers st))" by (rule inj_on_finite [OF inj sub card_idx_range(1)])
  show "msize (ra_peers st) \<le> 254"
    using card_inj_on_le [OF inj sub card_idx_range(1)] card_idx_range(2) by (simp add: msize_def)
qed

section \<open>Who receives a datagram\<close>

lemma fan_out_sent:
  "x \<in> set (fst (fan_out env fid fwd want peers now qs reg)) \<Longrightarrow>
     \<exists>q rq. x = Sent q fwd \<and> q \<in> set qs \<and> want q \<and> peers q = Some rq"
proof (induction qs arbitrary: reg)
  case (Cons q qs)
  show ?case
  proof (cases "want q \<and> peers q \<noteq> None")
    case True
    then obtain rq where rq: "peers q = Some rq" by blast
    obtain sent reg1 where t: "try_forward_datagram env fid q fwd rq now reg = (sent, reg1)"
      by (cases "try_forward_datagram env fid q fwd rq now reg")
    have "x = Sent q fwd \<or> x \<in> set (fst (fan_out env fid fwd want peers now qs reg1))"
      using Cons.prems True rq t by (auto simp: Let_def split: prod.splits if_splits)
    with Cons.IH [of reg1] True rq show ?thesis by auto
  next
    case False
    then have "x \<in> set (fst (fan_out env fid fwd want peers now qs reg))"
      using Cons.prems by (auto split: option.splits if_splits)
    with Cons.IH [of reg] show ?thesis by auto
  qed
qed simp

lemma fan_out_bytes:
  "fst (snd (fan_out env fid fwd want peers now qs reg)) =
     word_of_nat (length (fst (fan_out env fid fwd want peers now qs reg)) * length fwd)"
  by (induction qs arbitrary: reg) (auto simp: Let_def case_prod_beta algebra_simps split: option.splits)

text \<open>Without limits and with working connections nobody who should get a copy is left out.\<close>

lemma fan_out_all:
  assumes "fr_inner reg fid = None" "\<forall>c. re_send_ok env c"
  shows "fst (fan_out env fid fwd want peers now qs reg) =
    map (\<lambda>q. Sent q fwd) (filter (\<lambda>q. want q \<and> peers q \<noteq> None) qs)"
proof -
  have "try_forward_datagram env fid q fwd rq now reg = (True, reg)" for q rq
    using assms by (simp add: try_forward_datagram_def gate_through_feature_def)
  then show ?thesis by (induction qs) (auto simp: Let_def case_prod_beta split: option.splits)
qed

lemma room_broadcast_sent:
  assumes "Sent q d \<in> set (fst (room_broadcast env fid fwd p rp now reg st))" "env_ok env"
  shows "d = fwd \<and> q \<noteq> p \<and> ra_peers st q \<noteq> None \<and> (fid = ''room.video.sfu'' \<longrightarrow> wants_video st q p) \<and>
    (\<exists>r. rp_room rp = Some r \<and> member_of (ra_rooms st) r q)"
proof -
  obtain r members where r: "rp_room rp = Some r" "ra_rooms st r = Some members"
    using assms(1) by (auto simp: room_broadcast_def split: option.splits)
  have "q \<in> members" if "q \<in> set (re_iter env members)" using that assms(2) by (auto simp: env_ok_def)
  with r fan_out_sent [of "Sent q d" env fid fwd _ "ra_peers st" now "re_iter env members" reg] assms(1)
  show ?thesis by (auto simp: room_broadcast_def member_of_def)
qed

lemma point_to_point_sent:
  assumes "Sent q d \<in> set (fst (point_to_point env fid fwd rp t now reg st))"
  shows "d = fwd \<and> ra_index_to_peer st t = Some q \<and>
    (\<exists>rq r. ra_peers st q = Some rq \<and> rp_room rp = Some r \<and> rp_room rq = Some r)"
  using assms by (auto simp: point_to_point_def Let_def split: option.splits prod.splits if_splits)

lemma broadcast_bytes:
  "fst (snd (room_broadcast env fid fwd p rp now reg st)) =
     word_of_nat (length (fst (room_broadcast env fid fwd p rp now reg st)) * length fwd)"
  "fst (snd (point_to_point env fid fwd rp t now reg st)) =
     word_of_nat (length (fst (point_to_point env fid fwd rp t now reg st)) * length fwd)"
  by (simp_all add: room_broadcast_def point_to_point_def Let_def case_prod_beta fan_out_bytes split: option.splits)

text \<open>The copies of a datagram that the relay itself sends, as opposed to what it gives to a hook.\<close>

definition is_sent :: "relay_out \<Rightarrow> bool" where
  "is_sent x = (case x of Sent _ _ \<Rightarrow> True | _ \<Rightarrow> False)"

lemma fan_out_only_sent: "filter is_sent (fst (fan_out env fid fwd want peers now qs reg)) = fst (fan_out env fid fwd want peers now qs reg)"
  by (auto simp: filter_id_conv is_sent_def dest!: fan_out_sent)

lemma broadcast_only_sent:
  "filter is_sent (fst (room_broadcast env fid fwd p rp now reg st)) = fst (room_broadcast env fid fwd p rp now reg st)"
  "filter is_sent (fst (point_to_point env fid fwd rp t now reg st)) = fst (point_to_point env fid fwd rp t now reg st)"
  by (simp_all add: room_broadcast_def point_to_point_def Let_def case_prod_beta fan_out_only_sent is_sent_def split: option.splits)

lemma total_relayed [simp]: "ra_total_bytes (add_relayed p n st) = ra_total_bytes st + n"
  by (simp add: add_relayed_def)

lemma total_audio [simp]: "ra_total_bytes (snd (audio_bridge_step env p rp payload st)) = ra_total_bytes st"
  by (simp add: audio_bridge_step_def heal_room_def Let_def split: option.splits)

lemma audio_not_sent: "filter is_sent (fst (audio_bridge_step env p rp payload st)) = []"
  by (simp add: audio_bridge_step_def Let_def is_sent_def split: option.splits)

lemma forward_total:
  "ra_total_bytes (snd (snd (forward_datagram env fid t payload p rp now reg st))) = ra_total_bytes st +
     word_of_nat (length (filter is_sent (fst (forward_datagram env fid t payload p rp now reg st))) * Suc (length payload))"
  by (cases "t = BROADCAST_INDEX \<and> fid = ''room.audio.sfu'' \<and> re_audio_bridge env";
      cases "if t = BROADCAST_INDEX \<and> fid = ''game.relay.v1'' then active_session st p else None")
     (simp_all add: forward_datagram_def Let_def case_prod_beta audio_not_sent fan_out_only_sent broadcast_only_sent
        fan_out_bytes broadcast_bytes is_sent_def del: of_nat_mult of_nat_Suc)

definition may_reach :: "relay_state \<Rightarrow> feature_id \<Rightarrow> u8 \<Rightarrow> peer_id \<Rightarrow> relay_peer \<Rightarrow> peer_id \<Rightarrow> relay_peer \<Rightarrow> bool" where
  "may_reach st fid t p rp q rq \<longleftrightarrow>
     (if t = BROADCAST_INDEX then
        q \<noteq> p \<and>
        ((fid = ''game.relay.v1'' \<and> (\<exists>s. ra_peer_game_session st p = Some s \<and> ra_peer_game_session st q = Some s)) \<or>
         ((\<exists>r. rp_room rp = Some r \<and> member_of (ra_rooms st) r q) \<and> (fid = ''room.video.sfu'' \<longrightarrow> wants_video st q p)))
      else ra_index_to_peer st t = Some q \<and> (\<exists>r. rp_room rp = Some r \<and> rp_room rq = Some r))"

lemma forward_sent:
  assumes "relay_ok st" "env_ok env" "Sent q d \<in> set (fst (forward_datagram env fid t payload p rp now reg st))"
  obtains rq where "d = rp_index rp # payload" "ra_peers st q = Some rq" "may_reach st fid t p rp q rq"
proof -
  let ?fwd = "build_forwarded_datagram (rp_index rp) payload"
  let ?sess = "if t = BROADCAST_INDEX \<and> fid = ''game.relay.v1'' then active_session st p else None"
  have no_bridge: "\<not> (t = BROADCAST_INDEX \<and> fid = ''room.audio.sfu'' \<and> re_audio_bridge env)"
    using assms(3) by (auto simp: forward_datagram_def Let_def case_prod_beta audio_bridge_step_def split: option.splits)
  show thesis
  proof (cases ?sess)
    case None
    then have "Sent q d \<in> set (fst (if t = BROADCAST_INDEX then room_broadcast env fid ?fwd p rp now reg st
        else point_to_point env fid ?fwd rp t now reg st))"
      using assms(3) no_bridge by (simp add: forward_datagram_def Let_def case_prod_beta)
    then show thesis
      using room_broadcast_sent [of q d env fid ?fwd p rp now reg st] point_to_point_sent [of q d env fid ?fwd rp t now reg st]
        assms(2) that by (auto simp: may_reach_def build_forwarded_datagram_def split: if_splits)
  next
    case (Some sm)
    obtain s members where sm: "sm = (s, members)" by (cases sm)
    have g: "t = BROADCAST_INDEX" "fid = ''game.relay.v1''" "ra_peer_game_session st p = Some s" "ra_game_sessions st s = Some members"
      using Some sm by (auto simp: active_session_def split: if_splits option.splits)
    have "Sent q d \<in> set (fst (fan_out env fid ?fwd (\<lambda>q. q \<noteq> p) (ra_peers st) now (re_iter env members) reg))"
      using assms(3) no_bridge Some sm by (auto simp: forward_datagram_def Let_def case_prod_beta split: if_splits)
    from fan_out_sent [OF this] obtain rq where rq: "d = ?fwd" "q \<in> set (re_iter env members)" "q \<noteq> p" "ra_peers st q = Some rq"
      by auto
    moreover have "q \<in> members" using rq(2) assms(2) by (auto simp: env_ok_def)
    then have "ra_peer_game_session st q = Some s"
      using g(4) in_session_iff [OF assms(1), of s q] by (simp add: member_of_def)
    ultimately show thesis using that g by (simp add: may_reach_def build_forwarded_datagram_def)
  qed
qed

section \<open>A concrete relay\<close>

text \<open>Two allowed peers connect and join one room; the reachable state is the one the witnesses use.\<close>

definition plain_env :: relay_env where
  "plain_env = \<lparr>re_send_ok = (\<lambda>_. True), re_closed = (\<lambda>_. False), re_iter = sorted_list_of_set,
     re_pick_room = (\<lambda>S. SOME r. r \<in> S), re_json_room = (\<lambda>s. Some s),
     re_audio_bridge = True, re_game_bridge = True\<rparr>"

lemma plain_env_ok: "env_ok plain_env"
proof -
  have "set (sorted_list_of_set S) \<subseteq> S" "finite S \<longrightarrow> set (sorted_list_of_set S) = S" for S :: "string set"
    by (cases "finite S"; simp)+
  then show ?thesis unfolding env_ok_def plain_env_def by (simp add: some_in_eq)
qed

definition demo_peer :: "u8 \<Rightarrow> nat \<Rightarrow> room_id option \<Rightarrow> relay_peer" where
  "demo_peer i c r = \<lparr>rp_index = i, rp_conn = c, rp_room = r, rp_bytes = 0\<rparr>"

definition demo_relay :: "room_id option \<Rightarrow> relay_state" where
  "demo_relay r = new_relay\<lparr>ra_allowed := {''a'', ''b''}, ra_next_index := 3,
     ra_index_to_peer := [1 \<mapsto> ''a'', 2 \<mapsto> ''b''],
     ra_peers := [''a'' \<mapsto> demo_peer 1 1 r, ''b'' \<mapsto> demo_peer 2 2 r],
     ra_rooms := (case r of None \<Rightarrow> Map.empty | Some q \<Rightarrow> [q \<mapsto> {''a'', ''b''}])\<rparr>"

lemma alloc_first: "m i = None \<Longrightarrow> alloc_loop 254 m s i = Some (Some i, next_idx i)"
  using alloc_loop.simps(2) [of 253 m s i] by simp

lemma connect_new:
  assumes "p \<in> ra_allowed st" "msize (ra_peers st) < MAX_PEERS" "ra_peers st p = None" "ra_rooms st = Map.empty"
    "ra_index_to_peer st (ra_next_index st) = None"
  shows "relay_connect env p c reg st = Some (Admitted (ra_next_index st) False, reg,
    st\<lparr>ra_next_index := next_idx (ra_next_index st),
       ra_index_to_peer := (ra_index_to_peer st)(ra_next_index st \<mapsto> p),
       ra_peers := (ra_peers st)(p \<mapsto> demo_peer (ra_next_index st) c None)\<rparr>)"
  using assms by (simp add: relay_connect_def allocate_index_def alloc_first demo_peer_def)

lemma strip_ab [simp]: "strip ''a'' = ''a''" "strip ''b'' = ''b''"
  by (simp_all add: trim_end_def)

lemma demo_reachable: "relay_reachable (demo_relay None)"
proof -
  let ?s0 = "relay_allow_peer ''b'' (relay_allow_peer ''a'' new_relay)"
  let ?s1 = "?s0\<lparr>ra_next_index := 2, ra_index_to_peer := [1 \<mapsto> ''a''], ra_peers := [''a'' \<mapsto> demo_peer 1 1 None]\<rparr>"
  let ?reg = "new_registry :: unit feature_registry"
  have r0: "relay_reachable ?s0" by (rule relay_reachable.step [OF relay_reachable.step [OF relay_reachable.init relay_step.allow] relay_step.allow])
  have m: "msize (ra_peers ?s0) < MAX_PEERS" "msize (ra_peers ?s1) < MAX_PEERS"
    by (simp_all add: relay_allow_peer_def new_relay_def msize_def MAX_PEERS_def)
  have "?s1 = ?s0\<lparr>ra_next_index := next_idx 1, ra_index_to_peer := [1 \<mapsto> ''a''], ra_peers := [''a'' \<mapsto> demo_peer 1 1 None]\<rparr>"
    by (simp add: next_idx_def)
  then have "relay_connect plain_env ''a'' 1 ?reg ?s0 = Some (Admitted 1 False, ?reg, ?s1)"
    using connect_new [of "''a''" ?s0 plain_env 1 ?reg] m(1) by (simp add: relay_allow_peer_def new_relay_def)
  with r0 have r1: "relay_reachable ?s1" using relay_reachable.step relay_step.connect plain_env_ok by blast
  have "demo_relay None = ?s1\<lparr>ra_next_index := next_idx 2, ra_index_to_peer := [1 \<mapsto> ''a'', 2 \<mapsto> ''b''],
      ra_peers := [''a'' \<mapsto> demo_peer 1 1 None, ''b'' \<mapsto> demo_peer 2 2 None]\<rparr>"
    by (simp add: next_idx_def demo_relay_def relay_allow_peer_def new_relay_def insert_commute)
  then have "relay_connect plain_env ''b'' 2 ?reg ?s1 = Some (Admitted 2 False, ?reg, demo_relay None)"
    using connect_new [of "''b''" ?s1 plain_env 2 ?reg] m(2) by (simp add: relay_allow_peer_def new_relay_def)
  with r1 show ?thesis using relay_reachable.step relay_step.connect plain_env_ok by blast
qed

lemma demo_room_reachable: "relay_reachable (demo_relay (Some ''r''))"
proof -
  have "relay_reachable (relay_join_room ''b'' ''r'' (relay_join_room ''a'' ''r'' (demo_relay None)))"
    by (intro relay_reachable.step [OF _ relay_step.join] demo_reachable)
  moreover have "relay_join_room ''b'' ''r'' (relay_join_room ''a'' ''r'' (demo_relay None)) = demo_relay (Some ''r'')"
    by (simp add: relay_join_room_def demo_relay_def demo_peer_def add_member_def new_relay_def Let_def fun_upd_twist insert_commute)
  ultimately show ?thesis by simp
qed

section \<open>Properties\<close>

text \<open>
  In every state the relay can reach, by any interleaving of access changes, connects, disconnects,
  joins, leaves, cleanups and datagrams: the two index maps are inverse to each other; every index is
  in 1..254, so it is never the broadcast index; there are at most 254 peers; the room a connected
  peer is in lists that peer; a peer is in exactly the game session recorded for it; no room or session
  is kept empty; and a new connection always gets an answer (the index search ends), which is a refusal
  exactly for a peer that was not let in and is never the \<open>Full\<close> branch.
\<close>

lemma relay_reachable_safe:
  assumes "relay_reachable st" "env_ok env"
  shows "(\<forall>i p. ra_index_to_peer st i = Some p \<longleftrightarrow> (\<exists>rp. ra_peers st p = Some rp \<and> rp_index rp = i)) \<and>
    (\<forall>p rp. ra_peers st p = Some rp \<longrightarrow> 1 \<le> unat (rp_index rp) \<and> rp_index rp \<noteq> BROADCAST_INDEX) \<and>
    card (dom (ra_peers st)) \<le> 254 \<and>
    (\<forall>p rp r. ra_peers st p = Some rp \<and> rp_room rp = Some r \<longrightarrow> p \<in> get_room_peers st r) \<and>
    (\<forall>p s. ra_peer_game_session st p = Some s \<longleftrightarrow> p \<in> game_session_members st s) \<and>
    ra_rooms st r \<noteq> Some {} \<and> dom (ra_game_sessions st) = active_game_sessions st \<and>
    (\<exists>res reg' st'. relay_connect env p c reg st = Some (res, reg', st') \<and> res \<noteq> Full \<and>
       (res = NotAllowed \<longleftrightarrow> p \<notin> ra_allowed st \<and> p \<notin> ra_portal_allowed st))"
proof -
  note ok = relay_reachable_ok [OF assms(1)]
  have idx: "1 \<le> unat (rp_index rp) \<and> rp_index rp \<noteq> BROADCAST_INDEX" if "ra_peers st q = Some rp" for q rp
    using relay_okD(2) [OF ok that] by (auto simp: idx_range_def BROADCAST_INDEX_def)
  have room: "q \<in> get_room_peers st x" if "ra_peers st q = Some rp" "rp_room rp = Some x" for q rp x
    using relay_okD(3) [OF ok that] by (auto simp: member_of_def get_room_peers_def)
  have sess: "ra_peer_game_session st q = Some s \<longleftrightarrow> q \<in> game_session_members st s" for q s
    using in_session_iff [OF ok, of s q] by (auto simp: member_of_def game_session_members_def split: option.splits)
  have ne: "ra_rooms st r \<noteq> Some {}" "dom (ra_game_sessions st) = active_game_sessions st"
    using ok by (auto simp: relay_ok_def sets_ok_def active_game_sessions_def)
  obtain res reg' st' where con: "relay_connect env p c reg st = Some (res, reg', st')"
      "res = NotAllowed \<longleftrightarrow> p \<notin> ra_allowed st \<and> p \<notin> ra_portal_allowed st"
    by (rule relay_connect_total [OF ok assms(2), of p c reg])
  have size: "msize (ra_peers st) \<le> 254" by (rule relay_size(2) [OF ok])
  then have "\<not> msize (ra_peers st) \<ge> MAX_PEERS" by (simp add: MAX_PEERS_def)
  then have "res \<noteq> Full" using con(1) by (auto simp: relay_connect_eq Let_def split: if_splits option.splits prod.splits)
  with con size relay_okD(1) [OF ok] idx room sess ne show ?thesis by (simp add: msize_def)
qed

lemma relay_reachable_safe_witness:
  "card (dom (ra_peers (demo_relay (Some ''r'')))) \<le> 254 \<and> ''b'' \<in> get_room_peers (demo_relay (Some ''r'')) ''r''"
proof -
  have "ra_peers (demo_relay (Some ''r'')) ''b'' = Some (demo_peer 2 2 (Some ''r''))" "rp_room (demo_peer 2 2 (Some ''r'')) = Some ''r''"
    by (simp_all add: demo_relay_def demo_peer_def)
  with relay_reachable_safe [OF demo_room_reachable plain_env_ok, where reg = "new_registry :: unit feature_registry"]
  show ?thesis by blast
qed



text \<open>
  A room audio broadcast moves its sender into a room nobody admitted it to. When the audio hook is
  installed, a connected peer with full access that is in no room and sends one broadcast audio
  frame whose body names a room becomes a member of that relay room: its later broadcasts reach the
  members of the room. No signature of the frame and no admission is looked at.
\<close>

lemma room_heal_bypasses_join:
  assumes "p \<in> ra_allowed st" "ra_peers st p = Some rp" "rp_room rp = None" "re_audio_bridge env"
    and "feature_for_fixed_tag tag = Some ''room.audio.sfu''" "from_utf8 body = Some json" "re_json_room env json = Some r" "r \<noteq> []" "body \<noteq> []"
    and "fst (gate_inbound_through_feature ''room.audio.sfu'' p (Suc (length body)) now reg)"
    and "on_datagram env p (BROADCAST_INDEX # tag # body) now reg st = (outs, reg', st')"
  shows "outs = [AudioBridge p (rp_index rp) r (tag # body)] \<and> p \<in> get_room_peers st' r \<and>
    ra_peers st' p = Some (rp\<lparr>rp_room := Some r\<rparr>)"
proof -
  have body: "2 \<le> length (tag # body)" using assms(9) by (cases body) simp_all
  have "room_id_from_room_audio_payload env (tag # body) = Some r"
    using assms(6-9) body by (simp add: room_id_from_room_audio_payload_def)
  then have "on_datagram env p (BROADCAST_INDEX # tag # body) now reg st =
      ([AudioBridge p (rp_index rp) r (tag # body)],
       snd (gate_inbound_through_feature ''room.audio.sfu'' p (Suc (length body)) now reg), heal_room p r st)"
    using assms(1-5,10) by (simp add: on_datagram_def handle_datagram_def parse_datagram_def relay_datagram_feature_def
      forward_datagram_def audio_bridge_step_def Let_def case_prod_beta)
  with assms(2,11) show ?thesis by (auto simp: heal_room_def get_room_peers_def add_member_def)
qed

lemma room_heal_bypasses_join_witness:
  "''a'' \<in> get_room_peers (snd (snd (on_datagram plain_env ''a'' [BROADCAST_INDEX, ROOM_AUDIO_TAG, 114] 0
     (new_registry :: unit feature_registry) (demo_relay None)))) ''r''"
proof -
  let ?o = "on_datagram plain_env ''a'' (BROADCAST_INDEX # ROOM_AUDIO_TAG # [114]) 0 (new_registry :: unit feature_registry) (demo_relay None)"
  have tag: "feature_for_fixed_tag ROOM_AUDIO_TAG = Some ''room.audio.sfu''"
    by (simp add: feature_for_fixed_tag_def tag_defs)
  have peer: "''a'' \<in> ra_allowed (demo_relay None)" "ra_peers (demo_relay None) ''a'' = Some (demo_peer 1 1 None)"
      "rp_room (demo_peer 1 1 None) = None"
    by (simp_all add: demo_relay_def demo_peer_def)
  have env: "re_audio_bridge plain_env" "re_json_room plain_env ''r'' = Some ''r''" by (simp_all add: plain_env_def)
  have utf8: "from_utf8 [114] = Some ''r''" by code_simp
  have gate: "fst (gate_inbound_through_feature ''room.audio.sfu'' ''a'' (Suc (length [114 :: u8])) 0 (new_registry :: unit feature_registry))"
    by (simp add: gate_inbound_through_feature_def new_registry_def)
  show ?thesis
    using room_heal_bypasses_join [OF peer env(1) tag utf8 env(2) _ _ gate, of "fst ?o" "fst (snd ?o)" "snd (snd ?o)"] by simp
qed

end
