(* ===== verification/Peer_Store.thy ===== *)
theory Peer_Store
  imports Public_Id Complex_Main
begin

text \<open>
  The store of trusted peers of a supernode, \<open>conquerd-supernode/src/peer_store.rs\<close>. The file on disk
  is what \<open>serde_json\<close> reads and writes; \<open>load_peers\<close> takes the records of a file that parsed. The locale
  \<open>peer_book\<close> is what the rest of the supernode relies on: a store of records per key, whatever the
  spelling of the id.
\<close>

section \<open>Records and operations\<close>

record peer_record =
  pr_peer_id :: string
  pr_identity_pub :: peer_id
  pr_relay_hints :: "string list"
  pr_handle :: string
  pr_blocked :: bool
  pr_revoked :: bool
  pr_auto_connect :: bool
  pr_is_supernode :: bool
  pr_transcript_hash :: string
  pr_created_at :: real
  pr_last_seen_at :: real
  pr_quic_port :: u16

type_synonym peer_store = "peer_id \<rightharpoonup> peer_record"

definition ps_insert :: "peer_record \<Rightarrow> peer_store \<Rightarrow> peer_store" where
  "ps_insert r s = (let r' = r\<lparr>pr_identity_pub := normalize_public_id (pr_identity_pub r)\<rparr>
     in s(pr_identity_pub r' \<mapsto> r'))"

fun load_records :: "peer_record list \<Rightarrow> peer_store \<Rightarrow> peer_store" where
  "load_records [] s = s"
| "load_records (r # rs) s = load_records rs (ps_insert r s)"

definition load_peers :: "peer_record list option \<Rightarrow> peer_store" where
  "load_peers file = (case file of None \<Rightarrow> Map.empty | Some rs \<Rightarrow> load_records rs Map.empty)"

definition resolve_key :: "peer_store \<Rightarrow> peer_id \<Rightarrow> peer_id option" where
  "resolve_key s identity_pub =
     (let canon = normalize_public_id identity_pub in
      if s canon \<noteq> None then Some canon
      else if s identity_pub \<noteq> None then Some identity_pub
      else let b = trim_end (CHR ''='') identity_pub in
        if b \<noteq> identity_pub \<and> s b \<noteq> None then Some b else None)"

definition add_peer :: "peer_record \<Rightarrow> peer_store \<Rightarrow> peer_store" where
  "add_peer r0 s =
     (let r = r0\<lparr>pr_identity_pub := normalize_public_id (pr_identity_pub r0)\<rparr>;
          b = trim_end (CHR ''='') (pr_identity_pub r);
          s1 = (if b \<noteq> pr_identity_pub r then s(b := None) else s)
      in s1(pr_identity_pub r \<mapsto> r))"

definition get_peer :: "peer_id \<Rightarrow> peer_store \<Rightarrow> peer_record option" where
  "get_peer i s = (case resolve_key s i of None \<Rightarrow> None | Some k \<Rightarrow> s k)"

definition record_trusted :: "peer_record \<Rightarrow> bool" where
  "record_trusted r \<longleftrightarrow> \<not> pr_revoked r \<and> \<not> pr_blocked r"

definition is_trusted :: "peer_id \<Rightarrow> peer_store \<Rightarrow> bool" where
  "is_trusted i s = (case get_peer i s of None \<Rightarrow> False | Some p \<Rightarrow> record_trusted p)"

text \<open>Change the record an id resolves to, if there is one.\<close>

definition modify_peer :: "(peer_record \<Rightarrow> peer_record) \<Rightarrow> peer_id \<Rightarrow> peer_store \<Rightarrow> peer_store" where
  "modify_peer f i s =
     (case resolve_key s i of
        None \<Rightarrow> s
      | Some k \<Rightarrow> (case s k of None \<Rightarrow> s | Some p \<Rightarrow> s(k \<mapsto> f p)))"

definition revoke_stored_peer :: "peer_id \<Rightarrow> peer_store \<Rightarrow> peer_store" where
  "revoke_stored_peer = modify_peer (\<lambda>p. p\<lparr>pr_revoked := True\<rparr>)"

definition touch_peer :: "real \<Rightarrow> peer_id \<Rightarrow> peer_store \<Rightarrow> peer_store" where
  "touch_peer now = modify_peer (\<lambda>p. p\<lparr>pr_last_seen_at := now\<rparr>)"

definition remove_stored_peer :: "peer_id \<Rightarrow> peer_store \<Rightarrow> peer_store" where
  "remove_stored_peer i s = (case resolve_key s i of None \<Rightarrow> s | Some k \<Rightarrow> s(k := None))"

definition trusted_peer_ids :: "peer_store \<Rightarrow> peer_id set" where
  "trusted_peer_ids s = {k. \<exists>p. s k = Some p \<and> record_trusted p}"

definition total_count :: "peer_store \<Rightarrow> nat" where
  "total_count s = msize s"

definition trusted_count :: "peer_store \<Rightarrow> nat" where
  "trusted_count s = card (trusted_peer_ids s)"

definition all_peers :: "peer_store \<Rightarrow> peer_record set" where
  "all_peers s = ran s"

section \<open>The contract of a peer book\<close>

text \<open>
  A book maps keys to records. An id has a key whatever its spelling; the laws hold for the ids the
  book calls valid.
\<close>

locale peer_book =
  fixes ok :: "'s \<Rightarrow> bool" and abs :: "'s \<Rightarrow> 'k \<rightharpoonup> 'r" and key :: "string \<Rightarrow> 'k" and valid :: "string \<Rightarrow> bool"
    and lookup :: "string \<Rightarrow> 's \<Rightarrow> 'r option" and put :: "'r \<Rightarrow> 's \<Rightarrow> 's" and owner :: "'r \<Rightarrow> string" and canon :: "'r \<Rightarrow> 'r"
    and modify :: "('r \<Rightarrow> 'r) \<Rightarrow> string \<Rightarrow> 's \<Rightarrow> 's" and del :: "string \<Rightarrow> 's \<Rightarrow> 's"
  assumes lookup_abs: "ok s \<Longrightarrow> valid i \<Longrightarrow> lookup i s = abs s (key i)"
    and put_ok: "ok s \<Longrightarrow> valid (owner r) \<Longrightarrow> ok (put r s)"
    and put_abs: "ok s \<Longrightarrow> valid (owner r) \<Longrightarrow> abs (put r s) = (abs s)(key (owner r) \<mapsto> canon r)"
    and modify_ok: "ok s \<Longrightarrow> valid i \<Longrightarrow> (\<forall>r. owner (f r) = owner r) \<Longrightarrow> ok (modify f i s)"
    and modify_abs: "ok s \<Longrightarrow> valid i \<Longrightarrow> abs (modify f i s) = (abs s)(key i := map_option f (abs s (key i)))"
    and del_ok: "ok s \<Longrightarrow> valid i \<Longrightarrow> ok (del i s)"
    and del_abs: "ok s \<Longrightarrow> valid i \<Longrightarrow> abs (del i s) = (abs s)(key i := None)"
begin

lemma lookup_put:
  "ok s \<Longrightarrow> valid i \<Longrightarrow> valid (owner r) \<Longrightarrow>
     lookup i (put r s) = (if key i = key (owner r) then Some (canon r) else lookup i s)"
  by (simp add: lookup_abs put_ok put_abs)

lemma lookup_modify:
  "ok s \<Longrightarrow> valid i \<Longrightarrow> valid j \<Longrightarrow> (\<forall>r. owner (f r) = owner r) \<Longrightarrow>
     lookup j (modify f i s) = (if key j = key i then map_option f (lookup j s) else lookup j s)"
  by (simp add: lookup_abs modify_ok modify_abs)

lemma lookup_del:
  "ok s \<Longrightarrow> valid i \<Longrightarrow> valid j \<Longrightarrow> lookup j (del i s) = (if key j = key i then None else lookup j s)"
  by (simp add: lookup_abs del_ok del_abs)

text \<open>The last write to a key decides; writes to different keys commute.\<close>

lemma put_put:
  "ok s \<Longrightarrow> valid i \<Longrightarrow> valid (owner r) \<Longrightarrow> valid (owner r') \<Longrightarrow> key (owner r) = key (owner r') \<Longrightarrow>
     lookup i (put r' (put r s)) = lookup i (put r' s)"
  by (simp add: lookup_put put_ok)

lemma put_commute:
  "ok s \<Longrightarrow> valid i \<Longrightarrow> valid (owner r) \<Longrightarrow> valid (owner r') \<Longrightarrow> key (owner r) \<noteq> key (owner r') \<Longrightarrow>
     lookup i (put r' (put r s)) = lookup i (put r (put r' s))"
  by (simp add: lookup_put put_ok)

end

section \<open>The store is a peer book\<close>

text \<open>Ids of 32-byte keys: 43 characters without padding.\<close>

definition key_id :: "peer_id \<Rightarrow> bool" where
  "key_id i \<longleftrightarrow> length (bare i) = 43"

definition store_ok :: "peer_store \<Rightarrow> bool" where
  "store_ok s \<longleftrightarrow> (\<forall>k r. s k = Some r \<longrightarrow> key_id k \<and> normalize_public_id k = k \<and> pr_identity_pub r = k)"

definition book_of :: "peer_store \<Rightarrow> string \<rightharpoonup> peer_record" where
  "book_of s = (\<lambda>b. if length b = 43 then s (b @ ''='') else None)"

definition canonical_record :: "peer_record \<Rightarrow> peer_record" where
  "canonical_record r = r\<lparr>pr_identity_pub := normalize_public_id (pr_identity_pub r)\<rparr>"

lemma key_id_normal: "key_id i \<Longrightarrow> normalize_public_id i = bare i @ ''=''"
  by (simp add: key_id_def normalize_public_id_def Let_def)

lemma key_id_normalize [simp]: "key_id (normalize_public_id i) = key_id i"
  by (simp add: key_id_def)

lemma bare_not_stored: "store_ok s \<Longrightarrow> length b = 43 \<Longrightarrow> s b = None"
proof (rule ccontr)
  assume a: "store_ok s" "length b = 43" "s b \<noteq> None"
  then obtain r where "s b = Some r" by blast
  with a(1) have "key_id b" "normalize_public_id b = b" by (auto simp: store_ok_def)
  then have "length b = length (bare b @ ''='')" "length (bare b) = 43" using key_id_normal by (auto simp: key_id_def)
  with a(2) show False by simp
qed

lemma resolve_key_id:
  assumes "store_ok s" "key_id i"
  shows "resolve_key s i = (if s (bare i @ ''='') = None then None else Some (bare i @ ''=''))"
proof -
  have canon: "normalize_public_id i = bare i @ ''=''" by (rule key_id_normal [OF assms(2)])
  have b: "s (bare i) = None" using bare_not_stored [OF assms(1)] assms(2) by (simp add: key_id_def)
  have "s i = None" if "s (bare i @ ''='') = None"
  proof (rule ccontr)
    assume "s i \<noteq> None"
    then have "normalize_public_id i = i" using assms(1) by (auto simp: store_ok_def)
    with \<open>s i \<noteq> None\<close> that canon show False by simp
  qed
  with b canon show ?thesis by (auto simp: resolve_key_def Let_def)
qed

lemma get_peer_key: "store_ok s \<Longrightarrow> key_id i \<Longrightarrow> get_peer i s = s (bare i @ ''='')"
  by (auto simp: get_peer_def resolve_key_id)

lemma add_peer_key:
  assumes "store_ok s" "key_id (pr_identity_pub r)"
  shows "add_peer r s = s(bare (pr_identity_pub r) @ ''='' \<mapsto> canonical_record r)"
proof -
  have "s (bare (pr_identity_pub r)) = None" using bare_not_stored [OF assms(1)] assms(2) by (simp add: key_id_def)
  then have "s(bare (pr_identity_pub r) := None) = s" by (simp add: fun_upd_idem)
  then show ?thesis using assms(2) by (simp add: add_peer_def canonical_record_def Let_def key_id_normal)
qed

lemma modify_peer_key:
  "store_ok s \<Longrightarrow> key_id i \<Longrightarrow>
     modify_peer f i s = s(bare i @ ''='' := map_option f (s (bare i @ ''='')))"
  by (auto simp: modify_peer_def resolve_key_id fun_upd_idem split: option.splits)

lemma remove_key: "store_ok s \<Longrightarrow> key_id i \<Longrightarrow> remove_stored_peer i s = s(bare i @ ''='' := None)"
  by (auto simp: remove_stored_peer_def resolve_key_id fun_upd_idem)

lemma store_ok_upd:
  "store_ok s \<Longrightarrow> key_id i \<Longrightarrow> pr_identity_pub r = normalize_public_id i \<Longrightarrow> store_ok (s(bare i @ ''='' \<mapsto> r))"
  by (auto simp: store_ok_def key_id_normal [symmetric])

lemma book_of_upd: "key_id i \<Longrightarrow> book_of (s(bare i @ ''='' := v)) = (book_of s)(bare i := v)"
  by (auto simp: book_of_def key_id_def fun_eq_iff)

lemma book_of_bare: "key_id i \<Longrightarrow> s (bare i @ ''='') = book_of s (bare i)"
  by (simp add: book_of_def key_id_def)

interpretation store: peer_book store_ok book_of bare key_id get_peer add_peer pr_identity_pub canonical_record
  modify_peer remove_stored_peer
proof unfold_locales
  fix s :: peer_store and i and r :: peer_record and f :: "peer_record \<Rightarrow> peer_record"
  assume ok: "store_ok s"
  show "get_peer i s = book_of s (bare i)" if "key_id i"
    using ok that by (simp add: get_peer_key book_of_bare)
  show "store_ok (add_peer r s)" if "key_id (pr_identity_pub r)"
    using ok that by (simp add: add_peer_key store_ok_upd canonical_record_def)
  show "book_of (add_peer r s) = (book_of s)(bare (pr_identity_pub r) \<mapsto> canonical_record r)" if "key_id (pr_identity_pub r)"
    using ok that by (simp add: add_peer_key book_of_upd)
  show "store_ok (modify_peer f i s)" if "key_id i" "\<forall>r. pr_identity_pub (f r) = pr_identity_pub r"
    using ok that by (auto simp: modify_peer_key store_ok_def split: if_splits)
  show "book_of (modify_peer f i s) = (book_of s)(bare i := map_option f (book_of s (bare i)))" if "key_id i"
    using ok that by (simp add: modify_peer_key book_of_upd book_of_bare)
  show "store_ok (remove_stored_peer i s)" if "key_id i"
    using ok that by (auto simp: remove_key store_ok_def split: if_splits)
  show "book_of (remove_stored_peer i s) = (book_of s)(bare i := None)" if "key_id i"
    using ok that by (simp add: remove_key book_of_upd)
qed

section \<open>Refinement\<close>

datatype store_op = AddPeer peer_record | RevokePeer peer_id | RemovePeer peer_id | TouchPeer real peer_id

fun store_op_ok :: "store_op \<Rightarrow> bool" where
  "store_op_ok (AddPeer r) = key_id (pr_identity_pub r)"
| "store_op_ok (RevokePeer i) = key_id i"
| "store_op_ok (RemovePeer i) = key_id i"
| "store_op_ok (TouchPeer _ i) = key_id i"

fun store_run :: "store_op list \<Rightarrow> peer_store \<Rightarrow> peer_store" where
  "store_run [] s = s"
| "store_run (AddPeer r # ops) s = store_run ops (add_peer r s)"
| "store_run (RevokePeer i # ops) s = store_run ops (revoke_stored_peer i s)"
| "store_run (RemovePeer i # ops) s = store_run ops (remove_stored_peer i s)"
| "store_run (TouchPeer t i # ops) s = store_run ops (touch_peer t i s)"

text \<open>The specification: a map from keys to records, with no spellings of ids.\<close>

fun book_run :: "store_op list \<Rightarrow> (string \<rightharpoonup> peer_record) \<Rightarrow> (string \<rightharpoonup> peer_record)" where
  "book_run [] b = b"
| "book_run (AddPeer r # ops) b = book_run ops (b(bare (pr_identity_pub r) \<mapsto> canonical_record r))"
| "book_run (RevokePeer i # ops) b = book_run ops (b(bare i := map_option (\<lambda>p. p\<lparr>pr_revoked := True\<rparr>) (b (bare i))))"
| "book_run (RemovePeer i # ops) b = book_run ops (b(bare i := None))"
| "book_run (TouchPeer t i # ops) b = book_run ops (b(bare i := map_option (\<lambda>p. p\<lparr>pr_last_seen_at := t\<rparr>) (b (bare i))))"

lemma store_run_ok:
  "store_ok s \<Longrightarrow> list_all store_op_ok ops \<Longrightarrow>
     store_ok (store_run ops s) \<and> book_of (store_run ops s) = book_run ops (book_of s)"
proof (induction ops arbitrary: s)
  case (Cons op ops)
  then have op: "store_op_ok op" "list_all store_op_ok ops" by simp_all
  show ?case
  proof (cases op)
    case (AddPeer r)
    with Cons op show ?thesis by (simp add: store.put_ok store.put_abs)
  next
    case (RevokePeer i)
    with Cons op show ?thesis by (simp add: revoke_stored_peer_def store.modify_ok store.modify_abs)
  next
    case (RemovePeer i)
    with Cons op show ?thesis by (simp add: store.del_ok store.del_abs)
  next
    case (TouchPeer t i)
    with Cons op show ?thesis by (simp add: touch_peer_def store.modify_ok store.modify_abs)
  qed
qed simp

lemma store_ok_empty: "store_ok Map.empty" "book_of Map.empty = Map.empty"
  by (auto simp: store_ok_def book_of_def)

lemma load_records_run:
  "store_ok s \<Longrightarrow> list_all (\<lambda>r. key_id (pr_identity_pub r)) rs \<Longrightarrow> load_records rs s = store_run (map AddPeer rs) s"
proof (induction rs arbitrary: s)
  case (Cons r rs)
  then have "ps_insert r s = add_peer r s"
    by (simp add: ps_insert_def add_peer_key canonical_record_def key_id_normal Let_def)
  with Cons show ?case by (simp add: store.put_ok)
qed simp

lemma stored_key:
  assumes "store_ok s" "s k = Some p"
  shows "key_id k" "k = bare k @ ''=''"
proof -
  show "key_id k" using assms by (simp add: store_ok_def)
  then show "k = bare k @ ''=''" using assms key_id_normal [of k] by (simp add: store_ok_def)
qed

lemma trusted_ids_bare: "store_ok s \<Longrightarrow> bare ` trusted_peer_ids s = {b. \<exists>p. book_of s b = Some p \<and> record_trusted p}"
proof (intro set_eqI iffI)
  fix b assume ok: "store_ok s" and "b \<in> bare ` trusted_peer_ids s"
  then obtain k p where k: "b = bare k" "s k = Some p" "record_trusted p" by (auto simp: trusted_peer_ids_def)
  with ok have "key_id k" "k = bare k @ ''=''" using stored_key by blast+
  with k show "b \<in> {b. \<exists>p. book_of s b = Some p \<and> record_trusted p}" by (auto simp: book_of_bare [symmetric])
next
  fix b assume ok: "store_ok s" and "b \<in> {b. \<exists>p. book_of s b = Some p \<and> record_trusted p}"
  then obtain p where p: "length b = 43" "s (b @ ''='') = Some p" "record_trusted p" by (auto simp: book_of_def split: if_splits)
  with ok have "b @ ''='' = bare (b @ ''='') @ ''=''" using stored_key(2) by blast
  then have "bare (b @ ''='') = b" by simp
  moreover have "b @ ''='' \<in> trusted_peer_ids s" using p by (auto simp: trusted_peer_ids_def)
  ultimately show "b \<in> bare ` trusted_peer_ids s" by (metis image_eqI)
qed

text \<open>
  C27. The peer store refines a plain map from keys to records. After loading a file and any sequence
  of additions, revocations, removals and touches, whatever spelling of an id each of them uses, every
  lookup and trust check answers as the map does for the key of the id; the list of trusted ids names
  exactly the trusted keys; and no key has two records.
\<close>

theorem peer_store_refines:
  assumes "list_all (\<lambda>r. key_id (pr_identity_pub r)) file" "list_all store_op_ok ops" "key_id i"
    and "s = store_run ops (load_peers (Some file))" "book = book_run (map AddPeer file @ ops) Map.empty"
  shows "get_peer i s = book (bare i) \<and>
    (is_trusted i s \<longleftrightarrow> (\<exists>p. book (bare i) = Some p \<and> record_trusted p)) \<and>
    bare ` trusted_peer_ids s = {b. \<exists>p. book b = Some p \<and> record_trusted p} \<and>
    (\<forall>k k'. s k \<noteq> None \<and> s k' \<noteq> None \<and> bare k = bare k' \<longrightarrow> k = k')"
proof -
  let ?all = "map AddPeer file @ ops"
  have run_app: "store_run (xs @ ys) t = store_run ys (store_run xs t)" for xs ys t
    by (induction xs t rule: store_run.induct) simp_all
  have s: "s = store_run ?all Map.empty"
    using assms(1,4) by (simp add: load_peers_def load_records_run store_ok_empty run_app)
  have "list_all store_op_ok ?all" using assms(1,2) by (auto simp: list_all_iff)
  from store_run_ok [OF store_ok_empty(1) this] have ok: "store_ok s" and ab: "book_of s = book"
    using assms(5) by (simp_all add: s store_ok_empty)
  have "get_peer i s = book (bare i)" using store.lookup_abs [OF ok assms(3)] ab by simp
  moreover have "k = k'" if "s k \<noteq> None" "s k' \<noteq> None" "bare k = bare k'" for k k'
  proof -
    have "k = bare k @ ''=''" "k' = bare k' @ ''=''" using that(1,2) stored_key(2) [OF ok] by blast+
    with that(3) show ?thesis by simp
  qed
  ultimately show ?thesis using trusted_ids_bare [OF ok] ab by (auto simp: is_trusted_def split: option.splits)
qed

definition demo_record :: "peer_id \<Rightarrow> string \<Rightarrow> peer_record" where
  "demo_record i transcript = \<lparr>pr_peer_id = [], pr_identity_pub = i, pr_relay_hints = [], pr_handle = [], pr_blocked = False,
     pr_revoked = False, pr_auto_connect = False, pr_is_supernode = False, pr_transcript_hash = transcript,
     pr_created_at = 0, pr_last_seen_at = 0, pr_quic_port = 0\<rparr>"

definition demo_id :: peer_id where "demo_id = replicate 43 (CHR ''A'')"

lemma bare_demo [simp]: "bare demo_id = demo_id" "key_id demo_id" "bare (demo_id @ ''='') = demo_id" "key_id (demo_id @ ''='')"
proof -
  show b: "bare demo_id = demo_id" unfolding demo_id_def by (rule trim_end_id) (simp add: last_replicate)
  then show "bare (demo_id @ ''='') = demo_id" by simp
  with b show "key_id demo_id" "key_id (demo_id @ ''='')" by (simp_all add: key_id_def demo_id_def)
qed

theorem peer_store_refines_witness:
  "\<not> is_trusted demo_id (store_run [RevokePeer (demo_id @ ''='')] (load_peers (Some [demo_record demo_id []]))) \<and>
   get_peer demo_id (store_run [RevokePeer (demo_id @ ''='')] (load_peers (Some [demo_record demo_id []]))) \<noteq> None"
proof -
  let ?s = "store_run [RevokePeer (demo_id @ ''='')] (load_peers (Some [demo_record demo_id []]))"
  let ?b = "book_run (map AddPeer [demo_record demo_id []] @ [RevokePeer (demo_id @ ''='')]) Map.empty"
  have b: "?b demo_id = Some ((canonical_record (demo_record demo_id []))\<lparr>pr_revoked := True\<rparr>)"
    by (simp add: demo_record_def)
  have "list_all (\<lambda>r. key_id (pr_identity_pub r)) [demo_record demo_id []]" by (simp add: demo_record_def)
  from peer_store_refines [OF this, of "[RevokePeer (demo_id @ ''='')]" demo_id, OF _ _ refl refl]
  have "get_peer demo_id ?s = ?b demo_id" "is_trusted demo_id ?s \<longleftrightarrow> (\<exists>p. ?b demo_id = Some p \<and> record_trusted p)" by simp_all
  then have "get_peer demo_id ?s \<noteq> None" "\<not> is_trusted demo_id ?s" using b by (simp_all only: record_trusted_def) simp_all
  then show ?thesis by blast
qed

end
