(* ===== verification/Json_Value.thy ===== *)
theory Json_Value
  imports Crates Complex_Main
begin

text \<open>
  JSON documents as \<open>serde_json::Value\<close> has them. An object is a \<open>BTreeMap\<close>: its entries in key order.
  Floating-point numbers are rationals. The text form is the library's: a \<open>json_lib\<close> prints an object
  with the entries in a given order and parses a text; \<open>json_ok\<close> is the round trip both \<open>Cargo.toml\<close>
  files ask for (\<open>float_roundtrip\<close> in the client, \<open>arbitrary_precision\<close> in the supernode).
\<close>

section \<open>Values\<close>

datatype jnum = NInt int | NFloat rat

datatype jvalue = VNull | VBool bool | VNum jnum | VStr string | VArr "jvalue list" | VObj "(string \<times> jvalue) list"

fun jget :: "string \<Rightarrow> jvalue \<Rightarrow> jvalue option" where
  "jget k (VObj m) = map_of m k"
| "jget k _ = None"

fun j_str :: "jvalue \<Rightarrow> string option" where
  "j_str (VStr s) = Some s"
| "j_str _ = None"

fun as_u64 :: "jvalue \<Rightarrow> u64 option" where
  "as_u64 (VNum (NInt i)) = (if 0 \<le> i \<and> i < 2 ^ 64 then Some (word_of_int i) else None)"
| "as_u64 _ = None"

fun as_f64 :: "jvalue \<Rightarrow> rat option" where
  "as_f64 (VNum (NInt i)) = Some (of_int i)"
| "as_f64 (VNum (NFloat r)) = Some r"
| "as_f64 _ = None"

fun as_array :: "jvalue \<Rightarrow> jvalue list option" where
  "as_array (VArr xs) = Some xs"
| "as_array _ = None"

fun is_object :: "jvalue \<Rightarrow> bool" where
  "is_object (VObj m) = True"
| "is_object _ = False"

text \<open>\<open>payload.get(k).and_then(|v| v.as_str())\<close>, with the fall-backs the handlers use.\<close>

definition get_str :: "string \<Rightarrow> jvalue \<Rightarrow> string option" where
  "get_str k v = (case jget k v of None \<Rightarrow> None | Some w \<Rightarrow> j_str w)"

definition get_str_or :: "string \<Rightarrow> string \<Rightarrow> jvalue \<Rightarrow> string" where
  "get_str_or d k v = (case get_str k v of None \<Rightarrow> d | Some s \<Rightarrow> s)"

text \<open>\<open>json!\<close> with an object literal.\<close>

definition jobj :: "(string \<times> jvalue) list \<Rightarrow> jvalue" where
  "jobj kvs = VObj (bt_of kvs [])"

fun jcanon :: "jvalue \<Rightarrow> bool" where
  "jcanon (VArr xs) = (\<forall>x \<in> set xs. jcanon x)"
| "jcanon (VObj m) = (sorted_wrt (<) (map fst m) \<and> (\<forall>kv \<in> set m. jcanon (snd kv)))"
| "jcanon _ = True"

section \<open>Sorted maps\<close>

lemma bt_insert_keys: "set (map fst (bt_insert k v m)) = insert k (set (map fst m))"
  by (induction m rule: bt_insert.induct [of _ k v]) auto

lemma bt_insert_sorted: "sorted_wrt (<) (map fst m) \<Longrightarrow> sorted_wrt (<) (map fst (bt_insert k v m))"
proof (induction m)
  case (Cons e m)
  obtain k' v' where e: "e = (k', v')" by (cases e)
  consider "k < k'" | "k = k'" | "k' < k" by fastforce
  then show ?case
  proof cases
    case 3
    have "\<forall>x \<in> set (map fst (bt_insert k v m)). k' < x"
      using Cons.prems 3 unfolding bt_insert_keys by (auto simp: e)
    with Cons 3 show ?thesis by (auto simp: e)
  qed (use Cons.prems in \<open>auto simp: e\<close>)
qed simp

lemma bt_insert_map_of: "sorted_wrt (<) (map fst m) \<Longrightarrow> map_of (bt_insert k v m) = (map_of m)(k \<mapsto> v)"
proof (induction m)
  case (Cons e m)
  obtain k' v' where e: "e = (k', v')" by (cases e)
  consider "k < k'" | "k = k'" | "k' < k" by fastforce
  then show ?case using Cons by cases (auto simp: e fun_eq_iff)
qed simp

lemma bt_insert_set: "set (bt_insert k v m) \<subseteq> insert (k, v) (set m)"
  by (induction m rule: bt_insert.induct [of _ k v]) auto

lemma bt_of_sorted: "sorted_wrt (<) (map fst m) \<Longrightarrow> sorted_wrt (<) (map fst (bt_of kvs m))"
  by (induction kvs m rule: bt_of.induct) (auto simp: bt_insert_sorted)

lemma bt_of_map_of: "sorted_wrt (<) (map fst m) \<Longrightarrow> map_of (bt_of kvs m) = map_of m ++ map_of (rev kvs)"
  by (induction kvs m rule: bt_of.induct)
     (auto simp: bt_insert_sorted bt_insert_map_of map_add_def fun_eq_iff split: option.splits)

lemma bt_of_set: "set (bt_of kvs m) \<subseteq> set kvs \<union> set m"
proof (induction kvs m rule: bt_of.induct)
  case (2 k v kvs m)
  then show ?case using bt_insert_set [of k v m] by auto
qed simp

lemma map_of_rev_distinct: "distinct (map fst kvs) \<Longrightarrow> map_of (rev kvs) = map_of kvs"
proof (rule ext)
  fix k assume d: "distinct (map fst kvs)"
  then have r: "distinct (map fst (rev kvs))" by (simp add: rev_map [symmetric])
  show "map_of (rev kvs) k = map_of kvs k"
  proof (cases "map_of kvs k")
    case None
    then have "map_of (rev kvs) k = None" by (simp add: map_of_eq_None_iff)
    with None show ?thesis by simp
  next
    case (Some v)
    then have "map_of (rev kvs) k = Some v" using d r by (simp add: map_of_eq_Some_iff)
    with Some show ?thesis by simp
  qed
qed

lemma jget_jobj: "distinct (map fst kvs) \<Longrightarrow> jget k (jobj kvs) = map_of kvs k"
  by (simp add: jobj_def bt_of_map_of map_of_rev_distinct)

lemma jcanon_jobj: "\<forall>kv \<in> set kvs. jcanon (snd kv) \<Longrightarrow> jcanon (jobj kvs)"
  using bt_of_sorted [of "[]" kvs] bt_of_set [of kvs "[]"] by (auto simp: jobj_def)

section \<open>The text form\<close>

record json_lib =
  jl_print :: "(string \<times> jvalue) list \<Rightarrow> string"
  jl_parse :: "string \<Rightarrow> jvalue option"

definition json_ok :: "json_lib \<Rightarrow> bool" where
  "json_ok L \<longleftrightarrow> (\<forall>m. distinct (map fst m) \<and> (\<forall>kv \<in> set m. jcanon (snd kv)) \<longrightarrow>
     jl_parse L (jl_print L m) = Some (jobj m))"

subsection \<open>A concrete text form\<close>

text \<open>A self-delimiting text: a bar before every character and a dot at the end of a string.\<close>

fun enc_str :: "string \<Rightarrow> string" where
  "enc_str [] = ''.''"
| "enc_str (c # s) = CHR ''|'' # c # enc_str s"

fun enc_int :: "int \<Rightarrow> string" where
  "enc_int i = (if 0 \<le> i then CHR ''+'' # enc_str (replicate (nat i) (CHR ''1'')) else CHR ''-'' # enc_str (replicate (nat (- i)) (CHR ''1'')))"

fun enc_num :: "jnum \<Rightarrow> string" where
  "enc_num (NInt i) = CHR ''i'' # enc_int i"
| "enc_num (NFloat r) = CHR ''f'' # enc_int (fst (quotient_of r)) @ enc_int (snd (quotient_of r))"

fun enc_value :: "jvalue \<Rightarrow> string" and enc_values :: "jvalue list \<Rightarrow> string" and enc_entries :: "(string \<times> jvalue) list \<Rightarrow> string" where
  "enc_value VNull = ''n''"
| "enc_value (VBool b) = (if b then ''t'' else ''f'')"
| "enc_value (VNum n) = CHR ''#'' # enc_num n"
| "enc_value (VStr s) = CHR ''s'' # enc_str s"
| "enc_value (VArr xs) = CHR ''a'' # enc_values xs"
| "enc_value (VObj m) = CHR ''o'' # enc_entries m"
| "enc_values [] = '']''"
| "enc_values (v # vs) = CHR '','' # enc_value v @ enc_values vs"
| "enc_entries [] = ''}''"
| "enc_entries ((k, v) # m) = CHR '','' # enc_str k @ enc_value v @ enc_entries m"

lemma enc_str_prefix [simp]: "enc_str a @ r = enc_str b @ r' \<longleftrightarrow> a = b \<and> r = r'"
proof (induction a arbitrary: b)
  case Nil
  then show ?case by (cases b) auto
next
  case (Cons x a)
  then show ?case by (cases b) auto
qed

lemma replicate_eq_length: "replicate n c = replicate m c \<longleftrightarrow> n = m"
  by (metis length_replicate)

lemma enc_int_prefix [simp]: "enc_int a @ r = enc_int b @ r' \<longleftrightarrow> a = b \<and> r = r'"
  by (cases "0 \<le> a"; cases "0 \<le> b") (auto simp: enc_int.simps replicate_eq_length)

declare enc_int.simps [simp del]

lemma enc_num_prefix [simp]: "enc_num a @ r = enc_num b @ r' \<longleftrightarrow> a = b \<and> r = r'"
proof (cases a)
  case (NInt x)
  then show ?thesis by (cases b) auto
next
  case (NFloat x)
  have "fst (quotient_of x) = fst (quotient_of y) \<and> snd (quotient_of x) = snd (quotient_of y) \<longleftrightarrow> x = y" for y
    by (metis prod_eq_iff quotient_of_inject)
  with NFloat show ?thesis by (cases b) auto
qed

declare enc_num.simps [simp del]

lemma enc_prefix:
  "enc_value v @ r = enc_value w @ r' \<Longrightarrow> v = w \<and> r = r'"
  "enc_values vs @ r = enc_values ws @ r' \<Longrightarrow> vs = ws \<and> r = r'"
  "enc_entries m @ r = enc_entries m' @ r' \<Longrightarrow> m = m' \<and> r = r'"
proof (induction v and vs and m arbitrary: w r r' and ws r r' and m' r r' rule: enc_value_enc_values_enc_entries.induct)
  case (8 v vs)
  obtain w ws' where ws: "ws = w # ws'" using "8.prems" by (cases ws) auto
  with "8.prems" have "enc_value v @ enc_values vs @ r = enc_value w @ enc_values ws' @ r'" by simp
  from "8.IH"(1) [OF this] have "v = w" "enc_values vs @ r = enc_values ws' @ r'" by simp_all
  with "8.IH"(2) [of r ws' r'] ws show ?case by simp
next
  case (10 k v m)
  obtain k' w m'' where m': "m' = (k', w) # m''" using "10.prems" by (cases m' rule: enc_entries.cases) auto
  with "10.prems" have k: "k = k'" and "enc_value v @ enc_entries m @ r = enc_value w @ enc_entries m'' @ r'" by auto
  from "10.IH"(1) [OF this(2)] have "v = w" "enc_entries m @ r = enc_entries m'' @ r'" by simp_all
  with "10.IH"(2) [of r m'' r'] m' k show ?case by simp
next
  case 7
  then show ?case by (cases ws) auto
next
  case 9
  then show ?case by (cases m' rule: enc_entries.cases) auto
next
  case (5 xs)
  obtain ys where w: "w = VArr ys" using "5.prems" by (cases w) (auto split: if_splits)
  with "5.prems" "5.IH" [of r ys r'] show ?case by simp
next
  case (6 m)
  obtain m' where w: "w = VObj m'" using "6.prems" by (cases w) (auto split: if_splits)
  with "6.prems" "6.IH" [of r m' r'] show ?case by simp
next
  case 1
  then show ?case by (cases w) (auto split: if_splits)
next
  case (2 b)
  then show ?case by (cases w) (auto split: if_splits)
next
  case (3 n)
  then show ?case by (cases w) (auto split: if_splits)
next
  case (4 s)
  then show ?case by (cases w) (auto split: if_splits)
qed

lemma inj_enc_entries: "inj enc_entries"
  by (rule injI) (use enc_prefix(3) [of _ "[]" _ "[]"] in simp)

definition plain_json :: json_lib where
  "plain_json = \<lparr>jl_print = enc_entries,
     jl_parse = (\<lambda>s. if s \<in> range enc_entries then Some (jobj (inv enc_entries s)) else None)\<rparr>"

lemma plain_json_ok: "json_ok plain_json"
  by (simp add: json_ok_def plain_json_def inv_f_f [OF inj_enc_entries])

end
