(* ===== verification/Protocol.thy ===== *)
theory Protocol
  imports Json_Value
begin

text \<open>
  The types of signaling messages, once as the supernode lists them (\<open>conquerd-supernode/src/protocol.rs\<close>)
  and once as the client lists them (\<open>conquerd-client/src/protocol.rs\<close>), with the names they have on the
  wire. The messages themselves are in the theory \<open>Message\<close>.
\<close>

section \<open>Message types\<close>

definition PROTOCOL_VERSION :: u32 where "PROTOCOL_VERSION = 2"

datatype (plugins only: size) message_type =
    Hello | Welcome | RoomJoin | RoomLeave | RoomState | RoomPeerJoined | RoomPeerLeft | RoomListRequest
    | RoomListResponse | InviteHandshakeInit | InviteHandshakeAccept | InviteHandshakeReject | EncryptedSignal
    | PresenceUpdate | SpeakingState | ChatMessage | ChatAck | ChatTyping | CallRequest | CallAccept
    | CallReject | CallEnd | EndpointUpdate | HandleUpdate | VersionAnnounce | UpdateOffer | UpdateAccept
    | UpdateReject | FileTransferOffer | FileTransferAccept | FileTransferReject | FileTransferChunk
    | FileTransferComplete | FileTransferAck | FileTransferError | RelayRequest | RelayGranted | RelayRevoke
    | RelayPaymentRequired | RelayAccessGranted | RelayAccessDenied | SupernodeInfo | SupernodeInfoRequest
    | PunchRegister | PunchReady | SfuRoomList | SfuJoin | SfuJoinResult | SfuLeave | SfuMembers
    | SfuPeerJoined | SfuPeerLeft | SfuOffer | SfuAnswer | SfuChat | SfuFileOffer | SfuFileRequest
    | SfuFileRevoke | SfuFileChunk | SfuFileComplete | SfuAudio | SfuVideoKeyframeRequest | SfuVideoState
    | SfuVideoSubscribe | SpaceRootAnnounce | SfuRoomCreate | SfuRoomCreated | SfuRoomInvite
    | SfuRoomInviteResult | SfuRoomInviteGenerate | SfuSubscribe | SfuUnsubscribe | TrustRequest | TrustAccept
    | PeerRoomInvite | BuildAttestation | AttestationResponse | Ping | Pong | CapabilityAnnounce
    | CapabilityInvoke | GameRelayJoin | GameRelayLeave | GameRelayJoined | Error

primrec wire_name :: "message_type \<Rightarrow> string" where
  "wire_name Hello = ''hello''"
| "wire_name Welcome = ''welcome''"
| "wire_name RoomJoin = ''room_join''"
| "wire_name RoomLeave = ''room_leave''"
| "wire_name RoomState = ''room_state''"
| "wire_name RoomPeerJoined = ''room_peer_joined''"
| "wire_name RoomPeerLeft = ''room_peer_left''"
| "wire_name RoomListRequest = ''room_list_request''"
| "wire_name RoomListResponse = ''room_list_response''"
| "wire_name InviteHandshakeInit = ''invite_handshake_init''"
| "wire_name InviteHandshakeAccept = ''invite_handshake_accept''"
| "wire_name InviteHandshakeReject = ''invite_handshake_reject''"
| "wire_name EncryptedSignal = ''encrypted_signal''"
| "wire_name PresenceUpdate = ''presence_update''"
| "wire_name SpeakingState = ''speaking_state''"
| "wire_name ChatMessage = ''chat_message''"
| "wire_name ChatAck = ''chat_ack''"
| "wire_name ChatTyping = ''chat_typing''"
| "wire_name CallRequest = ''call_request''"
| "wire_name CallAccept = ''call_accept''"
| "wire_name CallReject = ''call_reject''"
| "wire_name CallEnd = ''call_end''"
| "wire_name EndpointUpdate = ''endpoint_update''"
| "wire_name HandleUpdate = ''handle_update''"
| "wire_name VersionAnnounce = ''version_announce''"
| "wire_name UpdateOffer = ''update_offer''"
| "wire_name UpdateAccept = ''update_accept''"
| "wire_name UpdateReject = ''update_reject''"
| "wire_name FileTransferOffer = ''file_transfer_offer''"
| "wire_name FileTransferAccept = ''file_transfer_accept''"
| "wire_name FileTransferReject = ''file_transfer_reject''"
| "wire_name FileTransferChunk = ''file_transfer_chunk''"
| "wire_name FileTransferComplete = ''file_transfer_complete''"
| "wire_name FileTransferAck = ''file_transfer_ack''"
| "wire_name FileTransferError = ''file_transfer_error''"
| "wire_name RelayRequest = ''relay_request''"
| "wire_name RelayGranted = ''relay_granted''"
| "wire_name RelayRevoke = ''relay_revoke''"
| "wire_name RelayPaymentRequired = ''relay_payment_required''"
| "wire_name RelayAccessGranted = ''relay_access_granted''"
| "wire_name RelayAccessDenied = ''relay_access_denied''"
| "wire_name SupernodeInfo = ''supernode_info''"
| "wire_name SupernodeInfoRequest = ''supernode_info_request''"
| "wire_name PunchRegister = ''punch_register''"
| "wire_name PunchReady = ''punch_ready''"
| "wire_name SfuRoomList = ''sfu_room_list''"
| "wire_name SfuJoin = ''sfu_join''"
| "wire_name SfuJoinResult = ''sfu_join_result''"
| "wire_name SfuLeave = ''sfu_leave''"
| "wire_name SfuMembers = ''sfu_members''"
| "wire_name SfuPeerJoined = ''sfu_peer_joined''"
| "wire_name SfuPeerLeft = ''sfu_peer_left''"
| "wire_name SfuOffer = ''sfu_offer''"
| "wire_name SfuAnswer = ''sfu_answer''"
| "wire_name SfuChat = ''sfu_chat''"
| "wire_name SfuFileOffer = ''sfu_file_offer''"
| "wire_name SfuFileRequest = ''sfu_file_request''"
| "wire_name SfuFileRevoke = ''sfu_file_revoke''"
| "wire_name SfuFileChunk = ''sfu_file_chunk''"
| "wire_name SfuFileComplete = ''sfu_file_complete''"
| "wire_name SfuAudio = ''sfu_audio''"
| "wire_name SfuVideoKeyframeRequest = ''sfu_video_keyframe_request''"
| "wire_name SfuVideoState = ''sfu_video_state''"
| "wire_name SfuVideoSubscribe = ''sfu_video_subscribe''"
| "wire_name SpaceRootAnnounce = ''space_root_announce''"
| "wire_name SfuRoomCreate = ''sfu_room_create''"
| "wire_name SfuRoomCreated = ''sfu_room_created''"
| "wire_name SfuRoomInvite = ''sfu_room_invite''"
| "wire_name SfuRoomInviteResult = ''sfu_room_invite_result''"
| "wire_name SfuRoomInviteGenerate = ''sfu_room_invite_generate''"
| "wire_name SfuSubscribe = ''sfu_subscribe''"
| "wire_name SfuUnsubscribe = ''sfu_unsubscribe''"
| "wire_name TrustRequest = ''trust_request''"
| "wire_name TrustAccept = ''trust_accept''"
| "wire_name PeerRoomInvite = ''peer_room_invite''"
| "wire_name BuildAttestation = ''build_attestation''"
| "wire_name AttestationResponse = ''attestation_response''"
| "wire_name Ping = ''ping''"
| "wire_name Pong = ''pong''"
| "wire_name CapabilityAnnounce = ''capability_announce''"
| "wire_name CapabilityInvoke = ''capability_invoke''"
| "wire_name GameRelayJoin = ''game_relay_join''"
| "wire_name GameRelayLeave = ''game_relay_leave''"
| "wire_name GameRelayJoined = ''game_relay_joined''"
| "wire_name Error = ''error''"

definition message_types :: "message_type list" where
  "message_types =
    [     Hello, Welcome, RoomJoin, RoomLeave, RoomState, RoomPeerJoined, RoomPeerLeft, RoomListRequest
     , RoomListResponse, InviteHandshakeInit, InviteHandshakeAccept, InviteHandshakeReject, EncryptedSignal
     , PresenceUpdate, SpeakingState, ChatMessage, ChatAck, ChatTyping, CallRequest, CallAccept, CallReject
     , CallEnd, EndpointUpdate, HandleUpdate, VersionAnnounce, UpdateOffer, UpdateAccept, UpdateReject
     , FileTransferOffer, FileTransferAccept, FileTransferReject, FileTransferChunk, FileTransferComplete
     , FileTransferAck, FileTransferError, RelayRequest, RelayGranted, RelayRevoke, RelayPaymentRequired
     , RelayAccessGranted, RelayAccessDenied, SupernodeInfo, SupernodeInfoRequest, PunchRegister, PunchReady
     , SfuRoomList, SfuJoin, SfuJoinResult, SfuLeave, SfuMembers, SfuPeerJoined, SfuPeerLeft, SfuOffer
     , SfuAnswer, SfuChat, SfuFileOffer, SfuFileRequest, SfuFileRevoke, SfuFileChunk, SfuFileComplete
     , SfuAudio, SfuVideoKeyframeRequest, SfuVideoState, SfuVideoSubscribe, SpaceRootAnnounce, SfuRoomCreate
     , SfuRoomCreated, SfuRoomInvite, SfuRoomInviteResult, SfuRoomInviteGenerate, SfuSubscribe, SfuUnsubscribe
     , TrustRequest, TrustAccept, PeerRoomInvite, BuildAttestation, AttestationResponse, Ping, Pong
     , CapabilityAnnounce, CapabilityInvoke, GameRelayJoin, GameRelayLeave, GameRelayJoined, Error]"

definition parse_type :: "string \<Rightarrow> message_type option" where
  "parse_type s = find (\<lambda>t. wire_name t = s) message_types"

text \<open>The client's enum; the suffix keeps its constructors apart from the supernode's.\<close>

datatype (plugins only: size) client_type =
    Hello_c | Welcome_c | RoomJoin_c | RoomLeave_c | RoomState_c | RoomPeerJoined_c | RoomPeerLeft_c
    | RoomListRequest_c | RoomListResponse_c | InviteHandshakeInit_c | InviteHandshakeAccept_c
    | InviteHandshakeReject_c | EncryptedSignal_c | PresenceUpdate_c | SpeakingState_c | ChatMessage_c
    | ChatAck_c | ChatTyping_c | CallRequest_c | CallAccept_c | CallReject_c | CallEnd_c | EndpointUpdate_c
    | HandleUpdate_c | AvatarConfig_c | FileTransferOffer_c | FileTransferAccept_c | FileTransferReject_c
    | FileTransferChunk_c | FileTransferComplete_c | FileTransferAck_c | FileTransferError_c | RelayRequest_c
    | RelayGranted_c | RelayRevoke_c | RelayPaymentRequired_c | RelayAccessGranted_c | RelayAccessDenied_c
    | SupernodeInfo_c | SupernodeInfoRequest_c | PunchRegister_c | PunchReady_c | SfuRoomList_c | SfuJoin_c
    | SfuJoinResult_c | SfuLeave_c | SfuMembers_c | SfuPeerJoined_c | SfuPeerLeft_c | SfuOffer_c | SfuAnswer_c
    | SfuChat_c | SfuFileOffer_c | SfuFileRequest_c | SfuFileRevoke_c | SfuFileChunk_c | SfuFileComplete_c
    | SfuAudio_c | SfuVideoKeyframeRequest_c | SfuVideoState_c | SfuVideoSubscribe_c | SfuGroupKey_c
    | SfuGroupKeyAck_c | SpaceRootAnnounce_c | SfuRoomCreate_c | SfuRoomCreated_c | SfuRoomInvite_c
    | SfuRoomInviteResult_c | SfuRoomInviteGenerate_c | SfuSubscribe_c | SfuUnsubscribe_c | PeerRoomInvite_c
    | TrustRequest_c | TrustAccept_c | Ping_c | Pong_c | VersionAnnounce_c | BuildAttestation_c
    | AttestationResponse_c | CapabilityAnnounce_c | CapabilityInvoke_c | GameRelayJoin_c | GameRelayLeave_c
    | GameRelayJoined_c | Error_c

primrec as_wire_str :: "client_type \<Rightarrow> string" where
  "as_wire_str Hello_c = ''hello''"
| "as_wire_str Welcome_c = ''welcome''"
| "as_wire_str RoomJoin_c = ''room_join''"
| "as_wire_str RoomLeave_c = ''room_leave''"
| "as_wire_str RoomState_c = ''room_state''"
| "as_wire_str RoomPeerJoined_c = ''room_peer_joined''"
| "as_wire_str RoomPeerLeft_c = ''room_peer_left''"
| "as_wire_str RoomListRequest_c = ''room_list_request''"
| "as_wire_str RoomListResponse_c = ''room_list_response''"
| "as_wire_str InviteHandshakeInit_c = ''invite_handshake_init''"
| "as_wire_str InviteHandshakeAccept_c = ''invite_handshake_accept''"
| "as_wire_str InviteHandshakeReject_c = ''invite_handshake_reject''"
| "as_wire_str EncryptedSignal_c = ''encrypted_signal''"
| "as_wire_str PresenceUpdate_c = ''presence_update''"
| "as_wire_str SpeakingState_c = ''speaking_state''"
| "as_wire_str ChatMessage_c = ''chat_message''"
| "as_wire_str ChatAck_c = ''chat_ack''"
| "as_wire_str ChatTyping_c = ''chat_typing''"
| "as_wire_str CallRequest_c = ''call_request''"
| "as_wire_str CallAccept_c = ''call_accept''"
| "as_wire_str CallReject_c = ''call_reject''"
| "as_wire_str CallEnd_c = ''call_end''"
| "as_wire_str EndpointUpdate_c = ''endpoint_update''"
| "as_wire_str HandleUpdate_c = ''handle_update''"
| "as_wire_str AvatarConfig_c = ''avatar_config''"
| "as_wire_str FileTransferOffer_c = ''file_transfer_offer''"
| "as_wire_str FileTransferAccept_c = ''file_transfer_accept''"
| "as_wire_str FileTransferReject_c = ''file_transfer_reject''"
| "as_wire_str FileTransferChunk_c = ''file_transfer_chunk''"
| "as_wire_str FileTransferComplete_c = ''file_transfer_complete''"
| "as_wire_str FileTransferAck_c = ''file_transfer_ack''"
| "as_wire_str FileTransferError_c = ''file_transfer_error''"
| "as_wire_str RelayRequest_c = ''relay_request''"
| "as_wire_str RelayGranted_c = ''relay_granted''"
| "as_wire_str RelayRevoke_c = ''relay_revoke''"
| "as_wire_str RelayPaymentRequired_c = ''relay_payment_required''"
| "as_wire_str RelayAccessGranted_c = ''relay_access_granted''"
| "as_wire_str RelayAccessDenied_c = ''relay_access_denied''"
| "as_wire_str SupernodeInfo_c = ''supernode_info''"
| "as_wire_str SupernodeInfoRequest_c = ''supernode_info_request''"
| "as_wire_str PunchRegister_c = ''punch_register''"
| "as_wire_str PunchReady_c = ''punch_ready''"
| "as_wire_str SfuRoomList_c = ''sfu_room_list''"
| "as_wire_str SfuJoin_c = ''sfu_join''"
| "as_wire_str SfuJoinResult_c = ''sfu_join_result''"
| "as_wire_str SfuLeave_c = ''sfu_leave''"
| "as_wire_str SfuMembers_c = ''sfu_members''"
| "as_wire_str SfuPeerJoined_c = ''sfu_peer_joined''"
| "as_wire_str SfuPeerLeft_c = ''sfu_peer_left''"
| "as_wire_str SfuOffer_c = ''sfu_offer''"
| "as_wire_str SfuAnswer_c = ''sfu_answer''"
| "as_wire_str SfuChat_c = ''sfu_chat''"
| "as_wire_str SfuFileOffer_c = ''sfu_file_offer''"
| "as_wire_str SfuFileRequest_c = ''sfu_file_request''"
| "as_wire_str SfuFileRevoke_c = ''sfu_file_revoke''"
| "as_wire_str SfuFileChunk_c = ''sfu_file_chunk''"
| "as_wire_str SfuFileComplete_c = ''sfu_file_complete''"
| "as_wire_str SfuAudio_c = ''sfu_audio''"
| "as_wire_str SfuVideoKeyframeRequest_c = ''sfu_video_keyframe_request''"
| "as_wire_str SfuVideoState_c = ''sfu_video_state''"
| "as_wire_str SfuVideoSubscribe_c = ''sfu_video_subscribe''"
| "as_wire_str SfuGroupKey_c = ''sfu_group_key''"
| "as_wire_str SfuGroupKeyAck_c = ''sfu_group_key_ack''"
| "as_wire_str SpaceRootAnnounce_c = ''space_root_announce''"
| "as_wire_str SfuRoomCreate_c = ''sfu_room_create''"
| "as_wire_str SfuRoomCreated_c = ''sfu_room_created''"
| "as_wire_str SfuRoomInvite_c = ''sfu_room_invite''"
| "as_wire_str SfuRoomInviteResult_c = ''sfu_room_invite_result''"
| "as_wire_str SfuRoomInviteGenerate_c = ''sfu_room_invite_generate''"
| "as_wire_str SfuSubscribe_c = ''sfu_subscribe''"
| "as_wire_str SfuUnsubscribe_c = ''sfu_unsubscribe''"
| "as_wire_str PeerRoomInvite_c = ''peer_room_invite''"
| "as_wire_str TrustRequest_c = ''trust_request''"
| "as_wire_str TrustAccept_c = ''trust_accept''"
| "as_wire_str Ping_c = ''ping''"
| "as_wire_str Pong_c = ''pong''"
| "as_wire_str VersionAnnounce_c = ''version_announce''"
| "as_wire_str BuildAttestation_c = ''build_attestation''"
| "as_wire_str AttestationResponse_c = ''attestation_response''"
| "as_wire_str CapabilityAnnounce_c = ''capability_announce''"
| "as_wire_str CapabilityInvoke_c = ''capability_invoke''"
| "as_wire_str GameRelayJoin_c = ''game_relay_join''"
| "as_wire_str GameRelayLeave_c = ''game_relay_leave''"
| "as_wire_str GameRelayJoined_c = ''game_relay_joined''"
| "as_wire_str Error_c = ''error''"

definition client_types :: "client_type list" where
  "client_types =
    [     Hello_c, Welcome_c, RoomJoin_c, RoomLeave_c, RoomState_c, RoomPeerJoined_c, RoomPeerLeft_c
     , RoomListRequest_c, RoomListResponse_c, InviteHandshakeInit_c, InviteHandshakeAccept_c
     , InviteHandshakeReject_c, EncryptedSignal_c, PresenceUpdate_c, SpeakingState_c, ChatMessage_c, ChatAck_c
     , ChatTyping_c, CallRequest_c, CallAccept_c, CallReject_c, CallEnd_c, EndpointUpdate_c, HandleUpdate_c
     , AvatarConfig_c, FileTransferOffer_c, FileTransferAccept_c, FileTransferReject_c, FileTransferChunk_c
     , FileTransferComplete_c, FileTransferAck_c, FileTransferError_c, RelayRequest_c, RelayGranted_c
     , RelayRevoke_c, RelayPaymentRequired_c, RelayAccessGranted_c, RelayAccessDenied_c, SupernodeInfo_c
     , SupernodeInfoRequest_c, PunchRegister_c, PunchReady_c, SfuRoomList_c, SfuJoin_c, SfuJoinResult_c
     , SfuLeave_c, SfuMembers_c, SfuPeerJoined_c, SfuPeerLeft_c, SfuOffer_c, SfuAnswer_c, SfuChat_c
     , SfuFileOffer_c, SfuFileRequest_c, SfuFileRevoke_c, SfuFileChunk_c, SfuFileComplete_c, SfuAudio_c
     , SfuVideoKeyframeRequest_c, SfuVideoState_c, SfuVideoSubscribe_c, SfuGroupKey_c, SfuGroupKeyAck_c
     , SpaceRootAnnounce_c, SfuRoomCreate_c, SfuRoomCreated_c, SfuRoomInvite_c, SfuRoomInviteResult_c
     , SfuRoomInviteGenerate_c, SfuSubscribe_c, SfuUnsubscribe_c, PeerRoomInvite_c, TrustRequest_c
     , TrustAccept_c, Ping_c, Pong_c, VersionAnnounce_c, BuildAttestation_c, AttestationResponse_c
     , CapabilityAnnounce_c, CapabilityInvoke_c, GameRelayJoin_c, GameRelayLeave_c, GameRelayJoined_c, Error_c]"

definition client_parse_type :: "string \<Rightarrow> client_type option" where
  "client_parse_type s = find (\<lambda>t. as_wire_str t = s) client_types"

lemma find_key:
  assumes "distinct (map f xs)" "x \<in> set xs"
  shows "find (\<lambda>y. f y = f x) xs = Some x"
  using assms by (induction xs) (auto simp: rev_image_eqI)

lemma wire_names_distinct: "distinct (map wire_name message_types)"
  by (simp add: message_types_def)

lemma message_types_all: "t \<in> set message_types"
  by (cases t) (simp_all add: message_types_def)

lemma client_names_distinct: "distinct (map as_wire_str client_types)"
  by (simp add: client_types_def)

lemma client_types_all: "t \<in> set client_types"
  by (cases t) (simp_all add: client_types_def)

lemma parse_wire_name [simp]: "parse_type (wire_name t) = Some t"
  unfolding parse_type_def by (rule find_key [OF wire_names_distinct message_types_all])

lemma client_parse_wire [simp]: "client_parse_type (as_wire_str t) = Some t"
  unfolding client_parse_type_def by (rule find_key [OF client_names_distinct client_types_all])

lemma parse_type_name: "parse_type s = Some t \<Longrightarrow> wire_name t = s"
  by (auto simp: parse_type_def find_Some_iff)

end
