(* ===== verification/Message.thy ===== *)
theory Message
  imports Protocol Replay
begin

text \<open>
  The signed signaling message of the system, once as the supernode has it
  (\<open>conquerd-supernode/src/protocol.rs\<close>) and once as the client has it (\<open>conquerd-client/src/protocol.rs\<close>
  and \<open>verify_inbound_signature\<close> of its connection manager). Both sides sign the JSON of the message
  without its signature, with sorted keys; the two programs build that JSON independently. The clock is
  an argument.
\<close>

section \<open>The supernode's message\<close>

record signaling_message =
  sm_type :: message_type
  sm_sender :: peer_id
  sm_payload :: jvalue
  sm_timestamp :: rat
  sm_target :: "peer_id option"
  sm_signature :: "string option"
  sm_version :: u32
  sm_timestamp_raw :: "jvalue option"

definition new_message :: "rat \<Rightarrow> message_type \<Rightarrow> peer_id \<Rightarrow> jvalue \<Rightarrow> signaling_message" where
  "new_message now t sender payload = \<lparr>sm_type = t, sm_sender = sender, sm_payload = payload, sm_timestamp = now,
     sm_target = None, sm_signature = None, sm_version = PROTOCOL_VERSION, sm_timestamp_raw = None\<rparr>"

definition with_target :: "peer_id \<Rightarrow> signaling_message \<Rightarrow> signaling_message" where
  "with_target i m = m\<lparr>sm_target := Some i\<rparr>"

abbreviation version_value :: "u32 \<Rightarrow> jvalue" where
  "version_value v \<equiv> VNum (NInt (uint v))"

definition opt_entry :: "string \<Rightarrow> string option \<Rightarrow> (string \<times> jvalue) list" where
  "opt_entry k v = (case v of None \<Rightarrow> [] | Some s \<Rightarrow> [(k, VStr s)])"

definition message_canonical :: "json_lib \<Rightarrow> signaling_message \<Rightarrow> bytes" where
  "message_canonical L m =
     (let ts = (case sm_timestamp_raw m of Some v \<Rightarrow> v | None \<Rightarrow> VNum (NFloat (sm_timestamp m)))
      in as_bytes (jl_print L (bt_of ([(''payload'', sm_payload m), (''sender'', VStr (sm_sender m)), (''timestamp'', ts),
             (''type'', VStr (wire_name (sm_type m))), (''v'', version_value (sm_version m))]
           @ opt_entry ''target'' (sm_target m)) [])))"

definition sign_message :: "json_lib \<Rightarrow> crates \<Rightarrow> (bytes \<Rightarrow> bytes) \<Rightarrow> signaling_message \<Rightarrow> signaling_message" where
  "sign_message L C sign m = m\<lparr>sm_signature := Some (cr_b64_encode C (sign (message_canonical L m)))\<rparr>"

definition message_verify :: "json_lib \<Rightarrow> crates \<Rightarrow> signaling_message \<Rightarrow> bool" where
  "message_verify L C m =
     (case sm_signature m of
        None \<Rightarrow> False
      | Some sig_b64 \<Rightarrow> signed_by C (sm_sender m) sig_b64 (message_canonical L m))"

definition is_fresh :: "rat \<Rightarrow> rat \<Rightarrow> signaling_message \<Rightarrow> bool" where
  "is_fresh now max_age_secs m \<longleftrightarrow> \<bar>now - sm_timestamp m\<bar> \<le> max_age_secs"

definition message_to_json :: "json_lib \<Rightarrow> signaling_message \<Rightarrow> string" where
  "message_to_json L m =
     jl_print L (bt_of ([(''type'', VStr (wire_name (sm_type m))), (''sender'', VStr (sm_sender m)),
         (''payload'', sm_payload m), (''timestamp'', VNum (NFloat (sm_timestamp m))), (''v'', version_value (sm_version m))]
       @ opt_entry ''target'' (sm_target m) @ opt_entry ''signature'' (sm_signature m)) [])"

definition message_from_json :: "json_lib \<Rightarrow> string \<Rightarrow> signaling_message option" where
  "message_from_json L raw =
     (case jl_parse L raw of
        None \<Rightarrow> None
      | Some v \<Rightarrow>
          if \<not> is_object v then None
          else case get_str ''type'' v of
            None \<Rightarrow> None
          | Some tn \<Rightarrow>
              (case parse_type tn of
                 None \<Rightarrow> None
               | Some t \<Rightarrow>
                   Some \<lparr>sm_type = t,
                     sm_sender = get_str_or [] ''sender'' v,
                     sm_payload = (case jget ''payload'' v of Some p \<Rightarrow> p | None \<Rightarrow> VObj []),
                     sm_timestamp = (case jget ''timestamp'' v of None \<Rightarrow> 0 | Some ts \<Rightarrow> (case as_f64 ts of Some r \<Rightarrow> r | None \<Rightarrow> 0)),
                     sm_target = get_str ''target'' v,
                     sm_signature = get_str ''signature'' v,
                     sm_version = (case jget ''v'' v of
                        Some n \<Rightarrow> (case as_u64 n of Some w \<Rightarrow> ucast w | None \<Rightarrow> PROTOCOL_VERSION)
                      | None \<Rightarrow> PROTOCOL_VERSION),
                     sm_timestamp_raw = jget ''timestamp'' v\<rparr>))"

section \<open>The client's message\<close>

text \<open>The payload of the client is a \<open>BTreeMap\<close>.\<close>

record client_message =
  cm_type :: client_type
  cm_sender :: peer_id
  cm_payload :: "(string \<times> jvalue) list"
  cm_timestamp :: rat
  cm_target :: "peer_id option"
  cm_signature :: "string option"
  cm_version :: u32

definition client_new_message :: "rat \<Rightarrow> client_type \<Rightarrow> peer_id \<Rightarrow> client_message" where
  "client_new_message now t sender = \<lparr>cm_type = t, cm_sender = sender, cm_payload = [], cm_timestamp = now,
     cm_target = None, cm_signature = None, cm_version = PROTOCOL_VERSION\<rparr>"

definition client_canonical :: "json_lib \<Rightarrow> client_message \<Rightarrow> bytes" where
  "client_canonical L m =
     as_bytes (jl_print L (bt_of ([(''type'', VStr (as_wire_str (cm_type m))), (''sender'', VStr (cm_sender m)),
         (''payload'', VObj (cm_payload m)), (''timestamp'', VNum (NFloat (cm_timestamp m))), (''v'', version_value (cm_version m))]
       @ opt_entry ''target'' (cm_target m)) []))"

text \<open>Serde writes the fields of the struct in order and leaves out absent options.\<close>

definition client_to_json :: "json_lib \<Rightarrow> client_message \<Rightarrow> string" where
  "client_to_json L m =
     jl_print L ([(''type'', VStr (as_wire_str (cm_type m))), (''sender'', VStr (cm_sender m)),
         (''payload'', VObj (cm_payload m)), (''timestamp'', VNum (NFloat (cm_timestamp m)))]
       @ opt_entry ''target'' (cm_target m) @ opt_entry ''signature'' (cm_signature m) @ [(''v'', version_value (cm_version m))])"

text \<open>
  A derived reader: \<open>type\<close> and \<open>sender\<close> are required, the rest has defaults, and a field of the wrong
  type is an error. Absent options may also be written as \<open>null\<close>.
\<close>

definition opt_string_field :: "string \<Rightarrow> jvalue \<Rightarrow> string option option" where
  "opt_string_field k v =
     (case jget k v of None \<Rightarrow> Some None | Some VNull \<Rightarrow> Some None | Some (VStr s) \<Rightarrow> Some (Some s) | Some _ \<Rightarrow> None)"

definition payload_field :: "jvalue \<Rightarrow> (string \<times> jvalue) list option" where
  "payload_field v = (case jget ''payload'' v of None \<Rightarrow> Some [] | Some (VObj m) \<Rightarrow> Some m | Some _ \<Rightarrow> None)"

definition timestamp_field :: "rat \<Rightarrow> jvalue \<Rightarrow> rat option" where
  "timestamp_field now v = (case jget ''timestamp'' v of None \<Rightarrow> Some now | Some ts \<Rightarrow> as_f64 ts)"

definition version_field :: "jvalue \<Rightarrow> u32 option" where
  "version_field v =
     (case jget ''v'' v of
        None \<Rightarrow> Some PROTOCOL_VERSION
      | Some (VNum (NInt i)) \<Rightarrow> if 0 \<le> i \<and> i < 2 ^ 32 then Some (word_of_int i) else None
      | Some _ \<Rightarrow> None)"

definition client_from_json :: "json_lib \<Rightarrow> rat \<Rightarrow> string \<Rightarrow> client_message option" where
  "client_from_json L now raw =
     (case jl_parse L raw of
        None \<Rightarrow> None
      | Some v \<Rightarrow>
          if \<not> is_object v then None
          else case (get_str ''type'' v, get_str ''sender'' v, payload_field v, timestamp_field now v) of
            (Some tn, Some sender, Some payload, Some ts) \<Rightarrow>
              (case (client_parse_type tn, opt_string_field ''target'' v, opt_string_field ''signature'' v, version_field v) of
                 (Some t, Some target, Some signature, Some ver) \<Rightarrow>
                   Some \<lparr>cm_type = t, cm_sender = sender, cm_payload = payload, cm_timestamp = ts, cm_target = target,
                         cm_signature = signature, cm_version = ver\<rparr>
               | _ \<Rightarrow> None)
          | _ \<Rightarrow> None)"

definition client_is_fresh :: "rat \<Rightarrow> rat \<Rightarrow> client_message \<Rightarrow> bool" where
  "client_is_fresh now max_age_secs m \<longleftrightarrow> \<bar>now - cm_timestamp m\<bar> \<le> max_age_secs"

definition client_sign :: "json_lib \<Rightarrow> crates \<Rightarrow> (bytes \<Rightarrow> bytes) \<Rightarrow> client_message \<Rightarrow> client_message" where
  "client_sign L C sign m = m\<lparr>cm_signature := Some (cr_b64_encode C (sign (client_canonical L m)))\<rparr>"

definition MAX_MESSAGE_AGE_SECS :: rat where "MAX_MESSAGE_AGE_SECS = 300"

definition verify_inbound_signature :: "json_lib \<Rightarrow> crates \<Rightarrow> rat \<Rightarrow> client_message \<Rightarrow> bool" where
  "verify_inbound_signature L C now m =
     (case cm_signature m of
        None \<Rightarrow> False
      | Some sig_b64 \<Rightarrow>
          signed_by C (cm_sender m) sig_b64 (client_canonical L m) \<and> client_is_fresh now MAX_MESSAGE_AGE_SECS m)"

section \<open>The wire object\<close>

text \<open>The object all four writers produce, in key order.\<close>

definition wire_fields :: "jvalue \<Rightarrow> peer_id \<Rightarrow> string option \<Rightarrow> peer_id option \<Rightarrow> jvalue \<Rightarrow> string \<Rightarrow> u32 \<Rightarrow> (string \<times> jvalue) list" where
  "wire_fields payload sender sig target ts tn v =
     [(''payload'', payload), (''sender'', VStr sender)] @ opt_entry ''signature'' sig @ opt_entry ''target'' target @
     [(''timestamp'', ts), (''type'', VStr tn), (''v'', version_value v)]"

lemma bt_wire:
  "bt_of ([(''payload'', p), (''sender'', VStr s), (''timestamp'', ts), (''type'', VStr tn), (''v'', version_value v)]
     @ opt_entry ''target'' tgt) [] = wire_fields p s None tgt ts tn v"
  "bt_of ([(''type'', VStr tn), (''sender'', VStr s), (''payload'', p), (''timestamp'', ts), (''v'', version_value v)]
     @ opt_entry ''target'' tgt) [] = wire_fields p s None tgt ts tn v"
  "bt_of ([(''type'', VStr tn), (''sender'', VStr s), (''payload'', p), (''timestamp'', ts), (''v'', version_value v)]
     @ opt_entry ''target'' tgt @ opt_entry ''signature'' sig) [] = wire_fields p s sig tgt ts tn v"
  "bt_of ([(''type'', VStr tn), (''sender'', VStr s), (''payload'', p), (''timestamp'', ts)]
     @ opt_entry ''target'' tgt @ opt_entry ''signature'' sig @ [(''v'', version_value v)]) [] = wire_fields p s sig tgt ts tn v"
  by (cases tgt; cases sig; simp add: wire_fields_def opt_entry_def less_char_def)+

lemma wire_keys: "distinct (map fst (wire_fields p s sig tgt ts tn v))" "sorted_wrt (<) (map fst (wire_fields p s sig tgt ts tn v))"
  by (cases sig; cases tgt; simp add: wire_fields_def opt_entry_def less_char_def)+

lemma wire_get [simp]:
  "map_of (wire_fields p s sig tgt ts tn v) ''payload'' = Some p"
  "map_of (wire_fields p s sig tgt ts tn v) ''sender'' = Some (VStr s)"
  "map_of (wire_fields p s sig tgt ts tn v) ''signature'' = map_option VStr sig"
  "map_of (wire_fields p s sig tgt ts tn v) ''target'' = map_option VStr tgt"
  "map_of (wire_fields p s sig tgt ts tn v) ''timestamp'' = Some ts"
  "map_of (wire_fields p s sig tgt ts tn v) ''type'' = Some (VStr tn)"
  "map_of (wire_fields p s sig tgt ts tn v) ''v'' = Some (version_value v)"
  by (cases sig; cases tgt; simp add: wire_fields_def opt_entry_def)+

lemma bt_of_sorted_id:
  assumes "sorted_wrt (<) (map fst m)"
  shows "bt_of m [] = m"
proof -
  have ins: "bt_insert k v xs = xs @ [(k, v)]" if "\<forall>x \<in> set (map fst xs). x < k" for k :: string and v :: 'a and xs
    using that by (induction xs) auto
  have "bt_of m acc = acc @ m" if "sorted_wrt (<) (map fst (acc @ m))" for acc m :: "(string \<times> 'a) list"
    using that
  proof (induction m arbitrary: acc)
    case (Cons e m)
    obtain k v where e: "e = (k, v)" by (cases e)
    have "bt_insert k v acc = acc @ [(k, v)]"
      by (rule ins) (use Cons.prems in \<open>auto simp: e sorted_wrt_append\<close>)
    with Cons.IH [of "acc @ [(k, v)]"] Cons.prems show ?case by (simp add: e)
  qed simp
  from this [of "[]" m] assms show ?thesis by simp
qed

lemma wire_canon: "jcanon p \<Longrightarrow> jcanon ts \<Longrightarrow> \<forall>kv \<in> set (wire_fields p s sig tgt ts tn v). jcanon (snd kv)"
  by (cases sig; cases tgt; simp add: wire_fields_def opt_entry_def)

lemma parse_wire:
  "json_ok L \<Longrightarrow> jcanon p \<Longrightarrow> jcanon ts \<Longrightarrow>
     jl_parse L (jl_print L (wire_fields p s sig tgt ts tn v)) = Some (VObj (wire_fields p s sig tgt ts tn v))"
  using wire_keys [of p s sig tgt ts tn v] wire_canon [of p ts s sig tgt tn v]
  by (simp add: json_ok_def jobj_def bt_of_sorted_id)

lemma parse_client_wire:
  assumes "json_ok L" "jcanon (VObj (cm_payload m))"
  shows "jl_parse L (client_to_json L m) =
    Some (VObj (wire_fields (VObj (cm_payload m)) (cm_sender m) (cm_signature m) (cm_target m)
      (VNum (NFloat (cm_timestamp m))) (as_wire_str (cm_type m)) (cm_version m)))"
proof -
  let ?fs = "[(''type'', VStr (as_wire_str (cm_type m))), (''sender'', VStr (cm_sender m)),
         (''payload'', VObj (cm_payload m)), (''timestamp'', VNum (NFloat (cm_timestamp m)))]
       @ opt_entry ''target'' (cm_target m) @ opt_entry ''signature'' (cm_signature m) @ [(''v'', version_value (cm_version m))]"
  have "distinct (map fst ?fs)" "\<forall>kv \<in> set ?fs. jcanon (snd kv)"
    using assms(2) by (cases "cm_target m"; cases "cm_signature m"; simp add: opt_entry_def)+
  then have "jl_parse L (client_to_json L m) = Some (jobj ?fs)"
    using assms(1) unfolding client_to_json_def json_ok_def by blast
  then show ?thesis unfolding jobj_def bt_wire(4) .
qed

lemma version_back [simp]:
  "ucast (ucast v :: u64) = (v :: u32)" "uint (v :: u32) < 18446744073709551616" "uint (v :: u32) < 4294967296"
proof -
  have lt: "uint v < 2 ^ 32" using uint_lt2p [of v] by simp
  then show "uint v < 18446744073709551616" "uint v < 4294967296" by simp_all
  show "ucast (ucast v :: u64) = v" by (rule bit_word_eqI) (auto simp: bit_simps)
qed

lemma get_str_wire [simp]:
  "get_str ''sender'' (VObj (wire_fields p s sig tgt ts tn v)) = Some s"
  "get_str ''type'' (VObj (wire_fields p s sig tgt ts tn v)) = Some tn"
  "get_str ''target'' (VObj (wire_fields p s sig tgt ts tn v)) = tgt"
  "get_str ''signature'' (VObj (wire_fields p s sig tgt ts tn v)) = sig"
  by (cases tgt; cases sig; simp add: get_str_def)+

lemma message_of_wire:
  assumes "jl_parse L raw = Some (VObj (wire_fields p s sig tgt (VNum (NFloat ts)) (wire_name t) v))"
  shows "message_from_json L raw = Some \<lparr>sm_type = t, sm_sender = s, sm_payload = p, sm_timestamp = ts, sm_target = tgt,
    sm_signature = sig, sm_version = v, sm_timestamp_raw = Some (VNum (NFloat ts))\<rparr>"
  using assms by (simp add: message_from_json_def get_str_or_def)

lemma client_of_wire:
  assumes "jl_parse L raw = Some (VObj (wire_fields (VObj p) s sig tgt (VNum (NFloat ts)) (as_wire_str t) v))"
  shows "client_from_json L now raw = Some \<lparr>cm_type = t, cm_sender = s, cm_payload = p, cm_timestamp = ts, cm_target = tgt,
    cm_signature = sig, cm_version = v\<rparr>"
  using assms by (cases sig; cases tgt)
    (simp_all add: client_from_json_def payload_field_def timestamp_field_def opt_string_field_def version_field_def)

lemma canonical_wire:
  "message_canonical L m = as_bytes (jl_print L (wire_fields (sm_payload m) (sm_sender m) None (sm_target m)
     (case sm_timestamp_raw m of Some v \<Rightarrow> v | None \<Rightarrow> VNum (NFloat (sm_timestamp m))) (wire_name (sm_type m)) (sm_version m)))"
  unfolding message_canonical_def Let_def bt_wire ..

lemma client_canonical_wire:
  "client_canonical L m = as_bytes (jl_print L (wire_fields (VObj (cm_payload m)) (cm_sender m) None (cm_target m)
     (VNum (NFloat (cm_timestamp m))) (as_wire_str (cm_type m)) (cm_version m)))"
  unfolding client_canonical_def bt_wire ..

lemma message_wire: "message_to_json L m = jl_print L (wire_fields (sm_payload m) (sm_sender m) (sm_signature m) (sm_target m)
     (VNum (NFloat (sm_timestamp m))) (wire_name (sm_type m)) (sm_version m))"
  unfolding message_to_json_def bt_wire ..

text \<open>
  C8. Client and supernode agree on the wire. A message a client signs and sends parses on the
  supernode to a message with the same type, sender, payload, timestamp, target and version, and its
  signature verifies there, although the two programs compute the signed bytes separately; the same
  holds for a message of the supernode on a client while it is fresh. And the signed bytes determine
  the message: two messages with equal signed bytes agree in all of these fields.
\<close>

theorem message_wire_interop:
  assumes "json_ok L" "reads_b64 C S \<and> reads_b64 S C" "jcanon (VObj payload)" "wire_name t = as_wire_str ct"
    and "cm = \<lparr>cm_type = ct, cm_sender = sender, cm_payload = payload, cm_timestamp = ts, cm_target = tgt, cm_signature = None, cm_version = v\<rparr>"
    and "sm = \<lparr>sm_type = t, sm_sender = sender, sm_payload = VObj payload, sm_timestamp = ts, sm_target = tgt, sm_signature = None,
      sm_version = v, sm_timestamp_raw = None\<rparr>"
    and "signs_for C sender sign \<and> signs_for S sender sign" "\<bar>now - ts\<bar> \<le> MAX_MESSAGE_AGE_SECS"
  shows "(\<exists>m. message_from_json L (client_to_json L (client_sign L C sign cm)) = Some m \<and> message_verify L S m \<and>
      sm_type m = t \<and> sm_sender m = sender \<and> sm_payload m = VObj payload \<and> sm_timestamp m = ts \<and> sm_target m = tgt \<and> sm_version m = v) \<and>
    (\<exists>m. client_from_json L now (message_to_json L (sign_message L S sign sm)) = Some m \<and> verify_inbound_signature L C now m \<and>
      cm_type m = ct \<and> cm_sender m = sender \<and> cm_payload m = payload \<and> cm_timestamp m = ts \<and> cm_target m = tgt \<and> cm_version m = v) \<and>
    (\<forall>m. jcanon (sm_payload m) \<and> sm_timestamp_raw m = None \<and> message_canonical L m = message_canonical L sm \<longrightarrow>
      sm_type m = t \<and> sm_sender m = sender \<and> sm_payload m = VObj payload \<and> sm_timestamp m = ts \<and> sm_target m = tgt \<and> sm_version m = v)"
proof (intro conjI)
  let ?ts = "VNum (NFloat ts)"
  have same: "client_canonical L cm = message_canonical L sm"
    unfolding canonical_wire client_canonical_wire by (simp add: assms(4-6))
  define sig where "sig = Some (cr_b64_encode C (sign (message_canonical L sm)))"
  define sig' where "sig' = Some (cr_b64_encode S (sign (message_canonical L sm)))"
  have ok: "signed_by S sender (cr_b64_encode C (sign (message_canonical L sm))) (message_canonical L sm)"
    "signed_by C sender (cr_b64_encode S (sign (message_canonical L sm))) (message_canonical L sm)"
    using assms(2,7) by (simp_all add: signed_by_written)
  have csig: "client_sign L C sign cm = cm\<lparr>cm_signature := sig\<rparr>" by (simp add: client_sign_def sig_def same)
  have "jl_parse L (client_to_json L (client_sign L C sign cm)) = Some (VObj (wire_fields (VObj payload) sender sig tgt ?ts (wire_name t) v))"
    unfolding csig using parse_client_wire [OF assms(1), of "cm\<lparr>cm_signature := sig\<rparr>"] assms(3-5) by simp
  from message_of_wire [OF this]
  show "\<exists>m. message_from_json L (client_to_json L (client_sign L C sign cm)) = Some m \<and> message_verify L S m \<and>
      sm_type m = t \<and> sm_sender m = sender \<and> sm_payload m = VObj payload \<and> sm_timestamp m = ts \<and> sm_target m = tgt \<and> sm_version m = v"
    using ok by (simp add: message_verify_def sig_def canonical_wire assms(6))
  have ssig: "sign_message L S sign sm = sm\<lparr>sm_signature := sig'\<rparr>" by (simp add: sign_message_def sig'_def)
  have "jl_parse L (message_to_json L (sign_message L S sign sm)) = Some (VObj (wire_fields (VObj payload) sender sig' tgt ?ts (as_wire_str ct) v))"
    using parse_wire [OF assms(1,3), of ?ts sender sig' tgt "wire_name t" v] assms(4,6) unfolding ssig message_wire by simp
  from client_of_wire [OF this, of now]
  show "\<exists>m. client_from_json L now (message_to_json L (sign_message L S sign sm)) = Some m \<and> verify_inbound_signature L C now m \<and>
      cm_type m = ct \<and> cm_sender m = sender \<and> cm_payload m = payload \<and> cm_timestamp m = ts \<and> cm_target m = tgt \<and> cm_version m = v"
    using ok assms(8) same by (simp add: verify_inbound_signature_def sig'_def client_canonical_wire client_is_fresh_def assms(5))
  show "\<forall>m. jcanon (sm_payload m) \<and> sm_timestamp_raw m = None \<and> message_canonical L m = message_canonical L sm \<longrightarrow>
      sm_type m = t \<and> sm_sender m = sender \<and> sm_payload m = VObj payload \<and> sm_timestamp m = ts \<and> sm_target m = tgt \<and> sm_version m = v"
  proof (intro allI impI)
    fix m assume m: "jcanon (sm_payload m) \<and> sm_timestamp_raw m = None \<and> message_canonical L m = message_canonical L sm"
    let ?f = "wire_fields (sm_payload m) (sm_sender m) None (sm_target m) (VNum (NFloat (sm_timestamp m))) (wire_name (sm_type m)) (sm_version m)"
    let ?g = "wire_fields (VObj payload) sender None tgt ?ts (wire_name t) v"
    have "jl_print L ?f = jl_print L ?g" using m by (auto simp: canonical_wire assms(6) inj_as_bytes)
    then have "Some (VObj ?f) = Some (VObj ?g)"
      using parse_wire [OF assms(1), of "sm_payload m"] parse_wire [OF assms(1,3)] m by (metis jcanon.simps(5))
    then have eq: "?f = ?g" by simp
    have "parse_type (wire_name (sm_type m)) = parse_type (wire_name t)"
      using arg_cong [OF eq, of "\<lambda>w. get_str ''type'' (VObj w)"] by simp
    moreover have "sm_target m = tgt" using arg_cong [OF eq, of "\<lambda>w. get_str ''target'' (VObj w)"] by simp
    moreover have "uint (sm_version m) = uint v" using arg_cong [OF eq, of "\<lambda>w. map_of w ''v''"] by simp
    ultimately show "sm_type m = t \<and> sm_sender m = sender \<and> sm_payload m = VObj payload \<and> sm_timestamp m = ts \<and> sm_target m = tgt \<and> sm_version m = v"
      using arg_cong [OF eq, of "\<lambda>w. map_of w ''payload''"] arg_cong [OF eq, of "\<lambda>w. map_of w ''sender''"]
        arg_cong [OF eq, of "\<lambda>w. map_of w ''timestamp''"] by (simp add: word_uint_eq_iff)
  qed
qed

theorem message_wire_interop_witness:
  "\<exists>m. message_from_json plain_json (client_to_json plain_json (client_sign plain_json plain_crates (\<lambda>_. replicate 64 0)
       \<lparr>cm_type = SfuChat_c, cm_sender = plain_signer, cm_payload = [(''body'', VStr ''hi'')], cm_timestamp = 5, cm_target = None,
        cm_signature = None, cm_version = PROTOCOL_VERSION\<rparr>)) = Some m \<and>
     message_verify plain_json plain_crates m \<and> sm_type m = SfuChat"
  using message_wire_interop [OF plain_json_ok _ _ _ refl refl conjI [OF plain_signs_for plain_signs_for],
      of "[(''body'', VStr ''hi'')]" SfuChat SfuChat_c 5 5 None PROTOCOL_VERSION]
  by (auto simp: MAX_MESSAGE_AGE_SECS_def crates_reads plain_crates_ok)

end
