(* ===== verification/Signaling.thy ===== *)
theory Signaling
  imports Message
begin

text \<open>
  The WebSocket signaling server of a supernode, \<open>conquerd-supernode/src/signaling.rs\<close>: the byte-bounded
  write queue of a peer, the pacing of file frames, the routing tables with their aliases, and the
  pipeline every inbound frame goes through (size, rate, signature, freshness, replay, registration,
  relay). A channel is known by a number. Sockets, TLS and task scheduling are not modelled; the wall
  clock and the monotonic clock are arguments.
\<close>

section \<open>File frames\<close>

definition is_bulk_file_data :: "message_type \<Rightarrow> bool" where
  "is_bulk_file_data mt \<longleftrightarrow> mt \<in> {FileTransferChunk, FileTransferComplete, SfuFileChunk, SfuFileComplete}"

definition FILE_FRAMES_PER_SEC :: rat where "FILE_FRAMES_PER_SEC = 200"
definition FILE_FRAME_BURST :: rat where "FILE_FRAME_BURST = 400"

record file_limiter =
  fl_tokens :: rat
  fl_last_refill :: instant

definition new_file_limiter :: "instant \<Rightarrow> file_limiter" where
  "new_file_limiter now = \<lparr>fl_tokens = FILE_FRAME_BURST, fl_last_refill = now\<rparr>"

definition secs_between :: "instant \<Rightarrow> instant \<Rightarrow> rat" where
  "secs_between a b = of_nat (b - a) / 1000000000"

definition fl_refill :: "instant \<Rightarrow> file_limiter \<Rightarrow> file_limiter" where
  "fl_refill now l =
     (let elapsed = secs_between (fl_last_refill l) now
      in l\<lparr>fl_last_refill := now, fl_tokens := min (fl_tokens l + elapsed * FILE_FRAMES_PER_SEC) FILE_FRAME_BURST\<rparr>)"

text \<open>The time \<open>admit\<close> sleeps when called now, in seconds.\<close>

definition admit_wait :: "instant \<Rightarrow> file_limiter \<Rightarrow> rat" where
  "admit_wait now l =
     (let l1 = fl_refill now l in if fl_tokens l1 < 1 then (1 - fl_tokens l1) / FILE_FRAMES_PER_SEC else 0)"

text \<open>\<open>wake\<close> is the time at which the sleep is over.\<close>

definition admit :: "instant \<Rightarrow> instant \<Rightarrow> file_limiter \<Rightarrow> file_limiter" where
  "admit now wake l =
     (let l1 = fl_refill now l;
          l2 = (if fl_tokens l1 < 1 then fl_refill wake l1 else l1)
      in l2\<lparr>fl_tokens := max (fl_tokens l2 - 1) 0\<rparr>)"

section \<open>The write queue of a peer\<close>

definition PEER_QUEUE_MAX_BYTES :: nat where "PEER_QUEUE_MAX_BYTES = 8 * 1024 * 1024"

record peer_queue =
  pq_items :: "string list"
  pq_queued :: nat
  pq_overflow :: bool
  pq_closed :: bool

definition peer_channel :: peer_queue where
  "peer_channel = \<lparr>pq_items = [], pq_queued = 0, pq_overflow = False, pq_closed = False\<rparr>"

definition peer_tx_send :: "string \<Rightarrow> peer_queue \<Rightarrow> bool \<times> peer_queue" where
  "peer_tx_send json q =
     (if pq_queued q + length json > PEER_QUEUE_MAX_BYTES then (False, q\<lparr>pq_overflow := True\<rparr>)
      else if pq_closed q then (False, q)
      else (True, q\<lparr>pq_items := pq_items q @ [json], pq_queued := pq_queued q + length json\<rparr>))"

datatype recv_result = RecvEnd | RecvFrame string | RecvPending

definition peer_rx_recv :: "peer_queue \<Rightarrow> recv_result \<times> peer_queue" where
  "peer_rx_recv q =
     (if pq_overflow q then (RecvEnd, q\<lparr>pq_overflow := False\<rparr>)
      else case pq_items q of
        [] \<Rightarrow> (RecvPending, q)
      | json # rest \<Rightarrow> (RecvFrame json, q\<lparr>pq_items := rest, pq_queued := pq_queued q - length json\<rparr>))"

section \<open>Routing tables\<close>

definition identity_key_variants :: "peer_id \<Rightarrow> peer_id list" where
  "identity_key_variants i =
     (let canon = normalize_public_id i; b = trim_end (CHR ''='') i
      in [i] @ (if canon \<noteq> i then [canon] else []) @ (if b \<noteq> i then [b] else []))"

record sig_state =
  sg_sockets :: "peer_id \<rightharpoonup> nat"
  sg_aliases :: "string \<rightharpoonup> peer_id"
  sg_quic :: "peer_id \<rightharpoonup> nat"
  sg_connected :: nat

definition new_sig_state :: sig_state where
  "new_sig_state = \<lparr>sg_sockets = Map.empty, sg_aliases = Map.empty, sg_quic = Map.empty, sg_connected = 0\<rparr>"

fun first_some :: "('a \<Rightarrow> 'b option) \<Rightarrow> 'a list \<Rightarrow> 'b option" where
  "first_some f [] = None"
| "first_some f (x # xs) = (case f x of Some y \<Rightarrow> Some y | None \<Rightarrow> first_some f xs)"

definition socket_for_target :: "peer_id \<Rightarrow> sig_state \<Rightarrow> nat option" where
  "socket_for_target target st =
     (case first_some (sg_sockets st) (identity_key_variants target) of
        Some tx \<Rightarrow> Some tx
      | None \<Rightarrow> (case sg_aliases st target of None \<Rightarrow> None | Some canonical \<Rightarrow> sg_sockets st canonical))"

definition remove_peer_socket :: "peer_id \<Rightarrow> sig_state \<Rightarrow> sig_state" where
  "remove_peer_socket key st =
     st\<lparr>sg_sockets := (sg_sockets st)(key := None), sg_aliases := retain (\<lambda>_ canonical. canonical \<noteq> key) (sg_aliases st)\<rparr>"

definition derive_peer_id :: "crates \<Rightarrow> bytes \<Rightarrow> string" where
  "derive_peer_id C public_key = sha256_hex C public_key"

definition peer_id_alias_for :: "crates \<Rightarrow> peer_id \<Rightarrow> string option" where
  "peer_id_alias_for C sender =
     (case b64_decode C sender of
        Inl _ \<Rightarrow> None
      | Inr bs \<Rightarrow> if length bs \<noteq> 32 then None else Some (derive_peer_id C bs))"

section \<open>Sending\<close>

type_synonym channels = "nat \<Rightarrow> peer_queue"

definition chan_send :: "nat \<Rightarrow> string \<Rightarrow> channels \<Rightarrow> bool \<times> channels" where
  "chan_send c json chs = (let (ok, q) = peer_tx_send json (chs c) in (ok, chs(c := q)))"

definition try_chan :: "nat option \<Rightarrow> string \<Rightarrow> channels \<Rightarrow> bool \<times> channels" where
  "try_chan c json chs = (case c of None \<Rightarrow> (False, chs) | Some c \<Rightarrow> chan_send c json chs)"

fun send_keys :: "sig_state \<Rightarrow> peer_id list \<Rightarrow> string \<Rightarrow> channels \<Rightarrow> bool \<times> channels" where
  "send_keys st [] json chs = (False, chs)"
| "send_keys st (key # keys) json chs =
     (let (ok, chs1) = try_chan (sg_quic st key) json chs in
      if ok then (True, chs1)
      else let (ok2, chs2) = try_chan (sg_sockets st key) json chs1 in
        if ok2 then (True, chs2) else send_keys st keys json chs2)"

definition send_to_peer :: "sig_state \<Rightarrow> peer_id \<Rightarrow> string \<Rightarrow> channels \<Rightarrow> bool \<times> channels" where
  "send_to_peer st i json chs = send_keys st (identity_key_variants i) json chs"

fun send_sockets :: "sig_state \<Rightarrow> peer_id list \<Rightarrow> string \<Rightarrow> channels \<Rightarrow> bool \<times> channels" where
  "send_sockets st [] json chs = (False, chs)"
| "send_sockets st (key # keys) json chs =
     (let (ok, chs1) = try_chan (sg_sockets st key) json chs in if ok then (True, chs1) else send_sockets st keys json chs1)"

definition send_bootstrap_to_peer :: "sig_state \<Rightarrow> peer_id \<Rightarrow> string \<Rightarrow> channels \<Rightarrow> bool \<times> channels" where
  "send_bootstrap_to_peer st i json chs =
     (let (ok, chs1) = send_sockets st (identity_key_variants i) json chs in
      if ok then (True, chs1) else send_to_peer st i json chs1)"

definition register_quic_sender :: "peer_id \<Rightarrow> nat \<Rightarrow> sig_state \<Rightarrow> sig_state" where
  "register_quic_sender i tx st = st\<lparr>sg_quic := (sg_quic st)(i \<mapsto> tx)\<rparr>"

definition unregister_quic_sender :: "peer_id \<Rightarrow> nat \<Rightarrow> sig_state \<Rightarrow> sig_state" where
  "unregister_quic_sender i tx st = (if sg_quic st i = Some tx then st\<lparr>sg_quic := (sg_quic st)(i := None)\<rparr> else st)"

definition is_peer_connected :: "peer_id \<Rightarrow> sig_state \<Rightarrow> bool" where
  "is_peer_connected i st \<longleftrightarrow> (\<exists>key \<in> set (identity_key_variants i). sg_sockets st key \<noteq> None \<or> sg_quic st key \<noteq> None)"

definition signaling_peer_ids :: "sig_state \<Rightarrow> peer_id set" where
  "signaling_peer_ids st = dom (sg_sockets st)"

section \<open>Inbound frames\<close>

definition MAX_FRAME :: nat where "MAX_FRAME = 262144"
definition FRESHNESS_SECS :: rat where "FRESHNESS_SECS = 300"
definition RATE_MAX :: nat where "RATE_MAX = 60"
definition RATE_WINDOW_SECS :: nat where "RATE_WINDOW_SECS = 10"

text \<open>Run the replay guard on a parsed message; a message without signature is refused.\<close>

definition guard_message :: "instant \<Rightarrow> signaling_message \<Rightarrow> replay_guard \<Rightarrow> bool \<times> replay_guard" where
  "guard_message now m g =
     (case sm_signature m of
        None \<Rightarrow> (False, g)
      | Some sig \<Rightarrow> check_and_record_at (sm_sender m) (as_bytes sig) now g)"

text \<open>The pipeline of the QUIC signaling stream.\<close>

definition accept_signed :: "json_lib \<Rightarrow> crates \<Rightarrow> rat \<Rightarrow> instant \<Rightarrow> string \<Rightarrow> replay_guard \<Rightarrow> signaling_message option \<times> replay_guard" where
  "accept_signed L C unix_now now raw g =
     (if length raw > MAX_FRAME then (None, g)
      else case message_from_json L raw of
        None \<Rightarrow> (None, g)
      | Some m \<Rightarrow>
          if \<not> message_verify L C m \<or> \<not> is_fresh unix_now FRESHNESS_SECS m then (None, g)
          else let (fresh, g1) = guard_message now m g in (if fresh then Some m else None, g1))"

record ws_conn =
  wc_tx :: nat
  wc_peer :: "peer_id option"
  wc_rate_count :: nat
  wc_rate_start :: instant
  wc_limiter :: file_limiter

definition new_ws_conn :: "nat \<Rightarrow> instant \<Rightarrow> ws_conn" where
  "new_ws_conn tx now = \<lparr>wc_tx = tx, wc_peer = None, wc_rate_count = 0, wc_rate_start = now, wc_limiter = new_file_limiter now\<rparr>"

text \<open>The rate decision: whether the frame goes on, and the connection afterwards.\<close>

definition rate_check :: "instant \<Rightarrow> instant \<Rightarrow> message_type \<Rightarrow> ws_conn \<Rightarrow> bool \<times> ws_conn" where
  "rate_check now wake mt conn =
     (if is_bulk_file_data mt then (True, conn\<lparr>wc_limiter := admit now wake (wc_limiter conn)\<rparr>)
      else if mt \<noteq> SfuAudio then
        let conn1 = (if (now - wc_rate_start conn) div 1000000000 \<ge> RATE_WINDOW_SECS
                     then conn\<lparr>wc_rate_start := now, wc_rate_count := 0\<rparr> else conn);
            conn2 = conn1\<lparr>wc_rate_count := wc_rate_count conn1 + 1\<rparr>
        in (wc_rate_count conn2 \<le> RATE_MAX, conn2)
      else (True, conn))"

datatype sig_out = OnPeerConnected peer_id | RelayTo nat string | OnMessage signaling_message string | OnPeerDisconnected peer_id

definition register_socket :: "crates \<Rightarrow> peer_id \<Rightarrow> nat \<Rightarrow> sig_state \<Rightarrow> sig_state" where
  "register_socket C sender tx st =
     st\<lparr>sg_sockets := (sg_sockets st)(sender \<mapsto> tx),
        sg_aliases := (case peer_id_alias_for C sender of None \<Rightarrow> sg_aliases st | Some a \<Rightarrow> (sg_aliases st)(a \<mapsto> sender)),
        sg_connected := (if sg_sockets st sender = None then sg_connected st + 1 else sg_connected st)\<rparr>"

record sig_clock =
  ck_unix :: rat
  ck_now :: instant
  ck_wake :: instant

definition replay_exempt :: "message_type \<Rightarrow> bool" where
  "replay_exempt mt \<longleftrightarrow> is_bulk_file_data mt \<or> mt = SfuAudio"

text \<open>The part of the read loop after a frame was accepted: register, relay, hand over.\<close>

definition deliver_frame :: "crates \<Rightarrow> string \<Rightarrow> signaling_message \<Rightarrow> string \<Rightarrow> ws_conn \<Rightarrow> sig_state \<Rightarrow> sig_out list \<times> ws_conn \<times> sig_state" where
  "deliver_frame C our_id m raw conn st =
     (let (pre, conn1, st1) =
        (if wc_peer conn = None
         then ([OnPeerConnected (sm_sender m)], conn\<lparr>wc_peer := Some (sm_sender m)\<rparr>, register_socket C (sm_sender m) (wc_tx conn) st)
         else ([], conn, st));
          relay = (case sm_target m of
             None \<Rightarrow> []
           | Some target \<Rightarrow>
               if target = our_id then []
               else (case socket_for_target target st1 of None \<Rightarrow> [] | Some tx \<Rightarrow> [RelayTo tx raw]))
      in (pre @ relay @ [OnMessage m raw], conn1, st1))"

definition ws_step :: "json_lib \<Rightarrow> crates \<Rightarrow> string \<Rightarrow> sig_clock \<Rightarrow> string \<Rightarrow> ws_conn \<Rightarrow> replay_guard \<Rightarrow> sig_state \<Rightarrow>
    sig_out list \<times> ws_conn \<times> replay_guard \<times> sig_state" where
  "ws_step L C our_id ck raw conn g st =
     (if length raw > MAX_FRAME then ([], conn, g, st)
      else case message_from_json L raw of
        None \<Rightarrow> ([], conn, g, st)
      | Some m \<Rightarrow>
          let (ok, conn1) = rate_check (ck_now ck) (ck_wake ck) (sm_type m) conn in
          if \<not> ok then ([], conn1, g, st)
          else if \<not> message_verify L C m \<or> \<not> is_fresh (ck_unix ck) FRESHNESS_SECS m then ([], conn1, g, st)
          else
            let (fresh, g1) = (if replay_exempt (sm_type m) then (True, g) else guard_message (ck_now ck) m g) in
            if \<not> fresh then ([], conn1, g1, st)
            else let (outs, conn2, st1) = deliver_frame C our_id m raw conn1 st in (outs, conn2, g1, st1))"

text \<open>The end of a connection: only the socket that is still registered is removed.\<close>

definition ws_close :: "ws_conn \<Rightarrow> replay_guard \<Rightarrow> sig_state \<Rightarrow> sig_out list \<times> replay_guard \<times> sig_state" where
  "ws_close conn g st =
     (case wc_peer conn of
        None \<Rightarrow> ([], g, st)
      | Some pid \<Rightarrow>
          if sg_sockets st pid = Some (wc_tx conn)
          then ([OnPeerDisconnected pid], forget_peer pid g,
                (remove_peer_socket pid st)\<lparr>sg_connected := sg_connected st - 1\<rparr>)
          else ([], g, st))"

section \<open>Pacing\<close>

text \<open>A run of \<open>admit\<close> calls, each with the time it is called and the time its sleep ends.\<close>

fun admit_all :: "(instant \<times> instant) list \<Rightarrow> file_limiter \<Rightarrow> file_limiter" where
  "admit_all [] l = l"
| "admit_all ((now, wake) # ts) l = admit_all ts (admit now wake l)"

text \<open>Calls in order, and no sleep ends early.\<close>

fun admits_timed :: "(instant \<times> instant) list \<Rightarrow> file_limiter \<Rightarrow> bool" where
  "admits_timed [] l = True"
| "admits_timed ((now, wake) # ts) l =
     (fl_last_refill l \<le> now \<and> now \<le> wake \<and> admit_wait now l \<le> secs_between now wake \<and> admits_timed ts (admit now wake l))"

definition limiter_ok :: "file_limiter \<Rightarrow> bool" where
  "limiter_ok l \<longleftrightarrow> 0 \<le> fl_tokens l \<and> fl_tokens l \<le> FILE_FRAME_BURST"

lemmas limiter_defs = limiter_ok_def FILE_FRAMES_PER_SEC_def FILE_FRAME_BURST_def fl_refill_def

lemma secs_between_nonneg [simp]: "0 \<le> secs_between a b"
  by (simp add: secs_between_def)

lemma secs_between_add: "a \<le> b \<Longrightarrow> b \<le> c \<Longrightarrow> secs_between a b + secs_between b c = secs_between a c"
  by (simp add: secs_between_def add_divide_distrib [symmetric] of_nat_add [symmetric] del: of_nat_add)

lemma limiter_refill_ok: "limiter_ok l \<Longrightarrow> limiter_ok (fl_refill now l)"
  by (simp add: limiter_defs Let_def)

lemma refill_bound: "fl_tokens (fl_refill now l) \<le> fl_tokens l + secs_between (fl_last_refill l) now * FILE_FRAMES_PER_SEC"
  by (simp add: fl_refill_def Let_def)

text \<open>One call: the bucket pays for the frame in full, and the sleep is at most five milliseconds.\<close>

lemma admit_step:
  assumes "limiter_ok l" "fl_last_refill l \<le> now" "now \<le> wake" "admit_wait now l \<le> secs_between now wake"
  shows "limiter_ok (admit now wake l)" "admit_wait now l \<le> 1 / 200"
    "fl_tokens (admit now wake l) + 1 \<le>
       fl_tokens l + secs_between (fl_last_refill l) (fl_last_refill (admit now wake l)) * FILE_FRAMES_PER_SEC"
    "fl_last_refill l \<le> fl_last_refill (admit now wake l)" "fl_last_refill (admit now wake l) \<le> wake"
proof -
  let ?l1 = "fl_refill now l"
  have ok1: "limiter_ok ?l1" by (rule limiter_refill_ok [OF assms(1)])
  have last1: "fl_last_refill ?l1 = now" by (simp add: fl_refill_def Let_def)
  have a: "limiter_ok (admit now wake l) \<and> admit_wait now l \<le> 1 / 200 \<and>
    fl_tokens (admit now wake l) + 1 \<le>
       fl_tokens l + secs_between (fl_last_refill l) (fl_last_refill (admit now wake l)) * FILE_FRAMES_PER_SEC \<and>
    fl_last_refill l \<le> fl_last_refill (admit now wake l) \<and> fl_last_refill (admit now wake l) \<le> wake"
  proof (cases "fl_tokens ?l1 < 1")
    case False
    then show ?thesis using ok1 last1 refill_bound [of now l] assms(2,3)
      by (simp add: admit_def admit_wait_def Let_def limiter_ok_def)
  next
    case True
    let ?l2 = "fl_refill wake ?l1"
    have w: "admit_wait now l = (1 - fl_tokens ?l1) / FILE_FRAMES_PER_SEC" using True by (simp add: admit_wait_def)
    have "1 - fl_tokens ?l1 \<le> secs_between now wake * FILE_FRAMES_PER_SEC"
      using assms(4) w by (simp add: FILE_FRAMES_PER_SEC_def)
    then have enough: "1 \<le> fl_tokens ?l2"
      using ok1 last1 by (simp add: fl_refill_def [of wake] Let_def limiter_ok_def FILE_FRAME_BURST_def)
    have last2: "fl_last_refill ?l2 = wake" by (simp add: fl_refill_def Let_def)
    have "fl_tokens ?l2 \<le> fl_tokens l + (secs_between (fl_last_refill l) now + secs_between now wake) * FILE_FRAMES_PER_SEC"
      using refill_bound [of wake ?l1] refill_bound [of now l] last1 by (simp add: distrib_right)
    moreover have "admit_wait now l \<le> 1 / 200" using w ok1 by (simp add: limiter_defs)
    ultimately show ?thesis
      using True enough limiter_refill_ok [OF ok1, of wake] last2 assms(2,3) secs_between_add [OF assms(2,3)]
      by (simp add: admit_def Let_def limiter_ok_def)
  qed
  then show "limiter_ok (admit now wake l)" "admit_wait now l \<le> 1 / 200"
    "fl_tokens (admit now wake l) + 1 \<le>
       fl_tokens l + secs_between (fl_last_refill l) (fl_last_refill (admit now wake l)) * FILE_FRAMES_PER_SEC"
    "fl_last_refill l \<le> fl_last_refill (admit now wake l)" "fl_last_refill (admit now wake l) \<le> wake"
    by blast+
qed

lemma admit_all_bound:
  "limiter_ok l \<Longrightarrow> admits_timed ts l \<Longrightarrow>
     of_nat (length ts) + fl_tokens (admit_all ts l) \<le>
       fl_tokens l + secs_between (fl_last_refill l) (fl_last_refill (admit_all ts l)) * FILE_FRAMES_PER_SEC \<and>
     fl_last_refill l \<le> fl_last_refill (admit_all ts l) \<and> limiter_ok (admit_all ts l)"
proof (induction ts arbitrary: l)
  case Nil
  then show ?case by (simp add: secs_between_def)
next
  case (Cons t ts)
  obtain now wake where t: "t = (now, wake)" by (cases t)
  let ?l = "admit now wake l"
  note step = admit_step [OF Cons.prems(1), of now wake]
  have ih: "of_nat (length ts) + fl_tokens (admit_all ts ?l) \<le>
       fl_tokens ?l + secs_between (fl_last_refill ?l) (fl_last_refill (admit_all ts ?l)) * FILE_FRAMES_PER_SEC \<and>
     fl_last_refill ?l \<le> fl_last_refill (admit_all ts ?l) \<and> limiter_ok (admit_all ts ?l)"
    by (rule Cons.IH) (use Cons.prems step t in simp_all)
  have "fl_tokens ?l + 1 \<le> fl_tokens l + secs_between (fl_last_refill l) (fl_last_refill ?l) * FILE_FRAMES_PER_SEC"
      "fl_last_refill l \<le> fl_last_refill ?l"
    using step Cons.prems(2) t by simp_all
  moreover have "secs_between (fl_last_refill l) (fl_last_refill ?l) * FILE_FRAMES_PER_SEC +
      secs_between (fl_last_refill ?l) (fl_last_refill (admit_all ts ?l)) * FILE_FRAMES_PER_SEC =
      secs_between (fl_last_refill l) (fl_last_refill (admit_all ts ?l)) * FILE_FRAMES_PER_SEC"
    using secs_between_add [of "fl_last_refill l" "fl_last_refill ?l" "fl_last_refill (admit_all ts ?l)"] calculation(2) ih
    by (simp add: distrib_right [symmetric])
  ultimately show ?case using ih by (simp add: t)
qed

section \<open>The queue\<close>

datatype queue_op = QSend string | QRecv

text \<open>Run a queue; collect the frames accepted for sending and the frames delivered.\<close>

fun queue_run :: "queue_op list \<Rightarrow> peer_queue \<Rightarrow> string list \<times> string list \<times> peer_queue" where
  "queue_run [] q = ([], [], q)"
| "queue_run (QSend s # ops) q =
     (let (ok, q1) = peer_tx_send s q; (sent, got, q2) = queue_run ops q1 in (if ok then s # sent else sent, got, q2))"
| "queue_run (QRecv # ops) q =
     (let (r, q1) = peer_rx_recv q; (sent, got, q2) = queue_run ops q1
      in (sent, case r of RecvFrame s \<Rightarrow> s # got | _ \<Rightarrow> got, q2))"

definition queue_ok :: "peer_queue \<Rightarrow> bool" where
  "queue_ok q \<longleftrightarrow> pq_queued q = sum_list (map length (pq_items q)) \<and> pq_queued q \<le> PEER_QUEUE_MAX_BYTES"

lemma queue_send_ok: "queue_ok q \<Longrightarrow> queue_ok (snd (peer_tx_send s q))"
  by (simp add: queue_ok_def peer_tx_send_def)

lemma queue_recv_ok: "queue_ok q \<Longrightarrow> queue_ok (snd (peer_rx_recv q))"
  by (auto simp: queue_ok_def peer_rx_recv_def split: list.splits)

lemma queue_run_fifo:
  "queue_ok q \<Longrightarrow> queue_run ops q = (sent, got, q') \<Longrightarrow> queue_ok q' \<and> pq_items q @ sent = got @ pq_items q'"
proof (induction ops arbitrary: q sent got)
  case (Cons op ops)
  show ?case
  proof (cases op)
    case (QSend s)
    obtain sent1 where r: "queue_run ops (snd (peer_tx_send s q)) = (sent1, got, q')"
        "sent = (if fst (peer_tx_send s q) then s # sent1 else sent1)"
      using Cons.prems(2) QSend by (cases "queue_run ops (snd (peer_tx_send s q))") (auto simp: Let_def case_prod_beta)
    have "pq_items (snd (peer_tx_send s q)) = (if fst (peer_tx_send s q) then pq_items q @ [s] else pq_items q)"
      by (simp add: peer_tx_send_def)
    with Cons.IH [OF queue_send_ok [OF Cons.prems(1)] r(1)] r(2) show ?thesis by (auto split: if_splits)
  next
    case QRecv
    obtain got1 where r: "queue_run ops (snd (peer_rx_recv q)) = (sent, got1, q')"
        "got = (case fst (peer_rx_recv q) of RecvFrame s \<Rightarrow> s # got1 | _ \<Rightarrow> got1)"
      using Cons.prems(2) QRecv
      by (cases "queue_run ops (snd (peer_rx_recv q))"; cases "fst (peer_rx_recv q)") (simp_all add: Let_def case_prod_beta)
    with Cons.IH [OF queue_recv_ok [OF Cons.prems(1)] r(1)] show ?thesis
      by (auto simp: peer_rx_recv_def split: if_splits list.splits)
  qed
qed simp

section \<open>Tables\<close>

text \<open>
  Every alias is the derived id of the key it points to and that key has a socket; the counter is the
  number of sockets.
\<close>

definition sig_ok :: "crates \<Rightarrow> sig_state \<Rightarrow> bool" where
  "sig_ok C st \<longleftrightarrow>
     finite (dom (sg_sockets st)) \<and> sg_connected st = card (dom (sg_sockets st)) \<and>
     (\<forall>a k. sg_aliases st a = Some k \<longrightarrow> sg_sockets st k \<noteq> None \<and> peer_id_alias_for C k = Some a)"

lemma sig_ok_new: "sig_ok C new_sig_state"
  by (simp add: sig_ok_def new_sig_state_def)

lemma sig_ok_register: "sig_ok C st \<Longrightarrow> sig_ok C (register_socket C sender tx st)"
  by (auto simp: sig_ok_def register_socket_def insert_absorb domIff split: option.splits if_splits)

lemma sig_ok_remove:
  assumes "sig_ok C st" "sg_sockets st pid = Some tx"
  shows "sig_ok C ((remove_peer_socket pid st)\<lparr>sg_connected := sg_connected st - 1\<rparr>)"
proof -
  have "pid \<in> dom (sg_sockets st)" using assms(2) by blast
  then show ?thesis using assms(1) by (auto simp: sig_ok_def remove_peer_socket_def retain_def split: option.splits if_splits)
qed

lemma deliver_state:
  "snd (snd (deliver_frame C our_id m raw conn st)) =
     (if wc_peer conn = None then register_socket C (sm_sender m) (wc_tx conn) st else st)"
  by (simp add: deliver_frame_def Let_def)

lemma ws_step_cases:
  obtains conn' g' where "ws_step L C our_id ck raw conn g st = ([], conn', g', st)"
  | m conn1 g' where "message_from_json L raw = Some m" "length raw \<le> MAX_FRAME" "rate_check (ck_now ck) (ck_wake ck) (sm_type m) conn = (True, conn1)"
      "message_verify L C m" "is_fresh (ck_unix ck) FRESHNESS_SECS m"
      "replay_exempt (sm_type m) \<and> g' = g \<or> \<not> replay_exempt (sm_type m) \<and> guard_message (ck_now ck) m g = (True, g')"
      "ws_step L C our_id ck raw conn g st =
         (case deliver_frame C our_id m raw conn1 st of (outs, conn2, st1) \<Rightarrow> (outs, conn2, g', st1))"
proof (cases "length raw \<le> MAX_FRAME \<and> message_from_json L raw \<noteq> None")
  case False
  then show thesis using that(1) [of conn g] by (auto simp: ws_step_def split: option.splits)
next
  case True
  then obtain m where m: "message_from_json L raw = Some m" "length raw \<le> MAX_FRAME" by blast
  obtain ok conn1 where r: "rate_check (ck_now ck) (ck_wake ck) (sm_type m) conn = (ok, conn1)" by fastforce
  define fg where "fg = (if replay_exempt (sm_type m) then (True, g) else guard_message (ck_now ck) m g)"
  obtain fresh g' where fg: "fg = (fresh, g')" by fastforce
  show thesis
  proof (cases "ok \<and> message_verify L C m \<and> is_fresh (ck_unix ck) FRESHNESS_SECS m \<and> fresh")
    case True
    then show thesis using that(2) [of m conn1 g'] m r fg fg_def by (auto simp: ws_step_def split: if_splits)
  next
    case False
    define g1 where "g1 = (if \<not> ok \<or> \<not> message_verify L C m \<or> \<not> is_fresh (ck_unix ck) FRESHNESS_SECS m then g else g')"
    have "ws_step L C our_id ck raw conn g st = ([], conn1, g1, st)"
      using False m r fg fg_def [symmetric] by (auto simp: ws_step_def g1_def not_less)
    then show thesis by (rule that(1))
  qed
qed

lemma sig_ok_ws_step: "sig_ok C st \<Longrightarrow> sig_ok C (snd (snd (snd (ws_step L C our_id ck raw conn g st))))"
proof (cases rule: ws_step_cases [of L C our_id ck raw conn g st])
  case (2 m conn1 g')
  assume "sig_ok C st"
  then have "sig_ok C (snd (snd (deliver_frame C our_id m raw conn1 st)))" unfolding deliver_state by (simp add: sig_ok_register)
  with 2 show ?thesis by (simp add: case_prod_beta)
qed simp

lemma sig_ok_ws_close: "sig_ok C st \<Longrightarrow> sig_ok C (snd (snd (ws_close conn g st)))"
  using sig_ok_remove [of C st "the (wc_peer conn)" "wc_tx conn"] by (cases "wc_peer conn") (simp_all add: ws_close_def)

lemma sig_ok_quic: "sig_ok C st \<Longrightarrow> sig_ok C (register_quic_sender i tx st)" "sig_ok C st \<Longrightarrow> sig_ok C (unregister_quic_sender i tx st)"
  by (auto simp: sig_ok_def register_quic_sender_def unregister_quic_sender_def)

inductive sig_reachable :: "json_lib \<Rightarrow> crates \<Rightarrow> string \<Rightarrow> sig_state \<Rightarrow> bool" for L C our_id where
  sig_init: "sig_reachable L C our_id new_sig_state"
| sig_frame: "sig_reachable L C our_id st \<Longrightarrow> sig_reachable L C our_id (snd (snd (snd (ws_step L C our_id ck raw conn g st))))"
| sig_close: "sig_reachable L C our_id st \<Longrightarrow> sig_reachable L C our_id (snd (snd (ws_close conn g st)))"
| sig_register: "sig_reachable L C our_id st \<Longrightarrow> sig_reachable L C our_id (register_quic_sender i tx st)"
| sig_unregister: "sig_reachable L C our_id st \<Longrightarrow> sig_reachable L C our_id (unregister_quic_sender i tx st)"

lemma sig_reachable_ok: "sig_reachable L C our_id st \<Longrightarrow> sig_ok C st"
  by (induction rule: sig_reachable.induct) (simp_all add: sig_ok_new sig_ok_ws_step sig_ok_ws_close sig_ok_quic)

section \<open>Properties\<close>

text \<open>What happens to the shared guard over a history of frames and closed connections.\<close>

datatype sig_event = Frame sig_clock string ws_conn sig_state | Closed ws_conn sig_state

fun guard_after :: "json_lib \<Rightarrow> crates \<Rightarrow> string \<Rightarrow> sig_event list \<Rightarrow> replay_guard \<Rightarrow> replay_guard" where
  "guard_after L C our_id [] g = g"
| "guard_after L C our_id (Frame ck raw conn st # es) g =
     guard_after L C our_id es (fst (snd (snd (ws_step L C our_id ck raw conn g st))))"
| "guard_after L C our_id (Closed conn st # es) g = guard_after L C our_id es (fst (snd (ws_close conn g st)))"

text \<open>Events of a window that starts at a time and in which a sender does not disconnect.\<close>

fun quiet_event :: "peer_id \<Rightarrow> instant \<Rightarrow> nat \<Rightarrow> sig_event \<Rightarrow> bool" where
  "quiet_event sender t W (Frame ck raw conn st) = (ck_now ck - t \<le> W)"
| "quiet_event sender t W (Closed conn st) = (wc_peer conn \<noteq> Some sender)"

lemma guard_message_keeps:
  assumes "remembers (sender, sig, t) g" "now - t \<le> rg_window g"
  shows "remembers (sender, sig, t) (snd (guard_message now m g)) \<and> rg_window (snd (guard_message now m g)) = rg_window g"
  using check_keeps [OF assms] assms(1) by (simp add: guard_message_def split: option.splits del: remembers.simps)

lemma ws_step_guard:
  "fst (snd (snd (ws_step L C our_id ck raw conn g st))) = g \<or>
   (\<exists>m. fst (snd (snd (ws_step L C our_id ck raw conn g st))) = snd (guard_message (ck_now ck) m g))"
  by (auto simp: ws_step_def Let_def case_prod_beta split: option.splits)

lemma guard_after_remembers:
  "remembers (sender, sig, t) g \<Longrightarrow> list_all (quiet_event sender t (rg_window g)) es \<Longrightarrow>
     remembers (sender, sig, t) (guard_after L C our_id es g) \<and> rg_window (guard_after L C our_id es g) = rg_window g"
proof (induction es arbitrary: g)
  case (Cons e es)
  show ?case
  proof (cases e)
    case (Frame ck raw conn st)
    let ?g = "fst (snd (snd (ws_step L C our_id ck raw conn g st)))"
    have "remembers (sender, sig, t) ?g \<and> rg_window ?g = rg_window g"
      using ws_step_guard [of L C our_id ck raw conn g st] guard_message_keeps [OF Cons.prems(1), of "ck_now ck"] Cons.prems Frame
      by (metis list.pred_inject(2) quiet_event.simps(1))
    with Cons.IH [of ?g] Cons.prems(2) Frame show ?thesis by (simp del: remembers.simps)
  next
    case (Closed conn st)
    let ?g = "fst (snd (ws_close conn g st))"
    have "remembers (sender, sig, t) ?g \<and> rg_window ?g = rg_window g"
      using Cons.prems Closed by (auto simp: ws_close_def forget_peer_def split: option.splits)
    with Cons.IH [of ?g] Cons.prems(2) Closed show ?thesis by (simp del: remembers.simps)
  qed
qed (simp del: remembers.simps)

text \<open>
  C4. The inbound pipeline. A frame has an effect (a callback, a relayed copy, a registered socket) only
  if it is within the size cap, parses, carries a valid signature of its sender and is fresh, and it
  registers only the socket of that sender and only on the connection it came on. Outside the two
  exempt classes, a frame that had an effect has none again: while its sender stays connected, every
  later frame of that sender with the same signature within the window is dropped, on any connection.
\<close>

theorem ws_frames_authentic:
  assumes "ws_step L C our_id ck raw conn g st = (outs, conn1, g1, st1)" "outs \<noteq> [] \<or> st1 \<noteq> st"
  shows "\<exists>m. message_from_json L raw = Some m \<and> length raw \<le> MAX_FRAME \<and> message_verify L C m \<and>
    is_fresh (ck_unix ck) FRESHNESS_SECS m \<and>
    (st1 = st \<or> wc_peer conn = None \<and> st1 = register_socket C (sm_sender m) (wc_tx conn) st) \<and>
    (\<not> replay_exempt (sm_type m) \<longrightarrow>
      (\<forall>es ck' raw' conn' st' m'.
         list_all (quiet_event (sm_sender m) (ck_now ck) (rg_window g)) es \<and> ck_now ck' - ck_now ck \<le> rg_window g \<and>
         message_from_json L raw' = Some m' \<and> sm_sender m' = sm_sender m \<and> sm_signature m' = sm_signature m \<and>
         \<not> replay_exempt (sm_type m') \<longrightarrow>
         fst (ws_step L C our_id ck' raw' conn' (guard_after L C our_id es g1) st') = [] \<and>
         snd (snd (snd (ws_step L C our_id ck' raw' conn' (guard_after L C our_id es g1) st'))) = st'))"
proof (cases rule: ws_step_cases [of L C our_id ck raw conn g st])
  case (1 conn' g')
  with assms show ?thesis by simp
next
  case (2 m c1 g')
  have d: "st1 = snd (snd (deliver_frame C our_id m raw c1 st))" "g1 = g'" using 2(7) assms(1) by (auto simp: case_prod_beta)
  have c1: "wc_peer c1 = wc_peer conn" "wc_tx c1 = wc_tx conn"
    using 2(3) by (auto simp: rate_check_def Let_def split: if_splits)
  have once: "fst (ws_step L C our_id ck' raw' conn' (guard_after L C our_id es g1) st') = [] \<and>
      snd (snd (snd (ws_step L C our_id ck' raw' conn' (guard_after L C our_id es g1) st'))) = st'"
    if ne: "\<not> replay_exempt (sm_type m)" and es: "list_all (quiet_event (sm_sender m) (ck_now ck) (rg_window g)) es"
      and t: "ck_now ck' - ck_now ck \<le> rg_window g" and m': "message_from_json L raw' = Some m'" "sm_sender m' = sm_sender m"
        "sm_signature m' = sm_signature m" "\<not> replay_exempt (sm_type m')" for es ck' raw' conn' st' m'
  proof -
    obtain sig where sig: "sm_signature m = Some sig" "check_and_record_at (sm_sender m) (as_bytes sig) (ck_now ck) g = (True, g1)"
      using 2(6) ne d(2) by (auto simp: guard_message_def split: option.splits)
    have "remembers (sm_sender m, as_bytes sig, ck_now ck) g1" "rg_window g1 = rg_window g"
      using check_records [of "sm_sender m" "as_bytes sig" "ck_now ck" g] check_window [of "sm_sender m" "as_bytes sig" "ck_now ck" g] sig(2) by simp_all
    with guard_after_remembers [of "sm_sender m" "as_bytes sig" "ck_now ck" g1 es L C our_id] es
    have g2: "remembers (sm_sender m, as_bytes sig, ck_now ck) (guard_after L C our_id es g1)"
        "rg_window (guard_after L C our_id es g1) = rg_window g" by (simp_all del: remembers.simps)
    have "\<not> fst (guard_message (ck_now ck') m' (guard_after L C our_id es g1))"
      using check_refuses [OF g2(1), of "as_bytes sig" "ck_now ck'"] t g2(2) m' sig(1) by (simp add: guard_message_def)
    then show ?thesis
      by (cases rule: ws_step_cases [of L C our_id ck' raw' conn' "guard_after L C our_id es g1" st']) (use m' in auto)
  qed
  from 2 d c1 once show ?thesis by (intro exI [of _ m]) (auto simp: deliver_state)
qed

text \<open>A concrete frame: signed by the key of the concrete crates, at time zero.\<close>

definition demo_message :: "message_type \<Rightarrow> peer_id option \<Rightarrow> signaling_message" where
  "demo_message t target = sign_message plain_json plain_crates (\<lambda>_. replicate 64 0)
     ((new_message 0 t plain_signer (VObj []))\<lparr>sm_target := target\<rparr>)"

definition demo_raw :: "message_type \<Rightarrow> peer_id option \<Rightarrow> string" where
  "demo_raw t target = message_to_json plain_json (demo_message t target)"

definition demo_parsed :: "message_type \<Rightarrow> peer_id option \<Rightarrow> signaling_message" where
  "demo_parsed t target = (demo_message t target)\<lparr>sm_timestamp_raw := Some (VNum (NFloat 0))\<rparr>"

lemma demo_parses: "message_from_json plain_json (demo_raw t target) = Some (demo_parsed t target)"
proof -
  have "jl_parse plain_json (demo_raw t target) = Some (VObj (wire_fields (VObj []) plain_signer (sm_signature (demo_message t target)) target
      (VNum (NFloat 0)) (wire_name t) PROTOCOL_VERSION))"
    unfolding demo_raw_def message_wire
    using parse_wire [OF plain_json_ok, of "VObj []" "VNum (NFloat 0)" plain_signer "sm_signature (demo_message t target)" target]
    by (simp add: demo_message_def sign_message_def new_message_def)
  from message_of_wire [OF this] show ?thesis
    by (simp add: demo_parsed_def demo_message_def sign_message_def new_message_def)
qed

lemma demo_verifies: "message_verify plain_json plain_crates (demo_parsed t target)"
  using signed_by_sign [OF plain_crates_ok plain_signs_for]
  by (simp add: message_verify_def demo_parsed_def demo_message_def sign_message_def new_message_def canonical_wire)

lemma length_enc_str [simp]: "length (enc_str s) = 2 * length s + 1"
  by (induction s) auto

lemma length_demo: "length (wire_name t) < 100 \<Longrightarrow> target = None \<or> target = Some ''x'' \<Longrightarrow> length (demo_raw t target) \<le> MAX_FRAME"
  by (auto simp: demo_raw_def message_wire demo_message_def sign_message_def new_message_def wire_fields_def opt_entry_def plain_json_def
      length_plain_signer string_of_bytes_def MAX_FRAME_def PROTOCOL_VERSION_def enc_num.simps enc_int.simps)

definition demo_guard :: replay_guard where "demo_guard = new_replay_guard None"
definition demo_clock :: sig_clock where "demo_clock = \<lparr>ck_unix = 0, ck_now = 0, ck_wake = 0\<rparr>"

lemma demo_fresh: "is_fresh (ck_unix demo_clock) FRESHNESS_SECS (demo_parsed t target)"
  by (simp add: is_fresh_def demo_clock_def FRESHNESS_SECS_def demo_parsed_def demo_message_def sign_message_def new_message_def)

text \<open>An exempt frame on a new connection is delivered.\<close>

lemma exempt_first_frame:
  assumes "message_from_json L raw = Some m" "length raw \<le> MAX_FRAME" "message_verify L C m"
    "is_fresh (ck_unix ck) FRESHNESS_SECS m" "sm_type m = SfuAudio" "wc_peer conn = None"
  shows "ws_step L C our_id ck raw conn g st =
    (case deliver_frame C our_id m raw conn st of (outs, conn2, st1) \<Rightarrow> (outs, conn2, g, st1))"
  using assms by (simp add: ws_step_def rate_check_def replay_exempt_def is_bulk_file_data_def not_less)

theorem ws_frames_authentic_witness:
  "\<exists>m. message_from_json plain_json (demo_raw SfuAudio None) = Some m \<and> message_verify plain_json plain_crates m"
proof -
  let ?r = "ws_step plain_json plain_crates [] demo_clock (demo_raw SfuAudio None) (new_ws_conn 1 0) demo_guard new_sig_state"
  have "?r = (case deliver_frame plain_crates [] (demo_parsed SfuAudio None) (demo_raw SfuAudio None) (new_ws_conn 1 0) new_sig_state of
      (outs, conn2, st1) \<Rightarrow> (outs, conn2, demo_guard, st1))"
    by (rule exempt_first_frame [OF demo_parses length_demo demo_verifies demo_fresh])
      (simp_all add: demo_parsed_def demo_message_def sign_message_def new_message_def new_ws_conn_def)
  then have "fst ?r \<noteq> []" by (simp add: deliver_frame_def case_prod_beta Let_def)
  with ws_frames_authentic [of plain_json plain_crates "[]" demo_clock "demo_raw SfuAudio None" "new_ws_conn 1 0" demo_guard new_sig_state
      "fst ?r" "fst (snd ?r)" "fst (snd (snd ?r))" "snd (snd (snd ?r))"] show ?thesis by auto
qed

text \<open>
  The routing tables stay consistent over every history of frames, closed connections and QUIC
  streams: the connection counter is the number of registered sockets, and a hexadecimal peer id
  resolves, if at all, to the live socket of a key whose digest it is, so no peer can claim the id
  of another key without a digest collision.
\<close>

lemma sig_tables_consistent:
  assumes "sig_reachable L C our_id st"
  shows "finite (dom (sg_sockets st)) \<and> sg_connected st = card (dom (sg_sockets st)) \<and>
    (\<forall>a k. sg_aliases st a = Some k \<longrightarrow>
       (\<exists>tx pk. sg_sockets st k = Some tx \<and> b64_decode C k = Inr pk \<and> length pk = 32 \<and> a = sha256_hex C pk))"
proof -
  have ok: "sig_ok C st" by (rule sig_reachable_ok [OF assms])
  have "\<exists>tx pk. sg_sockets st k = Some tx \<and> b64_decode C k = Inr pk \<and> length pk = 32 \<and> a = sha256_hex C pk"
    if "sg_aliases st a = Some k" for a k
  proof -
    have "sg_sockets st k \<noteq> None" "peer_id_alias_for C k = Some a" using ok that by (auto simp: sig_ok_def)
    then show ?thesis by (auto simp: peer_id_alias_for_def derive_peer_id_def split: sum.splits if_splits)
  qed
  with ok show ?thesis by (simp add: sig_ok_def)
qed

lemma sig_tables_consistent_witness:
  "sg_connected (snd (snd (snd (ws_step plain_json plain_crates [] demo_clock (demo_raw SfuAudio None) (new_ws_conn 1 0) demo_guard new_sig_state)))) = 1"
proof -
  let ?st = "snd (snd (snd (ws_step plain_json plain_crates [] demo_clock (demo_raw SfuAudio None) (new_ws_conn 1 0) demo_guard new_sig_state)))"
  have st: "?st = register_socket plain_crates plain_signer 1 new_sig_state"
    by (subst exempt_first_frame [OF demo_parses length_demo demo_verifies demo_fresh])
      (simp_all add: demo_parsed_def demo_message_def sign_message_def new_message_def new_ws_conn_def deliver_frame_def case_prod_beta Let_def)
  have "sig_reachable plain_json plain_crates [] ?st" by (rule sig_frame [OF sig_init])
  from sig_tables_consistent [OF this] have "sg_connected ?st = card (dom (sg_sockets ?st))" by blast
  also have "dom (sg_sockets ?st) = {plain_signer}" unfolding st by (simp add: register_socket_def new_sig_state_def)
  finally show ?thesis by simp
qed

text \<open>
  C34. The write queue of a peer never holds more than 8 MiB and its byte counter is exact; the frames
  delivered are, in order, a prefix of the frames for which \<open>send\<close> returned true, and the rest of them is
  still queued, so no accepted frame is dropped silently. File frames are paced and never dropped:
  over any run the number admitted is at most 400 plus 200 per second, and no call sleeps for more
  than five milliseconds.
\<close>

theorem peer_queue_and_pacing:
  assumes "queue_run ops peer_channel = (sent, got, q)" "admits_timed ts (new_file_limiter t0)"
  shows "sent = got @ pq_items q \<and> pq_queued q = sum_list (map length (pq_items q)) \<and> pq_queued q \<le> PEER_QUEUE_MAX_BYTES \<and>
    of_nat (length ts) \<le> 400 + 200 * secs_between t0 (fl_last_refill (admit_all ts (new_file_limiter t0))) \<and>
    (\<forall>now. fl_last_refill (admit_all ts (new_file_limiter t0)) \<le> now \<longrightarrow>
       admit_wait now (admit_all ts (new_file_limiter t0)) \<le> 1 / 200)"
proof -
  have "queue_ok peer_channel" by (simp add: queue_ok_def peer_channel_def)
  from queue_run_fifo [OF this assms(1)] have q: "queue_ok q" "sent = got @ pq_items q" by (simp_all add: peer_channel_def)
  have l: "limiter_ok (new_file_limiter t0)" by (simp add: limiter_ok_def new_file_limiter_def FILE_FRAME_BURST_def)
  let ?l = "admit_all ts (new_file_limiter t0)"
  note b = admit_all_bound [OF l assms(2)]
  have "admit_wait now ?l \<le> 1 / 200" for now
    using limiter_refill_ok [of ?l now] b by (auto simp: admit_wait_def Let_def limiter_ok_def FILE_FRAMES_PER_SEC_def)
  moreover have "of_nat (length ts) \<le> 400 + 200 * secs_between t0 (fl_last_refill ?l)"
    using b by (simp add: new_file_limiter_def limiter_ok_def FILE_FRAME_BURST_def FILE_FRAMES_PER_SEC_def)
  ultimately show ?thesis using q by (simp add: queue_ok_def)
qed

theorem peer_queue_and_pacing_witness:
  "queue_run [QSend ''a'', QSend ''b'', QRecv] peer_channel = ([''a'', ''b''], [''a''], \<lparr>pq_items = [''b''], pq_queued = 1, pq_overflow = False, pq_closed = False\<rparr>) \<and>
   admits_timed [(0, 0), (0, 0)] (new_file_limiter 0) \<and>
   rat_of_nat (length [(0 :: nat, 0 :: nat), (0, 0)]) \<le> 400 + 200 * secs_between 0 (fl_last_refill (admit_all [(0, 0), (0, 0)] (new_file_limiter 0)))"
proof -
  have q: "queue_run [QSend ''a'', QSend ''b'', QRecv] peer_channel = ([''a'', ''b''], [''a''], \<lparr>pq_items = [''b''], pq_queued = 1, pq_overflow = False, pq_closed = False\<rparr>)"
    by (simp add: peer_tx_send_def peer_rx_recv_def peer_channel_def PEER_QUEUE_MAX_BYTES_def)
  have a: "admits_timed [(0, 0), (0, 0)] (new_file_limiter 0)"
    by (simp add: new_file_limiter_def admit_def admit_wait_def fl_refill_def secs_between_def FILE_FRAME_BURST_def FILE_FRAMES_PER_SEC_def)
  from peer_queue_and_pacing [OF q a] q a show ?thesis by blast
qed

text \<open>
  A room member can take over the signaling socket of another peer. Audio frames skip the replay
  guard, and the first accepted frame of a connection registers it as the socket of the frame's
  sender. So a copy of any fresh audio frame of a peer, which the supernode itself relays to the other
  members, sent as the first frame of a new connection replaces that peer's socket, whatever the guard
  remembers; from then on messages for the peer go to the new connection.
\<close>

lemma replayed_audio_takes_socket:
  assumes "message_from_json L raw = Some m" "length raw \<le> MAX_FRAME" "message_verify L C m"
    "is_fresh (ck_unix ck) FRESHNESS_SECS m" "sm_type m = SfuAudio" "wc_peer conn = None"
    and "ws_step L C our_id ck raw conn g st = (outs, conn1, g1, st1)" "sg_quic st (sm_sender m) = None"
  shows "sg_sockets st1 (sm_sender m) = Some (wc_tx conn) \<and> g1 = g \<and> OnPeerConnected (sm_sender m) \<in> set outs \<and>
    socket_for_target (sm_sender m) st1 = Some (wc_tx conn) \<and>
    (\<forall>json chs. fst (chan_send (wc_tx conn) json chs) \<longrightarrow>
       send_to_peer st1 (sm_sender m) json chs = chan_send (wc_tx conn) json chs)"
proof -
  have st1: "st1 = register_socket C (sm_sender m) (wc_tx conn) st" "g1 = g" "OnPeerConnected (sm_sender m) \<in> set outs"
    using exempt_first_frame [OF assms(1-6), of our_id g st] assms(6,7) by (auto simp: deliver_frame_def Let_def case_prod_beta)
  have "sg_sockets st1 (sm_sender m) = Some (wc_tx conn)" "sg_quic st1 (sm_sender m) = None"
    using assms(8) by (simp_all add: st1(1) register_socket_def)
  then show ?thesis
    using st1(2,3) by (auto simp: socket_for_target_def identity_key_variants_def send_to_peer_def try_chan_def case_prod_beta Let_def prod_eq_iff)
qed

lemma replayed_audio_takes_socket_witness:
  "sg_sockets (snd (snd (snd (ws_step plain_json plain_crates [] demo_clock (demo_raw SfuAudio None) (new_ws_conn 2 0) demo_guard
     (register_socket plain_crates plain_signer 1 new_sig_state))))) plain_signer = Some 2"
proof -
  let ?st = "register_socket plain_crates plain_signer 1 new_sig_state"
  let ?r = "ws_step plain_json plain_crates [] demo_clock (demo_raw SfuAudio None) (new_ws_conn 2 0) demo_guard ?st"
  have m: "sm_type (demo_parsed SfuAudio None) = SfuAudio" "sm_sender (demo_parsed SfuAudio None) = plain_signer"
    by (simp_all add: demo_parsed_def demo_message_def sign_message_def new_message_def)
  have "wc_peer (new_ws_conn 2 0) = None" "wc_tx (new_ws_conn 2 0) = 2" "sg_quic ?st plain_signer = None"
    by (simp_all add: new_ws_conn_def register_socket_def new_sig_state_def)
  with replayed_audio_takes_socket [OF demo_parses length_demo demo_verifies demo_fresh m(1),
      of "new_ws_conn 2 0" "[]" demo_guard ?st "fst ?r" "fst (snd ?r)" "fst (snd (snd ?r))" "snd (snd (snd ?r))"] m(2)
  show ?thesis by simp
qed

end
