(* ===== verification/Client_Crypto.thy ===== *)
theory Client_Crypto
  imports Json_Value
begin

text \<open>
  The cryptographic helpers of the client, \<open>conquerd-client/src/crypto.rs\<close>: envelopes at rest, the
  AEAD wrappers, the session key of an invite handshake, the pairwise key of the relay path, the
  release-build check and the passphrase material. X25519, HKDF, AES-GCM and Argon2 are crates: the
  record \<open>kdf_lib\<close> holds them and \<open>kdf_ok\<close> what their documentation promises. Random bytes are
  arguments.
\<close>

section \<open>The crates\<close>

record kdf_lib =
  x_public :: "bytes \<Rightarrow> bytes"
  x_dh :: "bytes \<Rightarrow> bytes \<Rightarrow> bytes"
  x_montgomery :: "bytes \<Rightarrow> bytes"
  x_hkdf :: "bytes \<Rightarrow> bytes \<Rightarrow> nat \<Rightarrow> bytes option"
  x_seal :: "bytes \<Rightarrow> bytes \<Rightarrow> bytes \<Rightarrow> bytes \<Rightarrow> bytes option"
  x_open :: "bytes \<Rightarrow> bytes \<Rightarrow> bytes \<Rightarrow> bytes \<Rightarrow> bytes option"
  x_argon2 :: "bytes \<Rightarrow> bytes \<Rightarrow> nat \<times> nat \<times> nat \<Rightarrow> bytes option"

text \<open>The longest plaintext AES-GCM accepts.\<close>

definition GCM_MAX :: nat where "GCM_MAX = 2 ^ 36"

definition kdf_ok :: "kdf_lib \<Rightarrow> bool" where
  "kdf_ok X \<longleftrightarrow>
     (\<forall>a b. x_dh X a (x_public X b) = x_dh X b (x_public X a)) \<and>
     (\<forall>a. length (x_public X a) = 32) \<and>
     (\<forall>ikm info. \<exists>k. x_hkdf X ikm info 32 = Some k \<and> length k = 32) \<and>
     (\<forall>k n aad m. length m \<le> GCM_MAX \<longrightarrow> (\<exists>c. x_seal X k n aad m = Some c \<and> x_open X k n aad c = Some m))"

datatype crypto_error =
    Key_length | Nonce_length | Envelope_short | Envelope_version u8 | Aes_failed | Hkdf_failed
  | B64_error | Ephemeral_length | Peer_key_length | Peer_key_invalid | Seed_length
  | Argon_failed | Keyfile_unreadable | No_passphrase

section \<open>Envelopes\<close>

definition ENVELOPE_VERSION :: u8 where "ENVELOPE_VERSION = 1"
definition NONCE_LEN :: nat where "NONCE_LEN = 12"
definition HEADER_LEN :: nat where "HEADER_LEN = 1 + NONCE_LEN"
definition KEY_LEN :: nat where "KEY_LEN = 32"

definition encrypt_blob :: "kdf_lib \<Rightarrow> bytes \<Rightarrow> bytes \<Rightarrow> bytes \<Rightarrow> crypto_error + bytes" where
  "encrypt_blob X nonce key plaintext =
     (if length key \<noteq> KEY_LEN then Inl Key_length
      else case x_seal X key nonce [] plaintext of
        None \<Rightarrow> Inl Aes_failed
      | Some ct \<Rightarrow> Inr (ENVELOPE_VERSION # nonce @ ct))"

definition decrypt_blob :: "kdf_lib \<Rightarrow> bytes \<Rightarrow> bytes \<Rightarrow> crypto_error + bytes" where
  "decrypt_blob X key envelope =
     (if length key \<noteq> KEY_LEN then Inl Key_length
      else if length envelope < HEADER_LEN then Inl Envelope_short
      else if envelope ! 0 \<noteq> ENVELOPE_VERSION then Inl (Envelope_version (envelope ! 0))
      else case x_open X key (take NONCE_LEN (drop 1 envelope)) [] (drop HEADER_LEN envelope) of
        None \<Rightarrow> Inl Aes_failed
      | Some m \<Rightarrow> Inr m)"

definition aesgcm_encrypt :: "kdf_lib \<Rightarrow> bytes \<Rightarrow> bytes \<Rightarrow> bytes \<Rightarrow> bytes \<Rightarrow> crypto_error + (bytes \<times> bytes)" where
  "aesgcm_encrypt X nonce key plaintext aad =
     (if length key \<noteq> KEY_LEN then Inl Key_length
      else case x_seal X key nonce aad plaintext of
        None \<Rightarrow> Inl Aes_failed
      | Some ct \<Rightarrow> Inr (nonce, ct))"

definition aesgcm_decrypt :: "kdf_lib \<Rightarrow> bytes \<Rightarrow> bytes \<Rightarrow> bytes \<Rightarrow> bytes \<Rightarrow> crypto_error + bytes" where
  "aesgcm_decrypt X key nonce ciphertext aad =
     (if length key \<noteq> KEY_LEN then Inl Key_length
      else if length nonce \<noteq> NONCE_LEN then Inl Nonce_length
      else case x_open X key nonce aad ciphertext of
        None \<Rightarrow> Inl Aes_failed
      | Some m \<Rightarrow> Inr m)"

section \<open>Key derivation\<close>

definition hkdf_derive_key :: "kdf_lib \<Rightarrow> bytes \<Rightarrow> bytes \<Rightarrow> crypto_error + bytes" where
  "hkdf_derive_key X ikm info = (case x_hkdf X ikm info 32 of None \<Rightarrow> Inl Hkdf_failed | Some k \<Rightarrow> Inr k)"

text \<open>A length as 32 big-endian bits, then the bytes.\<close>

definition len_prefixed :: "bytes \<Rightarrow> bytes" where
  "len_prefixed b = be_bytes 4 (length b) @ b"

definition INVITE_SESSION_KEY_INFO :: bytes where "INVITE_SESSION_KEY_INFO = as_bytes ''conquerd-invite-session-v2''"

definition derive_invite_session_key ::
  "kdf_lib \<Rightarrow> json_lib \<Rightarrow> crates \<Rightarrow> bytes \<Rightarrow> string \<Rightarrow> string \<Rightarrow> peer_id \<Rightarrow> peer_id \<Rightarrow> string \<Rightarrow> crypto_error + (bytes \<times> string)" where
  "derive_invite_session_key X L C joiner_secret inviter_ephemeral_pub_b64 invite_id inviter_identity_pub joiner_identity_pub
       joiner_ephemeral_pub_b64 =
     (case b64_decode C inviter_ephemeral_pub_b64 of
        Inl _ \<Rightarrow> Inl B64_error
      | Inr inv_eph_bytes \<Rightarrow>
          if length inv_eph_bytes \<noteq> 32 then Inl Ephemeral_length
          else
            let shared_secret = x_dh X joiner_secret inv_eph_bytes;
                transcript = jl_print L (bt_of [(''invite_id'', VStr invite_id), (''inviter_ephemeral_pub'', VStr inviter_ephemeral_pub_b64),
                  (''inviter_identity_pub'', VStr inviter_identity_pub), (''joiner_ephemeral_pub'', VStr joiner_ephemeral_pub_b64),
                  (''joiner_identity_pub'', VStr joiner_identity_pub)] []);
                transcript_bytes = as_bytes transcript;
                ikm = len_prefixed shared_secret @ len_prefixed transcript_bytes
            in case hkdf_derive_key X ikm INVITE_SESSION_KEY_INFO of
                 Inl e \<Rightarrow> Inl e
               | Inr key \<Rightarrow> Inr (key, sha256_hex C transcript_bytes))"

definition PAIRWISE_RELAY_KEY_INFO :: bytes where "PAIRWISE_RELAY_KEY_INFO = as_bytes ''conquerd-pairwise-relay-v1''"

definition pairwise_info :: "peer_id \<Rightarrow> peer_id \<Rightarrow> bytes" where
  "pairwise_info our_identity_pub_b64 peer_identity_pub_b64 =
     (let ids = sort [bare our_identity_pub_b64, bare peer_identity_pub_b64]
      in PAIRWISE_RELAY_KEY_INFO @ as_bytes ''|'' @ as_bytes (ids ! 0) @ as_bytes ''|'' @ as_bytes (ids ! 1))"

definition derive_pairwise_relay_key :: "kdf_lib \<Rightarrow> crates \<Rightarrow> bytes \<Rightarrow> peer_id \<Rightarrow> peer_id \<Rightarrow> crypto_error + bytes" where
  "derive_pairwise_relay_key X C our_scalar_bytes our_identity_pub_b64 peer_identity_pub_b64 =
     (case b64_decode C peer_identity_pub_b64 of
        Inl _ \<Rightarrow> Inl B64_error
      | Inr peer_arr \<Rightarrow>
          if length peer_arr \<noteq> 32 then Inl Peer_key_length
          else if \<not> cr_key_ok C peer_arr then Inl Peer_key_invalid
          else let shared = x_dh X our_scalar_bytes (x_montgomery X peer_arr)
               in hkdf_derive_key X shared (pairwise_info our_identity_pub_b64 peer_identity_pub_b64))"

definition argon2id_kdf :: "kdf_lib \<Rightarrow> bytes \<Rightarrow> bytes \<Rightarrow> nat \<Rightarrow> nat \<Rightarrow> nat \<Rightarrow> crypto_error + bytes" where
  "argon2id_kdf X passphrase salt t_cost m_cost p_cost =
     (case x_argon2 X passphrase salt (m_cost, t_cost, p_cost) of None \<Rightarrow> Inl Argon_failed | Some k \<Rightarrow> Inr k)"

text \<open>\<open>read\<close> is the file system: the bytes of a path, if it can be read.\<close>

definition build_passphrase_material :: "crates \<Rightarrow> (string \<Rightarrow> bytes option) \<Rightarrow> string \<Rightarrow> string \<Rightarrow> crypto_error + bytes" where
  "build_passphrase_material C read txt file_path =
     (let finish = (\<lambda>material. if material = [] then Inl No_passphrase else Inr material)
      in if file_path \<noteq> []
         then (case read file_path of
                 None \<Rightarrow> Inl Keyfile_unreadable
               | Some bs \<Rightarrow> finish (as_bytes txt @ cr_sha256 C bs))
         else finish (as_bytes txt))"

section \<open>Ed25519 wrappers\<close>

definition ed25519_sign :: "(bytes \<Rightarrow> bytes \<Rightarrow> bytes) \<Rightarrow> bytes \<Rightarrow> bytes \<Rightarrow> crypto_error + bytes" where
  "ed25519_sign key_sign seed data = (if length seed \<noteq> 32 then Inl Seed_length else Inr (key_sign seed data))"

definition RELEASE_SIGNER_PUBKEY_HEX :: string where
  "RELEASE_SIGNER_PUBKEY_HEX = ''d31f43fcfba1fae04313d384d7fba026bd52796550c57def6cf47b069c18043f''"

text \<open>\<open>b64_std\<close> is the decoder of the standard base64 alphabet.\<close>

definition verify_official_release_build ::
  "crates \<Rightarrow> (string \<Rightarrow> bytes option) \<Rightarrow> string \<Rightarrow> string \<Rightarrow> string \<Rightarrow> string option \<Rightarrow> bool" where
  "verify_official_release_build C b64_std build_id version source_hash release_sig_b64 =
     (if RELEASE_SIGNER_PUBKEY_HEX = replicate 64 (CHR ''0'') then False
      else case release_sig_b64 of
        None \<Rightarrow> False
      | Some sig_b64 \<Rightarrow>
          (case cr_hex_decode C RELEASE_SIGNER_PUBKEY_HEX of
             None \<Rightarrow> False
           | Some pubkey_bytes \<Rightarrow>
               if length pubkey_bytes \<noteq> 32 then False
               else case b64_std sig_b64 of
                 None \<Rightarrow> False
               | Some sig_bytes \<Rightarrow>
                   if length sig_bytes \<noteq> 64 then False
                   else
                     let claim = (if source_hash \<noteq> [] then ''build_id='' @ build_id @ '',version='' @ version @ '',source_hash='' @ source_hash
                                  else ''build_id='' @ build_id @ '',version='' @ version)
                     in ed25519_verify C pubkey_bytes sig_bytes (as_bytes claim)))"

section \<open>Lemmas\<close>

lemma kdf_okD:
  assumes "kdf_ok X"
  shows "x_dh X a (x_public X b) = x_dh X b (x_public X a)" "length (x_public X a) = 32"
    "\<exists>k. x_hkdf X ikm info 32 = Some k \<and> length k = 32"
    "length m \<le> GCM_MAX \<Longrightarrow> \<exists>c. x_seal X k n aad m = Some c \<and> x_open X k n aad c = Some m"
  using assms by (simp_all add: kdf_ok_def)

lemma hkdf_derive_total: "kdf_ok X \<Longrightarrow> \<exists>k. hkdf_derive_key X ikm info = Inr k \<and> length k = 32"
  using kdf_okD(3) [of X ikm info] by (auto simp: hkdf_derive_key_def)

lemma aesgcm_roundtrip:
  assumes "kdf_ok X" "length key = 32" "length nonce = 12" "length m \<le> GCM_MAX"
  shows "\<exists>ct. aesgcm_encrypt X nonce key m aad = Inr (nonce, ct) \<and> aesgcm_decrypt X key nonce ct aad = Inr m"
  using kdf_okD(4) [OF assms(1,4), of key nonce aad] assms(2,3)
  by (auto simp: aesgcm_encrypt_def aesgcm_decrypt_def KEY_LEN_def NONCE_LEN_def)

lemma blob_roundtrip:
  assumes "kdf_ok X" "length key = 32" "length nonce = 12" "length m \<le> GCM_MAX"
  shows "\<exists>e. encrypt_blob X nonce key m = Inr e \<and> decrypt_blob X key e = Inr m"
proof -
  obtain c where "x_seal X key nonce [] m = Some c" "x_open X key nonce [] c = Some m"
    using kdf_okD(4) [OF assms(1,4), of key nonce "[]"] by blast
  then have "encrypt_blob X nonce key m = Inr (1 # nonce @ c) \<and> decrypt_blob X key (1 # nonce @ c) = Inr m"
    using assms(2,3)
    by (simp add: encrypt_blob_def decrypt_blob_def KEY_LEN_def NONCE_LEN_def HEADER_LEN_def ENVELOPE_VERSION_def)
  then show ?thesis by blast
qed

lemma decrypt_blob_errors:
  "decrypt_blob X key e = Inl Key_length \<longleftrightarrow> length key \<noteq> 32"
  "length key = 32 \<Longrightarrow> decrypt_blob X key e = Inl Envelope_short \<longleftrightarrow> length e < 13"
  "length key = 32 \<Longrightarrow> 13 \<le> length e \<Longrightarrow> decrypt_blob X key e = Inl (Envelope_version v) \<longleftrightarrow> v = e ! 0 \<and> v \<noteq> 1"
  by (auto simp: decrypt_blob_def KEY_LEN_def HEADER_LEN_def NONCE_LEN_def ENVELOPE_VERSION_def split: option.splits)

lemma sort_pair: "sort [a, b] = (if a \<le> b then [a, b] else [b, a])" for a b :: string
  by simp

lemma pairwise_info_commute: "pairwise_info a b = pairwise_info b a"
  by (cases "bare a \<le> bare b"; cases "bare b \<le> bare a") (auto simp: pairwise_info_def Let_def sort_pair simp del: sort_key_simps)

lemma pairwise_info_bare: "bare a = bare a' \<Longrightarrow> bare b = bare b' \<Longrightarrow> pairwise_info a b = pairwise_info a' b'"
  by (simp add: pairwise_info_def)

lemma split_at_bar: "c \<notin> set x \<Longrightarrow> c \<notin> set y \<Longrightarrow> x @ c # r = y @ c # r' \<longleftrightarrow> x = y \<and> r = r'"
proof (induction x arbitrary: y)
  case Nil
  then show ?case by (cases y) auto
next
  case (Cons a x)
  then show ?case by (cases y) auto
qed

text \<open>The label determines the unordered pair of identities, as long as the ids are base64url.\<close>

lemma pairwise_info_pair:
  assumes "CHR ''|'' \<notin> set (bare a @ bare b @ bare c @ bare d)" "pairwise_info a b = pairwise_info c d"
  shows "{bare a, bare b} = {bare c, bare d}"
proof -
  define i where "i = sort [bare a, bare b]"
  define j where "j = sort [bare c, bare d]"
  have s: "set [i ! 0, i ! 1] = {bare a, bare b}" "set [j ! 0, j ! 1] = {bare c, bare d}"
    by (auto simp: i_def j_def sort_pair simp del: sort_key_simps)
  have "as_bytes (i ! 0 @ ''|'' @ i ! 1) = as_bytes (j ! 0 @ ''|'' @ j ! 1)"
    using assms(2) unfolding pairwise_info_def Let_def i_def [symmetric] j_def [symmetric] by (simp only: as_bytes_append same_append_eq)
  then have "i ! 0 @ CHR ''|'' # i ! 1 = j ! 0 @ CHR ''|'' # j ! 1" by (simp add: inj_as_bytes)
  moreover have "CHR ''|'' \<notin> set (i ! 0)" "CHR ''|'' \<notin> set (j ! 0)"
    using assms(1) s by (auto simp: i_def j_def sort_pair simp del: sort_key_simps split: if_splits)
  ultimately have "i ! 0 = j ! 0" "i ! 1 = j ! 1" by (simp_all add: split_at_bar)
  with s show ?thesis by simp
qed

subsection \<open>A concrete instance\<close>

definition fit32 :: "bytes \<Rightarrow> bytes" where "fit32 b = take 32 (b @ replicate 32 0)"

definition plain_kdf :: kdf_lib where
  "plain_kdf = \<lparr>x_public = fit32, x_dh = (\<lambda>a b. map2 (+) (fit32 a) (fit32 b)), x_montgomery = id,
     x_hkdf = (\<lambda>ikm info n. Some (take n (ikm @ info @ replicate n 0))),
     x_seal = (\<lambda>k n aad m. Some (enc_bytes aad @ m)),
     x_open = (\<lambda>k n aad c. if take (length (enc_bytes aad)) c = enc_bytes aad then Some (drop (length (enc_bytes aad)) c) else None),
     x_argon2 = (\<lambda>p s c. Some (fit32 (p @ s)))\<rparr>"

lemma length_fit32 [simp]: "length (fit32 b) = 32"
  by (simp add: fit32_def)

lemma fit32_idem [simp]: "fit32 (fit32 b) = fit32 b"
  by (simp add: fit32_def)

lemma map2_plus_commute: "length a = length b \<Longrightarrow> map2 (+) a b = map2 (+) b (a :: bytes)"
  by (induction a b rule: list_induct2) (simp_all add: add.commute)

lemma plain_kdf_ok: "kdf_ok plain_kdf"
proof -
  have "min i 32 + (min j (32 - i) + (32 - (i + j))) = 32" for i j :: nat by arith
  then show ?thesis by (simp add: kdf_ok_def plain_kdf_def map2_plus_commute)
qed

section \<open>The relay path of two peers\<close>

text \<open>
  The supernode-relay path of two peers is end-to-end: whatever spelling (padded or not) each end
  holds of the identity of the other, both derive the same 32-byte key, and what one seals under it in
  an envelope the other opens; the key is bound to the unordered pair, since for base64url identities
  the derivation labels of two pairs agree only when the pairs do. The assumption on \<open>x_dh\<close> is
  commutativity of Diffie-Hellman on the two identity keys.
\<close>

lemma pairwise_key_agreement:
  assumes "kdf_ok X" "bare a = bare a'" "bare b = bare b'"
    and "b64_decode C a' = Inr pa" "b64_decode C b' = Inr pb" "length pa = 32" "length pb = 32" "cr_key_ok C pa" "cr_key_ok C pb"
    and "x_dh X sa (x_montgomery X pb) = x_dh X sb (x_montgomery X pa)"
    and "length nonce = 12" "length m \<le> GCM_MAX"
  shows "\<exists>k. derive_pairwise_relay_key X C sa a b' = Inr k \<and> derive_pairwise_relay_key X C sb b a' = Inr k \<and> length k = 32 \<and>
      (\<exists>e. encrypt_blob X nonce k m = Inr e \<and> decrypt_blob X k e = Inr m) \<and>
      (CHR ''|'' \<notin> set (bare a @ bare b @ bare c @ bare d) \<longrightarrow>
         (pairwise_info a b = pairwise_info c d \<longleftrightarrow> {bare a, bare b} = {bare c, bare d}))"
proof -
  obtain k where k: "hkdf_derive_key X (x_dh X sa (x_montgomery X pb)) (pairwise_info a b) = Inr k" "length k = 32"
    using hkdf_derive_total [OF assms(1)] by blast
  have "pairwise_info a b' = pairwise_info a b" "pairwise_info b a' = pairwise_info a b"
    using pairwise_info_bare [of a a b' b] pairwise_info_bare [of b b a' a] pairwise_info_commute [of a b] assms(2,3) by simp_all
  then have "derive_pairwise_relay_key X C sa a b' = Inr k" "derive_pairwise_relay_key X C sb b a' = Inr k"
    using k assms(4-10) by (simp_all add: derive_pairwise_relay_key_def)
  moreover have "pairwise_info a b = pairwise_info c d \<longleftrightarrow> {bare a, bare b} = {bare c, bare d}"
    if bar: "CHR ''|'' \<notin> set (bare a @ bare b @ bare c @ bare d)"
  proof
    assume "{bare a, bare b} = {bare c, bare d}"
    then have "bare a = bare c \<and> bare b = bare d \<or> bare a = bare d \<and> bare b = bare c" by (auto simp: doubleton_eq_iff)
    then show "pairwise_info a b = pairwise_info c d"
      using pairwise_info_bare [of a c b d] pairwise_info_bare [of a d b c] pairwise_info_commute [of c d] by auto
  qed (rule pairwise_info_pair [OF bar])
  ultimately show ?thesis using k(2) blob_roundtrip [OF assms(1) k(2) assms(11,12)] by blast
qed

lemma pairwise_key_agreement_witness:
  "\<exists>k. derive_pairwise_relay_key plain_kdf plain_crates (replicate 32 0) plain_signer (plain_signer @ ''='') = Inr k \<and>
     length k = 32 \<and>
     (\<exists>e. encrypt_blob plain_kdf (replicate 12 1) k [7, 8] = Inr e \<and> decrypt_blob plain_kdf k e = Inr [7, 8])"
proof -
  have d: "b64_decode plain_crates (plain_signer @ ''='') = Inr (replicate 32 0)"
    by (simp add: plain_crates_def b64url_decode_bare plain_signer_def)
  have m: "length [7, 8 :: u8] \<le> GCM_MAX" by (simp add: GCM_MAX_def)
  show ?thesis
    using pairwise_key_agreement [where a = plain_signer and b = plain_signer and nonce = "replicate 12 1" and sa = "replicate 32 0",
        OF plain_kdf_ok _ _ d d length_replicate length_replicate plain_sel(6) plain_sel(6) refl length_replicate m]
    unfolding trim_end_append_self by blast
qed

end
