(* ===== verification/Brand.thy ===== *)
theory Brand
  imports Rust_Str
begin

text \<open>
  Invite and portal links, \<open>conquerd-features/src/brand.rs\<close>: minting a link, reducing a link a user
  pasted to the part the invite code parses, and finding a link in a text.
\<close>

section \<open>Strings\<close>

text \<open>\<open>to_ascii_lowercase\<close> maps the bytes of \<open>A\<close> to \<open>Z\<close> and leaves every other byte alone.\<close>

definition ascii_lower :: "char \<Rightarrow> char" where
  "ascii_lower c = (if 65 \<le> (of_char c :: nat) \<and> (of_char c :: nat) \<le> 90 then char_of (of_char c + 32 :: nat) else c)"

definition to_ascii_lowercase :: "string \<Rightarrow> string" where
  "to_ascii_lowercase s = map ascii_lower s"

definition starts_with :: "string \<Rightarrow> string \<Rightarrow> bool" where
  "starts_with p s \<longleftrightarrow> take (length p) s = p"

definition is_ascii_alphanumeric :: "char \<Rightarrow> bool" where
  "is_ascii_alphanumeric c \<longleftrightarrow>
     (let n = (of_char c :: nat) in 48 \<le> n \<and> n \<le> 57 \<or> 65 \<le> n \<and> n \<le> 90 \<or> 97 \<le> n \<and> n \<le> 122)"

section \<open>Minting\<close>

definition URI_SCHEME :: string where "URI_SCHEME = ''d''"
definition URI_SCHEME_ALT :: string where "URI_SCHEME_ALT = ''doubleslash''"
definition URI_SCHEME_LEGACY :: string where "URI_SCHEME_LEGACY = ''conquerd''"
definition URI_SCHEMES :: "string list" where "URI_SCHEMES = [URI_SCHEME_ALT, URI_SCHEME_LEGACY, URI_SCHEME]"
definition HANDOFF_SCHEMES :: "string list" where "HANDOFF_SCHEMES = [URI_SCHEME_ALT, URI_SCHEME]"
definition INVITE_HTTPS_HOST :: string where "INVITE_HTTPS_HOST = ''doubleslash.space''"
definition HTTPS_INVITE_PATHS :: "(string \<times> string) list" where
  "HTTPS_INVITE_PATHS = [(''invite'', ''/i''), (''room'', ''/r'')]"

definition mint_uri :: "string \<Rightarrow> string" where
  "mint_uri rest = URI_SCHEME @ ''://'' @ rest"

definition mint_invite_https :: "string \<Rightarrow> string \<Rightarrow> string" where
  "mint_invite_https action encoded =
     (let path = (case find (\<lambda>(a, _). a = action) HTTPS_INVITE_PATHS of None \<Rightarrow> ''/i'' | Some (_, p) \<Rightarrow> p)
      in ''https://'' @ INVITE_HTTPS_HOST @ path @ ''#'' @ encoded)"

definition mint_handoff_uri :: "string \<Rightarrow> string" where
  "mint_handoff_uri rest = URI_SCHEME_ALT @ ''://'' @ rest"

section \<open>Parsing\<close>

fun strip_schemes :: "string \<Rightarrow> string \<Rightarrow> string list \<Rightarrow> string option" where
  "strip_schemes url sep [] = None"
| "strip_schemes url sep (scheme # schemes) =
     (let n = length scheme + length sep; head = take n url in
      if length url < n then strip_schemes url sep schemes
      else if to_ascii_lowercase (take (length scheme) head) = to_ascii_lowercase scheme \<and> drop (length scheme) head = sep
      then Some (drop n url)
      else strip_schemes url sep schemes)"

definition strip_scheme_in :: "string \<Rightarrow> string list \<Rightarrow> string option" where
  "strip_scheme_in url schemes =
     (case strip_schemes url ''://'' schemes of Some r \<Rightarrow> Some r | None \<Rightarrow> strip_schemes url '':/'' schemes)"

definition strip_scheme :: "string \<Rightarrow> string option" where
  "strip_scheme url = strip_scheme_in url URI_SCHEMES"

definition strip_https_invite :: "string \<Rightarrow> (string \<times> string) option" where
  "strip_https_invite url =
     (let lower = to_ascii_lowercase url;
          off0 = (if starts_with ''https://'' lower then 8 else if starts_with ''http://'' lower then 7 else 0)
      in if off0 = 0 then None
         else
           let off1 = (if starts_with ''www.'' (drop off0 lower) then off0 + 4 else off0)
           in if \<not> starts_with INVITE_HTTPS_HOST (drop off1 lower) then None
              else
                let off2 = off1 + length INVITE_HTTPS_HOST
                in case find (\<lambda>(_, path). starts_with path (drop off2 lower)) HTTPS_INVITE_PATHS of
                     None \<Rightarrow> None
                   | Some (action, path) \<Rightarrow>
                       let off3 = off2 + length path;
                           off4 = (if starts_with ''/'' (drop off3 lower) then off3 + 1 else off3)
                       in case drop off4 url of
                            [] \<Rightarrow> None
                          | c # payload \<Rightarrow>
                              if c \<noteq> CHR ''#'' then None
                              else if payload = [] then None
                              else Some (action, payload))"

definition normalize_app_url :: "string \<Rightarrow> string option" where
  "normalize_app_url url =
     (case strip_https_invite url of
        Some (action, payload) \<Rightarrow> Some (action @ ''#'' @ payload)
      | None \<Rightarrow> strip_scheme_in url HANDOFF_SCHEMES)"

definition looks_like_app_url :: "string \<Rightarrow> bool" where
  "looks_like_app_url url \<longleftrightarrow> normalize_app_url url \<noteq> None"

section \<open>Finding a link in a text\<close>

text \<open>\<open>str::find\<close>, and the loop that collects the starts of one needle.\<close>

fun str_find :: "string \<Rightarrow> string \<Rightarrow> nat option" where
  "str_find needle [] = (if needle = [] then Some 0 else None)"
| "str_find needle (c # s) = (if starts_with needle (c # s) then Some 0 else map_option Suc (str_find needle s))"

definition start_ok :: "string \<Rightarrow> nat \<Rightarrow> bool" where
  "start_ok lower at \<longleftrightarrow> at = 0 \<or> \<not> is_ascii_alphanumeric (lower ! (at - 1))"

function scan_needle :: "string \<Rightarrow> string \<Rightarrow> nat \<Rightarrow> nat list" where
  "scan_needle needle lower from =
     (case str_find needle (drop from lower) of
        None \<Rightarrow> []
      | Some rel \<Rightarrow>
          if length lower < from + rel + 1 then (if start_ok lower (from + rel) then [from + rel] else [])
          else (if start_ok lower (from + rel) then [from + rel] else []) @ scan_needle needle lower (from + rel + 1))"
  by pat_completeness auto
termination
  by (relation "measure (\<lambda>(needle, lower, from). Suc (length lower) - from)") auto

text \<open>The end of a candidate: the first white space, quote or angle bracket.\<close>

fun url_end :: "string \<Rightarrow> nat" where
  "url_end [] = 0"
| "url_end (c # s) = (if ws_prefix (c # s) \<noteq> 0 \<or> c \<in> set [CHR 0x22, CHR 0x27, CHR ''<'', CHR ''>''] then 0 else Suc (url_end s))"

definition first_candidate :: "string \<Rightarrow> nat list \<Rightarrow> string option" where
  "first_candidate txt starts =
     (case find (\<lambda>start. looks_like_app_url (take (url_end (drop start txt)) (drop start txt))) starts of
        None \<Rightarrow> None
      | Some start \<Rightarrow> Some (take (url_end (drop start txt)) (drop start txt)))"

definition find_app_url :: "string \<Rightarrow> string option" where
  "find_app_url txt =
     (let lower = to_ascii_lowercase txt;
          starts = concat (map (\<lambda>needle. scan_needle needle lower 0) [''https://'', ''http://'', ''doubleslash://'', ''d://''])
      in first_candidate txt (remdups (sort starts)))"

section \<open>Lemmas\<close>

lemma starts_with_append [simp]: "starts_with p (p @ s)"
  by (simp add: starts_with_def)

lemma lower_append [simp]: "to_ascii_lowercase (a @ b) = to_ascii_lowercase a @ to_ascii_lowercase b"
  by (simp add: to_ascii_lowercase_def)

lemma length_lower [simp]: "length (to_ascii_lowercase s) = length s"
  by (simp add: to_ascii_lowercase_def)

lemma lower_consts [simp]:
  "to_ascii_lowercase ''https://'' = ''https://''" "to_ascii_lowercase INVITE_HTTPS_HOST = INVITE_HTTPS_HOST"
  "to_ascii_lowercase ''/i#'' = ''/i#''" "to_ascii_lowercase ''/r#'' = ''/r#''"
  by (simp_all add: to_ascii_lowercase_def ascii_lower_def INVITE_HTTPS_HOST_def)

lemma strip_https_minted:
  assumes "p \<noteq> []"
  shows "strip_https_invite (mint_invite_https ''invite'' p) = Some (''invite'', p)"
    "strip_https_invite (mint_invite_https ''room'' p) = Some (''room'', p)"
  using assms
  by (simp_all add: strip_https_invite_def mint_invite_https_def HTTPS_INVITE_PATHS_def INVITE_HTTPS_HOST_def starts_with_def
      to_ascii_lowercase_def ascii_lower_def neq_Nil_conv split: list.splits)

lemma normalize_minted:
  "p \<noteq> [] \<Longrightarrow> normalize_app_url (mint_invite_https ''invite'' p) = Some (''invite#'' @ p)"
  "p \<noteq> [] \<Longrightarrow> normalize_app_url (mint_invite_https ''room'' p) = Some (''room#'' @ p)"
  by (simp_all add: normalize_app_url_def strip_https_minted)

lemma normalize_handoff: "normalize_app_url (mint_handoff_uri rest) = Some rest"
  by (simp add: normalize_app_url_def mint_handoff_uri_def strip_https_invite_def strip_scheme_in_def HANDOFF_SCHEMES_def
      URI_SCHEME_ALT_def URI_SCHEME_def starts_with_def to_ascii_lowercase_def ascii_lower_def)

lemma legacy_not_an_invite: "normalize_app_url (URI_SCHEME_LEGACY @ ''://'' @ rest) = None"
  "strip_scheme (URI_SCHEME_LEGACY @ ''://'' @ rest) = Some rest"
  by (simp_all add: normalize_app_url_def strip_https_invite_def strip_scheme_in_def HANDOFF_SCHEMES_def strip_scheme_def URI_SCHEMES_def
      URI_SCHEME_ALT_def URI_SCHEME_def URI_SCHEME_LEGACY_def starts_with_def to_ascii_lowercase_def ascii_lower_def Let_def)

end
