(* ===== verification/Handshake.thy ===== *)
theory Handshake
  imports Client_Crypto Brand
begin

text \<open>
  Invites and the invite handshake of a supernode, \<open>conquerd-supernode/src/handshake.rs\<close>, with the
  identity of the node (\<open>identity.rs\<close>). A signing key is its public bytes with its signing function; the
  key generators and the clock are arguments. The text of a file is what the JSON library prints; \<open>P\<close> is
  the pretty printer of the file.
\<close>

section \<open>The identity of a node\<close>

record identity =
  id_public :: bytes
  id_sign :: "bytes \<Rightarrow> bytes"

definition id_public_id :: "crates \<Rightarrow> identity \<Rightarrow> peer_id" where
  "id_public_id C i = cr_b64_encode C (id_public i)"

definition id_peer_id :: "crates \<Rightarrow> identity \<Rightarrow> string" where
  "id_peer_id C i = sha256_hex C (id_public i)"

definition verify_with_pub :: "crates \<Rightarrow> bytes \<Rightarrow> bytes \<Rightarrow> bytes \<Rightarrow> bool" where
  "verify_with_pub C pub_bytes signature data =
     (if length pub_bytes \<noteq> 32 \<or> length signature \<noteq> 64 then False
      else if \<not> cr_key_ok C pub_bytes then False
      else cr_verify C pub_bytes signature data)"

text \<open>\<open>ed_public\<close> and \<open>ed_sign\<close> expand a 32-byte seed to a key pair.\<close>

definition identity_of_seed :: "(bytes \<Rightarrow> bytes) \<Rightarrow> (bytes \<Rightarrow> bytes \<Rightarrow> bytes) \<Rightarrow> bytes \<Rightarrow> identity" where
  "identity_of_seed ed_public ed_sign seed = \<lparr>id_public = ed_public seed, id_sign = ed_sign seed\<rparr>"

definition identity_save :: "json_lib \<Rightarrow> crates \<Rightarrow> identity \<Rightarrow> bytes \<Rightarrow> string" where
  "identity_save P C i seed =
     jl_print P [(''version'', VNum (NInt 1)), (''public_key'', VStr (cr_b64_encode C (id_public i))),
       (''private_key'', VStr (cr_b64_encode C seed))]"

definition is_u32 :: "jvalue option \<Rightarrow> bool" where
  "is_u32 v = (case v of Some (VNum (NInt i)) \<Rightarrow> 0 \<le> i \<and> i < 2 ^ 32 | _ \<Rightarrow> False)"

definition identity_load :: "json_lib \<Rightarrow> crates \<Rightarrow> (bytes \<Rightarrow> bytes) \<Rightarrow> (bytes \<Rightarrow> bytes \<Rightarrow> bytes) \<Rightarrow> string \<Rightarrow> identity option" where
  "identity_load P C ed_public ed_sign data =
     (case jl_parse P data of
        None \<Rightarrow> None
      | Some v \<Rightarrow>
          (case (is_u32 (jget ''version'' v), get_str ''public_key'' v, get_str ''private_key'' v) of
             (True, Some _, Some private_key) \<Rightarrow>
               (case b64_decode C private_key of
                  Inl _ \<Rightarrow> None
                | Inr seed \<Rightarrow> if length seed \<noteq> 32 then None else Some (identity_of_seed ed_public ed_sign seed))
           | _ \<Rightarrow> None))"

section \<open>Invites\<close>

record invite_payload =
  iv_inviter_peer_id :: string
  iv_inviter_identity_pub :: peer_id
  iv_invite_id :: string
  iv_expires_at :: int
  iv_inviter_ephemeral_pub :: string
  iv_relay_hint :: "string option"
  iv_inviter_handle :: "string option"
  iv_udp_hole_punch_hint :: "string option"
  iv_lan_hint :: "string option"
  iv_is_supernode :: "bool option"
  iv_supernode_info :: "jvalue list option"
  iv_supernode_relay_hints :: "string list option"
  iv_stun_hints :: "string list option"
  iv_turn_hints :: "string list option"
  iv_signature :: "string option"

text \<open>An absent option is \<open>null\<close> in the signed form and missing in the stored form.\<close>

definition or_null :: "('a \<Rightarrow> jvalue) \<Rightarrow> 'a option \<Rightarrow> jvalue" where
  "or_null f v = (case v of None \<Rightarrow> VNull | Some x \<Rightarrow> f x)"

definition if_some :: "string \<Rightarrow> ('a \<Rightarrow> jvalue) \<Rightarrow> 'a option \<Rightarrow> (string \<times> jvalue) list" where
  "if_some k f v = (case v of None \<Rightarrow> [] | Some x \<Rightarrow> [(k, f x)])"

definition str_list :: "string list \<Rightarrow> jvalue" where
  "str_list xs = VArr (map VStr xs)"

definition invite_canonical_bytes :: "json_lib \<Rightarrow> invite_payload \<Rightarrow> bytes" where
  "invite_canonical_bytes L p = as_bytes (jl_print L (bt_of
     [(''expires_at'', VNum (NInt (iv_expires_at p))), (''invite_id'', VStr (iv_invite_id p)),
      (''inviter_ephemeral_pub'', VStr (iv_inviter_ephemeral_pub p)), (''inviter_handle'', or_null VStr (iv_inviter_handle p)),
      (''inviter_identity_pub'', VStr (iv_inviter_identity_pub p)), (''inviter_peer_id'', VStr (iv_inviter_peer_id p)),
      (''is_supernode'', or_null VBool (iv_is_supernode p)), (''lan_hint'', or_null VStr (iv_lan_hint p)),
      (''relay_hint'', or_null VStr (iv_relay_hint p)), (''stun_hints'', or_null str_list (iv_stun_hints p)),
      (''supernode_info'', or_null VArr (iv_supernode_info p)), (''supernode_relay_hints'', or_null str_list (iv_supernode_relay_hints p)),
      (''turn_hints'', or_null str_list (iv_turn_hints p)), (''udp_hole_punch_hint'', or_null VStr (iv_udp_hole_punch_hint p))] []))"

definition sign_invite :: "json_lib \<Rightarrow> crates \<Rightarrow> identity \<Rightarrow> invite_payload \<Rightarrow> invite_payload" where
  "sign_invite L C i p = p\<lparr>iv_signature := Some (cr_b64_encode C (id_sign i (invite_canonical_bytes L p)))\<rparr>"

definition invite_verify :: "json_lib \<Rightarrow> crates \<Rightarrow> invite_payload \<Rightarrow> bool" where
  "invite_verify L C p =
     (case iv_signature p of
        None \<Rightarrow> False
      | Some sig_b64 \<Rightarrow>
          (case (b64_decode C sig_b64, b64_decode C (iv_inviter_identity_pub p)) of
             (Inr sig_bytes, Inr pub_bytes) \<Rightarrow> verify_with_pub C pub_bytes sig_bytes (invite_canonical_bytes L p)
           | _ \<Rightarrow> False))"

text \<open>The fields as the derived serialiser writes them.\<close>

definition invite_fields :: "invite_payload \<Rightarrow> (string \<times> jvalue) list" where
  "invite_fields p =
     [(''inviter_peer_id'', VStr (iv_inviter_peer_id p)), (''inviter_identity_pub'', VStr (iv_inviter_identity_pub p)),
      (''invite_id'', VStr (iv_invite_id p)), (''expires_at'', VNum (NInt (iv_expires_at p))),
      (''inviter_ephemeral_pub'', VStr (iv_inviter_ephemeral_pub p))]
     @ if_some ''relay_hint'' VStr (iv_relay_hint p) @ if_some ''inviter_handle'' VStr (iv_inviter_handle p)
     @ if_some ''udp_hole_punch_hint'' VStr (iv_udp_hole_punch_hint p) @ if_some ''lan_hint'' VStr (iv_lan_hint p)
     @ if_some ''is_supernode'' VBool (iv_is_supernode p) @ if_some ''supernode_info'' VArr (iv_supernode_info p)
     @ if_some ''supernode_relay_hints'' str_list (iv_supernode_relay_hints p) @ if_some ''stun_hints'' str_list (iv_stun_hints p)
     @ if_some ''turn_hints'' str_list (iv_turn_hints p) @ if_some ''signature'' VStr (iv_signature p)"

definition to_uri :: "json_lib \<Rightarrow> crates \<Rightarrow> invite_payload \<Rightarrow> string" where
  "to_uri L C p = mint_invite_https ''invite'' (cr_b64_encode C (as_bytes (jl_print L (invite_fields p))))"

text \<open>The derived reader: an optional field may be missing or \<open>null\<close>; a wrong type is an error.\<close>

definition opt_field :: "(jvalue \<Rightarrow> 'a option) \<Rightarrow> string \<Rightarrow> jvalue \<Rightarrow> 'a option option" where
  "opt_field f k v =
     (case jget k v of None \<Rightarrow> Some None | Some VNull \<Rightarrow> Some None | Some w \<Rightarrow> (case f w of None \<Rightarrow> None | Some x \<Rightarrow> Some (Some x)))"

fun j_bool :: "jvalue \<Rightarrow> bool option" where
  "j_bool (VBool b) = Some b"
| "j_bool _ = None"

fun j_i64 :: "jvalue \<Rightarrow> int option" where
  "j_i64 (VNum (NInt i)) = (if - (2 ^ 63) \<le> i \<and> i < 2 ^ 63 then Some i else None)"
| "j_i64 _ = None"

fun all_strs :: "jvalue list \<Rightarrow> string list option" where
  "all_strs [] = Some []"
| "all_strs (v # vs) = (case (j_str v, all_strs vs) of (Some s, Some ss) \<Rightarrow> Some (s # ss) | _ \<Rightarrow> None)"

definition j_strs :: "jvalue \<Rightarrow> string list option" where
  "j_strs v = (case as_array v of None \<Rightarrow> None | Some xs \<Rightarrow> all_strs xs)"

definition invite_from_value :: "jvalue \<Rightarrow> invite_payload option" where
  "invite_from_value v =
     (case (get_str ''inviter_peer_id'' v, get_str ''inviter_identity_pub'' v, get_str ''invite_id'' v,
            Option.bind (jget ''expires_at'' v) j_i64, get_str ''inviter_ephemeral_pub'' v) of
        (Some peer, Some pub, Some iid, Some expires, Some eph) \<Rightarrow>
          (case (opt_field j_str ''relay_hint'' v, opt_field j_str ''inviter_handle'' v, opt_field j_str ''udp_hole_punch_hint'' v,
                 opt_field j_str ''lan_hint'' v, opt_field j_bool ''is_supernode'' v) of
             (Some relay, Some handle, Some udp, Some lan, Some sn) \<Rightarrow>
               (case (opt_field as_array ''supernode_info'' v, opt_field j_strs ''supernode_relay_hints'' v, opt_field j_strs ''stun_hints'' v,
                      opt_field j_strs ''turn_hints'' v, opt_field j_str ''signature'' v) of
                  (Some info, Some hints, Some stun, Some turn, Some sig) \<Rightarrow>
                    Some \<lparr>iv_inviter_peer_id = peer, iv_inviter_identity_pub = pub, iv_invite_id = iid, iv_expires_at = expires,
                      iv_inviter_ephemeral_pub = eph, iv_relay_hint = relay, iv_inviter_handle = handle, iv_udp_hole_punch_hint = udp,
                      iv_lan_hint = lan, iv_is_supernode = sn, iv_supernode_info = info, iv_supernode_relay_hints = hints,
                      iv_stun_hints = stun, iv_turn_hints = turn, iv_signature = sig\<rparr>
                | _ \<Rightarrow> None)
           | _ \<Rightarrow> None)
      | _ \<Rightarrow> None)"

section \<open>The handshake manager\<close>

record pending_invite =
  pi_ephemeral_secret :: bytes
  pi_ephemeral_public :: bytes
  pi_expires_at :: int

record handshake_manager =
  hm_identity :: identity
  hm_listener_url :: string
  hm_pending :: "string \<rightharpoonup> pending_invite"
  hm_reusable_invite :: "invite_payload option"
  hm_invite_ttl_seconds :: int
  hm_turn_hints :: "string list option"
  hm_node_title :: string

definition new_handshake_manager :: "identity \<Rightarrow> string \<Rightarrow> int \<Rightarrow> handshake_manager" where
  "new_handshake_manager i url ttl = \<lparr>hm_identity = i, hm_listener_url = url, hm_pending = Map.empty, hm_reusable_invite = None,
     hm_invite_ttl_seconds = ttl, hm_turn_hints = None, hm_node_title = ''Supernode''\<rparr>"

text \<open>Addition of two 64-bit signed integers.\<close>

definition i64_add :: "int \<Rightarrow> int \<Rightarrow> int" where
  "i64_add a b = (a + b + 2 ^ 63) mod 2 ^ 64 - 2 ^ 63"

definition create_invite ::
  "kdf_lib \<Rightarrow> json_lib \<Rightarrow> crates \<Rightarrow> int \<Rightarrow> string \<Rightarrow> bytes \<Rightarrow> string option \<Rightarrow> handshake_manager \<Rightarrow> handshake_manager \<times> invite_payload" where
  "create_invite X L C now invite_id secret handle m =
     (let public = x_public X secret;
          expires_at = (if hm_invite_ttl_seconds m < 0 then i64_add now (100 * 365 * 86400) else i64_add now (hm_invite_ttl_seconds m));
          payload = sign_invite L C (hm_identity m)
            \<lparr>iv_inviter_peer_id = id_peer_id C (hm_identity m), iv_inviter_identity_pub = id_public_id C (hm_identity m),
             iv_invite_id = invite_id, iv_expires_at = expires_at, iv_inviter_ephemeral_pub = cr_b64_encode C public,
             iv_relay_hint = Some (hm_listener_url m), iv_inviter_handle = handle, iv_udp_hole_punch_hint = None, iv_lan_hint = None,
             iv_is_supernode = Some True, iv_supernode_info = None, iv_supernode_relay_hints = None, iv_stun_hints = None,
             iv_turn_hints = hm_turn_hints m, iv_signature = None\<rparr>
      in (m\<lparr>hm_pending := (hm_pending m)(invite_id \<mapsto>
             \<lparr>pi_ephemeral_secret = secret, pi_ephemeral_public = public, pi_expires_at = expires_at\<rparr>)\<rparr>, payload))"

definition get_or_create_reusable_invite ::
  "kdf_lib \<Rightarrow> json_lib \<Rightarrow> crates \<Rightarrow> int \<Rightarrow> string \<Rightarrow> bytes \<Rightarrow> string option \<Rightarrow> handshake_manager \<Rightarrow> handshake_manager \<times> invite_payload" where
  "get_or_create_reusable_invite X L C now invite_id secret handle m =
     (case hm_reusable_invite m of
        Some invite \<Rightarrow> (m, invite)
      | None \<Rightarrow> let (m', invite) = create_invite X L C now invite_id secret handle m in (m'\<lparr>hm_reusable_invite := Some invite\<rparr>, invite))"

text \<open>The text written to \<open>reusable_invite.json\<close>, if anything is.\<close>

definition save_reusable_invite :: "json_lib \<Rightarrow> crates \<Rightarrow> handshake_manager \<Rightarrow> string option" where
  "save_reusable_invite P C m =
     (case hm_reusable_invite m of
        None \<Rightarrow> None
      | Some invite \<Rightarrow>
          (case hm_pending m (iv_invite_id invite) of
             None \<Rightarrow> None
           | Some pending \<Rightarrow>
               Some (jl_print P (bt_of [(''invite'', jobj (invite_fields invite)),
                 (''ephemeral_secret'', VStr (cr_b64_encode C (pi_ephemeral_secret pending)))] []))))"

definition restore_pending :: "kdf_lib \<Rightarrow> string \<Rightarrow> bytes \<Rightarrow> int \<Rightarrow> handshake_manager \<Rightarrow> handshake_manager" where
  "restore_pending X invite_id secret expires_at m =
     m\<lparr>hm_pending := (hm_pending m)(invite_id \<mapsto>
        \<lparr>pi_ephemeral_secret = secret, pi_ephemeral_public = x_public X secret, pi_expires_at = expires_at\<rparr>)\<rparr>"

definition load_reusable_invite :: "kdf_lib \<Rightarrow> json_lib \<Rightarrow> crates \<Rightarrow> string option \<Rightarrow> handshake_manager \<Rightarrow> handshake_manager \<times> bool" where
  "load_reusable_invite X P C file m =
     (case file of
        None \<Rightarrow> (m, False)
      | Some data \<Rightarrow>
          (case jl_parse P data of
             None \<Rightarrow> (m, False)
           | Some parsed \<Rightarrow>
               (case invite_from_value (case jget ''invite'' parsed of Some v \<Rightarrow> v | None \<Rightarrow> VNull) of
                  None \<Rightarrow> (m, False)
                | Some invite \<Rightarrow>
                    (case get_str ''ephemeral_secret'' parsed of
                       None \<Rightarrow> (m, False)
                     | Some secret_b64 \<Rightarrow>
                         (case b64_decode C secret_b64 of
                            Inl _ \<Rightarrow> (m, False)
                          | Inr secret_bytes \<Rightarrow>
                              if length secret_bytes \<noteq> 32 then (m, False)
                              else ((restore_pending X (iv_invite_id invite) secret_bytes (iv_expires_at invite) m)
                                      \<lparr>hm_reusable_invite := Some invite\<rparr>, True))))))"

datatype init_error =
    Missing_field string | Unknown_invite string | Invite_expired | Bad_base64 | Ephemeral_not_32 | Low_order_point | Kdf_panic

definition need_field :: "string \<Rightarrow> jvalue \<Rightarrow> init_error + string" where
  "need_field k v = (case get_str k v of None \<Rightarrow> Inl (Missing_field k) | Some s \<Rightarrow> Inr s)"

definition SESSION_KEY_INFO :: bytes where "SESSION_KEY_INFO = as_bytes ''conquerd-invite-session-v2''"

text \<open>The end of \<open>process_init\<close>: the transcript, the session key and the accept payload.\<close>

definition finish_init ::
  "kdf_lib \<Rightarrow> json_lib \<Rightarrow> crates \<Rightarrow> handshake_manager \<Rightarrow> string \<Rightarrow> pending_invite \<Rightarrow> peer_id \<Rightarrow> string \<Rightarrow> bytes \<Rightarrow> init_error + (jvalue \<times> bytes \<times> peer_id)" where
  "finish_init X L C m invite_id pending joiner_identity_pub joiner_ephemeral_pub_b64 shared_secret =
     (let transcript_bytes = as_bytes (jl_print L (bt_of [(''invite_id'', VStr invite_id),
            (''inviter_ephemeral_pub'', VStr (cr_b64_encode C (pi_ephemeral_public pending))),
            (''inviter_identity_pub'', VStr (id_public_id C (hm_identity m))),
            (''joiner_ephemeral_pub'', VStr joiner_ephemeral_pub_b64), (''joiner_identity_pub'', VStr joiner_identity_pub)] []));
          ikm = be_bytes 4 (length shared_secret) @ shared_secret @ be_bytes 4 (length transcript_bytes) @ transcript_bytes
      in case x_hkdf X ikm SESSION_KEY_INFO 32 of
           None \<Rightarrow> Inl Kdf_panic
         | Some session_key \<Rightarrow>
             Inr (jobj [(''invite_id'', VStr invite_id), (''inviter_peer_id'', VStr (id_peer_id C (hm_identity m))),
               (''inviter_identity_pub'', VStr (id_public_id C (hm_identity m))), (''inviter_listener'', VStr (hm_listener_url m)),
               (''inviter_quic_port'', VNum (NInt 0)), (''transcript_hash'', VStr (sha256_hex C transcript_bytes)),
               (''inviter_handle'', VStr (hm_node_title m))], session_key, joiner_identity_pub))"

definition process_init :: "kdf_lib \<Rightarrow> json_lib \<Rightarrow> crates \<Rightarrow> int \<Rightarrow> jvalue \<Rightarrow> handshake_manager \<Rightarrow> init_error + (jvalue \<times> bytes \<times> peer_id)" where
  "process_init X L C now payload m =
     (case need_field ''invite_id'' payload of
        Inl e \<Rightarrow> Inl e
      | Inr invite_id \<Rightarrow>
          (case hm_pending m invite_id of
             None \<Rightarrow> Inl (Unknown_invite invite_id)
           | Some pending \<Rightarrow>
               if pi_expires_at pending < now then Inl Invite_expired
               else case need_field ''joiner_identity_pub'' payload of
                 Inl e \<Rightarrow> Inl e
               | Inr joiner_identity_pub \<Rightarrow>
                   (case need_field ''joiner_peer_id'' payload of
                      Inl e \<Rightarrow> Inl e
                    | Inr _ \<Rightarrow>
                        (case need_field ''joiner_ephemeral_pub'' payload of
                           Inl e \<Rightarrow> Inl e
                         | Inr joiner_ephemeral_pub_b64 \<Rightarrow>
                             (case b64_decode C joiner_ephemeral_pub_b64 of
                                Inl _ \<Rightarrow> Inl Bad_base64
                              | Inr joiner_eph_bytes \<Rightarrow>
                                  if length joiner_eph_bytes \<noteq> 32 then Inl Ephemeral_not_32
                                  else
                                    let shared_secret = x_dh X (pi_ephemeral_secret pending) joiner_eph_bytes
                                    in if list_all (\<lambda>b. b = 0) shared_secret then Inl Low_order_point
                                       else finish_init X L C m invite_id pending joiner_identity_pub joiner_ephemeral_pub_b64 shared_secret)))))"

section \<open>Stored invites\<close>

lemma map_of_if_some [simp]:
  "map_of (if_some k f v @ r) k' = (if k' = k then (case v of None \<Rightarrow> map_of r k' | Some x \<Rightarrow> Some (f x)) else map_of r k')"
  "map_of (if_some k f v) k' = (if k' = k then map_option f v else None)"
  by (simp_all add: if_some_def split: option.split)

lemma keys_if_some [simp]:
  "k' \<in> fst ` set (if_some k f v) \<longleftrightarrow> v \<noteq> None \<and> k' = k" "distinct (map fst (if_some k f v))"
  by (auto simp: if_some_def split: option.splits)

lemma if_some_set: "kv \<in> set (if_some k f v) \<longleftrightarrow> (\<exists>x. v = Some x \<and> kv = (k, f x))"
  by (auto simp: if_some_def split: option.splits)

lemma distinct_if_some [simp]:
  "distinct (map fst (if_some k f v @ r)) \<longleftrightarrow> (v = None \<or> k \<notin> fst ` set r) \<and> distinct (map fst r)"
  by (auto simp: if_some_def split: option.splits)

lemma invite_keys: "distinct (map fst (invite_fields p))"
  unfolding invite_fields_def append_Cons append_Nil list.map distinct.simps fst_conv distinct_if_some
  by (auto simp: image_Un if_some_set)

lemma all_strs_map [simp]: "all_strs (map VStr xs) = Some xs"
  by (induction xs) auto

lemma opt_field_some:
  "jget k v = map_option f x \<Longrightarrow> (\<And>y. g (f y) = Some y) \<Longrightarrow> (\<And>y. f y \<noteq> VNull) \<Longrightarrow> opt_field g k v = Some x"
proof -
  assume a: "jget k v = map_option f x" "\<And>y. g (f y) = Some y" "\<And>y. f y \<noteq> VNull"
  show ?thesis
  proof (cases x)
    case (Some y)
    then show ?thesis using a(3) [of y] a(2) [of y] a(1) by (cases "f y") (simp_all add: opt_field_def)
  qed (use a(1) in \<open>simp add: opt_field_def\<close>)
qed

lemma case_option_map: "(case v of None \<Rightarrow> None | Some x \<Rightarrow> Some (f x)) = map_option f v"
  by (cases v) auto

lemma invite_lookup:
  "jget ''relay_hint'' (jobj (invite_fields p)) = map_option VStr (iv_relay_hint p)"
  "jget ''inviter_handle'' (jobj (invite_fields p)) = map_option VStr (iv_inviter_handle p)"
  "jget ''udp_hole_punch_hint'' (jobj (invite_fields p)) = map_option VStr (iv_udp_hole_punch_hint p)"
  "jget ''lan_hint'' (jobj (invite_fields p)) = map_option VStr (iv_lan_hint p)"
  "jget ''is_supernode'' (jobj (invite_fields p)) = map_option VBool (iv_is_supernode p)"
  "jget ''supernode_info'' (jobj (invite_fields p)) = map_option VArr (iv_supernode_info p)"
  "jget ''supernode_relay_hints'' (jobj (invite_fields p)) = map_option str_list (iv_supernode_relay_hints p)"
  "jget ''stun_hints'' (jobj (invite_fields p)) = map_option str_list (iv_stun_hints p)"
  "jget ''turn_hints'' (jobj (invite_fields p)) = map_option str_list (iv_turn_hints p)"
  "jget ''signature'' (jobj (invite_fields p)) = map_option VStr (iv_signature p)"
  "jget ''inviter_peer_id'' (jobj (invite_fields p)) = Some (VStr (iv_inviter_peer_id p))"
  "jget ''inviter_identity_pub'' (jobj (invite_fields p)) = Some (VStr (iv_inviter_identity_pub p))"
  "jget ''invite_id'' (jobj (invite_fields p)) = Some (VStr (iv_invite_id p))"
  "jget ''expires_at'' (jobj (invite_fields p)) = Some (VNum (NInt (iv_expires_at p)))"
  "jget ''inviter_ephemeral_pub'' (jobj (invite_fields p)) = Some (VStr (iv_inviter_ephemeral_pub p))"
  unfolding jget_jobj [OF invite_keys] by (simp_all add: invite_fields_def case_option_map del: map_of_append cong: option.case_cong)

lemma invite_from_value_fields:
  assumes "- (2 ^ 63) \<le> iv_expires_at p" "iv_expires_at p < 2 ^ 63"
  shows "invite_from_value (jobj (invite_fields p)) = Some p"
proof -
  let ?v = "jobj (invite_fields p)"
  have o: "opt_field j_str ''relay_hint'' ?v = Some (iv_relay_hint p)" "opt_field j_str ''inviter_handle'' ?v = Some (iv_inviter_handle p)"
    "opt_field j_str ''udp_hole_punch_hint'' ?v = Some (iv_udp_hole_punch_hint p)" "opt_field j_str ''lan_hint'' ?v = Some (iv_lan_hint p)"
    "opt_field j_bool ''is_supernode'' ?v = Some (iv_is_supernode p)" "opt_field as_array ''supernode_info'' ?v = Some (iv_supernode_info p)"
    "opt_field j_strs ''supernode_relay_hints'' ?v = Some (iv_supernode_relay_hints p)"
    "opt_field j_strs ''stun_hints'' ?v = Some (iv_stun_hints p)" "opt_field j_strs ''turn_hints'' ?v = Some (iv_turn_hints p)"
    "opt_field j_str ''signature'' ?v = Some (iv_signature p)"
    by (rule opt_field_some, rule invite_lookup, simp_all add: j_strs_def str_list_def)+
  show ?thesis
    unfolding invite_from_value_def o get_str_def invite_lookup using assms by simp
qed

definition plain_value :: "jvalue list option \<Rightarrow> bool" where
  "plain_value v = (case v of None \<Rightarrow> True | Some xs \<Rightarrow> \<forall>x \<in> set xs. jcanon x)"

lemma invite_canon: "plain_value (iv_supernode_info p) \<Longrightarrow> \<forall>kv \<in> set (invite_fields p). jcanon (snd kv)"
  by (auto simp: invite_fields_def if_some_set str_list_def plain_value_def)

lemma i64_add_range: "- (2 ^ 63) \<le> i64_add a b" "i64_add a b < 2 ^ 63"
  by (simp_all add: i64_add_def)

lemma created_invite:
  assumes "create_invite X L C now invite_id secret handle m = (m', p)"
  shows "iv_invite_id p = invite_id" "- (2 ^ 63) \<le> iv_expires_at p \<and> iv_expires_at p < 2 ^ 63" "iv_supernode_info p = None"
    "hm_pending m' invite_id = Some \<lparr>pi_ephemeral_secret = secret, pi_ephemeral_public = x_public X secret, pi_expires_at = iv_expires_at p\<rparr>"
    "hm_identity m' = hm_identity m" "iv_inviter_ephemeral_pub p = cr_b64_encode C (x_public X secret)"
    "iv_inviter_identity_pub p = id_public_id C (hm_identity m)"
  using assms i64_add_range by (auto simp: create_invite_def sign_invite_def Let_def)

lemma invite_file_parses:
  assumes "json_ok P" "reads_b64 C C" "length secret = 32" "plain_value (iv_supernode_info ivt)"
    and "- (2 ^ 63) \<le> iv_expires_at ivt \<and> iv_expires_at ivt < 2 ^ 63"
    and "file = jl_print P (bt_of [(''invite'', jobj (invite_fields ivt)), (''ephemeral_secret'', VStr (cr_b64_encode C secret))] [])"
  shows "load_reusable_invite X P C (Some file) m =
    ((restore_pending X (iv_invite_id ivt) secret (iv_expires_at ivt) m)\<lparr>hm_reusable_invite := Some ivt\<rparr>, True)"
proof -
  let ?kvs = "[(''ephemeral_secret'', VStr (cr_b64_encode C secret)), (''invite'', jobj (invite_fields ivt))]"
  have srt: "bt_of [(''invite'', jobj (invite_fields ivt)), (''ephemeral_secret'', VStr (cr_b64_encode C secret))] [] = ?kvs"
    by (simp add: less_char_def)
  have "jcanon (jobj (invite_fields ivt))" by (rule jcanon_jobj [OF invite_canon [OF assms(4)]])
  then have parse: "jl_parse P file = Some (jobj ?kvs)"
    using assms(1) unfolding assms(6) srt json_ok_def by simp
  have g: "jget k (jobj ?kvs) = map_of ?kvs k" for k by (rule jget_jobj) simp
  show ?thesis
    using assms(2,3,5) by (simp add: load_reusable_invite_def parse g get_str_def invite_from_value_fields reads_b64_def)
qed

text \<open>
  A reusable invite survives a restart: the file the supernode writes after creating it, read by a
  new manager of the same node, restores the invite unchanged, and every handshake that names it has
  there the same outcome (accept payload, session key, error) as it had before the restart.
\<close>

lemma reusable_invite_survives_restart:
  assumes "json_ok P" "reads_b64 C C" "length secret = 32" "hm_reusable_invite m = None"
    and "get_or_create_reusable_invite X L C now invite_id secret handle m = (m', ivt)"
  shows "\<exists>file m''. save_reusable_invite P C m' = Some file \<and>
      load_reusable_invite X P C (Some file) (m\<lparr>hm_pending := Map.empty\<rparr>) = (m'', True) \<and>
      hm_reusable_invite m'' = Some ivt \<and> hm_pending m'' = [invite_id \<mapsto> the (hm_pending m' invite_id)] \<and>
      (\<forall>later payload. get_str ''invite_id'' payload = Some invite_id \<longrightarrow>
         process_init X L C later payload m'' = process_init X L C later payload m')"
proof -
  obtain m1 where c: "create_invite X L C now invite_id secret handle m = (m1, ivt)" and m': "m' = m1\<lparr>hm_reusable_invite := Some ivt\<rparr>"
    using assms(4,5) by (cases "create_invite X L C now invite_id secret handle m") (simp add: get_or_create_reusable_invite_def)
  note ci = created_invite [OF c]
  define doc where "doc = jl_print P (bt_of [(''invite'', jobj (invite_fields ivt)), (''ephemeral_secret'', VStr (cr_b64_encode C secret))] [])"
  define m'' where "m'' = (restore_pending X (iv_invite_id ivt) secret (iv_expires_at ivt) (m\<lparr>hm_pending := Map.empty\<rparr>))\<lparr>hm_reusable_invite := Some ivt\<rparr>"
  have s: "save_reusable_invite P C m' = Some doc"
    using ci by (simp add: save_reusable_invite_def m' doc_def)
  have l: "load_reusable_invite X P C (Some doc) (m\<lparr>hm_pending := Map.empty\<rparr>) = (m'', True)"
    unfolding m''_def by (rule invite_file_parses [OF assms(1-3) _ ci(2) doc_def]) (simp add: ci plain_value_def)
  have p: "hm_pending m'' = [invite_id \<mapsto> the (hm_pending m' invite_id)]"
    using ci by (simp add: m''_def restore_pending_def m')
  have same: "hm_identity m'' = hm_identity m'" "hm_listener_url m'' = hm_listener_url m'" "hm_node_title m'' = hm_node_title m'"
    "hm_pending m'' invite_id = hm_pending m' invite_id"
    using c ci p by (auto simp: m''_def restore_pending_def m' create_invite_def Let_def)
  have "process_init X L C later payload m'' = process_init X L C later payload m'"
    if "get_str ''invite_id'' payload = Some invite_id" for later payload
  proof -
    have f: "finish_init X L C m'' = finish_init X L C m'" by (intro ext) (simp only: finish_init_def same)
    show ?thesis unfolding process_init_def f need_field_def that by (simp add: same)
  qed
  then show ?thesis using s l p by (auto simp: m''_def)
qed

definition plain_identity :: identity where
  "plain_identity = \<lparr>id_public = replicate 32 0, id_sign = (\<lambda>_. replicate 64 0)\<rparr>"

definition demo_manager :: handshake_manager where
  "demo_manager = new_handshake_manager plain_identity ''wss://n'' 600"

lemma reusable_invite_survives_restart_witness:
  "\<exists>file m''. save_reusable_invite plain_json plain_crates
       (fst (get_or_create_reusable_invite plain_kdf plain_json plain_crates 100 ''ab'' (replicate 32 5) None demo_manager)) = Some file \<and>
     load_reusable_invite plain_kdf plain_json plain_crates (Some file) demo_manager = (m'', True)"
proof -
  let ?g = "get_or_create_reusable_invite plain_kdf plain_json plain_crates 100 ''ab'' (replicate 32 5) None demo_manager"
  have g: "?g = (fst ?g, snd ?g)" by simp
  have "demo_manager\<lparr>hm_pending := Map.empty\<rparr> = demo_manager" "hm_reusable_invite demo_manager = None"
    by (simp_all add: demo_manager_def new_handshake_manager_def)
  with reusable_invite_survives_restart [OF plain_json_ok crates_reads [OF plain_crates_ok] length_replicate _ g]
  show ?thesis by auto
qed

section \<open>Both sides of a handshake\<close>

definition init_payload :: "string \<Rightarrow> peer_id \<Rightarrow> string \<Rightarrow> string \<Rightarrow> jvalue" where
  "init_payload invite_id joiner peer eph = jobj [(''invite_id'', VStr invite_id), (''joiner_identity_pub'', VStr joiner),
     (''joiner_peer_id'', VStr peer), (''joiner_ephemeral_pub'', VStr eph)]"

lemma init_payload_get:
  "get_str ''invite_id'' (init_payload i j p e) = Some i" "get_str ''joiner_identity_pub'' (init_payload i j p e) = Some j"
  "get_str ''joiner_peer_id'' (init_payload i j p e) = Some p" "get_str ''joiner_ephemeral_pub'' (init_payload i j p e) = Some e"
  by (simp_all add: init_payload_def get_str_def jget_jobj)

text \<open>
  C18. Supernode and joiner agree. For an invite the supernode created and a joiner that read its link,
  the handshake message is accepted exactly when the invite has not expired and the shared secret is
  not all zero; then the session key the supernode derives is the one the joiner derives from the
  invite and its own secret, and the transcript hash in the accept message is the hash the joiner
  computes. An unknown invite, an expired one and a low-order point are refused with their own error.
  \<open>S\<close> and \<open>C\<close> are the base64 functions of the two programs, \<open>enc\<close> the unpadded encoding the joiner sends.
\<close>

theorem handshake_agreement:
  assumes "kdf_ok X" "reads_b64 C S" "\<And>b. b64_decode S (enc b) = Inr b" "cr_sha256 C = cr_sha256 S" "cr_hex_encode C = cr_hex_encode S"
    and "create_invite X L S now0 invite_id secret handle m = (m', ivt)"
    and "msg = init_payload invite_id joiner peer (enc (x_public X joiner_secret))"
    and "shared = x_dh X joiner_secret (x_public X secret)"
  shows "(later \<le> iv_expires_at ivt \<and> \<not> list_all (\<lambda>b. b = 0) shared \<longrightarrow>
       (\<exists>accept key. process_init X L S later msg m' = Inr (accept, key, joiner) \<and>
          derive_invite_session_key X L C joiner_secret (iv_inviter_ephemeral_pub ivt) invite_id (iv_inviter_identity_pub ivt) joiner
            (enc (x_public X joiner_secret)) = Inr (key, the (get_str ''transcript_hash'' accept)) \<and> length key = 32)) \<and>
    (iv_expires_at ivt < later \<longrightarrow> process_init X L S later msg m' = Inl Invite_expired) \<and>
    (later \<le> iv_expires_at ivt \<and> list_all (\<lambda>b. b = 0) shared \<longrightarrow> process_init X L S later msg m' = Inl Low_order_point) \<and>
    (hm_pending m' other = None \<longrightarrow> process_init X L S later (init_payload other joiner peer eph) m' = Inl (Unknown_invite other))"
proof -
  note ci = created_invite [OF assms(6)]
  have dh: "x_dh X secret (x_public X joiner_secret) = shared" using kdf_okD(1) [OF assms(1)] assms(8) by simp
  define t where "t = as_bytes (jl_print L (bt_of [(''invite_id'', VStr invite_id),
     (''inviter_ephemeral_pub'', VStr (cr_b64_encode S (x_public X secret))), (''inviter_identity_pub'', VStr (id_public_id S (hm_identity m))),
     (''joiner_ephemeral_pub'', VStr (enc (x_public X joiner_secret))), (''joiner_identity_pub'', VStr joiner)] []))"
  obtain key where key: "x_hkdf X (len_prefixed shared @ len_prefixed t) SESSION_KEY_INFO 32 = Some key" "length key = 32"
    using kdf_okD(3) [OF assms(1)] by blast
  have hash: "sha256_hex C t = sha256_hex S t" by (simp add: sha256_hex_def assms(4,5))
  have "derive_invite_session_key X L C joiner_secret (iv_inviter_ephemeral_pub ivt) invite_id (iv_inviter_identity_pub ivt) joiner
      (enc (x_public X joiner_secret)) = Inr (key, sha256_hex S t)"
    using key assms(2,8) kdf_okD(2) [OF assms(1)]
    by (simp add: derive_invite_session_key_def ci reads_b64_def hkdf_derive_key_def INVITE_SESSION_KEY_INFO_def SESSION_KEY_INFO_def
        t_def [symmetric] hash del: bt_of.simps)
  moreover have "\<exists>accept. process_init X L S later msg m' = Inr (accept, key, joiner) \<and> get_str ''transcript_hash'' accept = Some (sha256_hex S t)"
    if "later \<le> iv_expires_at ivt" "\<not> list_all (\<lambda>b. b = 0) shared"
  proof -
    obtain accept where f: "finish_init X L S m' invite_id \<lparr>pi_ephemeral_secret = secret, pi_ephemeral_public = x_public X secret,
        pi_expires_at = iv_expires_at ivt\<rparr> joiner (enc (x_public X joiner_secret)) shared = Inr (accept, key, joiner)"
      and g: "get_str ''transcript_hash'' accept = Some (sha256_hex S t)"
      using key by (simp add: finish_init_def ci t_def [symmetric] len_prefixed_def get_str_def jget_jobj del: bt_of.simps)
    then show ?thesis
      using that kdf_okD(2) [OF assms(1)] by (simp add: process_init_def need_field_def assms(3,7) init_payload_get ci dh)
  qed
  moreover have "process_init X L S later msg m' = Inl Invite_expired" if "iv_expires_at ivt < later"
    using that by (simp add: process_init_def need_field_def assms(7) init_payload_get ci)
  moreover have "process_init X L S later msg m' = Inl Low_order_point"
    if "later \<le> iv_expires_at ivt" "list_all (\<lambda>b. b = 0) shared"
    using that kdf_okD(2) [OF assms(1)] by (simp add: process_init_def need_field_def assms(3,7) init_payload_get ci dh)
  moreover have "process_init X L S later (init_payload other joiner peer eph) m' = Inl (Unknown_invite other)" if "hm_pending m' other = None"
    using that by (simp add: process_init_def need_field_def init_payload_get)
  ultimately show ?thesis using key(2) by (metis option.sel)
qed

theorem handshake_agreement_witness:
  "\<exists>m' ivt accept key. create_invite plain_kdf plain_json plain_crates 100 ''ab'' (replicate 32 5) None demo_manager = (m', ivt) \<and>
     process_init plain_kdf plain_json plain_crates 200 (init_payload ''ab'' ''joe'' ''p'' (cr_b64_encode plain_crates (x_public plain_kdf [7]))) m'
       = Inr (accept, key, ''joe'') \<and>
     derive_invite_session_key plain_kdf plain_json plain_crates [7] (iv_inviter_ephemeral_pub ivt) ''ab'' (iv_inviter_identity_pub ivt) ''joe''
       (cr_b64_encode plain_crates (x_public plain_kdf [7])) = Inr (key, the (get_str ''transcript_hash'' accept))"
proof -
  obtain m' ivt where c: "create_invite plain_kdf plain_json plain_crates 100 ''ab'' (replicate 32 5) None demo_manager = (m', ivt)"
    by (cases "create_invite plain_kdf plain_json plain_crates 100 ''ab'' (replicate 32 5) None demo_manager")
  have e: "iv_expires_at ivt = 700"
    using c by (auto simp: create_invite_def Let_def sign_invite_def demo_manager_def new_handshake_manager_def i64_add_def)
  have z: "\<not> list_all (\<lambda>b. b = 0) (x_dh plain_kdf [7] (x_public plain_kdf (replicate 32 5)))"
  proof -
    have "x_dh plain_kdf [7] (x_public plain_kdf (replicate 32 5)) ! 0 = 12"
      by (simp add: plain_kdf_def fit32_def nth_append)
    moreover have "length (x_dh plain_kdf [7] (x_public plain_kdf (replicate 32 5))) = 32" by (simp add: plain_kdf_def)
    ultimately show ?thesis unfolding list_all_length by force
  qed
  have enc: "b64_decode plain_crates (cr_b64_encode plain_crates b) = Inr b" for b by simp
  show ?thesis
    using handshake_agreement [OF plain_kdf_ok crates_reads [OF plain_crates_ok] enc refl refl c refl refl,
        where later = 200 and joiner = "''joe''" and peer = "''p''" and joiner_secret = "[7]" and other = "[]" and eph = "[]"] c z
    by (simp only: e) auto
qed

end
