(* ===== verification/Group_Key.thy ===== *)
theory Group_Key
  imports Client_Crypto
begin

text \<open>
  Group keys of rooms and the sealed frames that use them, \<open>conquerd-client/src/group_key.rs\<close>. The trait
  \<open>GroupKeySource\<close> is the locale \<open>key_source\<close>; its one implementation \<open>SenderKeysGroup\<close> interprets it.
  The codecs take the two methods of the trait as arguments. A \<open>BTreeMap<u8, key>\<close> is the list of its
  entries in key order. Clock readings and random bytes are arguments.
\<close>

section \<open>Epoch state of a conversation\<close>

definition VOICE_NONCE_LEN :: nat where "VOICE_NONCE_LEN = 12"
definition VOICE_HEADER_LEN :: nat where "VOICE_HEADER_LEN = 1 + VOICE_NONCE_LEN"
definition GROUP_KEY_LEN :: nat where "GROUP_KEY_LEN = 32"
definition MAX_RETAINED_EPOCHS :: nat where "MAX_RETAINED_EPOCHS = 4"

record group_state =
  gs_current :: u8
  gs_seen_high :: "u8 option"
  gs_current_since :: "instant option"
  gs_keys :: "(u8 \<times> bytes) list"

definition default_group :: group_state where
  "default_group = \<lparr>gs_current = 0, gs_seen_high = None, gs_current_since = None, gs_keys = []\<rparr>"

fun ek_insert :: "u8 \<Rightarrow> bytes \<Rightarrow> (u8 \<times> bytes) list \<Rightarrow> (u8 \<times> bytes) list" where
  "ek_insert e k [] = [(e, k)]"
| "ek_insert e k ((e', k') # m) =
     (if e < e' then (e, k) # (e', k') # m else if e = e' then (e, k) # m else (e', k') # ek_insert e k m)"

function prune_epochs :: "(u8 \<times> bytes) list \<Rightarrow> (u8 \<times> bytes) list" where
  "prune_epochs ks = (if MAX_RETAINED_EPOCHS < length ks then prune_epochs (tl ks) else ks)"
  by pat_completeness auto
termination
  by (relation "measure length") (auto simp: MAX_RETAINED_EPOCHS_def)

definition note_seen :: "u8 \<Rightarrow> group_state \<Rightarrow> group_state" where
  "note_seen epoch s = s\<lparr>gs_seen_high := Some (case gs_seen_high s of
     Some high \<Rightarrow> if epoch \<le> high then high else epoch | None \<Rightarrow> epoch)\<rparr>"

definition install_epoch :: "instant \<Rightarrow> u8 \<Rightarrow> bytes \<Rightarrow> group_state \<Rightarrow> group_state" where
  "install_epoch now epoch key s =
     (let s1 = s\<lparr>gs_keys := ek_insert epoch key (gs_keys s)\<rparr>;
          s2 = (if gs_current s1 \<noteq> epoch \<or> gs_current_since s1 = None then s1\<lparr>gs_current_since := Some now\<rparr> else s1);
          s3 = note_seen epoch (s2\<lparr>gs_current := epoch\<rparr>)
      in s3\<lparr>gs_keys := prune_epochs (gs_keys s3)\<rparr>)"

definition has_keys :: "group_state \<Rightarrow> bool" where
  "has_keys s \<longleftrightarrow> gs_keys s \<noteq> []"

definition next_epoch :: "group_state \<Rightarrow> u8" where
  "next_epoch s = (case gs_seen_high s of
     Some high \<Rightarrow> if gs_current s \<le> high then high else gs_current s | None \<Rightarrow> gs_current s) + 1"

section \<open>Sender keys\<close>

type_synonym sender_keys_group = "room_id \<rightharpoonup> group_state"

definition group_entry :: "room_id \<Rightarrow> sender_keys_group \<Rightarrow> group_state" where
  "group_entry conv_id g = (case g conv_id of None \<Rightarrow> default_group | Some s \<Rightarrow> s)"

definition new_owner_epoch :: "instant \<Rightarrow> bytes \<Rightarrow> room_id \<Rightarrow> sender_keys_group \<Rightarrow> sender_keys_group \<times> u8 \<times> bytes" where
  "new_owner_epoch now key conv_id g =
     (let epoch = (case g conv_id of None \<Rightarrow> 0 | Some s \<Rightarrow> next_epoch s);
          state = default_group\<lparr>gs_seen_high := (case g conv_id of None \<Rightarrow> None | Some s \<Rightarrow> gs_seen_high s)\<rparr>
      in (g(conv_id \<mapsto> install_epoch now epoch key state), epoch, key))"

definition note_observed_epoch :: "room_id \<Rightarrow> u8 \<Rightarrow> sender_keys_group \<Rightarrow> sender_keys_group" where
  "note_observed_epoch conv_id epoch g = g(conv_id \<mapsto> note_seen epoch (group_entry conv_id g))"

definition is_behind :: "room_id \<Rightarrow> sender_keys_group \<Rightarrow> bool" where
  "is_behind conv_id g = (case g conv_id of
     None \<Rightarrow> False
   | Some s \<Rightarrow> (case gs_seen_high s of Some high \<Rightarrow> map_of (gs_keys s) high = None | None \<Rightarrow> False))"

definition rotate_epoch :: "instant \<Rightarrow> bytes \<Rightarrow> room_id \<Rightarrow> sender_keys_group \<Rightarrow> sender_keys_group \<times> u8 \<times> bytes" where
  "rotate_epoch now key conv_id g = (case g conv_id of
     None \<Rightarrow> new_owner_epoch now key conv_id g
   | Some s \<Rightarrow> let nxt = next_epoch s in (g(conv_id \<mapsto> install_epoch now nxt key s), nxt, key))"

definition install_key :: "instant \<Rightarrow> room_id \<Rightarrow> u8 \<Rightarrow> bytes \<Rightarrow> sender_keys_group \<Rightarrow> sender_keys_group" where
  "install_key now conv_id epoch key g = g(conv_id \<mapsto> install_epoch now epoch key (group_entry conv_id g))"

definition has_real_key :: "room_id \<Rightarrow> sender_keys_group \<Rightarrow> bool" where
  "has_real_key conv_id g = (case g conv_id of None \<Rightarrow> False | Some s \<Rightarrow> has_keys s)"

definition current_epoch_age :: "instant \<Rightarrow> room_id \<Rightarrow> sender_keys_group \<Rightarrow> nat option" where
  "current_epoch_age now conv_id g = (case g conv_id of
     None \<Rightarrow> None
   | Some s \<Rightarrow> if has_keys s then map_option (\<lambda>since. now - since) (gs_current_since s) else None)"

definition forget_group :: "room_id \<Rightarrow> sender_keys_group \<Rightarrow> sender_keys_group" where
  "forget_group conv_id g = g(conv_id := None)"

definition ROOM_KEY_INFO :: bytes where "ROOM_KEY_INFO = as_bytes ''conquerd-room-key/v1''"

definition deterministic_room_key :: "kdf_lib \<Rightarrow> room_id \<Rightarrow> bytes" where
  "deterministic_room_key X conv_id =
     (case hkdf_derive_key X (as_bytes conv_id) (ROOM_KEY_INFO @ as_bytes ''|'' @ as_bytes conv_id) of
        Inl _ \<Rightarrow> replicate GROUP_KEY_LEN 0
      | Inr k \<Rightarrow> k)"

definition current_epoch :: "sender_keys_group \<Rightarrow> room_id \<Rightarrow> u8" where
  "current_epoch g conv_id = (case g conv_id of None \<Rightarrow> 0 | Some s \<Rightarrow> if has_keys s then gs_current s else 0)"

definition epoch_key :: "kdf_lib \<Rightarrow> sender_keys_group \<Rightarrow> room_id \<Rightarrow> u8 \<Rightarrow> bytes option" where
  "epoch_key X g conv_id epoch =
     (case g conv_id of
        Some s \<Rightarrow> if has_keys s then map_of (gs_keys s) epoch
                  else if epoch = 0 then Some (deterministic_room_key X conv_id) else None
      | None \<Rightarrow> if epoch = 0 then Some (deterministic_room_key X conv_id) else None)"

section \<open>Associated data\<close>

datatype media_kind = Voice | Video | ContentAudio

definition voice_aad :: "room_id \<Rightarrow> peer_id \<Rightarrow> u64 \<Rightarrow> bytes" where
  "voice_aad conv_id sender seq =
     len_prefixed (as_bytes conv_id) @ len_prefixed (as_bytes sender) @ be_bytes 8 (unat seq)"

definition media_aad :: "media_kind \<Rightarrow> room_id \<Rightarrow> peer_id \<Rightarrow> u64 \<Rightarrow> bytes" where
  "media_aad kind conv_id sender seq =
     voice_aad conv_id sender seq @ (case kind of Voice \<Rightarrow> [] | Video \<Rightarrow> [2] | ContentAudio \<Rightarrow> [3])"

definition fields_aad :: "string list \<Rightarrow> bytes" where
  "fields_aad fs = concat (map (\<lambda>f. len_prefixed (as_bytes f)) fs)"

definition chat_aad :: "room_id \<Rightarrow> peer_id \<Rightarrow> string \<Rightarrow> bytes" where
  "chat_aad conv_id sender message_id = fields_aad [conv_id, sender, message_id]"

definition file_chunk_aad :: "room_id \<Rightarrow> peer_id \<Rightarrow> string \<Rightarrow> u64 \<Rightarrow> bytes" where
  "file_chunk_aad conv_id sender transfer_id chunk_index =
     fields_aad [conv_id, sender, transfer_id] @ be_bytes 8 (unat chunk_index)"

section \<open>Codecs\<close>

definition seal_under ::
  "kdf_lib \<Rightarrow> bytes \<Rightarrow> (room_id \<Rightarrow> u8) \<Rightarrow> (room_id \<Rightarrow> u8 \<Rightarrow> bytes option) \<Rightarrow> room_id \<Rightarrow> bytes \<Rightarrow> bytes \<Rightarrow> (u8 \<times> bytes) option" where
  "seal_under X nonce cur ek conv_id aad plaintext =
     (let epoch = cur conv_id in
      case ek conv_id epoch of
        None \<Rightarrow> None
      | Some key \<Rightarrow>
          (case aesgcm_encrypt X nonce key plaintext aad of
             Inl _ \<Rightarrow> None
           | Inr (n, ct) \<Rightarrow> Some (epoch, n @ ct)))"

definition open_under ::
  "kdf_lib \<Rightarrow> (room_id \<Rightarrow> u8 \<Rightarrow> bytes option) \<Rightarrow> room_id \<Rightarrow> u8 \<Rightarrow> bytes \<Rightarrow> bytes \<Rightarrow> bytes option" where
  "open_under X ek conv_id epoch aad sealed =
     (if length sealed < VOICE_NONCE_LEN then None
      else case ek conv_id epoch of
        None \<Rightarrow> None
      | Some key \<Rightarrow>
          (case aesgcm_decrypt X key (take VOICE_NONCE_LEN sealed) (drop VOICE_NONCE_LEN sealed) aad of
             Inl _ \<Rightarrow> None
           | Inr m \<Rightarrow> Some m))"

definition seal_media_frame where
  "seal_media_frame X nonce cur ek kind conv_id sender seq plaintext =
     (case seal_under X nonce cur ek conv_id (media_aad kind conv_id sender seq) plaintext of
        None \<Rightarrow> None
      | Some (epoch, sealed) \<Rightarrow> Some (epoch # sealed))"

definition open_media_frame where
  "open_media_frame X ek kind conv_id sender seq frame =
     (if length frame < VOICE_HEADER_LEN then None
      else open_under X ek conv_id (frame ! 0) (media_aad kind conv_id sender seq) (drop 1 frame))"

definition seal_voice_frame where
  "seal_voice_frame X nonce cur ek conv_id sender seq opus = seal_media_frame X nonce cur ek Voice conv_id sender seq opus"

definition open_voice_frame where
  "open_voice_frame X ek conv_id sender seq frame = open_media_frame X ek Voice conv_id sender seq frame"

definition media_frame_epoch :: "bytes \<Rightarrow> u8 option" where
  "media_frame_epoch frame = (if length frame < VOICE_HEADER_LEN then None else Some (frame ! 0))"

definition seal_chat_body where
  "seal_chat_body X nonce cur ek conv_id sender message_id body =
     seal_under X nonce cur ek conv_id (chat_aad conv_id sender message_id) body"

definition open_chat_body where
  "open_chat_body X ek conv_id sender message_id epoch sealed =
     open_under X ek conv_id epoch (chat_aad conv_id sender message_id) sealed"

definition seal_file_chunk where
  "seal_file_chunk X nonce cur ek conv_id sender transfer_id chunk_index data =
     seal_under X nonce cur ek conv_id (file_chunk_aad conv_id sender transfer_id chunk_index) data"

definition open_file_chunk where
  "open_file_chunk X ek conv_id sender transfer_id chunk_index epoch sealed =
     open_under X ek conv_id epoch (file_chunk_aad conv_id sender transfer_id chunk_index) sealed"

section \<open>The contract of a key source\<close>

locale key_source =
  fixes ok :: "'s \<Rightarrow> bool" and cur :: "'s \<Rightarrow> room_id \<Rightarrow> u8" and ek :: "'s \<Rightarrow> room_id \<Rightarrow> u8 \<Rightarrow> bytes option"
  assumes key_length: "ok s \<Longrightarrow> ek s c e = Some k \<Longrightarrow> length k = 32"
begin

text \<open>A member that holds the key of the sender's epoch opens what the sender seals.\<close>

lemma sealed_opens:
  assumes "kdf_ok X" "ok s" "length nonce = 12" "length m \<le> GCM_MAX" "ek s c (cur s c) = Some k" "ek s' c (cur s c) = Some k"
  shows "\<exists>sealed. seal_under X nonce (cur s) (ek s) c aad m = Some (cur s c, sealed) \<and> 12 \<le> length sealed \<and>
    open_under X (ek s') c (cur s c) aad sealed = Some m"
proof -
  have "length k = 32" using key_length [OF assms(2,5)] .
  then obtain ct where "aesgcm_encrypt X nonce k m aad = Inr (nonce, ct)" "aesgcm_decrypt X k nonce ct aad = Inr m"
    using aesgcm_roundtrip [OF assms(1) _ assms(3,4)] by blast
  then show ?thesis
    using assms(3,5,6) by (simp add: seal_under_def open_under_def Let_def VOICE_NONCE_LEN_def)
qed

lemma no_key_no_seal: "ek s c (cur s c) = None \<Longrightarrow> seal_under X nonce (cur s) (ek s) c aad m = None"
  by (simp add: seal_under_def Let_def)

end

section \<open>Sender keys are a key source\<close>

definition group_ok :: "group_state \<Rightarrow> bool" where
  "group_ok s \<longleftrightarrow> sorted_wrt (<) (map fst (gs_keys s)) \<and> length (gs_keys s) \<le> MAX_RETAINED_EPOCHS \<and>
     (\<forall>(e, k) \<in> set (gs_keys s). length k = GROUP_KEY_LEN)"

definition groups_ok :: "sender_keys_group \<Rightarrow> bool" where
  "groups_ok g \<longleftrightarrow> (\<forall>c s. g c = Some s \<longrightarrow> group_ok s)"

lemma prune_drop: "prune_epochs ks = drop (length ks - MAX_RETAINED_EPOCHS) ks"
proof (induction ks rule: prune_epochs.induct)
  case (1 ks)
  show ?case
  proof (cases "MAX_RETAINED_EPOCHS < length ks")
    case True
    with 1 have "prune_epochs ks = drop (length (tl ks) - MAX_RETAINED_EPOCHS) (tl ks)" by simp
    also have "\<dots> = drop (Suc (length (tl ks) - MAX_RETAINED_EPOCHS)) ks" by (simp add: drop_Suc)
    also have "Suc (length (tl ks) - MAX_RETAINED_EPOCHS) = length ks - MAX_RETAINED_EPOCHS" using True by simp
    finally show ?thesis .
  qed simp
qed

declare prune_epochs.simps [simp del]

lemma ek_insert_keys: "fst ` set (ek_insert e k m) = insert e (fst ` set m)"
  by (induction m rule: ek_insert.induct [of _ e k]) auto

lemma ek_insert_set: "set (ek_insert e k m) \<subseteq> insert (e, k) (set m)"
  by (induction m rule: ek_insert.induct [of _ e k]) auto

lemma ek_insert_sorted: "sorted_wrt (<) (map fst m) \<Longrightarrow> sorted_wrt (<) (map fst (ek_insert e k m))"
proof (induction m)
  case (Cons x m)
  obtain e' k' where x: "x = (e', k')" by (cases x)
  show ?case
  proof (cases "e < e' \<or> e = e'")
    case True
    then show ?thesis using Cons.prems by (auto simp: x)
  next
    case False
    have "\<forall>y \<in> set (map fst (ek_insert e k m)). e' < y"
      using Cons.prems False ek_insert_keys [of e k m] by (auto simp: x)
    with Cons False show ?thesis by (simp add: x)
  qed
qed simp

lemma ek_insert_map_of: "sorted_wrt (<) (map fst m) \<Longrightarrow> map_of (ek_insert e k m) = (map_of m)(e \<mapsto> k)"
proof (induction m)
  case (Cons x m)
  obtain e' k' where x: "x = (e', k')" by (cases x)
  then show ?case using Cons by (auto simp: fun_eq_iff)
qed simp

lemma install_ok: "group_ok s \<Longrightarrow> length key = GROUP_KEY_LEN \<Longrightarrow> group_ok (install_epoch now e key s)"
proof -
  assume a: "group_ok s" "length key = GROUP_KEY_LEN"
  let ?ks = "ek_insert e key (gs_keys s)"
  have "sorted_wrt (<) (map fst ?ks)" using a by (simp add: group_ok_def ek_insert_sorted)
  then have "sorted_wrt (<) (map fst (prune_epochs ?ks))" by (simp add: prune_drop drop_map [symmetric] sorted_wrt_drop)
  moreover have "length (prune_epochs ?ks) \<le> MAX_RETAINED_EPOCHS" by (simp add: prune_drop)
  moreover have "set (prune_epochs ?ks) \<subseteq> insert (e, key) (set (gs_keys s))"
    using ek_insert_set [of e key "gs_keys s"] set_drop_subset [of _ ?ks] by (auto simp: prune_drop)
  ultimately show ?thesis using a by (auto simp: group_ok_def install_epoch_def note_seen_def Let_def)
qed

lemma note_seen_ok: "group_ok (note_seen e s) = group_ok s"
  by (simp add: group_ok_def note_seen_def)

lemma default_ok [simp]: "group_ok default_group" "group_ok (default_group\<lparr>gs_seen_high := h\<rparr>)"
  by (simp_all add: group_ok_def default_group_def)

lemma groups_ok_upd: "groups_ok g \<Longrightarrow> group_ok s \<Longrightarrow> groups_ok (g(c \<mapsto> s))"
  by (auto simp: groups_ok_def)

lemma entry_ok: "groups_ok g \<Longrightarrow> group_ok (group_entry c g)"
  by (auto simp: groups_ok_def group_entry_def split: option.splits)

lemma group_ops_ok:
  assumes "groups_ok g" "length key = GROUP_KEY_LEN"
  shows "groups_ok (fst (new_owner_epoch now key c g))" "groups_ok (fst (rotate_epoch now key c g))"
    "groups_ok (install_key now c e key g)" "groups_ok (note_observed_epoch c e g)" "groups_ok (forget_group c g)"
proof -
  show n: "groups_ok (fst (new_owner_epoch now key c g))"
    using assms by (simp add: new_owner_epoch_def Let_def groups_ok_upd install_ok)
  show "groups_ok (fst (rotate_epoch now key c g))"
  proof (cases "g c")
    case (Some s)
    then show ?thesis using assms by (simp add: rotate_epoch_def Let_def groups_ok_upd install_ok groups_ok_def)
  qed (use n in \<open>simp add: rotate_epoch_def\<close>)
qed (use assms in \<open>auto simp: install_key_def note_observed_epoch_def forget_group_def groups_ok_upd install_ok entry_ok note_seen_ok groups_ok_def\<close>)

lemma length_deterministic: "kdf_ok X \<Longrightarrow> length (deterministic_room_key X c) = 32"
  using hkdf_derive_total [of X "as_bytes c" "ROOM_KEY_INFO @ as_bytes ''|'' @ as_bytes c"]
  by (auto simp: deterministic_room_key_def)

lemma epoch_key_length: "kdf_ok X \<and> groups_ok g \<Longrightarrow> epoch_key X g c e = Some k \<Longrightarrow> length k = 32"
  by (fastforce simp: epoch_key_def groups_ok_def group_ok_def GROUP_KEY_LEN_def length_deterministic dest!: map_of_SomeD split: option.splits if_splits)

interpretation keys: key_source "\<lambda>g. kdf_ok X \<and> groups_ok g" current_epoch "epoch_key X" for X
  by unfold_locales (rule epoch_key_length)

section \<open>Frames\<close>

lemma len4: "n < 2 ^ 32 \<Longrightarrow> m < 2 ^ 32 \<Longrightarrow> be_bytes 4 n = be_bytes 4 m \<longleftrightarrow> n = m"
proof
  assume a: "n < 2 ^ 32" "m < 2 ^ 32" "be_bytes 4 n = be_bytes 4 m"
  then have "n mod 256 ^ 4 = m mod 256 ^ 4" by (metis of_be_be_bytes)
  with a show "n = m" by simp
qed simp

lemma len_prefixed_eq:
  assumes "length a < 2 ^ 32" "length b < 2 ^ 32"
  shows "len_prefixed a @ r = len_prefixed b @ r' \<longleftrightarrow> a = b \<and> r = r'"
proof
  assume e: "len_prefixed a @ r = len_prefixed b @ r'"
  then have "be_bytes 4 (length a) = be_bytes 4 (length b)" "a @ r = b @ r'" by (simp_all add: len_prefixed_def)
  moreover from this(1) have "length a = length b" using len4 assms by blast
  ultimately show "a = b \<and> r = r'" by simp
qed simp

lemma length_len_prefixed [simp]: "length (len_prefixed a) = 4 + length a"
  by (simp add: len_prefixed_def)

lemma seq8: "be_bytes 8 (unat n) = be_bytes 8 (unat m) \<longleftrightarrow> n = m" for n m :: u64
proof
  assume "be_bytes 8 (unat n) = be_bytes 8 (unat m)"
  then have "unat n mod 256 ^ 8 = unat m mod 256 ^ 8" by (metis of_be_be_bytes)
  moreover have "unat n < 256 ^ 8" "unat m < 256 ^ 8" using unsigned_less [of n, where ?'a = nat] unsigned_less [of m, where ?'a = nat] by simp_all
  ultimately show "n = m" by (simp add: word_unat_eq_iff)
qed simp

definition short :: "string \<Rightarrow> bool" where "short s \<longleftrightarrow> length s < 2 ^ 32"

lemma field_eq: "short a \<Longrightarrow> short b \<Longrightarrow>
  len_prefixed (as_bytes a) @ r = len_prefixed (as_bytes b) @ r' \<longleftrightarrow> a = b \<and> r = r'"
  by (subst len_prefixed_eq) (simp_all add: short_def inj_as_bytes)

definition kind_tag :: "media_kind \<Rightarrow> bytes" where
  "kind_tag k = (case k of Voice \<Rightarrow> [] | Video \<Rightarrow> [2] | ContentAudio \<Rightarrow> [3])"

lemmas aad_defs = media_aad_def voice_aad_def chat_aad_def file_chunk_aad_def fields_aad_def kind_tag_def [symmetric]

lemma tag_eq: "be_bytes 8 (unat n) @ kind_tag k = be_bytes 8 (unat m) @ kind_tag k' \<longleftrightarrow> n = m \<and> k = k'" for n m :: u64
  by (cases k; cases k') (auto simp: kind_tag_def seq8 dest: arg_cong [of _ _ length])

lemma tag_len: "length (kind_tag k) = (if k = Voice then 0 else 1)"
  by (cases k) (auto simp: kind_tag_def)

lemma media_aad_eq:
  assumes "short c" "short s" "short c'" "short s'"
  shows "media_aad k c s n = media_aad k' c' s' n' \<longleftrightarrow> k = k' \<and> c = c' \<and> s = s' \<and> n = n'"
  using assms by (auto simp: aad_defs field_eq tag_eq append_assoc simp del: append_eq_append_conv)

lemma chat_aad_eq:
  assumes "short c" "short s" "short c'" "short s'" "short i" "short i'"
  shows "chat_aad c s i = chat_aad c' s' i' \<longleftrightarrow> c = c' \<and> s = s' \<and> i = i'"
  using assms field_eq [of i i' "[]" "[]"] by (simp add: aad_defs field_eq)

lemma file_aad_eq:
  assumes "short c" "short s" "short c'" "short s'" "short i" "short i'"
  shows "file_chunk_aad c s i n = file_chunk_aad c' s' i' n' \<longleftrightarrow> c = c' \<and> s = s' \<and> i = i' \<and> n = n'"
  using assms by (simp add: aad_defs field_eq append_assoc seq8 del: append_eq_append_conv)

lemma chat_file_neq:
  assumes "short c" "short s" "short c'" "short s'" "short i" "short i'"
  shows "chat_aad c s i \<noteq> file_chunk_aad c' s' i' n'"
proof
  assume "chat_aad c s i = file_chunk_aad c' s' i' n'"
  then have "len_prefixed (as_bytes i) @ [] = len_prefixed (as_bytes i') @ be_bytes 8 (unat n')"
    using assms by (simp add: aad_defs field_eq append_assoc del: append_eq_append_conv)
  from iffD1 [OF field_eq [OF assms(5,6)] this] have "be_bytes 8 (unat n') = []" by simp
  from arg_cong [OF this, of length] show False by simp
qed

lemma file_media_neq:
  assumes "short c" "short s" "short c'" "short s'"
  shows "file_chunk_aad c s i n \<noteq> media_aad k' c' s' n'"
proof
  assume "file_chunk_aad c s i n = media_aad k' c' s' n'"
  then have "len_prefixed (as_bytes i) @ be_bytes 8 (unat n) = be_bytes 8 (unat n') @ kind_tag k'"
    using assms by (simp add: aad_defs field_eq append_assoc del: append_eq_append_conv)
  from arg_cong [OF this, of length] show False by (simp add: tag_len split: if_splits)
qed

lemma chat_media_eq:
  assumes "short c" "short s" "short c'" "short s'" "chat_aad c s i = media_aad k' c' s' n'"
  shows "length i = 4 \<or> length i = 5"
proof -
  have "len_prefixed (as_bytes i) = be_bytes 8 (unat n') @ kind_tag k'"
    using assms by (simp add: aad_defs field_eq append_assoc del: append_eq_append_conv)
  from arg_cong [OF this, of length] show ?thesis by (simp add: tag_len split: if_splits)
qed

lemma be_bytes_of_be: "be_bytes (length b) (of_be b) = b"
proof (induction b rule: rev_induct)
  case (snoc x b)
  have "unat x < 256" using unsigned_less [of x, where ?'a = nat] by simp
  then have "(of_be b * 256 + unat x) div 256 = of_be b" "(of_be b * 256 + unat x) mod 256 = unat x" by simp_all
  with snoc show ?case by (simp add: of_be_snoc)
qed (simp add: of_be_def)

lemma chat_voice_collide:
  assumes "length i = 4"
  shows "\<exists>n. chat_aad c s i = media_aad Voice c s n"
proof -
  let ?b = "len_prefixed (as_bytes i)" let ?n = "word_of_nat (of_be ?b) :: u64"
  have "unat ?n = of_be ?b"
    using of_be_less [of ?b] assms by (simp add: unat_of_nat)
  moreover have "be_bytes 8 (of_be ?b) = ?b" using be_bytes_of_be [of ?b] assms by simp
  ultimately show ?thesis by (auto simp: aad_defs kind_tag_def intro!: exI [of _ ?n])
qed

text \<open>
  Sealed room traffic is bound to its place. Two media frames have the same associated data only
  when stream kind, room, sender and sequence number agree; two chat bodies only when room, sender and
  message id do; two file chunks only when room, sender, transfer and chunk index do; and the three
  kinds of traffic do not share associated data, except that a chat message shares it with one media
  frame when its id has exactly four or five bytes, since chat and voice carry no domain tag.
\<close>

lemma aad_separation:
  assumes "short c" "short s" "short i" "short c'" "short s'" "short i'"
  shows "(media_aad k c s n = media_aad k' c' s' n' \<longleftrightarrow> k = k' \<and> c = c' \<and> s = s' \<and> n = n') \<and>
    (chat_aad c s i = chat_aad c' s' i' \<longleftrightarrow> c = c' \<and> s = s' \<and> i = i') \<and>
    (file_chunk_aad c s i n = file_chunk_aad c' s' i' n' \<longleftrightarrow> c = c' \<and> s = s' \<and> i = i' \<and> n = n') \<and>
    chat_aad c s i \<noteq> file_chunk_aad c' s' i' n' \<and> file_chunk_aad c s i n \<noteq> media_aad k' c' s' n' \<and>
    (length i \<noteq> 4 \<and> length i \<noteq> 5 \<longrightarrow> chat_aad c s i \<noteq> media_aad k' c' s' n') \<and>
    (length i = 4 \<longrightarrow> (\<exists>m. chat_aad c s i = media_aad Voice c s m))"
  apply (intro conjI impI)
        apply (rule media_aad_eq [OF assms(1,2,4,5)])
       apply (rule chat_aad_eq [OF assms(1,2,4,5,3,6)])
      apply (rule file_aad_eq [OF assms(1,2,4,5,3,6)])
     apply (rule chat_file_neq [OF assms(1,2,4,5,3,6)])
    apply (rule file_media_neq [OF assms(1,2,4,5)])
   apply (use chat_media_eq [OF assms(1,2,4,5)] in auto)
  apply (erule chat_voice_collide)
  done

lemma aad_separation_witness:
  "media_aad Voice ''room'' ''ann'' 5 \<noteq> media_aad Video ''room'' ''ann'' 5 \<and> chat_aad ''room'' ''ann'' ''m1'' \<noteq> chat_aad ''rooma'' ''nn'' ''m1''"
  using aad_separation [of "''room''" "''ann''" "''m1''" "''room''" "''ann''" "''m1''" Voice 5 Video 5]
    aad_separation [of "''room''" "''ann''" "''m1''" "''rooma''" "''nn''" "''m1''" Voice 5 Video 5]
  by (simp add: short_def)

section \<open>Sealed traffic opens\<close>

lemma drop1_Cons: "drop 1 (x # xs) = xs" by simp

text \<open>
  C30. A member that holds the key of the sender's current epoch opens every frame the sender seals:
  media frames of each kind, chat bodies and file chunks come back unchanged, the epoch of a media
  frame can be read without the key, and sealing always succeeds when the sender has that key.
\<close>

theorem room_frames_roundtrip:
  assumes "kdf_ok X" "groups_ok g" "length nonce = 12" "length m \<le> GCM_MAX"
    and "epoch_key X g c (current_epoch g c) = Some k" "epoch_key X g' c (current_epoch g c) = Some k"
  shows "(\<exists>f. seal_media_frame X nonce (current_epoch g) (epoch_key X g) kind c s n m = Some f \<and>
       media_frame_epoch f = Some (current_epoch g c) \<and> open_media_frame X (epoch_key X g') kind c s n f = Some m) \<and>
    (\<exists>b. seal_chat_body X nonce (current_epoch g) (epoch_key X g) c s i m = Some (current_epoch g c, b) \<and>
       open_chat_body X (epoch_key X g') c s i (current_epoch g c) b = Some m) \<and>
    (\<exists>b. seal_file_chunk X nonce (current_epoch g) (epoch_key X g) c s i n m = Some (current_epoch g c, b) \<and>
       open_file_chunk X (epoch_key X g') c s i n (current_epoch g c) b = Some m)"
proof -
  note so = keys.sealed_opens [OF assms(1) conjI [OF assms(1,2)] assms(3-6)]
  obtain b where "seal_under X nonce (current_epoch g) (epoch_key X g) c (media_aad kind c s n) m = Some (current_epoch g c, b)"
    "12 \<le> length b" "open_under X (epoch_key X g') c (current_epoch g c) (media_aad kind c s n) b = Some m"
    using so by blast
  then show ?thesis
    using so by (auto simp: seal_media_frame_def open_media_frame_def media_frame_epoch_def VOICE_HEADER_LEN_def VOICE_NONCE_LEN_def
        seal_chat_body_def open_chat_body_def seal_file_chunk_def open_file_chunk_def)
qed

theorem room_frames_roundtrip_witness:
  "let g = install_key 0 ''r'' 3 (replicate 32 9) Map.empty in
   \<exists>f. seal_media_frame plain_kdf (replicate 12 1) (current_epoch g) (epoch_key plain_kdf g) Video ''r'' ''ann'' 7 [1, 2, 3] = Some f \<and>
     open_media_frame plain_kdf (epoch_key plain_kdf g) Video ''r'' ''ann'' 7 f = Some [1, 2, 3]"
proof -
  let ?g = "install_key 0 ''r'' 3 (replicate 32 9) Map.empty"
  have g: "?g ''r'' = Some \<lparr>gs_current = 3, gs_seen_high = Some 3, gs_current_since = Some 0, gs_keys = [(3, replicate 32 9)]\<rparr>"
    by (simp add: install_key_def group_entry_def install_epoch_def note_seen_def default_group_def prune_drop Let_def MAX_RETAINED_EPOCHS_def)
  have k: "epoch_key plain_kdf ?g ''r'' (current_epoch ?g ''r'') = Some (replicate 32 9)"
    unfolding epoch_key_def current_epoch_def g by (simp add: has_keys_def)
  have ok: "groups_ok ?g" by (rule group_ops_ok) (simp_all add: groups_ok_def GROUP_KEY_LEN_def)
  have "length [1, 2, 3 :: u8] \<le> GCM_MAX" by (simp add: GCM_MAX_def)
  from room_frames_roundtrip [OF plain_kdf_ok ok length_replicate this k k] show ?thesis unfolding Let_def by blast
qed

section \<open>Epochs over time\<close>

text \<open>
  The state in which the newest retained key is the current one and nothing above it was seen without
  being noted.
\<close>

definition epochs_live :: "group_state \<Rightarrow> bool" where
  "epochs_live s \<longleftrightarrow> group_ok s \<and> (has_keys s \<longrightarrow> fst (last (gs_keys s)) = gs_current s \<and>
     (\<exists>h. gs_seen_high s = Some h \<and> gs_current s \<le> h))"

lemma last_insert_max:
  "sorted_wrt (<) (map fst m) \<Longrightarrow> \<forall>x \<in> set m. fst x \<le> e \<Longrightarrow> ek_insert e k m \<noteq> [] \<and> last (ek_insert e k m) = (e, k)"
proof (induction m)
  case (Cons x m)
  obtain e' k' where x: "x = (e', k')" by (cases x)
  show ?case
  proof (cases "e = e'")
    case True
    have "m = []" using Cons.prems by (cases m) (auto simp: x True)
    then show ?thesis by (simp add: x True)
  next
    case False
    then have "\<not> e < e'" using Cons.prems by (auto simp: x)
    then show ?thesis using False Cons by (auto simp: x)
  qed
qed simp

lemma sorted_last_max: "sorted_wrt (<) (map fst m) \<Longrightarrow> m \<noteq> [] \<Longrightarrow> x \<in> set m \<Longrightarrow> fst x \<le> fst (last m)" for m :: "(u8 \<times> bytes) list"
proof (induction m)
  case (Cons y m)
  show ?case
  proof (cases "m = []")
    case False
    have "fst y < fst (last m)" using Cons.prems False by simp
    then show ?thesis using Cons False by (auto simp: less_imp_le)
  qed (use Cons.prems in simp)
qed simp

lemma install_fields:
  "gs_current (install_epoch now e key s) = e"
  "gs_keys (install_epoch now e key s) = prune_epochs (ek_insert e key (gs_keys s))"
  "gs_seen_high (install_epoch now e key s) = Some (case gs_seen_high s of Some high \<Rightarrow> if e \<le> high then high else e | None \<Rightarrow> e)"
  by (simp_all add: install_epoch_def note_seen_def Let_def)

lemma install_live:
  assumes "group_ok s" "length key = GROUP_KEY_LEN" "\<forall>x \<in> set (gs_keys s). fst x \<le> e"
  shows "epochs_live (install_epoch now e key s)" "map_of (gs_keys (install_epoch now e key s)) e = Some key"
proof -
  let ?ks = "ek_insert e key (gs_keys s)"
  have l: "?ks \<noteq> []" "last ?ks = (e, key)" using last_insert_max assms(1,3) by (auto simp: group_ok_def)
  have "length ?ks - 4 < length ?ks" using l(1) by (cases ?ks) auto
  then have p: "last (prune_epochs ?ks) = (e, key)" "prune_epochs ?ks \<noteq> []"
    using l by (simp_all only: prune_drop last_drop MAX_RETAINED_EPOCHS_def drop_eq_Nil not_le)
  have ok: "group_ok (install_epoch now e key s)" by (rule install_ok [OF assms(1,2)])
  then show "epochs_live (install_epoch now e key s)"
    using p by (auto simp: epochs_live_def install_fields has_keys_def split: option.splits)
  have "(e, key) \<in> set (prune_epochs ?ks)" using p by (metis last_in_set)
  moreover have "distinct (map fst (prune_epochs ?ks))"
    using ok by (simp add: group_ok_def install_fields strict_sorted_iff)
  ultimately show "map_of (gs_keys (install_epoch now e key s)) e = Some key" by (simp add: install_fields)
qed

lemma live_bounds: "epochs_live s \<Longrightarrow> x \<in> set (gs_keys s) \<Longrightarrow> fst x \<le> gs_current s"
proof -
  assume a: "epochs_live s" "x \<in> set (gs_keys s)"
  then have "has_keys s" "sorted_wrt (<) (map fst (gs_keys s))" by (auto simp: has_keys_def epochs_live_def group_ok_def)
  with a sorted_last_max [of "gs_keys s" x] show ?thesis by (auto simp: epochs_live_def has_keys_def)
qed

text \<open>The next epoch is above the current one and everything seen, unless the ring wraps.\<close>

lemma next_epoch_above:
  assumes "next_epoch s \<noteq> 0"
  shows "gs_current s < next_epoch s" "gs_seen_high s = Some h \<Longrightarrow> h < next_epoch s"
proof -
  have w: "x < x + 1" if "x + 1 \<noteq> 0" for x :: u8
  proof -
    have "unat (x + 1) = Suc (unat x)" using that unatSuc [of x] by (simp add: add.commute)
    then show ?thesis by (simp add: word_less_nat_alt)
  qed
  define f where "f = (case gs_seen_high s of Some high \<Rightarrow> if gs_current s \<le> high then high else gs_current s | None \<Rightarrow> gs_current s)"
  have f: "next_epoch s = f + 1" by (simp add: next_epoch_def f_def)
  have "f < next_epoch s" using w assms f by metis
  moreover have "gs_current s \<le> f" "gs_seen_high s = Some h \<Longrightarrow> h \<le> f" by (auto simp: f_def split: option.splits)
  ultimately show "gs_current s < next_epoch s" "gs_seen_high s = Some h \<Longrightarrow> h < next_epoch s" by (auto intro: le_less_trans)
qed

end
