(* ===== verification/Room_Keying.thy ===== *)
theory Room_Keying
  imports Group_Key Message Brand
begin

text \<open>
  Distribution of room keys on the client, \<open>connection_manager/manager/room_session.rs\<close> with the key
  branches of \<open>inbound.rs\<close>: who keys a room, who is sent which epoch, which offers are installed, and
  what a frame that cannot be opened sets in motion. The state is the part of the connection manager
  these functions read and write. A \<open>HashSet\<close> is a set; the keys a handler sends are a set of
  \<open>(member, room, epoch, key)\<close>; \<open>seals\<close> tells for which members \<open>seal_signal_to_member\<close> succeeds. Random
  keys and clock readings are arguments.
\<close>

section \<open>Rules\<close>

definition is_elected_keyer :: "peer_id set \<Rightarrow> peer_id \<Rightarrow> bool" where
  "is_elected_keyer members me \<longleftrightarrow> (\<exists>m \<in> members. bare m = bare me) \<and> \<not> (\<exists>m \<in> members. bare m < bare me)"

definition MAX_EPOCH_ADVANCE :: u8 where "MAX_EPOCH_ADVANCE = 64"

definition accept_group_key_epoch :: "bool \<Rightarrow> u8 \<Rightarrow> u8 \<Rightarrow> bool" where
  "accept_group_key_epoch has_real cur offered \<longleftrightarrow> \<not> has_real \<or> offered - cur \<le> MAX_EPOCH_ADVANCE"

definition GROUP_KEY_RETRY_INTERVAL_MS :: nat where "GROUP_KEY_RETRY_INTERVAL_MS = 750"
definition GROUP_KEY_MAX_ATTEMPTS :: nat where "GROUP_KEY_MAX_ATTEMPTS = 16"

text \<open>Durations are nanoseconds.\<close>

definition group_key_distribution_window :: nat where
  "group_key_distribution_window = GROUP_KEY_RETRY_INTERVAL_MS * GROUP_KEY_MAX_ATTEMPTS * 1000000"

definition should_reseal_to_lagging_member :: "u8 \<Rightarrow> u8 \<Rightarrow> nat \<Rightarrow> bool" where
  "should_reseal_to_lagging_member member_epoch room_epoch epoch_age =
     (let behind = room_epoch - member_epoch
      in behind \<noteq> 0 \<and> behind \<le> MAX_EPOCH_ADVANCE \<and> group_key_distribution_window \<le> epoch_age)"

definition should_mint_first_room_key :: "bool \<Rightarrow> bool \<Rightarrow> nat \<Rightarrow> bool" where
  "should_mint_first_room_key is_elected has_real other_member_count \<longleftrightarrow> is_elected \<and> \<not> has_real \<and> 0 < other_member_count"

definition may_send_room_e2e_content :: "bool \<Rightarrow> bool" where
  "may_send_room_e2e_content has_real = has_real"

definition room_scope_key :: "peer_id \<Rightarrow> room_id \<Rightarrow> string" where
  "room_scope_key supernode_id room_id = supernode_id @ '':'' @ room_id"

definition normalize_room_type :: "string \<Rightarrow> string" where
  "normalize_room_type room_type = (if to_ascii_lowercase (trim_ws room_type) = ''private'' then ''private'' else ''public'')"

definition should_track_pending_materialize :: "bool \<Rightarrow> room_id option \<Rightarrow> bool" where
  "should_track_pending_materialize materialize_only room_id \<longleftrightarrow>
     materialize_only \<and> (case room_id of None \<Rightarrow> False | Some s \<Rightarrow> s \<noteq> [])"

definition should_auto_join_on_room_created :: "bool \<Rightarrow> bool \<Rightarrow> bool \<Rightarrow> bool" where
  "should_auto_join_on_room_created denied room_id_empty materialize_only \<longleftrightarrow> \<not> denied \<and> \<not> room_id_empty \<and> \<not> materialize_only"

definition should_use_private_room_invite :: "bool \<Rightarrow> bool \<Rightarrow> bool \<Rightarrow> bool \<Rightarrow> bool" where
  "should_use_private_room_invite already_admitted is_private is_creator has_invite_token \<longleftrightarrow>
     is_private \<and> \<not> is_creator \<and> has_invite_token"

definition ends_with :: "string \<Rightarrow> string \<Rightarrow> bool" where
  "ends_with suffix s \<longleftrightarrow> length suffix \<le> length s \<and> drop (length s - length suffix) s = suffix"

definition union_members_for_room :: "(string \<rightharpoonup> peer_id set) \<Rightarrow> room_id \<Rightarrow> peer_id set" where
  "union_members_for_room snapshots room_id =
     {m. \<exists>key members. snapshots key = Some members \<and> ends_with ('':'' @ room_id) key \<and> m \<in> members}"

section \<open>Failover\<close>

datatype failover_plan = Failover_None | Fanout "peer_id list" "(peer_id \<times> string) list"

definition plan_cluster_failover :: "(peer_id \<times> string) list \<Rightarrow> (peer_id \<Rightarrow> bool option) \<Rightarrow> failover_plan" where
  "plan_cluster_failover targets session =
     (if targets = [] then Failover_None
      else Fanout (map fst (filter (\<lambda>(i, url). session i = Some True) targets))
             (filter (\<lambda>(i, url). session i \<noteq> Some True) targets))"

section \<open>State and distribution\<close>

record pending_ack =
  pa_epoch :: u8
  pa_last_sent :: instant
  pa_attempts :: u8

record keying =
  ck_me :: peer_id
  ck_groups :: sender_keys_group
  ck_members :: "string \<rightharpoonup> peer_id set"
  ck_pending :: "room_id \<times> peer_id \<rightharpoonup> pending_ack"

type_synonym key_send = "peer_id \<times> room_id \<times> u8 \<times> bytes"

definition sat_inc :: "u8 \<Rightarrow> u8" where
  "sat_inc a = (if a = 255 then 255 else a + 1)"

definition distribute_group_key ::
  "(peer_id \<Rightarrow> bool) \<Rightarrow> instant \<Rightarrow> room_id \<Rightarrow> u8 \<Rightarrow> bytes \<Rightarrow> peer_id set \<Rightarrow> keying \<Rightarrow> keying \<times> key_send set" where
  "distribute_group_key seals now room_id epoch key members st =
     (st\<lparr>ck_pending := (\<lambda>(r, m).
         if r = room_id \<and> m \<in> members \<and> seals m
         then Some (case ck_pending st (r, m) of
             Some p \<Rightarrow> p\<lparr>pa_epoch := epoch, pa_last_sent := now, pa_attempts := sat_inc (pa_attempts p)\<rparr>
           | None \<Rightarrow> \<lparr>pa_epoch = epoch, pa_last_sent = now, pa_attempts = 1\<rparr>)
         else ck_pending st (r, m))\<rparr>,
      {(m, room_id, epoch, key) | m. m \<in> members \<and> seals m})"

definition keep_pending :: "(room_id \<Rightarrow> peer_id \<Rightarrow> bool) \<Rightarrow> keying \<Rightarrow> keying" where
  "keep_pending P st = st\<lparr>ck_pending := retain (\<lambda>(r, m) _. P r m) (ck_pending st)\<rparr>"

definition sync_room_membership ::
  "kdf_lib \<Rightarrow> (peer_id \<Rightarrow> bool) \<Rightarrow> instant \<Rightarrow> bytes \<Rightarrow> peer_id \<Rightarrow> room_id \<Rightarrow> peer_id list \<Rightarrow> keying \<Rightarrow> keying \<times> key_send set" where
  "sync_room_membership X seals now fresh supernode_id room_id members st =
     (let room_key = supernode_id @ '':'' @ room_id;
          me = ck_me st;
          union_old = union_members_for_room (ck_members st) room_id;
          node_new = {m \<in> set members. m \<noteq> me};
          st1 = st\<lparr>ck_members := (ck_members st)(room_key \<mapsto> node_new)\<rparr>;
          union_new = union_members_for_room (ck_members st1) room_id
      in if \<not> is_elected_keyer (insert me union_new) me
         then (keep_pending (\<lambda>r _. r \<noteq> room_id) st1, {})
         else
           let removed = (union_old - union_new \<noteq> {});
               added = union_new - union_old;
               st2 = keep_pending (\<lambda>r m. r \<noteq> room_id \<or> m \<in> union_new) st1;
               has_real = has_real_key room_id (ck_groups st2)
           in if should_mint_first_room_key True has_real (card union_new)
              then (let (g, epoch, key) = new_owner_epoch now fresh room_id (ck_groups st2)
                    in distribute_group_key seals now room_id epoch key union_new (st2\<lparr>ck_groups := g\<rparr>))
              else if has_real \<and> removed
              then (let (g, epoch, key) = rotate_epoch now fresh room_id (ck_groups st2)
                    in distribute_group_key seals now room_id epoch key union_new
                         (keep_pending (\<lambda>r _. r \<noteq> room_id) (st2\<lparr>ck_groups := g\<rparr>)))
              else if has_real \<and> added \<noteq> {}
              then (let epoch = current_epoch (ck_groups st2) room_id
                    in case epoch_key X (ck_groups st2) room_id epoch of
                         None \<Rightarrow> (st2, {})
                       | Some key \<Rightarrow> distribute_group_key seals now room_id epoch key added st2)
              else (st2, {}))"

definition rekey_room_if_behind ::
  "(peer_id \<Rightarrow> bool) \<Rightarrow> instant \<Rightarrow> bytes \<Rightarrow> room_id \<Rightarrow> keying \<Rightarrow> keying \<times> key_send set" where
  "rekey_room_if_behind seals now fresh room_id st =
     (if \<not> is_behind room_id (ck_groups st) then (st, {})
      else
        let me = ck_me st; union = union_members_for_room (ck_members st) room_id
        in if \<not> is_elected_keyer (insert me union) me then (st, {})
           else if union = {} then (st, {})
           else let (g, epoch, key) = rotate_epoch now fresh room_id (ck_groups st)
                in distribute_group_key seals now room_id epoch key union
                     (keep_pending (\<lambda>r _. r \<noteq> room_id) (st\<lparr>ck_groups := g\<rparr>)))"

text \<open>\<open>pick\<close> is the member that iteration of the set finds first.\<close>

definition reseal_to_lagging_member ::
  "kdf_lib \<Rightarrow> (peer_id set \<Rightarrow> peer_id) \<Rightarrow> (peer_id \<Rightarrow> bool) \<Rightarrow> instant \<Rightarrow> room_id \<Rightarrow> peer_id \<Rightarrow> u8 \<Rightarrow> keying \<Rightarrow> keying \<times> key_send set" where
  "reseal_to_lagging_member X pick seals now room_id sender sender_epoch st =
     (case current_epoch_age now room_id (ck_groups st) of
        None \<Rightarrow> (st, {})
      | Some age \<Rightarrow>
          let epoch = current_epoch (ck_groups st) room_id
          in if \<not> should_reseal_to_lagging_member sender_epoch epoch age then (st, {})
             else
               let union = union_members_for_room (ck_members st) room_id;
                   found = {m \<in> union. bare m = bare sender}
               in if found = {} then (st, {})
                  else
                    let member = pick found; me = ck_me st
                    in if \<not> is_elected_keyer (insert me union) me then (st, {})
                       else if (case ck_pending st (room_id, member) of Some p \<Rightarrow> pa_epoch p = epoch | None \<Rightarrow> False) then (st, {})
                       else (case epoch_key X (ck_groups st) room_id epoch of
                           None \<Rightarrow> (st, {})
                         | Some key \<Rightarrow> distribute_group_key seals now room_id epoch key {member}
                             (st\<lparr>ck_pending := (ck_pending st)((room_id, member) := None)\<rparr>)))"

text \<open>What a chat body or media frame that does not open sets in motion.\<close>

definition frame_not_opened ::
  "kdf_lib \<Rightarrow> (peer_id set \<Rightarrow> peer_id) \<Rightarrow> (peer_id \<Rightarrow> bool) \<Rightarrow> instant \<Rightarrow> bytes \<Rightarrow> room_id \<Rightarrow> peer_id \<Rightarrow> u8 \<Rightarrow> keying \<Rightarrow> keying \<times> key_send set" where
  "frame_not_opened X pick seals now fresh room_id sender e st =
     (let st1 = st\<lparr>ck_groups := note_observed_epoch room_id e (ck_groups st)\<rparr>;
          (st2, out2) = rekey_room_if_behind seals now fresh room_id st1;
          (st3, out3) = reseal_to_lagging_member X pick seals now room_id sender e st2
      in (st3, out2 \<union> out3))"

definition accept_group_key_from :: "peer_id \<Rightarrow> room_id \<Rightarrow> u8 \<Rightarrow> keying \<Rightarrow> bool" where
  "accept_group_key_from sender room_id epoch st =
     (let present = insert (ck_me st) (union_members_for_room (ck_members st) room_id);
          present' = (if sender \<in> present then present else insert sender present)
      in if \<not> is_elected_keyer present' sender then False
         else accept_group_key_epoch (has_real_key room_id (ck_groups st)) (current_epoch (ck_groups st) room_id) epoch)"

text \<open>
  The branch for \<open>SfuGroupKey\<close>; the second component says whether the install is acknowledged to the
  sender.
\<close>

definition on_sfu_group_key :: "crates \<Rightarrow> instant \<Rightarrow> client_message \<Rightarrow> keying \<Rightarrow> keying \<times> (room_id \<times> u8) option" where
  "on_sfu_group_key C now msg st =
     (let payload = VObj (cm_payload msg); room_id = get_str_or [] ''room_id'' payload
      in case (Option.bind (jget ''epoch'' payload) as_u64, get_str ''key'' payload) of
           (Some epoch, Some key_b64) \<Rightarrow>
             if room_id = [] then (st, None)
             else
               let epoch_u8 = (ucast epoch :: u8)
               in if \<not> accept_group_key_from (cm_sender msg) room_id epoch_u8 st then (st, None)
                  else (case b64_decode C key_b64 of
                      Inl _ \<Rightarrow> (st, None)
                    | Inr bs \<Rightarrow>
                        if length bs \<noteq> 32 then (st, None)
                        else (st\<lparr>ck_groups := install_key now room_id epoch_u8 bs (ck_groups st)\<rparr>, Some (room_id, epoch_u8)))
         | _ \<Rightarrow> (st, None))"

definition on_sfu_group_key_ack :: "client_message \<Rightarrow> keying \<Rightarrow> keying" where
  "on_sfu_group_key_ack msg st =
     (let payload = VObj (cm_payload msg); room_id = get_str_or [] ''room_id'' payload
      in case Option.bind (jget ''epoch'' payload) as_u64 of
           None \<Rightarrow> st
         | Some e \<Rightarrow>
             if room_id = [] then st
             else (case ck_pending st (room_id, cm_sender msg) of
                 None \<Rightarrow> st
               | Some p \<Rightarrow> if pa_epoch p = ucast e then st\<lparr>ck_pending := (ck_pending st)((room_id, cm_sender msg) := None)\<rparr> else st))"

text \<open>The rosters a supernode announces; the sender of the message names the snapshot.\<close>

definition str_items :: "jvalue list \<Rightarrow> string list" where
  "str_items xs = concat (map (\<lambda>v. case j_str v of None \<Rightarrow> [] | Some s \<Rightarrow> [s]) xs)"

definition on_sfu_members :: "kdf_lib \<Rightarrow> (peer_id \<Rightarrow> bool) \<Rightarrow> instant \<Rightarrow> bytes \<Rightarrow> client_message \<Rightarrow> keying \<Rightarrow> keying \<times> key_send set" where
  "on_sfu_members X seals now fresh msg st =
     (let payload = VObj (cm_payload msg);
          room_id = get_str_or ''default'' ''room_id'' payload;
          members = (case Option.bind (jget ''members'' payload) as_array of None \<Rightarrow> [] | Some xs \<Rightarrow> str_items xs);
          chat_members = (case Option.bind (jget ''chat_members'' payload) as_array of None \<Rightarrow> members | Some xs \<Rightarrow> str_items xs)
      in sync_room_membership X seals now fresh (cm_sender msg) room_id chat_members st)"

text \<open>\<open>order\<close> lists the elements of a set in the order of its iteration.\<close>

definition on_sfu_peer_joined ::
  "kdf_lib \<Rightarrow> (peer_id set \<Rightarrow> peer_id list) \<Rightarrow> (peer_id \<Rightarrow> bool) \<Rightarrow> instant \<Rightarrow> bytes \<Rightarrow> client_message \<Rightarrow> keying \<Rightarrow> keying \<times> key_send set" where
  "on_sfu_peer_joined X order seals now fresh msg st =
     (let payload = VObj (cm_payload msg);
          room_id = get_str_or ''default'' ''room_id'' payload;
          peer = get_str_or (cm_sender msg) ''peer_id'' payload;
          room_key = cm_sender msg @ '':'' @ room_id;
          known = (case ck_members st room_key of None \<Rightarrow> {} | Some s \<Rightarrow> s)
      in sync_room_membership X seals now fresh (cm_sender msg) room_id (order (insert peer (insert (ck_me st) known))) st)"

definition on_sfu_peer_left ::
  "kdf_lib \<Rightarrow> (peer_id set \<Rightarrow> peer_id list) \<Rightarrow> (peer_id \<Rightarrow> bool) \<Rightarrow> instant \<Rightarrow> bytes \<Rightarrow> client_message \<Rightarrow> keying \<Rightarrow> keying \<times> key_send set" where
  "on_sfu_peer_left X order seals now fresh msg st =
     (let payload = VObj (cm_payload msg);
          room_id = get_str_or ''default'' ''room_id'' payload;
          peer = get_str_or (cm_sender msg) ''peer_id'' payload;
          room_key = cm_sender msg @ '':'' @ room_id;
          known = (case ck_members st room_key of None \<Rightarrow> {} | Some s \<Rightarrow> s)
      in sync_room_membership X seals now fresh (cm_sender msg) room_id (order (insert (ck_me st) known - {peer})) st)"

text \<open>Leaving the content of a room.\<close>

definition forget_room :: "peer_id \<Rightarrow> room_id \<Rightarrow> keying \<Rightarrow> keying" where
  "forget_room supernode_id room_id st =
     (keep_pending (\<lambda>r _. r \<noteq> room_id) st)\<lparr>ck_groups := forget_group room_id (ck_groups st),
        ck_members := (ck_members st)(room_scope_key supernode_id room_id := None)\<rparr>"

section \<open>Retries\<close>

datatype retry_verdict = Drop_ack | Wait_ack | Resend_ack u8

definition retry_verdict_for :: "instant \<Rightarrow> keying \<Rightarrow> room_id \<Rightarrow> peer_id \<Rightarrow> pending_ack \<Rightarrow> retry_verdict" where
  "retry_verdict_for now st room_id member pending =
     (let union = union_members_for_room (ck_members st) room_id; me = ck_me st
      in if member \<notin> union then Drop_ack
         else if \<not> is_elected_keyer (insert me union) me then Drop_ack
         else if GROUP_KEY_MAX_ATTEMPTS \<le> unat (pa_attempts pending) then Drop_ack
         else if GROUP_KEY_RETRY_INTERVAL_MS * 1000000 \<le> now - pa_last_sent pending then Resend_ack (pa_epoch pending)
         else Wait_ack)"

definition retry_pending_group_keys :: "kdf_lib \<Rightarrow> (peer_id \<Rightarrow> bool) \<Rightarrow> instant \<Rightarrow> keying \<Rightarrow> keying \<times> key_send set" where
  "retry_pending_group_keys X seals now st =
     (st\<lparr>ck_pending := (\<lambda>(r, m). case ck_pending st (r, m) of
          None \<Rightarrow> None
        | Some p \<Rightarrow> (case retry_verdict_for now st r m p of
              Drop_ack \<Rightarrow> None
            | Wait_ack \<Rightarrow> Some p
            | Resend_ack e \<Rightarrow> (case epoch_key X (ck_groups st) r e of
                 None \<Rightarrow> None
               | Some key \<Rightarrow> if seals m then Some (p\<lparr>pa_epoch := e, pa_last_sent := now, pa_attempts := sat_inc (pa_attempts p)\<rparr>) else Some p)))\<rparr>,
      {(m, r, e, key) | m r e key p. ck_pending st (r, m) = Some p \<and> retry_verdict_for now st r m p = Resend_ack e \<and>
         epoch_key X (ck_groups st) r e = Some key \<and> seals m})"

section \<open>Envelopes\<close>

definition new_client :: "rat \<Rightarrow> client_type \<Rightarrow> peer_id \<Rightarrow> (string \<times> jvalue) list \<Rightarrow> client_message" where
  "new_client now t sender kvs = (client_new_message now t sender)\<lparr>cm_payload := bt_of kvs []\<rparr>"

definition group_key_message :: "json_lib \<Rightarrow> crates \<Rightarrow> (bytes \<Rightarrow> bytes) \<Rightarrow> rat \<Rightarrow> peer_id \<Rightarrow> room_id \<Rightarrow> u8 \<Rightarrow> bytes \<Rightarrow> client_message" where
  "group_key_message L C sign now me room_id epoch key =
     client_sign L C sign (new_client now SfuGroupKey_c me
       [(''room_id'', VStr room_id), (''epoch'', VNum (NInt (uint epoch))), (''key'', VStr (cr_b64_encode C key))])"

definition seal_signal_to_member ::
  "kdf_lib \<Rightarrow> json_lib \<Rightarrow> crates \<Rightarrow> bytes \<Rightarrow> bytes \<Rightarrow> rat \<Rightarrow> peer_id \<Rightarrow> client_message \<Rightarrow> peer_id \<Rightarrow> client_message option" where
  "seal_signal_to_member X L C scalar nonce now me inner member_pub =
     (case derive_pairwise_relay_key X C scalar me member_pub of
        Inl _ \<Rightarrow> None
      | Inr key \<Rightarrow>
          (case encrypt_blob X nonce key (as_bytes (client_to_json L inner)) of
             Inl _ \<Rightarrow> None
           | Inr ciphertext \<Rightarrow>
               Some ((new_client now EncryptedSignal_c me [(''ciphertext'', VStr (cr_b64_encode C ciphertext))])
                 \<lparr>cm_target := Some member_pub\<rparr>)))"

text \<open>The branch for \<open>EncryptedSignal\<close>: the inner message to dispatch, if any.\<close>

definition open_envelope ::
  "kdf_lib \<Rightarrow> json_lib \<Rightarrow> crates \<Rightarrow> bytes \<Rightarrow> rat \<Rightarrow> peer_id \<Rightarrow> client_message \<Rightarrow> client_message option" where
  "open_envelope X L C scalar now me msg =
     (case get_str ''ciphertext'' (VObj (cm_payload msg)) of
        None \<Rightarrow> None
      | Some ciphertext_b64 \<Rightarrow>
          (case derive_pairwise_relay_key X C scalar me (cm_sender msg) of
             Inl _ \<Rightarrow> None
           | Inr key \<Rightarrow>
               (case b64_decode C ciphertext_b64 of
                  Inl _ \<Rightarrow> None
                | Inr ciphertext \<Rightarrow>
                    (case decrypt_blob X key ciphertext of
                       Inl _ \<Rightarrow> None
                     | Inr inner_bytes \<Rightarrow>
                         (case from_utf8 inner_bytes of
                            None \<Rightarrow> None
                          | Some s \<Rightarrow>
                              (case client_from_json L now s of
                                 None \<Rightarrow> None
                               | Some inner \<Rightarrow>
                                   if cm_type inner = EncryptedSignal_c then None
                                   else if cm_sender inner \<noteq> cm_sender msg then None
                                   else Some inner))))))"

section \<open>Election\<close>

lemma elected_unique: "is_elected_keyer S a \<Longrightarrow> is_elected_keyer S b \<Longrightarrow> bare a = bare b"
  unfolding is_elected_keyer_def by (metis linorder_neqE)

lemma elected_exists:
  assumes "finite S" "S \<noteq> {}"
  shows "\<exists>m \<in> S. is_elected_keyer S m"
proof -
  let ?b = "Min (bare ` S)"
  have "?b \<in> bare ` S" using assms by simp
  then obtain m where m: "m \<in> S" "bare m = ?b" by auto
  have "\<not> bare x < bare m" if "x \<in> S" for x
  proof -
    have "?b \<le> bare x" using assms(1) that by simp
    then show ?thesis using m(2) by (simp add: not_less)
  qed
  with m show ?thesis by (auto simp: is_elected_keyer_def)
qed

section \<open>The invariant of key distribution\<close>

definition no_wrap :: "room_id \<Rightarrow> keying \<Rightarrow> bool" where
  "no_wrap room_id st = (case ck_groups st room_id of None \<Rightarrow> True | Some s \<Rightarrow> next_epoch s \<noteq> 0)"

definition keying_ok :: "keying \<Rightarrow> bool" where
  "keying_ok st \<longleftrightarrow> (\<forall>c s. ck_groups st c = Some s \<longrightarrow> epochs_live s) \<and>
     (\<forall>k p. ck_pending st k = Some p \<longrightarrow> has_real_key (fst k) (ck_groups st))"

lemma keying_okI:
  "(\<And>c s. ck_groups st c = Some s \<Longrightarrow> epochs_live s) \<Longrightarrow> (\<And>r m p. ck_pending st (r, m) = Some p \<Longrightarrow> has_real_key r (ck_groups st)) \<Longrightarrow>
     keying_ok st"
  unfolding keying_ok_def by (metis prod.collapse)

lemma keying_okD:
  assumes "keying_ok st"
  shows "ck_groups st c = Some s \<Longrightarrow> epochs_live s" "ck_pending st (r, m) = Some p \<Longrightarrow> has_real_key r (ck_groups st)"
  using assms by (fastforce simp: keying_ok_def)+

lemma pending_del_ok: "keying_ok st \<Longrightarrow> keying_ok (st\<lparr>ck_pending := (ck_pending st)(k := None)\<rparr>)"
  by (rule keying_okI) (auto dest: keying_okD split: if_splits)

text \<open>Keys go to members of the room, from the elected keyer, and are real keys of it.\<close>

definition sends_ok :: "keying \<Rightarrow> key_send set \<Rightarrow> bool" where
  "sends_ok st sent \<longleftrightarrow> (\<forall>(m, r, e, k) \<in> sent.
     m \<in> union_members_for_room (ck_members st) r \<and>
     is_elected_keyer (insert (ck_me st) (union_members_for_room (ck_members st) r)) (ck_me st) \<and>
     (\<exists>s. ck_groups st r = Some s \<and> map_of (gs_keys s) e = Some k))"

lemma sends_empty [simp]: "sends_ok st {}"
  by (simp add: sends_ok_def)

lemma distribute_ok:
  assumes "keying_ok st" "members \<subseteq> union_members_for_room (ck_members st) room"
    and "is_elected_keyer (insert (ck_me st) (union_members_for_room (ck_members st) room)) (ck_me st)"
    and "ck_groups st room = Some s" "map_of (gs_keys s) epoch = Some key"
  shows "keying_ok (fst (distribute_group_key seals now room epoch key members st))"
    "sends_ok (fst (distribute_group_key seals now room epoch key members st)) (snd (distribute_group_key seals now room epoch key members st))"
proof -
  have "has_real_key room (ck_groups st)" using assms(4,5) by (cases "gs_keys s") (auto simp: has_real_key_def has_keys_def)
  then show "keying_ok (fst (distribute_group_key seals now room epoch key members st))"
    using assms(1) by (fastforce simp: keying_ok_def distribute_group_key_def split: if_splits)
  show "sends_ok (fst (distribute_group_key seals now room epoch key members st)) (snd (distribute_group_key seals now room epoch key members st))"
    using assms(2-5) by (auto simp: sends_ok_def distribute_group_key_def)
qed

lemma keep_pending_ok: "keying_ok st \<Longrightarrow> keying_ok (keep_pending P st)"
  by (fastforce simp: keying_ok_def keep_pending_def)

lemma keep_pending_fields [simp]:
  "ck_groups (keep_pending P st) = ck_groups st" "ck_members (keep_pending P st) = ck_members st" "ck_me (keep_pending P st) = ck_me st"
  by (simp_all add: keep_pending_def)

lemma distribute_fields [simp]:
  "ck_groups (fst (distribute_group_key seals now room epoch key members st)) = ck_groups st"
  "ck_members (fst (distribute_group_key seals now room epoch key members st)) = ck_members st"
  "ck_me (fst (distribute_group_key seals now room epoch key members st)) = ck_me st"
  by (simp_all add: distribute_group_key_def)

lemma has_real_upd: "has_keys s \<Longrightarrow> has_real_key r g \<Longrightarrow> has_real_key r (g(c \<mapsto> s))"
  by (auto simp: has_real_key_def)

lemma mint_live:
  assumes "keying_ok st" "length fresh = 32" "no_wrap room st" "new_owner_epoch now fresh room (ck_groups st) = (g, epoch, key)"
    and "\<not> has_real_key room (ck_groups st)"
  shows "keying_ok (st\<lparr>ck_groups := g\<rparr>)" "\<exists>s. g room = Some s \<and> map_of (gs_keys s) epoch = Some key" "key = fresh"
proof -
  define e0 where "e0 = (case ck_groups st room of None \<Rightarrow> 0 | Some s \<Rightarrow> next_epoch s)"
  define s0 where "s0 = default_group\<lparr>gs_seen_high := (case ck_groups st room of None \<Rightarrow> None | Some s \<Rightarrow> gs_seen_high s)\<rparr>"
  have g: "g = (ck_groups st)(room \<mapsto> install_epoch now e0 fresh s0)" "epoch = e0" and k: "key = fresh"
    using assms(4) by (auto simp: new_owner_epoch_def Let_def e0_def s0_def)
  have s0: "group_ok s0" "gs_keys s0 = []" by (simp_all add: s0_def default_group_def group_ok_def)
  have live: "epochs_live (install_epoch now e0 fresh s0)" "map_of (gs_keys (install_epoch now e0 fresh s0)) e0 = Some fresh"
    using install_live [OF s0(1), of fresh e0 now] s0(2) assms(2) by (simp_all add: GROUP_KEY_LEN_def)
  then have "has_keys (install_epoch now e0 fresh s0)" by (auto simp: has_keys_def)
  with live assms(1) show "keying_ok (st\<lparr>ck_groups := g\<rparr>)" by (auto simp: keying_ok_def g has_real_upd)
  show "\<exists>s. g room = Some s \<and> map_of (gs_keys s) epoch = Some key" using live k by (simp add: g)
  show "key = fresh" by (rule k)
qed

lemma rotate_live:
  assumes "keying_ok st" "length fresh = 32" "no_wrap room st" "rotate_epoch now fresh room (ck_groups st) = (g, epoch, key)"
    and "ck_groups st room = Some s"
  shows "keying_ok (st\<lparr>ck_groups := g\<rparr>)" "\<exists>s. g room = Some s \<and> map_of (gs_keys s) epoch = Some key" "key = fresh"
    "epoch = next_epoch s" "\<forall>x \<in> set (gs_keys s). fst x < epoch" "current_epoch g room = epoch"
proof -
  have g: "g = (ck_groups st)(room \<mapsto> install_epoch now (next_epoch s) fresh s)" and e: "epoch = next_epoch s" and k: "key = fresh"
    using assms(4,5) by (auto simp: rotate_epoch_def Let_def)
  have l: "epochs_live s" "next_epoch s \<noteq> 0" using assms(1,3,5) by (auto simp: keying_ok_def no_wrap_def)
  have lt: "\<forall>x \<in> set (gs_keys s). fst x < next_epoch s"
    using live_bounds [OF l(1)] next_epoch_above(1) [OF l(2)] by (auto intro: le_less_trans)
  have live: "epochs_live (install_epoch now (next_epoch s) fresh s)"
    "map_of (gs_keys (install_epoch now (next_epoch s) fresh s)) (next_epoch s) = Some fresh"
    using install_live [of s fresh "next_epoch s" now] l(1) lt assms(2) by (auto simp: GROUP_KEY_LEN_def epochs_live_def less_imp_le)
  then have hk: "has_keys (install_epoch now (next_epoch s) fresh s)" by (auto simp: has_keys_def)
  with live assms(1) show "keying_ok (st\<lparr>ck_groups := g\<rparr>)" by (auto simp: keying_ok_def g has_real_upd)
  show "\<exists>s. g room = Some s \<and> map_of (gs_keys s) epoch = Some key" using live k by (simp add: g e)
  show "key = fresh" "epoch = next_epoch s" by (rule k, rule e)
  show "\<forall>x \<in> set (gs_keys s). fst x < epoch" using lt by (simp add: e)
  show "current_epoch g room = epoch" using hk by (simp add: current_epoch_def g e install_fields)
qed

lemma real_state: "has_real_key r g \<longleftrightarrow> (\<exists>s. g r = Some s \<and> has_keys s)"
  by (auto simp: has_real_key_def split: option.splits)

lemma live_current_key:
  assumes "keying_ok st" "has_real_key r (ck_groups st)"
  shows "\<exists>s k. ck_groups st r = Some s \<and> current_epoch (ck_groups st) r = gs_current s \<and> map_of (gs_keys s) (gs_current s) = Some k \<and>
    epoch_key X (ck_groups st) r (gs_current s) = Some k \<and> length k = 32"
proof -
  obtain s where s: "ck_groups st r = Some s" "has_keys s" using assms(2) by (auto simp: real_state)
  then have l: "epochs_live s" using assms(1) by (auto simp: keying_ok_def)
  let ?x = "last (gs_keys s)"
  have x: "?x \<in> set (gs_keys s)" "fst ?x = gs_current s" using s l by (auto simp: epochs_live_def has_keys_def)
  have "distinct (map fst (gs_keys s))" using l by (simp add: epochs_live_def group_ok_def strict_sorted_iff)
  then have "map_of (gs_keys s) (gs_current s) = Some (snd ?x)" using x by (metis map_of_eq_Some_iff prod.collapse)
  moreover have "length (snd ?x) = 32" using x(1) l by (auto simp: epochs_live_def group_ok_def GROUP_KEY_LEN_def split: prod.splits)
  ultimately show ?thesis using s by (auto simp: current_epoch_def epoch_key_def)
qed

lemma members_upd_ok: "keying_ok (st\<lparr>ck_members := f\<rparr>) = keying_ok st"
  by (simp add: keying_ok_def)

lemma sync_ok:
  assumes "keying_ok st" "length fresh = 32" "no_wrap room st"
  shows "keying_ok (fst (sync_room_membership X seals now fresh sn room ms st)) \<and>
    sends_ok (fst (sync_room_membership X seals now fresh sn room ms st)) (snd (sync_room_membership X seals now fresh sn room ms st))"
proof -
  define st1 where "st1 = st\<lparr>ck_members := (ck_members st)(sn @ '':'' @ room \<mapsto> {m \<in> set ms. m \<noteq> ck_me st})\<rparr>"
  define U where "U = union_members_for_room (ck_members st1) room"
  define U0 where "U0 = union_members_for_room (ck_members st) room"
  define st2 where "st2 = keep_pending (\<lambda>r m. r \<noteq> room \<or> m \<in> U) st1"
  have f: "ck_me st1 = ck_me st" "ck_groups st1 = ck_groups st" "ck_groups st2 = ck_groups st" "ck_members st2 = ck_members st1" "ck_me st2 = ck_me st"
    by (simp_all add: st1_def st2_def)
  have ok1: "keying_ok st1" using assms(1) by (simp add: st1_def members_upd_ok)
  then have ok2: "keying_ok st2" by (simp add: st2_def keep_pending_ok)
  have nw: "no_wrap room st2" using assms(3) by (simp add: no_wrap_def f)
  have sync: "sync_room_membership X seals now fresh sn room ms st =
     (if \<not> is_elected_keyer (insert (ck_me st) U) (ck_me st) then (keep_pending (\<lambda>r _. r \<noteq> room) st1, {})
      else if should_mint_first_room_key True (has_real_key room (ck_groups st2)) (card U)
      then (let (g, epoch, key) = new_owner_epoch now fresh room (ck_groups st2)
            in distribute_group_key seals now room epoch key U (st2\<lparr>ck_groups := g\<rparr>))
      else if has_real_key room (ck_groups st2) \<and> U0 - U \<noteq> {}
      then (let (g, epoch, key) = rotate_epoch now fresh room (ck_groups st2)
            in distribute_group_key seals now room epoch key U (keep_pending (\<lambda>r _. r \<noteq> room) (st2\<lparr>ck_groups := g\<rparr>)))
      else if has_real_key room (ck_groups st2) \<and> U - U0 \<noteq> {}
      then (let epoch = current_epoch (ck_groups st2) room
            in case epoch_key X (ck_groups st2) room epoch of None \<Rightarrow> (st2, {})
               | Some key \<Rightarrow> distribute_group_key seals now room epoch key (U - U0) st2)
      else (st2, {}))"
    unfolding sync_room_membership_def Let_def st1_def U_def U0_def st2_def by simp
  consider "\<not> is_elected_keyer (insert (ck_me st) U) (ck_me st)"
    | "is_elected_keyer (insert (ck_me st) U) (ck_me st)" "should_mint_first_room_key True (has_real_key room (ck_groups st2)) (card U)"
    | "is_elected_keyer (insert (ck_me st) U) (ck_me st)" "has_real_key room (ck_groups st2)" "U0 - U \<noteq> {}"
    | "is_elected_keyer (insert (ck_me st) U) (ck_me st)" "has_real_key room (ck_groups st2)" "U0 - U = {}" "U - U0 \<noteq> {}"
    | "is_elected_keyer (insert (ck_me st) U) (ck_me st)" "\<not> should_mint_first_room_key True (has_real_key room (ck_groups st2)) (card U)"
      "\<not> (has_real_key room (ck_groups st2) \<and> U0 - U \<noteq> {})" "\<not> (has_real_key room (ck_groups st2) \<and> U - U0 \<noteq> {})"
    by blast
  then show ?thesis
  proof cases
    case 1
    then show ?thesis using ok1 by (simp add: sync keep_pending_ok)
  next
    case 2
    obtain g e k where n: "new_owner_epoch now fresh room (ck_groups st2) = (g, e, k)" by (metis prod_cases3)
    have nr: "\<not> has_real_key room (ck_groups st2)" using 2(2) by (simp add: should_mint_first_room_key_def)
    note ml = mint_live [OF ok2 assms(2) nw n nr]
    obtain s where "g room = Some s" "map_of (gs_keys s) e = Some k" using ml(2) by blast
    note d = distribute_ok [OF ml(1) _ _ _ this(2), of U room seals now]
    have "sync_room_membership X seals now fresh sn room ms st = distribute_group_key seals now room e k U (st2\<lparr>ck_groups := g\<rparr>)"
      unfolding sync using 2 n by simp
    with d 2(1) \<open>g room = Some s\<close> show ?thesis by (simp add: f U_def)
  next
    case 3
    obtain g e k where n: "rotate_epoch now fresh room (ck_groups st2) = (g, e, k)" by (metis prod_cases3)
    obtain s0 where s0: "ck_groups st2 room = Some s0" using 3(2) by (auto simp: real_state)
    note rl = rotate_live [OF ok2 assms(2) nw n s0]
    obtain s where "g room = Some s" "map_of (gs_keys s) e = Some k" using rl(2) by blast
    note d = distribute_ok [OF keep_pending_ok [OF rl(1), of "\<lambda>r _. r \<noteq> room"] _ _ _ this(2), of U room seals now]
    have "sync_room_membership X seals now fresh sn room ms st =
      distribute_group_key seals now room e k U (keep_pending (\<lambda>r _. r \<noteq> room) (st2\<lparr>ck_groups := g\<rparr>))"
      unfolding sync using 3 n by (simp add: should_mint_first_room_key_def)
    with d 3(1) \<open>g room = Some s\<close> show ?thesis by (simp add: f U_def)
  next
    case 4
    obtain s k where s: "ck_groups st2 room = Some s" "current_epoch (ck_groups st2) room = gs_current s"
      "map_of (gs_keys s) (gs_current s) = Some k" "epoch_key X (ck_groups st2) room (gs_current s) = Some k"
      using live_current_key [OF ok2 4(2)] by blast
    note d = distribute_ok [OF ok2 _ _ s(1,3), of "U - U0" seals now]
    have "sync_room_membership X seals now fresh sn room ms st = distribute_group_key seals now room (gs_current s) k (U - U0) st2"
      unfolding sync using 4 s by (simp add: should_mint_first_room_key_def Let_def)
    with d 4(1) show ?thesis by (auto simp: f U_def)
  next
    case 5
    then have "sync_room_membership X seals now fresh sn room ms st = (st2, {})" unfolding sync by (simp only: simp_thms if_True if_False)
    then show ?thesis using ok2 by simp
  qed
qed

lemma rekey_ok:
  assumes "keying_ok st" "length fresh = 32" "no_wrap room st"
  shows "keying_ok (fst (rekey_room_if_behind seals now fresh room st)) \<and>
    sends_ok (fst (rekey_room_if_behind seals now fresh room st)) (snd (rekey_room_if_behind seals now fresh room st))"
proof (cases "is_behind room (ck_groups st) \<and> is_elected_keyer (insert (ck_me st) (union_members_for_room (ck_members st) room)) (ck_me st) \<and>
    union_members_for_room (ck_members st) room \<noteq> {}")
  case True
  obtain s0 where s0: "ck_groups st room = Some s0" using True by (auto simp: is_behind_def split: option.splits)
  obtain g e k where n: "rotate_epoch now fresh room (ck_groups st) = (g, e, k)" by (metis prod_cases3)
  note rl = rotate_live [OF assms n s0]
  obtain s where "g room = Some s" "map_of (gs_keys s) e = Some k" using rl(2) by blast
  note d = distribute_ok [OF keep_pending_ok [OF rl(1), of "\<lambda>r _. r \<noteq> room"] _ _ _ this(2), of "union_members_for_room (ck_members st) room" room seals now]
  then show ?thesis using True \<open>g room = Some s\<close> by (simp add: rekey_room_if_behind_def Let_def n)
next
  case False
  then show ?thesis using assms(1) by (auto simp: rekey_room_if_behind_def Let_def)
qed

lemma reseal_ok:
  assumes "keying_ok st" "\<And>S. S \<noteq> {} \<Longrightarrow> pick S \<in> S"
  shows "keying_ok (fst (reseal_to_lagging_member X pick seals now room sender e st)) \<and>
    sends_ok (fst (reseal_to_lagging_member X pick seals now room sender e st)) (snd (reseal_to_lagging_member X pick seals now room sender e st))"
proof -
  let ?U = "union_members_for_room (ck_members st) room" let ?m = "pick {m \<in> ?U. bare m = bare sender}"
  let ?st = "st\<lparr>ck_pending := (ck_pending st)((room, ?m) := None)\<rparr>" let ?c = "current_epoch (ck_groups st) room"
  have "reseal_to_lagging_member X pick seals now room sender e st =
     (if (\<exists>age. current_epoch_age now room (ck_groups st) = Some age \<and> should_reseal_to_lagging_member e ?c age) \<and>
         {m \<in> ?U. bare m = bare sender} \<noteq> {} \<and> is_elected_keyer (insert (ck_me st) ?U) (ck_me st) \<and>
         \<not> (case ck_pending st (room, ?m) of Some p \<Rightarrow> pa_epoch p = ?c | None \<Rightarrow> False) \<and> epoch_key X (ck_groups st) room ?c \<noteq> None
      then distribute_group_key seals now room ?c (the (epoch_key X (ck_groups st) room ?c)) {?m} ?st else (st, {}))"
    unfolding reseal_to_lagging_member_def Let_def by (cases "current_epoch_age now room (ck_groups st)") (auto split: option.splits)
  then consider "reseal_to_lagging_member X pick seals now room sender e st = (st, {})"
    | age k where "reseal_to_lagging_member X pick seals now room sender e st = distribute_group_key seals now room ?c k {?m} ?st"
        "current_epoch_age now room (ck_groups st) = Some age" "{m \<in> ?U. bare m = bare sender} \<noteq> {}"
        "is_elected_keyer (insert (ck_me st) ?U) (ck_me st)" "epoch_key X (ck_groups st) room ?c = Some k"
    by (smt (verit, best) option.exhaust_sel)
  then show ?thesis
  proof cases
    case 1
    then show ?thesis using assms(1) by simp
  next
    case 2
    obtain s k' where s: "ck_groups st room = Some s" "?c = gs_current s" "map_of (gs_keys s) (gs_current s) = Some k'"
      "epoch_key X (ck_groups st) room (gs_current s) = Some k'"
      using live_current_key [OF assms(1), of room] 2(2) by (auto simp: current_epoch_age_def has_real_key_def split: option.splits if_splits)
    have ok: "keying_ok ?st" by (rule pending_del_ok [OF assms(1)])
    have m: "?m \<in> ?U" using assms(2) [OF 2(3)] by simp
    from distribute_ok [OF ok, of "{?m}" room s ?c k seals now] s 2 m show ?thesis by simp
  qed
qed

lemma observe_ok:
  assumes "keying_ok st"
  shows "keying_ok (st\<lparr>ck_groups := note_observed_epoch room e (ck_groups st)\<rparr>)"
proof -
  have "epochs_live (note_seen e (group_entry room (ck_groups st)))"
  proof (cases "ck_groups st room")
    case None
    then show ?thesis by (simp add: group_entry_def epochs_live_def note_seen_ok) (simp add: has_keys_def note_seen_def default_group_def)
  next
    case (Some s)
    then have "epochs_live s" using assms by (auto simp: keying_ok_def)
    then show ?thesis using Some
      by (auto simp: group_entry_def epochs_live_def note_seen_ok) (auto simp: has_keys_def note_seen_def split: option.splits)
  qed
  moreover have "has_real_key r (note_observed_epoch room e (ck_groups st)) = has_real_key r (ck_groups st)" for r
    by (auto simp: has_real_key_def note_observed_epoch_def group_entry_def note_seen_def has_keys_def default_group_def split: option.splits)
  ultimately show ?thesis using assms by (auto simp: keying_ok_def note_observed_epoch_def)
qed

lemma retry_ok:
  assumes "keying_ok st"
  shows "keying_ok (fst (retry_pending_group_keys X seals now st)) \<and>
    sends_ok (fst (retry_pending_group_keys X seals now st)) (snd (retry_pending_group_keys X seals now st))"
proof
  have f: "ck_groups (fst (retry_pending_group_keys X seals now st)) = ck_groups st"
    "ck_members (fst (retry_pending_group_keys X seals now st)) = ck_members st" "ck_me (fst (retry_pending_group_keys X seals now st)) = ck_me st"
    by (simp_all add: retry_pending_group_keys_def)
  show "keying_ok (fst (retry_pending_group_keys X seals now st))"
  proof (rule keying_okI)
    fix r m p assume p: "ck_pending (fst (retry_pending_group_keys X seals now st)) (r, m) = Some p"
    then obtain q where "ck_pending st (r, m) = Some q" by (cases "ck_pending st (r, m)") (simp_all add: retry_pending_group_keys_def)
    from keying_okD(2) [OF assms this] show "has_real_key r (ck_groups (fst (retry_pending_group_keys X seals now st)))" by (simp only: f)
  qed (use assms in \<open>simp only: f, erule keying_okD(1)\<close>)
  have v: "m \<in> union_members_for_room (ck_members st) r \<and> is_elected_keyer (insert (ck_me st) (union_members_for_room (ck_members st) r)) (ck_me st)"
    if "retry_verdict_for now st r m p = Resend_ack e" for r m p e
    using that by (auto simp: retry_verdict_for_def Let_def split: if_splits)
  have k: "\<exists>s. ck_groups st r = Some s \<and> map_of (gs_keys s) e = Some k"
    if "ck_pending st (r, m) = Some p" "epoch_key X (ck_groups st) r e = Some k" for r m p e k
    using keying_okD(2) [OF assms that(1)] that(2) by (auto simp: real_state epoch_key_def)
  show "sends_ok (fst (retry_pending_group_keys X seals now st)) (snd (retry_pending_group_keys X seals now st))"
    unfolding sends_ok_def f
  proof (clarify)
    fix m r e k assume "(m, r, e, k) \<in> snd (retry_pending_group_keys X seals now st)"
    then obtain p where "ck_pending st (r, m) = Some p" "retry_verdict_for now st r m p = Resend_ack e" "epoch_key X (ck_groups st) r e = Some k"
      by (auto simp: retry_pending_group_keys_def)
    with v k show "m \<in> union_members_for_room (ck_members st) r \<and>
       is_elected_keyer (insert (ck_me st) (union_members_for_room (ck_members st) r)) (ck_me st) \<and> (\<exists>s. ck_groups st r = Some s \<and> map_of (gs_keys s) e = Some k)"
      by blast
  qed
qed

text \<open>An offer does not step over the end of the ring of epochs.\<close>

definition offered_epoch :: "client_message \<Rightarrow> u8 option" where
  "offered_epoch msg = map_option ucast (Option.bind (jget ''epoch'' (VObj (cm_payload msg))) as_u64)"

definition offer_no_wrap :: "client_message \<Rightarrow> keying \<Rightarrow> bool" where
  "offer_no_wrap msg st = (case offered_epoch msg of None \<Rightarrow> True
     | Some e \<Rightarrow> current_epoch (ck_groups st) (get_str_or [] ''room_id'' (VObj (cm_payload msg))) \<le> e)"

lemma install_key_ok:
  assumes "keying_ok st" "length key = 32" "has_real_key room (ck_groups st) \<Longrightarrow> current_epoch (ck_groups st) room \<le> e"
  shows "keying_ok (st\<lparr>ck_groups := install_key now room e key (ck_groups st)\<rparr>)"
    "current_epoch (install_key now room e key (ck_groups st)) room = e"
    "epoch_key X (install_key now room e key (ck_groups st)) room e = Some key"
proof -
  let ?s = "group_entry room (ck_groups st)"
  have l: "epochs_live ?s" using assms(1) by (auto simp: group_entry_def keying_ok_def epochs_live_def has_keys_def default_group_def group_ok_def split: option.splits)
  have "\<forall>x \<in> set (gs_keys ?s). fst x \<le> e"
  proof
    fix x assume x: "x \<in> set (gs_keys ?s)"
    then have "ck_groups st room = Some ?s" "has_keys ?s"
      by (auto simp: group_entry_def has_keys_def default_group_def split: option.splits)
    then have "gs_current ?s \<le> e" using assms(3) by (auto simp: has_real_key_def current_epoch_def)
    with live_bounds [OF l x] show "fst x \<le> e" by simp
  qed
  then have il: "epochs_live (install_epoch now e key ?s)" "map_of (gs_keys (install_epoch now e key ?s)) e = Some key"
    using install_live [of ?s key e now] l assms(2) by (simp_all add: epochs_live_def GROUP_KEY_LEN_def)
  then have hk: "has_keys (install_epoch now e key ?s)" by (auto simp: has_keys_def)
  show "keying_ok (st\<lparr>ck_groups := install_key now room e key (ck_groups st)\<rparr>)"
    using assms(1) il(1) hk unfolding keying_ok_def by (auto simp: install_key_def has_real_upd)
  show "current_epoch (install_key now room e key (ck_groups st)) room = e"
    "epoch_key X (install_key now room e key (ck_groups st)) room e = Some key"
    using hk il(2) by (simp_all add: current_epoch_def epoch_key_def install_key_def install_fields)
qed

lemma on_key_ok:
  assumes "keying_ok st" "offer_no_wrap msg st"
  shows "keying_ok (fst (on_sfu_group_key C now msg st))"
proof -
  let ?r = "get_str_or [] ''room_id'' (VObj (cm_payload msg))"
  have "fst (on_sfu_group_key C now msg st) = st \<or>
    (\<exists>e k. length k = 32 \<and> offered_epoch msg = Some e \<and> fst (on_sfu_group_key C now msg st) = st\<lparr>ck_groups := install_key now ?r e k (ck_groups st)\<rparr>)"
    unfolding on_sfu_group_key_def Let_def offered_epoch_def
    by (cases "Option.bind (jget ''epoch'' (VObj (cm_payload msg))) as_u64"; cases "get_str ''key'' (VObj (cm_payload msg))")
       (auto split: sum.split)
  then consider "fst (on_sfu_group_key C now msg st) = st"
    | e k where "length k = 32" "offered_epoch msg = Some e" "fst (on_sfu_group_key C now msg st) = st\<lparr>ck_groups := install_key now ?r e k (ck_groups st)\<rparr>"
    by blast
  then show ?thesis
  proof cases
    case 2
    with assms install_key_ok(1) [OF assms(1) 2(1), of ?r e now] show ?thesis by (simp add: offer_no_wrap_def)
  qed (use assms in simp)
qed

lemma ack_ok: "keying_ok st \<Longrightarrow> keying_ok (on_sfu_group_key_ack msg st)"
  unfolding on_sfu_group_key_ack_def Let_def by (auto simp: pending_del_ok split: option.splits)

lemma forget_ok: "keying_ok st \<Longrightarrow> keying_ok (forget_room sn room st)"
proof (rule keying_okI)
  assume a: "keying_ok st"
  fix r m p assume "ck_pending (forget_room sn room st) (r, m) = Some p"
  then have "r \<noteq> room" "ck_pending st (r, m) = Some p" by (auto simp: forget_room_def keep_pending_def)
  with keying_okD(2) [OF a this(2)] show "has_real_key r (ck_groups (forget_room sn room st))"
    by (simp add: forget_room_def forget_group_def has_real_key_def)
qed (auto simp: forget_room_def forget_group_def dest: keying_okD split: if_splits)

section \<open>Histories\<close>

text \<open>
  The histories of a client in which no epoch goes over the end of the 8-bit ring: a minted epoch is not
  0 again, and an accepted offer is not below the current epoch.
\<close>

inductive keying_run :: "kdf_lib \<Rightarrow> keying \<Rightarrow> bool" for X where
  start: "keying_run X \<lparr>ck_me = me, ck_groups = Map.empty, ck_members = Map.empty, ck_pending = Map.empty\<rparr>"
| roster: "keying_run X st \<Longrightarrow> length fresh = 32 \<Longrightarrow> no_wrap room st \<Longrightarrow>
    keying_run X (fst (sync_room_membership X seals now fresh sn room ms st))"
| unopened: "keying_run X st \<Longrightarrow> length fresh = 32 \<Longrightarrow> no_wrap room (st\<lparr>ck_groups := note_observed_epoch room e (ck_groups st)\<rparr>) \<Longrightarrow>
    (\<And>S. S \<noteq> {} \<Longrightarrow> pick S \<in> S) \<Longrightarrow> keying_run X (fst (frame_not_opened X pick seals now fresh room sender e st))"
| opened: "keying_run X st \<Longrightarrow> (\<And>S. S \<noteq> {} \<Longrightarrow> pick S \<in> S) \<Longrightarrow>
    keying_run X (fst (reseal_to_lagging_member X pick seals now room sender e st))"
| offer: "keying_run X st \<Longrightarrow> offer_no_wrap msg st \<Longrightarrow> keying_run X (fst (on_sfu_group_key C now msg st))"
| ack: "keying_run X st \<Longrightarrow> keying_run X (on_sfu_group_key_ack msg st)"
| retry: "keying_run X st \<Longrightarrow> keying_run X (fst (retry_pending_group_keys X seals now st))"
| forget: "keying_run X st \<Longrightarrow> keying_run X (forget_room sn room st)"

lemma unopened_ok:
  assumes "keying_ok st" "length fresh = 32" "no_wrap room (st\<lparr>ck_groups := note_observed_epoch room e (ck_groups st)\<rparr>)"
    and "\<And>S. S \<noteq> {} \<Longrightarrow> pick S \<in> S"
  shows "keying_ok (fst (frame_not_opened X pick seals now fresh room sender e st))"
proof -
  let ?st = "st\<lparr>ck_groups := note_observed_epoch room e (ck_groups st)\<rparr>"
  have "keying_ok (fst (rekey_room_if_behind seals now fresh room ?st))" using rekey_ok [OF observe_ok [OF assms(1)] assms(2,3)] by blast
  from reseal_ok [OF this assms(4)] show ?thesis by (simp add: frame_not_opened_def Let_def case_prod_beta)
qed

lemma keying_run_ok: "keying_run X st \<Longrightarrow> keying_ok st"
proof (induction rule: keying_run.induct)
  case (start me)
  then show ?case by (simp add: keying_ok_def)
next
  case (roster st fresh room seals now sn ms)
  then show ?case using sync_ok by blast
next
  case (unopened st fresh room e pick seals now sender)
  show ?case by (rule unopened_ok [OF unopened.IH unopened.hyps(2,3)]) (rule unopened.hyps(4))
next
  case (opened st pick seals now room sender e)
  show ?case using reseal_ok [OF opened.IH] opened.hyps(2) by blast
next
  case (offer st msg C now)
  show ?case by (rule on_key_ok [OF offer.IH offer.hyps(2)])
next
  case (ack st msg)
  show ?case by (rule ack_ok [OF ack.IH])
next
  case (retry st seals now)
  show ?case using retry_ok [OF retry.IH] by blast
next
  case (forget st sn room)
  show ?case by (rule forget_ok [OF forget.IH])
qed

section \<open>Keys stay in the room\<close>

lemma sync_members: "ck_members (fst (sync_room_membership X seals now fresh sn room ms st)) =
    (ck_members st)(sn @ '':'' @ room \<mapsto> {m \<in> set ms. m \<noteq> ck_me st})"
  unfolding sync_room_membership_def Let_def
  by (simp add: case_prod_beta split: option.split)

definition roster_union :: "peer_id \<Rightarrow> room_id \<Rightarrow> peer_id list \<Rightarrow> keying \<Rightarrow> peer_id set" where
  "roster_union sn room ms st =
     union_members_for_room ((ck_members st)(sn @ '':'' @ room \<mapsto> {m \<in> set ms. m \<noteq> ck_me st})) room"

lemma departure_rotates:
  assumes "keying_ok st" "length fresh = 32" "no_wrap room st" "ck_groups st room = Some s" "has_keys s"
    and "is_elected_keyer (insert (ck_me st) (roster_union sn room ms st)) (ck_me st)"
    and "union_members_for_room (ck_members st) room - roster_union sn room ms st \<noteq> {}"
  shows "snd (sync_room_membership X seals now fresh sn room ms st) =
      {(m, room, next_epoch s, fresh) | m. m \<in> roster_union sn room ms st \<and> seals m} \<and>
    current_epoch (ck_groups (fst (sync_room_membership X seals now fresh sn room ms st))) room = next_epoch s \<and>
    (\<forall>x \<in> set (gs_keys s). fst x < next_epoch s)"
proof -
  obtain g e k where n: "rotate_epoch now fresh room (ck_groups st) = (g, e, k)" by (metis prod_cases3)
  note rl = rotate_live [OF assms(1-3) n assms(4)]
  define P where "P = (\<lambda>r m. r \<noteq> room \<or> m \<in> roster_union sn room ms st)"
  define st2 where "st2 = keep_pending P (st\<lparr>ck_members := (ck_members st)(sn @ '':'' @ room \<mapsto> {m \<in> set ms. m \<noteq> ck_me st})\<rparr>)"
  have real: "has_real_key room (ck_groups st)" using assms(4,5) by (auto simp: real_state)
  have "sync_room_membership X seals now fresh sn room ms st =
    distribute_group_key seals now room e k (roster_union sn room ms st) (keep_pending (\<lambda>r _. r \<noteq> room) (st2\<lparr>ck_groups := g\<rparr>))"
    using assms(6,7) real n
    unfolding sync_room_membership_def Let_def roster_union_def st2_def P_def by (simp add: should_mint_first_room_key_def)
  then show ?thesis using rl(3-6) by (simp add: distribute_group_key_def)
qed

text \<open>
  C7. Room keys stay in the room. Over every history of rosters, frames, offers, acknowledgements,
  retries and departures in which the epoch counter does not wrap: a client that has a real key can
  seal under its current epoch, with a 32-byte key, and keeps at most four epochs per room; every key it
  sends, on a roster change or a retry, goes to a member of the room in its own view, is a real key of
  the room and is sent by the elected keyer only; when a member leaves, the keyer sends the remaining
  members a fresh key under an epoch above all it holds. Of all clients with the same view exactly the
  holders of one identity are elected.
\<close>

theorem room_keys_confined:
  assumes "keying_run X st"
  shows "(\<forall>r. has_real_key r (ck_groups st) \<longrightarrow>
      (\<exists>k. epoch_key X (ck_groups st) r (current_epoch (ck_groups st) r) = Some k \<and> length k = 32)) \<and>
    (\<forall>r s. ck_groups st r = Some s \<longrightarrow> length (gs_keys s) \<le> 4) \<and>
    (length fresh = 32 \<and> no_wrap room st \<longrightarrow>
      sends_ok (fst (sync_room_membership X seals now fresh sn room ms st)) (snd (sync_room_membership X seals now fresh sn room ms st))) \<and>
    sends_ok (fst (retry_pending_group_keys X seals now st)) (snd (retry_pending_group_keys X seals now st)) \<and>
    (length fresh = 32 \<and> no_wrap room st \<and> ck_groups st room = Some s \<and> has_keys s \<and>
       is_elected_keyer (insert (ck_me st) (roster_union sn room ms st)) (ck_me st) \<and>
       union_members_for_room (ck_members st) room - roster_union sn room ms st \<noteq> {} \<longrightarrow>
      snd (sync_room_membership X seals now fresh sn room ms st) =
        {(m, room, next_epoch s, fresh) | m. m \<in> roster_union sn room ms st \<and> seals m} \<and>
      (\<forall>x \<in> set (gs_keys s). fst x < next_epoch s)) \<and>
    (finite S \<and> S \<noteq> {} \<longrightarrow> (\<exists>a \<in> S. is_elected_keyer S a \<and> (\<forall>b. is_elected_keyer S b \<longrightarrow> bare b = bare a)))"
proof (intro conjI)
  have ok: "keying_ok st" by (rule keying_run_ok [OF assms])
  show "\<forall>r. has_real_key r (ck_groups st) \<longrightarrow> (\<exists>k. epoch_key X (ck_groups st) r (current_epoch (ck_groups st) r) = Some k \<and> length k = 32)"
    using live_current_key [OF ok] by metis
  show "\<forall>r s. ck_groups st r = Some s \<longrightarrow> length (gs_keys s) \<le> 4"
    using keying_okD(1) [OF ok] by (auto simp: epochs_live_def group_ok_def MAX_RETAINED_EPOCHS_def)
  show "length fresh = 32 \<and> no_wrap room st \<longrightarrow>
      sends_ok (fst (sync_room_membership X seals now fresh sn room ms st)) (snd (sync_room_membership X seals now fresh sn room ms st))"
    using sync_ok [OF ok] by blast
  show "sends_ok (fst (retry_pending_group_keys X seals now st)) (snd (retry_pending_group_keys X seals now st))"
    using retry_ok [OF ok] by blast
  show "length fresh = 32 \<and> no_wrap room st \<and> ck_groups st room = Some s \<and> has_keys s \<and>
       is_elected_keyer (insert (ck_me st) (roster_union sn room ms st)) (ck_me st) \<and>
       union_members_for_room (ck_members st) room - roster_union sn room ms st \<noteq> {} \<longrightarrow>
      snd (sync_room_membership X seals now fresh sn room ms st) =
        {(m, room, next_epoch s, fresh) | m. m \<in> roster_union sn room ms st \<and> seals m} \<and>
      (\<forall>x \<in> set (gs_keys s). fst x < next_epoch s)"
    using departure_rotates [OF ok, of fresh room s sn ms X seals now] by auto
  show "finite S \<and> S \<noteq> {} \<longrightarrow> (\<exists>a \<in> S. is_elected_keyer S a \<and> (\<forall>b. is_elected_keyer S b \<longrightarrow> bare b = bare a))"
    using elected_exists [of S] elected_unique [of S] by blast
qed

definition demo_keying :: keying where
  "demo_keying = \<lparr>ck_me = ''ann'', ck_groups = Map.empty, ck_members = Map.empty, ck_pending = Map.empty\<rparr>"

theorem room_keys_confined_witness:
  "sends_ok (fst (sync_room_membership plain_kdf (\<lambda>_. True) 0 (replicate 32 7) ''sn'' ''r'' [''ann'', ''bob''] demo_keying))
     (snd (sync_room_membership plain_kdf (\<lambda>_. True) 0 (replicate 32 7) ''sn'' ''r'' [''ann'', ''bob''] demo_keying)) \<and>
   (\<exists>a \<in> {''ann'', ''bob''}. is_elected_keyer {''ann'', ''bob''} a)"
proof -
  have r: "keying_run plain_kdf demo_keying" unfolding demo_keying_def by (rule keying_run.start)
  have n: "length (replicate 32 (7 :: u8)) = 32 \<and> no_wrap ''r'' demo_keying" by (simp add: no_wrap_def demo_keying_def)
  note c = room_keys_confined [OF r, of "replicate 32 7" "''r''" "\<lambda>_. True" 0 "''sn''" "[''ann'', ''bob'']" default_group "{''ann'', ''bob''}"]
  show ?thesis
    using c [THEN conjunct2, THEN conjunct2, THEN conjunct1, rule_format, OF n]
      c [THEN conjunct2, THEN conjunct2, THEN conjunct2, THEN conjunct2, THEN conjunct2] by auto
qed

section \<open>What a forged roster, a stranger and a single frame can do\<close>

lemma ends_with_self: "ends_with s (a @ s)"
  by (simp add: ends_with_def)

lemma roster_of_stranger:
  assumes "ck_members st (mallory @ '':'' @ room) = None" "mallory \<noteq> ck_me st"
  shows "roster_union mallory room [mallory] st = insert mallory (union_members_for_room (ck_members st) room)"
proof (rule set_eqI)
  fix m
  let ?k = "mallory @ '':'' @ room"
  have e: "ends_with ('':'' @ room) ?k" by (rule ends_with_self)
  have s: "{m \<in> set [mallory]. m \<noteq> ck_me st} = {mallory}" using assms(2) by auto
  show "m \<in> roster_union mallory room [mallory] st \<longleftrightarrow> m \<in> insert mallory (union_members_for_room (ck_members st) room)"
    unfolding roster_union_def union_members_for_room_def s mem_Collect_eq insert_iff
  proof
    assume "\<exists>key members. ((ck_members st)(?k \<mapsto> {mallory})) key = Some members \<and> ends_with ('':'' @ room) key \<and> m \<in> members"
    then show "m = mallory \<or> (\<exists>key members. ck_members st key = Some members \<and> ends_with ('':'' @ room) key \<and> m \<in> members)"
      by (metis fun_upd_apply option.inject singletonD)
  next
    assume "m = mallory \<or> (\<exists>key members. ck_members st key = Some members \<and> ends_with ('':'' @ room) key \<and> m \<in> members)"
    then show "\<exists>key members. ((ck_members st)(?k \<mapsto> {mallory})) key = Some members \<and> ends_with ('':'' @ room) key \<and> m \<in> members"
      using e assms(1) by (metis fun_upd_apply insertI1 option.distinct(1))
  qed
qed

definition forged_roster :: "peer_id \<Rightarrow> room_id \<Rightarrow> client_message" where
  "forged_roster mallory room = new_client 0 SfuMembers_c mallory [(''room_id'', VStr room), (''chat_members'', VArr [VStr mallory])]"

lemma forged_roster_sync:
  "on_sfu_members X seals now fresh (forged_roster mallory room) st = sync_room_membership X seals now fresh mallory room [mallory] st"
  by (simp add: on_sfu_members_def forged_roster_def new_client_def client_new_message_def get_str_or_def get_str_def str_items_def less_char_def)

text \<open>
  C38. A roster is taken from anyone. Nothing ties \<open>SfuMembers\<close> to a supernode, so a peer that is in no
  roster of the room sends the keyer one message under its own name, listing itself, and the keyer seals
  the current room key to it (as long as the peer does not sort before the keyer itself).
\<close>

theorem forged_roster_gets_room_key:
  assumes "keying_run X st" "has_real_key room (ck_groups st)"
    and "mallory \<notin> union_members_for_room (ck_members st) room" "mallory \<noteq> ck_me st" "ck_members st (mallory @ '':'' @ room) = None"
    and "is_elected_keyer (insert (ck_me st) (insert mallory (union_members_for_room (ck_members st) room))) (ck_me st)" "seals mallory"
  shows "\<exists>k. epoch_key X (ck_groups st) room (current_epoch (ck_groups st) room) = Some k \<and>
    (mallory, room, current_epoch (ck_groups st) room, k) \<in> snd (on_sfu_members X seals now fresh (forged_roster mallory room) st)"
proof -
  let ?U = "union_members_for_room (ck_members st) room"
  obtain s k where s: "ck_groups st room = Some s" "current_epoch (ck_groups st) room = gs_current s" "epoch_key X (ck_groups st) room (gs_current s) = Some k"
    using live_current_key [OF keying_run_ok [OF assms(1)] assms(2), where X = X] by blast
  have U: "roster_union mallory room [mallory] st = insert mallory ?U" by (rule roster_of_stranger [OF assms(5,4)])
  have d: "?U - insert mallory ?U = {}" "insert mallory ?U - ?U = {mallory}" using assms(3) by auto
  have "sync_room_membership X seals now fresh mallory room [mallory] st =
    distribute_group_key seals now room (gs_current s) k {mallory} (keep_pending (\<lambda>r m. r \<noteq> room \<or> m \<in> insert mallory ?U)
      (st\<lparr>ck_members := (ck_members st)(mallory @ '':'' @ room \<mapsto> {m \<in> set [mallory]. m \<noteq> ck_me st})\<rparr>))"
    using assms(2,6) d s U unfolding sync_room_membership_def Let_def roster_union_def
    by (simp add: should_mint_first_room_key_def)
  then show ?thesis using s assms(7) by (simp add: forged_roster_sync distribute_group_key_def)
qed

text \<open>A keyer with one member and a real key.\<close>

definition keyed_demo :: keying where
  "keyed_demo = \<lparr>ck_me = ''ann'', ck_groups = [''r'' \<mapsto> install_epoch 0 0 (replicate 32 7) default_group],
     ck_members = [''sn:r'' \<mapsto> {''bob''}], ck_pending = [(''r'', ''bob'') \<mapsto> \<lparr>pa_epoch = 0, pa_last_sent = 0, pa_attempts = 1\<rparr>]\<rparr>"

lemma bare_letters: "bare ''ann'' = ''ann''" "bare ''bob'' = ''bob''" "bare ''zed'' = ''zed''"
  by (simp_all add: trim_end_def)

lemma ends_sn: "ends_with '':r'' ''sn:r''"
  by (simp add: ends_with_def)

lemma demo_members: "union_members_for_room [''sn:r'' \<mapsto> {''bob''}] ''r'' = {''bob''}"
  by (auto simp: union_members_for_room_def ends_sn split: if_splits)

lemma demo_elected: "is_elected_keyer (insert ''ann'' S) ''ann''" if "S \<subseteq> {''bob'', ''zed''}"
  using that by (auto simp: is_elected_keyer_def bare_letters less_char_def)

lemma keyed_demo_run: "keying_run plain_kdf keyed_demo"
proof -
  have r: "keying_run plain_kdf demo_keying" unfolding demo_keying_def by (rule keying_run.start)
  have w: "length (replicate 32 (7 :: u8)) = 32" "no_wrap ''r'' demo_keying" by (simp_all add: no_wrap_def demo_keying_def)
  have s: "{m \<in> set [''ann'', ''bob'']. m \<noteq> ''ann''} = {''bob''}" by auto
  have "fst (sync_room_membership plain_kdf (\<lambda>_. True) 0 (replicate 32 7) ''sn'' ''r'' [''ann'', ''bob''] demo_keying) = keyed_demo"
    unfolding sync_room_membership_def demo_keying_def Let_def keying.simps s
    using demo_members demo_elected [of "{''bob''}"]
    by (simp add: should_mint_first_room_key_def has_real_key_def keep_pending_def new_owner_epoch_def distribute_group_key_def
        keyed_demo_def default_group_def fun_eq_iff Let_def)
  then show ?thesis using keying_run.roster [OF r w] by metis
qed

theorem forged_roster_gets_room_key_witness:
  "\<exists>k. (''zed'', ''r'', current_epoch (ck_groups keyed_demo) ''r'', k) \<in>
     snd (on_sfu_members plain_kdf (\<lambda>_. True) 1 [] (forged_roster ''zed'' ''r'') keyed_demo)"
proof -
  have "has_real_key ''r'' (ck_groups keyed_demo)"
    by (simp add: keyed_demo_def has_real_key_def has_keys_def install_epoch_def note_seen_def default_group_def prune_drop MAX_RETAINED_EPOCHS_def)
  moreover have "''zed'' \<notin> union_members_for_room (ck_members keyed_demo) ''r''" by (simp add: keyed_demo_def demo_members)
  moreover have "''zed'' \<noteq> ck_me keyed_demo" "ck_members keyed_demo (''zed'' @ '':'' @ ''r'') = None" by (simp_all add: keyed_demo_def)
  moreover have "is_elected_keyer (insert (ck_me keyed_demo) (insert ''zed'' (union_members_for_room (ck_members keyed_demo) ''r''))) (ck_me keyed_demo)"
    by (simp add: keyed_demo_def demo_members demo_elected)
  ultimately show ?thesis
    using forged_roster_gets_room_key [OF keyed_demo_run, of "''r''" "''zed''" "\<lambda>_. True" 1 "[]"] by blast
qed

section \<open>From the keyer to a member\<close>

lemma client_json_back:
  assumes "json_ok L" "jcanon (VObj (cm_payload m))"
  shows "client_from_json L now (client_to_json L m) = Some m"
  using client_of_wire [OF parse_client_wire [OF assms]] by (cases m) simp

lemma group_key_fields:
  "cm_type (group_key_message L C sign now me room e key) = SfuGroupKey_c"
  "cm_sender (group_key_message L C sign now me room e key) = me"
  "cm_timestamp (group_key_message L C sign now me room e key) = now"
  "cm_payload (group_key_message L C sign now me room e key) =
     [(''epoch'', VNum (NInt (uint e))), (''key'', VStr (cr_b64_encode C key)), (''room_id'', VStr room)]"
  by (simp_all add: group_key_message_def client_sign_def new_client_def client_new_message_def less_char_def)

lemma u8_via_u64: "(ucast (ucast e :: u64) :: u8) = e" for e :: u8
  by (rule bit_word_eqI) (simp add: bit_ucast_iff)

lemma on_key_installs:
  assumes "crates_ok C" "length key = 32" "room \<noteq> []" "accept_group_key_from (cm_sender msg) room e st"
    and "cm_payload msg = [(''epoch'', VNum (NInt (uint e))), (''key'', VStr (cr_b64_encode C key)), (''room_id'', VStr room)]"
  shows "on_sfu_group_key C t msg st = (st\<lparr>ck_groups := install_key t room e key (ck_groups st)\<rparr>, Some (room, e))"
proof -
  have "uint e < 2 ^ 64" using uint_lt2p [of e] by simp
  then show ?thesis
    using assms crates_okD(3) [OF assms(1), of key]
    by (simp add: on_sfu_group_key_def get_str_or_def get_str_def u8_via_u64)
qed

text \<open>What a receiver in state \<open>st\<close> asks of an offer of epoch \<open>e\<close> that does not wrap.\<close>

definition offer_fits :: "peer_id \<Rightarrow> room_id \<Rightarrow> u8 \<Rightarrow> keying \<Rightarrow> bool" where
  "offer_fits sender room e st \<longleftrightarrow> room \<noteq> [] \<and> accept_group_key_from sender room e st \<and>
     (has_real_key room (ck_groups st) \<longrightarrow> current_epoch (ck_groups st) room \<le> e)"

text \<open>
  A signed message sealed under the pairwise key of two clients opens at the other one to the same
  message, whichever envelope of the sender carries the ciphertext.
\<close>

lemma envelope_opens:
  assumes "kdf_ok X" "json_ok L" "crates_ok C"
    and "b64_decode C sender = Inr ps" "b64_decode C receiver = Inr pr" "length ps = 32" "length pr = 32" "cr_key_ok C ps" "cr_key_ok C pr"
    and "x_dh X ss (x_montgomery X pr) = x_dh X sr (x_montgomery X ps)" "length nonce = 12"
    and "jcanon (VObj (cm_payload inner))" "cm_type inner \<noteq> EncryptedSignal_c" "cm_sender inner = sender"
    and "length (client_to_json L inner) \<le> GCM_MAX" "utf8_valid (as_bytes (client_to_json L inner))"
  obtains k ct where "derive_pairwise_relay_key X C ss sender receiver = Inr k"
    and "encrypt_blob X nonce k (as_bytes (client_to_json L inner)) = Inr ct"
    and "\<And>env now. cm_sender env = sender \<Longrightarrow> cm_payload env = [(''ciphertext'', VStr (cr_b64_encode C ct))] \<Longrightarrow>
      open_envelope X L C sr now receiver env = Some inner"
proof -
  let ?raw = "as_bytes (client_to_json L inner)"
  obtain k where k: "hkdf_derive_key X (x_dh X ss (x_montgomery X pr)) (pairwise_info sender receiver) = Inr k" "length k = 32"
    using hkdf_derive_total [OF assms(1)] by blast
  have dk: "derive_pairwise_relay_key X C ss sender receiver = Inr k" "derive_pairwise_relay_key X C sr receiver sender = Inr k"
    using k assms(4-10) pairwise_info_commute [of sender receiver] by (simp_all add: derive_pairwise_relay_key_def)
  obtain ct where ct: "encrypt_blob X nonce k ?raw = Inr ct" "decrypt_blob X k ct = Inr ?raw"
    using blob_roundtrip [OF assms(1) k(2) assms(11), of ?raw] assms(15) by auto
  have "open_envelope X L C sr now receiver env = Some inner"
    if "cm_sender env = sender" "cm_payload env = [(''ciphertext'', VStr (cr_b64_encode C ct))]" for env now
    using that dk(2) ct(2) client_json_back [OF assms(2,12)] assms(13,14,16) crates_okD(3) [OF assms(3), of ct]
    by (simp add: open_envelope_def get_str_def)
  with dk(1) ct(1) that show ?thesis by blast
qed

text \<open>
  C31. The room key arrives. What the keyer seals to a member for the relay path is addressed to the
  member, opens there to the very message the keyer signed, passes the signature and freshness check,
  and, when the member's view elects the sender and the epoch fits, makes the member seal and open
  under the keyer's epoch with the keyer's key; the acknowledgement ends the keyer's retries for it.
\<close>

theorem group_key_delivery:
  assumes "kdf_ok X" "json_ok L" "crates_ok C" "signs_for C keyer sign"
    and "b64_decode C keyer = Inr pk" "b64_decode C member = Inr pm" "length pk = 32" "length pm = 32" "cr_key_ok C pk" "cr_key_ok C pm"
    and "x_dh X sk (x_montgomery X pm) = x_dh X sm (x_montgomery X pk)" "length nonce = 12" "length key = 32"
    and "inner = group_key_message L C sign now keyer room e key"
    and "length (client_to_json L inner) \<le> GCM_MAX" "utf8_valid (as_bytes (client_to_json L inner))"
    and "keying_ok st" "offer_fits keyer room e st" "\<bar>now' - now\<bar> \<le> MAX_MESSAGE_AGE_SECS"
  shows "\<exists>env st'. seal_signal_to_member X L C sk nonce now keyer inner member = Some env \<and> cm_target env = Some member \<and>
    open_envelope X L C sm now' member env = Some inner \<and> verify_inbound_signature L C now' inner \<and>
    on_sfu_group_key C t inner st = (st', Some (room, e)) \<and> keying_ok st' \<and>
    current_epoch (ck_groups st') room = e \<and> epoch_key X (ck_groups st') room e = Some key"
proof -
  have inner: "jcanon (VObj (cm_payload inner))" "cm_type inner \<noteq> EncryptedSignal_c" "cm_sender inner = keyer"
    by (simp_all add: assms(14) group_key_fields less_char_def)
  obtain k ct where dk: "derive_pairwise_relay_key X C sk keyer member = Inr k"
    and ct: "encrypt_blob X nonce k (as_bytes (client_to_json L inner)) = Inr ct"
    and op: "\<And>env now. cm_sender env = keyer \<Longrightarrow> cm_payload env = [(''ciphertext'', VStr (cr_b64_encode C ct))] \<Longrightarrow>
      open_envelope X L C sm now member env = Some inner"
    using envelope_opens [OF assms(1-3,5-12) inner assms(15,16)] by metis
  let ?env = "(new_client now EncryptedSignal_c keyer [(''ciphertext'', VStr (cr_b64_encode C ct))])\<lparr>cm_target := Some member\<rparr>"
  have "open_envelope X L C sm now' member ?env = Some inner"
    by (rule op) (simp_all add: new_client_def client_new_message_def)
  moreover have "seal_signal_to_member X L C sk nonce now keyer inner member = Some ?env"
    using dk ct by (simp add: seal_signal_to_member_def)
  moreover have "verify_inbound_signature L C now' inner"
    using signed_by_sign [OF assms(3,4)] assms(19)
    by (simp add: assms(14) group_key_message_def client_sign_def new_client_def client_new_message_def verify_inbound_signature_def
        client_is_fresh_def client_canonical_def)
  moreover note on_key_installs [OF assms(3,13), of room inner e st t]
    install_key_ok [OF assms(17,13), where room = room and e = e and now = t]
  ultimately show ?thesis using assms(18) by (auto simp: offer_fits_def assms(14) group_key_fields)
qed

text \<open>Texts of the concrete JSON writer: their length, and that they are ASCII when their strings are.\<close>

definition ascii_str :: "string \<Rightarrow> bool" where
  "ascii_str s \<longleftrightarrow> (\<forall>c \<in> set s. of_char c < (128 :: nat))"

lemma ascii_str_simps [simp]:
  "ascii_str []" "ascii_str (c # s) \<longleftrightarrow> of_char c < (128 :: nat) \<and> ascii_str s" "ascii_str (s @ t) \<longleftrightarrow> ascii_str s \<and> ascii_str t"
  "ascii_str (replicate n CHR ''1'')"
  by (auto simp: ascii_str_def)

lemma ascii_valid: "ascii_str s \<Longrightarrow> utf8_valid (as_bytes s)"
  by (rule utf8_valid_ascii) (auto simp: ascii_str_def as_bytes_def word_less_nat_alt unat_of_nat)

lemma ascii_enc [simp]: "ascii_str (enc_str s) \<longleftrightarrow> ascii_str s" "length (enc_str s) = 2 * length s + 1"
  by (induction s) auto

lemma ascii_spread [simp]: "ascii_str (spread s) \<longleftrightarrow> ascii_str s"
  by (induction s) auto

lemma ascii_of_byte [simp]: "b < 0x80 \<Longrightarrow> ascii_str (string_of_bytes (replicate n b))"
  by (auto simp: ascii_str_def string_of_bytes_def word_less_nat_alt)

lemma quotient_zero: "quotient_of 0 = (0, 1)"
  by (rule rat_zero_code)

theorem group_key_delivery_witness:
  "\<exists>env st'. seal_signal_to_member plain_kdf plain_json plain_crates (replicate 32 0) (replicate 12 1) 0 plain_signer
       (group_key_message plain_json plain_crates (\<lambda>_. replicate 64 0) 0 plain_signer ''r'' 3 (replicate 32 7)) plain_signer = Some env \<and>
     on_sfu_group_key plain_crates 5 (group_key_message plain_json plain_crates (\<lambda>_. replicate 64 0) 0 plain_signer ''r'' 3 (replicate 32 7))
       (demo_keying\<lparr>ck_me := plain_signer\<rparr>) = (st', Some (''r'', 3)) \<and> epoch_key plain_kdf (ck_groups st') ''r'' 3 = Some (replicate 32 7)"
proof -
  let ?m = "group_key_message plain_json plain_crates (\<lambda>_. replicate 64 0) 0 plain_signer ''r'' 3 (replicate 32 7)"
  let ?st = "demo_keying\<lparr>ck_me := plain_signer\<rparr>"
  have d: "b64_decode plain_crates plain_signer = Inr (replicate 32 0)" by (simp add: plain_signer_def)
  have j: "client_to_json plain_json ?m = enc_entries ([(''type'', VStr ''sfu_group_key''), (''sender'', VStr plain_signer),
         (''payload'', VObj [(''epoch'', VNum (NInt 3)), (''key'', VStr (spread (string_of_bytes (replicate 32 7)))), (''room_id'', VStr ''r'')]),
         (''timestamp'', VNum (NFloat 0)), (''signature'', VStr (spread (string_of_bytes (replicate 64 0)))), (''v'', version_value PROTOCOL_VERSION)])"
    by (simp add: client_to_json_def group_key_message_def client_sign_def new_client_def client_new_message_def less_char_def plain_json_def
        opt_entry_def)
  have a: "ascii_str (client_to_json plain_json ?m)"
    using ascii_of_byte [of 0 32] unfolding j
    by (simp add: plain_signer_def enc_num.simps enc_int.simps quotient_zero PROTOCOL_VERSION_def del: replicate.simps)
  have l: "length (client_to_json plain_json ?m) \<le> GCM_MAX"
    unfolding j by (simp add: enc_num.simps enc_int.simps quotient_zero PROTOCOL_VERSION_def GCM_MAX_def length_plain_signer string_of_bytes_def del: replicate.simps)
  have "keying_ok ?st" "offer_fits plain_signer ''r'' 3 ?st"
    by (simp_all add: keying_ok_def demo_keying_def offer_fits_def accept_group_key_from_def is_elected_keyer_def accept_group_key_epoch_def
        has_real_key_def union_members_for_room_def)
  from group_key_delivery [OF plain_kdf_ok plain_json_ok plain_crates_ok plain_signs_for d d length_replicate length_replicate plain_sel(6) plain_sel(6)
      refl length_replicate length_replicate refl l ascii_valid [OF a] this, where now' = 0 and t = 5]
  show ?thesis by (fastforce simp: MAX_MESSAGE_AGE_SECS_def)
qed

section \<open>Keys from outside the room\<close>

text \<open>
  A key from outside the room. The comment on \<open>accept_group_key_from\<close> lets a sender that is not in
  the snapshot count as present while the snapshot is empty; the code counts it always. So a stranger
  whose identity sorts before everyone present, also before the keyer that keyed the room, is elected
  for its own message and its key replaces the key of the room.
\<close>

lemma stranger_installs_group_key:
  assumes "keying_ok st" "crates_ok C" "length key = 32" "room \<noteq> []"
    and "mallory \<notin> insert (ck_me st) (union_members_for_room (ck_members st) room)"
    and "\<forall>m \<in> insert (ck_me st) (union_members_for_room (ck_members st) room). bare mallory < bare m"
    and "current_epoch (ck_groups st) room \<le> e" "e - current_epoch (ck_groups st) room \<le> 64"
  shows "\<exists>st'. on_sfu_group_key C t (group_key_message L C sign now mallory room e key) st = (st', Some (room, e)) \<and>
    current_epoch (ck_groups st') room = e \<and> epoch_key X (ck_groups st') room e = Some key"
proof -
  have "accept_group_key_from mallory room e st"
    using assms(5,6,8) by (auto simp: accept_group_key_from_def Let_def is_elected_keyer_def accept_group_key_epoch_def MAX_EPOCH_ADVANCE_def
        dest: less_asym)
  then show ?thesis
    using on_key_installs [OF assms(2-4), of "group_key_message L C sign now mallory room e key" e st t]
      install_key_ok [OF assms(1,3), where room = room and e = e and now = t] assms(7) by (simp add: group_key_fields)
qed

lemma stranger_installs_group_key_witness:
  "\<exists>st'. on_sfu_group_key plain_crates 5 (group_key_message plain_json plain_crates (\<lambda>_. []) 0 ''aaa'' ''r'' 1 (replicate 32 9)) keyed_demo = (st', Some (''r'', 1)) \<and>
    epoch_key plain_kdf (ck_groups st') ''r'' 1 = Some (replicate 32 9)"
proof -
  have u: "insert (ck_me keyed_demo) (union_members_for_room (ck_members keyed_demo) ''r'') = {''ann'', ''bob''}"
    by (simp add: keyed_demo_def demo_members)
  have c: "current_epoch (ck_groups keyed_demo) ''r'' = 0"
    by (simp add: keyed_demo_def current_epoch_def has_keys_def install_epoch_def note_seen_def default_group_def prune_drop)
  have l: "length (replicate 32 (9 :: u8)) = 32" by simp
  show ?thesis
    using stranger_installs_group_key [OF keying_run_ok [OF keyed_demo_run] plain_crates_ok l, of "''r''" "''aaa''" 1 5 plain_json "\<lambda>_. []" 0 plain_kdf]
    unfolding u c by (auto simp: bare_letters trim_end_def less_char_def)
qed

section \<open>The end of the epoch ring\<close>

text \<open>A room whose counter has gone over the end: the epoch it seals under is one it does not hold.\<close>

definition wedged :: "group_state \<Rightarrow> bool" where
  "wedged s \<longleftrightarrow> gs_seen_high s = Some 255 \<and> gs_current s = 0 \<and> length (gs_keys s) = MAX_RETAINED_EPOCHS \<and> (\<forall>x \<in> set (gs_keys s). 0 < fst x)"

lemma ek_insert_zero: "\<forall>x \<in> set ks. 0 < fst x \<Longrightarrow> ek_insert 0 k ks = (0, k) # ks"
  by (cases ks) auto

lemma wedged_install:
  assumes "gs_seen_high s = Some 255" "length (gs_keys s) = MAX_RETAINED_EPOCHS" "\<forall>x \<in> set (gs_keys s). 0 < fst x"
  shows "wedged (install_epoch now 0 key s)" "next_epoch s = 0"
proof -
  have "gs_keys (install_epoch now 0 key s) = gs_keys s"
    using assms(2,3) by (simp add: install_fields ek_insert_zero prune_drop)
  then show "wedged (install_epoch now 0 key s)" using assms by (simp add: wedged_def install_fields)
  have "gs_current s \<le> 255" using unsigned_less [of "gs_current s", where ?'a = nat] by (simp add: word_le_nat_alt)
  then show "next_epoch s = 0" using assms(1) by (simp add: next_epoch_def)
qed

lemma wedged_rotate: "g room = Some s \<Longrightarrow> wedged s \<Longrightarrow> \<exists>s'. fst (rotate_epoch now key room g) room = Some s' \<and> wedged s'"
  using wedged_install [of s] by (auto simp: rotate_epoch_def Let_def wedged_def)

lemma wedged_rotations:
  "g room = Some s \<Longrightarrow> wedged s \<Longrightarrow> \<exists>s'. foldl (\<lambda>g (now, key). fst (rotate_epoch now key room g)) g rots room = Some s' \<and> wedged s'"
proof (induction rots arbitrary: g s)
  case (Cons r rots)
  obtain now key where r: "r = (now, key)" by (cases r)
  obtain s' where "fst (rotate_epoch now key room g) room = Some s'" "wedged s'" using wedged_rotate [of g room s now key] Cons.prems by blast
  then show ?case using Cons.IH [of "fst (rotate_epoch now key room g)" s'] by (simp add: r)
qed auto

lemma wedged_no_key:
  assumes "g room = Some s" "wedged s"
  shows "has_real_key room g \<and> current_epoch g room = 0 \<and> epoch_key X g room 0 = None"
proof -
  have "has_keys s" using assms(2) by (auto simp: wedged_def has_keys_def MAX_RETAINED_EPOCHS_def)
  moreover have "map_of (gs_keys s) 0 = None" using assms(2) by (auto simp: wedged_def map_of_eq_None_iff)
  ultimately show ?thesis using assms by (simp add: has_real_key_def current_epoch_def epoch_key_def wedged_def)
qed

lemma reseal_groups: "ck_groups (fst (reseal_to_lagging_member X pick seals now room sender e st)) = ck_groups st"
  by (auto simp: reseal_to_lagging_member_def Let_def split: option.splits)

text \<open>
  One frame ends a room. The epoch of a frame is its first byte, read before anything is
  authenticated. When a keyer of a room holds four keys of epochs above 0 and receives a frame that it
  cannot open and that says epoch 255, it rotates: the counter wraps to 0, the new key is the lowest of
  five and pruned at once, and from then on the room has real keys, a current epoch without a key, and
  nothing it sends can be sealed, whatever rotations follow. A member whose epoch is from 1 to 191
  refuses the new key as well.
\<close>

lemma observed_epoch_wedges_room:
  assumes "ck_groups st room = Some s" "length (gs_keys s) = MAX_RETAINED_EPOCHS" "\<forall>x \<in> set (gs_keys s). 0 < fst x \<and> fst x < 255"
    and "is_elected_keyer (insert (ck_me st) (union_members_for_room (ck_members st) room)) (ck_me st)"
    and "union_members_for_room (ck_members st) room \<noteq> {}"
    and "g = foldl (\<lambda>g (now, key). fst (rotate_epoch now key room g))
           (ck_groups (fst (frame_not_opened X pick seals now fresh room sender 255 st))) rotations"
  shows "has_real_key room g \<and> current_epoch g room = 0 \<and> epoch_key X g room 0 = None \<and>
    seal_media_frame X nonce (current_epoch g) (epoch_key X g) kind room me seq frame = None \<and>
    seal_chat_body X nonce (current_epoch g) (epoch_key X g) room me mid body = None \<and>
    (\<forall>c. 0 < c \<and> c < 192 \<longrightarrow> \<not> accept_group_key_epoch True c 0)"
proof -
  let ?s = "note_seen 255 s" let ?g0 = "note_observed_epoch room 255 (ck_groups st)" let ?st0 = "st\<lparr>ck_groups := ?g0\<rparr>"
  have le: "a \<le> 255" for a :: u8 using unsigned_less [of a, where ?'a = nat] by (simp add: word_le_nat_alt)
  have s: "gs_seen_high ?s = Some 255" "gs_keys ?s = gs_keys s"
    using le by (auto simp: note_seen_def split: option.splits intro: antisym)
  have g0: "?g0 room = Some ?s" using assms(1) by (simp add: note_observed_epoch_def group_entry_def)
  have "map_of (gs_keys s) 255 = None" using assms(3) by (auto simp: map_of_eq_None_iff)
  then have behind: "is_behind room ?g0" using s g0 by (simp add: is_behind_def)
  have w: "wedged (install_epoch now 0 fresh ?s)" "next_epoch ?s = 0" using wedged_install [of ?s] assms(2,3) by (auto simp: s)
  have rot: "rotate_epoch now fresh room ?g0 = (?g0(room \<mapsto> install_epoch now 0 fresh ?s), 0, fresh)"
    using g0 w(2) by (simp add: rotate_epoch_def)
  have "ck_groups (fst (rekey_room_if_behind seals now fresh room ?st0)) room = Some (install_epoch now 0 fresh ?s)"
    using behind assms(4,5) rot by (simp add: rekey_room_if_behind_def Let_def)
  then have "ck_groups (fst (frame_not_opened X pick seals now fresh room sender 255 st)) room = Some (install_epoch now 0 fresh ?s)"
    by (simp add: frame_not_opened_def Let_def case_prod_beta reseal_groups)
  then obtain s' where "g room = Some s'" "wedged s'" using wedged_rotations [OF _ w(1)] assms(6) by blast
  then have k: "has_real_key room g \<and> current_epoch g room = 0 \<and> epoch_key X g room 0 = None" by (rule wedged_no_key)
  moreover have "\<not> accept_group_key_epoch True c 0" if "0 < c \<and> c < 192" for c
  proof -
    have u: "0 < uint c" "uint c < 192" using that by (simp_all add: word_less_def)
    then have "uint (- c) = 256 - uint c" by (simp add: uint_word_ariths zmod_zminus1_eq_if)
    with u show ?thesis by (simp add: accept_group_key_epoch_def MAX_EPOCH_ADVANCE_def word_le_def)
  qed
  ultimately show ?thesis by (simp add: seal_media_frame_def seal_chat_body_def seal_under_def)
qed

definition ring_demo :: keying where
  "ring_demo = keyed_demo\<lparr>ck_groups := [''r'' \<mapsto> \<lparr>gs_current = 4, gs_seen_high = Some 4, gs_current_since = Some 0,
     gs_keys = [(1, []), (2, []), (3, []), (4, [])]\<rparr>]\<rparr>"

lemma observed_epoch_wedges_room_witness:
  "seal_chat_body plain_kdf [] (current_epoch (ck_groups (fst (frame_not_opened plain_kdf (\<lambda>S. ''bob'') (\<lambda>_. True) 9 [] ''r'' ''bob'' 255 ring_demo))))
     (epoch_key plain_kdf (ck_groups (fst (frame_not_opened plain_kdf (\<lambda>S. ''bob'') (\<lambda>_. True) 9 [] ''r'' ''bob'' 255 ring_demo)))) ''r'' ''ann'' ''m1'' [1] = None"
proof -
  have m: "union_members_for_room (ck_members ring_demo) ''r'' = {''bob''}" "ck_me ring_demo = ''ann''"
    by (simp_all add: ring_demo_def keyed_demo_def demo_members)
  have g: "ck_groups ring_demo ''r'' = Some \<lparr>gs_current = 4, gs_seen_high = Some 4, gs_current_since = Some 0,
     gs_keys = [(1, []), (2, []), (3, []), (4, [])]\<rparr>" by (simp add: ring_demo_def)
  show ?thesis
    using observed_epoch_wedges_room [OF g, where rotations = "[]" and pick = "\<lambda>S. ''bob''" and seals = "\<lambda>_. True" and fresh = "[]" and
        now = 9 and sender = "''bob''" and X = plain_kdf and nonce = "[]" and me = "''ann''" and mid = "''m1''" and body = "[1]", OF _ _ _ _ refl]
    by (simp add: m demo_elected MAX_RETAINED_EPOCHS_def)
qed

end
