(* ===== verification/Actions.thy ===== *)
theory Actions
  imports Main
begin

text \<open>
  Handlers that change a state and send messages, as state transformers with an output list, and the
  rules to prove of a handler that all it sends has a property, and that it keeps an invariant and
  moves the state up an order that the admissibility of messages respects.
\<close>

type_synonym ('s, 'e) action = "'s \<Rightarrow> 'e list \<times> 's"

definition skip :: "('s, 'e) action" where
  "skip s = ([], s)"

definition emit :: "'e list \<Rightarrow> ('s, 'e) action" where
  "emit es s = (es, s)"

definition update :: "('s \<Rightarrow> 's) \<Rightarrow> ('s, 'e) action" where
  "update f s = ([], f s)"

definition reading :: "('s \<Rightarrow> ('s, 'e) action) \<Rightarrow> ('s, 'e) action" where
  "reading f s = f s s"

fun steps :: "('s, 'e) action list \<Rightarrow> ('s, 'e) action" where
  "steps [] s = ([], s)"
| "steps (a # as) s = (let (o1, s1) = a s; (o2, s2) = steps as s1 in (o1 @ o2, s2))"

lemma steps_Cons: "steps (a # as) s = (fst (a s) @ fst (steps as (snd (a s))), snd (steps as (snd (a s))))"
  by (simp add: case_prod_beta)

declare steps.simps(2) [simp del]

definition sends :: "('e \<Rightarrow> bool) \<Rightarrow> ('s, 'e) action \<Rightarrow> bool" where
  "sends Q a \<longleftrightarrow> (\<forall>s. \<forall>e \<in> set (fst (a s)). Q e)"

named_theorems sends_intros \<open>handlers whose output has a property\<close>

lemma skip_sends [sends_intros]: "sends Q skip"
  by (simp add: sends_def skip_def)

lemma emit_sends [sends_intros]: "(\<And>e. e \<in> set es \<Longrightarrow> Q e) \<Longrightarrow> sends Q (emit es)"
  by (simp add: sends_def emit_def)

lemma update_sends [sends_intros]: "sends Q (update f)"
  by (simp add: sends_def update_def)

lemma reading_sends [sends_intros]: "(\<And>s. sends Q (f s)) \<Longrightarrow> sends Q (reading f)"
  by (simp add: sends_def reading_def)

lemma steps_sends [sends_intros]: "(\<And>a. a \<in> set as \<Longrightarrow> sends Q a) \<Longrightarrow> sends Q (steps as)"
proof (induction "as")
  case (Cons a as)
  then have "sends Q a" "sends Q (steps as)" by auto
  then show ?case by (auto simp: sends_def steps_Cons)
qed (simp add: sends_def)

lemma sendsD: "sends Q a \<Longrightarrow> e \<in> set (fst (a s)) \<Longrightarrow> Q e"
  by (simp add: sends_def)

lemma steps_append: "steps (as @ bs) s = (let (o1, s1) = steps as s; (o2, s2) = steps bs s1 in (o1 @ o2, s2))"
  by (induction "as" arbitrary: s) (simp_all add: steps_Cons case_prod_beta)

section \<open>Invariants and admissible messages\<close>

text \<open>
  An invariant of the state, an order on states, and the messages that may be sent in a state, which
  stay allowed as the state grows. \<open>runs s0 a\<close> says that from every state above \<open>s0\<close> the handler \<open>a\<close>
  keeps the invariant, does not go down, and sends only what is allowed at its end; \<open>s0\<close> is the state
  the handler last read, so that decisions taken there still count later.
\<close>

locale growing_actions =
  fixes ok :: "'s \<Rightarrow> bool" and above :: "'s \<Rightarrow> 's \<Rightarrow> bool" and may_send :: "'s \<Rightarrow> 'e \<Rightarrow> bool"
  assumes above_refl: "above s s"
    and above_trans: "above s t \<Longrightarrow> above t u \<Longrightarrow> above s u"
    and may_send_mono: "may_send s e \<Longrightarrow> above s t \<Longrightarrow> may_send t e"
begin

definition runs :: "'s \<Rightarrow> ('s, 'e) action \<Rightarrow> bool" where
  "runs s0 a \<longleftrightarrow> (\<forall>s. ok s \<longrightarrow> above s0 s \<longrightarrow>
     ok (snd (a s)) \<and> above s (snd (a s)) \<and> (\<forall>e \<in> set (fst (a s)). may_send (snd (a s)) e))"

lemma runs_skip: "runs s0 skip"
  by (simp add: runs_def skip_def above_refl)

lemma runs_emit: "(\<And>s e. ok s \<Longrightarrow> above s0 s \<Longrightarrow> e \<in> set es \<Longrightarrow> may_send s e) \<Longrightarrow> runs s0 (emit es)"
  by (simp add: runs_def emit_def above_refl)

lemma runs_update: "(\<And>s. ok s \<Longrightarrow> above s0 s \<Longrightarrow> ok (f s) \<and> above s (f s)) \<Longrightarrow> runs s0 (update f)"
  by (simp add: runs_def update_def)

lemma runs_reading: "(\<And>s. ok s \<Longrightarrow> above s0 s \<Longrightarrow> runs s (f s)) \<Longrightarrow> runs s0 (reading f)"
  unfolding runs_def reading_def using above_refl by blast

lemma runs_Nil: "runs s0 (steps [])"
  by (simp add: runs_def above_refl)

lemma runs_Cons: "runs s0 a \<Longrightarrow> runs s0 (steps as) \<Longrightarrow> runs s0 (steps (a # as))"
  unfolding runs_def
proof (intro allI impI)
  fix s
  assume a: "\<forall>s. ok s \<longrightarrow> above s0 s \<longrightarrow> ok (snd (a s)) \<and> above s (snd (a s)) \<and> (\<forall>e \<in> set (fst (a s)). may_send (snd (a s)) e)"
    and b: "\<forall>s. ok s \<longrightarrow> above s0 s \<longrightarrow> ok (snd (steps as s)) \<and> above s (snd (steps as s)) \<and>
      (\<forall>e \<in> set (fst (steps as s)). may_send (snd (steps as s)) e)"
    and s: "ok s" "above s0 s"
  have 1: "ok (snd (a s))" "above s (snd (a s))" "\<forall>e \<in> set (fst (a s)). may_send (snd (a s)) e" using a s by auto
  have 2: "above s0 (snd (a s))" using s(2) 1(2) by (rule above_trans)
  from b 1(1) 2 have 3: "ok (snd (steps as (snd (a s))))" "above (snd (a s)) (snd (steps as (snd (a s))))"
    "\<forall>e \<in> set (fst (steps as (snd (a s)))). may_send (snd (steps as (snd (a s)))) e" by auto
  show "ok (snd (steps (a # as) s)) \<and> above s (snd (steps (a # as) s)) \<and>
      (\<forall>e \<in> set (fst (steps (a # as) s)). may_send (snd (steps (a # as) s)) e)"
    using 1 3 above_trans [OF 1(2) 3(2)] may_send_mono [OF _ 3(2)] by (auto simp: steps_Cons)
qed

lemma runs_steps: "(\<And>a. a \<in> set as \<Longrightarrow> runs s0 a) \<Longrightarrow> runs s0 (steps as)"
  by (induction "as") (simp_all add: runs_Nil runs_Cons)

lemma runs_update_then:
  assumes "\<And>s. ok s \<Longrightarrow> above s0 s \<Longrightarrow> ok (f s) \<and> above s (f s)"
    and "\<And>s. ok s \<Longrightarrow> above s0 s \<Longrightarrow> runs (f s) (steps as)"
  shows "runs s0 (steps (update f # as))"
  unfolding runs_def
proof (intro allI impI)
  fix s assume s: "ok s" "above s0 s"
  note u = assms(1) [OF s]
  have "ok (snd (steps as (f s))) \<and> above (f s) (snd (steps as (f s))) \<and> (\<forall>e \<in> set (fst (steps as (f s))). may_send (snd (steps as (f s))) e)"
    using assms(2) [OF s] u above_refl unfolding runs_def by blast
  with u above_trans show "ok (snd (steps (update f # as) s)) \<and> above s (snd (steps (update f # as) s)) \<and>
      (\<forall>e \<in> set (fst (steps (update f # as) s)). may_send (snd (steps (update f # as) s)) e)"
    by (auto simp: steps_Cons update_def)
qed

lemma runs_at: "runs s a \<Longrightarrow> ok s \<Longrightarrow>
    ok (snd (a s)) \<and> above s (snd (a s)) \<and> (\<forall>e \<in> set (fst (a s)). may_send (snd (a s)) e)"
  using above_refl unfolding runs_def by blast

end

end
