(* ===== verification/Access.thy ===== *)
theory Access
  imports Peer_Store Crates Json_Value
begin

text \<open>
  Who gets what of a supernode: the access controllers of \<open>access.rs\<close>, the relay tickets of
  \<open>ticket.rs\<close>, the operator's policy for new rooms in \<open>manifest.rs\<close>, and the small rules of \<open>main.rs\<close> on
  transcripts, ids and frames. The four controllers differ in their mode only; each keeps the set of
  peers that passed its gate. Decimal forms of \<open>f64\<close> and the clock are arguments.
\<close>

section \<open>Access controllers\<close>

datatype access_mode = Open | Tos | Ad | Code

record access_controller =
  ac_mode :: access_mode
  ac_granted :: "peer_id set"
  ac_code :: string

definition create_access_controller :: "access_mode \<Rightarrow> string \<Rightarrow> access_controller" where
  "create_access_controller mode code = \<lparr>ac_mode = mode, ac_granted = {}, ac_code = (if mode = Code then code else [])\<rparr>"

definition check_access :: "peer_id \<Rightarrow> access_controller \<Rightarrow> bool" where
  "check_access p a \<longleftrightarrow> p \<in> ac_granted a"

definition on_peer_granted :: "peer_id \<Rightarrow> access_controller \<Rightarrow> access_controller" where
  "on_peer_granted p a = a\<lparr>ac_granted := insert p (ac_granted a)\<rparr>"

definition check_code :: "string \<Rightarrow> access_controller \<Rightarrow> bool" where
  "check_code submitted a \<longleftrightarrow> submitted = ac_code a"

definition portal_entry_path :: string where "portal_entry_path = ''/access.html''"

fun mode_name :: "access_mode \<Rightarrow> string" where
  "mode_name Open = ''open''"
| "mode_name Tos = ''tos''"
| "mode_name Ad = ''ad''"
| "mode_name Code = ''code''"

section \<open>Transcripts and the access rule\<close>

definition ROOM_GUEST_TRANSCRIPT_MARKER :: string where "ROOM_GUEST_TRANSCRIPT_MARKER = ''room-guest''"
definition REPLICATED_DIRECT_INVITE_MARKER :: string where "REPLICATED_DIRECT_INVITE_MARKER = ''replicated-direct-invite''"

definition is_direct_invite_transcript :: "string \<Rightarrow> bool" where
  "is_direct_invite_transcript transcript_hash \<longleftrightarrow> transcript_hash \<noteq> [] \<and> transcript_hash \<noteq> ROOM_GUEST_TRANSCRIPT_MARKER"

definition is_direct_invite_peer :: "peer_id \<Rightarrow> peer_store \<Rightarrow> bool" where
  "is_direct_invite_peer i s = (case get_peer i s of
     None \<Rightarrow> False
   | Some p \<Rightarrow> \<not> pr_revoked p \<and> \<not> pr_blocked p \<and> is_direct_invite_transcript (pr_transcript_hash p))"

definition check_peer_access :: "peer_id \<Rightarrow> access_controller \<Rightarrow> peer_store \<Rightarrow> bool" where
  "check_peer_access i a s =
     (if mode_name (ac_mode a) = ''open'' then
        (case get_peer i s of
           Some p \<Rightarrow>
             if pr_revoked p \<or> pr_blocked p then False
             else if pr_transcript_hash p = ROOM_GUEST_TRANSCRIPT_MARKER then check_access i a
             else True
         | None \<Rightarrow> False)
      else check_access i a)"

section \<open>Tickets\<close>

definition TICKET_TTL_S :: rat where "TICKET_TTL_S = 3600"
definition RENEWAL_WINDOW_S :: rat where "RENEWAL_WINDOW_S = 600"

record relay_ticket =
  tk_peer_id :: peer_id
  tk_relay_host :: string
  tk_relay_port :: u16
  tk_expires_at :: rat
  tk_signature :: bytes

definition ticket_canonical_bytes :: "(rat \<Rightarrow> string) \<Rightarrow> relay_ticket \<Rightarrow> bytes" where
  "ticket_canonical_bytes show_f64 t =
     as_bytes (tk_peer_id t @ '':'' @ tk_relay_host t @ '':'' @ show_nat (unat (tk_relay_port t)) @ '':'' @ show_f64 (tk_expires_at t))"

definition create_ticket :: "(rat \<Rightarrow> string) \<Rightarrow> (bytes \<Rightarrow> bytes) \<Rightarrow> rat \<Rightarrow> peer_id \<Rightarrow> string \<Rightarrow> u16 \<Rightarrow> relay_ticket" where
  "create_ticket show_f64 sign now p host port =
     (let t = \<lparr>tk_peer_id = p, tk_relay_host = host, tk_relay_port = port, tk_expires_at = now + TICKET_TTL_S, tk_signature = []\<rparr>
      in t\<lparr>tk_signature := sign (ticket_canonical_bytes show_f64 t)\<rparr>)"

definition ticket_verify :: "crates \<Rightarrow> (rat \<Rightarrow> string) \<Rightarrow> bytes \<Rightarrow> relay_ticket \<Rightarrow> bool" where
  "ticket_verify C show_f64 pk t =
     (if length (tk_signature t) \<noteq> 64 then False else cr_verify C pk (tk_signature t) (ticket_canonical_bytes show_f64 t))"

definition ticket_is_expired :: "rat \<Rightarrow> relay_ticket \<Rightarrow> bool" where
  "ticket_is_expired now t \<longleftrightarrow> tk_expires_at t < now"

definition ticket_needs_renewal :: "rat \<Rightarrow> relay_ticket \<Rightarrow> bool" where
  "ticket_needs_renewal now t \<longleftrightarrow> tk_expires_at t - now \<le> RENEWAL_WINDOW_S"

text \<open>\<open>b64_std\<close> is base64 with the standard alphabet.\<close>

definition ticket_to_value :: "(bytes \<Rightarrow> string) \<Rightarrow> relay_ticket \<Rightarrow> jvalue" where
  "ticket_to_value b64_std t =
     jobj [(''peer_id'', VStr (tk_peer_id t)), (''relay_host'', VStr (tk_relay_host t)),
       (''relay_port'', VNum (NInt (uint (tk_relay_port t)))), (''expires_at'', VNum (NFloat (tk_expires_at t))),
       (''signature'', VStr (b64_std (tk_signature t)))]"

section \<open>New rooms\<close>

record room_creation_policy =
  rc_allow_public :: bool
  rc_allow_private :: bool

definition default_room_policy :: room_creation_policy where
  "default_room_policy = \<lparr>rc_allow_public = False, rc_allow_private = True\<rparr>"

definition deny_reason_for_new_room :: "bool \<Rightarrow> room_creation_policy \<Rightarrow> string option" where
  "deny_reason_for_new_room public pol =
     (if public \<and> \<not> rc_allow_public pol then Some ''public_rooms_disabled''
      else if \<not> public \<and> \<not> rc_allow_private pol then Some ''private_rooms_disabled''
      else None)"

section \<open>Ids and frames\<close>

definition pad_base64url :: "string \<Rightarrow> string" where
  "pad_base64url i = (let rem = length i mod 4 in if rem = 0 then i else i @ replicate (4 - rem) (CHR ''=''))"

lemma pad_key: "length (bare i) = 43 \<Longrightarrow> i = bare i \<Longrightarrow> pad_base64url i = normalize_public_id i"
  by (simp add: pad_base64url_def normalize_public_id_def Let_def)

end
