(* ===== verification/Node.thy ===== *)
theory Node
  imports Actions Access Brand Handshake Relay Space_Admission Signaling Cluster_Link Message
begin

text \<open>
  The supernode as a whole, \<open>conquerd-supernode/src/main.rs\<close>: its state is made of the states of the
  components, and this theory holds the operations that tie them together: trust and tickets, the
  portal, replicated trust, rosters, room lists, the endpoint mailbox and hole punching. The messages
  of peers are in the theory \<open>Node_Rooms\<close>.

  What a handler sends is a list in the order of sending. A signed message of the node is its target,
  type and payload; signing and queueing are in the theories \<open>Message\<close> and \<open>Signaling\<close>. Clock readings, the order
  in which a \<open>HashMap\<close> is iterated, fresh tokens, parsers of embedded values, the error text of the base64
  crate and the build constants are fields of \<open>node_env\<close>.
\<close>

section \<open>State\<close>

record node_env =
  ne_crates :: crates
  ne_json :: json_lib
  ne_kdf :: kdf_lib
  ne_unix :: rat
  ne_now :: instant
  ne_iter :: "peer_id set \<Rightarrow> peer_id list"
  ne_nonce :: string
  ne_addr :: "nat \<Rightarrow> string"
  ne_relay :: relay_env
  ne_b64_std :: "bytes \<Rightarrow> string"
  ne_b64_std_decode :: "string \<Rightarrow> bytes option"
  ne_b64_url_decode :: "string \<Rightarrow> bytes option"
  ne_show_f64 :: "rat \<Rightarrow> string"
  ne_admission :: "jvalue \<Rightarrow> admission_payload"
  ne_root :: "jvalue \<Rightarrow> signed_space_root option"
  ne_caps :: "capability_descriptor \<Rightarrow> jvalue"
  ne_rooms :: "sfu_room set \<Rightarrow> sfu_room list"
  ne_cluster :: "jvalue option"
  ne_external_host :: "string option"
  ne_relay_port :: u16
  ne_web_title :: string
  ne_policy :: room_creation_policy
  ne_build_id :: string
  ne_source_hash :: string
  ne_decode_error :: "string \<Rightarrow> string"

record punch_registration =
  pu_registered_at :: rat
  pu_endpoints :: "peer_id \<rightharpoonup> string"

record 'm node =
  nd_identity :: identity
  nd_peers :: peer_store
  nd_handshake :: handshake_manager
  nd_relay :: "relay_state option"
  nd_rooms :: supernode_rooms
  nd_sig :: sig_state
  nd_access :: access_controller
  nd_tickets :: "peer_id \<rightharpoonup> rat"
  nd_mailbox :: "peer_id \<rightharpoonup> string"
  nd_punches :: "peer_id \<times> peer_id \<rightharpoonup> punch_registration"
  nd_features :: "'m feature_registry"
  nd_seen :: seen_cache
  nd_linked :: bool
  nd_dirty :: bool
  nd_game_seq :: u64

datatype node_out =
    Out_signed peer_id message_type jvalue
  | Out_raw peer_id string
  | Out_datagram peer_id bytes
  | Out_replicate room_id string string
  | Out_auth peer_id string bool
  | Out_root signed_space_root
  | Out_socket nat string

type_synonym 'm act = "('m node, node_out) action"

abbreviation ne_time :: "node_env \<Rightarrow> real" where
  "ne_time E \<equiv> of_rat (ne_unix E)"

definition ne_secs :: "node_env \<Rightarrow> nat" where
  "ne_secs E = nat \<lfloor>ne_unix E\<rfloor>"

definition APP_VERSION :: string where "APP_VERSION = ''1.0.0''"

abbreviation node_id :: "node_env \<Rightarrow> 'm node \<Rightarrow> peer_id" where
  "node_id E st \<equiv> id_public_id (ne_crates E) (nd_identity st)"

section \<open>Sending\<close>

definition send_signed :: "peer_id \<Rightarrow> message_type \<Rightarrow> jvalue \<Rightarrow> 'm act" where
  "send_signed target t payload = emit [Out_signed target t payload]"

definition json_ids :: "node_env \<Rightarrow> peer_id set \<Rightarrow> jvalue" where
  "json_ids E S = VArr (map VStr (ne_iter E S))"

definition broadcast_sfu_members :: "node_env \<Rightarrow> room_id \<Rightarrow> 'm act" where
  "broadcast_sfu_members E room_id =
     reading (\<lambda>st. case sn_sfu (nd_rooms st) of
        None \<Rightarrow> skip
      | Some m \<Rightarrow>
          let members = (case get_room room_id m of None \<Rightarrow> {} | Some r \<Rightarrow> participant_ids r);
              chat_members = get_chat_recipients room_id m;
              payload = jobj [(''room_id'', VStr room_id), (''members'', json_ids E members), (''chat_members'', json_ids E chat_members)]
          in emit (map (\<lambda>p. Out_signed p SfuMembers payload) (ne_iter E chat_members)))"

definition capabilities_json :: "node_env \<Rightarrow> 'm node \<Rightarrow> jvalue" where
  "capabilities_json E st = VArr (map (ne_caps E) (snapshot (nd_features st)))"

definition supernode_info_payload :: "node_env \<Rightarrow> 'm node \<Rightarrow> jvalue" where
  "supernode_info_payload E st =
     jobj ([(''node_title'', VStr (ne_web_title E)), (''capabilities'', capabilities_json E st)]
       @ (if get_feature ''web.host.app.v1'' (nd_features st) \<noteq> None
          then [(''app_url'', VStr (mint_uri (node_id E st @ ''/'')))] else [])
       @ (case ne_cluster E of None \<Rightarrow> [] | Some desc \<Rightarrow> [(''cluster'', desc)]))"

definition room_type_name :: "room_type \<Rightarrow> string" where
  "room_type_name t = (case t of Public \<Rightarrow> ''public'' | Private \<Rightarrow> ''private'')"

definition room_summary :: "node_env \<Rightarrow> sfu_room \<Rightarrow> jvalue" where
  "room_summary E r =
     jobj [(''room_id'', VStr (sr_room_id r)), (''name'', VStr (sr_room_name r)), (''member_count'', VNum (NInt (int (participant_count r)))),
       (''chat_count'', VNum (NInt (int (card (chat_recipient_ids r))))), (''participant_ids'', json_ids E (participant_ids r)),
       (''room_type'', VStr (room_type_name (sr_room_type r))), (''creator_id'', VStr (sr_creator_id r)),
       (''is_default'', VBool (sr_room_id r = DEFAULT_ROOM_ID))]"

definition send_room_list :: "node_env \<Rightarrow> peer_id \<Rightarrow> 'm act" where
  "send_room_list E p =
     reading (\<lambda>st. case sn_sfu (nd_rooms st) of
        None \<Rightarrow> skip
      | Some m \<Rightarrow> send_signed p SfuRoomList (jobj [(''rooms'', VArr (map (room_summary E) (ne_rooms E (rooms_for_peer p m))))]))"

definition announce_capabilities_to :: "node_env \<Rightarrow> peer_id \<Rightarrow> 'm act" where
  "announce_capabilities_to E p =
     reading (\<lambda>st. send_signed p CapabilityAnnounce (jobj [(''capabilities'', capabilities_json E st)]))"

section \<open>Trust and tickets\<close>

definition issue_ticket :: "node_env \<Rightarrow> peer_id \<Rightarrow> bool \<Rightarrow> 'm act" where
  "issue_ticket E p portal_only =
     reading (\<lambda>st. case nd_relay st of
        None \<Rightarrow> skip
      | Some relay \<Rightarrow>
          let external = (case ne_external_host E of None \<Rightarrow> ''0.0.0.0'' | Some h \<Rightarrow> h);
              ticket = create_ticket (ne_show_f64 E) (id_sign (nd_identity st)) (ne_unix E) p external (ne_relay_port E)
          in steps [
            update (\<lambda>s. s\<lparr>nd_relay := Some (if portal_only then allow_portal_peer p relay else allow_peer_update p relay)\<rparr>),
            update (\<lambda>s. s\<lparr>nd_tickets := (nd_tickets s)(p \<mapsto> tk_expires_at ticket)\<rparr>),
            send_signed p RelayGranted (jobj [(''ticket'', ticket_to_value (ne_b64_std E) ticket),
              (''relay_host'', VStr (tk_relay_host ticket)), (''relay_port'', VNum (NInt (uint (tk_relay_port ticket)))),
              (''portal_only'', VBool portal_only), (''access_mode'', VStr (mode_name (ac_mode (nd_access st))))]),
            send_signed p SupernodeInfo (supernode_info_payload E st)])"

definition issue_ticket_for_access_state :: "node_env \<Rightarrow> peer_id \<Rightarrow> 'm act" where
  "issue_ticket_for_access_state E p =
     reading (\<lambda>st. issue_ticket E p (\<not> check_peer_access p (nd_access st) (nd_peers st)))"

definition replicate_auth :: "peer_id \<Rightarrow> 'm act" where
  "replicate_auth p =
     reading (\<lambda>st. if \<not> nd_linked st then skip
       else let (handle, direct_invite) = (case get_peer p (nd_peers st) of
               None \<Rightarrow> ([], False)
             | Some r \<Rightarrow> (pr_handle r, is_direct_invite_transcript (pr_transcript_hash r)))
            in emit [Out_auth p handle direct_invite])"

definition replay_endpoint_updates :: "node_env \<Rightarrow> peer_id \<Rightarrow> 'm act" where
  "replay_endpoint_updates E target =
     reading (\<lambda>st. emit (concat (map (\<lambda>sender. case nd_mailbox st sender of
          None \<Rightarrow> []
        | Some raw \<Rightarrow> if sender \<noteq> target \<and> is_trusted sender (nd_peers st) then [Out_raw target raw] else [])
        (ne_iter E (dom (nd_mailbox st))))))"

definition on_peer_trusted :: "node_env \<Rightarrow> peer_id \<Rightarrow> 'm act" where
  "on_peer_trusted E p = steps [announce_capabilities_to E p, replicate_auth p, issue_ticket_for_access_state E p, replay_endpoint_updates E p]"

definition short_record :: "node_env \<Rightarrow> peer_id \<Rightarrow> string \<Rightarrow> string \<Rightarrow> peer_record" where
  "short_record E p handle transcript =
     \<lparr>pr_peer_id = (case b64_decode (ne_crates E) p of Inl _ \<Rightarrow> [] | Inr b \<Rightarrow> derive_peer_id (ne_crates E) b), pr_identity_pub = p,
      pr_relay_hints = [], pr_handle = handle, pr_blocked = False, pr_revoked = False, pr_auto_connect = False, pr_is_supernode = False,
      pr_transcript_hash = transcript, pr_created_at = ne_time E, pr_last_seen_at = ne_time E, pr_quic_port = 0\<rparr>"

definition ensure_relay_for_room_guest :: "node_env \<Rightarrow> peer_id \<Rightarrow> 'm act" where
  "ensure_relay_for_room_guest E p =
     reading (\<lambda>st. if \<not> is_trusted p (nd_peers st)
       then steps [update (\<lambda>s. s\<lparr>nd_peers := add_peer (short_record E p [] ROOM_GUEST_TRANSCRIPT_MARKER) (nd_peers s)\<rparr>), on_peer_trusted E p]
       else issue_ticket_for_access_state E p)"

definition signaling_peer_connected :: "peer_id \<Rightarrow> sig_state \<Rightarrow> bool" where
  "signaling_peer_connected i sig \<longleftrightarrow> is_peer_connected i sig \<or>
     (bare i \<noteq> i \<and> is_peer_connected (bare i) sig) \<or>
     (normalize_public_id i \<noteq> i \<and> is_peer_connected (normalize_public_id i) sig)"

definition refresh_connected_replicated_peer :: "node_env \<Rightarrow> peer_id \<Rightarrow> 'm act" where
  "refresh_connected_replicated_peer E p = steps [announce_capabilities_to E p, issue_ticket_for_access_state E p, send_room_list E p]"

text \<open>The peer store after a replicated grant, and whether the grant is new or an upgrade.\<close>

definition auth_record :: "node_env \<Rightarrow> peer_id \<Rightarrow> string \<Rightarrow> bool \<Rightarrow> peer_store \<Rightarrow> bool \<times> peer_store" where
  "auth_record E p handle direct_invite s =
     (let transcript = (if direct_invite then REPLICATED_DIRECT_INVITE_MARKER else ROOM_GUEST_TRANSCRIPT_MARKER) in
      case get_peer p s of
        Some existing \<Rightarrow>
          let new_handle = (handle \<noteq> [] \<and> pr_handle existing \<noteq> handle);
              u1 = (if new_handle then existing\<lparr>pr_handle := handle\<rparr> else existing);
              upgrade = (direct_invite \<and> \<not> is_direct_invite_transcript (pr_transcript_hash u1));
              u2 = (if upgrade then u1\<lparr>pr_transcript_hash := transcript\<rparr> else u1)
          in (upgrade, if new_handle \<or> upgrade then add_peer u2 s else s)
      | None \<Rightarrow> (True, add_peer (short_record E p handle transcript) s))"

definition apply_peer_auth :: "node_env \<Rightarrow> peer_id \<Rightarrow> string \<Rightarrow> bool \<Rightarrow> 'm act" where
  "apply_peer_auth E p0 handle direct_invite =
     (let p = normalize_public_id p0 in
      reading (\<lambda>st.
        let (newly_or_upgraded, peers) = auth_record E p handle direct_invite (nd_peers st) in
        steps [update (\<lambda>s. s\<lparr>nd_peers := peers\<rparr>),
          update (\<lambda>s. s\<lparr>nd_relay := map_option
             (\<lambda>r. if check_peer_access p (nd_access s) (nd_peers s) then relay_allow_peer p r else allow_portal_peer p r) (nd_relay s)\<rparr>),
          if newly_or_upgraded \<and> signaling_peer_connected p (nd_sig st) then refresh_connected_replicated_peer E p else skip]))"

definition grant_portal_access :: "node_env \<Rightarrow> peer_id \<Rightarrow> 'm act" where
  "grant_portal_access E relay_peer_id =
     (let p = pad_base64url relay_peer_id in
      reading (\<lambda>st. if \<not> is_trusted p (nd_peers st) then skip
        else steps [update (\<lambda>s. s\<lparr>nd_access := on_peer_granted p (nd_access s)\<rparr>), issue_ticket E p False]))"

text \<open>The part of \<open>portal_access_status\<close> that is not configuration text.\<close>

definition portal_access_status :: "peer_id \<Rightarrow> 'm node \<Rightarrow> jvalue" where
  "portal_access_status relay_peer_id st =
     (let p = pad_base64url relay_peer_id; granted = check_peer_access p (nd_access st) (nd_peers st)
      in jobj [(''granted'', VBool granted), (''access_mode'', VStr (mode_name (ac_mode (nd_access st)))),
        (''direct_invite'', VBool (is_direct_invite_peer p (nd_peers st))), (''requires_gate'', VBool (\<not> granted)),
        (''access_portal'', VStr portal_entry_path)])"

definition on_peer_revoked :: "node_env \<Rightarrow> peer_id \<Rightarrow> 'm act" where
  "on_peer_revoked E p =
     steps [
       update (\<lambda>s. case nd_relay s of
          None \<Rightarrow> s
        | Some r \<Rightarrow> let (reg, r') = relay_revoke_peer p (nd_features s) r in s\<lparr>nd_relay := Some r', nd_features := reg\<rparr>),
       update (\<lambda>s. s\<lparr>nd_tickets := (nd_tickets s)(p := None)\<rparr>),
       update (\<lambda>s. s\<lparr>nd_rooms := (nd_rooms s)\<lparr>sn_sfu := map_option (\<lambda>m. snd (remove_peer_from_all (ne_time E) p m)) (sn_sfu (nd_rooms s))\<rparr>\<rparr>),
       send_signed p RelayRevoke (jobj [(''reason'', VStr ''trust_revoked'')])]"

fun renew_all :: "node_env \<Rightarrow> (peer_id \<rightharpoonup> rat) \<Rightarrow> peer_id list \<Rightarrow> 'm act" where
  "renew_all E expiries [] = skip"
| "renew_all E expiries (p # ps) =
     steps [reading (\<lambda>st. case expiries p of
         None \<Rightarrow> skip
       | Some expires_at \<Rightarrow>
           if \<not> is_peer_connected p (nd_sig st) then skip
           else if RENEWAL_WINDOW_S < expires_at - ne_unix E then skip
           else issue_ticket_for_access_state E p),
       renew_all E expiries ps]"

definition check_ticket_renewals :: "node_env \<Rightarrow> 'm act" where
  "check_ticket_renewals E = reading (\<lambda>st. renew_all E (nd_tickets st) (ne_iter E (dom (nd_tickets st))))"

section \<open>Room lists\<close>

definition broadcast_room_list :: "'m act" where
  "broadcast_room_list = update (\<lambda>s. s\<lparr>nd_dirty := True\<rparr>)"

definition broadcast_room_list_now :: "node_env \<Rightarrow> 'm act" where
  "broadcast_room_list_now E =
     reading (\<lambda>st. steps (map (\<lambda>p. if is_trusted p (nd_peers st) then send_room_list E p else skip) (ne_iter E (signaling_peer_ids (nd_sig st)))))"

section \<open>Endpoint mailbox\<close>

definition ENDPOINT_MAX_AGE_S :: rat where "ENDPOINT_MAX_AGE_S = 86400"

definition on_endpoint_update :: "peer_id \<Rightarrow> string \<Rightarrow> 'm act" where
  "on_endpoint_update sender raw = update (\<lambda>s. s\<lparr>nd_mailbox := (nd_mailbox s)(sender \<mapsto> raw)\<rparr>)"

definition save_endpoint_mailbox :: "node_env \<Rightarrow> 'm node \<Rightarrow> jvalue" where
  "save_endpoint_mailbox E st =
     VArr (map (\<lambda>p. jobj [(''peer_id'', VStr p), (''raw'', VStr (the (nd_mailbox st p))), (''stored_at'', VNum (NFloat (ne_unix E)))])
       (ne_iter E (dom (nd_mailbox st))))"

fun load_entries :: "rat \<Rightarrow> jvalue list \<Rightarrow> (peer_id \<rightharpoonup> string) \<Rightarrow> (peer_id \<rightharpoonup> string)" where
  "load_entries now [] acc = acc"
| "load_entries now (entry # es) acc =
     (let p = get_str_or [] ''peer_id'' entry; raw = get_str_or [] ''raw'' entry;
          stored_at = (case Option.bind (jget ''stored_at'' entry) as_f64 of None \<Rightarrow> 0 | Some t \<Rightarrow> t)
      in if p = [] \<or> raw = [] \<or> now - stored_at > ENDPOINT_MAX_AGE_S then load_entries now es acc
         else load_entries now es (acc(p \<mapsto> raw)))"

definition load_endpoint_mailbox :: "rat \<Rightarrow> jvalue option \<Rightarrow> (peer_id \<rightharpoonup> string)" where
  "load_endpoint_mailbox now parsed = (case Option.bind parsed as_array of None \<Rightarrow> Map.empty | Some es \<Rightarrow> load_entries now es Map.empty)"

section \<open>Hole punching\<close>

definition get_peer_remote_addr :: "node_env \<Rightarrow> peer_id \<Rightarrow> relay_state \<Rightarrow> string option" where
  "get_peer_remote_addr E p relay = map_option (\<lambda>rp. ne_addr E (rp_conn rp)) (ra_peers relay (strip p))"

definition relay_addr :: "node_env \<Rightarrow> peer_id \<Rightarrow> 'm node \<Rightarrow> string option" where
  "relay_addr E p st = Option.bind (nd_relay st) (get_peer_remote_addr E p)"

definition resolve_punch_endpoint :: "node_env \<Rightarrow> peer_id \<Rightarrow> 'm node \<Rightarrow> string option" where
  "resolve_punch_endpoint E p st =
     (case relay_addr E p st of
        Some addr \<Rightarrow> Some addr
      | None \<Rightarrow>
          (case Option.bind (nd_mailbox st p) (jl_parse (ne_json E)) of
             None \<Rightarrow> None
           | Some msg \<Rightarrow>
               (case Option.bind (jget ''payload'' msg) (get_str ''listener'') of
                  None \<Rightarrow> None
                | Some listener \<Rightarrow> Some (if starts_with ''ws://'' listener then drop 5 listener else listener))))"

definition punch_payload :: "node_env \<Rightarrow> peer_id \<Rightarrow> string \<Rightarrow> string \<Rightarrow> bool \<Rightarrow> jvalue" where
  "punch_payload E peer peer_ep your_ep verified =
     jobj [(''peer_id'', VStr peer), (''peer_endpoint'', VStr peer_ep), (''your_endpoint'', VStr your_ep),
       (''punch_at'', VNum (NFloat (ne_unix E + 1 / 2))), (''verified'', VBool verified)]"

definition send_punch_ready :: "node_env \<Rightarrow> peer_id \<Rightarrow> peer_id \<Rightarrow> string \<Rightarrow> string \<Rightarrow> bool \<Rightarrow> 'm act" where
  "send_punch_ready E peer_a peer_b ep_a ep_b verified =
     steps [send_signed peer_a PunchReady (punch_payload E peer_b ep_b ep_a verified),
            send_signed peer_b PunchReady (punch_payload E peer_a ep_a ep_b verified)]"

definition try_relay_punch_for_room :: "node_env \<Rightarrow> peer_id \<Rightarrow> room_id \<Rightarrow> 'm act" where
  "try_relay_punch_for_room E new_peer room_id =
     reading (\<lambda>st. case nd_relay st of
        None \<Rightarrow> skip
      | Some relay \<Rightarrow>
          (case resolve_punch_endpoint E new_peer st of
             None \<Rightarrow> skip
           | Some new_ep \<Rightarrow>
               let new_norm = normalize_peer_id new_peer in
               steps (map (\<lambda>other_peer.
                   let other_norm = normalize_peer_id other_peer in
                   if other_norm = new_norm then skip
                   else case resolve_punch_endpoint E other_peer st of
                          None \<Rightarrow> skip
                        | Some other_ep \<Rightarrow> send_punch_ready E new_norm other_norm new_ep other_ep False)
                 (ne_iter E (get_room_peers relay room_id)))))"

definition handle_punch_register_msg :: "node_env \<Rightarrow> peer_id \<Rightarrow> peer_id \<Rightarrow> string \<Rightarrow> 'm act" where
  "handle_punch_register_msg E sender0 target0 sender_endpoint =
     (let sender = normalize_peer_id sender0; target = normalize_peer_id target0 in
      reading (\<lambda>st.
        if \<not> is_trusted sender (nd_peers st) \<or> \<not> is_trusted target (nd_peers st) then skip
        else
          let pair_key = (if sender < target then (sender, target) else (target, sender));
              entry = (case nd_punches st pair_key of
                  Some e \<Rightarrow> e | None \<Rightarrow> \<lparr>pu_registered_at = ne_unix E, pu_endpoints = Map.empty\<rparr>);
              effective = (case relay_addr E sender st of Some a \<Rightarrow> a | None \<Rightarrow> sender_endpoint);
              eps = (pu_endpoints entry)(sender \<mapsto> effective)
          in if eps target \<noteq> None
             then steps [update (\<lambda>s. s\<lparr>nd_punches := (nd_punches s)(pair_key := None)\<rparr>),
                 send_punch_ready E (fst pair_key) (snd pair_key)
                   (case eps (fst pair_key) of None \<Rightarrow> [] | Some e \<Rightarrow> e) (case eps (snd pair_key) of None \<Rightarrow> [] | Some e \<Rightarrow> e) True]
             else update (\<lambda>s. s\<lparr>nd_punches := retain (\<lambda>_ info. \<not> 30 < ne_unix E - pu_registered_at info)
                 ((nd_punches s)(pair_key \<mapsto> entry\<lparr>pu_endpoints := eps\<rparr>))\<rparr>)))"

end
