(* ===== verification/Node_Rooms.thy ===== *)
theory Node_Rooms
  imports Node
begin

text \<open>
  The messages peers and cluster members send to a supernode, \<open>SupernodeHandler\<close> and the delivery of
  replicated frames in \<open>conquerd-supernode/src/main.rs\<close>: one definition per handler, over the state of
  the theory \<open>Node\<close>.
\<close>

section \<open>Frames\<close>

definition MAX_VIDEO_SUBSCRIPTIONS :: nat where "MAX_VIDEO_SUBSCRIPTIONS = 32"

definition is_room_frame_author :: "peer_id \<Rightarrow> peer_id \<Rightarrow> bool" where
  "is_room_frame_author recipient sender =
     (if sender = [] then False else normalize_peer_id recipient = normalize_peer_id sender)"

definition sfu_audio_opus_byte_count :: "node_env \<Rightarrow> signaling_message \<Rightarrow> nat" where
  "sfu_audio_opus_byte_count E msg =
     (case Option.bind (get_str ''audio'' (sm_payload msg)) (ne_b64_url_decode E) of None \<Rightarrow> 0 | Some v \<Rightarrow> length v)"

definition audio_replication_id :: "signaling_message \<Rightarrow> string" where
  "audio_replication_id msg =
     (case sm_signature msg of
        Some sig \<Rightarrow> if sig \<noteq> [] then ''a:'' @ sig else ''a:'' @ get_str_or [] ''room_id'' (sm_payload msg) @ '':'' @ sm_sender msg @ '':'' @
          show_nat (case Option.bind (jget ''seq'' (sm_payload msg)) as_u64 of None \<Rightarrow> 0 | Some n \<Rightarrow> unat n)
      | None \<Rightarrow> ''a:'' @ get_str_or [] ''room_id'' (sm_payload msg) @ '':'' @ sm_sender msg @ '':'' @
          show_nat (case Option.bind (jget ''seq'' (sm_payload msg)) as_u64 of None \<Rightarrow> 0 | Some n \<Rightarrow> unat n))"

definition sfu_chat_byte_count :: "signaling_message \<Rightarrow> nat" where
  "sfu_chat_byte_count msg = (case get_str ''body'' (sm_payload msg) of None \<Rightarrow> 0 | Some b \<Rightarrow> length b)"

definition file_frame_recipients :: "peer_id list \<Rightarrow> peer_id \<Rightarrow> peer_id option \<Rightarrow> peer_id list" where
  "file_frame_recipients recipients sender to =
     (case to of
        Some t \<Rightarrow> take 1 (filter (\<lambda>p. is_room_frame_author p t \<and> \<not> is_room_frame_author p sender) recipients)
      | None \<Rightarrow> filter (\<lambda>p. \<not> is_room_frame_author p sender) recipients)"

definition file_payload_bypasses_quota :: "message_type \<Rightarrow> bool" where
  "file_payload_bypasses_quota mt \<longleftrightarrow> mt = SfuFileChunk \<or> mt = SfuFileComplete"

definition sfu_file_inbound_byte_count :: "signaling_message \<Rightarrow> message_type \<Rightarrow> nat" where
  "sfu_file_inbound_byte_count msg mt =
     (if mt = SfuFileChunk then (case get_str ''data'' (sm_payload msg) of None \<Rightarrow> 0 | Some d \<Rightarrow> length d)
      else if mt = SfuFileOffer \<or> mt = SfuFileRequest \<or> mt = SfuFileRevoke \<or> mt = SfuFileComplete then 64
      else 0)"

definition room_of :: "signaling_message \<Rightarrow> room_id" where
  "room_of msg = get_str_or DEFAULT_ROOM_ID ''room_id'' (sm_payload msg)"

section \<open>Quotas and fan-out\<close>

definition gated :: "(feature_id \<Rightarrow> peer_id \<Rightarrow> nat \<Rightarrow> instant \<Rightarrow> 'm feature_registry \<Rightarrow> bool \<times> 'm feature_registry) \<Rightarrow>
    node_env \<Rightarrow> feature_id \<Rightarrow> peer_id \<Rightarrow> nat \<Rightarrow> (bool \<Rightarrow> 'm act) \<Rightarrow> 'm act" where
  "gated gate E fid p n k =
     reading (\<lambda>st. let (ok, reg) = gate fid p n (ne_now E) (nd_features st)
       in steps [update (\<lambda>s. s\<lparr>nd_features := reg\<rparr>), k ok])"

definition fan_out_raw :: "node_env \<Rightarrow> feature_id \<Rightarrow> string \<Rightarrow> peer_id list \<Rightarrow> 'm act" where
  "fan_out_raw E fid raw recipients =
     steps (map (\<lambda>p. gated gate_through_feature E fid p (length raw) (\<lambda>ok. if ok then emit [Out_raw p raw] else skip)) recipients)"

definition replicate_frame :: "room_id \<Rightarrow> string \<Rightarrow> string \<Rightarrow> 'm act" where
  "replicate_frame room_id message_id raw = reading (\<lambda>st. if nd_linked st then emit [Out_replicate room_id message_id raw] else skip)"

definition replicate_room_chat :: "room_id \<Rightarrow> signaling_message \<Rightarrow> string \<Rightarrow> 'm act" where
  "replicate_room_chat room_id msg raw = replicate_frame room_id (get_str_or [] ''message_id'' (sm_payload msg)) raw"

definition replicate_room_audio :: "room_id \<Rightarrow> signaling_message \<Rightarrow> string \<Rightarrow> 'm act" where
  "replicate_room_audio room_id msg raw = replicate_frame room_id (audio_replication_id msg) raw"

definition with_sfu :: "(sfu_manager \<Rightarrow> 'm act) \<Rightarrow> 'm act" where
  "with_sfu f = reading (\<lambda>st. case sn_sfu (nd_rooms st) of None \<Rightarrow> skip | Some m \<Rightarrow> f m)"

definition set_sfu :: "sfu_manager \<Rightarrow> 'm act" where
  "set_sfu m = update (\<lambda>s. s\<lparr>nd_rooms := (nd_rooms s)\<lparr>sn_sfu := Some m\<rparr>\<rparr>)"

definition on_relay :: "(relay_state \<Rightarrow> relay_state) \<Rightarrow> 'm act" where
  "on_relay f = update (\<lambda>s. s\<lparr>nd_relay := map_option f (nd_relay s)\<rparr>)"

section \<open>Room frames\<close>

definition handle_sfu_broadcast :: "node_env \<Rightarrow> signaling_message \<Rightarrow> string \<Rightarrow> message_type \<Rightarrow> 'm act" where
  "handle_sfu_broadcast E msg raw mt =
     with_sfu (\<lambda>m.
       let payload_bytes = sfu_file_inbound_byte_count msg mt in
       if payload_bytes = 0 then skip
       else gated gate_inbound_through_feature E ''room.file.v1'' (sm_sender msg) payload_bytes (\<lambda>within_quota.
         if \<not> within_quota \<and> \<not> file_payload_bypasses_quota mt then skip
         else let room_id = room_of msg in
           if \<not> is_chat_sender room_id (sm_sender msg) m then skip
           else
             let recipients = ne_iter E (get_chat_recipients room_id m);
                 targets = file_frame_recipients recipients (sm_sender msg) (get_str ''to'' (sm_payload msg))
             in if file_payload_bypasses_quota mt then emit (map (\<lambda>p. Out_raw p raw) targets)
                else fan_out_raw E ''room.file.v1'' raw targets))"

definition handle_sfu_audio_broadcast :: "node_env \<Rightarrow> signaling_message \<Rightarrow> string \<Rightarrow> 'm act" where
  "handle_sfu_audio_broadcast E msg raw =
     with_sfu (\<lambda>m.
       let opus_bytes = sfu_audio_opus_byte_count E msg in
       if opus_bytes = 0 then skip
       else gated gate_inbound_through_feature E ''room.audio.sfu'' (sm_sender msg) opus_bytes (\<lambda>ok.
         if \<not> ok then skip
         else let room_id = room_of msg; (targets, m') = audio_forward_targets room_id (sm_sender msg) (ne_time E) m in
           steps [set_sfu m',
             case targets of
               None \<Rightarrow> skip
             | Some recipients \<Rightarrow>
                 steps [fan_out_raw E ''room.audio.sfu'' raw (filter (\<lambda>p. p \<noteq> sm_sender msg) (ne_iter E recipients)),
                   replicate_room_audio room_id msg raw]]))"

definition handle_sfu_chat_broadcast :: "node_env \<Rightarrow> signaling_message \<Rightarrow> string \<Rightarrow> 'm act" where
  "handle_sfu_chat_broadcast E msg raw =
     with_sfu (\<lambda>m.
       let body_bytes = sfu_chat_byte_count msg in
       if body_bytes = 0 then skip
       else gated gate_inbound_through_feature E ''room.chat.v1'' (sm_sender msg) body_bytes (\<lambda>ok.
         if \<not> ok then skip
         else let room_id = room_of msg in
           if \<not> is_chat_sender room_id (sm_sender msg) m then skip
           else steps [
             fan_out_raw E ''room.chat.v1'' raw
               (filter (\<lambda>p. \<not> is_room_frame_author p (sm_sender msg)) (ne_iter E (get_chat_recipients room_id m))),
             replicate_room_chat room_id msg raw]))"

definition handle_sfu_video_state :: "node_env \<Rightarrow> signaling_message \<Rightarrow> string \<Rightarrow> 'm act" where
  "handle_sfu_video_state E msg raw =
     with_sfu (\<lambda>m. let room_id = room_of msg in
       if \<not> is_chat_sender room_id (sm_sender msg) m then skip
       else emit (map (\<lambda>p. Out_raw p raw)
         (filter (\<lambda>p. \<not> is_room_frame_author p (sm_sender msg)) (ne_iter E (get_chat_recipients room_id m)))))"

definition handle_sfu_video_keyframe_request :: "node_env \<Rightarrow> signaling_message \<Rightarrow> string \<Rightarrow> 'm act" where
  "handle_sfu_video_keyframe_request E msg raw =
     with_sfu (\<lambda>m. let room_id = room_of msg in
       case get_str ''target_peer'' (sm_payload msg) of
         None \<Rightarrow> skip
       | Some target \<Rightarrow>
           if target = [] \<or> \<not> is_chat_sender room_id (sm_sender msg) m then skip
           else case filter (\<lambda>p. is_room_frame_author p target) (ne_iter E (get_chat_recipients room_id m)) of
                  [] \<Rightarrow> skip
                | p # _ \<Rightarrow> emit [Out_raw p raw])"

definition handle_sfu_video_subscribe :: "node_env \<Rightarrow> signaling_message \<Rightarrow> 'm act" where
  "handle_sfu_video_subscribe E msg =
     with_sfu (\<lambda>m. reading (\<lambda>st.
       if nd_relay st = None then skip
       else if \<not> is_chat_sender (room_of msg) (sm_sender msg) m then skip
       else case Option.bind (jget ''senders'' (sm_payload msg)) as_array of
              None \<Rightarrow> skip
            | Some xs \<Rightarrow>
                let senders = take MAX_VIDEO_SUBSCRIPTIONS (filter (\<lambda>s. s \<noteq> [])
                      (concat (map (\<lambda>v. case j_str v of None \<Rightarrow> [] | Some s \<Rightarrow> [s]) xs)))
                in on_relay (set_video_subscriptions (sm_sender msg) senders)))"

definition handle_sfu_subscribe :: "node_env \<Rightarrow> signaling_message \<Rightarrow> 'm act" where
  "handle_sfu_subscribe E msg =
     with_sfu (\<lambda>m. let room_id = get_str_or [] ''room_id'' (sm_payload msg) in
       if room_id = [] then skip
       else let (ok, m') = subscribe (sm_sender msg) room_id m in
         steps [set_sfu m', if ok then broadcast_sfu_members E room_id else skip])"

definition handle_sfu_unsubscribe :: "node_env \<Rightarrow> signaling_message \<Rightarrow> 'm act" where
  "handle_sfu_unsubscribe E msg =
     with_sfu (\<lambda>m. let room_id = get_str_or [] ''room_id'' (sm_payload msg) in
       if room_id = [] then skip
       else steps [set_sfu (unsubscribe (ne_time E) (sm_sender msg) room_id m), broadcast_sfu_members E room_id])"

section \<open>Membership\<close>

definition admission_of :: "node_env \<Rightarrow> jvalue \<Rightarrow> admission_payload" where
  "admission_of E payload = (ne_admission E payload)\<lparr>ap_invite_token := get_str_or [] ''invite_token'' payload\<rparr>"

definition gossip_roots :: "signed_space_root list \<Rightarrow> 'm act" where
  "gossip_roots roots = reading (\<lambda>st. if nd_linked st then emit (map Out_root roots) else skip)"

text \<open>
  Joining and inviting decide on admission with the definitions of \<open>Space_Admission\<close>; a root that the
  message carries and that is new is gossiped.
\<close>

definition carried_roots :: "node_env \<Rightarrow> signaling_message \<Rightarrow> room_id \<Rightarrow> supernode_rooms \<Rightarrow> signed_space_root list" where
  "carried_roots E msg room_id rooms =
     fst (snd (try_space_admission (ne_crates E) (ne_time E) (word_of_nat (ne_secs E)) (sm_sender msg) room_id (admission_of E (sm_payload msg)) rooms))"

definition handle_sfu_join :: "node_env \<Rightarrow> signaling_message \<Rightarrow> 'm act" where
  "handle_sfu_join E msg =
     with_sfu (\<lambda>_. reading (\<lambda>st.
       let room_id = room_of msg; sender = sm_sender msg;
           roots = carried_roots E msg room_id (nd_rooms st);
           (ok, rooms) = sfu_join_membership (ne_crates E) (ne_time E) (word_of_nat (ne_secs E)) sender room_id (admission_of E (sm_payload msg)) (nd_rooms st);
           m = the (sn_sfu rooms)
       in steps ([gossip_roots roots, update (\<lambda>s. s\<lparr>nd_rooms := rooms\<rparr>)] @
         (if \<not> ok
          then [send_signed sender SfuJoinResult (jobj [(''room_id'', VStr room_id), (''accepted'', VBool False),
                  (''reason'', VStr (classify_join_denial sender room_id m))])]
          else
            let members = (case get_room room_id m of None \<Rightarrow> {} | Some r \<Rightarrow> participant_ids r) in
            [on_relay (relay_join_room sender room_id),
             send_signed sender SfuMembers (jobj [(''room_id'', VStr room_id), (''members'', json_ids E members),
               (''chat_members'', json_ids E (get_chat_recipients room_id m))]),
             emit (map (\<lambda>p. Out_signed p SfuPeerJoined (jobj [(''peer_id'', VStr sender), (''room_id'', VStr room_id)]))
               (filter (\<lambda>p. p \<noteq> sender) (ne_iter E members))),
             broadcast_sfu_members E room_id,
             ensure_relay_for_room_guest E sender,
             broadcast_room_list,
             try_relay_punch_for_room E sender room_id]))))"

definition peer_left :: "node_env \<Rightarrow> peer_id \<Rightarrow> room_id \<Rightarrow> peer_id set \<Rightarrow> 'm act" where
  "peer_left E p room_id members =
     emit (map (\<lambda>q. Out_signed q SfuPeerLeft (jobj [(''peer_id'', VStr p), (''room_id'', VStr room_id)])) (ne_iter E members))"

definition handle_sfu_leave :: "node_env \<Rightarrow> signaling_message \<Rightarrow> 'm act" where
  "handle_sfu_leave E msg =
     with_sfu (\<lambda>m. let room_id = room_of msg; (remaining, m') = leave_room (ne_time E) (sm_sender msg) room_id m in
       steps [set_sfu m', on_relay (relay_leave_room (sm_sender msg)), peer_left E (sm_sender msg) room_id remaining,
         broadcast_sfu_members E room_id, broadcast_room_list])"

definition room_type_of :: "jvalue \<Rightarrow> room_type" where
  "room_type_of payload = (case get_str ''room_type'' payload of
     Some t \<Rightarrow> if t = ''private'' then Private else Public | None \<Rightarrow> Public)"

definition created_reply :: "peer_id \<Rightarrow> room_id \<Rightarrow> string \<Rightarrow> room_type \<Rightarrow> string option \<Rightarrow> 'm act" where
  "created_reply sender room_id room_name ty token =
     send_signed sender SfuRoomCreated (jobj [(''room_id'', VStr room_id), (''room_name'', VStr room_name),
       (''room_type'', VStr (room_type_name ty)), (''invite_token'', case token of None \<Rightarrow> VNull | Some t \<Rightarrow> VStr t)])"

text \<open>The admission of the sender to a private room it created or materialised again.\<close>

definition readmit_creator :: "node_env \<Rightarrow> peer_id \<Rightarrow> peer_id \<Rightarrow> string \<Rightarrow> sfu_room \<Rightarrow> bool \<Rightarrow> sfu_manager \<Rightarrow> string option \<times> sfu_manager" where
  "readmit_creator E sender creator_id token room created_new m =
     (let i = sr_room_id room; room_creator = sr_creator_id room;
          is_creator = (sender = room_creator \<or> sender = creator_id);
          (reseeded, m1) = (if token = [] then (False, m)
             else reregister_room_token i token (if room_creator = [] then creator_id else room_creator) m)
      in if reseeded then (Some token, snd (allow_peer i sender m1))
         else if is_creator \<or> created_new
         then let m2 = snd (allow_peer i sender m1)
              in if created_new then mint_invite_token (ne_nonce E) i creator_id m2 else (None, m2)
         else (None, m1))"

definition handle_sfu_room_create :: "node_env \<Rightarrow> signaling_message \<Rightarrow> 'm act" where
  "handle_sfu_room_create E msg =
     with_sfu (\<lambda>m.
       let payload = sm_payload msg; sender = sm_sender msg;
           room_name = get_str_or ''Room'' ''room_name'' payload;
           ty = room_type_of payload;
           room_id = get_str ''room_id'' payload;
           creator_id = (case get_str ''creator_id'' payload of Some c \<Rightarrow> if c \<noteq> [] then c else sender | None \<Rightarrow> sender);
           invite_policy = get_str_or ''owner'' ''invite_policy'' payload;
           resolved_id = (case room_id of Some i \<Rightarrow> i | None \<Rightarrow> derive_room_id (sha256_hex (ne_crates E)) creator_id room_name);
           denial = (if get_room resolved_id m = None \<and> resolved_id \<noteq> DEFAULT_ROOM_ID
                     then deny_reason_for_new_room (ty = Public) (ne_policy E) else None)
       in case denial of
            Some reason \<Rightarrow> send_signed sender SfuRoomCreated (jobj [(''room_id'', VStr []), (''room_name'', VStr room_name),
                (''room_type'', VStr (room_type_name ty)), (''denied'', VBool True), (''reason'', VStr reason)])
          | None \<Rightarrow>
              (case create_room_with_policy (sha256_hex (ne_crates E)) (ne_time E) room_id room_name ty creator_id invite_policy m of
                 (None, m1) \<Rightarrow> skip
               | (Some (room, created_new), m1) \<Rightarrow>
                   let (token, m2) = (if ty = Private
                         then readmit_creator E sender creator_id (get_str_or [] ''invite_token'' payload) room created_new m1
                         else (None, m1))
                   in steps [set_sfu m2, created_reply sender (sr_room_id room) (sr_room_name room) ty token]))"

definition handle_sfu_room_invite :: "node_env \<Rightarrow> signaling_message \<Rightarrow> 'm act" where
  "handle_sfu_room_invite E msg =
     with_sfu (\<lambda>_. reading (\<lambda>st.
       let room_id = get_str_or [] ''room_id'' (sm_payload msg); sender = sm_sender msg;
           roots = carried_roots E msg room_id (nd_rooms st);
           (valid, rooms) = sfu_room_invite_valid (ne_crates E) (ne_time E) (word_of_nat (ne_secs E)) sender room_id (admission_of E (sm_payload msg)) (nd_rooms st)
       in steps [gossip_roots roots, update (\<lambda>s. s\<lparr>nd_rooms := rooms\<rparr>),
         case get_room room_id (the (sn_sfu rooms)) of
           None \<Rightarrow> skip
         | Some r \<Rightarrow> steps [
             send_signed sender SfuRoomInviteResult (jobj [(''room_id'', VStr room_id), (''accepted'', VBool valid), (''room_name'', VStr (sr_room_name r)),
               (''room_type'', VStr (room_type_name (sr_room_type r))), (''member_count'', VNum (NInt (int (participant_count r)))),
               (''reason'', VStr (if valid then [] else ''invalid_token''))]),
             if valid then ensure_relay_for_room_guest E sender else skip]]))"

definition handle_sfu_invite_generate :: "node_env \<Rightarrow> signaling_message \<Rightarrow> 'm act" where
  "handle_sfu_invite_generate E msg =
     with_sfu (\<lambda>m. let room_id = get_str_or [] ''room_id'' (sm_payload msg); (mint, m') = generate_invite_token_checked (ne_nonce E) room_id (sm_sender msg) m in
       steps [set_sfu m', send_signed (sm_sender msg) SfuRoomInviteResult
         (case mint of
            MintOk token \<Rightarrow> jobj [(''room_id'', VStr room_id), (''accepted'', VBool True), (''invite_token'', VStr token)]
          | NotAuthorized \<Rightarrow> jobj [(''room_id'', VStr room_id), (''accepted'', VBool False), (''reason'', VStr ''not_room_creator'')]
          | RoomNotFound \<Rightarrow> jobj [(''room_id'', VStr room_id), (''accepted'', VBool False), (''reason'', VStr ''room_not_found'')])])"

definition handle_root_announce :: "node_env \<Rightarrow> signaling_message \<Rightarrow> 'm act" where
  "handle_root_announce E msg =
     reading (\<lambda>st. let (roots, rooms) = handle_space_root_announce (ne_crates E) (sm_sender msg) (Option.bind (jget ''root'' (sm_payload msg)) (ne_root E)) (nd_rooms st)
       in steps [update (\<lambda>s. s\<lparr>nd_rooms := rooms\<rparr>), gossip_roots roots])"

section \<open>Handshake and other requests\<close>

text \<open>The reason sent for a refused handshake; a panic of the key derivation answers nothing.\<close>

definition init_error_text :: "node_env \<Rightarrow> jvalue \<Rightarrow> init_error \<Rightarrow> string option" where
  "init_error_text E payload e = (case e of
     Missing_field f \<Rightarrow> Some (''missing '' @ f)
   | Unknown_invite i \<Rightarrow> Some (''unknown invite_id: '' @ i)
   | Invite_expired \<Rightarrow> Some ''invite_expired''
   | Bad_base64 \<Rightarrow> Some (ne_decode_error E (get_str_or [] ''joiner_ephemeral_pub'' payload))
   | Ephemeral_not_32 \<Rightarrow> Some ''joiner_ephemeral_pub must be 32 bytes''
   | Low_order_point \<Rightarrow> Some ''low-order X25519 point rejected''
   | Kdf_panic \<Rightarrow> None)"

definition attest_build :: "node_env \<Rightarrow> peer_id \<Rightarrow> 'm act" where
  "attest_build E p = steps [send_signed p VersionAnnounce (jobj [(''version'', VStr APP_VERSION)]),
     send_signed p BuildAttestation (jobj [(''build_id'', VStr (ne_build_id E)), (''source_hash'', VStr (ne_source_hash E)), (''version'', VStr APP_VERSION)])]"

definition joiner_record :: "node_env \<Rightarrow> jvalue \<Rightarrow> peer_id \<Rightarrow> string \<Rightarrow> peer_record" where
  "joiner_record E payload joiner_pub transcript_hash =
     (let listener = get_str_or [] ''joiner_listener'' payload in
      \<lparr>pr_peer_id = get_str_or [] ''joiner_peer_id'' payload, pr_identity_pub = joiner_pub, pr_relay_hints = (if listener = [] then [] else [listener]),
       pr_handle = get_str_or [] ''joiner_handle'' payload, pr_blocked = False, pr_revoked = False, pr_auto_connect = False, pr_is_supernode = False,
       pr_transcript_hash = transcript_hash, pr_created_at = ne_time E, pr_last_seen_at = ne_time E,
       pr_quic_port = ucast (case Option.bind (jget ''joiner_quic_port'' payload) as_u64 of None \<Rightarrow> 0 | Some n \<Rightarrow> n)\<rparr>)"

definition welcome_payload :: "node_env \<Rightarrow> peer_store \<Rightarrow> jvalue" where
  "welcome_payload E s = jobj [(''peers'', VArr (concat (map (\<lambda>i. case get_peer i s of
       None \<Rightarrow> []
     | Some p \<Rightarrow> [jobj [(''peer_id'', VStr (pr_peer_id p)), (''identity_pub'', VStr (pr_identity_pub p)), (''handle'', VStr (pr_handle p)),
         (''is_supernode'', VBool (pr_is_supernode p)), (''auto_connect'', VBool (pr_auto_connect p))]])
     (ne_iter E (trusted_peer_ids s)))))]"

definition handle_handshake_init :: "node_env \<Rightarrow> signaling_message \<Rightarrow> 'm act" where
  "handle_handshake_init E msg =
     reading (\<lambda>st. case process_init (ne_kdf E) (ne_json E) (ne_crates E) (int (ne_secs E)) (sm_payload msg) (nd_handshake st) of
        Inl e \<Rightarrow> (case init_error_text E (sm_payload msg) e of
            None \<Rightarrow> skip
          | Some reason \<Rightarrow> send_signed (sm_sender msg) InviteHandshakeReject (jobj [(''reason'', VStr reason)]))
      | Inr (accept_payload, _, joiner_pub) \<Rightarrow>
          steps [
            update (\<lambda>s. s\<lparr>nd_peers := add_peer (joiner_record E (sm_payload msg) joiner_pub (get_str_or [] ''transcript_hash'' accept_payload)) (nd_peers s)\<rparr>),
            send_signed joiner_pub InviteHandshakeAccept accept_payload,
            on_peer_trusted E joiner_pub,
            attest_build E joiner_pub,
            send_room_list E joiner_pub,
            reading (\<lambda>s. send_signed joiner_pub Welcome (welcome_payload E (nd_peers s)))])"

definition handle_game_relay_join :: "signaling_message \<Rightarrow> 'm act" where
  "handle_game_relay_join msg =
     (let room = (case jget ''room'' (sm_payload msg) of Some v \<Rightarrow> (case j_str v of Some s \<Rightarrow> s | None \<Rightarrow> ''default'')
            | None \<Rightarrow> get_str_or ''default'' ''room_id'' (sm_payload msg));
          session_id = (if starts_with ''game:'' room then room else ''game:'' @ room)
      in reading (\<lambda>st. if \<not> is_trusted (sm_sender msg) (nd_peers st) then skip
        else steps [on_relay (join_game_session (sm_sender msg) session_id),
          send_signed (sm_sender msg) GameRelayJoined (jobj [(''room'', VStr room), (''session_id'', VStr session_id), (''accepted'', VBool True)])]))"

definition handle_punch_register :: "node_env \<Rightarrow> signaling_message \<Rightarrow> 'm act" where
  "handle_punch_register E msg =
     (let target = get_str_or [] ''target_peer'' (sm_payload msg); endpoint = get_str_or [] ''sender_endpoint'' (sm_payload msg)
      in if target = [] \<or> endpoint = [] then skip else handle_punch_register_msg E (sm_sender msg) target endpoint)"

definition handle_relay_request :: "node_env \<Rightarrow> signaling_message \<Rightarrow> 'm act" where
  "handle_relay_request E msg =
     reading (\<lambda>st.
       let trusted = is_trusted (sm_sender msg) (nd_peers st);
           room_authorized = (case sn_sfu (nd_rooms st) of None \<Rightarrow> False | Some m \<Rightarrow> is_room_authorized_peer (sm_sender msg) m)
       in if trusted \<or> room_authorized
          then (if room_authorized \<and> \<not> trusted then ensure_relay_for_room_guest E (sm_sender msg) else issue_ticket_for_access_state E (sm_sender msg))
          else skip)"

definition relay_to_payload_target :: "signaling_message \<Rightarrow> string \<Rightarrow> 'm act" where
  "relay_to_payload_target msg raw = (case get_str ''target'' (sm_payload msg) of None \<Rightarrow> skip | Some t \<Rightarrow> emit [Out_raw t raw])"

section \<open>Dispatch\<close>

definition on_message :: "node_env \<Rightarrow> signaling_message \<Rightarrow> string \<Rightarrow> 'm act" where
  "on_message E msg raw = (case sm_type msg of
     InviteHandshakeInit \<Rightarrow> handle_handshake_init E msg
   | EndpointUpdate \<Rightarrow> on_endpoint_update (sm_sender msg) raw
   | SupernodeInfoRequest \<Rightarrow> reading (\<lambda>st. send_signed (sm_sender msg) SupernodeInfo (supernode_info_payload E st))
   | SfuJoin \<Rightarrow> handle_sfu_join E msg
   | SfuLeave \<Rightarrow> handle_sfu_leave E msg
   | SfuRoomList \<Rightarrow> send_room_list E (sm_sender msg)
   | SfuChat \<Rightarrow> handle_sfu_chat_broadcast E msg raw
   | SfuVideoState \<Rightarrow> handle_sfu_video_state E msg raw
   | SfuVideoKeyframeRequest \<Rightarrow> handle_sfu_video_keyframe_request E msg raw
   | SfuVideoSubscribe \<Rightarrow> handle_sfu_video_subscribe E msg
   | SfuAudio \<Rightarrow> handle_sfu_audio_broadcast E msg raw
   | SfuFileOffer \<Rightarrow> handle_sfu_broadcast E msg raw SfuFileOffer
   | SfuFileRequest \<Rightarrow> handle_sfu_broadcast E msg raw SfuFileRequest
   | SfuFileRevoke \<Rightarrow> handle_sfu_broadcast E msg raw SfuFileRevoke
   | SfuFileChunk \<Rightarrow> handle_sfu_broadcast E msg raw SfuFileChunk
   | SfuFileComplete \<Rightarrow> handle_sfu_broadcast E msg raw SfuFileComplete
   | SfuSubscribe \<Rightarrow> handle_sfu_subscribe E msg
   | SfuUnsubscribe \<Rightarrow> handle_sfu_unsubscribe E msg
   | SfuRoomCreate \<Rightarrow> handle_sfu_room_create E msg
   | SfuRoomInvite \<Rightarrow> handle_sfu_room_invite E msg
   | SfuRoomInviteGenerate \<Rightarrow> handle_sfu_invite_generate E msg
   | SpaceRootAnnounce \<Rightarrow> handle_root_announce E msg
   | PunchRegister \<Rightarrow> handle_punch_register E msg
   | TrustRequest \<Rightarrow> relay_to_payload_target msg raw
   | TrustAccept \<Rightarrow> relay_to_payload_target msg raw
   | CapabilityInvoke \<Rightarrow> relay_to_payload_target msg raw
   | Ping \<Rightarrow> send_signed (sm_sender msg) Pong (jobj [])
   | RelayRequest \<Rightarrow> handle_relay_request E msg
   | GameRelayJoin \<Rightarrow> handle_game_relay_join msg
   | GameRelayLeave \<Rightarrow> on_relay (leave_game_session (sm_sender msg))
   | _ \<Rightarrow> skip)"

definition on_peer_connected :: "node_env \<Rightarrow> peer_id \<Rightarrow> 'm act" where
  "on_peer_connected E p =
     reading (\<lambda>st. if \<not> is_trusted p (nd_peers st) then skip
       else steps [update (\<lambda>s. s\<lparr>nd_peers := touch_peer (ne_time E) p (nd_peers s)\<rparr>),
         on_peer_trusted E p, attest_build E p, send_room_list E p])"

definition on_peer_disconnected :: "node_env \<Rightarrow> peer_id \<Rightarrow> 'm act" where
  "on_peer_disconnected E p =
     steps [update (\<lambda>s. s\<lparr>nd_features := clear_quotas p (nd_features s)\<rparr>),
       with_sfu (\<lambda>m. let (left_rooms, m') = remove_peer_from_all (ne_time E) p m in
         steps ([set_sfu m'] @
           concat (map (\<lambda>r. [peer_left E p r (the (left_rooms r)), broadcast_sfu_members E r]) (ne_iter E (dom left_rooms))) @
           (if dom left_rooms \<noteq> {} then [broadcast_room_list] else [])))]"

section \<open>Frames of the cluster and the relay\<close>

definition once_replicated :: "string \<Rightarrow> 'm act \<Rightarrow> 'm act" where
  "once_replicated message_id k =
     reading (\<lambda>st. let (fresh, seen) = insert_new message_id (nd_seen st)
       in if fresh then steps [update (\<lambda>s. s\<lparr>nd_seen := seen\<rparr>), k] else update (\<lambda>s. s\<lparr>nd_seen := seen\<rparr>))"

definition sender_of_raw :: "node_env \<Rightarrow> string \<Rightarrow> peer_id" where
  "sender_of_raw E raw = (case message_from_json (ne_json E) raw of None \<Rightarrow> [] | Some m \<Rightarrow> sm_sender m)"

definition deliver_replicated_chat :: "node_env \<Rightarrow> room_id \<Rightarrow> string \<Rightarrow> string \<Rightarrow> 'm act" where
  "deliver_replicated_chat E room_id message_id raw =
     once_replicated message_id (with_sfu (\<lambda>m.
       fan_out_raw E ''room.chat.v1'' raw (filter (\<lambda>p. \<not> is_room_frame_author p (sender_of_raw E raw)) (ne_iter E (get_chat_recipients room_id m)))))"

text \<open>One recipient of an audio frame: a datagram when it has a relay connection, else the socket.\<close>

definition send_audio_to :: "node_env \<Rightarrow> bytes \<Rightarrow> string \<Rightarrow> peer_id \<Rightarrow> 'm act" where
  "send_audio_to E fwd raw p =
     reading (\<lambda>st. case nd_relay st of
        None \<Rightarrow> fan_out_raw E ''room.audio.sfu'' raw [p]
      | Some relay \<Rightarrow>
          (case send_feature_datagram (ne_relay E) p ''room.audio.sfu'' fwd (ne_now E) (nd_features st) relay of
             (Some sent, reg) \<Rightarrow> steps [update (\<lambda>s. s\<lparr>nd_features := reg\<rparr>), if sent then emit [Out_datagram p fwd] else skip]
           | (None, reg) \<Rightarrow> fan_out_raw E ''room.audio.sfu'' raw [p]))"

definition deliver_replicated_audio :: "node_env \<Rightarrow> room_id \<Rightarrow> string \<Rightarrow> string \<Rightarrow> 'm act" where
  "deliver_replicated_audio E room_id message_id raw =
     once_replicated message_id (with_sfu (\<lambda>m.
       let recipients = (case get_room room_id m of None \<Rightarrow> {} | Some r \<Rightarrow> participant_ids r);
           fwd = build_forwarded_datagram BROADCAST_INDEX (ROOM_AUDIO_TAG # as_bytes raw)
       in steps (map (send_audio_to E fwd raw) (filter (\<lambda>p. \<not> is_room_frame_author p (sender_of_raw E raw)) (ne_iter E recipients)))))"

definition deliver_replicated_game_datagram :: "node_env \<Rightarrow> room_id \<Rightarrow> string \<Rightarrow> string \<Rightarrow> 'm act" where
  "deliver_replicated_game_datagram E session_id message_id raw =
     once_replicated message_id (reading (\<lambda>st. case (nd_relay st, jl_parse (ne_json E) raw) of
        (Some relay, Some envelope) \<Rightarrow>
          (case Option.bind (get_str ''payload_b64'' envelope) (ne_b64_std_decode E) of
             None \<Rightarrow> skip
           | Some payload \<Rightarrow>
               let sender = get_str_or [] ''sender'' envelope; fwd = build_forwarded_datagram BROADCAST_INDEX payload in
               steps (map (\<lambda>p. reading (\<lambda>s.
                   let (sent, reg) = send_feature_datagram (ne_relay E) p ''game.relay.v1'' fwd (ne_now E) (nd_features s) relay
                   in steps [update (\<lambda>s. s\<lparr>nd_features := reg\<rparr>), if sent = Some True then emit [Out_datagram p fwd] else skip]))
                 (filter (\<lambda>p. bare p \<noteq> bare sender) (ne_iter E (game_session_members relay session_id)))))
      | _ \<Rightarrow> skip))"

definition deliver_replicated_room_frame :: "node_env \<Rightarrow> room_id \<Rightarrow> string \<Rightarrow> string \<Rightarrow> 'm act" where
  "deliver_replicated_room_frame E room_id message_id raw =
     (if starts_with ''game:'' room_id then deliver_replicated_game_datagram E room_id message_id raw
      else if Option.bind (jl_parse (ne_json E) raw) (get_str ''type'') = Some ''sfu_audio'' then deliver_replicated_audio E room_id message_id raw
      else deliver_replicated_chat E room_id message_id raw)"

definition apply_room_roster :: "node_env \<Rightarrow> room_descriptor \<Rightarrow> 'm act" where
  "apply_room_roster E d =
     with_sfu (\<lambda>m. set_sfu (snd (create_room_with_policy (sha256_hex (ne_crates E)) (ne_time E) (Some (rd_room_id d)) (rd_room_name d)
       (if rd_room_type d = ''public'' then Public else Private) (rd_creator_id d) (rd_invite_policy d) m)))"

definition on_link_callback :: "node_env \<Rightarrow> link_callback \<Rightarrow> 'm act" where
  "on_link_callback E cb = (case cb of
     OnReplicate room_id message_id raw \<Rightarrow> deliver_replicated_room_frame E room_id message_id raw
   | OnRoomRoster d \<Rightarrow> apply_room_roster E d
   | OnPeerAuth p handle direct \<Rightarrow> apply_peer_auth E p handle direct
   | OnSpaceRoot r \<Rightarrow> update (\<lambda>s. s\<lparr>nd_rooms := (nd_rooms s)\<lparr>sn_roots := snd (accept_root (ne_crates E) r (sn_roots (nd_rooms s)))\<rparr>\<rparr>))"

definition replicate_game_datagram :: "node_env \<Rightarrow> string \<Rightarrow> peer_id \<Rightarrow> bytes \<Rightarrow> 'm act" where
  "replicate_game_datagram E session_id sender payload =
     reading (\<lambda>st. if \<not> nd_linked st then skip
       else let message_id = ''game:'' @ node_id E st @ '':'' @ show_nat (unat (nd_game_seq st));
                raw = jl_print (ne_json E) (bt_of [(''type'', VStr ''game_relay_datagram''), (''sender'', VStr sender), (''session_id'', VStr session_id),
                  (''message_id'', VStr message_id), (''payload_b64'', VStr (ne_b64_std E payload))] [])
            in steps [update (\<lambda>s. s\<lparr>nd_game_seq := nd_game_seq s + 1\<rparr>), emit [Out_replicate session_id message_id raw]])"

text \<open>The bridge for audio datagrams of relay peers.\<close>

definition room_audio_bridge :: "node_env \<Rightarrow> peer_id \<Rightarrow> u8 \<Rightarrow> room_id \<Rightarrow> bytes \<Rightarrow> 'm act" where
  "room_audio_bridge E from_peer0 sender_index room_id inner =
     with_sfu (\<lambda>m. reading (\<lambda>st. case (nd_relay st, from_utf8 (tl inner)) of
        (Some _, Some raw) \<Rightarrow>
          let fwd = build_forwarded_datagram sender_index inner; from_peer = pad_base64url from_peer0;
              (targets, m') = audio_forward_targets room_id from_peer (ne_time E) m
          in steps [set_sfu m',
            case targets of
              None \<Rightarrow> skip
            | Some members \<Rightarrow> steps [
                steps (map (send_audio_to E fwd raw) (filter (\<lambda>p. p \<noteq> from_peer) (ne_iter E members))),
                case message_from_json (ne_json E) raw of None \<Rightarrow> skip | Some parsed \<Rightarrow> replicate_room_audio room_id parsed raw]]
      | _ \<Rightarrow> skip))"

section \<open>Timers\<close>

definition gc_tick :: "node_env \<Rightarrow> 'm act" where
  "gc_tick E = with_sfu (\<lambda>m. let (removed, m') = gc_idle_rooms (ne_time E) IDLE_ROOM_GC_SECS m in
     steps [set_sfu m', if removed \<noteq> {} then broadcast_room_list else skip])"

definition room_list_tick :: "node_env \<Rightarrow> 'm act" where
  "room_list_tick E = reading (\<lambda>st. if nd_dirty st then steps [update (\<lambda>s. s\<lparr>nd_dirty := False\<rparr>), broadcast_room_list_now E] else skip)"

section \<open>The signaling stream of a relay peer\<close>

definition canonical_peer_id :: "(string \<Rightarrow> bytes option) \<Rightarrow> (bytes \<Rightarrow> string) \<Rightarrow> string \<Rightarrow> peer_id" where
  "canonical_peer_id decode_nopad encode_pad relay_cn = (case decode_nopad relay_cn of None \<Rightarrow> relay_cn | Some b \<Rightarrow> encode_pad b)"

definition stream_type :: "message_type \<Rightarrow> bool" where
  "stream_type mt \<longleftrightarrow> mt \<in> {SfuChat, SfuFileOffer, SfuFileRequest, SfuFileRevoke, SfuFileChunk, SfuFileComplete, SfuVideoSubscribe}"

text \<open>One frame of the stream; pacing of bulk file data is in the theory \<open>Signaling\<close>.\<close>

definition relay_stream_frame :: "node_env \<Rightarrow> peer_id \<Rightarrow> bytes \<Rightarrow> replay_guard \<Rightarrow> 'm node \<Rightarrow> node_out list \<times> replay_guard \<times> 'm node" where
  "relay_stream_frame E stream_peer buf g st =
     (case from_utf8 buf of
        None \<Rightarrow> ([], g, st)
      | Some raw \<Rightarrow>
          (case accept_signed (ne_json E) (ne_crates E) (ne_unix E) (ne_now E) raw g of
             (None, g') \<Rightarrow> ([], g', st)
           | (Some msg, g') \<Rightarrow>
               if sm_sender msg \<noteq> stream_peer \<or> \<not> stream_type (sm_type msg) then ([], g', st)
               else let (outs, st') = on_message E msg raw st in (outs, g', st')))"

section \<open>Sockets and relay connections\<close>

text \<open>What the signaling server and the relay hand to the node, and their states inside it.\<close>

definition on_sig_out :: "node_env \<Rightarrow> sig_out \<Rightarrow> 'm act" where
  "on_sig_out E out = (case out of
     OnPeerConnected p \<Rightarrow> on_peer_connected E p
   | RelayTo tx raw \<Rightarrow> emit [Out_socket tx raw]
   | OnMessage msg raw \<Rightarrow> on_message E msg raw
   | OnPeerDisconnected p \<Rightarrow> on_peer_disconnected E p)"

definition socket_frame :: "node_env \<Rightarrow> sig_clock \<Rightarrow> string \<Rightarrow> ws_conn \<Rightarrow> replay_guard \<Rightarrow> 'm node \<Rightarrow>
    node_out list \<times> ws_conn \<times> replay_guard \<times> 'm node" where
  "socket_frame E ck raw conn g st =
     (let (souts, conn', g', sig) = ws_step (ne_json E) (ne_crates E) (node_id E st) ck raw conn g (nd_sig st);
          (outs, st') = steps (map (on_sig_out E) souts) (st\<lparr>nd_sig := sig\<rparr>)
      in (outs, conn', g', st'))"

definition socket_close :: "node_env \<Rightarrow> ws_conn \<Rightarrow> replay_guard \<Rightarrow> 'm node \<Rightarrow> node_out list \<times> replay_guard \<times> 'm node" where
  "socket_close E conn g st =
     (let (souts, g', sig) = ws_close conn g (nd_sig st);
          (outs, st') = steps (map (on_sig_out E) souts) (st\<lparr>nd_sig := sig\<rparr>)
      in (outs, g', st'))"

definition on_relay_out :: "node_env \<Rightarrow> relay_out \<Rightarrow> 'm act" where
  "on_relay_out E out = (case out of
     Sent p fwd \<Rightarrow> emit [Out_datagram p fwd]
   | AudioBridge p i room_id inner \<Rightarrow> room_audio_bridge E p i room_id inner
   | GameBridge session_id p payload \<Rightarrow> replicate_game_datagram E session_id p payload)"

definition relay_datagram :: "node_env \<Rightarrow> peer_id \<Rightarrow> bytes \<Rightarrow> 'm act" where
  "relay_datagram E p data =
     reading (\<lambda>st. case nd_relay st of
        None \<Rightarrow> skip
      | Some relay \<Rightarrow>
          let (outs, reg, relay') = on_datagram (ne_relay E) p data (ne_now E) (nd_features st) relay
          in steps (update (\<lambda>s. s\<lparr>nd_relay := Some relay', nd_features := reg\<rparr>) # map (on_relay_out E) outs))"

definition relay_connected :: "node_env \<Rightarrow> peer_id \<Rightarrow> nat \<Rightarrow> 'm act" where
  "relay_connected E p conn =
     update (\<lambda>s. case nd_relay s of
        None \<Rightarrow> s
      | Some relay \<Rightarrow>
          (case relay_connect (ne_relay E) p conn (nd_features s) relay of
             None \<Rightarrow> s
           | Some (_, reg, relay') \<Rightarrow> s\<lparr>nd_relay := Some relay', nd_features := reg\<rparr>))"

definition on_relay_and_features :: "('m feature_registry \<Rightarrow> relay_state \<Rightarrow> 'm feature_registry \<times> relay_state) \<Rightarrow> 'm act" where
  "on_relay_and_features f =
     update (\<lambda>s. case nd_relay s of
        None \<Rightarrow> s
      | Some relay \<Rightarrow> let (reg, relay') = f (nd_features s) relay in s\<lparr>nd_relay := Some relay', nd_features := reg\<rparr>)"

definition relay_closed :: "node_env \<Rightarrow> peer_id \<Rightarrow> nat \<Rightarrow> 'm act" where
  "relay_closed E p conn = on_relay_and_features (relay_disconnect p conn)"

definition relay_cleanup :: "node_env \<Rightarrow> 'm act" where
  "relay_cleanup E = on_relay_and_features (cleanup_stale_peers (ne_relay E))"

section \<open>What the node tells a new cluster link\<close>

definition local_rooms :: "'m node \<Rightarrow> string set" where
  "local_rooms st =
     (case sn_sfu (nd_rooms st) of None \<Rightarrow> {} | Some m \<Rightarrow> subscribed_room_ids m) \<union>
     (case nd_relay st of None \<Rightarrow> {} | Some relay \<Rightarrow> active_game_sessions relay)"

definition local_room_roster :: "'m node \<Rightarrow> room_descriptor set" where
  "local_room_roster st =
     (case sn_sfu (nd_rooms st) of
        None \<Rightarrow> {}
      | Some m \<Rightarrow> (\<lambda>(i, nm, ty, c, pol). \<lparr>rd_room_id = i, rd_room_name = nm, rd_room_type = room_type_name ty, rd_creator_id = c,
          rd_invite_policy = pol\<rparr>) ` durable_room_descriptors m)"

definition local_peer_auth_roster :: "'m node \<Rightarrow> peer_auth_descriptor set" where
  "local_peer_auth_roster st =
     (\<lambda>p. \<lparr>pa_identity_pub = pr_identity_pub p, pa_handle = pr_handle p, pa_direct_invite = is_direct_invite_transcript (pr_transcript_hash p)\<rparr>) `
       {p \<in> all_peers (nd_peers st). \<not> pr_revoked p \<and> \<not> pr_blocked p}"

section \<open>Start\<close>

definition REPLICATION_SEEN_CAP :: nat where "REPLICATION_SEEN_CAP = 16384"

text \<open>The state \<open>main\<close> builds: relay and SFU by configuration, the mailbox as loaded, everything else empty.\<close>

definition new_node :: "identity \<Rightarrow> peer_store \<Rightarrow> handshake_manager \<Rightarrow> bool \<Rightarrow> bool \<Rightarrow> access_mode \<Rightarrow> string \<Rightarrow>
    (peer_id \<rightharpoonup> string) \<Rightarrow> 'm feature_registry \<Rightarrow> bool \<Rightarrow> 'm node" where
  "new_node i peers hs with_relay sfu_enabled mode code mailbox features linked =
     \<lparr>nd_identity = i, nd_peers = peers, nd_handshake = hs, nd_relay = (if with_relay then Some new_relay else None),
      nd_rooms = \<lparr>sn_roots = new_root_store, sn_sfu = (if sfu_enabled then Some new_manager else None)\<rparr>,
      nd_sig = new_sig_state, nd_access = create_access_controller mode code, nd_tickets = Map.empty, nd_mailbox = mailbox,
      nd_punches = Map.empty, nd_features = features, nd_seen = new_seen REPLICATION_SEEN_CAP, nd_linked = linked, nd_dirty = False,
      nd_game_seq = 0\<rparr>"

end
