(* ===== verification/Node_Safety.thy ===== *)
theory Node_Safety
  imports Node_Rooms
begin

text \<open>
  The supernode as one transition system: every message of a peer, frame of a cluster member, relay
  datagram, connection event and timer is a step on the state of the theory \<open>Node\<close>. The invariants of
  the components hold in the composed node, the access gate holds for everything the node allows and
  every ticket it sends, and room frames stay in their room.
\<close>

section \<open>What the components keep\<close>

subsection \<open>Relay\<close>

text \<open>
  The relay inside the node: consistent, open to peers that passed the gate only (unless the node is
  open), with bounded video subscriptions.
\<close>

definition relay_fine :: "access_controller \<Rightarrow> relay_state \<Rightarrow> bool" where
  "relay_fine a r \<longleftrightarrow> relay_ok r \<and> (ac_mode a \<noteq> Open \<longrightarrow> ra_allowed r \<subseteq> strip ` ac_granted a) \<and>
     (\<forall>p S. ra_video_subs r p = Some S \<longrightarrow> finite S \<and> card S \<le> MAX_VIDEO_SUBSCRIPTIONS)"

lemma relay_fine_same:
  assumes "relay_fine a r" "relay_ok r'" "ra_allowed r' \<subseteq> ra_allowed r"
    and "\<And>p. ra_video_subs r' p = None \<or> ra_video_subs r' p = ra_video_subs r p"
  shows "relay_fine a r'"
  using assms unfolding relay_fine_def by (metis option.distinct(1) subset_trans)

lemma relay_fine_ok: "relay_fine a r \<Longrightarrow> relay_ok r"
  by (simp add: relay_fine_def)

lemma remove_peer_access [simp]:
  "ra_allowed (remove_peer p r) = ra_allowed r"
  "ra_video_subs (remove_peer p r) = (ra_video_subs r)(normalize_public_id p := None)"
  by (simp_all add: remove_peer_def Let_def split: option.split)

lemma relay_fine_remove: "relay_fine a r \<Longrightarrow> relay_fine a (remove_peer p r)"
  by (rule relay_fine_same) (auto simp: relay_fine_ok relay_ok_remove)

lemma membership_access:
  "ra_allowed (relay_join_room p i r) = ra_allowed r" "ra_video_subs (relay_join_room p i r) = ra_video_subs r"
  "ra_allowed (relay_leave_room p r) = ra_allowed r" "ra_video_subs (relay_leave_room p r) = ra_video_subs r"
  "ra_allowed (join_game_session p s r) = ra_allowed r" "ra_video_subs (join_game_session p s r) = ra_video_subs r"
  "ra_allowed (leave_game_session p r) = ra_allowed r" "ra_video_subs (leave_game_session p r) = ra_video_subs r"
  "ra_allowed (allow_portal_peer p r) = ra_allowed r" "ra_video_subs (allow_portal_peer p r) = ra_video_subs r"
  by (simp_all add: relay_join_room_def relay_leave_room_def join_game_session_def leave_game_session_def allow_portal_peer_def
      Let_def split: option.split)

lemma relay_fine_ops:
  assumes "relay_fine a r"
  shows "relay_fine a (relay_join_room p i r)" "relay_fine a (relay_leave_room p r)"
    "relay_fine a (join_game_session p s r)" "relay_fine a (leave_game_session p r)" "relay_fine a (allow_portal_peer p r)"
proof -
  have "relay_ok (allow_portal_peer p r)" using relay_fine_ok [OF assms] by (simp add: allow_portal_peer_def relay_ok_access)
  then show "relay_fine a (relay_join_room p i r)" "relay_fine a (relay_leave_room p r)"
    "relay_fine a (join_game_session p s r)" "relay_fine a (leave_game_session p r)" "relay_fine a (allow_portal_peer p r)"
    by (intro relay_fine_same [OF assms] relay_ok_join relay_ok_leave relay_ok_join_game relay_ok_leave_game relay_fine_ok [OF assms];
        simp add: membership_access)+
qed

lemma relay_fine_revoke: "relay_fine a r \<Longrightarrow> relay_fine a (snd (relay_revoke_peer p reg r))"
  by (rule relay_fine_same) (auto simp: relay_revoke_peer_def relay_fine_ok relay_ok_remove relay_ok_access)

lemma relay_fine_allow:
  assumes "relay_fine a r" "ac_mode a \<noteq> Open \<longrightarrow> p \<in> ac_granted a"
  shows "relay_fine a (relay_allow_peer p r)" "relay_fine a (allow_peer_update p r)"
  using assms by (auto simp: relay_fine_def relay_allow_peer_def allow_peer_update_def relay_ok_access)

lemma relay_fine_subs:
  assumes "relay_fine a r" "length senders \<le> MAX_VIDEO_SUBSCRIPTIONS"
  shows "relay_fine a (set_video_subscriptions p senders r)"
proof -
  have "card (normalize_public_id ` set senders) \<le> MAX_VIDEO_SUBSCRIPTIONS"
    using card_image_le [of "set senders" normalize_public_id] card_length [of senders] assms(2) by simp
  then show ?thesis using assms(1) by (auto simp: relay_fine_def set_video_subscriptions_def relay_ok_access)
qed

lemma allocate_access:
  "allocate_index r = Some (i, r') \<Longrightarrow> ra_allowed r' = ra_allowed r \<and> ra_video_subs r' = ra_video_subs r"
  by (auto simp: allocate_index_def split: option.splits)

lemma evict_access [simp]: "ra_allowed (evict_old p r) = ra_allowed r" "ra_video_subs (evict_old p r) = ra_video_subs r"
  by (simp_all add: evict_old_def split: option.split)

lemma relay_fine_connect:
  assumes "relay_fine a r" "env_ok env" "relay_connect env p c reg r = Some (res, reg', r')"
  shows "relay_fine a r'"
proof (rule relay_fine_same [OF assms(1)])
  show "relay_ok r'" using relay_connect_ok [OF relay_fine_ok [OF assms(1)] assms(2,3)] .
  have "ra_allowed r' = ra_allowed r \<and> ra_video_subs r' = ra_video_subs r"
    using assms(3) unfolding relay_connect_eq Let_def
    by (auto split: if_splits option.splits dest!: allocate_access)
  then show "ra_allowed r' \<subseteq> ra_allowed r" "ra_video_subs r' q = None \<or> ra_video_subs r' q = ra_video_subs r q" for q
    by simp_all
qed

lemma relay_fine_disconnect: "relay_fine a r \<Longrightarrow> relay_fine a (snd (relay_disconnect p c reg r))"
  by (simp add: relay_disconnect_def relay_fine_remove split: option.split)

lemma relay_fine_remove_all: "relay_fine a r \<Longrightarrow> relay_fine a (snd (remove_all ps reg r))"
  by (induction ps arbitrary: reg r) (simp_all add: relay_fine_remove)

lemma relay_fine_cleanup: "relay_fine a r \<Longrightarrow> relay_fine a (snd (cleanup_stale_peers env reg r))"
  by (simp add: cleanup_stale_peers_def Let_def relay_fine_remove_all)

lemma relay_fine_datagram:
  assumes "relay_fine a r"
  shows "relay_fine a (snd (snd (on_datagram env p data now reg r)))"
proof (rule relay_fine_same [OF assms])
  have add: "ra_allowed (add_relayed p n r) = ra_allowed r" "ra_video_subs (add_relayed p n r) = ra_video_subs r" for n
    by (simp_all add: add_relayed_def)
  have audio: "ra_allowed (snd (audio_bridge_step env p rp payload r)) = ra_allowed r"
    "ra_video_subs (snd (audio_bridge_step env p rp payload r)) = ra_video_subs r" for rp payload
    by (simp_all add: audio_bridge_step_def Let_def heal_room_def split: option.split)
  have "ra_allowed (snd (snd (handle_datagram env p data now reg r))) = ra_allowed r \<and>
      ra_video_subs (snd (snd (handle_datagram env p data now reg r))) = ra_video_subs r"
  proof (cases rule: handle_datagram_cases [of env p data now reg r])
    case (2 t payload rp reg')
    show ?thesis
      using forward_datagram_state [of env "fst (relay_datagram_feature payload)" t payload p rp now reg' r]
      unfolding 2(3) by (metis add audio)
  qed simp
  then show "ra_allowed (snd (snd (on_datagram env p data now reg r))) \<subseteq> ra_allowed r"
    "ra_video_subs (snd (snd (on_datagram env p data now reg r))) q = None \<or>
     ra_video_subs (snd (snd (on_datagram env p data now reg r))) q = ra_video_subs r q" for q
    by (simp_all add: on_datagram_def)
  show "relay_ok (snd (snd (on_datagram env p data now reg r)))" by (rule relay_ok_datagram) (rule relay_fine_ok [OF assms])
qed

subsection \<open>Features\<close>

lemma registry_gate: "registry_reachable reg \<Longrightarrow> registry_reachable (snd (gate_through_feature fid p n now reg))"
  "registry_reachable reg \<Longrightarrow> registry_reachable (snd (gate_inbound_through_feature fid p n now reg))"
  by (blast intro: registry_reachable.step registry_step.gate_out registry_step.gate_in)+

lemma registry_clear: "registry_reachable reg \<Longrightarrow> registry_reachable (clear_quotas p reg)"
  unfolding clear_quotas_def by (blast intro: registry_reachable.step registry_step.clear registry_step.clear_out)

lemma registry_try_forward:
  "registry_reachable reg \<Longrightarrow> registry_reachable (snd (try_forward_datagram env fid p fwd rp now reg))"
  by (simp add: try_forward_datagram_def case_prod_beta Let_def registry_gate)

lemma registry_fan_out:
  "registry_reachable reg \<Longrightarrow> registry_reachable (snd (snd (fan_out env fid fwd want peers now qs reg)))"
proof (induction qs arbitrary: reg)
  case (Cons q qs)
  then show ?case using registry_try_forward [OF Cons.prems]
    by (simp add: case_prod_beta Let_def split: option.split)
qed simp

lemma registry_forward:
  assumes "registry_reachable reg"
  shows "registry_reachable (fst (snd (forward_datagram env fid t payload p rp now reg r)))"
proof -
  have "registry_reachable (snd (snd (room_broadcast env fid fwd p rp now reg r)))" for fwd
    using assms by (simp add: room_broadcast_def registry_fan_out split: option.split)
  moreover have "registry_reachable (snd (snd (point_to_point env fid fwd rp t now reg r)))" for fwd
    using registry_try_forward [OF assms] by (simp add: assms point_to_point_def case_prod_beta Let_def split: option.split)
  ultimately show ?thesis
    using assms registry_fan_out [OF assms]
    by (cases "t = BROADCAST_INDEX \<and> fid = ''room.audio.sfu'' \<and> re_audio_bridge env";
        cases "if t = BROADCAST_INDEX \<and> fid = ''game.relay.v1'' then active_session r p else None")
       (auto simp: forward_datagram_def Let_def case_prod_beta)
qed

lemma registry_datagram:
  assumes "registry_reachable reg"
  shows "registry_reachable (fst (snd (on_datagram env p data now reg r)))"
proof -
  have g: "registry_reachable (snd (gate_inbound_through_feature fid p n now reg))" for fid n
    using assms by (rule registry_gate)
  have "registry_reachable (fst (snd (handle_datagram env p data now reg r)))"
    unfolding handle_datagram_def
    by (auto simp: Let_def case_prod_beta assms g registry_forward split: option.split)
  with assms show ?thesis by (simp add: on_datagram_def)
qed

lemma registry_send_feature:
  "registry_reachable reg \<Longrightarrow> registry_reachable (snd (send_feature_datagram env p fid fwd now reg r))"
  using registry_try_forward [of reg env fid "strip p" fwd]
  by (auto simp: send_feature_datagram_def Let_def case_prod_beta split: option.split)

lemma registry_remove_all: "registry_reachable reg \<Longrightarrow> registry_reachable (fst (remove_all ps reg r))"
  by (induction ps arbitrary: reg r) (simp_all add: registry_clear)

lemma registry_relay:
  assumes "registry_reachable reg"
  shows "registry_reachable (fst (relay_revoke_peer p reg r))" "registry_reachable (fst (relay_disconnect p c reg r))"
    "registry_reachable (fst (cleanup_stale_peers env reg r))"
    "relay_connect env p c reg r = Some (res, reg', r') \<Longrightarrow> registry_reachable reg'"
  using assms
  by (auto simp: relay_revoke_peer_def relay_disconnect_def cleanup_stale_peers_def relay_connect_eq Let_def registry_clear
      registry_remove_all split: option.splits if_splits)

subsection \<open>Rooms\<close>

definition rooms_fine :: "crates \<Rightarrow> supernode_rooms \<Rightarrow> bool" where
  "rooms_fine C st \<longleftrightarrow> (\<forall>m. sn_sfu st = Some m \<longrightarrow> sfu_reachable m) \<and> roots_ok C UNIV (sn_roots st)"

lemma sfu_reachable_ops [intro]:
  assumes "sfu_reachable m"
  shows "sfu_reachable (snd (create_room_with_policy sha now ri nm ty c pol m))" "sfu_reachable (snd (gc_idle_rooms now idle m))"
    "sfu_reachable (snd (join_room p i m))" "sfu_reachable (snd (leave_room now p i m))"
    "sfu_reachable (snd (remove_peer_from_all now p m))" "sfu_reachable (snd (audio_forward_targets i p now m))"
    "sfu_reachable (snd (subscribe p i m))" "sfu_reachable (unsubscribe now p i m)" "sfu_reachable (snd (validate_room_invite i tok p m))"
    "sfu_reachable (snd (allow_peer i p m))" "sfu_reachable (snd (adopt_creator_if_empty i p m))"
    "sfu_reachable (snd (mint_invite_token nonce i p m))" "sfu_reachable (snd (generate_invite_token_checked nonce i p m))"
    "sfu_reachable (snd (reregister_room_token i tok p m))"
  by (rule sfu_reachable.step [OF assms], rule sfu_step.intros)+

lemma sfu_reachable_create: "sfu_reachable m \<Longrightarrow> sfu_reachable (snd (create_room sha now ri nm ty c m))"
  unfolding create_room_def by (rule sfu_reachable_ops)

lemma roots_ok_accept: "roots_ok C UNIV s \<Longrightarrow> roots_ok C UNIV (snd (accept_root C r s))"
  using roots_ok_accept_all [of C UNIV s "[r]"] by simp

lemma rooms_fine_gossip: "rooms_fine C st \<Longrightarrow> rooms_fine C (snd (snd (accept_and_gossip_space_root C r st)))"
  by (simp add: rooms_fine_def accept_and_gossip_space_root_def case_prod_beta Let_def roots_ok_accept)

lemma rooms_fine_materialize: "rooms_fine C st \<Longrightarrow> rooms_fine C (materialize_node C' clock i node st)"
  by (auto simp: rooms_fine_def materialize_node_def Let_def split: option.split)

lemma rooms_fine_local_allow: "rooms_fine C st \<Longrightarrow> rooms_fine C (local_allow_room_peer C' clock i nm ty p st)"
  using sfu_reachable_create by (auto simp: rooms_fine_def local_allow_room_peer_def Let_def split: option.split)

lemma rooms_fine_admission:
  assumes "rooms_fine C st"
  shows "rooms_fine C (snd (snd (try_space_admission C clock now sender i payload st)))"
  using rooms_fine_gossip [OF assms]
  by (auto simp: try_space_admission_def Let_def case_prod_beta assms rooms_fine_materialize rooms_fine_local_allow
      split: option.split)

lemma rooms_fine_sfu: "rooms_fine C st \<Longrightarrow> sfu_reachable m \<Longrightarrow> rooms_fine C (st\<lparr>sn_sfu := Some m\<rparr>)"
  by (simp add: rooms_fine_def)

lemma rooms_fineD: "rooms_fine C st \<Longrightarrow> sn_sfu st = Some m \<Longrightarrow> sfu_reachable m"
  by (simp add: rooms_fine_def)

lemma admission_sfu:
  "(sn_sfu (snd (snd (try_space_admission C clock now sender i payload st))) = None) = (sn_sfu st = None)"
  by (auto simp: try_space_admission_def Let_def case_prod_beta accept_and_gossip_space_root_def materialize_node_def
      local_allow_room_peer_def split: option.splits)

lemma rooms_fine_join:
  assumes "rooms_fine C st"
  shows "rooms_fine C (snd (sfu_join_membership C clock now sender i payload st))"
proof (cases "sn_sfu st")
  case (Some m0)
  let ?t = "snd (snd (try_space_admission C clock now sender i payload st))"
  have t: "rooms_fine C ?t" using assms by (rule rooms_fine_admission)
  obtain m where m: "sn_sfu ?t = Some m" using admission_sfu [of C clock now sender i payload st] Some by auto
  have "sfu_reachable m" using t m by (rule rooms_fineD)
  with Some m t show ?thesis
    by (auto simp: sfu_join_membership_def Let_def case_prod_beta intro!: rooms_fine_sfu)
qed (simp add: sfu_join_membership_def assms)

lemma rooms_fine_invite:
  assumes "rooms_fine C st"
  shows "rooms_fine C (snd (sfu_room_invite_valid C clock now sender i payload st))"
proof (cases "sn_sfu st")
  case (Some m0)
  let ?t = "snd (snd (try_space_admission C clock now sender i payload st))"
  have t: "rooms_fine C ?t" using assms by (rule rooms_fine_admission)
  obtain m where m: "sn_sfu ?t = Some m" using admission_sfu [of C clock now sender i payload st] Some by auto
  have "sfu_reachable m" using t m by (rule rooms_fineD)
  with Some m t show ?thesis
    by (auto simp: sfu_room_invite_valid_def Let_def case_prod_beta intro!: rooms_fine_sfu)
qed (simp add: sfu_room_invite_valid_def assms)

lemma rooms_fine_announce:
  "rooms_fine C st \<Longrightarrow> rooms_fine C (snd (handle_space_root_announce C sender r st))"
  using rooms_fine_gossip by (auto simp: handle_space_root_announce_def split: option.split)

lemma readmit_reachable:
  assumes "sfu_reachable m"
  shows "sfu_reachable (snd (readmit_creator E sender creator token room created m))"
  unfolding readmit_creator_def Let_def case_prod_beta
  by (auto intro!: sfu_reachable_ops assms simp: assms)

section \<open>The invariant of the node\<close>

text \<open>A pending hole punch is filed under an ordered pair and has the endpoint of exactly one of the two.\<close>

definition punches_fine :: "(peer_id \<times> peer_id \<rightharpoonup> punch_registration) \<Rightarrow> bool" where
  "punches_fine P \<longleftrightarrow> (\<forall>k e. P k = Some e \<longrightarrow> fst k < snd k \<and> (\<exists>p \<in> {fst k, snd k}. dom (pu_endpoints e) = {p}))"

definition node_ok :: "crates \<Rightarrow> 'm node \<Rightarrow> bool" where
  "node_ok C st \<longleftrightarrow> rooms_fine C (nd_rooms st) \<and> (\<forall>r. nd_relay st = Some r \<longrightarrow> relay_fine (nd_access st) r) \<and>
     registry_reachable (nd_features st) \<and> sig_ok C (nd_sig st) \<and> punches_fine (nd_punches st) \<and>
     seen_ok (nd_seen st) \<and> sc_cap (nd_seen st) = REPLICATION_SEEN_CAP"

text \<open>The mode never changes, grants are never taken back, and only those of \<open>G\<close> are added.\<close>

definition grows :: "peer_id set \<Rightarrow> 'm node \<Rightarrow> 'm node \<Rightarrow> bool" where
  "grows G s t \<longleftrightarrow> ac_mode (nd_access t) = ac_mode (nd_access s) \<and> ac_granted (nd_access s) \<subseteq> ac_granted (nd_access t) \<and>
     ac_granted (nd_access t) \<subseteq> ac_granted (nd_access s) \<union> G"

definition full_ticket :: "jvalue \<Rightarrow> bool" where
  "full_ticket v \<longleftrightarrow> jget ''portal_only'' v \<noteq> Some (VBool True)"

definition ticket_allowed :: "'m node \<Rightarrow> node_out \<Rightarrow> bool" where
  "ticket_allowed st e = (case e of
     Out_signed p t v \<Rightarrow> t = RelayGranted \<and> full_ticket v \<and> ac_mode (nd_access st) \<noteq> Open \<longrightarrow> p \<in> ac_granted (nd_access st)
   | _ \<Rightarrow> True)"

interpretation nd: growing_actions "node_ok C" "grows G" ticket_allowed for C G
  by unfold_locales (auto simp: grows_def ticket_allowed_def split: node_out.splits)

abbreviation noderuns :: "crates \<Rightarrow> peer_id set \<Rightarrow> 'm node \<Rightarrow> 'm act \<Rightarrow> bool" where
  "noderuns \<equiv> nd.runs"

named_theorems node_runs \<open>handlers that keep the invariant of the node and send allowed tickets only\<close>

lemmas [node_runs] = nd.runs_skip nd.runs_reading nd.runs_Nil nd.runs_Cons

lemma node_ok_fields [simp]:
  "node_ok C (s\<lparr>nd_peers := a\<rparr>) = node_ok C s" "node_ok C (s\<lparr>nd_tickets := b\<rparr>) = node_ok C s"
  "node_ok C (s\<lparr>nd_mailbox := c\<rparr>) = node_ok C s" "node_ok C (s\<lparr>nd_dirty := d\<rparr>) = node_ok C s"
  "node_ok C (s\<lparr>nd_game_seq := e\<rparr>) = node_ok C s"
  by (simp_all add: node_ok_def)

lemma grows_fields [simp]:
  "grows G s (s\<lparr>nd_peers := a\<rparr>)" "grows G s (s\<lparr>nd_tickets := b\<rparr>)" "grows G s (s\<lparr>nd_mailbox := c\<rparr>)" "grows G s (s\<lparr>nd_dirty := d\<rparr>)"
  "grows G s (s\<lparr>nd_game_seq := e\<rparr>)" "grows G s (s\<lparr>nd_relay := f\<rparr>)" "grows G s (s\<lparr>nd_rooms := g\<rparr>)" "grows G s (s\<lparr>nd_features := h\<rparr>)"
  "grows G s (s\<lparr>nd_sig := i\<rparr>)" "grows G s (s\<lparr>nd_punches := j\<rparr>)" "grows G s (s\<lparr>nd_seen := k\<rparr>)" "grows G s (s\<lparr>nd_relay := f, nd_features := h\<rparr>)"
  "grows G s s"
  by (simp_all add: grows_def)

lemma relay_fine_grows: "relay_fine (nd_access s) r \<Longrightarrow> grows G s t \<Longrightarrow> relay_fine (nd_access t) r"
  unfolding relay_fine_def grows_def by (metis image_mono subset_trans)

lemma node_okD:
  assumes "node_ok C s"
  shows "rooms_fine C (nd_rooms s)" "nd_relay s = Some r \<Longrightarrow> relay_fine (nd_access s) r" "registry_reachable (nd_features s)"
    "sig_ok C (nd_sig s)" "punches_fine (nd_punches s)" "seen_ok (nd_seen s)" "sc_cap (nd_seen s) = REPLICATION_SEEN_CAP"
  using assms by (simp_all add: node_ok_def)

lemma runs_update_free:
  assumes "\<And>s. grows G s (f s)" "\<And>s. node_ok C s \<Longrightarrow> node_ok C (f s)"
  shows "noderuns C G s0 (update f)"
  by (rule nd.runs_update) (use assms in blast)

lemma runs_update_fields [node_runs]:
  "noderuns C G s0 (update (\<lambda>s. s\<lparr>nd_peers := a s\<rparr>))" "noderuns C G s0 (update (\<lambda>s. s\<lparr>nd_tickets := b s\<rparr>))"
  "noderuns C G s0 (update (\<lambda>s. s\<lparr>nd_mailbox := c s\<rparr>))" "noderuns C G s0 (update (\<lambda>s. s\<lparr>nd_dirty := d\<rparr>))"
  "noderuns C G s0 (update (\<lambda>s. s\<lparr>nd_game_seq := e s\<rparr>))"
  by (rule runs_update_free; simp)+

lemma runs_update_features [node_runs]:
  "registry_reachable reg \<Longrightarrow> noderuns C G s0 (update (\<lambda>s. s\<lparr>nd_features := reg\<rparr>))"
  by (rule runs_update_free) (simp_all add: node_ok_def)

lemma runs_update_rooms [node_runs]:
  "rooms_fine C rooms \<Longrightarrow> noderuns C G s0 (update (\<lambda>s. s\<lparr>nd_rooms := rooms\<rparr>))"
  by (rule runs_update_free) (simp_all add: node_ok_def)

lemma runs_set_sfu [node_runs]: "sfu_reachable m \<Longrightarrow> noderuns C G s0 (set_sfu m)"
  unfolding set_sfu_def by (rule runs_update_free) (simp_all add: node_ok_def rooms_fine_sfu)

lemma runs_with_sfu [node_runs]:
  "(\<And>s m. node_ok C s \<Longrightarrow> grows G s0 s \<Longrightarrow> sfu_reachable m \<Longrightarrow> noderuns C G s (f m)) \<Longrightarrow> noderuns C G s0 (with_sfu f)"
  unfolding with_sfu_def
  by (rule nd.runs_reading) (auto simp: nd.runs_skip dest: node_okD(1) rooms_fineD split: option.split)

lemma runs_update_seen [node_runs]:
  "seen_ok seen \<Longrightarrow> sc_cap seen = REPLICATION_SEEN_CAP \<Longrightarrow> noderuns C G s0 (update (\<lambda>s. s\<lparr>nd_seen := seen\<rparr>))"
  by (rule runs_update_free) (simp_all add: node_ok_def)

lemma runs_on_relay [node_runs]:
  "(\<And>a r. relay_fine a r \<Longrightarrow> relay_fine a (f r)) \<Longrightarrow> noderuns C G s0 (on_relay f)"
  unfolding on_relay_def by (rule runs_update_free) (auto simp: node_ok_def)

lemma runs_set_relay [node_runs]:
  "relay_fine (nd_access s0) r \<Longrightarrow> noderuns C G s0 (update (\<lambda>s. s\<lparr>nd_relay := Some r\<rparr>))"
  by (rule nd.runs_update) (auto simp: node_ok_def intro: relay_fine_grows)

definition no_ticket :: "node_out \<Rightarrow> bool" where
  "no_ticket e = (case e of Out_signed p t v \<Rightarrow> t \<noteq> RelayGranted | _ \<Rightarrow> True)"

lemma no_ticket_allowed: "no_ticket e \<Longrightarrow> ticket_allowed s e"
  by (cases e) (simp_all add: no_ticket_def ticket_allowed_def)

lemma runs_emit_plain [node_runs]: "(\<And>e. e \<in> set es \<Longrightarrow> no_ticket e) \<Longrightarrow> noderuns C G s0 (emit es)"
  by (rule nd.runs_emit) (rule no_ticket_allowed)

lemma no_ticket_simps [simp]:
  "no_ticket (Out_signed p t v) = (t \<noteq> RelayGranted)" "no_ticket (Out_raw p r)" "no_ticket (Out_datagram p b)"
  "no_ticket (Out_replicate i m r)" "no_ticket (Out_auth p h d)" "no_ticket (Out_root x)" "no_ticket (Out_socket n r)"
  by (simp_all add: no_ticket_def)

lemma runs_send [node_runs]: "t \<noteq> RelayGranted \<Longrightarrow> noderuns C G s0 (send_signed p t v)"
  unfolding send_signed_def by (rule runs_emit_plain) simp

lemma runs_map [node_runs]: "(\<And>x. x \<in> set xs \<Longrightarrow> noderuns C G s0 (f x)) \<Longrightarrow> noderuns C G s0 (steps (map f xs))"
  by (rule nd.runs_steps) auto

section \<open>The handlers keep it\<close>

subsection \<open>Trust and tickets\<close>

lemma check_access_granted: "check_peer_access p a st \<Longrightarrow> ac_mode a \<noteq> Open \<Longrightarrow> p \<in> ac_granted a"
  by (cases "ac_mode a") (simp_all add: check_peer_access_def check_access_def)

lemma full_ticket_reply:
  "full_ticket (jobj [(''ticket'', a), (''relay_host'', b), (''relay_port'', c), (''portal_only'', VBool portal_only), (''access_mode'', d)])
     \<longleftrightarrow> \<not> portal_only"
  by (simp add: full_ticket_def jget_jobj)

lemma runs_issue_ticket:
  assumes "\<not> portal_only \<Longrightarrow> ac_mode (nd_access s0) \<noteq> Open \<Longrightarrow> p \<in> ac_granted (nd_access s0)"
  shows "noderuns C G s0 (issue_ticket E p portal_only)"
  unfolding issue_ticket_def
proof (rule nd.runs_reading)
  fix s assume s: "node_ok C s" "grows G s0 s"
  then have g: "\<not> portal_only \<Longrightarrow> ac_mode (nd_access s) \<noteq> Open \<Longrightarrow> p \<in> ac_granted (nd_access s)"
    using assms unfolding grows_def by auto
  have send: "noderuns C G s (send_signed p RelayGranted (jobj [(''ticket'', a), (''relay_host'', b), (''relay_port'', c),
      (''portal_only'', VBool portal_only), (''access_mode'', d)]))" for a b c d
    unfolding send_signed_def
    by (rule nd.runs_emit) (use g in \<open>auto simp: ticket_allowed_def full_ticket_reply grows_def\<close>)
  have relay: "relay_fine (nd_access s) (if portal_only then allow_portal_peer p r else allow_peer_update p r)"
    if "nd_relay s = Some r" for r
    using node_okD(2) [OF s(1) that] g by (auto intro: relay_fine_ops relay_fine_allow)
  show "noderuns C G s (case nd_relay s of None \<Rightarrow> skip
      | Some relay \<Rightarrow>
          let external = (case ne_external_host E of None \<Rightarrow> ''0.0.0.0'' | Some h \<Rightarrow> h);
              ticket = create_ticket (ne_show_f64 E) (id_sign (nd_identity s)) (ne_unix E) p external (ne_relay_port E)
          in steps [
            update (\<lambda>s. s\<lparr>nd_relay := Some (if portal_only then allow_portal_peer p relay else allow_peer_update p relay)\<rparr>),
            update (\<lambda>s. s\<lparr>nd_tickets := (nd_tickets s)(p \<mapsto> tk_expires_at ticket)\<rparr>),
            send_signed p RelayGranted (jobj [(''ticket'', ticket_to_value (ne_b64_std E) ticket),
              (''relay_host'', VStr (tk_relay_host ticket)), (''relay_port'', VNum (NInt (uint (tk_relay_port ticket)))),
              (''portal_only'', VBool portal_only), (''access_mode'', VStr (mode_name (ac_mode (nd_access s))))]),
            send_signed p SupernodeInfo (supernode_info_payload E s)])"
    unfolding Let_def by (cases "nd_relay s") (simp_all add: node_runs send relay)
qed

lemma runs_issue_for_state [node_runs]: "noderuns C G s0 (issue_ticket_for_access_state E p)"
  unfolding issue_ticket_for_access_state_def
  by (intro nd.runs_reading runs_issue_ticket check_access_granted) auto

lemma runs_info [node_runs]:
  "noderuns C G s0 (broadcast_sfu_members E i)" "noderuns C G s0 (send_room_list E p)" "noderuns C G s0 (announce_capabilities_to E p)"
  "noderuns C G s0 (replicate_auth p)" "noderuns C G s0 (replay_endpoint_updates E p)" "noderuns C G s0 broadcast_room_list"
  "noderuns C G s0 (on_endpoint_update p raw)" "noderuns C G s0 (attest_build E p)" "noderuns C G s0 (gossip_roots roots)"
  "noderuns C G s0 (peer_left E p i members)"
  unfolding broadcast_sfu_members_def send_room_list_def announce_capabilities_to_def replicate_auth_def
    replay_endpoint_updates_def broadcast_room_list_def on_endpoint_update_def attest_build_def gossip_roots_def peer_left_def Let_def
  by (auto intro!: node_runs split: option.splits if_splits)

lemma runs_trusted [node_runs]:
  "noderuns C G s0 (on_peer_trusted E p)" "noderuns C G s0 (refresh_connected_replicated_peer E p)"
  "noderuns C G s0 (ensure_relay_for_room_guest E p)"
  unfolding on_peer_trusted_def refresh_connected_replicated_peer_def ensure_relay_for_room_guest_def
  by (auto intro!: node_runs)

lemma relay_fine_auth:
  "relay_fine a r \<Longrightarrow> relay_fine a (if check_peer_access q a st then relay_allow_peer q r else allow_portal_peer q r)"
  by (auto intro!: relay_fine_allow relay_fine_ops dest: check_access_granted)

lemma runs_relay_map:
  assumes "\<And>s r. relay_fine (nd_access s) r \<Longrightarrow> relay_fine (nd_access s) (f s r)"
  shows "noderuns C G s0 (update (\<lambda>s. s\<lparr>nd_relay := map_option (f s) (nd_relay s)\<rparr>))"
  by (rule runs_update_free) (auto simp: node_ok_def assms)

lemma runs_auth [node_runs]: "noderuns C G s0 (apply_peer_auth E p handle direct)"
  unfolding apply_peer_auth_def Let_def case_prod_beta
  by (intro nd.runs_reading nd.runs_Cons runs_relay_map relay_fine_auth nd.runs_Nil runs_update_fields) (simp_all add: node_runs)

lemma runs_grant [node_runs]: "pad_base64url p \<in> G \<Longrightarrow> noderuns C G s0 (grant_portal_access E p)"
proof -
  assume "pad_base64url p \<in> G"
  moreover have "noderuns C G t (steps [update (\<lambda>s. s\<lparr>nd_access := on_peer_granted q (nd_access s)\<rparr>), issue_ticket E q False])"
    if "q \<in> G" for t :: "'a node" and q
    by (rule nd.runs_update_then)
       (use that in \<open>auto simp: grows_def node_ok_def on_peer_granted_def relay_fine_def intro!: nd.runs_Cons nd.runs_Nil runs_issue_ticket\<close>)
  ultimately show ?thesis
    unfolding grant_portal_access_def Let_def by (auto intro!: nd.runs_reading nd.runs_skip)
qed

lemma runs_revoked [node_runs]: "noderuns C G s0 (on_peer_revoked E p)"
proof -
  have relay: "noderuns C G s0 (update (\<lambda>s. case nd_relay s of None \<Rightarrow> s
      | Some r \<Rightarrow> let (reg, r') = relay_revoke_peer p (nd_features s) r in s\<lparr>nd_relay := Some r', nd_features := reg\<rparr>))"
    by (rule runs_update_free)
       (auto simp: node_ok_def Let_def case_prod_beta relay_fine_revoke registry_relay split: option.split)
  have rooms: "noderuns C G s0 (update (\<lambda>s. s\<lparr>nd_rooms := (nd_rooms s)\<lparr>sn_sfu :=
      map_option (\<lambda>m. snd (remove_peer_from_all (ne_time E) p m)) (sn_sfu (nd_rooms s))\<rparr>\<rparr>))"
    by (rule runs_update_free) (auto simp: node_ok_def rooms_fine_def)
  show ?thesis
    unfolding on_peer_revoked_def by (intro nd.runs_Cons nd.runs_Nil relay rooms runs_update_fields runs_send) simp
qed

lemma runs_renew: "noderuns C G s0 (renew_all E expiries ps)"
  by (induction ps) (auto intro!: node_runs split: option.split)

lemma runs_renewals [node_runs]: "noderuns C G s0 (check_ticket_renewals E)"
  unfolding check_ticket_renewals_def by (intro nd.runs_reading runs_renew)

subsection \<open>Hole punching\<close>

lemma runs_punch_ready [node_runs]: "noderuns C G s0 (send_punch_ready E a b x y v)"
  unfolding send_punch_ready_def by (intro node_runs) simp_all

lemma runs_room_punch [node_runs]: "noderuns C G s0 (try_relay_punch_for_room E p i)"
  unfolding try_relay_punch_for_room_def Let_def by (auto intro!: node_runs split: option.split)

lemma runs_update_punches:
  assumes "\<And>P. punches_fine P \<Longrightarrow> punches_fine (f P)"
  shows "noderuns C G s0 (update (\<lambda>s. s\<lparr>nd_punches := f (nd_punches s)\<rparr>))"
  by (rule runs_update_free) (simp_all add: node_ok_def assms)

lemma punches_retain: "punches_fine P \<Longrightarrow> punches_fine (retain f P)"
  by (auto simp: punches_fine_def retain_def split: option.splits if_splits)

lemma punch_pending:
  assumes "punches_fine P" "k = (if s < t then (s, t) else (t, s))"
    and "entry = (case P k of Some e \<Rightarrow> e | None \<Rightarrow> \<lparr>pu_registered_at = now, pu_endpoints = Map.empty\<rparr>)"
    and "((pu_endpoints entry)(s \<mapsto> ep)) t = None"
  shows "fst k < snd k \<and> s \<in> {fst k, snd k} \<and> dom ((pu_endpoints entry)(s \<mapsto> ep)) = {s}"
proof -
  have ne: "s \<noteq> t" and t: "pu_endpoints entry t = None" using assms(4) by (auto split: if_splits)
  then have k: "fst k < snd k" "{fst k, snd k} = {s, t}" using assms(2) by (auto simp: not_less)
  have "dom (pu_endpoints entry) \<subseteq> {fst k, snd k}"
  proof (cases "P k")
    case (Some e)
    then obtain p where "p \<in> {fst k, snd k}" "dom (pu_endpoints e) = {p}" using assms(1) unfolding punches_fine_def by metis
    with Some assms(3) show ?thesis by simp
  qed (simp add: assms(3))
  then have "dom (pu_endpoints entry) \<subseteq> {s, t}" unfolding k(2) .
  then have "dom ((pu_endpoints entry)(s \<mapsto> ep)) = {s}" using t by (auto split: if_splits)
  with k show ?thesis by auto
qed

lemma runs_punch_register [node_runs]: "noderuns C G s0 (handle_punch_register_msg E p q ep)"
  unfolding handle_punch_register_msg_def Let_def
proof (rule nd.runs_reading)
  fix st :: "'a node" assume ok: "node_ok C st" and "grows G s0 st"
  let ?s = "normalize_peer_id p" and ?t = "normalize_peer_id q"
  let ?k = "if ?s < ?t then (?s, ?t) else (?t, ?s)"
  let ?entry = "case nd_punches st ?k of Some e \<Rightarrow> e | None \<Rightarrow> \<lparr>pu_registered_at = ne_unix E, pu_endpoints = Map.empty\<rparr>"
  let ?ep = "case relay_addr E ?s st of Some a \<Rightarrow> a | None \<Rightarrow> ep"
  let ?eps = "(pu_endpoints ?entry)(?s \<mapsto> ?ep)"
  note pending = punch_pending [OF node_okD(5) [OF ok], of ?k ?s ?t ?entry "ne_unix E" ?ep, OF refl refl]
  have wait: "noderuns C G st (update (\<lambda>s. s\<lparr>nd_punches := retain (\<lambda>_ info. \<not> 30 < ne_unix E - pu_registered_at info)
      ((nd_punches s)(?k \<mapsto> ?entry\<lparr>pu_endpoints := ?eps\<rparr>))\<rparr>))" if "?eps ?t = None"
    by (rule runs_update_punches, rule punches_retain)
       (use pending [OF that] in \<open>simp only: punches_fine_def, auto split: if_splits\<close>)
  have complete: "noderuns C G st (update (\<lambda>s. s\<lparr>nd_punches := (nd_punches s)(k := None)\<rparr>))" for k
    by (rule runs_update_punches) (auto simp: punches_fine_def split: if_splits)
  show "noderuns C G st (if \<not> is_trusted ?s (nd_peers st) \<or> \<not> is_trusted ?t (nd_peers st) then skip
      else if ?eps ?t \<noteq> None
        then steps [update (\<lambda>s. s\<lparr>nd_punches := (nd_punches s)(?k := None)\<rparr>),
          send_punch_ready E (fst ?k) (snd ?k) (case ?eps (fst ?k) of None \<Rightarrow> [] | Some e \<Rightarrow> e)
            (case ?eps (snd ?k) of None \<Rightarrow> [] | Some e \<Rightarrow> e) True]
        else update (\<lambda>s. s\<lparr>nd_punches := retain (\<lambda>_ info. \<not> 30 < ne_unix E - pu_registered_at info)
          ((nd_punches s)(?k \<mapsto> ?entry\<lparr>pu_endpoints := ?eps\<rparr>))\<rparr>))"
    using wait by (cases "?eps ?t = None") (auto intro!: nd.runs_skip nd.runs_Cons nd.runs_Nil complete runs_punch_ready)
qed

subsection \<open>Messages\<close>

lemma runs_gated [node_runs]:
  assumes "\<And>fid p n now reg. registry_reachable reg \<Longrightarrow> registry_reachable (snd (gate fid p n now reg))"
    and "\<And>s ok. node_ok C s \<Longrightarrow> grows G s0 s \<Longrightarrow> noderuns C G s (k ok)"
  shows "noderuns C G s0 (gated gate E fid p n k)"
  unfolding gated_def Let_def case_prod_beta
  by (intro nd.runs_reading nd.runs_Cons runs_update_features assms nd.runs_Nil node_okD(3)) auto

lemma runs_fan_out [node_runs]: "noderuns C G s0 (fan_out_raw E fid raw recipients)"
  unfolding fan_out_raw_def by (intro runs_map runs_gated registry_gate) (auto intro!: node_runs)

lemma runs_replicate [node_runs]:
  "noderuns C G s0 (replicate_frame i mid raw)" "noderuns C G s0 (replicate_room_chat i msg raw)" "noderuns C G s0 (replicate_room_audio i msg raw)"
  unfolding replicate_room_chat_def replicate_room_audio_def replicate_frame_def by (auto intro!: node_runs)

lemma runs_frames [node_runs]:
  "noderuns C G s0 (handle_sfu_chat_broadcast E msg raw)" "noderuns C G s0 (handle_sfu_video_state E msg raw)"
  "noderuns C G s0 (handle_sfu_video_keyframe_request E msg raw)" "noderuns C G s0 (handle_sfu_broadcast E msg raw mt)"
  unfolding handle_sfu_chat_broadcast_def handle_sfu_video_state_def handle_sfu_video_keyframe_request_def handle_sfu_broadcast_def Let_def
  by (auto intro!: node_runs registry_gate split: option.split list.split)

lemma runs_audio_targets:
  assumes "sfu_reachable m" "\<And>m' targets. sfu_reachable m' \<Longrightarrow> noderuns C G s0 (k targets m')"
  shows "noderuns C G s0 (case audio_forward_targets i p now m of (targets, m') \<Rightarrow> k targets m')"
  using assms sfu_reachable_ops(6) [OF assms(1), of i p now] by (simp add: case_prod_beta)

lemma runs_audio [node_runs]: "noderuns C G s0 (handle_sfu_audio_broadcast E msg raw)"
  unfolding handle_sfu_audio_broadcast_def Let_def
  by (auto intro!: node_runs registry_gate runs_audio_targets split: option.split)

lemma runs_membership [node_runs]:
  "noderuns C G s0 (handle_sfu_subscribe E msg)" "noderuns C G s0 (handle_sfu_unsubscribe E msg)" "noderuns C G s0 (handle_sfu_leave E msg)"
  "noderuns C G s0 (handle_sfu_invite_generate E msg)"
  unfolding handle_sfu_subscribe_def handle_sfu_unsubscribe_def handle_sfu_leave_def handle_sfu_invite_generate_def Let_def case_prod_beta
  by (auto intro!: node_runs sfu_reachable_ops relay_fine_ops)

lemma runs_video_subscribe [node_runs]: "noderuns C G s0 (handle_sfu_video_subscribe E msg)"
  unfolding handle_sfu_video_subscribe_def Let_def
  by (auto intro!: node_runs relay_fine_subs split: option.split)

lemma runs_join [node_runs]: "ne_crates E = C \<Longrightarrow> noderuns C G s0 (handle_sfu_join E msg)"
  unfolding handle_sfu_join_def Let_def case_prod_beta
  by (auto intro!: node_runs rooms_fine_join relay_fine_ops dest: node_okD(1))

lemma runs_invite [node_runs]: "ne_crates E = C \<Longrightarrow> noderuns C G s0 (handle_sfu_room_invite E msg)"
  unfolding handle_sfu_room_invite_def Let_def case_prod_beta
  by (auto intro!: node_runs rooms_fine_invite split: option.split dest: node_okD(1))

lemma runs_created [node_runs]:
  assumes "sfu_reachable m"
  shows "noderuns C G s0 (case create_room_with_policy sha now ri nm ty c pol m of
      (None, m1) \<Rightarrow> skip
    | (Some (room, created_new), m1) \<Rightarrow>
        (case if private then readmit_creator E sender c token room created_new m1 else (None, m1) of
           (tok, m2) \<Rightarrow> steps [set_sfu m2, created_reply sender (sr_room_id room) (sr_room_name room) ty tok]))"
proof -
  obtain res m1 where c: "create_room_with_policy sha now ri nm ty c pol m = (res, m1)" by force
  have "sfu_reachable m1" using sfu_reachable_ops(1) [OF assms, of sha now ri nm ty c pol] c by simp
  with c show ?thesis
    by (auto simp: created_reply_def case_prod_beta intro!: node_runs readmit_reachable split: option.split)
qed

lemma runs_create [node_runs]: "noderuns C G s0 (handle_sfu_room_create E msg)"
  unfolding handle_sfu_room_create_def Let_def by (auto intro!: node_runs split: option.split)

lemma runs_root_announce [node_runs]: "ne_crates E = C \<Longrightarrow> noderuns C G s0 (handle_root_announce E msg)"
  unfolding handle_root_announce_def Let_def case_prod_beta
  by (auto intro!: node_runs rooms_fine_announce dest: node_okD(1))

lemma runs_handshake [node_runs]: "noderuns C G s0 (handle_handshake_init E msg)"
  unfolding handle_handshake_init_def by (auto intro!: node_runs split: sum.split option.split)

lemma runs_requests [node_runs]:
  "noderuns C G s0 (handle_game_relay_join msg)" "noderuns C G s0 (handle_punch_register E msg)" "noderuns C G s0 (handle_relay_request E msg)"
  "noderuns C G s0 (relay_to_payload_target msg raw)"
  unfolding handle_game_relay_join_def handle_punch_register_def handle_relay_request_def relay_to_payload_target_def Let_def
  by (auto intro!: node_runs relay_fine_ops split: option.split)

lemma runs_message [node_runs]: "ne_crates E = C \<Longrightarrow> noderuns C G s0 (on_message E msg raw)"
  unfolding on_message_def by (cases "sm_type msg") (auto intro!: node_runs relay_fine_ops)

lemma runs_connected [node_runs]: "noderuns C G s0 (on_peer_connected E p)"
  unfolding on_peer_connected_def by (auto intro!: node_runs)

lemma runs_disconnected [node_runs]: "noderuns C G s0 (on_peer_disconnected E p)"
proof -
  have "noderuns C G t (update (\<lambda>s. s\<lparr>nd_features := clear_quotas p (nd_features s)\<rparr>))" for t :: "'a node"
    by (rule runs_update_free) (simp_all add: node_ok_def registry_clear)
  then show ?thesis
    unfolding on_peer_disconnected_def Let_def case_prod_beta
    by (intro nd.runs_Cons nd.runs_Nil runs_with_sfu nd.runs_steps) (auto intro!: node_runs sfu_reachable_ops split: if_splits)
qed

subsection \<open>Cluster, relay and timers\<close>

lemma runs_once [node_runs]:
  assumes "\<And>s. node_ok C s \<Longrightarrow> grows G s0 s \<Longrightarrow> noderuns C G s k"
  shows "noderuns C G s0 (once_replicated mid k)"
  unfolding once_replicated_def Let_def case_prod_beta
proof (rule nd.runs_reading)
  fix s assume s: "node_ok C s" "grows G s0 s"
  have "0 < sc_cap (nd_seen s)" using node_okD(7) [OF s(1)] by (simp add: REPLICATION_SEEN_CAP_def)
  note ok = insert_new_order(3,4) [OF node_okD(6) [OF s(1)] this, of mid]
  show "noderuns C G s (if fst (insert_new mid (nd_seen s)) then steps [update (\<lambda>s'. s'\<lparr>nd_seen := snd (insert_new mid (nd_seen s))\<rparr>), k]
      else update (\<lambda>s'. s'\<lparr>nd_seen := snd (insert_new mid (nd_seen s))\<rparr>))"
    using assms [OF s] ok node_okD(7) [OF s(1)] by (auto intro!: node_runs)
qed

lemma runs_send_audio [node_runs]: "noderuns C G s0 (send_audio_to E fwd raw p)"
  unfolding send_audio_to_def
proof (rule nd.runs_reading)
  fix s :: "'a node" assume s: "node_ok C s" "grows G s0 s"
  show "noderuns C G s (case nd_relay s of None \<Rightarrow> fan_out_raw E ''room.audio.sfu'' raw [p]
      | Some relay \<Rightarrow> (case send_feature_datagram (ne_relay E) p ''room.audio.sfu'' fwd (ne_now E) (nd_features s) relay of
          (Some sent, reg) \<Rightarrow> steps [update (\<lambda>s. s\<lparr>nd_features := reg\<rparr>), if sent then emit [Out_datagram p fwd] else skip]
        | (None, reg) \<Rightarrow> fan_out_raw E ''room.audio.sfu'' raw [p]))"
  proof (cases "nd_relay s")
    case (Some r)
    obtain res reg where f: "send_feature_datagram (ne_relay E) p ''room.audio.sfu'' fwd (ne_now E) (nd_features s) r = (res, reg)" by force
    have "registry_reachable reg"
      using registry_send_feature [OF node_okD(3) [OF s(1)], of "ne_relay E" p "''room.audio.sfu''" fwd "ne_now E" r] f by simp
    with Some f show ?thesis by (cases res) (auto intro!: node_runs)
  qed (simp add: runs_fan_out)
qed

lemma runs_deliver [node_runs]:
  "noderuns C G s0 (deliver_replicated_chat E i mid raw)" "noderuns C G s0 (deliver_replicated_audio E i mid raw)"
  unfolding deliver_replicated_chat_def deliver_replicated_audio_def Let_def by (auto intro!: node_runs)

lemma runs_deliver_game [node_runs]: "noderuns C G s0 (deliver_replicated_game_datagram E i mid raw)"
  unfolding deliver_replicated_game_datagram_def Let_def case_prod_beta
  by (intro runs_once nd.runs_reading) (auto intro!: node_runs registry_send_feature simp: node_ok_def split: option.split)

lemma runs_roster [node_runs]: "noderuns C G s0 (apply_room_roster E d)"
  unfolding apply_room_roster_def by (auto intro!: node_runs sfu_reachable_ops)

lemma runs_link [node_runs]: "ne_crates E = C \<Longrightarrow> noderuns C G s0 (on_link_callback E cb)"
proof (cases cb)
  case (OnSpaceRoot r)
  assume "ne_crates E = C"
  then show ?thesis
    unfolding on_link_callback_def OnSpaceRoot link_callback.case
    by (intro runs_update_free) (auto simp: node_ok_def rooms_fine_def roots_ok_accept)
qed (auto simp: on_link_callback_def deliver_replicated_room_frame_def intro!: node_runs)

lemma runs_game_bridge [node_runs]: "noderuns C G s0 (replicate_game_datagram E i p payload)"
  unfolding replicate_game_datagram_def Let_def by (auto intro!: node_runs)

lemma runs_audio_bridge [node_runs]: "noderuns C G s0 (room_audio_bridge E p idx i inner)"
  unfolding room_audio_bridge_def Let_def by (auto intro!: node_runs runs_audio_targets split: option.split)

lemma runs_timers [node_runs]:
  "noderuns C G s0 (gc_tick E)" "noderuns C G s0 (room_list_tick E)"
  unfolding gc_tick_def room_list_tick_def broadcast_room_list_now_def Let_def case_prod_beta
  by (auto intro!: node_runs sfu_reachable_ops)

lemma runs_relay_features:
  assumes "\<And>a reg r. relay_fine a r \<Longrightarrow> relay_fine a (snd (f reg r))"
    and "\<And>reg r. registry_reachable reg \<Longrightarrow> registry_reachable (fst (f reg r))"
  shows "noderuns C G s0 (on_relay_and_features f)"
  unfolding on_relay_and_features_def
  by (rule runs_update_free) (auto simp: node_ok_def Let_def case_prod_beta assms split: option.split)

lemma runs_relay_events [node_runs]:
  "noderuns C G s0 (relay_closed E p c)" "noderuns C G s0 (relay_cleanup E)"
  unfolding relay_closed_def relay_cleanup_def
  by (rule runs_relay_features; simp add: relay_fine_disconnect relay_fine_cleanup registry_relay(1-3))+

lemma runs_relay_connected [node_runs]:
  assumes "env_ok (ne_relay E)"
  shows "noderuns C G s0 (relay_connected E p c)"
  unfolding relay_connected_def
proof (rule runs_update_free)
  fix s :: "'a node"
  let ?s' = "case nd_relay s of None \<Rightarrow> s
    | Some relay \<Rightarrow> (case relay_connect (ne_relay E) p c (nd_features s) relay of None \<Rightarrow> s
        | Some (_, reg, relay') \<Rightarrow> s\<lparr>nd_relay := Some relay', nd_features := reg\<rparr>)"
  show "grows G s ?s'" by (auto split: option.split)
  assume s: "node_ok C s"
  show "node_ok C ?s'"
  proof (cases "\<exists>r res reg r'. nd_relay s = Some r \<and> relay_connect (ne_relay E) p c (nd_features s) r = Some (res, reg, r')")
    case True
    then obtain r res reg r' where r: "nd_relay s = Some r" "relay_connect (ne_relay E) p c (nd_features s) r = Some (res, reg, r')" by blast
    have "relay_fine (nd_access s) r'" using relay_fine_connect [OF node_okD(2) [OF s r(1)] assms r(2)] .
    moreover have "registry_reachable reg" using registry_relay(4) [OF node_okD(3) [OF s] r(2)] .
    ultimately show ?thesis using s r by (simp add: node_ok_def)
  qed (use s in \<open>auto split: option.split\<close>)
qed

lemma runs_relay_datagram [node_runs]: "noderuns C G s0 (relay_datagram E p data)"
  unfolding relay_datagram_def
proof (rule nd.runs_reading)
  fix s :: "'a node" assume s: "node_ok C s" "grows G s0 s"
  have out: "noderuns C G t (on_relay_out E out)" for t :: "'a node" and out
    unfolding on_relay_out_def by (cases out) (auto intro!: node_runs)
  show "noderuns C G s (case nd_relay s of None \<Rightarrow> skip
      | Some relay \<Rightarrow> let (outs, reg, relay') = on_datagram (ne_relay E) p data (ne_now E) (nd_features s) relay
          in steps (update (\<lambda>s. s\<lparr>nd_relay := Some relay', nd_features := reg\<rparr>) # map (on_relay_out E) outs))"
  proof (cases "nd_relay s")
    case (Some r)
    obtain outs reg r' where d: "on_datagram (ne_relay E) p data (ne_now E) (nd_features s) r = (outs, reg, r')"
      by (metis prod_cases3)
    have r: "relay_fine (nd_access s) r'"
      using relay_fine_datagram [OF node_okD(2) [OF s(1) Some], of "ne_relay E" p data "ne_now E" "nd_features s"] d by simp
    have reg: "registry_reachable reg"
      using registry_datagram [OF node_okD(3) [OF s(1)], of "ne_relay E" p data "ne_now E" r] d by simp
    have "noderuns C G s (update (\<lambda>s. s\<lparr>nd_relay := Some r', nd_features := reg\<rparr>))"
      by (rule nd.runs_update) (use r reg in \<open>auto simp: node_ok_def intro: relay_fine_grows\<close>)
    with Some d show ?thesis by (simp add: Let_def nd.runs_Cons runs_map out)
  qed (simp add: nd.runs_skip)
qed

section \<open>Runs of the node\<close>

text \<open>
  Everything that happens to a node. The messages of \<open>Ev_message\<close> are arbitrary, as if nothing were
  checked before; what the signaling server checks is in the theory \<open>Signaling\<close>.
\<close>

datatype node_event =
    Ev_message signaling_message string
  | Ev_frame sig_clock string ws_conn replay_guard
  | Ev_close ws_conn replay_guard
  | Ev_link link_callback
  | Ev_datagram peer_id bytes
  | Ev_relay_connected peer_id nat
  | Ev_relay_closed peer_id nat
  | Ev_relay_cleanup
  | Ev_portal_grant peer_id
  | Ev_revoke peer_id
  | Ev_renewals
  | Ev_gc
  | Ev_room_list

definition node_step :: "node_env \<Rightarrow> node_event \<Rightarrow> 'm act" where
  "node_step E ev st = (case ev of
     Ev_message msg raw \<Rightarrow> on_message E msg raw st
   | Ev_frame ck raw conn g \<Rightarrow> (let (outs, _, _, st') = socket_frame E ck raw conn g st in (outs, st'))
   | Ev_close conn g \<Rightarrow> (let (outs, _, st') = socket_close E conn g st in (outs, st'))
   | Ev_link cb \<Rightarrow> on_link_callback E cb st
   | Ev_datagram p data \<Rightarrow> relay_datagram E p data st
   | Ev_relay_connected p c \<Rightarrow> relay_connected E p c st
   | Ev_relay_closed p c \<Rightarrow> relay_closed E p c st
   | Ev_relay_cleanup \<Rightarrow> relay_cleanup E st
   | Ev_portal_grant p \<Rightarrow> grant_portal_access E p st
   | Ev_revoke p \<Rightarrow> on_peer_revoked E p st
   | Ev_renewals \<Rightarrow> check_ticket_renewals E st
   | Ev_gc \<Rightarrow> gc_tick E st
   | Ev_room_list \<Rightarrow> room_list_tick E st)"

inductive node_reachable :: "crates \<Rightarrow> 'm node \<Rightarrow> bool" for C where
  start: "registry_reachable features \<Longrightarrow>
    node_reachable C (new_node i peers hs with_relay sfu_enabled mode code mailbox features linked)"
| event: "node_reachable C st \<Longrightarrow> ne_crates E = C \<Longrightarrow> env_ok (ne_relay E) \<Longrightarrow> node_reachable C (snd (node_step E ev st))"

text \<open>The peer an event may let through the gate.\<close>

fun granted_by :: "node_event \<Rightarrow> peer_id set" where
  "granted_by (Ev_portal_grant p) = {pad_base64url p}"
| "granted_by _ = {}"

definition step_fine :: "crates \<Rightarrow> peer_id set \<Rightarrow> 'm node \<Rightarrow> node_out list \<times> 'm node \<Rightarrow> bool" where
  "step_fine C G s r \<longleftrightarrow> node_ok C (snd r) \<and> grows G s (snd r) \<and> (\<forall>e \<in> set (fst r). ticket_allowed (snd r) e)"

lemma step_fineI: "node_ok C s \<Longrightarrow> noderuns C G s a \<Longrightarrow> step_fine C G s (a s)"
  using nd.runs_at [of C G s a] by (simp add: step_fine_def)

lemma runs_sig_out: "ne_crates E = C \<Longrightarrow> noderuns C G s0 (on_sig_out E out)"
  unfolding on_sig_out_def by (cases out) (auto intro!: node_runs)

lemma sig_out_fine:
  assumes "node_ok C st" "sig_ok C sig" "ne_crates E = C"
  shows "step_fine C G st (steps (map (on_sig_out E) souts) (st\<lparr>nd_sig := sig\<rparr>))"
proof -
  have "node_ok C (st\<lparr>nd_sig := sig\<rparr>)" using assms(1,2) by (simp add: node_ok_def)
  then have "step_fine C G (st\<lparr>nd_sig := sig\<rparr>) (steps (map (on_sig_out E) souts) (st\<lparr>nd_sig := sig\<rparr>))"
    by (intro step_fineI runs_map runs_sig_out assms(3))
  then show ?thesis by (simp add: step_fine_def grows_def)
qed

lemma node_step_fine:
  assumes "node_ok C st" "ne_crates E = C" "env_ok (ne_relay E)"
  shows "step_fine C (granted_by ev) st (node_step E ev st)"
proof (cases ev)
  case (Ev_frame ck raw conn g)
  have "sig_ok C (snd (snd (snd (ws_step (ne_json E) (ne_crates E) (node_id E st) ck raw conn g (nd_sig st)))))"
    using sig_ok_ws_step [OF node_okD(4) [OF assms(1)]] assms(2) by blast
  from sig_out_fine [OF assms(1) this assms(2)] show ?thesis
    by (simp add: Ev_frame node_step_def socket_frame_def Let_def case_prod_beta)
next
  case (Ev_close conn g)
  from sig_out_fine [OF assms(1) sig_ok_ws_close [OF node_okD(4) [OF assms(1)]] assms(2)] show ?thesis
    by (simp add: Ev_close node_step_def socket_close_def Let_def case_prod_beta)
qed (use assms in \<open>auto simp: node_step_def intro!: step_fineI node_runs\<close>)

lemma new_node_ok: "registry_reachable features \<Longrightarrow> node_ok C (new_node i peers hs with_relay sfu_enabled mode code mailbox features linked)"
  by (auto simp: node_ok_def new_node_def rooms_fine_def roots_ok_def new_root_store_def sfu_reachable.init relay_fine_def relay_ok_new
      sig_ok_new punches_fine_def new_seen_ok, auto simp: new_relay_def)

lemma node_reachable_ok: "node_reachable C st \<Longrightarrow> node_ok C st"
proof (induction rule: node_reachable.induct)
  case (event st E ev)
  then show ?case using node_step_fine unfolding step_fine_def by blast
qed (rule new_node_ok)

end
