(* ===== verification/Node_Payloads.thy ===== *)
theory Node_Payloads
  imports Node_Safety
begin

text \<open>
  Every message a supernode signs has a well-formed JSON object as its payload: keys in order and
  without duplicates, at every level. This is what the agreement of the signed bytes between
  supernode and client (theory \<open>Message\<close>) rests on.
\<close>

definition payload_typed :: "node_out \<Rightarrow> bool" where
  "payload_typed e = (case e of Out_signed p t v \<Rightarrow> jcanon v \<and> (\<exists>kvs. v = VObj kvs) | _ \<Rightarrow> True)"

text \<open>Embedded values come from serde values.\<close>

definition env_values :: "node_env \<Rightarrow> bool" where
  "env_values E \<longleftrightarrow> (\<forall>d. jcanon (ne_caps E d)) \<and> (\<forall>v. ne_cluster E = Some v \<longrightarrow> jcanon v)"

interpretation py: growing_actions "\<lambda>_. True" "\<lambda>_ _. True" "\<lambda>_. payload_typed"
  by unfold_locales auto

named_theorems typed_runs \<open>handlers that sign well-formed payloads only\<close>

lemmas [typed_runs] = py.runs_skip py.runs_reading py.runs_Nil py.runs_Cons

lemma typed_update [typed_runs]: "py.runs s0 (update f)"
  by (rule py.runs_update) simp

lemma typed_emit [typed_runs]: "(\<And>e. e \<in> set es \<Longrightarrow> payload_typed e) \<Longrightarrow> py.runs s0 (emit es)"
  by (rule py.runs_emit) simp

lemma typed_map [typed_runs]: "(\<And>x. x \<in> set xs \<Longrightarrow> py.runs s0 (f x)) \<Longrightarrow> py.runs s0 (steps (map f xs))"
  by (rule py.runs_steps) auto

lemma typed_object: "(\<forall>kv \<in> set kvs. jcanon (snd kv)) \<Longrightarrow> payload_typed (Out_signed p t (jobj kvs))"
  using jcanon_jobj [of kvs] by (simp add: payload_typed_def) (simp add: jobj_def)

lemma typed_others [simp]:
  "payload_typed (Out_raw p r)" "payload_typed (Out_datagram p b)" "payload_typed (Out_replicate i m r)" "payload_typed (Out_auth p h d)"
  "payload_typed (Out_root x)" "payload_typed (Out_socket n r)"
  by (simp_all add: payload_typed_def)

lemma typed_send [typed_runs]: "(\<forall>kv \<in> set kvs. jcanon (snd kv)) \<Longrightarrow> py.runs s0 (send_signed p t (jobj kvs))"
  unfolding send_signed_def by (rule typed_emit) (auto intro: typed_object)

lemma jcanon_values [simp]: "jcanon (json_ids E S)" "jcanon (room_summary E r)" "jcanon (ticket_to_value f t)"
  by (auto simp: json_ids_def room_summary_def ticket_to_value_def intro!: jcanon_jobj)

lemma jcanon_caps: "env_values E \<Longrightarrow> jcanon (capabilities_json E st)"
  by (simp add: capabilities_json_def env_values_def)

lemma typed_info [typed_runs]:
  assumes "env_values E"
  shows "py.runs s0 (send_signed p t (supernode_info_payload E st))"
  unfolding supernode_info_payload_def
  using assms jcanon_caps [OF assms] by (auto intro!: typed_send simp: env_values_def split: option.split)

lemma typed_basic [typed_runs]:
  "py.runs s0 (broadcast_sfu_members E i)" "py.runs s0 (send_room_list E p)" "py.runs s0 (replicate_auth p)"
  "py.runs s0 (replay_endpoint_updates E p)" "py.runs s0 broadcast_room_list" "py.runs s0 (on_endpoint_update p raw)"
  "py.runs s0 (attest_build E p)" "py.runs s0 (gossip_roots roots)" "py.runs s0 (peer_left E p i members)"
  "py.runs s0 (created_reply p i nm ty tok)" "py.runs s0 (send_punch_ready E a b x y v)"
  unfolding broadcast_sfu_members_def send_room_list_def replicate_auth_def replay_endpoint_updates_def broadcast_room_list_def
    on_endpoint_update_def attest_build_def gossip_roots_def peer_left_def created_reply_def send_punch_ready_def punch_payload_def Let_def
  by (auto intro!: typed_runs typed_object split: option.splits if_splits)

lemma typed_trust [typed_runs]:
  assumes "env_values E"
  shows "py.runs s0 (announce_capabilities_to E p)" "py.runs s0 (issue_ticket E p b)" "py.runs s0 (issue_ticket_for_access_state E p)"
    "py.runs s0 (on_peer_trusted E p)" "py.runs s0 (ensure_relay_for_room_guest E p)" "py.runs s0 (refresh_connected_replicated_peer E p)"
    "py.runs s0 (apply_peer_auth E p h d)" "py.runs s0 (grant_portal_access E p)"
  unfolding issue_ticket_for_access_state_def on_peer_trusted_def ensure_relay_for_room_guest_def
    refresh_connected_replicated_peer_def apply_peer_auth_def grant_portal_access_def issue_ticket_def announce_capabilities_to_def
    Let_def case_prod_beta
  using jcanon_caps [OF assms] assms by (auto intro!: typed_runs split: option.split)

lemma typed_revoked [typed_runs]: "py.runs s0 (on_peer_revoked E p)"
  unfolding on_peer_revoked_def by (auto intro!: typed_runs)

lemma typed_renew: "env_values E \<Longrightarrow> py.runs s0 (renew_all E expiries ps)"
  by (induction ps) (auto intro!: typed_runs split: option.split)

lemma typed_renewals [typed_runs]: "env_values E \<Longrightarrow> py.runs s0 (check_ticket_renewals E)"
  unfolding check_ticket_renewals_def by (intro py.runs_reading typed_renew)

lemma typed_punch [typed_runs]:
  "py.runs s0 (try_relay_punch_for_room E p i)" "py.runs s0 (handle_punch_register_msg E p q ep)"
  unfolding try_relay_punch_for_room_def handle_punch_register_msg_def Let_def by (auto intro!: typed_runs split: option.split)

lemma typed_anywhere: "py.runs s a \<Longrightarrow> py.runs t a"
  by (simp add: py.runs_def)

lemma typed_gated [typed_runs]: "(\<And>ok. py.runs s0 (k ok)) \<Longrightarrow> py.runs s0 (gated gate E fid p n k)"
  unfolding gated_def Let_def case_prod_beta by (auto intro!: typed_runs intro: typed_anywhere)

lemma typed_with_sfu [typed_runs]: "(\<And>m. py.runs s0 (f m)) \<Longrightarrow> py.runs s0 (with_sfu f)"
  unfolding with_sfu_def by (rule py.runs_reading) (auto intro: typed_anywhere py.runs_skip split: option.split)

lemma typed_once [typed_runs]: "py.runs s0 a \<Longrightarrow> py.runs s0 (once_replicated mid a)"
  unfolding once_replicated_def Let_def case_prod_beta
  by (rule py.runs_reading) (auto intro!: py.runs_Cons py.runs_Nil typed_update intro: typed_anywhere)

lemma typed_combinators [typed_runs]:
  "py.runs s0 (fan_out_raw E fid raw ps)"
  "py.runs s0 (replicate_frame i mid raw)" "py.runs s0 (replicate_room_chat i msg raw)" "py.runs s0 (replicate_room_audio i msg raw)"
  "py.runs s0 (set_sfu m)" "py.runs s0 (on_relay g)" "py.runs s0 (on_relay_and_features h)"
  unfolding fan_out_raw_def replicate_room_chat_def replicate_room_audio_def replicate_frame_def set_sfu_def on_relay_def
    on_relay_and_features_def
  by (auto intro!: typed_runs)

lemma typed_frames [typed_runs]:
  "py.runs s0 (handle_sfu_chat_broadcast E msg raw)" "py.runs s0 (handle_sfu_video_state E msg raw)"
  "py.runs s0 (handle_sfu_video_keyframe_request E msg raw)" "py.runs s0 (handle_sfu_broadcast E msg raw mt)"
  "py.runs s0 (handle_sfu_audio_broadcast E msg raw)" "py.runs s0 (handle_sfu_video_subscribe E msg)"
  unfolding handle_sfu_chat_broadcast_def handle_sfu_video_state_def handle_sfu_video_keyframe_request_def handle_sfu_broadcast_def
    handle_sfu_audio_broadcast_def handle_sfu_video_subscribe_def Let_def case_prod_beta
  by (auto intro!: typed_runs split: option.split list.split)

lemma typed_membership [typed_runs]:
  "py.runs s0 (handle_sfu_subscribe E msg)" "py.runs s0 (handle_sfu_unsubscribe E msg)" "py.runs s0 (handle_sfu_leave E msg)"
  "py.runs s0 (handle_sfu_invite_generate E msg)" "py.runs s0 (handle_root_announce E msg)" "py.runs s0 (apply_room_roster E d)"
  "py.runs s0 (gc_tick E)" "py.runs s0 (room_list_tick E)"
  unfolding handle_sfu_subscribe_def handle_sfu_unsubscribe_def handle_sfu_leave_def handle_sfu_invite_generate_def
    handle_root_announce_def apply_room_roster_def gc_tick_def room_list_tick_def broadcast_room_list_now_def Let_def case_prod_beta
  by (auto intro!: typed_runs split: invite_mint.split)

lemma typed_admission [typed_runs]:
  assumes "env_values E"
  shows "py.runs s0 (handle_sfu_join E msg)" "py.runs s0 (handle_sfu_room_invite E msg)"
  unfolding handle_sfu_join_def handle_sfu_room_invite_def Let_def case_prod_beta
  using assms by (auto intro!: typed_runs typed_object split: option.split)

lemma typed_created:
  "py.runs s0 (case create_room_with_policy sha now ri nm ty c pol m of
      (None, m1) \<Rightarrow> skip
    | (Some (room, created_new), m1) \<Rightarrow>
        (case if private then readmit_creator E sender c token room created_new m1 else (None, m1) of
           (tok, m2) \<Rightarrow> steps [set_sfu m2, created_reply sender (sr_room_id room) (sr_room_name room) ty tok]))"
  by (cases "create_room_with_policy sha now ri nm ty c pol m")
     (auto simp: case_prod_beta intro!: typed_runs split: option.split)

lemma typed_create [typed_runs]: "py.runs s0 (handle_sfu_room_create E msg)"
  unfolding handle_sfu_room_create_def Let_def by (auto intro!: typed_runs typed_created split: option.split)

lemma accept_payload_typed:
  assumes "process_init X L C now payload m = Inr (v, k, p)"
  shows "payload_typed (Out_signed q t v)"
proof -
  from assms obtain i pend jp je ss where "finish_init X L C m i pend jp je ss = Inr (v, k, p)"
    unfolding process_init_def Let_def by (auto split: sum.splits option.splits if_splits)
  then show ?thesis unfolding finish_init_def Let_def by (auto split: option.splits intro!: typed_object)
qed

lemma typed_handshake [typed_runs]:
  assumes "env_values E"
  shows "py.runs s0 (handle_handshake_init E msg)"
proof -
  have greeting: "py.runs t (send_signed p Welcome (welcome_payload E s))" for t :: "'a node" and p s
    unfolding welcome_payload_def by (auto intro!: typed_send jcanon_jobj split: option.split)
  have "py.runs t (send_signed p InviteHandshakeAccept v)"
    if "process_init (ne_kdf E) (ne_json E) (ne_crates E) (int (ne_secs E)) (sm_payload msg) m = Inr (v, k, j)" for t :: "'a node" and p v k j m
    unfolding send_signed_def using accept_payload_typed [OF that] by (intro typed_emit) simp
  then show ?thesis
    unfolding handle_handshake_init_def using assms by (auto intro!: typed_runs greeting split: sum.split option.split)
qed

lemma typed_requests [typed_runs]:
  assumes "env_values E"
  shows "py.runs s0 (handle_game_relay_join msg)" "py.runs s0 (handle_punch_register E msg)" "py.runs s0 (handle_relay_request E msg)"
    "py.runs s0 (relay_to_payload_target msg raw)" "py.runs s0 (on_peer_connected E p)" "py.runs s0 (on_peer_disconnected E p)"
proof -
  show "py.runs s0 (on_peer_disconnected E p)"
    unfolding on_peer_disconnected_def Let_def case_prod_beta
    by (intro py.runs_Cons py.runs_Nil typed_update typed_with_sfu py.runs_steps) (auto intro!: typed_runs split: if_splits)
qed (use assms in \<open>auto simp: handle_game_relay_join_def handle_punch_register_def handle_relay_request_def relay_to_payload_target_def
      on_peer_connected_def Let_def intro!: typed_runs split: option.split\<close>)

lemma typed_message [typed_runs]: "env_values E \<Longrightarrow> py.runs s0 (on_message E msg raw)"
  unfolding on_message_def by (cases "sm_type msg") (auto intro!: typed_runs)

lemma typed_replicated [typed_runs]:
  "py.runs s0 (send_audio_to E fwd raw p)" "py.runs s0 (deliver_replicated_chat E i mid raw)" "py.runs s0 (deliver_replicated_game_datagram E i mid raw)"
  "py.runs s0 (replicate_game_datagram E i p payload)"
  unfolding send_audio_to_def deliver_replicated_chat_def deliver_replicated_game_datagram_def replicate_game_datagram_def Let_def
  by (auto intro!: typed_runs split: option.split prod.split)

lemma typed_audio [typed_runs]:
  "py.runs s0 (deliver_replicated_audio E i mid raw)" "py.runs s0 (room_audio_bridge E p idx i inner)"
  unfolding deliver_replicated_audio_def room_audio_bridge_def Let_def case_prod_beta
  by (auto intro!: typed_runs split: option.split)

lemma typed_link [typed_runs]: "env_values E \<Longrightarrow> py.runs s0 (on_link_callback E cb)"
  by (cases cb) (auto simp: on_link_callback_def deliver_replicated_room_frame_def intro!: typed_runs)

lemma typed_relay [typed_runs]:
  "py.runs s0 (relay_connected E p c)" "py.runs s0 (relay_closed E p c)" "py.runs s0 (relay_cleanup E)" "py.runs s0 (relay_datagram E p data)"
proof -
  have "py.runs t (on_relay_out E out)" for t :: "'a node" and out
    unfolding on_relay_out_def by (cases out) (auto intro!: typed_runs)
  then show "py.runs s0 (relay_datagram E p data)"
    unfolding relay_datagram_def Let_def case_prod_beta by (auto intro!: typed_runs split: option.split)
qed (auto simp: relay_connected_def relay_closed_def relay_cleanup_def intro!: typed_runs)

lemma typed_sig_out: "env_values E \<Longrightarrow> py.runs s0 (on_sig_out E out)"
  unfolding on_sig_out_def by (cases out) (auto intro!: typed_runs)

lemma typed_outputs: "py.runs s a \<Longrightarrow> e \<in> set (fst (a s)) \<Longrightarrow> payload_typed e"
  by (simp add: py.runs_def)

lemma node_step_typed:
  assumes "env_values E" "e \<in> set (fst (node_step E ev st))"
  shows "payload_typed e"
proof (cases ev)
  case (Ev_frame ck raw conn g)
  with assms(2) obtain souts sig where "e \<in> set (fst (steps (map (on_sig_out E) souts) (st\<lparr>nd_sig := sig\<rparr>)))"
    by (auto simp: node_step_def socket_frame_def Let_def case_prod_beta)
  then show ?thesis by (rule typed_outputs [rotated]) (intro typed_map typed_sig_out assms(1))
next
  case (Ev_close conn g)
  with assms(2) obtain souts sig where "e \<in> set (fst (steps (map (on_sig_out E) souts) (st\<lparr>nd_sig := sig\<rparr>)))"
    by (auto simp: node_step_def socket_close_def Let_def case_prod_beta)
  then show ?thesis by (rule typed_outputs [rotated]) (intro typed_map typed_sig_out assms(1))
qed (use assms in \<open>auto simp: node_step_def intro!: typed_outputs [rotated] typed_runs\<close>)

end
