(* ===== verification/Node_Properties.thy ===== *)
theory Node_Properties
  imports Node_Payloads
begin

text \<open>
  Properties of the composed supernode: the components keep their invariants inside the node, the
  access gate, the confinement and the delivery of room frames, and where the node falls short.
\<close>

section \<open>A concrete node\<close>

definition demo_env :: node_env where
  "demo_env = \<lparr>ne_crates = plain_crates, ne_json = plain_json, ne_kdf = plain_kdf, ne_unix = 0, ne_now = 0, ne_iter = sorted_list_of_set,
     ne_nonce = ''n'', ne_addr = (\<lambda>_. ''1.2.3.4:5''), ne_relay = plain_env, ne_b64_std = (\<lambda>_. []), ne_b64_std_decode = (\<lambda>_. None),
     ne_b64_url_decode = (\<lambda>s. Some (as_bytes s)), ne_show_f64 = (\<lambda>_. []),
     ne_admission = (\<lambda>_. \<lparr>ap_space_proof = None, ap_space_root = None, ap_space_grant = None, ap_invite_token = []\<rparr>),
     ne_root = (\<lambda>_. None), ne_caps = (\<lambda>_. VNull), ne_rooms = (\<lambda>_. []), ne_cluster = None, ne_external_host = None, ne_relay_port = 1,
     ne_web_title = [], ne_policy = default_room_policy, ne_build_id = [], ne_source_hash = [], ne_decode_error = (\<lambda>_. [])\<rparr>"

definition demo_start :: "access_mode \<Rightarrow> nat node" where
  "demo_start mode = new_node plain_identity Map.empty demo_manager True True mode ''c'' Map.empty new_registry False"

lemma demo_env_ok: "ne_crates demo_env = plain_crates" "env_ok (ne_relay demo_env)"
  by (simp_all add: demo_env_def plain_env_ok)

lemma demo_reachable_start: "node_reachable plain_crates (demo_start mode)"
  unfolding demo_start_def by (rule node_reachable.start) (rule registry_reachable.init)

definition room_message :: "message_type \<Rightarrow> peer_id \<Rightarrow> (string \<times> jvalue) list \<Rightarrow> signaling_message" where
  "room_message t p kvs = new_message 0 t p (jobj kvs)"

section \<open>The components inside the node\<close>



section \<open>The access gate\<close>



section \<open>Room frames\<close>

text \<open>The frames a room member sends to its room through the node, other than audio.\<close>

definition room_frame_type :: "message_type \<Rightarrow> bool" where
  "room_frame_type t \<longleftrightarrow> t \<in> {SfuChat, SfuVideoState, SfuVideoKeyframeRequest, SfuFileOffer, SfuFileRequest, SfuFileRevoke, SfuFileChunk, SfuFileComplete}"

definition only_features :: "'m node \<Rightarrow> 'm node \<Rightarrow> bool" where
  "only_features s t \<longleftrightarrow> t = s\<lparr>nd_features := nd_features t\<rparr>"

definition frame_confined :: "signaling_message \<Rightarrow> string \<Rightarrow> 'm node \<Rightarrow> node_out \<Rightarrow> bool" where
  "frame_confined msg raw st e \<longleftrightarrow>
     (\<exists>m. sn_sfu (nd_rooms st) = Some m \<and> is_chat_sender (room_of msg) (sm_sender msg) m \<and>
        (case e of
           Out_raw p r \<Rightarrow> r = raw \<and> p \<in> get_chat_recipients (room_of msg) m \<and>
             (if sm_type msg = SfuVideoKeyframeRequest
              then \<exists>t. get_str ''target_peer'' (sm_payload msg) = Some t \<and> is_room_frame_author p t
              else \<not> is_room_frame_author p (sm_sender msg))
         | Out_replicate i mid r \<Rightarrow> i = room_of msg \<and> r = raw \<and> sm_type msg = SfuChat
         | _ \<Rightarrow> False))"

lemma only_features_rooms: "only_features s t \<Longrightarrow> nd_rooms t = nd_rooms s"
  unfolding only_features_def by (drule arg_cong [of _ _ nd_rooms]) simp

lemma only_features_linked: "only_features s t \<Longrightarrow> nd_linked t = nd_linked s"
  unfolding only_features_def by (drule arg_cong [of _ _ nd_linked]) simp

lemma frame_confined_above: "frame_confined msg raw s e \<Longrightarrow> only_features s t \<Longrightarrow> frame_confined msg raw t e"
  unfolding frame_confined_def by (drule only_features_rooms) simp

interpretation fr: growing_actions "\<lambda>_. True" only_features "frame_confined msg raw" for msg raw
proof
  fix s t u :: "'a node" and e
  show "only_features s s" by (simp add: only_features_def)
  show "only_features s t \<Longrightarrow> only_features t u \<Longrightarrow> only_features s u" unfolding only_features_def by (metis node.update_convs(11) node.surjective)
  show "frame_confined msg raw s e \<Longrightarrow> only_features s t \<Longrightarrow> frame_confined msg raw t e"
    by (rule frame_confined_above)
qed

lemma confined_gated:
  assumes "\<And>s ok. only_features s0 s \<Longrightarrow> fr.runs msg raw s (k ok)"
  shows "fr.runs msg raw s0 (gated gate E fid p n k)"
  unfolding gated_def Let_def case_prod_beta
  by (intro fr.runs_reading fr.runs_Cons fr.runs_Nil fr.runs_update assms) (auto simp: only_features_def)

lemma confined_emit:
  assumes "\<And>e. e \<in> set es \<Longrightarrow> frame_confined msg raw s0 e"
  shows "fr.runs msg raw s0 (emit es)"
  by (rule fr.runs_emit) (rule frame_confined_above [OF assms])

lemma confined_fan_out:
  assumes "\<And>p. p \<in> set ps \<Longrightarrow> frame_confined msg raw s0 (Out_raw p raw)"
  shows "fr.runs msg raw s0 (fan_out_raw E fid raw ps)"
  unfolding fan_out_raw_def
proof (rule fr.runs_steps, clarsimp, rule confined_gated)
  fix p s ok assume "p \<in> set ps" "only_features s0 s"
  then have "frame_confined msg raw s (Out_raw p raw)" using assms fr.may_send_mono by blast
  then show "fr.runs msg raw s (if ok then emit [Out_raw p raw] else skip)"
    by (auto intro!: confined_emit fr.runs_skip)
qed

lemma confined_with_sfu:
  assumes "\<And>s m. only_features s0 s \<Longrightarrow> sn_sfu (nd_rooms s) = Some m \<Longrightarrow> fr.runs msg raw s (f m)"
  shows "fr.runs msg raw s0 (with_sfu f)"
  unfolding with_sfu_def by (rule fr.runs_reading) (auto intro: assms fr.runs_skip split: option.split)

lemma frame_confined_raw:
  assumes "only_features s t" "sn_sfu (nd_rooms s) = Some m" "is_chat_sender (room_of msg) (sm_sender msg) m"
    and "p \<in> get_chat_recipients (room_of msg) m"
    and "sm_type msg \<noteq> SfuVideoKeyframeRequest" "\<not> is_room_frame_author p (sm_sender msg)"
  shows "frame_confined msg raw t (Out_raw p raw)"
  using assms only_features_rooms [OF assms(1)] by (simp add: frame_confined_def)

lemma frame_confined_replicate:
  assumes "only_features s t" "sn_sfu (nd_rooms s) = Some m" "is_chat_sender (room_of msg) (sm_sender msg) m" "sm_type msg = SfuChat"
  shows "fr.runs msg raw t (replicate_room_chat (room_of msg) msg raw)"
  unfolding replicate_room_chat_def replicate_frame_def
proof (rule fr.runs_reading)
  fix u assume "only_features t u"
  then have "nd_rooms u = nd_rooms s" using only_features_rooms assms(1) by metis
  then show "fr.runs msg raw u (if nd_linked u then emit [Out_replicate (room_of msg) (get_str_or [] ''message_id'' (sm_payload msg)) raw] else skip)"
    using assms by (auto intro!: confined_emit fr.runs_skip simp: frame_confined_def)
qed

text \<open>Iterating over a hash set gives elements of the set.\<close>

definition iter_sound :: "node_env \<Rightarrow> bool" where
  "iter_sound E \<longleftrightarrow> (\<forall>S. set (ne_iter E S) \<subseteq> S)"

lemma iterD: "iter_sound E \<Longrightarrow> p \<in> set (ne_iter E S) \<Longrightarrow> p \<in> S"
  by (auto simp: iter_sound_def)

lemma confined_chat:
  assumes "sm_type msg = SfuChat" "iter_sound E"
  shows "fr.runs msg raw s0 (handle_sfu_chat_broadcast E msg raw)"
  unfolding handle_sfu_chat_broadcast_def Let_def
proof (rule confined_with_sfu)
  fix s m assume s: "only_features s0 s" "sn_sfu (nd_rooms s) = Some m"
  have "fr.runs msg raw t (steps [fan_out_raw E ''room.chat.v1'' raw
        (filter (\<lambda>p. \<not> is_room_frame_author p (sm_sender msg)) (ne_iter E (get_chat_recipients (room_of msg) m))),
      replicate_room_chat (room_of msg) msg raw])" if "is_chat_sender (room_of msg) (sm_sender msg) m" "only_features s t" for t
    using assms that s(2)
    by (intro fr.runs_Cons fr.runs_Nil confined_fan_out frame_confined_raw [OF that(2) s(2)] frame_confined_replicate [OF that(2) s(2)]) (auto intro: iterD)
  then show "fr.runs msg raw s (if sfu_chat_byte_count msg = 0 then skip
      else gated gate_inbound_through_feature E ''room.chat.v1'' (sm_sender msg) (sfu_chat_byte_count msg) (\<lambda>ok.
        if \<not> ok then skip else if \<not> is_chat_sender (room_of msg) (sm_sender msg) m then skip
        else steps [fan_out_raw E ''room.chat.v1'' raw
            (filter (\<lambda>p. \<not> is_room_frame_author p (sm_sender msg)) (ne_iter E (get_chat_recipients (room_of msg) m))),
          replicate_room_chat (room_of msg) msg raw]))"
    by (auto intro!: confined_gated fr.runs_skip)
qed

lemma file_targets:
  assumes "p \<in> set (file_frame_recipients rs sender to)"
  shows "p \<in> set rs \<and> \<not> is_room_frame_author p sender"
proof (cases to)
  case (Some t)
  have "p \<in> set (filter (\<lambda>p. is_room_frame_author p t \<and> \<not> is_room_frame_author p sender) rs)"
    using assms unfolding file_frame_recipients_def Some option.case by (rule set_take_subset [THEN subsetD])
  then show ?thesis by simp
qed (use assms in \<open>simp add: file_frame_recipients_def\<close>)

lemma confined_file:
  assumes "sm_type msg \<noteq> SfuVideoKeyframeRequest" "iter_sound E"
  shows "fr.runs msg raw s0 (handle_sfu_broadcast E msg raw mt)"
  unfolding handle_sfu_broadcast_def Let_def
proof (rule confined_with_sfu)
  fix s m assume s: "only_features s0 s" "sn_sfu (nd_rooms s) = Some m"
  let ?targets = "file_frame_recipients (ne_iter E (get_chat_recipients (room_of msg) m)) (sm_sender msg) (get_str ''to'' (sm_payload msg))"
  have sub: "p \<in> get_chat_recipients (room_of msg) m \<and> \<not> is_room_frame_author p (sm_sender msg)" if "p \<in> set ?targets" for p
    using file_targets [OF that] iterD [OF assms(2)] by blast
  have "fr.runs msg raw t (if file_payload_bypasses_quota mt then emit (map (\<lambda>p. Out_raw p raw) ?targets) else fan_out_raw E ''room.file.v1'' raw ?targets)"
    if "is_chat_sender (room_of msg) (sm_sender msg) m" "only_features s t" for t
    using sub that(1) assms(1)
    by (auto intro!: confined_emit confined_fan_out frame_confined_raw [OF that(2) s(2)])
  then show "fr.runs msg raw s (if sfu_file_inbound_byte_count msg mt = 0 then skip
      else gated gate_inbound_through_feature E ''room.file.v1'' (sm_sender msg) (sfu_file_inbound_byte_count msg mt) (\<lambda>within_quota.
        if \<not> within_quota \<and> \<not> file_payload_bypasses_quota mt then skip
        else if \<not> is_chat_sender (room_of msg) (sm_sender msg) m then skip
        else if file_payload_bypasses_quota mt then emit (map (\<lambda>p. Out_raw p raw) ?targets) else fan_out_raw E ''room.file.v1'' raw ?targets))"
    by (auto intro!: confined_gated fr.runs_skip)
qed

lemma confined_video_state:
  assumes "sm_type msg = SfuVideoState" "iter_sound E"
  shows "fr.runs msg raw s0 (handle_sfu_video_state E msg raw)"
  unfolding handle_sfu_video_state_def Let_def
  by (rule confined_with_sfu)
     (use assms in \<open>auto intro!: confined_emit fr.runs_skip frame_confined_raw [OF fr.above_refl] intro: iterD\<close>)

lemma confined_keyframe:
  assumes "sm_type msg = SfuVideoKeyframeRequest" "iter_sound E"
  shows "fr.runs msg raw s0 (handle_sfu_video_keyframe_request E msg raw)"
  unfolding handle_sfu_video_keyframe_request_def Let_def
proof (rule confined_with_sfu)
  fix s m assume s: "only_features s0 s" "sn_sfu (nd_rooms s) = Some m"
  have hit: "p \<in> get_chat_recipients (room_of msg) m \<and> is_room_frame_author p t"
    if "filter (\<lambda>p. is_room_frame_author p t) (ne_iter E (get_chat_recipients (room_of msg) m)) = p # ps" for p ps t
  proof -
    have "p \<in> set (filter (\<lambda>p. is_room_frame_author p t) (ne_iter E (get_chat_recipients (room_of msg) m)))" unfolding that by simp
    then show ?thesis using iterD [OF assms(2)] by simp
  qed
  show "fr.runs msg raw s (case get_str ''target_peer'' (sm_payload msg) of None \<Rightarrow> skip
      | Some target \<Rightarrow> if target = [] \<or> \<not> is_chat_sender (room_of msg) (sm_sender msg) m then skip
          else case filter (\<lambda>p. is_room_frame_author p target) (ne_iter E (get_chat_recipients (room_of msg) m)) of
            [] \<Rightarrow> skip | p # _ \<Rightarrow> emit [Out_raw p raw])"
    using s(2) assms(1)
    by (auto intro!: fr.runs_skip confined_emit simp: frame_confined_def split: option.split list.split dest!: hit)
qed



section \<open>Chat delivery\<close>

lemma outbound_decision:
  assumes "fr_inner r' = fr_inner r" "fr_outbound_quotas r' (fid, p) = fr_outbound_quotas r (fid, p)"
  shows "fst (gate_through_feature fid p n now r') = fst (gate_through_feature fid p n now r)"
  using assms by (auto simp: gate_through_feature_def try_consume_def bucket_for_def Let_def case_prod_beta split: option.split)

lemma gate_inner:
  "fr_inner (snd (gate_through_feature fid p n now r)) = fr_inner r" "fr_inner (snd (gate_inbound_through_feature fid p n now r)) = fr_inner r"
  by (auto simp: gate_through_feature_def gate_inbound_through_feature_def Let_def case_prod_beta split: option.split)

lemma gated_eq:
  "gated gate E fid p n k st =
     k (fst (gate fid p n (ne_now E) (nd_features st))) (st\<lparr>nd_features := snd (gate fid p n (ne_now E) (nd_features st))\<rparr>)"
  by (simp add: gated_def reading_def Let_def case_prod_beta steps_Cons update_def)

lemma fan_out_features: "only_features st (snd (fan_out_raw E fid raw ps st))"
proof (induction ps arbitrary: st)
  case (Cons p ps)
  from Cons [of "st\<lparr>nd_features := snd (gate_through_feature fid p (length raw) (ne_now E) (nd_features st))\<rparr>"] show ?case
    by (simp add: fan_out_raw_def steps_Cons gated_eq emit_def skip_def only_features_def)
qed (simp add: fan_out_raw_def only_features_def)

lemma fan_out_raw_eq:
  assumes "distinct ps"
  shows "fst (fan_out_raw E fid raw ps st) =
      map (\<lambda>p. Out_raw p raw) (filter (\<lambda>p. fst (gate_through_feature fid p (length raw) (ne_now E) (nd_features st))) ps)"
proof -
  let ?gate = "\<lambda>p reg. gate_through_feature fid p (length raw) (ne_now E) reg"
  show "fst (fan_out_raw E fid raw ps st) = map (\<lambda>p. Out_raw p raw) (filter (\<lambda>p. fst (?gate p (nd_features st))) ps)"
    using assms
  proof (induction ps arbitrary: st)
    case (Cons p ps)
    let ?st = "st\<lparr>nd_features := snd (?gate p (nd_features st))\<rparr>"
    have "fst (?gate q (nd_features ?st)) = fst (?gate q (nd_features st))" if "q \<in> set ps" for q
      using that Cons.prems quota_isolation [of fid p "length raw" "ne_now E" "nd_features st" "[]" fid q]
      by (intro outbound_decision) (auto simp: gate_inner)
    then have "filter (\<lambda>q. fst (?gate q (nd_features ?st))) ps = filter (\<lambda>q. fst (?gate q (nd_features st))) ps"
      by (intro filter_cong) simp_all
    with Cons.IH [of ?st] Cons.prems show ?case
      by (simp add: fan_out_raw_def steps_Cons gated_eq emit_def skip_def)
  qed (simp add: fan_out_raw_def)
qed

text \<open>
  C6. A chat message of a member with a non-empty body whose sender is within its quota reaches
  exactly the other members of the room whose own quota has space for the frame, once each and
  unchanged (what one member receives does not depend on the others), and the cluster once, if the
  node is in one.
\<close>

theorem chat_reaches_members:
  assumes "sn_sfu (nd_rooms st) = Some m" "sm_type msg = SfuChat" "is_chat_sender (room_of msg) (sm_sender msg) m"
    and "get_str ''body'' (sm_payload msg) = Some body" "body \<noteq> []"
    and "fst (gate_inbound_through_feature ''room.chat.v1'' (sm_sender msg) (length body) (ne_now E) (nd_features st))"
    and "distinct (ne_iter E (get_chat_recipients (room_of msg) m))"
    and "set (ne_iter E (get_chat_recipients (room_of msg) m)) = get_chat_recipients (room_of msg) m"
    and "on_message E msg raw st = (outs, st')"
  shows "distinct outs \<and>
    (\<forall>p r. Out_raw p r \<in> set outs \<longleftrightarrow> r = raw \<and> p \<in> get_chat_recipients (room_of msg) m \<and>
       \<not> is_room_frame_author p (sm_sender msg) \<and>
       fst (gate_through_feature ''room.chat.v1'' p (length raw) (ne_now E) (nd_features st))) \<and>
    filter (\<lambda>e. \<forall>p. e \<noteq> Out_raw p raw) outs =
      (if nd_linked st then [Out_replicate (room_of msg) (get_str_or [] ''message_id'' (sm_payload msg)) raw] else [])"
proof -
  let ?in = "gate_inbound_through_feature ''room.chat.v1'' (sm_sender msg) (length body) (ne_now E) (nd_features st)"
  let ?st1 = "st\<lparr>nd_features := snd ?in\<rparr>"
  let ?ps = "filter (\<lambda>p. \<not> is_room_frame_author p (sm_sender msg)) (ne_iter E (get_chat_recipients (room_of msg) m))"
  let ?ok = "\<lambda>p. fst (gate_through_feature ''room.chat.v1'' p (length raw) (ne_now E) (nd_features st))"
  let ?fan = "fan_out_raw E ''room.chat.v1'' raw ?ps ?st1"
  have same: "fst (gate_through_feature ''room.chat.v1'' p (length raw) (ne_now E) (nd_features ?st1)) = ?ok p" for p
    using quota_isolation [of "''room.chat.v1''" "sm_sender msg" "length body" "ne_now E" "nd_features st"]
    by (intro outbound_decision) (simp_all add: gate_inner)
  have fan: "fst ?fan = map (\<lambda>p. Out_raw p raw) (filter ?ok ?ps)"
    using fan_out_raw_eq [of ?ps E "''room.chat.v1''" raw ?st1] assms(7) unfolding same by simp
  have "nd_linked (snd ?fan) = nd_linked st"
    using only_features_linked [OF fan_out_features [of ?st1 E "''room.chat.v1''" raw ?ps]] by simp
  then have "outs = fst ?fan @ (if nd_linked st then [Out_replicate (room_of msg) (get_str_or [] ''message_id'' (sm_payload msg)) raw] else [])"
    using assms(9) assms(1-6)
    by (cases "nd_linked st") (simp_all add: on_message_def handle_sfu_chat_broadcast_def with_sfu_def reading_def sfu_chat_byte_count_def gated_eq steps_Cons
        replicate_room_chat_def replicate_frame_def emit_def skip_def Let_def)
  with fan have outs: "outs = map (\<lambda>p. Out_raw p raw) (filter ?ok ?ps) @
      (if nd_linked st then [Out_replicate (room_of msg) (get_str_or [] ''message_id'' (sm_payload msg)) raw] else [])" by simp
  show ?thesis
    unfolding outs using assms(7,8) by (auto simp: distinct_map inj_on_def filter_map)
qed

definition chat_node :: "nat node" where
  "chat_node = (demo_start Open)\<lparr>nd_rooms := \<lparr>sn_roots = new_root_store, sn_sfu = Some \<lparr>sm_rooms =
     [DEFAULT_ROOM_ID \<mapsto> (new_room DEFAULT_ROOM_ID [] Public [])\<lparr>sr_subscribers := {''a'', ''b''}\<rparr>]\<rparr>\<rparr>\<rparr>"

lemma normalize_ab [simp]: "normalize_peer_id ''a'' = ''a''" "normalize_peer_id ''b'' = ''b''"
  by (simp_all add: normalize_peer_id_def trim_end_def)

theorem chat_reaches_members_witness:
  "\<exists>outs st'. on_message demo_env (room_message SfuChat ''a'' [(''body'', VStr ''hi'')]) ''raw'' chat_node = (outs, st') \<and>
     Out_raw ''b'' ''raw'' \<in> set outs"
proof -
  let ?msg = "room_message SfuChat ''a'' [(''body'', VStr ''hi'')]"
  let ?m = "\<lparr>sm_rooms = [DEFAULT_ROOM_ID \<mapsto> (new_room DEFAULT_ROOM_ID [] Public [])\<lparr>sr_subscribers := {''a'', ''b''}\<rparr>]\<rparr>"
  obtain outs st' where o: "on_message demo_env ?msg ''raw'' chat_node = (outs, st')" by force
  have r: "room_of ?msg = DEFAULT_ROOM_ID" by (simp add: room_message_def new_message_def room_of_def jget_jobj get_str_or_def get_str_def)
  have rec: "get_chat_recipients DEFAULT_ROOM_ID ?m = {''a'', ''b''}"
    by (simp add: get_chat_recipients_def chat_recipient_ids_def new_room_def)
  have free: "fst (gate_inbound_through_feature fid p n now (nd_features chat_node))" "fst (gate_through_feature fid p n now (nd_features chat_node))"
    for fid p n now
    by (simp_all add: chat_node_def demo_start_def new_node_def new_registry_def gate_inbound_through_feature_def gate_through_feature_def)
  have sfu: "sn_sfu (nd_rooms chat_node) = Some ?m" by (simp add: chat_node_def)
  have msg: "sm_type ?msg = SfuChat" "sm_sender ?msg = ''a''" "get_str ''body'' (sm_payload ?msg) = Some ''hi''"
    by (simp_all add: room_message_def new_message_def get_str_def jget_jobj)
  have sender: "is_chat_sender (room_of ?msg) (sm_sender ?msg) ?m" unfolding r msg by (simp add: is_chat_sender_def new_room_def)
  have it: "ne_iter demo_env S = sorted_list_of_set S" for S by (simp add: demo_env_def)
  have en: "distinct (ne_iter demo_env (get_chat_recipients (room_of ?msg) ?m))"
    "set (ne_iter demo_env (get_chat_recipients (room_of ?msg) ?m)) = get_chat_recipients (room_of ?msg) ?m"
    unfolding r rec it by simp_all
  have "Out_raw ''b'' ''raw'' \<in> set outs"
    using chat_reaches_members [OF sfu msg(1) sender msg(3) _ free(1) en o] unfolding r rec msg
    by (simp add: free is_room_frame_author_def)
  with o show ?thesis by blast
qed

section \<open>Payloads\<close>

lemma jobj_sorted: "jcanon (VObj kvs) \<Longrightarrow> jobj kvs = VObj kvs"
  by (simp add: jobj_def bt_of_sorted_id)



section \<open>The endpoint mailbox\<close>

lemma load_entries_map:
  assumes "\<And>p. p \<in> set ps \<Longrightarrow> p \<noteq> [] \<and> (\<exists>raw. M p = Some raw \<and> raw \<noteq> [])" "now - t \<le> ENDPOINT_MAX_AGE_S"
  shows "load_entries now (map (\<lambda>p. jobj [(''peer_id'', VStr p), (''raw'', VStr (the (M p))), (''stored_at'', VNum (NFloat t))]) ps) acc =
    (\<lambda>p. if p \<in> set ps then M p else acc p)"
  using assms(1)
proof (induction ps arbitrary: acc)
  case (Cons p ps)
  obtain raw where raw: "p \<noteq> []" "M p = Some raw" "raw \<noteq> []" using Cons.prems [of p] by auto
  have "load_entries now (map (\<lambda>p. jobj [(''peer_id'', VStr p), (''raw'', VStr (the (M p))), (''stored_at'', VNum (NFloat t))]) ps) (acc(p \<mapsto> raw)) =
      (\<lambda>q. if q \<in> set ps then M q else (acc(p \<mapsto> raw)) q)"
    using Cons.prems by (intro Cons.IH) auto
  then show ?case using raw assms(2) by (simp add: Let_def get_str_or_def get_str_def jget_jobj) (auto simp: fun_eq_iff)
qed simp

lemma load_entries_stale:
  assumes "ENDPOINT_MAX_AGE_S < now - t"
  shows "load_entries now (map (\<lambda>p. jobj [(''peer_id'', VStr p), (''raw'', VStr (f p)), (''stored_at'', VNum (NFloat t))]) ps) acc = acc"
  using assms by (induction ps arbitrary: acc) (simp_all add: Let_def get_str_or_def get_str_def jget_jobj)

text \<open>
  The endpoint mailbox survives a restart: what is saved is loaded back entry for entry, in whatever
  order it was written, if the node is up again within a day; after more than a day nothing is loaded.
\<close>

lemma mailbox_survives_restart:
  assumes "set (ne_iter E (dom (nd_mailbox st))) = dom (nd_mailbox st)"
    and "\<forall>p raw. nd_mailbox st p = Some raw \<longrightarrow> p \<noteq> [] \<and> raw \<noteq> []"
  shows "load_endpoint_mailbox now (Some (save_endpoint_mailbox E st)) =
    (if now - ne_unix E \<le> ENDPOINT_MAX_AGE_S then nd_mailbox st else Map.empty)"
proof (cases "now - ne_unix E \<le> ENDPOINT_MAX_AGE_S")
  case True
  have "load_endpoint_mailbox now (Some (save_endpoint_mailbox E st)) =
      (\<lambda>p. if p \<in> set (ne_iter E (dom (nd_mailbox st))) then nd_mailbox st p else None)"
    unfolding load_endpoint_mailbox_def save_endpoint_mailbox_def
    using load_entries_map [of "ne_iter E (dom (nd_mailbox st))" "nd_mailbox st" now "ne_unix E" Map.empty] assms True by fastforce
  then show ?thesis using True assms(1) by (auto simp: fun_eq_iff)
next
  case False
  then show ?thesis
    by (simp add: load_endpoint_mailbox_def save_endpoint_mailbox_def load_entries_stale)
qed

lemma mailbox_survives_restart_witness:
  "load_endpoint_mailbox 60 (Some (save_endpoint_mailbox demo_env ((demo_start Open)\<lparr>nd_mailbox := [''a'' \<mapsto> ''x'']\<rparr>))) = [''a'' \<mapsto> ''x'']"
  by (subst mailbox_survives_restart) (simp_all add: demo_env_def ENDPOINT_MAX_AGE_S_def)

section \<open>Where the node falls short\<close>

text \<open>
  C37. A creation request for a private room that already exists admits its sender: without a creator in
  the payload the sender counts as the creator, so any peer that knows the id of a private room puts
  itself on its access list and can join it, although it was never invited.
\<close>

theorem room_create_admits_anyone:
  assumes "node_reachable C st" "sn_sfu (nd_rooms st) = Some m" "get_room i m = Some r" "\<not> is_full r"
    and "sm_type msg = SfuRoomCreate" "get_str ''room_id'' (sm_payload msg) = Some i"
    and "get_str ''room_type'' (sm_payload msg) = Some ''private''"
    and "get_str ''creator_id'' (sm_payload msg) = None" "get_str ''invite_token'' (sm_payload msg) = None"
    and "on_message E msg raw st = (outs, st')"
  shows "\<exists>m'. sn_sfu (nd_rooms st') = Some m' \<and> fst (fst (join_room (sm_sender msg) i m')) \<and>
    outs = [Out_signed (sm_sender msg) SfuRoomCreated (jobj [(''room_id'', VStr i), (''room_name'', VStr (sr_room_name r)),
      (''room_type'', VStr ''private''), (''invite_token'', VNull)])]"
proof -
  have r: "sm_rooms m i = Some r" using assms(3) by (simp add: get_room_def)
  have i: "sr_room_id r = i"
    using sfu_reachable_managed [OF rooms_fineD [OF node_okD(1) [OF node_reachable_ok [OF assms(1)]] assms(2)] r]
    by (simp add: managed_ok_def)
  have tok: "get_str_or [] ''invite_token'' (sm_payload msg) = []" using assms(9) by (simp add: get_str_or_def)
  have re: "readmit_creator E (sm_sender msg) (sm_sender msg) [] r False m = (None, snd (allow_peer i (sm_sender msg) m))"
    by (simp add: readmit_creator_def Let_def i)
  have "on_message E msg raw st = steps [set_sfu (snd (allow_peer i (sm_sender msg) m)),
      created_reply (sm_sender msg) i (sr_room_name r) Private None] st"
    using assms(2,3,5-8) tok re r i
    by (simp add: on_message_def handle_sfu_room_create_def with_sfu_def reading_def room_type_of_def Let_def create_room_with_policy_def)
  then have "outs = [Out_signed (sm_sender msg) SfuRoomCreated (jobj [(''room_id'', VStr i), (''room_name'', VStr (sr_room_name r)),
      (''room_type'', VStr ''private''), (''invite_token'', VNull)])]"
    and "sn_sfu (nd_rooms st') = Some (snd (allow_peer i (sm_sender msg) m))"
    using assms(10) by (auto simp: steps_Cons set_sfu_def update_def created_reply_def send_signed_def emit_def room_type_name_def)
  with join_after_allow [OF r assms(4)] show ?thesis by auto
qed

text \<open>
  An audio frame is forwarded to the participants of the room it names whoever sent it: with fewer
  than five active speakers, a sender that is no member and never joined is heard by every participant
  within quota and takes one of the five speaker slots, also in a private room.
\<close>

lemma stranger_audio_reaches_room:
  assumes "sn_sfu (nd_rooms st) = Some m" "get_room (room_of msg) m = Some r" "length (sr_active_speakers r) < 5"
    and "sm_type msg = SfuAudio" "get_str ''audio'' (sm_payload msg) = Some audio" "ne_b64_url_decode E audio = Some opus" "opus \<noteq> []"
    and "fst (gate_inbound_through_feature ''room.audio.sfu'' (sm_sender msg) (length opus) (ne_now E) (nd_features st))"
    and "distinct (ne_iter E (participant_ids r))" "set (ne_iter E (participant_ids r)) = participant_ids r"
    and "on_message E msg raw st = (outs, st')"
  shows "(\<forall>p \<in> participant_ids r. p \<noteq> sm_sender msg \<and>
       fst (gate_through_feature ''room.audio.sfu'' p (length raw) (ne_now E) (nd_features st)) \<longrightarrow> Out_raw p raw \<in> set outs) \<and>
    (\<exists>m' r'. sn_sfu (nd_rooms st') = Some m' \<and> get_room (room_of msg) m' = Some r' \<and> sm_sender msg \<in> set (sr_active_speakers r'))"
proof -
  let ?in = "gate_inbound_through_feature ''room.audio.sfu'' (sm_sender msg) (length opus) (ne_now E) (nd_features st)"
  let ?n = "note_audio_should_forward (sm_sender msg) (ne_time E) r"
  let ?m' = "m\<lparr>sm_rooms := (sm_rooms m)(room_of msg \<mapsto> snd ?n)\<rparr>"
  let ?st2 = "st\<lparr>nd_features := snd ?in, nd_rooms := (nd_rooms st)\<lparr>sn_sfu := Some ?m'\<rparr>\<rparr>"
  let ?ps = "filter (\<lambda>p. p \<noteq> sm_sender msg) (ne_iter E (participant_ids r))"
  let ?fan = "fan_out_raw E ''room.audio.sfu'' raw ?ps ?st2"
  have "length (filter P (sr_active_speakers r)) < 5" for P
    using le_less_trans [OF length_filter_le assms(3)] .
  then have n: "fst ?n" "sm_sender msg \<in> set (sr_active_speakers (snd ?n))"
    unfolding note_audio_cases by (auto simp: drop_silent_active)
  have ids: "participant_ids (snd ?n) = participant_ids r" by (simp add: participant_ids_def)
  have t: "audio_forward_targets (room_of msg) (sm_sender msg) (ne_time E) m = (Some (participant_ids r), ?m')"
    using assms(2) n(1) ids by (simp add: audio_forward_targets_def get_room_def Let_def case_prod_beta)
  have "on_message E msg raw st =
      (fst ?fan @ fst (replicate_room_audio (room_of msg) msg raw (snd ?fan)), snd (replicate_room_audio (room_of msg) msg raw (snd ?fan)))"
    using assms(1,4-8) t
    by (simp add: on_message_def handle_sfu_audio_broadcast_def with_sfu_def reading_def sfu_audio_opus_byte_count_def gated_eq steps_Cons
        set_sfu_def update_def Let_def)
  then have o: "outs = fst ?fan @ fst (replicate_room_audio (room_of msg) msg raw (snd ?fan))" "st' = snd (replicate_room_audio (room_of msg) msg raw (snd ?fan))"
    using assms(11) by simp_all
  have "fst (gate_through_feature ''room.audio.sfu'' p (length raw) (ne_now E) (nd_features ?st2)) =
      fst (gate_through_feature ''room.audio.sfu'' p (length raw) (ne_now E) (nd_features st))" for p
    using quota_isolation [of "''room.audio.sfu''" "sm_sender msg" "length opus" "ne_now E" "nd_features st"]
    by (intro outbound_decision) (simp_all add: gate_inner)
  then have heard: "Out_raw p raw \<in> set outs"
    if "p \<in> participant_ids r" "p \<noteq> sm_sender msg"
      "fst (gate_through_feature ''room.audio.sfu'' p (length raw) (ne_now E) (nd_features st))" for p
    unfolding o(1) using that assms(9,10) fan_out_raw_eq [of ?ps E "''room.audio.sfu''" raw ?st2] by simp
  have "nd_rooms st' = nd_rooms (snd ?fan)"
    unfolding o(2) by (simp add: replicate_room_audio_def replicate_frame_def reading_def emit_def skip_def)
  then have "sn_sfu (nd_rooms st') = Some ?m'" using only_features_rooms [OF fan_out_features [of ?st2 E "''room.audio.sfu''" raw ?ps]] by simp
  with n(2) have "\<exists>m' r'. sn_sfu (nd_rooms st') = Some m' \<and> get_room (room_of msg) m' = Some r' \<and> sm_sender msg \<in> set (sr_active_speakers r')"
    by (auto simp: get_room_def)
  with heard show ?thesis by blast
qed

definition voice_node :: "nat node" where
  "voice_node = (demo_start Open)\<lparr>nd_rooms := \<lparr>sn_roots = new_root_store, sn_sfu = Some \<lparr>sm_rooms =
     [DEFAULT_ROOM_ID \<mapsto> (new_room DEFAULT_ROOM_ID [] Private [])\<lparr>sr_participants := [''a'' \<mapsto> 1]\<rparr>]\<rparr>\<rparr>\<rparr>"

lemma stranger_audio_reaches_room_witness:
  "\<exists>outs st'. on_message demo_env (room_message SfuAudio ''b'' [(''audio'', VStr ''x'')]) ''raw'' voice_node = (outs, st') \<and>
     Out_raw ''a'' ''raw'' \<in> set outs"
proof -
  let ?msg = "room_message SfuAudio ''b'' [(''audio'', VStr ''x'')]"
  let ?r = "(new_room DEFAULT_ROOM_ID [] Private [])\<lparr>sr_participants := [''a'' \<mapsto> 1]\<rparr>"
  let ?m = "\<lparr>sm_rooms = [DEFAULT_ROOM_ID \<mapsto> ?r]\<rparr>"
  obtain outs st' where o: "on_message demo_env ?msg ''raw'' voice_node = (outs, st')" by force
  have i: "room_of ?msg = DEFAULT_ROOM_ID" by (simp add: room_message_def new_message_def room_of_def jget_jobj get_str_or_def get_str_def)
  have free: "fst (gate_inbound_through_feature fid p n now (nd_features voice_node))" "fst (gate_through_feature fid p n now (nd_features voice_node))"
    for fid p n now
    by (simp_all add: voice_node_def demo_start_def new_node_def new_registry_def gate_inbound_through_feature_def gate_through_feature_def)
  have sfu: "sn_sfu (nd_rooms voice_node) = Some ?m" by (simp add: voice_node_def)
  have r: "get_room (room_of ?msg) ?m = Some ?r" unfolding i by (simp add: get_room_def)
  have a: "length (sr_active_speakers ?r) < 5" by (simp add: new_room_def)
  have msg: "sm_type ?msg = SfuAudio" "sm_sender ?msg = ''b''" "get_str ''audio'' (sm_payload ?msg) = Some ''x''"
    by (simp_all add: room_message_def new_message_def get_str_def jget_jobj)
  have dec: "ne_b64_url_decode demo_env ''x'' = Some (as_bytes ''x'')" "as_bytes ''x'' \<noteq> []" by (simp_all add: demo_env_def as_bytes_def)
  have ids: "participant_ids ?r = {''a''}" by (simp add: participant_ids_def)
  have en: "distinct (ne_iter demo_env (participant_ids ?r))" "set (ne_iter demo_env (participant_ids ?r)) = participant_ids ?r"
    unfolding ids by (simp_all add: demo_env_def)
  from stranger_audio_reaches_room [OF sfu r a msg(1,3) dec free(1) en o]
  have "Out_raw ''a'' ''raw'' \<in> set outs" unfolding ids msg(2) using free(2) by simp
  with o show ?thesis by blast
qed

definition private_room :: room_descriptor where
  "private_room = \<lparr>rd_room_id = ''pr'', rd_room_name = ''P'', rd_room_type = ''private'', rd_creator_id = ''c'', rd_invite_policy = ''owner''\<rparr>"

theorem room_create_admits_anyone_witness:
  "\<exists>(st :: nat node) m r. node_reachable plain_crates st \<and> sn_sfu (nd_rooms st) = Some m \<and> get_room ''pr'' m = Some r \<and>
     \<not> is_peer_allowed r ''x'' \<and>
     (\<exists>outs st' m'. on_message demo_env (room_message SfuRoomCreate ''x'' [(''room_id'', VStr ''pr''), (''room_type'', VStr ''private'')]) [] st = (outs, st') \<and>
        sn_sfu (nd_rooms st') = Some m' \<and> fst (fst (join_room ''x'' ''pr'' m')))"
proof -
  let ?msg = "room_message SfuRoomCreate ''x'' [(''room_id'', VStr ''pr''), (''room_type'', VStr ''private'')]"
  let ?st = "snd (node_step demo_env (Ev_link (OnRoomRoster private_room)) (demo_start Open))"
  let ?r = "mark_unused_if_empty (ne_time demo_env) ((new_room ''pr'' ''P'' Private ''c'')\<lparr>sr_invite_policy := normalize_invite_policy ''owner''\<rparr>)"
  let ?m = "new_manager\<lparr>sm_rooms := (sm_rooms new_manager)(''pr'' \<mapsto> ?r)\<rparr>"
  obtain outs st' where o: "on_message demo_env ?msg [] ?st = (outs, st')" by force
  have reach: "node_reachable plain_crates ?st" by (rule node_reachable.event [OF demo_reachable_start demo_env_ok])
  have sfu: "sn_sfu (nd_rooms ?st) = Some ?m"
    by (simp add: node_step_def on_link_callback_def apply_room_roster_def with_sfu_def reading_def set_sfu_def update_def demo_start_def
        new_node_def private_room_def create_room_with_policy_def Let_def new_manager_def DEFAULT_ROOM_ID_def)
  have r: "get_room ''pr'' ?m = Some ?r" "\<not> is_full ?r"
    by (simp_all add: get_room_def is_full_def new_room_def msize_def MAX_ROOM_SIZE_def)
  have out: "\<not> is_peer_allowed ?r ''x''"
    by (simp add: is_peer_allowed_def new_room_def is_public_def normalize_peer_id_def trim_end_def Let_def)
  have msg: "sm_type ?msg = SfuRoomCreate" "get_str ''room_id'' (sm_payload ?msg) = Some ''pr''"
    "get_str ''room_type'' (sm_payload ?msg) = Some ''private''" "get_str ''creator_id'' (sm_payload ?msg) = None"
    "get_str ''invite_token'' (sm_payload ?msg) = None" "sm_sender ?msg = ''x''"
    by (simp_all add: room_message_def new_message_def get_str_def jget_jobj)
  from room_create_admits_anyone [OF reach sfu r msg(1-5) o] o reach sfu r out show ?thesis
    unfolding msg(6) by blast
qed

end
