(* ===== verification/File_Delta.thy ===== *)
theory File_Delta
  imports Rust_Str Crates
begin

text \<open>
  Compression and binary deltas of small file transfers, the last part of
  \<open>conquerd-client/src/file_transfer.rs\<close>. The crate \<open>flate2\<close> is the parameter \<open>zlib\<close>; \<open>zlib_ok\<close> is its
  round trip. A Rust \<open>usize\<close> has 64 bits; lengths of vectors are naturals, and the conversions to
  \<open>u32\<close> in the opcode stream keep their width.
\<close>

section \<open>Compression\<close>

definition MAX_TRANSFER_SIZE :: nat where "MAX_TRANSFER_SIZE = 250 * 1024 * 1024"
definition INLINE_MAX :: nat where "INLINE_MAX = 8 * 1024 * 1024"
definition COMPRESSION_THRESHOLD :: nat where "COMPRESSION_THRESHOLD = 1024"

text \<open>
  \<open>zl_compress\<close> writes a buffer at a level; \<open>zl_read\<close> reads at most so many bytes of the expansion of a
  compressed buffer.
\<close>

record zlib =
  zl_compress :: "bytes \<Rightarrow> nat \<Rightarrow> string + bytes"
  zl_read :: "bytes \<Rightarrow> nat \<Rightarrow> string + bytes"

definition zlib_ok :: "zlib \<Rightarrow> bool" where
  "zlib_ok Z \<longleftrightarrow> (\<forall>d l c n. zl_compress Z d l = Inr c \<longrightarrow> zl_read Z c n = Inr (take n d))"

definition zlib_decompress :: "zlib \<Rightarrow> bytes \<Rightarrow> string + bytes" where
  "zlib_decompress Z data =
     (case zl_read Z data (MAX_TRANSFER_SIZE + 1) of
        Inl e \<Rightarrow> Inl e
      | Inr out \<Rightarrow> if length out > MAX_TRANSFER_SIZE
                 then Inl (''decompressed output exceeds '' @ show_nat MAX_TRANSFER_SIZE @ '' bytes'')
                 else Inr out)"

definition compress_data :: "zlib \<Rightarrow> bytes \<Rightarrow> bytes \<times> bool" where
  "compress_data Z data =
     (if length data < COMPRESSION_THRESHOLD then (data, False)
      else case zl_compress Z data 6 of
          Inr compressed \<Rightarrow> if length compressed < length data * 9 div 10 then (compressed, True) else (data, False)
        | Inl _ \<Rightarrow> (data, False))"

section \<open>Opcode streams\<close>

definition DELTA_MAGIC :: bytes where "DELTA_MAGIC = as_bytes ''CDv1''"
definition WINDOW :: nat where "WINDOW = 16"

definition write_copy :: "bytes \<Rightarrow> u32 \<Rightarrow> u32 \<Rightarrow> bytes" where
  "write_copy buf src len = buf @ [0] @ u32_to_be src @ u32_to_be len"

definition write_insert :: "bytes \<Rightarrow> bytes \<Rightarrow> bytes" where
  "write_insert buf seg =
     (if seg = [] then buf else buf @ [1] @ u32_to_be (word_of_nat (length seg)) @ seg)"

text \<open>The loop of \<open>extend_match\<close> walks both buffers while they agree.\<close>

fun common_prefix :: "bytes \<Rightarrow> bytes \<Rightarrow> nat" where
  "common_prefix (x # xs) (y # ys) = (if x = y then Suc (common_prefix xs ys) else 0)"
| "common_prefix _ _ = 0"

definition extend_match :: "bytes \<Rightarrow> nat \<Rightarrow> bytes \<Rightarrow> nat \<Rightarrow> nat" where
  "extend_match old src new dst = common_prefix (drop src old) (drop dst new)"

text \<open>The window index: for every window of the old file the first position it occurs at, as \<open>u32\<close>.\<close>

definition window_index :: "bytes \<Rightarrow> bytes \<Rightarrow> u32 option" where
  "window_index old key =
     (if length old < WINDOW then None
      else map_option word_of_nat (find (\<lambda>i. take WINDOW (drop i old) = key) [0..<Suc (length old - WINDOW)]))"

function diff_loop :: "bytes \<Rightarrow> bytes \<Rightarrow> bytes \<Rightarrow> nat \<Rightarrow> nat \<Rightarrow> bytes \<times> nat" where
  "diff_loop old new buf pending_start j =
     (if j + WINDOW \<le> length new then
        case window_index old (take WINDOW (drop j new)) of
          Some src \<Rightarrow>
            (let mlen = extend_match old (unat src) new j
             in if WINDOW \<le> mlen
                then let buf1 = if pending_start < j
                                then write_insert buf (drop pending_start (take j new)) else buf
                     in diff_loop old new (write_copy buf1 src (word_of_nat mlen)) (j + mlen) (j + mlen)
                else diff_loop old new buf pending_start (Suc j))
        | None \<Rightarrow> diff_loop old new buf pending_start (Suc j)
      else (buf, pending_start))"
  by pat_completeness auto

termination by (relation "measure (\<lambda>(old, new, buf, p, j). length new - j)") (auto simp: WINDOW_def)

declare diff_loop.simps [simp del]

definition diff_opcodes :: "bytes \<Rightarrow> bytes \<Rightarrow> bytes" where
  "diff_opcodes old new =
     (if old = new then write_copy [] 0 (word_of_nat (length new))
      else case diff_loop old new [] 0 0 of
          (buf, pending_start) \<Rightarrow> if pending_start < length new
                                then write_insert buf (drop pending_start new) else buf)"

definition create_delta :: "zlib \<Rightarrow> bytes \<Rightarrow> bytes \<Rightarrow> bytes option" where
  "create_delta Z old new =
     (case zl_compress Z (diff_opcodes old new) 6 of
        Inl _ \<Rightarrow> None
      | Inr compressed \<Rightarrow>
          (let delta = DELTA_MAGIC @ compressed
           in case zl_compress Z new 6 of
                Inl _ \<Rightarrow> None
              | Inr full_compressed \<Rightarrow> if length delta < length full_compressed then Some delta else None))"

function apply_ops :: "bytes \<Rightarrow> bytes \<Rightarrow> bytes \<Rightarrow> string + bytes" where
  "apply_ops old [] out = Inr out"
| "apply_ops old (tag # raw) out =
     (if tag = 0 then
        (if length raw < 8 then Inl ''truncated COPY''
         else let src = unat (u32_from_be (take 4 raw)); len = unat (u32_from_be (take 4 (drop 4 raw)))
              in if length old < src + len then Inl ''COPY out of range''
                 else if MAX_TRANSFER_SIZE < length out + len then Inl ''delta output exceeds MAX_TRANSFER_SIZE''
                 else apply_ops old (drop 8 raw) (out @ take len (drop src old)))
      else if tag = 1 then
        (if length raw < 4 then Inl ''truncated INSERT''
         else let len = unat (u32_from_be (take 4 raw))
              in if length raw < 4 + len then Inl ''INSERT past end''
                 else if MAX_TRANSFER_SIZE < length out + len then Inl ''delta output exceeds MAX_TRANSFER_SIZE''
                 else apply_ops old (drop (4 + len) raw) (out @ take len (drop 4 raw)))
      else Inl (''Unknown opcode: '' @ show_nat (unat tag)))"
  by pat_completeness auto

termination by (relation "measure (\<lambda>(old, raw, out). length raw)") auto

declare apply_ops.simps(2) [simp del]

definition apply_delta :: "zlib \<Rightarrow> bytes \<Rightarrow> bytes \<Rightarrow> string + bytes" where
  "apply_delta Z old delta =
     (if length delta < length DELTA_MAGIC \<or> take 4 delta \<noteq> DELTA_MAGIC then Inl ''Invalid delta magic''
      else case zlib_decompress Z (drop 4 delta) of
          Inl e \<Rightarrow> Inl e
        | Inr raw \<Rightarrow> if raw = [] then Inl ''Empty delta opcode stream'' else apply_ops old raw [])"

section \<open>Payloads\<close>

text \<open>
  The choice of \<open>offer_file_with_id\<close>: a delta against the old file when there is one and it pays, else the
  file itself, compressed when that pays. The result is the payload, the flags \<open>compressed\<close> and
  \<open>is_delta\<close>, and the hash of the base file. \<open>decode_payload\<close> is the second phase of \<open>finish_inbound\<close>.
\<close>

definition encode_payload :: "crates \<Rightarrow> zlib \<Rightarrow> bytes option \<Rightarrow> bytes \<Rightarrow> bytes \<times> bool \<times> bool \<times> string" where
  "encode_payload C Z old_data data =
     (case (case old_data of None \<Rightarrow> None | Some old \<Rightarrow> map_option (Pair old) (create_delta Z old data)) of
        Some (old, delta) \<Rightarrow> (delta, False, True, sha256_hex C old)
      | None \<Rightarrow> (case compress_data Z data of (c, flag) \<Rightarrow> (c, flag, False, [])))"

definition decode_payload :: "zlib \<Rightarrow> bytes option \<Rightarrow> string \<Rightarrow> bool \<Rightarrow> bool \<Rightarrow> bytes \<Rightarrow> string + bytes" where
  "decode_payload Z old_data rel_path compressed is_delta raw =
     (case (if compressed then zlib_decompress Z raw else Inr raw) of
        Inl e \<Rightarrow> Inl (''decompression failed: '' @ e)
      | Inr assembled \<Rightarrow>
          if \<not> is_delta then Inr assembled
          else case old_data of
              None \<Rightarrow> Inl (''delta requires old file data for '' @ rel_path)
            | Some old \<Rightarrow> (case apply_delta Z old assembled of
                  Inl e \<Rightarrow> Inl (''delta apply failed: '' @ e)
                | Inr d \<Rightarrow> Inr d))"

section \<open>Round trips\<close>

lemma zlib_roundtrip:
  assumes "zlib_ok Z" and "zl_compress Z d l = Inr c" and "length d \<le> MAX_TRANSFER_SIZE"
  shows "zlib_decompress Z c = Inr d"
proof -
  have "zl_read Z c (MAX_TRANSFER_SIZE + 1) = Inr (take (MAX_TRANSFER_SIZE + 1) d)"
    using assms(1,2) unfolding zlib_ok_def by blast
  also have "take (MAX_TRANSFER_SIZE + 1) d = d" using assms(3) by simp
  finally show ?thesis using assms(3) by (simp add: zlib_decompress_def)
qed

lemma compress_data_cases:
  obtains (plain) "compress_data Z data = (data, False)"
  | (packed) c where "zl_compress Z data 6 = Inr c" "compress_data Z data = (c, True)" "length c < length data"
proof (cases "zl_compress Z data 6")
  case (Inr c)
  moreover have "length data * 9 div 10 \<le> length data" by simp
  ultimately show ?thesis
    using plain packed [of c]
    by (cases "length data < COMPRESSION_THRESHOLD"; cases "length c < length data * 9 div 10")
       (auto simp: compress_data_def)
qed (use plain in \<open>simp add: compress_data_def\<close>)

text \<open>
  \<open>produces old buf out\<close>: executing the opcodes \<open>buf\<close> appends \<open>out\<close>, whatever comes before and after.
\<close>

definition produces :: "bytes \<Rightarrow> bytes \<Rightarrow> bytes \<Rightarrow> bool" where
  "produces old buf out \<longleftrightarrow>
     (\<forall>rest acc. length acc + length out \<le> MAX_TRANSFER_SIZE \<longrightarrow>
        apply_ops old (buf @ rest) acc = apply_ops old rest (acc @ out))"

lemma produces_Nil [simp]: "produces old [] []"
  by (simp add: produces_def)

lemma producesD: "produces old buf out \<Longrightarrow> length acc + length out \<le> MAX_TRANSFER_SIZE \<Longrightarrow>
    apply_ops old (buf @ rest) acc = apply_ops old rest (acc @ out)"
  by (simp add: produces_def)

lemma produces_append: "produces old a x \<Longrightarrow> produces old b y \<Longrightarrow> produces old (a @ b) (x @ y)"
  unfolding produces_def by simp

lemma unat_word_of_nat_small: "n < 2 ^ 32 \<Longrightarrow> unat (word_of_nat n :: u32) = n"
  by (simp add: unat_of_nat)

lemma produces_copy:
  assumes "produces old buf out" and "unat src + unat len \<le> length old"
  shows "produces old (write_copy buf src len) (out @ take (unat len) (drop (unat src) old))"
proof -
  have "produces old ([0] @ u32_to_be src @ u32_to_be len) (take (unat len) (drop (unat src) old))"
    using assms(2) by (simp add: produces_def apply_ops.simps(2))
  from produces_append [OF assms(1) this] show ?thesis by (simp add: write_copy_def)
qed

lemma produces_insert:
  assumes "produces old buf out" and "length seg < 2 ^ 32"
  shows "produces old (write_insert buf seg) (out @ seg)"
proof (cases "seg = []")
  case True
  then show ?thesis using assms(1) by (simp add: write_insert_def)
next
  case False
  have "produces old ([1] @ u32_to_be (word_of_nat (length seg)) @ seg) seg"
    using assms(2) by (simp add: produces_def apply_ops.simps(2) unat_word_of_nat_small)
  from produces_append [OF assms(1) this] False show ?thesis by (simp add: write_insert_def)
qed

lemma common_prefix_take: "take (common_prefix xs ys) xs = take (common_prefix xs ys) ys"
  by (induction xs ys rule: common_prefix.induct) auto

lemma common_prefix_le: "common_prefix xs ys \<le> length xs" "common_prefix xs ys \<le> length ys"
  by (induction xs ys rule: common_prefix.induct) auto

lemma extend_match_copies:
  "take (extend_match old src new dst) (drop src old) = take (extend_match old src new dst) (drop dst new)"
  unfolding extend_match_def by (rule common_prefix_take)

lemma extend_match_le:
  "extend_match old src new dst \<le> length old - src" "extend_match old src new dst \<le> length new - dst"
  using common_prefix_le [of "drop src old" "drop dst new"] by (simp_all add: extend_match_def)

lemma diff_loop_produces:
  assumes "length new < 2 ^ 32" and "produces old buf (take p new)" and "p \<le> j" and "j \<le> length new" and "diff_loop old new buf p j = (buf', p')"
  shows "produces old buf' (take p' new) \<and> p' \<le> length new"
  using assms
proof (induction old new buf p j rule: diff_loop.induct)
  case (1 old new buf p j)
  show ?case
  proof (cases "j + WINDOW \<le> length new")
    case False
    with "1.prems" show ?thesis by (simp add: diff_loop.simps)
  next
    case True
    show ?thesis
    proof (cases "window_index old (take WINDOW (drop j new))")
      case None
      with True have "diff_loop old new buf p (Suc j) = (buf', p')"
        using "1.prems"(5) by (simp add: diff_loop.simps [of old new buf p j])
      with "1.IH"(1) [OF True None] "1.prems" True show ?thesis by (simp add: WINDOW_def)
    next
      case (Some src)
      define m where "m = extend_match old (unat src) new j"
      show ?thesis
      proof (cases "WINDOW \<le> m")
        case False
        with True Some have "diff_loop old new buf p (Suc j) = (buf', p')"
          using "1.prems"(5) by (simp add: diff_loop.simps [of old new buf p j] m_def Let_def)
        with "1.IH"(3) [OF True Some m_def False] "1.prems" True show ?thesis by (simp add: WINDOW_def)
      next
        case wm: True
        define buf1 where "buf1 = (if p < j then write_insert buf (drop p (take j new)) else buf)"
        have step: "diff_loop old new (write_copy buf1 src (word_of_nat m)) (j + m) (j + m) = (buf', p')"
          using "1.prems"(5) True Some wm by (simp add: diff_loop.simps [of old new buf p j] m_def Let_def buf1_def)
        have ml: "m \<le> length old - unat src" "m \<le> length new - j"
          unfolding m_def by (rule extend_match_le)+
        have m32: "unat (word_of_nat m :: u32) = m"
          using ml(2) "1.prems"(1) by (intro unat_word_of_nat_small) linarith
        have "take p new @ drop p (take j new) = take j new" if "p < j"
          using that by (metis append_take_drop_id less_imp_le min.absorb1 take_take)
        then have "produces old buf1 (take j new)"
          using produces_insert [OF "1.prems"(2), of "drop p (take j new)"] "1.prems"(1-4)
          by (auto simp: buf1_def)
        from produces_copy [OF this, of src "word_of_nat m"] ml wm
        have "produces old (write_copy buf1 src (word_of_nat m)) (take j new @ take m (drop (unat src) old))"
          by (simp add: m32 WINDOW_def)
        also have "take m (drop (unat src) old) = take m (drop j new)"
          unfolding m_def by (rule extend_match_copies)
        also have "take j new @ take m (drop j new) = take (j + m) new" by (simp add: take_add)
        finally show ?thesis
          using "1.IH"(2) [OF True Some m_def wm buf1_def] step "1.prems"(1,4) ml(2) by simp
      qed
    qed
  qed
qed

lemma diff_opcodes_produces:
  assumes "length old < 2 ^ 32" and "length new < 2 ^ 32"
  shows "produces old (diff_opcodes old new) new"
proof (cases "old = new")
  case True
  then show ?thesis
    using produces_copy [OF produces_Nil, of 0 "word_of_nat (length new)" old] assms
    by (simp add: diff_opcodes_def unat_word_of_nat_small)
next
  case False
  obtain buf p where d: "diff_loop old new [] 0 0 = (buf, p)" by fastforce
  from diff_loop_produces [OF assms(2) _ _ _ d]
  have p: "produces old buf (take p new)" "p \<le> length new" by auto
  show ?thesis
  proof (cases "p < length new")
    case True
    with produces_insert [OF p(1), of "drop p new"] assms(2) show ?thesis
      by (simp add: diff_opcodes_def \<open>old \<noteq> new\<close> d)
  qed (use p False d in \<open>simp add: diff_opcodes_def\<close>)
qed

lemma length_write_copy [simp]: "length (write_copy buf a b) = length buf + 9"
  by (simp add: write_copy_def)

lemma length_write_insert: "length (write_insert buf seg) \<le> length buf + 5 + length seg"
  by (simp add: write_insert_def)

text \<open>A copy of at least 16 bytes costs at most 14, so the opcodes before the last insertion never grow.\<close>

lemma diff_loop_length:
  "length buf \<le> p \<Longrightarrow> p \<le> j \<Longrightarrow> diff_loop old new buf p j = (buf', p') \<Longrightarrow> length buf' \<le> p'"
proof (induction old new buf p j rule: diff_loop.induct)
  case (1 old new buf p j)
  define key where "key = take WINDOW (drop j new)"
  define m where "m = (case window_index old key of None \<Rightarrow> 0 | Some src \<Rightarrow> extend_match old (unat src) new j)"
  consider (stop) "\<not> j + WINDOW \<le> length new"
    | (none) "j + WINDOW \<le> length new" "window_index old key = None"
    | (short) src where "j + WINDOW \<le> length new" "window_index old key = Some src" "\<not> WINDOW \<le> m"
    | (match) src where "j + WINDOW \<le> length new" "window_index old key = Some src" "WINDOW \<le> m"
    by fastforce
  then show ?case
  proof cases
    case stop
    with "1.prems" show ?thesis by (simp add: diff_loop.simps)
  next
    case none
    with "1.prems" show ?thesis
      using "1.IH"(1) by (simp add: diff_loop.simps [of old new buf p j] key_def)
  next
    case short
    with "1.prems" show ?thesis
      using "1.IH"(3) by (simp add: diff_loop.simps [of old new buf p j] key_def m_def Let_def)
  next
    case match
    define buf1 where "buf1 = (if p < j then write_insert buf (drop p (take j new)) else buf)"
    have "length buf1 \<le> j + 5"
      using length_write_insert [of buf "drop p (take j new)"] "1.prems"(1,2) match(1)
      by (auto simp: buf1_def)
    with match "1.prems" show ?thesis
      using "1.IH"(2)
      by (simp add: diff_loop.simps [of old new buf p j] key_def m_def Let_def buf1_def WINDOW_def)
  qed
qed

lemma diff_opcodes_length:
  assumes "length new < 2 ^ 32"
  shows "length (diff_opcodes old new) \<le> length new + 9"
proof -
  obtain buf p where d: "diff_loop old new [] 0 0 = (buf, p)" by fastforce
  have "length buf \<le> p" using diff_loop_length [OF _ _ d] by simp
  moreover have "p \<le> length new" using diff_loop_produces [OF assms _ _ _ d] by simp
  moreover have "length (write_insert buf (drop p new)) \<le> length buf + 5 + (length new - p)"
    using length_write_insert [of buf "drop p new"] by simp
  ultimately show ?thesis using d by (auto simp: diff_opcodes_def)
qed

lemma delta_roundtrip:
  assumes "zlib_ok Z" and "length old < 2 ^ 32" and "length new \<le> INLINE_MAX" and "create_delta Z old new = Some d"
  shows "apply_delta Z old d = Inr new"
proof -
  obtain c f where c: "zl_compress Z (diff_opcodes old new) 6 = Inr c" "zl_compress Z new 6 = Inr f"
      "d = DELTA_MAGIC @ c" "length d < length f"
    using assms(4) by (auto simp: create_delta_def Let_def split: sum.splits if_splits)
  have n32: "length new < 2 ^ 32" using assms(3) by (simp add: INLINE_MAX_def)
  have small: "length new \<le> MAX_TRANSFER_SIZE" "length (diff_opcodes old new) \<le> MAX_TRANSFER_SIZE"
    using assms(3) diff_opcodes_length [OF n32, of old] by (auto simp: INLINE_MAX_def MAX_TRANSFER_SIZE_def)
  have raw: "zlib_decompress Z c = Inr (diff_opcodes old new)"
    by (rule zlib_roundtrip [OF assms(1) c(1) small(2)])
  have run: "apply_ops old (diff_opcodes old new) [] = Inr new"
    using producesD [OF diff_opcodes_produces [OF assms(2) n32], of "[]" "[]"] small(1) by simp
  have "diff_opcodes old new \<noteq> []"
  proof
    assume e: "diff_opcodes old new = []"
    with run have "new = []" by simp
    with e c(1,2) have "c = f" by simp
    with c(3,4) show False by simp
  qed
  with run raw c(3) show ?thesis by (simp add: apply_delta_def DELTA_MAGIC_def)
qed

text \<open>
  Whatever \<open>offer_file\<close> puts on the wire for a file of at most 8 MiB (a delta against a previous
  version, a compressed copy or the file itself), the receiver's decoding gives the file back, provided
  it holds the same previous version when the payload is a delta. A payload that is no delta is never
  longer than the file, and a delta is shorter than the compressed file and names its base by hash.
\<close>

lemma payload_roundtrip:
  assumes "zlib_ok Z" and "length data \<le> INLINE_MAX" and "\<forall>old. old_data = Some old \<longrightarrow> length old < 2 ^ 32"
    and "encode_payload C Z old_data data = (payload, compressed, is_delta, base)"
    and "is_delta \<longrightarrow> receiver_old = old_data"
  shows "decode_payload Z receiver_old rel_path compressed is_delta payload = Inr data \<and>
    (\<not> is_delta \<longrightarrow> length payload \<le> length data) \<and>
    (is_delta \<longrightarrow> (\<exists>old full. old_data = Some old \<and> base = sha256_hex C old \<and>
       zl_compress Z data 6 = Inr full \<and> length payload < length full))"
proof (cases "case old_data of None \<Rightarrow> None | Some old \<Rightarrow> map_option (Pair old) (create_delta Z old data)")
  case (Some od)
  then obtain old d where o: "old_data = Some old" "create_delta Z old data = Some d" "od = (old, d)"
    by (auto split: option.splits)
  with assms(4) Some have e: "payload = d" "\<not> compressed" "is_delta" "base = sha256_hex C old"
    by (auto simp: encode_payload_def)
  have "apply_delta Z old d = Inr data"
    using delta_roundtrip [OF assms(1) _ assms(2) o(2)] assms(3) o(1) by simp
  moreover have "\<exists>full. zl_compress Z data 6 = Inr full \<and> length d < length full"
    using o(2) by (auto simp: create_delta_def Let_def split: sum.splits if_splits)
  ultimately show ?thesis using e o(1) assms(5) by (auto simp: decode_payload_def)
next
  case None
  have max: "length data \<le> MAX_TRANSFER_SIZE" using assms(2) by (simp add: INLINE_MAX_def MAX_TRANSFER_SIZE_def)
  from None assms(4) have e: "compress_data Z data = (payload, compressed)" "\<not> is_delta"
    by (auto simp: encode_payload_def split: prod.splits)
  show ?thesis
  proof (cases rule: compress_data_cases [of Z data])
    case plain
    with e show ?thesis by (simp add: decode_payload_def)
  next
    case (packed c)
    with e zlib_roundtrip [OF assms(1) packed(1) max] show ?thesis by (simp add: decode_payload_def)
  qed
qed

text \<open>The identity as a compressor: it keeps every promise of \<open>zlib_ok\<close> and never pays.\<close>

definition plain_zlib :: zlib where
  "plain_zlib = \<lparr> zl_compress = (\<lambda>d l. Inr d), zl_read = (\<lambda>c n. Inr (take n c)) \<rparr>"

lemma plain_zlib_ok: "zlib_ok plain_zlib"
  by (simp add: zlib_ok_def plain_zlib_def)

end
