(* ===== verification/File_Names.thy ===== *)
theory File_Names
  imports Brand
begin

text \<open>
  Names of received files, \<open>conquerd-client/src/file_transfer.rs\<close>: the reduction of an offered path to a
  file name, the name of the partial file and the choice of a free name. Paths are strings. The
  separators of the platform that the path functions of the standard library use are \<open>is_separator\<close>;
  \<open>safe_file_name\<close> has its own separators, the same on every platform.
\<close>

section \<open>Paths of the standard library\<close>

definition is_separator :: "char \<Rightarrow> bool" where
  "is_separator c \<longleftrightarrow> c = CHR ''/''"

text \<open>\<open>Path::join\<close> with a relative path, \<open>Path::parent\<close>, \<open>Path::file_stem\<close> and \<open>Path::extension\<close> of a name.\<close>

definition path_join :: "string \<Rightarrow> string \<Rightarrow> string" where
  "path_join dir name = dir @ ''/'' @ name"

definition path_parent :: "string \<Rightarrow> string" where
  "path_parent p = rev (dropWhile is_separator (dropWhile (\<lambda>c. \<not> is_separator c) (rev p)))"

definition split_at_dot :: "string \<Rightarrow> string \<times> string option" where
  "split_at_dot name =
     (let after = takeWhile (\<lambda>c. c \<noteq> CHR ''.'') (rev name); before = rev (drop (Suc (length after)) (rev name))
      in if length after = length name \<or> before = [] then (name, None) else (before, Some (rev after)))"

section \<open>Names\<close>

text \<open>\<open>trim_end_matches\<close> and \<open>rsplit(..).next()\<close> with a set of characters.\<close>

definition trim_end_set :: "(char \<Rightarrow> bool) \<Rightarrow> string \<Rightarrow> string" where
  "trim_end_set P s = rev (dropWhile P (rev s))"

definition after_last :: "(char \<Rightarrow> bool) \<Rightarrow> string \<Rightarrow> string" where
  "after_last P s = rev (takeWhile (\<lambda>c. \<not> P c) (rev s))"

definition either_separator :: "char \<Rightarrow> bool" where
  "either_separator c \<longleftrightarrow> c = CHR ''/'' \<or> c = CHR 0x5C"

definition dot_or_space :: "char \<Rightarrow> bool" where
  "dot_or_space c \<longleftrightarrow> c = CHR ''.'' \<or> c = CHR '' ''"

definition RESERVED :: "string list" where
  "RESERVED = [''CON'', ''PRN'', ''AUX'', ''NUL'', ''COM1'', ''COM2'', ''COM3'', ''COM4'', ''COM5'', ''COM6'', ''COM7'',
     ''COM8'', ''COM9'', ''LPT1'', ''LPT2'', ''LPT3'', ''LPT4'', ''LPT5'', ''LPT6'', ''LPT7'', ''LPT8'', ''LPT9'']"

definition is_reserved_device_name :: "string \<Rightarrow> bool" where
  "is_reserved_device_name stem \<longleftrightarrow> (\<exists>r \<in> set RESERVED. to_ascii_lowercase stem = to_ascii_lowercase r)"

definition safe_file_name :: "string \<Rightarrow> string" where
  "safe_file_name rel_path =
     (let base = after_last either_separator (trim_end_set either_separator rel_path);
          base = split_first (CHR '':'') base;
          base = trim_end_set dot_or_space base
      in if base = [] \<or> base = ''.'' \<or> base = ''..'' then ''received_file''
         else if is_reserved_device_name (split_first (CHR ''.'') base) then ''_'' @ base
         else base)"

definition part_file_path :: "string \<Rightarrow> string \<Rightarrow> string \<Rightarrow> string" where
  "part_file_path dir rel_path transfer_id =
     path_join dir (safe_file_name rel_path @ ''.'' @ transfer_id @ ''.part'')"

definition numbered_name :: "string \<Rightarrow> nat \<Rightarrow> string" where
  "numbered_name file_name n =
     (case split_at_dot file_name of
        (stem, Some e) \<Rightarrow> stem @ '' ('' @ show_nat n @ '').'' @ e
      | (stem, None) \<Rightarrow> stem @ '' ('' @ show_nat n @ '')'')"

definition free_number :: "(string \<Rightarrow> bool) \<Rightarrow> string \<Rightarrow> string \<Rightarrow> nat option" where
  "free_number exists dir file_name = find (\<lambda>n. \<not> exists (path_join dir (numbered_name file_name n))) [1..<10000]"

definition unique_dest_path :: "(string \<Rightarrow> bool) \<Rightarrow> string \<Rightarrow> string \<Rightarrow> string" where
  "unique_dest_path exists dir file_name =
     (if \<not> exists (path_join dir file_name) then path_join dir file_name
      else case free_number exists dir file_name of
          Some n \<Rightarrow> path_join dir (numbered_name file_name n)
        | None \<Rightarrow> path_join dir file_name)"

text \<open>Where a verified file goes: \<open>promote_part_file\<close> takes the directory of the partial file.\<close>

definition promote_dest :: "(string \<Rightarrow> bool) \<Rightarrow> string \<Rightarrow> string \<Rightarrow> string" where
  "promote_dest exists part rel_path = unique_dest_path exists (path_parent part) (safe_file_name rel_path)"

section \<open>Safe names\<close>

definition plain_name :: "string \<Rightarrow> bool" where
  "plain_name s \<longleftrightarrow> s \<noteq> [] \<and> (\<forall>c \<in> set s. \<not> either_separator c \<and> c \<noteq> CHR '':'') \<and> \<not> dot_or_space (last s)"

lemma trim_end_set_last: "trim_end_set P s = [] \<or> \<not> P (last (trim_end_set P s))"
proof (cases "dropWhile P (rev s)")
  case (Cons x xs)
  then have "\<not> P x" by (metis dropWhile_eq_Cons_conv)
  with Cons show ?thesis by (simp add: trim_end_set_def)
qed (simp add: trim_end_set_def)

lemma trim_end_set_id: "s = [] \<or> \<not> P (last s) \<Longrightarrow> trim_end_set P s = s"
  by (cases s rule: rev_cases) (auto simp: trim_end_set_def)

lemma set_trim_end_set: "set (trim_end_set P s) \<subseteq> set s"
  by (metis set_dropWhileD set_rev subsetI trim_end_set_def)

lemma after_last_free: "c \<in> set (after_last P s) \<Longrightarrow> \<not> P c"
  by (auto simp: after_last_def dest: set_takeWhileD)

lemma after_last_id: "\<forall>c \<in> set s. \<not> P c \<Longrightarrow> after_last P s = s"
  unfolding after_last_def by (subst takeWhile_eq_all_conv [THEN iffD2]) auto

lemma split_first_set: "set (split_first c s) \<subseteq> set s" "c \<notin> set (split_first c s)"
  by (auto simp: split_first_def dest: set_takeWhileD)

lemma split_first_id: "c \<notin> set s \<Longrightarrow> split_first c s = s"
  by (auto simp: split_first_def takeWhile_eq_all_conv)

lemma underscore_not_reserved: "\<not> is_reserved_device_name (CHR ''_'' # s)"
proof -
  have "\<forall>r \<in> set RESERVED. take 1 (to_ascii_lowercase r) \<noteq> [ascii_lower (CHR ''_'')]"
    unfolding RESERVED_def by code_simp
  moreover have "take 1 (to_ascii_lowercase (CHR ''_'' # s)) = [ascii_lower (CHR ''_'')]"
    by (simp add: to_ascii_lowercase_def)
  ultimately show ?thesis unfolding is_reserved_device_name_def by metis
qed

lemma plain_name_kept:
  assumes "plain_name s" and "\<not> is_reserved_device_name (split_first (CHR ''.'') s)"
  shows "safe_file_name s = s"
proof -
  note p = assms(1) [unfolded plain_name_def]
  have sep: "trim_end_set either_separator s = s" "after_last either_separator s = s"
    using p by (simp_all add: trim_end_set_id after_last_id)
  have colon: "split_first (CHR '':'') s = s" using p by (intro split_first_id) blast
  have dots: "trim_end_set dot_or_space s = s" using p by (simp add: trim_end_set_id)
  have "dot_or_space (last ''.'')" "dot_or_space (last ''..'')" by (simp_all add: dot_or_space_def)
  with p have "s \<noteq> []" "s \<noteq> ''.''" "s \<noteq> ''..''" by blast+
  with assms(2) show ?thesis by (simp only: safe_file_name_def Let_def sep colon dots if_False simp_thms)
qed

lemma safe_file_name_plain:
  "plain_name (safe_file_name s) \<and> \<not> is_reserved_device_name (split_first (CHR ''.'') (safe_file_name s))"
proof -
  define a where "a = after_last either_separator (trim_end_set either_separator s)"
  define b where "b = trim_end_set dot_or_space (split_first (CHR '':'') a)"
  have "set b \<subseteq> set (split_first (CHR '':'') a)" unfolding b_def by (rule set_trim_end_set)
  then have chars: "\<forall>c \<in> set b. \<not> either_separator c \<and> c \<noteq> CHR '':''"
    using split_first_set [of "CHR '':''" a] after_last_free [of _ either_separator] by (auto simp: a_def)
  have last: "b = [] \<or> \<not> dot_or_space (last b)" unfolding b_def by (rule trim_end_set_last)
  have eq: "safe_file_name s = (if b = [] \<or> b = ''.'' \<or> b = ''..'' then ''received_file''
      else if is_reserved_device_name (split_first (CHR ''.'') b) then ''_'' @ b else b)"
    by (simp add: safe_file_name_def Let_def a_def b_def)
  have "\<not> is_reserved_device_name ''received_file''"
    by (simp add: is_reserved_device_name_def RESERVED_def to_ascii_lowercase_def ascii_lower_def)
  then show ?thesis
    using chars last underscore_not_reserved
    by (auto simp: eq plain_name_def either_separator_def dot_or_space_def split_first_def)
qed

lemma safe_file_name_idem: "safe_file_name (safe_file_name s) = safe_file_name s"
  by (simp add: plain_name_kept safe_file_name_plain)

lemma plain_name_no_sep: "plain_name s \<Longrightarrow> c \<in> set s \<Longrightarrow> \<not> is_separator c"
  by (auto simp: plain_name_def either_separator_def is_separator_def)

lemma safe_name_no_sep [simp]: "c \<in> set (safe_file_name s) \<Longrightarrow> \<not> is_separator c"
  using plain_name_no_sep safe_file_name_plain by blast

section \<open>Where files land\<close>

lemma literal_no_sep [simp]:
  "\<not> is_separator (CHR ''.'')" "\<not> is_separator (CHR ''p'')" "\<not> is_separator (CHR ''a'')" "\<not> is_separator (CHR ''r'')"
  "\<not> is_separator (CHR ''t'')" "\<not> is_separator (CHR ''x'')" "is_separator (CHR ''/'')"
  by (simp_all add: is_separator_def)

lemma path_parent_join:
  assumes "\<forall>c \<in> set name. \<not> is_separator c" and "dir = [] \<or> \<not> is_separator (last dir)"
  shows "path_parent (path_join dir name) = dir"
proof -
  have "dropWhile (\<lambda>c. \<not> is_separator c) (rev name @ CHR ''/'' # rev dir) = CHR ''/'' # rev dir"
    using assms(1) by (subst dropWhile_append2) (auto simp: is_separator_def)
  moreover have "dropWhile is_separator (rev dir) = rev dir"
    using assms(2) by (cases dir rule: rev_cases) auto
  ultimately show ?thesis by (simp add: path_parent_def path_join_def is_separator_def)
qed

text \<open>Digits, parentheses and the characters of the name: a numbered name is a name again.\<close>

lemma show_nat_chars: "c \<in> set (show_nat n) \<Longrightarrow> 48 \<le> (of_char c :: nat) \<and> (of_char c :: nat) \<le> 57"
proof (induction n rule: show_nat.induct)
  case (1 n)
  then show ?case
    by (cases "n < 10") (auto simp: show_nat.simps [of n])
qed

lemma split_at_dot_set:
  "split_at_dot s = (stem, ext) \<Longrightarrow> set stem \<subseteq> set s \<and> (\<forall>e. ext = Some e \<longrightarrow> set e \<subseteq> set s)"
  using set_rev [of s]
  by (auto simp: split_at_dot_def Let_def split: if_splits dest!: set_takeWhileD in_set_dropD)

lemma numbered_name_no_sep: "\<forall>c \<in> set s. \<not> is_separator c \<Longrightarrow> c \<in> set (numbered_name s n) \<Longrightarrow> \<not> is_separator c"
proof -
  assume s: "\<forall>c \<in> set s. \<not> is_separator c" and c: "c \<in> set (numbered_name s n)"
  obtain stem ext where se: "split_at_dot s = (stem, ext)" by fastforce
  have "set (numbered_name s n) \<subseteq> set s \<union> set (show_nat n) \<union> {CHR '' '', CHR ''('', CHR '')'', CHR ''.''}"
    using split_at_dot_set [OF se] by (cases ext) (auto simp: numbered_name_def se)
  with c have "c \<in> set s \<or> c \<in> set (show_nat n) \<or> c \<in> {CHR '' '', CHR ''('', CHR '')'', CHR ''.''}" by blast
  moreover have "\<not> is_separator c" if "c \<in> set (show_nat n)"
    using show_nat_chars [OF that] by (auto simp: is_separator_def)
  ultimately show ?thesis using s by (auto simp: is_separator_def)
qed

lemma unique_dest_in_dir:
  assumes "\<forall>c \<in> set name. \<not> is_separator c"
  shows "\<exists>f. unique_dest_path ex dir name = path_join dir f \<and> (\<forall>c \<in> set f. \<not> is_separator c)"
  using assms numbered_name_no_sep [OF assms]
  by (cases "free_number ex dir name") (auto simp: unique_dest_path_def)

lemma unique_dest_fresh:
  "ex (unique_dest_path ex dir name) \<longleftrightarrow>
     ex (path_join dir name) \<and> (\<forall>n. 1 \<le> n \<and> n < 10000 \<longrightarrow> ex (path_join dir (numbered_name name n)))"
proof (cases "free_number ex dir name")
  case None
  then have "\<forall>n \<in> set [1..<10000]. ex (path_join dir (numbered_name name n))"
    unfolding free_number_def find_None_iff by blast
  then have "\<forall>n. 1 \<le> n \<and> n < 10000 \<longrightarrow> ex (path_join dir (numbered_name name n))" by auto
  with None show ?thesis by (simp add: unique_dest_path_def)
next
  case (Some n)
  then have "n \<in> set [1..<10000] \<and> \<not> ex (path_join dir (numbered_name name n))"
    unfolding free_number_def find_Some_iff by (metis nth_mem)
  then have "1 \<le> n \<and> n < 10000" "\<not> ex (path_join dir (numbered_name name n))" by auto
  with Some show ?thesis unfolding unique_dest_path_def by (auto simp del: One_nat_def)
qed

text \<open>
  C12. The name a received file is saved under is never empty and has no separator, colon, trailing dot
  or trailing space, and its stem is no device name; sanitising again changes nothing. When the
  transfer id of the offer has no path separator, the partial file and the saved file are directly in
  the download directory, whatever path the sender offered, and the saved file replaces an existing one
  only when the name and its 9999 numbered variants are all taken.
\<close>

theorem received_files_confined:
  assumes "\<forall>c \<in> set transfer_id. \<not> is_separator c" and "dir = [] \<or> \<not> is_separator (last dir)"
  shows "plain_name (safe_file_name rel_path) \<and>
    \<not> is_reserved_device_name (split_first (CHR ''.'') (safe_file_name rel_path)) \<and>
    safe_file_name (safe_file_name rel_path) = safe_file_name rel_path \<and>
    path_parent (part_file_path dir rel_path transfer_id) = dir \<and>
    path_parent (promote_dest ex (part_file_path dir rel_path transfer_id) rel_path) = dir \<and>
    (ex (promote_dest ex (part_file_path dir rel_path transfer_id) rel_path) \<longrightarrow>
      ex (path_join dir (safe_file_name rel_path)) \<and>
      (\<forall>n. 1 \<le> n \<and> n < 10000 \<longrightarrow> ex (path_join dir (numbered_name (safe_file_name rel_path) n))))"
proof -
  have part: "path_parent (part_file_path dir rel_path transfer_id) = dir"
    unfolding part_file_path_def using assms by (intro path_parent_join) (auto dest: safe_name_no_sep)
  have free: "\<forall>c \<in> set (safe_file_name rel_path). \<not> is_separator c" by simp
  from unique_dest_in_dir [OF free] obtain f where
    "unique_dest_path ex dir (safe_file_name rel_path) = path_join dir f" "\<forall>c \<in> set f. \<not> is_separator c" by blast
  then have "path_parent (promote_dest ex (part_file_path dir rel_path transfer_id) rel_path) = dir"
    using path_parent_join assms(2) by (simp add: promote_dest_def part)
  then show ?thesis
    using safe_file_name_plain safe_file_name_idem part
    unfolding promote_dest_def part unique_dest_fresh by blast
qed

theorem received_files_confined_witness:
  "path_parent (promote_dest (\<lambda>_. True) (part_file_path ''/home/u/Downloads'' ''../../etc/passwd'' ''0123abcd'') ''../../etc/passwd'')
     = ''/home/u/Downloads''"
  using received_files_confined [of "''0123abcd''" "''/home/u/Downloads''" "''../../etc/passwd''" "\<lambda>_. True"]
  by (simp add: is_separator_def)

section \<open>Transfer ids with separators\<close>

text \<open>The components of a path and its lexical normal form, in which \<open>..\<close> removes the component before it.\<close>

fun split_seps :: "string \<Rightarrow> string list" where
  "split_seps [] = [[]]"
| "split_seps (c # s) = (if is_separator c then [] # split_seps s
     else case split_seps s of [] \<Rightarrow> [[c]] | w # ws \<Rightarrow> (c # w) # ws)"

definition path_step :: "string list \<Rightarrow> string \<Rightarrow> string list" where
  "path_step acc c = (if c = [] \<or> c = ''.'' then acc else if c = ''..'' then butlast acc else acc @ [c])"

definition lexical_normal :: "string \<Rightarrow> string list" where
  "lexical_normal p = foldl path_step [] (split_seps p)"

lemma split_seps_ne: "split_seps s \<noteq> []"
  by (induction s) (auto split: list.splits)

lemma split_seps_join: "split_seps (a @ CHR ''/'' # b) = split_seps a @ split_seps b"
  by (induction a) (auto simp: is_separator_def split_seps_ne Cons_eq_append_conv split: list.splits)

lemma split_seps_name: "\<forall>c \<in> set w. \<not> is_separator c \<Longrightarrow> split_seps w = [w]"
  by (induction w) auto

lemma lexical_normal_join: "lexical_normal (path_join a b) = foldl path_step (lexical_normal a) (split_seps b)"
  by (simp add: lexical_normal_def path_join_def split_seps_join)

text \<open>
  The confinement needs the transfer id, which the sender of an offer chooses and no handler
  checks: with an id of the form \<open>/../../sub/x\<close> the partial file of a large offer and the verified file
  are, lexically, in the directory \<open>sub\<close> beside the download directory.
\<close>

lemma transfer_id_escapes:
  assumes "dir = path_join base leaf" and "\<forall>c \<in> set leaf. \<not> is_separator c" and "leaf \<notin> {[], ''.'', ''..''}"
    and "sub \<noteq> [] \<and> \<not> is_separator (last sub)"
  shows "lexical_normal (part_file_path dir rel_path (''/../../'' @ sub @ ''/x'')) =
      lexical_normal (path_join (path_join base sub) ''x.part'') \<and>
    (\<exists>f. lexical_normal (promote_dest ex (part_file_path dir rel_path (''/../../'' @ sub @ ''/x'')) rel_path) =
      lexical_normal (path_join (path_join base sub) f))"
proof -
  define S where "S = safe_file_name rel_path @ ''.''"
  have "safe_file_name rel_path \<noteq> []" "last (safe_file_name rel_path) \<noteq> CHR ''.''"
    using safe_file_name_plain [of rel_path] by (auto simp: plain_name_def dot_or_space_def)
  then have S: "S \<notin> {[], ''.'', ''..''}" by (cases "safe_file_name rel_path" rule: rev_cases) (auto simp: S_def)
  have Sn: "split_seps S = [S]" by (rule split_seps_name) (auto simp: S_def dest: safe_name_no_sep)
  have ln: "split_seps leaf = [leaf]" by (rule split_seps_name) (use assms(2) in simp)
  have up: "lexical_normal (path_join dir (S @ ''/../../'' @ r)) = lexical_normal (path_join base r)" for r
  proof -
    have "split_seps (S @ ''/../../'' @ r) = [S, ''..'', ''..''] @ split_seps r"
      using split_seps_join [of S "''../../'' @ r"] split_seps_join [of "''..''" "''../'' @ r"]
        split_seps_join [of "''..''" r] by (simp add: Sn is_separator_def)
    then show ?thesis
      using S assms(3) by (simp add: assms(1) lexical_normal_join ln path_step_def butlast_append)
  qed
  have part: "part_file_path dir rel_path (''/../../'' @ sub @ ''/x'') = path_join dir (S @ ''/../../'' @ path_join sub ''x.part'')"
    by (simp add: part_file_path_def S_def path_join_def)
  have "path_join dir (S @ ''/../../'' @ path_join sub ''x.part'') = path_join (dir @ ''/'' @ S @ ''/../../'' @ sub) ''x.part''"
    by (simp add: path_join_def)
  then have parent: "path_parent (part_file_path dir rel_path (''/../../'' @ sub @ ''/x'')) = dir @ ''/'' @ S @ ''/../../'' @ sub"
    unfolding part using assms(4) by (simp only:) (rule path_parent_join, auto)
  from unique_dest_in_dir [of "safe_file_name rel_path" ex "dir @ ''/'' @ S @ ''/../../'' @ sub"] obtain f where
    "promote_dest ex (part_file_path dir rel_path (''/../../'' @ sub @ ''/x'')) rel_path = path_join (dir @ ''/'' @ S @ ''/../../'' @ sub) f"
    unfolding promote_dest_def parent by auto
  also have "\<dots> = path_join dir (S @ ''/../../'' @ path_join sub f)" by (simp add: path_join_def)
  finally have "lexical_normal (promote_dest ex (part_file_path dir rel_path (''/../../'' @ sub @ ''/x'')) rel_path) =
      lexical_normal (path_join (path_join base sub) f)"
    using up [of "path_join sub f"] by (simp add: path_join_def)
  moreover have "lexical_normal (part_file_path dir rel_path (''/../../'' @ sub @ ''/x'')) =
      lexical_normal (path_join (path_join base sub) ''x.part'')"
    unfolding part up by (simp add: path_join_def)
  ultimately show ?thesis by blast
qed

lemma transfer_id_escapes_witness:
  "lexical_normal (part_file_path ''/home/u/Downloads'' ''app.desktop'' ''/../../.config/autostart/x'') =
     [''home'', ''u'', ''.config'', ''autostart'', ''x.part'']"
proof -
  have "lexical_normal (part_file_path ''/home/u/Downloads'' ''app.desktop'' (''/../../'' @ ''.config/autostart'' @ ''/x'')) =
      lexical_normal (path_join (path_join ''/home/u'' ''.config/autostart'') ''x.part'')"
    using transfer_id_escapes [of "''/home/u/Downloads''" "''/home/u''" "''Downloads''" "''.config/autostart''" "''app.desktop''" "\<lambda>_. False"]
    by (simp add: path_join_def is_separator_def)
  also have "\<dots> = [''home'', ''u'', ''.config'', ''autostart'', ''x.part'']" by code_simp
  finally show ?thesis by simp
qed

end
