(* ===== verification/File_Transfer.thy ===== *)
theory File_Transfer
  imports File_Delta File_Names Message
begin

text \<open>
  One file transfer, \<open>conquerd-client/src/file_transfer.rs\<close>: the outbound side with its source and the
  production of chunk frames, the inbound side with its sink. The third-party crates and the download
  directory are the argument \<open>file_env\<close>. What the operating system says during a call is an \<open>os_view\<close>:
  the time and, for every file operation, success or an error text; \<open>f64\<close> times and fractions are
  rationals. The disk is a map from paths to contents that the caller threads through. An open file is
  identified with its path, and a write that fails leaves the file as it was.
\<close>

section \<open>Disk and libraries\<close>

type_synonym disk = "string \<rightharpoonup> bytes"

datatype io_call =
    Io_create_dir string
  | Io_create string
  | Io_open string
  | Io_write string nat
  | Io_set_len string
  | Io_stat string
  | Io_rename string string nat
  | Io_remove string

record os_view =
  ov_now :: rat
  ov_io :: "io_call \<Rightarrow> string option"

record file_env =
  fe_crates :: crates
  fe_zlib :: zlib
  fe_b64_encode :: "bytes \<Rightarrow> string"
  fe_b64_decode :: "string \<Rightarrow> bytes option"
  fe_download_dir :: string

text \<open>
  What the documentation of the libraries promises: zlib and base64 give back what they were given,
  deflate adds less than a chunk to a small input, and a hexadecimal text is not shorter than the bytes.
\<close>

definition file_env_ok :: "file_env \<Rightarrow> bool" where
  "file_env_ok E \<longleftrightarrow> zlib_ok (fe_zlib E) \<and> crates_ok (fe_crates E) \<and>
     (\<forall>b. fe_b64_decode E (fe_b64_encode E b) = Some b) \<and>
     (\<forall>d l c. length d \<le> INLINE_MAX \<longrightarrow> zl_compress (fe_zlib E) d l = Inr c \<longrightarrow> length c \<le> length d + 65536) \<and>
     (\<forall>b. length b \<le> length (cr_hex_encode (fe_crates E) b))"

text \<open>Writing at an offset past the end fills the gap with zeros; \<open>set_len\<close> truncates or extends.\<close>

definition write_at :: "nat \<Rightarrow> bytes \<Rightarrow> bytes \<Rightarrow> bytes" where
  "write_at offset data f = take offset (f @ replicate (offset - length f) 0) @ data @ drop (offset + length data) f"

definition set_len :: "nat \<Rightarrow> bytes \<Rightarrow> bytes" where
  "set_len n f = take n (f @ replicate (n - length f) 0)"

definition remove_file :: "os_view \<Rightarrow> string \<Rightarrow> disk \<Rightarrow> disk" where
  "remove_file W path D = (if ov_io W (Io_remove path) = None then D(path := None) else D)"

section \<open>States, events and transfers\<close>

definition CHUNK_SIZE :: nat where "CHUNK_SIZE = 65536"
definition TRANSFER_RETAIN_SECS :: rat where "TRANSFER_RETAIN_SECS = 300"
definition ROOM_FILE_CHUNK_BUDGET :: nat where "ROOM_FILE_CHUNK_BUDGET = 8"
definition STALL_BACKOFF_BASE_SECS :: rat where "STALL_BACKOFF_BASE_SECS = 1 / 10"
definition STALL_BACKOFF_MAX_SECS :: rat where "STALL_BACKOFF_MAX_SECS = 5"
definition STALL_GIVE_UP_SECS :: rat where "STALL_GIVE_UP_SECS = 120"
definition OFFER_TTL_SECS :: rat where "OFFER_TTL_SECS = 3600"

text \<open>\<open>payload_len.div_ceil(CHUNK_SIZE).max(1)\<close>\<close>

definition chunk_count :: "nat \<Rightarrow> nat" where
  "chunk_count len = max ((len + CHUNK_SIZE - 1) div CHUNK_SIZE) 1"

datatype transfer_state = Pending | Transferring | Verifying | Completed | Failed | Rejected | Cancelled

fun is_terminal :: "transfer_state \<Rightarrow> bool" where
  "is_terminal Completed = True"
| "is_terminal Failed = True"
| "is_terminal Rejected = True"
| "is_terminal Cancelled = True"
| "is_terminal _ = False"

fun state_str :: "transfer_state \<Rightarrow> string" where
  "state_str Pending = ''pending''"
| "state_str Transferring = ''transferring''"
| "state_str Verifying = ''verifying''"
| "state_str Completed = ''complete''"
| "state_str Failed = ''failed''"
| "state_str Rejected = ''rejected''"
| "state_str Cancelled = ''cancelled''"

datatype transfer_source = Inline bytes | FilePath string nat

fun payload_len :: "transfer_source \<Rightarrow> nat" where
  "payload_len (Inline d) = length d"
| "payload_len (FilePath path len) = len"

fun source_is_streaming :: "transfer_source \<Rightarrow> bool" where
  "source_is_streaming (FilePath path len) = True"
| "source_is_streaming (Inline d) = False"

definition read_chunk :: "os_view \<Rightarrow> disk \<Rightarrow> transfer_source \<Rightarrow> nat \<Rightarrow> bytes option" where
  "read_chunk W D src index =
     (let offset = index * CHUNK_SIZE; tot = payload_len src; want = min CHUNK_SIZE (tot - offset)
      in if 2 ^ 64 \<le> offset then None
         else if tot \<le> offset \<and> \<not> (tot = 0 \<and> index = 0) then None
         else case src of
             Inline d \<Rightarrow> Some (take want (drop offset d))
           | FilePath path len \<Rightarrow>
               (case (ov_io W (Io_open path), D path) of
                  (None, Some content) \<Rightarrow> if length content < offset + want then None
                                         else Some (take want (drop offset content))
                | _ \<Rightarrow> None))"

record outbound_transfer =
  ot_transfer_id :: string
  ot_peer_id :: string
  ot_rel_path :: string
  ot_source :: transfer_source
  ot_sha256 :: string
  ot_total_chunks :: nat
  ot_chunks_sent :: nat
  ot_state :: transfer_state
  ot_purpose :: string
  ot_compressed :: bool
  ot_is_delta :: bool
  ot_created_at :: rat
  ot_to :: string
  ot_finished_at :: "rat option"
  ot_stall_count :: nat
  ot_stalled_since :: "rat option"
  ot_retry_after :: rat

datatype transfer_sink = Memory "nat \<rightharpoonup> bytes" | PartFile bool string "bool list" nat

fun received_count :: "transfer_sink \<Rightarrow> nat" where
  "received_count (Memory m) = msize m"
| "received_count (PartFile is_open path received count) = count"

record inbound_transfer =
  it_transfer_id :: string
  it_peer_id :: peer_id
  it_room_id :: room_id
  it_supernode_id :: peer_id
  it_rel_path :: string
  it_expected_sha256 :: string
  it_expected_size :: nat
  it_total_chunks :: nat
  it_state :: transfer_state
  it_purpose :: string
  it_compressed :: bool
  it_is_delta :: bool
  it_base_sha256 :: string
  it_created_at :: rat
  it_finished_at :: "rat option"
  it_sink :: transfer_sink
  it_complete_requested :: bool

datatype transfer_payload = Bytes bytes | SavedAt string nat

type_synonym payload_map = "(string \<times> jvalue) list"

datatype transfer_event =
    Ev_Offered string peer_id string nat string
  | Ev_Progress string rat
  | Ev_Complete string peer_id room_id peer_id string transfer_payload string
  | Ev_Failed string string
  | Ev_StateChanged string string
  | Ev_SendMessage peer_id client_type payload_map

section \<open>Producing chunks\<close>

definition progress_is_reportable :: "nat \<Rightarrow> nat \<Rightarrow> bool" where
  "progress_is_reportable sent tot =
     (if tot = 0 then False else if tot \<le> sent then True
      else sent mod max (tot div 100) 1 = 0)"

definition to_field :: "string \<Rightarrow> (string \<times> jvalue) list" where
  "to_field to = (if to = [] then [] else [(''to'', VStr to)])"

definition chunk_payload :: "file_env \<Rightarrow> outbound_transfer \<Rightarrow> nat \<Rightarrow> bytes \<Rightarrow> payload_map" where
  "chunk_payload E x i chunk =
     bt_of ([(''transfer_id'', VStr (ot_transfer_id x)), (''chunk_index'', VNum (NInt (int i))),
       (''data'', VStr (fe_b64_encode E chunk))] @ to_field (ot_to x)) []"

definition complete_payload :: "outbound_transfer \<Rightarrow> payload_map" where
  "complete_payload x = bt_of ([(''transfer_id'', VStr (ot_transfer_id x))] @ to_field (ot_to x)) []"

text \<open>The loop of \<open>next_chunk_events\<close>, over the budget that is left; the flag says that reading failed.\<close>

fun chunk_loop :: "file_env \<Rightarrow> os_view \<Rightarrow> disk \<Rightarrow> nat \<Rightarrow> outbound_transfer \<Rightarrow>
    transfer_event list \<times> bool \<times> outbound_transfer" where
  "chunk_loop E W D 0 x = ([], False, x)"
| "chunk_loop E W D (Suc budget) x =
     (if ot_total_chunks x \<le> ot_chunks_sent x then ([], False, x)
      else case read_chunk W D (ot_source x) (ot_chunks_sent x) of
          None \<Rightarrow> ([Ev_Failed (ot_transfer_id x) ''source file unreadable''], True,
                   x\<lparr>ot_state := Failed, ot_finished_at := Some (ov_now W)\<rparr>)
        | Some chunk \<Rightarrow>
            (let sent = Suc (ot_chunks_sent x);
                 (evs, failed, x') = chunk_loop E W D budget (x\<lparr>ot_chunks_sent := sent\<rparr>)
             in (Ev_SendMessage (ot_peer_id x) FileTransferChunk_c (chunk_payload E x (ot_chunks_sent x) chunk) #
                 (if progress_is_reportable sent (ot_total_chunks x)
                  then [Ev_Progress (ot_transfer_id x) (of_nat sent / of_nat (ot_total_chunks x))] else []) @ evs,
                 failed, x')))"

definition next_chunk_events :: "file_env \<Rightarrow> os_view \<Rightarrow> disk \<Rightarrow> nat \<Rightarrow> outbound_transfer \<Rightarrow>
    transfer_event list \<times> bool \<times> outbound_transfer" where
  "next_chunk_events E W D budget x =
     (case chunk_loop E W D budget x of
        (evs, failed, x') \<Rightarrow>
          if failed then (evs, True, x')
          else if ot_total_chunks x' \<le> ot_chunks_sent x'
          then (evs @ [Ev_SendMessage (ot_peer_id x') FileTransferComplete_c (complete_payload x')], True, x')
          else (evs, False, x'))"

definition build_chunk_events :: "file_env \<Rightarrow> os_view \<Rightarrow> disk \<Rightarrow> outbound_transfer \<Rightarrow>
    transfer_event list \<times> outbound_transfer" where
  "build_chunk_events E W D x =
     (case next_chunk_events E W D (ot_total_chunks x) x of (evs, _, x') \<Rightarrow> (evs, x'))"

section \<open>Receiving chunks\<close>

fun sink_is_streaming :: "transfer_sink \<Rightarrow> bool" where
  "sink_is_streaming (PartFile is_open path received count) = True"
| "sink_is_streaming (Memory m) = False"

definition it_is_streaming :: "inbound_transfer \<Rightarrow> bool" where
  "it_is_streaming x = sink_is_streaming (it_sink x)"

definition store_chunk :: "os_view \<Rightarrow> nat \<Rightarrow> bytes \<Rightarrow> inbound_transfer \<Rightarrow> disk \<Rightarrow> bool \<times> inbound_transfer \<times> disk" where
  "store_chunk W index data x D =
     (if it_total_chunks x \<le> index then (False, x, D)
      else case it_sink x of
          Memory chunks \<Rightarrow>
            if chunks index \<noteq> None then (False, x, D)
            else (True, x\<lparr>it_sink := Memory (chunks(index \<mapsto> data))\<rparr>, D)
        | PartFile is_open path received count \<Rightarrow>
            if length received \<le> index \<or> received ! index then (False, x, D)
            else if \<not> is_open then (False, x, D)
            else if ov_io W (Io_write path (index * CHUNK_SIZE)) \<noteq> None then (False, x, D)
            else (True, x\<lparr>it_sink := PartFile is_open path (received[index := True]) (Suc count)\<rparr>,
                  (case D path of None \<Rightarrow> D | Some f \<Rightarrow> D(path \<mapsto> write_at (index * CHUNK_SIZE) data f))))"

definition chunks_received :: "inbound_transfer \<Rightarrow> nat" where
  "chunks_received x = received_count (it_sink x)"

definition it_progress :: "inbound_transfer \<Rightarrow> rat" where
  "it_progress x = (if it_total_chunks x = 0 then 0 else of_nat (chunks_received x) / of_nat (it_total_chunks x))"

definition reassemble :: "inbound_transfer \<Rightarrow> bytes" where
  "reassemble x =
     (case it_sink x of
        Memory chunks \<Rightarrow> concat (map (\<lambda>i. case chunks i of None \<Rightarrow> [] | Some c \<Rightarrow> c) [0..<it_total_chunks x])
      | PartFile is_open path received count \<Rightarrow> [])"

section \<open>The contract of a sink\<close>

text \<open>
  A file is cut into \<open>chunk_count\<close> pieces. A sink collects pieces by index; when it holds all of them
  and each is the piece of one file, its content is the file. Both sinks of the code keep the contract.
\<close>

definition chunk_of :: "bytes \<Rightarrow> nat \<Rightarrow> bytes" where
  "chunk_of data i = take CHUNK_SIZE (drop (i * CHUNK_SIZE) data)"

locale chunk_sink =
  fixes got :: "'s \<Rightarrow> nat set" and put :: "nat \<Rightarrow> bytes \<Rightarrow> 's \<Rightarrow> 's" and agrees :: "bytes \<Rightarrow> 's \<Rightarrow> bool"
    and content :: "nat \<Rightarrow> nat \<Rightarrow> 's \<Rightarrow> bytes"
  assumes got_put: "agrees data s \<Longrightarrow> i < chunk_count (length data) \<Longrightarrow> got (put i c s) = insert i (got s)"
    and agrees_put: "agrees data s \<Longrightarrow> i < chunk_count (length data) \<Longrightarrow> i \<notin> got s \<Longrightarrow> agrees data (put i (chunk_of data i) s)"
    and content_all: "agrees data s \<Longrightarrow> got s = {..<chunk_count (length data)} \<Longrightarrow>
          content (length data) (chunk_count (length data)) s = data"
begin

definition offer_chunk :: "bytes \<Rightarrow> nat \<Rightarrow> 's \<Rightarrow> 's" where
  "offer_chunk data i s = (if i \<in> got s then s else put i (chunk_of data i) s)"

lemma offers_agree:
  "agrees data s \<Longrightarrow> set js \<subseteq> {..<chunk_count (length data)} \<Longrightarrow>
     agrees data (fold (offer_chunk data) js s) \<and> got (fold (offer_chunk data) js s) = got s \<union> set js"
proof (induction js arbitrary: s)
  case (Cons j js)
  have j: "j < chunk_count (length data)" using Cons.prems by simp
  have "agrees data (offer_chunk data j s) \<and> got (offer_chunk data j s) = insert j (got s)"
    using Cons.prems(1) j got_put agrees_put by (auto simp: offer_chunk_def)
  with Cons.IH [of "offer_chunk data j s"] Cons.prems(2) show ?case by auto
qed simp

lemma any_order:
  assumes "agrees data s" and "got s = {}" and "set js = {..<chunk_count (length data)}"
  shows "content (length data) (chunk_count (length data)) (fold (offer_chunk data) js s) = data"
  using offers_agree [OF assms(1), of js] assms(2,3) by (intro content_all) auto

end

lemma CHUNK_SIZE_pos [simp]: "0 < CHUNK_SIZE" "CHUNK_SIZE \<noteq> 0"
  by (simp_all add: CHUNK_SIZE_def)

lemma chunk_count_pos [simp]: "0 < chunk_count n" "1 \<le> chunk_count n"
  by (simp_all add: chunk_count_def)

lemma chunk_count_covers: "n \<le> chunk_count n * CHUNK_SIZE"
proof -
  have "n \<le> (n + CHUNK_SIZE - 1) div CHUNK_SIZE * CHUNK_SIZE"
    using div_mult_mod_eq [of "n + CHUNK_SIZE - 1" CHUNK_SIZE]
      mod_less_divisor [OF CHUNK_SIZE_pos(1), of "n + CHUNK_SIZE - 1"] by linarith
  also have "\<dots> \<le> chunk_count n * CHUNK_SIZE" by (simp add: chunk_count_def)
  finally show ?thesis .
qed

lemma chunk_index: "k < n \<Longrightarrow> k div CHUNK_SIZE < chunk_count n"
  using chunk_count_covers [of n] by (simp add: less_mult_imp_div_less)

lemma chunk_start: "i < chunk_count n \<Longrightarrow> n \<le> i * CHUNK_SIZE \<Longrightarrow> n = 0 \<and> i = 0"
proof (rule ccontr)
  assume i: "i < chunk_count n" "n \<le> i * CHUNK_SIZE" and "\<not> (n = 0 \<and> i = 0)"
  then have "i \<noteq> 0" by (cases i) auto
  with i(1) have "Suc i \<le> (n + CHUNK_SIZE - 1) div CHUNK_SIZE" by (auto simp: chunk_count_def)
  then have "Suc i * CHUNK_SIZE \<le> n + CHUNK_SIZE - 1"
    by (metis CHUNK_SIZE_pos(1) div_le_mono div_times_less_eq_dividend le_trans mult_le_mono1)
  moreover have "0 < CHUNK_SIZE" "Suc i * CHUNK_SIZE = CHUNK_SIZE + i * CHUNK_SIZE" by simp_all
  ultimately show False using i(2) by linarith
qed

lemma concat_chunks: "concat (map (chunk_of data) [0..<n]) = take (n * CHUNK_SIZE) data"
  by (induction n) (simp_all add: chunk_of_def take_add [symmetric] add.commute)

lemma nth_write_at:
  "k < max (length f) (offset + length d) \<Longrightarrow> write_at offset d f ! k =
     (if offset \<le> k \<and> k < offset + length d then d ! (k - offset) else if k < length f then f ! k else 0)"
proof -
  assume k: "k < max (length f) (offset + length d)"
  have len: "length (take offset (f @ replicate (offset - length f) 0)) = offset" by simp
  show ?thesis
  proof (cases "k < offset")
    case True
    then have "\<not> k < length f \<Longrightarrow> k - length f < offset - length f" by linarith
    with True show ?thesis by (auto simp: write_at_def nth_append)
  next
    case False
    with k show ?thesis unfolding write_at_def nth_append len by auto
  qed
qed

lemma length_write_at [simp]: "length (write_at offset d f) = max (length f) (offset + length d)"
  by (simp add: write_at_def)

text \<open>The two sinks. A partial file is its arrival flags with the bytes on disk.\<close>

definition mem_agrees :: "bytes \<Rightarrow> (nat \<rightharpoonup> bytes) \<Rightarrow> bool" where
  "mem_agrees data m \<longleftrightarrow> (\<forall>i c. m i = Some c \<longrightarrow> i < chunk_count (length data) \<and> c = chunk_of data i)"

definition mem_content :: "nat \<Rightarrow> nat \<Rightarrow> (nat \<rightharpoonup> bytes) \<Rightarrow> bytes" where
  "mem_content sz n m = concat (map (\<lambda>i. case m i of None \<Rightarrow> [] | Some c \<Rightarrow> c) [0..<n])"

definition part_got :: "bool list \<times> bytes \<Rightarrow> nat set" where
  "part_got s = {i. i < length (fst s) \<and> fst s ! i}"

definition part_put :: "nat \<Rightarrow> bytes \<Rightarrow> bool list \<times> bytes \<Rightarrow> bool list \<times> bytes" where
  "part_put i c s = ((fst s)[i := True], write_at (i * CHUNK_SIZE) c (snd s))"

definition part_agrees :: "bytes \<Rightarrow> bool list \<times> bytes \<Rightarrow> bool" where
  "part_agrees data s \<longleftrightarrow> length (fst s) = chunk_count (length data) \<and>
     (\<forall>k < length data. k div CHUNK_SIZE \<in> part_got s \<longrightarrow> k < length (snd s) \<and> snd s ! k = data ! k)"

interpretation mem: chunk_sink dom "\<lambda>i c m. m(i \<mapsto> c)" mem_agrees mem_content
proof
  fix data m assume m: "mem_agrees data m" "dom m = {..<chunk_count (length data)}"
  have "mem_content (length data) (chunk_count (length data)) m =
      concat (map (chunk_of data) [0..<chunk_count (length data)])"
    unfolding mem_content_def
  proof (rule arg_cong [where f = concat], rule map_cong [OF refl])
    fix i assume "i \<in> set [0..<chunk_count (length data)]"
    with m(2) have "i \<in> dom m" by simp
    with m(1) show "(case m i of None \<Rightarrow> [] | Some c \<Rightarrow> c) = chunk_of data i"
      by (auto simp: mem_agrees_def dom_def)
  qed
  also have "\<dots> = data" using chunk_count_covers [of "length data"] by (simp add: concat_chunks)
  finally show "mem_content (length data) (chunk_count (length data)) m = data" .
qed (auto simp: mem_agrees_def)

lemma chunk_byte:
  assumes "k < length data"
  shows "k div CHUNK_SIZE = i \<longleftrightarrow> i * CHUNK_SIZE \<le> k \<and> k < i * CHUNK_SIZE + length (chunk_of data i)"
proof -
  have "k div CHUNK_SIZE = i \<longleftrightarrow> i * CHUNK_SIZE \<le> k \<and> k < Suc i * CHUNK_SIZE"
    by (metis CHUNK_SIZE_pos(1) div_nat_eqI div_times_less_eq_dividend dividend_less_times_div mult.commute mult_Suc)
  with assms show ?thesis by (auto simp: chunk_of_def)
qed

interpretation part: chunk_sink part_got part_put part_agrees "\<lambda>sz n s. set_len sz (snd s)"
proof
  fix data s i and c :: bytes assume a: "part_agrees data s" "i < chunk_count (length data)"
  then show got: "part_got (part_put i c s) = insert i (part_got s)"
    by (auto simp: part_agrees_def part_got_def part_put_def nth_list_update)
next
  fix data s i assume a: "part_agrees data s" "i < chunk_count (length data)" "i \<notin> part_got s"
  show "part_agrees data (part_put i (chunk_of data i) s)"
    unfolding part_agrees_def
  proof (intro conjI allI impI)
    show "length (fst (part_put i (chunk_of data i) s)) = chunk_count (length data)"
      using a(1) by (simp add: part_agrees_def part_put_def)
    fix k assume k: "k < length data" "k div CHUNK_SIZE \<in> part_got (part_put i (chunk_of data i) s)"
    then have "k div CHUNK_SIZE = i \<or> k div CHUNK_SIZE \<in> part_got s"
      using a(1,2) by (auto simp: part_agrees_def part_got_def part_put_def nth_list_update split: if_splits)
    then have at: "k < max (length (snd s)) (i * CHUNK_SIZE + length (chunk_of data i)) \<and>
        (k div CHUNK_SIZE \<noteq> i \<longrightarrow> k < length (snd s) \<and> snd s ! k = data ! k)"
      using a(1) k(1) chunk_byte [OF k(1), of i] by (auto simp: part_agrees_def)
    moreover have "chunk_of data i ! (k - i * CHUNK_SIZE) = data ! k" if "k div CHUNK_SIZE = i"
    proof -
      have "i * CHUNK_SIZE \<le> k" "k < i * CHUNK_SIZE + CHUNK_SIZE"
        using that chunk_byte [OF k(1), of i] by (auto simp: chunk_of_def)
      then obtain r where "k = i * CHUNK_SIZE + r" "r < CHUNK_SIZE"
        by (metis add_less_cancel_left le_Suc_ex)
      with k(1) show ?thesis by (simp add: chunk_of_def)
    qed
    ultimately show "k < length (snd (part_put i (chunk_of data i) s))"
      "snd (part_put i (chunk_of data i) s) ! k = data ! k"
      using chunk_byte [OF k(1), of i] by (auto simp: part_put_def nth_write_at)
  qed
next
  fix data s assume a: "part_agrees data s" "part_got s = {..<chunk_count (length data)}"
  then have "\<forall>k < length data. k < length (snd s) \<and> snd s ! k = data ! k"
    by (simp add: part_agrees_def chunk_index)
  then show "set_len (length data) (snd s) = data"
    by (intro nth_equalityI) (auto simp: set_len_def nth_append)
qed

section \<open>What the sender emits\<close>

text \<open>The messages in a batch of events.\<close>

fun sends :: "transfer_event list \<Rightarrow> (peer_id \<times> client_type \<times> payload_map) list" where
  "sends [] = []"
| "sends (Ev_SendMessage p t m # evs) = (p, t, m) # sends evs"
| "sends (_ # evs) = sends evs"

lemma sends_append [simp]: "sends (a @ b) = sends a @ sends b"
  by (induction a rule: sends.induct) auto

definition chunk_message :: "file_env \<Rightarrow> os_view \<Rightarrow> disk \<Rightarrow> outbound_transfer \<Rightarrow> nat \<Rightarrow> peer_id \<times> client_type \<times> payload_map" where
  "chunk_message E W D x i =
     (ot_peer_id x, FileTransferChunk_c, chunk_payload E x i (the (read_chunk W D (ot_source x) i)))"

lemma chunk_message_sent [simp]: "chunk_message E W D (x\<lparr>ot_chunks_sent := n\<rparr>) = chunk_message E W D x"
  by (simp add: fun_eq_iff chunk_message_def chunk_payload_def)

text \<open>
  A turn emits the chunks from the counter on, in order and without gaps, until the budget or the file
  is used up or the source cannot be read.
\<close>

lemma chunk_loop_runs:
  assumes "chunk_loop E W D b x = (evs, failed, x')"
  shows "\<exists>n. ot_chunks_sent x \<le> n \<and> n \<le> ot_chunks_sent x + b \<and> n \<le> max (ot_chunks_sent x) (ot_total_chunks x) \<and>
    sends evs = map (chunk_message E W D x) [ot_chunks_sent x..<n] \<and>
    (\<forall>i \<in> {ot_chunks_sent x..<n}. read_chunk W D (ot_source x) i \<noteq> None) \<and>
    (if failed then n < ot_total_chunks x \<and> read_chunk W D (ot_source x) n = None \<and>
        x' = x\<lparr>ot_chunks_sent := n, ot_state := Failed, ot_finished_at := Some (ov_now W)\<rparr>
     else x' = x\<lparr>ot_chunks_sent := n\<rparr> \<and> (n = ot_chunks_sent x + b \<or> ot_total_chunks x \<le> n))"
  using assms
proof (induction E W D b x arbitrary: evs failed x' rule: chunk_loop.induct)
  case (1 E W D x)
  then show ?case by (intro exI [of _ "ot_chunks_sent x"]) simp
next
  case (2 E W D b x)
  show ?case
  proof (cases "ot_total_chunks x \<le> ot_chunks_sent x \<or> read_chunk W D (ot_source x) (ot_chunks_sent x) = None")
    case True
    with "2.prems" show ?thesis by (intro exI [of _ "ot_chunks_sent x"]) (auto split: if_splits)
  next
    case False
    then obtain c where lt: "\<not> ot_total_chunks x \<le> ot_chunks_sent x"
      and c: "read_chunk W D (ot_source x) (ot_chunks_sent x) = Some c" by blast
    define y where "y = x\<lparr>ot_chunks_sent := Suc (ot_chunks_sent x)\<rparr>"
    obtain evs1 failed1 x1 where r: "chunk_loop E W D b y = (evs1, failed1, x1)" by (metis prod_cases3)
    have y: "ot_total_chunks y = ot_total_chunks x" "ot_source y = ot_source x" "ot_chunks_sent y = Suc (ot_chunks_sent x)"
      "chunk_message E W D y = chunk_message E W D x" "y\<lparr>ot_chunks_sent := k\<rparr> = x\<lparr>ot_chunks_sent := k\<rparr>" for k
      by (simp_all add: y_def)
    from "2.IH" [OF lt c refl, folded y_def, OF r, unfolded y] obtain n where n: "Suc (ot_chunks_sent x) \<le> n"
      "n \<le> Suc (ot_chunks_sent x) + b" "n \<le> max (Suc (ot_chunks_sent x)) (ot_total_chunks x)"
      "sends evs1 = map (chunk_message E W D x) [Suc (ot_chunks_sent x)..<n]"
      "\<forall>i \<in> {Suc (ot_chunks_sent x)..<n}. read_chunk W D (ot_source x) i \<noteq> None"
      "if failed1 then n < ot_total_chunks x \<and> read_chunk W D (ot_source x) n = None \<and>
          x1 = x\<lparr>ot_chunks_sent := n, ot_state := Failed, ot_finished_at := Some (ov_now W)\<rparr>
       else x1 = x\<lparr>ot_chunks_sent := n\<rparr> \<and> (n = Suc (ot_chunks_sent x) + b \<or> ot_total_chunks x \<le> n)"
      by blast
    have e: "failed = failed1" "x' = x1"
      "sends evs = chunk_message E W D x (ot_chunks_sent x) # sends evs1"
      using "2.prems" lt c r by (auto simp: y_def [symmetric] chunk_message_def Let_def split: if_splits)
    have l: "[ot_chunks_sent x..<n] = ot_chunks_sent x # [Suc (ot_chunks_sent x)..<n]"
      using n(1) by (simp add: upt_conv_Cons)
    have "\<forall>i \<in> {ot_chunks_sent x..<n}. read_chunk W D (ot_source x) i \<noteq> None"
      using n(5) c by (metis Suc_leI atLeastLessThan_iff le_neq_implies_less option.distinct(1))
    then show ?thesis
      using n(1-3) n(6) lt by (intro exI [of _ n]) (auto simp: e n(4) l split: if_splits)
  qed
qed

lemma read_chunk_inline:
  "length d < 2 ^ 64 \<Longrightarrow> i < chunk_count (length d) \<Longrightarrow> read_chunk W D (Inline d) i = Some (chunk_of d i)"
  using chunk_start [of i "length d"]
  by (cases "length d \<le> i * CHUNK_SIZE") (auto simp: read_chunk_def chunk_of_def min_def Let_def)

lemma read_chunk_file:
  assumes "D path = Some d" and "ov_io W (Io_open path) = None" and "length d < 2 ^ 64" and "i < chunk_count (length d)"
  shows "read_chunk W D (FilePath path (length d)) i = Some (chunk_of d i)"
  using assms chunk_start [of i "length d"]
  by (cases "length d \<le> i * CHUNK_SIZE") (auto simp: read_chunk_def chunk_of_def min_def Let_def)

end
