(* ===== verification/File_Manager.thy ===== *)
theory File_Manager
  imports File_Transfer
begin

text \<open>
  All transfers of a client, the \<open>FileTransferManager\<close> of \<open>conquerd-client/src/file_transfer.rs\<close>. Every
  operation takes the view of the operating system during the call and the disk; operations that can
  panic return \<open>None\<close> when they do. A client has two managers, one for its peers and one for rooms.
\<close>

section \<open>State\<close>

record file_manager =
  fm_outbound :: "string \<rightharpoonup> outbound_transfer"
  fm_inbound :: "string \<rightharpoonup> inbound_transfer"
  fm_old_data :: "string \<rightharpoonup> bytes"

definition new_file_manager :: file_manager where
  "new_file_manager = \<lparr>fm_outbound = Map.empty, fm_inbound = Map.empty, fm_old_data = Map.empty\<rparr>"

definition set_old_file_data :: "string \<Rightarrow> bytes \<Rightarrow> file_manager \<Rightarrow> file_manager" where
  "set_old_file_data rel_path data M = M\<lparr>fm_old_data := (fm_old_data M)(rel_path \<mapsto> data)\<rparr>"

definition get_old_data :: "string \<Rightarrow> file_manager \<Rightarrow> bytes option" where
  "get_old_data rel_path M = fm_old_data M rel_path"

definition put_outbound :: "string \<Rightarrow> outbound_transfer \<Rightarrow> file_manager \<Rightarrow> file_manager" where
  "put_outbound tid x M = M\<lparr>fm_outbound := (fm_outbound M)(tid \<mapsto> x)\<rparr>"

definition put_inbound :: "string \<Rightarrow> inbound_transfer \<Rightarrow> file_manager \<Rightarrow> file_manager" where
  "put_inbound tid x M = M\<lparr>fm_inbound := (fm_inbound M)(tid \<mapsto> x)\<rparr>"

section \<open>Lifecycle\<close>

definition keep_record :: "rat \<Rightarrow> rat option \<Rightarrow> rat \<Rightarrow> bool" where
  "keep_record now finished_at created_at =
     (case finished_at of Some t \<Rightarrow> now - t < TRANSFER_RETAIN_SECS | None \<Rightarrow> now - created_at < OFFER_TTL_SECS)"

definition stamp :: "rat \<Rightarrow> transfer_state \<Rightarrow> rat option \<Rightarrow> rat option" where
  "stamp now st finished_at = (if finished_at = None \<and> is_terminal st then Some now else finished_at)"

definition stamp_outbound :: "rat \<Rightarrow> outbound_transfer \<Rightarrow> outbound_transfer" where
  "stamp_outbound now x = x\<lparr>ot_finished_at := stamp now (ot_state x) (ot_finished_at x)\<rparr>"

definition stamp_inbound :: "rat \<Rightarrow> inbound_transfer \<Rightarrow> inbound_transfer" where
  "stamp_inbound now x = x\<lparr>it_finished_at := stamp now (it_state x) (it_finished_at x)\<rparr>"

fun part_path :: "transfer_sink \<Rightarrow> string option" where
  "part_path (PartFile is_open path received count) = Some path"
| "part_path (Memory m) = None"

definition orphans :: "rat \<Rightarrow> (string \<rightharpoonup> inbound_transfer) \<Rightarrow> string set" where
  "orphans now inb = {p. \<exists>tid x. inb tid = Some x \<and> \<not> keep_record now (it_finished_at x) (it_created_at x) \<and>
     part_path (it_sink x) = Some p}"

definition gc :: "os_view \<Rightarrow> file_manager \<Rightarrow> disk \<Rightarrow> nat \<times> file_manager \<times> disk" where
  "gc W M D =
     (let now = ov_now W; before = msize (fm_outbound M) + msize (fm_inbound M);
          out = map_option (stamp_outbound now) \<circ> fm_outbound M;
          inb = map_option (stamp_inbound now) \<circ> fm_inbound M;
          out' = retain (\<lambda>_ x. keep_record now (ot_finished_at x) (ot_created_at x)) out;
          inb' = retain (\<lambda>_ x. keep_record now (it_finished_at x) (it_created_at x)) inb;
          D' = (\<lambda>p. if D p \<noteq> None \<and> p \<in> orphans now inb \<and> ov_io W (Io_remove p) = None then None else D p)
      in (before - (msize out' + msize inb'), M\<lparr>fm_outbound := out', fm_inbound := inb'\<rparr>, D'))"

section \<open>Streams\<close>

definition start_stream_for :: "file_env \<Rightarrow> os_view \<Rightarrow> disk \<Rightarrow> string \<Rightarrow> peer_id \<Rightarrow> nat \<Rightarrow> file_manager \<Rightarrow>
    transfer_event list \<times> file_manager" where
  "start_stream_for E W D tid requester budget M =
     (case fm_outbound M tid of
        None \<Rightarrow> ([], M)
      | Some x \<Rightarrow>
          (case next_chunk_events E W D budget
              (x\<lparr>ot_chunks_sent := 0, ot_to := requester, ot_state := Transferring, ot_finished_at := None\<rparr>) of
             (evs, _, x') \<Rightarrow> (evs, put_outbound tid x' M)))"

definition pump_stream :: "file_env \<Rightarrow> os_view \<Rightarrow> disk \<Rightarrow> string \<Rightarrow> nat \<Rightarrow> file_manager \<Rightarrow>
    transfer_event list \<times> bool \<times> file_manager" where
  "pump_stream E W D tid budget M =
     (case fm_outbound M tid of
        None \<Rightarrow> ([], True, M)
      | Some x \<Rightarrow>
          if ot_state x \<noteq> Transferring then ([], True, M)
          else (case next_chunk_events E W D budget x of
             (evs, stream_done, x') \<Rightarrow> (evs, stream_done, put_outbound tid x' M)))"

definition inbound_route :: "string \<Rightarrow> file_manager \<Rightarrow> (peer_id \<times> room_id \<times> peer_id) option" where
  "inbound_route tid M = map_option (\<lambda>x. (it_peer_id x, it_room_id x, it_supernode_id x)) (fm_inbound M tid)"

definition outbound_route :: "string \<Rightarrow> file_manager \<Rightarrow> (room_id \<times> peer_id) option" where
  "outbound_route tid M = map_option (\<lambda>x. (ot_peer_id x, [])) (fm_outbound M tid)"

definition revoke_outbound :: "string \<Rightarrow> file_manager \<Rightarrow> bool \<times> file_manager" where
  "revoke_outbound tid M = (fm_outbound M tid \<noteq> None, M\<lparr>fm_outbound := (fm_outbound M)(tid := None)\<rparr>)"

definition has_outbound :: "string \<Rightarrow> file_manager \<Rightarrow> bool" where
  "has_outbound tid M \<longleftrightarrow> fm_outbound M tid \<noteq> None"

definition has_inbound :: "string \<Rightarrow> file_manager \<Rightarrow> bool" where
  "has_inbound tid M \<longleftrightarrow> fm_inbound M tid \<noteq> None"

definition discard_inbound :: "os_view \<Rightarrow> string \<Rightarrow> file_manager \<Rightarrow> disk \<Rightarrow> file_manager \<times> disk" where
  "discard_inbound W tid M D =
     (case fm_inbound M tid of
        None \<Rightarrow> (M, D)
      | Some x \<Rightarrow> (M\<lparr>fm_inbound := (fm_inbound M)(tid := None)\<rparr>,
                  (case part_path (it_sink x) of None \<Rightarrow> D | Some path \<Rightarrow> remove_file W path D)))"

definition active_outbound_streams :: "rat \<Rightarrow> file_manager \<Rightarrow> string set" where
  "active_outbound_streams now M =
     {tid. \<exists>x. fm_outbound M tid = Some x \<and> ot_state x = Transferring \<and> ot_retry_after x \<le> now}"

definition note_send_stalled :: "rat \<Rightarrow> string \<Rightarrow> file_manager \<Rightarrow> string option \<times> file_manager" where
  "note_send_stalled now tid M =
     (case fm_outbound M tid of
        None \<Rightarrow> (None, M)
      | Some x \<Rightarrow>
          (let since = (case ot_stalled_since x of Some t \<Rightarrow> t | None \<Rightarrow> now);
               x1 = x\<lparr>ot_stalled_since := Some since, ot_stall_count := min (Suc (ot_stall_count x)) (2 ^ 32 - 1)\<rparr>
           in if STALL_GIVE_UP_SECS \<le> now - since
              then (Some ''no transport available to send on'',
                    put_outbound tid (x1\<lparr>ot_state := Failed, ot_finished_at := Some now\<rparr>) M)
              else let steps = min (ot_stall_count x1) 16 - 1;
                       backoff = min (STALL_BACKOFF_BASE_SECS * 2 ^ steps) STALL_BACKOFF_MAX_SECS
                   in (None, put_outbound tid (x1\<lparr>ot_retry_after := now + backoff\<rparr>) M)))"

definition note_send_progress :: "string \<Rightarrow> file_manager \<Rightarrow> file_manager" where
  "note_send_progress tid M =
     (case fm_outbound M tid of
        None \<Rightarrow> M
      | Some x \<Rightarrow> put_outbound tid (x\<lparr>ot_stall_count := 0, ot_stalled_since := None, ot_retry_after := 0\<rparr>) M)"

definition unsend_record :: "nat \<Rightarrow> outbound_transfer \<Rightarrow> outbound_transfer" where
  "unsend_record n x =
     (let x1 = x\<lparr>ot_chunks_sent := ot_chunks_sent x - n\<rparr>
      in if ot_state x1 = Completed then x1\<lparr>ot_state := Transferring, ot_finished_at := None\<rparr> else x1)"

definition unsend_chunks :: "string \<Rightarrow> nat \<Rightarrow> file_manager \<Rightarrow> file_manager" where
  "unsend_chunks tid n M =
     (case fm_outbound M tid of None \<Rightarrow> M | Some x \<Rightarrow> put_outbound tid (unsend_record n x) M)"

definition mark_outbound_complete :: "rat \<Rightarrow> string \<Rightarrow> file_manager \<Rightarrow> file_manager" where
  "mark_outbound_complete now tid M =
     (case fm_outbound M tid of
        None \<Rightarrow> M
      | Some x \<Rightarrow> put_outbound tid (x\<lparr>ot_state := Completed, ot_finished_at := Some now\<rparr>) M)"

section \<open>Outbound\<close>

record offer_meta =
  om_transfer_id :: string
  om_original_sha :: string
  om_original_size :: nat
  om_payload_len :: nat
  om_purpose :: string
  om_compressed :: bool
  om_is_delta :: bool
  om_base_sha256 :: string

definition offer_payload :: "string \<Rightarrow> offer_meta \<Rightarrow> payload_map" where
  "offer_payload rel_path meta =
     bt_of [(''transfer_id'', VStr (om_transfer_id meta)), (''rel_path'', VStr rel_path),
       (''sha256'', VStr (om_original_sha meta)), (''size'', VNum (NInt (int (om_original_size meta)))),
       (''payload_size'', VNum (NInt (int (om_payload_len meta)))),
       (''total_chunks'', VNum (NInt (int (chunk_count (om_payload_len meta))))), (''purpose'', VStr (om_purpose meta)),
       (''compressed'', VBool (om_compressed meta)), (''is_delta'', VBool (om_is_delta meta)),
       (''base_sha256'', VStr (om_base_sha256 meta))] []"

definition new_outbound :: "rat \<Rightarrow> peer_id \<Rightarrow> string \<Rightarrow> transfer_source \<Rightarrow> offer_meta \<Rightarrow> outbound_transfer" where
  "new_outbound now peer rel_path source meta =
     \<lparr>ot_transfer_id = om_transfer_id meta, ot_peer_id = peer, ot_rel_path = rel_path, ot_source = source,
      ot_sha256 = om_original_sha meta, ot_total_chunks = chunk_count (om_payload_len meta), ot_chunks_sent = 0,
      ot_state = Pending, ot_purpose = om_purpose meta, ot_compressed = om_compressed meta,
      ot_is_delta = om_is_delta meta, ot_created_at = now, ot_to = [], ot_finished_at = None,
      ot_stall_count = 0, ot_stalled_since = None, ot_retry_after = 0\<rparr>"

definition insert_offer :: "file_env \<Rightarrow> os_view \<Rightarrow> disk \<Rightarrow> peer_id \<Rightarrow> string \<Rightarrow> transfer_source \<Rightarrow> offer_meta \<Rightarrow> bool \<Rightarrow>
    file_manager \<Rightarrow> (string \<times> transfer_event list) \<times> file_manager" where
  "insert_offer E W D peer rel_path source meta auto_push M =
     (let x = new_outbound (ov_now W) peer rel_path source meta;
          offer = Ev_SendMessage peer FileTransferOffer_c (offer_payload rel_path meta);
          (evs, x') = (if auto_push then build_chunk_events E W D (x\<lparr>ot_state := Transferring\<rparr>) else ([], x))
      in ((om_transfer_id meta, offer # evs), put_outbound (om_transfer_id meta) x' M))"

definition offer_file_with_id :: "file_env \<Rightarrow> os_view \<Rightarrow> disk \<Rightarrow> string \<Rightarrow> peer_id \<Rightarrow> string \<Rightarrow> bytes \<Rightarrow> string \<Rightarrow>
    bytes option \<Rightarrow> bool \<Rightarrow> string option \<Rightarrow> file_manager \<Rightarrow> (string + string \<times> transfer_event list) \<times> file_manager" where
  "offer_file_with_id E W D fresh_id peer rel_path data purpose old_data auto_push transfer_id M =
     (if INLINE_MAX < length data
      then (Inl (''File too large for the in-memory path ('' @ show_nat (length data) @ '' bytes, max '' @
              show_nat INLINE_MAX @ ''); use offer_file_from_path''), M)
      else case encode_payload (fe_crates E) (fe_zlib E) old_data data of
          (payload, compressed, is_delta, base) \<Rightarrow>
            (let tid = (case transfer_id of Some t \<Rightarrow> t | None \<Rightarrow> take 16 fresh_id);
                 meta = \<lparr>om_transfer_id = tid, om_original_sha = sha256_hex (fe_crates E) data,
                   om_original_size = length data, om_payload_len = length payload, om_purpose = purpose,
                   om_compressed = compressed, om_is_delta = is_delta, om_base_sha256 = base\<rparr>;
                 (res, M') = insert_offer E W D peer rel_path (Inline payload) meta auto_push M
             in (Inr res, M')))"

definition offer_file where
  "offer_file E W D fresh_id peer rel_path data purpose old_data auto_push M =
     offer_file_with_id E W D fresh_id peer rel_path data purpose old_data auto_push None M"

definition os_stat :: "os_view \<Rightarrow> disk \<Rightarrow> string \<Rightarrow> string + nat" where
  "os_stat W D path = (case ov_io W (Io_stat path) of Some e \<Rightarrow> Inl e
     | None \<Rightarrow> (case D path of None \<Rightarrow> Inl ''not found'' | Some f \<Rightarrow> Inr (length f)))"

definition sha256_hex_file :: "crates \<Rightarrow> os_view \<Rightarrow> disk \<Rightarrow> string \<Rightarrow> string + string" where
  "sha256_hex_file C W D path = (case ov_io W (Io_open path) of
       Some e \<Rightarrow> Inl (''Cannot open '' @ path @ '': '' @ e)
     | None \<Rightarrow> (case D path of None \<Rightarrow> Inl (''Cannot open '' @ path @ '': not found'') | Some f \<Rightarrow> Inr (sha256_hex C f)))"

definition offer_file_from_path_with_id :: "file_env \<Rightarrow> os_view \<Rightarrow> disk \<Rightarrow> string \<Rightarrow> peer_id \<Rightarrow> string \<Rightarrow> string \<Rightarrow> string \<Rightarrow>
    bool \<Rightarrow> string option \<Rightarrow> file_manager \<Rightarrow> (string + string \<times> transfer_event list) \<times> file_manager" where
  "offer_file_from_path_with_id E W D fresh_id peer rel_path path purpose auto_push transfer_id M =
     (case os_stat W D path of
        Inl e \<Rightarrow> (Inl (''Cannot stat '' @ path @ '': '' @ e), M)
      | Inr len \<Rightarrow>
          if MAX_TRANSFER_SIZE < len
          then (Inl (''File too large ('' @ show_nat len @ '' bytes, max '' @ show_nat MAX_TRANSFER_SIZE @ '')''), M)
          else case sha256_hex_file (fe_crates E) W D path of
              Inl e \<Rightarrow> (Inl e, M)
            | Inr sha \<Rightarrow>
                (let meta = \<lparr>om_transfer_id = (case transfer_id of Some t \<Rightarrow> t | None \<Rightarrow> take 16 fresh_id),
                       om_original_sha = sha, om_original_size = len, om_payload_len = len, om_purpose = purpose,
                       om_compressed = False, om_is_delta = False, om_base_sha256 = []\<rparr>;
                     (res, M') = insert_offer E W D peer rel_path (FilePath path len) meta auto_push M
                 in (Inr res, M')))"

definition offer_file_from_path where
  "offer_file_from_path E W D fresh_id peer rel_path path purpose auto_push M =
     offer_file_from_path_with_id E W D fresh_id peer rel_path path purpose auto_push None M"

definition on_transfer_accepted :: "file_env \<Rightarrow> os_view \<Rightarrow> disk \<Rightarrow> string \<Rightarrow> file_manager \<Rightarrow> transfer_event list \<times> file_manager" where
  "on_transfer_accepted E W D tid M =
     (case fm_outbound M tid of
        None \<Rightarrow> ([], M)
      | Some x \<Rightarrow>
          if ot_state x \<noteq> Pending then ([], M)
          else let x1 = x\<lparr>ot_state := Transferring\<rparr>;
                   (evs, x2) = (if source_is_streaming (ot_source x1)
                      then (case next_chunk_events E W D ROOM_FILE_CHUNK_BUDGET x1 of (evs, _, x2) \<Rightarrow> (evs, x2))
                      else build_chunk_events E W D x1)
               in (Ev_StateChanged tid ''transferring'' # evs, put_outbound tid x2 M))"

definition on_transfer_rejected :: "string \<Rightarrow> file_manager \<Rightarrow> transfer_event list \<times> file_manager" where
  "on_transfer_rejected tid M =
     (case fm_outbound M tid of
        None \<Rightarrow> ([], M)
      | Some x \<Rightarrow> ([Ev_Failed tid ''rejected by peer'', Ev_StateChanged tid ''rejected''],
                  put_outbound tid (x\<lparr>ot_state := Rejected\<rparr>) M))"

definition on_transfer_ack :: "rat \<Rightarrow> string \<Rightarrow> file_manager \<Rightarrow> transfer_event list \<times> file_manager" where
  "on_transfer_ack now tid M =
     (case fm_outbound M tid of
        None \<Rightarrow> ([], M)
      | Some x \<Rightarrow>
          (let payload = (case ot_source x of FilePath path len \<Rightarrow> SavedAt path len | Inline d \<Rightarrow> SavedAt [] (length d))
           in ([Ev_Complete tid (ot_peer_id x) [] [] (ot_purpose x) payload (ot_rel_path x),
                Ev_StateChanged tid ''complete''],
               put_outbound tid (x\<lparr>ot_state := Completed, ot_finished_at := Some now\<rparr>) M)))"

definition on_transfer_error :: "string \<Rightarrow> string \<Rightarrow> file_manager \<Rightarrow> transfer_event list \<times> file_manager" where
  "on_transfer_error tid reason M =
     (case fm_outbound M tid of
        None \<Rightarrow> ([], M)
      | Some x \<Rightarrow> ([Ev_Failed tid reason, Ev_StateChanged tid ''failed''], put_outbound tid (x\<lparr>ot_state := Failed\<rparr>) M))"

section \<open>Inbound\<close>

text \<open>The fields of an offer, as the handlers read them from the payload.\<close>

record file_offer =
  fo_transfer_id :: string
  fo_rel_path :: string
  fo_sha256 :: string
  fo_size :: nat
  fo_total_chunks :: nat
  fo_purpose :: string
  fo_compressed :: bool
  fo_is_delta :: bool
  fo_base_sha256 :: string

definition new_inbound :: "rat \<Rightarrow> peer_id \<Rightarrow> room_id \<Rightarrow> peer_id \<Rightarrow> file_offer \<Rightarrow> transfer_sink \<Rightarrow> inbound_transfer" where
  "new_inbound now peer room supernode offer sink =
     \<lparr>it_transfer_id = fo_transfer_id offer, it_peer_id = peer, it_room_id = room, it_supernode_id = supernode,
      it_rel_path = fo_rel_path offer, it_expected_sha256 = fo_sha256 offer, it_expected_size = fo_size offer,
      it_total_chunks = fo_total_chunks offer,
      it_state = (if fo_purpose offer = ''update'' then Transferring else Pending),
      it_purpose = fo_purpose offer, it_compressed = fo_compressed offer, it_is_delta = fo_is_delta offer,
      it_base_sha256 = fo_base_sha256 offer, it_created_at = now, it_finished_at = None, it_sink = sink,
      it_complete_requested = False\<rparr>"

definition tid_payload :: "string \<Rightarrow> payload_map" where
  "tid_payload tid = [(''transfer_id'', VStr tid)]"

definition reason_payload :: "string \<Rightarrow> string \<Rightarrow> payload_map" where
  "reason_payload tid reason = bt_of [(''transfer_id'', VStr tid), (''reason'', VStr reason)] []"

definition open_part_file :: "file_env \<Rightarrow> os_view \<Rightarrow> string \<Rightarrow> string \<Rightarrow> disk \<Rightarrow> string + string \<times> disk" where
  "open_part_file E W rel_path tid D =
     (case ov_io W (Io_create_dir (fe_download_dir E)) of
        Some e \<Rightarrow> Inl e
      | None \<Rightarrow>
          (let path = part_file_path (fe_download_dir E) rel_path tid
           in case ov_io W (Io_create path) of Some e \<Rightarrow> Inl e | None \<Rightarrow> Inr (path, D(path \<mapsto> []))))"

text \<open>\<open>Inl\<close> is the reason of a refusal.\<close>

definition choose_sink :: "file_env \<Rightarrow> os_view \<Rightarrow> file_offer \<Rightarrow> disk \<Rightarrow> string + transfer_sink \<times> disk" where
  "choose_sink E W offer D =
     (if INLINE_MAX < fo_size offer \<and> \<not> fo_compressed offer \<and> \<not> fo_is_delta offer
      then (case open_part_file E W (fo_rel_path offer) (fo_transfer_id offer) D of
              Inr (path, D') \<Rightarrow> Inr (PartFile True path (replicate (fo_total_chunks offer) False) 0, D')
            | Inl _ \<Rightarrow> Inl ''storage_unavailable'')
      else if INLINE_MAX < fo_size offer then Inl ''file_too_large''
      else Inr (Memory Map.empty, D))"

definition on_offer_received_with_room :: "file_env \<Rightarrow> os_view \<Rightarrow> peer_id \<Rightarrow> room_id \<Rightarrow> peer_id \<Rightarrow> file_offer \<Rightarrow>
    file_manager \<Rightarrow> disk \<Rightarrow> transfer_event list \<times> file_manager \<times> disk" where
  "on_offer_received_with_room E W peer room supernode offer M D =
     (let tid = fo_transfer_id offer;
          refuse = (\<lambda>reason. ([Ev_SendMessage peer FileTransferReject_c (reason_payload tid reason)], M, D))
      in if MAX_TRANSFER_SIZE < fo_size offer then refuse ''file_too_large''
         else if fo_total_chunks offer = 0 \<or> chunk_count (fo_size offer) + 1 < fo_total_chunks offer
         then refuse ''invalid_chunk_count''
         else case choose_sink E W offer D of
             Inl reason \<Rightarrow> refuse reason
           | Inr (sink, D') \<Rightarrow>
               (Ev_Offered tid peer (fo_rel_path offer) (fo_size offer) (fo_purpose offer) #
                (if fo_purpose offer = ''update'' then [Ev_SendMessage peer FileTransferAccept_c (tid_payload tid)] else []),
                put_inbound tid (new_inbound (ov_now W) peer room supernode offer sink) M, D'))"

definition on_offer_received where
  "on_offer_received E W peer offer M D = on_offer_received_with_room E W peer [] [] offer M D"

definition accept_transfer :: "string \<Rightarrow> file_manager \<Rightarrow> transfer_event list \<times> file_manager" where
  "accept_transfer tid M =
     (case fm_inbound M tid of
        None \<Rightarrow> ([], M)
      | Some x \<Rightarrow>
          if it_state x \<noteq> Pending then ([], M)
          else ([Ev_StateChanged tid ''transferring'', Ev_SendMessage (it_peer_id x) FileTransferAccept_c (tid_payload tid)],
                put_inbound tid (x\<lparr>it_state := Transferring\<rparr>) M))"

definition accept_transfer_locally :: "string \<Rightarrow> file_manager \<Rightarrow> transfer_event list \<times> file_manager" where
  "accept_transfer_locally tid M =
     (case fm_inbound M tid of
        None \<Rightarrow> ([], M)
      | Some x \<Rightarrow>
          if it_state x \<noteq> Pending then ([], M)
          else ([Ev_StateChanged tid ''transferring''], put_inbound tid (x\<lparr>it_state := Transferring\<rparr>) M))"

definition reject_transfer :: "string \<Rightarrow> string \<Rightarrow> file_manager \<Rightarrow> transfer_event list \<times> file_manager" where
  "reject_transfer tid reason M =
     (case fm_inbound M tid of
        None \<Rightarrow> ([], M)
      | Some x \<Rightarrow> ([Ev_StateChanged tid ''rejected'',
                   Ev_SendMessage (it_peer_id x) FileTransferReject_c (reason_payload tid reason)],
                  put_inbound tid (x\<lparr>it_state := Rejected\<rparr>) M))"

definition cancel_outbound :: "string \<Rightarrow> file_manager \<Rightarrow> transfer_event list \<times> file_manager" where
  "cancel_outbound tid M =
     (case fm_outbound M tid of
        None \<Rightarrow> ([], M)
      | Some x \<Rightarrow>
          if ot_state x = Pending \<or> ot_state x = Transferring
          then ([Ev_Failed tid ''cancelled'', Ev_StateChanged tid ''cancelled''],
                put_outbound tid (x\<lparr>ot_state := Cancelled\<rparr>) M)
          else ([], M))"

definition cancel_transfer :: "string \<Rightarrow> file_manager \<Rightarrow> transfer_event list \<times> file_manager" where
  "cancel_transfer tid M =
     (case fm_inbound M tid of
        None \<Rightarrow> cancel_outbound tid M
      | Some x \<Rightarrow>
          if it_state x = Pending then reject_transfer tid ''cancelled'' M
          else if it_state x = Transferring
          then ([Ev_Failed tid ''cancelled'', Ev_StateChanged tid ''cancelled'',
                 Ev_SendMessage (it_peer_id x) FileTransferError_c (reason_payload tid ''cancelled'')],
                put_inbound tid (x\<lparr>it_state := Cancelled\<rparr>) M)
          else cancel_outbound tid M)"

definition fail_inbound :: "os_view \<Rightarrow> string \<Rightarrow> string \<Rightarrow> file_manager \<Rightarrow> disk \<Rightarrow> transfer_event list \<times> file_manager \<times> disk" where
  "fail_inbound W tid reason M D =
     (case fm_inbound M tid of
        None \<Rightarrow> ([], M, D)
      | Some x \<Rightarrow>
          (let x1 = x\<lparr>it_state := Failed, it_finished_at := Some (ov_now W)\<rparr>;
               (x2, D') = (case it_sink x of
                   PartFile is_open path received count \<Rightarrow>
                     (x1\<lparr>it_sink := PartFile False path received count\<rparr>,
                      if D path \<noteq> None then remove_file W path D else D)
                 | Memory m \<Rightarrow> (x1, D))
           in ([Ev_Failed tid reason, Ev_StateChanged tid ''failed'',
                Ev_SendMessage (it_peer_id x) FileTransferError_c (reason_payload tid reason)],
               put_inbound tid x2 M, D')))"

definition complete_inbound :: "os_view \<Rightarrow> string \<Rightarrow> transfer_payload \<Rightarrow> inbound_transfer \<Rightarrow> file_manager \<Rightarrow>
    transfer_event list \<times> file_manager" where
  "complete_inbound W tid payload x M =
     ([Ev_SendMessage (it_peer_id x) FileTransferAck_c (tid_payload tid),
       Ev_Complete tid (it_peer_id x) (it_room_id x) (it_supernode_id x) (it_purpose x) payload (it_rel_path x),
       Ev_StateChanged tid ''complete''],
      put_inbound tid (x\<lparr>it_state := Completed, it_finished_at := Some (ov_now W)\<rparr>) M)"

text \<open>The text of a hash mismatch.\<close>

definition hash_mismatch :: "string \<Rightarrow> string \<Rightarrow> string" where
  "hash_mismatch a b = ''hash mismatch: '' @ a @ [CHR 0xE2, CHR 0x80, CHR 0xA6] @ '' vs '' @ b @ [CHR 0xE2, CHR 0x80, CHR 0xA6]"

fun try_rename :: "os_view \<Rightarrow> string \<Rightarrow> string \<Rightarrow> nat list \<Rightarrow> string \<Rightarrow> string option" where
  "try_rename W part dest [] e = Some e"
| "try_rename W part dest (k # ks) e =
     (case ov_io W (Io_rename part dest k) of None \<Rightarrow> None | Some e' \<Rightarrow> try_rename W part dest ks e')"

definition promote_part_file :: "os_view \<Rightarrow> string \<Rightarrow> string \<Rightarrow> disk \<Rightarrow> string + string \<times> disk" where
  "promote_part_file W part rel_path D =
     (let dest = promote_dest (\<lambda>p. D p \<noteq> None) part rel_path
      in case D part of
           None \<Rightarrow> Inl ''not found''
         | Some f \<Rightarrow> (case try_rename W part dest [0, 1, 2, 3] [] of
               Some e \<Rightarrow> Inl e
             | None \<Rightarrow> Inr (dest, D(part := None, dest \<mapsto> f))))"

definition finish_streaming :: "file_env \<Rightarrow> os_view \<Rightarrow> string \<Rightarrow> file_manager \<Rightarrow> disk \<Rightarrow>
    (transfer_event list \<times> file_manager \<times> disk) option" where
  "finish_streaming E W tid M D =
     (case fm_inbound M tid of
        None \<Rightarrow> Some ([], M, D)
      | Some x \<Rightarrow>
          (case it_sink x of
             Memory m \<Rightarrow> Some ([], M, D)
           | PartFile is_open path received count \<Rightarrow>
               if \<not> is_open then Some ([], M, D)
               else let x1 = x\<lparr>it_sink := PartFile False path received count\<rparr>; M1 = put_inbound tid x1 M
                    in case ov_io W (Io_set_len path) of
                         Some e \<Rightarrow> Some (fail_inbound W tid (''finalize failed: '' @ e) M1 D)
                       | None \<Rightarrow>
                           (let D1 = (case D path of None \<Rightarrow> D | Some f \<Rightarrow> D(path \<mapsto> set_len (it_expected_size x) f))
                            in case os_stat W D1 path of
                                 Inl e \<Rightarrow> Some (fail_inbound W tid (''cannot stat received file: '' @ e) M1 D1)
                               | Inr len \<Rightarrow>
                                   if len \<noteq> it_expected_size x
                                   then Some (fail_inbound W tid (''size mismatch: '' @ show_nat len @ '' vs '' @
                                          show_nat (it_expected_size x)) M1 D1)
                                   else (case sha256_hex_file (fe_crates E) W D1 path of
                                       Inl e \<Rightarrow> Some (fail_inbound W tid e M1 D1)
                                     | Inr actual \<Rightarrow>
                                         if actual \<noteq> it_expected_sha256 x
                                         then (case (str_prefix (min 16 (length actual)) actual,
                                                 str_prefix (min 16 (length (it_expected_sha256 x))) (it_expected_sha256 x)) of
                                                (Some a, Some b) \<Rightarrow> Some (fail_inbound W tid (hash_mismatch a b) M1 D1)
                                              | _ \<Rightarrow> None)
                                         else (case promote_part_file W path (it_rel_path x) D1 of
                                             Inl e \<Rightarrow> Some (fail_inbound W tid (''could not save received file: '' @ e) M1 D1)
                                           | Inr (dest, D2) \<Rightarrow>
                                               (case complete_inbound W tid (SavedAt dest (it_expected_size x)) x1 M1 of
                                                  (evs, M2) \<Rightarrow> Some (evs, M2, D2)))))))"

definition finish_inbound :: "file_env \<Rightarrow> os_view \<Rightarrow> string \<Rightarrow> file_manager \<Rightarrow> disk \<Rightarrow>
    (transfer_event list \<times> file_manager \<times> disk) option" where
  "finish_inbound E W tid M D =
     (case fm_inbound M tid of
        None \<Rightarrow> Some ([], M, D)
      | Some x \<Rightarrow>
          if it_state x \<noteq> Transferring \<or> chunks_received x \<noteq> it_total_chunks x then Some ([], M, D)
          else if it_is_streaming x then finish_streaming E W tid M D
          else let x1 = x\<lparr>it_state := Verifying\<rparr>; M1 = put_inbound tid x1 M
               in case decode_payload (fe_zlib E) (fm_old_data M (it_rel_path x)) (it_rel_path x)
                        (it_compressed x) (it_is_delta x) (reassemble x) of
                    Inl e \<Rightarrow> Some (fail_inbound W tid e M1 D)
                  | Inr assembled \<Rightarrow>
                      if length assembled \<noteq> it_expected_size x
                      then Some (fail_inbound W tid (''size mismatch: '' @ show_nat (length assembled) @ '' vs '' @
                             show_nat (it_expected_size x)) M1 D)
                      else let actual = sha256_hex (fe_crates E) assembled
                           in if actual \<noteq> it_expected_sha256 x
                              then (case (str_prefix 16 actual, str_prefix 16 (it_expected_sha256 x)) of
                                      (Some a, Some b) \<Rightarrow> Some (fail_inbound W tid (hash_mismatch a b) M1 D)
                                    | _ \<Rightarrow> None)
                              else (case complete_inbound W tid (Bytes assembled) x1 M1 of
                                      (evs, M2) \<Rightarrow> Some (evs, M2, D)))"

definition on_chunk_bytes_received :: "file_env \<Rightarrow> os_view \<Rightarrow> string \<Rightarrow> nat \<Rightarrow> bytes \<Rightarrow> file_manager \<Rightarrow> disk \<Rightarrow>
    (transfer_event list \<times> file_manager \<times> disk) option" where
  "on_chunk_bytes_received E W tid chunk_index chunk M D =
     (case fm_inbound M tid of
        None \<Rightarrow> Some ([], M, D)
      | Some x \<Rightarrow>
          if it_state x \<noteq> Transferring then Some ([], M, D)
          else if it_total_chunks x \<le> chunk_index
          then Some (fail_inbound W tid (''chunk_index '' @ show_nat chunk_index @ '' out of range'') M D)
          else case store_chunk W chunk_index chunk x D of
              (stored, x1, D1) \<Rightarrow>
                (let M1 = put_inbound tid x1 M
                 in if \<not> stored then Some ([], M1, D1)
                    else if it_complete_requested x1 \<and> chunks_received x1 = it_total_chunks x1
                    then finish_inbound E W tid M1 D1
                    else Some (if progress_is_reportable (chunks_received x1) (it_total_chunks x1)
                               then [Ev_Progress tid (it_progress x1)] else [], M1, D1)))"

definition on_chunk_received :: "file_env \<Rightarrow> os_view \<Rightarrow> string \<Rightarrow> nat \<Rightarrow> string \<Rightarrow> file_manager \<Rightarrow> disk \<Rightarrow>
    (transfer_event list \<times> file_manager \<times> disk) option" where
  "on_chunk_received E W tid chunk_index data_b64 M D =
     (case fe_b64_decode E data_b64 of
        None \<Rightarrow> Some (fail_inbound W tid ''invalid base64 chunk'' M D)
      | Some chunk \<Rightarrow> on_chunk_bytes_received E W tid chunk_index chunk M D)"

definition on_complete_received :: "file_env \<Rightarrow> os_view \<Rightarrow> string \<Rightarrow> file_manager \<Rightarrow> disk \<Rightarrow>
    (transfer_event list \<times> file_manager \<times> disk) option" where
  "on_complete_received E W tid M D =
     (case fm_inbound M tid of
        None \<Rightarrow> Some ([], M, D)
      | Some x \<Rightarrow>
          if it_state x \<noteq> Transferring then Some ([], M, D)
          else if chunks_received x \<noteq> it_total_chunks x
          then Some ([], put_inbound tid (x\<lparr>it_complete_requested := True\<rparr>) M, D)
          else finish_inbound E W tid M D)"

end
