(* ===== verification/File_Delivery.thy ===== *)
theory File_Delivery
  imports File_Manager
begin

text \<open>
  What a receiver makes of a transfer: only verified content completes, and the pieces of a file
  complete the transfer with exactly that file, in whatever order they and the final message come.
\<close>

section \<open>Only verified content completes\<close>

fun completions :: "transfer_event list \<Rightarrow> (string \<times> transfer_payload) list" where
  "completions [] = []"
| "completions (Ev_Complete tid p r sn pu pl rel # evs) = (tid, pl) # completions evs"
| "completions (_ # evs) = completions evs"

fun failures :: "transfer_event list \<Rightarrow> (string \<times> string) list" where
  "failures [] = []"
| "failures (Ev_Failed tid e # evs) = (tid, e) # failures evs"
| "failures (_ # evs) = failures evs"

lemma completions_append [simp]: "completions (a @ b) = completions a @ completions b"
  by (induction a rule: completions.induct) auto

lemma failures_append [simp]: "failures (a @ b) = failures a @ failures b"
  by (induction a rule: failures.induct) auto

text \<open>The content a completion stands for: the bytes, or the file it names.\<close>

fun content_of :: "transfer_payload \<Rightarrow> disk \<Rightarrow> bytes option" where
  "content_of (Bytes b) D = Some b"
| "content_of (SavedAt p n) D = D p"

definition verified :: "file_env \<Rightarrow> inbound_transfer \<Rightarrow> transfer_payload \<Rightarrow> disk \<Rightarrow> bool" where
  "verified E x pl D \<longleftrightarrow> (\<exists>f. content_of pl D = Some f \<and> length f = it_expected_size x \<and>
     sha256_hex (fe_crates E) f = it_expected_sha256 x)"

lemma put_inbound_simps [simp]:
  "fm_inbound (put_inbound tid x M) = (fm_inbound M)(tid \<mapsto> x)" "fm_outbound (put_inbound tid x M) = fm_outbound M"
  "fm_old_data (put_inbound tid x M) = fm_old_data M" "fm_outbound (put_outbound tid y M) = (fm_outbound M)(tid \<mapsto> y)"
  "fm_inbound (put_outbound tid y M) = fm_inbound M" "fm_old_data (put_outbound tid y M) = fm_old_data M"
  by (simp_all add: put_inbound_def put_outbound_def)

lemma fail_inbound_events [simp]: "completions (fst (fail_inbound W tid e M D)) = []"
  by (auto simp: fail_inbound_def Let_def split: option.splits prod.splits)

lemma fail_inbound_no_completion: "fail_inbound W tid e M D = (evs, M', D') \<Longrightarrow> completions evs = []"
  by (metis fail_inbound_events fst_conv)

lemma complete_inbound_completes:
  "complete_inbound W tid pl x M = (evs, M') \<Longrightarrow> completions evs = [(tid, pl)] \<and> failures evs = [] \<and>
     fm_inbound M' tid = Some (x\<lparr>it_state := Completed, it_finished_at := Some (ov_now W)\<rparr>)"
  by (auto simp: complete_inbound_def)

definition completes_verified :: "file_env \<Rightarrow> inbound_transfer \<Rightarrow> string \<Rightarrow> (transfer_event list \<times> file_manager \<times> disk) option \<Rightarrow> bool" where
  "completes_verified E x tid r \<longleftrightarrow> (\<forall>evs M' D' t pl. r = Some (evs, M', D') \<longrightarrow> (t, pl) \<in> set (completions evs) \<longrightarrow>
     t = tid \<and> verified E x pl D' \<and> (\<exists>y. fm_inbound M' tid = Some y \<and> it_state y = Completed))"

lemma completes_verified_fail [simp]: "completes_verified E x tid (Some (fail_inbound W tid' e M D))"
  unfolding completes_verified_def by (metis fail_inbound_no_completion empty_iff list.set(1) option.inject)

lemma completes_verified_quiet [simp]: "completes_verified E x tid None"
  "completions evs = [] \<Longrightarrow> completes_verified E x tid (Some (evs, M, D))"
  by (auto simp: completes_verified_def)

lemma completes_verified_complete:
  assumes "verified E x pl D"
  shows "completes_verified E x tid (case complete_inbound W tid pl y M of (evs, M2) \<Rightarrow> Some (evs, M2, D))"
  using complete_inbound_completes [of W tid pl y M] assms
  by (cases "complete_inbound W tid pl y M") (auto simp: completes_verified_def)

lemma sha_file_Inr: "sha256_hex_file C W D p = Inr h \<Longrightarrow> \<exists>f. D p = Some f \<and> h = sha256_hex C f"
  by (auto simp: sha256_hex_file_def split: option.splits)

lemma os_stat_Inr: "os_stat W D p = Inr n \<Longrightarrow> \<exists>f. D p = Some f \<and> n = length f"
  by (auto simp: os_stat_def split: option.splits)

lemma promote_Inr: "promote_part_file W part rel D = Inr (dest, D') \<Longrightarrow> D' dest = D part"
  by (auto simp: promote_part_file_def Let_def split: option.splits)

lemma finish_streaming_verified:
  assumes "fm_inbound M tid = Some x"
  shows "completes_verified E x tid (finish_streaming E W tid M D)"
proof (cases "it_sink x")
  case (PartFile is_open path received count)
  define x1 where "x1 = x\<lparr>it_sink := PartFile False path received count\<rparr>"
  define D1 where "D1 = (case D path of None \<Rightarrow> D | Some f \<Rightarrow> D(path \<mapsto> set_len (it_expected_size x) f))"
  show ?thesis
  proof (cases "is_open \<and> ov_io W (Io_set_len path) = None \<and> os_stat W D1 path = Inr (it_expected_size x) \<and>
      sha256_hex_file (fe_crates E) W D1 path = Inr (it_expected_sha256 x)")
    case True
    then obtain f where f: "D1 path = Some f" "length f = it_expected_size x"
        "sha256_hex (fe_crates E) f = it_expected_sha256 x"
      using os_stat_Inr sha_file_Inr by (metis option.inject)
    have "completes_verified E x tid (case complete_inbound W tid (SavedAt dest (it_expected_size x)) x1 (put_inbound tid x1 M) of
        (evs, M2) \<Rightarrow> Some (evs, M2, D2))" if "promote_part_file W path (it_rel_path x) D1 = Inr (dest, D2)" for dest D2
      using f promote_Inr [OF that] by (intro completes_verified_complete) (auto simp: verified_def)
    then show ?thesis
      using True assms PartFile
      by (auto simp: finish_streaming_def Let_def D1_def [symmetric] x1_def [symmetric] split: sum.splits)
  next
    case False
    then show ?thesis
      using assms PartFile
      by (auto simp: finish_streaming_def Let_def D1_def [symmetric] split: option.splits sum.splits prod.splits)
  qed
qed (use assms in \<open>simp add: finish_streaming_def\<close>)

lemma finish_inbound_verified:
  assumes "fm_inbound M tid = Some x"
  shows "completes_verified E x tid (finish_inbound E W tid M D)"
proof -
  have "completes_verified E x tid (case complete_inbound W tid (Bytes f) y N of (evs, M2) \<Rightarrow> Some (evs, M2, D))"
    if "length f = it_expected_size x" "sha256_hex (fe_crates E) f = it_expected_sha256 x" for f y N
    using that by (intro completes_verified_complete) (auto simp: verified_def)
  then show ?thesis
    using assms finish_streaming_verified [OF assms]
    by (auto simp: finish_inbound_def Let_def split: sum.splits option.splits)
qed

lemma store_chunk_expectations:
  "store_chunk W i c x D = (b, x', D') \<Longrightarrow> it_expected_size x' = it_expected_size x \<and> it_expected_sha256 x' = it_expected_sha256 x \<and>
     it_total_chunks x' = it_total_chunks x \<and> it_state x' = it_state x \<and> it_complete_requested x' = it_complete_requested x"
  by (auto simp: store_chunk_def split: transfer_sink.splits if_splits)

lemma completes_verified_cong:
  "it_expected_size x' = it_expected_size x \<Longrightarrow> it_expected_sha256 x' = it_expected_sha256 x \<Longrightarrow>
     completes_verified E x' tid r = completes_verified E x tid r"
  by (simp add: completes_verified_def verified_def)

lemma on_chunk_bytes_verified:
  assumes "fm_inbound M tid = Some x"
  shows "completes_verified E x tid (on_chunk_bytes_received E W tid i c M D)"
proof -
  obtain b x1 D1 where st: "store_chunk W i c x D = (b, x1, D1)" by (metis prod_cases3)
  note same = store_chunk_expectations [OF st]
  have "completes_verified E x1 tid (finish_inbound E W tid (put_inbound tid x1 M) D1)"
    by (rule finish_inbound_verified) simp
  then have "completes_verified E x tid (finish_inbound E W tid (put_inbound tid x1 M) D1)"
    using completes_verified_cong [of x1 x E tid] same by simp
  then show ?thesis using assms st by (auto simp: on_chunk_bytes_received_def Let_def)
qed

lemma on_complete_verified:
  assumes "fm_inbound M tid = Some x"
  shows "completes_verified E x tid (on_complete_received E W tid M D)"
  using assms finish_inbound_verified [OF assms] by (auto simp: on_complete_received_def)

section \<open>Pieces in any order\<close>

definition healthy :: "os_view \<Rightarrow> bool" where
  "healthy W \<longleftrightarrow> (\<forall>c. ov_io W c = None)"

fun sink_agrees :: "bytes \<Rightarrow> disk \<Rightarrow> nat set \<Rightarrow> transfer_sink \<Rightarrow> bool" where
  "sink_agrees data D G (Memory m) \<longleftrightarrow> mem_agrees data m \<and> dom m = G"
| "sink_agrees data D G (PartFile is_open path r count) \<longleftrightarrow>
     is_open \<and> (\<exists>f. D path = Some f \<and> part_agrees data (r, f)) \<and> part_got (r, []) = G \<and> count = card G"

lemma sink_agrees_count: "sink_agrees data D G s \<Longrightarrow> received_count s = card G"
  by (cases s) (auto simp: msize_def)

lemma part_got_fst: "part_got (r, f) = part_got (r, [])"
  by (simp add: part_got_def)

lemma sink_agrees_bound: "sink_agrees data D G s \<Longrightarrow> G \<subseteq> {..<chunk_count (length data)}"
  by (cases s) (auto simp: mem_agrees_def part_agrees_def part_got_def)

lemma sink_agrees_all: "sink_agrees data D G s \<Longrightarrow> received_count s = chunk_count (length data) \<longleftrightarrow> G = {..<chunk_count (length data)}"
  using sink_agrees_bound [of data D G s] card_subset_eq [of "{..<chunk_count (length data)}" G]
  by (auto simp: sink_agrees_count)

lemma store_chunk_agrees:
  assumes "healthy W" and "sink_agrees data D G (it_sink x)" and "it_total_chunks x = chunk_count (length data)"
    and "i < chunk_count (length data)"
  shows "if i \<in> G then store_chunk W i (chunk_of data i) x D = (False, x, D)
    else \<exists>s D'. store_chunk W i (chunk_of data i) x D = (True, x\<lparr>it_sink := s\<rparr>, D') \<and>
      sink_agrees data D' (insert i G) s \<and> sink_is_streaming s = sink_is_streaming (it_sink x)"
proof (cases "it_sink x")
  case (Memory m)
  with assms mem.agrees_put [of data m i] show ?thesis by (auto simp: store_chunk_def dom_def)
next
  case (PartFile is_open path r count)
  with assms(2) obtain f where f: "is_open" "D path = Some f" "part_agrees data (r, f)" "part_got (r, []) = G" "count = card G"
    by auto
  have len: "length r = chunk_count (length data)" using f(3) by (simp add: part_agrees_def)
  have iG: "i \<in> G \<longleftrightarrow> r ! i" using f(4) assms(4) len by (auto simp: part_got_def)
  have fin: "finite G" using sink_agrees_bound [OF assms(2)] finite_subset by blast
  show ?thesis
  proof (cases "i \<in> G")
    case False
    have "part_put i (chunk_of data i) (r, f) = (r[i := True], write_at (i * CHUNK_SIZE) (chunk_of data i) f)"
      by (simp add: part_put_def)
    moreover have "i \<notin> part_got (r, f)" using False f(4) part_got_fst by metis
    ultimately have "part_agrees data (r[i := True], write_at (i * CHUNK_SIZE) (chunk_of data i) f)"
        "part_got (r[i := True], write_at (i * CHUNK_SIZE) (chunk_of data i) f) = insert i (part_got (r, f))"
      using part.agrees_put [OF f(3) assms(4)] part.got_put [OF f(3) assms(4)] by metis+
    moreover from this(2) have "part_got (r[i := True], []) = insert i G" using f(4) part_got_fst by metis
    ultimately have "sink_agrees data (D(path \<mapsto> write_at (i * CHUNK_SIZE) (chunk_of data i) f)) (insert i G)
        (PartFile is_open path (r[i := True]) (Suc count))"
      using f False fin by simp
    then show ?thesis
      using False iG f(1,2) assms(1,3,4) len PartFile by (auto simp: store_chunk_def healthy_def)
  qed (use iG assms(3,4) len PartFile in \<open>auto simp: store_chunk_def\<close>)
qed

text \<open>
  \<open>awaits\<close>: an accepted transfer that holds the pieces \<open>G\<close> of the payload of a file, and whose offer told
  the truth about the file.
\<close>

definition awaits :: "file_env \<Rightarrow> bytes option \<Rightarrow> bytes \<Rightarrow> bytes \<Rightarrow> nat set \<Rightarrow> inbound_transfer \<Rightarrow> disk \<Rightarrow> bool" where
  "awaits E old data payload G x D \<longleftrightarrow>
     it_state x = Transferring \<and> it_total_chunks x = chunk_count (length payload) \<and> it_expected_size x = length data \<and>
     it_expected_sha256 x = sha256_hex (fe_crates E) data \<and> sink_agrees payload D G (it_sink x) \<and>
     (if it_is_streaming x then payload = data
      else decode_payload (fe_zlib E) old (it_rel_path x) (it_compressed x) (it_is_delta x) payload = Inr data)"

definition delivered :: "string \<Rightarrow> bytes \<Rightarrow> (transfer_event list \<times> file_manager \<times> disk) option \<Rightarrow> bool" where
  "delivered tid data r \<longleftrightarrow> (\<exists>evs M D pl y. r = Some (evs, M, D) \<and> completions evs = [(tid, pl)] \<and> failures evs = [] \<and>
     content_of pl D = Some data \<and> fm_inbound M tid = Some y \<and> it_state y = Completed)"

lemma delivered_complete:
  "content_of pl D = Some data \<Longrightarrow>
     delivered tid data (case complete_inbound W tid pl x M of (evs, M') \<Rightarrow> Some (evs, M', D))"
  using complete_inbound_completes [of W tid pl x M]
  by (cases "complete_inbound W tid pl x M") (auto simp: delivered_def)

lemma try_rename_healthy: "healthy W \<Longrightarrow> try_rename W part dest (k # ks) e = None"
  by (simp add: healthy_def)

lemma finish_streaming_delivers:
  assumes "healthy W" and "fm_inbound M tid = Some x" and "awaits E old data data G x D" and "it_is_streaming x"
    and "G = {..<chunk_count (length data)}"
  shows "delivered tid data (finish_streaming E W tid M D)"
proof -
  obtain is_open path r count where s: "it_sink x = PartFile is_open path r count"
    using assms(4) by (cases "it_sink x") (auto simp: it_is_streaming_def)
  obtain f where f: "is_open" "D path = Some f" "part_agrees data (r, f)" "part_got (r, []) = G"
    using assms(3) s by (auto simp: awaits_def)
  have c: "set_len (length data) f = data"
    using part.content_all [OF f(3)] f(4) assms(5) part_got_fst [of r f] by simp
  define dest where "dest = promote_dest (\<lambda>p. (D(path \<mapsto> data)) p \<noteq> None) path (it_rel_path x)"
  have "promote_part_file W path (it_rel_path x) (D(path \<mapsto> data)) =
      Inr (dest, (D(path \<mapsto> data))(path := None, dest \<mapsto> data))"
    unfolding promote_part_file_def Let_def dest_def [symmetric]
    by (simp add: try_rename_healthy [OF assms(1)] del: try_rename.simps)
  moreover have "it_expected_size x = length data" "it_expected_sha256 x = sha256_hex (fe_crates E) data"
    using assms(3) by (auto simp: awaits_def)
  moreover have "delivered tid data (case complete_inbound W tid (SavedAt dest (length data)) y N of
      (evs, M2) \<Rightarrow> Some (evs, M2, (D(path \<mapsto> data))(path := None, dest \<mapsto> data)))" for y N
    by (rule delivered_complete) simp
  ultimately show ?thesis
    using assms(1,2) f(1,2) s c
    by (simp add: finish_streaming_def Let_def healthy_def os_stat_def sha256_hex_file_def)
qed

lemma finish_inbound_delivers:
  assumes "healthy W" and "fm_inbound M tid = Some x" and "awaits E (fm_old_data M (it_rel_path x)) data payload G x D"
    and "G = {..<chunk_count (length payload)}"
  shows "delivered tid data (finish_inbound E W tid M D)"
proof -
  have st: "it_state x = Transferring" "chunks_received x = it_total_chunks x"
    using assms(3,4) sink_agrees_all [of payload D G "it_sink x"] by (auto simp: awaits_def chunks_received_def)
  show ?thesis
  proof (cases "it_is_streaming x")
    case True
    with assms(3) have "payload = data" by (simp add: awaits_def)
    with finish_streaming_delivers [OF assms(1,2)] assms(3,4) True st assms(2) show ?thesis
      by (simp add: finish_inbound_def)
  next
    case False
    then obtain m where m: "it_sink x = Memory m" by (cases "it_sink x") (auto simp: it_is_streaming_def)
    then have "mem_agrees payload m" "dom m = G" using assms(3) by (auto simp: awaits_def)
    with assms(4) have "reassemble x = payload"
      using mem.content_all [of payload m] assms(3) m by (simp add: reassemble_def mem_content_def awaits_def)
    then show ?thesis
      using assms(2,3) False st delivered_complete [of "Bytes data" D data tid W]
      by (simp add: finish_inbound_def Let_def awaits_def)
  qed
qed

text \<open>A receiver's inputs for one transfer, and their effect in order.\<close>

datatype rx = Rx_chunk nat bytes | Rx_complete

fun rx_step :: "file_env \<Rightarrow> os_view \<Rightarrow> string \<Rightarrow> rx \<Rightarrow> file_manager \<Rightarrow> disk \<Rightarrow> (transfer_event list \<times> file_manager \<times> disk) option" where
  "rx_step E W tid (Rx_chunk i c) M D = on_chunk_bytes_received E W tid i c M D"
| "rx_step E W tid Rx_complete M D = on_complete_received E W tid M D"

fun rx_run :: "file_env \<Rightarrow> string \<Rightarrow> (os_view \<times> rx) list \<Rightarrow> file_manager \<Rightarrow> disk \<Rightarrow>
    (transfer_event list \<times> file_manager \<times> disk) option" where
  "rx_run E tid [] M D = Some ([], M, D)"
| "rx_run E tid ((W, r) # rs) M D =
     (case rx_step E W tid r M D of
        None \<Rightarrow> None
      | Some (evs, M1, D1) \<Rightarrow>
          (case rx_run E tid rs M1 D1 of None \<Rightarrow> None | Some (evs', M2, D2) \<Rightarrow> Some (evs @ evs', M2, D2)))"

lemma rx_run_after: "fm_inbound M tid = Some y \<Longrightarrow> it_state y \<noteq> Transferring \<Longrightarrow> rx_run E tid rs M D = Some ([], M, D)"
proof (induction rs)
  case (Cons r rs)
  then have "rx_step E (fst r) tid (snd r) M D = Some ([], M, D)"
    by (cases "snd r") (auto simp: on_chunk_bytes_received_def on_complete_received_def)
  with Cons show ?case by (cases r) simp
qed simp

lemma delivered_then:
  assumes "delivered tid data (rx_step E W tid r M D)"
  shows "delivered tid data (rx_run E tid ((W, r) # rs) M D)"
proof -
  obtain evs M1 D1 pl y where d: "rx_step E W tid r M D = Some (evs, M1, D1)" "completions evs = [(tid, pl)]"
      "failures evs = []" "content_of pl D1 = Some data" "fm_inbound M1 tid = Some y" "it_state y = Completed"
    using assms by (auto simp: delivered_def)
  then have "rx_run E tid rs M1 D1 = Some ([], M1, D1)" by (intro rx_run_after) auto
  with d show ?thesis by (simp add: delivered_def)
qed

lemma delivered_later:
  assumes "rx_step E W tid r M D = Some (evs, M1, D1)" and "completions evs = []" and "failures evs = []"
    and "delivered tid data (rx_run E tid rs M1 D1)"
  shows "delivered tid data (rx_run E tid ((W, r) # rs) M D)"
proof -
  obtain evs' M2 D2 pl y where "rx_run E tid rs M1 D1 = Some (evs', M2, D2)" "completions evs' = [(tid, pl)]"
      "failures evs' = []" "content_of pl D2 = Some data" "fm_inbound M2 tid = Some y" "it_state y = Completed"
    using assms(4) unfolding delivered_def by blast
  with assms(1-3) show ?thesis by (simp add: delivered_def)
qed

text \<open>One input: it completes the transfer, or the transfer goes on waiting with what the input brought.\<close>

lemma rx_step_awaits:
  assumes "healthy W" and "fm_inbound M tid = Some x" and "awaits E (fm_old_data M (it_rel_path x)) data payload G x D"
    and "\<not> (it_complete_requested x \<and> G = {..<chunk_count (length payload)})"
    and "r = Rx_complete \<or> (\<exists>i. r = Rx_chunk i (chunk_of payload i) \<and> i < chunk_count (length payload))"
  shows "delivered tid data (rx_step E W tid r M D) \<or>
    (\<exists>evs x' D'. rx_step E W tid r M D = Some (evs, put_inbound tid x' M, D') \<and> completions evs = [] \<and> failures evs = [] \<and>
       awaits E (fm_old_data M (it_rel_path x)) data payload (case r of Rx_chunk i c \<Rightarrow> insert i G | Rx_complete \<Rightarrow> G) x' D' \<and>
       it_rel_path x' = it_rel_path x \<and> it_complete_requested x' = (r = Rx_complete \<or> it_complete_requested x) \<and>
       \<not> (it_complete_requested x' \<and> (case r of Rx_chunk i c \<Rightarrow> insert i G | Rx_complete \<Rightarrow> G) = {..<chunk_count (length payload)}))"
proof (cases r)
  case Rx_complete
  have st: "it_state x = Transferring" "it_total_chunks x = chunk_count (length payload)"
    using assms(3) by (auto simp: awaits_def)
  show ?thesis
  proof (cases "G = {..<chunk_count (length payload)}")
    case True
    then have "chunks_received x = it_total_chunks x"
      using assms(3) sink_agrees_all [of payload D G "it_sink x"] by (auto simp: awaits_def chunks_received_def)
    then show ?thesis using finish_inbound_delivers [OF assms(1-3) True] assms(2) st Rx_complete
      by (simp add: on_complete_received_def)
  next
    case False
    then have "chunks_received x \<noteq> it_total_chunks x"
      using assms(3) sink_agrees_all [of payload D G "it_sink x"] by (auto simp: awaits_def chunks_received_def)
    then have "rx_step E W tid r M D = Some ([], put_inbound tid (x\<lparr>it_complete_requested := True\<rparr>) M, D)"
      using assms(2) st Rx_complete by (simp add: on_complete_received_def)
    moreover have "awaits E (fm_old_data M (it_rel_path x)) data payload G (x\<lparr>it_complete_requested := True\<rparr>) D"
      using assms(3) by (simp add: awaits_def it_is_streaming_def)
    ultimately show ?thesis using False Rx_complete
      by (intro disjI2 exI [of _ "[]"] exI [of _ "x\<lparr>it_complete_requested := True\<rparr>"] exI [of _ D]) simp
  qed
next
  case (Rx_chunk i c)
  with assms(5) have c: "c = chunk_of payload i" and i: "i < chunk_count (length payload)" by auto
  have st: "it_state x = Transferring" "it_total_chunks x = chunk_count (length payload)" "sink_agrees payload D G (it_sink x)"
    using assms(3) by (auto simp: awaits_def)
  note store = store_chunk_agrees [OF assms(1) st(3,2) i]
  show ?thesis
  proof (cases "i \<in> G")
    case True
    with store have "store_chunk W i c x D = (False, x, D)" by (simp add: c)
    then have "rx_step E W tid r M D = Some ([], put_inbound tid x M, D)"
      using assms(2) st i Rx_chunk by (simp add: on_chunk_bytes_received_def Let_def)
    then show ?thesis using True assms(3,4) Rx_chunk
      by (intro disjI2 exI [of _ "[]"] exI [of _ x] exI [of _ D]) (simp add: insert_absorb)
  next
    case False
    with store obtain s D' where s: "store_chunk W i c x D = (True, x\<lparr>it_sink := s\<rparr>, D')"
        "sink_agrees payload D' (insert i G) s" "sink_is_streaming s = sink_is_streaming (it_sink x)"
      by (auto simp: c)
    define x1 where "x1 = x\<lparr>it_sink := s\<rparr>"
    have aw: "awaits E (fm_old_data M (it_rel_path x)) data payload (insert i G) x1 D'"
      using assms(3) s(2,3) by (simp add: awaits_def it_is_streaming_def x1_def)
    have all: "chunks_received x1 = it_total_chunks x1 \<longleftrightarrow> insert i G = {..<chunk_count (length payload)}"
      using sink_agrees_all [OF s(2)] st(2) by (simp add: chunks_received_def x1_def)
    have step: "rx_step E W tid r M D =
        (if it_complete_requested x \<and> insert i G = {..<chunk_count (length payload)} then finish_inbound E W tid (put_inbound tid x1 M) D'
         else Some (if progress_is_reportable (chunks_received x1) (it_total_chunks x1) then [Ev_Progress tid (it_progress x1)] else [],
              put_inbound tid x1 M, D'))"
      using assms(2) st i Rx_chunk s(1) all
      by (simp add: on_chunk_bytes_received_def Let_def x1_def [symmetric]) (simp add: x1_def)
    show ?thesis
    proof (cases "it_complete_requested x \<and> insert i G = {..<chunk_count (length payload)}")
      case True
      then show ?thesis
        using step finish_inbound_delivers [OF assms(1), of "put_inbound tid x1 M" tid x1 E data payload "insert i G" D'] aw
        by (simp add: x1_def)
    next
      case no: False
      define evs where "evs = (if progress_is_reportable (chunks_received x1) (it_total_chunks x1)
          then [Ev_Progress tid (it_progress x1)] else [])"
      have "rx_step E W tid r M D = Some (evs, put_inbound tid x1 M, D')" using step no by (simp add: evs_def)
      moreover have "completions evs = []" "failures evs = []" by (simp_all add: evs_def)
      moreover have "it_rel_path x1 = it_rel_path x" "it_complete_requested x1 = it_complete_requested x"
        by (simp_all add: x1_def)
      ultimately show ?thesis
        using no aw Rx_chunk by (intro disjI2 exI [of _ evs] exI [of _ x1] exI [of _ D']) simp
    qed
  qed
qed

lemma rx_run_delivers:
  assumes "fm_inbound M tid = Some x" and "awaits E (fm_old_data M (it_rel_path x)) data payload G x D"
    and "\<not> (it_complete_requested x \<and> G = {..<chunk_count (length payload)})"
    and "\<forall>(W, r) \<in> set rs. healthy W \<and> (r = Rx_complete \<or> (\<exists>i < chunk_count (length payload). r = Rx_chunk i (chunk_of payload i)))"
    and "\<forall>i < chunk_count (length payload). i \<in> G \<or> Rx_chunk i (chunk_of payload i) \<in> snd ` set rs"
    and "it_complete_requested x \<or> Rx_complete \<in> snd ` set rs"
  shows "delivered tid data (rx_run E tid rs M D)"
  using assms
proof (induction rs arbitrary: M D x G)
  case Nil
  then have "{..<chunk_count (length payload)} \<subseteq> G" by auto
  moreover have "G \<subseteq> {..<chunk_count (length payload)}"
    using Nil(2) sink_agrees_bound [of payload D G "it_sink x"] by (simp add: awaits_def)
  ultimately show ?case using Nil by auto
next
  case (Cons a rs)
  obtain W r where a: "a = (W, r)" by (cases a)
  have W: "healthy W" and r: "r = Rx_complete \<or> (\<exists>i. r = Rx_chunk i (chunk_of payload i) \<and> i < chunk_count (length payload))"
    using Cons.prems(4) a by auto
  from rx_step_awaits [OF W Cons.prems(1-3) r] show ?case
  proof
    assume "delivered tid data (rx_step E W tid r M D)"
    then show ?thesis unfolding a by (rule delivered_then)
  next
    let ?G = "case r of Rx_chunk i c \<Rightarrow> insert i G | Rx_complete \<Rightarrow> G"
    assume "\<exists>evs x' D'. rx_step E W tid r M D = Some (evs, put_inbound tid x' M, D') \<and> completions evs = [] \<and> failures evs = [] \<and>
       awaits E (fm_old_data M (it_rel_path x)) data payload ?G x' D' \<and>
       it_rel_path x' = it_rel_path x \<and> it_complete_requested x' = (r = Rx_complete \<or> it_complete_requested x) \<and>
       \<not> (it_complete_requested x' \<and> ?G = {..<chunk_count (length payload)})"
    then obtain evs x' D' where n: "rx_step E W tid r M D = Some (evs, put_inbound tid x' M, D')" "completions evs = []"
      "failures evs = []" "awaits E (fm_old_data M (it_rel_path x)) data payload ?G x' D'"
      "it_rel_path x' = it_rel_path x" "it_complete_requested x' = (r = Rx_complete \<or> it_complete_requested x)"
      "\<not> (it_complete_requested x' \<and> ?G = {..<chunk_count (length payload)})" by blast
    have "delivered tid data (rx_run E tid rs (put_inbound tid x' M) D')"
    proof (rule Cons.IH [of _ x' ?G])
      show "\<forall>i < chunk_count (length payload). i \<in> ?G \<or> Rx_chunk i (chunk_of payload i) \<in> snd ` set rs"
        using Cons.prems(5) a by (auto split: rx.splits)
      show "it_complete_requested x' \<or> Rx_complete \<in> snd ` set rs" using Cons.prems(6) n(6) a by auto
    qed (use n Cons.prems(4) a in auto)
    with n(1-3) show ?thesis unfolding a by (rule delivered_later)
  qed
qed

end
