(* ===== verification/File_Dispatch.thy ===== *)
theory File_Dispatch
  imports File_Delivery Registry Group_Key Room_Keying
begin

text \<open>
  File messages between clients, \<open>connection_manager/manager/inbound.rs\<close> and \<open>mod.rs\<close>: the handlers of
  the messages of peers and of rooms, the dispatch of the events of a file manager to the transports,
  the commands of the user and the pump of the running streams. A client has one manager for its peers
  and one for rooms; both share the disk. What the rest of the client does for a batch is a \<open>file_net\<close>:
  whether \<open>dispatch_outbound\<close> hands a message to a transport, which peers are trusted, the route to a
  supernode, and the nonces. Hash sets are lists without duplicates, in the order of insertion; the order in which
  their elements are handled is not specified by the code.
\<close>

section \<open>State and outputs\<close>

record 'm file_client =
  fc_files :: file_manager
  fc_rooms :: file_manager
  fc_disk :: disk
  fc_features :: "'m feature_registry"
  fc_groups :: sender_keys_group
  fc_current_supernode :: peer_id

record file_net =
  fn_me :: peer_id
  fn_trusted :: "peer_id \<Rightarrow> bool"
  fn_route :: "peer_id \<Rightarrow> peer_id"
  fn_tx :: "peer_id \<times> client_type \<times> payload_map \<Rightarrow> bool"
  fn_kdf :: kdf_lib
  fn_nonce :: "nat \<Rightarrow> bytes"
  fn_instant :: instant

text \<open>A message that reached a transport, and the events for the user interface.\<close>

datatype file_out =
    Out_msg peer_id client_type payload_map
  | Ui_offered string string string nat string bool peer_id peer_id
  | Ui_progress string rat
  | Ui_complete string peer_id room_id peer_id string transfer_payload string
  | Ui_failed string string

section \<open>Dispatch of events\<close>

record batch =
  ba_hold :: bool
  ba_unsent :: "(string \<times> nat) list"
  ba_stalled :: "string list"
  ba_progressed :: "string list"

definition new_batch :: batch where
  "new_batch = \<lparr>ba_hold = False, ba_unsent = [], ba_stalled = [], ba_progressed = []\<rparr>"

definition count_unsent :: "string \<Rightarrow> batch \<Rightarrow> batch" where
  "count_unsent tid b = b\<lparr>ba_unsent := AList.update tid
     (case map_of (ba_unsent b) tid of None \<Rightarrow> 1 | Some n \<Rightarrow> n + 1) (ba_unsent b)\<rparr>"

definition mark_stalled :: "string \<Rightarrow> batch \<Rightarrow> batch" where
  "mark_stalled tid b = b\<lparr>ba_stalled := List.insert tid (ba_stalled b)\<rparr>"

definition mark_progressed :: "string \<Rightarrow> batch \<Rightarrow> batch" where
  "mark_progressed tid b = b\<lparr>ba_progressed := List.insert tid (ba_progressed b)\<rparr>"

text \<open>A held frame, a chunk that was not sent, and the outcome of sending a frame.\<close>

definition hold_frame :: "string \<Rightarrow> bool \<Rightarrow> batch \<Rightarrow> batch" where
  "hold_frame tid is_chunk b =
     (if tid = [] then b else let b1 = mark_stalled tid b in if is_chunk then count_unsent tid b1 else b1)"

definition chunk_unsent :: "string \<Rightarrow> batch \<Rightarrow> batch" where
  "chunk_unsent tid b =
     (let b1 = b\<lparr>ba_hold := True\<rparr> in if tid = [] then b1 else mark_stalled tid (count_unsent tid b1))"

definition after_send :: "rat \<Rightarrow> string \<Rightarrow> bool \<Rightarrow> bool \<Rightarrow> bool \<Rightarrow> batch \<Rightarrow> file_manager \<Rightarrow> batch \<times> file_manager" where
  "after_send now tid is_chunk is_complete sent b M =
     (if is_chunk then
        (if \<not> sent then (chunk_unsent tid b, M) else if tid \<noteq> [] then (mark_progressed tid b, M) else (b, M))
      else if is_complete then
        (if sent then (b, mark_outbound_complete now tid M) else if tid \<noteq> [] then (mark_stalled tid b, M) else (b, M))
      else (b, M))"

definition tid_of :: "payload_map \<Rightarrow> string" where
  "tid_of payload = get_str_or [] ''transfer_id'' (VObj payload)"

definition out_if :: "bool \<Rightarrow> peer_id \<Rightarrow> client_type \<Rightarrow> payload_map \<Rightarrow> file_out list" where
  "out_if sent target t payload = (if sent then [Out_msg target t payload] else [])"

fun dispatch_event :: "file_net \<Rightarrow> rat \<Rightarrow> transfer_event \<Rightarrow> batch \<Rightarrow> file_manager \<Rightarrow> file_out list \<times> batch \<times> file_manager" where
  "dispatch_event N now (Ev_SendMessage peer t payload) b M =
     (let tid = tid_of payload; is_chunk = (t = FileTransferChunk_c); is_complete = (t = FileTransferComplete_c)
      in if ba_hold b \<and> (is_chunk \<or> is_complete) then ([], hold_frame tid is_chunk b, M)
         else let sent = fn_tx N (peer, t, payload) in (out_if sent peer t payload, after_send now tid is_chunk is_complete sent b M))"
| "dispatch_event N now (Ev_Offered tid peer rel sz purpose) b M = ([Ui_offered tid peer rel sz purpose False peer []], b, M)"
| "dispatch_event N now (Ev_Progress tid p) b M = ([Ui_progress tid p], b, M)"
| "dispatch_event N now (Ev_Complete tid peer room sn purpose payload rel) b M =
     ([Ui_complete tid peer room sn purpose payload rel], b, M)"
| "dispatch_event N now (Ev_Failed tid reason) b M = ([Ui_failed tid reason], b, M)"
| "dispatch_event N now (Ev_StateChanged tid st) b M = ([], b, M)"

fun room_type_for :: "client_type \<Rightarrow> client_type option" where
  "room_type_for FileTransferOffer_c = Some SfuFileOffer_c"
| "room_type_for FileTransferChunk_c = Some SfuFileChunk_c"
| "room_type_for FileTransferComplete_c = Some SfuFileComplete_c"
| "room_type_for _ = None"

definition get_u64_or :: "nat \<Rightarrow> string \<Rightarrow> jvalue \<Rightarrow> nat" where
  "get_u64_or d k v = (case jget k v of None \<Rightarrow> d | Some w \<Rightarrow> (case as_u64 w of None \<Rightarrow> d | Some n \<Rightarrow> unat n))"

fun as_bool :: "jvalue \<Rightarrow> bool option" where
  "as_bool (VBool b) = Some b"
| "as_bool _ = None"

definition get_bool :: "string \<Rightarrow> jvalue \<Rightarrow> bool" where
  "get_bool k v = (case jget k v of None \<Rightarrow> False | Some w \<Rightarrow> as_bool w = Some True)"

text \<open>
  Sealing the data of a chunk for a room. \<open>None\<close>: no key of the room, or sealing failed; a chunk whose
  data is missing or no base64 text goes out as it is.
\<close>

definition seal_room_chunk :: "file_env \<Rightarrow> file_net \<Rightarrow> sender_keys_group \<Rightarrow> room_id \<Rightarrow> payload_map \<Rightarrow> payload_map option" where
  "seal_room_chunk E N groups room payload =
     (if \<not> may_send_room_e2e_content (has_real_key room groups) then None
      else let tid = tid_of payload; index = get_u64_or 0 ''chunk_index'' (VObj payload)
           in case Option.bind (get_str ''data'' (VObj payload)) (fe_b64_decode E) of
                None \<Rightarrow> Some payload
              | Some raw \<Rightarrow>
                  (case seal_file_chunk (fn_kdf N) (fn_nonce N index) (current_epoch groups) (epoch_key (fn_kdf N) groups)
                          room (fn_me N) tid (word_of_nat index) raw of
                     None \<Rightarrow> None
                   | Some (epoch, sealed) \<Rightarrow>
                       Some (bt_insert ''epoch'' (VNum (NInt (uint epoch)))
                         (bt_insert ''e2e'' (VBool True) (bt_insert ''data'' (VStr (fe_b64_encode E sealed)) payload)))))"

fun dispatch_room_event :: "file_env \<Rightarrow> file_net \<Rightarrow> rat \<Rightarrow> sender_keys_group \<Rightarrow> peer_id \<Rightarrow> room_id \<Rightarrow> transfer_event \<Rightarrow>
    batch \<Rightarrow> file_manager \<Rightarrow> file_out list \<times> batch \<times> file_manager" where
  "dispatch_room_event E N now groups supernode room (Ev_SendMessage peer t payload) b M =
     (case room_type_for t of
        None \<Rightarrow> ([], b, M)
      | Some rt \<Rightarrow>
          (let tid = tid_of payload; is_chunk = (rt = SfuFileChunk_c); is_complete = (rt = SfuFileComplete_c)
           in if ba_hold b \<and> (is_chunk \<or> is_complete) then ([], hold_frame tid is_chunk b, M)
              else let p1 = bt_insert ''room_id'' (VStr room) payload;
                       p2 = (if rt = SfuFileOffer_c then bt_insert ''origin_id'' (VStr (fn_me N)) p1 else p1)
                   in case (if is_chunk then seal_room_chunk E N groups room p2 else Some p2) of
                        None \<Rightarrow> ([], chunk_unsent tid b, M)
                      | Some p3 \<Rightarrow>
                          (let sent = fn_tx N (supernode, rt, p3)
                           in (out_if sent supernode rt p3, after_send now tid is_chunk is_complete sent b M))))"
| "dispatch_room_event E N now groups supernode room (Ev_Offered tid peer rel sz purpose) b M =
     ([Ui_offered tid (if room = [] then peer else room) rel sz purpose (bare peer = bare (fn_me N)) peer supernode], b, M)"
| "dispatch_room_event E N now groups supernode room (Ev_Progress tid p) b M = ([Ui_progress tid p], b, M)"
| "dispatch_room_event E N now groups supernode room (Ev_Complete tid peer r sn purpose payload rel) b M =
     ([Ui_complete tid peer (if r = [] then room else r) (if sn = [] then supernode else sn) purpose payload rel], b, M)"
| "dispatch_room_event E N now groups supernode room (Ev_Failed tid reason) b M = ([Ui_failed tid reason], b, M)"
| "dispatch_room_event E N now groups supernode room (Ev_StateChanged tid st) b M = ([], b, M)"

fun dispatch_loop :: "(transfer_event \<Rightarrow> batch \<Rightarrow> file_manager \<Rightarrow> file_out list \<times> batch \<times> file_manager) \<Rightarrow>
    transfer_event list \<Rightarrow> batch \<Rightarrow> file_manager \<Rightarrow> file_out list \<times> batch \<times> file_manager" where
  "dispatch_loop step [] b M = ([], b, M)"
| "dispatch_loop step (ev # evs) b M =
     (case step ev b M of (outs, b1, M1) \<Rightarrow>
        (case dispatch_loop step evs b1 M1 of (outs', b2, M2) \<Rightarrow> (outs @ outs', b2, M2)))"

text \<open>After the loop: chunks that were not sent are taken back, and stalled streams back off.\<close>

fun stall_all :: "rat \<Rightarrow> string list \<Rightarrow> file_manager \<Rightarrow> file_out list \<times> file_manager" where
  "stall_all now [] M = ([], M)"
| "stall_all now (tid # tids) M =
     (case note_send_stalled now tid M of (reason, M1) \<Rightarrow>
        (case stall_all now tids M1 of (outs, M2) \<Rightarrow>
           ((case reason of None \<Rightarrow> [] | Some e \<Rightarrow> [Ui_failed tid e]) @ outs, M2)))"

definition settle_batch :: "rat \<Rightarrow> batch \<Rightarrow> file_manager \<Rightarrow> file_out list \<times> file_manager" where
  "settle_batch now b M =
     (let M1 = fold (\<lambda>(tid, n) M. if 0 < n then unsend_chunks tid n M else M) (ba_unsent b) M;
          M2 = fold note_send_progress (filter (\<lambda>tid. tid \<notin> set (ba_stalled b)) (ba_progressed b)) M1
      in stall_all now (ba_stalled b) M2)"

definition run_batch :: "rat \<Rightarrow> (transfer_event \<Rightarrow> batch \<Rightarrow> file_manager \<Rightarrow> file_out list \<times> batch \<times> file_manager) \<Rightarrow>
    transfer_event list \<Rightarrow> file_manager \<Rightarrow> file_out list \<times> file_manager" where
  "run_batch now step evs M =
     (case dispatch_loop step evs new_batch M of (outs, b, M1) \<Rightarrow>
        (case settle_batch now b M1 of (outs', M2) \<Rightarrow> (outs @ outs', M2)))"

definition dispatch_transfer_events :: "os_view \<Rightarrow> file_net \<Rightarrow> transfer_event list \<Rightarrow> 'm file_client \<Rightarrow> file_out list \<times> 'm file_client" where
  "dispatch_transfer_events W N evs st =
     (case run_batch (ov_now W) (dispatch_event N (ov_now W)) evs (fc_files st) of
        (outs, M) \<Rightarrow> (outs, st\<lparr>fc_files := M\<rparr>))"

definition dispatch_room_transfer_events :: "file_env \<Rightarrow> os_view \<Rightarrow> file_net \<Rightarrow> peer_id \<Rightarrow> room_id \<Rightarrow> transfer_event list \<Rightarrow>
    'm file_client \<Rightarrow> file_out list \<times> 'm file_client" where
  "dispatch_room_transfer_events E W N supernode room evs st =
     (case run_batch (ov_now W) (dispatch_room_event E N (ov_now W) (fc_groups st) supernode room) evs (fc_rooms st) of
        (outs, M) \<Rightarrow> (outs, st\<lparr>fc_rooms := M\<rparr>))"

section \<open>Messages of peers\<close>

definition gate_feature :: "file_net \<Rightarrow> feature_id \<Rightarrow> peer_id \<Rightarrow> bytes \<Rightarrow> 'm file_client \<Rightarrow> bool \<times> 'm file_client" where
  "gate_feature N i sender payload st =
     (case module_for i (fc_features st) of
        None \<Rightarrow> (True, st)
      | Some _ \<Rightarrow> (case dispatch_message i sender payload (fn_instant N) (fc_features st) of
           (ok, _, r) \<Rightarrow> (ok, st\<lparr>fc_features := r\<rparr>)))"

definition get_u64 :: "string \<Rightarrow> jvalue \<Rightarrow> nat option" where
  "get_u64 k v = (case jget k v of None \<Rightarrow> None | Some w \<Rightarrow> map_option unat (as_u64 w))"

definition parse_offer :: "string \<Rightarrow> string \<Rightarrow> payload_map \<Rightarrow> file_offer option" where
  "parse_offer default_rel default_purpose payload =
     (let v = VObj payload
      in case (get_str ''transfer_id'' v, get_str ''sha256'' v, get_u64 ''size'' v) of
           (Some tid, Some sha, Some sz) \<Rightarrow>
             if tid = [] \<or> sha = [] then None
             else Some \<lparr>fo_transfer_id = tid, fo_rel_path = get_str_or default_rel ''rel_path'' v, fo_sha256 = sha, fo_size = sz,
               fo_total_chunks = get_u64_or 1 ''total_chunks'' v, fo_purpose = get_str_or default_purpose ''purpose'' v,
               fo_compressed = get_bool ''compressed'' v, fo_is_delta = get_bool ''is_delta'' v,
               fo_base_sha256 = get_str_or [] ''base_sha256'' v\<rparr>
         | _ \<Rightarrow> None)"

text \<open>What a manager returns for a message of a peer: its events are dispatched.\<close>

definition with_files :: "os_view \<Rightarrow> file_net \<Rightarrow> 'm file_client \<Rightarrow> transfer_event list \<times> file_manager \<times> disk \<Rightarrow>
    file_out list \<times> 'm file_client" where
  "with_files W N st r = (case r of (evs, M, D) \<Rightarrow> dispatch_transfer_events W N evs (st\<lparr>fc_files := M, fc_disk := D\<rparr>))"

definition with_rooms :: "file_env \<Rightarrow> os_view \<Rightarrow> file_net \<Rightarrow> peer_id \<Rightarrow> room_id \<Rightarrow> 'm file_client \<Rightarrow>
    transfer_event list \<times> file_manager \<times> disk \<Rightarrow> file_out list \<times> 'm file_client" where
  "with_rooms E W N supernode room st r =
     (case r of (evs, M, D) \<Rightarrow> dispatch_room_transfer_events E W N supernode room evs (st\<lparr>fc_rooms := M, fc_disk := D\<rparr>))"

text \<open>\<open>dispatch_outbound\<close> for a single message, whose outcome the caller ignores.\<close>

definition send_one :: "file_net \<Rightarrow> peer_id \<Rightarrow> client_type \<Rightarrow> payload_map \<Rightarrow> file_out list" where
  "send_one N target t payload = out_if (fn_tx N (target, t, payload)) target t payload"

definition on_file_offer :: "file_env \<Rightarrow> os_view \<Rightarrow> file_net \<Rightarrow> client_message \<Rightarrow> 'm file_client \<Rightarrow> file_out list \<times> 'm file_client" where
  "on_file_offer E W N msg st =
     (case gate_feature N ''core.file.v1'' (cm_sender msg) [] st of
        (False, st1) \<Rightarrow> ([], st1)
      | (True, st1) \<Rightarrow>
          (case parse_offer [] ''file'' (cm_payload msg) of
             None \<Rightarrow> ([], st1)
           | Some offer \<Rightarrow> with_files W N st1 (on_offer_received E W (cm_sender msg) offer (fc_files st1) (fc_disk st1))))"

definition on_file_accept :: "file_env \<Rightarrow> os_view \<Rightarrow> file_net \<Rightarrow> client_message \<Rightarrow> 'm file_client \<Rightarrow> file_out list \<times> 'm file_client" where
  "on_file_accept E W N msg st =
     (let tid = tid_of (cm_payload msg)
      in if \<not> has_outbound tid (fc_files st)
         then (send_one N (cm_sender msg) FileTransferError_c (reason_payload tid ''no longer shared''), st)
         else case on_transfer_accepted E W (fc_disk st) tid (fc_files st) of
             (evs, M) \<Rightarrow> with_files W N st (evs, M, fc_disk st))"

definition on_file_chunk :: "file_env \<Rightarrow> os_view \<Rightarrow> file_net \<Rightarrow> client_message \<Rightarrow> 'm file_client \<Rightarrow>
    (file_out list \<times> 'm file_client) option" where
  "on_file_chunk E W N msg st =
     (let v = VObj (cm_payload msg); tid = tid_of (cm_payload msg); index = get_u64_or 0 ''chunk_index'' v;
          data = get_str_or [] ''data'' v;
          (pass, st1) = (if has_inbound tid (fc_files st) then (True, st)
             else gate_feature N ''core.file.v1'' (cm_sender msg) (replicate (length data) 0) st)
      in if \<not> pass then Some ([], st1)
         else map_option (with_files W N st1) (on_chunk_received E W tid index data (fc_files st1) (fc_disk st1)))"

definition on_file_message :: "file_env \<Rightarrow> os_view \<Rightarrow> file_net \<Rightarrow> client_message \<Rightarrow> 'm file_client \<Rightarrow>
    (file_out list \<times> 'm file_client) option" where
  "on_file_message E W N msg st =
     (let tid = tid_of (cm_payload msg); D = fc_disk st; M = fc_files st; now = ov_now W;
          plain = (\<lambda>(evs, M'). Some (with_files W N st (evs, M', D)))
      in if \<not> fn_trusted N (cm_sender msg) then Some ([], st)
         else case cm_type msg of
             FileTransferOffer_c \<Rightarrow> Some (on_file_offer E W N msg st)
           | FileTransferAccept_c \<Rightarrow> Some (on_file_accept E W N msg st)
           | FileTransferReject_c \<Rightarrow> plain (on_transfer_rejected tid M)
           | FileTransferChunk_c \<Rightarrow> on_file_chunk E W N msg st
           | FileTransferComplete_c \<Rightarrow> map_option (with_files W N st) (on_complete_received E W tid M D)
           | FileTransferAck_c \<Rightarrow> plain (on_transfer_ack now tid M)
           | FileTransferError_c \<Rightarrow>
               plain (on_transfer_error tid (get_str_or ''unknown'' ''reason'' (VObj (cm_payload msg))) M)
           | _ \<Rightarrow> Some ([], st))"

section \<open>Messages of rooms\<close>

definition room_of_payload :: "payload_map \<Rightarrow> room_id" where
  "room_of_payload payload = get_str_or ''default'' ''room_id'' (VObj payload)"

definition same_supernode_pad :: "string \<Rightarrow> string \<Rightarrow> bool" where
  "same_supernode_pad a b \<longleftrightarrow> a = b \<or> bare a = bare b"

definition handle_sfu_file_offer :: "file_env \<Rightarrow> os_view \<Rightarrow> file_net \<Rightarrow> peer_id \<Rightarrow> client_message \<Rightarrow> 'm file_client \<Rightarrow>
    file_out list \<times> 'm file_client" where
  "handle_sfu_file_offer E W N supernode msg st =
     (case gate_feature N ''room.file.v1'' (cm_sender msg) [] st of
        (False, st1) \<Rightarrow> ([], st1)
      | (True, st1) \<Rightarrow>
          (let room = room_of_payload (cm_payload msg)
           in case parse_offer ''file'' ''room_file'' (cm_payload msg) of
                None \<Rightarrow> ([], st1)
              | Some offer \<Rightarrow>
                  (let origin = (case get_str ''origin_id'' (VObj (cm_payload msg)) of
                         Some s \<Rightarrow> if s \<noteq> [] \<and> s \<noteq> room then s else cm_sender msg
                       | None \<Rightarrow> cm_sender msg)
                   in with_rooms E W N supernode room st1
                        (on_offer_received_with_room E W origin room supernode offer (fc_rooms st1) (fc_disk st1)))))"

definition accept_room_file :: "file_env \<Rightarrow> os_view \<Rightarrow> file_net \<Rightarrow> peer_id \<Rightarrow> room_id \<Rightarrow> string \<Rightarrow> peer_id \<Rightarrow> 'm file_client \<Rightarrow>
    file_out list \<times> 'm file_client" where
  "accept_room_file E W N supernode room tid origin st =
     (case accept_transfer_locally tid (fc_rooms st) of
        (evs, M) \<Rightarrow>
          (case with_rooms E W N supernode room st (evs, M, fc_disk st) of
             (outs, st1) \<Rightarrow> (outs @ send_one N (fn_route N supernode) SfuFileRequest_c
                (bt_of [(''room_id'', VStr room), (''transfer_id'', VStr tid), (''to'', VStr origin)] []), st1)))"

definition accept_inbound_file :: "file_env \<Rightarrow> os_view \<Rightarrow> file_net \<Rightarrow> string \<Rightarrow> 'm file_client \<Rightarrow> file_out list \<times> 'm file_client" where
  "accept_inbound_file E W N tid st =
     (if has_inbound tid (fc_files st)
      then (case accept_transfer tid (fc_files st) of (evs, M) \<Rightarrow> with_files W N st (evs, M, fc_disk st))
      else case inbound_route tid (fc_rooms st) of
          None \<Rightarrow> ([], st)
        | Some (origin, room, sn) \<Rightarrow>
            accept_room_file E W N (if sn = [] then fc_current_supernode st else sn) room tid origin st)"

definition send_file_revoke :: "file_net \<Rightarrow> peer_id \<Rightarrow> room_id \<Rightarrow> string \<Rightarrow> peer_id option \<Rightarrow> file_out list" where
  "send_file_revoke N supernode room tid to =
     send_one N (fn_route N supernode) SfuFileRevoke_c
       (bt_of ([(''room_id'', VStr room), (''transfer_id'', VStr tid)] @ (case to of None \<Rightarrow> [] | Some p \<Rightarrow> [(''to'', VStr p)])) [])"

definition handle_sfu_file_request :: "file_env \<Rightarrow> os_view \<Rightarrow> file_net \<Rightarrow> peer_id \<Rightarrow> client_message \<Rightarrow> 'm file_client \<Rightarrow>
    file_out list \<times> 'm file_client" where
  "handle_sfu_file_request E W N supernode msg st =
     (let room = room_of_payload (cm_payload msg); tid = tid_of (cm_payload msg);
          to = get_str_or [] ''to'' (VObj (cm_payload msg))
      in if tid = [] then ([], st)
         else if to \<noteq> [] \<and> \<not> same_supernode_pad to (fn_me N) then ([], st)
         else if \<not> has_outbound tid (fc_rooms st)
         then (send_file_revoke N supernode room tid (Some (cm_sender msg)), st)
         else case start_stream_for E W (fc_disk st) tid (cm_sender msg) ROOM_FILE_CHUNK_BUDGET (fc_rooms st) of
             (evs, M) \<Rightarrow> with_rooms E W N supernode room st (evs, M, fc_disk st))"

definition handle_sfu_file_revoke :: "os_view \<Rightarrow> client_message \<Rightarrow> 'm file_client \<Rightarrow> file_out list \<times> 'm file_client" where
  "handle_sfu_file_revoke W msg st =
     (let tid = tid_of (cm_payload msg)
      in if tid = [] then ([], st)
         else case inbound_route tid (fc_rooms st) of
             None \<Rightarrow> ([], st)
           | Some (origin, _, _) \<Rightarrow>
               if origin \<noteq> cm_sender msg then ([], st)
               else (case discard_inbound W tid (fc_rooms st) (fc_disk st) of
                   (M, D) \<Rightarrow> ([Ui_failed tid ''no longer shared''], st\<lparr>fc_rooms := M, fc_disk := D\<rparr>)))"

definition open_room_chunk :: "file_env \<Rightarrow> file_net \<Rightarrow> sender_keys_group \<Rightarrow> client_message \<Rightarrow> bytes option" where
  "open_room_chunk E N groups msg =
     (let v = VObj (cm_payload msg); epoch = get_u64_or (2 ^ 64 - 1) ''epoch'' v
      in case fe_b64_decode E (get_str_or [] ''data'' v) of
           None \<Rightarrow> None
         | Some sealed \<Rightarrow>
             if 256 \<le> epoch then None
             else open_file_chunk (fn_kdf N) (epoch_key (fn_kdf N) groups) (room_of_payload (cm_payload msg)) (cm_sender msg)
                    (tid_of (cm_payload msg)) (word_of_nat (get_u64_or 0 ''chunk_index'' v)) (word_of_nat epoch) sealed)"

definition handle_sfu_file_chunk :: "file_env \<Rightarrow> os_view \<Rightarrow> file_net \<Rightarrow> client_message \<Rightarrow> 'm file_client \<Rightarrow>
    (file_out list \<times> 'm file_client) option" where
  "handle_sfu_file_chunk E W N msg st =
     (let v = VObj (cm_payload msg); tid = tid_of (cm_payload msg);
          (pass, st1) = (if has_inbound tid (fc_rooms st) then (True, st)
             else gate_feature N ''room.file.v1'' (cm_sender msg) (replicate (length (get_str_or [] ''data'' v)) 0) st)
      in if \<not> pass \<or> \<not> get_bool ''e2e'' v then Some ([], st1)
         else case open_room_chunk E N (fc_groups st1) msg of
             None \<Rightarrow> Some ([], st1)
           | Some plain \<Rightarrow>
               map_option (with_rooms E W N [] [] st1)
                 (on_chunk_bytes_received E W tid (get_u64_or 0 ''chunk_index'' v) plain (fc_rooms st1) (fc_disk st1)))"

definition handle_sfu_file_complete :: "file_env \<Rightarrow> os_view \<Rightarrow> file_net \<Rightarrow> client_message \<Rightarrow> 'm file_client \<Rightarrow>
    (file_out list \<times> 'm file_client) option" where
  "handle_sfu_file_complete E W N msg st =
     map_option (with_rooms E W N [] [] st)
       (on_complete_received E W (tid_of (cm_payload msg)) (fc_rooms st) (fc_disk st))"

definition on_room_file_message :: "file_env \<Rightarrow> os_view \<Rightarrow> file_net \<Rightarrow> peer_id \<Rightarrow> client_message \<Rightarrow> 'm file_client \<Rightarrow>
    (file_out list \<times> 'm file_client) option" where
  "on_room_file_message E W N supernode msg st =
     (case cm_type msg of
        SfuFileOffer_c \<Rightarrow> Some (handle_sfu_file_offer E W N supernode msg st)
      | SfuFileRequest_c \<Rightarrow> Some (handle_sfu_file_request E W N supernode msg st)
      | SfuFileRevoke_c \<Rightarrow> Some (handle_sfu_file_revoke W msg st)
      | SfuFileChunk_c \<Rightarrow> handle_sfu_file_chunk E W N msg st
      | SfuFileComplete_c \<Rightarrow> handle_sfu_file_complete E W N msg st
      | _ \<Rightarrow> Some ([], st))"

section \<open>Commands and timers\<close>

definition send_file :: "file_env \<Rightarrow> os_view \<Rightarrow> file_net \<Rightarrow> string \<Rightarrow> peer_id \<Rightarrow> string \<Rightarrow> string \<Rightarrow> string \<Rightarrow> string \<Rightarrow> 'm file_client \<Rightarrow>
    file_out list \<times> 'm file_client" where
  "send_file E W N fresh_id peer rel_path path tid purpose st =
     (let D = fc_disk st; M = fc_files st; sz = (case os_stat W D path of Inl _ \<Rightarrow> 0 | Inr n \<Rightarrow> n);
          (offered, M1) = (if INLINE_MAX < sz
             then offer_file_from_path_with_id E W D fresh_id peer rel_path path purpose False (Some tid) M
             else case (ov_io W (Io_open path), D path) of
                 (None, Some data) \<Rightarrow>
                   offer_file_with_id E W D fresh_id peer rel_path data purpose (get_old_data rel_path M) False (Some tid) M
               | _ \<Rightarrow> (Inl (''cannot read '' @ path), M))
      in case offered of
           Inl _ \<Rightarrow> ([], st)
         | Inr (t, evs) \<Rightarrow>
             (case with_files W N st (evs, M1, D) of
                (outs, st1) \<Rightarrow> (Ui_offered t peer rel_path sz purpose True (fn_me N) [] # outs, st1)))"

definition send_sfu_file :: "file_env \<Rightarrow> os_view \<Rightarrow> file_net \<Rightarrow> string \<Rightarrow> peer_id \<Rightarrow> room_id \<Rightarrow> string \<Rightarrow> string \<Rightarrow> string \<Rightarrow> string \<Rightarrow>
    'm file_client \<Rightarrow> file_out list \<times> 'm file_client" where
  "send_sfu_file E W N fresh_id supernode room rel_path path tid purpose st =
     (let D = fc_disk st; sz = (case os_stat W D path of Inl _ \<Rightarrow> 0 | Inr n \<Rightarrow> n)
      in case offer_file_from_path_with_id E W D fresh_id room rel_path path purpose False (Some tid) (fc_rooms st) of
           (Inl _, _) \<Rightarrow> ([], st)
         | (Inr (t, evs), M1) \<Rightarrow>
             (case with_rooms E W N supernode room st (evs, M1, D) of
                (outs, st1) \<Rightarrow> (Ui_offered t room rel_path sz purpose True (fn_me N) supernode # outs, st1)))"

definition revoke_file :: "file_net \<Rightarrow> string \<Rightarrow> 'm file_client \<Rightarrow> file_out list \<times> 'm file_client" where
  "revoke_file N tid st =
     (let room = map_option fst (outbound_route tid (fc_rooms st));
          (a, R) = revoke_outbound tid (fc_rooms st); (b, F) = revoke_outbound tid (fc_files st);
          st1 = st\<lparr>fc_rooms := R, fc_files := F\<rparr>
      in if \<not> (a \<or> b) then ([], st1)
         else ((case room of None \<Rightarrow> [] | Some r \<Rightarrow> send_file_revoke N (fc_current_supernode st) r tid None), st1))"

definition decline_room_file :: "os_view \<Rightarrow> string \<Rightarrow> 'm file_client \<Rightarrow> file_out list \<times> 'm file_client" where
  "decline_room_file W tid st =
     (case discard_inbound W tid (fc_rooms st) (fc_disk st) of
        (M, D) \<Rightarrow> ([Ui_failed tid ''declined''], st\<lparr>fc_rooms := M, fc_disk := D\<rparr>))"

definition reject_file :: "os_view \<Rightarrow> file_net \<Rightarrow> string \<Rightarrow> 'm file_client \<Rightarrow> file_out list \<times> 'm file_client" where
  "reject_file W N tid st =
     (case reject_transfer tid ''user_rejected'' (fc_files st) of (evs, M) \<Rightarrow> with_files W N st (evs, M, fc_disk st))"

definition cancel_file :: "os_view \<Rightarrow> file_net \<Rightarrow> string \<Rightarrow> 'm file_client \<Rightarrow> file_out list \<times> 'm file_client" where
  "cancel_file W N tid st =
     (case cancel_transfer tid (fc_files st) of (evs, M) \<Rightarrow> with_files W N st (evs, M, fc_disk st))"

definition pump_file :: "file_env \<Rightarrow> os_view \<Rightarrow> file_net \<Rightarrow> string \<Rightarrow> 'm file_client \<Rightarrow> file_out list \<times> 'm file_client" where
  "pump_file E W N tid st =
     (case pump_stream E W (fc_disk st) tid ROOM_FILE_CHUNK_BUDGET (fc_files st) of
        (evs, _, M) \<Rightarrow> with_files W N st (evs, M, fc_disk st))"

definition pump_room_file :: "file_env \<Rightarrow> os_view \<Rightarrow> file_net \<Rightarrow> string \<Rightarrow> 'm file_client \<Rightarrow> file_out list \<times> 'm file_client" where
  "pump_room_file E W N tid st =
     (case pump_stream E W (fc_disk st) tid ROOM_FILE_CHUNK_BUDGET (fc_rooms st) of
        (evs, _, M) \<Rightarrow>
          if evs = [] then ([], st\<lparr>fc_rooms := M\<rparr>)
          else case outbound_route tid M of
              None \<Rightarrow> ([], st\<lparr>fc_rooms := M\<rparr>)
            | Some (room, sn) \<Rightarrow>
                with_rooms E W N (if sn = [] then fc_current_supernode st else sn) room st (evs, M, fc_disk st))"

fun each :: "(string \<Rightarrow> 's \<Rightarrow> 'o list \<times> 's) \<Rightarrow> string list \<Rightarrow> 's \<Rightarrow> 'o list \<times> 's" where
  "each f [] st = ([], st)"
| "each f (t # ts) st = (case f t st of (o1, st1) \<Rightarrow> (case each f ts st1 of (o2, st2) \<Rightarrow> (o1 @ o2, st2)))"

text \<open>The lists are the active streams in the order of the iteration.\<close>

definition pump_room_file_streams :: "file_env \<Rightarrow> os_view \<Rightarrow> file_net \<Rightarrow> string list \<Rightarrow> string list \<Rightarrow> 'm file_client \<Rightarrow>
    file_out list \<times> 'm file_client" where
  "pump_room_file_streams E W N peer_tids room_tids st =
     (case each (pump_file E W N) peer_tids st of (o1, st1) \<Rightarrow>
        (case each (pump_room_file E W N) room_tids st1 of (o2, st2) \<Rightarrow> (o1 @ o2, st2)))"

definition transfer_gc :: "os_view \<Rightarrow> 'm file_client \<Rightarrow> nat \<times> 'm file_client" where
  "transfer_gc W st =
     (case gc W (fc_rooms st) (fc_disk st) of (n, R, D) \<Rightarrow>
        (case gc W (fc_files st) D of (m, F, D') \<Rightarrow> (n + m, st\<lparr>fc_rooms := R, fc_files := F, fc_disk := D'\<rparr>)))"

end
