(* ===== verification/File_Streams.thy ===== *)
theory File_Streams
  imports File_Dispatch
begin

text \<open>
  The sender's side of a stream: whatever the transports refuse, the chunks that leave are the chunks
  of the file in order without a gap, the counter says how many, and the final message follows the
  last one. The two dispatch loops share the contract \<open>frame_lane\<close>, in which this is proved once.
\<close>

section \<open>The contract of a lane\<close>

fun is_msg :: "file_out \<Rightarrow> bool" where
  "is_msg (Out_msg p t m) = True"
| "is_msg _ = False"

definition msgs :: "file_out list \<Rightarrow> file_out list" where
  "msgs outs = filter is_msg outs"

lemma msgs_simps [simp]: "msgs [] = []" "msgs (a @ b) = msgs a @ msgs b" "msgs (out # outs) = (if is_msg out then out # msgs outs else msgs outs)"
  by (simp_all add: msgs_def)

type_synonym frame = "peer_id \<times> client_type \<times> payload_map"

text \<open>The events of a stream: chunks and the final message of one transfer, and reports.\<close>

fun stream_event :: "string \<Rightarrow> transfer_event \<Rightarrow> bool" where
  "stream_event tid (Ev_SendMessage p t m) \<longleftrightarrow> (t = FileTransferChunk_c \<or> t = FileTransferComplete_c) \<and> tid_of m = tid"
| "stream_event tid (Ev_Progress _ _) \<longleftrightarrow> True"
| "stream_event tid (Ev_Failed _ _) \<longleftrightarrow> True"
| "stream_event tid _ \<longleftrightarrow> False"

definition same_stream :: "outbound_transfer \<Rightarrow> outbound_transfer \<Rightarrow> bool" where
  "same_stream x y \<longleftrightarrow> ot_transfer_id y = ot_transfer_id x \<and> ot_peer_id y = ot_peer_id x \<and> ot_source y = ot_source x \<and>
     ot_total_chunks y = ot_total_chunks x \<and> ot_to y = ot_to x"

definition complete_message :: "outbound_transfer \<Rightarrow> frame" where
  "complete_message x = (ot_peer_id x, FileTransferComplete_c, complete_payload x)"

lemma tid_of_payloads [simp]: "tid_of (chunk_payload E x i c) = ot_transfer_id x" "tid_of (complete_payload x) = ot_transfer_id x"
  by (simp_all add: tid_of_def chunk_payload_def complete_payload_def to_field_def get_str_or_def get_str_def bt_of_map_of)

lemma chunk_loop_stream:
  "chunk_loop E W D b x = (evs, failed, x') \<Longrightarrow> \<forall>ev \<in> set evs. stream_event (ot_transfer_id x) ev"
proof (induction E W D b x arbitrary: evs failed x' rule: chunk_loop.induct)
  case (2 E W D b x)
  obtain evs1 failed1 x1 where r: "chunk_loop E W D b (x\<lparr>ot_chunks_sent := Suc (ot_chunks_sent x)\<rparr>) = (evs1, failed1, x1)"
    by (metis prod_cases3)
  from "2.prems" r "2.IH" [OF _ _ refl r] show ?case
    by (auto simp: Let_def split: if_splits option.splits)
qed simp

lemma note_send_stalled_record:
  assumes "fm_outbound M tid = Some x"
  shows "\<exists>r y. note_send_stalled now tid M = (r, put_outbound tid y M) \<and> same_stream x y \<and>
    ot_chunks_sent y = ot_chunks_sent x \<and> (ot_state y = ot_state x \<or> ot_state y = Failed)"
proof -
  define since where "since = (case ot_stalled_since x of Some t \<Rightarrow> t | None \<Rightarrow> now)"
  show ?thesis
  proof (cases "STALL_GIVE_UP_SECS \<le> now - since")
    case True
    with assms show ?thesis
      by (simp add: note_send_stalled_def since_def [symmetric] Let_def) (rule exI, rule conjI [OF refl], simp add: same_stream_def)
  next
    case False
    with assms show ?thesis
      by (simp add: note_send_stalled_def since_def [symmetric] Let_def) (rule exI, rule conjI [OF refl], simp add: same_stream_def)
  qed
qed

locale frame_lane =
  fixes step :: "transfer_event \<Rightarrow> batch \<Rightarrow> file_manager \<Rightarrow> file_out list \<times> batch \<times> file_manager"
    and now :: rat and passes :: "frame \<Rightarrow> bool" and emit :: "frame \<Rightarrow> file_out"
  assumes held: "ba_hold b \<Longrightarrow> t = FileTransferChunk_c \<or> t = FileTransferComplete_c \<Longrightarrow>
      step (Ev_SendMessage p t m) b M = ([], hold_frame (tid_of m) (t = FileTransferChunk_c) b, M)"
    and chunk: "\<not> ba_hold b \<Longrightarrow> step (Ev_SendMessage p FileTransferChunk_c m) b M =
      (if passes (p, FileTransferChunk_c, m) then ([emit (p, FileTransferChunk_c, m)], after_send now (tid_of m) True False True b M)
       else ([], after_send now (tid_of m) True False False b M))"
    and last_frame: "\<not> ba_hold b \<Longrightarrow> step (Ev_SendMessage p FileTransferComplete_c m) b M =
      (if passes (p, FileTransferComplete_c, m) then ([emit (p, FileTransferComplete_c, m)], after_send now (tid_of m) False True True b M)
       else ([], after_send now (tid_of m) False True False b M))"
    and report: "step (Ev_Progress i q) b M = ([Ui_progress i q], b, M)" "step (Ev_Failed i e) b M = ([Ui_failed i e], b, M)"
    and emits: "is_msg (emit f)"
begin

definition batch_of :: "string \<Rightarrow> bool \<Rightarrow> nat \<Rightarrow> bool \<Rightarrow> bool \<Rightarrow> batch" where
  "batch_of tid h u s p = \<lparr>ba_hold = h, ba_unsent = (if u = 0 then [] else [(tid, u)]),
     ba_stalled = (if s then [tid] else []), ba_progressed = (if p then [tid] else [])\<rparr>"

lemma batch_steps:
  "tid \<noteq> [] \<Longrightarrow> hold_frame tid True (batch_of tid h u s p) = batch_of tid h (Suc u) True p"
  "tid \<noteq> [] \<Longrightarrow> hold_frame tid False (batch_of tid h u s p) = batch_of tid h u True p"
  "tid \<noteq> [] \<Longrightarrow> chunk_unsent tid (batch_of tid h u s p) = batch_of tid True (Suc u) True p"
  "mark_progressed tid (batch_of tid h u s p) = batch_of tid h u s True"
  "mark_stalled tid (batch_of tid h u s p) = batch_of tid h u True p"
  "ba_hold (batch_of tid h u s p) = h"
  by (auto simp: batch_of_def hold_frame_def chunk_unsent_def mark_progressed_def mark_stalled_def count_unsent_def Let_def)

lemma new_batch_of: "new_batch = batch_of tid False 0 False False"
  by (simp add: new_batch_def batch_of_def)

text \<open>Chunks go out until the first that does not pass; the rest is counted as not sent.\<close>

lemma loop_chunks:
  assumes "tid \<noteq> []" and "\<forall>ev \<in> set evs. stream_event tid ev" and "\<forall>f \<in> set (sends evs). fst (snd f) = FileTransferChunk_c"
  shows "\<exists>outs g. dispatch_loop step evs (batch_of tid h u s p) M =
      (outs, batch_of tid (h \<or> g < length (sends evs)) (u + (length (sends evs) - g)) (s \<or> g < length (sends evs)) (p \<or> 0 < g), M) \<and>
    msgs outs = map emit (take g (sends evs)) \<and> g = (if h then 0 else length (takeWhile passes (sends evs)))"
  using assms(2,3)
proof (induction evs arbitrary: h u s p)
  case (Cons ev evs)
  then have rest: "\<forall>ev \<in> set evs. stream_event tid ev" "\<forall>f \<in> set (sends evs). fst (snd f) = FileTransferChunk_c"
    by (cases ev; auto)+
  show ?case
  proof (cases ev)
    case (Ev_SendMessage q t m)
    with Cons.prems have t: "t = FileTransferChunk_c" "tid_of m = tid" by auto
    show ?thesis
    proof (cases h)
      case True
      have "step ev (batch_of tid h u s p) M = ([], batch_of tid h (Suc u) True p, M)"
        using True held [of "batch_of tid h u s p"] assms(1) t Ev_SendMessage by (simp add: batch_steps)
      with Cons.IH [OF rest, of h "Suc u" True p] True show ?thesis
        by (auto simp: Ev_SendMessage)
    next
      case False
      note c = chunk [of "batch_of tid h u s p" q m M, unfolded batch_steps t, OF False]
      show ?thesis
      proof (cases "passes (q, t, m)")
        case True
        have "step ev (batch_of tid h u s p) M = ([emit (q, t, m)], batch_of tid h u s True, M)"
          using c True t assms(1) by (simp add: Ev_SendMessage after_send_def batch_steps)
        with Cons.IH [OF rest, of h u s True] True False show ?thesis
          by (auto simp: Ev_SendMessage emits)
      next
        case no: False
        have "step ev (batch_of tid h u s p) M = ([], batch_of tid True (Suc u) True p, M)"
          using c no t assms(1) by (simp add: Ev_SendMessage after_send_def batch_steps)
        with Cons.IH [OF rest, of True "Suc u" True p] no False show ?thesis
          by (auto simp: Ev_SendMessage)
      qed
    qed
  qed (use Cons.IH [OF rest, of h u s p] Cons.prems report in auto)
qed simp

lemma dispatch_loop_append:
  "dispatch_loop f (xs @ ys) b M =
     (case dispatch_loop f xs b M of (o1, b1, M1) \<Rightarrow> (case dispatch_loop f ys b1 M1 of (o2, b2, M2) \<Rightarrow> (o1 @ o2, b2, M2)))"
  by (induction xs arbitrary: b M) (auto split: prod.splits)

text \<open>What settling makes of the record of the stream.\<close>

definition settled :: "nat \<Rightarrow> bool \<Rightarrow> bool \<Rightarrow> outbound_transfer \<Rightarrow> outbound_transfer \<Rightarrow> bool" where
  "settled u s p x y \<longleftrightarrow> ot_chunks_sent y = ot_chunks_sent x - u \<and> ot_transfer_id y = ot_transfer_id x \<and> ot_peer_id y = ot_peer_id x \<and>
     ot_source y = ot_source x \<and> ot_total_chunks y = ot_total_chunks x \<and> ot_to y = ot_to x \<and>
     (ot_state y = ot_state x \<or> s \<and> ot_state y = Failed)"

lemma settle_stream:
  assumes "fm_outbound M tid = Some x" and "u = 0 \<or> ot_state x \<noteq> Completed"
  shows "\<exists>outs y. settle_batch now (batch_of tid h u s p) M = (outs, M\<lparr>fm_outbound := (fm_outbound M)(tid \<mapsto> y)\<rparr>) \<and>
    msgs outs = [] \<and> settled u s p x y"
proof -
  define x1 where "x1 = (if u = 0 then x else x\<lparr>ot_chunks_sent := ot_chunks_sent x - u\<rparr>)"
  have M1: "fold (\<lambda>(tid, n) M. if 0 < n then unsend_chunks tid n M else M) (ba_unsent (batch_of tid h u s p)) M =
      M\<lparr>fm_outbound := (fm_outbound M)(tid \<mapsto> x1)\<rparr>"
    using assms by (auto simp: batch_of_def unsend_chunks_def unsend_record_def put_outbound_def x1_def Let_def fun_upd_idem)
  define x2 where "x2 = (if p \<and> \<not> s then x1\<lparr>ot_stall_count := 0, ot_stalled_since := None, ot_retry_after := 0\<rparr> else x1)"
  have M2: "fold note_send_progress (filter (\<lambda>t. t \<notin> set (ba_stalled (batch_of tid h u s p))) (ba_progressed (batch_of tid h u s p)))
      (M\<lparr>fm_outbound := (fm_outbound M)(tid \<mapsto> x1)\<rparr>) = M\<lparr>fm_outbound := (fm_outbound M)(tid \<mapsto> x2)\<rparr>"
    by (auto simp: batch_of_def note_send_progress_def put_outbound_def x2_def)
  have x2: "settled u False p x x2" by (auto simp: settled_def x2_def x1_def)
  have eq: "settle_batch now (batch_of tid h u s p) M =
      stall_all now (if s then [tid] else []) (M\<lparr>fm_outbound := (fm_outbound M)(tid \<mapsto> x2)\<rparr>)"
    unfolding settle_batch_def Let_def M1 M2 by (simp add: batch_of_def)
  show ?thesis
  proof (cases s)
    case False
    then have "settle_batch now (batch_of tid h u s p) M = ([], M\<lparr>fm_outbound := (fm_outbound M)(tid \<mapsto> x2)\<rparr>)"
      unfolding eq by simp
    with x2 False show ?thesis by (intro exI [of _ "[]"] exI [of _ x2]) simp
  next
    case True
    let ?M2 = "M\<lparr>fm_outbound := (fm_outbound M)(tid \<mapsto> x2)\<rparr>"
    have "fm_outbound ?M2 tid = Some x2" by simp
    from note_send_stalled_record [OF this, of now] obtain r y where
      ry: "note_send_stalled now tid ?M2 = (r, put_outbound tid y ?M2)" "same_stream x2 y"
        "ot_chunks_sent y = ot_chunks_sent x2" "ot_state y = ot_state x2 \<or> ot_state y = Failed" by blast
    have "put_outbound tid y ?M2 = M\<lparr>fm_outbound := (fm_outbound M)(tid \<mapsto> y)\<rparr>" by (simp add: put_outbound_def)
    moreover have "settled u s p x y" using True x2 ry(2-) by (auto simp: settled_def same_stream_def)
    ultimately have "settle_batch now (batch_of tid h u s p) M =
        ((case r of None \<Rightarrow> [] | Some e \<Rightarrow> [Ui_failed tid e]), M\<lparr>fm_outbound := (fm_outbound M)(tid \<mapsto> y)\<rparr>)"
      "settled u s p x y"
      unfolding eq using True ry(1) by simp_all
    then show ?thesis by (cases r) auto
  qed
qed

text \<open>One turn of the pump and its dispatch.\<close>

definition turn :: "file_env \<Rightarrow> os_view \<Rightarrow> disk \<Rightarrow> string \<Rightarrow> nat \<Rightarrow> file_manager \<Rightarrow> file_out list \<times> file_manager" where
  "turn E W D tid budget M = (case pump_stream E W D tid budget M of (evs, _, M1) \<Rightarrow> run_batch now step evs M1)"

lemma turn_sends:
  assumes "fm_outbound M tid = Some x" and "ot_transfer_id x = tid" and "tid \<noteq> []" and "ot_state x = Transferring"
    and "ot_chunks_sent x \<le> ot_total_chunks x" and "turn E W D tid budget M = (outs, M')"
  shows "\<exists>y g. M' = M\<lparr>fm_outbound := (fm_outbound M)(tid \<mapsto> y)\<rparr> \<and> same_stream x y \<and>
    ot_chunks_sent y = ot_chunks_sent x + g \<and> g \<le> budget \<and> ot_chunks_sent y \<le> ot_total_chunks x \<and>
    (\<forall>i \<in> {ot_chunks_sent x..<ot_chunks_sent x + g}. read_chunk W D (ot_source x) i \<noteq> None) \<and>
    msgs outs = map (emit \<circ> chunk_message E W D x) [ot_chunks_sent x..<ot_chunks_sent x + g] @
      (if ot_state y = Completed then [emit (complete_message x)] else []) \<and>
    ot_state y \<in> {Transferring, Completed, Failed} \<and> (ot_state y = Completed \<longrightarrow> ot_chunks_sent y = ot_total_chunks x) \<and>
    ((\<forall>f. passes f) \<and> (\<forall>i < ot_total_chunks x. read_chunk W D (ot_source x) i \<noteq> None) \<longrightarrow>
       (if ot_total_chunks x \<le> ot_chunks_sent x + budget then ot_state y = Completed else ot_state y = Transferring \<and> g = budget))"
proof -
  define k where "k = ot_chunks_sent x"
  obtain evs failed x1 where cl: "chunk_loop E W D budget x = (evs, failed, x1)" by (metis prod_cases3)
  have mx: "max k (ot_total_chunks x) = ot_total_chunks x" using assms(5) by (simp add: k_def)
  from chunk_loop_runs [OF cl, folded k_def, unfolded mx] obtain n where n: "k \<le> n" "n \<le> k + budget" "n \<le> ot_total_chunks x"
    "sends evs = map (chunk_message E W D x) [k..<n]" "\<forall>i \<in> {k..<n}. read_chunk W D (ot_source x) i \<noteq> None"
    "if failed then n < ot_total_chunks x \<and> read_chunk W D (ot_source x) n = None \<and>
        x1 = x\<lparr>ot_chunks_sent := n, ot_state := Failed, ot_finished_at := Some (ov_now W)\<rparr>
     else x1 = x\<lparr>ot_chunks_sent := n\<rparr> \<and> (n = k + budget \<or> ot_total_chunks x \<le> n)"
    by blast
  have len: "length (sends evs) = n - k" using n(4) by simp
  have ev: "\<forall>ev \<in> set evs. stream_event tid ev" "\<forall>f \<in> set (sends evs). fst (snd f) = FileTransferChunk_c"
    using chunk_loop_stream [OF cl] assms(2) n(4) by (auto simp: chunk_message_def)
  from loop_chunks [OF assms(3) ev, of False 0 False False "put_outbound tid x1 M"] obtain outs1 g where
    lo: "dispatch_loop step evs new_batch (put_outbound tid x1 M) =
      (outs1, batch_of tid (g < n - k) (n - k - g) (g < n - k) (0 < g), put_outbound tid x1 M)"
    "msgs outs1 = map emit (take g (sends evs))" "g = length (takeWhile passes (sends evs))"
    by (auto simp: len new_batch_of [of tid])
  have g: "g \<le> n - k" using lo(3) length_takeWhile_le [of passes "sends evs"] len by simp
  have m1: "msgs outs1 = map (emit \<circ> chunk_message E W D x) [k..<k + g]"
    using lo(2) n(4) g n(1) by (simp add: take_map take_upt)
  have all: "g = n - k" if "\<forall>f. passes f" using lo(3) len that by (simp add: takeWhile_eq_all_conv [THEN iffD2])
  have reads: "\<forall>i \<in> {k..<k + g}. read_chunk W D (ot_source x) i \<noteq> None" using n(5) g n(1) by auto
  have same1: "same_stream x x1" and sent1: "ot_chunks_sent x1 = n"
    using n(6) by (auto simp: same_stream_def split: if_splits)
  show ?thesis
  proof (cases "failed \<or> \<not> ot_total_chunks x \<le> n")
    case True
    have p: "pump_stream E W D tid budget M = (evs, failed, put_outbound tid x1 M)"
      using assms(1,4) cl True n(6) by (auto simp: pump_stream_def next_chunk_events_def split: if_splits)
    have st1: "ot_state x1 = (if failed then Failed else Transferring)" using n(6) assms(4) by (auto split: if_splits)
    from settle_stream [of "put_outbound tid x1 M" tid x1 "n - k - g" "g < n - k" "g < n - k" "0 < g"] st1
    obtain outs2 y where s: "settle_batch now (batch_of tid (g < n - k) (n - k - g) (g < n - k) (0 < g)) (put_outbound tid x1 M) =
        (outs2, (put_outbound tid x1 M)\<lparr>fm_outbound := (fm_outbound M)(tid \<mapsto> y)\<rparr>)" "msgs outs2 = []"
        "settled (n - k - g) (g < n - k) (0 < g) x1 y"
      by (auto split: if_splits)
    have r: "outs = outs1 @ outs2" "M' = M\<lparr>fm_outbound := (fm_outbound M)(tid \<mapsto> y)\<rparr>"
      using assms(6) p lo(1) s(1) by (auto simp: turn_def run_batch_def put_outbound_def)
    have y: "ot_chunks_sent y = k + g" "ot_state y = ot_state x1 \<or> g < n - k \<and> ot_state y = Failed" "same_stream x y"
      using s(3) sent1 g n(1) same1 by (auto simp: settled_def same_stream_def)
    show ?thesis
      by (rule exI [of _ y], rule exI [of _ g])
         (use r y s(2) m1 reads n g st1 True all in \<open>auto simp: k_def [symmetric] split: if_splits\<close>)
  next
    case False
    then have f: "\<not> failed" "n = ot_total_chunks x" "x1 = x\<lparr>ot_chunks_sent := n\<rparr>" using n(3,6) by auto
    define fin where "fin = complete_message x"
    have p: "pump_stream E W D tid budget M =
        (evs @ [Ev_SendMessage (ot_peer_id x) FileTransferComplete_c (complete_payload x)], True, put_outbound tid x1 M)"
      using assms(1,4) cl f by (simp add: pump_stream_def next_chunk_events_def complete_payload_def)
    have tid: "tid_of (complete_payload x) = tid" using assms(2) by simp
    define sent where "sent = (g = n - k \<and> passes fin)"
    define M2 where "M2 = (if sent then mark_outbound_complete now tid (put_outbound tid x1 M) else put_outbound tid x1 M)"
    define x2 where "x2 = (if sent then x1\<lparr>ot_state := Completed, ot_finished_at := Some now\<rparr> else x1)"
    define b2 where "b2 = batch_of tid (g < n - k) (n - k - g) (\<not> sent) (0 < g)"
    have last: "step (Ev_SendMessage (ot_peer_id x) FileTransferComplete_c (complete_payload x))
        (batch_of tid (g < n - k) (n - k - g) (g < n - k) (0 < g)) (put_outbound tid x1 M) =
        (if sent then [emit fin] else [], b2, M2)"
    proof (cases "g < n - k")
      case True
      then show ?thesis using held [of "batch_of tid True (n - k - g) True (0 < g)" FileTransferComplete_c] assms(3) tid
        by (simp add: batch_steps b2_def M2_def sent_def)
    next
      case False
      with g have "g = n - k" by simp
      then show ?thesis using last_frame [of "batch_of tid False 0 False (0 < g)" "ot_peer_id x" "complete_payload x"] assms(3) tid
        by (simp add: batch_steps after_send_def b2_def M2_def sent_def fin_def complete_message_def)
    qed
    have loop: "dispatch_loop step (evs @ [Ev_SendMessage (ot_peer_id x) FileTransferComplete_c (complete_payload x)]) new_batch
        (put_outbound tid x1 M) = (outs1 @ (if sent then [emit fin] else []), b2, M2)"
      by (simp only: dispatch_loop_append lo(1) prod.case dispatch_loop.simps last append_Nil2)
    have M2: "fm_outbound M2 tid = Some x2" "M2\<lparr>fm_outbound := (fm_outbound M2)(tid \<mapsto> z)\<rparr> = M\<lparr>fm_outbound := (fm_outbound M)(tid \<mapsto> z)\<rparr>" for z
      by (auto simp: M2_def x2_def mark_outbound_complete_def put_outbound_def)
    have "n - k - g = 0 \<or> ot_state x2 \<noteq> Completed" using f(3) assms(4) by (auto simp: x2_def sent_def)
    from settle_stream [OF M2(1) this, of "g < n - k" "\<not> sent" "0 < g", unfolded M2(2)] obtain outs2 y where
      s: "settle_batch now b2 M2 = (outs2, M\<lparr>fm_outbound := (fm_outbound M)(tid \<mapsto> y)\<rparr>)" "msgs outs2 = []"
        "settled (n - k - g) (\<not> sent) (0 < g) x2 y" by (auto simp: b2_def)
    have r: "outs = (outs1 @ (if sent then [emit fin] else [])) @ outs2" "M' = M\<lparr>fm_outbound := (fm_outbound M)(tid \<mapsto> y)\<rparr>"
      using assms(6) p loop s(1) by (auto simp: turn_def run_batch_def)
    have y: "ot_chunks_sent y = k + g" "same_stream x y" "ot_state y = Completed \<longleftrightarrow> sent" "ot_state y \<in> {Transferring, Completed, Failed}"
      using s(3) g n(1) f(3) assms(4) by (auto simp: settled_def same_stream_def x2_def split: if_splits)
    have "msgs outs = map (emit \<circ> chunk_message E W D x) [k..<k + g] @ (if ot_state y = Completed then [emit (complete_message x)] else [])"
      using r(1) m1 s(2) y(3) by (auto simp: fin_def emits)
    moreover have "sent" if "\<forall>f. passes f" using all [OF that] spec [OF that, of fin] by (simp add: sent_def)
    ultimately show ?thesis
      by (intro exI [of _ y] exI [of _ g]) (use r(2) y reads g n(1,2) f(2) in \<open>auto simp: k_def [symmetric] sent_def\<close>)
  qed
qed

end

section \<open>The two lanes\<close>

definition peer_emit :: "frame \<Rightarrow> file_out" where
  "peer_emit f = (case f of (p, t, m) \<Rightarrow> Out_msg p t m)"

interpretation peers: frame_lane "dispatch_event N now" now "fn_tx N" peer_emit for N now
  by unfold_locales (auto simp: peer_emit_def out_if_def Let_def after_send_def)

text \<open>In a room a chunk passes when it can be sealed and the transport takes it.\<close>

definition room_frame :: "file_env \<Rightarrow> file_net \<Rightarrow> sender_keys_group \<Rightarrow> room_id \<Rightarrow> frame \<Rightarrow> (client_type \<times> payload_map) option" where
  "room_frame E N groups room f =
     (case f of (p, t, m) \<Rightarrow>
        (let m1 = bt_insert ''room_id'' (VStr room) m
         in if t = FileTransferChunk_c then map_option (Pair SfuFileChunk_c) (seal_room_chunk E N groups room m1)
            else Some (SfuFileComplete_c, m1)))"

definition room_passes :: "file_env \<Rightarrow> file_net \<Rightarrow> sender_keys_group \<Rightarrow> peer_id \<Rightarrow> room_id \<Rightarrow> frame \<Rightarrow> bool" where
  "room_passes E N groups supernode room f =
     (case room_frame E N groups room f of None \<Rightarrow> False | Some (t, m) \<Rightarrow> fn_tx N (supernode, t, m))"

definition room_emit :: "file_env \<Rightarrow> file_net \<Rightarrow> sender_keys_group \<Rightarrow> peer_id \<Rightarrow> room_id \<Rightarrow> frame \<Rightarrow> file_out" where
  "room_emit E N groups supernode room f =
     (case room_frame E N groups room f of
        Some (t, m) \<Rightarrow> Out_msg supernode t m
      | None \<Rightarrow> (case f of (p, t, m) \<Rightarrow> Out_msg supernode t m))"

interpretation rooms: frame_lane "dispatch_room_event E N now groups supernode room" now
    "room_passes E N groups supernode room" "room_emit E N groups supernode room" for E N now groups supernode room
  by unfold_locales
     (auto simp: room_passes_def room_emit_def room_frame_def out_if_def Let_def after_send_def split: option.splits prod.splits)

lemma pump_file_turn:
  "pump_file E W N tid st =
     (case peers.turn N (ov_now W) E W (fc_disk st) tid ROOM_FILE_CHUNK_BUDGET (fc_files st) of
        (outs, M) \<Rightarrow> (outs, st\<lparr>fc_files := M\<rparr>))"
  by (auto simp: pump_file_def peers.turn_def with_files_def dispatch_transfer_events_def split: prod.splits)

section \<open>Streams without gaps\<close>

text \<open>A history of pump turns for one transfer, each with its own clock, disk errors and transports.\<close>

fun pump_run :: "file_env \<Rightarrow> string \<Rightarrow> (os_view \<times> file_net) list \<Rightarrow> 'm file_client \<Rightarrow> file_out list \<times> 'm file_client" where
  "pump_run E tid [] st = ([], st)"
| "pump_run E tid ((W, N) # ts) st =
     (case pump_file E W N tid st of (o1, st1) \<Rightarrow> (case pump_run E tid ts st1 of (o2, st2) \<Rightarrow> (o1 @ o2, st2)))"

definition holds_file :: "disk \<Rightarrow> transfer_source \<Rightarrow> bytes \<Rightarrow> bool" where
  "holds_file D src d \<longleftrightarrow> length d < 2 ^ 64 \<and>
     (case src of Inline b \<Rightarrow> b = d | FilePath path len \<Rightarrow> D path = Some d \<and> len = length d)"

lemma read_holds:
  "holds_file D src d \<Longrightarrow> i < chunk_count (length d) \<Longrightarrow> read_chunk W D src i = None \<or> read_chunk W D src i = Some (chunk_of d i)"
  "holds_file D src d \<Longrightarrow> i < chunk_count (length d) \<Longrightarrow> healthy W \<Longrightarrow> read_chunk W D src i \<noteq> None"
proof -
  assume h: "holds_file D src d" "i < chunk_count (length d)"
  show "read_chunk W D src i = None \<or> read_chunk W D src i = Some (chunk_of d i)"
  proof (cases src)
    case (FilePath path len)
    then show ?thesis
    proof (cases "ov_io W (Io_open path)")
      case None
      with FilePath h read_chunk_file [of D path d W i] show ?thesis by (simp add: holds_file_def)
    qed (simp add: FilePath read_chunk_def Let_def)
  qed (use h read_chunk_inline in \<open>simp add: holds_file_def\<close>)
  show "healthy W \<Longrightarrow> read_chunk W D src i \<noteq> None"
    using h read_chunk_inline [of d i] read_chunk_file [of D _ d W i]
    by (cases src) (auto simp: holds_file_def healthy_def)
qed

text \<open>The chunk frame of a stream for piece \<open>i\<close> of a file, as it leaves.\<close>

definition chunk_out :: "file_env \<Rightarrow> outbound_transfer \<Rightarrow> bytes \<Rightarrow> nat \<Rightarrow> file_out" where
  "chunk_out E x d i = Out_msg (ot_peer_id x) FileTransferChunk_c (chunk_payload E x i (chunk_of d i))"

definition complete_out :: "outbound_transfer \<Rightarrow> file_out" where
  "complete_out x = Out_msg (ot_peer_id x) FileTransferComplete_c (complete_payload x)"

lemma same_stream_frames: "same_stream x y \<Longrightarrow> chunk_out E y d i = chunk_out E x d i" "same_stream x y \<Longrightarrow> complete_out y = complete_out x"
  by (simp_all add: same_stream_def chunk_out_def complete_out_def chunk_payload_def complete_payload_def)

lemma pump_file_step:
  assumes "fm_outbound (fc_files st) tid = Some x" and "ot_transfer_id x = tid" and "tid \<noteq> []" and "ot_state x = Transferring"
    and "ot_chunks_sent x \<le> ot_total_chunks x" and "ot_total_chunks x = chunk_count (length d)"
    and "holds_file (fc_disk st) (ot_source x) d" and "pump_file E W N tid st = (outs, st')"
  shows "\<exists>y. fm_outbound (fc_files st') tid = Some y \<and> fc_disk st' = fc_disk st \<and> same_stream x y \<and>
    ot_chunks_sent x \<le> ot_chunks_sent y \<and> ot_chunks_sent y \<le> ot_total_chunks x \<and>
    msgs outs = map (chunk_out E x d) [ot_chunks_sent x..<ot_chunks_sent y] @ (if ot_state y = Completed then [complete_out x] else []) \<and>
    ot_state y \<in> {Transferring, Completed, Failed} \<and> (ot_state y = Completed \<longrightarrow> ot_chunks_sent y = ot_total_chunks x) \<and>
    (healthy W \<and> (\<forall>f. fn_tx N f) \<longrightarrow>
       (if ot_total_chunks x \<le> ot_chunks_sent x + ROOM_FILE_CHUNK_BUDGET then ot_state y = Completed
        else ot_state y = Transferring \<and> ot_chunks_sent y = ot_chunks_sent x + ROOM_FILE_CHUNK_BUDGET))"
proof -
  obtain M' where t: "peers.turn N (ov_now W) E W (fc_disk st) tid ROOM_FILE_CHUNK_BUDGET (fc_files st) = (outs, M')"
      "st' = st\<lparr>fc_files := M'\<rparr>"
    using assms(8) by (auto simp: pump_file_turn split: prod.splits)
  from peers.turn_sends [OF assms(1-5) t(1)] obtain y g where
    y: "M' = (fc_files st)\<lparr>fm_outbound := (fm_outbound (fc_files st))(tid \<mapsto> y)\<rparr>" "same_stream x y"
      "ot_chunks_sent y = ot_chunks_sent x + g" "ot_chunks_sent y \<le> ot_total_chunks x"
      "\<forall>i \<in> {ot_chunks_sent x..<ot_chunks_sent x + g}. read_chunk W (fc_disk st) (ot_source x) i \<noteq> None"
      "msgs outs = map (peer_emit \<circ> chunk_message E W (fc_disk st) x) [ot_chunks_sent x..<ot_chunks_sent x + g] @
        (if ot_state y = Completed then [peer_emit (complete_message x)] else [])"
      "ot_state y \<in> {Transferring, Completed, Failed}" "ot_state y = Completed \<longrightarrow> ot_chunks_sent y = ot_total_chunks x"
      "(\<forall>f. fn_tx N f) \<and> (\<forall>i < ot_total_chunks x. read_chunk W (fc_disk st) (ot_source x) i \<noteq> None) \<longrightarrow>
         (if ot_total_chunks x \<le> ot_chunks_sent x + ROOM_FILE_CHUNK_BUDGET then ot_state y = Completed
          else ot_state y = Transferring \<and> g = ROOM_FILE_CHUNK_BUDGET)"
    by blast
  have "peer_emit (chunk_message E W (fc_disk st) x i) = chunk_out E x d i"
    if "i \<in> {ot_chunks_sent x..<ot_chunks_sent x + g}" for i
  proof -
    have i: "i < chunk_count (length d)" using that y(3,4) assms(6) by simp
    have "read_chunk W (fc_disk st) (ot_source x) i = Some (chunk_of d i)"
      using bspec [OF y(5) that] read_holds(1) [OF assms(7) i, of W] by auto
    then show ?thesis by (simp add: peer_emit_def chunk_message_def chunk_out_def)
  qed
  then have "map (peer_emit \<circ> chunk_message E W (fc_disk st) x) [ot_chunks_sent x..<ot_chunks_sent x + g] =
      map (chunk_out E x d) [ot_chunks_sent x..<ot_chunks_sent y]" using y(3) by auto
  moreover have "peer_emit (complete_message x) = complete_out x"
    by (simp add: peer_emit_def complete_message_def complete_out_def)
  ultimately have m: "msgs outs = map (chunk_out E x d) [ot_chunks_sent x..<ot_chunks_sent y] @
      (if ot_state y = Completed then [complete_out x] else [])" using y(6) by simp
  have live: "healthy W \<and> (\<forall>f. fn_tx N f) \<longrightarrow>
      (if ot_total_chunks x \<le> ot_chunks_sent x + ROOM_FILE_CHUNK_BUDGET then ot_state y = Completed
       else ot_state y = Transferring \<and> ot_chunks_sent y = ot_chunks_sent x + ROOM_FILE_CHUNK_BUDGET)"
  proof
    assume h: "healthy W \<and> (\<forall>f. fn_tx N f)"
    have "\<forall>i < ot_total_chunks x. read_chunk W (fc_disk st) (ot_source x) i \<noteq> None"
      unfolding assms(6) using read_holds(2) [OF assms(7)] h by blast
    with h y(9) have "if ot_total_chunks x \<le> ot_chunks_sent x + ROOM_FILE_CHUNK_BUDGET then ot_state y = Completed
        else ot_state y = Transferring \<and> g = ROOM_FILE_CHUNK_BUDGET" by blast
    with y(3) show "if ot_total_chunks x \<le> ot_chunks_sent x + ROOM_FILE_CHUNK_BUDGET then ot_state y = Completed
        else ot_state y = Transferring \<and> ot_chunks_sent y = ot_chunks_sent x + ROOM_FILE_CHUNK_BUDGET" by simp
  qed
  have st': "fm_outbound (fc_files st') tid = Some y" "fc_disk st' = fc_disk st" using t(2) y(1) by simp_all
  have le: "ot_chunks_sent x \<le> ot_chunks_sent y" using y(3) by simp
  show ?thesis by (rule exI [of _ y]) (intro conjI st' y(2) le y(4) m y(7,8) live)
qed

lemma pump_done: "fm_outbound (fc_files st) tid = Some x \<Longrightarrow> ot_state x \<noteq> Transferring \<Longrightarrow> pump_run E tid ts st = ([], st)"
proof (induction ts)
  case (Cons t ts)
  then have "pump_file E (fst t) (snd t) tid st = ([], st)"
    by (simp add: pump_file_def pump_stream_def with_files_def dispatch_transfer_events_def run_batch_def settle_batch_def new_batch_def)
  with Cons show ?case by (cases t) simp
qed simp

lemma pump_run_sends:
  assumes "fm_outbound (fc_files st) tid = Some x" and "ot_transfer_id x = tid" and "tid \<noteq> []" and "ot_state x = Transferring"
    and "ot_chunks_sent x \<le> ot_total_chunks x" and "ot_total_chunks x = chunk_count (length d)"
    and "holds_file (fc_disk st) (ot_source x) d" and "pump_run E tid ts st = (outs, st')"
  shows "\<exists>y. fm_outbound (fc_files st') tid = Some y \<and> same_stream x y \<and>
    ot_chunks_sent x \<le> ot_chunks_sent y \<and> ot_chunks_sent y \<le> ot_total_chunks x \<and>
    msgs outs = map (chunk_out E x d) [ot_chunks_sent x..<ot_chunks_sent y] @ (if ot_state y = Completed then [complete_out x] else []) \<and>
    ot_state y \<in> {Transferring, Completed, Failed} \<and> (ot_state y = Completed \<longrightarrow> ot_chunks_sent y = ot_total_chunks x) \<and>
    ((\<forall>(W, N) \<in> set ts. healthy W \<and> (\<forall>f. fn_tx N f)) \<and> ts \<noteq> [] \<and>
       ot_total_chunks x \<le> ot_chunks_sent x + length ts * ROOM_FILE_CHUNK_BUDGET \<longrightarrow> ot_state y = Completed)"
  using assms
proof (induction ts arbitrary: st x outs st')
  case Nil
  then show ?case by (auto simp: same_stream_def)
next
  case (Cons t ts)
  obtain W N where t: "t = (W, N)" by (cases t)
  obtain o1 st1 where p: "pump_file E W N tid st = (o1, st1)" by fastforce
  obtain o2 st2 where r: "pump_run E tid ts st1 = (o2, st2)" by fastforce
  have out: "outs = o1 @ o2" "st' = st2" using Cons.prems(8) t p r by auto
  from pump_file_step [OF Cons.prems(1-7) p] obtain y where
    y: "fm_outbound (fc_files st1) tid = Some y" "fc_disk st1 = fc_disk st" "same_stream x y"
      "ot_chunks_sent x \<le> ot_chunks_sent y" "ot_chunks_sent y \<le> ot_total_chunks x"
      "msgs o1 = map (chunk_out E x d) [ot_chunks_sent x..<ot_chunks_sent y] @ (if ot_state y = Completed then [complete_out x] else [])"
      "ot_state y \<in> {Transferring, Completed, Failed}" "ot_state y = Completed \<longrightarrow> ot_chunks_sent y = ot_total_chunks x"
      "healthy W \<and> (\<forall>f. fn_tx N f) \<longrightarrow>
        (if ot_total_chunks x \<le> ot_chunks_sent x + ROOM_FILE_CHUNK_BUDGET then ot_state y = Completed
         else ot_state y = Transferring \<and> ot_chunks_sent y = ot_chunks_sent x + ROOM_FILE_CHUNK_BUDGET)"
    by blast
  show ?case
  proof (cases "ot_state y = Transferring")
    case False
    with pump_done [OF y(1)] r have "o2 = []" "st2 = st1" by auto
    with False y out t show ?thesis by (intro exI [of _ y]) (auto split: if_splits)
  next
    case True
    have s: "ot_transfer_id y = tid" "ot_total_chunks y = ot_total_chunks x" "ot_source y = ot_source x"
      using y(3) Cons.prems(2) by (simp_all add: same_stream_def)
    from Cons.IH [OF y(1) s(1) Cons.prems(3) True _ _ _ r] s y(2,5) Cons.prems(6,7) obtain z where
      z: "fm_outbound (fc_files st2) tid = Some z" "same_stream y z" "ot_chunks_sent y \<le> ot_chunks_sent z" "ot_chunks_sent z \<le> ot_total_chunks x"
        "msgs o2 = map (chunk_out E y d) [ot_chunks_sent y..<ot_chunks_sent z] @ (if ot_state z = Completed then [complete_out y] else [])"
        "ot_state z \<in> {Transferring, Completed, Failed}" "ot_state z = Completed \<longrightarrow> ot_chunks_sent z = ot_total_chunks x"
        "(\<forall>(W, N) \<in> set ts. healthy W \<and> (\<forall>f. fn_tx N f)) \<and> ts \<noteq> [] \<and>
           ot_total_chunks x \<le> ot_chunks_sent y + length ts * ROOM_FILE_CHUNK_BUDGET \<longrightarrow> ot_state z = Completed"
      by (simp del: prod.case) blast
    have fr: "chunk_out E y d = chunk_out E x d" "complete_out y = complete_out x"
      using same_stream_frames [OF y(3)] by (auto simp: fun_eq_iff)
    have up: "[ot_chunks_sent x..<ot_chunks_sent y] @ [ot_chunks_sent y..<ot_chunks_sent z] = [ot_chunks_sent x..<ot_chunks_sent z]"
      using y(4) z(3) by (metis le_add_diff_inverse upt_add_eq_append)
    have "msgs outs = map (chunk_out E x d) [ot_chunks_sent x..<ot_chunks_sent z] @ (if ot_state z = Completed then [complete_out x] else [])"
      using out(1) y(6) z(5) True by (simp add: fr flip: up)
    moreover have "same_stream x z" using y(3) z(2) by (simp add: same_stream_def)
    moreover have "ot_state z = Completed" if "\<forall>(W, N) \<in> set (t # ts). healthy W \<and> (\<forall>f. fn_tx N f)"
      "ot_total_chunks x \<le> ot_chunks_sent x + length (t # ts) * ROOM_FILE_CHUNK_BUDGET"
      using that t y(9) z(8) True by (cases "ts = []") (auto split: if_splits)
    ultimately show ?thesis using z y(4) out(2) by (intro exI [of _ z]) auto
  qed
qed

end
