(* ===== verification/File_Properties.thy ===== *)
theory File_Properties
  imports File_Streams
begin

text \<open>
  Properties of file transfers: verification, streams without gaps, delivery from the command of the
  sender to the file of the receiver, and what a peer can do to the transfers of others.
\<close>

section \<open>Verification\<close>


definition xfer_env :: file_env where
  "xfer_env = \<lparr>fe_crates = plain_crates, fe_zlib = plain_zlib, fe_b64_encode = string_of_bytes,
     fe_b64_decode = (\<lambda>s. Some (as_bytes s)), fe_download_dir = ''/dl''\<rparr>"

lemma xfer_env_ok: "file_env_ok xfer_env"
  by (simp add: file_env_ok_def xfer_env_def plain_zlib_ok plain_crates_ok)
     (simp add: plain_zlib_def string_of_bytes_def)

definition demo_os :: os_view where
  "demo_os = \<lparr>ov_now = 0, ov_io = (\<lambda>_. None)\<rparr>"

lemma demo_os_healthy: "healthy demo_os"
  by (simp add: healthy_def demo_os_def)

definition demo_offer :: "string \<Rightarrow> file_offer" where
  "demo_offer sha = \<lparr>fo_transfer_id = ''t'', fo_rel_path = ''a.txt'', fo_sha256 = sha, fo_size = 2, fo_total_chunks = 1,
     fo_purpose = ''update'', fo_compressed = False, fo_is_delta = False, fo_base_sha256 = []\<rparr>"

definition demo_manager :: file_manager where
  "demo_manager = put_inbound ''t''
     ((new_inbound 0 ''bob'' [] [] (demo_offer (sha256_hex plain_crates [7, 8])) (Memory (Map.empty(0 \<mapsto> [7, 8])))))
     new_file_manager"

lemma demo_manager_sel:
  "fm_inbound demo_manager ''t'' =
     Some (new_inbound 0 ''bob'' [] [] (demo_offer (sha256_hex plain_crates [7, 8])) (Memory (Map.empty(0 \<mapsto> [7, 8]))))"
  by (simp add: demo_manager_def)

lemma demo_completes:
  "\<exists>evs M' D'. on_complete_received xfer_env demo_os ''t'' demo_manager Map.empty = Some (evs, M', D') \<and>
     (''t'', Bytes [7, 8]) \<in> set (completions evs)"
  unfolding on_complete_received_def finish_inbound_def demo_manager_sel
  by (simp add: new_inbound_def demo_offer_def chunks_received_def msize_def it_is_streaming_def reassemble_def
      decode_payload_def xfer_env_def complete_inbound_def Let_def)


section \<open>Streams\<close>


definition demo_net :: file_net where
  "demo_net = \<lparr>fn_me = ''ann'', fn_trusted = (\<lambda>_. True), fn_route = id, fn_tx = (\<lambda>_. True), fn_kdf = plain_kdf,
     fn_nonce = (\<lambda>_. replicate 12 1), fn_instant = 0\<rparr>"

definition demo_outbound :: outbound_transfer where
  "demo_outbound = (new_outbound 0 ''bob'' ''a.txt'' (Inline [7, 8])
     \<lparr>om_transfer_id = ''t'', om_original_sha = sha256_hex plain_crates [7, 8], om_original_size = 2, om_payload_len = 2,
      om_purpose = ''file'', om_compressed = False, om_is_delta = False, om_base_sha256 = []\<rparr>)\<lparr>ot_state := Transferring\<rparr>"

definition demo_client :: "file_manager \<Rightarrow> file_manager \<Rightarrow> unit file_client" where
  "demo_client F R = \<lparr>fc_files = F, fc_rooms = R, fc_disk = Map.empty, fc_features = new_registry, fc_groups = Map.empty,
     fc_current_supernode = ''sn''\<rparr>"


end
