(* ===== verification/File_Handover.thy ===== *)
theory File_Handover
  imports File_Properties
begin

text \<open>
  A file from the command of its sender to the receiver: the offer, its acceptance and the frames of
  the stream, as messages between two clients.
\<close>

section \<open>Batches without stream frames\<close>

fun ui_completions :: "file_out list \<Rightarrow> (string \<times> transfer_payload) list" where
  "ui_completions [] = []"
| "ui_completions (Ui_complete tid p r sn pu pl rel # outs) = (tid, pl) # ui_completions outs"
| "ui_completions (_ # outs) = ui_completions outs"

fun ui_failures :: "file_out list \<Rightarrow> (string \<times> string) list" where
  "ui_failures [] = []"
| "ui_failures (Ui_failed tid e # outs) = (tid, e) # ui_failures outs"
| "ui_failures (_ # outs) = ui_failures outs"

lemma ui_append [simp]: "ui_completions (a @ b) = ui_completions a @ ui_completions b" "ui_failures (a @ b) = ui_failures a @ ui_failures b"
proof -
  show "ui_completions (a @ b) = ui_completions a @ ui_completions b" by (induction a rule: ui_completions.induct) auto
  show "ui_failures (a @ b) = ui_failures a @ ui_failures b" by (induction a rule: ui_failures.induct) auto
qed

definition stream_free :: "transfer_event list \<Rightarrow> bool" where
  "stream_free evs \<longleftrightarrow> (\<forall>(p, t, m) \<in> set (sends evs). t \<noteq> FileTransferChunk_c \<and> t \<noteq> FileTransferComplete_c)"

lemma dispatch_stream_free:
  "stream_free evs \<Longrightarrow> \<exists>outs. dispatch_loop (dispatch_event N now) evs b M = (outs, b, M) \<and>
     ui_completions outs = completions evs \<and> ui_failures outs = failures evs \<and> msgs outs = map peer_emit (filter (fn_tx N) (sends evs))"
proof (induction evs)
  case (Cons ev evs)
  then have r: "stream_free evs" by (cases ev) (auto simp: stream_free_def)
  from Cons.IH [OF r] obtain outs where o: "dispatch_loop (dispatch_event N now) evs b M = (outs, b, M)"
    "ui_completions outs = completions evs" "ui_failures outs = failures evs" "msgs outs = map peer_emit (filter (fn_tx N) (sends evs))" by blast
  show ?case
    using Cons.prems o by (cases ev) (auto simp: stream_free_def after_send_def out_if_def Let_def peer_emit_def)
qed simp

lemma with_files_stream_free:
  assumes "stream_free evs"
  shows "\<exists>outs. with_files W N st (evs, M, D) = (outs, st\<lparr>fc_files := M, fc_disk := D\<rparr>) \<and>
    ui_completions outs = completions evs \<and> ui_failures outs = failures evs \<and> msgs outs = map peer_emit (filter (fn_tx N) (sends evs))"
proof -
  from dispatch_stream_free [OF assms, of N "ov_now W" new_batch M] obtain outs where
    "dispatch_loop (dispatch_event N (ov_now W)) evs new_batch M = (outs, new_batch, M)"
    "ui_completions outs = completions evs" "ui_failures outs = failures evs" "msgs outs = map peer_emit (filter (fn_tx N) (sends evs))" by blast
  then show ?thesis
    by (auto simp: with_files_def dispatch_transfer_events_def run_batch_def settle_batch_def new_batch_def)
qed

section \<open>The receiver of a stream\<close>

definition file_message :: "peer_id \<Rightarrow> client_type \<Rightarrow> payload_map \<Rightarrow> client_message" where
  "file_message sender t payload = (client_new_message 0 t sender)\<lparr>cm_payload := payload\<rparr>"

lemma file_message_sel [simp]:
  "cm_type (file_message s t p) = t" "cm_sender (file_message s t p) = s" "cm_payload (file_message s t p) = p"
  by (simp_all add: file_message_def client_new_message_def)

text \<open>Messages one after the other, each with its own view of the system and the network.\<close>

fun receive_all :: "file_env \<Rightarrow> (os_view \<times> file_net \<times> client_message) list \<Rightarrow> 'm file_client \<Rightarrow> (file_out list \<times> 'm file_client) option" where
  "receive_all E [] st = Some ([], st)"
| "receive_all E ((W, N, m) # ms) st =
     (case on_file_message E W N m st of
        None \<Rightarrow> None
      | Some (outs, st1) \<Rightarrow>
          (case receive_all E ms st1 of None \<Rightarrow> None | Some (outs', st2) \<Rightarrow> Some (outs @ outs', st2)))"

text \<open>The receiver answers a frame without stream frames of its own and keeps the record.\<close>

definition tame :: "string \<Rightarrow> (transfer_event list \<times> file_manager \<times> disk) option \<Rightarrow> bool" where
  "tame tid r \<longleftrightarrow> (\<forall>evs M D. r = Some (evs, M, D) \<longrightarrow> stream_free evs \<and> fm_inbound M tid \<noteq> None)"

lemma tame_simps [simp]:
  "tame tid None" "tame tid (Some (evs, M, D)) \<longleftrightarrow> stream_free evs \<and> fm_inbound M tid \<noteq> None" "stream_free []"
  "stream_free (Ev_Progress t q # evs) = stream_free evs"
  by (auto simp: tame_def stream_free_def)

lemma tame_fail [simp]: "fm_inbound M tid \<noteq> None \<Longrightarrow> tame tid (Some (fail_inbound W tid e M D))"
  by (auto simp: tame_def fail_inbound_def stream_free_def Let_def split: option.splits prod.splits)

lemma tame_complete [simp]: "tame tid (case complete_inbound W tid pl x M of (evs, M') \<Rightarrow> Some (evs, M', D))"
  by (simp add: complete_inbound_def stream_free_def)

lemma finish_tame:
  assumes "fm_inbound M tid \<noteq> None"
  shows "tame tid (finish_inbound E W tid M D)"
proof -
  have "tame tid (finish_streaming E W tid M D)"
    using assms by (auto simp: finish_streaming_def Let_def split: option.splits transfer_sink.splits sum.splits)
  then show ?thesis using assms by (auto simp: finish_inbound_def Let_def split: option.splits sum.splits)
qed

lemma rx_step_tame: "fm_inbound M tid \<noteq> None \<Longrightarrow> tame tid (rx_step E W tid r M D)"
  by (cases r) (auto simp: on_chunk_bytes_received_def on_complete_received_def Let_def finish_tame split: prod.splits)

lemma chunk_payload_fields:
  "get_str ''data'' (VObj (chunk_payload E x i c)) = Some (fe_b64_encode E c)"
  "i < 2 ^ 64 \<Longrightarrow> get_u64_or 0 ''chunk_index'' (VObj (chunk_payload E x i c)) = i"
  by (simp_all add: chunk_payload_def to_field_def get_str_def get_u64_or_def bt_of_map_of unat_of_nat)

lemma on_stream_frame:
  assumes "file_env_ok E" and "fn_trusted N sender" and "fm_inbound (fc_files st) tid \<noteq> None" and "ot_transfer_id x = tid"
  shows "i < 2 ^ 64 \<Longrightarrow> on_file_message E W N (file_message sender FileTransferChunk_c (chunk_payload E x i c)) st =
      map_option (with_files W N st) (rx_step E W tid (Rx_chunk i c) (fc_files st) (fc_disk st))"
    and "on_file_message E W N (file_message sender FileTransferComplete_c (complete_payload x)) st =
      map_option (with_files W N st) (rx_step E W tid Rx_complete (fc_files st) (fc_disk st))"
proof -
  assume i: "i < 2 ^ 64"
  have "fe_b64_decode E (fe_b64_encode E c) = Some c" using assms(1) by (simp add: file_env_ok_def)
  then show "on_file_message E W N (file_message sender FileTransferChunk_c (chunk_payload E x i c)) st =
      map_option (with_files W N st) (rx_step E W tid (Rx_chunk i c) (fc_files st) (fc_disk st))"
    using assms(2-4)
    by (simp add: chunk_payload_fields(1) chunk_payload_fields(2) [OF i] on_file_message_def on_file_chunk_def has_inbound_def on_chunk_received_def get_str_or_def Let_def)
qed (use assms in \<open>simp add: on_file_message_def Let_def\<close>)

definition frame_of :: "file_env \<Rightarrow> peer_id \<Rightarrow> outbound_transfer \<Rightarrow> rx \<Rightarrow> client_message" where
  "frame_of E sender x r = (case r of
       Rx_chunk i c \<Rightarrow> file_message sender FileTransferChunk_c (chunk_payload E x i c)
     | Rx_complete \<Rightarrow> file_message sender FileTransferComplete_c (complete_payload x))"

lemma receive_all_rx:
  assumes "file_env_ok E" and "ot_transfer_id x = tid"
    and "\<forall>(W, N, r) \<in> set ms. fn_trusted N sender \<and> (\<forall>i c. r = Rx_chunk i c \<longrightarrow> i < 2 ^ 64)"
    and "fm_inbound (fc_files st) tid \<noteq> None"
    and "rx_run E tid (map (\<lambda>(W, N, r). (W, r)) ms) (fc_files st) (fc_disk st) = Some (evs, M, D)"
  shows "\<exists>outs. receive_all E (map (\<lambda>(W, N, r). (W, N, frame_of E sender x r)) ms) st = Some (outs, st\<lparr>fc_files := M, fc_disk := D\<rparr>) \<and>
    ui_completions outs = completions evs \<and> ui_failures outs = failures evs"
  using assms(3-)
proof (induction ms arbitrary: st evs M D)
  case (Cons a ms)
  obtain W N r where a: "a = (W, N, r)" by (cases a)
  obtain evs1 M1 D1 evs2 where s: "rx_step E W tid r (fc_files st) (fc_disk st) = Some (evs1, M1, D1)"
      "rx_run E tid (map (\<lambda>(W, N, r). (W, r)) ms) M1 D1 = Some (evs2, M, D)" "evs = evs1 @ evs2"
    using Cons.prems(3) a by (auto split: option.splits)
  have t: "stream_free evs1" "fm_inbound M1 tid \<noteq> None"
    using rx_step_tame [OF Cons.prems(2), of E W r "fc_disk st"] s(1) by auto
  obtain o1 where o1: "with_files W N st (evs1, M1, D1) = (o1, st\<lparr>fc_files := M1, fc_disk := D1\<rparr>)"
      "ui_completions o1 = completions evs1" "ui_failures o1 = failures evs1"
    using with_files_stream_free [OF t(1)] by blast
  have "on_file_message E W N (frame_of E sender x r) st = Some (o1, st\<lparr>fc_files := M1, fc_disk := D1\<rparr>)"
    using on_stream_frame [OF assms(1) _ Cons.prems(2) assms(2)] Cons.prems(1) a s(1) o1(1)
    by (cases r) (auto simp: frame_of_def simp del: rx_step.simps)
  moreover obtain o2 where "receive_all E (map (\<lambda>(W, N, r). (W, N, frame_of E sender x r)) ms) (st\<lparr>fc_files := M1, fc_disk := D1\<rparr>) =
      Some (o2, st\<lparr>fc_files := M, fc_disk := D\<rparr>)" "ui_completions o2 = completions evs2" "ui_failures o2 = failures evs2"
    using Cons.IH [of "st\<lparr>fc_files := M1, fc_disk := D1\<rparr>" evs2 M D] Cons.prems(1) t(2) s(2) by auto
  ultimately show ?case using o1 s(3) by (simp add: a)
qed simp

section \<open>The offer\<close>

text \<open>What an offer for a file says, and the payload behind it.\<close>

definition offers :: "file_env \<Rightarrow> bytes option \<Rightarrow> bytes \<Rightarrow> bytes \<Rightarrow> string \<Rightarrow> offer_meta \<Rightarrow> bool" where
  "offers E old data payload tid meta \<longleftrightarrow>
     om_transfer_id meta = tid \<and> om_original_sha meta = sha256_hex (fe_crates E) data \<and> om_original_size meta = length data \<and>
     om_payload_len meta = length payload \<and>
     (if INLINE_MAX < length data then payload = data \<and> \<not> om_compressed meta \<and> \<not> om_is_delta meta
      else encode_payload (fe_crates E) (fe_zlib E) old data = (payload, om_compressed meta, om_is_delta meta, om_base_sha256 meta))"

lemma chunk_count_bound: "m \<le> n + CHUNK_SIZE \<Longrightarrow> chunk_count m \<le> chunk_count n + 1"
proof -
  assume "m \<le> n + CHUNK_SIZE"
  then have "(m + CHUNK_SIZE - 1) div CHUNK_SIZE \<le> (n + CHUNK_SIZE - 1 + CHUNK_SIZE) div CHUNK_SIZE"
    by (intro div_le_mono) linarith
  also have "\<dots> = (n + CHUNK_SIZE - 1) div CHUNK_SIZE + 1" by simp
  finally show ?thesis by (auto simp: chunk_count_def)
qed

lemma chunk_count_small: "n \<le> 2 * MAX_TRANSFER_SIZE \<Longrightarrow> chunk_count n < 2 ^ 64"
proof -
  assume "n \<le> 2 * MAX_TRANSFER_SIZE"
  moreover have "(n + CHUNK_SIZE - 1) div CHUNK_SIZE \<le> n + CHUNK_SIZE - 1" by (rule div_le_dividend)
  ultimately show ?thesis by (auto simp: chunk_count_def MAX_TRANSFER_SIZE_def CHUNK_SIZE_def)
qed

lemma offers_payload:
  assumes "file_env_ok E" and "offers E old data payload tid meta" and "length data \<le> MAX_TRANSFER_SIZE"
    and "\<forall>b. old = Some b \<longrightarrow> length b < 2 ^ 32"
  shows "length payload \<le> length data + CHUNK_SIZE" "length payload < 2 ^ 64"
    and "\<not> INLINE_MAX < length data \<Longrightarrow> (om_is_delta meta \<longrightarrow> old' = old) \<Longrightarrow>
      decode_payload (fe_zlib E) old' rel (om_compressed meta) (om_is_delta meta) payload = Inr data"
proof -
  have bound: "length payload \<le> length data + CHUNK_SIZE"
  proof (cases "INLINE_MAX < length data")
    case False
    then have e: "encode_payload (fe_crates E) (fe_zlib E) old data = (payload, om_compressed meta, om_is_delta meta, om_base_sha256 meta)"
      and z: "zlib_ok (fe_zlib E)" "length data \<le> INLINE_MAX" using assms(1,2) by (auto simp: offers_def file_env_ok_def)
    from payload_roundtrip [OF z assms(4) e, of old] have
      "\<not> om_is_delta meta \<longrightarrow> length payload \<le> length data"
      "om_is_delta meta \<longrightarrow> (\<exists>full. zl_compress (fe_zlib E) data 6 = Inr full \<and> length payload < length full)" by auto
    moreover have "length full \<le> length data + 65536" if "zl_compress (fe_zlib E) data 6 = Inr full" for full
      using assms(1) z(2) that by (auto simp: file_env_ok_def)
    ultimately show ?thesis by (cases "om_is_delta meta") (fastforce simp: CHUNK_SIZE_def)+
  qed (use assms(2) in \<open>simp add: offers_def\<close>)
  then show "length payload \<le> length data + CHUNK_SIZE" .
  show "length payload < 2 ^ 64" using bound assms(3) by (simp add: MAX_TRANSFER_SIZE_def CHUNK_SIZE_def)
  show "decode_payload (fe_zlib E) old' rel (om_compressed meta) (om_is_delta meta) payload = Inr data"
    if "\<not> INLINE_MAX < length data" "om_is_delta meta \<longrightarrow> old' = old"
    using payload_roundtrip [OF _ _ assms(4), of "fe_zlib E" data "fe_crates E" payload "om_compressed meta" "om_is_delta meta"
        "om_base_sha256 meta" old' rel] that assms(1,2) by (simp add: offers_def file_env_ok_def)
qed

lemma send_file_offers:
  assumes "healthy W" and "fc_disk A path = Some data" and "length data \<le> MAX_TRANSFER_SIZE"
    and "send_file E W N fid peer rel path tid purpose A = (outs, A')"
  shows "\<exists>src payload meta. offers E (fm_old_data (fc_files A) rel) data payload tid meta \<and> om_purpose meta = purpose \<and>
    (case src of Inline b \<Rightarrow> b = payload | FilePath p n \<Rightarrow> fc_disk A p = Some payload \<and> n = length payload) \<and>
    A' = A\<lparr>fc_files := put_outbound tid (new_outbound (ov_now W) peer rel src meta) (fc_files A)\<rparr> \<and>
    msgs outs = map peer_emit (filter (fn_tx N) [(peer, FileTransferOffer_c, offer_payload rel meta)])"
proof -
  have io: "ov_io W c = None" for c using assms(1) by (simp add: healthy_def)
  have stat: "os_stat W (fc_disk A) path = Inr (length data)" using assms(2) by (simp add: os_stat_def io)
  have hand: "\<exists>outs1. with_files W N A ([Ev_SendMessage peer FileTransferOffer_c pl], M, fc_disk A) = (outs1, A\<lparr>fc_files := M\<rparr>) \<and>
      msgs outs1 = map peer_emit (filter (fn_tx N) [(peer, FileTransferOffer_c, pl)])" for pl M
    using with_files_stream_free [of "[Ev_SendMessage peer FileTransferOffer_c pl]" W N A M "fc_disk A"]
    by (auto simp: stream_free_def)
  show ?thesis
  proof (cases "INLINE_MAX < length data")
    case True
    define meta where "meta = \<lparr>om_transfer_id = tid, om_original_sha = sha256_hex (fe_crates E) data, om_original_size = length data,
      om_payload_len = length data, om_purpose = purpose, om_compressed = False, om_is_delta = False, om_base_sha256 = []\<rparr>"
    have "offer_file_from_path_with_id E W (fc_disk A) fid peer rel path purpose False (Some tid) (fc_files A) =
        (Inr (tid, [Ev_SendMessage peer FileTransferOffer_c (offer_payload rel meta)]),
         put_outbound tid (new_outbound (ov_now W) peer rel (FilePath path (length data)) meta) (fc_files A))"
      using assms(2,3) stat
      by (simp add: offer_file_from_path_with_id_def sha256_hex_file_def io insert_offer_def Let_def meta_def)
    with assms(4) True stat hand [of "offer_payload rel meta"
        "put_outbound tid (new_outbound (ov_now W) peer rel (FilePath path (length data)) meta) (fc_files A)"]
    have "A' = A\<lparr>fc_files := put_outbound tid (new_outbound (ov_now W) peer rel (FilePath path (length data)) meta) (fc_files A)\<rparr> \<and>
        msgs outs = map peer_emit (filter (fn_tx N) [(peer, FileTransferOffer_c, offer_payload rel meta)])"
      by (auto simp: send_file_def Let_def split: prod.splits)
    moreover have "offers E (fm_old_data (fc_files A) rel) data data tid meta" using True by (simp add: offers_def meta_def)
    ultimately show ?thesis using assms(2)
      by (intro exI [of _ "FilePath path (length data)"] exI [of _ data] exI [of _ meta]) (simp add: meta_def)
  next
    case False
    obtain payload compressed is_delta base where
      e: "encode_payload (fe_crates E) (fe_zlib E) (fm_old_data (fc_files A) rel) data = (payload, compressed, is_delta, base)"
      by (metis prod_cases4)
    define meta where "meta = \<lparr>om_transfer_id = tid, om_original_sha = sha256_hex (fe_crates E) data, om_original_size = length data,
      om_payload_len = length payload, om_purpose = purpose, om_compressed = compressed, om_is_delta = is_delta, om_base_sha256 = base\<rparr>"
    have "offer_file_with_id E W (fc_disk A) fid peer rel data purpose (get_old_data rel (fc_files A)) False (Some tid) (fc_files A) =
        (Inr (tid, [Ev_SendMessage peer FileTransferOffer_c (offer_payload rel meta)]),
         put_outbound tid (new_outbound (ov_now W) peer rel (Inline payload) meta) (fc_files A))"
      using False e by (simp add: offer_file_with_id_def get_old_data_def insert_offer_def Let_def meta_def)
    with assms(2,4) False stat hand [of "offer_payload rel meta"
        "put_outbound tid (new_outbound (ov_now W) peer rel (Inline payload) meta) (fc_files A)"]
    have "A' = A\<lparr>fc_files := put_outbound tid (new_outbound (ov_now W) peer rel (Inline payload) meta) (fc_files A)\<rparr> \<and>
        msgs outs = map peer_emit (filter (fn_tx N) [(peer, FileTransferOffer_c, offer_payload rel meta)])"
      by (auto simp: send_file_def Let_def io split: prod.splits)
    moreover have "offers E (fm_old_data (fc_files A) rel) data payload tid meta" using False e by (simp add: offers_def meta_def)
    ultimately show ?thesis
      by (intro exI [of _ "Inline payload"] exI [of _ payload] exI [of _ meta]) (simp add: meta_def)
  qed
qed

lemma parse_offer_payload:
  assumes "om_transfer_id meta \<noteq> []" and "om_original_sha meta \<noteq> []" and "om_original_size meta < 2 ^ 64"
    and "chunk_count (om_payload_len meta) < 2 ^ 64"
  shows "parse_offer dr dp (offer_payload rel meta) =
    Some \<lparr>fo_transfer_id = om_transfer_id meta, fo_rel_path = rel, fo_sha256 = om_original_sha meta, fo_size = om_original_size meta,
      fo_total_chunks = chunk_count (om_payload_len meta), fo_purpose = om_purpose meta, fo_compressed = om_compressed meta,
      fo_is_delta = om_is_delta meta, fo_base_sha256 = om_base_sha256 meta\<rparr>"
  using assms
  by (simp add: parse_offer_def offer_payload_def Let_def get_str_def get_str_or_def get_u64_def get_u64_or_def get_bool_def
      bt_of_map_of unat_of_nat)

lemma empty_sink_agrees:
  "sink_agrees payload D {} (Memory Map.empty)"
  "D path = Some [] \<Longrightarrow> sink_agrees payload D {} (PartFile True path (replicate (chunk_count (length payload)) False) 0)"
  by (auto simp: mem_agrees_def part_agrees_def part_got_def)

text \<open>Receiving the offer and accepting it: the transfer waits for all pieces of the payload.\<close>

lemma offer_accepted:
  assumes "file_env_ok E" and "offers E old data payload tid meta" and "length data \<le> MAX_TRANSFER_SIZE" and "tid \<noteq> []"
    and "\<forall>b. old = Some b \<longrightarrow> length b < 2 ^ 32" and "healthy W" and "fn_trusted N sender"
    and "gate_feature N ''core.file.v1'' sender [] B = (True, B0)" and "om_is_delta meta \<longrightarrow> fm_old_data (fc_files B) rel = old"
    and "on_file_message E W N (file_message sender FileTransferOffer_c (offer_payload rel meta)) B = Some (o1, B1)"
    and "accept_inbound_file E W' N' tid B1 = (o2, B2)"
  shows "\<exists>x. fm_inbound (fc_files B2) tid = Some x \<and> it_rel_path x = rel \<and> \<not> it_complete_requested x \<and>
    awaits E (fm_old_data (fc_files B2) rel) data payload {} x (fc_disk B2)"
proof -
  note pl = offers_payload [OF assms(1,2,3,5)]
  have sha: "sha256_hex (fe_crates E) data \<noteq> []"
    using assms(1) crates_okD(1) [of "fe_crates E" data] by (auto simp: file_env_ok_def sha256_hex_def) (metis list.size(3) not_numeral_le_zero)
  have cc: "chunk_count (length payload) \<le> chunk_count (length data) + 1" by (rule chunk_count_bound [OF pl(1)])
  have c64: "chunk_count (length payload) < 2 ^ 64"
    using pl(1) assms(3) by (intro chunk_count_small) (simp add: MAX_TRANSFER_SIZE_def CHUNK_SIZE_def)
  define offer where "offer = \<lparr>fo_transfer_id = tid, fo_rel_path = rel, fo_sha256 = sha256_hex (fe_crates E) data, fo_size = length data,
      fo_total_chunks = chunk_count (length payload), fo_purpose = om_purpose meta, fo_compressed = om_compressed meta,
      fo_is_delta = om_is_delta meta, fo_base_sha256 = om_base_sha256 meta\<rparr>"
  have po: "parse_offer [] ''file'' (offer_payload rel meta) = Some offer"
    using parse_offer_payload [of meta "[]" "''file''" rel] assms(2,3,4) sha c64
    by (simp add: offers_def offer_def MAX_TRANSFER_SIZE_def)
  have B0: "fc_files B0 = fc_files B" "fc_disk B0 = fc_disk B"
    using assms(8) by (auto simp: gate_feature_def split: option.splits prod.splits)
  obtain sink D' where ch: "choose_sink E W offer (fc_disk B) = Inr (sink, D')" "sink_agrees payload D' {} sink"
    "sink_is_streaming sink = (INLINE_MAX < length data)"
  proof (cases "INLINE_MAX < length data")
    case True
    with assms(2) have "\<not> om_compressed meta" "\<not> om_is_delta meta" by (auto simp: offers_def)
    with True that assms(6) empty_sink_agrees(2) show ?thesis
      by (auto simp: choose_sink_def offer_def open_part_file_def healthy_def Let_def)
  next
    case False
    with that empty_sink_agrees(1) show ?thesis by (auto simp: choose_sink_def offer_def)
  qed
  define x0 where "x0 = new_inbound (ov_now W) sender [] [] offer sink"
  define evs where "evs = Ev_Offered tid sender rel (length data) (om_purpose meta) #
    (if om_purpose meta = ''update'' then [Ev_SendMessage sender FileTransferAccept_c (tid_payload tid)] else [])"
  have "on_offer_received E W sender offer (fc_files B) (fc_disk B) = (evs, put_inbound tid x0 (fc_files B), D')"
    using assms(3) ch(1) cc
    by (simp add: on_offer_received_def on_offer_received_with_room_def Let_def) (simp add: offer_def x0_def evs_def)
  moreover have "stream_free evs" by (simp add: evs_def stream_free_def)
  ultimately have "on_file_offer E W N (file_message sender FileTransferOffer_c (offer_payload rel meta)) B =
      (o1, B0\<lparr>fc_files := put_inbound tid x0 (fc_files B), fc_disk := D'\<rparr>)"
    using assms(7,10) with_files_stream_free [of evs W N B0 "put_inbound tid x0 (fc_files B)" D']
    by (auto simp: on_file_message_def on_file_offer_def assms(8) po B0)
  then have B1: "B1 = B0\<lparr>fc_files := put_inbound tid x0 (fc_files B), fc_disk := D'\<rparr>"
    using assms(7,10) by (simp add: on_file_message_def)
  define x where "x = x0\<lparr>it_state := Transferring\<rparr>"
  have "fm_inbound (fc_files B2) tid = Some x \<and> fc_disk B2 = D' \<and> fm_old_data (fc_files B2) = fm_old_data (fc_files B)"
  proof (cases "it_state x0 = Pending")
    case True
    have "accept_transfer tid (fc_files B1) = ([Ev_StateChanged tid ''transferring'', Ev_SendMessage (it_peer_id x0) FileTransferAccept_c (tid_payload tid)],
        put_inbound tid x (put_inbound tid x0 (fc_files B)))"
      using True by (simp add: accept_transfer_def B1 x_def)
    with assms(11) with_files_stream_free [of "[Ev_StateChanged tid ''transferring'', Ev_SendMessage (it_peer_id x0) FileTransferAccept_c (tid_payload tid)]"
        W' N' B1 "put_inbound tid x (put_inbound tid x0 (fc_files B))" D']
    show ?thesis by (auto simp: accept_inbound_file_def has_inbound_def B1 stream_free_def)
  next
    case False
    then have "x = x0" by (auto simp: x_def x0_def new_inbound_def split: if_splits)
    moreover have "accept_transfer tid (fc_files B1) = ([], put_inbound tid x0 (fc_files B))"
      using False by (simp add: accept_transfer_def B1)
    ultimately show ?thesis using assms(11) with_files_stream_free [of "[]" W' N' B1 "put_inbound tid x0 (fc_files B)" D']
      by (auto simp: accept_inbound_file_def has_inbound_def B1)
  qed
  moreover have "awaits E (fm_old_data (fc_files B) rel) data payload {} x D'"
    using ch(2,3) pl(3) [of "fm_old_data (fc_files B) rel" rel] assms(2,9)
    by (auto simp: awaits_def it_is_streaming_def x_def x0_def new_inbound_def offer_def offers_def)
  ultimately show ?thesis by (auto simp: x_def x0_def new_inbound_def offer_def)
qed

text \<open>
  C9. A file of up to 250 MiB, sent with the send command, offered, received as an offer by a client that
  trusts the sender and accepted there, arrives: however the frames of its stream (the pieces of the
  payload and the final message) are ordered and repeated, once all of them came the receiver reports
  exactly one completion, with exactly the bytes of the file, and no failure. This holds for files sent
  whole, compressed or as a delta and for streamed files alike.
\<close>

theorem file_handover:
  assumes "file_env_ok E" and "healthy W" and "fc_disk A path = Some data" and "length data \<le> MAX_TRANSFER_SIZE" and "tid \<noteq> []"
    and "\<forall>b. fm_old_data (fc_files A) rel = Some b \<longrightarrow> length b < 2 ^ 32"
    and "send_file E W N fid bob rel path tid purpose A = (outs, A')"
    and "Out_msg bob FileTransferOffer_c offer \<in> set outs" and "fm_outbound (fc_files A') tid = Some x"
    and "holds_file (fc_disk A) (ot_source x) payload"
    and "healthy W1" and "fn_trusted N1 alice" and "gate_feature N1 ''core.file.v1'' alice [] B = (True, B0)"
    and "ot_is_delta x \<longrightarrow> fm_old_data (fc_files B) rel = fm_old_data (fc_files A) rel"
    and "on_file_message E W1 N1 (file_message alice FileTransferOffer_c offer) B = Some (o1, B1)"
    and "accept_inbound_file E W2 N2 tid B1 = (o2, B2)"
    and "\<forall>(W, N, r) \<in> set ms. healthy W \<and> fn_trusted N alice \<and>
      (r = Rx_complete \<or> (\<exists>i < ot_total_chunks x. r = Rx_chunk i (chunk_of payload i)))"
    and "\<forall>i < ot_total_chunks x. Rx_chunk i (chunk_of payload i) \<in> (\<lambda>(W, N, r). r) ` set ms"
    and "Rx_complete \<in> (\<lambda>(W, N, r). r) ` set ms"
  shows "\<exists>outs' B3 content. receive_all E (map (\<lambda>(W, N, r). (W, N, frame_of E alice x r)) ms) B2 = Some (outs', B3) \<and>
    ui_completions outs' = [(tid, content)] \<and> ui_failures outs' = [] \<and> content_of content (fc_disk B3) = Some data"
proof -
  obtain src pl meta where m: "offers E (fm_old_data (fc_files A) rel) data pl tid meta"
      "case src of Inline b \<Rightarrow> b = pl | FilePath p n \<Rightarrow> fc_disk A p = Some pl \<and> n = length pl"
      "A' = A\<lparr>fc_files := put_outbound tid (new_outbound (ov_now W) bob rel src meta) (fc_files A)\<rparr>"
      "msgs outs = map peer_emit (filter (fn_tx N) [(bob, FileTransferOffer_c, offer_payload rel meta)])"
    using send_file_offers [OF assms(2-4,7)] by blast
  have x: "x = new_outbound (ov_now W) bob rel src meta" using assms(9) m(3) by simp
  have pl: "pl = payload" using m(2) assms(10) x by (cases src) (auto simp: holds_file_def new_outbound_def)
  have "Out_msg bob FileTransferOffer_c offer \<in> set (msgs outs)" using assms(8) by (simp add: msgs_def)
  then have offer: "offer = offer_payload rel meta" using m(4) by (auto simp: peer_emit_def split: if_splits)
  have n: "ot_total_chunks x = chunk_count (length payload)" "ot_transfer_id x = tid" "ot_is_delta x = om_is_delta meta"
    using m(1) by (auto simp: x new_outbound_def offers_def pl)
  have c64: "chunk_count (length payload) < 2 ^ 64"
    using offers_payload(1) [OF assms(1) m(1) assms(4,6)] assms(4) pl
    by (intro chunk_count_small) (simp add: MAX_TRANSFER_SIZE_def CHUNK_SIZE_def)
  from offer_accepted [OF assms(1) m(1) assms(4,5,6,11,12,13) _ assms(15) [unfolded offer] assms(16)] assms(14) n(3) obtain y where
    y: "fm_inbound (fc_files B2) tid = Some y" "it_rel_path y = rel" "\<not> it_complete_requested y"
      "awaits E (fm_old_data (fc_files B2) rel) data payload {} y (fc_disk B2)" unfolding pl by blast
  let ?rs = "map (\<lambda>(W, N, r). (W, r)) ms"
  have rs: "snd ` set ?rs = (\<lambda>(W, N, r). r) ` set ms" by (force simp: image_image)
  have "delivered tid data (rx_run E tid ?rs (fc_files B2) (fc_disk B2))"
  proof (rule rx_run_delivers [OF y(1)])
    show "awaits E (fm_old_data (fc_files B2) (it_rel_path y)) data payload {} y (fc_disk B2)" using y by simp
    show "\<forall>i < chunk_count (length payload). i \<in> {} \<or> Rx_chunk i (chunk_of payload i) \<in> snd ` set ?rs"
      using assms(18) n(1) rs by simp
    show "it_complete_requested y \<or> Rx_complete \<in> snd ` set ?rs" using assms(19) rs by simp
    show "\<forall>(W, r) \<in> set ?rs. healthy W \<and> (r = Rx_complete \<or> (\<exists>i < chunk_count (length payload). r = Rx_chunk i (chunk_of payload i)))"
      using assms(17) n(1) by auto
  qed (use y(3) in simp)
  then obtain evs M D content where d: "rx_run E tid ?rs (fc_files B2) (fc_disk B2) = Some (evs, M, D)"
      "completions evs = [(tid, content)]" "failures evs = []" "content_of content D = Some data"
    unfolding delivered_def by blast
  have tr: "\<forall>(W, N, r) \<in> set ms. fn_trusted N alice \<and> (\<forall>i c. r = Rx_chunk i c \<longrightarrow> i < 2 ^ 64)"
    using assms(17) n(1) c64 by fastforce
  have "fm_inbound (fc_files B2) tid \<noteq> None" using y(1) by simp
  from receive_all_rx [OF assms(1) n(2) tr this d(1)] d(2-4) show ?thesis by fastforce
qed

definition demo_sender :: "unit file_client" where
  "demo_sender = (demo_client new_file_manager new_file_manager)\<lparr>fc_disk := [''/a'' \<mapsto> [7, 8]]\<rparr>"

theorem file_handover_witness:
  "\<exists>offer x o1 B1 outs B3 content.
     Out_msg ''bob'' FileTransferOffer_c offer \<in> set (fst (send_file xfer_env demo_os demo_net [] ''bob'' ''a.txt'' ''/a'' ''t'' ''file'' demo_sender)) \<and>
     on_file_message xfer_env demo_os demo_net (file_message ''ann'' FileTransferOffer_c offer)
       (demo_client new_file_manager new_file_manager) = Some (o1, B1) \<and>
     receive_all xfer_env (map (\<lambda>(W, N, r). (W, N, frame_of xfer_env ''ann'' x r))
         [(demo_os, demo_net, Rx_complete), (demo_os, demo_net, Rx_chunk 0 [7, 8])])
       (snd (accept_inbound_file xfer_env demo_os demo_net ''t'' B1)) = Some (outs, B3) \<and>
     ui_completions outs = [(''t'', content)] \<and> content_of content (fc_disk B3) = Some [7, 8]"
proof -
  let ?B = "demo_client new_file_manager new_file_manager"
  let ?send = "send_file xfer_env demo_os demo_net [] ''bob'' ''a.txt'' ''/a'' ''t'' ''file'' demo_sender"
  have a: "fc_disk demo_sender ''/a'' = Some [7, 8]" "fm_old_data (fc_files demo_sender) = Map.empty"
    by (simp_all add: demo_sender_def demo_client_def new_file_manager_def)
  have l: "length [7, 8 :: u8] \<le> MAX_TRANSFER_SIZE" by (simp add: MAX_TRANSFER_SIZE_def)
  from send_file_offers [OF demo_os_healthy a(1) l surjective_pairing] obtain src pl meta where
    m: "offers xfer_env None [7, 8] pl ''t'' meta" "case src of Inline b \<Rightarrow> b = pl | FilePath p n \<Rightarrow> fc_disk demo_sender p = Some pl \<and> n = length pl"
      "snd ?send = demo_sender\<lparr>fc_files := put_outbound ''t'' (new_outbound (ov_now demo_os) ''bob'' ''a.txt'' src meta) (fc_files demo_sender)\<rparr>"
      "msgs (fst ?send) = map peer_emit (filter (fn_tx demo_net) [(''bob'', FileTransferOffer_c, offer_payload ''a.txt'' meta)])"
    unfolding a(2) by blast
  have pl: "pl = [7, 8]" "\<not> om_is_delta meta"
    using m(1) by (auto simp: offers_def INLINE_MAX_def encode_payload_def compress_data_def COMPRESSION_THRESHOLD_def)
  define x where "x = new_outbound (ov_now demo_os) ''bob'' ''a.txt'' src meta"
  have x: "fm_outbound (fc_files (snd ?send)) ''t'' = Some x" "holds_file (fc_disk demo_sender) (ot_source x) [7, 8]"
      "ot_total_chunks x = 1" "\<not> ot_is_delta x"
    using m(1,2,3) pl by (auto simp: x_def new_outbound_def holds_file_def offers_def chunk_count_def CHUNK_SIZE_def split: transfer_source.splits)
  have "msgs (fst ?send) = [Out_msg ''bob'' FileTransferOffer_c (offer_payload ''a.txt'' meta)]"
    unfolding m(4) by (simp add: peer_emit_def demo_net_def)
  moreover have "set (msgs (fst ?send)) \<subseteq> set (fst ?send)" by (simp add: msgs_def)
  ultimately have out: "Out_msg ''bob'' FileTransferOffer_c (offer_payload ''a.txt'' meta) \<in> set (fst ?send)" by simp
  have g: "gate_feature demo_net ''core.file.v1'' ''ann'' [] ?B = (True, ?B)"
    by (simp add: gate_feature_def demo_client_def module_for_def new_registry_def)
  have tr: "fn_trusted demo_net ''ann''" by (simp add: demo_net_def)
  then obtain o1 B1 where o1: "on_file_message xfer_env demo_os demo_net (file_message ''ann'' FileTransferOffer_c (offer_payload ''a.txt'' meta)) ?B =
      Some (o1, B1)" by (auto simp: on_file_message_def) (metis surj_pair)
  have c: "chunk_of [7, 8] 0 = [7, 8]" by (simp add: chunk_of_def CHUNK_SIZE_def)
  have t: "''t'' \<noteq> []" by simp
  let ?ms = "[(demo_os, demo_net, Rx_complete), (demo_os, demo_net, Rx_chunk 0 [7, 8])]"
  have old: "\<forall>b. fm_old_data (fc_files demo_sender) ''a.txt'' = Some b \<longrightarrow> length b < 2 ^ 32" using a(2) by simp
  have ms: "\<forall>(W, N, r) \<in> set ?ms. healthy W \<and> fn_trusted N ''ann'' \<and> (r = Rx_complete \<or> (\<exists>i < ot_total_chunks x. r = Rx_chunk i (chunk_of [7, 8] i)))"
      "\<forall>i < ot_total_chunks x. Rx_chunk i (chunk_of [7, 8] i) \<in> (\<lambda>(W, N, r). r) ` set ?ms" "Rx_complete \<in> (\<lambda>(W, N, r). r) ` set ?ms"
    using x(3) c tr demo_os_healthy by auto
  have "ot_is_delta x \<longrightarrow> fm_old_data (fc_files ?B) ''a.txt'' = fm_old_data (fc_files demo_sender) ''a.txt''" using x(4) by simp
  from file_handover [OF xfer_env_ok demo_os_healthy a(1) l t old surjective_pairing out x(1,2) demo_os_healthy tr g this o1 surjective_pairing ms]
  show ?thesis using out o1 by blast
qed

end
