(* ===== verification/File_Panic.thy ===== *)
theory File_Panic
  imports File_Handover
begin

text \<open>What a trusted peer can do to a client with the messages of one update transfer.\<close>

definition update_offer :: "string \<Rightarrow> string \<Rightarrow> payload_map" where
  "update_offer tid sha = [(''purpose'', VStr ''update''), (''sha256'', VStr sha), (''size'', VNum (NInt 0)), (''transfer_id'', VStr tid)]"

definition empty_chunk :: "file_env \<Rightarrow> string \<Rightarrow> payload_map" where
  "empty_chunk E tid = [(''chunk_index'', VNum (NInt 0)), (''data'', VStr (fe_b64_encode E [])), (''transfer_id'', VStr tid)]"

definition update_record :: "rat \<Rightarrow> peer_id \<Rightarrow> string \<Rightarrow> string \<Rightarrow> (nat \<rightharpoonup> bytes) \<Rightarrow> inbound_transfer" where
  "update_record now p tid sha chunks = new_inbound now p [] []
     \<lparr>fo_transfer_id = tid, fo_rel_path = [], fo_sha256 = sha, fo_size = 0, fo_total_chunks = 1, fo_purpose = ''update'',
      fo_compressed = False, fo_is_delta = False, fo_base_sha256 = []\<rparr> (Memory chunks)"

lemma update_offer_accepted:
  assumes "fn_trusted N p" and "gate_feature N ''core.file.v1'' p [] st = (True, st0)" and "tid \<noteq> []" and "sha \<noteq> []"
  shows "\<exists>outs. on_file_message E W N (file_message p FileTransferOffer_c (update_offer tid sha)) st =
    Some (outs, st0\<lparr>fc_files := put_inbound tid (update_record (ov_now W) p tid sha Map.empty) (fc_files st0)\<rparr>)"
proof -
  define x where "x = update_record (ov_now W) p tid sha Map.empty"
  let ?evs = "[Ev_Offered tid p [] 0 ''update'', Ev_SendMessage p FileTransferAccept_c (tid_payload tid)]"
  have "parse_offer [] ''file'' (update_offer tid sha) = Some
      \<lparr>fo_transfer_id = tid, fo_rel_path = [], fo_sha256 = sha, fo_size = 0, fo_total_chunks = 1, fo_purpose = ''update'',
       fo_compressed = False, fo_is_delta = False, fo_base_sha256 = []\<rparr>"
    using assms(3,4) by (simp add: parse_offer_def update_offer_def get_str_def get_str_or_def get_u64_def get_u64_or_def get_bool_def)
  then have r: "on_file_message E W N (file_message p FileTransferOffer_c (update_offer tid sha)) st =
      Some (with_files W N st0 (?evs, put_inbound tid x (fc_files st0), fc_disk st0))"
    using assms(1,2)
    by (simp add: on_file_message_def on_file_offer_def on_offer_received_def on_offer_received_with_room_def choose_sink_def
        x_def update_record_def chunk_count_def Let_def)
  have "stream_free ?evs" by (simp add: stream_free_def)
  from with_files_stream_free [OF this, of W N st0 "put_inbound tid x (fc_files st0)" "fc_disk st0"]
  show ?thesis unfolding r x_def [symmetric] by fastforce
qed

lemma empty_chunk_stored:
  assumes "file_env_ok E" and "fn_trusted N p" and "fm_inbound (fc_files st) tid = Some (update_record now q tid sha Map.empty)"
  shows "\<exists>outs. on_file_message E W N (file_message p FileTransferChunk_c (empty_chunk E tid)) st =
    Some (outs, st\<lparr>fc_files := put_inbound tid (update_record now q tid sha [0 \<mapsto> []]) (fc_files st)\<rparr>)"
proof -
  define y where "y = update_record now q tid sha [0 \<mapsto> []]"
  have f: "tid_of (empty_chunk E tid) = tid" "get_u64_or 0 ''chunk_index'' (VObj (empty_chunk E tid)) = 0"
      "get_str_or [] ''data'' (VObj (empty_chunk E tid)) = fe_b64_encode E []"
    by (simp_all add: empty_chunk_def tid_of_def get_u64_or_def get_str_or_def get_str_def)
  have "fe_b64_decode E (fe_b64_encode E []) = Some []" using assms(1) by (simp add: file_env_ok_def)
  moreover have "store_chunk W 0 [] (update_record now q tid sha Map.empty) (fc_disk st) = (True, y, fc_disk st)"
    by (simp add: store_chunk_def update_record_def new_inbound_def y_def)
  moreover have "it_state (update_record now q tid sha Map.empty) = Transferring" "it_total_chunks (update_record now q tid sha Map.empty) = 1"
      "\<not> it_complete_requested y" by (simp_all add: update_record_def new_inbound_def y_def)
  ultimately obtain evs where "on_chunk_received E W tid 0 (fe_b64_encode E []) (fc_files st) (fc_disk st) =
      Some (evs, put_inbound tid y (fc_files st), fc_disk st)" "evs = [] \<or> evs = [Ev_Progress tid (it_progress y)]"
    using assms(3) by (simp add: on_chunk_received_def on_chunk_bytes_received_def Let_def)
  moreover from this(2) have "stream_free evs" by auto
  ultimately show ?thesis
    using assms(2,3) f with_files_stream_free [of evs W N st "put_inbound tid y (fc_files st)" "fc_disk st"]
    by (auto simp: on_file_message_def on_file_chunk_def has_inbound_def y_def Let_def)
qed

text \<open>
  C40. Three messages of a trusted peer stop a client without any action of its user: the offer of an update
  transfer, which is accepted by itself, with a hash of fewer than sixteen bytes, its only piece, and the
  final message. The first two are handled; the third panics while the text of the hash mismatch is built.
\<close>

theorem short_hash_panics:
  assumes "file_env_ok E" and "fn_trusted N p" and "gate_feature N ''core.file.v1'' p [] st = (True, st0)"
    and "tid \<noteq> []" and "sha \<noteq> []" and "length sha < 16"
  shows "\<exists>o1 st1 o2 st2. on_file_message E W N (file_message p FileTransferOffer_c (update_offer tid sha)) st = Some (o1, st1) \<and>
    on_file_message E W N (file_message p FileTransferChunk_c (empty_chunk E tid)) st1 = Some (o2, st2) \<and>
    on_file_message E W N (file_message p FileTransferComplete_c (tid_payload tid)) st2 = None"
proof -
  from update_offer_accepted [OF assms(2-5)] obtain o1 where
    o1: "on_file_message E W N (file_message p FileTransferOffer_c (update_offer tid sha)) st =
      Some (o1, st0\<lparr>fc_files := put_inbound tid (update_record (ov_now W) p tid sha Map.empty) (fc_files st0)\<rparr>)" (is "_ = Some (_, ?st1)") by blast
  have "fm_inbound (fc_files ?st1) tid = Some (update_record (ov_now W) p tid sha Map.empty)" by simp
  from empty_chunk_stored [OF assms(1,2) this] obtain o2 where
    o2: "on_file_message E W N (file_message p FileTransferChunk_c (empty_chunk E tid)) ?st1 =
      Some (o2, ?st1\<lparr>fc_files := put_inbound tid (update_record (ov_now W) p tid sha [0 \<mapsto> []]) (fc_files ?st1)\<rparr>)" (is "_ = Some (_, ?st2)") by blast
  define z where "z = update_record (ov_now W) p tid sha [0 \<mapsto> []]"
  have z: "it_state z = Transferring" "chunks_received z = it_total_chunks z" "\<not> it_is_streaming z" "reassemble z = []"
      "\<not> it_compressed z" "\<not> it_is_delta z" "it_expected_size z = 0" "it_expected_sha256 z = sha"
    by (simp_all add: z_def update_record_def new_inbound_def chunks_received_def it_is_streaming_def reassemble_def msize_def)
  have "length (cr_sha256 (fe_crates E) []) = 32" using assms(1) by (simp add: file_env_ok_def crates_okD)
  moreover have "length (cr_sha256 (fe_crates E) []) \<le> length (sha256_hex (fe_crates E) [])"
    unfolding sha256_hex_def using assms(1) file_env_ok_def by blast
  ultimately have "sha256_hex (fe_crates E) [] \<noteq> sha" using assms(6) by auto
  moreover have "str_prefix 16 sha = None" using assms(6) by (simp add: str_prefix_def)
  moreover have "fm_inbound (fc_files ?st2) tid = Some z" by (simp add: z_def)
  ultimately have "on_complete_received E W tid (fc_files ?st2) D = None" for D
    by (simp add: on_complete_received_def finish_inbound_def decode_payload_def z Let_def split: option.split)
  then have "on_file_message E W N (file_message p FileTransferComplete_c (tid_payload tid)) ?st2 = None"
    using assms(2) by (simp add: on_file_message_def tid_of_def tid_payload_def get_str_or_def get_str_def Let_def)
  with o1 o2 show ?thesis by blast
qed

theorem short_hash_panics_witness:
  "\<exists>o1 st1 o2 st2. on_file_message xfer_env demo_os demo_net (file_message ''bob'' FileTransferOffer_c (update_offer ''t'' ''x''))
      (demo_client new_file_manager new_file_manager) = Some (o1, st1) \<and>
    on_file_message xfer_env demo_os demo_net (file_message ''bob'' FileTransferChunk_c (empty_chunk xfer_env ''t'')) st1 = Some (o2, st2) \<and>
    on_file_message xfer_env demo_os demo_net (file_message ''bob'' FileTransferComplete_c (tid_payload ''t'')) st2 = None"
proof (rule short_hash_panics [OF xfer_env_ok])
  show "fn_trusted demo_net ''bob''" by (simp add: demo_net_def)
  show "gate_feature demo_net ''core.file.v1'' ''bob'' [] (demo_client new_file_manager new_file_manager) =
      (True, demo_client new_file_manager new_file_manager)"
    by (simp add: gate_feature_def demo_client_def module_for_def new_registry_def)
qed simp_all

end
