(* ===== verification/File_Requests.thy ===== *)
theory File_Requests
  imports File_Properties
begin

text \<open>
  Streams of a room file: every request of a member and every turn of the pump serves the one record
  of the offer, so that a later request takes the stream over.
\<close>

section \<open>Frames of a room stream\<close>

fun to_of :: "file_out \<Rightarrow> string option" where
  "to_of (Out_msg p t m) = get_str ''to'' (VObj m)"
| "to_of _ = None"

fun is_final :: "file_out \<Rightarrow> bool" where
  "is_final (Out_msg p t m) \<longleftrightarrow> t = SfuFileComplete_c"
| "is_final _ \<longleftrightarrow> False"

lemma get_str_insert:
  "sorted_wrt (<) (map fst m) \<Longrightarrow> k \<noteq> k' \<Longrightarrow> get_str k (VObj (bt_insert k' v m)) = get_str k (VObj m)"
  by (simp add: get_str_def bt_insert_map_of)

lemma stream_payload_to:
  "ot_to x \<noteq> [] \<Longrightarrow> get_str ''to'' (VObj (chunk_payload E x i c)) = Some (ot_to x)"
  "ot_to x \<noteq> [] \<Longrightarrow> get_str ''to'' (VObj (complete_payload x)) = Some (ot_to x)"
  "sorted_wrt (<) (map fst (chunk_payload E x i c))" "sorted_wrt (<) (map fst (complete_payload x))"
  by (simp_all add: get_str_def chunk_payload_def complete_payload_def to_field_def bt_of_map_of bt_of_sorted)

lemma seal_room_chunk_to:
  "seal_room_chunk E N groups room m = Some m' \<Longrightarrow> sorted_wrt (<) (map fst m) \<Longrightarrow> get_str ''to'' (VObj m') = get_str ''to'' (VObj m)"
  by (auto simp: seal_room_chunk_def get_str_insert bt_insert_sorted Let_def split: if_splits option.splits)

lemma room_emit_chunk:
  "room_emit E N groups sn room (p, FileTransferChunk_c, m) =
     (case seal_room_chunk E N groups room (bt_insert ''room_id'' (VStr room) m) of
        Some m' \<Rightarrow> Out_msg sn SfuFileChunk_c m'
      | None \<Rightarrow> Out_msg sn FileTransferChunk_c m)"
  by (simp add: room_emit_def room_frame_def Let_def split: option.split)

lemma room_emit_complete:
  "room_emit E N groups sn room (p, FileTransferComplete_c, m) = Out_msg sn SfuFileComplete_c (bt_insert ''room_id'' (VStr room) m)"
  by (simp add: room_emit_def room_frame_def Let_def)

lemma room_emit_to:
  assumes "ot_to x \<noteq> []"
  shows "to_of (room_emit E N groups sn room (chunk_message E W D x i)) = Some (ot_to x)"
    and "to_of (room_emit E N groups sn room (complete_message x)) = Some (ot_to x)"
    and "\<not> is_final (room_emit E N groups sn room (chunk_message E W D x i))"
proof -
  obtain c where c: "chunk_message E W D x i = (ot_peer_id x, FileTransferChunk_c, chunk_payload E x i c)"
    by (simp add: chunk_message_def)
  show "to_of (room_emit E N groups sn room (chunk_message E W D x i)) = Some (ot_to x)"
  proof (cases "seal_room_chunk E N groups room (bt_insert ''room_id'' (VStr room) (chunk_payload E x i c))")
    case (Some m)
    from seal_room_chunk_to [OF this bt_insert_sorted [OF stream_payload_to(3)]] show ?thesis
      by (simp add: c room_emit_chunk Some get_str_insert stream_payload_to assms)
  qed (simp add: c room_emit_chunk stream_payload_to assms)
  show "to_of (room_emit E N groups sn room (complete_message x)) = Some (ot_to x)"
    by (simp add: complete_message_def room_emit_complete get_str_insert stream_payload_to assms)
  show "\<not> is_final (room_emit E N groups sn room (chunk_message E W D x i))"
    by (simp add: c room_emit_chunk split: option.split)
qed

section \<open>Turns of the pump and requests\<close>

lemma next_chunk_events_peer: "next_chunk_events E W D b x = (evs, stop, y) \<Longrightarrow> ot_peer_id y = ot_peer_id x"
proof -
  assume e: "next_chunk_events E W D b x = (evs, stop, y)"
  obtain e f z where l: "chunk_loop E W D b x = (e, f, z)" by (metis prod_cases3)
  from chunk_loop_runs [OF l] obtain n where
    n: "if f then n < ot_total_chunks x \<and> read_chunk W D (ot_source x) n = None \<and>
          z = x\<lparr>ot_chunks_sent := n, ot_state := Failed, ot_finished_at := Some (ov_now W)\<rparr>
        else z = x\<lparr>ot_chunks_sent := n\<rparr> \<and> (n = ot_chunks_sent x + b \<or> ot_total_chunks x \<le> n)" by blast
  then have "ot_peer_id z = ot_peer_id x" by (cases f) simp_all
  with e l show ?thesis by (simp add: next_chunk_events_def split: if_splits)
qed

lemma pump_room_turn:
  assumes "fm_outbound (fc_rooms st) tid = Some x"
  shows "pump_room_file E W N tid st =
    (case rooms.turn E N (ov_now W) (fc_groups st) (fc_current_supernode st) (ot_peer_id x) E W (fc_disk st) tid
        ROOM_FILE_CHUNK_BUDGET (fc_rooms st) of (outs, M) \<Rightarrow> (outs, st\<lparr>fc_rooms := M\<rparr>))"
  using assms
  by (auto simp: pump_room_file_def rooms.turn_def pump_stream_def with_rooms_def dispatch_room_transfer_events_def
      outbound_route_def run_batch_def settle_batch_def new_batch_def put_outbound_def next_chunk_events_peer split: prod.splits)

fun room_pump_run :: "file_env \<Rightarrow> string \<Rightarrow> (os_view \<times> file_net) list \<Rightarrow> 'm file_client \<Rightarrow> file_out list \<times> 'm file_client" where
  "room_pump_run E tid [] st = ([], st)"
| "room_pump_run E tid ((W, N) # ts) st =
     (case pump_room_file E W N tid st of (o1, st1) \<Rightarrow> (case room_pump_run E tid ts st1 of (o2, st2) \<Rightarrow> (o1 @ o2, st2)))"

definition reset_stream :: "peer_id \<Rightarrow> outbound_transfer \<Rightarrow> outbound_transfer" where
  "reset_stream p x = x\<lparr>ot_chunks_sent := 0, ot_to := p, ot_state := Transferring, ot_finished_at := None\<rparr>"

lemma request_turn:
  assumes "fm_outbound (fc_rooms st) tid = Some x" and "tid_of (cm_payload msg) = tid" and "tid \<noteq> []"
    and "get_str_or [] ''to'' (VObj (cm_payload msg)) \<in> {[], fn_me N}"
  shows "handle_sfu_file_request E W N sn msg st =
    (case rooms.turn E N (ov_now W) (fc_groups st) sn (room_of_payload (cm_payload msg)) E W (fc_disk st) tid
        ROOM_FILE_CHUNK_BUDGET (put_outbound tid (reset_stream (cm_sender msg) x) (fc_rooms st)) of
       (outs, M) \<Rightarrow> (outs, st\<lparr>fc_rooms := M\<rparr>))"
  using assms
  by (auto simp: handle_sfu_file_request_def has_outbound_def start_stream_for_def rooms.turn_def pump_stream_def with_rooms_def
      dispatch_room_transfer_events_def put_outbound_def reset_stream_def same_supernode_pad_def Let_def split: prod.splits)

text \<open>What both have in common: the frames of a turn carry the requester of the record.\<close>

definition serves :: "outbound_transfer \<Rightarrow> file_out list \<Rightarrow> outbound_transfer \<Rightarrow> bool" where
  "serves x outs y \<longleftrightarrow> same_stream x y \<and> ot_chunks_sent y \<le> ot_total_chunks y \<and> (\<forall>m \<in> set (msgs outs). to_of m = Some (ot_to x)) \<and>
     (ot_state x = Completed \<longrightarrow> ot_state y = Completed) \<and> (ot_state y \<noteq> Completed \<longrightarrow> (\<forall>m \<in> set (msgs outs). \<not> is_final m))"

lemma serves_trans: "serves x o1 y \<Longrightarrow> serves y o2 z \<Longrightarrow> serves x (o1 @ o2) z"
  by (auto simp: serves_def same_stream_def)

lemma turn_serves:
  assumes "fm_outbound M tid = Some x" and "ot_transfer_id x = tid" and "tid \<noteq> []" and "ot_chunks_sent x \<le> ot_total_chunks x"
    and "ot_to x \<noteq> []" and "rooms.turn E N now groups sn room E W D tid b M = (outs, M')"
  shows "\<exists>y. fm_outbound M' tid = Some y \<and> serves x outs y"
proof (cases "ot_state x = Transferring")
  case True
  from rooms.turn_sends [OF assms(1-3) True assms(4,6)] obtain y g where
    y: "M' = M\<lparr>fm_outbound := (fm_outbound M)(tid \<mapsto> y)\<rparr>" "same_stream x y" "ot_chunks_sent y \<le> ot_total_chunks x"
      "msgs outs = map (room_emit E N groups sn room \<circ> chunk_message E W D x) [ot_chunks_sent x..<ot_chunks_sent x + g] @
        (if ot_state y = Completed then [room_emit E N groups sn room (complete_message x)] else [])" by blast
  have "serves x outs y"
    using y(2,3) assms(5) True by (auto simp: serves_def same_stream_def y(4) room_emit_to)
  with y(1) show ?thesis by simp
next
  case False
  with assms(1,6) have "outs = []" "M' = M"
    by (auto simp: rooms.turn_def pump_stream_def run_batch_def settle_batch_def new_batch_def)
  with assms(1,4) show ?thesis by (simp add: serves_def same_stream_def)
qed

lemma room_pump_run_serves:
  assumes "fm_outbound (fc_rooms st) tid = Some x" and "ot_transfer_id x = tid" and "tid \<noteq> []" and "ot_chunks_sent x \<le> ot_total_chunks x"
    and "ot_to x \<noteq> []" and "room_pump_run E tid turns st = (outs, st')"
  shows "\<exists>y. fm_outbound (fc_rooms st') tid = Some y \<and> serves x outs y"
  using assms
proof (induction turns arbitrary: st x outs)
  case Nil
  then show ?case by (auto simp: serves_def same_stream_def)
next
  case (Cons t turns)
  obtain W N where t: "t = (W, N)" by (cases t)
  obtain o1 M where r: "rooms.turn E N (ov_now W) (fc_groups st) (fc_current_supernode st) (ot_peer_id x) E W (fc_disk st) tid
      ROOM_FILE_CHUNK_BUDGET (fc_rooms st) = (o1, M)" by (metis surj_pair)
  from turn_serves [OF Cons.prems(1-5) r] obtain y where y: "fm_outbound M tid = Some y" "serves x o1 y" by blast
  obtain o2 where o2: "room_pump_run E tid turns (st\<lparr>fc_rooms := M\<rparr>) = (o2, st')" "outs = o1 @ o2"
    using Cons.prems(6) by (auto simp: t pump_room_turn [OF Cons.prems(1)] r split: prod.splits)
  have "\<exists>z. fm_outbound (fc_rooms st') tid = Some z \<and> serves y o2 z"
    using y Cons.prems by (intro Cons.IH [OF _ _ _ _ _ o2(1)]) (auto simp: serves_def same_stream_def)
  with y(2) serves_trans show ?case unfolding o2(2) by blast
qed

lemma request_serves:
  assumes "fm_outbound (fc_rooms st) tid = Some x" and "ot_transfer_id x = tid" and "tid \<noteq> []" and "tid_of (cm_payload msg) = tid"
    and "get_str_or [] ''to'' (VObj (cm_payload msg)) \<in> {[], fn_me N}" and "cm_sender msg \<noteq> []"
    and "handle_sfu_file_request E W N sn msg st = (outs, st')"
  shows "\<exists>y. fm_outbound (fc_rooms st') tid = Some y \<and> serves (reset_stream (cm_sender msg) x) outs y"
proof -
  let ?M = "put_outbound tid (reset_stream (cm_sender msg) x) (fc_rooms st)"
  obtain M where r: "rooms.turn E N (ov_now W) (fc_groups st) sn (room_of_payload (cm_payload msg)) E W (fc_disk st) tid
      ROOM_FILE_CHUNK_BUDGET ?M = (outs, M)" "st' = st\<lparr>fc_rooms := M\<rparr>"
    using assms(7) by (auto simp: request_turn [OF assms(1,4,3,5)] split: prod.splits)
  have "\<exists>y. fm_outbound M tid = Some y \<and> serves (reset_stream (cm_sender msg) x) outs y"
    using assms(2,3,6) by (intro turn_serves [OF _ _ _ _ _ r(1)]) (auto simp: reset_stream_def put_outbound_def)
  with r(2) show ?thesis by simp
qed

section \<open>A second request\<close>

text \<open>
  When a second member asks for a room file while the stream to a first member is still running, the
  first member got no final frame so far and every later frame of the stream, whatever the disk and the transports
  do, goes to the second member alone: the first member never gets the rest of the file.
\<close>

lemma second_request_starves_first:
  assumes "fm_outbound (fc_rooms st) tid = Some x" and "ot_transfer_id x = tid" and "tid \<noteq> []"
    and "tid_of (cm_payload first) = tid" and "get_str_or [] ''to'' (VObj (cm_payload first)) \<in> {[], fn_me N1}"
    and "tid_of (cm_payload second) = tid" and "get_str_or [] ''to'' (VObj (cm_payload second)) \<in> {[], fn_me N2}"
    and "cm_sender first \<noteq> []" and "cm_sender second \<noteq> []"
    and "handle_sfu_file_request E W1 N1 sn1 first st = (o1, st1)" and "room_pump_run E tid turns1 st1 = (o2, st2)"
    and "fm_outbound (fc_rooms st2) tid = Some y" and "ot_state y \<noteq> Completed"
    and "handle_sfu_file_request E W2 N2 sn2 second st2 = (o3, st3)" and "room_pump_run E tid turns2 st3 = (o4, st4)"
  shows "(\<forall>m \<in> set (msgs (o1 @ o2)). to_of m = Some (cm_sender first) \<and> \<not> is_final m) \<and>
    (\<forall>m \<in> set (msgs (o3 @ o4)). to_of m = Some (cm_sender second))"
proof -
  from request_serves [OF assms(1-5,8,10)] obtain a where
    a: "fm_outbound (fc_rooms st1) tid = Some a" "serves (reset_stream (cm_sender first) x) o1 a" by blast
  have a': "ot_transfer_id a = tid" "ot_chunks_sent a \<le> ot_total_chunks a" "ot_to a \<noteq> []"
    using a(2) assms(2,8) by (auto simp: serves_def same_stream_def reset_stream_def)
  from room_pump_run_serves [OF a(1) a'(1) assms(3) a'(2,3) assms(11)] assms(12)
  have y: "serves (reset_stream (cm_sender first) x) (o1 @ o2) y" using a(2) serves_trans by force
  then have yt: "ot_transfer_id y = tid" using assms(2) by (simp add: serves_def same_stream_def reset_stream_def)
  from request_serves [OF assms(12) yt assms(3,6,7,9,14)] obtain b where
    b: "fm_outbound (fc_rooms st3) tid = Some b" "serves (reset_stream (cm_sender second) y) o3 b" by blast
  have b': "ot_transfer_id b = tid" "ot_chunks_sent b \<le> ot_total_chunks b" "ot_to b \<noteq> []"
    using b(2) yt assms(9) by (auto simp: serves_def same_stream_def reset_stream_def)
  from room_pump_run_serves [OF b(1) b'(1) assms(3) b'(2,3) assms(15)] obtain z where
    "serves (reset_stream (cm_sender second) y) (o3 @ o4) z" using b(2) serves_trans by blast
  with y assms(13) show ?thesis by (auto simp: serves_def reset_stream_def)
qed

definition demo_groups :: sender_keys_group where
  "demo_groups = [''r'' \<mapsto> \<lparr>gs_current = 3, gs_seen_high = Some 3, gs_current_since = Some 0, gs_keys = [(3, replicate 32 9)]\<rparr>]"

definition demo_request :: "peer_id \<Rightarrow> client_message" where
  "demo_request p = (client_new_message 0 SfuFileRequest_c p)\<lparr>cm_payload := [(''room_id'', VStr ''r''), (''transfer_id'', VStr ''t'')]\<rparr>"

definition demo_file :: bytes where
  "demo_file = replicate (Suc (8 * CHUNK_SIZE)) 0"

lemma demo_room_passes: "room_passes xfer_env demo_net demo_groups sn ''r'' f"
proof -
  obtain p t m where f: "f = (p, t, m)" by (cases f)
  have "\<exists>c. aesgcm_encrypt plain_kdf (replicate 12 1) (replicate 32 9) d aad = Inr c" for d aad
    by (simp add: aesgcm_encrypt_def plain_kdf_def KEY_LEN_def)
  then have [simp]: "aesgcm_encrypt plain_kdf (replicate 12 1) (replicate 32 9) d aad \<noteq> Inl e" for d aad e by (metis sum.distinct(1))
  show ?thesis
    by (simp add: f room_passes_def room_frame_def seal_room_chunk_def may_send_room_e2e_content_def seal_file_chunk_def seal_under_def
        demo_groups_def has_real_key_def has_keys_def epoch_key_def current_epoch_def demo_net_def Let_def split: option.split sum.split)
qed

lemma demo_request_serves:
  assumes "fm_outbound (fc_rooms st) ''t'' = Some x" and "ot_transfer_id x = ''t''" and "ot_source x = Inline demo_file"
    and "ot_total_chunks x = 9" and "fc_groups st = demo_groups"
  shows "\<exists>outs M y. handle_sfu_file_request xfer_env demo_os demo_net ''sn'' (demo_request p) st = (outs, st\<lparr>fc_rooms := M\<rparr>) \<and>
    fm_outbound M ''t'' = Some y \<and> same_stream (reset_stream p x) y \<and> ot_state y = Transferring \<and> length (msgs outs) = 8"
proof -
  let ?x = "reset_stream p x"
  have m: "tid_of (cm_payload (demo_request p)) = ''t''" "get_str_or [] ''to'' (VObj (cm_payload (demo_request p))) = []"
    "cm_sender (demo_request p) = p" "room_of_payload (cm_payload (demo_request p)) = ''r''"
    by (simp_all add: demo_request_def tid_of_def get_str_or_def get_str_def room_of_payload_def client_new_message_def)
  obtain outs M where t: "rooms.turn xfer_env demo_net (ov_now demo_os) demo_groups ''sn'' ''r'' xfer_env demo_os (fc_disk st) ''t''
      ROOM_FILE_CHUNK_BUDGET (put_outbound ''t'' ?x (fc_rooms st)) = (outs, M)" by (metis surj_pair)
  have len: "length demo_file < 2 ^ 64" "chunk_count (length demo_file) = 9"
    by (simp_all add: demo_file_def CHUNK_SIZE_def chunk_count_def)
  have read: "\<forall>i < ot_total_chunks ?x. read_chunk demo_os (fc_disk st) (ot_source ?x) i \<noteq> None"
    using read_holds(2) [of "fc_disk st" "ot_source ?x" demo_file _ demo_os] demo_os_healthy assms(3,4) len
    by (simp add: reset_stream_def holds_file_def)
  have "\<exists>y. fm_outbound M ''t'' = Some y \<and> same_stream ?x y \<and> ot_state y = Transferring \<and> length (msgs outs) = 8"
    using rooms.turn_sends [OF _ _ _ _ _ t, of ?x] assms(2,4) read demo_room_passes
    by (fastforce simp: reset_stream_def ROOM_FILE_CHUNK_BUDGET_def put_outbound_def)
  moreover have "handle_sfu_file_request xfer_env demo_os demo_net ''sn'' (demo_request p) st = (outs, st\<lparr>fc_rooms := M\<rparr>)"
    using request_turn [OF assms(1) m(1), of demo_net xfer_env demo_os "''sn''"] m t assms(5) by simp
  ultimately show ?thesis by blast
qed

definition demo_room_client :: "unit file_client" where
  "demo_room_client = (demo_client new_file_manager (put_outbound ''t'' (new_outbound 0 ''r'' ''a.bin'' (Inline demo_file)
     \<lparr>om_transfer_id = ''t'', om_original_sha = [], om_original_size = length demo_file, om_payload_len = length demo_file,
      om_purpose = ''room_file'', om_compressed = False, om_is_delta = False, om_base_sha256 = []\<rparr>) new_file_manager))
     \<lparr>fc_groups := demo_groups\<rparr>"

lemma second_request_starves_first_witness:
  "\<exists>o1 st1 o3 st3. handle_sfu_file_request xfer_env demo_os demo_net ''sn'' (demo_request ''cat'') demo_room_client = (o1, st1) \<and>
     handle_sfu_file_request xfer_env demo_os demo_net ''sn'' (demo_request ''bob'') st1 = (o3, st3) \<and>
     length (msgs o1) = 8 \<and> (\<forall>m \<in> set (msgs o1). to_of m = Some ''cat'' \<and> \<not> is_final m) \<and>
     length (msgs o3) = 8 \<and> (\<forall>m \<in> set (msgs o3). to_of m = Some ''bob'')"
proof -
  have m: "tid_of (cm_payload (demo_request p)) = ''t''" "get_str_or [] ''to'' (VObj (cm_payload (demo_request p))) \<in> {[], fn_me demo_net}"
    "cm_sender (demo_request p) = p" for p
    by (simp_all add: demo_request_def tid_of_def get_str_or_def get_str_def client_new_message_def)
  obtain x where x: "fm_outbound (fc_rooms demo_room_client) ''t'' = Some x" "ot_transfer_id x = ''t''" "ot_source x = Inline demo_file"
      "ot_total_chunks x = 9" "fc_groups demo_room_client = demo_groups"
    by (simp add: demo_room_client_def demo_client_def new_outbound_def chunk_count_def demo_file_def CHUNK_SIZE_def)
  from demo_request_serves [OF x, of "''cat''"] obtain o1 M y where
    y: "handle_sfu_file_request xfer_env demo_os demo_net ''sn'' (demo_request ''cat'') demo_room_client = (o1, demo_room_client\<lparr>fc_rooms := M\<rparr>)"
      "fm_outbound M ''t'' = Some y" "same_stream (reset_stream ''cat'' x) y" "ot_state y = Transferring" "length (msgs o1) = 8" by blast
  let ?st1 = "demo_room_client\<lparr>fc_rooms := M\<rparr>"
  have y2: "fm_outbound (fc_rooms ?st1) ''t'' = Some y" "ot_transfer_id y = ''t''" "ot_source y = Inline demo_file" "ot_total_chunks y = 9"
      "fc_groups ?st1 = demo_groups" "ot_state y \<noteq> Completed"
    using y(2,3,4) x by (simp_all add: same_stream_def reset_stream_def)
  from demo_request_serves [OF y2(1-5), of "''bob''"] obtain o3 M3 where
    z: "handle_sfu_file_request xfer_env demo_os demo_net ''sn'' (demo_request ''bob'') ?st1 = (o3, ?st1\<lparr>fc_rooms := M3\<rparr>)" "length (msgs o3) = 8"
    by blast
  have "cm_sender (demo_request ''cat'') \<noteq> []" "cm_sender (demo_request ''bob'') \<noteq> []" "''t'' \<noteq> []" using m(3) by simp_all
  from second_request_starves_first [OF x(1,2) this(3) m(1,2) m(1,2) this(1,2) y(1) room_pump_run.simps(1) y2(1,6) z(1) room_pump_run.simps(1)]
  show ?thesis using y(1,5) z by (auto simp: m(3))
qed

end
