(* ===== verification/Client_Peers.thy ===== *)
theory Client_Peers
  imports Client_Crypto
begin

text \<open>
  The peers a client trusts, \<open>conquerd-client/src/peer_store.rs\<close>: the records, the encrypted file they are
  kept in and the queries on them. The iteration order of the hash map is the argument \<open>ord\<close>, which
  lists the keys of a map. The file is what the disk holds under the path of the store; reading and
  writing it may fail. The record form of \<open>serde\<close> is the argument \<open>peer_codec\<close>, and the avatar of a peer is a
  type parameter. Times are rationals.
\<close>

section \<open>Records\<close>

record 'a client_peer =
  cp_peer_id :: string
  cp_identity_pub :: string
  cp_relay_hints :: "string list"
  cp_handle :: string
  cp_blocked :: bool
  cp_revoked :: bool
  cp_auto_connect :: bool
  cp_is_supernode :: bool
  cp_supernode_from_invite :: bool
  cp_transcript_hash :: string
  cp_created_at :: rat
  cp_last_seen_at :: rat
  cp_last_ice :: "jvalue option"
  cp_quic_port :: u16
  cp_peer_version :: string
  cp_peer_build_hash :: string
  cp_peer_source_hash :: string
  cp_peer_protocol_hash :: string
  cp_peer_attestation_sig :: string
  cp_last_attestation_at :: rat
  cp_attestation_status :: string
  cp_last_nonce_challenge :: string
  cp_avatar_config :: "'a option"

text \<open>The name ends with an ellipsis; cutting the id can panic.\<close>

definition display_name :: "'a client_peer \<Rightarrow> string option" where
  "display_name r =
     (if cp_handle r \<noteq> [] then Some (cp_handle r)
      else map_option (\<lambda>p. p @ [CHR 0xE2, CHR 0x80, CHR 0xA6]) (str_prefix (min (length (cp_peer_id r)) 12) (cp_peer_id r)))"

type_synonym 'a peer_map = "string \<rightharpoonup> 'a client_peer"
definition default_peer :: "'a client_peer" where
  "default_peer = \<lparr>cp_peer_id = [], cp_identity_pub = [], cp_relay_hints = [], cp_handle = [], cp_blocked = False, cp_revoked = False,
     cp_auto_connect = False, cp_is_supernode = False, cp_supernode_from_invite = False, cp_transcript_hash = [], cp_created_at = 0,
     cp_last_seen_at = 0, cp_last_ice = None, cp_quic_port = 0, cp_peer_version = [], cp_peer_build_hash = [], cp_peer_source_hash = [],
     cp_peer_protocol_hash = [], cp_peer_attestation_sig = [], cp_last_attestation_at = 0, cp_attestation_status = [],
     cp_last_nonce_challenge = [], cp_avatar_config = None\<rparr>"

type_synonym 'a key_order = "(string \<rightharpoonup> 'a) \<Rightarrow> string list"

definition orders :: "'a key_order \<Rightarrow> bool" where
  "orders ord \<longleftrightarrow> (\<forall>m. finite (dom m) \<longrightarrow> distinct (ord m) \<and> set (ord m) = dom m)"

definition map_values :: "'a key_order \<Rightarrow> (string \<rightharpoonup> 'a) \<Rightarrow> 'a list" where
  "map_values ord m = List.map_filter m (ord m)"

section \<open>The file\<close>

record 'a peer_codec =
  pc_value :: "'a client_peer \<Rightarrow> jvalue"
  pc_record :: "jvalue \<Rightarrow> 'a client_peer option"

definition peer_codec_ok :: "'a peer_codec \<Rightarrow> bool" where
  "peer_codec_ok c \<longleftrightarrow> (\<forall>r. jcanon (pc_value c r) \<and> pc_record c (pc_value c r) = Some r)"

record 'a client_peer_store =
  cs_key :: bytes
  cs_records :: "'a peer_map"
  cs_file :: "bytes option"

definition insert_record :: "'a client_peer \<Rightarrow> 'a peer_map \<Rightarrow> 'a peer_map" where
  "insert_record r m = m(cp_peer_id r \<mapsto> r)"

text \<open>\<open>readable\<close> tells whether reading an existing file succeeds. Records that do not parse are skipped.\<close>

definition load_peer_file :: "kdf_lib \<Rightarrow> json_lib \<Rightarrow> 'a peer_codec \<Rightarrow> bool \<Rightarrow> 'a client_peer_store \<Rightarrow> 'a client_peer_store" where
  "load_peer_file X L c readable s =
     (case cs_file s of
        None \<Rightarrow> s
      | Some envelope \<Rightarrow>
          if \<not> readable then s
          else case decrypt_blob X (cs_key s) envelope of
              Inl _ \<Rightarrow> s
            | Inr plaintext \<Rightarrow>
                (case jl_parse L (string_of_bytes plaintext) of
                   None \<Rightarrow> s
                 | Some doc \<Rightarrow>
                     (case Option.bind (jget ''peers'' doc) as_array of
                        None \<Rightarrow> s
                      | Some vs \<Rightarrow> s\<lparr>cs_records := fold insert_record (List.map_filter (pc_record c) vs) (cs_records s)\<rparr>)))"

definition open_peer_store :: "kdf_lib \<Rightarrow> json_lib \<Rightarrow> 'a peer_codec \<Rightarrow> bool \<Rightarrow> bytes \<Rightarrow> bytes option \<Rightarrow> 'a client_peer_store" where
  "open_peer_store X L c readable key f = load_peer_file X L c readable \<lparr>cs_key = key, cs_records = Map.empty, cs_file = f\<rparr>"

definition cpeer_list :: "'a client_peer key_order \<Rightarrow> 'a peer_map \<Rightarrow> 'a client_peer list" where
  "cpeer_list ord m = sort_key cp_created_at (map_values ord m)"

definition list_non_supernode_peers :: "'a client_peer key_order \<Rightarrow> 'a peer_map \<Rightarrow> 'a client_peer list" where
  "list_non_supernode_peers ord m = sort_key cp_created_at (filter (\<lambda>r. \<not> cp_is_supernode r) (map_values ord m))"

definition save_peer_file :: "kdf_lib \<Rightarrow> json_lib \<Rightarrow> 'a peer_codec \<Rightarrow> 'a client_peer key_order \<Rightarrow> bytes \<Rightarrow> rat \<Rightarrow> bool \<Rightarrow>
    'a client_peer_store \<Rightarrow> bool \<times> 'a client_peer_store" where
  "save_peer_file X L c ord nonce now writable s =
     (let payload = [(''peers'', VArr (map (pc_value c) (cpeer_list ord (cs_records s)))), (''updated_at'', VNum (NFloat now)),
            (''version'', VNum (NInt 1))]
      in case encrypt_blob X nonce (cs_key s) (as_bytes (jl_print L payload)) of
           Inl _ \<Rightarrow> (False, s)
         | Inr envelope \<Rightarrow> if writable then (True, s\<lparr>cs_file := Some envelope\<rparr>) else (False, s))"

section \<open>Queries\<close>

definition cpeer_get_by_identity :: "'a client_peer key_order \<Rightarrow> string \<Rightarrow> 'a peer_map \<Rightarrow> 'a client_peer option" where
  "cpeer_get_by_identity ord i m = find (\<lambda>r. cp_identity_pub r = i) (map_values ord m)"

definition cpeer_auto_connect :: "'a client_peer key_order \<Rightarrow> 'a peer_map \<Rightarrow> 'a client_peer list" where
  "cpeer_auto_connect ord m = filter (\<lambda>r. cp_auto_connect r \<and> \<not> cp_blocked r \<and> \<not> cp_revoked r) (map_values ord m)"

definition trusted_supernode :: "'a client_peer \<Rightarrow> bool" where
  "trusted_supernode r \<longleftrightarrow> \<not> cp_blocked r \<and> cp_is_supernode r"

definition known_as :: "string \<Rightarrow> 'a client_peer \<Rightarrow> bool" where
  "known_as i r \<longleftrightarrow> cp_identity_pub r = i \<or> cp_peer_id r = i"

definition cpeer_supernodes :: "'a client_peer key_order \<Rightarrow> 'a peer_map \<Rightarrow> 'a client_peer list" where
  "cpeer_supernodes ord m = filter trusted_supernode (map_values ord m)"

definition is_supernode_id :: "'a client_peer key_order \<Rightarrow> string \<Rightarrow> 'a peer_map \<Rightarrow> bool" where
  "is_supernode_id ord i m \<longleftrightarrow> i \<noteq> [] \<and> list_ex (\<lambda>r. trusted_supernode r \<and> known_as i r) (map_values ord m)"

definition is_invite_supernode_id :: "'a client_peer key_order \<Rightarrow> string \<Rightarrow> 'a peer_map \<Rightarrow> bool" where
  "is_invite_supernode_id ord i m \<longleftrightarrow>
     i \<noteq> [] \<and> list_ex (\<lambda>r. trusted_supernode r \<and> cp_supernode_from_invite r \<and> known_as i r) (map_values ord m)"

definition resolve_supernode_identity_pub :: "'a client_peer key_order \<Rightarrow> string \<Rightarrow> 'a peer_map \<Rightarrow> string option" where
  "resolve_supernode_identity_pub ord i m =
     (if i = [] then None
      else map_option cp_identity_pub (find (\<lambda>r. trusted_supernode r \<and> known_as i r) (map_values ord m)))"

section \<open>Changes\<close>

definition upsert_from_invite :: "'a client_peer \<Rightarrow> 'a peer_map \<Rightarrow> 'a peer_map" where
  "upsert_from_invite r m =
     (let m1 = retain (\<lambda>_ q. cp_identity_pub q \<noteq> cp_identity_pub r) m;
          r1 = (case m1 (cp_peer_id r) of
                  Some e \<Rightarrow> if cp_identity_pub e \<noteq> cp_identity_pub r then r\<lparr>cp_peer_id := cp_identity_pub r\<rparr> else r
                | None \<Rightarrow> r)
      in insert_record r1 m1)"

definition remove_by_any_id :: "'a client_peer key_order \<Rightarrow> string \<Rightarrow> 'a peer_map \<Rightarrow> 'a client_peer option \<times> 'a peer_map" where
  "remove_by_any_id ord i m =
     (case m i of
        Some r \<Rightarrow> (Some r, m(i := None))
      | None \<Rightarrow>
          (case find (\<lambda>k. case m k of None \<Rightarrow> False | Some r \<Rightarrow> cp_identity_pub r = i) (ord m) of
             None \<Rightarrow> (None, m)
           | Some k \<Rightarrow> (m k, m(k := None))))"

definition restore_record :: "'a client_peer \<Rightarrow> 'a client_peer" where
  "restore_record r =
     (if cp_blocked r \<or> cp_revoked r \<or> cp_is_supernode r then r
      else r\<lparr>cp_is_supernode := True, cp_supernode_from_invite := True\<rparr>)"

definition restore_one :: "'a client_peer key_order \<Rightarrow> string \<Rightarrow> bool \<times> 'a peer_map \<Rightarrow> bool \<times> 'a peer_map" where
  "restore_one ord i st =
     (case st of (changed, m) \<Rightarrow>
        if i = [] \<or> is_supernode_id ord i m then (changed, m)
        else fold (\<lambda>k (ch, m). case m k of
               None \<Rightarrow> (ch, m)
             | Some r \<Rightarrow> (ch \<or> \<not> (cp_blocked r \<or> cp_revoked r \<or> cp_is_supernode r), m(k \<mapsto> restore_record r)))
             (filter (\<lambda>k. case m k of None \<Rightarrow> False | Some r \<Rightarrow> known_as i r) (ord m)) (changed, m))"

definition restore_supernodes_referenced_by_ids :: "'a client_peer key_order \<Rightarrow> string list \<Rightarrow> 'a peer_map \<Rightarrow> bool \<times> 'a peer_map" where
  "restore_supernodes_referenced_by_ids ord ids m = fold (restore_one ord) ids (False, m)"

section \<open>What the queries and changes give\<close>

lemma map_values_set: "orders ord \<Longrightarrow> finite (dom m) \<Longrightarrow> set (map_values ord m) = ran m"
  by (auto simp: orders_def map_values_def map_filter_def ran_def image_iff dom_def) (metis (mono_tags, lifting) option.distinct(1) option.sel)

lemma resolve_supernode_some:
  assumes "orders ord" and "finite (dom m)" and "resolve_supernode_identity_pub ord i m = Some c"
  shows "\<exists>r \<in> ran m. trusted_supernode r \<and> known_as i r \<and> cp_identity_pub r = c"
  using assms map_values_set [OF assms(1,2)] by (auto simp: resolve_supernode_identity_pub_def find_Some_iff split: if_splits)

text \<open>
  After an invite the identity has exactly the new record, and a record of another identity is lost only
  if it is filed under the id the new record gets when its own id is taken.
\<close>

lemma upsert_from_invite_unique:
  assumes "upsert_from_invite r m = m'"
  shows "(\<exists>!k. \<exists>q. m' k = Some q \<and> cp_identity_pub q = cp_identity_pub r)"
    and "\<And>k q. m k = Some q \<Longrightarrow> cp_identity_pub q \<noteq> cp_identity_pub r \<Longrightarrow> k \<noteq> cp_identity_pub r \<Longrightarrow> m' k = Some q"
  using assms by (auto simp: upsert_from_invite_def insert_record_def Let_def retain_apply split: option.splits if_splits)

section \<open>Saving and opening\<close>

text \<open>Filing values under their keys again gives the map they were taken from.\<close>

lemma fold_keyed_aux:
  "\<forall>v \<in> set vs. m (key v) = Some v \<Longrightarrow> fold (\<lambda>v m. m(key v \<mapsto> v)) vs acc k = (if k \<in> key ` set vs then m k else acc k)"
  by (induction vs arbitrary: acc) auto

lemma fold_keyed:
  assumes "\<And>k v. m k = Some v \<Longrightarrow> key v = k" and "set vs = ran m"
  shows "fold (\<lambda>v m. m(key v \<mapsto> v)) vs Map.empty = m"
proof
  fix k
  have "\<forall>v \<in> set vs. m (key v) = Some v" using assms by (auto simp: ran_def)
  moreover have "m k = None" if "k \<notin> key ` set vs" using that assms by (cases "m k") (auto simp: ran_def image_iff)
  ultimately show "fold (\<lambda>v m. m(key v \<mapsto> v)) vs Map.empty k = m k" by (simp add: fold_keyed_aux)
qed

definition peers_keyed :: "'a peer_map \<Rightarrow> bool" where
  "peers_keyed m \<longleftrightarrow> finite (dom m) \<and> (\<forall>k r. m k = Some r \<longrightarrow> cp_peer_id r = k)"

lemma peers_keyed_ops:
  assumes "peers_keyed m"
  shows "peers_keyed (insert_record r m)" "peers_keyed (upsert_from_invite r m)" "peers_keyed (m(i := None))"
    "peers_keyed (snd (remove_by_any_id ord i m))"
proof -
  have *: "peers_keyed (insert_record q m')" if "peers_keyed m'" for q m' using that by (auto simp: peers_keyed_def insert_record_def)
  show "peers_keyed (insert_record r m)" using * assms .
  show "peers_keyed (upsert_from_invite r m)"
    unfolding upsert_from_invite_def Let_def using assms
    by (intro *) (auto simp: peers_keyed_def retain_Some_iff finite_dom_retain)
qed (use assms in \<open>auto simp: peers_keyed_def remove_by_any_id_def split: option.splits if_splits\<close>)

lemma peer_file_roundtrip:
  assumes "kdf_ok X" and "Json_Value.json_ok L" and "peer_codec_ok c" and "orders ord" and "peers_keyed (cs_records s)"
    and "length (cs_key s) = 32" and "length nonce = 12" and "save_peer_file X L c ord nonce now True s = (True, s')"
    and "length (jl_print L [(''peers'', VArr (map (pc_value c) (cpeer_list ord (cs_records s)))), (''updated_at'', VNum (NFloat now)),
           (''version'', VNum (NInt 1))]) \<le> GCM_MAX"
  shows "cs_records (open_peer_store X L c True (cs_key s) (cs_file s')) = cs_records s"
proof -
  define vs where "vs = cpeer_list ord (cs_records s)"
  let ?doc = "[(''peers'', VArr (map (pc_value c) vs)), (''updated_at'', VNum (NFloat now)), (''version'', VNum (NInt 1))]"
  have "length (as_bytes (jl_print L ?doc)) \<le> GCM_MAX" using assms(9) by (simp add: vs_def)
  from blob_roundtrip [OF assms(1,6,7) this] obtain e where
    e: "encrypt_blob X nonce (cs_key s) (as_bytes (jl_print L ?doc)) = Inr e" "decrypt_blob X (cs_key s) e = Inr (as_bytes (jl_print L ?doc))" by blast
  have f: "cs_file s' = Some e" using assms(8) e(1) by (auto simp: save_peer_file_def vs_def [symmetric] Let_def)
  have "jl_parse L (jl_print L ?doc) = Some (jobj ?doc)"
    using assms(2,3) by (simp add: Json_Value.json_ok_def peer_codec_ok_def)
  moreover have "List.map_filter (pc_record c) (map (pc_value c) vs) = vs"
    using assms(3) by (simp add: peer_codec_ok_def map_filter_def filter_map comp_def)
  moreover have "fold insert_record vs Map.empty = cs_records s"
  proof -
    have "set vs = ran (cs_records s)"
      using map_values_set [OF assms(4)] assms(5) by (simp add: vs_def cpeer_list_def peers_keyed_def)
    then have "fold (\<lambda>v m. m(cp_peer_id v \<mapsto> v)) vs Map.empty = cs_records s"
      using assms(5) by (intro fold_keyed) (auto simp: peers_keyed_def)
    then show ?thesis by (simp add: insert_record_def [abs_def])
  qed
  ultimately show ?thesis
    by (simp add: open_peer_store_def load_peer_file_def f e(2) jget_jobj)
qed

section \<open>Sealed files\<close>

definition seal_sound :: "kdf_lib \<Rightarrow> bool" where
  "seal_sound X \<longleftrightarrow> (\<forall>k n aad m c. x_seal X k n aad m = Some c \<longrightarrow> x_open X k n aad c = Some m)"

lemma decrypt_encrypted:
  assumes "seal_sound X" and "length nonce = 12" and "encrypt_blob X nonce key m = Inr e"
  shows "decrypt_blob X key e = Inr m"
proof -
  obtain ct where "x_seal X key nonce [] m = Some ct" "e = 1 # nonce @ ct" "length key = 32"
    using assms(3) by (auto simp: encrypt_blob_def ENVELOPE_VERSION_def KEY_LEN_def split: if_splits option.splits)
  with assms(1,2) show ?thesis
    by (auto simp: decrypt_blob_def seal_sound_def KEY_LEN_def NONCE_LEN_def HEADER_LEN_def ENVELOPE_VERSION_def)
qed

end
