(* ===== verification/Room_Store.thy ===== *)
theory Room_Store
  imports Client_Peers Space Brand
begin

text \<open>
  The rooms a client keeps, \<open>conquerd-client/src/room_store.rs\<close>: saved room definitions, the rooms the user
  hid, and the spaces the user owns, in one encrypted file. The serialised form is an argument
  (\<open>rv_write\<close>, \<open>rv_read\<close>), as are the iteration orders of the hash containers. \<open>store_io\<close> says what happens to
  the file during a call. An operation returns \<open>None\<close> when it panics: the log lines cut ids at byte
  twelve, which may be inside a character.
\<close>

section \<open>State\<close>

record room_entry =
  re_room_id :: string
  re_room_name :: string
  re_room_type :: string
  re_supernode_id :: string
  re_creator_id :: string
  re_invite_token :: string
  re_is_creator :: bool
  re_space_id :: string
  re_parent_id :: string
  re_invite_policy :: string

definition new_room_entry :: "string \<Rightarrow> string \<Rightarrow> room_entry" where
  "new_room_entry room_id room_name =
     \<lparr>re_room_id = room_id, re_room_name = room_name, re_room_type = ''public'', re_supernode_id = [], re_creator_id = [],
      re_invite_token = [], re_is_creator = False, re_space_id = [], re_parent_id = [], re_invite_policy = []\<rparr>"

record store_data =
  sd_schema :: u32
  sd_rooms :: "room_entry list"
  sd_deleted_ids :: "string list"
  sd_spaces :: "space list"

record room_store =
  rs_key :: bytes
  rs_rooms :: "string \<rightharpoonup> room_entry"
  rs_deleted :: "string set"
  rs_spaces :: "string \<rightharpoonup> space"
  rs_file :: "bytes option"

record room_env =
  rv_kdf :: kdf_lib
  rv_write :: "store_data \<Rightarrow> bytes"
  rv_read :: "bytes \<Rightarrow> store_data option"
  rv_rooms :: "room_entry key_order"
  rv_spaces :: "space key_order"
  rv_deleted :: "string set \<Rightarrow> string list"

record store_io =
  si_nonce :: bytes
  si_readable :: bool
  si_writable :: bool

datatype store_error = Store_crypto crypto_error | Store_io | Store_format | Missing_supernode

type_synonym 'r outcome = "((store_error + 'r) \<times> room_store) option"

definition entry_key :: "string \<Rightarrow> string \<Rightarrow> string" where
  "entry_key supernode_id room_id = supernode_id @ '':'' @ room_id"

definition key_of_entry :: "room_entry \<Rightarrow> string" where
  "key_of_entry e = entry_key (re_supernode_id e) (re_room_id e)"

definition loggable :: "string list \<Rightarrow> bool" where
  "loggable ids \<longleftrightarrow> list_all (\<lambda>s. str_prefix (min (length s) 12) s \<noteq> None) ids"

section \<open>The file\<close>

definition load_rooms :: "room_env \<Rightarrow> store_io \<Rightarrow> room_store \<Rightarrow> unit outcome" where
  "load_rooms E io s =
     (case rs_file s of
        None \<Rightarrow> Some (Inr (), s)
      | Some envelope \<Rightarrow>
          if \<not> si_readable io then Some (Inl Store_io, s)
          else case decrypt_blob (rv_kdf E) (rs_key s) envelope of
              Inl e \<Rightarrow> Some (Inl (Store_crypto e), s)
            | Inr plaintext \<Rightarrow>
                (case rv_read E plaintext of
                   None \<Rightarrow> Some (Inl Store_format, s)
                 | Some d \<Rightarrow>
                     if \<not> loggable (map re_room_id (filter (\<lambda>e. re_supernode_id e = []) (sd_rooms d))) then None
                     else Some (Inr (), s\<lparr>
                       rs_rooms := fold (\<lambda>e m. m(key_of_entry e \<mapsto> e)) (filter (\<lambda>e. re_supernode_id e \<noteq> []) (sd_rooms d)) (rs_rooms s),
                       rs_deleted := rs_deleted s \<union> set (sd_deleted_ids d),
                       rs_spaces := fold (\<lambda>sp m. m(sp_space_id sp \<mapsto> sp)) (sd_spaces d) (rs_spaces s)\<rparr>)))"

definition open_rooms :: "room_env \<Rightarrow> store_io \<Rightarrow> bytes \<Rightarrow> bytes option \<Rightarrow> unit outcome" where
  "open_rooms E io key f = load_rooms E io \<lparr>rs_key = key, rs_rooms = Map.empty, rs_deleted = {}, rs_spaces = Map.empty, rs_file = f\<rparr>"

definition all_spaces :: "room_env \<Rightarrow> room_store \<Rightarrow> space list" where
  "all_spaces E s = sort_key sp_space_id (map_values (rv_spaces E) (rs_spaces s))"

definition list_rooms_stored :: "room_env \<Rightarrow> room_store \<Rightarrow> room_entry list" where
  "list_rooms_stored E s = sort_key re_supernode_id (sort_key re_room_name (map_values (rv_rooms E) (rs_rooms s)))"

definition store_snapshot :: "room_env \<Rightarrow> room_store \<Rightarrow> store_data" where
  "store_snapshot E s = \<lparr>sd_schema = 1, sd_rooms = list_rooms_stored E s, sd_deleted_ids = rv_deleted E (rs_deleted s), sd_spaces = all_spaces E s\<rparr>"

definition save_rooms :: "room_env \<Rightarrow> store_io \<Rightarrow> room_store \<Rightarrow> unit outcome" where
  "save_rooms E io s =
     (case encrypt_blob (rv_kdf E) (si_nonce io) (rs_key s) (rv_write E (store_snapshot E s)) of
        Inl e \<Rightarrow> Some (Inl (Store_crypto e), s)
      | Inr envelope \<Rightarrow> if si_writable io then Some (Inr (), s\<lparr>rs_file := Some envelope\<rparr>) else Some (Inl Store_io, s))"

definition saving :: "room_env \<Rightarrow> store_io \<Rightarrow> 'r \<Rightarrow> room_store \<Rightarrow> 'r outcome" where
  "saving E io r s = (case save_rooms E io s of None \<Rightarrow> None | Some (Inl e, s') \<Rightarrow> Some (Inl e, s') | Some (Inr _, s') \<Rightarrow> Some (Inr r, s'))"

section \<open>Spaces\<close>

definition space_id_for :: "crates \<Rightarrow> string \<Rightarrow> string \<Rightarrow> string" where
  "space_id_for C owner_pub supernode_id = derive_node_id C [] owner_pub supernode_id"

definition adopt_room_into_space :: "room_env \<Rightarrow> store_io \<Rightarrow> crates \<Rightarrow> string \<Rightarrow> string \<Rightarrow> string \<Rightarrow> string \<Rightarrow> string \<Rightarrow> string \<Rightarrow> u64 \<Rightarrow>
    (bytes \<Rightarrow> bytes) \<Rightarrow> room_store \<Rightarrow> signed_space_root outcome" where
  "adopt_room_into_space E io C owner_pub supernode_id room_id room_name room_type parent_node_id issued_at sign s =
     (let space_id = space_id_for C owner_pub supernode_id;
          parent_id = (if parent_node_id = [] \<or> parent_node_id = room_id then space_id else parent_node_id);
          space = (case rs_spaces s space_id of None \<Rightarrow> new_server C owner_pub supernode_id | Some sp \<Rightarrow> sp);
          node_type = (if to_ascii_lowercase room_type = ''private'' then ''private'' else ''public'');
          (_, space1) = upsert_node \<lparr>sn_node_id = room_id, sn_parent_id = parent_id, sn_kind = ''room'', sn_name = room_name,
             sn_node_type = node_type, sn_owner_pub = owner_pub, sn_invite_policy = [], sn_inherit = False, sn_key_commit = []\<rparr> space;
          root = signed_root C space1 issued_at sign;
          k = entry_key supernode_id room_id;
          rooms = (case rs_rooms s k of None \<Rightarrow> rs_rooms s
             | Some e \<Rightarrow> (rs_rooms s)(k \<mapsto> e\<lparr>re_space_id := space_id, re_parent_id := parent_id\<rparr>))
      in saving E io root (s\<lparr>rs_spaces := (rs_spaces s)(space_id \<mapsto> space1), rs_rooms := rooms\<rparr>))"

definition set_space_linkage :: "room_env \<Rightarrow> store_io \<Rightarrow> string \<Rightarrow> string \<Rightarrow> string \<Rightarrow> string \<Rightarrow> room_store \<Rightarrow> unit outcome" where
  "set_space_linkage E io supernode_id room_id parent_id space_id s =
     (let k = entry_key supernode_id room_id
      in case rs_rooms s k of
           None \<Rightarrow> Some (Inr (), s)
         | Some e \<Rightarrow>
             (let e1 = (if parent_id \<noteq> [] \<and> re_parent_id e \<noteq> parent_id then e\<lparr>re_parent_id := parent_id\<rparr> else e);
                  e2 = (if space_id \<noteq> [] \<and> re_space_id e1 \<noteq> space_id then e1\<lparr>re_space_id := space_id\<rparr> else e1);
                  changed = (parent_id \<noteq> [] \<and> re_parent_id e \<noteq> parent_id \<or> space_id \<noteq> [] \<and> re_space_id e1 \<noteq> space_id);
                  s1 = s\<lparr>rs_rooms := (rs_rooms s)(k \<mapsto> e2)\<rparr>
              in if changed then saving E io () s1 else Some (Inr (), s1)))"

section \<open>Rooms\<close>

definition room_add :: "room_env \<Rightarrow> store_io \<Rightarrow> room_entry \<Rightarrow> room_store \<Rightarrow> unit outcome" where
  "room_add E io e s =
     (if re_supernode_id e = [] then Some (Inl Missing_supernode, s)
      else if \<not> loggable [re_room_id e, re_supernode_id e] then None
      else saving E io () (s\<lparr>rs_deleted := rs_deleted s - {key_of_entry e}, rs_rooms := (rs_rooms s)(key_of_entry e \<mapsto> e)\<rparr>))"

definition merge_entry :: "room_entry \<Rightarrow> room_entry \<Rightarrow> room_entry" where
  "merge_entry old e =
     e\<lparr>re_room_name := (if re_room_name e = [] \<or> re_room_name e = re_room_id e \<and> re_room_name old \<noteq> [] \<and> re_room_name old \<noteq> re_room_id old
          then re_room_name old else re_room_name e),
       re_room_type := (if re_room_type e = [] then re_room_type old
          else if re_room_type old = ''private'' \<and> re_room_type e = ''public'' \<and> (re_is_creator old \<or> re_invite_token old \<noteq> [])
          then re_room_type old else re_room_type e),
       re_creator_id := (if re_creator_id e = [] then re_creator_id old else re_creator_id e),
       re_invite_token := (if re_invite_token e = [] then re_invite_token old else re_invite_token e),
       re_space_id := (if re_space_id e = [] then re_space_id old else re_space_id e),
       re_parent_id := (if re_parent_id e = [] then re_parent_id old else re_parent_id e),
       re_invite_policy := (if re_invite_policy e = [] then re_invite_policy old else re_invite_policy e),
       re_is_creator := (re_is_creator e \<or> re_is_creator old)\<rparr>"

definition merge_in_memory :: "room_entry \<Rightarrow> room_store \<Rightarrow> bool outcome" where
  "merge_in_memory e s =
     (if re_supernode_id e = [] then Some (Inl Missing_supernode, s)
      else let k = key_of_entry e;
               merged = (case rs_rooms s k of None \<Rightarrow> e | Some old \<Rightarrow> merge_entry old e);
               was_hidden = (k \<in> rs_deleted s);
               s1 = s\<lparr>rs_deleted := rs_deleted s - {k}\<rparr>
           in if rs_rooms s k = Some merged \<and> \<not> was_hidden then Some (Inr False, s1)
              else if \<not> loggable [re_room_id merged, re_supernode_id merged] then None
              else Some (Inr True, s1\<lparr>rs_rooms := (rs_rooms s)(k \<mapsto> merged)\<rparr>))"

definition room_upsert :: "room_env \<Rightarrow> store_io \<Rightarrow> room_entry \<Rightarrow> room_store \<Rightarrow> unit outcome" where
  "room_upsert E io e s =
     (case merge_in_memory e s of
        None \<Rightarrow> None
      | Some (Inl err, s1) \<Rightarrow> Some (Inl err, s1)
      | Some (Inr changed, s1) \<Rightarrow> if changed then saving E io () s1 else Some (Inr (), s1))"

definition is_hidden_from_sidebar :: "string \<Rightarrow> string \<Rightarrow> room_store \<Rightarrow> bool" where
  "is_hidden_from_sidebar supernode_id room_id s \<longleftrightarrow> entry_key supernode_id room_id \<in> rs_deleted s"

fun merge_all :: "room_entry list \<Rightarrow> bool \<Rightarrow> room_store \<Rightarrow> (bool \<times> room_store) option" where
  "merge_all [] dirty s = Some (dirty, s)"
| "merge_all (e # es) dirty s =
     (if re_supernode_id e \<noteq> [] \<and> is_hidden_from_sidebar (re_supernode_id e) (re_room_id e) s then merge_all es dirty s
      else case merge_in_memory e s of
          None \<Rightarrow> None
        | Some (Inl _, s1) \<Rightarrow> merge_all es dirty s1
        | Some (Inr changed, s1) \<Rightarrow> merge_all es (dirty \<or> changed) s1)"

definition upsert_many_from_remote :: "room_env \<Rightarrow> store_io \<Rightarrow> room_entry list \<Rightarrow> room_store \<Rightarrow> unit outcome" where
  "upsert_many_from_remote E io es s =
     (case merge_all es False s of
        None \<Rightarrow> None
      | Some (dirty, s1) \<Rightarrow> if dirty then saving E io () s1 else Some (Inr (), s1))"

definition upsert_from_remote :: "room_env \<Rightarrow> store_io \<Rightarrow> room_entry \<Rightarrow> room_store \<Rightarrow> unit outcome" where
  "upsert_from_remote E io e s =
     (if re_supernode_id e \<noteq> [] \<and> is_hidden_from_sidebar (re_supernode_id e) (re_room_id e) s then Some (Inr (), s)
      else room_upsert E io e s)"

definition room_remove :: "room_env \<Rightarrow> store_io \<Rightarrow> string \<Rightarrow> string \<Rightarrow> room_store \<Rightarrow> unit outcome" where
  "room_remove E io supernode_id room_id s =
     (let k = entry_key supernode_id room_id
      in if \<not> loggable [room_id, supernode_id] then None
         else saving E io () (s\<lparr>rs_rooms := (rs_rooms s)(k := None), rs_deleted := insert k (rs_deleted s)\<rparr>))"

definition hide_from_sidebar :: "room_env \<Rightarrow> store_io \<Rightarrow> string \<Rightarrow> string \<Rightarrow> room_store \<Rightarrow> unit outcome" where
  "hide_from_sidebar E io supernode_id room_id s =
     (if \<not> loggable [room_id, supernode_id] then None
      else saving E io () (s\<lparr>rs_deleted := insert (entry_key supernode_id room_id) (rs_deleted s)\<rparr>))"

definition unhide_from_sidebar :: "room_env \<Rightarrow> store_io \<Rightarrow> string \<Rightarrow> string \<Rightarrow> room_store \<Rightarrow> unit outcome" where
  "unhide_from_sidebar E io supernode_id room_id s =
     (let k = entry_key supernode_id room_id
      in if k \<notin> rs_deleted s then Some (Inr (), s)
         else if \<not> loggable [room_id, supernode_id] then None
         else saving E io () (s\<lparr>rs_deleted := rs_deleted s - {k}\<rparr>))"

definition undelete :: "string \<Rightarrow> string \<Rightarrow> room_store \<Rightarrow> room_store" where
  "undelete supernode_id room_id s = s\<lparr>rs_deleted := rs_deleted s - {entry_key supernode_id room_id}\<rparr>"

section \<open>Queries\<close>

definition room_get :: "string \<Rightarrow> string \<Rightarrow> room_store \<Rightarrow> room_entry option" where
  "room_get supernode_id room_id s = rs_rooms s (entry_key supernode_id room_id)"

definition list_for_supernode :: "room_env \<Rightarrow> string \<Rightarrow> room_store \<Rightarrow> room_entry list" where
  "list_for_supernode E supernode_id s =
     sort_key re_room_name (filter (\<lambda>e. re_supernode_id e = supernode_id) (map_values (rv_rooms E) (rs_rooms s)))"

definition resolved :: "'a client_peer key_order \<Rightarrow> 'a peer_map \<Rightarrow> string \<Rightarrow> string" where
  "resolved ord m i = (case resolve_supernode_identity_pub ord i m of None \<Rightarrow> i | Some c \<Rightarrow> c)"

definition list_for_supernode_resolved :: "room_env \<Rightarrow> 'a client_peer key_order \<Rightarrow> 'a peer_map \<Rightarrow> string \<Rightarrow> room_store \<Rightarrow> room_entry list" where
  "list_for_supernode_resolved E ord m supernode_id s =
     sort_key re_room_name (filter (\<lambda>e. resolved ord m (re_supernode_id e) = resolved ord m supernode_id)
       (map_values (rv_rooms E) (rs_rooms s)))"

fun first_per_room :: "room_entry list \<Rightarrow> string list \<Rightarrow> room_entry list" where
  "first_per_room [] seen = []"
| "first_per_room (e # es) seen =
     (if re_room_id e \<in> set seen then first_per_room es seen else e # first_per_room es (re_room_id e # seen))"

definition list_for_cluster_members :: "room_env \<Rightarrow> 'a client_peer key_order \<Rightarrow> 'a peer_map \<Rightarrow> string list \<Rightarrow> room_store \<Rightarrow> room_entry list" where
  "list_for_cluster_members E ord m member_ids s =
     (let bares = concat (map (\<lambda>i. bare i # (case resolve_supernode_identity_pub ord i m of None \<Rightarrow> [] | Some c \<Rightarrow> [bare c])) member_ids)
      in if bares = [] then []
         else sort_key re_room_name (first_per_room
           (filter (\<lambda>e. bare (resolved ord m (re_supernode_id e)) \<in> set bares \<or> bare (re_supernode_id e) \<in> set bares)
             (map_values (rv_rooms E) (rs_rooms s))) []))"

definition owned_rooms :: "room_env \<Rightarrow> room_store \<Rightarrow> room_entry list" where
  "owned_rooms E s = filter re_is_creator (map_values (rv_rooms E) (rs_rooms s))"

section \<open>Canonical supernode ids\<close>

definition split_once :: "char \<Rightarrow> string \<Rightarrow> (string \<times> string) option" where
  "split_once c s = (case dropWhile (\<lambda>x. x \<noteq> c) s of [] \<Rightarrow> None | _ # r \<Rightarrow> Some (takeWhile (\<lambda>x. x \<noteq> c) s, r))"

definition normalize_entry :: "'a client_peer key_order \<Rightarrow> 'a peer_map \<Rightarrow> room_entry \<Rightarrow> bool \<times> (string \<rightharpoonup> room_entry) \<Rightarrow> bool \<times> (string \<rightharpoonup> room_entry)" where
  "normalize_entry ord m e st =
     (case resolve_supernode_identity_pub ord (re_supernode_id e) m of
        None \<Rightarrow> st
      | Some canon \<Rightarrow>
          if canon = re_supernode_id e then st
          else let moved = e\<lparr>re_supernode_id := canon\<rparr>
               in (True, ((snd st)(key_of_entry e := None))(key_of_entry moved \<mapsto> moved)))"

definition normalize_hidden :: "'a client_peer key_order \<Rightarrow> 'a peer_map \<Rightarrow> string \<Rightarrow> bool \<times> string set \<Rightarrow> bool \<times> string set" where
  "normalize_hidden ord m k st =
     (case split_once (CHR '':'') k of
        None \<Rightarrow> st
      | Some (sn, rid) \<Rightarrow>
          (case resolve_supernode_identity_pub ord sn m of
             None \<Rightarrow> st
           | Some canon \<Rightarrow> if canon = sn then st else (True, insert (entry_key canon rid) (snd st - {k}))))"

definition normalize_supernode_ids :: "room_env \<Rightarrow> store_io \<Rightarrow> 'a client_peer key_order \<Rightarrow> 'a peer_map \<Rightarrow> room_store \<Rightarrow> bool outcome" where
  "normalize_supernode_ids E io ord m s =
     (let (c1, rooms) = fold (normalize_entry ord m) (map_values (rv_rooms E) (rs_rooms s)) (False, rs_rooms s);
          (c2, hidden) = fold (normalize_hidden ord m) (rv_deleted E (rs_deleted s)) (c1, rs_deleted s);
          s1 = s\<lparr>rs_rooms := rooms, rs_deleted := hidden\<rparr>
      in if c2 then saving E io True s1 else Some (Inr False, s1))"

section \<open>Invariant and persistence\<close>

text \<open>
  What the libraries promise: what was sealed is opened, what was written is read, and iterating over a hash
  container gives its elements.
\<close>

definition room_env_ok :: "room_env \<Rightarrow> bool" where
  "room_env_ok E \<longleftrightarrow> seal_sound (rv_kdf E) \<and> orders (rv_rooms E) \<and> orders (rv_spaces E) \<and>
     (\<forall>S. finite S \<longrightarrow> set (rv_deleted E S) = S) \<and> (\<forall>d. rv_read E (rv_write E d) = Some d)"

definition room_store_ok :: "room_store \<Rightarrow> bool" where
  "room_store_ok s \<longleftrightarrow> finite (dom (rs_rooms s)) \<and> finite (rs_deleted s) \<and> finite (dom (rs_spaces s)) \<and>
     (\<forall>k e. rs_rooms s k = Some e \<longrightarrow> key_of_entry e = k \<and> re_supernode_id e \<noteq> []) \<and>
     (\<forall>k sp. rs_spaces s k = Some sp \<longrightarrow> sp_space_id sp = k)"

definition same_content :: "room_store \<Rightarrow> room_store \<Rightarrow> bool" where
  "same_content s t \<longleftrightarrow> rs_rooms t = rs_rooms s \<and> rs_deleted t = rs_deleted s \<and> rs_spaces t = rs_spaces s"

definition synced :: "room_env \<Rightarrow> room_store \<Rightarrow> bool" where
  "synced E s \<longleftrightarrow> (\<forall>io. si_readable io \<longrightarrow> (\<exists>t. open_rooms E io (rs_key s) (rs_file s) = Some (Inr (), t) \<and> same_content s t))"

definition persisted :: "room_env \<Rightarrow> room_store \<Rightarrow> bool" where
  "persisted E s \<longleftrightarrow> room_store_ok s \<and> synced E s"

lemma saving_persists:
  assumes "room_env_ok E" and "room_store_ok s" and "length (si_nonce io) = 12" and "saving E io r s = Some (Inr x, s')"
  shows "persisted E s' \<and> same_content s s' \<and> rs_key s' = rs_key s"
proof -
  obtain e where e: "encrypt_blob (rv_kdf E) (si_nonce io) (rs_key s) (rv_write E (store_snapshot E s)) = Inr e" "s' = s\<lparr>rs_file := Some e\<rparr>"
    using assms(4) by (auto simp: saving_def save_rooms_def split: sum.splits if_splits)
  have d: "decrypt_blob (rv_kdf E) (rs_key s) e = Inr (rv_write E (store_snapshot E s))"
    using assms(1) by (intro decrypt_encrypted [OF _ assms(3) e(1)]) (simp add: room_env_ok_def)
  have sets: "set (list_rooms_stored E s) = ran (rs_rooms s)" "set (all_spaces E s) = ran (rs_spaces s)" "set (rv_deleted E (rs_deleted s)) = rs_deleted s"
    using assms(1,2) by (auto simp: list_rooms_stored_def all_spaces_def map_values_set room_env_ok_def room_store_ok_def)
  have sn: "\<forall>e \<in> set (list_rooms_stored E s). re_supernode_id e \<noteq> []"
    using assms(2) unfolding sets by (auto simp: room_store_ok_def ran_def)
  have "fold (\<lambda>e m. m(key_of_entry e \<mapsto> e)) (list_rooms_stored E s) Map.empty = rs_rooms s"
    "fold (\<lambda>sp m. m(sp_space_id sp \<mapsto> sp)) (all_spaces E s) Map.empty = rs_spaces s"
    using assms(2) sets by (auto intro!: fold_keyed simp: room_store_ok_def)
  then have "synced E s'"
    using assms(1) sn sets(3)
    by (auto simp: synced_def open_rooms_def load_rooms_def e(2) d room_env_ok_def store_snapshot_def same_content_def loggable_def
        filter_empty_conv [THEN iffD2] filter_id_conv [THEN iffD2])
  with assms(2) e(2) show ?thesis by (simp add: persisted_def room_store_ok_def same_content_def)
qed

subsection \<open>What an operation makes of a store before it saves\<close>

lemma room_store_ok_upd:
  "room_store_ok s \<Longrightarrow> key_of_entry e = k \<Longrightarrow> re_supernode_id e \<noteq> [] \<Longrightarrow> room_store_ok (s\<lparr>rs_rooms := (rs_rooms s)(k \<mapsto> e)\<rparr>)"
  "room_store_ok s \<Longrightarrow> finite D \<Longrightarrow> room_store_ok (s\<lparr>rs_deleted := D\<rparr>)"
  "room_store_ok s \<Longrightarrow> room_store_ok (s\<lparr>rs_rooms := (rs_rooms s)(k := None)\<rparr>)"
  "room_store_ok s \<Longrightarrow> sp_space_id sp = i \<Longrightarrow> room_store_ok (s\<lparr>rs_spaces := (rs_spaces s)(i \<mapsto> sp)\<rparr>)"
  by (auto simp: room_store_ok_def)

lemma room_store_okD:
  "room_store_ok s \<Longrightarrow> rs_rooms s k = Some e \<Longrightarrow> key_of_entry e = k \<and> re_supernode_id e \<noteq> []"
  "room_store_ok s \<Longrightarrow> finite (rs_deleted s)"
  "room_store_ok s \<Longrightarrow> rs_spaces s i = Some sp \<Longrightarrow> sp_space_id sp = i"
  by (auto simp: room_store_ok_def)

lemma merge_entry_ids [simp]:
  "re_supernode_id (merge_entry old e) = re_supernode_id e" "re_room_id (merge_entry old e) = re_room_id e"
  "key_of_entry (merge_entry old e) = key_of_entry e"
  by (simp_all add: merge_entry_def key_of_entry_def)

lemma merge_in_memory_ok:
  assumes "room_store_ok s" and "merge_in_memory e s = Some (r, s1)"
  shows "room_store_ok s1 \<and> rs_key s1 = rs_key s \<and> rs_file s1 = rs_file s \<and> (r \<noteq> Inr True \<longrightarrow> s1 = s)"
proof (cases "re_supernode_id e = []")
  case False
  define k where "k = key_of_entry e"
  define merged where "merged = (case rs_rooms s k of None \<Rightarrow> e | Some old \<Rightarrow> merge_entry old e)"
  have m: "key_of_entry merged = k" "re_supernode_id merged \<noteq> []"
    using False by (simp_all add: merged_def k_def split: option.split)
  have ok: "room_store_ok (s\<lparr>rs_deleted := rs_deleted s - {k}\<rparr>)"
    "room_store_ok (s\<lparr>rs_deleted := rs_deleted s - {k}, rs_rooms := (rs_rooms s)(k \<mapsto> merged)\<rparr>)"
    using room_store_ok_upd(1) [OF room_store_ok_upd(2) [OF assms(1)] m, of "rs_deleted s - {k}"] room_store_ok_upd(2) [OF assms(1)]
      room_store_okD(2) [OF assms(1)] by simp_all
  have "s\<lparr>rs_deleted := rs_deleted s - {k}\<rparr> = s" if "k \<notin> rs_deleted s" using that by simp
  with assms(2) False ok show ?thesis
    unfolding merge_in_memory_def Let_def k_def [symmetric] merged_def [symmetric] by (auto split: if_splits)
qed (use assms in \<open>auto simp: merge_in_memory_def\<close>)

lemma merge_all_ok:
  assumes "room_store_ok s" and "merge_all es dirty s = Some (dirty', s1)"
  shows "room_store_ok s1 \<and> rs_key s1 = rs_key s \<and> rs_file s1 = rs_file s \<and> (\<not> dirty' \<longrightarrow> s1 = s)"
proof -
  have "room_store_ok s1 \<and> rs_key s1 = rs_key s \<and> rs_file s1 = rs_file s \<and> (\<not> dirty' \<longrightarrow> \<not> dirty \<and> s1 = s)"
    using assms
  proof (induction es arbitrary: dirty s)
    case (Cons e es)
    show ?case
    proof (cases "re_supernode_id e \<noteq> [] \<and> is_hidden_from_sidebar (re_supernode_id e) (re_room_id e) s")
      case False
      then obtain r s2 where r: "merge_in_memory e s = Some (r, s2)"
          "merge_all es (dirty \<or> r = Inr True) s2 = Some (dirty', s1)"
        using Cons.prems(2) by (auto split: option.splits sum.splits)
      from merge_in_memory_ok [OF Cons.prems(1) r(1)] Cons.IH [OF _ r(2)] show ?thesis by auto
    qed (use Cons in auto)
  qed auto
  then show ?thesis by blast
qed

lemma normalize_entry_ok:
  assumes "\<forall>r \<in> ran m. trusted_supernode r \<longrightarrow> cp_identity_pub r \<noteq> []" and "orders ord" and "finite (dom m)"
    and "room_store_ok (s\<lparr>rs_rooms := snd st\<rparr>)"
  shows "room_store_ok (s\<lparr>rs_rooms := snd (normalize_entry ord m e st)\<rparr>)"
proof (cases "resolve_supernode_identity_pub ord (re_supernode_id e) m")
  case (Some c)
  with resolve_supernode_some [OF assms(2,3)] assms(1) have "c \<noteq> []" by blast
  with room_store_ok_upd(1) [OF room_store_ok_upd(3) [OF assms(4)], of "e\<lparr>re_supernode_id := c\<rparr>"] Some assms(4) show ?thesis
    by (simp add: normalize_entry_def Let_def)
qed (use assms(4) in \<open>simp add: normalize_entry_def\<close>)

lemma normalize_flags:
  "fst (normalize_entry ord m e st) = False \<Longrightarrow> fst st = False \<and> normalize_entry ord m e st = st"
  "fst (normalize_hidden ord m k st') = False \<Longrightarrow> fst st' = False \<and> normalize_hidden ord m k st' = st'"
  "finite (snd st') \<Longrightarrow> finite (snd (normalize_hidden ord m k st'))"
  by (auto simp: normalize_entry_def normalize_hidden_def Let_def split: option.splits if_splits)

lemma fold_flags:
  assumes "\<And>x st. fst (f x st) = False \<Longrightarrow> fst st = False \<and> f x st = st" and "fst (fold f xs st) = False"
  shows "fold f xs st = st"
  using assms(2)
proof (induction xs arbitrary: st)
  case (Cons x xs)
  from Cons.IH [of "f x st"] Cons.prems have "fold f xs (f x st) = f x st" by simp
  with assms(1) [of x st] Cons.prems show ?case by simp
qed simp

lemma normalize_ok:
  assumes "\<forall>r \<in> ran m. trusted_supernode r \<longrightarrow> cp_identity_pub r \<noteq> []" and "orders ord" and "finite (dom m)" and "room_store_ok s"
    and "fold (normalize_entry ord m) es (False, rs_rooms s) = (c1, rooms)" and "fold (normalize_hidden ord m) ks (c1, rs_deleted s) = (c2, hidden)"
  shows "room_store_ok (s\<lparr>rs_rooms := rooms, rs_deleted := hidden\<rparr>) \<and> (\<not> c2 \<longrightarrow> s\<lparr>rs_rooms := rooms, rs_deleted := hidden\<rparr> = s)"
proof -
  have "room_store_ok (s\<lparr>rs_rooms := snd (fold (normalize_entry ord m) es (False, rs_rooms s))\<rparr>)"
    by (rule fold_invariant [where Q = "\<lambda>_. True" and P = "\<lambda>st. room_store_ok (s\<lparr>rs_rooms := snd st\<rparr>)"])
       (use assms(4) normalize_entry_ok [OF assms(1-3)] in auto)
  then have r: "room_store_ok (s\<lparr>rs_rooms := rooms\<rparr>)" using assms(5) by simp
  have "finite (snd (fold (normalize_hidden ord m) ks (c1, rs_deleted s)))"
    by (rule fold_invariant [where Q = "\<lambda>_. True" and P = "\<lambda>st. finite (snd st)"])
       (use room_store_okD(2) [OF assms(4)] normalize_flags(3) in auto)
  then have "finite hidden" using assms(6) by simp
  from room_store_ok_upd(2) [OF r this] have ok: "room_store_ok (s\<lparr>rs_rooms := rooms, rs_deleted := hidden\<rparr>)" by simp
  have "rooms = rs_rooms s \<and> hidden = rs_deleted s" if "\<not> c2"
  proof -
    have h: "fst (fold (normalize_hidden ord m) ks (c1, rs_deleted s)) = False" using assms(6) that by simp
    have "(c2, hidden) = (c1, rs_deleted s)" using fold_flags [OF normalize_flags(2) h] assms(6) by simp
    moreover from this that assms(5) have r: "fst (fold (normalize_entry ord m) es (False, rs_rooms s)) = False" by simp
    have "(c1, rooms) = (False, rs_rooms s)" using fold_flags [OF normalize_flags(1) r] assms(5) by simp
    ultimately show ?thesis by simp
  qed
  with ok show ?thesis by auto
qed

section \<open>Histories\<close>

datatype 'a room_op =
    Op_add room_entry
  | Op_upsert room_entry
  | Op_sync "room_entry list"
  | Op_remote room_entry
  | Op_remove string string
  | Op_hide string string
  | Op_unhide string string
  | Op_link string string string string
  | Op_adopt crates string string string string string string u64 "bytes \<Rightarrow> bytes"
  | Op_normalize "'a client_peer key_order" "'a peer_map"

definition forget :: "'r outcome \<Rightarrow> unit outcome" where
  "forget r = map_option (\<lambda>(x, s). (map_sum id (\<lambda>_. ()) x, s)) r"

fun room_step :: "room_env \<Rightarrow> store_io \<Rightarrow> 'a room_op \<Rightarrow> room_store \<Rightarrow> unit outcome" where
  "room_step E io (Op_add e) s = room_add E io e s"
| "room_step E io (Op_upsert e) s = room_upsert E io e s"
| "room_step E io (Op_sync es) s = upsert_many_from_remote E io es s"
| "room_step E io (Op_remote e) s = upsert_from_remote E io e s"
| "room_step E io (Op_remove sn r) s = room_remove E io sn r s"
| "room_step E io (Op_hide sn r) s = hide_from_sidebar E io sn r s"
| "room_step E io (Op_unhide sn r) s = unhide_from_sidebar E io sn r s"
| "room_step E io (Op_link sn r p sp) s = set_space_linkage E io sn r p sp s"
| "room_step E io (Op_adopt C owner sn r name type parent time sign) s =
     forget (adopt_room_into_space E io C owner sn r name type parent time sign s)"
| "room_step E io (Op_normalize ord m) s = forget (normalize_supernode_ids E io ord m s)"

fun room_run :: "room_env \<Rightarrow> (store_io \<times> 'a room_op) list \<Rightarrow> room_store \<Rightarrow> room_store option" where
  "room_run E [] s = Some s"
| "room_run E ((io, op) # ops) s = (case room_step E io op s of Some (Inr _, s1) \<Rightarrow> room_run E ops s1 | _ \<Rightarrow> None)"

fun op_ok :: "'a room_op \<Rightarrow> bool" where
  "op_ok (Op_normalize ord m) \<longleftrightarrow> orders ord \<and> finite (dom m) \<and> (\<forall>r \<in> ran m. trusted_supernode r \<longrightarrow> cp_identity_pub r \<noteq> [])"
| "op_ok _ \<longleftrightarrow> True"

text \<open>Every operation leaves the store as it was, or saves a store that keeps the invariant.\<close>

definition settles :: "room_env \<Rightarrow> room_store \<Rightarrow> 'r outcome \<Rightarrow> bool" where
  "settles E s r \<longleftrightarrow> (\<forall>x s'. r = Some (Inr x, s') \<longrightarrow> s' = s \<or> persisted E s' \<and> rs_key s' = rs_key s)"

lemma settles_simps [simp]: "settles E s None" "settles E s (Some (Inl e, s'))" "settles E s (Some (Inr x, s))"
  by (simp_all add: settles_def)

lemma settles_forget [simp]: "settles E s (forget r) = settles E s r"
proof (cases r)
  case (Some p)
  then show ?thesis by (cases p; cases "fst p") (auto simp: settles_def forget_def)
qed (simp add: forget_def)

lemma settles_saving:
  assumes "room_env_ok E" and "length (si_nonce io) = 12" and "room_store_ok s1" and "rs_key s1 = rs_key s"
  shows "settles E s (saving E io r s1)"
  unfolding settles_def using saving_persists [OF assms(1,3,2)] assms(4) by metis

lemma room_upsert_settles:
  assumes "room_env_ok E" and "length (si_nonce io) = 12" and "room_store_ok s"
  shows "settles E s (room_upsert E io e s)"
proof (cases "merge_in_memory e s")
  case (Some p)
  obtain r s1 where p: "p = (r, s1)" by (cases p)
  note m = merge_in_memory_ok [OF assms(3) Some [unfolded p]]
  show ?thesis
  proof (cases r)
    case (Inr changed)
    with m settles_saving [OF assms(1,2), of s1 s "()"] show ?thesis
      by (cases changed) (simp_all add: room_upsert_def Some p)
  qed (simp add: room_upsert_def Some p)
qed (simp add: room_upsert_def)

lemma room_sync_settles:
  assumes "room_env_ok E" and "length (si_nonce io) = 12" and "room_store_ok s"
  shows "settles E s (upsert_many_from_remote E io es s)"
proof (cases "merge_all es False s")
  case (Some p)
  obtain dirty s1 where p: "p = (dirty, s1)" by (cases p)
  from merge_all_ok [OF assms(3) Some [unfolded p]] settles_saving [OF assms(1,2), of s1 s "()"] show ?thesis
    by (cases dirty) (simp_all add: upsert_many_from_remote_def Some p)
qed (simp add: upsert_many_from_remote_def)

lemma adopt_settles:
  assumes "room_env_ok E" and "length (si_nonce io) = 12" and "room_store_ok s"
  shows "settles E s (adopt_room_into_space E io C owner sn r name type parent time sign s)"
proof -
  define i where "i = space_id_for C owner sn"
  define space where "space = (case rs_spaces s i of None \<Rightarrow> new_server C owner sn | Some sp \<Rightarrow> sp)"
  have sp: "sp_space_id space = i"
    using room_store_okD(3) [OF assms(3)]
    by (simp add: space_def i_def space_id_for_def new_server_def Let_def split: option.split)
  have up: "sp_space_id (snd (upsert_node n space)) = i" for n by (simp add: upsert_node_def sp)
  have "room_store_ok (s\<lparr>rs_spaces := (rs_spaces s)(i \<mapsto> snd (upsert_node n space)),
      rs_rooms := (case rs_rooms s k of None \<Rightarrow> rs_rooms s | Some e \<Rightarrow> (rs_rooms s)(k \<mapsto> e\<lparr>re_space_id := i, re_parent_id := q\<rparr>))\<rparr>)" for n k q
    using assms(3) up by (auto simp: room_store_ok_def key_of_entry_def split: option.split)
  note ok = this
  show ?thesis
    unfolding adopt_room_into_space_def Let_def i_def [symmetric] space_def [symmetric] case_prod_unfold
    by (rule settles_saving [OF assms(1,2) ok]) simp
qed

lemma link_settles:
  assumes "room_env_ok E" and "length (si_nonce io) = 12" and "room_store_ok s"
  shows "settles E s (set_space_linkage E io sn r p sp s)"
proof (cases "rs_rooms s (entry_key sn r)")
  case (Some e)
  let ?k = "entry_key sn r"
  have ok: "room_store_ok (s\<lparr>rs_rooms := (rs_rooms s)(?k \<mapsto> e')\<rparr>)"
    if "re_room_id e' = re_room_id e" "re_supernode_id e' = re_supernode_id e" for e'
    using that room_store_okD(1) [OF assms(3) Some] by (intro room_store_ok_upd(1) [OF assms(3)]) (auto simp: key_of_entry_def)
  have same: "s\<lparr>rs_rooms := (rs_rooms s)(?k \<mapsto> e)\<rparr> = s" using Some by (simp add: map_upd_triv)
  show ?thesis
    using same by (auto simp: set_space_linkage_def Some Let_def intro!: settles_saving [OF assms(1,2)] ok)
qed (simp add: set_space_linkage_def)

lemma normalize_settles:
  assumes "room_env_ok E" and "length (si_nonce io) = 12" and "room_store_ok s" and "op_ok (Op_normalize ord m)"
  shows "settles E s (normalize_supernode_ids E io ord m s)"
proof -
  obtain c1 rooms where f1: "fold (normalize_entry ord m) (map_values (rv_rooms E) (rs_rooms s)) (False, rs_rooms s) = (c1, rooms)" by fastforce
  obtain c2 hidden where f2: "fold (normalize_hidden ord m) (rv_deleted E (rs_deleted s)) (c1, rs_deleted s) = (c2, hidden)" by fastforce
  have "room_store_ok (s\<lparr>rs_rooms := rooms, rs_deleted := hidden\<rparr>) \<and> (\<not> c2 \<longrightarrow> s\<lparr>rs_rooms := rooms, rs_deleted := hidden\<rparr> = s)"
    using assms(4) by (intro normalize_ok [OF _ _ _ assms(3) f1 f2]) auto
  with settles_saving [OF assms(1,2), of "s\<lparr>rs_rooms := rooms, rs_deleted := hidden\<rparr>" s True] show ?thesis
    by (cases c2) (simp_all add: normalize_supernode_ids_def f1 f2)
qed

lemma room_step_settles:
  assumes "room_env_ok E" and "length (si_nonce io) = 12" and "room_store_ok s" and "op_ok op"
  shows "settles E s (room_step E io op s)"
proof (cases op)
  case (Op_add e)
  have "room_store_ok (s\<lparr>rs_deleted := rs_deleted s - {key_of_entry e}, rs_rooms := (rs_rooms s)(key_of_entry e \<mapsto> e)\<rparr>)"
    if "re_supernode_id e \<noteq> []" using that assms(3) by (auto simp: room_store_ok_def)
  from settles_saving [OF assms(1,2) this, of s "()"] show ?thesis by (simp add: Op_add room_add_def)
next
  case (Op_remove sn r)
  have "room_store_ok (s\<lparr>rs_rooms := (rs_rooms s)(k := None), rs_deleted := insert k (rs_deleted s)\<rparr>)" for k
    using assms(3) by (auto simp: room_store_ok_def)
  from settles_saving [OF assms(1,2) this, of _ s "()"] show ?thesis by (simp add: Op_remove room_remove_def Let_def)
next
  case (Op_hide sn r)
  have "room_store_ok (s\<lparr>rs_deleted := insert k (rs_deleted s)\<rparr>)" for k using assms(3) by (auto simp: room_store_ok_def)
  from settles_saving [OF assms(1,2) this, of _ s "()"] show ?thesis by (simp add: Op_hide hide_from_sidebar_def)
next
  case (Op_unhide sn r)
  have "room_store_ok (s\<lparr>rs_deleted := rs_deleted s - {k}\<rparr>)" for k using assms(3) by (auto simp: room_store_ok_def)
  from settles_saving [OF assms(1,2) this, of _ s "()"] show ?thesis by (simp add: Op_unhide unhide_from_sidebar_def Let_def)
qed (use assms in \<open>simp_all add: room_upsert_settles room_sync_settles upsert_from_remote_def adopt_settles link_settles normalize_settles\<close>)

lemma room_run_persists:
  assumes "room_env_ok E" and "persisted E s" and "\<forall>(io, op) \<in> set ops. length (si_nonce io) = 12 \<and> op_ok op" and "room_run E ops s = Some s'"
  shows "persisted E s' \<and> rs_key s' = rs_key s"
  using assms(2-4)
proof (induction ops arbitrary: s)
  case (Cons a ops)
  obtain io op where a: "a = (io, op)" by (cases a)
  obtain u s1 where s1: "room_step E io op s = Some (Inr u, s1)" "room_run E ops s1 = Some s'"
    using Cons.prems(3) by (auto simp: a split: option.splits sum.splits)
  have "settles E s (room_step E io op s)"
    using Cons.prems(1,2) by (intro room_step_settles [OF assms(1)]) (auto simp: a persisted_def)
  with s1(1) Cons.prems(1) have "persisted E s1" "rs_key s1 = rs_key s" by (auto simp: settles_def)
  with Cons.IH [OF _ _ s1(2)] Cons.prems(2) show ?case by auto
qed simp

lemma open_persisted:
  assumes "open_rooms E io key f = Some (Inr (), s)"
  shows "persisted E s" and "rs_key s = key" and "rs_file s = f"
proof -
  have fin: "finite (dom (fold (\<lambda>v m. m(g v \<mapsto> v)) vs acc))" if "finite (dom acc)" for g :: "'b \<Rightarrow> string" and vs acc
    using that by (induction vs arbitrary: acc) auto
  have keyed: "fold (\<lambda>v m. m(g v \<mapsto> v)) vs Map.empty k = Some w \<Longrightarrow> g w = k \<and> w \<in> set vs" for g :: "'b \<Rightarrow> string" and vs k w
  proof (induction vs rule: rev_induct)
    case (snoc x xs)
    then show ?case by (auto split: if_splits)
  qed simp
  show "rs_key s = key" "rs_file s = f"
    using assms by (auto simp: open_rooms_def load_rooms_def split: option.splits if_splits sum.splits)
  moreover have "room_store_ok s"
    using assms
    by (auto simp: open_rooms_def load_rooms_def room_store_ok_def split: option.splits if_splits sum.splits intro!: fin dest!: keyed)
  moreover have "synced E s"
  proof -
    have "open_rooms E io' key f = Some (Inr (), s)" if "si_readable io'" for io'
      using assms that by (auto simp: open_rooms_def load_rooms_def split: option.splits if_splits sum.splits)
    then show ?thesis using calculation by (auto simp: synced_def same_content_def)
  qed
  ultimately show "persisted E s" by (simp add: persisted_def)
qed

text \<open>
  C24. From any opened room store, after any sequence of operations that all report success (additions,
  merges, list synchronisations, removals, hiding, space adoption and linkage, canonical ids), opening the
  file again gives exactly the rooms, hidden rooms and spaces the store holds in memory.
\<close>

theorem room_store_restart:
  assumes "room_env_ok E" and "open_rooms E io0 key f = Some (Inr (), s0)"
    and "\<forall>(io, op) \<in> set ops. length (si_nonce io) = 12 \<and> op_ok op" and "room_run E ops s0 = Some s" and "si_readable io1"
  shows "\<exists>t. open_rooms E io1 key (rs_file s) = Some (Inr (), t) \<and>
    rs_rooms t = rs_rooms s \<and> rs_deleted t = rs_deleted s \<and> rs_spaces t = rs_spaces s"
  using room_run_persists [OF assms(1) open_persisted(1) [OF assms(2)] assms(3,4)] open_persisted(2) [OF assms(2)] assms(5)
  by (auto simp: persisted_def synced_def same_content_def)

section \<open>Passive synchronisation\<close>

text \<open>
  What a merge keeps of an entry; \<open>T\<close> says that the incoming entries use the known room types.
\<close>

definition keeps :: "bool \<Rightarrow> room_entry \<Rightarrow> room_entry \<Rightarrow> bool" where
  "keeps T old new \<longleftrightarrow>
     (T \<and> re_room_type old = ''private'' \<and> (re_is_creator old \<or> re_invite_token old \<noteq> []) \<longrightarrow> re_room_type new = ''private'') \<and>
     (re_is_creator old \<longrightarrow> re_is_creator new) \<and> (re_invite_token old \<noteq> [] \<longrightarrow> re_invite_token new \<noteq> []) \<and>
     (re_creator_id old \<noteq> [] \<longrightarrow> re_creator_id new \<noteq> []) \<and> (re_space_id old \<noteq> [] \<longrightarrow> re_space_id new \<noteq> []) \<and>
     (re_parent_id old \<noteq> [] \<longrightarrow> re_parent_id new \<noteq> []) \<and> (re_room_name old \<noteq> [] \<longrightarrow> re_room_name new \<noteq> [])"

lemma keeps_refl [simp]: "keeps T e e"
  by (simp add: keeps_def)

lemma keeps_trans: "keeps T a b \<Longrightarrow> keeps T b c \<Longrightarrow> keeps T a c"
  by (auto simp: keeps_def)

definition known_type :: "room_entry \<Rightarrow> bool" where
  "known_type e \<longleftrightarrow> re_room_type e \<in> {[], ''public'', ''private''}"

lemma merge_entry_keeps: "(T \<longrightarrow> known_type e) \<Longrightarrow> keeps T old (merge_entry old e)"
  by (auto simp: keeps_def merge_entry_def known_type_def)

definition sync_kept :: "bool \<Rightarrow> string set \<Rightarrow> room_store \<Rightarrow> room_store \<Rightarrow> bool" where
  "sync_kept T K s t \<longleftrightarrow> rs_deleted t = rs_deleted s \<and> rs_spaces t = rs_spaces s \<and>
     (\<forall>k. k \<notin> K \<or> k \<in> rs_deleted s \<longrightarrow> rs_rooms t k = rs_rooms s k) \<and>
     (\<forall>k old. rs_rooms s k = Some old \<longrightarrow> (\<exists>new. rs_rooms t k = Some new \<and> keeps T old new))"

lemma sync_kept_refl [simp]: "sync_kept T K s s"
  by (simp add: sync_kept_def)

lemma sync_kept_trans: "sync_kept T K s t \<Longrightarrow> sync_kept T K t u \<Longrightarrow> sync_kept T K s u"
  unfolding sync_kept_def using keeps_trans by metis

lemma merge_in_memory_kept:
  assumes "merge_in_memory e s = Some (r, t)" and "key_of_entry e \<notin> rs_deleted s \<or> re_supernode_id e = []" and "T \<longrightarrow> known_type e"
    and "re_supernode_id e \<noteq> [] \<longrightarrow> key_of_entry e \<in> K"
  shows "sync_kept T K s t"
proof (cases "re_supernode_id e = []")
  case False
  define k where "k = key_of_entry e"
  define merged where "merged = (case rs_rooms s k of None \<Rightarrow> e | Some old \<Rightarrow> merge_entry old e)"
  have k: "k \<notin> rs_deleted s" "k \<in> K" using assms(2,4) False by (auto simp: k_def)
  have "t = s \<or> t = s\<lparr>rs_rooms := (rs_rooms s)(k \<mapsto> merged)\<rparr>"
    using assms(1) False k(1) unfolding merge_in_memory_def Let_def k_def [symmetric] merged_def [symmetric] by (auto split: if_splits)
  moreover have "sync_kept T K s (s\<lparr>rs_rooms := (rs_rooms s)(k \<mapsto> merged)\<rparr>)"
    using k merge_entry_keeps [OF assms(3)] by (auto simp: sync_kept_def merged_def)
  ultimately show ?thesis by auto
qed (use assms(1) in \<open>auto simp: merge_in_memory_def\<close>)

lemma merge_all_kept:
  assumes "merge_all es dirty s = Some (dirty', t)" and "T \<longrightarrow> (\<forall>e \<in> set es. known_type e)" and "key_of_entry ` {e \<in> set es. re_supernode_id e \<noteq> []} \<subseteq> K"
  shows "sync_kept T K s t"
  using assms
proof (induction es arbitrary: dirty s)
  case (Cons e es)
  show ?case
  proof (cases "re_supernode_id e \<noteq> [] \<and> is_hidden_from_sidebar (re_supernode_id e) (re_room_id e) s")
    case False
    then obtain r u where r: "merge_in_memory e s = Some (r, u)" "merge_all es (dirty \<or> r = Inr True) u = Some (dirty', t)"
      using Cons.prems(1) by (auto split: option.splits sum.splits)
    have "sync_kept T K s u"
      using Cons.prems(2,3) False by (intro merge_in_memory_kept [OF r(1)]) (auto simp: is_hidden_from_sidebar_def key_of_entry_def)
    moreover have "sync_kept T K u t" using Cons.prems(2,3) by (intro Cons.IH [OF r(2)]) auto
    ultimately show ?thesis by (rule sync_kept_trans)
  qed (use Cons in auto)
qed simp


section \<open>A concrete environment\<close>

definition entry_value :: "room_entry \<Rightarrow> jvalue" where
  "entry_value e = VArr [VStr (re_room_id e), VStr (re_room_name e), VStr (re_room_type e), VStr (re_supernode_id e), VStr (re_creator_id e),
     VStr (re_invite_token e), VBool (re_is_creator e), VStr (re_space_id e), VStr (re_parent_id e), VStr (re_invite_policy e)]"

definition node_value :: "space_node \<Rightarrow> jvalue" where
  "node_value n = VArr [VStr (sn_node_id n), VStr (sn_parent_id n), VStr (sn_kind n), VStr (sn_name n), VStr (sn_node_type n),
     VStr (sn_owner_pub n), VStr (sn_invite_policy n), VBool (sn_inherit n), VStr (sn_key_commit n)]"

definition space_value :: "space \<Rightarrow> jvalue" where
  "space_value p = VArr [VStr (sp_space_id p), VStr (sp_owner_pub p), VNum (NInt (uint (sp_epoch p))), VArr (map node_value (sp_nodes p))]"

definition data_value :: "store_data \<Rightarrow> jvalue" where
  "data_value d = VArr [VNum (NInt (uint (sd_schema d))), VArr (map entry_value (sd_rooms d)), VArr (map VStr (sd_deleted_ids d)),
     VArr (map space_value (sd_spaces d))]"

lemma inj_values: "inj entry_value" "inj node_value" "inj space_value" "inj data_value"
proof -
  show e: "inj entry_value" by (rule injI) (simp add: entry_value_def)
  show n: "inj node_value" by (rule injI) (simp add: node_value_def)
  show p: "inj space_value" by (rule injI) (simp add: space_value_def inj_map_eq_map [OF n] word_uint_eq_iff)
  have "inj VStr" by (rule injI) simp
  then show "inj data_value" by (intro injI) (simp add: data_value_def inj_map_eq_map e p word_uint_eq_iff)
qed

definition plain_write :: "store_data \<Rightarrow> bytes" where
  "plain_write d = as_bytes (enc_entries [(''d'', data_value d)])"

lemma inj_plain_write: "inj plain_write"
proof (rule injI)
  fix x y
  assume "plain_write x = plain_write y"
  then have "enc_entries [(''d'', data_value x)] = enc_entries [(''d'', data_value y)]"
    by (simp add: plain_write_def inj_as_bytes)
  from injD [OF inj_enc_entries this] have "data_value x = data_value y" by simp
  then show "x = y" by (rule injD [OF inj_values(4)])
qed

definition plain_room_env :: room_env where
  "plain_room_env = \<lparr>rv_kdf = plain_kdf, rv_write = plain_write,
     rv_read = (\<lambda>b. if b \<in> range plain_write then Some (inv plain_write b) else None),
     rv_rooms = (\<lambda>m. sorted_list_of_set (dom m)), rv_spaces = (\<lambda>m. sorted_list_of_set (dom m)), rv_deleted = sorted_list_of_set\<rparr>"

lemma plain_room_env_ok: "room_env_ok plain_room_env"
  by (simp add: room_env_ok_def plain_room_env_def seal_sound_def plain_kdf_def orders_def inv_f_f [OF inj_plain_write])

definition plain_io :: store_io where
  "plain_io = \<lparr>si_nonce = replicate 12 1, si_readable = True, si_writable = True\<rparr>"

lemma plain_saving:
  assumes "length (rs_key s) = 32"
  shows "\<exists>b. saving plain_room_env plain_io r s = Some (Inr r, s\<lparr>rs_file := Some b\<rparr>)"
proof -
  obtain b where "encrypt_blob (rv_kdf plain_room_env) (si_nonce plain_io) (rs_key s) (rv_write plain_room_env (store_snapshot plain_room_env s)) = Inr b"
    using assms by (simp add: encrypt_blob_def KEY_LEN_def plain_room_env_def plain_io_def plain_kdf_def)
  then have "saving plain_room_env plain_io r s = Some (Inr r, s\<lparr>rs_file := Some b\<rparr>)"
    by (simp add: saving_def save_rooms_def plain_io_def)
  then show ?thesis by blast
qed

definition plain_rooms :: room_store where
  "plain_rooms = \<lparr>rs_key = replicate 32 9, rs_rooms = Map.empty, rs_deleted = {}, rs_spaces = Map.empty, rs_file = None\<rparr>"

definition plain_entry :: room_entry where
  "plain_entry = (new_room_entry ''r'' ''Den'')\<lparr>re_supernode_id := ''sn'', re_room_type := ''private'', re_is_creator := True\<rparr>"

lemma plain_add: "\<exists>b. room_add plain_room_env plain_io plain_entry plain_rooms =
    Some (Inr (), plain_rooms\<lparr>rs_rooms := [''sn:r'' \<mapsto> plain_entry], rs_file := Some b\<rparr>)"
proof -
  have "key_of_entry plain_entry = ''sn:r''" "re_supernode_id plain_entry = ''sn''" "re_room_id plain_entry = ''r''"
    by (simp_all add: plain_entry_def new_room_entry_def key_of_entry_def entry_key_def)
  then show ?thesis
    using plain_saving [of "plain_rooms\<lparr>rs_rooms := [''sn:r'' \<mapsto> plain_entry]\<rparr>" "()"]
    by (simp add: room_add_def loggable_def str_prefix_def plain_rooms_def)
qed

theorem room_store_restart_witness:
  "\<exists>s t. room_run plain_room_env [(plain_io, Op_add plain_entry :: unit room_op)] plain_rooms = Some s \<and>
     open_rooms plain_room_env plain_io (replicate 32 9) (rs_file s) = Some (Inr (), t) \<and> rs_rooms t = [''sn:r'' \<mapsto> plain_entry]"
proof -
  have o: "open_rooms plain_room_env plain_io (replicate 32 9) None = Some (Inr (), plain_rooms)"
    by (simp add: open_rooms_def load_rooms_def plain_rooms_def)
  from plain_add obtain b where
    "room_run plain_room_env [(plain_io, Op_add plain_entry :: unit room_op)] plain_rooms =
      Some (plain_rooms\<lparr>rs_rooms := [''sn:r'' \<mapsto> plain_entry], rs_file := Some b\<rparr>)" by auto
  with room_store_restart [OF plain_room_env_ok o _ this, of plain_io] show ?thesis by (auto simp: plain_io_def)
qed


end
