(* ===== verification/Chat_Store.thy ===== *)
theory Chat_Store
  imports Client_Peers Brand
begin

text \<open>
  The chat history of a client, \<open>conquerd-client/src/chat_store.rs\<close>: a table of messages in SQLite whose
  body and sender handle are sealed with the store key. The statements of the source act on a list of
  rows, each with its \<open>rowid\<close>; a new row takes a \<open>rowid\<close> one above the largest in use. A statement is atomic
  and may fail: \<open>ci_ok\<close> says which statements of a call succeed, and \<open>ci_nonce\<close> gives the nonces of its
  seals. Timestamps are rationals, and page arithmetic wraps at 64 bits.
\<close>

section \<open>Messages\<close>

datatype message_kind = Kind_text | Kind_file | Kind_image | Kind_video | Kind_system

datatype message_status = Msg_sending | Msg_sent | Msg_delivered | Msg_read | Msg_failed

fun kind_as_str :: "message_kind \<Rightarrow> string" where
  "kind_as_str Kind_text = ''text''"
| "kind_as_str Kind_file = ''file''"
| "kind_as_str Kind_image = ''image''"
| "kind_as_str Kind_video = ''video''"
| "kind_as_str Kind_system = ''system''"

definition kind_from_str :: "string \<Rightarrow> message_kind" where
  "kind_from_str s =
     (if s = ''file'' then Kind_file else if s = ''image'' then Kind_image else if s = ''video'' then Kind_video
      else if s = ''system'' then Kind_system else Kind_text)"

fun status_as_str :: "message_status \<Rightarrow> string" where
  "status_as_str Msg_sending = ''sending''"
| "status_as_str Msg_sent = ''sent''"
| "status_as_str Msg_delivered = ''delivered''"
| "status_as_str Msg_read = ''read''"
| "status_as_str Msg_failed = ''failed''"

definition status_from_str :: "string \<Rightarrow> message_status" where
  "status_from_str s =
     (if s = ''sending'' then Msg_sending else if s = ''sent'' then Msg_sent else if s = ''delivered'' then Msg_delivered
      else if s = ''read'' then Msg_read else if s = ''failed'' then Msg_failed else Msg_sending)"

definition room_conversation_id :: "string \<Rightarrow> string" where
  "room_conversation_id room_id = ''room:'' @ room_id"

record chat_message =
  cm_id :: string
  cm_peer_id :: string
  cm_sender :: string
  cm_recipient :: string
  cm_body :: string
  cm_timestamp :: rat
  cm_is_self :: bool
  cm_status :: message_status
  cm_kind :: message_kind
  cm_attachment_name :: string
  cm_attachment_path :: string
  cm_size_str :: string
  cm_status_note :: string
  cm_sender_handle :: string

section \<open>The table\<close>

record chat_row =
  cr_rowid :: nat
  cr_id :: string
  cr_peer_id :: string
  cr_sender :: string
  cr_recipient :: string
  cr_body :: bytes
  cr_timestamp :: rat
  cr_is_self :: int
  cr_status :: string
  cr_kind :: string
  cr_attachment_name :: string
  cr_attachment_path :: string
  cr_size_str :: string
  cr_status_note :: string
  cr_sender_handle :: bytes

record chat_store =
  ct_key :: bytes
  ct_rows :: "chat_row list"

record chat_io =
  ci_nonce :: "nat \<Rightarrow> bytes"
  ci_ok :: "nat \<Rightarrow> bool"

datatype chat_error = Chat_crypto crypto_error | Chat_utf8 | Chat_db | Chat_constraint

definition PAGE_SIZE :: nat where "PAGE_SIZE = 50"

definition next_rowid :: "chat_row list \<Rightarrow> nat" where
  "next_rowid rows = Suc (fold (\<lambda>r m. max m (cr_rowid r)) rows 0)"

definition sql_update :: "(chat_row \<Rightarrow> bool) \<Rightarrow> (chat_row \<Rightarrow> chat_row) \<Rightarrow> chat_row list \<Rightarrow> nat \<times> chat_row list" where
  "sql_update P f rows = (length (filter P rows), map (\<lambda>r. if P r then f r else r) rows)"

definition sql_delete :: "(chat_row \<Rightarrow> bool) \<Rightarrow> chat_row list \<Rightarrow> nat \<times> chat_row list" where
  "sql_delete P rows = (length (filter P rows), filter (\<lambda>r. \<not> P r) rows)"

text \<open>\<open>ORDER BY rowid DESC LIMIT l OFFSET k\<close>: a negative limit means no limit and a negative offset none.\<close>

definition newest_first :: "int \<Rightarrow> int \<Rightarrow> chat_row list \<Rightarrow> chat_row list" where
  "newest_first l k rows =
     (let later = drop (nat k) (rev (sort_key cr_rowid rows)) in if l < 0 then later else take (nat l) later)"

definition execute :: "chat_io \<Rightarrow> nat \<Rightarrow> (chat_row list \<Rightarrow> 'r \<times> chat_row list) \<Rightarrow> chat_store \<Rightarrow> (chat_error + 'r) \<times> chat_store" where
  "execute io i f s =
     (if ci_ok io i then let (r, rows) = f (ct_rows s) in (Inr r, s\<lparr>ct_rows := rows\<rparr>) else (Inl Chat_db, s))"

definition result_unit :: "(chat_error + 'r) \<times> chat_store \<Rightarrow> (chat_error + unit) \<times> chat_store" where
  "result_unit p = (case p of (Inl e, s) \<Rightarrow> (Inl e, s) | (Inr _, s) \<Rightarrow> (Inr (), s))"

section \<open>Opening\<close>

definition fail_stale_sending :: "chat_io \<Rightarrow> nat \<Rightarrow> chat_store \<Rightarrow> (chat_error + nat) \<times> chat_store" where
  "fail_stale_sending io i =
     execute io i (sql_update (\<lambda>r. cr_is_self r = 1 \<and> cr_status r = ''sending'')
       (\<lambda>r. r\<lparr>cr_status := ''failed'', cr_status_note := ''interrupted before delivery''\<rparr>))"

text \<open>\<open>LIKE 'room:%:%'\<close>; the operator ignores the case of ASCII letters.\<close>

definition like_room :: "string \<Rightarrow> bool" where
  "like_room p \<longleftrightarrow> to_ascii_lowercase (take 5 p) = ''room:'' \<and> CHR '':'' \<in> set (drop 5 p)"

definition after_last_colon :: "string \<Rightarrow> string" where
  "after_last_colon p = rev (takeWhile (\<lambda>c. c \<noteq> CHR '':'') (rev p))"

fun rekey_all :: "chat_io \<Rightarrow> nat \<Rightarrow> string list \<Rightarrow> chat_store \<Rightarrow> (chat_error + nat) \<times> chat_store" where
  "rekey_all io i [] s = (Inr i, s)"
| "rekey_all io i (old_key # ks) s =
     (let new_key = room_conversation_id (after_last_colon old_key)
      in if new_key = old_key then rekey_all io i ks s
         else case execute io i (sql_update (\<lambda>r. cr_peer_id r = old_key) (\<lambda>r. r\<lparr>cr_peer_id := new_key\<rparr>)) s of
             (Inl e, s1) \<Rightarrow> (Inl e, s1)
           | (Inr _, s1) \<Rightarrow> rekey_all io (Suc i) ks s1)"

definition migrate_room_keys :: "chat_io \<Rightarrow> nat \<Rightarrow> chat_store \<Rightarrow> (chat_error + nat) \<times> chat_store" where
  "migrate_room_keys io i s =
     (if \<not> ci_ok io i then (Inl Chat_db, s)
      else rekey_all io (Suc i) (remdups (map cr_peer_id (filter (\<lambda>r. like_room (cr_peer_id r)) (ct_rows s)))) s)"

text \<open>
  Statement 0 stands for creating the directory and opening the database, statement 1 for creating the table
  and its indexes where they are missing. The indices count the statements.
\<close>

definition open_chat :: "chat_io \<Rightarrow> bytes \<Rightarrow> chat_row list \<Rightarrow> (chat_error + unit) \<times> chat_store" where
  "open_chat io key rows =
     (let s = \<lparr>ct_key = key, ct_rows = rows\<rparr>
      in if \<not> ci_ok io 0 \<or> \<not> ci_ok io 1 then (Inl Chat_db, s)
         else case migrate_room_keys io 2 s of
             (Inl e, s1) \<Rightarrow> (Inl e, s1)
           | (Inr i, s1) \<Rightarrow> result_unit (fail_stale_sending io i s1))"

section \<open>Writing\<close>

definition chat_encrypt :: "kdf_lib \<Rightarrow> bytes \<Rightarrow> chat_store \<Rightarrow> string \<Rightarrow> crypto_error + bytes" where
  "chat_encrypt X nonce s plaintext = encrypt_blob X nonce (ct_key s) (as_bytes plaintext)"

definition chat_decrypt :: "kdf_lib \<Rightarrow> chat_store \<Rightarrow> bytes \<Rightarrow> chat_error + string" where
  "chat_decrypt X s blob =
     (case decrypt_blob X (ct_key s) blob of
        Inl e \<Rightarrow> Inl (Chat_crypto e)
      | Inr plain \<Rightarrow> (case from_utf8 plain of None \<Rightarrow> Inl Chat_utf8 | Some t \<Rightarrow> Inr t))"

definition row_of :: "nat \<Rightarrow> bytes \<Rightarrow> bytes \<Rightarrow> chat_message \<Rightarrow> chat_row" where
  "row_of i body handle m =
     \<lparr>cr_rowid = i, cr_id = cm_id m, cr_peer_id = cm_peer_id m, cr_sender = cm_sender m, cr_recipient = cm_recipient m, cr_body = body,
      cr_timestamp = cm_timestamp m, cr_is_self = (if cm_is_self m then 1 else 0), cr_status = status_as_str (cm_status m),
      cr_kind = kind_as_str (cm_kind m), cr_attachment_name = cm_attachment_name m, cr_attachment_path = cm_attachment_path m,
      cr_size_str = cm_size_str m, cr_status_note = cm_status_note m, cr_sender_handle = handle\<rparr>"

definition sealed_row :: "kdf_lib \<Rightarrow> chat_io \<Rightarrow> chat_message \<Rightarrow> chat_store \<Rightarrow> crypto_error + chat_row" where
  "sealed_row X io m s =
     (case chat_encrypt X (ci_nonce io 0) s (cm_body m) of
        Inl e \<Rightarrow> Inl e
      | Inr body \<Rightarrow> (case chat_encrypt X (ci_nonce io 1) s (cm_sender_handle m) of
            Inl e \<Rightarrow> Inl e
          | Inr handle \<Rightarrow> Inr (row_of (next_rowid (ct_rows s)) body handle m)))"

definition chat_insert :: "kdf_lib \<Rightarrow> chat_io \<Rightarrow> chat_message \<Rightarrow> chat_store \<Rightarrow> (chat_error + unit) \<times> chat_store" where
  "chat_insert X io m s =
     (case sealed_row X io m s of
        Inl e \<Rightarrow> (Inl (Chat_crypto e), s)
      | Inr r \<Rightarrow>
          if \<not> ci_ok io 0 then (Inl Chat_db, s)
          else if cm_id m \<in> set (map cr_id (ct_rows s)) then (Inl Chat_constraint, s)
          else (Inr (), s\<lparr>ct_rows := ct_rows s @ [r]\<rparr>))"

definition chat_insert_new :: "kdf_lib \<Rightarrow> chat_io \<Rightarrow> chat_message \<Rightarrow> chat_store \<Rightarrow> (chat_error + bool) \<times> chat_store" where
  "chat_insert_new X io m s =
     (case sealed_row X io m s of
        Inl e \<Rightarrow> (Inl (Chat_crypto e), s)
      | Inr r \<Rightarrow> execute io 0 (\<lambda>rows. if cm_id m \<in> set (map cr_id rows) then (False, rows) else (True, rows @ [r])) s)"

definition chat_upsert :: "kdf_lib \<Rightarrow> chat_io \<Rightarrow> chat_message \<Rightarrow> chat_store \<Rightarrow> (chat_error + unit) \<times> chat_store" where
  "chat_upsert X io m s =
     (case sealed_row X io m s of
        Inl e \<Rightarrow> (Inl (Chat_crypto e), s)
      | Inr r \<Rightarrow> execute io 0 (\<lambda>rows. ((), filter (\<lambda>q. cr_id q \<noteq> cm_id m) rows @ [r])) s)"

definition chat_update_status :: "chat_io \<Rightarrow> string \<Rightarrow> message_status \<Rightarrow> chat_store \<Rightarrow> (chat_error + unit) \<times> chat_store" where
  "chat_update_status io msg_id st s =
     result_unit (execute io 0 (sql_update (\<lambda>r. cr_id r = msg_id) (\<lambda>r. r\<lparr>cr_status := status_as_str st\<rparr>)) s)"

definition chat_update_status_note :: "chat_io \<Rightarrow> string \<Rightarrow> message_status \<Rightarrow> string \<Rightarrow> chat_store \<Rightarrow> (chat_error + unit) \<times> chat_store" where
  "chat_update_status_note io msg_id st note s =
     result_unit (execute io 0 (sql_update (\<lambda>r. cr_id r = msg_id) (\<lambda>r. r\<lparr>cr_status := status_as_str st, cr_status_note := note\<rparr>)) s)"

definition chat_update_attachment :: "chat_io \<Rightarrow> string \<Rightarrow> string \<Rightarrow> string \<Rightarrow> chat_store \<Rightarrow> (chat_error + unit) \<times> chat_store" where
  "chat_update_attachment io msg_id attachment_path size_str s =
     result_unit (execute io 0 (sql_update (\<lambda>r. cr_id r = msg_id) (\<lambda>r. r\<lparr>cr_attachment_path := attachment_path, cr_size_str := size_str\<rparr>)) s)"

section \<open>Reading\<close>

definition or_empty :: "chat_error + string \<Rightarrow> string" where
  "or_empty r = (case r of Inl _ \<Rightarrow> [] | Inr t \<Rightarrow> t)"

definition message_of :: "kdf_lib \<Rightarrow> chat_store \<Rightarrow> chat_row \<Rightarrow> chat_message" where
  "message_of X s r =
     \<lparr>cm_id = cr_id r, cm_peer_id = cr_peer_id r, cm_sender = cr_sender r, cm_recipient = cr_recipient r,
      cm_body = or_empty (chat_decrypt X s (cr_body r)), cm_timestamp = cr_timestamp r, cm_is_self = (cr_is_self r \<noteq> 0),
      cm_status = status_from_str (cr_status r), cm_kind = kind_from_str (cr_kind r), cm_attachment_name = cr_attachment_name r,
      cm_attachment_path = cr_attachment_path r, cm_size_str = cr_size_str r, cm_status_note = cr_status_note r,
      cm_sender_handle = or_empty (chat_decrypt X s (cr_sender_handle r))\<rparr>"

definition get_history :: "kdf_lib \<Rightarrow> chat_io \<Rightarrow> string \<Rightarrow> u64 \<Rightarrow> chat_store \<Rightarrow> chat_error + chat_message list" where
  "get_history X io peer_id page s =
     (let offset = page * word_of_nat PAGE_SIZE
      in if ci_ok io 0
         then Inr (rev (map (message_of X s) (newest_first (int PAGE_SIZE) (sint offset) (filter (\<lambda>r. cr_peer_id r = peer_id) (ct_rows s)))))
         else Inl Chat_db)"

definition get_by_id :: "kdf_lib \<Rightarrow> chat_io \<Rightarrow> string \<Rightarrow> chat_store \<Rightarrow> chat_error + chat_message option" where
  "get_by_id X io msg_id s =
     (if ci_ok io 0 then Inr (map_option (message_of X s) (find (\<lambda>r. cr_id r = msg_id) (ct_rows s))) else Inl Chat_db)"

definition unread_row :: "chat_row \<Rightarrow> bool" where
  "unread_row r \<longleftrightarrow> cr_is_self r = 0 \<and> cr_status r \<noteq> ''read''"

definition unread_count :: "chat_io \<Rightarrow> string \<Rightarrow> chat_store \<Rightarrow> chat_error + nat" where
  "unread_count io peer_id s =
     (if ci_ok io 0 then Inr (length (filter (\<lambda>r. cr_peer_id r = peer_id \<and> unread_row r) (ct_rows s))) else Inl Chat_db)"

definition total_unread_count :: "chat_io \<Rightarrow> chat_store \<Rightarrow> chat_error + nat" where
  "total_unread_count io s = (if ci_ok io 0 then Inr (length (filter unread_row (ct_rows s))) else Inl Chat_db)"

definition mark_peer_read :: "chat_io \<Rightarrow> string \<Rightarrow> chat_store \<Rightarrow> (chat_error + nat) \<times> chat_store" where
  "mark_peer_read io peer_id = execute io 0 (sql_update (\<lambda>r. cr_peer_id r = peer_id \<and> unread_row r) (\<lambda>r. r\<lparr>cr_status := ''read''\<rparr>))"

section \<open>Deleting\<close>

definition delete_message :: "chat_io \<Rightarrow> string \<Rightarrow> chat_store \<Rightarrow> (chat_error + unit) \<times> chat_store" where
  "delete_message io msg_id s = result_unit (execute io 0 (sql_delete (\<lambda>r. cr_id r = msg_id)) s)"

definition clear_history :: "chat_io \<Rightarrow> string \<Rightarrow> chat_store \<Rightarrow> (chat_error + unit) \<times> chat_store" where
  "clear_history io peer_id s = result_unit (execute io 0 (sql_delete (\<lambda>r. cr_peer_id r = peer_id)) s)"

definition chat_total_count :: "chat_io \<Rightarrow> chat_store \<Rightarrow> chat_error + nat" where
  "chat_total_count io s = (if ci_ok io 0 then Inr (length (ct_rows s)) else Inl Chat_db)"

definition trim_by_age :: "chat_io \<Rightarrow> rat \<Rightarrow> u32 \<Rightarrow> chat_store \<Rightarrow> (chat_error + nat) \<times> chat_store" where
  "trim_by_age io now days =
     (let cutoff = now - of_int (sint days) * 86400 in execute io 0 (sql_delete (\<lambda>r. cr_timestamp r < cutoff)))"

definition trim_peer :: "int \<Rightarrow> string \<Rightarrow> chat_row list \<Rightarrow> nat \<times> chat_row list" where
  "trim_peer keep pid rows =
     (let recent = set (map cr_rowid (newest_first keep 0 (filter (\<lambda>r. cr_peer_id r = pid) rows)))
      in sql_delete (\<lambda>r. cr_peer_id r = pid \<and> cr_rowid r \<notin> recent) rows)"

fun trim_peers :: "chat_io \<Rightarrow> int \<Rightarrow> nat \<Rightarrow> string list \<Rightarrow> nat \<Rightarrow> chat_store \<Rightarrow> (chat_error + nat) \<times> chat_store" where
  "trim_peers io keep i [] n s = (Inr n, s)"
| "trim_peers io keep i (pid # pids) n s =
     (case execute io i (trim_peer keep pid) s of
        (Inl e, s1) \<Rightarrow> (Inl e, s1)
      | (Inr k, s1) \<Rightarrow> trim_peers io keep (Suc i) pids (n + k) s1)"

definition trim_by_count :: "chat_io \<Rightarrow> u32 \<Rightarrow> chat_store \<Rightarrow> (chat_error + nat) \<times> chat_store" where
  "trim_by_count io keep s =
     (if \<not> ci_ok io 0 then (Inl Chat_db, s)
      else trim_peers io (sint keep) 1 (remdups (map cr_peer_id (ct_rows s))) 0 s)"

definition purge_all :: "chat_io \<Rightarrow> chat_store \<Rightarrow> (chat_error + nat) \<times> chat_store" where
  "purge_all io = execute io 0 (sql_delete (\<lambda>_. True))"

section \<open>Invariant\<close>

definition table_ok :: "chat_row list \<Rightarrow> bool" where
  "table_ok rows \<longleftrightarrow> sorted_wrt (<) (map cr_rowid rows) \<and> distinct (map cr_id rows)"

lemma next_rowid_gt: "r \<in> set rows \<Longrightarrow> cr_rowid r < next_rowid rows"
proof -
  have "a \<le> fold (\<lambda>r m. max m (cr_rowid r)) rows a \<and> (\<forall>r \<in> set rows. cr_rowid r \<le> fold (\<lambda>r m. max m (cr_rowid r)) rows a)" for a
  proof (induction rows arbitrary: a)
    case (Cons x rows)
    show ?case using Cons [of "max a (cr_rowid x)"] by auto
  qed simp
  then show "r \<in> set rows \<Longrightarrow> cr_rowid r < next_rowid rows" by (auto simp: next_rowid_def le_imp_less_Suc)
qed

lemma table_ok_filter: "table_ok rows \<Longrightarrow> table_ok (filter P rows)"
  by (auto simp: table_ok_def sorted_wrt_map sorted_wrt_filter distinct_map_filter)

lemma table_ok_map: "table_ok rows \<Longrightarrow> (\<And>r. cr_rowid (f r) = cr_rowid r \<and> cr_id (f r) = cr_id r) \<Longrightarrow> table_ok (map f rows)"
  by (simp add: table_ok_def comp_def)

lemma table_ok_snoc: "table_ok rows \<Longrightarrow> cr_rowid r = next_rowid rows' \<Longrightarrow> set rows \<subseteq> set rows' \<Longrightarrow> cr_id r \<notin> cr_id ` set rows \<Longrightarrow> table_ok (rows @ [r])"
  using next_rowid_gt by (fastforce simp: table_ok_def sorted_wrt_append)

lemma sealed_rowD:
  assumes "sealed_row X io m s = Inr r"
  obtains body handle where "r = row_of (next_rowid (ct_rows s)) body handle m"
    and "chat_encrypt X (ci_nonce io 0) s (cm_body m) = Inr body" and "chat_encrypt X (ci_nonce io 1) s (cm_sender_handle m) = Inr handle"
  using assms by (auto simp: sealed_row_def split: sum.splits)

lemma row_of_sel [simp]:
  "cr_rowid (row_of i b h m) = i" "cr_id (row_of i b h m) = cm_id m" "cr_peer_id (row_of i b h m) = cm_peer_id m"
  by (simp_all add: row_of_def)

lemma result_unit_snd [simp]: "snd (result_unit p) = snd p"
  by (auto simp: result_unit_def split: prod.split sum.split)

text \<open>Every operation keeps the rows in the order of their rowids, with distinct message ids, and the key.\<close>

definition chat_kept :: "chat_store \<Rightarrow> 'r \<times> chat_store \<Rightarrow> bool" where
  "chat_kept s p \<longleftrightarrow> (table_ok (ct_rows s) \<longrightarrow> table_ok (ct_rows (snd p))) \<and> ct_key (snd p) = ct_key s"

lemma chat_kept_refl [simp]: "chat_kept s (r, s)"
  by (simp add: chat_kept_def)

lemma chat_kept_unit [simp]: "chat_kept s (result_unit p) = chat_kept s p"
  by (simp add: chat_kept_def)

lemma chat_kept_execute:
  "(table_ok (ct_rows s) \<Longrightarrow> table_ok (snd (f (ct_rows s)))) \<Longrightarrow> chat_kept s (execute io i f s)"
  by (auto simp: chat_kept_def execute_def split: prod.split)

lemma chat_kept_update:
  "(\<And>r. cr_rowid (f r) = cr_rowid r \<and> cr_id (f r) = cr_id r) \<Longrightarrow> chat_kept s (execute io i (sql_update P f) s)"
  by (rule chat_kept_execute) (auto simp: sql_update_def intro!: table_ok_map)

lemma chat_kept_delete: "chat_kept s (execute io i (sql_delete P) s)"
  by (rule chat_kept_execute) (auto simp: sql_delete_def intro!: table_ok_filter)

lemma chat_writes_kept: "chat_kept s (chat_insert X io m s)" "chat_kept s (chat_insert_new X io m s)" "chat_kept s (chat_upsert X io m s)"
proof -
  show "chat_kept s (chat_insert X io m s)"
    by (auto simp: chat_insert_def chat_kept_def split: sum.split elim!: sealed_rowD intro!: table_ok_snoc [where rows' = "ct_rows s"])
  show "chat_kept s (chat_insert_new X io m s)"
    by (auto simp: chat_insert_new_def split: sum.split elim!: sealed_rowD 
        intro!: chat_kept_execute table_ok_snoc [where rows' = "ct_rows s"])
  show "chat_kept s (chat_upsert X io m s)"
    by (auto simp: chat_upsert_def split: sum.split elim!: sealed_rowD intro!: chat_kept_execute
        intro!: table_ok_snoc [where rows' = "ct_rows s"] table_ok_filter)
qed

lemma chat_updates_kept:
  "chat_kept s (chat_update_status io i st s)" "chat_kept s (chat_update_status_note io i st n s)"
  "chat_kept s (chat_update_attachment io i p z s)" "chat_kept s (mark_peer_read io p s)" "chat_kept s (fail_stale_sending io k s)"
  by (simp_all add: chat_update_status_def chat_update_status_note_def chat_update_attachment_def mark_peer_read_def
      fail_stale_sending_def chat_kept_update)

lemma chat_deletes_kept:
  "chat_kept s (delete_message io i s)" "chat_kept s (clear_history io p s)" "chat_kept s (trim_by_age io now d s)" "chat_kept s (purge_all io s)"
  by (simp_all add: delete_message_def clear_history_def trim_by_age_def purge_all_def chat_kept_delete)

section \<open>History\<close>

lemma newest_first_sorted:
  "table_ok rows \<Longrightarrow> newest_first l k rows = (if l < 0 then drop (nat k) (rev rows) else take (nat l) (drop (nat k) (rev rows)))"
proof -
  assume "table_ok rows"
  then have "sorted (map cr_rowid rows)" by (auto simp: table_ok_def strict_sorted_iff)
  then have "sort_key cr_rowid rows = rows" by (rule sort_key_id_if_sorted)
  then show ?thesis by (simp add: newest_first_def Let_def)
qed

lemma pages_concat: "concat (rev (map (\<lambda>k. rev (take c (drop (c * k) ys))) [0..<n])) = rev (take (c * n) ys)"
proof (induction n)
  case (Suc n)
  have "take (c * Suc n) ys = take (c * n) ys @ take c (drop (c * n) ys)"
    by (metis add.commute mult_Suc_right take_add)
  with Suc show ?case by simp
qed simp

definition page_or_empty :: "chat_error + chat_message list \<Rightarrow> chat_message list" where
  "page_or_empty r = (case r of Inl _ \<Rightarrow> [] | Inr ms \<Rightarrow> ms)"

definition all_pages :: "kdf_lib \<Rightarrow> chat_io \<Rightarrow> string \<Rightarrow> nat \<Rightarrow> chat_store \<Rightarrow> chat_message list" where
  "all_pages X io p n s = concat (rev (map (\<lambda>k. page_or_empty (get_history X io p (word_of_nat k) s)) [0..<n]))"

lemma sint_of_small: "n < 2 ^ 63 \<Longrightarrow> sint (word_of_nat n :: u64) = int n"
  by (simp add: signed_of_nat signed_take_bit_int_eq_self)

lemma page_offset: "PAGE_SIZE * k < 2 ^ 63 \<Longrightarrow> sint (word_of_nat k * word_of_nat PAGE_SIZE :: u64) = int (PAGE_SIZE * k)"
  using sint_of_small [of "PAGE_SIZE * k"] by (simp add: mult.commute)

lemma get_history_page:
  assumes "table_ok (ct_rows s)" and "ci_ok io 0" and "PAGE_SIZE * k < 2 ^ 63"
  shows "get_history X io p (word_of_nat k) s =
    Inr (rev (take PAGE_SIZE (drop (PAGE_SIZE * k) (rev (map (message_of X s) (filter (\<lambda>r. cr_peer_id r = p) (ct_rows s)))))))"
  by (simp add: get_history_def Let_def assms(2) page_offset [OF assms(3)] newest_first_sorted [OF table_ok_filter [OF assms(1)]]
      take_map drop_map rev_map del: of_nat_mult)

lemma all_pages_conversation:
  assumes "table_ok (ct_rows s)" and "ci_ok io 0" and "length (ct_rows s) \<le> PAGE_SIZE * n" and "PAGE_SIZE * n < 2 ^ 63"
  shows "all_pages X io p n s = map (message_of X s) (filter (\<lambda>r. cr_peer_id r = p) (ct_rows s))"
proof -
  define ms where "ms = map (message_of X s) (filter (\<lambda>r. cr_peer_id r = p) (ct_rows s))"
  have bound: "PAGE_SIZE * k < 2 ^ 63" if "k < n" for k
    by (rule le_less_trans [OF _ assms(4)]) (use that in simp)
  have "all_pages X io p n s = concat (rev (map (\<lambda>k. rev (take PAGE_SIZE (drop (PAGE_SIZE * k) (rev ms)))) [0..<n]))"
    unfolding all_pages_def ms_def
    by (intro arg_cong [where f = concat] arg_cong [where f = rev] map_cong refl)
      (simp add: get_history_page [OF assms(1,2) bound] page_or_empty_def)
  also have "\<dots> = rev (take (PAGE_SIZE * n) (rev ms))" by (rule pages_concat)
  also have "\<dots> = ms" using assms(3) by (simp add: ms_def length_filter_bound)
  finally show ?thesis by (simp add: ms_def)
qed

section \<open>Delivery\<close>

fun deliver :: "kdf_lib \<Rightarrow> (chat_io \<times> chat_message) list \<Rightarrow> chat_store \<Rightarrow> (chat_error + bool) list \<times> chat_store" where
  "deliver X [] s = ([], s)"
| "deliver X ((io, m) # ds) s =
     (let (r, s1) = chat_insert_new X io m s; (rs, t) = deliver X ds s1 in (r # rs, t))"

text \<open>Nonces have twelve bytes, and the texts of a message are Rust strings.\<close>

definition delivery_ok :: "chat_io \<times> chat_message \<Rightarrow> bool" where
  "delivery_ok d \<longleftrightarrow> (\<forall>i. length (ci_nonce (fst d) i) = 12) \<and> utf8_valid (as_bytes (cm_body (snd d))) \<and>
     utf8_valid (as_bytes (cm_sender_handle (snd d)))"

definition written :: "(chat_io \<times> chat_message) list \<Rightarrow> (chat_error + bool) list \<Rightarrow> chat_message list" where
  "written ds rs = map (snd \<circ> fst) (filter (\<lambda>(d, r). r = Inr True) (zip ds rs))"

lemma str_roundtrips [simp]: "kind_from_str (kind_as_str k) = k" "status_from_str (status_as_str st) = st"
  by (cases k; simp add: kind_from_str_def) (cases st; simp add: status_from_str_def)

lemma chat_decrypt_encrypt:
  assumes "seal_sound X" and "length nonce = 12" and "utf8_valid (as_bytes t)" and "chat_encrypt X nonce s t = Inr b"
  shows "chat_decrypt X s b = Inr t"
  using decrypt_encrypted [OF assms(1,2) assms(4) [unfolded chat_encrypt_def]] assms(3) by (simp add: chat_decrypt_def)

lemma message_of_sealed:
  assumes "seal_sound X" and "delivery_ok (io, m)" and "sealed_row X io m s = Inr r"
  shows "message_of X s r = m"
proof -
  from assms(3) obtain body handle where r: "r = row_of (next_rowid (ct_rows s)) body handle m"
    and e: "chat_encrypt X (ci_nonce io 0) s (cm_body m) = Inr body" "chat_encrypt X (ci_nonce io 1) s (cm_sender_handle m) = Inr handle"
    by (rule sealed_rowD)
  have "chat_decrypt X s body = Inr (cm_body m)" "chat_decrypt X s handle = Inr (cm_sender_handle m)"
    using assms(2) chat_decrypt_encrypt [OF assms(1) _ _ e(1)] chat_decrypt_encrypt [OF assms(1) _ _ e(2)] by (simp_all add: delivery_ok_def)
  then show ?thesis by (simp add: message_of_def r row_of_def or_empty_def)
qed

lemma message_of_key: "ct_key s = ct_key t \<Longrightarrow> message_of X s = message_of X t"
  by (rule ext) (simp add: message_of_def chat_decrypt_def)

lemma insert_new_cases:
  assumes "seal_sound X" and "delivery_ok (io, m)" and "chat_insert_new X io m s = (r, t)"
  shows "ct_key t = ct_key s \<and> (if r = Inr True
    then cm_id m \<notin> cr_id ` set (ct_rows s) \<and> (\<exists>q. ct_rows t = ct_rows s @ [q] \<and> message_of X s q = m \<and> cr_id q = cm_id m \<and> cr_peer_id q = cm_peer_id m)
    else ct_rows t = ct_rows s \<and> (r = Inr False \<longrightarrow> cm_id m \<in> cr_id ` set (ct_rows s)))"
proof (cases "sealed_row X io m s")
  case (Inr q)
  from message_of_sealed [OF assms(1,2) Inr] have "message_of X s q = m" .
  moreover from Inr have "cr_id q = cm_id m" "cr_peer_id q = cm_peer_id m" by (auto elim!: sealed_rowD)
  ultimately show ?thesis using assms(3) Inr by (auto simp: chat_insert_new_def execute_def split: if_splits)
qed (use assms(3) in \<open>auto simp: chat_insert_new_def\<close>)

lemma deliver_rows:
  assumes "seal_sound X" and "\<forall>d \<in> set ds. delivery_ok d" and "deliver X ds s = (rs, t)"
  shows "length rs = length ds \<and> ct_key t = ct_key s \<and> (\<exists>new. ct_rows t = ct_rows s @ new \<and> map (message_of X s) new = written ds rs \<and>
    map cr_id new = map cm_id (written ds rs) \<and> map cr_peer_id new = map cm_peer_id (written ds rs))"
  using assms(2,3)
proof (induction ds arbitrary: s rs)
  case (Cons d ds)
  obtain io m where d: "d = (io, m)" by (cases d)
  obtain r s1 where r: "chat_insert_new X io m s = (r, s1)" by fastforce
  obtain rs1 where rs1: "deliver X ds s1 = (rs1, t)" "rs = r # rs1"
    using Cons.prems(2) by (auto simp: d r split: prod.splits)
  have c: "ct_key s1 = ct_key s \<and> (if r = Inr True then \<exists>q. ct_rows s1 = ct_rows s @ [q] \<and> message_of X s q = m \<and> cr_id q = cm_id m \<and> cr_peer_id q = cm_peer_id m
      else ct_rows s1 = ct_rows s)"
    using insert_new_cases [OF assms(1) _ r] Cons.prems(1) by (auto simp: d split: if_splits)
  from Cons.IH [OF _ rs1(1)] Cons.prems(1) obtain new where
    n: "length rs1 = length ds" "ct_key t = ct_key s1" "ct_rows t = ct_rows s1 @ new" "map (message_of X s1) new = written ds rs1"
      "map cr_id new = map cm_id (written ds rs1)" "map cr_peer_id new = map cm_peer_id (written ds rs1)" by auto
  have "message_of X s1 = message_of X s" using c by (intro message_of_key) simp
  with c n show ?case by (cases "r = Inr True") (auto simp: written_def d rs1(2))
qed (simp add: written_def)

lemma deliver_results:
  assumes "seal_sound X" and "\<forall>d \<in> set ds. delivery_ok d" and "deliver X ds s = (rs, t)" and "i < length ds"
  shows "(rs ! i = Inr True \<longrightarrow> cm_id (snd (ds ! i)) \<notin> cr_id ` set (ct_rows s) \<union> cm_id ` set (written (take i ds) (take i rs))) \<and>
    (rs ! i = Inr False \<longrightarrow> cm_id (snd (ds ! i)) \<in> cr_id ` set (ct_rows s) \<union> cm_id ` set (written (take i ds) (take i rs)))"
  using assms(2-4)
proof (induction ds arbitrary: s rs i)
  case (Cons d ds)
  obtain io m where d: "d = (io, m)" by (cases d)
  obtain r s1 where r: "chat_insert_new X io m s = (r, s1)" by fastforce
  obtain rs1 where rs1: "deliver X ds s1 = (rs1, t)" "rs = r # rs1"
    using Cons.prems(2) by (auto simp: d r split: prod.splits)
  have ok: "delivery_ok (io, m)" using Cons.prems(1) by (simp add: d)
  note c = insert_new_cases [OF assms(1) ok r]
  show ?case
  proof (cases i)
    case 0
    with c show ?thesis by (auto simp: d rs1(2) written_def)
  next
    case (Suc j)
    have "cr_id ` set (ct_rows s1) \<union> cm_id ` A = cr_id ` set (ct_rows s) \<union> cm_id ` (if r = Inr True then insert m A else A)" for A
      using c by (auto split: if_splits)
    with Cons.IH [OF _ rs1(1), of j] Cons.prems(1,3) show ?thesis
      by (cases "r = Inr True") (auto simp: d rs1(2) Suc written_def)
  qed
qed simp

text \<open>
  C23. Messages delivered to a chat store, with repetitions and failures in any place, appear in the pages
  of their conversation exactly as sent, once, after everything that was there and in the order of arrival,
  whatever their timestamps; no other conversation changes. A message is written exactly if its id is not
  stored yet, unless the call reports an error.
\<close>

theorem chat_history_arrival_order:
  assumes "seal_sound X" and "table_ok (ct_rows s)" and "\<forall>d \<in> set ds. delivery_ok d" and "deliver X ds s = (rs, t)"
    and "ci_ok io 0" and "length (ct_rows t) \<le> PAGE_SIZE * n" and "PAGE_SIZE * n < 2 ^ 63"
  shows "all_pages X io p n t = all_pages X io p n s @ filter (\<lambda>m. cm_peer_id m = p) (written ds rs) \<and> length rs = length ds \<and>
    (\<forall>i < length ds. (rs ! i = Inr True \<longrightarrow> cm_id (snd (ds ! i)) \<notin> cr_id ` set (ct_rows s) \<union> cm_id ` set (written (take i ds) (take i rs))) \<and>
      (rs ! i = Inr False \<longrightarrow> cm_id (snd (ds ! i)) \<in> cr_id ` set (ct_rows s) \<union> cm_id ` set (written (take i ds) (take i rs))))"
proof -
  from deliver_rows [OF assms(1,3,4)] obtain new where
    n: "length rs = length ds" "ct_key t = ct_key s" "ct_rows t = ct_rows s @ new" "map (message_of X s) new = written ds rs" by auto
  have ok: "table_ok (ct_rows t)" using assms(2,4)
  proof (induction ds arbitrary: s rs)
    case (Cons d ds)
    obtain io m where d: "d = (io, m)" by (cases d)
    show ?case using Cons chat_writes_kept(2) [of s X io m] by (auto simp: d chat_kept_def split: prod.splits)
  qed simp
  have len: "length (ct_rows s) \<le> PAGE_SIZE * n" using assms(6) n(3) by simp
  have "map (message_of X s) (filter (\<lambda>r. cr_peer_id r = p) new) = filter (\<lambda>m. cm_peer_id m = p) (map (message_of X s) new)"
    by (simp add: filter_map comp_def message_of_def)
  then have "all_pages X io p n t = all_pages X io p n s @ filter (\<lambda>m. cm_peer_id m = p) (written ds rs)"
    unfolding all_pages_conversation [OF ok assms(5-7)] all_pages_conversation [OF assms(2,5) len assms(7)]
    by (simp add: message_of_key [OF n(2)] n(3) n(4) [symmetric])
  with n(1) deliver_results [OF assms(1,3,4)] show ?thesis by blast
qed

definition demo_chat_io :: chat_io where
  "demo_chat_io = \<lparr>ci_nonce = (\<lambda>_. replicate 12 1), ci_ok = (\<lambda>_. True)\<rparr>"

definition demo_message :: "string \<Rightarrow> rat \<Rightarrow> chat_message" where
  "demo_message i ts =
     \<lparr>cm_id = i, cm_peer_id = ''p'', cm_sender = ''p'', cm_recipient = ''me'', cm_body = ''hi'', cm_timestamp = ts, cm_is_self = False,
      cm_status = Msg_sent, cm_kind = Kind_text, cm_attachment_name = [], cm_attachment_path = [], cm_size_str = [], cm_status_note = [],
      cm_sender_handle = ''Al''\<rparr>"

definition demo_chat :: chat_store where
  "demo_chat = \<lparr>ct_key = replicate 32 9, ct_rows = []\<rparr>"

theorem chat_history_arrival_order_witness:
  "\<exists>t. deliver plain_kdf (map (Pair demo_chat_io) [demo_message ''b'' 9, demo_message ''a'' 5, demo_message ''b'' 9]) demo_chat =
      ([Inr True, Inr True, Inr False], t) \<and>
     all_pages plain_kdf demo_chat_io ''p'' 1 t = [demo_message ''b'' 9, demo_message ''a'' 5]"
proof -
  let ?ds = "map (Pair demo_chat_io) [demo_message ''b'' 9, demo_message ''a'' 5, demo_message ''b'' 9]"
  have seal: "\<exists>r. sealed_row plain_kdf demo_chat_io (demo_message i ts) s = Inr r" if "ct_key s = replicate 32 9" for i ts s
    using that by (simp add: sealed_row_def chat_encrypt_def encrypt_blob_def KEY_LEN_def plain_kdf_def)
  have new: "\<exists>r. chat_insert_new plain_kdf demo_chat_io (demo_message i ts) s =
      (if i \<in> set (map cr_id (ct_rows s)) then (Inr False, s) else (Inr True, s\<lparr>ct_rows := ct_rows s @ [r]\<rparr>)) \<and> cr_id r = i"
    if "ct_key s = replicate 32 9" for i ts s
  proof -
    from seal [OF that] obtain r where r: "sealed_row plain_kdf demo_chat_io (demo_message i ts) s = Inr r" by blast
    moreover have "cr_id r = i" using r by (auto simp: demo_message_def elim!: sealed_rowD)
    moreover have "cm_id (demo_message i ts) = i" "ci_ok demo_chat_io 0" by (simp_all add: demo_message_def demo_chat_io_def)
    ultimately show ?thesis by (intro exI [of _ r]) (simp add: chat_insert_new_def execute_def)
  qed
  obtain t where t: "deliver plain_kdf ?ds demo_chat = ([Inr True, Inr True, Inr False], t)" "length (ct_rows t) = 2"
  proof -
    from new [of demo_chat "''b''" 9] obtain r1 where
      1: "chat_insert_new plain_kdf demo_chat_io (demo_message ''b'' 9) demo_chat = (Inr True, demo_chat\<lparr>ct_rows := [r1]\<rparr>)" "cr_id r1 = ''b''"
      by (auto simp: demo_chat_def)
    from new [of "demo_chat\<lparr>ct_rows := [r1]\<rparr>" "''a''" 5] 1(2) obtain r2 where
      2: "chat_insert_new plain_kdf demo_chat_io (demo_message ''a'' 5) (demo_chat\<lparr>ct_rows := [r1]\<rparr>) = (Inr True, demo_chat\<lparr>ct_rows := [r1, r2]\<rparr>)"
      by (auto simp: demo_chat_def)
    from new [of "demo_chat\<lparr>ct_rows := [r1, r2]\<rparr>" "''b''" 9] 1(2) have
      3: "chat_insert_new plain_kdf demo_chat_io (demo_message ''b'' 9) (demo_chat\<lparr>ct_rows := [r1, r2]\<rparr>) = (Inr False, demo_chat\<lparr>ct_rows := [r1, r2]\<rparr>)"
      by (auto simp: demo_chat_def)
    from 1 2 3 that [of "demo_chat\<lparr>ct_rows := [r1, r2]\<rparr>"] show ?thesis by simp
  qed
  have utf: "utf8_valid (as_bytes ''hi'')" "utf8_valid (as_bytes ''Al'')" by code_simp+
  have ok: "\<forall>d \<in> set ?ds. delivery_ok d" by (simp add: delivery_ok_def demo_chat_io_def demo_message_def utf)
  have sound: "seal_sound plain_kdf" by (simp add: seal_sound_def plain_kdf_def)
  have start: "table_ok (ct_rows demo_chat)" "all_pages plain_kdf demo_chat_io ''p'' 1 demo_chat = []"
    by (simp_all add: table_ok_def demo_chat_def all_pages_def get_history_def newest_first_def demo_chat_io_def page_or_empty_def Let_def)
  have io: "ci_ok demo_chat_io 0" by (simp add: demo_chat_io_def)
  have "all_pages plain_kdf demo_chat_io ''p'' 1 t = filter (\<lambda>m. cm_peer_id m = ''p'') (written ?ds [Inr True, Inr True, Inr False])"
    using chat_history_arrival_order [OF sound start(1) ok t(1) io, of 1 "''p''"] t(2) start(2) by (simp add: PAGE_SIZE_def)
  also have "\<dots> = [demo_message ''b'' 9, demo_message ''a'' 5]" by (simp add: written_def demo_message_def)
  finally show ?thesis using t(1) by blast
qed

section \<open>Reopening\<close>

definition folded_key :: "string \<Rightarrow> string" where
  "folded_key p = (if like_room p then room_conversation_id (after_last_colon p) else p)"

definition reopened_row :: "chat_row \<Rightarrow> chat_row" where
  "reopened_row r =
     (let q = r\<lparr>cr_peer_id := folded_key (cr_peer_id r)\<rparr>
      in if cr_is_self r = 1 \<and> cr_status r = ''sending'' then q\<lparr>cr_status := ''failed'', cr_status_note := ''interrupted before delivery''\<rparr> else q)"

lemma folded_not_legacy: "\<not> like_room (room_conversation_id (after_last_colon p))"
proof -
  have "CHR '':'' \<notin> set (after_last_colon p)" by (auto simp: after_last_colon_def dest: set_takeWhileD)
  then show ?thesis by (simp add: like_room_def room_conversation_id_def)
qed

lemma folded_idem [simp]: "folded_key (folded_key p) = folded_key p"
  by (simp add: folded_key_def folded_not_legacy)

lemma rekey_all_rows:
  assumes "\<And>k. ci_ok io k" and "\<forall>k \<in> set ks. like_room k"
  shows "\<exists>j. rekey_all io i ks s = (Inr j, s\<lparr>ct_rows := map (\<lambda>r. if cr_peer_id r \<in> set ks then r\<lparr>cr_peer_id := folded_key (cr_peer_id r)\<rparr> else r) (ct_rows s)\<rparr>)"
  using assms(2)
proof (induction ks arbitrary: i s)
  case (Cons k ks)
  let ?f = "\<lambda>ks r. if cr_peer_id r \<in> set ks then r\<lparr>cr_peer_id := folded_key (cr_peer_id r)\<rparr> else r"
  let ?new = "room_conversation_id (after_last_colon k)"
  have new: "?new \<noteq> k" "?new \<notin> set ks" "folded_key k = ?new"
    using Cons.prems folded_not_legacy [of k] by (auto simp: folded_key_def)
  let ?s = "s\<lparr>ct_rows := map (\<lambda>r. if cr_peer_id r = k then r\<lparr>cr_peer_id := ?new\<rparr> else r) (ct_rows s)\<rparr>"
  have "rekey_all io i (k # ks) s = rekey_all io (Suc i) ks ?s"
    using new(1) by (simp add: execute_def assms(1) sql_update_def Let_def)
  moreover obtain j where "rekey_all io (Suc i) ks ?s = (Inr j, ?s\<lparr>ct_rows := map (?f ks) (ct_rows ?s)\<rparr>)"
    using Cons.IH [of "Suc i" ?s] Cons.prems by auto
  moreover have "map (?f ks) (ct_rows ?s) = map (?f (k # ks)) (ct_rows s)" using new(2,3) by auto
  moreover have "?s\<lparr>ct_rows := rows\<rparr> = s\<lparr>ct_rows := rows\<rparr>" for rows by simp
  ultimately have "rekey_all io i (k # ks) s = (Inr j, s\<lparr>ct_rows := map (?f (k # ks)) (ct_rows s)\<rparr>)" by (simp only:)
  then show ?case by blast
qed simp

lemma open_chat_rows:
  assumes "\<And>k. ci_ok io k"
  shows "open_chat io key rows = (Inr (), \<lparr>ct_key = key, ct_rows = map reopened_row rows\<rparr>)"
proof -
  let ?s = "\<lparr>ct_key = key, ct_rows = rows\<rparr>"
  let ?ks = "remdups (map cr_peer_id (filter (\<lambda>r. like_room (cr_peer_id r)) rows))"
  have "map (\<lambda>r. if cr_peer_id r \<in> set ?ks then r\<lparr>cr_peer_id := folded_key (cr_peer_id r)\<rparr> else r) rows =
      map (\<lambda>r. r\<lparr>cr_peer_id := folded_key (cr_peer_id r)\<rparr>) rows"
    by (auto simp: folded_key_def)
  moreover obtain j where "migrate_room_keys io 2 ?s =
      (Inr j, ?s\<lparr>ct_rows := map (\<lambda>r. if cr_peer_id r \<in> set ?ks then r\<lparr>cr_peer_id := folded_key (cr_peer_id r)\<rparr> else r) rows\<rparr>)"
    using rekey_all_rows [OF assms, of ?ks 3 ?s] by (auto simp: migrate_room_keys_def assms eval_nat_numeral)
  ultimately show ?thesis
    by (auto simp: open_chat_def assms fail_stale_sending_def execute_def sql_update_def result_unit_def reopened_row_def Let_def)
qed

text \<open>Opening again changes nothing: the migration of the keys and the repair of stale rows are idempotent.\<close>

lemma open_chat_idem: "(\<And>k. ci_ok io k) \<Longrightarrow> open_chat io key (ct_rows (snd (open_chat io key rows))) = open_chat io key rows"
  by (simp add: open_chat_rows reopened_row_def Let_def comp_def)

text \<open>A room id with a colon does not survive: its conversation is moved to that of another room.\<close>

lemma colon_room_moves:
  assumes "CHR '':'' \<in> set room_id" shows "folded_key (room_conversation_id room_id) = room_conversation_id (after_last_colon room_id)"
proof -
  have "after_last_colon (''room:'' @ room_id) = after_last_colon room_id"
    using assms by (simp add: after_last_colon_def takeWhile_append1 [where x = "CHR '':''"])
  moreover have "to_ascii_lowercase ''room:'' = ''room:''" by code_simp
  ultimately show ?thesis using assms by (simp add: folded_key_def like_room_def room_conversation_id_def)
qed

section \<open>Trimming and reading\<close>

lemma trim_peer_rows:
  assumes "table_ok rows"
  shows "snd (trim_peer keep pid rows) = filter (\<lambda>r. cr_peer_id r \<noteq> pid \<or> r \<in> set (newest_first keep 0 (filter (\<lambda>r. cr_peer_id r = pid) rows))) rows"
proof -
  have inj: "cr_rowid r \<in> cr_rowid ` A \<longleftrightarrow> r \<in> A" if "r \<in> set rows" "A \<subseteq> set rows" for r A
    using that assms by (auto simp: table_ok_def strict_sorted_iff distinct_map inj_on_def)
  have "set (newest_first keep 0 (filter (\<lambda>r. cr_peer_id r = pid) rows)) \<subseteq> set rows"
    by (auto simp: newest_first_def Let_def dest: in_set_takeD split: if_splits)
  with inj show ?thesis by (auto simp: trim_peer_def sql_delete_def Let_def intro!: filter_cong)
qed

lemma filter_in_suffix: "distinct xs \<Longrightarrow> filter (\<lambda>x. x \<in> set (drop n xs)) xs = drop n xs"
proof -
  assume d: "distinct xs"
  have "filter (\<lambda>x. x \<in> set (drop n xs)) (take n xs @ drop n xs) = drop n xs"
    using set_take_disj_set_drop_if_distinct [OF d, of n n] by (simp only: filter_append) (auto simp: filter_empty_conv)
  then show ?thesis by simp
qed

definition kept_of :: "int \<Rightarrow> 'a list \<Rightarrow> 'a list" where
  "kept_of keep xs = drop (if keep < 0 then 0 else length xs - nat keep) xs"

lemma trim_peer_conversation:
  assumes "table_ok rows"
  shows "filter (\<lambda>r. cr_peer_id r = p) (snd (trim_peer keep pid rows)) =
    (if p = pid then kept_of keep (filter (\<lambda>r. cr_peer_id r = p) rows) else filter (\<lambda>r. cr_peer_id r = p) rows)"
proof -
  let ?xs = "filter (\<lambda>r. cr_peer_id r = pid) rows"
  have d: "distinct ?xs" using assms by (auto simp: table_ok_def distinct_map)
  have "set (newest_first keep 0 ?xs) = set (kept_of keep ?xs)"
    by (simp add: newest_first_sorted [OF table_ok_filter [OF assms]] kept_of_def take_rev)
  moreover have "filter (\<lambda>r. r \<in> set (kept_of keep ?xs)) ?xs = kept_of keep ?xs"
    unfolding kept_of_def by (rule filter_in_suffix [OF d])
  moreover have "filter (\<lambda>r. cr_peer_id r = p) (snd (trim_peer keep pid rows)) =
      filter (\<lambda>r. p = pid \<longrightarrow> r \<in> set (newest_first keep 0 ?xs)) (filter (\<lambda>r. cr_peer_id r = p) rows)"
    unfolding trim_peer_rows [OF assms] filter_filter by (rule filter_cong) auto
  ultimately show ?thesis by simp
qed

lemma trim_peer_length: "fst (trim_peer keep pid rows) + length (snd (trim_peer keep pid rows)) = length rows"
  unfolding trim_peer_def sql_delete_def Let_def fst_conv snd_conv by (rule sum_length_filter_compl)

lemma trim_peers_conversations:
  assumes "\<And>k. ci_ok io k" and "table_ok (ct_rows s)" and "distinct pids"
  shows "\<exists>k t. trim_peers io keep i pids n s = (Inr (n + k), t) \<and> table_ok (ct_rows t) \<and> k + length (ct_rows t) = length (ct_rows s) \<and>
    (\<forall>p. filter (\<lambda>r. cr_peer_id r = p) (ct_rows t) =
      (if p \<in> set pids then kept_of keep (filter (\<lambda>r. cr_peer_id r = p) (ct_rows s)) else filter (\<lambda>r. cr_peer_id r = p) (ct_rows s)))"
  using assms(2,3)
proof (induction pids arbitrary: i n s)
  case (Cons pid pids)
  define s1 where "s1 = s\<lparr>ct_rows := snd (trim_peer keep pid (ct_rows s))\<rparr>"
  define k where "k = fst (trim_peer keep pid (ct_rows s))"
  have step: "trim_peers io keep i (pid # pids) n s = trim_peers io keep (Suc i) pids (n + k) s1"
    by (simp add: execute_def assms(1) s1_def k_def case_prod_unfold Let_def)
  have ok: "table_ok (ct_rows s1)" using Cons.prems(1) by (simp add: s1_def trim_peer_rows table_ok_filter)
  have len: "k + length (ct_rows s1) = length (ct_rows s)" by (simp add: s1_def k_def trim_peer_length)
  note conv = trim_peer_conversation [OF Cons.prems(1), of _ keep pid]
  from Cons.IH [OF ok, of "Suc i" "n + k"] Cons.prems(2) obtain k2 t where
    t: "trim_peers io keep (Suc i) pids (n + k) s1 = (Inr (n + k + k2), t)" "table_ok (ct_rows t)" "k2 + length (ct_rows t) = length (ct_rows s1)"
      "\<And>p. filter (\<lambda>r. cr_peer_id r = p) (ct_rows t) =
        (if p \<in> set pids then kept_of keep (filter (\<lambda>r. cr_peer_id r = p) (ct_rows s1)) else filter (\<lambda>r. cr_peer_id r = p) (ct_rows s1))" by auto
  have "filter (\<lambda>r. cr_peer_id r = p) (ct_rows t) =
      (if p \<in> set (pid # pids) then kept_of keep (filter (\<lambda>r. cr_peer_id r = p) (ct_rows s)) else filter (\<lambda>r. cr_peer_id r = p) (ct_rows s))" for p
    using Cons.prems(2) unfolding t(4) by (simp add: s1_def conv)
  with step t(1-3) len show ?case by (intro exI [of _ "k + k2"] exI [of _ t]) (simp add: add.assoc)
qed simp

text \<open>Trimming by count keeps exactly the newest messages of every conversation, and all of them for a negative count.\<close>

lemma trim_by_count_newest:
  assumes "\<And>k. ci_ok io k" and "table_ok (ct_rows s)"
  shows "\<exists>k t. trim_by_count io keep s = (Inr k, t) \<and> table_ok (ct_rows t) \<and> k + length (ct_rows t) = length (ct_rows s) \<and>
    (\<forall>p. filter (\<lambda>r. cr_peer_id r = p) (ct_rows t) = kept_of (sint keep) (filter (\<lambda>r. cr_peer_id r = p) (ct_rows s)))"
proof -
  let ?pids = "remdups (map cr_peer_id (ct_rows s))"
  have "filter (\<lambda>r. cr_peer_id r = p) (ct_rows s) = []" if "p \<notin> set ?pids" for p using that by (auto simp: filter_empty_conv)
  then have none: "(if p \<in> set ?pids then kept_of (sint keep) (filter (\<lambda>r. cr_peer_id r = p) (ct_rows s)) else filter (\<lambda>r. cr_peer_id r = p) (ct_rows s)) =
      kept_of (sint keep) (filter (\<lambda>r. cr_peer_id r = p) (ct_rows s))" for p by (simp add: kept_of_def)
  from trim_peers_conversations [OF assms distinct_remdups [of "map cr_peer_id (ct_rows s)"], of "sint keep" 1 0] show ?thesis
    unfolding none trim_by_count_def by (simp add: assms(1))
qed

lemma mark_peer_read_counts:
  assumes "ci_ok io 0" and "mark_peer_read io p s = (r, t)"
  shows "unread_count io p s = r" and "unread_count io p t = Inr 0" and "q \<noteq> p \<Longrightarrow> unread_count io q t = unread_count io q s"
proof -
  have r: "r = Inr (length (filter (\<lambda>r. cr_peer_id r = p \<and> unread_row r) (ct_rows s)))"
    and t: "ct_rows t = map (\<lambda>r. if cr_peer_id r = p \<and> unread_row r then r\<lparr>cr_status := ''read''\<rparr> else r) (ct_rows s)"
    using assms by (auto simp: mark_peer_read_def execute_def sql_update_def)
  show "unread_count io p s = r" by (simp add: unread_count_def assms(1) r)
  show "unread_count io p t = Inr 0" by (auto simp: unread_count_def assms(1) t filter_empty_conv unread_row_def)
  show "unread_count io q t = unread_count io q s" if "q \<noteq> p"
    using that by (auto simp: unread_count_def assms(1) t filter_map comp_def unread_row_def intro!: arg_cong [where f = length] filter_cong)
qed

end
