(* ===== verification/Routing.thy ===== *)
theory Routing
  imports Client_Peers Room_Keying Registry Channel_Frame
begin

text \<open>
  Outbound routing of the client, \<open>connection_manager/manager/routing.rs\<close>: the quota gate, the direct stream
  of a peer (named after the session that feeds it), the session of a supernode with the rewriting to a live sibling of its cluster, and the
  fan-out over all supernodes, where a message to a paired peer travels in an encrypted envelope. The
  sessions are lists in the order of their iteration. \<open>route_env\<close> holds the libraries, the clock and
  what the bounded queues of the sessions say to \<open>try_send\<close>. Messages always serialise, and log lines are left out.
\<close>

section \<open>Classes of messages\<close>

definition should_fanout_peer_relay :: "bool \<Rightarrow> bool \<Rightarrow> bool" where
  "should_fanout_peer_relay has_target target_is_supernode_session \<longleftrightarrow> has_target \<and> \<not> target_is_supernode_session"

definition channel_tag_for :: "client_type \<Rightarrow> u8" where
  "channel_tag_for t =
     (if t \<in> {ChatMessage_c, ChatAck_c, ChatTyping_c} then CHAT_TAG
      else if t \<in> {FileTransferOffer_c, FileTransferAccept_c, FileTransferReject_c, FileTransferChunk_c, FileTransferComplete_c,
          FileTransferAck_c, FileTransferError_c} then FILE_TAG
      else CONTROL_TAG)"

definition is_relay_signaling_type :: "client_type \<Rightarrow> bool" where
  "is_relay_signaling_type t \<longleftrightarrow>
     t \<in> {SfuChat_c, SfuFileOffer_c, SfuFileRequest_c, SfuFileRevoke_c, SfuFileChunk_c, SfuFileComplete_c}"

definition is_ordered_file_payload :: "client_type \<Rightarrow> bool" where
  "is_ordered_file_payload t \<longleftrightarrow> t \<in> {FileTransferChunk_c, FileTransferComplete_c, SfuFileChunk_c, SfuFileComplete_c}"

definition feature_gate_for :: "client_type \<Rightarrow> feature_id option" where
  "feature_gate_for t =
     (if t \<in> {ChatMessage_c, ChatAck_c, ChatTyping_c} then Some ''core.chat.v1''
      else if t \<in> {FileTransferOffer_c, FileTransferAccept_c, FileTransferReject_c, FileTransferChunk_c, FileTransferComplete_c,
          FileTransferAck_c, FileTransferError_c} then Some ''core.file.v1''
      else if t \<in> {SfuFileOffer_c, SfuFileRequest_c, SfuFileRevoke_c, SfuFileChunk_c, SfuFileComplete_c} then Some ''room.file.v1''
      else if t = SfuChat_c then Some ''room.chat.v1''
      else None)"

definition byte_estimate :: "client_message \<Rightarrow> nat" where
  "byte_estimate m = max 64 (sum_list (map length (List.map_filter (j_str \<circ> snd) (cm_payload m))))"

section \<open>Sessions\<close>

datatype peer_connection_state = Peer_disconnected | Peer_connecting | Peer_connected

record peer_connection =
  pn_state :: peer_connection_state
  pn_quic_out :: "string option"

record supernode_session =
  ss_ws_url :: string
  ss_connected :: bool

record relay_client =
  rl_alive :: bool
  rl_portal_only :: bool
  rl_signal_live :: bool
  rl_signal_tx :: bool

record ('a, 'm) router =
  ro_me :: peer_id
  ro_scalar :: bytes
  ro_peers :: "peer_id \<rightharpoonup> peer_connection"
  ro_supernodes :: "(peer_id \<times> supernode_session) list"
  ro_relays :: "peer_id \<rightharpoonup> relay_client"
  ro_store :: "'a peer_map"
  ro_cluster :: "(peer_id \<times> peer_id list) list"
  ro_features :: "'m feature_registry"

record 'a route_env =
  rt_kdf :: kdf_lib
  rt_json :: json_lib
  rt_crates :: crates
  rt_sign :: "bytes \<Rightarrow> bytes"
  rt_now :: rat
  rt_instant :: instant
  rt_nonce :: bytes
  rt_order :: "'a client_peer key_order"
  rt_quic_takes :: "string \<Rightarrow> bool"
  rt_ws_takes :: "peer_id \<Rightarrow> bool"
  rt_relay_takes :: "peer_id \<Rightarrow> bool"

datatype route_out =
    Quic_frame string bytes
  | Ws_text peer_id string
  | Relay_frame peer_id bytes
  | Ws_drop peer_id
  | Chat_send_failed peer_id string string

definition SIGNAL_MAX_FRAME :: nat where "SIGNAL_MAX_FRAME = 262144"

definition signaling_usable :: "relay_client \<Rightarrow> bool" where
  "signaling_usable r \<longleftrightarrow> \<not> rl_portal_only r \<and> rl_alive r \<and> rl_signal_live r \<and> rl_signal_tx r"

definition send_signaling :: "bool \<Rightarrow> bytes \<Rightarrow> relay_client \<Rightarrow> bool" where
  "send_signaling takes json r \<longleftrightarrow>
     \<not> rl_portal_only r \<and> rl_alive r \<and> rl_signal_live r \<and> length json \<le> SIGNAL_MAX_FRAME \<and> rl_signal_tx r \<and> takes"

section \<open>Supernode targets\<close>

definition session_named :: "string \<Rightarrow> ('a, 'm) router \<Rightarrow> peer_id option" where
  "session_named bare_id r = map_option fst (find (\<lambda>(k, _). bare k = bare_id) (ro_supernodes r))"

definition resolve_supernode_session_key :: "'a route_env \<Rightarrow> ('a, 'm) router \<Rightarrow> peer_id \<Rightarrow> peer_id option" where
  "resolve_supernode_session_key E r target =
     (if map_of (ro_supernodes r) target \<noteq> None then Some target
      else case (if bare target \<noteq> target then session_named (bare target) r else None) of
          Some k \<Rightarrow> Some k
        | None \<Rightarrow>
            (case resolve_supernode_identity_pub (rt_order E) target (ro_store r) of
               None \<Rightarrow> None
             | Some canon \<Rightarrow> if map_of (ro_supernodes r) canon \<noteq> None then Some canon else session_named (bare canon) r))"

definition sibling_ids :: "peer_id \<Rightarrow> ('a, 'm) router \<Rightarrow> peer_id list" where
  "sibling_ids offline_bare r =
     concat (map (\<lambda>(key, members). key # members)
       (filter (\<lambda>(key, members). bare key = offline_bare \<or> (\<exists>m \<in> set members. bare m = offline_bare)) (ro_cluster r)))"

definition live_session_named :: "string \<Rightarrow> ('a, 'm) router \<Rightarrow> peer_id option" where
  "live_session_named bare_id r = map_option fst (find (\<lambda>(k, sn). ss_connected sn \<and> bare k = bare_id) (ro_supernodes r))"

fun first_live :: "string \<Rightarrow> ('a, 'm) router \<Rightarrow> peer_id list \<Rightarrow> peer_id option" where
  "first_live offline_bare r [] = None"
| "first_live offline_bare r (c # cs) =
     (if bare c = offline_bare then first_live offline_bare r cs
      else case live_session_named (bare c) r of Some k \<Rightarrow> Some k | None \<Rightarrow> first_live offline_bare r cs)"

definition live_cluster_sibling_session :: "peer_id \<Rightarrow> ('a, 'm) router \<Rightarrow> peer_id option" where
  "live_cluster_sibling_session offline_id r = first_live (bare offline_id) r (sibling_ids (bare offline_id) r)"

definition session_up :: "peer_id \<Rightarrow> ('a, 'm) router \<Rightarrow> bool" where
  "session_up k r = (case map_of (ro_supernodes r) k of None \<Rightarrow> False | Some sn \<Rightarrow> ss_connected sn)"

definition resolve_supernode_ws_target :: "'a route_env \<Rightarrow> ('a, 'm) router \<Rightarrow> peer_id \<Rightarrow> peer_id option" where
  "resolve_supernode_ws_target E r target =
     (case resolve_supernode_session_key E r target of
        None \<Rightarrow> None
      | Some preferred \<Rightarrow>
          if session_up preferred r then Some preferred
          else case live_cluster_sibling_session preferred r of Some live \<Rightarrow> Some live | None \<Rightarrow> Some preferred)"

section \<open>Envelopes for the relay path\<close>

definition relay_identity :: "'a route_env \<Rightarrow> ('a, 'm) router \<Rightarrow> peer_id \<Rightarrow> peer_id option" where
  "relay_identity E r target =
     (if is_supernode_id (rt_order E) target (ro_store r) then None
      else map_option cp_identity_pub
        (case ro_store r target of Some q \<Rightarrow> Some q | None \<Rightarrow> cpeer_get_by_identity (rt_order E) target (ro_store r)))"

definition sign_message_json :: "'a route_env \<Rightarrow> client_message \<Rightarrow> string" where
  "sign_message_json E m = client_to_json (rt_json E) (client_sign (rt_json E) (rt_crates E) (rt_sign E) m)"

definition maybe_wrap_for_relay :: "'a route_env \<Rightarrow> ('a, 'm) router \<Rightarrow> client_message \<Rightarrow> string \<Rightarrow> string option" where
  "maybe_wrap_for_relay E r inner inner_json =
     (if cm_type inner = EncryptedSignal_c then None
      else case cm_target inner of
          None \<Rightarrow> None
        | Some target \<Rightarrow>
            (case relay_identity E r target of
               None \<Rightarrow> None
             | Some peer_identity_pub \<Rightarrow>
                 if peer_identity_pub = [] then None
                 else case derive_pairwise_relay_key (rt_kdf E) (rt_crates E) (ro_scalar r) (ro_me r) peer_identity_pub of
                     Inl _ \<Rightarrow> None
                   | Inr key \<Rightarrow>
                       (case encrypt_blob (rt_kdf E) (rt_nonce E) key (as_bytes inner_json) of
                          Inl _ \<Rightarrow> None
                        | Inr ciphertext \<Rightarrow>
                            Some (sign_message_json E ((new_client (rt_now E) EncryptedSignal_c (ro_me r)
                              [(''ciphertext'', VStr (cr_b64_encode (rt_crates E) ciphertext))])\<lparr>cm_target := cm_target inner\<rparr>)))))"

section \<open>Routes\<close>

text \<open>The peer and id of a chat message, for the report of a failure.\<close>

definition chat_attempt :: "client_message \<Rightarrow> (peer_id \<times> string) option" where
  "chat_attempt m =
     (if cm_type m = ChatMessage_c
      then (case (cm_target m, get_str ''message_id'' (VObj (cm_payload m))) of (Some p, Some i) \<Rightarrow> Some (p, i) | _ \<Rightarrow> None)
      else None)"

definition chat_failed :: "client_message \<Rightarrow> string \<Rightarrow> route_out list" where
  "chat_failed m reason = (case chat_attempt m of None \<Rightarrow> [] | Some (p, i) \<Rightarrow> [Chat_send_failed p i reason])"

definition supernode_available :: "('a, 'm) router \<Rightarrow> bool" where
  "supernode_available r \<longleftrightarrow> (\<exists>(k, sn) \<in> set (ro_supernodes r). ss_connected sn)"

definition direct_connected :: "peer_id \<Rightarrow> ('a, 'm) router \<Rightarrow> bool" where
  "direct_connected p r = (case ro_peers r p of None \<Rightarrow> False | Some c \<Rightarrow> pn_state c = Peer_connected)"

definition direct_stream :: "peer_id \<Rightarrow> ('a, 'm) router \<Rightarrow> string option" where
  "direct_stream p r = (case ro_peers r p of None \<Rightarrow> None | Some c \<Rightarrow> if pn_state c = Peer_connected then pn_quic_out c else None)"

definition gate_outbound :: "'a route_env \<Rightarrow> client_message \<Rightarrow> ('a, 'm) router \<Rightarrow> bool \<times> ('a, 'm) router" where
  "gate_outbound E m r =
     (case (cm_target m, feature_gate_for (cm_type m)) of
        (Some target, Some fid) \<Rightarrow>
          (let (ok, reg) = gate_through_feature fid target (byte_estimate m) (rt_instant E) (ro_features r)
           in (ok, r\<lparr>ro_features := reg\<rparr>))
      | _ \<Rightarrow> (True, r))"

text \<open>A route decides, or leaves the message to the next one.\<close>

type_synonym decision = "(bool \<times> route_out list) option"

definition route_direct :: "'a route_env \<Rightarrow> ('a, 'm) router \<Rightarrow> client_message \<Rightarrow> string \<Rightarrow> decision" where
  "route_direct E r m json =
     (case cm_target m of
        None \<Rightarrow> None
      | Some target \<Rightarrow>
          (case direct_stream target r of
             None \<Rightarrow> None
           | Some stream \<Rightarrow>
               if rt_quic_takes E stream then Some (True, [Quic_frame stream (encode_frame (channel_tag_for (cm_type m)) (as_bytes json))])
               else if is_ordered_file_payload (cm_type m) then Some (False, [])
               else if supernode_available r then None
               else Some (False, chat_failed m ''connection busy'')))"

definition route_supernode_ws :: "'a route_env \<Rightarrow> ('a, 'm) router \<Rightarrow> client_message \<Rightarrow> string \<Rightarrow> peer_id \<Rightarrow> bool \<times> route_out list" where
  "route_supernode_ws E r m json sn_id =
     (if session_up sn_id r
      then if rt_ws_takes E sn_id then (True, [Ws_text sn_id json]) else (False, [Ws_drop sn_id])
      else (False, chat_failed m ''supernode is offline''))"

definition route_supernode :: "'a route_env \<Rightarrow> ('a, 'm) router \<Rightarrow> client_message \<Rightarrow> string \<Rightarrow> decision" where
  "route_supernode E r m json =
     (case Option.bind (cm_target m) (resolve_supernode_ws_target E r) of
        None \<Rightarrow> None
      | Some sn_id \<Rightarrow>
          Some (case (if is_relay_signaling_type (cm_type m) then ro_relays r sn_id else None) of
              None \<Rightarrow> route_supernode_ws E r m json sn_id
            | Some relay \<Rightarrow>
                if \<not> rl_alive relay then route_supernode_ws E r m json sn_id
                else if send_signaling (rt_relay_takes E sn_id) (as_bytes json) relay then (True, [Relay_frame sn_id (as_bytes json)])
                else if signaling_usable relay \<and> is_ordered_file_payload (cm_type m) then (False, [])
                else route_supernode_ws E r m json sn_id))"

definition route_fanout :: "'a route_env \<Rightarrow> ('a, 'm) router \<Rightarrow> client_message \<Rightarrow> string \<Rightarrow> bool \<times> route_out list" where
  "route_fanout E r m relay_json =
     (let up = map fst (filter (ss_connected \<circ> snd) (ro_supernodes r));
          taken = filter (rt_ws_takes E) up;
          outs = map (\<lambda>k. Ws_text k relay_json) taken @ map Ws_drop (filter (\<lambda>k. \<not> rt_ws_takes E k) up)
      in if taken \<noteq> [] then (True, outs) else (False, outs @ chat_failed m ''peer is offline''))"

definition route_broadcast :: "'a route_env \<Rightarrow> ('a, 'm) router \<Rightarrow> string \<Rightarrow> bool \<times> route_out list" where
  "route_broadcast E r relay_json =
     (case find (\<lambda>(k, sn). ss_connected sn \<and> rt_ws_takes E k) (ro_supernodes r) of
        None \<Rightarrow> (False, [])
      | Some (k, _) \<Rightarrow> (True, [Ws_text k relay_json]))"

definition route_rest :: "'a route_env \<Rightarrow> ('a, 'm) router \<Rightarrow> client_message \<Rightarrow> string \<Rightarrow> bool \<times> route_out list" where
  "route_rest E r m relay_json =
     (let target_is_supernode = (Option.bind (cm_target m) (resolve_supernode_ws_target E r) \<noteq> None)
      in if should_fanout_peer_relay (cm_target m \<noteq> None) target_is_supernode then route_fanout E r m relay_json
         else route_broadcast E r relay_json)"

definition dispatch_outbound :: "'a route_env \<Rightarrow> client_message \<Rightarrow> ('a, 'm) router \<Rightarrow> bool \<times> route_out list \<times> ('a, 'm) router" where
  "dispatch_outbound E msg r =
     (if (case chat_attempt msg of None \<Rightarrow> False | Some (p, _) \<Rightarrow> \<not> direct_connected p r \<and> \<not> supernode_available r)
      then (False, chat_failed msg ''peer is offline'', r)
      else let (ok, r1) = gate_outbound E msg r
           in if \<not> ok then (False, chat_failed msg ''quota exceeded'', r1)
              else let m = client_sign (rt_json E) (rt_crates E) (rt_sign E) msg;
                       json = client_to_json (rt_json E) m;
                       relay_json = (case maybe_wrap_for_relay E r1 m json of Some e \<Rightarrow> e | None \<Rightarrow> json);
                       (sent, outs) = (case route_direct E r1 m json of Some d \<Rightarrow> d | None \<Rightarrow>
                         (case route_supernode E r1 m json of Some d \<Rightarrow> d | None \<Rightarrow> route_rest E r1 m relay_json))
                   in (sent, outs, r1))"

section \<open>What leaves\<close>

fun handed :: "route_out \<Rightarrow> bool" where
  "handed (Quic_frame _ _) = True"
| "handed (Ws_text _ _) = True"
| "handed (Relay_frame _ _) = True"
| "handed (Ws_drop _) = False"
| "handed (Chat_send_failed _ _ _) = False"

fun failure :: "route_out \<Rightarrow> bool" where
  "failure (Chat_send_failed _ _ _) = True"
| "failure _ = False"

lemma sign_fields [simp]:
  "cm_type (client_sign L C sign m) = cm_type m" "cm_target (client_sign L C sign m) = cm_target m"
  "cm_payload (client_sign L C sign m) = cm_payload m" "cm_sender (client_sign L C sign m) = cm_sender m"
  "cm_timestamp (client_sign L C sign m) = cm_timestamp m" "chat_attempt (client_sign L C sign m) = chat_attempt m"
  "chat_failed (client_sign L C sign m) = chat_failed m"
  by (simp_all add: client_sign_def chat_attempt_def chat_failed_def fun_eq_iff)

text \<open>Routing does not read the quotas.\<close>

lemma sessions_features [simp]:
  "session_named b (r\<lparr>ro_features := f\<rparr>) = session_named b r" "live_session_named b (r\<lparr>ro_features := f\<rparr>) = live_session_named b r"
  "session_up k (r\<lparr>ro_features := f\<rparr>) = session_up k r" "sibling_ids b (r\<lparr>ro_features := f\<rparr>) = sibling_ids b r"
  "direct_stream t (r\<lparr>ro_features := f\<rparr>) = direct_stream t r"
  "supernode_available (r\<lparr>ro_features := f\<rparr>) = supernode_available r"
  by (simp_all add: session_named_def live_session_named_def session_up_def sibling_ids_def direct_stream_def supernode_available_def)

lemma first_live_features [simp]: "first_live b (r\<lparr>ro_features := f\<rparr>) cs = first_live b r cs"
  by (induction cs) (simp_all cong: option.case_cong)

lemma resolve_features [simp]:
  "live_cluster_sibling_session k (r\<lparr>ro_features := f\<rparr>) = live_cluster_sibling_session k r"
  "relay_identity E (r\<lparr>ro_features := f\<rparr>) t = relay_identity E r t"
  "resolve_supernode_session_key E (r\<lparr>ro_features := f\<rparr>) t = resolve_supernode_session_key E r t"
  "resolve_supernode_ws_target E (r\<lparr>ro_features := f\<rparr>) t = resolve_supernode_ws_target E r t"
proof -
  show live: "live_cluster_sibling_session k (r\<lparr>ro_features := f\<rparr>) = live_cluster_sibling_session k r" for k
    by (simp add: live_cluster_sibling_session_def)
  show "relay_identity E (r\<lparr>ro_features := f\<rparr>) t = relay_identity E r t" by (simp add: relay_identity_def cong: option.case_cong)
  show key: "resolve_supernode_session_key E (r\<lparr>ro_features := f\<rparr>) t = resolve_supernode_session_key E r t"
    by (simp add: resolve_supernode_session_key_def cong: option.case_cong if_cong)
  show "resolve_supernode_ws_target E (r\<lparr>ro_features := f\<rparr>) t = resolve_supernode_ws_target E r t"
    by (simp add: resolve_supernode_ws_target_def key live cong: option.case_cong if_cong)
qed

lemma gate_outbound_features: "gate_outbound E m r = (ok, r') \<Longrightarrow> r' = r\<lparr>ro_features := ro_features r'\<rparr>"
  by (auto simp: gate_outbound_def split: option.splits prod.splits)

text \<open>A decision is honest: something is handed over exactly when it says so.\<close>

definition honest :: "bool \<times> route_out list \<Rightarrow> bool" where
  "honest d \<longleftrightarrow> (fst d \<longleftrightarrow> (\<exists>out \<in> set (snd d). handed out))"

lemma chat_failed_not_handed [simp]: "out \<in> set (chat_failed m e) \<Longrightarrow> \<not> handed out"
  by (auto simp: chat_failed_def split: option.splits)

lemma routes_honest:
  "route_direct E r m json = Some d \<Longrightarrow> honest d" "route_supernode E r m json = Some d \<Longrightarrow> honest d" "honest (route_rest E r m rj)"
proof -
  have ws: "honest (route_supernode_ws E r m json k)" for k by (auto simp: honest_def route_supernode_ws_def)
  show "route_direct E r m json = Some d \<Longrightarrow> honest d"
    by (auto simp: honest_def route_direct_def split: option.splits if_splits)
  show "route_supernode E r m json = Some d \<Longrightarrow> honest d"
    using ws by (auto simp: route_supernode_def honest_def split: option.splits if_splits)
  define up where "up = map fst (filter (ss_connected \<circ> snd) (ro_supernodes r))"
  have "honest (route_fanout E r m rj)"
    unfolding route_fanout_def Let_def up_def [symmetric] honest_def
    by (cases "filter (rt_ws_takes E) up") auto
  moreover have "honest (route_broadcast E r rj)" by (auto simp: route_broadcast_def honest_def split: option.split)
  ultimately show "honest (route_rest E r m rj)" by (simp add: route_rest_def Let_def)
qed

lemma dispatch_cases:
  assumes "dispatch_outbound E msg r = (sent, outs, r')"
  obtains (early) reason where "sent = False" "outs = chat_failed msg reason"
  | (routed) f m json rj where "r' = r\<lparr>ro_features := f\<rparr>" "m = client_sign (rt_json E) (rt_crates E) (rt_sign E) msg"
      "json = client_to_json (rt_json E) m" "rj = (case maybe_wrap_for_relay E r' m json of Some e \<Rightarrow> e | None \<Rightarrow> json)"
      "(sent, outs) = (case route_direct E r' m json of Some d \<Rightarrow> d | None \<Rightarrow>
        (case route_supernode E r' m json of Some d \<Rightarrow> d | None \<Rightarrow> route_rest E r' m rj))"
proof -
  obtain ok r1 where g: "gate_outbound E msg r = (ok, r1)" by fastforce
  from gate_outbound_features [OF g] obtain f where f: "r1 = r\<lparr>ro_features := f\<rparr>" by blast
  show thesis using assms early routed [OF _ refl refl refl] by (auto simp: dispatch_outbound_def g f Let_def split: if_splits prod.splits)
qed

text \<open>
  C22. A chat message is either handed to a transport, with no failure reported, or nothing of it leaves and
  the user is told exactly once, with the message it concerns. The exception is a chat addressed to a
  supernode whose session is up and whose queue is full.
\<close>

theorem chat_outcome_reported:
  assumes "dispatch_outbound E msg r = (sent, outs, r')" and "chat_attempt msg = Some (p, i)"
    and "\<And>k. resolve_supernode_ws_target E r p = Some k \<Longrightarrow> session_up k r \<Longrightarrow> rt_ws_takes E k"
  shows "(sent \<longleftrightarrow> (\<exists>out \<in> set outs. handed out)) \<and> (sent \<longrightarrow> filter failure outs = []) \<and>
    (\<not> sent \<longrightarrow> (\<exists>reason. filter failure outs = [Chat_send_failed p i reason]))"
proof -
  have t: "cm_type msg = ChatMessage_c" "cm_target msg = Some p"
    using assms(2) by (auto simp: chat_attempt_def split: if_splits option.splits)
  have c: "chat_failed msg reason = [Chat_send_failed p i reason]" for reason by (simp add: chat_failed_def assms(2))
  show ?thesis using assms(1)
  proof (cases rule: dispatch_cases)
    case (routed f m json rj)
    have m: "cm_type m = ChatMessage_c" "cm_target m = Some p" "chat_failed m = chat_failed msg" by (simp_all add: routed(2) t)
    have plain: "\<not> is_ordered_file_payload ChatMessage_c" "\<not> is_relay_signaling_type ChatMessage_c"
      by (simp_all add: is_ordered_file_payload_def is_relay_signaling_type_def)
    define told where "told d \<longleftrightarrow> (if fst d then filter failure (snd d) = [] else \<exists>reason. filter failure (snd d) = [Chat_send_failed p i reason])"
      for d
    have "told d" if "route_direct E r' m json = Some d" for d
      using that by (auto simp: route_direct_def m plain told_def c split: if_splits option.splits)
    moreover have "told d" if "route_supernode E r' m json = Some d" for d
      using that assms(3) by (auto simp: route_supernode_def route_supernode_ws_def m plain told_def c routed(1) split: option.splits if_splits)
    moreover have "told (route_rest E r' m rj)" if "route_supernode E r' m json = None"
      using that
      by (auto simp: route_rest_def route_fanout_def should_fanout_peer_relay_def route_supernode_def m told_def c Let_def filter_empty_conv
          split: option.splits)
    ultimately have "told (sent, outs)" unfolding routed(5) by (auto split: option.split)
    moreover have "honest (sent, outs)" unfolding routed(5) using routes_honest by (auto split: option.split)
    ultimately show ?thesis by (auto simp: told_def honest_def split: if_splits)
  qed (simp add: c)
qed

text \<open>A client with one paired peer and one supernode.\<close>

definition demo_bob :: string where "demo_bob = spread (string_of_bytes (replicate 32 1))"

definition demo_route :: "unit route_env" where
  "demo_route = \<lparr>rt_kdf = plain_kdf, rt_json = plain_json, rt_crates = plain_crates, rt_sign = (\<lambda>_. replicate 64 0), rt_now = 0, rt_instant = 0,
     rt_nonce = replicate 12 1, rt_order = (\<lambda>_. [''bob'']), rt_quic_takes = (\<lambda>_. True), rt_ws_takes = (\<lambda>_. True), rt_relay_takes = (\<lambda>_. True)\<rparr>"

definition demo_router :: "bool \<Rightarrow> (unit, unit) router" where
  "demo_router up = \<lparr>ro_me = plain_signer, ro_scalar = replicate 32 0, ro_peers = Map.empty,
     ro_supernodes = [(''sn'', \<lparr>ss_ws_url = ''wss://sn'', ss_connected = up\<rparr>)], ro_relays = Map.empty,
     ro_store = [''bob'' \<mapsto> default_peer\<lparr>cp_peer_id := ''bob'', cp_identity_pub := demo_bob\<rparr>], ro_cluster = [], ro_features = new_registry\<rparr>"

definition demo_hello :: client_message where
  "demo_hello = (new_client 0 ChatMessage_c plain_signer [(''content'', VStr ''hi''), (''message_id'', VStr ''m'')])\<lparr>cm_target := Some ''bob''\<rparr>"

lemma demo_hello_fields [simp]: "cm_type demo_hello = ChatMessage_c" "cm_target demo_hello = Some ''bob''" "cm_sender demo_hello = plain_signer"
  "cm_timestamp demo_hello = 0" "cm_payload demo_hello = [(''content'', VStr ''hi''), (''message_id'', VStr ''m'')]"
  "chat_attempt demo_hello = Some (''bob'', ''m'')"
  by (simp_all add: demo_hello_def new_client_def client_new_message_def chat_attempt_def get_str_def)

lemma demo_router_fields [simp]:
  "ro_me (demo_router up) = plain_signer" "ro_scalar (demo_router up) = replicate 32 0" "ro_peers (demo_router up) = Map.empty"
  "ro_supernodes (demo_router up) = [(''sn'', \<lparr>ss_ws_url = ''wss://sn'', ss_connected = up\<rparr>)]" "ro_features (demo_router up) = new_registry"
  "ro_store (demo_router up) = [''bob'' \<mapsto> default_peer\<lparr>cp_peer_id := ''bob'', cp_identity_pub := demo_bob\<rparr>]" "ro_cluster (demo_router up) = []"
  by (simp_all add: demo_router_def)

lemma demo_bob_not_supernode: "resolve_supernode_ws_target demo_route (demo_router up) ''bob'' = None"
  "relay_identity demo_route (demo_router up) ''bob'' = Some demo_bob"
  by (simp_all add: resolve_supernode_ws_target_def resolve_supernode_session_key_def resolve_supernode_identity_pub_def map_values_def map_filter_simps
      demo_route_def trusted_supernode_def default_peer_def trim_end_def relay_identity_def is_supernode_id_def)

lemma demo_gate: "gate_outbound demo_route demo_hello (demo_router up) = (True, demo_router up)"
  by (simp add: gate_outbound_def feature_gate_for_def gate_through_feature_def demo_route_def demo_router_def new_registry_def)

theorem chat_outcome_reported_witness:
  "\<exists>outs reason r'. dispatch_outbound demo_route demo_hello (demo_router False) = (False, outs, r') \<and>
     filter failure outs = [Chat_send_failed ''bob'' ''m'' reason]"
proof -
  obtain outs r' where d: "dispatch_outbound demo_route demo_hello (demo_router False) = (False, outs, r')"
    by (simp add: dispatch_outbound_def direct_connected_def supernode_available_def)
  from chat_outcome_reported [OF d, of "''bob''" "''m''"] d show ?thesis by (simp add: demo_bob_not_supernode)
qed

section \<open>Messages to peers\<close>

text \<open>Where a message to a peer goes that is no session of a supernode.\<close>

lemma maybe_wrap_features [simp]: "maybe_wrap_for_relay E (r\<lparr>ro_features := f\<rparr>) m json = maybe_wrap_for_relay E r m json"
  by (simp add: maybe_wrap_for_relay_def cong: option.case_cong if_cong sum.case_cong)

lemma peer_routes:
  assumes "cm_target msg = Some t" "resolve_supernode_ws_target E r t = None" "distinct (map fst (ro_supernodes r))"
    and "dispatch_outbound E msg r = (sent, outs, r')" and "m = client_sign (rt_json E) (rt_crates E) (rt_sign E) msg"
    and "maybe_wrap_for_relay E r m (client_to_json (rt_json E) m) = Some rj"
  shows "sent \<longleftrightarrow> (\<exists>out \<in> set outs. handed out)"
    and "out \<in> set outs \<Longrightarrow> handed out \<Longrightarrow>
      (\<exists>c. direct_stream t r = Some c \<and> out = Quic_frame c (encode_frame (channel_tag_for (cm_type msg)) (as_bytes (client_to_json (rt_json E) m)))) \<or>
      (\<exists>k. out = Ws_text k rj \<and> session_up k r)"
proof -
  have "(sent \<longleftrightarrow> (\<exists>out \<in> set outs. handed out)) \<and> (out \<in> set outs \<longrightarrow> handed out \<longrightarrow>
      (\<exists>c. direct_stream t r = Some c \<and> out = Quic_frame c (encode_frame (channel_tag_for (cm_type msg)) (as_bytes (client_to_json (rt_json E) m)))) \<or>
      (\<exists>k. out = Ws_text k rj \<and> session_up k r))"
    using assms(4)
  proof (cases rule: dispatch_cases)
    case (routed f m' json rj')
    have m': "m' = m" "json = client_to_json (rt_json E) m" "rj' = rj" "cm_target m = Some t"
      using routed(2-4) assms(1,5,6) by (simp_all add: routed(1))
    have sn: "route_supernode E r' m json = None" by (simp add: route_supernode_def m'(4) routed(1) assms(2))
    have hon: "honest (sent, outs)" unfolding routed(5) using routes_honest by (auto split: option.split)
    consider "route_direct E r' m json = Some (sent, outs)" | "(sent, outs) = route_rest E r' m rj"
      using routed(5) sn unfolding m'(1,3) by (auto split: option.splits)
    then show ?thesis
    proof cases
      case 1
      then show ?thesis using hon m'(4) by (auto simp: honest_def route_direct_def m'(2) routed(1) assms(5) split: if_splits option.splits)
    next
      case 2
      have "(sent, outs) = route_fanout E r' m rj"
        using 2 by (simp add: route_rest_def should_fanout_peer_relay_def m'(4) routed(1) assms(2))
      then show ?thesis
        using hon assms(3) by (auto simp: honest_def route_fanout_def Let_def session_up_def routed(1) split: if_splits)
    qed
  qed simp
  then show "sent \<longleftrightarrow> (\<exists>out \<in> set outs. handed out)"
    and "out \<in> set outs \<Longrightarrow> handed out \<Longrightarrow>
      (\<exists>c. direct_stream t r = Some c \<and> out = Quic_frame c (encode_frame (channel_tag_for (cm_type msg)) (as_bytes (client_to_json (rt_json E) m)))) \<or>
      (\<exists>k. out = Ws_text k rj \<and> session_up k r)" by blast+
qed

lemma signed_verifies:
  assumes "crates_ok C" "signs_for C (cm_sender q) sign" "\<bar>now - cm_timestamp q\<bar> \<le> MAX_MESSAGE_AGE_SECS"
  shows "verify_inbound_signature L C now (client_sign L C sign q)"
  using signed_by_sign [OF assms(1,2)] assms(3)
  by (simp add: client_sign_def verify_inbound_signature_def client_is_fresh_def client_canonical_def)

text \<open>
  C19. What a client sends to a paired peer stays between the two. The signed message leaves either on the
  direct stream of the peer, or to supernodes as an envelope that is signed by the sender, names the peer
  and carries nothing but a ciphertext under the pairwise key; the peer opens it to exactly the signed
  message, which verifies. The message counts as sent exactly if one of these was handed over.
\<close>

theorem relayed_messages_private:
  assumes "kdf_ok (rt_kdf E)" "Json_Value.json_ok (rt_json E)" "crates_ok (rt_crates E)" "signs_for (rt_crates E) (ro_me r) (rt_sign E)"
    and "cm_target msg = Some t" "cm_sender msg = ro_me r" "cm_type msg \<noteq> EncryptedSignal_c" "jcanon (VObj (cm_payload msg))"
    and "relay_identity E r t = Some p" "p \<noteq> []" "resolve_supernode_ws_target E r t = None"
    and "b64_decode (rt_crates E) (ro_me r) = Inr pm" "b64_decode (rt_crates E) p = Inr pp" "length pm = 32" "length pp = 32"
    and "cr_key_ok (rt_crates E) pm" "cr_key_ok (rt_crates E) pp"
    and "x_dh (rt_kdf E) (ro_scalar r) (x_montgomery (rt_kdf E) pp) = x_dh (rt_kdf E) sp (x_montgomery (rt_kdf E) pm)"
    and "length (rt_nonce E) = 12" "m = client_sign (rt_json E) (rt_crates E) (rt_sign E) msg"
    and "length (client_to_json (rt_json E) m) \<le> GCM_MAX" "utf8_valid (as_bytes (client_to_json (rt_json E) m))"
    and "\<bar>now - rt_now E\<bar> \<le> MAX_MESSAGE_AGE_SECS" "\<bar>now - cm_timestamp msg\<bar> \<le> MAX_MESSAGE_AGE_SECS"
    and "distinct (map fst (ro_supernodes r))" "dispatch_outbound E msg r = (sent, outs, r')"
  shows "(sent \<longleftrightarrow> (\<exists>out \<in> set outs. handed out)) \<and> verify_inbound_signature (rt_json E) (rt_crates E) now m \<and>
    (\<forall>out \<in> set outs. handed out \<longrightarrow>
      (\<exists>c. direct_stream t r = Some c \<and> out = Quic_frame c (encode_frame (channel_tag_for (cm_type msg)) (as_bytes (client_to_json (rt_json E) m)))) \<or>
      (\<exists>k txt env key ct. out = Ws_text k txt \<and> session_up k r \<and> client_from_json (rt_json E) now txt = Some env \<and>
        cm_type env = EncryptedSignal_c \<and> cm_sender env = ro_me r \<and> cm_target env = Some t \<and>
        verify_inbound_signature (rt_json E) (rt_crates E) now env \<and>
        cm_payload env = [(''ciphertext'', VStr (cr_b64_encode (rt_crates E) ct))] \<and>
        derive_pairwise_relay_key (rt_kdf E) (rt_crates E) (ro_scalar r) (ro_me r) p = Inr key \<and>
        encrypt_blob (rt_kdf E) (rt_nonce E) key (as_bytes (client_to_json (rt_json E) m)) = Inr ct \<and>
        open_envelope (rt_kdf E) (rt_json E) (rt_crates E) sp now p env = Some m))"
proof -
  let ?X = "rt_kdf E" and ?L = "rt_json E" and ?C = "rt_crates E"
  have inner: "jcanon (VObj (cm_payload m))" "cm_type m \<noteq> EncryptedSignal_c" "cm_sender m = ro_me r" "cm_target m = Some t"
    using assms(5-8) by (simp_all add: assms(20))
  obtain key ct where dk: "derive_pairwise_relay_key ?X ?C (ro_scalar r) (ro_me r) p = Inr key"
    and ct: "encrypt_blob ?X (rt_nonce E) key (as_bytes (client_to_json ?L m)) = Inr ct"
    and op: "\<And>env now. cm_sender env = ro_me r \<Longrightarrow> cm_payload env = [(''ciphertext'', VStr (cr_b64_encode ?C ct))] \<Longrightarrow>
      open_envelope ?X ?L ?C sp now p env = Some m"
    using envelope_opens [OF assms(1-3,12-19) inner(1-3) assms(21,22)] by metis
  define env where "env = client_sign ?L ?C (rt_sign E) ((new_client (rt_now E) EncryptedSignal_c (ro_me r)
      [(''ciphertext'', VStr (cr_b64_encode ?C ct))])\<lparr>cm_target := Some t\<rparr>)"
  have env: "cm_type env = EncryptedSignal_c" "cm_sender env = ro_me r" "cm_target env = Some t"
    "cm_payload env = [(''ciphertext'', VStr (cr_b64_encode ?C ct))]"
    by (simp_all add: env_def new_client_def client_new_message_def)
  have parsed: "client_from_json ?L now (client_to_json ?L env) = Some env"
    by (rule client_json_back [OF assms(2)]) (simp add: env)
  have venv: "verify_inbound_signature ?L ?C now env"
    unfolding env_def by (rule signed_verifies [OF assms(3)]) (use assms(4,23) in \<open>simp_all add: new_client_def client_new_message_def\<close>)
  have vm: "verify_inbound_signature ?L ?C now m"
    unfolding assms(20) by (rule signed_verifies [OF assms(3)]) (use assms(4,6,24) in simp_all)
  have wrap: "maybe_wrap_for_relay E r m (client_to_json ?L m) = Some (client_to_json ?L env)"
    using inner(2,4) assms(9,10) dk ct by (simp add: maybe_wrap_for_relay_def sign_message_json_def env_def)
  note routes = peer_routes [OF assms(5,11,25,26,20) wrap]
  show ?thesis
  proof (intro conjI ballI impI)
    fix out
    assume "out \<in> set outs" "handed out"
    from routes(2) [OF this] show "(\<exists>c. direct_stream t r = Some c \<and> out = Quic_frame c (encode_frame (channel_tag_for (cm_type msg)) (as_bytes (client_to_json ?L m)))) \<or>
      (\<exists>k txt env key ct. out = Ws_text k txt \<and> session_up k r \<and> client_from_json ?L now txt = Some env \<and>
        cm_type env = EncryptedSignal_c \<and> cm_sender env = ro_me r \<and> cm_target env = Some t \<and> verify_inbound_signature ?L ?C now env \<and>
        cm_payload env = [(''ciphertext'', VStr (cr_b64_encode ?C ct))] \<and> derive_pairwise_relay_key ?X ?C (ro_scalar r) (ro_me r) p = Inr key \<and>
        encrypt_blob ?X (rt_nonce E) key (as_bytes (client_to_json ?L m)) = Inr ct \<and> open_envelope ?X ?L ?C sp now p env = Some m)"
      using parsed env venv dk ct op [OF env(2,4)] by blast
  qed (use routes(1) vm in simp_all)
qed

theorem relayed_messages_private_witness:
  "\<exists>txt env. dispatch_outbound demo_route demo_hello (demo_router True) = (True, [Ws_text ''sn'' txt], demo_router True) \<and>
     client_from_json plain_json 0 txt = Some env \<and> cm_type env = EncryptedSignal_c \<and>
     open_envelope plain_kdf plain_json plain_crates (replicate 32 1) 0 demo_bob env =
       Some (client_sign plain_json plain_crates (\<lambda>_. replicate 64 0) demo_hello)"
proof -
  let ?m = "client_sign plain_json plain_crates (\<lambda>_. replicate 64 0) demo_hello"
  have E: "rt_kdf demo_route = plain_kdf" "rt_json demo_route = plain_json" "rt_crates demo_route = plain_crates" "rt_now demo_route = 0"
    "rt_sign demo_route = (\<lambda>_. replicate 64 0)" "rt_nonce demo_route = replicate 12 1" "rt_ws_takes demo_route = (\<lambda>_. True)"
    by (simp_all add: demo_route_def)
  obtain w where d: "dispatch_outbound demo_route demo_hello (demo_router True) = (True, [Ws_text ''sn'' w], demo_router True)"
    by (simp add: dispatch_outbound_def demo_gate direct_connected_def supernode_available_def route_direct_def direct_stream_def
        route_supernode_def demo_bob_not_supernode route_rest_def should_fanout_peer_relay_def route_fanout_def E Let_def)
  have j: "client_to_json plain_json ?m = enc_entries ([(''type'', VStr ''chat_message''), (''sender'', VStr plain_signer),
         (''payload'', VObj [(''content'', VStr ''hi''), (''message_id'', VStr ''m'')]),
         (''timestamp'', VNum (NFloat 0)), (''target'', VStr ''bob''), (''signature'', VStr (spread (string_of_bytes (replicate 64 0)))),
         (''v'', version_value PROTOCOL_VERSION)])"
    by (simp add: client_to_json_def client_sign_def demo_hello_def new_client_def client_new_message_def less_char_def plain_json_def
        opt_entry_def)
  have a: "ascii_str (client_to_json plain_json ?m)"
    using ascii_of_byte [of 0 32] unfolding j
    by (simp add: plain_signer_def enc_num.simps enc_int.simps quotient_zero PROTOCOL_VERSION_def del: replicate.simps)
  have l: "length (client_to_json plain_json ?m) \<le> GCM_MAX"
    unfolding j by (simp add: enc_num.simps enc_int.simps quotient_zero PROTOCOL_VERSION_def GCM_MAX_def length_plain_signer string_of_bytes_def del: replicate.simps)
  have me: "b64_decode plain_crates plain_signer = Inr (replicate 32 0)" and bob: "b64_decode plain_crates demo_bob = Inr (replicate 32 1)"
    by (simp_all add: plain_signer_def demo_bob_def)
  have dh: "x_dh plain_kdf (replicate 32 0) (x_montgomery plain_kdf (replicate 32 1)) = x_dh plain_kdf (replicate 32 1) (x_montgomery plain_kdf (replicate 32 0))"
    by (simp add: plain_kdf_def fit32_def map2_plus_commute del: replicate.simps)
  have "demo_bob \<noteq> []" by (simp add: demo_bob_def string_of_bytes_def flip: length_greater_0_conv)
  from relayed_messages_private [of demo_route "demo_router True" demo_hello "''bob''" demo_bob "replicate 32 0" "replicate 32 1" "replicate 32 1" ?m 0,
      unfolded E demo_router_fields demo_hello_fields, OF plain_kdf_ok plain_json_ok plain_crates_ok plain_signs_for refl refl _ _
      demo_bob_not_supernode(2) this demo_bob_not_supernode(1) me bob length_replicate length_replicate plain_sel(6) plain_sel(6) dh length_replicate
      refl l ascii_valid [OF a] _ _ _ d]
  show ?thesis using d by (fastforce simp: MAX_MESSAGE_AGE_SECS_def)
qed

end
