(* ===== verification/Invites.thy ===== *)
theory Invites
  imports Routing
begin

text \<open>
  Invites between clients and to rooms, \<open>connection_manager/manager/invite.rs\<close> with the handshake branches of
  \<open>inbound.rs\<close> and the session labels of \<open>peer_session.rs\<close>: links are minted and read, an accepted link stores a
  supernode or starts a handshake, and the two handshake messages make peers trusted. \<open>invite_env\<close> holds the
  libraries, the clock, local settings and what the network says. A handler returns \<open>None\<close> when it panics: log
  lines cut ids at a fixed byte, which may be inside a character. Saving the peer store is left to its own theory.
\<close>

section \<open>Room links\<close>

record room_invite_payload =
  rp_supernode_id :: string
  rp_supernode_hint :: string
  rp_room_id :: string
  rp_room_name :: string
  rp_room_type :: string
  rp_invite_token :: string
  rp_expires_at :: u64
  rp_space_root :: string
  rp_space_proof :: string
  rp_space_grant :: string

record room_invite_entry =
  ri_room_id :: string
  ri_room_name :: string
  ri_room_type :: string
  ri_invite_token :: string
  ri_parent_id :: string
  ri_space_id :: string

datatype invite_failure =
    Bad_scheme string | Link_too_large nat | Base64_failed | Json_failed | Unsupported_version u64
  | Missing_supernode_id | Missing_room_id | Room_invite_expired | Missing_address | Missing_identity
  | Missing_invite_id | Own_invite | Invite_expired | Missing_ephemeral | No_path

definition ROOM_INVITE_SCHEMA :: u64 where "ROOM_INVITE_SCHEMA = 1"
definition ROOM_INVITE_TTL_SECS :: nat where "ROOM_INVITE_TTL_SECS = 24 * 60 * 60"
definition MAX_INVITE_LEN :: nat where "MAX_INVITE_LEN = 262144"

definition space_field :: "json_lib \<Rightarrow> string \<Rightarrow> string \<Rightarrow> (string \<times> jvalue) list" where
  "space_field L key t = (if t = [] then [] else case jl_parse L t of None \<Rightarrow> [] | Some v \<Rightarrow> [(key, v)])"

definition room_invite_fields :: "json_lib \<Rightarrow> room_invite_payload \<Rightarrow> (string \<times> jvalue) list" where
  "room_invite_fields L p =
     [(''v'', VNum (NInt (uint ROOM_INVITE_SCHEMA))), (''supernode_id'', VStr (rp_supernode_id p)), (''supernode_hint'', VStr (rp_supernode_hint p)),
      (''room_id'', VStr (rp_room_id p)), (''room_name'', VStr (rp_room_name p)), (''room_type'', VStr (rp_room_type p)),
      (''invite_token'', VStr (rp_invite_token p)), (''expires_at'', VNum (NInt (uint (rp_expires_at p))))]
     @ space_field L ''space_root'' (rp_space_root p) @ space_field L ''space_proof'' (rp_space_proof p)
     @ space_field L ''space_grant'' (rp_space_grant p)"

text \<open>The base64 engine without padding is an argument of the links.\<close>

definition build_room_invite_url :: "json_lib \<Rightarrow> (bytes \<Rightarrow> string) \<Rightarrow> room_invite_payload \<Rightarrow> string" where
  "build_room_invite_url L enc p = mint_invite_https ''room'' (enc (as_bytes (jl_print L (bt_of (room_invite_fields L p) []))))"

definition get_obj :: "json_lib \<Rightarrow> string \<Rightarrow> jvalue \<Rightarrow> string" where
  "get_obj L k v = (case jget k v of Some (VObj m) \<Rightarrow> jl_print L m | _ \<Rightarrow> [])"

definition unsupported :: "jvalue \<Rightarrow> u64 option" where
  "unsupported v = (case Option.bind (jget ''v'' v) as_u64 of Some n \<Rightarrow> if ROOM_INVITE_SCHEMA < n then Some n else None | None \<Rightarrow> None)"

definition read_room_invite :: "json_lib \<Rightarrow> jvalue \<Rightarrow> invite_failure + room_invite_payload" where
  "read_room_invite L v =
     (case unsupported v of
        Some n \<Rightarrow> Inl (Unsupported_version n)
      | None \<Rightarrow>
          if get_str_or [] ''supernode_id'' v = [] then Inl Missing_supernode_id
          else if get_str_or [] ''room_id'' v = [] then Inl Missing_room_id
          else Inr \<lparr>rp_supernode_id = get_str_or [] ''supernode_id'' v, rp_supernode_hint = get_str_or [] ''supernode_hint'' v,
            rp_room_id = get_str_or [] ''room_id'' v, rp_room_name = get_str_or [] ''room_name'' v,
            rp_room_type = (case get_str ''room_type'' v of Some t \<Rightarrow> if t \<noteq> [] then t else ''private'' | None \<Rightarrow> ''private''),
            rp_invite_token = get_str_or [] ''invite_token'' v,
            rp_expires_at = (case Option.bind (jget ''expires_at'' v) as_u64 of Some n \<Rightarrow> n | None \<Rightarrow> 0),
            rp_space_root = get_obj L ''space_root'' v, rp_space_proof = get_obj L ''space_proof'' v,
            rp_space_grant = get_obj L ''space_grant'' v\<rparr>)"

definition read_link :: "json_lib \<Rightarrow> (string \<Rightarrow> bytes option) \<Rightarrow> string \<Rightarrow> invite_failure + jvalue" where
  "read_link L dec encoded =
     (if MAX_INVITE_LEN < length encoded then Inl (Link_too_large (length encoded))
      else case dec (bare encoded) of
          None \<Rightarrow> Inl Base64_failed
        | Some json_bytes \<Rightarrow> (case jl_parse L (string_of_bytes json_bytes) of None \<Rightarrow> Inl Json_failed | Some v \<Rightarrow> Inr v))"

definition parse_room_invite :: "json_lib \<Rightarrow> (string \<Rightarrow> bytes option) \<Rightarrow> string \<Rightarrow> invite_failure + room_invite_payload" where
  "parse_room_invite L dec encoded = (case read_link L dec encoded of Inl e \<Rightarrow> Inl e | Inr v \<Rightarrow> read_room_invite L v)"

text \<open>The action before the first \<open>#\<close> and the rest; without \<open>#\<close> there is no action.\<close>

definition split_action :: "string \<Rightarrow> string \<times> string" where
  "split_action rest =
     (case dropWhile (\<lambda>c. c \<noteq> CHR ''#'') rest of [] \<Rightarrow> ([], rest) | _ # encoded \<Rightarrow> (takeWhile (\<lambda>c. c \<noteq> CHR ''#'') rest, encoded))"

section \<open>State\<close>

record client_pending_invite =
  pi_inviter_peer_id :: string
  pi_inviter_identity_pub :: string
  pi_invite_id :: string
  pi_relay_hint :: string
  pi_lan_hint :: string
  pi_is_supernode :: bool
  pi_created_at :: instant

record ('a, 'm) peering =
  pg_router :: "('a, 'm) router"
  pg_peer_id :: string
  pg_pending :: "string \<rightharpoonup> client_pending_invite"
  pg_room_entries :: "string \<rightharpoonup> room_invite_entry"
  pg_space_creds :: "string \<rightharpoonup> string \<times> string \<times> string"
  pg_aliases :: "string \<rightharpoonup> string"
  pg_replay :: replay_guard

record 'a invite_env =
  iv_route :: "'a route_env"
  iv_nonces :: "nat \<Rightarrow> bytes"
  iv_encode :: "bytes \<Rightarrow> string"
  iv_decode :: "string \<Rightarrow> bytes option"
  iv_unix :: nat
  iv_uuid :: string
  iv_handle :: string
  iv_avatar :: "jvalue option"
  iv_lan_hint :: "string option"
  iv_public_hint :: "string option"
  iv_quic_port :: u16
  iv_endpoint_ok :: bool
  iv_eph_secret :: bytes
  iv_socket_addr :: "string \<Rightarrow> (string \<times> u16) option"

datatype invite_out =
    Invite_failed invite_failure
  | Invite_accepted string string
  | Room_invite_ready string room_invite_entry
  | Peer_ready string
  | Dial string string u16
  | Sent route_out

definition cut_ok :: "nat \<Rightarrow> string \<Rightarrow> bool" where
  "cut_ok n s \<longleftrightarrow> str_prefix (min (length s) n) s \<noteq> None"

definition update_store :: "('a peer_map \<Rightarrow> 'a peer_map) \<Rightarrow> ('a, 'm) peering \<Rightarrow> ('a, 'm) peering" where
  "update_store f st = st\<lparr>pg_router := (pg_router st)\<lparr>ro_store := f (ro_store (pg_router st))\<rparr>\<rparr>"

definition update_sessions :: "((peer_id \<times> supernode_session) list \<Rightarrow> (peer_id \<times> supernode_session) list) \<Rightarrow> ('a, 'm) peering \<Rightarrow> ('a, 'm) peering" where
  "update_sessions f st = st\<lparr>pg_router := (pg_router st)\<lparr>ro_supernodes := f (ro_supernodes (pg_router st))\<rparr>\<rparr>"

definition dispatch_nth :: "'a invite_env \<Rightarrow> nat \<Rightarrow> client_message \<Rightarrow> ('a, 'm) peering \<Rightarrow> invite_out list \<times> ('a, 'm) peering" where
  "dispatch_nth E i m st =
     (case dispatch_outbound ((iv_route E)\<lparr>rt_nonce := iv_nonces E i\<rparr>) m (pg_router st) of
        (_, outs, r) \<Rightarrow> (map Sent outs, st\<lparr>pg_router := r\<rparr>))"

section \<open>Sessions\<close>

definition connect_supernode_ws :: "string \<Rightarrow> string list \<Rightarrow> ('a, 'm) peering \<Rightarrow> ('a, 'm) peering" where
  "connect_supernode_ws i candidates st =
     (case candidates of
        [] \<Rightarrow> st
      | url # _ \<Rightarrow> update_sessions (AList.update i \<lparr>ss_ws_url = url, ss_connected = False\<rparr>) st)"

text \<open>What a connected socket changes for a supernode: its session is up, and a waiting room link is entered.\<close>

definition session_connected :: "string \<Rightarrow> ('a, 'm) peering \<Rightarrow> ('a, 'm) peering" where
  "session_connected i st =
     update_sessions (\<lambda>sns. case map_of sns i of None \<Rightarrow> sns | Some sn \<Rightarrow> AList.update i (sn\<lparr>ss_connected := True\<rparr>) sns) st"

definition enter_waiting_room :: "string \<Rightarrow> ('a, 'm) peering \<Rightarrow> invite_out list \<times> ('a, 'm) peering" where
  "enter_waiting_room i st =
     (case pg_room_entries st i of
        None \<Rightarrow> ([], st)
      | Some e \<Rightarrow> ([Room_invite_ready i e], st\<lparr>pg_room_entries := (pg_room_entries st)(i := None)\<rparr>))"

fun strip_prefix :: "string \<Rightarrow> string \<Rightarrow> string option" where
  "strip_prefix p s = (if starts_with p s then Some (drop (length p) s) else None)"

definition trim_brackets :: "string \<Rightarrow> string" where
  "trim_brackets s = (let b = (\<lambda>c. c = CHR ''['' \<or> c = CHR '']'') in rev (dropWhile b (rev (dropWhile b s))))"

definition parse_quic_lan_hint :: "(string \<Rightarrow> (string \<times> u16) option) \<Rightarrow> string \<Rightarrow> (string \<times> u16) option" where
  "parse_quic_lan_hint sock hint =
     (let trimmed = trim_ws hint;
          without_scheme = (case strip_prefix ''quic://'' trimmed of Some r \<Rightarrow> r
             | None \<Rightarrow> (case strip_prefix ''udp://'' trimmed of Some r \<Rightarrow> r | None \<Rightarrow> trimmed));
          authority = takeWhile (\<lambda>c. c \<notin> {CHR ''/'', CHR ''?'', CHR ''#''}) without_scheme
      in if trimmed = [] \<or> authority = [] then None
         else case sock authority of
             Some (ip, port) \<Rightarrow> Some (ip, port)
           | None \<Rightarrow>
               if CHR '':'' \<notin> set authority then None
               else let port = rev (takeWhile (\<lambda>c. c \<noteq> CHR '':'') (rev authority));
                        host = trim_brackets (take (length authority - length port - 1) authority)
                    in case parse_u32 port of
                         None \<Rightarrow> None
                       | Some n \<Rightarrow> if 65535 < n \<or> host = [] \<or> n = 0 then None else Some (host, word_of_nat n))"

definition new_peer_connection :: peer_connection where
  "new_peer_connection = \<lparr>pn_state = Peer_disconnected, pn_quic_out = None\<rparr>"

definition connect_direct_quic :: "'a invite_env \<Rightarrow> string \<Rightarrow> string \<Rightarrow> u16 \<Rightarrow> ('a, 'm) peering \<Rightarrow> (invite_out list \<times> ('a, 'm) peering) option" where
  "connect_direct_quic E peer host port st =
     (let c = (case ro_peers (pg_router st) peer of Some c \<Rightarrow> c | None \<Rightarrow> new_peer_connection)
      in if pn_state c \<noteq> Peer_disconnected then Some ([], st)
         else if \<not> cut_ok 8 peer then None
         else if \<not> iv_endpoint_ok E \<or> iv_socket_addr E (host @ '':'' @ show_nat (unat port)) = None then Some ([], st)
         else Some ([Dial peer host port],
           st\<lparr>pg_router := (pg_router st)\<lparr>ro_peers := (ro_peers (pg_router st))(peer \<mapsto> c\<lparr>pn_state := Peer_connecting\<rparr>)\<rparr>\<rparr>))"

definition relabel_quic_peer_session :: "string \<Rightarrow> string \<Rightarrow> ('a, 'm) peering \<Rightarrow> ('a, 'm) peering option" where
  "relabel_quic_peer_session current canonical st =
     (if current = canonical \<or> canonical = [] then Some st
      else if canonical = pg_peer_id st then (if cut_ok 8 current \<and> cut_ok 8 canonical then Some st else None)
      else case ro_peers (pg_router st) current of
          None \<Rightarrow> Some st
        | Some c \<Rightarrow>
            if \<not> cut_ok 8 current \<or> \<not> cut_ok 8 canonical then None
            else Some (st\<lparr>pg_router := (pg_router st)\<lparr>ro_peers := ((ro_peers (pg_router st))(current := None))(canonical \<mapsto> c)\<rparr>,
              pg_aliases := (pg_aliases st)(current \<mapsto> canonical)\<rparr>))"

definition relabel_from :: "string option \<Rightarrow> string \<Rightarrow> ('a, 'm) peering \<Rightarrow> ('a, 'm) peering option" where
  "relabel_from quic_peer_id canonical st = (case quic_peer_id of None \<Rightarrow> Some st | Some t \<Rightarrow> relabel_quic_peer_session t canonical st)"

section \<open>Minting links\<close>

definition generate_invite_url :: "'a invite_env \<Rightarrow> ('a, 'm) peering \<Rightarrow> string" where
  "generate_invite_url E st =
     (let R = iv_route E;
          fields = [(''inviter_peer_id'', VStr (pg_peer_id st)), (''inviter_identity_pub'', VStr (ro_me (pg_router st))),
            (''invite_id'', VStr (iv_uuid E)), (''expires_at'', VNum (NInt (int (iv_unix E + 900)))),
            (''inviter_ephemeral_pub'', VStr (iv_encode E (x_public (rt_kdf R) (iv_eph_secret E)))), (''inviter_handle'', VStr (iv_handle E))];
          lan = (case iv_lan_hint E of None \<Rightarrow> [] | Some h \<Rightarrow> if h = [] then [] else [(''lan_hint'', VStr h)])
      in mint_invite_https ''invite'' (iv_encode E (as_bytes (jl_print (rt_json R) (bt_of (fields @ lan) [])))))"

definition generate_room_invite_url :: "'a invite_env \<Rightarrow> ('a, 'm) peering \<Rightarrow> string \<Rightarrow> string \<Rightarrow> string \<Rightarrow> string \<Rightarrow> string \<Rightarrow>
    string \<Rightarrow> string \<Rightarrow> string \<Rightarrow> string option" where
  "generate_room_invite_url E st supernode_id room_id room_name room_type invite_token space_root space_proof space_grant =
     (let r = pg_router st;
          hint = (case map_of (ro_supernodes r) supernode_id of
              Some sn \<Rightarrow> Some (ss_ws_url sn)
            | None \<Rightarrow> (case ro_store r supernode_id of None \<Rightarrow> None | Some q \<Rightarrow> (case cp_relay_hints q of [] \<Rightarrow> None | h # _ \<Rightarrow> Some h)))
      in if supernode_id = [] \<or> room_id = [] then None
         else case hint of
             None \<Rightarrow> None
           | Some h \<Rightarrow>
               if h = [] then None
               else Some (build_room_invite_url (rt_json (iv_route E)) (iv_encode E)
                 \<lparr>rp_supernode_id = supernode_id, rp_supernode_hint = h, rp_room_id = room_id, rp_room_name = room_name,
                  rp_room_type = room_type, rp_invite_token = invite_token, rp_expires_at = word_of_nat (iv_unix E + ROOM_INVITE_TTL_SECS),
                  rp_space_root = space_root, rp_space_proof = space_proof, rp_space_grant = space_grant\<rparr>))"

definition build_invite_handshake_init :: "'a invite_env \<Rightarrow> ('a, 'm) peering \<Rightarrow> string \<Rightarrow> string \<Rightarrow> client_message" where
  "build_invite_handshake_init E st invite_id target =
     (let R = iv_route E; me = ro_me (pg_router st);
          fields = [(''invite_id'', VStr invite_id), (''joiner_identity_pub'', VStr me), (''joiner_peer_id'', VStr (pg_peer_id st)),
            (''joiner_ephemeral_pub'', VStr (iv_encode E (x_public (rt_kdf R) (iv_eph_secret E)))),
            (''joiner_quic_port'', VNum (NInt (uint (iv_quic_port E))))];
          opt = (\<lambda>k v. case v of None \<Rightarrow> [] | Some t \<Rightarrow> [(k, VStr t)])
      in (new_client (rt_now R) InviteHandshakeInit_c me
           (fields @ (if iv_handle E = [] then [] else [(''joiner_handle'', VStr (iv_handle E))])
            @ opt ''joiner_lan_hint'' (iv_lan_hint E) @ opt ''joiner_public_hint'' (iv_public_hint E)))\<lparr>cm_target := Some target\<rparr>)"

text \<open>\<open>ord\<close> lists the ids of the pending invites in the order of iteration.\<close>

fun send_inits :: "'a invite_env \<Rightarrow> nat \<Rightarrow> string \<Rightarrow> string list \<Rightarrow> ('a, 'm) peering \<Rightarrow> invite_out list \<times> ('a, 'm) peering" where
  "send_inits E i peer [] st = ([], st)"
| "send_inits E i peer (invite_id # ids) st =
     (case dispatch_nth E i (build_invite_handshake_init E st invite_id peer) st of (outs, st1) \<Rightarrow>
        (case send_inits E (Suc i) peer ids st1 of (outs', st2) \<Rightarrow> (outs @ outs', st2)))"

definition send_pending_invite_inits_for_peer :: "'a invite_env \<Rightarrow> ((string \<rightharpoonup> client_pending_invite) \<Rightarrow> string list) \<Rightarrow> string \<Rightarrow> ('a, 'm) peering \<Rightarrow>
    invite_out list \<times> ('a, 'm) peering" where
  "send_pending_invite_inits_for_peer E ord peer st =
     send_inits E 0 peer (filter (\<lambda>k. case pg_pending st k of None \<Rightarrow> False | Some p \<Rightarrow> \<not> pi_is_supernode p \<and> pi_inviter_peer_id p = peer)
       (ord (pg_pending st))) st"

section \<open>Accepting a link\<close>

type_synonym ('a, 'm) invite_result = "(invite_out list \<times> ('a, 'm) peering) option"

definition nested_str :: "json_lib \<Rightarrow> string list \<Rightarrow> string \<Rightarrow> string" where
  "nested_str L path t =
     (case Option.bind (jl_parse L t) (\<lambda>v. foldl (\<lambda>w k. Option.bind w (jget k)) (Some v) path) of
        None \<Rightarrow> [] | Some w \<Rightarrow> (case j_str w of None \<Rightarrow> [] | Some s \<Rightarrow> s))"

definition supernode_record :: "'a invite_env \<Rightarrow> string \<Rightarrow> string \<Rightarrow> string \<Rightarrow> string list \<Rightarrow> 'a client_peer" where
  "supernode_record E peer_id identity handle hints =
     default_peer\<lparr>cp_peer_id := peer_id, cp_identity_pub := identity, cp_handle := handle, cp_relay_hints := hints, cp_is_supernode := True,
       cp_supernode_from_invite := True, cp_created_at := rt_now (iv_route E), cp_last_seen_at := rt_now (iv_route E)\<rparr>"

definition hints_of :: "string \<Rightarrow> string list" where
  "hints_of h = (if h = [] then [] else [h])"

definition enter_room_invite :: "'a invite_env \<Rightarrow> room_invite_payload \<Rightarrow> ('a, 'm) peering \<Rightarrow> ('a, 'm) invite_result" where
  "enter_room_invite E p st =
     (let L = rt_json (iv_route E); i = rp_supernode_id p; hint = rp_supernode_hint p;
          entry = \<lparr>ri_room_id = rp_room_id p, ri_room_name = rp_room_name p, ri_room_type = rp_room_type p, ri_invite_token = rp_invite_token p,
            ri_parent_id = nested_str L [''node'', ''parent_id''] (rp_space_proof p), ri_space_id = nested_str L [''space_id''] (rp_space_root p)\<rparr>;
          st1 = (if rp_space_proof p = [] then st
            else st\<lparr>pg_space_creds := (pg_space_creds st)(rp_room_id p \<mapsto> (rp_space_root p, rp_space_proof p, rp_space_grant p))\<rparr>);
          st2 = (if hint = [] then st1 else update_store (upsert_from_invite (supernode_record E i i [] [hint])) st1)
      in if \<not> cut_ok 12 (rp_room_id p) \<or> \<not> cut_ok 8 i then None
         else if session_up i (pg_router st2) then Some ([Room_invite_ready i entry], st2)
         else if map_of (ro_supernodes (pg_router st2)) i = None \<and> hint = [] then Some ([Invite_failed Missing_address], st2)
         else let st3 = (if map_of (ro_supernodes (pg_router st2)) i = None then connect_supernode_ws i [hint] st2 else st2)
              in Some ([], st3\<lparr>pg_room_entries := (pg_room_entries st3)(i \<mapsto> entry)\<rparr>))"

definition handle_accept_room_invite :: "'a invite_env \<Rightarrow> string \<Rightarrow> ('a, 'm) peering \<Rightarrow> ('a, 'm) invite_result" where
  "handle_accept_room_invite E encoded st =
     (case parse_room_invite (rt_json (iv_route E)) (iv_decode E) encoded of
        Inl e \<Rightarrow> Some ([Invite_failed e], st)
      | Inr p \<Rightarrow>
          if rp_expires_at p \<noteq> 0 \<and> unat (rp_expires_at p) < iv_unix E then Some ([Invite_failed Room_invite_expired], st)
          else enter_room_invite E p st)"

fun as_i64 :: "jvalue \<Rightarrow> int option" where
  "as_i64 (VNum (NInt i)) = (if - (2 ^ 63) \<le> i \<and> i < 2 ^ 63 then Some i else None)"
| "as_i64 _ = None"

definition flag :: "string \<Rightarrow> jvalue \<Rightarrow> bool" where
  "flag k v \<longleftrightarrow> jget k v = Some (VBool True)"

text \<open>A personal link: dial the address it names, and reach the inviter through a shared supernode.\<close>

definition reach_inviter :: "'a invite_env \<Rightarrow> client_pending_invite \<Rightarrow> ('a, 'm) peering \<Rightarrow> ('a, 'm) invite_result" where
  "reach_inviter E p st =
     (let hint = parse_quic_lan_hint (iv_socket_addr E) (pi_lan_hint p)
      in case (case hint of None \<Rightarrow> Some ([], st) | Some (host, port) \<Rightarrow> connect_direct_quic E (pi_inviter_peer_id p) host port st) of
           None \<Rightarrow> None
         | Some (outs, st1) \<Rightarrow>
             if supernode_available (pg_router st1)
             then (case dispatch_nth E 0 (build_invite_handshake_init E st1 (pi_invite_id p) (pi_inviter_identity_pub p)) st1 of
                 (outs', st2) \<Rightarrow> Some (outs @ outs', st2))
             else Some (outs @ (if hint = None then [Invite_failed No_path] else []), st1))"

text \<open>A supernode link: the first message waits in the queue of the session that was just opened.\<close>

definition greet_supernode :: "'a invite_env \<Rightarrow> client_pending_invite \<Rightarrow> ('a, 'm) peering \<Rightarrow> invite_out list" where
  "greet_supernode E p st =
     (let i = pi_inviter_identity_pub p; R = iv_route E
      in if map_of (ro_supernodes (pg_router st)) i = None then []
         else if rt_ws_takes R i then [Sent (Ws_text i (sign_message_json R (build_invite_handshake_init E st (pi_invite_id p) i)))]
         else [Sent (Ws_drop i)])"

definition start_handshake :: "'a invite_env \<Rightarrow> client_pending_invite \<Rightarrow> string \<Rightarrow> string \<Rightarrow> ('a, 'm) peering \<Rightarrow> ('a, 'm) invite_result" where
  "start_handshake E p handle ephemeral st =
     (let i = pi_inviter_identity_pub p; hint = pi_relay_hint p;
          stored = (if pi_is_supernode p
            then update_store (upsert_from_invite (supernode_record E (pi_inviter_peer_id p) i handle (hints_of hint))) st else st);
          told = (if pi_is_supernode p then [Invite_accepted (pi_inviter_peer_id p) handle] else []);
          st1 = stored\<lparr>pg_pending := (pg_pending stored)(pi_invite_id p \<mapsto> p)\<rparr>;
          st2 = (if pi_is_supernode p \<and> hint \<noteq> [] then connect_supernode_ws i [hint] (update_sessions (AList.delete i) st1) else st1)
      in if \<not> cut_ok 8 i \<or> \<not> cut_ok 8 (pi_invite_id p) then None
         else if ephemeral = [] then Some (told @ [Invite_failed Missing_ephemeral], st2)
         else if pi_is_supernode p then Some (told @ greet_supernode E p st2, st2)
         else reach_inviter E p st2)"

definition accept_invite_payload :: "'a invite_env \<Rightarrow> jvalue \<Rightarrow> ('a, 'm) peering \<Rightarrow> ('a, 'm) invite_result" where
  "accept_invite_payload E v st =
     (case get_str ''inviter_identity_pub'' v of
        None \<Rightarrow> Some ([Invite_failed Missing_identity], st)
      | Some i \<Rightarrow>
          (let invite_id = get_str_or [] ''invite_id'' v; relay = get_str_or [] ''relay_hint'' v; lan = get_str_or [] ''lan_hint'' v
           in if invite_id = [] then Some ([Invite_failed Missing_invite_id], st)
              else if i = ro_me (pg_router st) then Some ([Invite_failed Own_invite], st)
              else if (case Option.bind (jget ''expires_at'' v) as_i64 of None \<Rightarrow> False | Some t \<Rightarrow> t < int (iv_unix E))
              then Some ([Invite_failed Invite_expired], st)
              else start_handshake E \<lparr>pi_inviter_peer_id = get_str_or i ''inviter_peer_id'' v, pi_inviter_identity_pub = i,
                pi_invite_id = invite_id, pi_relay_hint = (if relay = [] then lan else relay), pi_lan_hint = lan,
                pi_is_supernode = flag ''is_supernode'' v, pi_created_at = rt_instant (iv_route E)\<rparr>
                (get_str_or [] ''inviter_handle'' v) (get_str_or [] ''inviter_ephemeral_pub'' v) st))"

definition handle_accept_invite :: "'a invite_env \<Rightarrow> string \<Rightarrow> ('a, 'm) peering \<Rightarrow> ('a, 'm) invite_result" where
  "handle_accept_invite E invite_url st =
     (case normalize_app_url invite_url of
        None \<Rightarrow> Some ([Invite_failed (Bad_scheme invite_url)], st)
      | Some rest \<Rightarrow>
          (case split_action rest of (action, encoded) \<Rightarrow>
             if action = ''room'' then handle_accept_room_invite E encoded st
             else case read_link (rt_json (iv_route E)) (iv_decode E) encoded of
                 Inl e \<Rightarrow> Some ([Invite_failed e], st)
               | Inr v \<Rightarrow> accept_invite_payload E v st))"

section \<open>The handshake messages\<close>

definition is_trusted_sender :: "'a client_peer key_order \<Rightarrow> 'a peer_map \<Rightarrow> string \<Rightarrow> bool" where
  "is_trusted_sender ord m sender =
     (case (case m sender of Some q \<Rightarrow> Some q | None \<Rightarrow> cpeer_get_by_identity ord sender m) of
        None \<Rightarrow> False | Some q \<Rightarrow> \<not> cp_blocked q \<and> \<not> cp_revoked q)"

definition send_handle_update :: "'a invite_env \<Rightarrow> nat \<Rightarrow> string \<Rightarrow> ('a, 'm) peering \<Rightarrow> invite_out list \<times> ('a, 'm) peering" where
  "send_handle_update E n target st =
     (if iv_handle E = [] then ([], st)
      else dispatch_nth E n ((new_client (rt_now (iv_route E)) HandleUpdate_c (ro_me (pg_router st)) [(''handle'', VStr (iv_handle E))])
        \<lparr>cm_target := Some target\<rparr>) st)"

definition send_local_avatar_config :: "'a invite_env \<Rightarrow> nat \<Rightarrow> string \<Rightarrow> ('a, 'm) peering \<Rightarrow> invite_out list \<times> ('a, 'm) peering" where
  "send_local_avatar_config E n target st =
     (case iv_avatar E of
        None \<Rightarrow> ([], st)
      | Some v \<Rightarrow> dispatch_nth E n ((new_client (rt_now (iv_route E)) AvatarConfig_c (ro_me (pg_router st)) [(''config'', v)])
          \<lparr>cm_target := Some target\<rparr>) st)"

definition valid_hint :: "'a invite_env \<Rightarrow> string \<Rightarrow> jvalue \<Rightarrow> string" where
  "valid_hint E k v = (case get_str k v of None \<Rightarrow> [] | Some h \<Rightarrow> if parse_quic_lan_hint (iv_socket_addr E) h = None then [] else h)"

definition joiner_port :: "jvalue \<Rightarrow> u16" where
  "joiner_port v =
     (case Option.bind (jget ''joiner_quic_port'' v) as_u64 of None \<Rightarrow> 0 | Some n \<Rightarrow> if unat n < 2 ^ 16 then ucast n else 0)"

definition add_hint :: "string \<Rightarrow> string list \<Rightarrow> string list" where
  "add_hint h hs = (if h = [] \<or> h \<in> set hs then hs else hs @ [h])"

definition store_joiner :: "'a invite_env \<Rightarrow> string \<Rightarrow> string \<Rightarrow> string \<Rightarrow> u16 \<Rightarrow> string \<Rightarrow> string \<Rightarrow> 'a peer_map \<Rightarrow> 'a peer_map" where
  "store_joiner E peer identity handle port lan public m =
     (let now = rt_now (iv_route E)
      in case m peer of
           Some q \<Rightarrow> m(peer \<mapsto> q\<lparr>cp_last_seen_at := now, cp_auto_connect := True,
             cp_handle := (if handle = [] then cp_handle q else handle), cp_quic_port := (if port = 0 then cp_quic_port q else port),
             cp_relay_hints := add_hint public (add_hint lan (cp_relay_hints q))\<rparr>)
         | None \<Rightarrow> insert_record (default_peer\<lparr>cp_peer_id := peer, cp_identity_pub := identity, cp_handle := handle,
             cp_relay_hints := filter (\<lambda>h. h \<noteq> []) [lan, public], cp_auto_connect := True, cp_quic_port := port,
             cp_created_at := now, cp_last_seen_at := now\<rparr>) m)"

definition accept_reply :: "'a invite_env \<Rightarrow> ('a, 'm) peering \<Rightarrow> string \<Rightarrow> string \<Rightarrow> client_message" where
  "accept_reply E st invite_id target =
     (new_client (rt_now (iv_route E)) InviteHandshakeAccept_c (ro_me (pg_router st))
       ([(''invite_id'', VStr invite_id), (''inviter_peer_id'', VStr (pg_peer_id st)), (''inviter_identity_pub'', VStr (ro_me (pg_router st)))]
        @ (if iv_handle E = [] then [] else [(''inviter_handle'', VStr (iv_handle E))])))\<lparr>cm_target := Some target\<rparr>"

definition greet_peer :: "'a invite_env \<Rightarrow> nat \<Rightarrow> string \<Rightarrow> ('a, 'm) peering \<Rightarrow> invite_out list \<times> ('a, 'm) peering" where
  "greet_peer E n target st =
     (case send_handle_update E n target st of (outs, st1) \<Rightarrow>
        (case send_local_avatar_config E (Suc n) target st1 of (outs', st2) \<Rightarrow> (outs @ outs', st2)))"

definition welcome_joiner :: "'a invite_env \<Rightarrow> string \<Rightarrow> string \<Rightarrow> string \<Rightarrow> string \<Rightarrow> ('a, 'm) peering \<Rightarrow> invite_out list \<times> ('a, 'm) peering" where
  "welcome_joiner E invite_id identity peer handle st =
     (let target = (if direct_connected peer (pg_router st) then peer else identity)
      in case dispatch_nth E 0 (accept_reply E st invite_id target) st of (outs, st1) \<Rightarrow>
        (case greet_peer E 1 target st1 of (outs', st2) \<Rightarrow> (outs @ outs' @ [Peer_ready peer, Invite_accepted peer handle], st2)))"

definition on_invite_init :: "'a invite_env \<Rightarrow> string option \<Rightarrow> client_message \<Rightarrow> ('a, 'm) peering \<Rightarrow> ('a, 'm) invite_result" where
  "on_invite_init E quic_peer_id msg st =
     (let v = VObj (cm_payload msg); invite_id = get_str_or [] ''invite_id'' v; identity = cm_sender msg;
          peer = get_str_or identity ''joiner_peer_id'' v; handle = get_str_or [] ''joiner_handle'' v
      in case relabel_from quic_peer_id peer st of
           None \<Rightarrow> None
         | Some st1 \<Rightarrow>
             if \<not> cut_ok 8 identity \<or> \<not> cut_ok 8 invite_id then None
             else Some (welcome_joiner E invite_id identity peer handle
               (update_store (store_joiner E peer identity handle (joiner_port v) (valid_hint E ''joiner_lan_hint'' v)
                 (valid_hint E ''joiner_public_hint'' v)) st1)))"

definition inviter_record :: "'a invite_env \<Rightarrow> client_pending_invite \<Rightarrow> string \<Rightarrow> 'a peer_map \<Rightarrow> 'a client_peer" where
  "inviter_record E p handle m =
     (let peer = pi_inviter_peer_id p; identity = pi_inviter_identity_pub p; R = iv_route E;
          prior = (case (case m peer of Some q \<Rightarrow> Some q | None \<Rightarrow> cpeer_get_by_identity (rt_order R) identity m) of
            None \<Rightarrow> [] | Some q \<Rightarrow> cp_handle q);
          port = (case parse_quic_lan_hint (iv_socket_addr E) (pi_lan_hint p) of None \<Rightarrow> 0 | Some (_, n) \<Rightarrow> n)
      in default_peer\<lparr>cp_peer_id := peer, cp_identity_pub := identity, cp_handle := (if handle = [] then prior else handle),
           cp_relay_hints := hints_of (pi_relay_hint p), cp_auto_connect := \<not> pi_is_supernode p, cp_quic_port := port,
           cp_is_supernode := pi_is_supernode p, cp_supernode_from_invite := pi_is_supernode p,
           cp_created_at := rt_now R, cp_last_seen_at := rt_now R\<rparr>)"

definition greet_inviter :: "'a invite_env \<Rightarrow> string \<Rightarrow> string \<Rightarrow> string \<Rightarrow> ('a, 'm) peering \<Rightarrow> invite_out list \<times> ('a, 'm) peering" where
  "greet_inviter E identity peer handle st =
     (case greet_peer E 0 (if direct_connected peer (pg_router st) then peer else identity) st of
        (outs, st1) \<Rightarrow> (outs @ [Peer_ready peer, Invite_accepted peer handle], st1))"

definition on_invite_accept :: "'a invite_env \<Rightarrow> string option \<Rightarrow> client_message \<Rightarrow> ('a, 'm) peering \<Rightarrow> ('a, 'm) invite_result" where
  "on_invite_accept E quic_peer_id msg st =
     (let v = VObj (cm_payload msg); invite_id = get_str_or [] ''invite_id'' v;
          identity = get_str_or (cm_sender msg) ''inviter_identity_pub'' v; peer = get_str_or identity ''inviter_peer_id'' v;
          handle = get_str_or [] ''inviter_handle'' v
      in case pg_pending st invite_id of
           None \<Rightarrow> Some ([], st)
         | Some p \<Rightarrow>
             (let st1 = st\<lparr>pg_pending := (pg_pending st)(invite_id := None)\<rparr>
              in if identity \<noteq> pi_inviter_identity_pub p \<or> peer \<noteq> pi_inviter_peer_id p
                 then if list_all (cut_ok 8) [pi_inviter_identity_pub p, pi_inviter_peer_id p, identity, peer] then Some ([], st1) else None
                 else case relabel_from quic_peer_id peer st1 of
                     None \<Rightarrow> None
                   | Some st2 \<Rightarrow>
                       if \<not> cut_ok 8 identity \<or> \<not> cut_ok 8 invite_id then None
                       else Some (greet_inviter E identity peer handle (update_store (\<lambda>m. upsert_from_invite (inviter_record E p handle m) m) st2))))"

text \<open>What every inbound message passes: signature and age, the replay guard, and trust for chat, calls and files.\<close>

definition needs_trust :: "client_type \<Rightarrow> bool" where
  "needs_trust t \<longleftrightarrow> t \<in> {ChatMessage_c, ChatAck_c, ChatTyping_c, CallRequest_c, CallAccept_c, CallReject_c, CallEnd_c, FileTransferOffer_c,
     FileTransferAccept_c, FileTransferReject_c, FileTransferChunk_c, FileTransferComplete_c, FileTransferAck_c, FileTransferError_c}"

definition check_replay :: "crates \<Rightarrow> instant \<Rightarrow> client_message \<Rightarrow> replay_guard \<Rightarrow> bool \<times> replay_guard" where
  "check_replay C now msg g =
     (case cm_signature msg of
        None \<Rightarrow> (False, g)
      | Some s \<Rightarrow> (case b64_decode C s of Inl _ \<Rightarrow> (False, g) | Inr sig \<Rightarrow> check_and_record_at (cm_sender msg) sig now g))"

definition inbound_gate :: "'a route_env \<Rightarrow> client_message \<Rightarrow> ('a, 'm) peering \<Rightarrow> bool \<times> ('a, 'm) peering" where
  "inbound_gate R msg st =
     (if \<not> verify_inbound_signature (rt_json R) (rt_crates R) (rt_now R) msg then (False, st)
      else let exempt = (cm_type msg = SfuAudio_c \<or> is_ordered_file_payload (cm_type msg));
               (fresh, g) = (if exempt then (True, pg_replay st) else check_replay (rt_crates R) (rt_instant R) msg (pg_replay st));
               st1 = st\<lparr>pg_replay := g\<rparr>
           in if \<not> fresh then (False, st1)
              else (\<not> needs_trust (cm_type msg) \<or> is_trusted_sender (rt_order R) (ro_store (pg_router st1)) (cm_sender msg), st1))"

text \<open>The handshake part of the dispatcher; other messages are handled in their own theories.\<close>

definition handle_handshake :: "'a invite_env \<Rightarrow> string option \<Rightarrow> client_message \<Rightarrow> ('a, 'm) peering \<Rightarrow> ('a, 'm) invite_result" where
  "handle_handshake E quic_peer_id msg st =
     (case inbound_gate (iv_route E) msg st of (ok, st1) \<Rightarrow>
        if \<not> ok then if cut_ok 8 (cm_sender msg) then Some ([], st1) else None
        else if cm_type msg = InviteHandshakeInit_c then on_invite_init E quic_peer_id msg st1
        else if cm_type msg = InviteHandshakeAccept_c then on_invite_accept E quic_peer_id msg st1
        else Some ([], st1))"

section \<open>Links are read as they were made\<close>

text \<open>The text of an object, or none.\<close>

definition object_text :: "json_lib \<Rightarrow> string \<Rightarrow> bool" where
  "object_text L t \<longleftrightarrow> t = [] \<or> (\<exists>m. t = jl_print L m \<and> jcanon (VObj m))"

lemma space_field_read:
  assumes "Json_Value.json_ok L" "object_text L t"
  shows "space_field L k t = [] \<and> t = [] \<or> (\<exists>m. space_field L k t = [(k, VObj m)] \<and> t = jl_print L m \<and> jcanon (VObj m))"
proof (cases "t = []")
  case False
  with assms(2) obtain m where m: "t = jl_print L m" "jcanon (VObj m)" by (auto simp: object_text_def)
  then have "jl_parse L t = Some (VObj m)"
    using assms(1) by (auto simp: Json_Value.json_ok_def jobj_def bt_of_sorted_id strict_sorted_iff)
  with m False show ?thesis by (simp add: space_field_def)
qed (simp add: space_field_def)

lemma u64_back [simp]: "as_u64 (VNum (NInt (uint w))) = Some w" for w :: u64
  using uint_lt2p [of w] by simp

lemma read_room_fields:
  assumes "Json_Value.json_ok L" "rp_supernode_id p \<noteq> []" "rp_room_id p \<noteq> []" "rp_room_type p \<noteq> []"
    and "object_text L (rp_space_root p)" "object_text L (rp_space_proof p)" "object_text L (rp_space_grant p)"
  shows "read_room_invite L (jobj (room_invite_fields L p)) = Inr p" and "distinct (map fst (room_invite_fields L p))"
    and "\<forall>kv \<in> set (room_invite_fields L p). jcanon (snd kv)"
proof -
  note rd = space_field_read [OF assms(1)]
  note parts = rd [OF assms(5), of "''space_root''"] rd [OF assms(6), of "''space_proof''"] rd [OF assms(7), of "''space_grant''"]
  show d: "distinct (map fst (room_invite_fields L p))"
    using parts unfolding room_invite_fields_def by (elim disjE exE conjE) simp_all
  show "\<forall>kv \<in> set (room_invite_fields L p). jcanon (snd kv)"
    using parts unfolding room_invite_fields_def by (elim disjE exE conjE) simp_all
  define v where "v = jobj (room_invite_fields L p)"
  have get: "jget k v = map_of (room_invite_fields L p) k" for k unfolding v_def by (rule jget_jobj [OF d])
  have strs: "jget ''supernode_id'' v = Some (VStr (rp_supernode_id p))" "jget ''supernode_hint'' v = Some (VStr (rp_supernode_hint p))"
    "jget ''room_id'' v = Some (VStr (rp_room_id p))" "jget ''room_name'' v = Some (VStr (rp_room_name p))"
    "jget ''room_type'' v = Some (VStr (rp_room_type p))" "jget ''invite_token'' v = Some (VStr (rp_invite_token p))"
    "jget ''v'' v = Some (VNum (NInt (uint ROOM_INVITE_SCHEMA)))" "jget ''expires_at'' v = Some (VNum (NInt (uint (rp_expires_at p))))"
    unfolding get by (simp_all add: room_invite_fields_def)
  have "get_obj L ''space_root'' v = rp_space_root p" "get_obj L ''space_proof'' v = rp_space_proof p"
    "get_obj L ''space_grant'' v = rp_space_grant p"
    using parts unfolding get_obj_def get room_invite_fields_def by (elim disjE exE conjE; simp)+
  then have "read_room_invite L v = Inr p"
    using assms(2-4) by (simp add: read_room_invite_def unsupported_def get_str_or_def get_str_def strs del: as_u64.simps)
  then show "read_room_invite L (jobj (room_invite_fields L p)) = Inr p" by (simp add: v_def)
qed

lemma json_object_back:
  assumes "Json_Value.json_ok L" "\<forall>kv \<in> set kvs. jcanon (snd kv)"
  shows "jl_parse L (jl_print L (bt_of kvs [])) = Some (jobj kvs)"
proof -
  have s: "sorted_wrt (<) (map fst (bt_of kvs []))" by (rule bt_of_sorted) simp
  then have "distinct (map fst (bt_of kvs []))" by (simp add: strict_sorted_iff)
  moreover have "\<forall>kv \<in> set (bt_of kvs []). jcanon (snd kv)" using bt_of_set [of kvs "[]"] assms(2) by auto
  ultimately show ?thesis using assms(1) bt_of_sorted_id [OF s] by (simp add: Json_Value.json_ok_def jobj_def)
qed

lemma split_minted: "split_action (''room#'' @ x) = (''room'', x)" "split_action (''invite#'' @ x) = (''invite'', x)"
  by (simp_all add: split_action_def)

text \<open>
  C21. A room link is read as it was made. The web link the client mints names the room action, and
  reading what follows gives back every field of the payload, the space credential included, whenever
  the payload names its supernode, its room and a kind and the encoded form is at most 256 KiB.
\<close>

theorem room_invite_roundtrip:
  assumes "Json_Value.json_ok L" "\<And>b. dec (bare (enc b)) = Some b" "\<And>b. b \<noteq> [] \<Longrightarrow> enc b \<noteq> []"
    and "rp_supernode_id p \<noteq> []" "rp_room_id p \<noteq> []" "rp_room_type p \<noteq> []"
    and "object_text L (rp_space_root p)" "object_text L (rp_space_proof p)" "object_text L (rp_space_grant p)"
    and "json = as_bytes (jl_print L (bt_of (room_invite_fields L p) []))" "json \<noteq> []" "length (enc json) \<le> MAX_INVITE_LEN"
  shows "\<exists>rest encoded. normalize_app_url (build_room_invite_url L enc p) = Some rest \<and> split_action rest = (''room'', encoded) \<and>
    parse_room_invite L dec encoded = Inr p"
proof (intro exI conjI)
  note f = read_room_fields [OF assms(1,4-9)]
  show "normalize_app_url (build_room_invite_url L enc p) = Some (''room#'' @ enc json)"
    unfolding build_room_invite_url_def assms(10) [symmetric] by (rule normalize_minted(2)) (rule assms(3) [OF assms(11)])
  show "split_action (''room#'' @ enc json) = (''room'', enc json)" by (rule split_minted)
  have "jl_parse L (jl_print L (bt_of (room_invite_fields L p) [])) = Some (jobj (room_invite_fields L p))"
    by (rule json_object_back [OF assms(1) f(3)])
  then have "read_link L dec (enc json) = Inr (jobj (room_invite_fields L p))"
    using assms(12) by (simp add: read_link_def assms(2)) (simp add: assms(10))
  then show "parse_room_invite L dec (enc json) = Inr p" by (simp add: parse_room_invite_def f(1))
qed

definition demo_room_invite :: room_invite_payload where
  "demo_room_invite = \<lparr>rp_supernode_id = ''sn'', rp_supernode_hint = ''wss://sn'', rp_room_id = ''r'', rp_room_name = [], rp_room_type = ''private'',
     rp_invite_token = ''t'', rp_expires_at = 7, rp_space_root = jl_print plain_json [(''id'', VStr ''s'')], rp_space_proof = [], rp_space_grant = []\<rparr>"

theorem room_invite_roundtrip_witness:
  "\<exists>rest encoded. normalize_app_url (build_room_invite_url plain_json (\<lambda>b. spread (string_of_bytes b)) demo_room_invite) = Some rest \<and>
     split_action rest = (''room'', encoded) \<and>
     parse_room_invite plain_json (\<lambda>t. Some (as_bytes (unspread t))) encoded = Inr demo_room_invite"
proof -
  let ?json = "as_bytes (jl_print plain_json (bt_of (room_invite_fields plain_json demo_room_invite) []))"
  have obj: "object_text plain_json (rp_space_root demo_room_invite)"
    unfolding object_text_def by (rule disjI2, rule exI [of _ "[(''id'', VStr ''s'')]"]) (simp add: demo_room_invite_def)
  have "jl_parse plain_json (jl_print plain_json [(''id'', VStr ''s'')]) = Some (VObj [(''id'', VStr ''s'')])"
    using plain_json_ok by (simp add: Json_Value.json_ok_def jobj_def)
  then have f: "room_invite_fields plain_json demo_room_invite =
      [(''v'', VNum (NInt 1)), (''supernode_id'', VStr ''sn''), (''supernode_hint'', VStr ''wss://sn''), (''room_id'', VStr ''r''), (''room_name'', VStr []),
       (''room_type'', VStr ''private''), (''invite_token'', VStr ''t''), (''expires_at'', VNum (NInt 7)), (''space_root'', VObj [(''id'', VStr ''s'')])]"
    by (simp add: room_invite_fields_def space_field_def demo_room_invite_def ROOM_INVITE_SCHEMA_def) (simp add: plain_json_def)
  have "length ?json \<le> 2000" "?json \<noteq> []"
    unfolding f by (simp_all add: plain_json_def less_char_def enc_num.simps enc_int.simps as_bytes_def)
  moreover have "spread (string_of_bytes b) \<noteq> []" if "b \<noteq> []" for b
    using that by (simp add: string_of_bytes_def flip: length_greater_0_conv)
  ultimately show ?thesis
    by (intro room_invite_roundtrip [OF plain_json_ok _ _ _ _ _ obj _ _ refl])
      (simp_all add: demo_room_invite_def object_text_def MAX_INVITE_LEN_def)
qed

section \<open>Who becomes trusted\<close>

lemma dispatch_keeps: "dispatch_outbound E msg r = (sent, outs, r') \<Longrightarrow> \<exists>f. r' = r\<lparr>ro_features := f\<rparr>"
proof -
  assume d: "dispatch_outbound E msg r = (sent, outs, r')"
  obtain ok r1 where g: "gate_outbound E msg r = (ok, r1)" by fastforce
  have "r' = r1 \<or> r' = r" using d by (auto simp: dispatch_outbound_def g Let_def split: if_splits prod.splits)
  then show ?thesis using gate_outbound_features [OF g] by (metis router.surjective router.update_convs(8))
qed

lemma direct_stream_taken:
  assumes "direct_stream t r = Some c" "cm_target m = Some t" "fst (gate_outbound R m r)" "rt_quic_takes R c"
  shows "fst (snd (dispatch_outbound R m r)) =
    [Quic_frame c (encode_frame (channel_tag_for (cm_type m)) (as_bytes (client_to_json (rt_json R) (client_sign (rt_json R) (rt_crates R) (rt_sign R) m))))]"
proof -
  obtain r1 where g: "gate_outbound R m r = (True, r1)" using assms(3) by (metis prod.collapse)
  then obtain f where f: "r1 = r\<lparr>ro_features := f\<rparr>" using gate_outbound_features by blast
  have "direct_connected t r" using assms(1) by (auto simp: direct_connected_def direct_stream_def split: option.splits if_splits)
  then have "\<not> (case chat_attempt m of None \<Rightarrow> False | Some (p, _) \<Rightarrow> \<not> direct_connected p r \<and> \<not> supernode_available r)"
    using assms(2) by (auto simp: chat_attempt_def split: option.splits if_splits)
  moreover have "route_direct R r1 (client_sign (rt_json R) (rt_crates R) (rt_sign R) m) json =
      Some (True, [Quic_frame c (encode_frame (channel_tag_for (cm_type m)) (as_bytes json))])" for json
    using assms(1,2,4) by (simp add: route_direct_def f)
  ultimately show ?thesis by (simp add: dispatch_outbound_def g Let_def)
qed

text \<open>Sending spends quota and changes nothing else.\<close>

definition spends :: "('a, 'm) peering \<Rightarrow> ('a, 'm) peering \<Rightarrow> bool" where
  "spends st st' \<longleftrightarrow> (\<exists>f. st' = st\<lparr>pg_router := (pg_router st)\<lparr>ro_features := f\<rparr>\<rparr>)"

lemma spends_refl [simp]: "spends st st"
  unfolding spends_def by (rule exI [of _ "ro_features (pg_router st)"]) simp

lemma spends_trans: "spends a b \<Longrightarrow> spends b c \<Longrightarrow> spends a c"
  by (auto simp: spends_def)

lemma spends_fields:
  assumes "spends st st'"
  shows "ro_store (pg_router st') = ro_store (pg_router st)" "direct_stream p (pg_router st') = direct_stream p (pg_router st)"
    "pg_pending st' = pg_pending st" "pg_replay st' = pg_replay st"
  using assms by (auto simp: spends_def)

lemma dispatch_nth_spends: "spends st (snd (dispatch_nth E i m st))"
proof -
  obtain sent outs r' where d: "dispatch_outbound ((iv_route E)\<lparr>rt_nonce := iv_nonces E i\<rparr>) m (pg_router st) = (sent, outs, r')"
    by (cases "dispatch_outbound ((iv_route E)\<lparr>rt_nonce := iv_nonces E i\<rparr>) m (pg_router st)") auto
  from dispatch_keeps [OF d] show ?thesis by (auto simp: dispatch_nth_def d spends_def)
qed

lemma greet_peer_spends: "spends st (snd (greet_peer E n target st))"
proof -
  obtain outs st1 where h: "send_handle_update E n target st = (outs, st1)" by fastforce
  obtain outs' st2 where a: "send_local_avatar_config E (Suc n) target st1 = (outs', st2)" by fastforce
  have "spends st (snd (send_handle_update E n target st))" by (simp add: send_handle_update_def dispatch_nth_spends)
  moreover have "spends st1 (snd (send_local_avatar_config E (Suc n) target st1))"
    by (simp add: send_local_avatar_config_def dispatch_nth_spends split: option.split)
  ultimately have "spends st st2" unfolding h a by (auto intro: spends_trans)
  then show ?thesis by (simp add: greet_peer_def h a)
qed

lemma welcome_joiner_spends: "spends st (snd (welcome_joiner E invite_id identity peer handle st))"
proof -
  define target where "target = (if direct_connected peer (pg_router st) then peer else identity)"
  obtain outs st1 where d: "dispatch_nth E 0 (accept_reply E st invite_id target) st = (outs, st1)" by fastforce
  obtain outs' st2 where g: "greet_peer E 1 target st1 = (outs', st2)" by fastforce
  have "spends st st2"
    using dispatch_nth_spends [of st E 0 "accept_reply E st invite_id target"] greet_peer_spends [of st1 E 1 target]
    unfolding d g by (auto intro: spends_trans)
  then show ?thesis unfolding welcome_joiner_def Let_def target_def [symmetric] d prod.case g by simp
qed

lemma handshake_init_runs:
  assumes "verify_inbound_signature (rt_json (iv_route E)) (rt_crates (iv_route E)) (rt_now (iv_route E)) msg" "cm_type msg = InviteHandshakeInit_c"
    and "check_replay (rt_crates (iv_route E)) (rt_instant (iv_route E)) msg (pg_replay st) = (True, g)"
    and "v = VObj (cm_payload msg)" "peer = get_str_or (cm_sender msg) ''joiner_peer_id'' v" "relabel_from quic peer (st\<lparr>pg_replay := g\<rparr>) = Some st1"
    and "cut_ok 8 (cm_sender msg)" "cut_ok 8 (get_str_or [] ''invite_id'' v)"
  obtains outs st' handle port lan public where "handle_handshake E quic msg st = Some (outs, st')"
    and "spends (update_store (store_joiner E peer (cm_sender msg) handle port lan public) st1) st'"
proof -
  define st2 where "st2 = update_store (store_joiner E peer (cm_sender msg) (get_str_or [] ''joiner_handle'' v) (joiner_port v)
    (valid_hint E ''joiner_lan_hint'' v) (valid_hint E ''joiner_public_hint'' v)) st1"
  define res where "res = welcome_joiner E (get_str_or [] ''invite_id'' v) (cm_sender msg) peer (get_str_or [] ''joiner_handle'' v) st2"
  have "inbound_gate (iv_route E) msg st = (True, st\<lparr>pg_replay := g\<rparr>)"
    using assms(1-3) by (simp add: inbound_gate_def needs_trust_def is_ordered_file_payload_def)
  moreover have "on_invite_init E quic msg (st\<lparr>pg_replay := g\<rparr>) = Some res"
    using assms(6-8) unfolding on_invite_init_def Let_def assms(4) [symmetric] assms(5) [symmetric] res_def st2_def by simp
  ultimately have "handle_handshake E quic msg st = Some (fst res, snd res)" by (simp add: handle_handshake_def assms(2))
  then show thesis by (rule that) (use welcome_joiner_spends [of st2 E] in \<open>simp add: res_def st2_def\<close>)
qed

text \<open>
  C39. Nobody checks that a handshake answers an invite. A stranger who signs an \<open>InviteHandshakeInit\<close> with any
  invite id, and whose id is not in the store, is trusted from then on: also when this client never made a link, the
  message stores the sender, and the sender's chat messages, calls and files pass the inbound gate.
\<close>

theorem uninvited_peer_trusted:
  assumes "verify_inbound_signature (rt_json (iv_route E)) (rt_crates (iv_route E)) (rt_now (iv_route E)) msg" "cm_type msg = InviteHandshakeInit_c"
    and "check_replay (rt_crates (iv_route E)) (rt_instant (iv_route E)) msg (pg_replay st) = (True, g)"
    and "get_str ''joiner_peer_id'' (VObj (cm_payload msg)) \<in> {None, Some (cm_sender msg)}" "ro_store (pg_router st) (cm_sender msg) = None"
    and "cut_ok 8 (cm_sender msg)" "cut_ok 8 (get_str_or [] ''invite_id'' (VObj (cm_payload msg)))"
    and "verify_inbound_signature (rt_json R) (rt_crates R) (rt_now R) m" "cm_sender m = cm_sender msg"
    and "fst (check_replay (rt_crates R) (rt_instant R) m g)"
  shows "\<exists>outs st'. handle_handshake E None msg st = Some (outs, st') \<and> is_trusted_sender ord (ro_store (pg_router st')) (cm_sender msg) \<and>
    fst (inbound_gate R m st')"
proof -
  have peer: "cm_sender msg = get_str_or (cm_sender msg) ''joiner_peer_id'' (VObj (cm_payload msg))"
    using assms(4) by (auto simp: get_str_or_def)
  have "relabel_from None (cm_sender msg) (st\<lparr>pg_replay := g\<rparr>) = Some (st\<lparr>pg_replay := g\<rparr>)" by (simp add: relabel_from_def)
  from handshake_init_runs [OF assms(1-3) refl peer this assms(6,7)]
  obtain outs st' handle port lan public where h: "handle_handshake E None msg st = Some (outs, st')"
    and s: "spends (update_store (store_joiner E (cm_sender msg) (cm_sender msg) handle port lan public) (st\<lparr>pg_replay := g\<rparr>)) st'" .
  have t: "is_trusted_sender ord (ro_store (pg_router st')) (cm_sender msg)" for ord
    unfolding spends_fields(1) [OF s]
    by (simp add: update_store_def store_joiner_def assms(5) insert_record_def is_trusted_sender_def default_peer_def Let_def)
  have "pg_replay st' = g" using spends_fields(4) [OF s] by (simp add: update_store_def)
  then have "fst (inbound_gate R m st')"
    using assms(8,10) t by (auto simp: inbound_gate_def Let_def assms(9) split: prod.splits)
  with h t show ?thesis by blast
qed

text \<open>A client that knows nobody, and a stranger who is connected to it.\<close>

definition demo_invites :: "unit invite_env" where
  "demo_invites = \<lparr>iv_route = demo_route, iv_nonces = (\<lambda>_. replicate 12 1), iv_encode = (\<lambda>b. spread (string_of_bytes b)),
     iv_decode = (\<lambda>t. Some (as_bytes (unspread t))), iv_unix = 0, iv_uuid = ''u'', iv_handle = [], iv_avatar = None, iv_lan_hint = None,
     iv_public_hint = None, iv_quic_port = 0, iv_endpoint_ok = True, iv_eph_secret = replicate 32 5, iv_socket_addr = (\<lambda>_. None)\<rparr>"

definition demo_peering :: "(unit, unit) peering" where
  "demo_peering = \<lparr>pg_router = (demo_router True)\<lparr>ro_me := demo_bob, ro_store := Map.empty,
       ro_peers := [''q'' \<mapsto> \<lparr>pn_state = Peer_connected, pn_quic_out = Some ''stream''\<rparr>]\<rparr>,
     pg_peer_id = ''me'', pg_pending = Map.empty, pg_room_entries = Map.empty, pg_space_creds = Map.empty, pg_aliases = Map.empty,
     pg_replay = new_replay_guard None\<rparr>"

text \<open>Messages that the stranger signs, and what the guard remembers of them.\<close>

definition by_stranger :: "rat \<Rightarrow> client_type \<Rightarrow> (string \<times> jvalue) list \<Rightarrow> client_message" where
  "by_stranger t k payload = client_sign plain_json plain_crates (\<lambda>_. replicate 64 0) (new_client t k plain_signer payload)"

definition guard_at :: "instant \<Rightarrow> replay_guard" where
  "guard_at t = (new_replay_guard None)\<lparr>rg_windows := [plain_signer \<mapsto> \<lparr>sw_seen = [sig_key (replicate 64 0) \<mapsto> t]\<rparr>]\<rparr>"

lemma by_stranger_fields [simp]:
  "cm_type (by_stranger t k payload) = k" "cm_sender (by_stranger t k payload) = plain_signer" "cm_payload (by_stranger t k payload) = bt_of payload []"
  by (simp_all add: by_stranger_def new_client_def client_new_message_def)

lemma by_stranger_verifies: "verify_inbound_signature plain_json plain_crates t (by_stranger t k payload)"
  unfolding by_stranger_def
  by (rule signed_verifies [OF plain_crates_ok]) (simp_all add: new_client_def client_new_message_def plain_signs_for MAX_MESSAGE_AGE_SECS_def)

lemma by_stranger_fresh:
  "check_replay plain_crates 0 (by_stranger t k payload) (new_replay_guard None) = (True, guard_at 0)"
  "fst (check_replay plain_crates 1000000000000000 (by_stranger t k payload) (guard_at 0))"
proof -
  define key where "key = sig_key (replicate 64 0)"
  have r: "check_replay plain_crates n (by_stranger t k payload) g = check_and_record_at plain_signer (replicate 64 0) n g" for n g
    by (simp add: check_replay_def by_stranger_def client_sign_def new_client_def client_new_message_def)
  have ne: "replicate 64 (0 :: u8) \<noteq> []" by simp
  show "check_replay plain_crates 0 (by_stranger t k payload) (new_replay_guard None) = (True, guard_at 0)"
    using ne unfolding r check_and_record_at_def guard_at_def key_def [symmetric] Let_def
    by (simp add: new_replay_guard_def new_window_def prune_def retain_def msize_def MAX_ENTRIES_PER_SENDER_def Let_def)
  have w: "rg_window (guard_at 0) < 1000000000000000"
    by (simp add: guard_at_def new_replay_guard_def from_secs_def DEFAULT_REPLAY_WINDOW_SECS_def)
  have "prune 1000000000000000 (rg_window (guard_at 0)) \<lparr>sw_seen = [key \<mapsto> 0]\<rparr> = new_window"
    using w by (auto simp: prune_def retain_def new_window_def fun_eq_iff split: option.split)
  then show "fst (check_replay plain_crates 1000000000000000 (by_stranger t k payload) (guard_at 0))"
    using ne unfolding r check_and_record_at_def Let_def key_def [symmetric]
    by (simp add: guard_at_def key_def [symmetric] new_window_def msize_def MAX_ENTRIES_PER_SENDER_def)
qed

lemma cut_ok_ascii:
  assumes "ascii_str s"
  shows "cut_ok n s"
proof (cases "length s \<le> n")
  case False
  then have "of_char (s ! n) < (128 :: nat)" using assms nth_mem [of n s] unfolding ascii_str_def by simp
  then show ?thesis
    using False by (simp add: cut_ok_def str_prefix_def utf8_cont_def as_bytes_def min_def word_le_nat_alt unat_of_nat)
qed (simp add: cut_ok_def str_prefix_def min_def)

lemma plain_signer_ascii: "ascii_str plain_signer"
  using ascii_of_byte [of 0 32] by (simp add: plain_signer_def del: replicate.simps)

lemma demo_invites_fields [simp]: "rt_json demo_route = plain_json" "rt_crates demo_route = plain_crates" "rt_now demo_route = 0"
  "rt_instant demo_route = 0" "iv_route demo_invites = demo_route" "pg_replay demo_peering = new_replay_guard None"
  by (simp_all add: demo_route_def demo_invites_def demo_peering_def)

theorem uninvited_peer_trusted_witness:
  "\<exists>outs st'. handle_handshake demo_invites None (by_stranger 0 InviteHandshakeInit_c [(''invite_id'', VStr ''none'')]) demo_peering = Some (outs, st') \<and>
     is_trusted_sender (\<lambda>_. []) (ro_store (pg_router st')) plain_signer \<and>
     fst (inbound_gate (demo_route\<lparr>rt_instant := 1000000000000000, rt_now := 1000\<rparr>) (by_stranger 1000 ChatMessage_c []) st')"
proof -
  let ?msg = "by_stranger 0 InviteHandshakeInit_c [(''invite_id'', VStr ''none'')]"
  have "cut_ok 8 (cm_sender ?msg)" by (simp add: cut_ok_ascii plain_signer_ascii)
  moreover have "cut_ok 8 (get_str_or [] ''invite_id'' (VObj (cm_payload ?msg)))"
    by (simp add: get_str_or_def get_str_def cut_ok_def str_prefix_def)
  ultimately show ?thesis
    using uninvited_peer_trusted [of demo_invites ?msg demo_peering "guard_at 0" "demo_route\<lparr>rt_instant := 1000000000000000, rt_now := 1000\<rparr>"
        "by_stranger 1000 ChatMessage_c []" "\<lambda>_. []"]
    by (simp add: by_stranger_verifies by_stranger_fresh get_str_def) (simp add: demo_peering_def)
qed

text \<open>
  A handshake takes over the stream of another peer. The message of a peer connected as \<open>q\<close> may name any
  other id as the joiner's: the session of \<open>q\<close> is then kept under that id, and what this client sends to the
  peer with that id leaves, signed and not encrypted, on the stream of \<open>q\<close>.
\<close>

lemma init_takes_stream:
  assumes "verify_inbound_signature (rt_json (iv_route E)) (rt_crates (iv_route E)) (rt_now (iv_route E)) msg" "cm_type msg = InviteHandshakeInit_c"
    and "check_replay (rt_crates (iv_route E)) (rt_instant (iv_route E)) msg (pg_replay st) = (True, g)"
    and "get_str ''joiner_peer_id'' (VObj (cm_payload msg)) = Some victim" "victim \<noteq> []" "victim \<noteq> q" "victim \<noteq> pg_peer_id st"
    and "direct_stream q (pg_router st) = Some c" "list_all (cut_ok 8) [q, victim, cm_sender msg, get_str_or [] ''invite_id'' (VObj (cm_payload msg))]"
    and "cm_target m = Some victim" "rt_quic_takes R c"
  shows "\<exists>outs st'. handle_handshake E (Some q) msg st = Some (outs, st') \<and> direct_stream victim (pg_router st') = Some c \<and>
    (fst (gate_outbound R m (pg_router st')) \<longrightarrow>
      fst (snd (dispatch_outbound R m (pg_router st'))) =
        [Quic_frame c (encode_frame (channel_tag_for (cm_type m)) (as_bytes (client_to_json (rt_json R) (client_sign (rt_json R) (rt_crates R) (rt_sign R) m))))])"
proof -
  obtain pc where pc: "ro_peers (pg_router st) q = Some pc" "pn_state pc = Peer_connected" "pn_quic_out pc = Some c"
    using assms(8) by (auto simp: direct_stream_def split: option.splits if_splits)
  have peer: "victim = get_str_or (cm_sender msg) ''joiner_peer_id'' (VObj (cm_payload msg))" using assms(4) by (simp add: get_str_or_def)
  have cut: "cut_ok 8 q" "cut_ok 8 victim" "cut_ok 8 (cm_sender msg)" "cut_ok 8 (get_str_or [] ''invite_id'' (VObj (cm_payload msg)))"
    using assms(9) by simp_all
  obtain st1 where r: "relabel_from (Some q) victim (st\<lparr>pg_replay := g\<rparr>) = Some st1" "ro_peers (pg_router st1) victim = Some pc"
    using pc(1) cut(1,2) assms(5-7) by (simp add: relabel_from_def relabel_quic_peer_session_def)
  from handshake_init_runs [OF assms(1-3) refl peer r(1) cut(3,4)]
  obtain outs st' handle port lan public where h: "handle_handshake E (Some q) msg st = Some (outs, st')"
    and s: "spends (update_store (store_joiner E victim (cm_sender msg) handle port lan public) st1) st'" .
  have d: "direct_stream victim (pg_router st') = Some c"
    unfolding spends_fields(2) [OF s] by (simp add: update_store_def direct_stream_def r(2) pc(2,3))
  then have "fst (snd (dispatch_outbound R m (pg_router st'))) =
      [Quic_frame c (encode_frame (channel_tag_for (cm_type m)) (as_bytes (client_to_json (rt_json R) (client_sign (rt_json R) (rt_crates R) (rt_sign R) m))))]"
    if "fst (gate_outbound R m (pg_router st'))"
    by (rule direct_stream_taken [OF _ assms(10) that assms(11)])
  with h d show ?thesis by blast
qed

definition demo_call :: client_message where "demo_call = demo_hello\<lparr>cm_type := CallRequest_c\<rparr>"

lemma init_takes_stream_witness:
  "\<exists>outs st'. handle_handshake demo_invites (Some ''q'')
       (by_stranger 0 InviteHandshakeInit_c [(''invite_id'', VStr ''none''), (''joiner_peer_id'', VStr ''bob'')]) demo_peering = Some (outs, st') \<and>
     direct_stream ''bob'' (pg_router st') = Some ''stream'' \<and>
     (\<exists>frame. fst (snd (dispatch_outbound demo_route demo_call (pg_router st'))) = [Quic_frame ''stream'' frame])"
proof -
  let ?msg = "by_stranger 0 InviteHandshakeInit_c [(''invite_id'', VStr ''none''), (''joiner_peer_id'', VStr ''bob'')]"
  have cut: "list_all (cut_ok 8) [''q'', ''bob'', cm_sender ?msg, get_str_or [] ''invite_id'' (VObj (cm_payload ?msg))]"
    by (simp add: cut_ok_ascii plain_signer_ascii get_str_or_def get_str_def)
  have "fst (gate_outbound demo_route demo_call r)" for r :: "(unit, unit) router"
    by (simp add: gate_outbound_def demo_call_def feature_gate_for_def)
  then show ?thesis
    using init_takes_stream [of demo_invites ?msg demo_peering "guard_at 0" "''bob''" "''q''" "''stream''" demo_call demo_route, OF _ _ _ _ _ _ _ _ cut]
    by (simp add: by_stranger_verifies by_stranger_fresh get_str_def)
      (fastforce simp: demo_peering_def direct_stream_def demo_call_def demo_route_def)
qed

section \<open>Which inviter is stored\<close>

lemma relabel_keeps: "relabel_from quic peer st = Some st' \<Longrightarrow> ro_store (pg_router st') = ro_store (pg_router st) \<and> pg_pending st' = pg_pending st"
  by (auto simp: relabel_from_def relabel_quic_peer_session_def split: option.splits if_splits)

lemma greet_inviter_spends: "spends st (snd (greet_inviter E identity peer handle st))"
  using greet_peer_spends [of st E 0 "if direct_connected peer (pg_router st) then peer else identity"] by (simp add: greet_inviter_def case_prod_beta)

lemma inbound_gate_keeps: "inbound_gate R msg st = (ok, st1) \<Longrightarrow> \<exists>g. st1 = st\<lparr>pg_replay := g\<rparr>"
  by (auto simp: inbound_gate_def Let_def split: if_splits prod.splits intro: exI [of _ "pg_replay st"])

lemma inbound_gate_verified: "inbound_gate R msg st = (True, st1) \<Longrightarrow> verify_inbound_signature (rt_json R) (rt_crates R) (rt_now R) msg"
  by (auto simp: inbound_gate_def split: if_splits)

lemma on_invite_accept_cases:
  assumes "on_invite_accept E quic msg st = Some (outs, st')" and "v = VObj (cm_payload msg)"
  obtains (kept) "ro_store (pg_router st') = ro_store (pg_router st)"
  | (stored) p handle where "pg_pending st (get_str_or [] ''invite_id'' v) = Some p"
      "get_str_or (cm_sender msg) ''inviter_identity_pub'' v = pi_inviter_identity_pub p"
      "pg_pending st' = (pg_pending st)(get_str_or [] ''invite_id'' v := None)"
      "ro_store (pg_router st') = upsert_from_invite (inviter_record E p handle (ro_store (pg_router st))) (ro_store (pg_router st))"
proof (cases "pg_pending st (get_str_or [] ''invite_id'' v)")
  case None
  then show ?thesis using assms(1) kept unfolding on_invite_accept_def Let_def assms(2) [symmetric] by simp
next
  case (Some p)
  define identity where "identity = get_str_or (cm_sender msg) ''inviter_identity_pub'' v"
  define peer where "peer = get_str_or identity ''inviter_peer_id'' v"
  define handle where "handle = get_str_or [] ''inviter_handle'' v"
  define st1 where "st1 = st\<lparr>pg_pending := (pg_pending st)(get_str_or [] ''invite_id'' v := None)\<rparr>"
  note run = assms(1) [unfolded on_invite_accept_def Let_def, folded assms(2), folded identity_def, folded peer_def, folded handle_def st1_def,
      unfolded Some option.case]
  show ?thesis
  proof (cases "identity = pi_inviter_identity_pub p \<and> peer = pi_inviter_peer_id p")
    case False
    then show ?thesis using run kept by (auto simp: st1_def split: if_splits)
  next
    case True
    then obtain st2 where st2: "relabel_from quic peer st1 = Some st2" using run by (auto split: option.splits)
    define st3 where "st3 = update_store (\<lambda>m. upsert_from_invite (inviter_record E p handle m) m) st2"
    have "st' = snd (greet_inviter E identity peer handle st3)"
      using run True st2 by (auto simp: st3_def split: if_splits)
    then have "spends st3 st'" by (simp add: greet_inviter_spends)
    from spends_fields [OF this] relabel_keeps [OF st2] show ?thesis
      by (intro stored [OF Some]) (use True in \<open>simp_all add: identity_def [symmetric] st3_def update_store_def st1_def\<close>)
  qed
qed

text \<open>
  C20. An accept message changes the peer store only for a link this client accepted itself. The message is
  signed and names a pending invite and the identity that invite was made by; the stored record carries the
  identity, address and role of the pending invite, and the invite is used up, so that it works once.
\<close>

theorem accept_stores_pending_inviter:
  assumes "cm_type msg = InviteHandshakeAccept_c" "handle_handshake E quic msg st = Some (outs, st')" "v = VObj (cm_payload msg)"
    and "ro_store (pg_router st') \<noteq> ro_store (pg_router st)"
  shows "\<exists>p handle. verify_inbound_signature (rt_json (iv_route E)) (rt_crates (iv_route E)) (rt_now (iv_route E)) msg \<and>
    pg_pending st (get_str_or [] ''invite_id'' v) = Some p \<and>
    get_str_or (cm_sender msg) ''inviter_identity_pub'' v = pi_inviter_identity_pub p \<and>
    pg_pending st' = (pg_pending st)(get_str_or [] ''invite_id'' v := None) \<and>
    ro_store (pg_router st') = upsert_from_invite (inviter_record E p handle (ro_store (pg_router st))) (ro_store (pg_router st))"
proof -
  obtain ok st1 where g: "inbound_gate (iv_route E) msg st = (ok, st1)" by fastforce
  then obtain r where r: "st1 = st\<lparr>pg_replay := r\<rparr>" using inbound_gate_keeps by blast
  have ok: ok using assms(2,4) by (auto simp: handle_handshake_def g r split: if_splits)
  then have "on_invite_accept E quic msg st1 = Some (outs, st')" using assms(1,2) by (simp add: handle_handshake_def g)
  from this assms(3) show ?thesis
  proof (cases rule: on_invite_accept_cases)
    case kept
    with assms(4) show ?thesis by (simp add: r)
  next
    case (stored p handle)
    with inbound_gate_verified [OF g [unfolded ok [THEN eqTrueI]]] show ?thesis by (auto simp: r)
  qed
qed

theorem accept_stores_pending_inviter_witness:
  "let p = \<lparr>pi_inviter_peer_id = plain_signer, pi_inviter_identity_pub = plain_signer, pi_invite_id = ''i'', pi_relay_hint = [], pi_lan_hint = [],
         pi_is_supernode = False, pi_created_at = 0\<rparr>;
       msg = by_stranger 0 InviteHandshakeAccept_c [(''invite_id'', VStr ''i'')]; st = demo_peering\<lparr>pg_pending := [''i'' \<mapsto> p]\<rparr>
   in \<exists>outs st'. handle_handshake demo_invites None msg st = Some (outs, st') \<and> ro_store (pg_router st') plain_signer \<noteq> None \<and> pg_pending st' = Map.empty"
proof -
  define p where "p = \<lparr>pi_inviter_peer_id = plain_signer, pi_inviter_identity_pub = plain_signer, pi_invite_id = ''i'', pi_relay_hint = [],
    pi_lan_hint = [], pi_is_supernode = False, pi_created_at = 0\<rparr>"
  let ?msg = "by_stranger 0 InviteHandshakeAccept_c [(''invite_id'', VStr ''i'')]" and ?st = "demo_peering\<lparr>pg_pending := [''i'' \<mapsto> p]\<rparr>"
  have gate: "inbound_gate demo_route ?msg ?st = (True, ?st\<lparr>pg_replay := guard_at 0\<rparr>)"
    by (simp add: inbound_gate_def by_stranger_verifies by_stranger_fresh needs_trust_def is_ordered_file_payload_def)
  have cut: "cut_ok 8 plain_signer" "cut_ok 8 ''i''" by (simp_all add: cut_ok_ascii plain_signer_ascii)
  have p: "pi_inviter_peer_id p = plain_signer" "pi_inviter_identity_pub p = plain_signer" by (simp_all add: p_def)
  have quiet: "iv_handle demo_invites = []" "iv_avatar demo_invites = None" by (simp_all add: demo_invites_def)
  have store: "ro_store (pg_router demo_peering) = Map.empty" by (simp add: demo_peering_def)
  obtain outs st' where h: "handle_handshake demo_invites None ?msg ?st = Some (outs, st')"
    and u: "ro_store (pg_router st') = upsert_from_invite (inviter_record demo_invites p [] Map.empty) Map.empty"
    by (simp add: handle_handshake_def gate on_invite_accept_def get_str_or_def get_str_def p cut relabel_from_def greet_inviter_def greet_peer_def
        send_handle_update_def send_local_avatar_config_def quiet update_store_def store Let_def)
  have n: "ro_store (pg_router st') plain_signer \<noteq> None"
    unfolding u by (simp add: upsert_from_invite_def insert_record_def inviter_record_def p retain_def Let_def)
  have "ro_store (pg_router st') \<noteq> ro_store (pg_router ?st)" using n by (auto simp: store)
  from accept_stores_pending_inviter [OF _ h refl this] have "pg_pending st' = Map.empty" by (auto simp: get_str_or_def get_str_def)
  with h n show ?thesis unfolding Let_def p_def by blast
qed

end
