(* ===== verification/Spec2Isabelle.thy ===== *)
theory Spec2Isabelle
  imports Registry Replay Reassembler Content_Playout Fallback Space_Admission Cluster_Link Relay
    Peer_Store Signaling Handshake Room_Keying Node_Properties File_Panic File_Requests Room_Store Chat_Store Invites
begin

text \<open>
  \<^bold>\<open>ConquerD: a verification development.\<close>

  ConquerD is a peer-to-peer chat, call and file-sharing system in Rust. Clients talk to each other
  directly where they can and through \<^emph>\<open>supernodes\<close> where they cannot. A supernode keeps a signaling
  server over WebSocket, a datagram relay over QUIC, rooms with a selective forwarding unit, an access
  gate with tickets, and links to the other supernodes of its cluster. All messages are signed; the
  content of rooms is encrypted under group keys that the members distribute among themselves. Optional
  features are modules with capabilities, quotas and channel tags. This library models the protocol
  logic of the workspace members \<open>conquerd-features\<close>, \<open>conquerd-supernode\<close> and \<open>conquerd-client\<close> under
  \<open>src/rust\<close> and proves the properties that make it correct. Every definition that models code is
  executable or made of executable parts, and keeps the name of the function it models.

  \<^bold>\<open>How the parts interact.\<close> A frame of a peer reaches the signaling server (\<open>Signaling\<close>), which checks its
  size, rate, signature and age (\<open>Message\<close>), refuses replays (\<open>Replay\<close>) and hands it to the node
  (\<open>Node_Rooms\<close>). The handlers of the node charge the quotas of the feature registry (\<open>Registry\<close>, \<open>Quota\<close>),
  read and change the rooms (\<open>Sfu_Manager\<close>), the peer store (\<open>Peer_Store\<close>), the access gate (\<open>Access\<close>), the roots of
  spaces (\<open>Space_Admission\<close>) and the relay (\<open>Relay\<close>), and send signed messages to peers and replicated ones to
  the cluster (\<open>Cluster_Link\<close>). On the client, room rosters drive the distribution of room keys (\<open>Room_Keying\<close>),
  the keys seal frames and file pieces (\<open>Group_Key\<close>), datagrams become video frames (\<open>Fragment\<close>, \<open>Reassembler\<close>)
  and sound (\<open>Content_Playout\<close>, \<open>Media_Sync\<close>), and files are offered, streamed and verified (\<open>File_Transfer\<close> and
  the theories above it). Peers meet through links (\<open>Invites\<close>) that fill the peer store (\<open>Client_Peers\<close>), and every
  message of the client leaves by \<open>dispatch_outbound\<close> (\<open>Routing\<close>), which reads that store.

  \<^bold>\<open>Foundations.\<close>
  \<^item> \<open>Prelude\<close>: integer widths, byte strings, big-endian encodings, the map operations of
    \<open>std::collections\<close> and the generic lemmas. \<open>Rust_Str\<close>: UTF-8, slices, trimming, decimal forms.
  \<^item> \<open>Crates\<close>, \<open>Json_Value\<close>, \<open>Client_Crypto\<close>: what is code of third parties (SHA-256, hex, base64, Ed25519,
    \<open>serde_json\<close>, X25519, HKDF, AES-GCM, Argon2) is a record of functions, an argument of the definitions
    that use it; \<open>crates_ok\<close>, \<open>json_ok\<close> and \<open>kdf_ok\<close> say what its documentation promises. \<open>plain_crates\<close>, \<open>plain_json\<close> and \<open>plain_kdf\<close>
    are concrete implementations on which the witnesses run.
  \<^item> \<open>Once_Filter\<close>: the contract of a duplicate filter. \<open>Actions\<close>: handlers as state transformers with outputs.

  \<^bold>\<open>Features (\<open>conquerd-features/src\<close>).\<close>
  \<^item> \<open>Channel_Frame\<close> (\<open>channel_frame.rs\<close>, supernode \<open>wire.rs\<close>): tagged frames and relay commands; round trips.
  \<^item> \<open>Channel_Tag\<close> (\<open>channel_tag.rs\<close>): the allocator of dynamic tags; its two maps stay inverse.
  \<^item> \<open>Quota\<close> (\<open>quota.rs\<close>): token buckets; accepted traffic over any interval is bounded by the rate.
  \<^item> \<open>Replay\<close> (\<open>replay.rs\<close>): the replay guard; an accepted signature is refused for the whole window.
  \<^item> \<open>Descriptor\<close>, \<open>Registry\<close> (\<open>descriptor.rs\<close>, \<open>registry.rs\<close>): capabilities, modules and gates; an invocation
    either binds a fresh tag or leaves the registry as it was.
  \<^item> \<open>Video_Codec\<close>, \<open>Brand\<close> (\<open>video_codec.rs\<close>, \<open>brand.rs\<close>): negotiation; application links.

  \<^bold>\<open>Supernode (\<open>conquerd-supernode/src\<close>).\<close>
  \<^item> \<open>Public_Id\<close>, \<open>Peer_Store\<close> (\<open>crypto.rs\<close>, \<open>peer_store.rs\<close>): ids with and without padding; the store refines a
    map from keys to records.
  \<^item> \<open>Sfu_Room\<close>, \<open>Sfu_Manager\<close> (\<open>sfu.rs\<close>): rooms, tokens and active speakers; invariants over every history, and
    joins that succeed exactly when they may.
  \<^item> \<open>Space_Tree\<close>, \<open>Space\<close>, \<open>Space_Admission\<close> (\<open>space.rs\<close>, \<open>main.rs\<close>): the Merkle tree of a space, signed roots,
    proofs and admission; soundness up to an explicit collision, completeness, monotone roots.
  \<^item> \<open>Cluster\<close>, \<open>Cluster_Link\<close> (\<open>cluster.rs\<close>, \<open>cluster_link.rs\<close>, client \<open>cluster.rs\<close>): rosters, links and
    replication; all effects of a link are those of messages its member signed.
  \<^item> \<open>Protocol\<close>, \<open>Message\<close> (\<open>protocol.rs\<close> of both programs): types and envelopes; both programs compute the same
    signed bytes.
  \<^item> \<open>Signaling\<close> (\<open>signaling.rs\<close>): queues, pacing, routing tables and the pipeline of frames.
  \<^item> \<open>Relay\<close> (\<open>relay.rs\<close>): indices, rooms, game sessions and forwarding; datagrams stay in their room.
  \<^item> \<open>Handshake\<close> (\<open>handshake.rs\<close>, \<open>identity.rs\<close>): invites; both ends derive one session key.
  \<^item> \<open>Access\<close> (\<open>access.rs\<close>, \<open>ticket.rs\<close>, \<open>manifest.rs\<close>): controllers, tickets and policies.
  \<^item> \<open>Node\<close>, \<open>Node_Rooms\<close> (\<open>main.rs\<close>): the composed state and every handler. \<open>Node_Safety\<close>: the node as one transition
    system and its invariants. \<open>Node_Payloads\<close>: all signed payloads are well-formed JSON. \<open>Node_Properties\<close>: the
    access gate, confinement and delivery of room frames, and the errors found.

  \<^bold>\<open>Client (\<open>conquerd-client/src\<close>).\<close>
  \<^item> \<open>Fragment\<close>, \<open>Reassembler\<close> (\<open>video/fragment.rs\<close>): frames from fragments in any order, within fixed bounds of memory.
  \<^item> \<open>Media_Sync\<close>, \<open>Content_Playout\<close> (\<open>media_sync.rs\<close>, \<open>media_clock.rs\<close>, \<open>content_playout.rs\<close>): synchronisation and the
    jitter buffer, which falls idle when nothing comes.
  \<^item> \<open>Fallback\<close> (\<open>session_state.rs\<close>, \<open>connection_fallback.rs\<close>): paths, health and the choice of candidates.
  \<^item> \<open>Group_Key\<close>, \<open>Room_Keying\<close> (\<open>group_key.rs\<close>, \<open>manager/room_session.rs\<close>, \<open>manager/inbound.rs\<close>): epochs, sealed frames, the
    elected keyer, rotation and delivery of keys.
  \<^item> \<open>File_Delta\<close>, \<open>File_Names\<close>, \<open>File_Transfer\<close>, \<open>File_Manager\<close> (\<open>file_transfer.rs\<close>): payload encoding, names on disk,
    sources and sinks, and every operation of the manager. \<open>File_Dispatch\<close> (\<open>manager/inbound.rs\<close>, \<open>manager/mod.rs\<close>): the
    messages, commands and timers. \<open>File_Delivery\<close>, \<open>File_Streams\<close>, \<open>File_Properties\<close>, \<open>File_Handover\<close>: only verified content
    completes, streams leave without gaps, and a file arrives byte for byte. \<open>File_Requests\<close>, \<open>File_Panic\<close>: two errors.
  \<^item> \<open>Client_Peers\<close>, \<open>Room_Store\<close>, \<open>Chat_Store\<close> (\<open>peer_store.rs\<close>, \<open>room_store.rs\<close>, \<open>chat_store.rs\<close>): the local stores; the files
    read back what was stored, a room list takes nothing from the user's rooms, and pages of the history
    show every message once in the order of arrival.
  \<^item> \<open>Routing\<close> (\<open>manager/routing.rs\<close>): the paths of an outbound message; what goes to a paired peer through supernodes is
    encrypted for that peer, and the fate of a chat message is reported.
  \<^item> \<open>Invites\<close> (\<open>manager/invite.rs\<close>, \<open>manager/inbound.rs\<close>, \<open>manager/peer_session.rs\<close>): links, their acceptance and the two
    handshake messages; links read back, an accept stores only the inviter of a pending link, and an
    init message is believed without an invite.

  \<^bold>\<open>Interfaces.\<close> Each locale is a contract between components, with its consequences proved once:
  \<open>once_filter\<close> (provided by the replay guard and the replication cache), \<open>allocator\<close> (channel tags), \<open>framing\<close>
  (relay commands), \<open>metered_axis\<close> (the byte and the datagram axis of a bucket), \<open>peer_book\<close> (the peer store), \<open>key_source\<close>
  (group keys), \<open>growing_actions\<close> (the handlers of the node, for its invariants, its payloads and its room
  frames), \<open>chunk_sink\<close> (memory and part file) and \<open>frame_lane\<close> (the peer and the room lane of file frames).

  \<^bold>\<open>Conventions.\<close> A \<open>String\<close> is its bytes. A hash map is a partial function; where the code iterates over one, the
  result is a set, or the order is an argument and the theorems hold for every order. Times are naturals of
  nanoseconds (\<open>Instant\<close>) or rationals and reals (\<open>f64\<close> seconds); all \<open>f64\<close> arithmetic is exact. Integers keep their
  width where they can wrap. Errors are values of sum and option types, and a panic is the value
  \<open>None\<close>. Random bytes, clock readings, the outcome of system calls and of transports are arguments (\<open>node_env\<close>,
  \<open>relay_env\<close>, \<open>route_env\<close>, \<open>invite_env\<close>, \<open>file_env\<close>, \<open>os_view\<close>, \<open>file_net\<close>), so that the theorems hold whatever they return. Locks are not
  modelled: each operation is atomic, as it is under the lock that the code takes, and concurrency is the order of operations.

  \<^bold>\<open>Bounds and fuel.\<close> The only fuel is that of \<open>alloc_loop\<close> in \<open>Relay\<close>, which has 254 probes. They are
  enough because the search goes round the indices from 1 to 254 and stops where it started
  (\<open>alloc_loop_result\<close>); the property on the search says so. All other
  recursion is structural or has a termination proof.

  \<^bold>\<open>Not modelled.\<close> Sockets, TLS and certificates, task scheduling, start-up and shutdown, the text layer of JSON,
  and logging, which has no effect on the state. Of the client: the user interface (forwarding between Qt and
  the connection manager), sound and camera devices and codecs (drivers and floating-point loops), the
  select loop of the connection manager with its sockets, timers and dialogs, the key file, the
  updater and plugin processes. Of the supernode: the portal's static files, command-line parsing and statistics
  documents. The Android client, the installer and the deployment tool are front ends around the
  programs above; codec bindings and vendored crates are foreign code.
\<close>

end
